(* ===== verification/Prelude.thy ===== *)
theory Prelude
  imports
    Main
    "HOL-Library.Word"
    "HOL-Library.Multiset"
    "HOL-Library.Char_ord"
    "HOL-Library.List_Lexorder"
    "HOL-Library.Product_Lexorder"
begin

text \<open>
  Shared vocabulary of the development: names for the machine types the code uses, the
  truncating division of C++ and SQLite, the "first occurrence wins" loop that several
  components write out with a \<^verbatim>\<open>QSet\<close>, tables of byte counters keyed by anything, and
  \<^verbatim>\<open>std::stable_sort\<close> with the contract its comparators must satisfy.
\<close>

type_synonym bytes = "8 word list"
type_synonym u32 = "32 word"
type_synonym u64 = "64 word"

text \<open>A pair of byte counters: uploaded, downloaded.\<close>

type_synonym delta = "int \<times> int"

named_theorems conserve \<comment> \<open>how an operation changes the sum of a table\<close>

subsection \<open>Integer division of C++ and SQLite\<close>

text \<open>Both truncate towards zero; on non-negative operands this is HOL's division.\<close>

definition cdiv :: "int \<Rightarrow> int \<Rightarrow> int" where
  "cdiv a b = sgn a * sgn b * (\<bar>a\<bar> div \<bar>b\<bar>)"

definition crem :: "int \<Rightarrow> int \<Rightarrow> int" where
  "crem a b = a - cdiv a b * b"

lemma cdiv_nonneg [simp]: "0 \<le> a \<Longrightarrow> 0 < b \<Longrightarrow> cdiv a b = a div b"
  by (cases "a = 0") (simp_all add: cdiv_def)

lemma crem_nonneg [simp]: "0 \<le> a \<Longrightarrow> 0 < b \<Longrightarrow> crem a b = a mod b"
  by (simp add: crem_def minus_div_mult_eq_mod)

lemma le_div_iff: "0 < c \<Longrightarrow> n \<le> b div c \<longleftrightarrow> n * c \<le> b" for n b c :: int
proof
  assume c: "0 < c" and "n \<le> b div c"
  then have "n * c \<le> b div c * c" by (intro mult_right_mono) auto
  also have "\<dots> \<le> b" using c div_mult_mod_eq [of b c] pos_mod_sign [of c b] by linarith
  finally show "n * c \<le> b" .
next
  assume c: "0 < c" and "n * c \<le> b"
  then have "n * c div c \<le> b div c" by (intro zdiv_mono1) auto
  with c show "n \<le> b div c" by simp
qed

text \<open>The statements \<^verbatim>\<open>if (x < lo) x = lo;\<close> and \<^verbatim>\<open>if (x > hi) x = hi;\<close>.\<close>

definition at_least :: "int \<Rightarrow> int \<Rightarrow> int" where
  "at_least lo x = (if x < lo then lo else x)"

definition at_most :: "int \<Rightarrow> int \<Rightarrow> int" where
  "at_most hi x = (if x > hi then hi else x)"

lemma at_least_max: "at_least lo x = max lo x"
  and at_most_min: "at_most hi x = min hi x"
  by (simp_all add: at_least_def at_most_def)

subsection \<open>Loops that keep the first occurrence\<close>

text \<open>
  \<open>keep_first key seen xs\<close> is the loop that skips an element without a key, skips one whose
  key is in \<open>seen\<close>, and otherwise records the key and keeps the element.
\<close>

fun keep_first :: "('a \<Rightarrow> 'k option) \<Rightarrow> 'k list \<Rightarrow> 'a list \<Rightarrow> 'a list" where
  "keep_first key seen [] = []"
| "keep_first key seen (x # xs) =
     (case key x of
        None \<Rightarrow> keep_first key seen xs
      | Some k \<Rightarrow>
          if k \<in> set seen then keep_first key seen xs
          else x # keep_first key (k # seen) xs)"

lemma keep_first_keys:
  "the ` key ` set (keep_first key seen xs) =
   {k. \<exists>x \<in> set xs. key x = Some k} - set seen"
proof (induction xs arbitrary: seen)
  case Nil
  then show ?case by simp
next
  case (Cons x xs)
  show ?case
  proof (cases "key x")
    case None
    with Cons.IH show ?thesis by simp
  next
    case (Some k)
    show ?thesis
    proof (cases "k \<in> set seen")
      case True
      with Some Cons.IH show ?thesis by auto
    next
      case False
      have "the ` key ` set (keep_first key seen (x # xs)) =
              insert k ({k. \<exists>x \<in> set xs. key x = Some k} - set (k # seen))"
        using Some False Cons.IH [of "k # seen"] by simp
      with Some False show ?thesis by auto
    qed
  qed
qed

lemma keep_first_subset: "set (keep_first key seen xs) \<subseteq> {x \<in> set xs. key x \<noteq> None}"
  by (induction xs arbitrary: seen) (auto split: option.splits if_splits)

lemma keep_first_distinct: "distinct (map (the \<circ> key) (keep_first key seen xs))"
proof (induction xs arbitrary: seen)
  case Nil
  then show ?case by simp
next
  case (Cons x xs)
  have "k \<notin> the ` key ` set (keep_first key (k # seen) xs)" for k
    using keep_first_keys [of key "k # seen" xs] by auto
  with Cons.IH show ?case
    by (auto simp: image_comp split: option.splits)
qed

lemma keep_first_total_set:
  "set (keep_first Some seen xs) = set xs - set seen"
  using keep_first_keys [of Some seen xs] by (simp add: image_image)

lemma keep_first_total_distinct: "distinct (keep_first Some seen xs)"
  using keep_first_distinct [of Some seen xs] by (simp add: comp_def)

lemma keep_first_id:
  "distinct xs \<Longrightarrow> set xs \<inter> set seen = {} \<Longrightarrow> keep_first Some seen xs = xs"
  by (induction xs arbitrary: seen) auto

subsection \<open>Tables of byte counters\<close>

definition dzero :: delta where
  "dzero = (0, 0)"

definition dadd :: "delta \<Rightarrow> delta \<Rightarrow> delta" where
  "dadd a b = (fst a + fst b, snd a + snd b)"

lemma dadd_simps [simp]: "dadd dzero b = b" "dadd a dzero = a" "dadd (a1, a2) (b1, b2) = (a1 + b1, a2 + b2)"
  by (simp_all add: dadd_def dzero_def)

lemma dadd_assoc: "dadd (dadd a b) c = dadd a (dadd b c)"
  and dadd_commute: "dadd a b = dadd b a"
  and dadd_left_commute: "dadd b (dadd a c) = dadd a (dadd b c)"
  by (simp_all add: dadd_def)

lemmas dadd_ac = dadd_assoc dadd_commute dadd_left_commute

definition dsum :: "delta list \<Rightarrow> delta" where
  "dsum ds = foldr dadd ds dzero"

lemma dsum_simps [simp]:
  "dsum [] = dzero" "dsum (d # ds) = dadd d (dsum ds)" "dsum (xs @ ys) = dadd (dsum xs) (dsum ys)"
proof -
  show "dsum [] = dzero" "dsum (d # ds) = dadd d (dsum ds)" by (simp_all add: dsum_def)
  show "dsum (xs @ ys) = dadd (dsum xs) (dsum ys)"
    by (induction xs) (simp_all add: dsum_def dadd_assoc)
qed

text \<open>
  A table is the list of its rows, one per key. \<open>upsert\<close> is
  \<^verbatim>\<open>INSERT ... ON CONFLICT DO UPDATE SET up = up + excluded.up, ...\<close>, and equally the
  \<^verbatim>\<open>auto& d = accum[key]; d.up += up; ...\<close> of the in-memory accumulators.
\<close>

type_synonym 'k table = "('k \<times> delta) list"

fun upsert :: "'k \<Rightarrow> delta \<Rightarrow> 'k table \<Rightarrow> 'k table" where
  "upsert k d [] = [(k, d)]"
| "upsert k d ((k', d') # t) =
     (if k' = k then (k', dadd d' d) # t else (k', d') # upsert k d t)"

definition amount :: "('k \<Rightarrow> bool) \<Rightarrow> 'k table \<Rightarrow> delta" where
  "amount P t = dsum (map snd (filter (\<lambda>r. P (fst r)) t))"

lemma amount_simps [simp]:
  "amount P [] = dzero"
  "amount P ((k, d) # t) = dadd (if P k then d else dzero) (amount P t)"
  "amount P (t @ u) = dadd (amount P t) (amount P u)"
  by (simp_all add: amount_def)

lemma amount_upsert [conserve]:
  "amount P (upsert k d t) = dadd (if P k then d else dzero) (amount P t)"
  by (induction k d t rule: upsert.induct) (auto simp: dadd_ac)

lemma amount_filter [conserve]: "amount P (filter (\<lambda>r. Q (fst r)) t) = amount (\<lambda>k. P k \<and> Q k) t"
  by (simp add: amount_def conj_commute)

lemma amount_split: "amount P t = dadd (amount (\<lambda>k. P k \<and> Q k) t) (amount (\<lambda>k. P k \<and> \<not> Q k) t)"
  by (induction t) (auto simp: dadd_ac)

lemma amount_cong: "(\<And>r. r \<in> set t \<Longrightarrow> P (fst r) = Q (fst r)) \<Longrightarrow> amount P t = amount Q t"
  unfolding amount_def by (metis (no_types, lifting) filter_cong)

lemma amount_none: "(\<And>r. r \<in> set t \<Longrightarrow> \<not> P (fst r)) \<Longrightarrow> amount P t = dzero"
  by (simp add: amount_def)

lemma keys_upsert: "fst ` set (upsert k d t) = insert k (fst ` set t)"
  by (induction k d t rule: upsert.induct) auto

lemma distinct_upsert: "distinct (map fst t) \<Longrightarrow> distinct (map fst (upsert k d t))"
proof (induction k d t rule: upsert.induct)
  case (2 k d k' d' t)
  then show ?case using keys_upsert [of k d t] by auto
qed simp

text \<open>
  The contract the statistics code relies on, wherever a counter is added to: the sum over
  any set of keys grows by exactly the row that was added.
\<close>

locale counter_store =
  fixes put :: "'k \<Rightarrow> delta \<Rightarrow> 's \<Rightarrow> 's"
    and sum_of :: "('k \<Rightarrow> bool) \<Rightarrow> 's \<Rightarrow> delta"
  assumes sum_put: "sum_of P (put k d s) = dadd (if P k then d else dzero) (sum_of P s)"
begin

lemma sum_put_batch:
  "sum_of P (fold (\<lambda>(k, d). put k d) rows s) = dadd (amount P rows) (sum_of P s)"
  by (induction rows arbitrary: s) (auto simp: sum_put dadd_ac)

lemma sum_put_zero: "sum_of P (put k dzero s) = sum_of P s"
  by (simp add: sum_put)

end

interpretation counters: counter_store upsert amount
  by unfold_locales (rule amount_upsert)

lemma distinct_upsert_batch:
  "distinct (map fst t) \<Longrightarrow> distinct (map fst (fold (\<lambda>(k, d). upsert k d) rows t))"
  by (induction rows arbitrary: t) (auto simp: distinct_upsert)

subsection \<open>std::stable_sort\<close>

fun insert_by :: "('a \<Rightarrow> 'a \<Rightarrow> bool) \<Rightarrow> 'a \<Rightarrow> 'a list \<Rightarrow> 'a list" where
  "insert_by lt x [] = [x]"
| "insert_by lt x (y # ys) = (if lt y x then y # insert_by lt x ys else x # y # ys)"

fun stable_sort :: "('a \<Rightarrow> 'a \<Rightarrow> bool) \<Rightarrow> 'a list \<Rightarrow> 'a list" where
  "stable_sort lt [] = []"
| "stable_sort lt (x # xs) = insert_by lt x (stable_sort lt xs)"

lemma mset_insert_by: "mset (insert_by lt x ys) = add_mset x (mset ys)"
  by (induction ys) auto

lemma mset_stable_sort [simp]: "mset (stable_sort lt xs) = mset xs"
  by (induction xs) (auto simp: mset_insert_by)

lemma set_stable_sort [simp]: "set (stable_sort lt xs) = set xs"
  using mset_stable_sort by (rule mset_eq_setD)

lemma length_stable_sort [simp]: "length (stable_sort lt xs) = length xs"
  using mset_stable_sort by (rule mset_eq_length)

lemma distinct_stable_sort [simp]: "distinct (stable_sort lt xs) = distinct xs"
  using mset_stable_sort by (rule mset_eq_imp_distinct_iff)

text \<open>
  What C++ demands of a comparator. Without it the result of a sort is undefined; with it the
  result is sorted and stable.
\<close>

locale strict_weak_order =
  fixes lt :: "'a \<Rightarrow> 'a \<Rightarrow> bool"
  assumes asym: "lt x y \<Longrightarrow> \<not> lt y x"
    and neg_trans: "lt x z \<Longrightarrow> lt x y \<or> lt y z"
begin

lemma irrefl: "\<not> lt x x"
  using asym by blast

lemma trans: "lt x y \<Longrightarrow> lt y z \<Longrightarrow> lt x z"
  using asym neg_trans by blast

lemma sorted_insert_by:
  assumes "sorted_wrt (\<lambda>a b. \<not> lt b a) ys"
  shows "sorted_wrt (\<lambda>a b. \<not> lt b a) (insert_by lt x ys)"
  using assms
proof (induction ys)
  case Nil
  then show ?case by simp
next
  case (Cons y ys)
  have set_ins: "set (insert_by lt x ys) = insert x (set ys)"
    using mset_insert_by [of lt x ys] by (metis set_mset_add_mset_insert set_mset_mset)
  show ?case
  proof (cases "lt y x")
    case True
    with Cons asym set_ins show ?thesis by auto
  next
    case False
    with Cons.prems neg_trans show ?thesis by auto
  qed
qed

lemma sorted_stable_sort: "sorted_wrt (\<lambda>a b. \<not> lt b a) (stable_sort lt xs)"
  by (induction xs) (auto intro: sorted_insert_by)

lemma filter_insert_by:
  assumes "sorted_wrt (\<lambda>a b. \<not> lt b a) ys"
  shows "filter (\<lambda>y. \<not> lt a y \<and> \<not> lt y a) (insert_by lt x ys) =
         filter (\<lambda>y. \<not> lt a y \<and> \<not> lt y a) (x # ys)"
  using assms
proof (induction ys)
  case Nil
  then show ?case by simp
next
  case (Cons y ys)
  show ?case
  proof (cases "lt y x")
    case True
    then have "\<not> ((\<not> lt a x \<and> \<not> lt x a) \<and> (\<not> lt a y \<and> \<not> lt y a))"
      using neg_trans by blast
    with True Cons show ?thesis by auto
  next
    case False
    then show ?thesis by simp
  qed
qed

lemma stable_stable_sort:
  "filter (\<lambda>y. \<not> lt a y \<and> \<not> lt y a) (stable_sort lt xs) =
   filter (\<lambda>y. \<not> lt a y \<and> \<not> lt y a) xs"
  by (induction xs) (auto simp: filter_insert_by sorted_stable_sort)

text \<open>Where no two elements tie, every sort agrees, stable or not.\<close>

lemma sorted_unique:
  assumes "mset xs = mset ys"
    and "sorted_wrt (\<lambda>a b. \<not> lt b a) xs" and "sorted_wrt (\<lambda>a b. \<not> lt b a) ys"
    and "\<And>a b. a \<in> set xs \<Longrightarrow> b \<in> set xs \<Longrightarrow> \<not> lt a b \<Longrightarrow> \<not> lt b a \<Longrightarrow> a = b"
  shows "xs = ys"
  using assms
proof (induction xs arbitrary: ys)
  case (Cons x xs)
  then obtain y zs where ys: "ys = y # zs" by (cases ys) auto
  have sets: "set (x # xs) = set (y # zs)" using Cons.prems(1) ys by (metis mset_eq_setD)
  then have "y \<in> set (x # xs)" "x \<in> set (y # zs)" by auto
  moreover from this have "x \<noteq> y \<Longrightarrow> \<not> lt x y \<and> \<not> lt y x" using Cons.prems(2,3) ys by auto
  ultimately have xy: "x = y" using Cons.prems(4) [of x y] by auto
  have "xs = zs"
  proof (rule Cons.IH)
    show "mset xs = mset zs" using Cons.prems(1) ys xy by simp
    show "sorted_wrt (\<lambda>a b. \<not> lt b a) xs" "sorted_wrt (\<lambda>a b. \<not> lt b a) zs"
      using Cons.prems(2,3) ys by simp_all
    show "a = b" if "a \<in> set xs" "b \<in> set xs" "\<not> lt a b" "\<not> lt b a" for a b
      using Cons.prems(4) [of a b] that by simp
  qed
  with xy ys show ?case by simp
qed simp

end

text \<open>A comparator that compares keys in a linear order satisfies the contract.\<close>

locale keyed_comparator =
  fixes lt :: "'a \<Rightarrow> 'a \<Rightarrow> bool"
    and key :: "'a \<Rightarrow> 'k::linorder"
  assumes lt_key: "lt x y \<longleftrightarrow> key x < key y"

sublocale keyed_comparator \<subseteq> strict_weak_order lt
  by unfold_locales (auto simp: lt_key)

context keyed_comparator
begin

lemma sorted_keys: "sorted (map key (stable_sort lt xs))"
  using sorted_stable_sort [of xs] by (simp add: lt_key not_less sorted_map)

lemma head_minimal:
  assumes "stable_sort lt xs = y # ys" and "x \<in> set xs"
  shows "key y \<le> key x"
proof -
  have "sorted (map key (y # ys))" using sorted_keys [of xs] assms(1) by simp
  moreover have "x \<in> set (y # ys)" using assms by (metis set_stable_sort)
  ultimately show ?thesis by auto
qed

end

subsection \<open>Enumerations as tokens\<close>

text \<open>A token or number that stands for an enumeration value, and the decoder that reads it.\<close>

locale token_codec =
  fixes enc :: "'a \<Rightarrow> 'b"
    and dec :: "'b \<Rightarrow> 'a"
  assumes dec_enc: "dec (enc x) = x"
begin

lemma enc_inject: "enc x = enc y \<longleftrightarrow> x = y"
  by (metis dec_enc)

lemma dec_enc_list: "map dec (map enc xs) = xs"
  by (simp add: dec_enc comp_def)

end

text \<open>Truncation of a list to at most \<open>n\<close> elements, \<^verbatim>\<open>list.mid(0, n)\<close>.\<close>

lemma take_nat_length: "length (take (nat n) xs) \<le> nat n"
  by simp

subsection \<open>Decimal rendering\<close>

text \<open>\<^verbatim>\<open>QString::number\<close> in base ten, and \<^verbatim>\<open>QString::arg\<close> with a width and the fill \<^verbatim>\<open>'0'\<close>.\<close>

definition digit_char :: "nat \<Rightarrow> char" where
  "digit_char d = char_of (48 + d)"

fun decimal :: "nat \<Rightarrow> string" where
  "decimal n = (if n < 10 then [digit_char n] else decimal (n div 10) @ [digit_char (n mod 10)])"

declare decimal.simps [simp del]

definition number :: "int \<Rightarrow> string" where
  "number i = (if i < 0 then CHR ''-'' # decimal (nat (- i)) else decimal (nat i))"

definition zero_padded :: "nat \<Rightarrow> nat \<Rightarrow> string" where
  "zero_padded width n = replicate (width - length (decimal n)) (CHR ''0'') @ decimal n"

lemma length_decimal: "0 < d \<Longrightarrow> n < 10 ^ d \<Longrightarrow> length (decimal n) \<le> d"
proof (induction n arbitrary: d rule: decimal.induct)
  case (1 n)
  show ?case
  proof (cases "n < 10")
    case True
    with "1.prems" show ?thesis by (subst decimal.simps) simp
  next
    case False
    with "1.prems" have "d \<noteq> 0" "d \<noteq> 1" by auto
    then obtain e where d: "d = Suc e" and e: "0 < e"
      by (cases d) auto
    have "n div 10 < 10 ^ e" using "1.prems" d by (simp add: less_mult_imp_div_less mult.commute)
    with "1.IH" [OF False e] d False show ?thesis by (subst decimal.simps) simp
  qed
qed

lemma length_zero_padded: "0 < d \<Longrightarrow> n < 10 ^ d \<Longrightarrow> length (zero_padded d n) = d"
  using length_decimal [of d n] by (simp add: zero_padded_def)

definition is_digit :: "char \<Rightarrow> bool" where
  "is_digit c \<longleftrightarrow> c \<in> digit_char ` {..<10}"

lemma decimal_digits: "set (decimal n) \<subseteq> {c. is_digit c}"
proof (induction n rule: decimal.induct)
  case (1 n)
  have "n mod 10 \<in> {..<10}" by simp
  with 1 show ?case
    by (subst decimal.simps) (auto simp: is_digit_def)
qed

lemma is_digit_0: "is_digit (CHR ''0'')"
proof -
  have "digit_char 0 = CHR ''0''" by code_simp
  then show ?thesis unfolding is_digit_def by (metis imageI lessThan_iff zero_less_numeral)
qed

lemma zero_padded_digits: "set (zero_padded d n) \<subseteq> {c. is_digit c}"
  using decimal_digits [of n] is_digit_0 by (auto simp: zero_padded_def)

subsection \<open>Splitting text\<close>

text \<open>\<^verbatim>\<open>QString::split\<close> at a character, with and without the empty parts.\<close>

fun split_on :: "char \<Rightarrow> string \<Rightarrow> string \<Rightarrow> string list" where
  "split_on sep part [] = [rev part]"
| "split_on sep part (c # cs) =
     (if c = sep then rev part # split_on sep [] cs else split_on sep (c # part) cs)"

definition split_skip_empty :: "char \<Rightarrow> string \<Rightarrow> string list" where
  "split_skip_empty sep s = filter (\<lambda>p. p \<noteq> []) (split_on sep [] s)"

lemma split_on_lines:
  assumes "\<forall>l \<in> set ls. sep \<notin> set l"
  shows "split_on sep [] (concat (map (\<lambda>l. l @ [sep]) ls)) = ls @ [[]]"
proof -
  have line: "split_on sep part (l @ sep # cs) = (rev part @ l) # split_on sep [] cs"
    if "sep \<notin> set l" for part l cs
    using that by (induction l arbitrary: part) auto
  show ?thesis using assms by (induction ls) (simp_all add: line)
qed

subsection \<open>Lists without repetitions\<close>

text \<open>\<^verbatim>\<open>if (!out.contains(x)) out.append(x);\<close> and the first element that satisfies a test, updated.\<close>

definition append_new :: "'a \<Rightarrow> 'a list \<Rightarrow> 'a list" where
  "append_new x out = (if x \<in> set out then out else out @ [x])"

lemma fold_append_new: "fold append_new xs acc = acc @ keep_first Some (rev acc) xs"
  by (induction xs arbitrary: acc) (simp_all add: append_new_def)

fun update_first :: "('a \<Rightarrow> bool) \<Rightarrow> ('a \<Rightarrow> 'a) \<Rightarrow> 'a list \<Rightarrow> 'a list" where
  "update_first P f [] = []"
| "update_first P f (x # xs) = (if P x then f x # xs else x # update_first P f xs)"

end
