(* ===== verification/Json.thy ===== *)
theory Json
  imports Complex_Main Prelude
begin

text \<open>
  The Qt value types the components exchange. A \<^verbatim>\<open>QString\<close> is a list of code units
  (\<open>string\<close>); a \<^verbatim>\<open>QJsonValue\<close> is the datatype \<open>json\<close>, with the conversions
  \<^verbatim>\<open>toInt(default)\<close>, \<^verbatim>\<open>toString()\<close>, ... that fall back to a default on a value of another
  type; a \<^verbatim>\<open>QJsonObject\<close> is the list of its members in key order, which is the order
  in which the code iterates over it.

  Text functions with an algorithm of their own (Unicode white space and case, number
  parsing, UTF-8) belong to Qt and are not part of this repository: they are the record
  \<open>qt_text\<close>, an argument of every definition that uses one of them. \<open>ascii_text\<close> is a concrete
  instance for 7-bit text, on which the witnesses run.
\<close>

datatype json =
    JUndefined
  | JNull
  | JBool bool
  | JNum rat
  | JStr string
  | JArr "json list"
  | JObj "(string \<times> json) list"

type_synonym jobject = "(string \<times> json) list"

subsection \<open>Conversions with defaults\<close>

definition is_int32 :: "int \<Rightarrow> bool" where
  "is_int32 i \<longleftrightarrow> - (2 ^ 31) \<le> i \<and> i < 2 ^ 31"

definition to_int :: "int \<Rightarrow> json \<Rightarrow> int" where
  "to_int d v = (case v of
     JNum r \<Rightarrow> if of_int \<lfloor>r\<rfloor> = r \<and> is_int32 \<lfloor>r\<rfloor> then \<lfloor>r\<rfloor> else d
   | _ \<Rightarrow> d)"

definition to_str :: "string \<Rightarrow> json \<Rightarrow> string" where
  "to_str d v = (case v of JStr s \<Rightarrow> s | _ \<Rightarrow> d)"

definition to_bool :: "bool \<Rightarrow> json \<Rightarrow> bool" where
  "to_bool d v = (case v of JBool b \<Rightarrow> b | _ \<Rightarrow> d)"

definition to_double :: "json \<Rightarrow> rat" where
  "to_double v = (case v of JNum r \<Rightarrow> r | _ \<Rightarrow> 0)"

definition to_arr :: "json \<Rightarrow> json list" where
  "to_arr v = (case v of JArr xs \<Rightarrow> xs | _ \<Rightarrow> [])"

definition to_obj :: "json \<Rightarrow> jobject" where
  "to_obj v = (case v of JObj ob \<Rightarrow> ob | _ \<Rightarrow> [])"

definition is_double :: "json \<Rightarrow> bool" where
  "is_double v = (case v of JNum _ \<Rightarrow> True | _ \<Rightarrow> False)"

definition is_object :: "json \<Rightarrow> bool" where
  "is_object v = (case v of JObj _ \<Rightarrow> True | _ \<Rightarrow> False)"

definition jint :: "int \<Rightarrow> json" where
  "jint i = JNum (of_int i)"

lemma to_int_jint [simp]: "is_int32 i \<Longrightarrow> to_int d (jint i) = i"
  by (simp add: to_int_def jint_def)

lemma conversions [simp]:
  "to_str d (JStr s) = s" "to_bool c (JBool b) = b" "to_arr (JArr xs) = xs"
  "to_obj (JObj ob) = ob" "to_double (JNum r) = r" "to_double (jint i) = of_int i"
  "to_str d JUndefined = d" "to_bool b JUndefined = b" "to_arr JUndefined = []"
  "to_obj JUndefined = []" "to_int e JUndefined = e" "to_double JUndefined = 0"
  "is_double (JNum r)" "is_double (jint i)" "\<not> is_double (JStr s)"
  "is_object (JObj ob)" "\<not> is_object (JArr xs)"
  by (simp_all add: to_str_def to_bool_def to_arr_def to_obj_def to_double_def jint_def
      to_int_def is_double_def is_object_def)

subsection \<open>64-bit integers and doubles\<close>

text \<open>
  \<^verbatim>\<open>static_cast<double>\<close> of a 64-bit integer: exact up to \<open>2 ^ 53\<close>, otherwise the nearest
  representable value, ties to even. \<^verbatim>\<open>static_cast<qint64>\<close> of a double truncates.
\<close>

fun bit_length :: "nat \<Rightarrow> nat" where
  "bit_length n = (if n = 0 then 0 else Suc (bit_length (n div 2)))"

declare bit_length.simps [simp del]

definition int64_to_double :: "int \<Rightarrow> rat" where
  "int64_to_double x =
     (if \<bar>x\<bar> \<le> 2 ^ 53 then of_int x
      else let e = bit_length (nat \<bar>x\<bar>) - 53;
               q = \<bar>x\<bar> div 2 ^ e;
               r = \<bar>x\<bar> mod 2 ^ e;
               half = 2 ^ (e - 1);
               m = (if half < r \<or> (r = half \<and> odd q) then q + 1 else q)
           in of_int (sgn x * m * 2 ^ e))"

definition double_to_int64 :: "rat \<Rightarrow> int" where
  "double_to_int64 r = (if 0 \<le> r then \<lfloor>r\<rfloor> else - \<lfloor>- r\<rfloor>)"

lemma double_int64_exact [simp]: "\<bar>x\<bar> \<le> 2 ^ 53 \<Longrightarrow> double_to_int64 (int64_to_double x) = x"
  by (simp add: double_to_int64_def int64_to_double_def)

lemma double_to_int64_of_int [simp]: "double_to_int64 (of_int x) = x"
  by (simp add: double_to_int64_def)

subsection \<open>Objects\<close>

fun jput :: "string \<Rightarrow> json \<Rightarrow> jobject \<Rightarrow> jobject" where
  "jput k v [] = [(k, v)]"
| "jput k v ((k', v') # ob) =
     (if k < k' then (k, v) # (k', v') # ob
      else if k = k' then (k, v) # ob
      else (k', v') # jput k v ob)"

definition jcontains :: "jobject \<Rightarrow> string \<Rightarrow> bool" where
  "jcontains ob k \<longleftrightarrow> map_of ob k \<noteq> None"

definition jget :: "jobject \<Rightarrow> string \<Rightarrow> json" where
  "jget ob k = (case map_of ob k of None \<Rightarrow> JUndefined | Some v \<Rightarrow> v)"

text \<open>A run of assignments \<^verbatim>\<open>object[k] = v\<close> on a fresh object.\<close>

definition jbuild :: "(string \<times> json) list \<Rightarrow> jobject" where
  "jbuild fs = fold (\<lambda>(k, v). jput k v) fs []"

text \<open>
  What the code expects of a JSON object: an assignment is visible under its key and under
  no other.
\<close>

locale object_store =
  fixes empty_store :: 'o
    and put :: "'k \<Rightarrow> 'v \<Rightarrow> 'o \<Rightarrow> 'o"
    and look :: "'o \<Rightarrow> 'k \<Rightarrow> 'v option"
  assumes look_empty: "look empty_store k = None"
    and look_put: "look (put k v ob) k' = (if k' = k then Some v else look ob k')"
begin

lemma look_puts: "look (fold (\<lambda>(k, v). put k v) fs ob) k =
    (case map_of (rev fs) k of None \<Rightarrow> look ob k | Some v \<Rightarrow> Some v)"
  by (induction fs arbitrary: ob) (auto simp: look_put split: option.splits)

lemma look_build:
  assumes "distinct (map fst fs)"
  shows "look (fold (\<lambda>(k, v). put k v) fs empty_store) k = map_of fs k"
proof -
  have "distinct (map fst (rev fs))"
    using assms by (simp add: rev_map [symmetric])
  then have "map_of (rev fs) k = Some v \<longleftrightarrow> map_of fs k = Some v" for v
    using assms by simp
  then have "map_of (rev fs) k = map_of fs k"
    by (metis option.exhaust)
  then show ?thesis by (simp add: look_puts look_empty split: option.splits)
qed

end

interpretation json_store: object_store "[]" jput map_of
proof
  fix k k' :: string and v ob
  show "map_of (jput k v ob) k' = (if k' = k then Some v else map_of ob k')"
    by (induction k v ob rule: jput.induct) auto
qed simp

lemma map_of_jbuild: "distinct (map fst fs) \<Longrightarrow> map_of (jbuild fs) = map_of fs"
  unfolding jbuild_def by (rule ext) (rule json_store.look_build)

lemma jget_jbuild: "distinct (map fst fs) \<Longrightarrow>
    jget (jbuild fs) k = (case map_of fs k of None \<Rightarrow> JUndefined | Some v \<Rightarrow> v)"
  by (simp add: jget_def map_of_jbuild)

lemma jcontains_jbuild: "distinct (map fst fs) \<Longrightarrow> jcontains (jbuild fs) k \<longleftrightarrow> map_of fs k \<noteq> None"
  by (simp add: jcontains_def map_of_jbuild)

lemma keys_jput: "fst ` set (jput k v ob) = insert k (fst ` set ob)"
  by (induction k v ob rule: jput.induct) auto

lemma jput_nonempty [simp]: "jput k v ob \<noteq> []"
  by (cases ob) (auto split: if_splits)

lemma keys_jputs: "fst ` set (fold (\<lambda>(k, v). jput k v) fs ob) = fst ` set fs \<union> fst ` set ob"
  by (induction fs arbitrary: ob) (simp_all add: keys_jput split_beta)

lemma keys_jbuild: "fst ` set (jbuild fs) = fst ` set fs"
  by (simp add: jbuild_def keys_jputs)

lemma jbuild_nonempty: "fs \<noteq> [] \<Longrightarrow> jbuild fs \<noteq> []"
  using keys_jbuild [of fs] by auto

text \<open>Objects keep their members sorted by key, without duplicates.\<close>

definition wf_object :: "jobject \<Rightarrow> bool" where
  "wf_object ob \<longleftrightarrow> sorted_wrt (<) (map fst ob)"

lemma wf_jput: "wf_object ob \<Longrightarrow> wf_object (jput k v ob)"
proof (induction k v ob rule: jput.induct)
  case (2 k v k' v' ob)
  show ?case
  proof (cases "k < k' \<or> k = k'")
    case True
    with "2.prems" show ?thesis by (auto simp: wf_object_def)
  next
    case False
    then have "k' < k" by auto
    with "2.prems" "2.IH" False keys_jput [of k v ob] show ?thesis
      by (auto simp: wf_object_def)
  qed
qed (simp add: wf_object_def)

lemma wf_jputs: "wf_object ob \<Longrightarrow> wf_object (fold (\<lambda>(k, v). jput k v) fs ob)"
  by (induction fs arbitrary: ob) (auto intro: wf_jput)

lemma wf_jbuild: "wf_object (jbuild fs)"
  unfolding jbuild_def by (rule wf_jputs) (simp add: wf_object_def)

subsection \<open>Array helpers of Utils.cpp\<close>

definition QListInt2QJsonArray :: "int list \<Rightarrow> json list" where
  "QListInt2QJsonArray xs = map jint xs"

definition QJsonArray2QListInt :: "json list \<Rightarrow> int list" where
  "QJsonArray2QListInt arr = map (to_int 0) arr"

definition QJsonArray2QListString :: "json list \<Rightarrow> string list" where
  "QJsonArray2QListString arr = map (to_str []) arr"

lemma QListInt_roundtrip:
  "list_all is_int32 xs \<Longrightarrow> QJsonArray2QListInt (QListInt2QJsonArray xs) = xs"
  by (induction xs) (auto simp: QJsonArray2QListInt_def QListInt2QJsonArray_def)

lemma QListString_roundtrip: "QJsonArray2QListString (map JStr xs) = xs"
  by (induction xs) (auto simp: QJsonArray2QListString_def)

subsection \<open>Text functions of Qt\<close>

record qt_text =
  qt_trimmed :: "string \<Rightarrow> string"
  qt_upper :: "string \<Rightarrow> string"
  qt_lower :: "string \<Rightarrow> string"
  qt_fold :: "string \<Rightarrow> string" \<comment> \<open>case folding, for \<^verbatim>\<open>Qt::CaseInsensitive\<close>\<close>
  qt_int :: "string \<Rightarrow> int" \<comment> \<open>\<^verbatim>\<open>toInt\<close>, 0 when the text is no number\<close>
  qt_longlong :: "string \<Rightarrow> int"
  qt_utf8 :: "string \<Rightarrow> bytes"
  qt_from_utf8 :: "bytes \<Rightarrow> string"

text \<open>
  \<^verbatim>\<open>toVariant().toLongLong()\<close>: numbers are rounded, text is parsed, booleans count as 0 and 1.
\<close>

definition to_longlong :: "'z qt_text_scheme \<Rightarrow> json \<Rightarrow> int" where
  "to_longlong Q v = (case v of
     JNum r \<Rightarrow> if 0 \<le> r then \<lfloor>r + 1 / 2\<rfloor> else - \<lfloor>- r + 1 / 2\<rfloor>
   | JStr s \<Rightarrow> qt_longlong Q s
   | JBool b \<Rightarrow> of_bool b
   | _ \<Rightarrow> 0)"

lemma floor_half [simp]: "\<lfloor>of_int i + 1 / 2 :: rat\<rfloor> = i"
  by (rule floor_unique) simp_all

lemma to_longlong_jint [simp]: "to_longlong Q (jint i) = i"
  using floor_half [of "- i"] by (simp add: to_longlong_def jint_def)

lemma to_longlong_undefined [simp]: "to_longlong Q JUndefined = 0"
  by (simp add: to_longlong_def)

definition starts_with :: "string \<Rightarrow> string \<Rightarrow> bool" where
  "starts_with s p \<longleftrightarrow> take (length p) s = p"

definition str_contains :: "string \<Rightarrow> string \<Rightarrow> bool" where
  "str_contains s p \<longleftrightarrow> (\<exists>i \<in> set [0..<Suc (length s)]. starts_with (drop i s) p)"

definition starts_with_ci :: "'z qt_text_scheme \<Rightarrow> string \<Rightarrow> string \<Rightarrow> bool" where
  "starts_with_ci Q s p \<longleftrightarrow> qt_fold Q (take (length p) s) = qt_fold Q p"

definition equals_ci :: "'z qt_text_scheme \<Rightarrow> string \<Rightarrow> string \<Rightarrow> bool" where
  "equals_ci Q s t \<longleftrightarrow> qt_fold Q s = qt_fold Q t"

lemma starts_with_append [simp]: "starts_with (p @ s) p"
  by (simp add: starts_with_def)

text \<open>The instance for 7-bit text.\<close>

definition ascii_space :: "char \<Rightarrow> bool" where
  "ascii_space c \<longleftrightarrow> of_char c \<in> set [9, 10, 11, 12, 13, 32 :: nat]"

definition ascii_trim :: "string \<Rightarrow> string" where
  "ascii_trim s = rev (dropWhile ascii_space (rev (dropWhile ascii_space s)))"

lemma ascii_trim_empty: "ascii_trim s = [] \<longleftrightarrow> (\<forall>c \<in> set s. ascii_space c)"
proof -
  have "ascii_trim s = [] \<longleftrightarrow> (\<forall>c \<in> set (dropWhile ascii_space s). ascii_space c)"
    by (auto simp: ascii_trim_def dropWhile_eq_Nil_conv)
  also have "\<dots> \<longleftrightarrow> dropWhile ascii_space s = []"
    by (metis dropWhile_eq_Nil_conv dropWhile_idem hd_in_set hd_dropWhile empty_iff list.set(1))
  finally show ?thesis by (simp add: dropWhile_eq_Nil_conv)
qed

definition ascii_up :: "char \<Rightarrow> char" where
  "ascii_up c = (let n = of_char c :: nat in if 97 \<le> n \<and> n \<le> 122 then char_of (n - 32) else c)"

definition ascii_low :: "char \<Rightarrow> char" where
  "ascii_low c = (let n = of_char c :: nat in if 65 \<le> n \<and> n \<le> 90 then char_of (n + 32) else c)"

fun ascii_nat :: "nat \<Rightarrow> string \<Rightarrow> nat option" where
  "ascii_nat acc [] = Some acc"
| "ascii_nat acc (c # cs) =
     (let n = of_char c :: nat
      in if 48 \<le> n \<and> n \<le> 57 then ascii_nat (10 * acc + (n - 48)) cs else None)"

definition ascii_int :: "string \<Rightarrow> int" where
  "ascii_int s = (case ascii_trim s of
     [] \<Rightarrow> 0
   | c # cs \<Rightarrow>
       if c = CHR ''-'' then (case ascii_nat 0 cs of Some n \<Rightarrow> - int n | None \<Rightarrow> 0)
       else (case ascii_nat 0 (c # cs) of Some n \<Rightarrow> int n | None \<Rightarrow> 0))"

definition ascii_text :: qt_text where
  "ascii_text = \<lparr>qt_trimmed = ascii_trim, qt_upper = map ascii_up, qt_lower = map ascii_low,
     qt_fold = map ascii_low, qt_int = ascii_int, qt_longlong = ascii_int,
     qt_utf8 = map (\<lambda>c. word_of_nat (of_char c)),
     qt_from_utf8 = map (\<lambda>b. char_of (unat b))\<rparr>"

end
