(* ===== verification/JsonCodec.thy ===== *)
theory JsonCodec
  imports Json
begin

text \<open>
  How an outbound class stores itself: \<^verbatim>\<open>ExportToJson\<close> writes a member only when the field
  differs from its default, \<^verbatim>\<open>ParseFromJson\<close> reads a member only when it is there. Both are runs
  of one-line statements, one per field, written here as a list of rows: the key, what is written
  (nothing for a default), and how the value is read. A class whose fields survive storing is a
  \<open>stored_form\<close>.
\<close>

type_synonym 'r json_row = "string \<times> ('r \<Rightarrow> json option) \<times> (json \<Rightarrow> 'r \<Rightarrow> 'r)"

definition row_members :: "'r json_row list \<Rightarrow> 'r \<Rightarrow> (string \<times> json) list" where
  "row_members rows r =
     concat (map (\<lambda>(k, emit, _). case emit r of None \<Rightarrow> [] | Some v \<Rightarrow> [(k, v)]) rows)"

fun parse_rows :: "'r json_row list \<Rightarrow> jobject \<Rightarrow> 'r \<Rightarrow> 'r" where
  "parse_rows [] ob r = r"
| "parse_rows ((k, _, rd) # rows) ob r =
     parse_rows rows ob (if jcontains ob k then rd (jget ob k) r else r)"

definition mergeJsonObjects :: "jobject \<Rightarrow> jobject \<Rightarrow> jobject" where
  "mergeJsonObjects base ob = fold (\<lambda>(k, v). jput k v) ob base"

definition QListStr2QJsonArray :: "string list \<Rightarrow> json" where
  "QListStr2QJsonArray ss = JArr (map JStr ss)"

subsection \<open>The kinds of field\<close>

definition emit_text :: "('r \<Rightarrow> string) \<Rightarrow> 'r \<Rightarrow> json option" where
  "emit_text get r = (if get r = [] then None else Some (JStr (get r)))"

definition emit_flag :: "('r \<Rightarrow> bool) \<Rightarrow> 'r \<Rightarrow> json option" where
  "emit_flag get r = (if get r then Some (JBool True) else None)"

definition emit_pos :: "('r \<Rightarrow> int) \<Rightarrow> 'r \<Rightarrow> json option" where
  "emit_pos get r = (if 0 < get r then Some (jint (get r)) else None)"

definition emit_texts :: "('r \<Rightarrow> string list) \<Rightarrow> 'r \<Rightarrow> json option" where
  "emit_texts get r = (if get r = [] then None else Some (QListStr2QJsonArray (get r)))"

definition read_text :: "((string \<Rightarrow> string) \<Rightarrow> 'r \<Rightarrow> 'r) \<Rightarrow> json \<Rightarrow> 'r \<Rightarrow> 'r" where
  "read_text upd v = upd (\<lambda>_. to_str [] v)"

definition read_flag :: "((bool \<Rightarrow> bool) \<Rightarrow> 'r \<Rightarrow> 'r) \<Rightarrow> json \<Rightarrow> 'r \<Rightarrow> 'r" where
  "read_flag upd v = upd (\<lambda>_. to_bool False v)"

definition read_int :: "((int \<Rightarrow> int) \<Rightarrow> 'r \<Rightarrow> 'r) \<Rightarrow> json \<Rightarrow> 'r \<Rightarrow> 'r" where
  "read_int upd v = upd (\<lambda>_. to_int 0 v)"

definition read_texts :: "((string list \<Rightarrow> string list) \<Rightarrow> 'r \<Rightarrow> 'r) \<Rightarrow> json \<Rightarrow> 'r \<Rightarrow> 'r" where
  "read_texts upd v = upd (\<lambda>_. QJsonArray2QListString (to_arr v))"

lemmas row_kinds = emit_text_def emit_flag_def emit_pos_def emit_texts_def
  read_text_def read_flag_def read_int_def read_texts_def QListStr2QJsonArray_def

subsection \<open>Reading back what was written\<close>

definition absorb_row :: "'r \<Rightarrow> 'r json_row \<Rightarrow> 'r \<Rightarrow> 'r" where
  "absorb_row r row r0 = (case row of (k, emit, rd) \<Rightarrow>
     (case emit r of None \<Rightarrow> r0 | Some v \<Rightarrow> rd v r0))"

lemma absorb_row_simp [simp]:
  "absorb_row r (k, emit, rd) r0 = (case emit r of None \<Rightarrow> r0 | Some v \<Rightarrow> rd v r0)"
  by (simp add: absorb_row_def)

lemma row_members_simps [simp]:
  "row_members [] r = []"
  "row_members ((k, emit, rd) # rows) r =
     (case emit r of None \<Rightarrow> [] | Some v \<Rightarrow> [(k, v)]) @ row_members rows r"
  by (simp_all add: row_members_def)

lemma same_emissions:
  assumes "list_all (\<lambda>(k, emit, rd). emit r = emit s) rows"
  shows "row_members rows r = row_members rows s"
    "fold (absorb_row r) rows = fold (absorb_row s) rows"
proof -
  show "row_members rows r = row_members rows s"
    using assms by (induction rows) auto
  have "fold (absorb_row r) rows x = fold (absorb_row s) rows x" for x
    using assms by (induction rows arbitrary: x) auto
  then show "fold (absorb_row r) rows = fold (absorb_row s) rows" by (rule ext)
qed

lemma row_member_keys: "fst ` set (row_members rows r) \<subseteq> fst ` set rows"
proof (induction rows)
  case (Cons row rows)
  obtain k emit rd where row: "row = (k, emit, rd)" by (cases row)
  have "fst ` set (row_members (row # rows) r) \<subseteq> insert k (fst ` set (row_members rows r))"
    by (auto simp: row split: option.splits)
  with Cons.IH show ?case by (auto simp: row)
qed simp

lemma distinct_row_members: "distinct (map fst rows) \<Longrightarrow> distinct (map fst (row_members rows r))"
proof (induction rows)
  case (Cons row rows)
  obtain k emit rd where row: "row = (k, emit, rd)" by (cases row)
  have "k \<notin> fst ` set (row_members rows r)"
    using Cons.prems row_member_keys [of rows r] by (auto simp: row)
  with Cons show ?case by (auto simp: row split: option.splits)
qed simp

lemma map_of_row_members:
  assumes "distinct (map fst rows)" "(k, emit, rd) \<in> set rows"
  shows "map_of (row_members rows r) k = emit r"
  using assms
proof (induction rows)
  case (Cons row rows)
  obtain k' emit' rd' where row: "row = (k', emit', rd')" by (cases row)
  have absent: "map_of (row_members rows r) k' = None"
    using Cons.prems(1) row_member_keys [of rows r] by (auto simp: row map_of_eq_None_iff)
  show ?case
  proof (cases "k = k'")
    case True
    then have "(k, emit, rd) \<notin> set rows"
      using Cons.prems(1) by (auto simp: row image_iff)
    then have "emit = emit'" using Cons.prems(2) by (simp add: row)
    then show ?thesis using True absent by (simp add: row split: option.splits)
  next
    case False
    then have "map_of (row_members rows r) k = emit r" using Cons by (simp add: row)
    then show ?thesis using False by (simp add: row split: option.splits)
  qed
qed simp

lemma parse_rows_absorb:
  assumes "\<And>k emit rd. (k, emit, rd) \<in> set rows \<Longrightarrow> map_of ob k = emit r"
  shows "parse_rows rows ob r0 = fold (absorb_row r) rows r0"
  using assms
proof (induction rows arbitrary: r0)
  case (Cons row rows)
  obtain k emit rd where row: "row = (k, emit, rd)" by (cases row)
  have "map_of ob k = emit r" using Cons.prems [of k emit rd] by (simp add: row)
  moreover have "parse_rows rows ob x = fold (absorb_row r) rows x" for x
    using Cons.prems by (intro Cons.IH) auto
  ultimately show ?case
    by (simp add: row jcontains_def jget_def split: option.splits)
qed simp

lemma map_of_merge:
  "wf_object ob \<Longrightarrow> map_of (mergeJsonObjects base ob) k =
     (case map_of ob k of None \<Rightarrow> map_of base k | Some v \<Rightarrow> Some v)"
proof -
  assume "wf_object ob"
  then have "distinct (map fst ob)"
    using strict_sorted_iff wf_object_def by auto
  then have "map_of (rev ob) k = map_of ob k"
    by (metis distinct_rev map_of_eqI rev_map set_rev map_of_eq_Some_iff not_None_eq)
  then show ?thesis by (simp add: mergeJsonObjects_def json_store.look_puts)
qed

lemma keys_merge: "fst ` set (mergeJsonObjects base ob) = fst ` set ob \<union> fst ` set base"
  by (simp add: mergeJsonObjects_def keys_jputs)

lemma wf_merge: "wf_object base \<Longrightarrow> wf_object (mergeJsonObjects base ob)"
  by (simp add: mergeJsonObjects_def wf_jputs)

text \<open>The object of a list of rows, and its lookups.\<close>

definition export_rows :: "'r json_row list \<Rightarrow> 'r \<Rightarrow> jobject" where
  "export_rows rows r = jbuild (row_members rows r)"

lemma map_of_export_rows:
  "distinct (map fst rows) \<Longrightarrow> (k, emit, rd) \<in> set rows \<Longrightarrow> map_of (export_rows rows r) k = emit r"
  by (simp add: export_rows_def map_of_jbuild distinct_row_members map_of_row_members)

lemma map_of_export_other: "k \<notin> fst ` set rows \<Longrightarrow> map_of (export_rows rows r) k = None"
  using row_member_keys [of rows r] by (auto simp: export_rows_def map_of_eq_None_iff keys_jbuild)

lemma wf_export_rows [simp]: "wf_object (export_rows rows r)"
  by (simp add: export_rows_def wf_jbuild)

lemma parse_export_rows:
  "distinct (map fst rows) \<Longrightarrow> parse_rows rows (export_rows rows r) r0 = fold (absorb_row r) rows r0"
  by (rule parse_rows_absorb) (rule map_of_export_rows)

lemma parse_rows_other:
  "fst ` set rows \<inter> fst ` set ob = {} \<Longrightarrow> parse_rows rows ob r0 = r0"
proof (induction rows arbitrary: r0)
  case (Cons row rows)
  obtain k emit rd where row: "row = (k, emit, rd)" by (cases row)
  have "map_of ob k = None" using Cons.prems by (auto simp: row map_of_eq_None_iff)
  with Cons show ?case by (auto simp: row jcontains_def)
qed simp

text \<open>Each kind of row moves its field over, from a record that has the default there.\<close>

lemma absorb_text: "upd (\<lambda>_. []) r0 = r0 \<Longrightarrow>
    (case emit_text get r of None \<Rightarrow> r0 | Some v \<Rightarrow> read_text upd v r0) = upd (\<lambda>_. get r) r0"
  by (simp add: emit_text_def read_text_def)

lemma absorb_flag: "upd (\<lambda>_. False) r0 = r0 \<Longrightarrow>
    (case emit_flag get r of None \<Rightarrow> r0 | Some v \<Rightarrow> read_flag upd v r0) = upd (\<lambda>_. get r) r0"
  by (cases "get r") (simp_all add: emit_flag_def read_flag_def)

lemma absorb_pos: "upd (\<lambda>_. 0) r0 = r0 \<Longrightarrow> 0 \<le> get r \<Longrightarrow> is_int32 (get r) \<Longrightarrow>
    (case emit_pos get r of None \<Rightarrow> r0 | Some v \<Rightarrow> read_int upd v r0) = upd (\<lambda>_. get r) r0"
  by (cases "get r = 0") (simp_all add: emit_pos_def read_int_def)

lemma absorb_pos_set: "0 < get r \<Longrightarrow> is_int32 (get r) \<Longrightarrow>
    (case emit_pos get r of None \<Rightarrow> r0 | Some v \<Rightarrow> read_int upd v r0) = upd (\<lambda>_. get r) r0"
  by (simp add: emit_pos_def read_int_def)

lemma absorb_texts: "upd (\<lambda>_. []) r0 = r0 \<Longrightarrow>
    (case emit_texts get r of None \<Rightarrow> r0 | Some v \<Rightarrow> read_texts upd v r0) = upd (\<lambda>_. get r) r0"
  by (simp add: emit_texts_def read_texts_def QListStr2QJsonArray_def QListString_roundtrip)

lemmas absorb_kinds = absorb_text absorb_flag absorb_pos absorb_texts

subsection \<open>Rows written over an object\<close>

definition put_rows :: "'r json_row list \<Rightarrow> 'r \<Rightarrow> jobject \<Rightarrow> jobject" where
  "put_rows rows r base = fold (\<lambda>(k, v). jput k v) (row_members rows r) base"

lemma map_of_put_rows:
  "distinct (map fst rows) \<Longrightarrow> map_of (put_rows rows r base) k =
     (case map_of (row_members rows r) k of None \<Rightarrow> map_of base k | Some v \<Rightarrow> Some v)"
proof -
  assume "distinct (map fst rows)"
  then have "distinct (map fst (row_members rows r))" by (rule distinct_row_members)
  then have "map_of (rev (row_members rows r)) k = map_of (row_members rows r) k"
    by (metis distinct_rev map_of_eqI rev_map set_rev map_of_eq_Some_iff not_None_eq)
  then show ?thesis by (simp add: put_rows_def json_store.look_puts)
qed

lemma put_rows_row:
  "distinct (map fst rows) \<Longrightarrow> (k, emit, rd) \<in> set rows \<Longrightarrow> map_of base k = None \<Longrightarrow>
   map_of (put_rows rows r base) k = emit r"
  by (simp add: map_of_put_rows map_of_row_members split: option.split)

lemma put_rows_other:
  assumes "distinct (map fst rows)" "k \<notin> fst ` set rows"
  shows "map_of (put_rows rows r base) k = map_of base k"
proof -
  have "map_of (row_members rows r) k = None"
    using assms(2) row_member_keys [of rows r] by (auto simp: map_of_eq_None_iff)
  then show ?thesis by (simp add: map_of_put_rows assms(1))
qed

lemma put_rows_keys: "fst ` set (put_rows rows r base) = fst ` set (row_members rows r) \<union> fst ` set base"
  by (simp add: put_rows_def keys_jputs)

lemma wf_put_rows: "wf_object base \<Longrightarrow> wf_object (put_rows rows r base)"
  by (simp add: put_rows_def wf_jputs)

subsection \<open>The contract\<close>

text \<open>
  \<open>ProfilesRepo\<close> writes an outbound as JSON and reads it back into a fresh one: what it gets must
  be what it stored.
\<close>

locale stored_form =
  fixes fresh :: 'r
    and export :: "'r \<Rightarrow> jobject"
    and parse :: "jobject \<Rightarrow> 'r \<Rightarrow> 'r"
    and ok :: "'r \<Rightarrow> bool"
  assumes reload: "ok r \<Longrightarrow> parse (export r) fresh = r"
begin

lemma export_inject: "ok r \<Longrightarrow> ok s \<Longrightarrow> export r = export s \<longleftrightarrow> r = s"
  using reload by metis

lemma reload_list: "list_all ok rs \<Longrightarrow> map (\<lambda>ob. parse ob fresh) (map export rs) = rs"
  by (induction rs) (auto simp: reload)

lemma reload_stable: "ok r \<Longrightarrow> export (parse (export r) fresh) = export r"
  by (simp add: reload)

end

end
