(* ===== verification/Outbounds.thy ===== *)
theory Outbounds
  imports JsonCodec
begin

text \<open>
  The base class of outbounds and three of its classes: \<^verbatim>\<open>DialFields\<close>, \<^verbatim>\<open>outbound\<close> as far as a
  class without TLS uses it, \<^verbatim>\<open>socks\<close> (\<^verbatim>\<open>src/configs/outbounds/socks.cpp\<close>) and \<^verbatim>\<open>Custom\<close>
  (\<^verbatim>\<open>custom.h\<close>, \<^verbatim>\<open>custom.cpp\<close>): a raw sing-box outbound, a raw Xray outbound, or a full
  configuration of either core. JSON as text is Qt's and an argument.
\<close>

subsection \<open>Dial fields\<close>

record dialFields =
  df_reuse_addr :: bool
  df_connect_timeout :: string
  df_tcp_fast_open :: bool
  df_tcp_multi_path :: bool
  df_udp_fragment :: bool
  df_bind_interface :: string
  df_inet4_bind_address :: string
  df_inet6_bind_address :: string

definition new_dialFields :: dialFields where
  "new_dialFields = \<lparr>df_reuse_addr = False, df_connect_timeout = [], df_tcp_fast_open = False,
     df_tcp_multi_path = False, df_udp_fragment = False, df_bind_interface = [],
     df_inet4_bind_address = [], df_inet6_bind_address = []\<rparr>"

definition dial_rows :: "dialFields json_row list" where
  "dial_rows =
     [(''reuse_addr'', emit_flag df_reuse_addr, read_flag df_reuse_addr_update),
      (''connect_timeout'', emit_text df_connect_timeout, read_text df_connect_timeout_update),
      (''tcp_fast_open'', emit_flag df_tcp_fast_open, read_flag df_tcp_fast_open_update),
      (''tcp_multi_path'', emit_flag df_tcp_multi_path, read_flag df_tcp_multi_path_update),
      (''udp_fragment'', emit_flag df_udp_fragment, read_flag df_udp_fragment_update),
      (''bind_interface'', emit_text df_bind_interface, read_text df_bind_interface_update),
      (''inet4_bind_address'', emit_text df_inet4_bind_address, read_text df_inet4_bind_address_update),
      (''inet6_bind_address'', emit_text df_inet6_bind_address, read_text df_inet6_bind_address_update)]"

definition dial_ParseFromJson :: "jobject \<Rightarrow> dialFields \<Rightarrow> bool \<times> dialFields" where
  "dial_ParseFromJson ob d = (if ob = [] then (False, d) else (True, parse_rows dial_rows ob d))"

definition dial_ExportToJson :: "dialFields \<Rightarrow> jobject" where
  "dial_ExportToJson d = export_rows dial_rows d"

definition dial_Build :: "dialFields \<Rightarrow> jobject" where
  "dial_Build d = dial_ExportToJson d"

lemma dial_keys: "distinct (map fst dial_rows)"
  by code_simp

lemma dial_absorb: "fold (absorb_row d) dial_rows new_dialFields = d"
  by (cases d) (simp add: dial_rows_def new_dialFields_def row_kinds)

lemma dial_rows_export: "parse_rows dial_rows (dial_ExportToJson d) new_dialFields = d"
  by (simp add: dial_ExportToJson_def parse_export_rows dial_keys dial_absorb)

interpretation dial_store: stored_form new_dialFields dial_ExportToJson
  "\<lambda>ob d. snd (dial_ParseFromJson ob d)" "\<lambda>_. True"
proof
  fix d :: dialFields
  show "snd (dial_ParseFromJson (dial_ExportToJson d) new_dialFields) = d"
  proof (cases "dial_ExportToJson d = []")
    case True
    then show ?thesis using dial_rows_export [of d] by (simp add: dial_ParseFromJson_def parse_rows_other)
  next
    case False
    then show ?thesis by (simp add: dial_ParseFromJson_def dial_rows_export)
  qed
qed

subsection \<open>The base class\<close>

record base_outbound =
  bo_name :: string
  bo_server :: string
  bo_server_port :: int
  bo_dial :: dialFields

definition base_rows :: "'z base_outbound_scheme json_row list" where
  "base_rows =
     [(''tag'', emit_text bo_name, read_text bo_name_update),
      (''server'', emit_text bo_server, read_text bo_server_update),
      (''server_port'', emit_pos bo_server_port, read_int bo_server_port_update)]"

definition base_ParseFromJson :: "jobject \<Rightarrow> 'z base_outbound_scheme \<Rightarrow> bool \<times> 'z base_outbound_scheme" where
  "base_ParseFromJson ob o' =
     (if ob = [] then (False, o')
      else let o' = parse_rows base_rows ob o'
        in (True, o'\<lparr>bo_dial := snd (dial_ParseFromJson ob (bo_dial o'))\<rparr>))"

definition base_ExportToJson :: "'z base_outbound_scheme \<Rightarrow> jobject" where
  "base_ExportToJson o' = mergeJsonObjects (export_rows base_rows o') (dial_ExportToJson (bo_dial o'))"

text \<open>For a class without TLS.\<close>

definition base_Build :: "'z base_outbound_scheme \<Rightarrow> jobject" where
  "base_Build o' = mergeJsonObjects (export_rows (tl base_rows) o') (dial_Build (bo_dial o'))"

text \<open>
  The object a class stores: its type, the members of the base class, its own members over them.
\<close>

definition class_object :: "string \<Rightarrow> 'r json_row list \<Rightarrow> 'r \<Rightarrow> jobject \<Rightarrow> jobject" where
  "class_object t rows r base = put_rows rows r (mergeJsonObjects (jbuild [(''type'', JStr t)]) base)"

definition base_keys :: "string list" where
  "base_keys = [''tag'', ''server'', ''server_port''] @ map fst dial_rows"

lemma base_row_keys [simp]: "map fst base_rows = [''tag'', ''server'', ''server_port'']"
  by (simp add: base_rows_def)

lemma base_key_image: "fst ` set base_rows = set [''tag'', ''server'', ''server_port'']"
  by (simp add: base_rows_def)

lemma base_rows_key: "(k, emit, rd) \<in> set base_rows \<Longrightarrow> k \<in> set [''tag'', ''server'', ''server_port'']"
  using base_key_image by (metis fst_conv image_eqI)

lemma dial_rows_key: "(k, emit, rd) \<in> set dial_rows \<Longrightarrow> k \<in> set (map fst dial_rows)"
  by force

lemma base_dial_disjoint: "set [''tag'', ''server'', ''server_port''] \<inter> set (map fst dial_rows) = {}"
  by code_simp

lemma wf_base_ExportToJson [simp]: "wf_object (base_ExportToJson o')"
  by (simp add: base_ExportToJson_def wf_merge)

lemma base_row_lookup:
  assumes "(k, emit, rd) \<in> set base_rows"
  shows "map_of (base_ExportToJson o') k = emit o'"
proof -
  have "k \<notin> set (map fst dial_rows)" using base_rows_key [OF assms] base_dial_disjoint by blast
  then have "map_of (dial_ExportToJson (bo_dial o')) k = None"
    unfolding dial_ExportToJson_def by (intro map_of_export_other) simp
  moreover have "map_of (export_rows base_rows o') k = emit o'"
    using assms by (intro map_of_export_rows) simp_all
  ultimately show ?thesis by (simp add: base_ExportToJson_def map_of_merge dial_ExportToJson_def)
qed

lemma dial_row_lookup:
  assumes "(k, emit, rd) \<in> set dial_rows"
  shows "map_of (base_ExportToJson o') k = emit (bo_dial o')"
proof -
  have "k \<notin> set [''tag'', ''server'', ''server_port'']"
    using dial_rows_key [OF assms] base_dial_disjoint by blast
  then have "map_of (export_rows base_rows o') k = None"
    using base_key_image map_of_export_other by metis
  moreover have "map_of (dial_ExportToJson (bo_dial o')) k = emit (bo_dial o')"
    unfolding dial_ExportToJson_def using assms dial_keys by (rule map_of_export_rows [rotated])
  ultimately show ?thesis
    by (simp add: base_ExportToJson_def map_of_merge dial_ExportToJson_def split: option.splits)
qed

lemma base_key_set: "set base_keys = set [''tag'', ''server'', ''server_port''] \<union> set (map fst dial_rows)"
  by (simp add: base_keys_def)

lemma base_ExportToJson_other:
  assumes "k \<notin> set base_keys"
  shows "map_of (base_ExportToJson o') k = None"
proof -
  have "k \<notin> set [''tag'', ''server'', ''server_port'']" "k \<notin> set (map fst dial_rows)"
    using assms unfolding base_key_set by blast+
  then have "map_of (export_rows base_rows o') k = None" "map_of (dial_ExportToJson (bo_dial o')) k = None"
    unfolding dial_ExportToJson_def using base_key_image map_of_export_other
    by (metis, metis list.set_map)
  then show ?thesis by (simp add: base_ExportToJson_def map_of_merge dial_ExportToJson_def)
qed

lemma class_object_own:
  assumes "distinct (''type'' # base_keys @ map fst rows)" "(k, emit, rd) \<in> set rows"
  shows "map_of (class_object t rows r (base_ExportToJson o')) k = emit r"
proof -
  have "k \<in> set (map fst rows)" using assms(2) by force
  then have k: "k \<notin> set base_keys" "k \<noteq> ''type''" using assms(1) by (simp, metis disjoint_iff) (use assms(1) \<open>k \<in> _\<close> in \<open>metis distinct.simps(2) Un_iff set_append\<close>)
  then have "map_of (mergeJsonObjects (jbuild [(''type'', JStr t)]) (base_ExportToJson o')) k = None"
    by (simp add: map_of_merge base_ExportToJson_other map_of_jbuild)
  then show ?thesis using assms by (simp add: class_object_def put_rows_row)
qed

lemma class_object_base:
  assumes "distinct (''type'' # base_keys @ map fst rows)" "k \<in> set base_keys"
  shows "map_of (class_object t rows r (base_ExportToJson o')) k = map_of (base_ExportToJson o') k"
proof -
  have "k \<notin> set (map fst rows)" "k \<noteq> ''type''" using assms by auto
  then show ?thesis
    using assms(1) by (auto simp: class_object_def put_rows_other map_of_merge map_of_jbuild split: option.split)
qed

lemma class_object_type:
  assumes "distinct (''type'' # base_keys @ map fst rows)"
  shows "map_of (class_object t rows r (base_ExportToJson o')) ''type'' = Some (JStr t)"
proof -
  have "''type'' \<notin> set (map fst rows)" "''type'' \<notin> set base_keys" using assms by auto
  then show ?thesis
    using assms by (simp add: class_object_def put_rows_other map_of_merge map_of_jbuild base_ExportToJson_other)
qed

text \<open>A class read back: its own rows, then those of the base class, are absorbed.\<close>

lemma class_reload:
  fixes r r0 :: "'z base_outbound_scheme" and t :: string
  assumes keys: "distinct (''type'' # base_keys @ map fst rows)"
    and fresh: "bo_dial r0 = new_dialFields"
  defines "ob \<equiv> class_object t rows r (base_ExportToJson r)"
  shows "parse_rows rows ob (snd (base_ParseFromJson ob r0)) =
    fold (absorb_row r) rows ((fold (absorb_row r) base_rows r0)\<lparr>bo_dial := bo_dial r\<rparr>)"
proof -
  have ne: "ob \<noteq> []" using class_object_type [OF keys, of t r r] by (auto simp: ob_def)
  have own: "parse_rows rows ob x = fold (absorb_row r) rows x" for x
    by (rule parse_rows_absorb) (simp add: ob_def class_object_own [OF keys])
  have base: "parse_rows base_rows ob r0 = fold (absorb_row r) base_rows r0"
  proof (rule parse_rows_absorb)
    fix k emit rd assume row: "(k, emit, rd) \<in> set (base_rows :: 'z base_outbound_scheme json_row list)"
    then have "k \<in> set base_keys" unfolding base_key_set by (intro UnI1) (rule base_rows_key)
    then show "map_of ob k = emit r"
      using row by (simp add: ob_def class_object_base [OF keys] base_row_lookup)
  qed
  have "parse_rows dial_rows ob new_dialFields = fold (absorb_row (bo_dial r)) dial_rows new_dialFields"
  proof (rule parse_rows_absorb)
    fix k emit rd assume row: "(k, emit, rd) \<in> set dial_rows"
    then have "k \<in> set base_keys" unfolding base_key_set by (intro UnI2) (rule dial_rows_key)
    then show "map_of ob k = emit (bo_dial r)"
      using row by (simp add: ob_def class_object_base [OF keys] dial_row_lookup)
  qed
  then have dial: "snd (dial_ParseFromJson ob new_dialFields) = bo_dial r"
    by (simp add: dial_ParseFromJson_def ne dial_absorb)
  have kept: "bo_dial (fold (absorb_row r) base_rows r0) = bo_dial r0"
    by (simp add: base_rows_def row_kinds)
  show ?thesis by (simp add: own base_ParseFromJson_def ne base kept fresh dial Let_def)
qed

definition base_ok :: "'z base_outbound_scheme \<Rightarrow> bool" where
  "base_ok o' \<longleftrightarrow> 0 \<le> bo_server_port o' \<and> is_int32 (bo_server_port o')"

subsection \<open>SOCKS\<close>

record socks = base_outbound +
  so_username :: string
  so_password :: string
  so_version :: int
  so_uot :: bool

definition new_socks :: socks where
  "new_socks = \<lparr>bo_name = [], bo_server = [], bo_server_port = 0, bo_dial = new_dialFields,
     so_username = [], so_password = [], so_version = 5, so_uot = False\<rparr>"

text \<open>The version is written as text, and only version 4 is.\<close>

definition socks_rows :: "socks json_row list" where
  "socks_rows =
     [(''username'', emit_text so_username, read_text so_username_update),
      (''password'', emit_text so_password, read_text so_password_update),
      (''version'', \<lambda>s. if so_version s = 4 then Some (JStr ''4'') else None, read_int so_version_update),
      (''uot'', emit_flag so_uot, read_flag so_uot_update)]"

definition socks_ParseFromJson :: "jobject \<Rightarrow> socks \<Rightarrow> bool \<times> socks" where
  "socks_ParseFromJson ob s =
     (if ob = [] \<or> to_str [] (jget ob ''type'') \<noteq> ''socks'' then (False, s)
      else (True, parse_rows socks_rows ob (snd (base_ParseFromJson ob s))))"

definition socks_ExportToJson :: "socks \<Rightarrow> jobject" where
  "socks_ExportToJson s = class_object ''socks'' socks_rows s (base_ExportToJson s)"

definition socks_Build :: "socks \<Rightarrow> jobject" where
  "socks_Build s = class_object ''socks'' socks_rows s (base_Build s)"

lemma socks_keys: "distinct (''type'' # base_keys @ map fst socks_rows)"
  by code_simp

lemma socks_reload:
  assumes "base_ok s"
  shows "snd (socks_ParseFromJson (socks_ExportToJson s) new_socks) =
    s\<lparr>so_version := if so_version s = 4 then 0 else 5\<rparr>"
proof -
  let ?ob = "socks_ExportToJson s"
  have t: "map_of ?ob ''type'' = Some (JStr ''socks'')"
    by (simp add: socks_ExportToJson_def class_object_type [OF socks_keys])
  have "?ob \<noteq> []" using t by auto
  then have "snd (socks_ParseFromJson ?ob new_socks) =
      parse_rows socks_rows ?ob (snd (base_ParseFromJson ?ob new_socks))"
    using t by (simp add: socks_ParseFromJson_def jget_def)
  also have "\<dots> = fold (absorb_row s) socks_rows
      ((fold (absorb_row s) base_rows new_socks)\<lparr>bo_dial := bo_dial s\<rparr>)"
    unfolding socks_ExportToJson_def by (rule class_reload [OF socks_keys]) (simp add: new_socks_def)
  also have "\<dots> = s\<lparr>so_version := if so_version s = 4 then 0 else 5\<rparr>"
    using assms by (cases s) (simp add: base_rows_def socks_rows_def new_socks_def row_kinds base_ok_def to_int_def jint_def)
  finally show ?thesis .
qed

interpretation socks_store: stored_form new_socks socks_ExportToJson
  "\<lambda>ob s. snd (socks_ParseFromJson ob s)" "\<lambda>s. base_ok s \<and> so_version s = 5"
  by unfold_locales (simp add: socks_reload)

subsection \<open>Custom\<close>

record custom =
  cu_type :: string
  cu_config :: string
  cu_bridgePort :: int
  cu_bridgeAuth :: string
  cu_bridgeHost :: string

definition new_custom :: custom where
  "new_custom = \<lparr>cu_type = [], cu_config = [], cu_bridgePort = 0, cu_bridgeAuth = [],
     cu_bridgeHost = ''127.0.0.1''\<rparr>"

definition CustomOutbound :: string where "CustomOutbound = ''outbound''"
definition CustomFullConfig :: string where "CustomFullConfig = ''fullconfig''"
definition CustomXrayOutbound :: string where "CustomXrayOutbound = ''xrayoutbound''"
definition CustomXrayFullConfig :: string where "CustomXrayFullConfig = ''xrayfullconfig''"

lemmas custom_kinds = CustomOutbound_def CustomFullConfig_def CustomXrayOutbound_def CustomXrayFullConfig_def

text \<open>The name belongs to the base class and travels beside.\<close>

definition custom_ParseFromJson :: "jobject \<Rightarrow> string \<times> custom \<Rightarrow> bool \<times> string \<times> custom" where
  "custom_ParseFromJson ob = (\<lambda>(name, c).
     if ob = [] then (False, name, c)
     else (True, if jcontains ob ''name'' then to_str [] (jget ob ''name'') else name,
       let c = (if jcontains ob ''subtype'' then c\<lparr>cu_type := to_str [] (jget ob ''subtype'')\<rparr> else c)
       in if jcontains ob ''config'' then c\<lparr>cu_config := to_str [] (jget ob ''config'')\<rparr> else c))"

definition custom_ExportToJson :: "string \<times> custom \<Rightarrow> jobject" where
  "custom_ExportToJson = (\<lambda>(name, c). jbuild
     [(''name'', JStr name), (''type'', JStr ''custom''), (''subtype'', JStr (cu_type c)),
      (''config'', JStr (cu_config c))])"

interpretation custom_store: stored_form "([], new_custom)" custom_ExportToJson
  "\<lambda>ob c. snd (custom_ParseFromJson ob c)"
  "\<lambda>(name, c). cu_bridgePort c = 0 \<and> cu_bridgeAuth c = [] \<and> cu_bridgeHost c = ''127.0.0.1''"
proof
  fix c :: "string \<times> custom" assume ok: "case c of (name, c) \<Rightarrow> cu_bridgePort c = 0 \<and> cu_bridgeAuth c = [] \<and> cu_bridgeHost c = ''127.0.0.1''"
  obtain name and c' :: custom where c: "c = (name, c')" by (cases c)
  let ?ob = "custom_ExportToJson (name, c')"
  have look: "map_of ?ob ''name'' = Some (JStr name)" "map_of ?ob ''subtype'' = Some (JStr (cu_type c'))"
      "map_of ?ob ''config'' = Some (JStr (cu_config c'))"
    by (simp_all add: custom_ExportToJson_def map_of_jbuild)
  then have "?ob \<noteq> []" by auto
  with look ok show "snd (custom_ParseFromJson (custom_ExportToJson c) ([], new_custom)) = c"
    by (cases c') (simp add: c custom_ParseFromJson_def jget_def jcontains_def new_custom_def Let_def)
qed

text \<open>\<^verbatim>\<open>array.first().toObject()\<close>; the code reads the first element of an empty array as nothing.\<close>

definition first_object :: "json list \<Rightarrow> jobject" where
  "first_object arr = (case arr of [] \<Rightarrow> [] | v # _ \<Rightarrow> to_obj v)"

definition custom_GetAddress :: "(string \<Rightarrow> jobject) \<Rightarrow> custom \<Rightarrow> string" where
  "custom_GetAddress obj c =
     (if cu_type c = CustomOutbound then to_str [] (jget (obj (cu_config c)) ''server'')
      else if cu_type c = CustomXrayOutbound then
        (let settings = to_obj (jget (obj (cu_config c)) ''settings'')
         in if jcontains settings ''vnext''
            then to_str [] (jget (first_object (to_arr (jget settings ''vnext''))) ''address'')
            else if jcontains settings ''servers''
            then to_str [] (jget (first_object (to_arr (jget settings ''servers''))) ''address'')
            else [])
      else [])"

definition custom_IsEndpoint :: "(string \<Rightarrow> jobject) \<Rightarrow> custom \<Rightarrow> bool" where
  "custom_IsEndpoint obj c =
     (if cu_type c \<noteq> CustomOutbound then False
      else let t = to_str [] (jget (obj (cu_config c)) ''type'') in t = ''wireguard'' \<or> t = ''tailscale'')"

definition settings_addresses :: "jobject \<Rightarrow> string list" where
  "settings_addresses settings =
     (let collect = (\<lambda>key. filter (\<lambda>a. a \<noteq> [])
            (map (\<lambda>s. to_str [] (jget (to_obj s) ''address'')) (to_arr (jget settings key))))
      in (if jcontains settings ''vnext'' then collect ''vnext'' else [])
         @ (if jcontains settings ''servers'' then collect ''servers'' else [])
         @ (if jcontains settings ''address'' \<and> to_str [] (jget settings ''address'') \<noteq> []
            then [to_str [] (jget settings ''address'')] else []))"

definition GetXrayFullConfigServerDomains :: "(string \<Rightarrow> jobject) \<Rightarrow> custom \<Rightarrow> string list" where
  "GetXrayFullConfigServerDomains obj c =
     (if cu_type c \<noteq> CustomXrayFullConfig then []
      else concat (map (\<lambda>v. settings_addresses (to_obj (jget (to_obj v) ''settings'')))
        (to_arr (jget (obj (cu_config c)) ''outbounds''))))"

text \<open>
  For the sing-box side. A full Xray configuration is reached through a socks bridge; a raw Xray
  outbound leaves a placeholder.
\<close>

definition custom_Build :: "(string \<Rightarrow> jobject) \<Rightarrow> custom \<Rightarrow> jobject" where
  "custom_Build obj c =
     (if cu_type c = CustomXrayFullConfig then jbuild
        [(''type'', JStr ''socks''), (''server'', JStr (cu_bridgeHost c)),
         (''server_port'', jint (cu_bridgePort c)), (''username'', JStr (cu_bridgeAuth c)),
         (''password'', JStr (cu_bridgeAuth c))]
      else if cu_type c = CustomXrayOutbound then jbuild
        [(''type'', JStr ''socks''), (''server'', JStr ''127.0.0.1'')]
      else obj (cu_config c))"

definition custom_BuildXray :: "(string \<Rightarrow> jobject) \<Rightarrow> custom \<Rightarrow> jobject" where
  "custom_BuildXray obj c = (if cu_type c = CustomXrayOutbound then obj (cu_config c) else [])"

end
