(* ===== verification/Wireguard.thy ===== *)
theory Wireguard
  imports Outbounds
begin

text \<open>
  WireGuard and AmneziaWG endpoints, \<^verbatim>\<open>src/configs/outbounds/wireguard.cpp\<close>: the peer, the
  options of AmneziaWG, how both are stored, read back and handed to the core. The number parser
  with its success flag is Qt's. The AmneziaWG fields, plain members of the class in the code, are
  grouped in a record.
\<close>

record wg_env = qt_text +
  wg_toInt :: "string \<Rightarrow> int option" \<comment> \<open>\<^verbatim>\<open>toInt(&ok)\<close>\<close>

subsection \<open>The peer\<close>

record peer =
  pe_address :: string
  pe_port :: int
  pe_public_key :: string
  pe_pre_shared_key :: string
  pe_reserved :: "int list"
  pe_persistent_keepalive :: string

definition new_peer :: peer where
  "new_peer = \<lparr>pe_address = [], pe_port = 0, pe_public_key = [], pe_pre_shared_key = [],
     pe_reserved = [], pe_persistent_keepalive = []\<rparr>"

text \<open>\<^verbatim>\<open>^\d+-\d+$\<close>; the dollar also accepts a final line break.\<close>

definition digits :: "string \<Rightarrow> bool" where
  "digits s \<longleftrightarrow> s \<noteq> [] \<and> list_all is_digit s"

definition is_range :: "string \<Rightarrow> bool" where
  "is_range s =
     (let a = takeWhile is_digit s; rest = dropWhile is_digit s
      in a \<noteq> [] \<and> rest \<noteq> [] \<and> hd rest = CHR ''-'' \<and>
         (digits (tl rest) \<or> (tl rest \<noteq> [] \<and> last (tl rest) = CHR 0x0A \<and> digits (butlast (tl rest)))))"

definition emit_keepalive :: "'z wg_env_scheme \<Rightarrow> peer \<Rightarrow> json option" where
  "emit_keepalive E p =
     (if pe_persistent_keepalive p = [] then None
      else case wg_toInt E (pe_persistent_keepalive p) of
        Some seconds \<Rightarrow> if 0 < seconds then Some (jint seconds) else None
      | None \<Rightarrow> if is_range (pe_persistent_keepalive p) then Some (JStr (pe_persistent_keepalive p)) else None)"

text \<open>Text stays, any other value counts as a number.\<close>

definition text_or_number :: "json \<Rightarrow> string" where
  "text_or_number v = (case v of JStr s \<Rightarrow> s | _ \<Rightarrow> number (to_int 0 v))"

definition read_range :: "((string \<Rightarrow> string) \<Rightarrow> 'r \<Rightarrow> 'r) \<Rightarrow> json \<Rightarrow> 'r \<Rightarrow> 'r" where
  "read_range upd v = upd (\<lambda>_. text_or_number v)"

definition peer_rows :: "'z wg_env_scheme \<Rightarrow> peer json_row list" where
  "peer_rows E =
     [(''address'', emit_text pe_address, read_text pe_address_update),
      (''port'', emit_pos pe_port, read_int pe_port_update),
      (''public_key'', emit_text pe_public_key, read_text pe_public_key_update),
      (''pre_shared_key'', emit_text pe_pre_shared_key, read_text pe_pre_shared_key_update),
      (''reserved'', \<lambda>p. if pe_reserved p = [] then None else Some (JArr (QListInt2QJsonArray (pe_reserved p))),
         \<lambda>v. pe_reserved_update (\<lambda>_. QJsonArray2QListInt (to_arr v))),
      (''persistent_keepalive_interval'', emit_keepalive E, read_range pe_persistent_keepalive_update)]"

definition peer_ParseFromJson :: "'z wg_env_scheme \<Rightarrow> jobject \<Rightarrow> peer \<Rightarrow> bool \<times> peer" where
  "peer_ParseFromJson E ob p = (if ob = [] then (False, p) else (True, parse_rows (peer_rows E) ob p))"

definition peer_ExportToJson :: "'z wg_env_scheme \<Rightarrow> peer \<Rightarrow> jobject" where
  "peer_ExportToJson E p = export_rows (peer_rows E) p"

definition peer_Build :: "'z wg_env_scheme \<Rightarrow> peer \<Rightarrow> jobject" where
  "peer_Build E p = jput ''allowed_ips'' (QListStr2QJsonArray [''0.0.0.0/0'', ''::/0'']) (export_rows (peer_rows E) p)"

subsection \<open>AmneziaWG\<close>

record amnezia =
  am_jc :: int
  am_jmin :: int
  am_jmax :: int
  am_s1 :: int
  am_s2 :: int
  am_s3 :: int
  am_s4 :: int
  am_h1 :: string
  am_h2 :: string
  am_h3 :: string
  am_h4 :: string
  am_i1 :: string
  am_i2 :: string
  am_i3 :: string
  am_i4 :: string
  am_i5 :: string
  am_header_protection_key :: string
  am_content_padding_addition :: string
  am_rekey_after_time :: string
  am_rekey_timeout :: string
  am_reject_after_time :: string
  am_keepalive_timeout :: string
  am_max_handshake_attempts :: string

definition new_amnezia :: amnezia where
  "new_amnezia =
     \<lparr>am_jc = 0, am_jmin = 0, am_jmax = 0, am_s1 = 0, am_s2 = 0, am_s3 = 0, am_s4 = 0, am_h1 =
     [], am_h2 = [], am_h3 = [], am_h4 = [], am_i1 = [], am_i2 = [], am_i3 = [], am_i4 = [],
     am_i5 = [], am_header_protection_key = [], am_content_padding_addition = [],
     am_rekey_after_time = [], am_rekey_timeout = [], am_reject_after_time = [],
     am_keepalive_timeout = [], am_max_handshake_attempts = []\<rparr>"

definition amnezia_rows :: "amnezia json_row list" where
  "amnezia_rows =
     [(''jc'', emit_pos am_jc, read_int am_jc_update),
      (''jmin'', emit_pos am_jmin, read_int am_jmin_update),
      (''jmax'', emit_pos am_jmax, read_int am_jmax_update),
      (''s1'', emit_pos am_s1, read_int am_s1_update),
      (''s2'', emit_pos am_s2, read_int am_s2_update),
      (''s3'', emit_pos am_s3, read_int am_s3_update),
      (''s4'', emit_pos am_s4, read_int am_s4_update),
      (''h1'', emit_text am_h1, read_text am_h1_update),
      (''h2'', emit_text am_h2, read_text am_h2_update),
      (''h3'', emit_text am_h3, read_text am_h3_update),
      (''h4'', emit_text am_h4, read_text am_h4_update),
      (''i1'', emit_text am_i1, read_text am_i1_update),
      (''i2'', emit_text am_i2, read_text am_i2_update),
      (''i3'', emit_text am_i3, read_text am_i3_update),
      (''i4'', emit_text am_i4, read_text am_i4_update),
      (''i5'', emit_text am_i5, read_text am_i5_update),
      (''header_protection_key'', emit_text am_header_protection_key, read_text am_header_protection_key_update),
      (''content_padding_addition'', emit_text am_content_padding_addition, read_range am_content_padding_addition_update),
      (''rekey_after_time'', emit_text am_rekey_after_time, read_range am_rekey_after_time_update),
      (''rekey_timeout'', emit_text am_rekey_timeout, read_range am_rekey_timeout_update),
      (''reject_after_time'', emit_text am_reject_after_time, read_range am_reject_after_time_update),
      (''keepalive_timeout'', emit_text am_keepalive_timeout, read_range am_keepalive_timeout_update),
      (''max_handshake_attempts'', emit_text am_max_handshake_attempts, read_range am_max_handshake_attempts_update)]"

record wireguard = base_outbound +
  wg_private_key :: string
  wg_peer :: peer
  wg_address :: "string list"
  wg_mtu :: int
  wg_system :: bool
  wg_worker_count :: int
  wg_udp_timeout :: string
  wg_enable_amnezia :: bool
  wg_amnezia :: amnezia

definition new_wireguard :: wireguard where
  "new_wireguard = \<lparr>bo_name = [], bo_server = [], bo_server_port = 0, bo_dial = new_dialFields,
     wg_private_key = [], wg_peer = new_peer, wg_address = [], wg_mtu = 1420, wg_system = False,
     wg_worker_count = 0, wg_udp_timeout = [], wg_enable_amnezia = False, wg_amnezia = new_amnezia\<rparr>"

definition AmneziaToJson :: "wireguard \<Rightarrow> jobject" where
  "AmneziaToJson w = (if \<not> wg_enable_amnezia w then [] else export_rows amnezia_rows (wg_amnezia w))"

definition AmneziaFromJson :: "jobject \<Rightarrow> wireguard \<Rightarrow> wireguard" where
  "AmneziaFromJson ob w =
     (if ob = [] then w
      else w\<lparr>wg_enable_amnezia := True, wg_amnezia := parse_rows amnezia_rows ob (wg_amnezia w)\<rparr>)"

definition fix_address :: "'z qt_text_scheme \<Rightarrow> string \<Rightarrow> string" where
  "fix_address Q addr =
     (let trimmed = qt_trimmed Q addr
      in if CHR ''/'' \<in> set trimmed then trimmed
         else if CHR '':'' \<in> set trimmed then trimmed @ ''/128''
         else trimmed @ ''/32'')"

definition FixAddress :: "'z qt_text_scheme \<Rightarrow> wireguard \<Rightarrow> wireguard" where
  "FixAddress Q w = w\<lparr>wg_address := map (fix_address Q) (wg_address w)\<rparr>"

subsection \<open>The endpoint\<close>

definition emit_object :: "jobject \<Rightarrow> json option" where
  "emit_object ob = (if ob = [] then None else Some (JObj ob))"

definition emit_peers :: "jobject \<Rightarrow> json option" where
  "emit_peers ob = (if ob = [] then None else Some (JArr [JObj ob]))"

definition read_peers :: "'z wg_env_scheme \<Rightarrow> json \<Rightarrow> wireguard \<Rightarrow> wireguard" where
  "read_peers E v w = (case v of
     JArr (p # _) \<Rightarrow> w\<lparr>wg_peer := snd (peer_ParseFromJson E (to_obj p) (wg_peer w))\<rparr>
   | _ \<Rightarrow> w)"

text \<open>The rows, with the object of the peer left open: storing and building differ in it.\<close>

definition wireguard_rows :: "'z wg_env_scheme \<Rightarrow> (peer \<Rightarrow> jobject) \<Rightarrow> wireguard json_row list" where
  "wireguard_rows E peer_object =
     [(''private_key'', emit_text wg_private_key, read_text wg_private_key_update),
      (''address'', emit_texts wg_address, read_texts wg_address_update),
      (''mtu'', emit_pos wg_mtu, read_int wg_mtu_update),
      (''system'', emit_flag wg_system, read_flag wg_system_update),
      (''worker_count'', emit_pos wg_worker_count, read_int wg_worker_count_update),
      (''udp_timeout'', emit_text wg_udp_timeout, read_text wg_udp_timeout_update),
      (''amnezia_wg'', \<lambda>w. emit_object (AmneziaToJson w), \<lambda>v. AmneziaFromJson (to_obj v)),
      (''peers'', \<lambda>w. emit_peers (peer_object (wg_peer w)), read_peers E)]"

text \<open>The server of the base class is neither stored nor built: the peer has the address.\<close>

definition wg_base_object :: "wireguard \<Rightarrow> jobject" where
  "wg_base_object w = mergeJsonObjects (export_rows (take 1 base_rows) w) (dial_ExportToJson (bo_dial w))"

definition wireguard_ParseFromJson :: "'z wg_env_scheme \<Rightarrow> jobject \<Rightarrow> wireguard \<Rightarrow> bool \<times> wireguard" where
  "wireguard_ParseFromJson E ob w =
     (if ob = [] \<or> to_str [] (jget ob ''type'') \<noteq> ''wireguard'' then (False, w)
      else (True, FixAddress E
        (parse_rows (wireguard_rows E (peer_ExportToJson E)) ob (snd (base_ParseFromJson ob w)))))"

definition wireguard_ExportToJson :: "'z wg_env_scheme \<Rightarrow> wireguard \<Rightarrow> jobject" where
  "wireguard_ExportToJson E w =
     class_object ''wireguard'' (wireguard_rows E (peer_ExportToJson E)) w (wg_base_object w)"

definition wireguard_Build :: "'z wg_env_scheme \<Rightarrow> wireguard \<Rightarrow> jobject" where
  "wireguard_Build E w =
     class_object ''wireguard'' (wireguard_rows E (peer_Build E)) w (wg_base_object w)"

definition wireguard_GetAddress :: "wireguard \<Rightarrow> string" where
  "wireguard_GetAddress w = pe_address (wg_peer w)"

definition wireguard_SetAddress :: "string \<Rightarrow> wireguard \<Rightarrow> wireguard" where
  "wireguard_SetAddress a w = w\<lparr>wg_peer := (wg_peer w)\<lparr>pe_address := a\<rparr>\<rparr>"

definition wireguard_SetPort :: "int \<Rightarrow> wireguard \<Rightarrow> wireguard" where
  "wireguard_SetPort n w = w\<lparr>wg_peer := (wg_peer w)\<lparr>pe_port := n\<rparr>\<rparr>"

subsection \<open>Reading back\<close>

definition keepalive_ok :: "'z wg_env_scheme \<Rightarrow> string \<Rightarrow> bool" where
  "keepalive_ok E s \<longleftrightarrow> s = [] \<or>
     (case wg_toInt E s of Some n \<Rightarrow> 0 < n \<and> is_int32 n \<and> number n = s | None \<Rightarrow> is_range s)"

definition peer_ok :: "'z wg_env_scheme \<Rightarrow> peer \<Rightarrow> bool" where
  "peer_ok E p \<longleftrightarrow> 0 \<le> pe_port p \<and> is_int32 (pe_port p) \<and> list_all is_int32 (pe_reserved p) \<and>
     keepalive_ok E (pe_persistent_keepalive p)"

lemma peer_keys: "map fst (peer_rows E) =
    [''address'', ''port'', ''public_key'', ''pre_shared_key'', ''reserved'', ''persistent_keepalive_interval'']"
  by (simp add: peer_rows_def)

lemma read_emitted_int [simp]: "is_int32 i \<Longrightarrow> read_int upd (jint i) = upd (\<lambda>_. i)"
  by (simp add: read_int_def)

lemma keepalive_read: "keepalive_ok E (pe_persistent_keepalive p) \<Longrightarrow> emit_keepalive E p = Some v \<Longrightarrow>
    text_or_number v = pe_persistent_keepalive p"
  by (auto simp: keepalive_ok_def emit_keepalive_def text_or_number_def jint_def to_int_def split: option.splits if_splits)

lemma keepalive_none: "keepalive_ok E (pe_persistent_keepalive p) \<Longrightarrow> emit_keepalive E p = None \<Longrightarrow>
    pe_persistent_keepalive p = []"
  by (auto simp: keepalive_ok_def emit_keepalive_def split: option.splits if_splits)

lemma peer_absorb:
  assumes "peer_ok E p"
  shows "fold (absorb_row p) (peer_rows E) new_peer = p"
proof -
  have k: "(case emit_keepalive E p of None \<Rightarrow> r | Some v \<Rightarrow> read_range pe_persistent_keepalive_update v r) =
      r\<lparr>pe_persistent_keepalive := pe_persistent_keepalive p\<rparr>" if "pe_persistent_keepalive r = []" for r
    using assms that keepalive_read [of E p] keepalive_none [of E p]
    by (auto simp: peer_ok_def read_range_def split: option.split)
  show ?thesis
    using assms
    by (simp add: peer_rows_def k new_peer_def emit_text_def emit_pos_def read_text_def peer_ok_def QListInt_roundtrip)
qed

interpretation peer_store: stored_form new_peer "peer_ExportToJson E"
  "\<lambda>ob p. snd (peer_ParseFromJson E ob p)" "peer_ok E" for E :: "'z wg_env_scheme"
proof
  fix p assume ok: "peer_ok E p"
  have rows: "parse_rows (peer_rows E) (peer_ExportToJson E p) new_peer = p"
    by (simp add: peer_ExportToJson_def parse_export_rows peer_keys peer_absorb ok)
  show "snd (peer_ParseFromJson E (peer_ExportToJson E p) new_peer) = p"
  proof (cases "peer_ExportToJson E p = []")
    case True
    with rows show ?thesis by (simp add: peer_ParseFromJson_def parse_rows_other)
  next
    case False
    then show ?thesis by (simp add: peer_ParseFromJson_def rows)
  qed
qed

definition amnezia_ok :: "wireguard \<Rightarrow> bool" where
  "amnezia_ok w \<longleftrightarrow> (wg_enable_amnezia w \<longrightarrow>
     list_all (\<lambda>get. 0 \<le> get (wg_amnezia w) \<and> is_int32 (get (wg_amnezia w)))
       [am_jc, am_jmin, am_jmax, am_s1, am_s2, am_s3, am_s4])"

lemma amnezia_keys: "distinct (map fst amnezia_rows)"
  by code_simp

lemma absorb_range: "upd (\<lambda>_. []) r0 = r0 \<Longrightarrow>
    (case emit_text get r of None \<Rightarrow> r0 | Some v \<Rightarrow> read_range upd v r0) = upd (\<lambda>_. get r) r0"
  by (simp add: emit_text_def read_range_def text_or_number_def)

lemma amnezia_absorb: "amnezia_ok w \<Longrightarrow> wg_enable_amnezia w \<Longrightarrow>
    fold (absorb_row (wg_amnezia w)) amnezia_rows new_amnezia = wg_amnezia w"
  by (simp add: amnezia_ok_def amnezia_rows_def new_amnezia_def absorb_kinds absorb_range)

lemma amnezia_reload: "amnezia_ok w \<Longrightarrow> wg_enable_amnezia w \<Longrightarrow>
    parse_rows amnezia_rows (AmneziaToJson w) new_amnezia = wg_amnezia w"
  by (simp add: AmneziaToJson_def parse_export_rows amnezia_keys amnezia_absorb)

lemma wireguard_keys: "distinct (''type'' # base_keys @ map fst (wireguard_rows E f))"
proof -
  have "map fst (wireguard_rows E f) = [''private_key'', ''address'', ''mtu'', ''system'',
      ''worker_count'', ''udp_timeout'', ''amnezia_wg'', ''peers'']"
    by (simp add: wireguard_rows_def)
  moreover have "distinct (''type'' # base_keys @ [''private_key'', ''address'', ''mtu'', ''system'',
      ''worker_count'', ''udp_timeout'', ''amnezia_wg'', ''peers''])"
    by code_simp
  ultimately show ?thesis by simp
qed

definition wireguard_ok :: "'z wg_env_scheme \<Rightarrow> wireguard \<Rightarrow> bool" where
  "wireguard_ok E w \<longleftrightarrow> peer_ok E (wg_peer w) \<and> amnezia_ok w \<and> is_int32 (wg_mtu w) \<and>
     0 \<le> wg_worker_count w \<and> is_int32 (wg_worker_count w)"

text \<open>
  What comes back: options of AmneziaWG that are switched off are not stored, a switch without an option is
  read as off, an MTU that is not positive becomes the default, and an address without a mask gets one.
\<close>

definition options_reloaded :: "wireguard \<Rightarrow> wireguard" where
  "options_reloaded w = w\<lparr>wg_mtu := if 0 < wg_mtu w then wg_mtu w else 1420, wg_enable_amnezia := (AmneziaToJson w \<noteq> []),
     wg_amnezia := if wg_enable_amnezia w then wg_amnezia w else new_amnezia\<rparr>"

text \<open>What is stored of the base class is what would be stored without the server.\<close>

definition serverless :: "wireguard \<Rightarrow> wireguard" where
  "serverless w = w\<lparr>bo_server := [], bo_server_port := 0\<rparr>"

lemma wg_base_serverless: "wg_base_object w = base_ExportToJson (serverless w)"
  by (simp add: wg_base_object_def base_ExportToJson_def serverless_def export_rows_def base_rows_def row_kinds)

lemma serverless_emissions: "list_all (\<lambda>(k, emit, rd). emit (serverless w) = emit w) (wireguard_rows E f)"
  by (simp add: wireguard_rows_def serverless_def emit_text_def emit_texts_def emit_pos_def emit_flag_def AmneziaToJson_def)

lemma rows_serverless: "class_object t (wireguard_rows E f) w = class_object t (wireguard_rows E f) (serverless w)"
  by (rule ext) (simp add: class_object_def put_rows_def same_emissions(1) [OF serverless_emissions])

lemma absorb_peers:
  assumes "peer_ok E (wg_peer w)" "wg_peer w0 = new_peer"
  shows "(case emit_peers (peer_ExportToJson E (wg_peer w)) of None \<Rightarrow> w0 | Some v \<Rightarrow> read_peers E v w0) =
    w0\<lparr>wg_peer := wg_peer w\<rparr>"
proof (cases "peer_ExportToJson E (wg_peer w) = []")
  case True
  then have "wg_peer w = new_peer"
    using peer_store.reload [OF assms(1)] by (simp add: peer_ParseFromJson_def)
  then show ?thesis using True assms(2) by (simp add: emit_peers_def)
next
  case False
  then show ?thesis
    using peer_store.reload [OF assms(1)] by (simp add: emit_peers_def read_peers_def assms(2))
qed

lemma no_rows: "parse_rows rows [] x = x"
  by (induction rows arbitrary: x) (auto simp: jcontains_def)

lemma absorb_mtu:
  assumes "is_int32 (wg_mtu w)" "wg_mtu w0 = 1420"
  shows "(case emit_pos wg_mtu w of None \<Rightarrow> w0 | Some v \<Rightarrow> read_int wg_mtu_update v w0) =
    w0\<lparr>wg_mtu := if 0 < wg_mtu w then wg_mtu w else 1420\<rparr>"
  using assms by (simp add: emit_pos_def)

lemma amnezia_serverless [simp]: "AmneziaToJson (w\<lparr>bo_server := a, bo_server_port := n\<rparr>) = AmneziaToJson w"
  by (simp add: AmneziaToJson_def)

lemma absorb_amnezia:
  assumes "amnezia_ok w" "\<not> wg_enable_amnezia w0" "wg_amnezia w0 = new_amnezia"
  shows "(case emit_object (AmneziaToJson w) of None \<Rightarrow> w0 | Some v \<Rightarrow> AmneziaFromJson (to_obj v) w0) =
    w0\<lparr>wg_enable_amnezia := (AmneziaToJson w \<noteq> []), wg_amnezia := if wg_enable_amnezia w then wg_amnezia w else new_amnezia\<rparr>"
proof (cases "AmneziaToJson w = []")
  case True
  then have "wg_enable_amnezia w \<Longrightarrow> wg_amnezia w = new_amnezia"
    using amnezia_reload [OF assms(1)] by (simp add: no_rows)
  then show ?thesis using True assms by (auto simp: emit_object_def)
next
  case False
  then have on: "wg_enable_amnezia w" by (auto simp: AmneziaToJson_def split: if_splits)
  then show ?thesis
    using False assms amnezia_reload [OF assms(1) on] by (simp add: emit_object_def AmneziaFromJson_def)
qed

lemma wireguard_base_absorb:
  "(fold (absorb_row (serverless w)) base_rows new_wireguard)\<lparr>bo_dial := bo_dial w\<rparr> =
    new_wireguard\<lparr>bo_name := bo_name w, bo_dial := bo_dial w\<rparr>"
  by (simp add: base_rows_def serverless_def new_wireguard_def row_kinds)

lemma wireguard_absorb:
  assumes ok: "wireguard_ok E w"
  shows "fold (absorb_row w) (wireguard_rows E (peer_ExportToJson E))
      (new_wireguard\<lparr>bo_name := bo_name w, bo_dial := bo_dial w\<rparr>) = options_reloaded (serverless w)"
  using ok
  by (simp add: wireguard_rows_def new_wireguard_def serverless_def options_reloaded_def wireguard_ok_def absorb_kinds
      absorb_mtu absorb_peers absorb_amnezia)

lemma wireguard_reload:
  assumes ok: "wireguard_ok E w"
  shows "snd (wireguard_ParseFromJson E (wireguard_ExportToJson E w) new_wireguard) =
    FixAddress E (options_reloaded (serverless w))"
proof -
  let ?rows = "wireguard_rows E (peer_ExportToJson E)"
  have ob: "wireguard_ExportToJson E w = class_object ''wireguard'' ?rows (serverless w) (base_ExportToJson (serverless w))"
    unfolding wireguard_ExportToJson_def wg_base_serverless by (metis rows_serverless)
  let ?ob = "class_object ''wireguard'' ?rows (serverless w) (base_ExportToJson (serverless w))"
  have t: "map_of ?ob ''type'' = Some (JStr ''wireguard'')"
    by (rule class_object_type [OF wireguard_keys])
  have "parse_rows ?rows ?ob (snd (base_ParseFromJson ?ob new_wireguard)) =
      fold (absorb_row (serverless w)) ?rows
        ((fold (absorb_row (serverless w)) base_rows new_wireguard)\<lparr>bo_dial := bo_dial (serverless w)\<rparr>)"
    by (rule class_reload [OF wireguard_keys]) (simp add: new_wireguard_def)
  also have "\<dots> = options_reloaded (serverless w)"
    using wireguard_base_absorb [of w] wireguard_absorb [where E = E and w = w, OF ok]
    by (simp add: same_emissions(2) [OF serverless_emissions]) (simp add: serverless_def)
  finally have rows: "parse_rows ?rows ?ob (snd (base_ParseFromJson ?ob new_wireguard)) = options_reloaded (serverless w)" .
  have "?ob \<noteq> []" using t by auto
  then show ?thesis
    using t by (simp add: wireguard_ParseFromJson_def rows jget_def ob)
qed

interpretation wireguard_store: stored_form new_wireguard "wireguard_ExportToJson E"
  "\<lambda>ob w. snd (wireguard_ParseFromJson E ob w)"
  "\<lambda>w. wireguard_ok E w \<and> FixAddress E (options_reloaded (serverless w)) = w" for E :: "'z wg_env_scheme"
  by unfold_locales (simp add: wireguard_reload)

end
