(* ===== verification/AutoSelector.thy ===== *)
theory AutoSelector
  imports Json
begin

text \<open>
  The auto-selector outbound, \<^verbatim>\<open>include/configs/outbounds/autoselector.h\<close>: its settings and
  persisted state, their JSON form, the clamping of every numeric setting, and the usage history
  (newest first, at most \<open>kMaxHistoryEntries\<close>), which is kept as JSON and decoded on demand.
  Timestamps travel as doubles, exactly up to \<open>2 ^ 53\<close>.
\<close>

record autoSelector =
  as_name :: string
  as_gid :: int
  as_nameFilter :: string
  as_countryFilter :: string
  as_priorityNameFilters :: "string list"
  as_priorityProfileIds :: "int list list"
  as_excludeUnavailable :: bool
  as_poolCap :: int
  as_buildLimit :: int
  as_resultValidityMins :: int
  as_testURL :: string
  as_connectivityURL :: string
  as_intervalSec :: int
  as_benchIntervalSec :: int
  as_watchIntervalSec :: int
  as_activeSize :: int
  as_sampling :: int
  as_toleranceMs :: int
  as_maxRTTms :: int
  as_expected :: int
  as_dialRetries :: int
  as_interruptOnSwitch :: bool
  as_balance :: bool
  as_balanceMode :: string
  as_balanceIntervalSec :: int
  as_pool :: "int list"
  as_poolRankedAt :: int
  as_pinnedID :: int
  as_lastBuilt :: "int list"
  as_lastBuiltAt :: int
  as_history :: "json list"

definition new_autoSelector :: autoSelector where
  "new_autoSelector = \<lparr>as_name = [], as_gid = -1, as_nameFilter = [], as_countryFilter = [],
     as_priorityNameFilters = [], as_priorityProfileIds = [], as_excludeUnavailable = True,
     as_poolCap = 1000, as_buildLimit = 300, as_resultValidityMins = 1440,
     as_testURL = [], as_connectivityURL = [], as_intervalSec = 300, as_benchIntervalSec = 600,
     as_watchIntervalSec = 15, as_activeSize = 8, as_sampling = 10, as_toleranceMs = 300,
     as_maxRTTms = 0, as_expected = 3, as_dialRetries = 2, as_interruptOnSwitch = True,
     as_balance = False, as_balanceMode = ''rotate'', as_balanceIntervalSec = 30,
     as_pool = [], as_poolRankedAt = 0, as_pinnedID = -1, as_lastBuilt = [], as_lastBuiltAt = 0,
     as_history = []\<rparr>"

definition kMaxPoolCap :: int where "kMaxPoolCap = 3000"
definition kMaxBuildLimit :: int where "kMaxBuildLimit = 500"
definition kMaxHistoryEntries :: nat where "kMaxHistoryEntries = 2000"

subsection \<open>Clamping\<close>

text \<open>The assignments of \<^verbatim>\<open>Normalize\<close>, in its order.\<close>

definition Normalize :: "autoSelector \<Rightarrow> autoSelector" where
  "Normalize s = (
     let poolCap = at_least 1 (as_poolCap s);
         poolCap = at_most kMaxPoolCap poolCap;
         buildLimit = at_least 1 (as_buildLimit s);
         buildLimit = at_most kMaxBuildLimit buildLimit;
         buildLimit = at_most poolCap buildLimit;
         resultValidityMins = at_least 0 (as_resultValidityMins s);
         intervalSec = at_least 10 (as_intervalSec s);
         benchIntervalSec = at_least intervalSec (as_benchIntervalSec s);
         watchIntervalSec = at_least 5 (as_watchIntervalSec s);
         watchIntervalSec = at_most intervalSec watchIntervalSec;
         activeSize = at_least 1 (as_activeSize s);
         expected = at_least 1 (as_expected s);
         activeSize = at_least expected activeSize;
         activeSize = at_most buildLimit activeSize;
         sampling = at_least 2 (as_sampling s);
         sampling = at_most 60 sampling;
         toleranceMs = at_least 0 (as_toleranceMs s);
         maxRTTms = at_least 0 (as_maxRTTms s);
         expected = at_most buildLimit expected;
         dialRetries = at_least 0 (as_dialRetries s);
         dialRetries = at_most 5 dialRetries;
         balanceIntervalSec = at_least 5 (as_balanceIntervalSec s);
         balanceMode = (if as_balanceMode s \<noteq> ''connection'' then ''rotate'' else as_balanceMode s)
     in s\<lparr>as_poolCap := poolCap, as_buildLimit := buildLimit,
          as_resultValidityMins := resultValidityMins, as_intervalSec := intervalSec,
          as_benchIntervalSec := benchIntervalSec, as_watchIntervalSec := watchIntervalSec,
          as_activeSize := activeSize, as_expected := expected, as_sampling := sampling,
          as_toleranceMs := toleranceMs, as_maxRTTms := maxRTTms, as_dialRetries := dialRetries,
          as_balanceIntervalSec := balanceIntervalSec, as_balanceMode := balanceMode\<rparr>)"

text \<open>What the rest of the program may assume of a normalised selector.\<close>

definition normal :: "autoSelector \<Rightarrow> bool" where
  "normal s \<longleftrightarrow>
     1 \<le> as_expected s \<and> as_expected s \<le> as_activeSize s \<and> as_activeSize s \<le> as_buildLimit s \<and>
     as_buildLimit s \<le> as_poolCap s \<and> as_poolCap s \<le> kMaxPoolCap \<and> as_buildLimit s \<le> kMaxBuildLimit \<and>
     0 \<le> as_resultValidityMins s \<and>
     5 \<le> as_watchIntervalSec s \<and> as_watchIntervalSec s \<le> as_intervalSec s \<and>
     10 \<le> as_intervalSec s \<and> as_intervalSec s \<le> as_benchIntervalSec s \<and>
     2 \<le> as_sampling s \<and> as_sampling s \<le> 60 \<and> 0 \<le> as_toleranceMs s \<and> 0 \<le> as_maxRTTms s \<and>
     0 \<le> as_dialRetries s \<and> as_dialRetries s \<le> 5 \<and> 5 \<le> as_balanceIntervalSec s \<and>
     as_balanceMode s \<in> {''rotate'', ''connection''}"

lemmas selector_caps = kMaxPoolCap_def kMaxBuildLimit_def

lemma Normalize_values:
  "as_poolCap (Normalize s) = min kMaxPoolCap (max 1 (as_poolCap s))"
  "as_buildLimit (Normalize s) = min (as_poolCap (Normalize s)) (min kMaxBuildLimit (max 1 (as_buildLimit s)))"
  "as_resultValidityMins (Normalize s) = max 0 (as_resultValidityMins s)"
  "as_intervalSec (Normalize s) = max 10 (as_intervalSec s)"
  "as_benchIntervalSec (Normalize s) = max (as_intervalSec (Normalize s)) (as_benchIntervalSec s)"
  "as_watchIntervalSec (Normalize s) = min (as_intervalSec (Normalize s)) (max 5 (as_watchIntervalSec s))"
  "as_expected (Normalize s) = min (as_buildLimit (Normalize s)) (max 1 (as_expected s))"
  "as_activeSize (Normalize s) =
     min (as_buildLimit (Normalize s)) (max (max 1 (as_expected s)) (max 1 (as_activeSize s)))"
  "as_sampling (Normalize s) = min 60 (max 2 (as_sampling s))"
  "as_toleranceMs (Normalize s) = max 0 (as_toleranceMs s)"
  "as_maxRTTms (Normalize s) = max 0 (as_maxRTTms s)"
  "as_dialRetries (Normalize s) = min 5 (max 0 (as_dialRetries s))"
  "as_balanceIntervalSec (Normalize s) = max 5 (as_balanceIntervalSec s)"
  "as_balanceMode (Normalize s) = (if as_balanceMode s \<noteq> ''connection'' then ''rotate'' else as_balanceMode s)"
  by (simp_all add: Normalize_def Let_def at_least_max at_most_min del: if_split)

lemma Normalize_caps:
  "1 \<le> as_buildLimit (Normalize s)" "as_buildLimit (Normalize s) \<le> as_poolCap (Normalize s)"
  "as_poolCap (Normalize s) \<le> kMaxPoolCap" "as_buildLimit (Normalize s) \<le> kMaxBuildLimit"
  unfolding Normalize_values selector_caps by linarith+

lemma Normalize_normal: "normal (Normalize s)"
proof -
  note caps = Normalize_caps [of s]
  have "1 \<le> as_expected (Normalize s)" "as_expected (Normalize s) \<le> as_activeSize (Normalize s)"
    "as_activeSize (Normalize s) \<le> as_buildLimit (Normalize s)"
    using caps(1) unfolding Normalize_values(7,8) by linarith+
  moreover have "10 \<le> as_intervalSec (Normalize s)"
    unfolding Normalize_values(4) by linarith
  moreover from this have "5 \<le> as_watchIntervalSec (Normalize s)"
    "as_watchIntervalSec (Normalize s) \<le> as_intervalSec (Normalize s)"
    "as_intervalSec (Normalize s) \<le> as_benchIntervalSec (Normalize s)"
    unfolding Normalize_values(5,6) by linarith+
  moreover have "0 \<le> as_resultValidityMins (Normalize s)" "2 \<le> as_sampling (Normalize s)"
    "as_sampling (Normalize s) \<le> 60" "0 \<le> as_toleranceMs (Normalize s)" "0 \<le> as_maxRTTms (Normalize s)"
    "0 \<le> as_dialRetries (Normalize s)" "as_dialRetries (Normalize s) \<le> 5"
    "5 \<le> as_balanceIntervalSec (Normalize s)"
    unfolding Normalize_values(3,9-13) by linarith+
  moreover have "as_balanceMode (Normalize s) \<in> {''rotate'', ''connection''}"
    unfolding Normalize_values(14) by simp
  ultimately show ?thesis using caps unfolding normal_def by blast
qed

lemma Normalize_id: "normal s \<Longrightarrow> Normalize s = s"
  by (rule autoSelector.equality)
    (auto simp: normal_def Normalize_def Let_def at_least_max at_most_min max_def min_def)

lemma Normalize_keeps [simp]:
  "as_name (Normalize s) = as_name s" "as_gid (Normalize s) = as_gid s"
  "as_nameFilter (Normalize s) = as_nameFilter s" "as_countryFilter (Normalize s) = as_countryFilter s"
  "as_priorityNameFilters (Normalize s) = as_priorityNameFilters s"
  "as_priorityProfileIds (Normalize s) = as_priorityProfileIds s"
  "as_excludeUnavailable (Normalize s) = as_excludeUnavailable s"
  "as_pool (Normalize s) = as_pool s" "as_history (Normalize s) = as_history s"
  by (simp_all add: Normalize_def Let_def)

subsection \<open>JSON\<close>

text \<open>A tier of profile ids drops what is no id and what the tier already has.\<close>

fun parse_tier :: "int list \<Rightarrow> json list \<Rightarrow> int list" where
  "parse_tier tier [] = tier"
| "parse_tier tier (v # vs) =
     (let i = to_int (-1) v
      in if 0 \<le> i \<and> i \<notin> set tier then parse_tier (tier @ [i]) vs else parse_tier tier vs)"

fun parse_name_filters :: "'z qt_text_scheme \<Rightarrow> json list \<Rightarrow> string list" where
  "parse_name_filters Q [] = []"
| "parse_name_filters Q (v # vs) =
     (let f = qt_trimmed Q (to_str [] v)
      in if f \<noteq> [] then f # parse_name_filters Q vs else parse_name_filters Q vs)"

text \<open>The members \<^verbatim>\<open>ParseFromJson\<close> looks for, in its order, with the assignment each makes.\<close>

definition selector_parsers ::
  "'z qt_text_scheme \<Rightarrow> (string \<times> (json \<Rightarrow> autoSelector \<Rightarrow> autoSelector)) list" where
  "selector_parsers Q =
    [(''name'', \<lambda>v. as_name_update (\<lambda>_. to_str [] v)),
     (''gid'', \<lambda>v. as_gid_update (\<lambda>_. to_int (-1) v)),
     (''name_filter'', \<lambda>v. as_nameFilter_update (\<lambda>_. to_str [] v)),
     (''country_filter'', \<lambda>v. as_countryFilter_update (\<lambda>_. to_str [] v)),
     (''priority_name_filters'', \<lambda>v. as_priorityNameFilters_update (\<lambda>_. parse_name_filters Q (to_arr v))),
     (''priority_profile_ids'',
        \<lambda>v. as_priorityProfileIds_update (\<lambda>_. map (\<lambda>t. parse_tier [] (to_arr t)) (to_arr v))),
     (''exclude_unavailable'', \<lambda>v. as_excludeUnavailable_update (\<lambda>_. to_bool True v)),
     (''pool_cap'', \<lambda>v. as_poolCap_update (\<lambda>_. to_int 3000 v)),
     (''build_limit'', \<lambda>v. as_buildLimit_update (\<lambda>_. to_int 300 v)),
     (''result_validity_mins'', \<lambda>v. as_resultValidityMins_update (\<lambda>_. to_int 60 v)),
     (''test_url'', \<lambda>v. as_testURL_update (\<lambda>_. to_str [] v)),
     (''connectivity_url'', \<lambda>v. as_connectivityURL_update (\<lambda>_. to_str [] v)),
     (''interval_sec'', \<lambda>v. as_intervalSec_update (\<lambda>_. to_int 60 v)),
     (''bench_interval_sec'', \<lambda>v. as_benchIntervalSec_update (\<lambda>_. to_int 600 v)),
     (''watch_interval_sec'', \<lambda>v. as_watchIntervalSec_update (\<lambda>_. to_int 15 v)),
     (''active_size'', \<lambda>v. as_activeSize_update (\<lambda>_. to_int 10 v)),
     (''sampling'', \<lambda>v. as_sampling_update (\<lambda>_. to_int 10 v)),
     (''tolerance_ms'', \<lambda>v. as_toleranceMs_update (\<lambda>_. to_int 100 v)),
     (''max_rtt_ms'', \<lambda>v. as_maxRTTms_update (\<lambda>_. to_int 0 v)),
     (''expected'', \<lambda>v. as_expected_update (\<lambda>_. to_int 3 v)),
     (''dial_retries'', \<lambda>v. as_dialRetries_update (\<lambda>_. to_int 2 v)),
     (''interrupt_on_switch'', \<lambda>v. as_interruptOnSwitch_update (\<lambda>_. to_bool True v)),
     (''balance'', \<lambda>v. as_balance_update (\<lambda>_. to_bool False v)),
     (''balance_mode'', \<lambda>v. as_balanceMode_update (\<lambda>_. to_str ''rotate'' v)),
     (''balance_interval_sec'', \<lambda>v. as_balanceIntervalSec_update (\<lambda>_. to_int 30 v)),
     (''pool'', \<lambda>v. as_pool_update (\<lambda>_. QJsonArray2QListInt (to_arr v))),
     (''pool_ranked_at'', \<lambda>v. as_poolRankedAt_update (\<lambda>_. double_to_int64 (to_double v))),
     (''pinned_id'', \<lambda>v. as_pinnedID_update (\<lambda>_. to_int (-1) v)),
     (''last_built'', \<lambda>v. as_lastBuilt_update (\<lambda>_. QJsonArray2QListInt (to_arr v))),
     (''last_built_at'', \<lambda>v. as_lastBuiltAt_update (\<lambda>_. double_to_int64 (to_double v))),
     (''history'', \<lambda>v. as_history_update (\<lambda>_. to_arr v))]"

text \<open>\<open>parse_members\<close> is a run of \<^verbatim>\<open>if (object.contains(k)) field = ...;\<close> statements.\<close>

definition parse_members :: "(string \<times> (json \<Rightarrow> 's \<Rightarrow> 's)) list \<Rightarrow> jobject \<Rightarrow> 's \<Rightarrow> 's" where
  "parse_members ps ob s = fold (\<lambda>(k, f) s. if jcontains ob k then f (jget ob k) s else s) ps s"

definition autoSelector_ParseFromJson ::
  "'z qt_text_scheme \<Rightarrow> jobject \<Rightarrow> autoSelector \<Rightarrow> autoSelector option" where
  "autoSelector_ParseFromJson Q ob s =
     (if ob = [] then None else Some (Normalize (parse_members (selector_parsers Q) ob s)))"

definition selector_members :: "autoSelector \<Rightarrow> (string \<times> json) list" where
  "selector_members s =
    [(''name'', JStr (as_name s)),
     (''gid'', jint (as_gid s)),
     (''name_filter'', JStr (as_nameFilter s)),
     (''country_filter'', JStr (as_countryFilter s)),
     (''priority_name_filters'', JArr (map JStr (as_priorityNameFilters s))),
     (''priority_profile_ids'', JArr (map (\<lambda>t. JArr (map jint t)) (as_priorityProfileIds s))),
     (''exclude_unavailable'', JBool (as_excludeUnavailable s)),
     (''pool_cap'', jint (as_poolCap s)),
     (''build_limit'', jint (as_buildLimit s)),
     (''result_validity_mins'', jint (as_resultValidityMins s)),
     (''test_url'', JStr (as_testURL s)),
     (''connectivity_url'', JStr (as_connectivityURL s)),
     (''interval_sec'', jint (as_intervalSec s)),
     (''bench_interval_sec'', jint (as_benchIntervalSec s)),
     (''watch_interval_sec'', jint (as_watchIntervalSec s)),
     (''active_size'', jint (as_activeSize s)),
     (''sampling'', jint (as_sampling s)),
     (''tolerance_ms'', jint (as_toleranceMs s)),
     (''max_rtt_ms'', jint (as_maxRTTms s)),
     (''expected'', jint (as_expected s)),
     (''dial_retries'', jint (as_dialRetries s)),
     (''interrupt_on_switch'', JBool (as_interruptOnSwitch s)),
     (''balance'', JBool (as_balance s)),
     (''balance_mode'', JStr (as_balanceMode s)),
     (''balance_interval_sec'', jint (as_balanceIntervalSec s)),
     (''pool'', JArr (QListInt2QJsonArray (as_pool s))),
     (''pool_ranked_at'', JNum (int64_to_double (as_poolRankedAt s))),
     (''pinned_id'', jint (as_pinnedID s)),
     (''last_built'', JArr (QListInt2QJsonArray (as_lastBuilt s))),
     (''last_built_at'', JNum (int64_to_double (as_lastBuiltAt s))),
     (''history'', JArr (as_history s))]"

definition autoSelector_ExportToJson :: "autoSelector \<Rightarrow> jobject" where
  "autoSelector_ExportToJson s = jbuild ((''type'', JStr ''autoselector'') # selector_members s)"

lemma parse_members_jbuild:
  assumes "distinct (map fst fs)"
    and "list_all2 (\<lambda>(k, f) (k', v). k = k' \<and> (k', v) \<in> set fs) ps vs"
  shows "parse_members ps (jbuild fs) s = fold (\<lambda>((k, f), (k', v)) s. f v s) (zip ps vs) s"
  using assms(2)
proof (induction ps vs arbitrary: s rule: list_all2_induct)
  case Nil
  then show ?case by (simp add: parse_members_def)
next
  case (Cons p ps v vs)
  obtain k f w where p: "p = (k, f)" "v = (k, w)" and "(k, w) \<in> set fs"
    using Cons.hyps(1) by (cases p; cases v) auto
  then have "map_of fs k = Some w" using assms(1) by simp
  then have "jcontains (jbuild fs) k" "jget (jbuild fs) k = w"
    using assms(1) by (simp_all add: jcontains_jbuild jget_jbuild)
  with Cons.IH p show ?case by (simp add: parse_members_def)
qed

lemma selector_keys: "map fst (selector_parsers Q) = map fst (selector_members s)"
  by (simp add: selector_parsers_def selector_members_def)

lemma selector_keys_distinct: "distinct (''type'' # map fst (selector_members s))"
proof -
  have "map fst (selector_members s) =
    [''name'', ''gid'', ''name_filter'', ''country_filter'', ''priority_name_filters'',
     ''priority_profile_ids'', ''exclude_unavailable'', ''pool_cap'', ''build_limit'',
     ''result_validity_mins'', ''test_url'', ''connectivity_url'', ''interval_sec'',
     ''bench_interval_sec'', ''watch_interval_sec'', ''active_size'', ''sampling'', ''tolerance_ms'',
     ''max_rtt_ms'', ''expected'', ''dial_retries'', ''interrupt_on_switch'', ''balance'',
     ''balance_mode'', ''balance_interval_sec'', ''pool'', ''pool_ranked_at'', ''pinned_id'',
     ''last_built'', ''last_built_at'', ''history'']"
    by (simp only: selector_members_def list.map fst_conv)
  then show ?thesis by (simp only:) code_simp
qed

lemma list_all2_keys:
  "map fst ps = map fst vs \<Longrightarrow> set vs \<subseteq> A \<Longrightarrow>
   list_all2 (\<lambda>(k, f) (k', v). k = k' \<and> (k', v) \<in> A) ps vs"
proof (induction ps arbitrary: vs)
  case (Cons p ps)
  then show ?case by (cases vs) auto
qed simp

lemma parse_tier_export:
  "distinct (tier @ t) \<Longrightarrow> list_all (\<lambda>i. 0 \<le> i \<and> is_int32 i) t \<Longrightarrow> parse_tier tier (map jint t) = tier @ t"
  by (induction t arbitrary: tier) (auto simp: Let_def)

lemma parse_name_filters_export:
  "list_all (\<lambda>f. f \<noteq> [] \<and> qt_trimmed Q f = f) fs \<Longrightarrow> parse_name_filters Q (map JStr fs) = fs"
  by (induction fs) (auto simp: Let_def)

subsection \<open>History\<close>

record HistoryEntry =
  he_id :: int
  he_firstUsed :: int
  he_lastUsed :: int
  he_builds :: int
  he_failures :: int
  he_name :: string

definition new_HistoryEntry :: HistoryEntry where
  "new_HistoryEntry = \<lparr>he_id = -1, he_firstUsed = 0, he_lastUsed = 0, he_builds = 0,
     he_failures = 0, he_name = []\<rparr>"

definition history_entry :: "jobject \<Rightarrow> HistoryEntry" where
  "history_entry ob = \<lparr>he_id = to_int (-1) (jget ob ''id''),
     he_firstUsed = double_to_int64 (to_double (jget ob ''first'')),
     he_lastUsed = double_to_int64 (to_double (jget ob ''last'')),
     he_builds = to_int 0 (jget ob ''builds''), he_failures = to_int 0 (jget ob ''fails''),
     he_name = to_str [] (jget ob ''name'')\<rparr>"

definition HistoryEntries :: "json list \<Rightarrow> HistoryEntry list" where
  "HistoryEntries history =
     filter (\<lambda>e. 0 \<le> he_id e) (map (\<lambda>v. history_entry (to_obj v)) history)"

definition history_object :: "HistoryEntry \<Rightarrow> json" where
  "history_object e = JObj (jbuild
     [(''id'', jint (he_id e)), (''first'', JNum (int64_to_double (he_firstUsed e))),
      (''last'', JNum (int64_to_double (he_lastUsed e))), (''builds'', jint (he_builds e)),
      (''fails'', jint (he_failures e)), (''name'', JStr (he_name e))])"

text \<open>A \<^verbatim>\<open>QHash\<close> read with \<^verbatim>\<open>value()\<close> yields a default entry for a missing key.\<close>

definition hash_value :: "(int \<rightharpoonup> HistoryEntry) \<Rightarrow> int \<Rightarrow> HistoryEntry" where
  "hash_value byID i = (case byID i of Some e \<Rightarrow> e | None \<Rightarrow> new_HistoryEntry)"

fun load_history :: "HistoryEntry list \<Rightarrow> (int \<rightharpoonup> HistoryEntry) \<times> int list \<Rightarrow> (int \<rightharpoonup> HistoryEntry) \<times> int list" where
  "load_history [] st = st"
| "load_history (e # es) (byID, order) = load_history es (byID(he_id e \<mapsto> e), order @ [he_id e])"

definition touch_entry :: "(int \<rightharpoonup> string) \<Rightarrow> int \<Rightarrow> int \<Rightarrow> HistoryEntry \<Rightarrow> HistoryEntry" where
  "touch_entry names now i e =
     (let e = (if he_id e < 0 then e\<lparr>he_id := i, he_firstUsed := now\<rparr> else e);
          e = e\<lparr>he_lastUsed := now, he_builds := he_builds e + 1\<rparr>
      in case names i of Some n \<Rightarrow> e\<lparr>he_name := n\<rparr> | None \<Rightarrow> e)"

fun touch_history ::
  "(int \<rightharpoonup> string) \<Rightarrow> int \<Rightarrow> int list \<Rightarrow> (int \<rightharpoonup> HistoryEntry) \<times> int list \<Rightarrow> (int \<rightharpoonup> HistoryEntry) \<times> int list" where
  "touch_history names now [] st = st"
| "touch_history names now (i # is) (byID, order) =
     (let entry = hash_value byID i;
          order = (if he_id entry < 0 then order else remove1 i order)
      in touch_history names now is (byID(i \<mapsto> touch_entry names now i entry), i # order))"

function trim_history :: "(int \<rightharpoonup> HistoryEntry) \<times> int list \<Rightarrow> (int \<rightharpoonup> HistoryEntry) \<times> int list" where
  "trim_history (byID, order) =
     (if kMaxHistoryEntries < length order
      then trim_history (byID(last order := None), butlast order)
      else (byID, order))"
  by pat_completeness auto
termination
  by (relation "measure (length \<circ> snd)") auto

declare trim_history.simps [simp del]

definition RecordHistory :: "int list \<Rightarrow> (int \<rightharpoonup> string) \<Rightarrow> int \<Rightarrow> json list \<Rightarrow> json list" where
  "RecordHistory ids names now history =
     (let st = load_history (HistoryEntries history) (Map.empty, []);
          st = touch_history names now ids st;
          (byID, order) = trim_history st
      in map (\<lambda>i. history_object (hash_value byID i)) order)"

fun RecordHistoryFailure :: "int \<Rightarrow> json list \<Rightarrow> json list" where
  "RecordHistoryFailure i [] = []"
| "RecordHistoryFailure i (v # vs) =
     (let ob = to_obj v in
      if to_int (-1) (jget ob ''id'') \<noteq> i then v # RecordHistoryFailure i vs
      else JObj (jput ''fails'' (jint (to_int 0 (jget ob ''fails'') + 1)) ob) # vs)"

end
