(* ===== verification/Profile.thy ===== *)
theory Profile
  imports AutoSelector Wireguard
begin

text \<open>
  A profile and its outbound, as far as the components here look into them:
  \<^verbatim>\<open>Profile\<close> (database/entities/Profile), the virtual functions of
  \<^verbatim>\<open>outbound\<close> that the membership rules ask for, and the \<^verbatim>\<open>dynamic_cast\<close>
  accessors. \<open>ob_address\<close> is the text the outbound's own \<^verbatim>\<open>DisplayAddress()\<close> shows.
\<close>

record vpn_options =
  vo_only_advertised_routes :: bool
  vo_use_tunnel_dns :: bool
  vo_block_outside_dns :: bool

text \<open>
  The class of an outbound, with the data of the classes the other components look into. A class
  that has the base class's fields among its own data repeats the name there.
\<close>

datatype outbound_class =
    CustomOb custom
  | SelectorOb autoSelector
  | ChainOb "int list"
  | ExtraCoreOb
  | XrayVlessOb
  | SocksOb socks
  | WireguardOb wireguard
  | TailscaleOb
  | OpenVPNOb vpn_options
  | OpenConnectOb vpn_options
  | OtherOb

record outbound =
  ob_name :: string
  ob_address :: string
  ob_class :: outbound_class

definition DisplayName :: "outbound \<Rightarrow> string" where
  "DisplayName ob = (if ob_name ob = [] then ob_address ob else ob_name ob)"

definition IsXray :: "outbound \<Rightarrow> bool" where
  "IsXray ob = (case ob_class ob of
     CustomOb c \<Rightarrow> cu_type c = CustomXrayOutbound
   | XrayVlessOb \<Rightarrow> True
   | _ \<Rightarrow> False)"

definition IsXrayFullConfig :: "outbound \<Rightarrow> bool" where
  "IsXrayFullConfig ob = (case ob_class ob of
     CustomOb c \<Rightarrow> cu_type c = CustomXrayFullConfig
   | _ \<Rightarrow> False)"

definition IsExtraCore :: "outbound \<Rightarrow> bool" where
  "IsExtraCore ob = (case ob_class ob of ExtraCoreOb \<Rightarrow> True | _ \<Rightarrow> False)"

definition IsEndpoint :: "(string \<Rightarrow> jobject) \<Rightarrow> outbound \<Rightarrow> bool" where
  "IsEndpoint obj ob = (case ob_class ob of
     CustomOb c \<Rightarrow> custom_IsEndpoint obj c
   | WireguardOb _ \<Rightarrow> True | TailscaleOb \<Rightarrow> True | OpenVPNOb _ \<Rightarrow> True | OpenConnectOb _ \<Rightarrow> True
   | _ \<Rightarrow> False)"

record profile =
  pr_type :: string
  pr_name :: string
  pr_id :: int
  pr_gid :: int
  pr_latency :: int
  pr_latency_at :: int
  pr_dl_speed :: string
  pr_ul_speed :: string
  pr_test_country :: string
  pr_outbound :: "outbound option"
  pr_traffic_downlink :: int
  pr_traffic_uplink :: int
  pr_ip_out :: string

definition new_profile :: profile where
  "new_profile = \<lparr>pr_type = [], pr_name = [], pr_id = -1, pr_gid = 0, pr_latency = 0, pr_latency_at = 0,
     pr_dl_speed = [], pr_ul_speed = [], pr_test_country = [], pr_outbound = None,
     pr_traffic_downlink = 0, pr_traffic_uplink = 0, pr_ip_out = []\<rparr>"

text \<open>\<^verbatim>\<open>dataManager->profilesRepo->GetProfile\<close>: the profile of an id, or \<^verbatim>\<open>nullptr\<close>.\<close>

type_synonym profiles = "int \<Rightarrow> profile option"

definition Custom :: "profile \<Rightarrow> custom option" where
  "Custom p = (case pr_outbound p of
     Some ob \<Rightarrow> (case ob_class ob of CustomOb c \<Rightarrow> Some c | _ \<Rightarrow> None)
   | None \<Rightarrow> None)"

definition AutoSelector_of :: "profile \<Rightarrow> autoSelector option" where
  "AutoSelector_of p = (case pr_outbound p of
     Some ob \<Rightarrow> (case ob_class ob of SelectorOb s \<Rightarrow> Some s | _ \<Rightarrow> None)
   | None \<Rightarrow> None)"

definition OpenVPN :: "profile \<Rightarrow> vpn_options option" where
  "OpenVPN p = (case pr_outbound p of
     Some ob \<Rightarrow> (case ob_class ob of OpenVPNOb v \<Rightarrow> Some v | _ \<Rightarrow> None)
   | None \<Rightarrow> None)"

definition OpenConnect :: "profile \<Rightarrow> vpn_options option" where
  "OpenConnect p = (case pr_outbound p of
     Some ob \<Rightarrow> (case ob_class ob of OpenConnectOb v \<Rightarrow> Some v | _ \<Rightarrow> None)
   | None \<Rightarrow> None)"

text \<open>A write through the pointer \<^verbatim>\<open>AutoSelector()\<close> returns.\<close>

definition put_selector :: "autoSelector \<Rightarrow> profile \<Rightarrow> profile" where
  "put_selector s p = p\<lparr>pr_outbound := map_option (\<lambda>ob. ob\<lparr>ob_class := SelectorOb s\<rparr>) (pr_outbound p)\<rparr>"

lemma put_selector_of [simp]:
  "AutoSelector_of p \<noteq> None \<Longrightarrow> AutoSelector_of (put_selector s p) = Some s"
  "AutoSelector_of p = Some s0 \<Longrightarrow> AutoSelector_of (put_selector s p) = Some s"
  by (auto simp: AutoSelector_of_def put_selector_def split: option.splits)

lemma put_selector_id [simp]: "pr_id (put_selector s p) = pr_id p"
  by (simp add: put_selector_def)

subsection \<open>Test results\<close>

definition kLatencyConnectOnly :: int where "kLatencyConnectOnly = -2"

definition ClearTestResults :: "profile \<Rightarrow> profile" where
  "ClearTestResults p = p\<lparr>pr_test_country := [], pr_ip_out := [], pr_latency := 0, pr_latency_at := 0,
     pr_dl_speed := [], pr_ul_speed := []\<rparr>"

definition SetLatency :: "int \<Rightarrow> int \<Rightarrow> profile \<Rightarrow> profile" where
  "SetLatency now ms p = p\<lparr>pr_latency := ms, pr_latency_at := (if ms = 0 then 0 else now)\<rparr>"

definition ResetTraffic :: "profile \<Rightarrow> profile" where
  "ResetTraffic p = p\<lparr>pr_traffic_downlink := 0, pr_traffic_uplink := 0\<rparr>"

datatype latency_colour = DarkCyan | DarkGray | DarkGreen | DarkYellow | Red | NoColour

definition DisplayLatencyColor :: "profile \<Rightarrow> latency_colour" where
  "DisplayLatencyColor p =
     (if pr_latency p = kLatencyConnectOnly then DarkCyan
      else if pr_latency p < 0 then DarkGray
      else if 0 < pr_latency p then
        (if pr_latency p \<le> 100 then DarkGreen else if pr_latency p \<le> 300 then DarkYellow else Red)
      else NoColour)"

end
