(* ===== verification/Group.thy ===== *)
theory Group
  imports Profile
begin

text \<open>
  A group and its ordered list of profile ids, \<^verbatim>\<open>src/database/entities/Group.cpp\<close>. Every
  operation runs under the group's mutex; \<open>SortProfiles\<close> gives up when it is taken. Sorting uses
  \<^verbatim>\<open>std::ranges::sort\<close>, which need not be stable, so its outcome is a relation: some
  permutation that is sorted under the comparator.
\<close>

datatype testBy = ByLatency | ByDlSpeed | ByUlSpeed | ByIpOut
datatype trafficBy = ByTotal | ByDl | ByUl
datatype testShowItems = ShowAll | ShowNone | ShowIpOnly | ShowSpeedOnly
datatype typeBy = SortByType | SortBySecurity

record group =
  gr_id :: int
  gr_archive :: bool
  gr_skip_auto_update :: bool
  gr_auto_clear_unavailable :: bool
  gr_name :: string
  gr_url :: string
  gr_info :: string
  gr_sub_last_update :: int
  gr_front_proxy_id :: int
  gr_landing_proxy_id :: int
  gr_column_width :: "int list"
  gr_profiles :: "int list"
  gr_scroll_last_profile :: int
  gr_test_sort_by :: testBy
  gr_traffic_sort_by :: trafficBy
  gr_type_sort_by :: typeBy
  gr_test_items_to_show :: testShowItems

definition new_group :: group where
  "new_group = \<lparr>gr_id = -1, gr_archive = False, gr_skip_auto_update = False, gr_auto_clear_unavailable = False,
     gr_name = [], gr_url = [], gr_info = [], gr_sub_last_update = 0, gr_front_proxy_id = -1,
     gr_landing_proxy_id = -1, gr_column_width = [], gr_profiles = [], gr_scroll_last_profile = -1,
     gr_test_sort_by = ByLatency, gr_traffic_sort_by = ByTotal, gr_type_sort_by = SortByType,
     gr_test_items_to_show = ShowAll\<rparr>"

type_synonym groups = "int \<Rightarrow> group option"

definition HasProfile :: "int \<Rightarrow> group \<Rightarrow> bool" where
  "HasProfile i g \<longleftrightarrow> i \<in> set (gr_profiles g)"

definition AddProfile :: "int \<Rightarrow> group \<Rightarrow> bool \<times> group" where
  "AddProfile i g =
     (if HasProfile i g then (False, g) else (True, g\<lparr>gr_profiles := gr_profiles g @ [i]\<rparr>))"

text \<open>The set of present ids is taken before the loop and not updated in it.\<close>

definition AddProfileBatch :: "int list \<Rightarrow> group \<Rightarrow> bool \<times> group" where
  "AddProfileBatch ids g =
     (True, g\<lparr>gr_profiles := gr_profiles g @ filter (\<lambda>i. i \<notin> set (gr_profiles g)) ids\<rparr>)"

definition RemoveProfile :: "int \<Rightarrow> group \<Rightarrow> bool \<times> group" where
  "RemoveProfile i g =
     (if \<not> HasProfile i g then (False, g)
      else (True, g\<lparr>gr_profiles := removeAll i (gr_profiles g)\<rparr>))"

definition RemoveProfileBatch :: "int list \<Rightarrow> group \<Rightarrow> bool \<times> group" where
  "RemoveProfileBatch ids g =
     (True, g\<lparr>gr_profiles := filter (\<lambda>i. i \<notin> set ids) (gr_profiles g)\<rparr>)"

text \<open>Row arguments are \<^verbatim>\<open>int\<close>; a negative one is outside the contract of \<^verbatim>\<open>QList\<close>.\<close>

definition SwapProfiles :: "nat \<Rightarrow> nat \<Rightarrow> group \<Rightarrow> bool \<times> group" where
  "SwapProfiles i j g =
     (let ps = gr_profiles g in
      if length ps \<le> i \<or> length ps \<le> j then (False, g)
      else (True, g\<lparr>gr_profiles := ps[i := ps ! j, j := ps ! i]\<rparr>))"

definition list_insert :: "nat \<Rightarrow> 'a \<Rightarrow> 'a list \<Rightarrow> 'a list" where
  "list_insert n x xs = take n xs @ x # drop n xs"

definition list_remove :: "nat \<Rightarrow> 'a list \<Rightarrow> 'a list" where
  "list_remove n xs = take n xs @ drop (Suc n) xs"

text \<open>\<open>newIdx\<close> is -1 for a drop above the first row.\<close>

definition EmplaceProfile :: "nat \<Rightarrow> int \<Rightarrow> group \<Rightarrow> bool \<times> group" where
  "EmplaceProfile idx newIdx g =
     (let ps = gr_profiles g in
      if length ps \<le> idx \<or> int (length ps) \<le> newIdx then (False, g)
      else let ps' = list_insert (nat (newIdx + 1)) (ps ! idx) ps in
        (True, g\<lparr>gr_profiles := if int idx < newIdx then list_remove idx ps' else list_remove (idx + 1) ps'\<rparr>))"

subsection \<open>Membership\<close>

definition group_ok :: "group \<Rightarrow> bool" where
  "group_ok g \<longleftrightarrow> distinct (gr_profiles g)"

lemma AddProfile_ok: "group_ok g \<Longrightarrow> group_ok (snd (AddProfile i g))"
  by (simp add: AddProfile_def group_ok_def HasProfile_def)

lemma AddProfileBatch_ok: "group_ok g \<Longrightarrow> distinct ids \<Longrightarrow> group_ok (snd (AddProfileBatch ids g))"
  by (auto simp: AddProfileBatch_def group_ok_def)

lemma RemoveProfile_ok: "group_ok g \<Longrightarrow> group_ok (snd (RemoveProfile i g))"
  by (simp add: RemoveProfile_def group_ok_def distinct_removeAll)

lemma RemoveProfileBatch_ok: "group_ok g \<Longrightarrow> group_ok (snd (RemoveProfileBatch ids g))"
  by (simp add: RemoveProfileBatch_def group_ok_def)

lemma mset_swap_pair:
  "i < length xs \<Longrightarrow> j < length xs \<Longrightarrow> mset (xs[i := xs ! j, j := xs ! i]) = mset xs"
  by (rule mset_swap)

lemma list_move_up:
  "n \<le> length A \<Longrightarrow> list_remove (Suc (length A)) (list_insert n x (A @ x # B)) = take n A @ x # drop n A @ B"
  by (simp add: list_remove_def list_insert_def Suc_diff_le)

lemma list_move_down:
  "n \<le> length B \<Longrightarrow>
   list_remove (length A) (list_insert (Suc (length A + n)) x (A @ x # B)) = A @ take n B @ x # drop n B"
  by (simp add: list_remove_def list_insert_def)

lemma mset_take_drop: "mset (take n xs) + mset (drop n xs) = mset xs"
  by (metis append_take_drop_id mset_append)

lemma EmplaceProfile_mset:
  assumes "- 1 \<le> newIdx"
  shows "mset (gr_profiles (snd (EmplaceProfile idx newIdx g))) = mset (gr_profiles g)"
proof (cases "idx < length (gr_profiles g) \<and> newIdx < int (length (gr_profiles g))")
  case False
  then show ?thesis by (auto simp: EmplaceProfile_def Let_def)
next
  case True
  then obtain A x B where ps: "gr_profiles g = A @ x # B" "length A = idx"
    by (metis id_take_nth_drop length_take min.absorb4)
  show ?thesis
  proof (cases "int idx < newIdx")
    case True
    define n where "n = nat newIdx - idx"
    have n: "nat (newIdx + 1) = Suc (idx + n)" "n \<le> length B"
      using True \<open>idx < _ \<and> _\<close> ps by (auto simp: n_def)
    then have "gr_profiles (snd (EmplaceProfile idx newIdx g)) = A @ take n B @ x # drop n B"
      using True \<open>idx < _ \<and> _\<close> list_move_down [of n B A x] ps
      by (simp add: EmplaceProfile_def Let_def nth_append)
    then show ?thesis using mset_take_drop [of n B] by (simp add: ps ac_simps)
  next
    case False
    define n where "n = nat (newIdx + 1)"
    have n: "n \<le> Suc idx" using False assms by (simp add: n_def)
    show ?thesis
    proof (cases "n = Suc idx")
      case True
      then have "gr_profiles (snd (EmplaceProfile idx newIdx g)) = gr_profiles g"
        using False \<open>idx < _ \<and> _\<close> ps
        by (simp add: EmplaceProfile_def Let_def nth_append n_def [symmetric] list_insert_def list_remove_def)
      then show ?thesis by simp
    next
      case neq: False
      then have "gr_profiles (snd (EmplaceProfile idx newIdx g)) = take n A @ x # drop n A @ B"
        using False n \<open>idx < _ \<and> _\<close> list_move_up [of n A x B] ps
        by (simp add: EmplaceProfile_def Let_def nth_append n_def [symmetric])
      then show ?thesis using mset_take_drop [of n A] by (simp add: ps ac_simps)
    qed
  qed
qed

lemma SwapProfiles_mset: "mset (gr_profiles (snd (SwapProfiles i j g))) = mset (gr_profiles g)"
  by (simp add: SwapProfiles_def Let_def mset_swap_pair)

end
