(* ===== verification/AutoSelectorPlan.thy ===== *)
theory AutoSelectorPlan
  imports Group
begin

text \<open>
  Membership and ranking for an auto selector, \<^verbatim>\<open>src/configs/AutoSelectorPlan.cpp\<close>: which profiles
  of the tracked group may join, in which order, and how many are built. Regular expressions and
  JSON text parsing are Qt's (\<open>plan_env\<close>); repositories are the functions \<open>profiles\<close> and \<open>groups\<close>.
  The code reads the clock once per phase, so every clock reading is an argument of its own.
\<close>

datatype AutoSelectorSkip =
    NoSkip
  | Missing
  | MetaType
  | CoreTransitions
  | ExtraCore
  | FullConfig
  | Malformed
  | Tailscale
  | ManagementEndpoint
  | NameFilter
  | CountryFilter
  | Unavailable
  | XrayFullChained

text \<open>The enumeration is ordered by its declaration, as the keys of a \<^verbatim>\<open>QMap\<close> are.\<close>

fun skip_rank :: "AutoSelectorSkip \<Rightarrow> nat" where
  "skip_rank NoSkip = 0" | "skip_rank Missing = 1" | "skip_rank MetaType = 2"
| "skip_rank CoreTransitions = 3" | "skip_rank ExtraCore = 4" | "skip_rank FullConfig = 5"
| "skip_rank Malformed = 6" | "skip_rank Tailscale = 7" | "skip_rank ManagementEndpoint = 8"
| "skip_rank NameFilter = 9" | "skip_rank CountryFilter = 10" | "skip_rank Unavailable = 11"
| "skip_rank XrayFullChained = 12"

lemma skip_rank_inject: "skip_rank x = skip_rank y \<longleftrightarrow> x = y"
  by (cases x; cases y) simp_all

instantiation AutoSelectorSkip :: linorder
begin

definition less_eq_AutoSelectorSkip :: "AutoSelectorSkip \<Rightarrow> AutoSelectorSkip \<Rightarrow> bool" where
  "less_eq_AutoSelectorSkip x y \<longleftrightarrow> skip_rank x \<le> skip_rank y"

definition less_AutoSelectorSkip :: "AutoSelectorSkip \<Rightarrow> AutoSelectorSkip \<Rightarrow> bool" where
  "less_AutoSelectorSkip x y \<longleftrightarrow> skip_rank x < skip_rank y"

instance
  by standard (auto simp: less_eq_AutoSelectorSkip_def less_AutoSelectorSkip_def skip_rank_inject)

end

text \<open>\<^verbatim>\<open>map[k]++\<close> on a \<^verbatim>\<open>QMap\<close>, kept as its entries in key order.\<close>

fun bump :: "'k::linorder \<Rightarrow> ('k \<times> int) list \<Rightarrow> ('k \<times> int) list" where
  "bump k [] = [(k, 1)]"
| "bump k ((k', n) # m) =
     (if k < k' then (k, 1) # (k', n) # m
      else if k = k' then (k, n + 1) # m
      else (k', n) # bump k m)"

text \<open>\<^verbatim>\<open>list.mid(0, n)\<close>: a negative length means up to the end.\<close>

definition mid0 :: "int \<Rightarrow> 'a list \<Rightarrow> 'a list" where
  "mid0 n xs = (if n < 0 then xs else take (nat n) xs)"

fun AutoSelectorSkipReason :: "AutoSelectorSkip \<Rightarrow> string" where
  "AutoSelectorSkipReason NoSkip = []"
| "AutoSelectorSkipReason Missing = ''missing profile''"
| "AutoSelectorSkipReason MetaType = ''chain or auto selector''"
| "AutoSelectorSkipReason CoreTransitions = ''needs too many core switches''"
| "AutoSelectorSkipReason ExtraCore = ''extra-core profile''"
| "AutoSelectorSkipReason FullConfig = ''full config profile''"
| "AutoSelectorSkipReason Malformed = ''config does not parse''"
| "AutoSelectorSkipReason Tailscale = ''Tailscale profile''"
| "AutoSelectorSkipReason ManagementEndpoint = ''OpenVPN or OpenConnect profile''"
| "AutoSelectorSkipReason NameFilter = ''filtered out by name''"
| "AutoSelectorSkipReason CountryFilter = ''filtered out by country''"
| "AutoSelectorSkipReason Unavailable = ''last test failed''"
| "AutoSelectorSkipReason XrayFullChained = ''Xray full config cannot be combined with the group's proxies''"

record plan =
  pl_pool :: "int list"
  pl_build :: "int list"
  pl_membersInGroup :: int
  pl_eligible :: int
  pl_rankedByTest :: int
  pl_skipped :: "(AutoSelectorSkip \<times> int) list"
  pl_truncated :: bool
  pl_poolCapUsed :: int
  pl_buildLimitUsed :: int
  pl_needsRanking :: bool
  pl_error :: string

definition new_plan :: plan where
  "new_plan = \<lparr>pl_pool = [], pl_build = [], pl_membersInGroup = 0, pl_eligible = 0,
     pl_rankedByTest = 0, pl_skipped = [], pl_truncated = False, pl_poolCapUsed = 0,
     pl_buildLimitUsed = 0, pl_needsRanking = False, pl_error = []\<rparr>"

definition skippedCount :: "plan \<Rightarrow> int" where
  "skippedCount p = fold (\<lambda>e total. total + snd e) (pl_skipped p) 0"

record plan_env = qt_text +
  re_valid :: "string \<Rightarrow> bool"
  re_match :: "string \<Rightarrow> string \<Rightarrow> bool" \<comment> \<open>case-insensitive match of a pattern somewhere in a text\<close>
  parse_object :: "string \<Rightarrow> jobject" \<comment> \<open>\<^verbatim>\<open>QString2QJsonObject\<close>, empty for text that is no object\<close>

subsection \<open>Filters\<close>

record MemberFilters =
  mf_name :: string
  mf_hasName :: bool
  mf_included :: "string set"
  mf_excluded :: "string set"
  mf_priorities :: "string list"

fun country_codes :: "plan_env \<Rightarrow> string list \<Rightarrow> string set \<times> string set \<Rightarrow> string set \<times> string set" where
  "country_codes E [] st = st"
| "country_codes E (code # codes) (included, excluded) =
     (let normalized = qt_upper E (qt_trimmed E code) in
      if starts_with normalized ''!'' then
        (if tl normalized \<noteq> [] then country_codes E codes (included, insert (tl normalized) excluded)
         else country_codes E codes (included, excluded))
      else if normalized \<noteq> [] then country_codes E codes (insert normalized included, excluded)
      else country_codes E codes (included, excluded))"

definition buildFilters :: "plan_env \<Rightarrow> autoSelector \<Rightarrow> MemberFilters" where
  "buildFilters E sel =
     (let named = qt_trimmed E (as_nameFilter sel) \<noteq> [];
          codes = country_codes E (split_skip_empty (CHR '','') (as_countryFilter sel)) ({}, {})
      in \<lparr>mf_name = (if named then as_nameFilter sel else []),
          mf_hasName = (named \<and> re_valid E (as_nameFilter sel)),
          mf_included = fst codes, mf_excluded = snd codes,
          mf_priorities = filter (\<lambda>p. re_valid E p \<and> qt_trimmed E p \<noteq> []) (as_priorityNameFilters sel)\<rparr>)"

text \<open>The first index whose element satisfies \<open>P\<close>, the length when none does.\<close>

fun first_index :: "('a \<Rightarrow> bool) \<Rightarrow> 'a list \<Rightarrow> nat" where
  "first_index P [] = 0"
| "first_index P (x # xs) = (if P x then 0 else Suc (first_index P xs))"

definition priorityTier :: "plan_env \<Rightarrow> autoSelector \<Rightarrow> MemberFilters \<Rightarrow> profile option \<Rightarrow> nat" where
  "priorityTier E sel fl member =
     (case member of
        None \<Rightarrow> if as_priorityProfileIds sel \<noteq> [] then length (as_priorityProfileIds sel)
                else length (mf_priorities fl)
      | Some m \<Rightarrow> (case pr_outbound m of
          None \<Rightarrow> if as_priorityProfileIds sel \<noteq> [] then length (as_priorityProfileIds sel)
                  else length (mf_priorities fl)
        | Some ob \<Rightarrow>
            if as_priorityProfileIds sel \<noteq> []
            then first_index (\<lambda>tier. pr_id m \<in> set tier) (as_priorityProfileIds sel)
            else first_index (\<lambda>re. re_match E re (DisplayName ob)) (mf_priorities fl)))"

definition hasFreshResult :: "autoSelector \<Rightarrow> int \<Rightarrow> profile option \<Rightarrow> bool" where
  "hasFreshResult sel now member = (case member of
     None \<Rightarrow> False
   | Some m \<Rightarrow>
       if pr_latency m = 0 then False
       else if as_resultValidityMins sel \<le> 0 then False
       else if pr_latency_at m \<le> 0 then False
       else now - pr_latency_at m \<le> as_resultValidityMins sel * 60)"

definition custom_skip :: "plan_env \<Rightarrow> profile \<Rightarrow> AutoSelectorSkip" where
  "custom_skip E m = (case Custom m of
     None \<Rightarrow> Missing
   | Some c \<Rightarrow>
       if cu_type c \<noteq> CustomOutbound \<and> cu_type c \<noteq> CustomXrayOutbound \<and> cu_type c \<noteq> CustomXrayFullConfig
       then FullConfig
       else if parse_object E (cu_config c) = [] then Malformed
       else NoSkip)"

definition filter_skip :: "plan_env \<Rightarrow> autoSelector \<Rightarrow> MemberFilters \<Rightarrow> int \<Rightarrow> profile \<Rightarrow> outbound \<Rightarrow> AutoSelectorSkip" where
  "filter_skip E sel fl now m ob =
     (if mf_hasName fl \<and> \<not> re_match E (mf_name fl) (DisplayName ob) then NameFilter
      else let country = qt_upper E (pr_test_country m) in
        if country \<in> mf_excluded fl then CountryFilter
        else if mf_included fl \<noteq> {} \<and> country \<notin> mf_included fl then CountryFilter
        else if as_excludeUnavailable sel \<and> pr_latency m < 0 \<and> hasFreshResult sel now (Some m)
          then Unavailable
        else NoSkip)"

definition eligibilityOf ::
  "plan_env \<Rightarrow> autoSelector \<Rightarrow> MemberFilters \<Rightarrow> int \<Rightarrow> profile option \<Rightarrow> AutoSelectorSkip" where
  "eligibilityOf E sel fl now member = (case member of
     None \<Rightarrow> Missing
   | Some m \<Rightarrow> (case pr_outbound m of
       None \<Rightarrow> Missing
     | Some ob \<Rightarrow>
         if pr_type m = ''chain'' \<or> pr_type m = ''autoselector'' then MetaType
         else if pr_type m = ''tailscale'' then Tailscale
         else if pr_type m = ''openvpn'' \<or> pr_type m = ''openconnect'' then ManagementEndpoint
         else if IsExtraCore ob then ExtraCore
         else if pr_type m = ''custom'' \<and> custom_skip E m \<noteq> NoSkip then custom_skip E m
         else filter_skip E sel fl now m ob))"

subsection \<open>Chains\<close>

fun count_transitions :: "profile option list \<Rightarrow> bool \<Rightarrow> nat \<Rightarrow> nat" where
  "count_transitions [] inXray n = n"
| "count_transitions (hop # hops) inXray n =
     (case hop of
        None \<Rightarrow> count_transitions hops inXray n
      | Some p \<Rightarrow> (case pr_outbound p of
          None \<Rightarrow> count_transitions hops inXray n
        | Some ob \<Rightarrow>
            count_transitions hops (IsXray ob) (if IsXray ob \<noteq> inXray then Suc n else n)))"

definition coreTransitions :: "profile option \<Rightarrow> profile option \<Rightarrow> profile option \<Rightarrow> nat" where
  "coreTransitions landing member front = count_transitions [landing, member, front] False 0"

definition xrayFullConfigFitsChain :: "profile option \<Rightarrow> profile option \<Rightarrow> bool" where
  "xrayFullConfigFitsChain landing front =
     (if front \<noteq> None then False
      else case landing of
        None \<Rightarrow> True
      | Some l \<Rightarrow> (case pr_outbound l of
          None \<Rightarrow> True
        | Some ob \<Rightarrow> \<not> IsXray ob \<and> \<not> IsXrayFullConfig ob \<and> \<not> IsExtraCore ob))"

subsection \<open>Ranking\<close>

definition latencyRank :: "int \<Rightarrow> nat" where
  "latencyRank latency = (if 0 < latency then 0 else if latency = 0 then 1 else 2)"

definition effectiveLatency :: "autoSelector \<Rightarrow> int \<Rightarrow> profile option \<Rightarrow> int" where
  "effectiveLatency sel now member = (case member of
     Some m \<Rightarrow> if hasFreshResult sel now (Some m) then pr_latency m else 0
   | None \<Rightarrow> 0)"

definition effectiveLatencyOf :: "profiles \<Rightarrow> autoSelector \<Rightarrow> int \<Rightarrow> int \<Rightarrow> int" where
  "effectiveLatencyOf P sel now i = effectiveLatency sel now (P i)"

definition byPolicy :: "plan_env \<Rightarrow> profiles \<Rightarrow> autoSelector \<Rightarrow> MemberFilters \<Rightarrow> int \<Rightarrow> int \<Rightarrow> int \<Rightarrow> bool" where
  "byPolicy E P sel fl now left right =
     (let leftTier = priorityTier E sel fl (P left);
          rightTier = priorityTier E sel fl (P right)
      in if leftTier \<noteq> rightTier then leftTier < rightTier
      else let leftLatency = effectiveLatencyOf P sel now left;
          rightLatency = effectiveLatencyOf P sel now right;
          leftRank = latencyRank leftLatency;
          rightRank = latencyRank rightLatency
      in if leftRank \<noteq> rightRank then leftRank < rightRank
      else if leftRank = 0 then leftLatency < rightLatency
      else False)"

text \<open>The key the comparator orders by: tier, kind of result, latency of a measured member.\<close>

definition policy_key :: "plan_env \<Rightarrow> profiles \<Rightarrow> autoSelector \<Rightarrow> MemberFilters \<Rightarrow> int \<Rightarrow> int \<Rightarrow> nat \<times> nat \<times> int" where
  "policy_key E P sel fl now i =
     (let latency = effectiveLatencyOf P sel now i in
      (priorityTier E sel fl (P i), latencyRank latency, if 0 < latency then latency else 0))"

interpretation policy: keyed_comparator "byPolicy E P sel fl now" "policy_key E P sel fl now"
  for E P sel fl now
  by unfold_locales
    (auto simp: byPolicy_def policy_key_def Let_def latencyRank_def less_prod_simp)

subsection \<open>Membership\<close>

text \<open>The decision for one profile, with the landing and front proxies of the group.\<close>

definition member_skip ::
  "plan_env \<Rightarrow> autoSelector \<Rightarrow> MemberFilters \<Rightarrow> int \<Rightarrow> profile option \<Rightarrow> profile option \<Rightarrow> profile option \<Rightarrow> AutoSelectorSkip" where
  "member_skip E sel fl now landing front member =
     (let skip = eligibilityOf E sel fl now member in
      if skip \<noteq> NoSkip then skip
      else if (case member of Some m \<Rightarrow> (case pr_outbound m of Some ob \<Rightarrow> IsXrayFullConfig ob | None \<Rightarrow> False) | None \<Rightarrow> False)
        then (if \<not> xrayFullConfigFitsChain landing front then XrayFullChained else NoSkip)
      else if 2 < coreTransitions landing member front then CoreTransitions
      else NoSkip)"

text \<open>The loop over the group: members so far, the counters of the plan, the skip counts.\<close>

record tally =
  ta_members :: "int list"
  ta_inGroup :: int
  ta_ranked :: int
  ta_skips :: "(AutoSelectorSkip \<times> int) list"

fun scan_members ::
  "(int \<Rightarrow> AutoSelectorSkip) \<Rightarrow> (int \<Rightarrow> bool) \<Rightarrow> int \<Rightarrow> int list \<Rightarrow> tally \<Rightarrow> tally" where
  "scan_members skip ranked self [] t = t"
| "scan_members skip ranked self (i # is) t =
     (if i = self then scan_members skip ranked self is t
      else let t = t\<lparr>ta_inGroup := ta_inGroup t + 1\<rparr> in
        if skip i \<noteq> NoSkip
        then scan_members skip ranked self is (t\<lparr>ta_skips := bump (skip i) (ta_skips t)\<rparr>)
        else scan_members skip ranked self is
          (t\<lparr>ta_members := ta_members t @ [i], ta_ranked := ta_ranked t + of_bool (ranked i)\<rparr>))"

definition proxy_of :: "profiles \<Rightarrow> int \<Rightarrow> profile option" where
  "proxy_of P i = (if 0 \<le> i then P i else None)"

definition eligibleMembers ::
  "plan_env \<Rightarrow> profiles \<Rightarrow> groups \<Rightarrow> int \<Rightarrow> profile \<Rightarrow> autoSelector \<Rightarrow> plan \<Rightarrow> int list \<times> plan" where
  "eligibleMembers E P G now ent sel plan = (case G (as_gid sel) of
     None \<Rightarrow> ([], plan\<lparr>pl_error := ''Auto selector points at a group that no longer exists''\<rparr>)
   | Some g \<Rightarrow>
       let fl = buildFilters E sel;
           landing = proxy_of P (gr_landing_proxy_id g);
           front = proxy_of P (gr_front_proxy_id g);
           t = scan_members (\<lambda>i. member_skip E sel fl now landing front (P i))
                 (\<lambda>i. 0 < effectiveLatency sel now (P i)) (pr_id ent) (gr_profiles g)
                 \<lparr>ta_members = [], ta_inGroup = 0, ta_ranked = 0, ta_skips = []\<rparr>
       in (ta_members t,
           plan\<lparr>pl_membersInGroup := pl_membersInGroup plan + ta_inGroup t,
                pl_rankedByTest := pl_rankedByTest plan + ta_ranked t,
                pl_skipped := pl_skipped plan @ ta_skips t\<rparr>))"

definition orderMembers ::
  "plan_env \<Rightarrow> profiles \<Rightarrow> int list \<Rightarrow> int list \<Rightarrow> autoSelector \<Rightarrow> int \<Rightarrow> int list" where
  "orderMembers E P members persistedPool sel now =
     (let ordered = keep_first (\<lambda>i. if i \<in> set members then Some i else None) [] persistedPool;
          newcomers = filter (\<lambda>i. i \<notin> set ordered) members
      in ordered @ stable_sort (byPolicy E P sel (buildFilters E sel) now) newcomers)"

text \<open>The end of \<open>PlanAutoSelector\<close>: order the members, cut the pool and the build.\<close>

definition cut_plan :: "plan_env \<Rightarrow> profiles \<Rightarrow> int \<Rightarrow> autoSelector \<Rightarrow> int list \<Rightarrow> plan \<Rightarrow> plan" where
  "cut_plan E P now sel members plan =
     (let ordered = orderMembers E P members (as_pool sel) sel now;
          truncated = as_poolCap sel < int (length ordered);
          ordered = (if truncated then mid0 (as_poolCap sel) ordered else ordered);
          build = mid0 (min (int (length ordered)) (as_buildLimit sel)) ordered;
          unranked = length (filter (\<lambda>i. effectiveLatencyOf P sel now i = 0) build)
      in plan\<lparr>pl_truncated := truncated, pl_pool := ordered, pl_build := build,
              pl_needsRanking := (as_buildLimit sel < int (length ordered) \<and> 0 < unranked)\<rparr>)"

definition PlanAutoSelector ::
  "plan_env \<Rightarrow> profiles \<Rightarrow> groups \<Rightarrow> int \<Rightarrow> int \<Rightarrow> profile option \<Rightarrow> plan \<times> profile option" where
  "PlanAutoSelector E P G now1 now2 ent = (case ent of
     None \<Rightarrow> (new_plan\<lparr>pl_error := ''Null profile passed to PlanAutoSelector''\<rparr>, None)
   | Some ent \<Rightarrow> (case AutoSelector_of ent of
       None \<Rightarrow> (new_plan\<lparr>pl_error := ''Profile is not an auto selector, data is corrupted''\<rparr>, Some ent)
     | Some sel \<Rightarrow>
         let sel = Normalize sel;
             ent = put_selector sel ent;
             plan = new_plan\<lparr>pl_poolCapUsed := as_poolCap sel, pl_buildLimitUsed := as_buildLimit sel\<rparr>;
             (members, plan) = eligibleMembers E P G now1 ent sel plan
         in if pl_error plan \<noteq> [] then (plan, Some ent)
         else let plan = plan\<lparr>pl_eligible := int (length members)\<rparr> in
           if members = [] then (plan\<lparr>pl_error := ''Auto selector has no usable members''\<rparr>, Some ent)
           else (cut_plan E P now2 sel members plan, Some ent)))"

definition AutoSelectorRankingCandidates ::
  "plan_env \<Rightarrow> profiles \<Rightarrow> groups \<Rightarrow> int \<Rightarrow> profile option \<Rightarrow> int list" where
  "AutoSelectorRankingCandidates E P G now ent = (case ent of
     None \<Rightarrow> []
   | Some ent \<Rightarrow> (case AutoSelector_of ent of
       None \<Rightarrow> []
     | Some sel \<Rightarrow> fst (eligibleMembers E P G now ent (Normalize sel) new_plan)))"

text \<open>The selector is the one \<open>AutoSelectorRankingCandidates\<close> has just normalised in place.\<close>

definition AutoSelectorUnmeasuredCandidates ::
  "plan_env \<Rightarrow> profiles \<Rightarrow> groups \<Rightarrow> int \<Rightarrow> int \<Rightarrow> profile option \<Rightarrow> int list \<Rightarrow> int list" where
  "AutoSelectorUnmeasuredCandidates E P G now1 now2 ent stale = (case ent of
     None \<Rightarrow> []
   | Some p \<Rightarrow> (case AutoSelector_of p of
       None \<Rightarrow> []
     | Some sel \<Rightarrow>
         filter (\<lambda>i. i \<in> set stale \<or> effectiveLatencyOf P (Normalize sel) now2 i = 0)
           (AutoSelectorRankingCandidates E P G now1 ent)))"

text \<open>No normalisation here: the pool is cut at the stored cap. Returns the ids and the profile saved.\<close>

definition RerankAutoSelectorPool ::
  "plan_env \<Rightarrow> profiles \<Rightarrow> groups \<Rightarrow> int \<Rightarrow> int \<Rightarrow> int \<Rightarrow> profile option \<Rightarrow> int list \<times> profile option" where
  "RerankAutoSelectorPool E P G now1 now2 now3 ent = (case ent of
     None \<Rightarrow> ([], None)
   | Some p \<Rightarrow> (case AutoSelector_of p of
       None \<Rightarrow> ([], Some p)
     | Some sel \<Rightarrow>
         let members = fst (eligibleMembers E P G now1 p sel new_plan);
             members = stable_sort (byPolicy E P sel (buildFilters E sel) now2) members;
             members = (if as_poolCap sel < int (length members)
                        then mid0 (as_poolCap sel) members else members)
         in (members, Some (put_selector (sel\<lparr>as_pool := members, as_poolRankedAt := now3\<rparr>) p))))"

subsection \<open>What the loops compute\<close>

lemma sum_bump: "sum_list (map snd (bump k m)) = sum_list (map snd m) + 1"
  by (induction k m rule: bump.induct) auto

lemma keys_bump: "fst ` set (bump k m) = insert k (fst ` set m)"
  by (induction k m rule: bump.induct) auto

lemma sorted_bump: "sorted_wrt (<) (map fst m) \<Longrightarrow> sorted_wrt (<) (map fst (bump k m))"
proof (induction k m rule: bump.induct)
  case (2 k k' n m)
  then show ?case using keys_bump [of k m] by (auto simp: not_less)
qed simp

definition count_in :: "('k \<times> int) list \<Rightarrow> 'k \<Rightarrow> int" where
  "count_in m k = (case map_of m k of Some n \<Rightarrow> n | None \<Rightarrow> 0)"

lemma count_in_Nil [simp]: "count_in [] k = 0"
  by (simp add: count_in_def)

lemma count_in_bump:
  "sorted_wrt (<) (map fst m) \<Longrightarrow> count_in (bump k m) k' = count_in m k' + of_bool (k' = k)"
proof (induction k m rule: bump.induct)
  case (2 k k'' n m)
  have "k < k'' \<Longrightarrow> map_of m k = None"
    using "2.prems" by (auto simp: map_of_eq_None_iff)
  with 2 show ?case by (auto simp: count_in_def)
qed (simp add: count_in_def)

definition members_of :: "(int \<Rightarrow> AutoSelectorSkip) \<Rightarrow> int \<Rightarrow> int list \<Rightarrow> int list" where
  "members_of skip self is = filter (\<lambda>i. i \<noteq> self \<and> skip i = NoSkip) is"

lemma scan_members_members:
  "ta_members (scan_members skip ranked self is t) = ta_members t @ members_of skip self is"
  by (induction skip ranked self "is" t rule: scan_members.induct) (auto simp: members_of_def Let_def)

lemma scan_members_counts:
  "ta_inGroup (scan_members skip ranked self is t) = ta_inGroup t + int (length (filter (\<lambda>i. i \<noteq> self) is))"
  "ta_ranked (scan_members skip ranked self is t) =
     ta_ranked t + int (length (filter ranked (members_of skip self is)))"
  by (induction skip ranked self "is" t rule: scan_members.induct) (auto simp: members_of_def Let_def)

lemma scan_members_skips:
  assumes "sorted_wrt (<) (map fst (ta_skips t))"
  shows "sorted_wrt (<) (map fst (ta_skips (scan_members skip ranked self is t)))"
    and "sum_list (map snd (ta_skips (scan_members skip ranked self is t))) =
      sum_list (map snd (ta_skips t)) + int (length (filter (\<lambda>i. i \<noteq> self \<and> skip i \<noteq> NoSkip) is))"
    and "count_in (ta_skips (scan_members skip ranked self is t)) k =
      count_in (ta_skips t) k + int (length (filter (\<lambda>i. i \<noteq> self \<and> skip i \<noteq> NoSkip \<and> skip i = k) is))"
  using assms
  by (induction skip ranked self "is" t rule: scan_members.induct)
    (auto simp: Let_def sum_bump sorted_bump count_in_bump)

lemma skippedCount_sum: "skippedCount p = sum_list (map snd (pl_skipped p))"
proof -
  have "fold (\<lambda>e total. total + snd e) es a = a + sum_list (map snd es)" for es :: "(AutoSelectorSkip \<times> int) list" and a
    by (induction es arbitrary: a) auto
  then show ?thesis by (simp add: skippedCount_def)
qed

text \<open>The skip decision for every id, and the eligible members, of a group.\<close>

definition group_skip :: "plan_env \<Rightarrow> profiles \<Rightarrow> int \<Rightarrow> autoSelector \<Rightarrow> group \<Rightarrow> int \<Rightarrow> AutoSelectorSkip" where
  "group_skip E P now sel g i =
     member_skip E sel (buildFilters E sel) now (proxy_of P (gr_landing_proxy_id g))
       (proxy_of P (gr_front_proxy_id g)) (P i)"

lemma eligibleMembers_group:
  assumes "G (as_gid sel) = Some g"
  shows "fst (eligibleMembers E P G now ent sel plan) = members_of (group_skip E P now sel g) (pr_id ent) (gr_profiles g)"
  using assms by (simp add: eligibleMembers_def Let_def scan_members_members group_skip_def [abs_def])

lemma set_members_of: "set (members_of skip self is) = {i \<in> set is. i \<noteq> self \<and> skip i = NoSkip}"
  by (auto simp: members_of_def)

lemma orderMembers_parts:
  obtains kept new where "orderMembers E P members pool sel now = kept @ new"
    and "kept = keep_first (\<lambda>i. if i \<in> set members then Some i else None) [] pool"
    and "new = stable_sort (byPolicy E P sel (buildFilters E sel) now) (filter (\<lambda>i. i \<notin> set kept) members)"
  by (simp add: orderMembers_def Let_def)

lemma kept_set: "set (keep_first (\<lambda>i. if i \<in> A then Some i else None) [] pool) = set pool \<inter> A"
proof -
  have "the ` (\<lambda>i. if i \<in> A then Some i else None) ` set (keep_first (\<lambda>i. if i \<in> A then Some i else None) [] pool) =
      set pool \<inter> A"
    by (subst keep_first_keys) (auto split: if_splits)
  moreover have "set (keep_first (\<lambda>i. if i \<in> A then Some i else None) [] pool) \<subseteq> A"
    using keep_first_subset [of "\<lambda>i. if i \<in> A then Some i else None" "[]" pool] by (auto split: if_splits)
  ultimately show ?thesis by (force simp: image_image)
qed

lemma kept_distinct: "distinct (keep_first (\<lambda>i. if i \<in> A then Some i else None) [] pool)"
proof -
  have "distinct (map (the \<circ> (\<lambda>i. if i \<in> A then Some i else None))
      (keep_first (\<lambda>i. if i \<in> A then Some i else None) [] pool))"
    by (rule keep_first_distinct)
  then show ?thesis by (simp only: distinct_map)
qed

lemma orderMembers_set: "set (orderMembers E P members pool sel now) = set members"
  by (auto simp: orderMembers_def Let_def kept_set)

lemma orderMembers_distinct: "distinct members \<Longrightarrow> distinct (orderMembers E P members pool sel now)"
  by (auto simp: orderMembers_def Let_def kept_distinct)

end
