(* ===== verification/RouteRule.thy ===== *)
theory RouteRule
  imports Profile
begin

text \<open>
  One routing rule, \<^verbatim>\<open>RouteRule.h\<close> and \<^verbatim>\<open>src/database/entities/RouteRule.cpp\<close>: its fields, the
  JSON object the core gets, the object that is shared between machines, and the access by field
  name the rule editor and the parser use. Three outbounds have negative ids of their own; every
  other id is a profile's. \<^verbatim>\<open>QUrl\<close> stays a parameter, as do the profile tables. A \<^verbatim>\<open>QSet\<close> of tab
  names is a set.
\<close>

subsection \<open>Outbounds and rule types\<close>

definition proxyID :: int where "proxyID = -1"
definition directID :: int where "directID = -2"
definition blockID :: int where "blockID = -3"
definition warpBypassID :: int where "warpBypassID = -5"

definition outboundIDToString :: "int \<Rightarrow> string" where
  "outboundIDToString i =
     (if i = proxyID then ''proxy'' else if i = directID then ''direct''
      else if i = blockID then ''block'' else if i = warpBypassID then ''warp-bypass''
      else ''unknown'')"

definition stringToOutboundID :: "string \<Rightarrow> int" where
  "stringToOutboundID s =
     (if s = ''proxy'' then proxyID else if s = ''direct'' then directID
      else if s = ''block'' then blockID else if s = ''warp-bypass'' then warpBypassID
      else proxyID)"

datatype ruleType =
    CustomRule
  | SimpleAddressProxy | SimpleAddressBypass | SimpleAddressBlock
  | SimpleProcessNameProxy | SimpleProcessNameBypass | SimpleProcessNameBlock
  | SimpleProcessPathProxy | SimpleProcessPathBypass | SimpleProcessPathBlock
  | SimpleAddressWarpBypass | SimpleProcessNameWarpBypass | SimpleProcessPathWarpBypass
  | EndpointPreferredBy

fun ruleTypeToString :: "ruleType \<Rightarrow> string" where
  "ruleTypeToString CustomRule = ''custom''"
| "ruleTypeToString SimpleAddressProxy = ''Simple Address Proxy''"
| "ruleTypeToString SimpleAddressBypass = ''Simple Address Bypass''"
| "ruleTypeToString SimpleAddressBlock = ''Simple Address Block''"
| "ruleTypeToString SimpleProcessNameProxy = ''Simple Process Name Proxy''"
| "ruleTypeToString SimpleProcessNameBypass = ''Simple Process Name Bypass''"
| "ruleTypeToString SimpleProcessNameBlock = ''Simple Process Name Block''"
| "ruleTypeToString SimpleProcessPathProxy = ''Simple Process Path Proxy''"
| "ruleTypeToString SimpleProcessPathBypass = ''Simple Process Path Bypass''"
| "ruleTypeToString SimpleProcessPathBlock = ''Simple Process Path Block''"
| "ruleTypeToString SimpleAddressWarpBypass = ''Simple Address Warp-bypass''"
| "ruleTypeToString SimpleProcessNameWarpBypass = ''Simple Process Name Warp-bypass''"
| "ruleTypeToString SimpleProcessPathWarpBypass = ''Simple Process Path Warp-bypass''"
| "ruleTypeToString EndpointPreferredBy = ''Endpoint''"

fun ruleTypeToToken :: "ruleType \<Rightarrow> string" where
  "ruleTypeToToken SimpleAddressProxy = ''simple_address_proxy''"
| "ruleTypeToToken SimpleAddressBypass = ''simple_address_bypass''"
| "ruleTypeToToken SimpleAddressBlock = ''simple_address_block''"
| "ruleTypeToToken SimpleProcessNameProxy = ''simple_process_name_proxy''"
| "ruleTypeToToken SimpleProcessNameBypass = ''simple_process_name_bypass''"
| "ruleTypeToToken SimpleProcessNameBlock = ''simple_process_name_block''"
| "ruleTypeToToken SimpleProcessPathProxy = ''simple_process_path_proxy''"
| "ruleTypeToToken SimpleProcessPathBypass = ''simple_process_path_bypass''"
| "ruleTypeToToken SimpleProcessPathBlock = ''simple_process_path_block''"
| "ruleTypeToToken SimpleAddressWarpBypass = ''simple_address_warp_bypass''"
| "ruleTypeToToken SimpleProcessNameWarpBypass = ''simple_process_name_warp_bypass''"
| "ruleTypeToToken SimpleProcessPathWarpBypass = ''simple_process_path_warp_bypass''"
| "ruleTypeToToken EndpointPreferredBy = ''endpoint_preferred_by''"
| "ruleTypeToToken CustomRule = ''custom''"

definition tokenToRuleType :: "string \<Rightarrow> ruleType" where
  "tokenToRuleType token =
     (if token = ''simple_address_proxy'' then SimpleAddressProxy
      else if token = ''simple_address_bypass'' then SimpleAddressBypass
      else if token = ''simple_address_block'' then SimpleAddressBlock
      else if token = ''simple_process_name_proxy'' then SimpleProcessNameProxy
      else if token = ''simple_process_name_bypass'' then SimpleProcessNameBypass
      else if token = ''simple_process_name_block'' then SimpleProcessNameBlock
      else if token = ''simple_process_path_proxy'' then SimpleProcessPathProxy
      else if token = ''simple_process_path_bypass'' then SimpleProcessPathBypass
      else if token = ''simple_process_path_block'' then SimpleProcessPathBlock
      else if token = ''simple_address_warp_bypass'' then SimpleAddressWarpBypass
      else if token = ''simple_process_name_warp_bypass'' then SimpleProcessNameWarpBypass
      else if token = ''simple_process_path_warp_bypass'' then SimpleProcessPathWarpBypass
      else if token = ''endpoint_preferred_by'' then EndpointPreferredBy
      else CustomRule)"

interpretation rule_tokens: token_codec ruleTypeToToken tokenToRuleType
  by unfold_locales (case_tac x; simp add: tokenToRuleType_def)

definition address_types :: "ruleType list" where
  "address_types = [SimpleAddressProxy, SimpleAddressBypass, SimpleAddressBlock, SimpleAddressWarpBypass]"

subsection \<open>The rule\<close>

record routeRule =
  rr_name :: string
  rr_type :: ruleType
  rr_ip_version :: string
  rr_network :: string
  rr_protocol :: string
  rr_inbound :: "string list"
  rr_domain :: "string list"
  rr_domain_suffix :: "string list"
  rr_domain_keyword :: "string list"
  rr_domain_regex :: "string list"
  rr_source_ip_cidr :: "string list"
  rr_source_ip_is_private :: bool
  rr_ip_cidr :: "string list"
  rr_ip_is_private :: bool
  rr_source_port :: "string list"
  rr_source_port_range :: "string list"
  rr_port :: "string list"
  rr_port_range :: "string list"
  rr_process_name :: "string list"
  rr_process_path :: "string list"
  rr_process_path_regex :: "string list"
  rr_wifi_ssid :: "string list"
  rr_wifi_bssid :: "string list"
  rr_rule_set :: "string list"
  rr_invert :: bool
  rr_outboundID :: int
  rr_action :: string
  rr_rejectMethod :: string
  rr_no_drop :: bool
  rr_override_address :: string
  rr_override_port :: string
  rr_sniffers :: "string list"
  rr_sniffOverrideDest :: bool
  rr_strategy :: string
  rr_uiVisibleAttributes :: "string set"
  rr_uiAttributeTabsSeeded :: bool
  rr_uiActiveAttributeTabLabel :: string

definition new_rule :: routeRule where
  "new_rule = \<lparr>rr_name = [], rr_type = CustomRule, rr_ip_version = [], rr_network = [], rr_protocol = [],
     rr_inbound = [], rr_domain = [], rr_domain_suffix = [], rr_domain_keyword = [], rr_domain_regex = [],
     rr_source_ip_cidr = [], rr_source_ip_is_private = False, rr_ip_cidr = [], rr_ip_is_private = False,
     rr_source_port = [], rr_source_port_range = [], rr_port = [], rr_port_range = [],
     rr_process_name = [], rr_process_path = [], rr_process_path_regex = [], rr_wifi_ssid = [],
     rr_wifi_bssid = [], rr_rule_set = [], rr_invert = False, rr_outboundID = directID,
     rr_action = ''route'', rr_rejectMethod = [], rr_no_drop = False, rr_override_address = [],
     rr_override_port = [], rr_sniffers = [], rr_sniffOverrideDest = False, rr_strategy = [],
     rr_uiVisibleAttributes = {}, rr_uiAttributeTabsSeeded = False, rr_uiActiveAttributeTabLabel = []\<rparr>"

text \<open>The copy constructor copies every field but the label of the active tab.\<close>

definition copy_rule :: "routeRule \<Rightarrow> routeRule" where
  "copy_rule other = other\<lparr>rr_uiActiveAttributeTabLabel := []\<rparr>"

subsection \<open>JSON for the core\<close>

text \<open>
  What a rule looks up: profiles by id and by name, the tag of a rule set (which needs \<^verbatim>\<open>QUrl\<close>
  and \<^verbatim>\<open>qHash\<close>), and the operating system.
\<close>

datatype osType = Linux | Darwin | Windows

record route_env = qt_text +
  ro_profile :: profiles
  ro_byName :: "string \<Rightarrow> profile option"
  ro_ruleSetName :: "string \<Rightarrow> string"
  ro_os :: osType

text \<open>The repository hands out no profile without an outbound.\<close>

definition outbound_name :: "profile \<Rightarrow> string" where
  "outbound_name p = (case pr_outbound p of Some ob \<Rightarrow> DisplayName ob | None \<Rightarrow> [])"

definition isValidStrArray :: "'z qt_text_scheme \<Rightarrow> string list \<Rightarrow> bool" where
  "isValidStrArray Q arr \<longleftrightarrow> list_ex (\<lambda>s. qt_trimmed Q s \<noteq> []) arr"

definition get_as_array :: "string list \<Rightarrow> json" where
  "get_as_array xs = JArr (map JStr xs)"

definition get_as_int_array :: "'z qt_text_scheme \<Rightarrow> string list \<Rightarrow> json" where
  "get_as_int_array Q xs = JArr (map (jint \<circ> qt_int Q) xs)"

definition member :: "bool \<Rightarrow> string \<Rightarrow> json \<Rightarrow> (string \<times> json) list" where
  "member c k v = (if c then [(k, v)] else [])"

text \<open>The conditions of the rule.\<close>

definition condition_members :: "'z route_env_scheme \<Rightarrow> bool \<Rightarrow> routeRule \<Rightarrow> (string \<times> json) list" where
  "condition_members Q forView r =
     (let strs = (\<lambda>k xs. member (isValidStrArray Q xs) k (get_as_array xs));
          ints = (\<lambda>k xs. member (isValidStrArray Q xs) k (get_as_int_array Q xs))
      in member (rr_ip_version r \<noteq> []) ''ip_version'' (jint (qt_int Q (rr_ip_version r)))
       @ member (rr_network r \<noteq> []) ''network'' (JStr (rr_network r))
       @ member (rr_protocol r \<noteq> []) ''protocol'' (JStr (rr_protocol r))
       @ strs ''inbound'' (rr_inbound r)
       @ strs ''domain'' (rr_domain r)
       @ strs ''domain_suffix'' (rr_domain_suffix r)
       @ strs ''domain_keyword'' (rr_domain_keyword r)
       @ strs ''domain_regex'' (rr_domain_regex r)
       @ strs ''source_ip_cidr'' (rr_source_ip_cidr r)
       @ member (rr_source_ip_is_private r) ''source_ip_is_private'' (JBool True)
       @ strs ''ip_cidr'' (rr_ip_cidr r)
       @ member (rr_ip_is_private r) ''ip_is_private'' (JBool True)
       @ ints ''source_port'' (rr_source_port r)
       @ strs ''source_port_range'' (rr_source_port_range r)
       @ ints ''port'' (rr_port r)
       @ strs ''port_range'' (rr_port_range r)
       @ strs ''process_name'' (rr_process_name r)
       @ strs ''process_path'' (rr_process_path r)
       @ strs ''process_path_regex'' (rr_process_path_regex r)
       @ strs ''wifi_ssid'' (rr_wifi_ssid r)
       @ strs ''wifi_bssid'' (rr_wifi_bssid r)
       @ member (isValidStrArray Q (rr_rule_set r)) ''rule_set''
           (get_as_array (if forView then rr_rule_set r else map (ro_ruleSetName Q) (rr_rule_set r)))
       @ member (rr_invert r) ''invert'' (JBool True))"

text \<open>Older rules say "block" and "dns" by the id of their outbound; the rule itself is corrected.\<close>

definition fix_action :: "routeRule \<Rightarrow> routeRule" where
  "fix_action r =
     (if rr_action r = ''route'' then
        if rr_outboundID r = -3 then r\<lparr>rr_action := ''reject''\<rparr>
        else if rr_outboundID r = -4 then r\<lparr>rr_action := ''hijack-dns''\<rparr> else r
      else r)"

definition outbound_member :: "'z route_env_scheme \<Rightarrow> bool \<Rightarrow> string \<Rightarrow> routeRule \<Rightarrow> json option" where
  "outbound_member Q forView outboundTag r =
     (if forView then
        if rr_outboundID r = -1 then Some (JStr ''proxy'')
        else if rr_outboundID r = -2 then Some (JStr ''direct'')
        else (case ro_profile Q (rr_outboundID r) of
           None \<Rightarrow> None
         | Some prof \<Rightarrow> Some (JStr (outbound_name prof)))
      else if outboundTag \<noteq> [] then Some (JStr outboundTag) else Some (jint (rr_outboundID r)))"

definition routes_out :: "routeRule \<Rightarrow> bool" where
  "routes_out r \<longleftrightarrow> rr_action r = ''route'' \<or> rr_action r = ''bypass''"

definition action_members :: "'z route_env_scheme \<Rightarrow> routeRule \<Rightarrow> (string \<times> json) list" where
  "action_members Q r =
     [(''action'', JStr (rr_action r))]
     @ (if rr_action r = ''reject'' then
          member (rr_rejectMethod r \<noteq> []) ''reject_method'' (JStr (rr_rejectMethod r))
          @ member (rr_no_drop r) ''no_drop'' (JBool True) else [])
     @ (if routes_out r \<or> rr_action r = ''route-options'' then
          member (rr_override_address r \<noteq> []) ''override_address'' (JStr (rr_override_address r))
          @ member (0 < qt_int Q (rr_override_port r)) ''override_port'' (jint (qt_int Q (rr_override_port r))) else [])
     @ (if rr_action r = ''sniff'' then member (rr_sniffOverrideDest r) ''override_destination'' (JBool True) else [])
     @ (if rr_action r = ''resolve'' then member (rr_strategy r \<noteq> []) ''strategy'' (JStr (rr_strategy r)) else [])"

definition endpoint_json :: "'z route_env_scheme \<Rightarrow> bool \<Rightarrow> string \<Rightarrow> routeRule \<Rightarrow> jobject" where
  "endpoint_json Q forView outboundTag r =
     (let gate = (\<lambda>tag. if tag = [] then []
            else jbuild [(''preferred_by'', JArr [JStr tag]), (''action'', JStr ''route''), (''outbound'', JStr tag)])
      in if forView then
           (case ro_profile Q (rr_outboundID r) of
              None \<Rightarrow> []
            | Some prof \<Rightarrow> (case pr_outbound prof of None \<Rightarrow> [] | Some ob \<Rightarrow> gate (DisplayName ob)))
         else gate outboundTag)"

text \<open>An empty object stands for failure. The rule comes back because its action may change.\<close>

definition get_rule_json :: "'z route_env_scheme \<Rightarrow> bool \<Rightarrow> string \<Rightarrow> routeRule \<Rightarrow> jobject \<times> routeRule" where
  "get_rule_json Q forView outboundTag r =
     (if rr_type r = EndpointPreferredBy then (endpoint_json Q forView outboundTag r, r)
      else let r = fix_action r in
        if routes_out r then
          (case outbound_member Q forView outboundTag r of
             None \<Rightarrow> ([], r)
           | Some ob \<Rightarrow> (jbuild (condition_members Q forView r @ action_members Q r @ [(''outbound'', ob)]), r))
        else (jbuild (condition_members Q forView r @ action_members Q r), r))"

definition to_share_json :: "'z route_env_scheme \<Rightarrow> routeRule \<Rightarrow> jobject \<times> routeRule" where
  "to_share_json Q r =
     (if rr_type r = EndpointPreferredBy then
        (jbuild [(''name'', JStr (rr_name r)), (''type'', JStr (ruleTypeToToken (rr_type r))),
           (''outbound'', jint (rr_outboundID r))], r)
      else let (ob, r) = get_rule_json Q True [] r in
        if ob = [] then ([], r)
        else (jput ''type'' (JStr (ruleTypeToToken (rr_type r))) (jput ''name'' (JStr (rr_name r)) ob), r))"

subsection \<open>Access by field name\<close>

text \<open>The fields that hold a list, a text, a truth value, each with its reader and its writer.\<close>

definition list_fields :: "(string \<times> (routeRule \<Rightarrow> string list) \<times> (string list \<Rightarrow> routeRule \<Rightarrow> routeRule)) list" where
  "list_fields =
     [(''inbound'', rr_inbound, \<lambda>v. rr_inbound_update (\<lambda>_. v)),
      (''domain'', rr_domain, \<lambda>v. rr_domain_update (\<lambda>_. v)),
      (''domain_suffix'', rr_domain_suffix, \<lambda>v. rr_domain_suffix_update (\<lambda>_. v)),
      (''domain_keyword'', rr_domain_keyword, \<lambda>v. rr_domain_keyword_update (\<lambda>_. v)),
      (''domain_regex'', rr_domain_regex, \<lambda>v. rr_domain_regex_update (\<lambda>_. v)),
      (''source_ip_cidr'', rr_source_ip_cidr, \<lambda>v. rr_source_ip_cidr_update (\<lambda>_. v)),
      (''ip_cidr'', rr_ip_cidr, \<lambda>v. rr_ip_cidr_update (\<lambda>_. v)),
      (''source_port'', rr_source_port, \<lambda>v. rr_source_port_update (\<lambda>_. v)),
      (''source_port_range'', rr_source_port_range, \<lambda>v. rr_source_port_range_update (\<lambda>_. v)),
      (''port'', rr_port, \<lambda>v. rr_port_update (\<lambda>_. v)),
      (''port_range'', rr_port_range, \<lambda>v. rr_port_range_update (\<lambda>_. v)),
      (''process_name'', rr_process_name, \<lambda>v. rr_process_name_update (\<lambda>_. v)),
      (''process_path'', rr_process_path, \<lambda>v. rr_process_path_update (\<lambda>_. v)),
      (''process_path_regex'', rr_process_path_regex, \<lambda>v. rr_process_path_regex_update (\<lambda>_. v)),
      (''wifi_ssid'', rr_wifi_ssid, \<lambda>v. rr_wifi_ssid_update (\<lambda>_. v)),
      (''wifi_bssid'', rr_wifi_bssid, \<lambda>v. rr_wifi_bssid_update (\<lambda>_. v)),
      (''rule_set'', rr_rule_set, \<lambda>v. rr_rule_set_update (\<lambda>_. v))]"

definition text_fields :: "(string \<times> (routeRule \<Rightarrow> string) \<times> (string \<Rightarrow> routeRule \<Rightarrow> routeRule)) list" where
  "text_fields =
     [(''ip_version'', rr_ip_version, \<lambda>v. rr_ip_version_update (\<lambda>_. v)),
      (''network'', rr_network, \<lambda>v. rr_network_update (\<lambda>_. v)),
      (''protocol'', rr_protocol, \<lambda>v. rr_protocol_update (\<lambda>_. v)),
      (''action'', rr_action, \<lambda>v. rr_action_update (\<lambda>_. v)),
      (''method'', rr_rejectMethod, \<lambda>v. rr_rejectMethod_update (\<lambda>_. v)),
      (''strategy'', rr_strategy, \<lambda>v. rr_strategy_update (\<lambda>_. v)),
      (''override_address'', rr_override_address, \<lambda>v. rr_override_address_update (\<lambda>_. v)),
      (''override_port'', rr_override_port, \<lambda>v. rr_override_port_update (\<lambda>_. v))]"

definition bool_fields :: "(string \<times> (routeRule \<Rightarrow> bool) \<times> (bool \<Rightarrow> routeRule \<Rightarrow> routeRule)) list" where
  "bool_fields =
     [(''source_ip_is_private'', rr_source_ip_is_private, \<lambda>v. rr_source_ip_is_private_update (\<lambda>_. v)),
      (''ip_is_private'', rr_ip_is_private, \<lambda>v. rr_ip_is_private_update (\<lambda>_. v)),
      (''invert'', rr_invert, \<lambda>v. rr_invert_update (\<lambda>_. v)),
      (''no_drop'', rr_no_drop, \<lambda>v. rr_no_drop_update (\<lambda>_. v)),
      (''override_destination'', rr_sniffOverrideDest, \<lambda>v. rr_sniffOverrideDest_update (\<lambda>_. v))]"

definition get_current_value_string :: "string \<Rightarrow> routeRule \<Rightarrow> string list" where
  "get_current_value_string field r =
     (case map_of text_fields field of
        Some (get, _) \<Rightarrow> [get r]
      | None \<Rightarrow>
          if field = ''outbound'' then [number (rr_outboundID r)]
          else (case map_of list_fields field of Some (get, _) \<Rightarrow> get r | None \<Rightarrow> []))"

definition get_current_value_bool :: "string \<Rightarrow> routeRule \<Rightarrow> string" where
  "get_current_value_bool field r =
     (case map_of bool_fields field of
        Some (get, _) \<Rightarrow> if get r then ''true'' else ''false'' | None \<Rightarrow> [])"

definition filterEmpty :: "'z qt_text_scheme \<Rightarrow> string list \<Rightarrow> string list" where
  "filterEmpty Q base = filter (\<lambda>s. s \<noteq> []) (map (qt_trimmed Q) base)"

text \<open>
  \<^verbatim>\<open>value[0]\<close> of an empty list is out of range: the assertion in \<^verbatim>\<open>QList\<close> fails, or undefined
  behaviour without it. That is \<open>None\<close>.
\<close>

definition set_field_value :: "'z qt_text_scheme \<Rightarrow> string \<Rightarrow> string list \<Rightarrow> routeRule \<Rightarrow> routeRule option" where
  "set_field_value Q field val r =
     (case map_of list_fields field of
        Some (_, upd) \<Rightarrow> Some (upd (filterEmpty Q val) r)
      | None \<Rightarrow> (case map_of text_fields field of
          Some (_, upd) \<Rightarrow> (case val of [] \<Rightarrow> None | v # _ \<Rightarrow> Some (upd v r))
        | None \<Rightarrow> (case map_of bool_fields field of
            Some (_, upd) \<Rightarrow> (case val of [] \<Rightarrow> None | v # _ \<Rightarrow> Some (upd (v = ''true'') r))
          | None \<Rightarrow>
              if field = ''outbound'' then
                (case val of [] \<Rightarrow> None | v # _ \<Rightarrow> Some (r\<lparr>rr_outboundID := qt_int Q v\<rparr>))
              else Some r)))"

definition clear_attribute_value :: "string \<Rightarrow> routeRule \<Rightarrow> routeRule" where
  "clear_attribute_value attr r =
     (if attr = ''action'' then r
      else if attr = ''outbound'' then r\<lparr>rr_outboundID := directID\<rparr>
      else case map_of list_fields attr of
        Some (_, upd) \<Rightarrow> upd [] r
      | None \<Rightarrow> (case map_of text_fields attr of
          Some (_, upd) \<Rightarrow> upd [] r
        | None \<Rightarrow> (case map_of bool_fields attr of Some (_, upd) \<Rightarrow> upd False r | None \<Rightarrow> r)))"

definition get_attributes :: "osType \<Rightarrow> string list" where
  "get_attributes os = filter (\<lambda>a. \<not> (os = Darwin \<and> (a = ''wifi_ssid'' \<or> a = ''wifi_bssid'')))
     [''ip_version'', ''network'', ''protocol'', ''inbound'', ''domain'', ''domain_suffix'', ''domain_keyword'',
      ''domain_regex'', ''source_ip_cidr'', ''source_ip_is_private'', ''ip_cidr'', ''ip_is_private'',
      ''source_port'', ''source_port_range'', ''port'', ''port_range'', ''process_name'', ''process_path'',
      ''process_path_regex'', ''wifi_ssid'', ''wifi_bssid'', ''rule_set'', ''invert'', ''action'', ''outbound'',
      ''override_address'', ''override_port'', ''method'', ''no_drop'', ''override_destination'', ''strategy'']"

definition tab_attributes :: "osType \<Rightarrow> string list" where
  "tab_attributes os = filter (\<lambda>a. a \<noteq> ''action'') (get_attributes os)"

datatype inputType = TruFalse | Select | Text

definition get_input_type :: "string \<Rightarrow> inputType" where
  "get_input_type field =
     (if field \<in> set [''invert'', ''source_ip_is_private'', ''ip_is_private'', ''no_drop'', ''override_destination'']
      then TruFalse
      else if field \<in> set [''ip_version'', ''network'', ''protocol'', ''action'', ''method'', ''strategy'', ''outbound'']
      then Select else Text)"

definition get_values_for_field :: "osType \<Rightarrow> string \<Rightarrow> string list" where
  "get_values_for_field os field =
     (if field = ''ip_version'' then ['''', ''4'', ''6'']
      else if field = ''network'' then ['''', ''tcp'', ''udp'', ''icmp'']
      else if field = ''protocol'' then
        ['''', ''http'', ''tls'', ''quic'', ''stun'', ''dns'', ''bittorrent'', ''dtls'', ''ssh'', ''rdp'']
      else if field = ''action'' then
        ''route'' # (if os = Linux then [''bypass''] else [])
          @ [''reject'', ''hijack-dns'', ''route-options'', ''sniff'', ''resolve'']
      else if field = ''method'' then ['''', ''default'', ''drop'', ''reply'']
      else if field = ''strategy'' then ['''', '''', ''ipv4_only'', ''ipv6_only'', ''prefer_ipv4'', ''prefer_ipv6'']
      else [])"

definition is_attribute_at_default :: "'z qt_text_scheme \<Rightarrow> routeRule \<Rightarrow> string \<Rightarrow> bool" where
  "is_attribute_at_default Q r attr =
     (if attr = ''action'' then True
      else case get_input_type attr of
        TruFalse \<Rightarrow> (case map_of bool_fields attr of Some (get, _) \<Rightarrow> \<not> get r | None \<Rightarrow> True)
      | Select \<Rightarrow>
          if attr = ''outbound'' then rr_outboundID r = directID
          else (case get_current_value_string attr r of [] \<Rightarrow> True | s # _ \<Rightarrow> s = [])
      | Text \<Rightarrow>
          if attr = ''override_address'' then rr_override_address r = []
          else if attr = ''override_port'' then
            rr_override_port r = [] \<or> qt_trimmed Q (rr_override_port r) = [] \<or> qt_int Q (rr_override_port r) \<le> 0
          else \<not> isValidStrArray Q (get_current_value_string attr r))"

definition ensure_ui_visible_attribute_tabs_seeded :: "'z route_env_scheme \<Rightarrow> routeRule \<Rightarrow> routeRule" where
  "ensure_ui_visible_attribute_tabs_seeded Q r =
     (if rr_uiAttributeTabsSeeded r then r
      else r\<lparr>rr_uiAttributeTabsSeeded := True,
             rr_uiVisibleAttributes := rr_uiVisibleAttributes r
               \<union> set (filter (\<lambda>a. \<not> is_attribute_at_default Q r a) (tab_attributes (ro_os Q)))\<rparr>)"

text \<open>Whether the rule says anything; asking corrects the action, as asking for the JSON does.\<close>

definition rule_isEmpty :: "'z route_env_scheme \<Rightarrow> routeRule \<Rightarrow> bool \<times> routeRule" where
  "rule_isEmpty Q r =
     (if rr_type r = EndpointPreferredBy then (False, r)
      else if rr_type r \<in> set address_types then
        (rr_domain r = [] \<and> rr_domain_suffix r = [] \<and> rr_domain_keyword r = [] \<and> rr_domain_regex r = []
         \<and> rr_rule_set r = [] \<and> rr_ip_cidr r = [], r)
      else if rr_type r \<noteq> CustomRule then (rr_process_name r = [] \<and> rr_process_path r = [], r)
      else let (ob, r) = get_rule_json Q False [] r in
        (if rr_action r \<in> set [''route'', ''route-options'', ''hijack-dns''] then length ob \<le> 1
         else if rr_action r \<in> set [''sniff'', ''resolve'', ''reject'', ''bypass''] then length ob < 1
         else False, r))"

definition canEditAttr :: "string \<Rightarrow> routeRule \<Rightarrow> bool" where
  "canEditAttr attr r =
     (if rr_type r = CustomRule then True
      else if rr_type r = EndpointPreferredBy then False
      else if rr_type r \<in> set address_types then
        attr \<in> set [''domain'', ''domain_suffix'', ''domain_keyword'', ''domain_regex'', ''rule_set'', ''ip_cidr'']
      else attr \<in> set [''process_path'', ''process_name''])"

subsection \<open>Field access is a set of lenses\<close>

text \<open>
  What the editor and the parser rely on: a written field reads back, and no other field changes.
\<close>

locale field_table =
  fixes fields :: "(string \<times> ('r \<Rightarrow> 'v) \<times> ('v \<Rightarrow> 'r \<Rightarrow> 'r)) list"
  assumes get_put: "(k, get, put) \<in> set fields \<Longrightarrow> get (put v r) = v"
    and get_other: "(k, get, put) \<in> set fields \<Longrightarrow> (k', get', put') \<in> set fields \<Longrightarrow> k \<noteq> k' \<Longrightarrow>
      get (put' v r) = get r"
    and keys: "distinct (map fst fields)"
begin

lemma lookup: "(k, get, put) \<in> set fields \<Longrightarrow> map_of fields k = Some (get, put)"
  using keys by (simp add: map_of_is_SomeI)

lemma read_write:
  "map_of fields k = Some (get, put) \<Longrightarrow> map_of fields k' = Some (get', put') \<Longrightarrow>
    get (put' v r) = (if k = k' then v else get r)"
  by (auto dest!: map_of_SomeD intro: get_put get_other)
     (metis Pair_inject get_put lookup option.inject)

end

interpretation rule_lists: field_table list_fields
  proof
qed (unfold list_fields_def set_simps insert_iff empty_iff prod.inject;
  (elim disjE conjE FalseE; hypsubst; simp)?; simp?)+

interpretation rule_texts: field_table text_fields
  proof
qed (unfold text_fields_def set_simps insert_iff empty_iff prod.inject;
  (elim disjE conjE FalseE; hypsubst; simp)?; simp?)+

interpretation rule_bools: field_table bool_fields
  proof
qed (unfold bool_fields_def set_simps insert_iff empty_iff prod.inject;
  (elim disjE conjE FalseE; hypsubst; simp)?; simp?)+

end
