(* ===== verification/RawRoute.thy ===== *)
theory RawRoute
  imports RouteRule
begin

text \<open>
  Outbounds in raw routing profiles, \<^verbatim>\<open>src/database/entities/RouteProfile.cpp\<close> lines 15 to 122. A raw
  profile is a whole \<^verbatim>\<open>route\<close> object of the core in which \<^verbatim>\<open>outbound\<close> and \<^verbatim>\<open>final\<close> name profiles by
  number, at any depth. Three walks read it: one collects the numbers, one replaces them by the
  tags of a build, one moves them from another machine's profiles to this one's by name.

  A warning pointer is threaded as the text it points to; \<^verbatim>\<open>nullptr\<close> differs only in that nobody
  reads the text.
\<close>

definition INVALID_ID :: int where "INVALID_ID = -99999"

definition isOutboundIDValid :: "'z route_env_scheme \<Rightarrow> int \<Rightarrow> bool" where
  "isOutboundIDValid E i \<longleftrightarrow> (if i = -1 \<or> i = -2 then True else ro_profile E i \<noteq> None)"

definition getOutboundID :: "'z route_env_scheme \<Rightarrow> string \<Rightarrow> int" where
  "getOutboundID E name =
     (if name = ''proxy'' then -1 else if name = ''direct'' then -2
      else case ro_byName E name of Some p \<Rightarrow> pr_id p | None \<Rightarrow> INVALID_ID)"

subsection \<open>The three walks\<close>

definition names_outbound :: "string \<Rightarrow> json \<Rightarrow> bool" where
  "names_outbound k v \<longleftrightarrow> (k = ''outbound'' \<or> k = ''final'') \<and> is_double v"

lemma size_element: "x \<in> set xs \<Longrightarrow> size x < Suc (size_list size xs)" for xs :: "json list"
  using size_list_estimation' [of x xs "size x" size] by simp

lemma size_member: "(k, v) \<in> set ms \<Longrightarrow> size v < Suc (size_list (size_prod (\<lambda>_. 0) size) ms)"
  for ms :: jobject
  using size_list_estimation' [of "(k, v)" ms "size v" "size_prod (\<lambda>_. 0) size"] by simp

function (sequential) collectRawOutboundIdsRec :: "json \<Rightarrow> int list \<Rightarrow> int list" where
  "collectRawOutboundIdsRec (JObj ms) out =
     fold (\<lambda>(k, v). if names_outbound k v then append_new (to_int 0 v)
                    else collectRawOutboundIdsRec v) ms out"
| "collectRawOutboundIdsRec (JArr xs) out = fold collectRawOutboundIdsRec xs out"
| "collectRawOutboundIdsRec v out = out"
  by pat_completeness auto
termination
  by (relation "measure (size \<circ> fst)") (auto simp: size_element size_member)

definition CollectRawOutboundIds :: "jobject \<Rightarrow> int list" where
  "CollectRawOutboundIds route = collectRawOutboundIdsRec (JObj route) []"

function (sequential) translateRawOutboundsRec :: "(int \<Rightarrow> string option) \<Rightarrow> json \<Rightarrow> json" where
  "translateRawOutboundsRec m (JObj ms) =
     JObj (jbuild (map (\<lambda>(k, v).
       (k, if names_outbound k v then
             (case m (to_int 0 v) of Some tag \<Rightarrow> JStr tag | None \<Rightarrow> JStr ''proxy'')
           else translateRawOutboundsRec m v)) ms))"
| "translateRawOutboundsRec m (JArr xs) = JArr (map (translateRawOutboundsRec m) xs)"
| "translateRawOutboundsRec m v = v"
  by pat_completeness auto
termination
  by (relation "measure (size \<circ> snd)") (auto simp: size_element size_member)

definition TranslateRawOutbounds :: "jobject \<Rightarrow> (int \<Rightarrow> string option) \<Rightarrow> jobject" where
  "TranslateRawOutbounds route m = to_obj (translateRawOutboundsRec m (JObj route))"

definition remap_warning :: "string \<Rightarrow> string" where
  "remap_warning s = ''outbound \"'' @ s @ ''\" not found, using proxy\<newline>''"

definition remap_id :: "'z route_env_scheme \<Rightarrow> jobject \<Rightarrow> int \<Rightarrow> int \<times> string" where
  "remap_id E names i =
     (if i < 0 then (i, [])
      else let nm = to_str [] (jget names (number i)) in
        case (if nm = [] then None else ro_byName E nm) of
          Some local \<Rightarrow> (pr_id local, [])
        | None \<Rightarrow> (proxyID, remap_warning (if nm = [] then number i else nm)))"

function (sequential) remapRawOutboundsByNameRec ::
    "'z route_env_scheme \<Rightarrow> jobject \<Rightarrow> json \<Rightarrow> string \<Rightarrow> json \<times> string" where
  "remapRawOutboundsByNameRec E names (JObj ms) w =
     (let (res, w) = fold (\<lambda>(k, v) (res, w).
         if names_outbound k v then
           (let (i, note) = remap_id E names (to_int 0 v) in (jput k (jint i) res, w @ note))
         else (let (v', w) = remapRawOutboundsByNameRec E names v w in (jput k v' res, w))) ms ([], w)
      in (JObj res, w))"
| "remapRawOutboundsByNameRec E names (JArr xs) w =
     (let (res, w) = fold (\<lambda>x (res, w).
         let (x', w) = remapRawOutboundsByNameRec E names x w in (res @ [x'], w)) xs ([], w)
      in (JArr res, w))"
| "remapRawOutboundsByNameRec E names v w = (v, w)"
  by pat_completeness auto
termination
  by (relation "measure (\<lambda>(_, _, v, _). size v)") (auto simp: size_element size_member)

definition remapRawOutboundsByName :: "'z route_env_scheme \<Rightarrow> jobject \<Rightarrow> jobject \<Rightarrow> string \<Rightarrow> jobject \<times> string" where
  "remapRawOutboundsByName E route names w =
     (let (v, w) = remapRawOutboundsByNameRec E names (JObj route) w in (to_obj v, w))"

subsection \<open>What the walks do\<close>

text \<open>
  The numbers a value refers to, in the order of the walk, and the rewriting both the translation
  and the remapping implement: every reference, and nothing else, is replaced.
\<close>

function (sequential) raw_ids :: "json \<Rightarrow> int list" where
  "raw_ids (JObj ms) =
     concat (map (\<lambda>(k, v). if names_outbound k v then [to_int 0 v] else raw_ids v) ms)"
| "raw_ids (JArr xs) = concat (map raw_ids xs)"
| "raw_ids v = []"
  by pat_completeness auto
termination
  by (relation "measure size") (auto simp: size_element size_member)

function (sequential) rewrite_refs :: "(int \<Rightarrow> json) \<Rightarrow> json \<Rightarrow> json" where
  "rewrite_refs f (JObj ms) =
     JObj (map (\<lambda>(k, v). (k, if names_outbound k v then f (to_int 0 v) else rewrite_refs f v)) ms)"
| "rewrite_refs f (JArr xs) = JArr (map (rewrite_refs f) xs)"
| "rewrite_refs f v = v"
  by pat_completeness auto
termination
  by (relation "measure (size \<circ> snd)") (auto simp: size_element size_member)

text \<open>Every object inside the value has its members sorted and distinct, as \<^verbatim>\<open>QJsonObject\<close> keeps them.\<close>

function (sequential) wf_json :: "json \<Rightarrow> bool" where
  "wf_json (JObj ms) \<longleftrightarrow> wf_object ms \<and> (\<forall>(k, v) \<in> set ms. wf_json v)"
| "wf_json (JArr xs) \<longleftrightarrow> (\<forall>x \<in> set xs. wf_json x)"
| "wf_json v \<longleftrightarrow> True"
  by pat_completeness auto
termination
  by (relation "measure size") (auto simp: size_element size_member)

datatype json_step = Key string | Index nat

fun value_at :: "json_step list \<Rightarrow> json \<Rightarrow> json option" where
  "value_at [] v = Some v"
| "value_at (Key k # p) (JObj ms) = Option.bind (map_of ms k) (value_at p)"
| "value_at (Index i # p) (JArr xs) = (if i < length xs then value_at p (xs ! i) else None)"
| "value_at (s # p) v = None"

definition reference_at :: "json_step list \<Rightarrow> json \<Rightarrow> bool" where
  "reference_at p v \<longleftrightarrow> (\<exists>k \<in> set [''outbound'', ''final'']. p \<noteq> [] \<and> List.last p = Key k \<and> is_double v)"

text \<open>Induction over the members and elements of a value.\<close>

lemma json_walk_induct [case_names object array leaf]:
  assumes "\<And>ms. (\<And>k v. (k, v) \<in> set ms \<Longrightarrow> P v) \<Longrightarrow> P (JObj ms)"
    and "\<And>xs. (\<And>x. x \<in> set xs \<Longrightarrow> P x) \<Longrightarrow> P (JArr xs)"
    and "\<And>v. \<forall>ms. v \<noteq> JObj ms \<Longrightarrow> \<forall>xs. v \<noteq> JArr xs \<Longrightarrow> P v"
  shows "P v"
proof (induction v rule: measure_induct_rule [of size])
  case (less v)
  show ?case
  proof (cases v)
    case (JObj ms)
    have "P u" if "(k, u) \<in> set ms" for k u
      using less [of u] size_member [OF that] JObj by simp
    with assms(1) JObj show ?thesis by blast
  next
    case (JArr xs)
    have "P x" if "x \<in> set xs" for x
      using less [of x] size_element [OF that] JArr by simp
    with assms(2) JArr show ?thesis by blast
  qed (use assms(3) in auto)
qed

lemma to_int_is_int32 [simp]: "is_int32 (to_int 0 v)"
  by (auto simp: to_int_def is_int32_def split: json.splits)

lemma collect_append_new: "collectRawOutboundIdsRec v out = fold append_new (raw_ids v) out"
proof (induction v out rule: collectRawOutboundIdsRec.induct)
  case (1 ms out)
  have "fold (\<lambda>(k, v). if names_outbound k v then append_new (to_int 0 v) else collectRawOutboundIdsRec v) ns acc
      = fold append_new (raw_ids (JObj ns)) acc" if "set ns \<subseteq> set ms" for ns acc
    using that
  proof (induction ns arbitrary: acc)
    case (Cons n ns)
    obtain k v where n: "n = (k, v)" by (cases n)
    show ?case
    proof (cases "names_outbound k v")
      case True
      with Cons n show ?thesis by simp
    next
      case False
      with 1 [of n _ _ acc] Cons n show ?thesis by simp
    qed
  qed simp
  then show ?case by simp
next
  case (2 xs out)
  have "fold collectRawOutboundIdsRec ys acc = fold append_new (concat (map raw_ids ys)) acc"
    if "set ys \<subseteq> set xs" for ys acc
    using that 2 by (induction ys arbitrary: acc) simp_all
  then show ?case by simp
qed simp_all

lemma CollectRawOutboundIds_eq: "CollectRawOutboundIds route = keep_first Some [] (raw_ids (JObj route))"
  by (simp add: CollectRawOutboundIds_def collect_append_new fold_append_new)

lemma rewrite_cong: "\<forall>i \<in> set (raw_ids v). f i = g i \<Longrightarrow> rewrite_refs f v = rewrite_refs g v"
proof (induction v rule: json_walk_induct)
  case (object ms)
  have member_ids: "set (if names_outbound k u then [to_int 0 u] else raw_ids u) \<subseteq> set (raw_ids (JObj ms))"
    if "(k, u) \<in> set ms" for k u
    using that by auto
  have "(if names_outbound k u then f (to_int 0 u) else rewrite_refs f u)
      = (if names_outbound k u then g (to_int 0 u) else rewrite_refs g u)" if m: "(k, u) \<in> set ms" for k u
  proof (cases "names_outbound k u")
    case True
    with member_ids [OF m] object.prems show ?thesis by auto
  next
    case False
    with member_ids [OF m] object.prems have "\<forall>i \<in> set (raw_ids u). f i = g i" by auto
    with object.IH [OF m] False show ?thesis by simp
  qed
  then show ?case by auto
next
  case (leaf v)
  then show ?case by (cases v) auto
qed auto

lemma rewrite_is_double: "is_double (rewrite_refs f v) = is_double v"
  by (cases v) (simp_all add: is_double_def)

lemma map_of_map_values: "map_of (map (\<lambda>(k, v). (k, h k v)) ms) k = map_option (h k) (map_of ms k)"
  by (induction ms) auto

lemma names_outbound_reference: "names_outbound k v \<longleftrightarrow> reference_at (p @ [Key k]) v"
  by (auto simp: names_outbound_def reference_at_def)

lemma reference_at_Cons: "p \<noteq> [] \<Longrightarrow> reference_at (s # p) v = reference_at p v"
  by (simp add: reference_at_def)

lemma value_at_double: "is_double v \<Longrightarrow> value_at p v = (if p = [] then Some v else None)"
  by (cases "(p, v)" rule: value_at.cases) (simp_all add: is_double_def)

text \<open>Looking up a path commutes with the rewriting: nothing but the references changes.\<close>

lemma value_at_rewrite:
  assumes "\<And>i q. q \<noteq> [] \<Longrightarrow> value_at q (f i) = None"
  shows "value_at p (rewrite_refs f v) =
    map_option (\<lambda>u. if reference_at p u then f (to_int 0 u) else rewrite_refs f u) (value_at p v)"
proof (induction p v rule: value_at.induct)
  case (1 v)
  then show ?case by (simp add: reference_at_def)
next
  case (2 k p ms)
  show ?case
  proof (cases "map_of ms k")
    case None
    then show ?thesis by (simp add: map_of_map_values)
  next
    case (Some u)
    show ?thesis
    proof (cases "names_outbound k u")
      case True
      then have "is_double u" by (simp add: names_outbound_def)
      with True Some assms show ?thesis
        by (simp add: map_of_map_values value_at_double names_outbound_reference [of _ _ "[]"])
    next
      case False
      with 2 [of u] Some show ?thesis
        by (cases "p = []")
          (simp_all add: map_of_map_values reference_at_Cons names_outbound_reference [of _ _ "[]"])
    qed
  qed
next
  case (3 i p xs)
  then show ?case
    by (cases "p = []") (simp_all add: reference_at_Cons reference_at_def cong: map_option_cong)
qed simp_all

lemma raw_ids_rewrite:
  assumes "\<And>i. raw_ids (f i) = []" "\<And>i k. names_outbound k (f i) \<longleftrightarrow> False"
  shows "raw_ids (rewrite_refs f v) = []"
proof (induction v rule: json_walk_induct)
  case (object ms)
  then show ?case using assms by (auto simp: names_outbound_def rewrite_is_double)
next
  case (leaf v)
  then show ?case by (cases v) auto
qed simp

lemma raw_ids_rewrite_ids:
  assumes "\<And>i. is_int32 (g i)"
  shows "raw_ids (rewrite_refs (\<lambda>i. jint (g i)) v) = map g (raw_ids v)"
proof (induction v rule: json_walk_induct)
  case (object ms)
  have "raw_ids (rewrite_refs (\<lambda>i. jint (g i)) (JObj ns)) = map g (raw_ids (JObj ns))" if "set ns \<subseteq> set ms" for ns
    using that
  proof (induction ns)
    case (Cons n ns)
    obtain k v where n: "n = (k, v)" by (cases n)
    have "raw_ids (rewrite_refs (\<lambda>i. jint (g i)) v) = map g (raw_ids v)" 
      using object [of k v] Cons.prems n by simp
    with Cons n assms show ?case
      by (simp add: names_outbound_def rewrite_is_double)
  qed simp
  then show ?case by simp
next
  case (array xs)
  have "concat (map (raw_ids \<circ> rewrite_refs (\<lambda>i. jint (g i))) ys) = map g (concat (map raw_ids ys))"
    if "set ys \<subseteq> set xs" for ys
    using that array by (induction ys) simp_all
  then show ?case by (simp add: comp_def)
next
  case (leaf v)
  then show ?case by (cases v) auto
qed

subsection \<open>The walks implement the rewriting\<close>

lemma jput_last: "\<forall>(k', v') \<in> set ob. k' < k \<Longrightarrow> jput k v ob = ob @ [(k, v)]"
  by (induction ob) auto

lemma wf_object_snoc: "wf_object (ob @ [(k, v)]) \<longleftrightarrow> wf_object ob \<and> (\<forall>(k', v') \<in> set ob. k' < k)"
  by (auto simp: wf_object_def sorted_wrt_append)

lemma jbuild_sorted: "wf_object ms \<Longrightarrow> jbuild ms = ms"
  by (induction ms rule: rev_induct)
    (auto simp: jbuild_def wf_object_snoc intro!: jput_last)

lemma wf_map_values: "wf_object (map (\<lambda>(k, v). (k, h k v)) ms) \<longleftrightarrow> wf_object ms"
  by (simp add: wf_object_def comp_def case_prod_beta')

definition tag_of :: "(int \<Rightarrow> string option) \<Rightarrow> int \<Rightarrow> json" where
  "tag_of m i = JStr (case m i of Some tag \<Rightarrow> tag | None \<Rightarrow> ''proxy'')"

lemma translate_rewrite: "wf_json v \<Longrightarrow> translateRawOutboundsRec m v = rewrite_refs (tag_of m) v"
proof (induction v rule: json_walk_induct)
  case (object ms)
  have tag: "(case m i of Some tag \<Rightarrow> JStr tag | None \<Rightarrow> JStr ''proxy'') = tag_of m i" for i
    by (simp add: tag_of_def split: option.splits)
  have "map (\<lambda>(k, v). (k, if names_outbound k v then
             (case m (to_int 0 v) of Some tag \<Rightarrow> JStr tag | None \<Rightarrow> JStr ''proxy'')
           else translateRawOutboundsRec m v)) ms
      = map (\<lambda>(k, v). (k, if names_outbound k v then tag_of m (to_int 0 v) else rewrite_refs (tag_of m) v)) ms"
    using object by (auto simp: tag)
  moreover have "wf_object ms" using object.prems by simp
  ultimately show ?case
    by (simp add: jbuild_sorted wf_map_values del: map_eq_conv)
next
  case (leaf v)
  then show ?case by (cases v) auto
qed auto

definition remap_text :: "'z route_env_scheme \<Rightarrow> jobject \<Rightarrow> int list \<Rightarrow> string" where
  "remap_text E names is = concat (map (snd \<circ> remap_id E names) is)"

lemma remap_rewrite: "wf_json v \<Longrightarrow> remapRawOutboundsByNameRec E names v w =
    (rewrite_refs (\<lambda>i. jint (fst (remap_id E names i))) v, w @ remap_text E names (raw_ids v))"
proof (induction v arbitrary: w rule: json_walk_induct)
  case (object ms)
  let ?f = "\<lambda>i. jint (fst (remap_id E names i))"
  let ?step = "\<lambda>(k, v) (res, w). if names_outbound k v then
           (let (i, note) = remap_id E names (to_int 0 v) in (jput k (jint i) res, w @ note))
         else (let (v', w) = remapRawOutboundsByNameRec E names v w in (jput k v' res, w))"
  let ?h = "\<lambda>(k, v). (k, if names_outbound k v then ?f (to_int 0 v) else rewrite_refs ?f v)"
  have "fold ?step ns ([], w) = (map ?h ns, w @ remap_text E names (raw_ids (JObj ns)))"
    if "set ns \<subseteq> set ms" "wf_object ns" for ns w
    using that
  proof (induction ns rule: rev_induct)
    case (snoc n ns)
    obtain k v where n: "n = (k, v)" by (cases n)
    have wf: "wf_object ns" and keys: "\<forall>(k', v') \<in> set ns. k' < k"
      using snoc.prems n by (simp_all add: wf_object_snoc)
    have put: "jput k u (map ?h ns) = map ?h ns @ [(k, u)]" for u
      using keys by (intro jput_last) auto
    have "wf_json v" "\<And>w. wf_json v \<Longrightarrow> remapRawOutboundsByNameRec E names v w =
        (rewrite_refs ?f v, w @ remap_text E names (raw_ids v))"
      using object snoc.prems n by auto
    with snoc.IH wf snoc.prems n put show ?case
      by (simp add: remap_text_def split_beta split_beta' Let_def)
  qed (simp add: remap_text_def)
  with object.prems show ?case by simp
next
  case (array xs)
  let ?f = "\<lambda>i. jint (fst (remap_id E names i))"
  have "fold (\<lambda>x (res, w). let (x', w) = remapRawOutboundsByNameRec E names x w in (res @ [x'], w)) ys (acc, w)
      = (acc @ map (rewrite_refs ?f) ys, w @ remap_text E names (concat (map raw_ids ys)))"
    if "set ys \<subseteq> set xs" for ys acc w
    using that array by (induction ys arbitrary: acc w) (simp_all add: remap_text_def)
  from this [of xs "[]" w] show ?case by simp
next
  case (leaf v)
  then show ?case by (cases v) (auto simp: remap_text_def)
qed

text \<open>An id of a 32-bit \<^verbatim>\<open>int\<close> field.\<close>

definition ids_int :: "'z route_env_scheme \<Rightarrow> bool" where
  "ids_int E \<longleftrightarrow> (\<forall>nm p. ro_byName E nm = Some p \<longrightarrow> is_int32 (pr_id p))"

definition remapped :: "'z route_env_scheme \<Rightarrow> jobject \<Rightarrow> int \<Rightarrow> int" where
  "remapped E names i = (if is_int32 i then fst (remap_id E names i) else proxyID)"

lemma remapped_int32: "ids_int E \<Longrightarrow> is_int32 (remapped E names i)"
  by (auto simp: remapped_def remap_id_def Let_def ids_int_def proxyID_def is_int32_def split: option.splits)

lemma raw_ids_int32: "i \<in> set (raw_ids v) \<Longrightarrow> is_int32 i"
  by (induction v rule: raw_ids.induct) (auto split: if_splits)

lemma rewrite_remapped: "rewrite_refs (\<lambda>i. jint (fst (remap_id E names i))) v
    = rewrite_refs (\<lambda>i. jint (remapped E names i)) v"
  by (rule rewrite_cong) (simp add: remapped_def raw_ids_int32)

end
