(* ===== verification/RouteProfile.thy ===== *)
theory RouteProfile
  imports RawRoute
begin

text \<open>
  The routing profile, \<^verbatim>\<open>RouteProfile.h\<close> and \<^verbatim>\<open>src/database/entities/RouteProfile.cpp\<close>: an ordered list
  of rules, or a raw \<^verbatim>\<open>route\<close> object as text. Modelled here are the simple rules the user edits as
  lines of text, the rules paired with endpoints, the rules handed to the core, and the questions
  the configuration builder asks. Rules are shared pointers in the code; each is in one list only,
  so the list holds them by value and a change through a pointer is a change of that element.
\<close>

datatype simpleAction = bypass | block | proxy | warpBypass

definition simpleActionToString :: "simpleAction \<Rightarrow> string" where
  "simpleActionToString a = (case a of bypass \<Rightarrow> ''direct'' | block \<Rightarrow> ''block'' | proxy \<Rightarrow> ''proxy''
     | warpBypass \<Rightarrow> ''warp-bypass'')"

record routeProfile =
  rt_id :: int
  rt_name :: string
  rt_Rules :: "routeRule list"
  rt_defaultOutboundID :: int
  rt_isRaw :: bool
  rt_rawRoute :: string
  rt_preventModifications :: bool
  rt_isRemote :: bool
  rt_remoteURL :: string
  rt_autoUpdate :: bool
  rt_remoteLastUpdate :: int
  rt_endpointProfileIDs :: "int list"

definition new_routeProfile :: routeProfile where
  "new_routeProfile = \<lparr>rt_id = -1, rt_name = [], rt_Rules = [], rt_defaultOutboundID = proxyID,
     rt_isRaw = False, rt_rawRoute = [], rt_preventModifications = False, rt_isRemote = False,
     rt_remoteURL = [], rt_autoUpdate = False, rt_remoteLastUpdate = 0, rt_endpointProfileIDs = []\<rparr>"

definition copy_profile :: "routeProfile \<Rightarrow> routeProfile" where
  "copy_profile other = other\<lparr>rt_Rules := map copy_rule (rt_Rules other)\<rparr>"

text \<open>Two settings, and \<^verbatim>\<open>QJsonDocument\<close> as text.\<close>

record routing_env = route_env +
  re_adblock_enable :: bool
  re_vpn_private_ranges :: "string list"
  re_text2object :: "string \<Rightarrow> jobject"
  re_object2text :: "jobject \<Rightarrow> string"

subsection \<open>Simple rules\<close>

definition simple_rule :: "ruleType \<Rightarrow> string \<Rightarrow> int \<Rightarrow> routeRule" where
  "simple_rule t action oid = new_rule\<lparr>rr_type := t, rr_action := action, rr_outboundID := oid,
     rr_name := ruleTypeToString t\<rparr>"

definition get_simple_rules :: "'z route_env_scheme \<Rightarrow> routeRule list" where
  "get_simple_rules E =
     [simple_rule SimpleAddressProxy ''route'' (getOutboundID E ''proxy''),
      simple_rule SimpleAddressBypass ''route'' (getOutboundID E ''direct''),
      simple_rule SimpleAddressBlock ''reject'' directID,
      simple_rule SimpleProcessNameProxy ''route'' (getOutboundID E ''proxy''),
      simple_rule SimpleProcessNameBypass ''route'' (getOutboundID E ''direct''),
      simple_rule SimpleProcessNameBlock ''reject'' directID,
      simple_rule SimpleProcessPathProxy ''route'' (getOutboundID E ''proxy''),
      simple_rule SimpleProcessPathBypass ''route'' (getOutboundID E ''direct''),
      simple_rule SimpleProcessPathBlock ''reject'' directID,
      simple_rule SimpleAddressWarpBypass ''route'' warpBypassID,
      simple_rule SimpleProcessNameWarpBypass ''route'' warpBypassID,
      simple_rule SimpleProcessPathWarpBypass ''route'' warpBypassID]"

definition reset_simple_rule :: "'z route_env_scheme \<Rightarrow> routeRule \<Rightarrow> routeRule" where
  "reset_simple_rule E r =
     (case find (\<lambda>c. rr_type c = rr_type r) (get_simple_rules E) of Some c \<Rightarrow> c | None \<Rightarrow> r)"

definition ResetSimpleRule :: "'z route_env_scheme \<Rightarrow> ruleType \<Rightarrow> routeProfile \<Rightarrow> routeProfile" where
  "ResetSimpleRule E t P =
     (if \<exists>r \<in> set (rt_Rules P). rr_type r = t then
        P\<lparr>rt_Rules := update_first (\<lambda>r. rr_type r = t) (reset_simple_rule E) (rt_Rules P)\<rparr>
      else case find (\<lambda>c. rr_type c = t) (get_simple_rules E) of
        Some c \<Rightarrow> P\<lparr>rt_Rules := rt_Rules P @ [c]\<rparr>
      | None \<Rightarrow> P)"

definition action_types :: "simpleAction \<Rightarrow> ruleType list" where
  "action_types a = (case a of
     proxy \<Rightarrow> [SimpleAddressProxy, SimpleProcessNameProxy, SimpleProcessPathProxy]
   | bypass \<Rightarrow> [SimpleAddressBypass, SimpleProcessNameBypass, SimpleProcessPathBypass]
   | warpBypass \<Rightarrow> [SimpleAddressWarpBypass, SimpleProcessNameWarpBypass, SimpleProcessPathWarpBypass]
   | block \<Rightarrow> [SimpleAddressBlock, SimpleProcessNameBlock, SimpleProcessPathBlock])"

text \<open>The keyword of a line, with the field it stands for.\<close>

definition address_fields :: "(string \<times> (routeRule \<Rightarrow> string list) \<times> (string list \<Rightarrow> routeRule \<Rightarrow> routeRule)) list" where
  "address_fields =
     [(''domain'', rr_domain, \<lambda>v. rr_domain_update (\<lambda>_. v)),
      (''suffix'', rr_domain_suffix, \<lambda>v. rr_domain_suffix_update (\<lambda>_. v)),
      (''keyword'', rr_domain_keyword, \<lambda>v. rr_domain_keyword_update (\<lambda>_. v)),
      (''regex'', rr_domain_regex, \<lambda>v. rr_domain_regex_update (\<lambda>_. v)),
      (''ruleset'', rr_rule_set, \<lambda>v. rr_rule_set_update (\<lambda>_. v)),
      (''ip'', rr_ip_cidr, \<lambda>v. rr_ip_cidr_update (\<lambda>_. v))]"

definition process_fields :: "(string \<times> (routeRule \<Rightarrow> string list) \<times> (string list \<Rightarrow> routeRule \<Rightarrow> routeRule)) list" where
  "process_fields =
     [(''processName'', rr_process_name, \<lambda>v. rr_process_name_update (\<lambda>_. v)),
      (''processPath'', rr_process_path, \<lambda>v. rr_process_path_update (\<lambda>_. v))]"

definition line_end :: string where "line_end = ''\<newline>''"

definition simple_lines :: "routeRule \<Rightarrow> string list" where
  "simple_lines r = concat (map (\<lambda>(k, get, _). map (\<lambda>x. k @ '':'' @ x) (get r)) (address_fields @ process_fields))"

definition GetSimpleRules :: "simpleAction \<Rightarrow> routeProfile \<Rightarrow> string" where
  "GetSimpleRules a P =
     concat (map (\<lambda>r. if rr_type r \<in> set (action_types a)
       then concat (map (\<lambda>l. l @ line_end) (simple_lines r)) else []) (rt_Rules P))"

text \<open>The text before and after the first colon.\<close>

fun split_colon :: "string \<Rightarrow> (string \<times> string) option" where
  "split_colon [] = None"
| "split_colon (c # cs) =
     (if c = CHR '':'' then Some ([], cs) else map_option (\<lambda>(a, b). (c # a, b)) (split_colon cs))"

definition add_to_field ::
    "(string \<times> (routeRule \<Rightarrow> string list) \<times> (string list \<Rightarrow> routeRule \<Rightarrow> routeRule)) list \<Rightarrow>
      string \<Rightarrow> routeRule \<Rightarrow> routeRule option" where
  "add_to_field tbl content r =
     (case split_colon content of
        None \<Rightarrow> None
      | Some (k, address) \<Rightarrow> (case map_of tbl k of
          None \<Rightarrow> None
        | Some (get, upd) \<Rightarrow> Some (upd (append_new address (get r)) r)))"

text \<open>\<^verbatim>\<open>None\<close> for \<^verbatim>\<open>false\<close>: the rule is then unchanged.\<close>

definition add_simple_address_rule :: "string \<Rightarrow> routeRule \<Rightarrow> routeRule option" where
  "add_simple_address_rule content r = add_to_field address_fields content r"

definition add_simple_process_rule :: "string \<Rightarrow> routeRule \<Rightarrow> routeRule option" where
  "add_simple_process_rule content r = add_to_field process_fields content r"

definition add_simple_rule :: "string \<Rightarrow> ruleType \<Rightarrow> routeRule \<Rightarrow> routeRule option" where
  "add_simple_rule content t r =
     (if t \<in> set address_types then add_simple_address_rule content r else add_simple_process_rule content r)"

definition get_rule_type :: "string \<Rightarrow> simpleAction \<Rightarrow> ruleType" where
  "get_rule_type content a =
     (if list_ex (starts_with content) [''domain'', ''suffix'', ''keyword'', ''regex'', ''ruleset'', ''ip'']
      then (case a of proxy \<Rightarrow> SimpleAddressProxy | bypass \<Rightarrow> SimpleAddressBypass
              | warpBypass \<Rightarrow> SimpleAddressWarpBypass | block \<Rightarrow> SimpleAddressBlock)
      else if starts_with content ''processName''
      then (case a of proxy \<Rightarrow> SimpleProcessNameProxy | bypass \<Rightarrow> SimpleProcessNameBypass
              | warpBypass \<Rightarrow> SimpleProcessNameWarpBypass | block \<Rightarrow> SimpleProcessNameBlock)
      else if starts_with content ''processPath''
      then (case a of proxy \<Rightarrow> SimpleProcessPathProxy | bypass \<Rightarrow> SimpleProcessPathBypass
              | warpBypass \<Rightarrow> SimpleProcessPathWarpBypass | block \<Rightarrow> SimpleProcessPathBlock)
      else CustomRule)"

definition get_simple_rule_by_type :: "ruleType \<Rightarrow> routeProfile \<Rightarrow> routeRule option" where
  "get_simple_rule_by_type t P = find (\<lambda>r. rr_type r = t) (rt_Rules P)"

text \<open>Asking a custom rule whether it is empty may correct its action, which stays corrected.\<close>

definition FilterEmptyRules :: "'z route_env_scheme \<Rightarrow> routeProfile \<Rightarrow> routeProfile" where
  "FilterEmptyRules E P =
     P\<lparr>rt_Rules := map snd (filter (\<lambda>(e, _). \<not> e) (map (rule_isEmpty E) (rt_Rules P)))\<rparr>"

definition invalid_rule :: "string \<Rightarrow> string" where
  "invalid_rule raw = ''invalid rule:'' @ raw @ line_end"

definition add_line :: "'z route_env_scheme \<Rightarrow> simpleAction \<Rightarrow> string \<Rightarrow> string \<times> routeProfile \<Rightarrow> string \<times> routeProfile" where
  "add_line E a raw = (\<lambda>(res, P).
     if qt_trimmed E raw = [] then (res, P)
     else let t = get_rule_type raw a in
       if t = CustomRule then (res @ invalid_rule raw, P)
       else case get_simple_rule_by_type t P of
         None \<Rightarrow> (res @ ''internal error, failed to get rule for: '' @ ruleTypeToString t @ line_end, P)
       | Some rule \<Rightarrow> (case add_simple_rule raw t rule of
           None \<Rightarrow> (res @ invalid_rule raw, P)
         | Some rule' \<Rightarrow> (res, P\<lparr>rt_Rules := update_first (\<lambda>r. rr_type r = t) (\<lambda>_. rule') (rt_Rules P)\<rparr>)))"

definition UpdateSimpleRules :: "'z route_env_scheme \<Rightarrow> string \<Rightarrow> simpleAction \<Rightarrow> routeProfile \<Rightarrow> string \<times> routeProfile" where
  "UpdateSimpleRules E content a P =
     (let P = fold (ResetSimpleRule E) (action_types a) P;
          (res, P) = fold (add_line E a) (split_on (hd line_end) [] content) ([], P)
      in (res, FilterEmptyRules E P))"

subsection \<open>Rules for the core\<close>

definition createAdblockRule :: jobject where
  "createAdblockRule = jbuild [(''action'', JStr ''reject''),
     (''rule_set'', JArr [JStr ''quattro-adblocksingbox''])]"

text \<open>A rule without JSON ends the loop with an empty result; the rules keep their corrected actions.\<close>

fun route_rules_loop ::
    "'z routing_env_scheme \<Rightarrow> bool \<Rightarrow> (int \<Rightarrow> string option) \<Rightarrow> bool \<Rightarrow> routeRule list \<Rightarrow>
      jobject list option \<times> routeRule list" where
  "route_rules_loop E forView m added [] =
     (Some (if \<not> added \<and> re_adblock_enable E then [createAdblockRule] else []), [])"
| "route_rules_loop E forView m added (r # rs) =
     (let tag = (case m (rr_outboundID r) of Some t \<Rightarrow> t | None \<Rightarrow> [])
      in if (rr_type r \<noteq> CustomRule \<and> fst (rule_isEmpty E r))
            \<or> (\<not> forView \<and> rr_type r = EndpointPreferredBy \<and> tag = []) then
           (case route_rules_loop E forView m added rs of (res, rs') \<Rightarrow> (res, r # rs'))
         else
           (case get_rule_json E forView tag r of (ob, r') \<Rightarrow>
             if ob = [] then (None, r' # rs)
             else let gate = \<not> added \<and> re_adblock_enable E \<and> jget ob ''action'' = JStr ''route'' in
               (case route_rules_loop E forView m (added \<or> gate) rs of (res, rs') \<Rightarrow>
                 (map_option (\<lambda>os. (if gate then [createAdblockRule] else []) @ ob # os) res, r' # rs'))))"

definition get_route_rules ::
    "'z routing_env_scheme \<Rightarrow> bool \<Rightarrow> (int \<Rightarrow> string option) \<Rightarrow> routeProfile \<Rightarrow> jobject list \<times> routeProfile" where
  "get_route_rules E forView m P =
     (case route_rules_loop E forView m False (rt_Rules P) of
        (res, rs) \<Rightarrow> ((case res of Some os \<Rightarrow> os | None \<Rightarrow> []), P\<lparr>rt_Rules := rs\<rparr>))"

subsection \<open>Endpoint rules\<close>

definition MakeEndpointRule :: "'z route_env_scheme \<Rightarrow> int \<Rightarrow> routeRule" where
  "MakeEndpointRule E i = new_rule\<lparr>rr_type := EndpointPreferredBy, rr_outboundID := i,
     rr_name := (case Option.bind (ro_profile E i) pr_outbound of
        Some ob \<Rightarrow> DisplayName ob @ '' route prefer''
      | None \<Rightarrow> ruleTypeToString EndpointPreferredBy)\<rparr>"

fun keep_paired :: "int list \<Rightarrow> int list \<Rightarrow> routeRule list \<Rightarrow> routeRule list \<times> int list" where
  "keep_paired endpoints paired [] = ([], paired)"
| "keep_paired endpoints paired (r # rs) =
     (if rr_type r = EndpointPreferredBy then
        if rr_outboundID r \<notin> set endpoints \<or> rr_outboundID r \<in> set paired
        then keep_paired endpoints paired rs
        else (case keep_paired endpoints (rr_outboundID r # paired) rs of (kept, ids) \<Rightarrow> (r # kept, ids))
      else (case keep_paired endpoints paired rs of (kept, ids) \<Rightarrow> (r # kept, ids)))"

definition SyncEndpointRules :: "'z route_env_scheme \<Rightarrow> routeProfile \<Rightarrow> routeProfile" where
  "SyncEndpointRules E P =
     (if rt_isRaw P then P
      else case keep_paired (rt_endpointProfileIDs P) [] (rt_Rules P) of (kept, paired) \<Rightarrow>
        P\<lparr>rt_Rules := kept @ map (MakeEndpointRule E)
           (filter (\<lambda>i. i \<notin> set paired) (rt_endpointProfileIDs P))\<rparr>)"

definition GetDefaultChain :: routeProfile where
  "GetDefaultChain = new_routeProfile\<lparr>rt_name := ''Default'',
     rt_Rules := [new_rule\<lparr>rr_name := ''Route DNS'', rr_action := ''hijack-dns'', rr_protocol := ''dns''\<rparr>]\<rparr>"

subsection \<open>Questions of the configuration builder\<close>

definition get_used_outbounds :: "'z routing_env_scheme \<Rightarrow> routeProfile \<Rightarrow> int list" where
  "get_used_outbounds E P =
     (if rt_isRaw P then CollectRawOutboundIds (re_text2object E (rt_rawRoute P))
      else map rr_outboundID (filter (\<lambda>r. rr_type r \<noteq> EndpointPreferredBy) (rt_Rules P)))"

definition get_used_rule_sets :: "routeProfile \<Rightarrow> string list" where
  "get_used_rule_sets P = concat (map rr_rule_set (rt_Rules P))"

definition site_lines :: "routeRule \<Rightarrow> string list" where
  "site_lines r =
     map (\<lambda>s. ''ruleset:'' @ s) (filter (\<lambda>s. starts_with s ''geosite-'') (rr_rule_set r))
     @ map (\<lambda>s. ''domain:'' @ s) (rr_domain r)
     @ map (\<lambda>s. ''suffix:'' @ s) (rr_domain_suffix r)
     @ map (\<lambda>s. ''keyword:'' @ s) (rr_domain_keyword r)
     @ map (\<lambda>s. ''regex:'' @ s) (rr_domain_regex r)"

definition rules_routed_to :: "int \<Rightarrow> routeProfile \<Rightarrow> routeRule list" where
  "rules_routed_to i P = filter (\<lambda>r. rr_outboundID r = i \<and> rr_action r = ''route'') (rt_Rules P)"

definition get_direct_sites :: "routeProfile \<Rightarrow> string list" where
  "get_direct_sites P = concat (map site_lines (rules_routed_to directID P))"

definition get_proxy_sites :: "routeProfile \<Rightarrow> string list" where
  "get_proxy_sites P = concat (map site_lines (rules_routed_to proxyID P))"

definition get_direct_ips :: "routeProfile \<Rightarrow> string list" where
  "get_direct_ips P = concat (map (\<lambda>r.
     map (\<lambda>s. ''ruleset:'' @ s) (filter (\<lambda>s. starts_with s ''geoip-'') (rr_rule_set r))
     @ map (\<lambda>s. ''ip:'' @ s) (rr_ip_cidr r)) (rules_routed_to directID P))"

definition get_hijacked_ips :: "'z routing_env_scheme \<Rightarrow> routeProfile \<Rightarrow> string list" where
  "get_hijacked_ips E P = concat (map (\<lambda>r.
     if rr_action r = ''route'' \<and> rr_outboundID r = directID then []
     else if rr_action r \<noteq> ''route'' \<and> rr_action r \<noteq> ''reject'' then []
     else (if rr_ip_is_private r then re_vpn_private_ranges E else []) @ rr_ip_cidr r) (rt_Rules P))"

fun profile_isEmpty_loop :: "'z route_env_scheme \<Rightarrow> routeRule list \<Rightarrow> bool \<times> routeRule list" where
  "profile_isEmpty_loop E [] = (True, [])"
| "profile_isEmpty_loop E (r # rs) =
     (case rule_isEmpty E r of (e, r') \<Rightarrow>
        if \<not> e then (False, r' # rs)
        else (case profile_isEmpty_loop E rs of (b, rs') \<Rightarrow> (b, r' # rs')))"

definition profile_IsEmpty :: "'z routing_env_scheme \<Rightarrow> routeProfile \<Rightarrow> bool \<times> routeProfile" where
  "profile_IsEmpty E P =
     (if rt_isRaw P then (qt_trimmed E (rt_rawRoute P) = [], P)
      else case profile_isEmpty_loop E (rt_Rules P) of
        (b, rs) \<Rightarrow> (b, P\<lparr>rt_Rules := rs\<rparr>))"

definition ResetRules :: "routeProfile \<Rightarrow> routeProfile" where
  "ResetRules P = P\<lparr>rt_Rules := []\<rparr>"

subsection \<open>A concrete instance\<close>

text \<open>For 7-bit text, two profiles and ad blocking; the witnesses run on it.\<close>

definition demo_profile :: "int \<Rightarrow> string \<Rightarrow> profile" where
  "demo_profile i nm = new_profile\<lparr>pr_id := i, pr_name := nm, pr_type := ''openvpn'',
     pr_outbound := Some \<lparr>ob_name = nm, ob_address = ''198.51.100.1:443'', ob_class = OtherOb\<rparr>\<rparr>"

definition demo_profiles :: profiles where
  "demo_profiles = [7 \<mapsto> demo_profile 7 ''Tokyo'', 8 \<mapsto> demo_profile 8 ''Oslo'']"

definition demo_names :: "string \<Rightarrow> profile option" where
  "demo_names = [''Tokyo'' \<mapsto> demo_profile 7 ''Tokyo'', ''Oslo'' \<mapsto> demo_profile 8 ''Oslo'']"

definition demo_routing :: routing_env where
  "demo_routing = \<lparr>qt_trimmed = ascii_trim, qt_upper = map ascii_up, qt_lower = map ascii_low,
     qt_fold = map ascii_low, qt_int = ascii_int, qt_longlong = ascii_int,
     qt_utf8 = map (\<lambda>c. word_of_nat (of_char c)), qt_from_utf8 = map (\<lambda>b. char_of (unat b)),
     ro_profile = demo_profiles, ro_byName = demo_names, ro_ruleSetName = (\<lambda>s. s), ro_os = Linux,
     re_adblock_enable = True, re_vpn_private_ranges = [''10.0.0.0/8''],
     re_text2object = (\<lambda>_. []), re_object2text = (\<lambda>_. ''{}'')\<rparr>"

end
