(* ===== verification/RouteShare.thy ===== *)
theory RouteShare
  imports RouteProfile
begin

text \<open>
  Sharing a routing profile, \<^verbatim>\<open>src/database/entities/RouteProfile.cpp\<close> lines 242 to 630: the share
  object and its link, the parser that accepts every shared form, and the endpoints that travel as
  whole configurations and are adopted as local profiles. What a protocol does with its own
  configuration (parse, export, identity, stripping credentials) is virtual in the code and a
  parameter here, as are base64, URLs and JSON as text. Profiles live in a \<open>shelf\<close>, which adoption
  extends.
\<close>

subsection \<open>The profile shelf\<close>

text \<open>Profiles by id, the ids in ascending order, the last id handed out, whether the current group exists.\<close>

record shelf =
  sf_profiles :: profiles
  sf_ids :: "int list"
  sf_last_id :: int
  sf_gid :: int
  sf_group_exists :: bool

definition GetProfileByName :: "shelf \<Rightarrow> string \<Rightarrow> profile option" where
  "GetProfileByName sf name =
     Option.bind (find (\<lambda>i. map_option pr_name (sf_profiles sf i) = Some name) (sf_ids sf)) (sf_profiles sf)"

definition GetProfileIdsByType :: "shelf \<Rightarrow> string \<Rightarrow> int list" where
  "GetProfileIdsByType sf t = filter (\<lambda>i. map_option pr_type (sf_profiles sf i) = Some t) (sf_ids sf)"

text \<open>The row is written before the group is looked up. Without the group the foreign key refuses the row:
  the id is used up, nothing is stored and the call fails.\<close>

definition repo_AddProfile :: "profile \<Rightarrow> shelf \<Rightarrow> bool \<times> profile \<times> shelf" where
  "repo_AddProfile p sf =
     (if 0 \<le> pr_id p then (False, p, sf)
      else let i = sf_last_id sf + 1; p = p\<lparr>pr_id := i, pr_gid := sf_gid sf\<rparr>
        in if sf_group_exists sf then
             (True, p, sf\<lparr>sf_profiles := (sf_profiles sf)(i \<mapsto> p), sf_ids := sf_ids sf @ [i], sf_last_id := i\<rparr>)
           else (False, p, sf\<lparr>sf_last_id := i\<rparr>))"

definition Chain :: "profile \<Rightarrow> int list option" where
  "Chain p = (case pr_outbound p of
     Some ob \<Rightarrow> (case ob_class ob of ChainOb l \<Rightarrow> Some l | _ \<Rightarrow> None)
   | None \<Rightarrow> None)"

definition put_chain :: "int list \<Rightarrow> profile \<Rightarrow> profile" where
  "put_chain l p = p\<lparr>pr_outbound := map_option (\<lambda>ob. ob\<lparr>ob_class := ChainOb l\<rparr>) (pr_outbound p)\<rparr>"

text \<open>The stored list starts at the entry; unwrapped it starts at the exit.\<close>

definition unwrapChain :: "profiles \<Rightarrow> int \<Rightarrow> int list" where
  "unwrapChain P i =
     (case P i of
        None \<Rightarrow> []
      | Some p \<Rightarrow>
          if pr_type p = ''chain'' then (case Chain p of None \<Rightarrow> [] | Some l \<Rightarrow> rev l) else [i])"

definition is_vpn :: "profile \<Rightarrow> bool" where
  "is_vpn p \<longleftrightarrow> pr_type p = ''openvpn'' \<or> pr_type p = ''openconnect''"

definition CanBeAuxEndpoint :: "profiles \<Rightarrow> profile option \<Rightarrow> bool" where
  "CanBeAuxEndpoint P ent =
     (case ent of
        None \<Rightarrow> False
      | Some p \<Rightarrow>
          if pr_outbound p = None then False
          else if is_vpn p then True
          else if pr_type p \<noteq> ''chain'' then False
          else (case unwrapChain P (pr_id p) of
             [] \<Rightarrow> False
           | e # _ \<Rightarrow> (case P e of None \<Rightarrow> False | Some q \<Rightarrow> is_vpn q)))"

record share_env = routing_env +
  sh_label :: "profile \<Rightarrow> string" \<comment> \<open>\<^verbatim>\<open>DisplayTypeAndName\<close>\<close>
  sh_strippable :: "profile \<Rightarrow> bool" \<comment> \<open>\<^verbatim>\<open>SupportsCredentialStrip\<close>\<close>
  sh_new :: "string \<Rightarrow> profile option" \<comment> \<open>\<^verbatim>\<open>NewProfile\<close>; none without a valid outbound\<close>
  sh_parse :: "jobject \<Rightarrow> profile \<Rightarrow> profile" \<comment> \<open>\<^verbatim>\<open>ParseFromJson\<close>\<close>
  sh_export :: "profile \<Rightarrow> jobject" \<comment> \<open>\<^verbatim>\<open>ExportToJson\<close>\<close>
  sh_strip :: "profile \<Rightarrow> profile" \<comment> \<open>\<^verbatim>\<open>StripCredentials\<close>\<close>
  sh_identity :: "profile \<Rightarrow> jobject" \<comment> \<open>\<^verbatim>\<open>ExportIdentity\<close>\<close>
  sh_compact :: "jobject \<Rightarrow> bytes" \<comment> \<open>\<^verbatim>\<open>toJson(Compact)\<close>\<close>
  sh_fromJson :: "bytes \<Rightarrow> json" \<comment> \<open>\<^verbatim>\<open>QJsonDocument::fromJson\<close>; null when it is no JSON\<close>
  sh_base64url :: "bytes \<Rightarrow> string"
  sh_unbase64url :: "bytes \<Rightarrow> bytes"
  sh_unbase64 :: "bytes \<Rightarrow> bytes"
  sh_url_path :: "string \<Rightarrow> string option" \<comment> \<open>the path of a valid URL\<close>
  sh_decodeB64 :: "string \<Rightarrow> string" \<comment> \<open>\<^verbatim>\<open>DecodeB64IfValid\<close>\<close>
  sh_url :: "string \<Rightarrow> (string \<times> string \<times> string) option" \<comment> \<open>without fragment, fragment, host\<close>

text \<open>The lookups of rules go to the shelf as it is at that moment.\<close>

definition on_shelf :: "shelf \<Rightarrow> 'z share_env_scheme \<Rightarrow> 'z share_env_scheme" where
  "on_shelf sf E = E\<lparr>ro_profile := sf_profiles sf, ro_byName := GetProfileByName sf\<rparr>"

subsection \<open>Rules\<close>

definition appendWarning :: "string \<Rightarrow> string \<Rightarrow> string" where
  "appendWarning w msg = w @ msg @ line_end"

definition outbound_from_json :: "'z route_env_scheme \<Rightarrow> json \<Rightarrow> routeRule \<times> string \<Rightarrow> routeRule \<times> string" where
  "outbound_from_json E v = (\<lambda>(rule, w). (case v of
     JNum _ \<Rightarrow>
       (let i = to_int 0 v in
        if isOutboundIDValid E i then (rule\<lparr>rr_outboundID := i\<rparr>, w)
        else (rule\<lparr>rr_outboundID := proxyID\<rparr>,
          appendWarning w (''outbound id '' @ number i @ '' not found, using proxy'')))
   | JStr s \<Rightarrow>
       (let i = getOutboundID E s in
        if i \<noteq> INVALID_ID then (rule\<lparr>rr_outboundID := i\<rparr>, w)
        else (rule\<lparr>rr_outboundID := proxyID\<rparr>,
          appendWarning w (''outbound \"'' @ s @ ''\" not found, using proxy'')))
   | _ \<Rightarrow> (rule, w)))"

text \<open>The strings a value stands for, when it is an array, a string or a truth value.\<close>

definition value_strings :: "json \<Rightarrow> string list option" where
  "value_strings v = (case v of
     JArr xs \<Rightarrow> Some (QJsonArray2QListString xs)
   | JStr s \<Rightarrow> Some [s]
   | JBool b \<Rightarrow> Some [if b then ''true'' else ''false'']
   | _ \<Rightarrow> None)"

definition parse_member :: "'z route_env_scheme \<Rightarrow> string \<times> json \<Rightarrow> routeRule \<times> string \<Rightarrow> (routeRule \<times> string) option" where
  "parse_member E = (\<lambda>(k, v) (rule, w).
     if k = ''name'' \<or> k = ''type'' then Some (rule, w)
     else if k = ''outbound'' then Some (outbound_from_json E v (rule, w))
     else case value_strings v of
       None \<Rightarrow> Some (rule, w)
     | Some ss \<Rightarrow> map_option (\<lambda>r. (r, w)) (set_field_value E k ss rule))"

fun parse_rule_members :: "'z route_env_scheme \<Rightarrow> (string \<times> json) list \<Rightarrow> routeRule \<times> string \<Rightarrow> (routeRule \<times> string) option" where
  "parse_rule_members E [] st = Some st"
| "parse_rule_members E (m # ms) st = Option.bind (parse_member E m st) (parse_rule_members E ms)"

text \<open>\<open>None\<close> is the failed access of \<open>set_field_value\<close> to an empty list.\<close>

definition parse_rule_object :: "'z route_env_scheme \<Rightarrow> jobject \<Rightarrow> string \<Rightarrow> (routeRule \<times> string) option" where
  "parse_rule_object E ob w = parse_rule_members E ob (new_rule, w)"

text \<open>The type number of a \<^verbatim>\<open>QJsonValue\<close>, shown in an error.\<close>

definition json_type :: "json \<Rightarrow> int" where
  "json_type v = (case v of JNull \<Rightarrow> 0 | JBool _ \<Rightarrow> 1 | JNum _ \<Rightarrow> 2 | JStr _ \<Rightarrow> 3 | JArr _ \<Rightarrow> 4
     | JObj _ \<Rightarrow> 5 | JUndefined \<Rightarrow> 128)"

text \<open>The rules of a bare array, the error text, the warnings.\<close>

fun parse_array_items ::
    "'z route_env_scheme \<Rightarrow> int \<Rightarrow> routeRule list \<Rightarrow> string \<Rightarrow> json list \<Rightarrow> (routeRule list \<times> string \<times> string) option" where
  "parse_array_items E n acc w [] = Some (rev acc, [], w)"
| "parse_array_items E n acc w (v # vs) =
     (case v of
        JObj ro \<Rightarrow>
          (case parse_rule_object E ro w of
             None \<Rightarrow> None
           | Some (rule, w) \<Rightarrow>
               let nm = to_str [] (jget ro ''name'') in
               if nm = [] then
                 parse_array_items E (n + 1) (rule\<lparr>rr_name := ''imported rule #'' @ number n\<rparr> # acc) w vs
               else parse_array_items E n (rule\<lparr>rr_name := nm\<rparr> # acc) w vs)
      | _ \<Rightarrow> Some ([], ''expected array of json objects but have member of type '' @ [CHR 0x27]
          @ number (json_type v) @ [CHR 0x27], w))"

definition parseJsonArray :: "'z route_env_scheme \<Rightarrow> json list \<Rightarrow> string \<Rightarrow> (routeRule list \<times> string \<times> string) option" where
  "parseJsonArray E arr w =
     (if arr = [] then Some ([], ''Input is not a valid json array'', w)
      else parse_array_items E 1 [] w arr)"

subsection \<open>Endpoints on the way out\<close>

definition routeProfileStrippedConfig :: "'z share_env_scheme \<Rightarrow> profile \<Rightarrow> jobject" where
  "routeProfileStrippedConfig E ent =
     (case sh_new E (pr_type ent) of
        None \<Rightarrow> []
      | Some c \<Rightarrow> sh_export E (sh_strip E (sh_parse E (sh_export E ent) c)))"

definition config_entry :: "'z share_env_scheme \<Rightarrow> profile \<Rightarrow> (string \<times> json) list" where
  "config_entry E p = [(''id'', jint (pr_id p)), (''config'', JObj (routeProfileStrippedConfig E p))]"

definition usable :: "profiles \<Rightarrow> int \<Rightarrow> profile option" where
  "usable P i = (case P i of Some p \<Rightarrow> if pr_outbound p = None then None else Some p | None \<Rightarrow> None)"

definition routeProfileEndpointToJson :: "'z share_env_scheme \<Rightarrow> int \<Rightarrow> string \<Rightarrow> jobject \<times> string" where
  "routeProfileEndpointToJson E i w =
     (case usable (ro_profile E) i of
        None \<Rightarrow> ([], appendWarning w (''endpoint profile id '' @ number i @ '' no longer exists, not shared''))
      | Some ent \<Rightarrow>
          (let hops = (case Chain ent of None \<Rightarrow> [] | Some l \<Rightarrow> List.map_filter (usable (ro_profile E)) l)
           in if (case Chain ent of None \<Rightarrow> False | Some l \<Rightarrow> hops = [] \<or> length hops \<noteq> length l)
              then ([], appendWarning w (''endpoint '' @ sh_label E ent @ '' has missing hops, not shared''))
              else if \<not> sh_strippable E ent \<or> \<not> list_all (sh_strippable E) hops
              then ([], appendWarning w (''endpoint '' @ sh_label E ent
                     @ '' uses a protocol whose credentials cannot be cleared, not shared''))
              else (jbuild ([(''id'', jint i), (''config'', JObj (routeProfileStrippedConfig E ent))]
                     @ (if hops = [] then [] else
                          [(''hops'', JArr (map (\<lambda>h. JObj (jbuild (config_entry E h))) hops))])), w)))"

definition routeProfileEndpointsToJson :: "'z share_env_scheme \<Rightarrow> int list \<Rightarrow> string \<Rightarrow> json list \<times> string" where
  "routeProfileEndpointsToJson E ids w =
     fold (\<lambda>i (arr, w). case routeProfileEndpointToJson E i w of
        (entry, w) \<Rightarrow> (if entry = [] then arr else arr @ [JObj entry], w)) ids ([], w)"

subsection \<open>Endpoints on the way in\<close>

definition same_identity :: "'z share_env_scheme \<Rightarrow> profile \<Rightarrow> profile \<Rightarrow> bool" where
  "same_identity E p q \<longleftrightarrow> pr_type p @ ''|'' @ qt_from_utf8 E (sh_compact E (sh_identity E p))
     = pr_type q @ ''|'' @ qt_from_utf8 E (sh_compact E (sh_identity E q))"

definition routeProfileMatchLocal :: "'z share_env_scheme \<Rightarrow> shelf \<Rightarrow> profile \<Rightarrow> int" where
  "routeProfileMatchLocal E sf candidate =
     (case find (\<lambda>i. case usable (sf_profiles sf) i of None \<Rightarrow> False | Some ent \<Rightarrow> same_identity E ent candidate)
        (GetProfileIdsByType sf (pr_type candidate)) of
        Some i \<Rightarrow> i | None \<Rightarrow> -1)"

text \<open>The id of the local profile for a shared configuration, or -1.\<close>

definition routeProfileAdoptConfig ::
    "'z share_env_scheme \<Rightarrow> jobject \<Rightarrow> (int \<Rightarrow> int option) \<Rightarrow> shelf \<times> string \<Rightarrow> int \<times> shelf \<times> string" where
  "routeProfileAdoptConfig E config hopMap = (\<lambda>(sf, w).
     (let t = to_str [] (jget config ''type'') in
      case sh_new E t of
        None \<Rightarrow> (-1, sf, appendWarning w (''shared endpoint uses unknown protocol \"'' @ t @ ''\", dropped''))
      | Some fresh \<Rightarrow>
          (let ent = sh_parse E config fresh;
               mapped = (case Chain ent of
                  None \<Rightarrow> Some ent
                | Some l \<Rightarrow> if list_all (\<lambda>h. hopMap h \<noteq> None) l then Some (put_chain (map (the \<circ> hopMap) l) ent)
                            else None)
           in case mapped of
                None \<Rightarrow> (-1, sf, w)
              | Some ent \<Rightarrow>
                  if 0 \<le> routeProfileMatchLocal E sf ent then (routeProfileMatchLocal E sf ent, sf, w)
                  else (case repo_AddProfile ent sf of
                    (ok, ent', sf') \<Rightarrow>
                      if \<not> ok then (-1, sf', appendWarning w (''could not create endpoint profile \"''
                          @ (case pr_outbound ent' of Some ob \<Rightarrow> DisplayName ob | None \<Rightarrow> []) @ ''\"''))
                      else (pr_id ent', sf', appendWarning w (''created endpoint profile '' @ sh_label E ent'))))))"

fun adopt_hops ::
    "'z share_env_scheme \<Rightarrow> json list \<Rightarrow> (int \<Rightarrow> int option) \<Rightarrow> shelf \<times> string \<Rightarrow> (int \<Rightarrow> int option) option \<times> shelf \<times> string" where
  "adopt_hops E [] hopMap st = (Some hopMap, st)"
| "adopt_hops E (item # items) hopMap st =
     (let hop = to_obj item; original = to_int INVALID_ID (jget hop ''id'');
          (local, st) = (if original = INVALID_ID then (-1, st)
                         else routeProfileAdoptConfig E (to_obj (jget hop ''config'')) Map.empty st)
      in if local < 0 then
           (None, fst st, appendWarning (snd st) ''a shared endpoint chain has an unusable hop, dropped'')
         else adopt_hops E items (hopMap(original \<mapsto> local)) st)"

definition routeProfileAdoptEndpoint :: "'z share_env_scheme \<Rightarrow> jobject \<Rightarrow> shelf \<times> string \<Rightarrow> int \<times> shelf \<times> string" where
  "routeProfileAdoptEndpoint E entry st =
     (case adopt_hops E (to_arr (jget entry ''hops'')) Map.empty st of
        (None, st) \<Rightarrow> (-1, st)
      | (Some hopMap, st) \<Rightarrow> routeProfileAdoptConfig E (to_obj (jget entry ''config'')) hopMap st)"

text \<open>The local endpoint ids, and where each shared id went.\<close>

record endpoint_import =
  ei_ids :: "int list"
  ei_map :: "int \<Rightarrow> int option"
  ei_shelf :: shelf
  ei_warnings :: string

definition original_id :: "json \<Rightarrow> int" where
  "original_id item = (if is_double item then to_int INVALID_ID item
     else if is_object item then to_int INVALID_ID (jget (to_obj item) ''id'') else INVALID_ID)"

definition local_id :: "'z share_env_scheme \<Rightarrow> json \<Rightarrow> shelf \<times> string \<Rightarrow> int \<times> shelf \<times> string" where
  "local_id E item st =
     (if is_double item then (original_id item, st)
      else if is_object item \<and> original_id item \<noteq> INVALID_ID then routeProfileAdoptEndpoint E (to_obj item) st
      else (-1, st))"

definition import_endpoint :: "'z share_env_scheme \<Rightarrow> bool \<Rightarrow> json \<Rightarrow> endpoint_import \<Rightarrow> endpoint_import" where
  "import_endpoint E materialize item ei =
     (if is_object item \<and> \<not> materialize then ei
      else case local_id E item (ei_shelf ei, ei_warnings ei) of (localID, sf, w) \<Rightarrow>
        (let ei = ei\<lparr>ei_shelf := sf, ei_warnings := w\<rparr> in
         if original_id item = INVALID_ID \<or> localID < 0 \<or> localID \<in> set (ei_ids ei) then ei
         else if \<not> CanBeAuxEndpoint (sf_profiles sf) (sf_profiles sf localID) then
           ei\<lparr>ei_warnings := appendWarning w
             (''endpoint profile id '' @ number (original_id item) @ '' not usable here, dropped'')\<rparr>
         else ei\<lparr>ei_ids := ei_ids ei @ [localID], ei_map := (ei_map ei)(original_id item \<mapsto> localID)\<rparr>))"

definition routeProfileEndpointsFromJson :: "'z share_env_scheme \<Rightarrow> bool \<Rightarrow> json list \<Rightarrow> shelf \<Rightarrow> string \<Rightarrow> endpoint_import" where
  "routeProfileEndpointsFromJson E materialize arr sf w =
     fold (import_endpoint E materialize) arr \<lparr>ei_ids = [], ei_map = Map.empty, ei_shelf = sf, ei_warnings = w\<rparr>"

subsection \<open>The share object\<close>

definition shared_rule :: "'z route_env_scheme \<Rightarrow> int set \<Rightarrow> routeRule \<Rightarrow> json list \<times> routeRule" where
  "shared_rule E endpoints r =
     (if rr_type r \<noteq> CustomRule \<and> fst (rule_isEmpty E r) then ([], r)
      else if rr_type r = EndpointPreferredBy \<and> rr_outboundID r \<notin> endpoints then ([], r)
      else case to_share_json E r of (ob, r') \<Rightarrow> (if ob = [] then [] else [JObj ob], r'))"

definition outbound_names :: "'z route_env_scheme \<Rightarrow> int list \<Rightarrow> jobject" where
  "outbound_names E ids = jbuild (concat (map (\<lambda>i.
     if i < 0 then [] else case ro_profile E i of None \<Rightarrow> [] | Some p \<Rightarrow> [(number i, JStr (pr_name p))]) ids))"

definition ToShareObject :: "'z share_env_scheme \<Rightarrow> string \<Rightarrow> routeProfile \<Rightarrow> jobject \<times> string \<times> routeProfile" where
  "ToShareObject E w P =
     (let head = [(''kind'', JStr ''quattro-route-profile''), (''v'', jint 1), (''name'', JStr (rt_name P))];
          (endpointsArr, w) = (if rt_endpointProfileIDs P = [] then ([], w)
            else routeProfileEndpointsToJson E (rt_endpointProfileIDs P) w);
          endpoints = (if endpointsArr = [] then [] else [(''endpoints'', JArr endpointsArr)])
      in if rt_isRaw P then
           (let routeObj = re_text2object E (rt_rawRoute P) in
            (jbuild (head @ endpoints
               @ [(''raw'', JBool True), (''prevent_modifications'', JBool (rt_preventModifications P)),
                  (''route'', JObj routeObj),
                  (''outbound_names'', JObj (outbound_names E (CollectRawOutboundIds routeObj)))]), w, P))
         else
           (let sharedEndpoints = set (map (\<lambda>e. to_int INVALID_ID (jget (to_obj e) ''id'')) endpointsArr);
                shared = map (shared_rule E sharedEndpoints) (rt_Rules P)
            in (jbuild (head @ endpoints
                  @ [(''default_outbound'', JStr (outboundIDToString (rt_defaultOutboundID P))),
                     (''rules'', JArr (concat (map fst shared)))]), w, P\<lparr>rt_Rules := map snd shared\<rparr>)))"

definition route_link :: string where "route_link = ''quattro://route/''"

definition ToShareLink :: "'z share_env_scheme \<Rightarrow> string \<Rightarrow> routeProfile \<Rightarrow> string \<times> string \<times> routeProfile" where
  "ToShareLink E w P = (case ToShareObject E w P of
     (ob, w, P') \<Rightarrow> (route_link @ sh_base64url E (sh_compact E ob), w, P'))"

subsection \<open>The parser of shared forms\<close>

text \<open>A fatal error, or a profile and whether the input was a bare array; then warnings and the shelf.\<close>

type_synonym share_result = "(string + (routeProfile \<times> bool)) \<times> string \<times> shelf"

text \<open>The payload of a link, or the input itself.\<close>

definition share_payload :: "'z share_env_scheme \<Rightarrow> string \<Rightarrow> string + string" where
  "share_payload E input =
     (let text = qt_trimmed E input in
      if text = [] then Inl ''Empty input''
      else if starts_with_ci E text route_link then
        (case sh_url_path E text of
           None \<Rightarrow> Inl ''Deep link is invalid''
         | Some path \<Rightarrow> if drop 1 path = [] then Inl ''Deep link has no data'' else Inr (drop 1 path))
      else Inr text)"

definition share_document :: "'z share_env_scheme \<Rightarrow> string \<Rightarrow> json" where
  "share_document E text =
     (let doc = sh_fromJson E (qt_utf8 E text) in
      if doc \<noteq> JNull then doc
      else let doc = sh_fromJson E (sh_unbase64url E (qt_utf8 E text)) in
        if doc \<noteq> JNull then doc else sh_fromJson E (sh_unbase64 E (qt_utf8 E text)))"

fun parse_shared_rules ::
    "'z route_env_scheme \<Rightarrow> (int \<Rightarrow> int option) \<Rightarrow> int \<Rightarrow> routeRule list \<Rightarrow> string \<Rightarrow> json list \<Rightarrow>
      (routeRule list \<times> string) option" where
  "parse_shared_rules E idMap n acc w [] = Some (rev acc, w)"
| "parse_shared_rules E idMap n acc w (v # vs) =
     (if \<not> is_object v then parse_shared_rules E idMap n acc w vs
      else let ro = to_obj v; t = tokenToRuleType (to_str [] (jget ro ''type'')) in
        case parse_rule_object E ro w of
          None \<Rightarrow> None
        | Some (rule, w') \<Rightarrow>
            (let rule = rule\<lparr>rr_type := t\<rparr>;
                 rule = (if t = EndpointPreferredBy then rule\<lparr>rr_outboundID :=
                     (case idMap (to_int INVALID_ID (jget ro ''outbound'')) of Some i \<Rightarrow> i | None \<Rightarrow> INVALID_ID)\<rparr>
                   else rule);
                 w = (if t = EndpointPreferredBy then w else w');
                 nm = to_str [] (jget ro ''name'')
             in if nm = [] then
                  parse_shared_rules E idMap (n + 1) (rule\<lparr>rr_name := ''rule_'' @ number n\<rparr> # acc) w vs
                else parse_shared_rules E idMap n (rule\<lparr>rr_name := nm\<rparr> # acc) w vs))"

definition import_raw :: "'z share_env_scheme \<Rightarrow> bool \<Rightarrow> jobject \<Rightarrow> shelf \<Rightarrow> string \<Rightarrow> share_result" where
  "import_raw E materialize doc sf w =
     (let ei = routeProfileEndpointsFromJson E materialize (to_arr (jget doc ''endpoints'')) sf w;
          (routeObj, w) = remapRawOutboundsByName (on_shelf (ei_shelf ei) E) (to_obj (jget doc ''route''))
            (to_obj (jget doc ''outbound_names'')) (ei_warnings ei)
      in (Inr (new_routeProfile\<lparr>rt_isRaw := True, rt_name := to_str [] (jget doc ''name''),
            rt_preventModifications := to_bool False (jget doc ''prevent_modifications''),
            rt_endpointProfileIDs := ei_ids ei, rt_rawRoute := re_object2text E routeObj\<rparr>, False),
          w, ei_shelf ei))"

definition import_structured :: "'z share_env_scheme \<Rightarrow> bool \<Rightarrow> jobject \<Rightarrow> shelf \<Rightarrow> string \<Rightarrow> share_result option" where
  "import_structured E materialize doc sf w =
     (let ei = routeProfileEndpointsFromJson E materialize (to_arr (jget doc ''endpoints'')) sf w;
          E = on_shelf (ei_shelf ei) E
      in map_option (\<lambda>(rules, w).
           (Inr (SyncEndpointRules E (new_routeProfile\<lparr>rt_name := to_str [] (jget doc ''name''),
               rt_defaultOutboundID := stringToOutboundID (to_str [] (jget doc ''default_outbound'')),
               rt_endpointProfileIDs := ei_ids ei, rt_Rules := rules\<rparr>), False), w, ei_shelf ei))
         (parse_shared_rules E (ei_map ei) 1 [] (ei_warnings ei) (to_arr (jget doc ''rules''))))"

definition FromShareInput :: "'z share_env_scheme \<Rightarrow> bool \<Rightarrow> string \<Rightarrow> shelf \<Rightarrow> string \<Rightarrow> share_result option" where
  "FromShareInput E materialize input sf w =
     (case share_payload E input of
        Inl e \<Rightarrow> Some (Inl e, w, sf)
      | Inr text \<Rightarrow> (case share_document E text of
          JNull \<Rightarrow> Some (Inl ''Input is not valid JSON, base64, or a Quattro route link'', w, sf)
        | JObj doc \<Rightarrow>
            if to_str [] (jget doc ''kind'') \<noteq> ''quattro-route-profile'' then Some (Inl ''Unrecognized route object'', w, sf)
            else if to_bool False (jget doc ''raw'') then Some (import_raw E materialize doc sf w)
            else import_structured E materialize doc sf w
        | JArr arr \<Rightarrow>
            map_option (\<lambda>(rules, e, w).
                (if e \<noteq> [] then Inl e else Inr (new_routeProfile\<lparr>rt_Rules := rules\<rparr>, True), w, sf))
              (parseJsonArray (on_shelf sf E) arr w)
        | _ \<Rightarrow> Some (Inl ''Unsupported input'', w, sf)))"

subsection \<open>Links to remote profiles\<close>

definition remote_link :: string where "remote_link = ''quattro://remoteroute/''"

definition is_http :: "'z qt_text_scheme \<Rightarrow> string \<Rightarrow> bool" where
  "is_http Q s \<longleftrightarrow> starts_with_ci Q s ''http://'' \<or> starts_with_ci Q s ''https://''"

definition remote_profile :: "'z share_env_scheme \<Rightarrow> string \<Rightarrow> routeProfile list" where
  "remote_profile E line =
     (let eurl = qt_trimmed E line in
      if \<not> is_http E eurl then []
      else case sh_url E eurl of
        None \<Rightarrow> []
      | Some (url, fragment, host) \<Rightarrow>
          [new_routeProfile\<lparr>rt_isRemote := True, rt_remoteURL := url,
             rt_name := (if fragment = [] then host else fragment)\<rparr>])"

text \<open>The profiles, whether the input was such a link, the error.\<close>

definition FromRemoteRoutesLink :: "'z share_env_scheme \<Rightarrow> string \<Rightarrow> routeProfile list \<times> bool \<times> string option" where
  "FromRemoteRoutesLink E input =
     (let text = qt_trimmed E input in
      if \<not> starts_with_ci E text remote_link then ([], False, None)
      else case sh_url_path E text of
        None \<Rightarrow> ([], True, Some ''Deep link is invalid'')
      | Some path \<Rightarrow>
          if drop 1 path = [] then ([], True, Some ''Deep link has no data'')
          else let data = sh_decodeB64 E (drop 1 path) in
            if data = [] then ([], True, Some ''Base64 is invalid.'')
            else let res = concat (map (remote_profile E) (split_skip_empty (hd line_end) data)) in
              (res, True, if res = [] then Some ''The link did not contain any valid http(s) routing profile URLs.'' else None))"

end
