(* ===== verification/GenContext.thy ===== *)
theory GenContext
  imports AutoSelectorPlan RouteShare
begin

text \<open>
  The state of one configuration build, \<^verbatim>\<open>src/configs/generate.cpp\<close> lines 42 to 554: the tags, the
  build context and the result it fills, selector lists, the fragments of JSON that several sections
  share, and the questions asked of a profile. Settings and repositories are read only during a
  build and belong to the environment, with everything the code takes from Qt or the operating
  system: what a protocol emits for itself (virtual), the free ports of the \<open>n\<close>-th probe, the
  \<open>n\<close>-th random text.
\<close>

subsection \<open>The environment\<close>

record gen_settings =
  gs_spmode_vpn :: bool
  gs_vpn_l3_bridge :: bool
  gs_enable_warp :: bool
  gs_warp_private_key :: string
  gs_warp_public_key :: string
  gs_warp_ep :: string
  gs_warp_ifc_addrs :: "string list"
  gs_warp_reserved :: "string list"
  gs_enable_dns_routing :: bool
  gs_enable_dns_server :: bool
  gs_dns_server_rules :: "string list"
  gs_test_latency_url :: string
  gs_resolve_domain_strategy :: string
  gs_default_domain_strategy :: string
  gs_enable_redirect :: bool
  gs_enable_stats :: bool
  gs_log_level :: string
  gs_xray_log_level :: string
  gs_clash_api_port :: int
  gs_clash_listen_addr :: string
  gs_clash_secret :: string
  gs_api_port :: int
  gs_api_secret :: string

text \<open>A plan is made anew for each of these purposes, each time at its own moment.\<close>

datatype plan_use = PlanForCore | PlanForDomains int | PlanForGroup | PlanForValidity

record gen_env = routing_env +
  ge_settings :: gen_settings
  ge_route :: "routeProfile option" \<comment> \<open>\<^verbatim>\<open>GetRouteProfile(current_route_id)\<close>\<close>
  ge_groups :: groups
  ge_plan_env :: plan_env
  ge_plan_clock :: "plan_use \<Rightarrow> int \<times> int"
  ge_now :: int \<comment> \<open>\<^verbatim>\<open>currentSecsSinceEpoch\<close> when the group is built\<close>
  ge_wg :: wg_env
  ge_build :: "profile \<Rightarrow> jobject \<times> string" \<comment> \<open>\<^verbatim>\<open>Build\<close> of the other protocols\<close>
  ge_buildXray :: "profile \<Rightarrow> jobject \<times> string"
  ge_address :: "outbound \<Rightarrow> string" \<comment> \<open>\<^verbatim>\<open>GetAddress\<close> of the other protocols\<close>
  ge_label :: "outbound \<Rightarrow> string" \<comment> \<open>\<^verbatim>\<open>DisplayTypeAndName\<close>\<close>
  ge_is_ip :: "string \<Rightarrow> bool"
  ge_ports :: "nat \<Rightarrow> nat \<Rightarrow> string \<Rightarrow> int list" \<comment> \<open>\<open>MkManyPorts\<close>: probe, count, address\<close>
  ge_random :: "nat \<Rightarrow> string"
  ge_extraCore :: "profile \<Rightarrow> (string \<times> string \<times> string \<times> bool) option" \<comment> \<open>canonical path, arguments, configuration, silent\<close>
  ge_resolved :: bool \<comment> \<open>systemd-resolved is the default resolver\<close>
  ge_bridgeable :: bool \<comment> \<open>not Windows on ARM\<close>

abbreviation profile_of :: "'z gen_env_scheme \<Rightarrow> int \<Rightarrow> profile option" where
  "profile_of E \<equiv> ro_profile E"

definition plan_for :: "'z gen_env_scheme \<Rightarrow> plan_use \<Rightarrow> profile \<Rightarrow> plan" where
  "plan_for E u ent = fst (PlanAutoSelector (ge_plan_env E) (ro_profile E) (ge_groups E)
     (fst (ge_plan_clock E u)) (snd (ge_plan_clock E u)) (Some ent))"

definition warpProfileID :: int where "warpProfileID = -2408"

subsection \<open>Tags\<close>

definition tag_proxy :: string where "tag_proxy = ''proxy''"
definition tag_direct :: string where "tag_direct = ''direct''"
definition tag_warpBypass :: string where "tag_warpBypass = ''warp-bypass''"
definition tag_l3Direct :: string where "tag_l3Direct = ''l3-direct''"
definition tag_dnsDirect :: string where "tag_dnsDirect = ''dns-direct''"
definition tag_dnsIn :: string where "tag_dnsIn = ''dns-in''"
definition tag_mixedIn :: string where "tag_mixedIn = ''mixed-in''"
definition tag_tunIn :: string where "tag_tunIn = ''tun-in''"
definition tag_redirectIn :: string where "tag_redirectIn = ''hijack''"
definition tag_xrayFullConfigIn :: string where "tag_xrayFullConfigIn = ''quattro-bridge''"
definition tag_adblockRuleSet :: string where "tag_adblockRuleSet = ''quattro-adblocksingbox''"

definition mainChainPrefix :: string where "mainChainPrefix = ''config''"
definition routeChainPrefix :: string where "routeChainPrefix = ''route''"
definition auxEndpointPrefix :: string where "auxEndpointPrefix = ''aux''"
definition poolChainPrefix :: string where "poolChainPrefix = ''pool''"
definition testChainPrefix :: string where "testChainPrefix = ''proxy''"
definition testXrayFullPrefix :: string where "testXrayFullPrefix = ''xrayfull''"
definition bridgePrefix :: string where "bridgePrefix = ''bridge''"

lemmas tag_defs = tag_proxy_def tag_direct_def tag_warpBypass_def tag_l3Direct_def tag_dnsDirect_def
  tag_dnsIn_def tag_mixedIn_def tag_tunIn_def tag_redirectIn_def tag_xrayFullConfigIn_def
  tag_adblockRuleSet_def mainChainPrefix_def routeChainPrefix_def auxEndpointPrefix_def
  poolChainPrefix_def testChainPrefix_def testXrayFullPrefix_def bridgePrefix_def

definition hopTag :: "string \<Rightarrow> int \<Rightarrow> string" where
  "hopTag prefix i = prefix @ ''-'' @ number i"

definition bridgeTagFor :: "string \<Rightarrow> string" where
  "bridgeTagFor singIngressTag = bridgePrefix @ ''-'' @ singIngressTag"

subsection \<open>Selector lists\<close>

record domain_selectors =
  ds_ruleSets :: "string list"
  ds_domains :: "string list"
  ds_suffixes :: "string list"
  ds_keywords :: "string list"
  ds_regexes :: "string list"

definition no_selectors :: domain_selectors where
  "no_selectors = \<lparr>ds_ruleSets = [], ds_domains = [], ds_suffixes = [], ds_keywords = [], ds_regexes = []\<rparr>"

definition hasInlineConditions :: "domain_selectors \<Rightarrow> bool" where
  "hasInlineConditions s \<longleftrightarrow> ds_domains s \<noteq> [] \<or> ds_suffixes s \<noteq> [] \<or> ds_keywords s \<noteq> [] \<or> ds_regexes s \<noteq> []"

datatype selector_kind = SelRuleSet | SelDomain | SelSuffix | SelKeyword | SelRegex | SelIp

definition selector_kinds :: "(string \<times> selector_kind) list" where
  "selector_kinds = [(''ruleset:'', SelRuleSet), (''domain:'', SelDomain), (''suffix:'', SelSuffix),
     (''keyword:'', SelKeyword), (''regex:'', SelRegex), (''ip:'', SelIp)]"

text \<open>The first prefix that fits, and the rest of the text.\<close>

definition selector_item :: "string \<Rightarrow> (selector_kind \<times> string) option" where
  "selector_item item =
     map_option (\<lambda>(p, k). (k, drop (length p) item)) (find (\<lambda>(p, _). starts_with item p) selector_kinds)"

text \<open>What \<open>parseSelectorList\<close> appends to the sink of one kind; a missing sink drops it.\<close>

definition selected :: "selector_kind \<Rightarrow> string list \<Rightarrow> string list" where
  "selected k items = concat (map (\<lambda>item. case selector_item item of
     Some (k', rest) \<Rightarrow> if k' = k then [rest] else [] | None \<Rightarrow> []) items)"

definition parseSelectorList :: "string list \<Rightarrow> domain_selectors \<Rightarrow> domain_selectors" where
  "parseSelectorList items s = s
     \<lparr>ds_ruleSets := ds_ruleSets s @ selected SelRuleSet items,
      ds_domains := ds_domains s @ selected SelDomain items,
      ds_suffixes := ds_suffixes s @ selected SelSuffix items,
      ds_keywords := ds_keywords s @ selected SelKeyword items,
      ds_regexes := ds_regexes s @ selected SelRegex items\<rparr>"

subsection \<open>The context\<close>

record route_group =
  rg_hopIDs :: "int list"
  rg_chainWrapper :: "profile option"

record prerequisites =
  pq_needDirectDnsRules :: bool
  pq_direct :: domain_selectors
  pq_needProxyDnsRules :: bool
  pq_proxy :: domain_selectors
  pq_hijack :: domain_selectors
  pq_directIPSets :: "string list"
  pq_directIPCIDRs :: "string list"
  pq_hijackedPrivateRanges :: "string set"
  pq_neededRuleSets :: "string list"
  pq_outboundMap :: "int \<Rightarrow> string option"
  pq_routeOutboundGroups :: "route_group list"
  pq_auxEndpointGroups :: "int list list"

definition new_prerequisites :: prerequisites where
  "new_prerequisites = \<lparr>pq_needDirectDnsRules = False, pq_direct = no_selectors,
     pq_needProxyDnsRules = False, pq_proxy = no_selectors, pq_hijack = no_selectors,
     pq_directIPSets = [], pq_directIPCIDRs = [], pq_hijackedPrivateRanges = {}, pq_neededRuleSets = [],
     pq_outboundMap = Map.empty, pq_routeOutboundGroups = [], pq_auxEndpointGroups = []\<rparr>"

record coreBridgeConfig =
  br_needed :: bool
  br_port :: int
  br_auth :: string
  br_host :: string

definition no_bridge :: coreBridgeConfig where
  "no_bridge = \<lparr>br_needed = False, br_port = -1, br_auth = [], br_host = ''127.0.0.1''\<rparr>"

definition bridge_at :: "int \<Rightarrow> string \<Rightarrow> coreBridgeConfig" where
  "bridge_at port auth = \<lparr>br_needed = True, br_port = port, br_auth = auth, br_host = ''127.0.0.1''\<rparr>"

record traffic_group =
  tg_watchTag :: string
  tg_profiles :: "profile list"

record selector_info =
  si_groupTag :: string
  si_profile :: profile
  si_members :: "(string \<times> profile) list"

record extra_core =
  ec_path :: string
  ec_args :: string
  ec_config :: string
  ec_noLog :: bool

record build_result =
  rs_error :: string
  rs_coreConfig :: jobject
  rs_tunIPv4CIDR :: string
  rs_isXrayNeeded :: bool
  rs_xrayConfig :: jobject
  rs_xrayFullConfigs :: "jobject list" \<comment> \<open>each written as text\<close>
  rs_extraCoreData :: extra_core
  rs_chainGroups :: "traffic_group list"
  rs_autoSelectors :: "selector_info list"
  rs_vpnEndpointProfiles :: "string \<Rightarrow> int option"

definition new_result :: build_result where
  "new_result = \<lparr>rs_error = [], rs_coreConfig = [], rs_tunIPv4CIDR = [], rs_isXrayNeeded = False, rs_xrayConfig = [],
     rs_xrayFullConfigs = [], rs_extraCoreData = \<lparr>ec_path = [], ec_args = [], ec_config = [], ec_noLog = False\<rparr>,
     rs_chainGroups = [], rs_autoSelectors = [], rs_vpnEndpointProfiles = Map.empty\<rparr>"

text \<open>The counters stand for the ports probed and the random texts drawn so far.\<close>

record build_context =
  cx_forTest :: bool
  cx_tunEnabled :: bool
  cx_l3Bridge :: bool
  cx_isResolvedUsed :: bool
  cx_singToXrayTransitioned :: bool
  cx_xrayToSingTransitioned :: bool
  cx_proxyUsesXray :: bool
  cx_ent :: profile
  cx_prerequisites :: prerequisites
  cx_error :: string
  cx_outbounds :: "jobject list"
  cx_endpoints :: "jobject list"
  cx_xrayOutbounds :: "jobject list"
  cx_vpnEndpointTags :: "(string \<times> string) list" \<comment> \<open>ordered by tag\<close>
  cx_vpnGateTags :: "string list"
  cx_vpnAuxTags :: "string list"
  cx_vpnBlockOutsideDns :: bool
  cx_xrayIngressTags :: "string list"
  cx_singIngressTags :: "string list"
  cx_singToXrayBridges :: "coreBridgeConfig list"
  cx_xrayToSingBridges :: "coreBridgeConfig list"
  cx_result :: build_result
  cx_probes :: nat
  cx_randoms :: nat

definition new_context :: "profile \<Rightarrow> build_context" where
  "new_context ent = \<lparr>cx_forTest = False, cx_tunEnabled = False, cx_l3Bridge = False,
     cx_isResolvedUsed = False, cx_singToXrayTransitioned = False, cx_xrayToSingTransitioned = False,
     cx_proxyUsesXray = False, cx_ent = ent, cx_prerequisites = new_prerequisites, cx_error = [],
     cx_outbounds = [], cx_endpoints = [], cx_xrayOutbounds = [], cx_vpnEndpointTags = [],
     cx_vpnGateTags = [], cx_vpnAuxTags = [], cx_vpnBlockOutsideDns = False, cx_xrayIngressTags = [],
     cx_singIngressTags = [], cx_singToXrayBridges = [], cx_xrayToSingBridges = [],
     cx_result = new_result, cx_probes = 0, cx_randoms = 0\<rparr>"

text \<open>\<^verbatim>\<open>QMap::insert\<close>, for a map that is walked in the order of its keys.\<close>

fun qmap_insert :: "string \<Rightarrow> 'a \<Rightarrow> (string \<times> 'a) list \<Rightarrow> (string \<times> 'a) list" where
  "qmap_insert k v [] = [(k, v)]"
| "qmap_insert k v ((k', v') # m) =
     (if k < k' then (k, v) # (k', v') # m
      else if k = k' then (k, v) # m
      else (k', v') # qmap_insert k v m)"

text \<open>A write through \<^verbatim>\<open>ctx.result\<close>, and its most frequent use.\<close>

abbreviation in_result :: "(build_result \<Rightarrow> build_result) \<Rightarrow> build_context \<Rightarrow> build_context" where
  "in_result f c \<equiv> c\<lparr>cx_result := f (cx_result c)\<rparr>"

definition put_section :: "string \<Rightarrow> json \<Rightarrow> build_context \<Rightarrow> build_context" where
  "put_section k v c = in_result (\<lambda>r. r\<lparr>rs_coreConfig := jput k v (rs_coreConfig r)\<rparr>) c"

definition MkManyPorts :: "'z gen_env_scheme \<Rightarrow> nat \<Rightarrow> string \<Rightarrow> build_context \<Rightarrow> int list \<times> build_context" where
  "MkManyPorts E n addr c = (ge_ports E (cx_probes c) n addr, c\<lparr>cx_probes := cx_probes c + 1\<rparr>)"

definition GetRandomString :: "'z gen_env_scheme \<Rightarrow> build_context \<Rightarrow> string \<times> build_context" where
  "GetRandomString E c = (ge_random E (cx_randoms c), c\<lparr>cx_randoms := cx_randoms c + 1\<rparr>)"

definition bridgeIngressMismatch :: "build_context \<Rightarrow> string" where
  "bridgeIngressMismatch c =
     (if length (cx_xrayToSingBridges c) \<noteq> length (cx_singIngressTags c)
      then ''xray to sing-box bridges count does not match ingress tags count'' else [])"

definition l3BridgeEnabled :: "'z gen_env_scheme \<Rightarrow> build_context \<Rightarrow> bool" where
  "l3BridgeEnabled E c \<longleftrightarrow> ge_bridgeable E \<and> cx_tunEnabled c \<and> \<not> cx_forTest c \<and> gs_vpn_l3_bridge (ge_settings E)"

subsection \<open>Twins of the direct rules\<close>

definition l3BridgeTwin :: "jobject \<Rightarrow> jobject" where
  "l3BridgeTwin rule = jput ''outbound'' (JStr tag_l3Direct) (jput ''action'' (JStr ''route'')
     (jput ''preferred_by'' (JArr [JStr tag_l3Direct]) rule))"

definition wants_twin :: "jobject \<Rightarrow> bool" where
  "wants_twin rule \<longleftrightarrow>
     (let action = to_str [] (jget rule ''action'')
      in (action = [] \<or> action = ''route'') \<and> \<not> jcontains rule ''preferred_by'' \<and>
         to_str [] (jget rule ''outbound'') = tag_direct)"

definition withL3BridgeTwins :: "json list \<Rightarrow> json list" where
  "withL3BridgeTwins rules = concat (map (\<lambda>value.
     let rule = to_obj value
     in (if wants_twin rule then [JObj (l3BridgeTwin rule)] else []) @ [JObj rule]) rules)"

subsection \<open>Fragments\<close>

definition slash_to_backslash :: "string \<Rightarrow> string" where
  "slash_to_backslash = map (\<lambda>c. if c = CHR ''/'' then CHR 0x5C else c)"

definition extraCoreProcessPaths :: "'z gen_env_scheme \<Rightarrow> string \<Rightarrow> json" where
  "extraCoreProcessPaths E path = JArr [JStr (if ro_os E = Windows then slash_to_backslash path else path)]"

definition socksBridgeInbound :: "string \<Rightarrow> coreBridgeConfig \<Rightarrow> jobject" where
  "socksBridgeInbound tag b = jbuild
     [(''type'', JStr ''socks''), (''tag'', JStr tag), (''listen'', JStr (br_host b)),
      (''listen_port'', jint (br_port b)),
      (''users'', JArr [JObj (jbuild [(''username'', JStr (br_auth b)), (''password'', JStr (br_auth b))])])]"

definition xraySocksInbound :: "string \<Rightarrow> coreBridgeConfig \<Rightarrow> jobject" where
  "xraySocksInbound tag b = jbuild
     [(''tag'', JStr tag), (''listen'', JStr (br_host b)), (''port'', jint (br_port b)),
      (''protocol'', JStr ''socks''),
      (''settings'', JObj (jbuild [(''auth'', JStr ''password''), (''udp'', JBool True),
         (''accounts'', JArr [JObj (jbuild [(''user'', JStr (br_auth b)), (''pass'', JStr (br_auth b))])])]))]"

definition strings_json :: "string list \<Rightarrow> json" where
  "strings_json ss = JArr (map JStr ss)"

definition appendDnsRoutingRules :: "domain_selectors \<Rightarrow> string \<Rightarrow> string \<Rightarrow> json list \<Rightarrow> json list" where
  "appendDnsRoutingRules s strategy server rules = rules
     @ (if ds_ruleSets s \<noteq> [] then [JObj (jbuild
          [(''rule_set'', strings_json (ds_ruleSets s)), (''action'', JStr ''route''),
           (''strategy'', JStr strategy), (''server'', JStr server)])] else [])
     @ (if hasInlineConditions s then [JObj (jbuild
          [(''domain'', strings_json (ds_domains s)), (''domain_suffix'', strings_json (ds_suffixes s)),
           (''domain_keyword'', strings_json (ds_keywords s)), (''domain_regex'', strings_json (ds_regexes s)),
           (''action'', JStr ''route''), (''strategy'', JStr strategy), (''server'', JStr server)])] else [])"

subsection \<open>Questions about a profile\<close>

definition asks :: "(outbound \<Rightarrow> bool) \<Rightarrow> profile \<Rightarrow> bool" where
  "asks P ent = (case pr_outbound ent of None \<Rightarrow> False | Some ob \<Rightarrow> P ob)"

definition isCustomFullConfig :: "profile \<Rightarrow> bool" where
  "isCustomFullConfig p \<longleftrightarrow> pr_type p = ''custom'' \<and>
     (case Custom p of None \<Rightarrow> False | Some c \<Rightarrow> cu_type c = CustomFullConfig)"

definition isXrayFullConfig :: "profile \<Rightarrow> bool" where
  "isXrayFullConfig p = asks IsXrayFullConfig p"

definition usesXrayCore :: "profile \<Rightarrow> bool" where
  "usesXrayCore p = asks (\<lambda>ob. IsXray ob \<or> IsXrayFullConfig ob) p"

definition GetAddress :: "'z gen_env_scheme \<Rightarrow> outbound \<Rightarrow> string" where
  "GetAddress E ob = (case ob_class ob of
     CustomOb c \<Rightarrow> custom_GetAddress (re_text2object E) c
   | WireguardOb w \<Rightarrow> wireguard_GetAddress w
   | SocksOb s \<Rightarrow> bo_server s
   | _ \<Rightarrow> ge_address E ob)"

definition is_domain :: "'z gen_env_scheme \<Rightarrow> string \<Rightarrow> bool" where
  "is_domain E addr \<longleftrightarrow> addr \<noteq> [] \<and> \<not> ge_is_ip E addr"

definition outboundServerDomains :: "'z gen_env_scheme \<Rightarrow> profile \<Rightarrow> string list" where
  "outboundServerDomains E ent = (case pr_outbound ent of
     None \<Rightarrow> []
   | Some ob \<Rightarrow>
       if IsXrayFullConfig ob then
         (case Custom ent of None \<Rightarrow> []
          | Some c \<Rightarrow> filter (is_domain E) (GetXrayFullConfigServerDomains (re_text2object E) c))
       else filter (is_domain E) [GetAddress E ob])"

text \<open>The domains of the profiles of some ids, missing ones and extra cores left out.\<close>

definition member_domains :: "'z gen_env_scheme \<Rightarrow> (profile \<Rightarrow> bool) \<Rightarrow> int list \<Rightarrow> string list" where
  "member_domains E keep ids = concat (map (\<lambda>i. case profile_of E i of
     None \<Rightarrow> [] | Some p \<Rightarrow> if keep p then outboundServerDomains E p else []) ids)"

definition getChainDomains :: "'z gen_env_scheme \<Rightarrow> profile \<Rightarrow> string \<Rightarrow> string list \<times> string" where
  "getChainDomains E ent err = (case Chain ent of
     None \<Rightarrow> ([], ''Ent is Nullptr after cast to chain in getChainDomains, data is corrupted'')
   | Some l \<Rightarrow> (member_domains E (\<lambda>p. \<not> asks IsExtraCore p) l, err))"

definition getAutoSelectorDomains :: "'z gen_env_scheme \<Rightarrow> profile \<Rightarrow> string list" where
  "getAutoSelectorDomains E ent =
     (let plan = plan_for E (PlanForDomains (pr_id ent)) ent
      in if pl_error plan \<noteq> [] then [] else member_domains E (\<lambda>_. True) (pl_build plan))"

fun getEntDomains :: "'z gen_env_scheme \<Rightarrow> int list \<Rightarrow> string \<Rightarrow> string list \<times> string" where
  "getEntDomains E [] err = ([], err)"
| "getEntDomains E (i # ids) err =
     (case profile_of E i of
        None \<Rightarrow> getEntDomains E ids err
      | Some ent \<Rightarrow>
          if asks IsExtraCore ent then getEntDomains E ids err
          else let (here, err) =
                 (if pr_type ent = ''chain'' then getChainDomains E ent err
                  else if pr_type ent = ''autoselector'' then (getAutoSelectorDomains E ent, err)
                  else (outboundServerDomains E ent, err));
                 (more, err) = getEntDomains E ids err
               in (here @ more, err))"

definition any_uses_xray :: "'z gen_env_scheme \<Rightarrow> int list \<Rightarrow> bool" where
  "any_uses_xray E ids = list_ex (\<lambda>i. case profile_of E i of None \<Rightarrow> False | Some p \<Rightarrow> usesXrayCore p) ids"

definition proxyPathUsesXray :: "'z gen_env_scheme \<Rightarrow> profile \<Rightarrow> bool" where
  "proxyPathUsesXray E ent =
     (if pr_type ent = ''chain'' then (case Chain ent of None \<Rightarrow> False | Some l \<Rightarrow> any_uses_xray E l)
      else if pr_type ent = ''autoselector'' then any_uses_xray E (pl_build (plan_for E PlanForCore ent))
      else usesXrayCore ent)"

definition resolveExtraCoreProfile :: "'z gen_env_scheme \<Rightarrow> profile \<Rightarrow> profile option" where
  "resolveExtraCoreProfile E ent =
     (if asks IsExtraCore ent then Some ent
      else if pr_type ent \<noteq> ''chain'' then None
      else (case Chain ent of
         Some (i # _) \<Rightarrow> (case profile_of E i of
            Some p \<Rightarrow> if asks IsExtraCore p then Some p else None | None \<Rightarrow> None)
       | _ \<Rightarrow> None))"

text \<open>\<^verbatim>\<open>SubStrBefore\<close> and \<^verbatim>\<open>SubStrAfter\<close> of the endpoint's colon are only asked when there is one.\<close>

definition getWarpProfile :: "'z gen_env_scheme \<Rightarrow> profile" where
  "getWarpProfile E =
     (let S = ge_settings E;
          (host, port) = (case split_colon (gs_warp_ep S) of
             Some (a, b) \<Rightarrow> (a, qt_int E b) | None \<Rightarrow> (gs_warp_ep S, 2408));
          peer = new_peer\<lparr>pe_public_key := gs_warp_public_key S, pe_address := host, pe_port := port,
             pe_reserved := map (qt_int E) (gs_warp_reserved S), pe_persistent_keepalive := ''10''\<rparr>;
          w = new_wireguard\<lparr>bo_name := ''warp'', bo_server := host, bo_server_port := port,
             wg_private_key := gs_warp_private_key S, wg_address := gs_warp_ifc_addrs S,
             wg_peer := peer, wg_mtu := 1280\<rparr>
      in new_profile\<lparr>pr_name := ''warp'', pr_id := warpProfileID, pr_type := ''wireguard'',
           pr_outbound := Some \<lparr>ob_name = ''warp'', ob_address = [], ob_class = WireguardOb w\<rparr>\<rparr>)"

definition Build :: "'z gen_env_scheme \<Rightarrow> profile \<Rightarrow> jobject \<times> string" where
  "Build E p = (case pr_outbound p of
     None \<Rightarrow> ([], [])
   | Some ob \<Rightarrow> (case ob_class ob of
       CustomOb c \<Rightarrow> (custom_Build (re_text2object E) c, [])
     | SocksOb s \<Rightarrow> (socks_Build s, [])
     | WireguardOb w \<Rightarrow> (wireguard_Build (ge_wg E) w, [])
     | _ \<Rightarrow> ge_build E p))"

definition BuildXray :: "'z gen_env_scheme \<Rightarrow> profile \<Rightarrow> jobject \<times> string" where
  "BuildXray E p = (case pr_outbound p of
     None \<Rightarrow> ([], [])
   | Some ob \<Rightarrow> (case ob_class ob of
       CustomOb c \<Rightarrow> (custom_BuildXray (re_text2object E) c, [])
     | XrayVlessOb \<Rightarrow> ge_buildXray E p
     | _ \<Rightarrow> ([], [])))"

subsection \<open>A concrete instance\<close>

definition demo_settings :: gen_settings where
  "demo_settings = \<lparr>gs_spmode_vpn = True, gs_vpn_l3_bridge = False, gs_enable_warp = False,
     gs_warp_private_key = ''k'', gs_warp_public_key = ''p'', gs_warp_ep = ''192.0.2.9:2408'',
     gs_warp_ifc_addrs = [''172.16.0.2/32''], gs_warp_reserved = [], gs_enable_dns_routing = True,
     gs_enable_dns_server = False, gs_dns_server_rules = [], gs_test_latency_url = ''http://t/'',
     gs_resolve_domain_strategy = [], gs_default_domain_strategy = [], gs_enable_redirect = False,
     gs_enable_stats = True, gs_log_level = ''info'', gs_xray_log_level = ''warning'',
     gs_clash_api_port = 0, gs_clash_listen_addr = [], gs_clash_secret = [], gs_api_port = 0,
     gs_api_secret = []\<rparr>"

definition demo_hop :: "int \<Rightarrow> string \<Rightarrow> outbound_class \<Rightarrow> profile" where
  "demo_hop i t cls = new_profile\<lparr>pr_id := i, pr_type := t,
     pr_outbound := Some \<lparr>ob_name = [], ob_address = [], ob_class = cls\<rparr>\<rparr>"

definition demo_vpn :: vpn_options where
  "demo_vpn = \<lparr>vo_only_advertised_routes = True, vo_use_tunnel_dns = True, vo_block_outside_dns = False\<rparr>"

definition demo_full_config :: custom where
  "demo_full_config = new_custom\<lparr>cu_type := CustomXrayFullConfig, cu_config := ''full''\<rparr>"

text \<open>Shadowsocks, VLESS over Xray, Trojan, OpenVPN, a chain of two, a full Xray configuration.\<close>

definition demo_hops :: profiles where
  "demo_hops = [1 \<mapsto> demo_hop 1 ''shadowsocks'' OtherOb, 2 \<mapsto> demo_hop 2 ''vless'' XrayVlessOb,
     3 \<mapsto> demo_hop 3 ''trojan'' OtherOb, 4 \<mapsto> demo_hop 4 ''openvpn'' (OpenVPNOb demo_vpn),
     5 \<mapsto> demo_hop 5 ''chain'' (ChainOb [3, 2]), 6 \<mapsto> demo_hop 6 ''custom'' (CustomOb demo_full_config)]"

definition demo_plan_env :: plan_env where
  "demo_plan_env = \<lparr>qt_trimmed = ascii_trim, qt_upper = map ascii_up, qt_lower = map ascii_low,
     qt_fold = map ascii_low, qt_int = ascii_int, qt_longlong = ascii_int,
     qt_utf8 = map (\<lambda>c. word_of_nat (of_char c)), qt_from_utf8 = map (\<lambda>b. char_of (unat b)),
     re_valid = (\<lambda>_. True), re_match = (\<lambda>_ _. True), parse_object = (\<lambda>_. [])\<rparr>"

definition demo_wg :: wg_env where
  "demo_wg = \<lparr>qt_trimmed = ascii_trim, qt_upper = map ascii_up, qt_lower = map ascii_low,
     qt_fold = map ascii_low, qt_int = ascii_int, qt_longlong = ascii_int,
     qt_utf8 = map (\<lambda>c. word_of_nat (of_char c)), qt_from_utf8 = map (\<lambda>b. char_of (unat b)),
     wg_toInt = (\<lambda>s. map_option int (ascii_nat 0 s))\<rparr>"

definition demo_build :: "profile \<Rightarrow> jobject \<times> string" where
  "demo_build p = (jbuild [(''type'', JStr (pr_type p)), (''server_port'', jint (pr_id p))], [])"

definition demo_gen :: gen_env where
  "demo_gen = \<lparr>qt_trimmed = ascii_trim, qt_upper = map ascii_up, qt_lower = map ascii_low,
     qt_fold = map ascii_low, qt_int = ascii_int, qt_longlong = ascii_int,
     qt_utf8 = map (\<lambda>c. word_of_nat (of_char c)), qt_from_utf8 = map (\<lambda>b. char_of (unat b)),
     ro_profile = demo_hops, ro_byName = (\<lambda>_. None), ro_ruleSetName = (\<lambda>s. s), ro_os = Linux,
     re_adblock_enable = False, re_vpn_private_ranges = [''10.0.0.0/8''],
     re_text2object = (\<lambda>s. if s = ''full'' then jbuild [(''inbounds'', JArr [JObj (jbuild [(''tag'', JStr ''own'')])])] else []),
     re_object2text = (\<lambda>_. ''{}''),
     ge_settings = demo_settings, ge_route = Some GetDefaultChain,
     ge_groups = [0 \<mapsto> new_group\<lparr>gr_id := 0, gr_profiles := [1, 2, 3, 4, 5, 6]\<rparr>],
     ge_plan_env = demo_plan_env, ge_plan_clock = (\<lambda>_. (1000, 1000)), ge_now = 1000, ge_wg = demo_wg,
     ge_build = demo_build, ge_buildXray = demo_build, ge_address = (\<lambda>_. ''a.example''),
     ge_label = (\<lambda>_. ''label''), ge_is_ip = (\<lambda>_. False),
     ge_ports = (\<lambda>k n _. map (\<lambda>i. 20000 + 100 * int k + int i) [0..<n]),
     ge_random = (\<lambda>k. ''secret'' @ number (int k)), ge_extraCore = (\<lambda>_. None),
     ge_resolved = False, ge_bridgeable = True\<rparr>"

end
