(* ===== verification/OutboundProps.thy ===== *)
theory OutboundProps
  imports GenContext
begin

text \<open>What the database gives back of an outbound.\<close>

text \<open>
  C21: What an outbound that is written as JSON and read back into a fresh one keeps. Dial fields and raw
  outbounds keep everything. A SOCKS outbound keeps every field but the version, which comes back as
  5, and as 0 if it was 4, so that a version 4 server is afterwards built as version 5. WireGuard
  loses the unused copy of the server in the base class and the AmneziaWG options while they are
  switched off; the switch itself comes back off when no option is set, an MTU that is not positive
  as the default 1420, and an address without a mask with one; everything else is kept, the peer
  included. Asked is that ports, counters and reserved bytes are 32-bit and, where the writer omits
  other values, not negative, and that the keepalive of the peer is empty, a positive number in its plain
  decimal form or a range of two: the code drops any other keepalive text.
\<close>

theorem stored_outbounds_come_back:
  assumes "base_ok s" "wireguard_ok E w"
  shows "snd (dial_ParseFromJson (dial_ExportToJson d) new_dialFields) = d \<and>
    snd (socks_ParseFromJson (socks_ExportToJson s) new_socks) =
      s\<lparr>so_version := if so_version s = 4 then 0 else 5\<rparr> \<and>
    snd (custom_ParseFromJson (custom_ExportToJson (name, new_custom\<lparr>cu_type := t, cu_config := cfg\<rparr>)) ([], new_custom)) =
      (name, new_custom\<lparr>cu_type := t, cu_config := cfg\<rparr>) \<and>
    snd (wireguard_ParseFromJson E (wireguard_ExportToJson E w) new_wireguard) =
      w\<lparr>bo_server := [], bo_server_port := 0, wg_address := map (fix_address E) (wg_address w),
        wg_mtu := if 0 < wg_mtu w then wg_mtu w else 1420, wg_enable_amnezia := (AmneziaToJson w \<noteq> []),
        wg_amnezia := if wg_enable_amnezia w then wg_amnezia w else new_amnezia\<rparr>"
  using dial_store.reload [of d] socks_reload [OF assms(1)] wireguard_reload [OF assms(2)]
    custom_store.reload [of "(name, new_custom\<lparr>cu_type := t, cu_config := cfg\<rparr>)"]
  by (simp add: serverless_def options_reloaded_def FixAddress_def new_custom_def)

definition demo_socks :: socks where
  "demo_socks = new_socks\<lparr>bo_server := ''192.0.2.1'', bo_server_port := 1080, so_version := 4\<rparr>"

definition demo_wireguard :: wireguard where
  "demo_wireguard = new_wireguard\<lparr>wg_private_key := ''key'', wg_address := [''10.0.0.2'', ''fd00::2/128''], wg_mtu := 0,
     wg_peer := new_peer\<lparr>pe_address := ''192.0.2.7'', pe_port := 51820, pe_persistent_keepalive := ''22-30''\<rparr>\<rparr>"

theorem stored_outbounds_come_back_witness:
  "so_version (snd (socks_ParseFromJson (socks_ExportToJson demo_socks) new_socks)) = 0 \<and>
   snd (wireguard_ParseFromJson demo_wg (wireguard_ExportToJson demo_wg demo_wireguard) new_wireguard) =
     demo_wireguard\<lparr>wg_address := [''10.0.0.2/32'', ''fd00::2/128''], wg_mtu := 1420\<rparr>"
proof -
  have "base_ok demo_socks" "wireguard_ok demo_wg demo_wireguard" "so_version demo_socks = 4"
    "bo_server demo_wireguard = [] \<and> bo_server_port demo_wireguard = 0 \<and> AmneziaToJson demo_wireguard = [] \<and>
      \<not> wg_enable_amnezia demo_wireguard \<and> wg_amnezia demo_wireguard = new_amnezia \<and> wg_mtu demo_wireguard = 0 \<and>
      map (fix_address demo_wg) (wg_address demo_wireguard) = [''10.0.0.2/32'', ''fd00::2/128'']"
    by code_simp+
  then show ?thesis using stored_outbounds_come_back [of demo_socks demo_wg demo_wireguard] by simp
qed

end
