(* ===== verification/CommonFields.thy ===== *)
theory CommonFields
  imports Wireguard
begin

text \<open>
  The parts protocol classes are made of: TLS with uTLS, ECH and Reality (\<^verbatim>\<open>src/configs/common/TLS.cpp\<close>),
  multiplexing with TCP Brutal (\<^verbatim>\<open>multiplex.cpp\<close>) and the transport (\<^verbatim>\<open>transport.cpp\<close>). Each is
  stored as JSON and built for the core by nearly the same lines; a switch that is on, off or left to
  the settings is a pair of booleans. The links are not modelled here. The global settings that
  \<^verbatim>\<open>Build\<close> reads are a record.
\<close>

record proto_settings = qt_text +
  ps_utlsFingerprint :: string
  ps_fragment_implementation :: string
  ps_fragment_default_on :: bool
  ps_fragment_size :: string
  ps_fragment_sleep :: string
  ps_tls_tricks_default_on :: bool
  ps_mux_default_on :: bool
  ps_mux_protocol :: string
  ps_mux_concurrency :: int
  ps_mux_padding :: bool

definition jremove :: "string \<Rightarrow> jobject \<Rightarrow> jobject" where
  "jremove k ob = filter (\<lambda>(k', _). k' \<noteq> k) ob"

text \<open>An object that is written and read only when something is in it.\<close>

definition parse_part :: "'r json_row list \<Rightarrow> jobject \<Rightarrow> 'r \<Rightarrow> bool \<times> 'r" where
  "parse_part rows ob r = (if ob = [] then (False, r) else (True, parse_rows rows ob r))"

definition emit_always :: "('r \<Rightarrow> json) \<Rightarrow> 'r \<Rightarrow> json option" where
  "emit_always get r = Some (get r)"

definition emit_when :: "('r \<Rightarrow> bool) \<Rightarrow> ('r \<Rightarrow> jobject) \<Rightarrow> 'r \<Rightarrow> json option" where
  "emit_when b get r = (if b r then Some (JObj (get r)) else None)"

text \<open>Lists that may also be one text with a line per element.\<close>

definition listable :: "json \<Rightarrow> string list" where
  "listable v = (case v of JStr s \<Rightarrow> split_skip_empty (CHR 0x0A) s | _ \<Rightarrow> QJsonArray2QListString (to_arr v))"

definition read_listable :: "((string list \<Rightarrow> string list) \<Rightarrow> 'r \<Rightarrow> 'r) \<Rightarrow> json \<Rightarrow> 'r \<Rightarrow> 'r" where
  "read_listable upd v = upd (\<lambda>_. listable v)"

lemma listable_written [simp]: "listable (QListStr2QJsonArray xs) = xs"
  by (simp add: listable_def QListStr2QJsonArray_def QListString_roundtrip)

subsection \<open>uTLS\<close>

record uTLS =
  ut_supported :: bool
  ut_enabled :: bool
  ut_fingerPrint :: string

definition new_uTLS :: "bool \<Rightarrow> uTLS" where
  "new_uTLS supported = \<lparr>ut_supported = supported, ut_enabled = False, ut_fingerPrint = []\<rparr>"

definition utls_rows :: "uTLS json_row list" where
  "utls_rows =
     [(''enabled'', emit_flag ut_enabled, read_flag ut_enabled_update),
      (''fingerprint'', emit_text ut_fingerPrint, read_text ut_fingerPrint_update)]"

definition utls_ExportToJson :: "uTLS \<Rightarrow> jobject" where
  "utls_ExportToJson u = (if ut_enabled u then export_rows utls_rows u else [])"

definition utls_ExportIdentity :: "uTLS \<Rightarrow> jobject" where
  "utls_ExportIdentity u = (if ut_enabled u \<and> ut_fingerPrint u \<noteq> [] then [(''fingerprint'', JStr (ut_fingerPrint u))] else [])"

definition utls_Build :: "'z proto_settings_scheme \<Rightarrow> uTLS \<Rightarrow> jobject" where
  "utls_Build S u =
     (if \<not> ut_supported u then []
      else let ob = utls_ExportToJson u
        in if (ob = [] \<or> \<not> to_bool False (jget ob ''enabled'') \<or> ut_fingerPrint u = []) \<and> ps_utlsFingerprint S \<noteq> []
           then jput ''fingerprint'' (JStr (ps_utlsFingerprint S)) (jput ''enabled'' (JBool True) ob)
           else ob)"

subsection \<open>ECH\<close>

record ECH =
  eh_enabled :: bool
  eh_config :: "string list"
  eh_config_path :: string
  eh_serverName :: string

definition new_ECH :: ECH where
  "new_ECH = \<lparr>eh_enabled = False, eh_config = [], eh_config_path = [], eh_serverName = []\<rparr>"

definition ech_rows :: "ECH json_row list" where
  "ech_rows =
     [(''enabled'', emit_flag eh_enabled, read_flag eh_enabled_update),
      (''config'', emit_texts eh_config, read_texts eh_config_update),
      (''config_path'', emit_text eh_config_path, read_text eh_config_path_update),
      (''query_server_name'', emit_text eh_serverName, read_text eh_serverName_update)]"

definition ech_ExportToJson :: "ECH \<Rightarrow> jobject" where
  "ech_ExportToJson e = (if eh_enabled e then export_rows ech_rows e else [])"

definition ech_ExportIdentity :: "ECH \<Rightarrow> jobject" where
  "ech_ExportIdentity e = (if eh_enabled e then [(''enabled'', JBool True)] else [])"

definition ech_Build :: "ECH \<Rightarrow> jobject" where
  "ech_Build e = ech_ExportToJson e"

subsection \<open>Reality\<close>

record Reality =
  rl_enabled :: bool
  rl_public_key :: string
  rl_short_id :: string

definition new_Reality :: Reality where
  "new_Reality = \<lparr>rl_enabled = False, rl_public_key = [], rl_short_id = []\<rparr>"

definition reality_rows :: "Reality json_row list" where
  "reality_rows =
     [(''enabled'', emit_flag rl_enabled, read_flag rl_enabled_update),
      (''public_key'', emit_text rl_public_key, read_text rl_public_key_update),
      (''short_id'', emit_text rl_short_id, read_text rl_short_id_update)]"

definition reality_ExportToJson :: "Reality \<Rightarrow> jobject" where
  "reality_ExportToJson r = (if rl_enabled r then export_rows reality_rows r else [])"

definition reality_ExportIdentity :: "Reality \<Rightarrow> jobject" where
  "reality_ExportIdentity r = (if rl_enabled r then [(''enabled'', JBool True)] else [])"

text \<open>Building asks for a key or the switch, storing for the switch alone.\<close>

definition reality_Build :: "Reality \<Rightarrow> jobject" where
  "reality_Build r =
     (if rl_public_key r \<noteq> [] \<or> rl_enabled r
      then (let ob = jput ''public_key'' (JStr (rl_public_key r)) (jput ''enabled'' (JBool True) [])
            in if rl_short_id r \<noteq> [] then jput ''short_id'' (JStr (rl_short_id r)) ob else ob)
      else [])"

subsection \<open>TLS\<close>

record TLS =
  tl_enabled :: bool
  tl_disable_sni :: bool
  tl_server_name :: string
  tl_insecure :: bool
  tl_alpn :: "string list"
  tl_min_version :: string
  tl_max_version :: string
  tl_cipher_suites :: "string list"
  tl_curve_preferences :: "string list"
  tl_certificate :: "string list"
  tl_certificate_path :: string
  tl_certificate_public_key_sha256 :: "string list"
  tl_client_certificate :: "string list"
  tl_client_certificate_path :: string
  tl_client_key :: "string list"
  tl_client_key_path :: string
  tl_fragment :: bool
  tl_fragment_unspecified :: bool
  tl_fragment_fallback_delay :: string
  tl_record_fragment :: bool
  tl_tricks :: bool
  tl_tricks_unspecified :: bool
  tl_ech :: ECH
  tl_utls :: uTLS
  tl_reality :: Reality

definition new_TLS :: "bool \<Rightarrow> TLS" where
  "new_TLS utls = \<lparr>tl_enabled = False, tl_disable_sni = False, tl_server_name = [], tl_insecure = False,
     tl_alpn = [], tl_min_version = [], tl_max_version = [], tl_cipher_suites = [], tl_curve_preferences = [],
     tl_certificate = [], tl_certificate_path = [], tl_certificate_public_key_sha256 = [],
     tl_client_certificate = [], tl_client_certificate_path = [], tl_client_key = [], tl_client_key_path = [],
     tl_fragment = False, tl_fragment_unspecified = True, tl_fragment_fallback_delay = [],
     tl_record_fragment = False, tl_tricks = False, tl_tricks_unspecified = True,
     tl_ech = new_ECH, tl_utls = new_uTLS utls, tl_reality = new_Reality\<rparr>"

text \<open>The members storing and building share, from \<open>enabled\<close> to the client key.\<close>

definition tls_common_rows :: "TLS json_row list" where
  "tls_common_rows =
     [(''enabled'', emit_flag tl_enabled, read_flag tl_enabled_update),
      (''disable_sni'', emit_flag tl_disable_sni, read_flag tl_disable_sni_update),
      (''server_name'', emit_text tl_server_name, read_text tl_server_name_update),
      (''insecure'', emit_flag tl_insecure, read_flag tl_insecure_update),
      (''alpn'', emit_texts tl_alpn, read_texts tl_alpn_update),
      (''min_version'', emit_text tl_min_version, read_text tl_min_version_update),
      (''max_version'', emit_text tl_max_version, read_text tl_max_version_update),
      (''cipher_suites'', emit_texts tl_cipher_suites, read_texts tl_cipher_suites_update),
      (''curve_preferences'', emit_texts tl_curve_preferences, read_texts tl_curve_preferences_update),
      (''certificate'', emit_texts tl_certificate, read_listable tl_certificate_update),
      (''certificate_path'', emit_text tl_certificate_path, read_text tl_certificate_path_update),
      (''certificate_public_key_sha256'', emit_texts tl_certificate_public_key_sha256, read_texts tl_certificate_public_key_sha256_update),
      (''client_certificate'', emit_texts tl_client_certificate, read_texts tl_client_certificate_update),
      (''client_certificate_path'', emit_text tl_client_certificate_path, read_text tl_client_certificate_path_update),
      (''client_key'', emit_texts tl_client_key, read_texts tl_client_key_update),
      (''client_key_path'', emit_text tl_client_key_path, read_text tl_client_key_path_update),
      (''record_fragment'', emit_flag tl_record_fragment, read_flag tl_record_fragment_update)]"

definition mixedcase_sni :: "bool \<Rightarrow> jobject" where
  "mixedcase_sni b = [(''mixedcase_sni'', JBool b)]"

definition read_fragment :: "json \<Rightarrow> TLS \<Rightarrow> TLS" where
  "read_fragment v t = t\<lparr>tl_fragment := to_bool False v, tl_fragment_unspecified := False\<rparr>"

definition read_tricks :: "json \<Rightarrow> TLS \<Rightarrow> TLS" where
  "read_tricks v t = t\<lparr>tl_tricks := to_bool False (jget (to_obj v) ''mixedcase_sni''), tl_tricks_unspecified := False\<rparr>"

definition read_ech :: "json \<Rightarrow> TLS \<Rightarrow> TLS" where
  "read_ech v t = t\<lparr>tl_ech := snd (parse_part ech_rows (to_obj v) (tl_ech t))\<rparr>"

definition read_utls :: "json \<Rightarrow> TLS \<Rightarrow> TLS" where
  "read_utls v t = t\<lparr>tl_utls := snd (parse_part utls_rows (to_obj v) (tl_utls t))\<rparr>"

definition read_reality :: "json \<Rightarrow> TLS \<Rightarrow> TLS" where
  "read_reality v t = t\<lparr>tl_reality := snd (parse_part reality_rows (to_obj v) (tl_reality t))\<rparr>"

definition tls_rows :: "TLS json_row list" where
  "tls_rows = tls_common_rows @
     [(''fragment'', \<lambda>t. if tl_fragment_unspecified t then None else Some (JBool (tl_fragment t)), read_fragment),
      (''fragment_fallback_delay'', emit_text tl_fragment_fallback_delay, read_text tl_fragment_fallback_delay_update),
      (''tls_tricks'', \<lambda>t. if tl_tricks_unspecified t then None else Some (JObj (mixedcase_sni (tl_tricks t))), read_tricks),
      (''ech'', emit_when (eh_enabled \<circ> tl_ech) (ech_ExportToJson \<circ> tl_ech), read_ech),
      (''utls'', emit_when (ut_enabled \<circ> tl_utls) (utls_ExportToJson \<circ> tl_utls), read_utls),
      (''reality'', emit_when (rl_enabled \<circ> tl_reality) (reality_ExportToJson \<circ> tl_reality), read_reality)]"

text \<open>The two tri-states become \<open>unspecified\<close> when their member is missing, and are set by it otherwise.\<close>

definition TLS_ParseFromJson :: "jobject \<Rightarrow> TLS \<Rightarrow> bool \<times> TLS" where
  "TLS_ParseFromJson ob t =
     (if ob = [] then (False, t)
      else (True, parse_rows tls_rows ob (t\<lparr>tl_fragment_unspecified := True, tl_tricks_unspecified := True\<rparr>)))"

definition TLS_ExportToJson :: "TLS \<Rightarrow> jobject" where
  "TLS_ExportToJson t = (if tl_enabled t then export_rows tls_rows t else [])"

definition TLS_ExportIdentity :: "TLS \<Rightarrow> jobject" where
  "TLS_ExportIdentity t =
     (if \<not> tl_enabled t then []
      else jbuild ([(''enabled'', JBool True)]
        @ (if tl_disable_sni t then [(''disable_sni'', JBool True)] else [])
        @ (if tl_server_name t \<noteq> [] then [(''server_name'', JStr (tl_server_name t))] else [])
        @ (let o' = utls_ExportIdentity (tl_utls t) in if o' = [] then [] else [(''utls'', JObj o')])
        @ (let o' = ech_ExportIdentity (tl_ech t) in if o' = [] then [] else [(''ech'', JObj o')])
        @ (let o' = reality_ExportIdentity (tl_reality t) in if o' = [] then [] else [(''reality'', JObj o')])))"

definition FragmentEffectivelyOn :: "'z proto_settings_scheme \<Rightarrow> TLS \<Rightarrow> bool" where
  "FragmentEffectivelyOn S t \<longleftrightarrow> tl_fragment t \<or> tl_fragment_unspecified t \<and> ps_fragment_default_on S"

definition TlsTricksEffectivelyOn :: "'z proto_settings_scheme \<Rightarrow> TLS \<Rightarrow> bool" where
  "TlsTricksEffectivelyOn S t \<longleftrightarrow> tl_tricks t \<or> tl_tricks_unspecified t \<and> ps_tls_tricks_default_on S"

definition built_in_fragment :: "'z proto_settings_scheme \<Rightarrow> TLS \<Rightarrow> bool" where
  "built_in_fragment S t \<longleftrightarrow> FragmentEffectivelyOn S t \<and> ps_fragment_implementation S \<noteq> ''custom''"

definition built_utls :: "'z proto_settings_scheme \<Rightarrow> TLS \<Rightarrow> jobject" where
  "built_utls S t =
     (let ob = utls_Build S (tl_utls t)
      in if ob \<noteq> [] then ob
         else if rl_enabled (tl_reality t) then jbuild [(''enabled'', JBool True), (''fingerprint'', JStr ''random'')]
         else [])"

definition tls_build_rows :: "'z proto_settings_scheme \<Rightarrow> TLS json_row list" where
  "tls_build_rows S = tls_common_rows @
     [(''fragment'', emit_flag (built_in_fragment S), \<lambda>_ t. t),
      (''fragment_fallback_delay'', \<lambda>t. if built_in_fragment S t then emit_text tl_fragment_fallback_delay t else None, \<lambda>_ t. t),
      (''tls_tricks'', emit_when (TlsTricksEffectivelyOn S) (\<lambda>_. mixedcase_sni True), \<lambda>_ t. t),
      (''ech'', \<lambda>t. emit_object (ech_Build (tl_ech t)), \<lambda>_ t. t),
      (''utls'', \<lambda>t. emit_object (built_utls S t), \<lambda>_ t. t),
      (''reality'', \<lambda>t. emit_object (reality_Build (tl_reality t)), \<lambda>_ t. t)]"

definition TLS_Build :: "'z proto_settings_scheme \<Rightarrow> TLS \<Rightarrow> jobject" where
  "TLS_Build S t = (if tl_enabled t then export_rows (tls_build_rows S) t else [])"

text \<open>The switch in the editor: 0 keeps the default, 1 is on, 2 is off.\<close>

definition tri_state :: "bool \<Rightarrow> bool \<Rightarrow> nat" where
  "tri_state on unspecified = (if on then 1 else if unspecified then 0 else 2)"

definition saveFragmentState :: "nat \<Rightarrow> TLS \<Rightarrow> TLS" where
  "saveFragmentState i t = t\<lparr>tl_fragment := (i = 1), tl_fragment_unspecified := (i = 0)\<rparr>"

definition saveTlsTricksState :: "nat \<Rightarrow> TLS \<Rightarrow> TLS" where
  "saveTlsTricksState i t = t\<lparr>tl_tricks := (i = 1), tl_tricks_unspecified := (i = 0)\<rparr>"

subsection \<open>Multiplexing\<close>

record TcpBrutal =
  tb_enabled :: bool
  tb_up_mbps :: int
  tb_down_mbps :: int

definition new_TcpBrutal :: TcpBrutal where
  "new_TcpBrutal = \<lparr>tb_enabled = False, tb_up_mbps = 0, tb_down_mbps = 0\<rparr>"

text \<open>The core wants both values, so a missing one is written as 1.\<close>

definition at_least_one :: "int \<Rightarrow> json" where
  "at_least_one n = jint (if n \<le> 0 then 1 else n)"

definition brutal_rows :: "TcpBrutal json_row list" where
  "brutal_rows =
     [(''enabled'', emit_flag tb_enabled, read_flag tb_enabled_update),
      (''up_mbps'', emit_always (at_least_one \<circ> tb_up_mbps), read_int tb_up_mbps_update),
      (''down_mbps'', emit_always (at_least_one \<circ> tb_down_mbps), read_int tb_down_mbps_update)]"

definition brutal_ExportToJson :: "TcpBrutal \<Rightarrow> jobject" where
  "brutal_ExportToJson b = (if tb_enabled b then export_rows brutal_rows b else [])"

record Multiplex =
  mx_enabled :: bool
  mx_unspecified :: bool
  mx_protocol :: string
  mx_max_connections :: int
  mx_min_streams :: int
  mx_max_streams :: int
  mx_padding :: bool
  mx_brutal :: TcpBrutal

definition new_Multiplex :: Multiplex where
  "new_Multiplex = \<lparr>mx_enabled = False, mx_unspecified = True, mx_protocol = [], mx_max_connections = 0,
     mx_min_streams = 0, mx_max_streams = 0, mx_padding = False, mx_brutal = new_TcpBrutal\<rparr>"

definition read_mux_enabled :: "json \<Rightarrow> Multiplex \<Rightarrow> Multiplex" where
  "read_mux_enabled v m = m\<lparr>mx_enabled := to_bool False v, mx_unspecified := False\<rparr>"

definition read_brutal :: "json \<Rightarrow> Multiplex \<Rightarrow> Multiplex" where
  "read_brutal v m = m\<lparr>mx_brutal := snd (parse_part brutal_rows (to_obj v) (mx_brutal m))\<rparr>"

definition mux_rows :: "Multiplex json_row list" where
  "mux_rows =
     [(''enabled'', \<lambda>m. Some (JBool (mx_enabled m)), read_mux_enabled),
      (''protocol'', emit_text mx_protocol, read_text mx_protocol_update),
      (''max_connections'', emit_pos mx_max_connections, read_int mx_max_connections_update),
      (''min_streams'', emit_pos mx_min_streams, read_int mx_min_streams_update),
      (''max_streams'', emit_pos mx_max_streams, read_int mx_max_streams_update),
      (''padding'', emit_flag mx_padding, read_flag mx_padding_update),
      (''brutal'', emit_when (tb_enabled \<circ> mx_brutal) (brutal_ExportToJson \<circ> mx_brutal), read_brutal)]"

definition Multiplex_ParseFromJson :: "jobject \<Rightarrow> Multiplex \<Rightarrow> bool \<times> Multiplex" where
  "Multiplex_ParseFromJson ob m =
     (if ob = [] then (False, m\<lparr>mx_unspecified := True\<rparr>)
      else (True, parse_rows mux_rows ob (m\<lparr>mx_unspecified := True\<rparr>)))"

definition Multiplex_ExportToJson :: "Multiplex \<Rightarrow> jobject" where
  "Multiplex_ExportToJson m =
     (if mx_unspecified m then []
      else if \<not> mx_enabled m then [(''enabled'', JBool False)]
      else export_rows mux_rows m)"

definition Multiplex_Build :: "'z proto_settings_scheme \<Rightarrow> Multiplex \<Rightarrow> jobject" where
  "Multiplex_Build S m =
     (let ob = Multiplex_ExportToJson m;
          ob = (if mx_unspecified m \<and> ps_mux_default_on S then jput ''enabled'' (JBool True) ob else ob)
      in if \<not> to_bool False (jget ob ''enabled'') then []
      else let ob = (if mx_protocol m = [] then jput ''protocol'' (JStr (ps_mux_protocol S)) ob else ob);
               ob = (if mx_max_streams m = 0 \<and> mx_max_connections m = 0 \<and> mx_min_streams m = 0
                     then jput ''max_streams'' (jint (ps_mux_concurrency S)) ob else ob)
        in if ps_mux_padding S then jput ''padding'' (JBool True) ob else ob)"

definition getMuxState :: "Multiplex \<Rightarrow> nat" where
  "getMuxState m = (if mx_enabled m then 1 else if \<not> mx_unspecified m then 2 else 0)"

definition saveMuxState :: "nat \<Rightarrow> Multiplex \<Rightarrow> Multiplex" where
  "saveMuxState i m = m\<lparr>mx_enabled := (i = 1), mx_unspecified := (i = 0)\<rparr>"

subsection \<open>Transport\<close>

record Transport =
  tp_type :: string
  tp_host :: string
  tp_path :: string
  tp_method :: string
  tp_headers :: "string list"
  tp_idle_timeout :: string
  tp_ping_timeout :: string
  tp_max_early_data :: int
  tp_early_data_header_name :: string
  tp_service_name :: string

definition new_Transport :: Transport where
  "new_Transport = \<lparr>tp_type = [], tp_host = [], tp_path = [], tp_method = [], tp_headers = [],
     tp_idle_timeout = [], tp_ping_timeout = [], tp_max_early_data = 0, tp_early_data_header_name = [],
     tp_service_name = []\<rparr>"

text \<open>Headers are a list of keys and values in turn (\<^verbatim>\<open>utils.cpp\<close>).\<close>

definition jsonObjectToQStringList :: "jobject \<Rightarrow> string list" where
  "jsonObjectToQStringList ob = concat (map (\<lambda>(k, v). [k, to_str [] v]) ob)"

fun header_pairs :: "string list \<Rightarrow> (string \<times> json) list" where
  "header_pairs (k # v # hs) = (k, JStr v) # header_pairs hs"
| "header_pairs _ = []"

definition qStringListToJsonObject :: "string list \<Rightarrow> jobject" where
  "qStringListToJsonObject hs = (if odd (length hs) then [] else jbuild (header_pairs hs))"

text \<open>The text before the first \<open>sub\<close>, and what follows it.\<close>

fun cut_at :: "string \<Rightarrow> string \<Rightarrow> (string \<times> string) option" where
  "cut_at sub [] = (if sub = [] then Some ([], []) else None)"
| "cut_at sub (c # cs) =
     (if starts_with (c # cs) sub then Some ([], drop (length sub) (c # cs))
      else map_option (\<lambda>(a, b). (c # a, b)) (cut_at sub cs))"

text \<open>A path that carries the early data size: what \<^verbatim>\<open>split(''?ed='')\<close> makes its first two parts.\<close>

definition early_data :: "string \<Rightarrow> (string \<times> string) option" where
  "early_data path = (case cut_at ''?ed='' path of
     None \<Rightarrow> None
   | Some (a, b) \<Rightarrow> Some (a, case cut_at ''?ed='' b of None \<Rightarrow> b | Some (c, _) \<Rightarrow> c))"

definition emit_path :: "Transport \<Rightarrow> json option" where
  "emit_path t = (case early_data (tp_path t) of Some (a, _) \<Rightarrow> Some (JStr a) | None \<Rightarrow> emit_text tp_path t)"

definition emit_max_early_data :: "'z qt_text_scheme \<Rightarrow> Transport \<Rightarrow> json option" where
  "emit_max_early_data Q t = (case early_data (tp_path t) of
     Some (_, b) \<Rightarrow> Some (jint (qt_int Q b)) | None \<Rightarrow> emit_pos tp_max_early_data t)"

definition emit_early_data_header :: "Transport \<Rightarrow> json option" where
  "emit_early_data_header t = (case early_data (tp_path t) of
     Some _ \<Rightarrow> Some (JStr ''Sec-WebSocket-Protocol'') | None \<Rightarrow> emit_text tp_early_data_header_name t)"

definition header_object :: "Transport \<Rightarrow> jobject option" where
  "header_object t =
     (let hs = (if tp_headers t = [] then None else Some (qStringListToJsonObject (tp_headers t)))
      in if tp_host t \<noteq> [] \<and> tp_type t = ''ws''
         then Some (jput ''Host'' (JStr (tp_host t)) (case hs of None \<Rightarrow> [] | Some ob \<Rightarrow> ob)) else hs)"

definition emit_headers :: "Transport \<Rightarrow> json option" where
  "emit_headers t = map_option JObj (header_object t)"

definition emit_host :: "Transport \<Rightarrow> json option" where
  "emit_host t = (if tp_type t = ''http'' \<or> tp_type t = ''httpupgrade'' then emit_text tp_host t else None)"

definition is_text :: "json \<Rightarrow> bool" where
  "is_text v = (case v of JStr _ \<Rightarrow> True | _ \<Rightarrow> False)"

definition ws_host :: "json \<Rightarrow> string \<Rightarrow> string" where
  "ws_host v old = (case v of
     JStr s \<Rightarrow> s
   | JArr vs \<Rightarrow> (case filter is_text vs of w # _ \<Rightarrow> to_str [] w | [] \<Rightarrow> old)
   | _ \<Rightarrow> old)"

definition read_headers :: "json \<Rightarrow> Transport \<Rightarrow> Transport" where
  "read_headers v t =
     (if \<not> is_object v then t
      else let h = to_obj v
        in if tp_type t = ''ws'' \<and> jcontains h ''Host''
           then t\<lparr>tp_host := ws_host (jget h ''Host'') (tp_host t), tp_headers := jsonObjectToQStringList (jremove ''Host'' h)\<rparr>
           else t\<lparr>tp_headers := jsonObjectToQStringList h\<rparr>)"

definition transport_rows :: "'z qt_text_scheme \<Rightarrow> Transport json_row list" where
  "transport_rows Q =
     [(''type'', emit_text tp_type, read_text tp_type_update),
      (''host'', emit_host, read_text tp_host_update),
      (''path'', emit_path, read_text tp_path_update),
      (''method'', emit_text tp_method, read_text tp_method_update),
      (''headers'', emit_headers, read_headers),
      (''idle_timeout'', emit_text tp_idle_timeout, read_text tp_idle_timeout_update),
      (''ping_timeout'', emit_text tp_ping_timeout, read_text tp_ping_timeout_update),
      (''max_early_data'', emit_max_early_data Q, read_int tp_max_early_data_update),
      (''early_data_header_name'', emit_early_data_header, read_text tp_early_data_header_name_update),
      (''service_name'', emit_text tp_service_name, read_text tp_service_name_update)]"

definition Transport_ParseFromJson :: "'z qt_text_scheme \<Rightarrow> jobject \<Rightarrow> Transport \<Rightarrow> bool \<times> Transport" where
  "Transport_ParseFromJson Q ob t = parse_part (transport_rows Q) ob t"

definition plain_transport :: "Transport \<Rightarrow> bool" where
  "plain_transport t \<longleftrightarrow> tp_type t = [] \<or> tp_type t = ''tcp''"

definition Transport_ExportToJson :: "'z qt_text_scheme \<Rightarrow> Transport \<Rightarrow> jobject" where
  "Transport_ExportToJson Q t = (if plain_transport t then [] else export_rows (transport_rows Q) t)"

definition Transport_ExportIdentity :: "Transport \<Rightarrow> jobject" where
  "Transport_ExportIdentity t = (if plain_transport t then [] else [(''type'', JStr (tp_type t))])"

definition Transport_Build :: "'z qt_text_scheme \<Rightarrow> Transport \<Rightarrow> jobject" where
  "Transport_Build Q t = Transport_ExportToJson Q t"

subsection \<open>What a profile shows of its security\<close>

datatype SecurityLevel = SecurityUnknown | SecurityNone | SecurityWeak | SecuritySecure

record security =
  sc_label :: string
  sc_transport :: string
  sc_level :: SecurityLevel

definition isDangerous :: "security \<Rightarrow> bool" where
  "isDangerous i \<longleftrightarrow> sc_level i = SecurityNone \<or> sc_level i = SecurityWeak"

definition DisplayTransportName :: "'z qt_text_scheme \<Rightarrow> string \<Rightarrow> string" where
  "DisplayTransportName Q t =
     (if t = [] \<or> t = ''tcp'' \<or> t = ''raw'' then []
      else if t = ''ws'' then ''WebSocket'' else if t = ''grpc'' then ''gRPC'' else if t = ''http'' then ''HTTP''
      else if t = ''httpupgrade'' then ''HTTPUpgrade'' else if t = ''xhttp'' then ''XHTTP'' else if t = ''quic'' then ''QUIC''
      else qt_upper Q t)"

text \<open>\<open>None\<close> is a class without TLS.\<close>

definition SecurityFromTLS :: "TLS option \<Rightarrow> bool \<Rightarrow> string \<Rightarrow> security" where
  "SecurityFromTLS tls must transport = (case tls of
     Some t \<Rightarrow>
       if rl_enabled (tl_reality t) then \<lparr>sc_label = ''Reality'', sc_transport = transport, sc_level = SecuritySecure\<rparr>
       else if tl_enabled t \<or> must then
         (if tl_insecure t then \<lparr>sc_label = ''Insecure TLS'', sc_transport = transport, sc_level = SecurityWeak\<rparr>
          else \<lparr>sc_label = ''TLS'', sc_transport = transport, sc_level = SecuritySecure\<rparr>)
       else \<lparr>sc_label = ''Raw'', sc_transport = transport, sc_level = SecurityNone\<rparr>
   | None \<Rightarrow> \<lparr>sc_label = ''Raw'', sc_transport = transport, sc_level = SecurityNone\<rparr>)"

definition DisplaySecurity :: "security \<Rightarrow> string" where
  "DisplaySecurity i =
     (if sc_label i = [] then []
      else let shown = (if sc_transport i = [] then sc_label i else sc_transport i @ ''+'' @ sc_label i)
        in if isDangerous i then ''! '' @ shown else shown)"

subsection \<open>The base class with TLS\<close>

text \<open>
  A custom fragment implementation is emitted beside the TLS object, and the core rejects it together
  with TCP fast open.
\<close>

definition or_default :: "string \<Rightarrow> string \<Rightarrow> string" where
  "or_default d s = (if s = [] then d else s)"

definition tls_fragment_object :: "'z proto_settings_scheme \<Rightarrow> jobject" where
  "tls_fragment_object S = jbuild
     [(''enabled'', JBool True), (''size'', JStr (or_default ''10-100'' (ps_fragment_size S))),
      (''sleep'', JStr (or_default ''2-5'' (ps_fragment_sleep S)))]"

definition outbound_Build :: "'z proto_settings_scheme \<Rightarrow> TLS option \<Rightarrow> 'y base_outbound_scheme \<Rightarrow> jobject" where
  "outbound_Build S tls o' =
     (let ob = base_Build o' in case tls of
       None \<Rightarrow> ob
     | Some t \<Rightarrow>
         if tl_enabled t \<and> FragmentEffectivelyOn S t \<and> ps_fragment_implementation S = ''custom''
         then jput ''tls_fragment'' (JObj (tls_fragment_object S)) (jremove ''tcp_fast_open'' ob)
         else ob)"

end
