(* ===== verification/CommonReload.thy ===== *)
theory CommonReload
  imports CommonFields RawRoute
begin

text \<open>
  What is left of TLS, multiplexing and transport settings when they were stored and read back, and
  that the core is given the same as before.
\<close>

lemma parse_rows_nothing [simp]: "parse_rows rows [] r = r"
  by (induction rows) (auto simp: jcontains_def)

lemma parse_part_export:
  "distinct (map fst rows) \<Longrightarrow> snd (parse_part rows (export_rows rows r) r0) = fold (absorb_row r) rows r0"
  using parse_export_rows [of rows r r0] by (cases "export_rows rows r = []") (auto simp: parse_part_def)

lemma export_rows_cong:
  "list_all (\<lambda>(k, emit, rd). emit r = emit s) rows \<Longrightarrow> export_rows rows r = export_rows rows s"
  by (simp add: export_rows_def same_emissions(1))

lemma export_rows_nonempty:
  assumes "distinct (map fst rows)" "(k, emit, rd) \<in> set rows" "emit r \<noteq> None"
  shows "export_rows rows r \<noteq> []"
  using map_of_export_rows [OF assms(1,2), of r] assms(3) by auto

lemma jget_export: "distinct (map fst rows) \<Longrightarrow> (k, emit, rd) \<in> set rows \<Longrightarrow>
    jget (export_rows rows r) k = (case emit r of None \<Rightarrow> JUndefined | Some v \<Rightarrow> v)"
  by (simp add: jget_def map_of_export_rows)

subsection \<open>TLS\<close>

lemma part_keys [simp]: "distinct (map fst utls_rows)" "distinct (map fst ech_rows)" "distinct (map fst reality_rows)"
  by (simp_all add: utls_rows_def ech_rows_def reality_rows_def)

lemma utls_reload: "ut_enabled u \<Longrightarrow>
    snd (parse_part utls_rows (utls_ExportToJson u) (new_uTLS (ut_supported u))) = u"
  by (cases u) (simp add: utls_ExportToJson_def parse_part_export utls_rows_def new_uTLS_def row_kinds)

lemma ech_reload: "eh_enabled e \<Longrightarrow> snd (parse_part ech_rows (ech_ExportToJson e) new_ECH) = e"
  by (cases e) (auto simp: ech_ExportToJson_def parse_part_export ech_rows_def new_ECH_def row_kinds QListString_roundtrip)

lemma reality_reload: "rl_enabled r \<Longrightarrow> snd (parse_part reality_rows (reality_ExportToJson r) new_Reality) = r"
  by (cases r) (simp add: reality_ExportToJson_def parse_part_export reality_rows_def new_Reality_def row_kinds)

definition tri_ok :: "bool \<Rightarrow> bool \<Rightarrow> bool" where
  "tri_ok on unspecified \<longleftrightarrow> \<not> (on \<and> unspecified)"

text \<open>\<open>utls\<close> tells whether the class supports uTLS. A Reality section that is off holds no key.\<close>

definition tls_ok :: "bool \<Rightarrow> TLS \<Rightarrow> bool" where
  "tls_ok utls t \<longleftrightarrow> ut_supported (tl_utls t) = utls \<and> tri_ok (tl_fragment t) (tl_fragment_unspecified t) \<and>
     tri_ok (tl_tricks t) (tl_tricks_unspecified t) \<and> (rl_enabled (tl_reality t) \<or> rl_public_key (tl_reality t) = [])"

definition tls_reloaded :: "bool \<Rightarrow> TLS \<Rightarrow> TLS" where
  "tls_reloaded utls t =
     (if \<not> tl_enabled t then new_TLS utls
      else t\<lparr>tl_ech := if eh_enabled (tl_ech t) then tl_ech t else new_ECH,
             tl_utls := if ut_enabled (tl_utls t) then tl_utls t else new_uTLS utls,
             tl_reality := if rl_enabled (tl_reality t) then tl_reality t else new_Reality\<rparr>)"

lemma tls_common_keys: "distinct (map fst tls_common_rows)"
  by code_simp

lemma tls_keys: "distinct (map fst tls_rows)"
  by code_simp

lemma absorb_listable: "upd (\<lambda>_. []) r0 = r0 \<Longrightarrow>
    (case emit_texts get r of None \<Rightarrow> r0 | Some v \<Rightarrow> read_listable upd v r0) = upd (\<lambda>_. get r) r0"
  by (simp add: emit_texts_def read_listable_def)

lemma absorb_fragment:
  "\<not> tl_fragment r0 \<Longrightarrow> tl_fragment_unspecified r0 \<Longrightarrow> tri_ok (tl_fragment t) (tl_fragment_unspecified t) \<Longrightarrow>
    (case (if tl_fragment_unspecified t then None else Some (JBool (tl_fragment t))) of
       None \<Rightarrow> r0 | Some v \<Rightarrow> read_fragment v r0) =
    r0\<lparr>tl_fragment := tl_fragment t, tl_fragment_unspecified := tl_fragment_unspecified t\<rparr>"
  by (cases r0) (auto simp: read_fragment_def tri_ok_def)

lemma absorb_tricks:
  "\<not> tl_tricks r0 \<Longrightarrow> tl_tricks_unspecified r0 \<Longrightarrow> tri_ok (tl_tricks t) (tl_tricks_unspecified t) \<Longrightarrow>
    (case (if tl_tricks_unspecified t then None else Some (JObj (mixedcase_sni (tl_tricks t)))) of
       None \<Rightarrow> r0 | Some v \<Rightarrow> read_tricks v r0) =
    r0\<lparr>tl_tricks := tl_tricks t, tl_tricks_unspecified := tl_tricks_unspecified t\<rparr>"
  by (cases r0) (auto simp: read_tricks_def tri_ok_def mixedcase_sni_def jget_def)

lemma absorb_parts:
  "tl_ech r0 = new_ECH \<Longrightarrow>
    (case emit_when (eh_enabled \<circ> tl_ech) (ech_ExportToJson \<circ> tl_ech) t of None \<Rightarrow> r0 | Some v \<Rightarrow> read_ech v r0) =
    r0\<lparr>tl_ech := if eh_enabled (tl_ech t) then tl_ech t else new_ECH\<rparr>"
  "tl_utls r0 = new_uTLS (ut_supported (tl_utls t)) \<Longrightarrow>
    (case emit_when (ut_enabled \<circ> tl_utls) (utls_ExportToJson \<circ> tl_utls) t of None \<Rightarrow> r0 | Some v \<Rightarrow> read_utls v r0) =
    r0\<lparr>tl_utls := if ut_enabled (tl_utls t) then tl_utls t else new_uTLS (ut_supported (tl_utls t))\<rparr>"
  "tl_reality r0 = new_Reality \<Longrightarrow>
    (case emit_when (rl_enabled \<circ> tl_reality) (reality_ExportToJson \<circ> tl_reality) t of None \<Rightarrow> r0 | Some v \<Rightarrow> read_reality v r0) =
    r0\<lparr>tl_reality := if rl_enabled (tl_reality t) then tl_reality t else new_Reality\<rparr>"
  by (auto simp: emit_when_def read_ech_def read_utls_def read_reality_def ech_reload utls_reload reality_reload)

lemma TLS_reload:
  assumes "tls_ok utls t"
  shows "snd (TLS_ParseFromJson (TLS_ExportToJson t) (new_TLS utls)) = tls_reloaded utls t"
proof (cases "tl_enabled t")
  case False then show ?thesis by (simp add: TLS_ExportToJson_def TLS_ParseFromJson_def tls_reloaded_def)
next
  case True
  have ne: "export_rows tls_rows t \<noteq> []"
    by (rule export_rows_nonempty [OF tls_keys, of "''enabled''" "emit_flag tl_enabled" "read_flag tl_enabled_update"])
      (use True in \<open>simp_all add: tls_rows_def tls_common_rows_def emit_flag_def\<close>)
  have start: "new_TLS utls\<lparr>tl_fragment_unspecified := True, tl_tricks_unspecified := True\<rparr> = new_TLS utls"
    by (simp add: new_TLS_def)
  have "snd (TLS_ParseFromJson (TLS_ExportToJson t) (new_TLS utls)) = fold (absorb_row t) tls_rows (new_TLS utls)"
    using ne True by (simp add: TLS_ExportToJson_def TLS_ParseFromJson_def start parse_export_rows tls_keys)
  also have "\<dots> = tls_reloaded utls t"
    using True assms
    by (simp add: tls_rows_def tls_common_rows_def new_TLS_def absorb_kinds absorb_listable absorb_fragment
        absorb_tricks absorb_parts tls_reloaded_def tls_ok_def)
  finally show ?thesis .
qed

lemma tls_build_reloaded:
  assumes "tls_ok utls t"
  shows "TLS_Build S (tls_reloaded utls t) = TLS_Build S t"
proof (cases "tl_enabled t")
  case True
  then have "list_all (\<lambda>(k, emit, rd). emit (tls_reloaded utls t) = emit t) (tls_build_rows S)"
    using assms
    by (auto simp: tls_build_rows_def tls_common_rows_def tls_reloaded_def row_kinds emit_when_def built_in_fragment_def
        FragmentEffectivelyOn_def TlsTricksEffectivelyOn_def ech_Build_def ech_ExportToJson_def new_ECH_def
        built_utls_def utls_Build_def utls_ExportToJson_def new_uTLS_def reality_Build_def new_Reality_def tls_ok_def Let_def)
  then show ?thesis using True by (simp add: TLS_Build_def export_rows_cong tls_reloaded_def)
qed (simp add: TLS_Build_def tls_reloaded_def new_TLS_def)

lemma tls_reloaded_keeps:
  "tl_enabled (tls_reloaded utls t) = tl_enabled t"
  "tl_enabled t \<Longrightarrow> FragmentEffectivelyOn S (tls_reloaded utls t) = FragmentEffectivelyOn S t"
  by (simp_all add: tls_reloaded_def FragmentEffectivelyOn_def new_TLS_def)

subsection \<open>Multiplexing\<close>

text \<open>Left to the settings, it holds nothing else; its numbers are not negative.\<close>

definition mux_ok :: "Multiplex \<Rightarrow> bool" where
  "mux_ok m \<longleftrightarrow> (mx_unspecified m \<longrightarrow> \<not> mx_enabled m \<and> mx_protocol m = [] \<and> mx_max_connections m = 0 \<and>
       mx_min_streams m = 0 \<and> mx_max_streams m = 0) \<and>
     (\<forall>n\<in>{mx_max_connections m, mx_min_streams m, mx_max_streams m}. 0 \<le> n \<and> is_int32 n) \<and>
     is_int32 (tb_up_mbps (mx_brutal m)) \<and> is_int32 (tb_down_mbps (mx_brutal m))"

definition brutal_reloaded :: "TcpBrutal \<Rightarrow> TcpBrutal" where
  "brutal_reloaded b = (if tb_enabled b
     then b\<lparr>tb_up_mbps := max 1 (tb_up_mbps b), tb_down_mbps := max 1 (tb_down_mbps b)\<rparr> else new_TcpBrutal)"

definition mux_reloaded :: "Multiplex \<Rightarrow> Multiplex" where
  "mux_reloaded m =
     (if mx_unspecified m then new_Multiplex
      else if \<not> mx_enabled m then new_Multiplex\<lparr>mx_unspecified := False\<rparr>
      else m\<lparr>mx_brutal := brutal_reloaded (mx_brutal m)\<rparr>)"

lemma mux_keys [simp]: "distinct (map fst mux_rows)" "distinct (map fst brutal_rows)"
  by (simp_all add: mux_rows_def brutal_rows_def)

lemma brutal_reload: "tb_enabled b \<Longrightarrow> is_int32 (tb_up_mbps b) \<Longrightarrow> is_int32 (tb_down_mbps b) \<Longrightarrow>
    snd (parse_part brutal_rows (brutal_ExportToJson b) new_TcpBrutal) = brutal_reloaded b"
  by (simp add: brutal_ExportToJson_def parse_part_export brutal_rows_def new_TcpBrutal_def brutal_reloaded_def
      absorb_kinds emit_always_def at_least_one_def read_int_def is_int32_def max_def)

lemma absorb_brutal:
  "mx_brutal r0 = new_TcpBrutal \<Longrightarrow> is_int32 (tb_up_mbps (mx_brutal m)) \<Longrightarrow> is_int32 (tb_down_mbps (mx_brutal m)) \<Longrightarrow>
    (case emit_when (tb_enabled \<circ> mx_brutal) (brutal_ExportToJson \<circ> mx_brutal) m of None \<Rightarrow> r0 | Some v \<Rightarrow> read_brutal v r0) =
    r0\<lparr>mx_brutal := brutal_reloaded (mx_brutal m)\<rparr>"
  by (auto simp: emit_when_def read_brutal_def brutal_reload) (simp add: brutal_reloaded_def)

lemma Multiplex_reload:
  assumes "mux_ok m"
  shows "snd (Multiplex_ParseFromJson (Multiplex_ExportToJson m) new_Multiplex) = mux_reloaded m"
proof -
  have start: "new_Multiplex\<lparr>mx_unspecified := True\<rparr> = new_Multiplex" by (simp add: new_Multiplex_def)
  have ne: "export_rows mux_rows m \<noteq> []"
    by (rule export_rows_nonempty [OF mux_keys(1), of "''enabled''" "\<lambda>m. Some (JBool (mx_enabled m))" read_mux_enabled])
      (simp_all add: mux_rows_def)
  have off: "parse_rows mux_rows [(''enabled'', JBool False)] new_Multiplex = new_Multiplex\<lparr>mx_unspecified := False\<rparr>"
    by (simp add: mux_rows_def jcontains_def jget_def read_mux_enabled_def new_Multiplex_def)
  show ?thesis
    using assms ne
    by (auto simp: Multiplex_ParseFromJson_def Multiplex_ExportToJson_def mux_reloaded_def start off
        parse_export_rows)
      (simp add: mux_rows_def new_Multiplex_def absorb_kinds absorb_brutal mux_ok_def read_mux_enabled_def)
qed

lemma brutal_build_reloaded [simp]: "brutal_ExportToJson (brutal_reloaded b) = brutal_ExportToJson b"
proof (cases "tb_enabled b")
  case True
  then have "list_all (\<lambda>(k, emit, rd). emit (brutal_reloaded b) = emit b) brutal_rows"
    by (simp add: brutal_rows_def brutal_reloaded_def row_kinds emit_always_def at_least_one_def max_def)
  then show ?thesis using True by (simp add: brutal_ExportToJson_def export_rows_cong brutal_reloaded_def)
qed (simp add: brutal_ExportToJson_def brutal_reloaded_def new_TcpBrutal_def)

lemma brutal_reloaded_enabled [simp]: "tb_enabled (brutal_reloaded b) = tb_enabled b"
  by (simp add: brutal_reloaded_def new_TcpBrutal_def)

lemma mux_export_reloaded: "Multiplex_ExportToJson (mux_reloaded m) = Multiplex_ExportToJson m"
proof (cases "mx_unspecified m \<or> \<not> mx_enabled m")
  case False
  then have "list_all (\<lambda>(k, emit, rd). emit (mux_reloaded m) = emit m) mux_rows"
    by (simp add: mux_rows_def mux_reloaded_def row_kinds emit_when_def)
  then show ?thesis using False by (simp add: Multiplex_ExportToJson_def export_rows_cong mux_reloaded_def)
qed (auto simp: Multiplex_ExportToJson_def mux_reloaded_def new_Multiplex_def)

lemma mux_build_reloaded:
  assumes "mux_ok m"
  shows "Multiplex_Build S (mux_reloaded m) = Multiplex_Build S m"
proof (cases "mx_unspecified m \<or> mx_enabled m")
  case True
  have "mx_protocol (mux_reloaded m) = mx_protocol m" "mx_max_streams (mux_reloaded m) = mx_max_streams m"
    "mx_max_connections (mux_reloaded m) = mx_max_connections m" "mx_min_streams (mux_reloaded m) = mx_min_streams m"
    "mx_unspecified (mux_reloaded m) = mx_unspecified m"
    using assms True by (auto simp: mux_reloaded_def new_Multiplex_def mux_ok_def)
  then show ?thesis by (simp only: Multiplex_Build_def mux_export_reloaded)
next
  case False
  then have "Multiplex_ExportToJson m = [(''enabled'', JBool False)]" by (simp add: Multiplex_ExportToJson_def)
  moreover have "\<not> mx_unspecified (mux_reloaded m)" using False by (simp add: mux_reloaded_def)
  ultimately show ?thesis using False by (simp add: Multiplex_Build_def mux_export_reloaded jget_def Let_def)
qed

subsection \<open>Transport\<close>

lemma is_text_JStr [simp]: "is_text (JStr s)"
  by (simp add: is_text_def)

lemma header_pairs_list: "list_all (\<lambda>(k, v). is_text v) ob \<Longrightarrow> header_pairs (jsonObjectToQStringList ob) = ob"
  by (induction ob) (auto simp: jsonObjectToQStringList_def is_text_def split: json.splits)

lemma even_header_list: "even (length (jsonObjectToQStringList ob))"
  by (induction ob) (auto simp: jsonObjectToQStringList_def)

lemma headers_back: "wf_object ob \<Longrightarrow> list_all (\<lambda>(k, v). is_text v) ob \<Longrightarrow>
    qStringListToJsonObject (jsonObjectToQStringList ob) = ob"
  by (simp add: qStringListToJsonObject_def even_header_list header_pairs_list jbuild_sorted)

lemma header_list_empty [simp]: "jsonObjectToQStringList ob = [] \<longleftrightarrow> ob = []"
  by (cases ob) (auto simp: jsonObjectToQStringList_def)

lemma jput_texts: "list_all (\<lambda>(k, v). is_text v) ob \<Longrightarrow> is_text v \<Longrightarrow> list_all (\<lambda>(k, v). is_text v) (jput k v ob)"
  by (induction k v ob rule: jput.induct) auto

lemma jputs_texts: "list_all (\<lambda>(k, v). is_text v) fs \<Longrightarrow> list_all (\<lambda>(k, v). is_text v) ob \<Longrightarrow>
    list_all (\<lambda>(k, v). is_text v) (fold (\<lambda>(k, v). jput k v) fs ob)"
  by (induction fs arbitrary: ob) (auto intro: jput_texts)

lemma header_texts: "list_all (\<lambda>(k, v). is_text v) (qStringListToJsonObject hs)"
proof -
  have "list_all (\<lambda>(k, v). is_text v) (header_pairs hs)"
    by (induction hs rule: header_pairs.induct) (auto simp: is_text_def)
  then show ?thesis by (auto simp: qStringListToJsonObject_def jbuild_def intro: jputs_texts)
qed

lemma header_wf: "wf_object (qStringListToJsonObject hs)"
  by (simp add: qStringListToJsonObject_def wf_jbuild) (simp add: wf_object_def)

lemma header_nonempty: "even (length hs) \<Longrightarrow> hs \<noteq> [] \<Longrightarrow> qStringListToJsonObject hs \<noteq> []"
  by (cases hs rule: header_pairs.cases) (auto simp: qStringListToJsonObject_def jbuild_nonempty)

lemma wf_jremove: "wf_object ob \<Longrightarrow> wf_object (jremove k ob)"
  unfolding wf_object_def jremove_def by (induction ob) (auto simp: case_prod_beta')

lemma jput_jremove: "wf_object ob \<Longrightarrow> map_of ob k = Some v \<Longrightarrow> jput k v (jremove k ob) = ob"
proof (induction ob)
  case (Cons a ob)
  obtain k' v' where a: "a = (k', v')" by (cases a)
  have less: "\<forall>(k'', v'') \<in> set ob. k' < k''" using Cons.prems(1) by (auto simp: wf_object_def a)
  show ?case
  proof (cases "k = k'")
    case True
    then have "jremove k ob = ob" using less by (auto simp: jremove_def intro!: filter_True)
    moreover have "jput k v ob = (k, v) # ob" using less True by (cases ob) auto
    ultimately show ?thesis using True Cons.prems by (simp add: a jremove_def)
  next
    case False
    then have "map_of ob k = Some v" using Cons.prems(2) by (simp add: a)
    then have "k' < k" using less by (auto dest!: map_of_SomeD)
    then show ?thesis using Cons False by (auto simp: a jremove_def wf_object_def)
  qed
qed simp

lemma map_of_jremove: "map_of (jremove k ob) k = None"
  by (auto simp: jremove_def map_of_eq_None_iff)

lemma header_object_wf: "header_object t = Some h \<Longrightarrow> wf_object h \<and> list_all (\<lambda>(k, v). is_text v) h"
proof -
  assume h: "header_object t = Some h"
  have "wf_object ([] :: jobject)" by (simp add: wf_object_def)
  then show ?thesis using h header_texts [of "tp_headers t"] header_wf [of "tp_headers t"]
    by (auto simp: header_object_def Let_def wf_object_def [of "[_]"] intro!: wf_jput jput_texts split: if_splits)
qed

lemma cut_at_append: "cut_at sub s = Some (a, b) \<Longrightarrow> s = a @ sub @ b"
proof (induction s arbitrary: a)
  case (Cons c cs)
  show ?case
  proof (cases "starts_with (c # cs) sub")
    case True
    then have "c # cs = sub @ drop (length sub) (c # cs)" unfolding starts_with_def by (metis append_take_drop_id)
    then show ?thesis using Cons.prems True by simp
  qed (use Cons in auto)
qed (auto split: if_splits)

lemma starts_with_prefix: "starts_with a sub \<Longrightarrow> starts_with (a @ b) sub"
  by (metis append_take_drop_id append_assoc starts_with_append starts_with_def)

lemma cut_at_prefix: "cut_at sub s = Some (a, b) \<Longrightarrow> sub \<noteq> [] \<Longrightarrow> cut_at sub a = None"
proof (induction s arbitrary: a)
  case (Cons c cs)
  show ?case
  proof (cases "starts_with (c # cs) sub")
    case False
    then obtain a' where a: "a = c # a'" "cut_at sub cs = Some (a', b)" using Cons.prems by auto
    then have "c # cs = a @ sub @ b" using cut_at_append [of sub cs a' b] by simp
    then have "\<not> starts_with a sub" using False starts_with_prefix [of a sub "sub @ b"] by auto
    then show ?thesis using Cons a by simp
  qed (use Cons in \<open>auto split: if_splits\<close>)
qed (auto split: if_splits)

text \<open>Headers come in pairs, a WebSocket host header is not empty, early data in the path is a number.\<close>

definition transport_ok :: "'z qt_text_scheme \<Rightarrow> Transport \<Rightarrow> bool" where
  "transport_ok Q t \<longleftrightarrow> even (length (tp_headers t)) \<and>
     (tp_type t = ''ws'' \<longrightarrow> (case header_object t of None \<Rightarrow> True | Some h \<Rightarrow> jget h ''Host'' \<noteq> JStr [])) \<and>
     (case early_data (tp_path t) of
        None \<Rightarrow> 0 \<le> tp_max_early_data t \<and> is_int32 (tp_max_early_data t)
      | Some (a, b) \<Rightarrow> a \<noteq> [] \<and> 0 < qt_int Q b \<and> is_int32 (qt_int Q b))"

definition transport_reloaded :: "'z qt_text_scheme \<Rightarrow> Transport \<Rightarrow> Transport" where
  "transport_reloaded Q t =
     (if plain_transport t then new_Transport else fold (absorb_row t) (transport_rows Q) new_Transport)"

lemma transport_keys [simp]: "distinct (map fst (transport_rows Q))"
  by (simp add: transport_rows_def)

lemma Transport_reload:
  "snd (Transport_ParseFromJson Q (Transport_ExportToJson Q t) new_Transport) = transport_reloaded Q t"
  by (simp add: Transport_ParseFromJson_def Transport_ExportToJson_def transport_reloaded_def parse_part_export)
    (simp add: parse_part_def)

text \<open>The pairs of a path and its early data that storing gives back.\<close>

lemma early_data_none: "early_data p = Some (a, b) \<Longrightarrow> early_data a = None"
  using cut_at_prefix [of "''?ed=''" p a] by (auto simp: early_data_def split: option.splits)

lemma headers_reload:
  assumes "header_object t = Some h" "transport_ok Q t" "tp_type r = tp_type t" "tp_headers r = []"
    and "tp_host r = (if tp_type t = ''http'' \<or> tp_type t = ''httpupgrade'' then tp_host t else [])"
  shows "header_object (read_headers (JObj h) r) = Some h"
proof -
  have h: "wf_object h" "list_all (\<lambda>(k, v). is_text v) h" using header_object_wf [OF assms(1)] by auto
  have ne: "h \<noteq> []"
    using assms(1,2) header_nonempty [of "tp_headers t"]
    by (auto simp: header_object_def Let_def transport_ok_def split: if_splits)
  show ?thesis
  proof (cases "tp_type t = ''ws'' \<and> jcontains h ''Host''")
    case True
    then obtain v where v: "map_of h ''Host'' = Some v" by (auto simp: jcontains_def)
    then have "is_text v" using h(2) by (auto simp: list_all_iff dest!: map_of_SomeD)
    then obtain s where s: "v = JStr s" by (cases v) (auto simp: is_text_def)
    have "s \<noteq> []" using assms(1,2) True v s by (auto simp: transport_ok_def jget_def)
    moreover have "jput ''Host'' (JStr s) (jremove ''Host'' h) = h" using jput_jremove h(1) v s by blast
    moreover have "qStringListToJsonObject (jsonObjectToQStringList (jremove ''Host'' h)) = jremove ''Host'' h"
      using wf_jremove [OF h(1)] h(2) by (intro headers_back) (auto simp: jremove_def list_all_iff)
    ultimately show ?thesis using True assms(3,4) v s
      by (auto simp: read_headers_def header_object_def is_object_def ws_host_def jget_def Let_def)
  next
    case False
    have "qStringListToJsonObject (jsonObjectToQStringList h) = h" using h by (rule headers_back)
    then show ?thesis using False assms(3,5) ne
      by (auto simp: read_headers_def header_object_def is_object_def Let_def)
  qed
qed

lemma read_headers_fields [simp]:
  "tp_type (read_headers v r) = tp_type r" "tp_path (read_headers v r) = tp_path r"
  "tp_method (read_headers v r) = tp_method r" "tp_idle_timeout (read_headers v r) = tp_idle_timeout r"
  "tp_ping_timeout (read_headers v r) = tp_ping_timeout r" "tp_max_early_data (read_headers v r) = tp_max_early_data r"
  "tp_early_data_header_name (read_headers v r) = tp_early_data_header_name r"
  "tp_service_name (read_headers v r) = tp_service_name r"
  "tp_type r \<noteq> ''ws'' \<Longrightarrow> tp_host (read_headers v r) = tp_host r"
  by (simp_all add: read_headers_def Let_def)

definition kept_path :: "Transport \<Rightarrow> string" where
  "kept_path t = (case early_data (tp_path t) of Some (a, _) \<Rightarrow> a | None \<Rightarrow> tp_path t)"

definition kept_host :: "Transport \<Rightarrow> string" where
  "kept_host t = (if tp_type t = ''http'' \<or> tp_type t = ''httpupgrade'' then tp_host t else [])"

definition kept_early :: "'z qt_text_scheme \<Rightarrow> Transport \<Rightarrow> int \<times> string" where
  "kept_early Q t = (case early_data (tp_path t) of
     Some (_, b) \<Rightarrow> (qt_int Q b, ''Sec-WebSocket-Protocol'')
   | None \<Rightarrow> (tp_max_early_data t, tp_early_data_header_name t))"

definition before_headers :: "Transport \<Rightarrow> Transport" where
  "before_headers t = new_Transport\<lparr>tp_type := tp_type t, tp_host := kept_host t, tp_path := kept_path t, tp_method := tp_method t\<rparr>"

definition with_headers :: "Transport \<Rightarrow> Transport" where
  "with_headers t = (case emit_headers t of None \<Rightarrow> before_headers t | Some v \<Rightarrow> read_headers v (before_headers t))"

lemma with_headers_fields [simp]:
  "tp_type (with_headers t) = tp_type t" "tp_path (with_headers t) = kept_path t"
  "tp_method (with_headers t) = tp_method t" "tp_idle_timeout (with_headers t) = []"
  "tp_ping_timeout (with_headers t) = []" "tp_max_early_data (with_headers t) = 0"
  "tp_early_data_header_name (with_headers t) = []" "tp_service_name (with_headers t) = []"
  "tp_type t \<noteq> ''ws'' \<Longrightarrow> tp_host (with_headers t) = kept_host t"
  by (simp_all add: with_headers_def before_headers_def new_Transport_def split: option.splits)

lemma absorb_transport:
  "upd (\<lambda>_. []) r0 = r0 \<Longrightarrow> (case emit_host t of None \<Rightarrow> r0 | Some v \<Rightarrow> read_text upd v r0) = upd (\<lambda>_. kept_host t) r0"
  "upd (\<lambda>_. []) r0 = r0 \<Longrightarrow> (case emit_path t of None \<Rightarrow> r0 | Some v \<Rightarrow> read_text upd v r0) = upd (\<lambda>_. kept_path t) r0"
  by (auto simp: emit_host_def emit_path_def emit_text_def read_text_def kept_host_def kept_path_def split: option.splits)

lemma absorb_early:
  "transport_ok Q t \<Longrightarrow> iupd (\<lambda>_. 0) r0 = r0 \<Longrightarrow>
    (case emit_max_early_data Q t of None \<Rightarrow> r0 | Some v \<Rightarrow> read_int iupd v r0) = iupd (\<lambda>_. fst (kept_early Q t)) r0"
  "upd (\<lambda>_. []) r0 = r0 \<Longrightarrow>
    (case emit_early_data_header t of None \<Rightarrow> r0 | Some v \<Rightarrow> read_text upd v r0) = upd (\<lambda>_. snd (kept_early Q t)) r0"
  by (auto simp: emit_max_early_data_def emit_early_data_header_def emit_text_def emit_pos_def read_text_def read_int_def
      kept_early_def transport_ok_def split: option.splits)

lemma transport_reloaded_eq:
  assumes "transport_ok Q t" "\<not> plain_transport t"
  shows "transport_reloaded Q t = (with_headers t)
    \<lparr>tp_idle_timeout := tp_idle_timeout t, tp_ping_timeout := tp_ping_timeout t,
     tp_max_early_data := fst (kept_early Q t), tp_early_data_header_name := snd (kept_early Q t),
     tp_service_name := tp_service_name t\<rparr>"
proof -
  have before: "fold (absorb_row t) (take 4 (transport_rows Q)) new_Transport = before_headers t"
    by (simp add: transport_rows_def before_headers_def absorb_text absorb_transport new_Transport_def)
  obtain w where w: "with_headers t = w" by simp
  have unset: "tp_idle_timeout w = []" "tp_ping_timeout w = []" "tp_max_early_data w = 0"
      "tp_early_data_header_name w = []" "tp_service_name w = []"
    using with_headers_fields [of t] by (simp_all add: w)
  have "fold (absorb_row t) (transport_rows Q) new_Transport =
      fold (absorb_row t) (drop 5 (transport_rows Q)) (absorb_row t (''headers'', emit_headers, read_headers) (before_headers t))"
    unfolding before [symmetric] by (simp add: transport_rows_def)
  also have "\<dots> = fold (absorb_row t) (drop 5 (transport_rows Q)) w"
    by (simp add: with_headers_def flip: w)
  also have "\<dots> = w\<lparr>tp_idle_timeout := tp_idle_timeout t, tp_ping_timeout := tp_ping_timeout t,
     tp_max_early_data := fst (kept_early Q t), tp_early_data_header_name := snd (kept_early Q t),
     tp_service_name := tp_service_name t\<rparr>"
    using unset by (cases w) (simp add: transport_rows_def absorb_text absorb_early(1) [OF assms(1)] absorb_early(2) [where Q = Q])
  finally show ?thesis using assms(2) by (simp add: transport_reloaded_def w)
qed

lemma transport_build_reloaded:
  assumes ok: "transport_ok Q t"
  shows "Transport_ExportToJson Q (transport_reloaded Q t) = Transport_ExportToJson Q t"
proof (cases "plain_transport t")
  case False
  let ?r = "transport_reloaded Q t"
  note eq = transport_reloaded_eq [OF ok False]
  have early: "early_data (kept_path t) = None"
    using early_data_none by (auto simp: kept_path_def split: option.splits)
  have headers: "header_object ?r = header_object t"
  proof -
    have "header_object ?r = header_object (with_headers t)" by (simp add: eq header_object_def)
    also have "\<dots> = header_object t"
    proof (cases "header_object t")
      case None
      then show ?thesis
        by (auto simp: with_headers_def emit_headers_def before_headers_def header_object_def kept_host_def new_Transport_def
            Let_def split: if_splits)
    next
      case (Some h)
      then show ?thesis
        using headers_reload [OF Some ok, of "before_headers t"]
        by (simp add: with_headers_def emit_headers_def before_headers_def new_Transport_def kept_host_def)
    qed
    finally show ?thesis .
  qed
  have "list_all (\<lambda>(k, emit, rd). emit ?r = emit t) (transport_rows Q)"
    using headers ok early
    by (auto simp: transport_rows_def eq emit_text_def emit_host_def kept_host_def emit_path_def emit_headers_def
        emit_max_early_data_def emit_early_data_header_def emit_pos_def kept_early_def kept_path_def transport_ok_def
        split: option.splits)
  then have "export_rows (transport_rows Q) ?r = export_rows (transport_rows Q) t" by (rule export_rows_cong)
  then show ?thesis using False by (simp add: Transport_ExportToJson_def plain_transport_def eq)
qed (simp add: Transport_ExportToJson_def transport_reloaded_def new_Transport_def plain_transport_def)

end
