(* ===== verification/Protocols.thy ===== *)
theory Protocols
  imports CommonFields
begin

text \<open>
  The protocol classes under \<^verbatim>\<open>src/configs/outbounds\<close>: what each stores as JSON, what it reads back
  and what it builds for the core. \<open>ExportToJson\<close> and \<open>Build\<close> write the same members in the same
  order and differ in the parts they call, so a class is one list of rows over \<open>parts\<close>. Links and
  Clash entries are not modelled.
\<close>

record parts =
  pt_tls :: "TLS \<Rightarrow> jobject"
  pt_transport :: "Transport \<Rightarrow> jobject"
  pt_mux :: "Multiplex \<Rightarrow> jobject"

definition stored_parts :: "'z qt_text_scheme \<Rightarrow> parts" where
  "stored_parts Q = \<lparr>pt_tls = TLS_ExportToJson, pt_transport = Transport_ExportToJson Q, pt_mux = Multiplex_ExportToJson\<rparr>"

definition built_parts :: "'z proto_settings_scheme \<Rightarrow> parts" where
  "built_parts S = \<lparr>pt_tls = TLS_Build S, pt_transport = Transport_Build S, pt_mux = Multiplex_Build S\<rparr>"

definition emit_part :: "('p \<Rightarrow> jobject) \<Rightarrow> ('r \<Rightarrow> 'p) \<Rightarrow> 'r \<Rightarrow> json option" where
  "emit_part f get r = emit_object (f (get r))"

definition read_tls :: "((TLS \<Rightarrow> TLS) \<Rightarrow> 'r \<Rightarrow> 'r) \<Rightarrow> json \<Rightarrow> 'r \<Rightarrow> 'r" where
  "read_tls upd v = upd (\<lambda>t. snd (TLS_ParseFromJson (to_obj v) t))"

definition read_transport :: "'z qt_text_scheme \<Rightarrow> ((Transport \<Rightarrow> Transport) \<Rightarrow> 'r \<Rightarrow> 'r) \<Rightarrow> json \<Rightarrow> 'r \<Rightarrow> 'r" where
  "read_transport Q upd v = upd (\<lambda>t. snd (Transport_ParseFromJson Q (to_obj v) t))"

definition read_mux :: "((Multiplex \<Rightarrow> Multiplex) \<Rightarrow> 'r \<Rightarrow> 'r) \<Rightarrow> json \<Rightarrow> 'r \<Rightarrow> 'r" where
  "read_mux upd v = upd (\<lambda>m. snd (Multiplex_ParseFromJson (to_obj v) m))"

text \<open>UDP over TCP is a flag or an object with one.\<close>

definition read_uot :: "((bool \<Rightarrow> bool) \<Rightarrow> 'r \<Rightarrow> 'r) \<Rightarrow> json \<Rightarrow> 'r \<Rightarrow> 'r" where
  "read_uot upd v r = (case v of
     JBool b \<Rightarrow> upd (\<lambda>_. b) r
   | JObj ob \<Rightarrow> upd (\<lambda>_. to_bool False (jget ob ''enabled'')) r
   | _ \<Rightarrow> r)"

definition read_header_list :: "((string list \<Rightarrow> string list) \<Rightarrow> 'r \<Rightarrow> 'r) \<Rightarrow> json \<Rightarrow> 'r \<Rightarrow> 'r" where
  "read_header_list upd v r = (case v of JObj ob \<Rightarrow> upd (\<lambda>_. jsonObjectToQStringList ob) r | _ \<Rightarrow> r)"

text \<open>Every class begins so.\<close>

definition parse_class :: "string \<Rightarrow> 'z base_outbound_scheme json_row list \<Rightarrow> jobject \<Rightarrow> 'z base_outbound_scheme \<Rightarrow>
    bool \<times> 'z base_outbound_scheme" where
  "parse_class t rows ob x =
     (if ob = [] \<or> to_str [] (jget ob ''type'') \<noteq> t then (False, x)
      else (True, parse_rows rows ob (snd (base_ParseFromJson ob x))))"

subsection \<open>Trojan\<close>

record trojan = base_outbound +
  trojan_password :: string
  trojan_tls :: TLS
  trojan_transport :: Transport
  trojan_multiplex :: Multiplex

definition new_trojan :: trojan where
  "new_trojan = \<lparr>bo_name = [], bo_server = [], bo_server_port = 0, bo_dial = new_dialFields, trojan_password = [],
     trojan_tls = new_TLS True, trojan_transport = new_Transport, trojan_multiplex = new_Multiplex\<rparr>"

definition trojan_rows :: "'z qt_text_scheme \<Rightarrow> parts \<Rightarrow> trojan json_row list" where
  "trojan_rows Q P =
     [(''password'', emit_text trojan_password, read_text trojan_password_update),
      (''tls'', emit_part (pt_tls P) trojan_tls, read_tls trojan_tls_update),
      (''transport'', emit_part (pt_transport P) trojan_transport, read_transport Q trojan_transport_update),
      (''multiplex'', emit_part (pt_mux P) trojan_multiplex, read_mux trojan_multiplex_update)]"

definition trojan_ParseFromJson :: "'z qt_text_scheme \<Rightarrow> jobject \<Rightarrow> trojan \<Rightarrow> bool \<times> trojan" where
  "trojan_ParseFromJson Q ob x = parse_class ''trojan'' (trojan_rows Q (stored_parts Q)) ob x"

definition trojan_ExportToJson :: "'z qt_text_scheme \<Rightarrow> trojan \<Rightarrow> jobject" where
  "trojan_ExportToJson Q x = class_object ''trojan'' (trojan_rows Q (stored_parts Q)) x (base_ExportToJson x)"

definition trojan_Build :: "'z proto_settings_scheme \<Rightarrow> trojan \<Rightarrow> jobject" where
  "trojan_Build S x = class_object ''trojan'' (trojan_rows S (built_parts S)) x (outbound_Build S (Some (trojan_tls x)) x)"

subsection \<open>VLESS\<close>

record vless = base_outbound +
  vless_uuid :: string
  vless_flow :: string
  vless_packet_encoding :: string
  vless_tls :: TLS
  vless_transport :: Transport
  vless_multiplex :: Multiplex

definition new_vless :: vless where
  "new_vless = \<lparr>bo_name = [], bo_server = [], bo_server_port = 0, bo_dial = new_dialFields, vless_uuid = [],
     vless_flow = [], vless_packet_encoding = ''xudp'', vless_tls = new_TLS True, vless_transport =
     new_Transport, vless_multiplex = new_Multiplex\<rparr>"

definition vless_rows :: "'z qt_text_scheme \<Rightarrow> parts \<Rightarrow> vless json_row list" where
  "vless_rows Q P =
     [(''uuid'', emit_text vless_uuid, read_text vless_uuid_update),
      (''flow'', emit_text vless_flow, read_text vless_flow_update),
      (''packet_encoding'', emit_always (JStr \<circ> vless_packet_encoding), read_text vless_packet_encoding_update),
      (''tls'', emit_part (pt_tls P) vless_tls, read_tls vless_tls_update),
      (''transport'', emit_part (pt_transport P) vless_transport, read_transport Q vless_transport_update),
      (''multiplex'', emit_part (pt_mux P) vless_multiplex, read_mux vless_multiplex_update)]"

definition vless_ParseFromJson :: "'z qt_text_scheme \<Rightarrow> jobject \<Rightarrow> vless \<Rightarrow> bool \<times> vless" where
  "vless_ParseFromJson Q ob x = parse_class ''vless'' (vless_rows Q (stored_parts Q)) ob x"

definition vless_ExportToJson :: "'z qt_text_scheme \<Rightarrow> vless \<Rightarrow> jobject" where
  "vless_ExportToJson Q x = class_object ''vless'' (vless_rows Q (stored_parts Q)) x (base_ExportToJson x)"

definition vless_Build :: "'z proto_settings_scheme \<Rightarrow> vless \<Rightarrow> jobject" where
  "vless_Build S x = class_object ''vless'' (vless_rows S (built_parts S)) x (outbound_Build S (Some (vless_tls x)) x)"

subsection \<open>VMess\<close>

record vmess = base_outbound +
  vmess_uuid :: string
  vmess_security :: string
  vmess_alter_id :: int
  vmess_global_padding :: bool
  vmess_authenticated_length :: bool
  vmess_packet_encoding :: string
  vmess_tls :: TLS
  vmess_transport :: Transport
  vmess_multiplex :: Multiplex

definition new_vmess :: vmess where
  "new_vmess = \<lparr>bo_name = [], bo_server = [], bo_server_port = 0, bo_dial = new_dialFields, vmess_uuid = [],
     vmess_security = ''auto'', vmess_alter_id = 0, vmess_global_padding = False,
     vmess_authenticated_length = False, vmess_packet_encoding = ''xudp'', vmess_tls = new_TLS True,
     vmess_transport = new_Transport, vmess_multiplex = new_Multiplex\<rparr>"

definition vmess_rows :: "'z qt_text_scheme \<Rightarrow> parts \<Rightarrow> vmess json_row list" where
  "vmess_rows Q P =
     [(''uuid'', emit_text vmess_uuid, read_text vmess_uuid_update),
      (''security'', \<lambda>x. if vmess_security x \<noteq> ''auto'' then Some (JStr (vmess_security x)) else None, read_text vmess_security_update),
      (''alter_id'', emit_pos vmess_alter_id, read_int vmess_alter_id_update),
      (''alter-id'', \<lambda>_. None, read_int vmess_alter_id_update),
      (''global_padding'', emit_flag vmess_global_padding, read_flag vmess_global_padding_update),
      (''global-padding'', \<lambda>_. None, read_flag vmess_global_padding_update),
      (''authenticated_length'', emit_flag vmess_authenticated_length, read_flag vmess_authenticated_length_update),
      (''packet_encoding'', emit_always (JStr \<circ> vmess_packet_encoding), read_text vmess_packet_encoding_update),
      (''tls'', emit_part (pt_tls P) vmess_tls, read_tls vmess_tls_update),
      (''transport'', emit_part (pt_transport P) vmess_transport, read_transport Q vmess_transport_update),
      (''multiplex'', emit_part (pt_mux P) vmess_multiplex, read_mux vmess_multiplex_update)]"

definition vmess_ParseFromJson :: "'z qt_text_scheme \<Rightarrow> jobject \<Rightarrow> vmess \<Rightarrow> bool \<times> vmess" where
  "vmess_ParseFromJson Q ob x = parse_class ''vmess'' (vmess_rows Q (stored_parts Q)) ob x"

definition vmess_ExportToJson :: "'z qt_text_scheme \<Rightarrow> vmess \<Rightarrow> jobject" where
  "vmess_ExportToJson Q x = class_object ''vmess'' (vmess_rows Q (stored_parts Q)) x (base_ExportToJson x)"

definition vmess_Build :: "'z proto_settings_scheme \<Rightarrow> vmess \<Rightarrow> jobject" where
  "vmess_Build S x = class_object ''vmess'' (vmess_rows S (built_parts S)) x (outbound_Build S (Some (vmess_tls x)) x)"

subsection \<open>AnyTLS\<close>

record anyTLS = base_outbound +
  anyTLS_password :: string
  anyTLS_idle_session_check_interval :: string
  anyTLS_idle_session_timeout :: string
  anyTLS_min_idle_session :: int
  anyTLS_tls :: TLS

definition new_anyTLS :: anyTLS where
  "new_anyTLS = \<lparr>bo_name = [], bo_server = [], bo_server_port = 0, bo_dial = new_dialFields, anyTLS_password = [],
     anyTLS_idle_session_check_interval = ''30s'', anyTLS_idle_session_timeout = ''30s'',
     anyTLS_min_idle_session = 5, anyTLS_tls = new_TLS True\<rparr>"

definition anyTLS_rows :: "'z qt_text_scheme \<Rightarrow> parts \<Rightarrow> anyTLS json_row list" where
  "anyTLS_rows Q P =
     [(''password'', emit_text anyTLS_password, read_text anyTLS_password_update),
      (''idle_session_check_interval'', emit_text anyTLS_idle_session_check_interval, read_text anyTLS_idle_session_check_interval_update),
      (''idle_session_timeout'', emit_text anyTLS_idle_session_timeout, read_text anyTLS_idle_session_timeout_update),
      (''min_idle_session'', emit_pos anyTLS_min_idle_session, read_int anyTLS_min_idle_session_update),
      (''tls'', emit_always (JObj \<circ> pt_tls P \<circ> anyTLS_tls), read_tls anyTLS_tls_update)]"

definition anyTLS_ParseFromJson :: "'z qt_text_scheme \<Rightarrow> jobject \<Rightarrow> anyTLS \<Rightarrow> bool \<times> anyTLS" where
  "anyTLS_ParseFromJson Q ob x = parse_class ''anytls'' (anyTLS_rows Q (stored_parts Q)) ob x"

definition anyTLS_ExportToJson :: "'z qt_text_scheme \<Rightarrow> anyTLS \<Rightarrow> jobject" where
  "anyTLS_ExportToJson Q x = class_object ''anytls'' (anyTLS_rows Q (stored_parts Q)) x (base_ExportToJson x)"

definition anyTLS_Build :: "'z proto_settings_scheme \<Rightarrow> anyTLS \<Rightarrow> jobject" where
  "anyTLS_Build S x = class_object ''anytls'' (anyTLS_rows S (built_parts S)) x (outbound_Build S (Some (anyTLS_tls x)) x)"

subsection \<open>HTTP\<close>

record http = base_outbound +
  http_username :: string
  http_password :: string
  http_path :: string
  http_headers :: "string list"
  http_tls :: TLS

definition new_http :: http where
  "new_http = \<lparr>bo_name = [], bo_server = [], bo_server_port = 0, bo_dial = new_dialFields, http_username = [],
     http_password = [], http_path = [], http_headers = [], http_tls = new_TLS True\<rparr>"

definition http_rows :: "'z qt_text_scheme \<Rightarrow> parts \<Rightarrow> http json_row list" where
  "http_rows Q P =
     [(''username'', emit_text http_username, read_text http_username_update),
      (''password'', emit_text http_password, read_text http_password_update),
      (''path'', emit_text http_path, read_text http_path_update),
      (''headers'', \<lambda>x. emit_object (qStringListToJsonObject (http_headers x)), read_header_list http_headers_update),
      (''tls'', emit_part (pt_tls P) http_tls, read_tls http_tls_update)]"

definition http_ParseFromJson :: "'z qt_text_scheme \<Rightarrow> jobject \<Rightarrow> http \<Rightarrow> bool \<times> http" where
  "http_ParseFromJson Q ob x = parse_class ''http'' (http_rows Q (stored_parts Q)) ob x"

definition http_ExportToJson :: "'z qt_text_scheme \<Rightarrow> http \<Rightarrow> jobject" where
  "http_ExportToJson Q x = class_object ''http'' (http_rows Q (stored_parts Q)) x (base_ExportToJson x)"

definition http_Build :: "'z proto_settings_scheme \<Rightarrow> http \<Rightarrow> jobject" where
  "http_Build S x = class_object ''http'' (http_rows S (built_parts S)) x (outbound_Build S (Some (http_tls x)) x)"

subsection \<open>Shadowsocks\<close>

record shadowsocks = base_outbound +
  shadowsocks_method :: string
  shadowsocks_password :: string
  shadowsocks_plugin :: string
  shadowsocks_plugin_opts :: string
  shadowsocks_uot :: bool
  shadowsocks_multiplex :: Multiplex

definition new_shadowsocks :: shadowsocks where
  "new_shadowsocks = \<lparr>bo_name = [], bo_server = [], bo_server_port = 0, bo_dial = new_dialFields, shadowsocks_method = [],
     shadowsocks_password = [], shadowsocks_plugin = [], shadowsocks_plugin_opts = [],
     shadowsocks_uot = False, shadowsocks_multiplex = new_Multiplex\<rparr>"

definition shadowsocks_rows :: "'z qt_text_scheme \<Rightarrow> parts \<Rightarrow> shadowsocks json_row list" where
  "shadowsocks_rows Q P =
     [(''method'', emit_text shadowsocks_method, read_text shadowsocks_method_update),
      (''password'', emit_text shadowsocks_password, read_text shadowsocks_password_update),
      (''plugin'', emit_text shadowsocks_plugin, read_text shadowsocks_plugin_update),
      (''plugin_opts'', emit_text shadowsocks_plugin_opts, read_text shadowsocks_plugin_opts_update),
      (''udp_over_tcp'', emit_flag shadowsocks_uot, read_uot shadowsocks_uot_update),
      (''multiplex'', emit_part (pt_mux P) shadowsocks_multiplex, read_mux shadowsocks_multiplex_update)]"

definition shadowsocks_ParseFromJson :: "'z qt_text_scheme \<Rightarrow> jobject \<Rightarrow> shadowsocks \<Rightarrow> bool \<times> shadowsocks" where
  "shadowsocks_ParseFromJson Q ob x = parse_class ''shadowsocks'' (shadowsocks_rows Q (stored_parts Q)) ob x"

definition shadowsocks_ExportToJson :: "'z qt_text_scheme \<Rightarrow> shadowsocks \<Rightarrow> jobject" where
  "shadowsocks_ExportToJson Q x = class_object ''shadowsocks'' (shadowsocks_rows Q (stored_parts Q)) x (base_ExportToJson x)"

text \<open>Building first splits options off the plugin's name, in the object itself.\<close>

definition split_plugin :: "shadowsocks \<Rightarrow> shadowsocks" where
  "split_plugin x = (case cut_at '';'' (shadowsocks_plugin x) of
     None \<Rightarrow> x | Some (a, b) \<Rightarrow> x\<lparr>shadowsocks_plugin_opts := b, shadowsocks_plugin := a\<rparr>)"

definition shadowsocks_Build :: "'z proto_settings_scheme \<Rightarrow> shadowsocks \<Rightarrow> jobject \<times> shadowsocks" where
  "shadowsocks_Build S x =
     (let x = split_plugin x
      in (class_object ''shadowsocks'' (shadowsocks_rows S (built_parts S)) x (outbound_Build S None x), x))"

subsection \<open>ShadowTLS\<close>

record shadowtls = base_outbound +
  shadowtls_version :: int
  shadowtls_password :: string
  shadowtls_tls :: TLS

definition new_shadowtls :: shadowtls where
  "new_shadowtls = \<lparr>bo_name = [], bo_server = [], bo_server_port = 0, bo_dial = new_dialFields, shadowtls_version = 1,
     shadowtls_password = [], shadowtls_tls = new_TLS True\<rparr>"

definition shadowtls_rows :: "'z qt_text_scheme \<Rightarrow> parts \<Rightarrow> shadowtls json_row list" where
  "shadowtls_rows Q P =
     [(''version'', emit_always (jint \<circ> shadowtls_version), read_int shadowtls_version_update),
      (''password'', \<lambda>x. if 1 < shadowtls_version x then emit_text shadowtls_password x else None, read_text shadowtls_password_update),
      (''tls'', emit_when (tl_enabled \<circ> shadowtls_tls) (pt_tls P \<circ> shadowtls_tls), read_tls shadowtls_tls_update)]"

definition shadowtls_ParseFromJson :: "'z qt_text_scheme \<Rightarrow> jobject \<Rightarrow> shadowtls \<Rightarrow> bool \<times> shadowtls" where
  "shadowtls_ParseFromJson Q ob x = parse_class ''shadowtls'' (shadowtls_rows Q (stored_parts Q)) ob x"

definition shadowtls_ExportToJson :: "'z qt_text_scheme \<Rightarrow> shadowtls \<Rightarrow> jobject" where
  "shadowtls_ExportToJson Q x = class_object ''shadowtls'' (shadowtls_rows Q (stored_parts Q)) x (base_ExportToJson x)"

definition shadowtls_Build :: "'z proto_settings_scheme \<Rightarrow> shadowtls \<Rightarrow> jobject" where
  "shadowtls_Build S x = class_object ''shadowtls'' (shadowtls_rows S (built_parts S)) x (outbound_Build S (Some (shadowtls_tls x)) x)"

subsection \<open>TUIC\<close>

record tuic = base_outbound +
  tuic_uuid :: string
  tuic_password :: string
  tuic_congestion_control :: string
  tuic_udp_relay_mode :: string
  tuic_udp_over_stream :: bool
  tuic_zero_rtt_handshake :: bool
  tuic_heartbeat :: string
  tuic_tls :: TLS

definition new_tuic :: tuic where
  "new_tuic = \<lparr>bo_name = [], bo_server = [], bo_server_port = 0, bo_dial = new_dialFields, tuic_uuid = [],
     tuic_password = [], tuic_congestion_control = [], tuic_udp_relay_mode = [],
     tuic_udp_over_stream = False, tuic_zero_rtt_handshake = False, tuic_heartbeat = [], tuic_tls =
     new_TLS False\<rparr>"

definition tuic_rows :: "'z qt_text_scheme \<Rightarrow> parts \<Rightarrow> tuic json_row list" where
  "tuic_rows Q P =
     [(''uuid'', emit_text tuic_uuid, read_text tuic_uuid_update),
      (''password'', emit_text tuic_password, read_text tuic_password_update),
      (''congestion_control'', emit_text tuic_congestion_control, read_text tuic_congestion_control_update),
      (''udp_relay_mode'', \<lambda>x. if tuic_udp_over_stream x then None else emit_text tuic_udp_relay_mode x, read_text tuic_udp_relay_mode_update),
      (''udp_over_stream'', emit_flag tuic_udp_over_stream, read_flag tuic_udp_over_stream_update),
      (''zero_rtt_handshake'', emit_flag tuic_zero_rtt_handshake, read_flag tuic_zero_rtt_handshake_update),
      (''heartbeat'', emit_text tuic_heartbeat, read_text tuic_heartbeat_update),
      (''tls'', emit_when (tl_enabled \<circ> tuic_tls) (pt_tls P \<circ> tuic_tls), read_tls tuic_tls_update)]"

definition tuic_ParseFromJson :: "'z qt_text_scheme \<Rightarrow> jobject \<Rightarrow> tuic \<Rightarrow> bool \<times> tuic" where
  "tuic_ParseFromJson Q ob x = parse_class ''tuic'' (tuic_rows Q (stored_parts Q)) ob x"

definition tuic_ExportToJson :: "'z qt_text_scheme \<Rightarrow> tuic \<Rightarrow> jobject" where
  "tuic_ExportToJson Q x = class_object ''tuic'' (tuic_rows Q (stored_parts Q)) x (base_ExportToJson x)"

definition tuic_Build :: "'z proto_settings_scheme \<Rightarrow> tuic \<Rightarrow> jobject" where
  "tuic_Build S x = class_object ''tuic'' (tuic_rows S (built_parts S)) x (outbound_Build S (Some (tuic_tls x)) x)"

subsection \<open>Juicity\<close>

record juicity = base_outbound +
  juicity_uuid :: string
  juicity_password :: string
  juicity_tls :: TLS

definition new_juicity :: juicity where
  "new_juicity = \<lparr>bo_name = [], bo_server = [], bo_server_port = 0, bo_dial = new_dialFields, juicity_uuid = [],
     juicity_password = [], juicity_tls = new_TLS False\<rparr>"

definition juicity_rows :: "'z qt_text_scheme \<Rightarrow> parts \<Rightarrow> juicity json_row list" where
  "juicity_rows Q P =
     [(''uuid'', emit_text juicity_uuid, read_text juicity_uuid_update),
      (''password'', emit_text juicity_password, read_text juicity_password_update),
      (''tls'', emit_when (tl_enabled \<circ> juicity_tls) (pt_tls P \<circ> juicity_tls), read_tls juicity_tls_update)]"

definition juicity_ParseFromJson :: "'z qt_text_scheme \<Rightarrow> jobject \<Rightarrow> juicity \<Rightarrow> bool \<times> juicity" where
  "juicity_ParseFromJson Q ob x = parse_class ''juicity'' (juicity_rows Q (stored_parts Q)) ob x"

definition juicity_ExportToJson :: "'z qt_text_scheme \<Rightarrow> juicity \<Rightarrow> jobject" where
  "juicity_ExportToJson Q x = class_object ''juicity'' (juicity_rows Q (stored_parts Q)) x (base_ExportToJson x)"

definition juicity_Build :: "'z proto_settings_scheme \<Rightarrow> juicity \<Rightarrow> jobject" where
  "juicity_Build S x = class_object ''juicity'' (juicity_rows S (built_parts S)) x (outbound_Build S (Some (juicity_tls x)) x)"

subsection \<open>TrustTunnel\<close>

record trusttunnel = base_outbound +
  trusttunnel_username :: string
  trusttunnel_password :: string
  trusttunnel_congestion_control :: string
  trusttunnel_health_check :: bool
  trusttunnel_quic :: bool
  trusttunnel_tls :: TLS

definition new_trusttunnel :: trusttunnel where
  "new_trusttunnel = \<lparr>bo_name = [], bo_server = [], bo_server_port = 0, bo_dial = new_dialFields, trusttunnel_username =
     [], trusttunnel_password = [], trusttunnel_congestion_control = [], trusttunnel_health_check =
     False, trusttunnel_quic = False, trusttunnel_tls = new_TLS True\<rparr>"

definition trusttunnel_rows :: "'z qt_text_scheme \<Rightarrow> parts \<Rightarrow> trusttunnel json_row list" where
  "trusttunnel_rows Q P =
     [(''username'', emit_text trusttunnel_username, read_text trusttunnel_username_update),
      (''password'', emit_text trusttunnel_password, read_text trusttunnel_password_update),
      (''health_check'', emit_flag trusttunnel_health_check, read_flag trusttunnel_health_check_update),
      (''quic'', emit_flag trusttunnel_quic, read_flag trusttunnel_quic_update),
      (''quic_congestion_control'', \<lambda>x. if trusttunnel_quic x then emit_text trusttunnel_congestion_control x else None, \<lambda>_ x. x),
      (''congestion_control'', \<lambda>_. None, read_text trusttunnel_congestion_control_update),
      (''tls'', emit_when (tl_enabled \<circ> trusttunnel_tls) (pt_tls P \<circ> trusttunnel_tls), read_tls trusttunnel_tls_update)]"

definition trusttunnel_ParseFromJson :: "'z qt_text_scheme \<Rightarrow> jobject \<Rightarrow> trusttunnel \<Rightarrow> bool \<times> trusttunnel" where
  "trusttunnel_ParseFromJson Q ob x = parse_class ''trusttunnel'' (trusttunnel_rows Q (stored_parts Q)) ob x"

definition trusttunnel_ExportToJson :: "'z qt_text_scheme \<Rightarrow> trusttunnel \<Rightarrow> jobject" where
  "trusttunnel_ExportToJson Q x = class_object ''trusttunnel'' (trusttunnel_rows Q (stored_parts Q)) x (base_ExportToJson x)"

definition trusttunnel_Build :: "'z proto_settings_scheme \<Rightarrow> trusttunnel \<Rightarrow> jobject" where
  "trusttunnel_Build S x = class_object ''trusttunnel'' (trusttunnel_rows S (built_parts S)) x (outbound_Build S (Some (trusttunnel_tls x)) x)"

subsection \<open>Naive\<close>

record naive = base_outbound +
  naive_username :: string
  naive_password :: string
  naive_congestion_control :: string
  naive_quic :: bool
  naive_uot :: bool
  naive_tls :: TLS

definition new_naive :: naive where
  "new_naive = \<lparr>bo_name = [], bo_server = [], bo_server_port = 0, bo_dial = new_dialFields, naive_username = [],
     naive_password = [], naive_congestion_control = [], naive_quic = False, naive_uot = False,
     naive_tls = new_TLS False\<rparr>"

definition naive_rows :: "'z qt_text_scheme \<Rightarrow> parts \<Rightarrow> naive json_row list" where
  "naive_rows Q P =
     [(''username'', emit_text naive_username, read_text naive_username_update),
      (''password'', emit_text naive_password, read_text naive_password_update),
      (''udp_over_tcp'', emit_flag naive_uot, read_uot naive_uot_update),
      (''quic'', emit_flag naive_quic, read_flag naive_quic_update),
      (''quic_congestion_control'', \<lambda>x. if naive_quic x then emit_text naive_congestion_control x else None, \<lambda>_ x. x),
      (''congestion_control'', \<lambda>_. None, read_text naive_congestion_control_update),
      (''tls'', emit_when (tl_enabled \<circ> naive_tls) (pt_tls P \<circ> naive_tls), read_tls naive_tls_update)]"

definition naive_ParseFromJson :: "'z qt_text_scheme \<Rightarrow> jobject \<Rightarrow> naive \<Rightarrow> bool \<times> naive" where
  "naive_ParseFromJson Q ob x = parse_class ''naive'' (naive_rows Q (stored_parts Q)) ob x"

definition naive_ExportToJson :: "'z qt_text_scheme \<Rightarrow> naive \<Rightarrow> jobject" where
  "naive_ExportToJson Q x = class_object ''naive'' (naive_rows Q (stored_parts Q)) x (base_ExportToJson x)"

definition naive_Build :: "'z proto_settings_scheme \<Rightarrow> naive \<Rightarrow> jobject" where
  "naive_Build S x = class_object ''naive'' (naive_rows S (built_parts S)) x (outbound_Build S (Some (naive_tls x)) x)"

subsection \<open>Snell\<close>

record snell = base_outbound +
  snell_version :: int
  snell_psk :: string
  snell_userkey :: string
  snell_reuse :: bool
  snell_network :: string
  snell_obfs_mode :: string
  snell_obfs_host :: string
  snell_mode :: string

definition new_snell :: snell where
  "new_snell = \<lparr>bo_name = [], bo_server = [], bo_server_port = 0, bo_dial = new_dialFields, snell_version = 4,
     snell_psk = [], snell_userkey = [], snell_reuse = False, snell_network = [], snell_obfs_mode =
     [], snell_obfs_host = [], snell_mode = []\<rparr>"

definition snell_rows :: "'z qt_text_scheme \<Rightarrow> parts \<Rightarrow> snell json_row list" where
  "snell_rows Q P =
     [(''version'', emit_always (jint \<circ> snell_version), read_int snell_version_update),
      (''psk'', emit_text snell_psk, read_text snell_psk_update),
      (''userkey'', emit_text snell_userkey, read_text snell_userkey_update),
      (''reuse'', emit_flag snell_reuse, read_flag snell_reuse_update),
      (''network'', emit_text snell_network, read_text snell_network_update),
      (''obfs_mode'', \<lambda>x. if snell_version x = 6 then None else emit_text snell_obfs_mode x, read_text snell_obfs_mode_update),
      (''obfs_host'', \<lambda>x. if snell_version x = 6 then None else emit_text snell_obfs_host x, read_text snell_obfs_host_update),
      (''mode'', \<lambda>x. if snell_version x = 6 then emit_text snell_mode x else None, read_text snell_mode_update)]"

definition snell_ExportToJson :: "'z qt_text_scheme \<Rightarrow> snell \<Rightarrow> jobject" where
  "snell_ExportToJson Q x = class_object ''snell'' (snell_rows Q (stored_parts Q)) x (base_ExportToJson x)"

definition snell_Build :: "'z proto_settings_scheme \<Rightarrow> snell \<Rightarrow> jobject" where
  "snell_Build S x = class_object ''snell'' (snell_rows S (built_parts S)) x (outbound_Build S (None) x)"

text \<open>An unsupported version stops the reading after the base class and the version.\<close>

definition supportedVersion :: "int \<Rightarrow> bool" where
  "supportedVersion v \<longleftrightarrow> v = 4 \<or> v = 6"

definition snell_ParseFromJson :: "'z qt_text_scheme \<Rightarrow> jobject \<Rightarrow> snell \<Rightarrow> bool \<times> snell" where
  "snell_ParseFromJson Q ob x =
     (if ob = [] \<or> to_str [] (jget ob ''type'') \<noteq> ''snell'' then (False, x)
      else let rows = snell_rows Q (stored_parts Q);
               x = parse_rows (take 1 rows) ob (snd (base_ParseFromJson ob x))
        in if \<not> supportedVersion (snell_version x) then (False, x) else (True, parse_rows (drop 1 rows) ob x))"

subsection \<open>SSH\<close>

record ssh = base_outbound +
  ssh_user :: string
  ssh_password :: string
  ssh_private_key :: string
  ssh_private_key_path :: string
  ssh_private_key_passphrase :: string
  ssh_host_key :: "string list"
  ssh_host_key_algorithms :: "string list"
  ssh_client_version :: string

definition new_ssh :: ssh where
  "new_ssh = \<lparr>bo_name = [], bo_server = [], bo_server_port = 0, bo_dial = new_dialFields, ssh_user = [],
     ssh_password = [], ssh_private_key = [], ssh_private_key_path = [], ssh_private_key_passphrase
     = [], ssh_host_key = [], ssh_host_key_algorithms = [], ssh_client_version = []\<rparr>"

definition ssh_rows :: "'z qt_text_scheme \<Rightarrow> parts \<Rightarrow> ssh json_row list" where
  "ssh_rows Q P =
     [(''user'', emit_text ssh_user, read_text ssh_user_update),
      (''password'', emit_text ssh_password, read_text ssh_password_update),
      (''private_key'', emit_text ssh_private_key, read_text ssh_private_key_update),
      (''private_key_path'', emit_text ssh_private_key_path, read_text ssh_private_key_path_update),
      (''private_key_passphrase'', emit_text ssh_private_key_passphrase, read_text ssh_private_key_passphrase_update),
      (''host_key'', emit_texts ssh_host_key, read_texts ssh_host_key_update),
      (''host_key_algorithms'', emit_texts ssh_host_key_algorithms, read_texts ssh_host_key_algorithms_update),
      (''client_version'', emit_text ssh_client_version, read_text ssh_client_version_update)]"

definition ssh_ParseFromJson :: "'z qt_text_scheme \<Rightarrow> jobject \<Rightarrow> ssh \<Rightarrow> bool \<times> ssh" where
  "ssh_ParseFromJson Q ob x = parse_class ''ssh'' (ssh_rows Q (stored_parts Q)) ob x"

definition ssh_ExportToJson :: "'z qt_text_scheme \<Rightarrow> ssh \<Rightarrow> jobject" where
  "ssh_ExportToJson Q x = class_object ''ssh'' (ssh_rows Q (stored_parts Q)) x (base_ExportToJson x)"

definition ssh_Build :: "'z proto_settings_scheme \<Rightarrow> ssh \<Rightarrow> jobject" where
  "ssh_Build S x = class_object ''ssh'' (ssh_rows S (built_parts S)) x (outbound_Build S (None) x)"

subsection \<open>Mieru\<close>

text \<open>Port ranges are typed as one text with commas and stored as a list.\<close>

definition splitServerPorts :: "'z qt_text_scheme \<Rightarrow> string \<Rightarrow> string list" where
  "splitServerPorts Q raw = filter (\<lambda>p. p \<noteq> []) (map (qt_trimmed Q) (split_skip_empty (CHR '','') raw))"

definition join_commas :: "string list \<Rightarrow> string" where
  "join_commas ps = (case ps of [] \<Rightarrow> [] | p # ps \<Rightarrow> p @ concat (map (\<lambda>q. '','' @ q) ps))"

record mieru = base_outbound +
  mieru_transport :: string
  mieru_username :: string
  mieru_password :: string
  mieru_multiplexing :: string
  mieru_traffic_pattern :: string
  mieru_server_ports :: string

definition new_mieru :: mieru where
  "new_mieru = \<lparr>bo_name = [], bo_server = [], bo_server_port = 0, bo_dial = new_dialFields, mieru_transport =
     ''TCP'', mieru_username = [], mieru_password = [], mieru_multiplexing = [],
     mieru_traffic_pattern = [], mieru_server_ports = []\<rparr>"

definition mieru_rows :: "'z qt_text_scheme \<Rightarrow> parts \<Rightarrow> mieru json_row list" where
  "mieru_rows Q P =
     [(''transport'', emit_always (\<lambda>x. JStr (or_default ''TCP'' (mieru_transport x))), read_text mieru_transport_update),
      (''username'', emit_text mieru_username, read_text mieru_username_update),
      (''password'', emit_text mieru_password, read_text mieru_password_update),
      (''multiplexing'', emit_text mieru_multiplexing, read_text mieru_multiplexing_update),
      (''traffic_pattern'', emit_text mieru_traffic_pattern, read_text mieru_traffic_pattern_update),
      (''server_ports'', \<lambda>x. emit_texts (\<lambda>x. splitServerPorts Q (mieru_server_ports x)) x,
       \<lambda>v. mieru_server_ports_update (\<lambda>_. join_commas (QJsonArray2QListString (to_arr v))))]"

definition mieru_ParseFromJson :: "'z qt_text_scheme \<Rightarrow> jobject \<Rightarrow> mieru \<Rightarrow> bool \<times> mieru" where
  "mieru_ParseFromJson Q ob x = parse_class ''mieru'' (mieru_rows Q (stored_parts Q)) ob x"

definition mieru_ExportToJson :: "'z qt_text_scheme \<Rightarrow> mieru \<Rightarrow> jobject" where
  "mieru_ExportToJson Q x = class_object ''mieru'' (mieru_rows Q (stored_parts Q)) x (base_ExportToJson x)"

definition mieru_Build :: "'z proto_settings_scheme \<Rightarrow> mieru \<Rightarrow> jobject" where
  "mieru_Build S x = class_object ''mieru'' (mieru_rows S (built_parts S)) x (outbound_Build S (None) x)"

subsection \<open>Tailscale\<close>

text \<open>It stores its name and nothing else of the base class.\<close>

record tailscale = base_outbound +
  tailscale_state_directory :: string
  tailscale_auth_key :: string
  tailscale_control_url :: string
  tailscale_ephemeral :: bool
  tailscale_hostname :: string
  tailscale_accept_routes :: bool
  tailscale_exit_node :: string
  tailscale_exit_node_allow_lan_access :: bool
  tailscale_advertise_routes :: "string list"
  tailscale_advertise_exit_node :: bool
  tailscale_globalDNS :: bool

definition new_tailscale :: tailscale where
  "new_tailscale = \<lparr>bo_name = [], bo_server = [], bo_server_port = 0, bo_dial = new_dialFields,
     tailscale_state_directory = ''$HOME/.tailscale'', tailscale_auth_key = [],
     tailscale_control_url = ''https://controlplane.tailscale.com'', tailscale_ephemeral = False,
     tailscale_hostname = [], tailscale_accept_routes = False, tailscale_exit_node = [],
     tailscale_exit_node_allow_lan_access = False, tailscale_advertise_routes = [],
     tailscale_advertise_exit_node = False, tailscale_globalDNS = False\<rparr>"

definition tailscale_rows :: "'z qt_text_scheme \<Rightarrow> parts \<Rightarrow> tailscale json_row list" where
  "tailscale_rows Q P =
     [(''state_directory'', emit_text tailscale_state_directory, read_text tailscale_state_directory_update),
      (''auth_key'', emit_text tailscale_auth_key, read_text tailscale_auth_key_update),
      (''control_url'', emit_text tailscale_control_url, read_text tailscale_control_url_update),
      (''ephemeral'', emit_flag tailscale_ephemeral, read_flag tailscale_ephemeral_update),
      (''hostname'', emit_text tailscale_hostname, read_text tailscale_hostname_update),
      (''accept_routes'', emit_flag tailscale_accept_routes, read_flag tailscale_accept_routes_update),
      (''exit_node'', emit_text tailscale_exit_node, read_text tailscale_exit_node_update),
      (''exit_node_allow_lan_access'', emit_flag tailscale_exit_node_allow_lan_access, read_flag tailscale_exit_node_allow_lan_access_update),
      (''advertise_routes'', emit_texts tailscale_advertise_routes, read_texts tailscale_advertise_routes_update),
      (''advertise_exit_node'', emit_flag tailscale_advertise_exit_node, read_flag tailscale_advertise_exit_node_update),
      (''globalDNS'', emit_flag tailscale_globalDNS, read_flag tailscale_globalDNS_update)]"

definition tailscale_ParseFromJson :: "'z qt_text_scheme \<Rightarrow> jobject \<Rightarrow> tailscale \<Rightarrow> bool \<times> tailscale" where
  "tailscale_ParseFromJson Q ob x = parse_class ''tailscale'' (tailscale_rows Q (stored_parts Q)) ob x"

definition tailscale_ExportToJson :: "'z qt_text_scheme \<Rightarrow> tailscale \<Rightarrow> jobject" where
  "tailscale_ExportToJson Q x =
     put_rows (tailscale_rows Q (stored_parts Q)) x (jbuild [(''type'', JStr ''tailscale''), (''tag'', JStr (bo_name x))])"

text \<open>\<open>globalDNS\<close> is for the configuration builder and not sent to the core.\<close>

definition tailscale_Build :: "'z proto_settings_scheme \<Rightarrow> tailscale \<Rightarrow> jobject" where
  "tailscale_Build S x = put_rows (butlast (tailscale_rows S (built_parts S))) x (jbuild [(''type'', JStr ''tailscale'')])"

definition tailscale_SetAddress :: "string \<Rightarrow> tailscale \<Rightarrow> tailscale" where
  "tailscale_SetAddress a x = x\<lparr>tailscale_control_url := a\<rparr>"

subsection \<open>Hysteria\<close>

text \<open>One class for both versions of the protocol; a port is a range, written with a colon.\<close>

fun split_where :: "(char \<Rightarrow> bool) \<Rightarrow> string \<Rightarrow> string \<Rightarrow> string list" where
  "split_where sep part [] = [rev part]"
| "split_where sep part (c # cs) =
     (if sep c then rev part # split_where sep [] cs else split_where sep (c # part) cs)"

definition range_sep :: "char \<Rightarrow> bool" where
  "range_sep c \<longleftrightarrow> c = CHR '':'' \<or> c = CHR ''-''"

definition port_range :: "string \<Rightarrow> string" where
  "port_range v = (case split_where range_sep [] v of [a, b] \<Rightarrow> a @ '':'' @ b | _ \<Rightarrow> v @ '':'' @ v)"

definition portsToPorts :: "string list \<Rightarrow> string list" where
  "portsToPorts ps = map port_range ps"

record hysteria = base_outbound +
  hysteria_protocol_version :: string
  hysteria_server_ports :: "string list"
  hysteria_hop_interval :: string
  hysteria_up_mbps :: int
  hysteria_down_mbps :: int
  hysteria_obfs :: string
  hysteria_auth_type :: string
  hysteria_auth :: string
  hysteria_recv_window_conn :: int
  hysteria_recv_window :: int
  hysteria_disable_mtu_discovery :: bool
  hysteria_password :: string
  hysteria_min_packet_size :: int
  hysteria_max_packet_size :: int
  hysteria_obfs_type :: string
  hysteria_tls :: TLS

definition new_hysteria :: hysteria where
  "new_hysteria = \<lparr>bo_name = [], bo_server = [], bo_server_port = 0, bo_dial = new_dialFields,
     hysteria_protocol_version = ''1'', hysteria_server_ports = [], hysteria_hop_interval = [],
     hysteria_up_mbps = 0, hysteria_down_mbps = 0, hysteria_obfs = [], hysteria_auth_type = [],
     hysteria_auth = [], hysteria_recv_window_conn = 0, hysteria_recv_window = 0,
     hysteria_disable_mtu_discovery = False, hysteria_password = [], hysteria_min_packet_size = 0,
     hysteria_max_packet_size = 0, hysteria_obfs_type = ''salamander'', hysteria_tls = new_TLS False\<rparr>"

definition hysteria_type :: "hysteria \<Rightarrow> string" where
  "hysteria_type x = (if hysteria_protocol_version x = ''1'' then ''hysteria'' else ''hysteria2'')"

definition hysteria_common_rows :: "parts \<Rightarrow> hysteria json_row list" where
  "hysteria_common_rows P =
     [(''server_ports'', emit_texts (portsToPorts \<circ> hysteria_server_ports), read_texts hysteria_server_ports_update),
      (''hop_interval'', emit_text hysteria_hop_interval, read_text hysteria_hop_interval_update),
      (''up_mbps'', emit_pos hysteria_up_mbps, read_int hysteria_up_mbps_update),
      (''down_mbps'', emit_pos hysteria_down_mbps, read_int hysteria_down_mbps_update),
      (''tls'', emit_always (JObj \<circ> pt_tls P \<circ> hysteria_tls), read_tls hysteria_tls_update)]"

definition emit_auth :: "string \<Rightarrow> hysteria \<Rightarrow> json option" where
  "emit_auth t x = (if hysteria_auth_type x = t then emit_text hysteria_auth x else None)"

definition read_auth :: "string \<Rightarrow> json \<Rightarrow> hysteria \<Rightarrow> hysteria" where
  "read_auth t v x = x\<lparr>hysteria_auth := to_str [] v, hysteria_auth_type := t\<rparr>"

definition hysteria1_rows :: "parts \<Rightarrow> hysteria json_row list" where
  "hysteria1_rows P = hysteria_common_rows P @
     [(''obfs'', emit_text hysteria_obfs, read_text hysteria_obfs_update),
      (''auth'', emit_auth ''BASE64'', read_auth ''BASE64''),
      (''auth_str'', emit_auth ''STRING'', read_auth ''STRING''),
      (''recv_window_conn'', emit_pos hysteria_recv_window_conn, read_int hysteria_recv_window_conn_update),
      (''recv_window'', emit_pos hysteria_recv_window, read_int hysteria_recv_window_update),
      (''disable_mtu_discovery'', emit_flag hysteria_disable_mtu_discovery, read_flag hysteria_disable_mtu_discovery_update)]"

definition obfs_object :: "hysteria \<Rightarrow> jobject" where
  "obfs_object x = jbuild
     [(''type'', JStr (hysteria_obfs_type x)), (''password'', JStr (hysteria_obfs x)),
      (''min_packet_size'', jint (hysteria_min_packet_size x)), (''max_packet_size'', jint (hysteria_max_packet_size x))]"

definition built_obfs :: "hysteria \<Rightarrow> jobject" where
  "built_obfs x =
     (if hysteria_obfs_type x = ''gecko'' then obfs_object x
      else jbuild [(''type'', JStr ''salamander''), (''password'', JStr (hysteria_obfs x))])"

definition read_obfs :: "json \<Rightarrow> hysteria \<Rightarrow> hysteria" where
  "read_obfs v x =
     (let ob = to_obj v;
          x = (if jcontains ob ''password'' then x\<lparr>hysteria_obfs := to_str [] (jget ob ''password'')\<rparr> else x);
          x = x\<lparr>hysteria_obfs_type := if jcontains ob ''type'' then to_str [] (jget ob ''type'') else ''salamander''\<rparr>;
          x = (if jcontains ob ''min_packet_size'' then x\<lparr>hysteria_min_packet_size := to_int 0 (jget ob ''min_packet_size'')\<rparr> else x)
      in if jcontains ob ''max_packet_size'' then x\<lparr>hysteria_max_packet_size := to_int 0 (jget ob ''max_packet_size'')\<rparr> else x)"

definition hysteria2_rows :: "(hysteria \<Rightarrow> jobject) \<Rightarrow> parts \<Rightarrow> hysteria json_row list" where
  "hysteria2_rows obfs P = hysteria_common_rows P @
     [(''obfs'', emit_when (\<lambda>x. hysteria_obfs x \<noteq> []) obfs, read_obfs),
      (''obfsPassword'', \<lambda>_. None, read_text hysteria_obfs_update),
      (''password'', emit_text hysteria_password, read_text hysteria_password_update)]"

definition hysteria_rows :: "bool \<Rightarrow> (hysteria \<Rightarrow> jobject) \<Rightarrow> parts \<Rightarrow> hysteria json_row list" where
  "hysteria_rows one obfs P = (if one then hysteria1_rows P else hysteria2_rows obfs P)"

definition hysteria_ParseFromJson :: "'z qt_text_scheme \<Rightarrow> jobject \<Rightarrow> hysteria \<Rightarrow> bool \<times> hysteria" where
  "hysteria_ParseFromJson Q ob x =
     (let t = to_str [] (jget ob ''type'')
      in if ob = [] \<or> t \<notin> {''hysteria'', ''hysteria2''} then (False, x)
      else let one = (t = ''hysteria'');
               x = x\<lparr>hysteria_protocol_version := if one then ''1'' else ''2''\<rparr>
        in (True, parse_rows (hysteria_rows one obfs_object (stored_parts Q)) ob (snd (base_ParseFromJson ob x))))"

definition hysteria_ExportToJson :: "'z qt_text_scheme \<Rightarrow> hysteria \<Rightarrow> jobject" where
  "hysteria_ExportToJson Q x = class_object (hysteria_type x)
     (hysteria_rows (hysteria_protocol_version x = ''1'') obfs_object (stored_parts Q)) x (base_ExportToJson x)"

definition hysteria_Build :: "'z proto_settings_scheme \<Rightarrow> hysteria \<Rightarrow> jobject" where
  "hysteria_Build S x = class_object (hysteria_type x)
     (hysteria_rows (hysteria_protocol_version x = ''1'') built_obfs (built_parts S)) x (outbound_Build S (Some (hysteria_tls x)) x)"

subsection \<open>What each shows of its security\<close>

definition vmess_GetSecurity :: "'z qt_text_scheme \<Rightarrow> vmess \<Rightarrow> security" where
  "vmess_GetSecurity Q x =
     (let i = SecurityFromTLS (Some (vmess_tls x)) False (DisplayTransportName Q (tp_type (vmess_transport x)))
      in if sc_level i = SecurityNone \<and> vmess_security x \<noteq> ''none'' \<and> vmess_security x \<noteq> ''zero''
         then i\<lparr>sc_label := ''Encrypted'', sc_level := SecurityWeak\<rparr> else i)"

definition streamCiphers :: "string list" where
  "streamCiphers = [''aes-128-ctr'', ''aes-192-ctr'', ''aes-256-ctr'', ''aes-128-cfb'', ''aes-192-cfb'', ''aes-256-cfb'',
     ''rc4-md5'', ''chacha20-ietf'', ''xchacha20'']"

definition plain_security :: "string \<Rightarrow> SecurityLevel \<Rightarrow> security" where
  "plain_security label level = \<lparr>sc_label = label, sc_transport = [], sc_level = level\<rparr>"

definition shadowsocks_GetSecurity :: "shadowsocks \<Rightarrow> security" where
  "shadowsocks_GetSecurity x =
     (if shadowsocks_method x = [] \<or> shadowsocks_method x = ''none'' then plain_security ''Raw'' SecurityNone
      else if shadowsocks_method x \<in> set streamCiphers then plain_security ''Weak Cipher'' SecurityWeak
      else plain_security ''Encrypted'' SecuritySecure)"

end
