(* ===== verification/ProtocolReload.thy ===== *)
theory ProtocolReload
  imports Protocols CommonReload
begin

text \<open>
  Each protocol class stored as JSON and read into a fresh object: the fields that come back, and that
  the core is then given the same. \<open>X_ok\<close> names what the class needs for it.
\<close>

subsection \<open>Any class\<close>

lemma parse_class_reload:
  assumes "distinct (''type'' # base_keys @ map fst rows)" "bo_dial x0 = new_dialFields"
  shows "snd (parse_class t rows (class_object t rows x (base_ExportToJson x)) x0) =
    fold (absorb_row x) rows ((fold (absorb_row x) base_rows x0)\<lparr>bo_dial := bo_dial x\<rparr>)"
proof -
  let ?ob = "class_object t rows x (base_ExportToJson x)"
  have t: "map_of ?ob ''type'' = Some (JStr t)" by (rule class_object_type [OF assms(1)])
  then have "?ob \<noteq> []" by auto
  then show ?thesis using t class_reload [OF assms, of t x] by (simp add: parse_class_def jget_def)
qed

lemma base_absorb:
  assumes "base_ok x" "bo_name x0 = []" "bo_server x0 = []" "bo_server_port x0 = 0"
  shows "(fold (absorb_row x) base_rows x0)\<lparr>bo_dial := bo_dial x\<rparr> =
    x0\<lparr>bo_name := bo_name x, bo_server := bo_server x, bo_server_port := bo_server_port x, bo_dial := bo_dial x\<rparr>"
  using assms by (simp add: base_rows_def absorb_text absorb_pos base_ok_def)

definition same_base :: "'z base_outbound_scheme \<Rightarrow> 'z base_outbound_scheme \<Rightarrow> bool" where
  "same_base x y \<longleftrightarrow> bo_server x = bo_server y \<and> bo_server_port x = bo_server_port y \<and> bo_dial x = bo_dial y"

lemma base_Build_same: "same_base x y \<Longrightarrow> base_Build x = base_Build y"
proof -
  assume same: "same_base x y"
  then have "list_all (\<lambda>(k, emit, rd). emit x = emit y) (tl base_rows)"
    by (simp add: base_rows_def same_base_def row_kinds)
  then show ?thesis using same by (simp add: base_Build_def export_rows_cong same_base_def)
qed

lemma outbound_Build_same:
  "same_base x y \<Longrightarrow> outbound_Build S None x = outbound_Build S None y"
  "same_base x y \<Longrightarrow> outbound_Build S (Some (tls_reloaded u t)) x = outbound_Build S (Some t) y"
  using base_Build_same [of x y]
  by (simp_all add: outbound_Build_def Let_def tls_reloaded_keeps cong: conj_cong)

lemma class_object_same:
  "list_all (\<lambda>(k, emit, rd). emit x = emit y) rows \<Longrightarrow> b = b' \<Longrightarrow> class_object t rows x b = class_object t rows y b'"
  by (simp add: class_object_def put_rows_def same_emissions(1))

text \<open>A part is absorbed as the part read back; \<open>r0\<close> holds a fresh one.\<close>

lemma absorb_tls:
  assumes "tls_ok u (get r)" "upd (\<lambda>t. snd (TLS_ParseFromJson (TLS_ExportToJson (get r)) t)) r0 =
      upd (\<lambda>_. snd (TLS_ParseFromJson (TLS_ExportToJson (get r)) (new_TLS u))) r0"
  shows "upd (\<lambda>_. new_TLS u) r0 = r0 \<Longrightarrow>
      (case emit_part TLS_ExportToJson get r of None \<Rightarrow> r0 | Some v \<Rightarrow> read_tls upd v r0) = upd (\<lambda>_. tls_reloaded u (get r)) r0"
    "(case emit_always (JObj \<circ> TLS_ExportToJson \<circ> get) r of None \<Rightarrow> r0 | Some v \<Rightarrow> read_tls upd v r0) = upd (\<lambda>_. tls_reloaded u (get r)) r0"
    "upd (\<lambda>_. new_TLS u) r0 = r0 \<Longrightarrow>
      (case emit_when (tl_enabled \<circ> get) (TLS_ExportToJson \<circ> get) r of None \<Rightarrow> r0 | Some v \<Rightarrow> read_tls upd v r0) = upd (\<lambda>_. tls_reloaded u (get r)) r0"
proof -
  have off: "TLS_ExportToJson (get r) = [] \<Longrightarrow> tls_reloaded u (get r) = new_TLS u"
    using TLS_reload [OF assms(1)] by (simp add: TLS_ParseFromJson_def)
  have off': "\<not> tl_enabled (get r) \<Longrightarrow> tls_reloaded u (get r) = new_TLS u" by (simp add: tls_reloaded_def)
  show "upd (\<lambda>_. new_TLS u) r0 = r0 \<Longrightarrow>
      (case emit_part TLS_ExportToJson get r of None \<Rightarrow> r0 | Some v \<Rightarrow> read_tls upd v r0) = upd (\<lambda>_. tls_reloaded u (get r)) r0"
    using assms(2) TLS_reload [OF assms(1)] off by (auto simp: emit_part_def emit_object_def read_tls_def)
  show "(case emit_always (JObj \<circ> TLS_ExportToJson \<circ> get) r of None \<Rightarrow> r0 | Some v \<Rightarrow> read_tls upd v r0) = upd (\<lambda>_. tls_reloaded u (get r)) r0"
    using assms(2) TLS_reload [OF assms(1)] by (simp add: emit_always_def read_tls_def)
  show "upd (\<lambda>_. new_TLS u) r0 = r0 \<Longrightarrow>
      (case emit_when (tl_enabled \<circ> get) (TLS_ExportToJson \<circ> get) r of None \<Rightarrow> r0 | Some v \<Rightarrow> read_tls upd v r0) = upd (\<lambda>_. tls_reloaded u (get r)) r0"
    using assms(2) TLS_reload [OF assms(1)] off' by (auto simp: emit_when_def read_tls_def)
qed

lemma absorb_transport_part:
  assumes "upd (\<lambda>t. snd (Transport_ParseFromJson Q (Transport_ExportToJson Q (get r)) t)) r0 =
      upd (\<lambda>_. snd (Transport_ParseFromJson Q (Transport_ExportToJson Q (get r)) new_Transport)) r0"
    "upd (\<lambda>_. new_Transport) r0 = r0"
  shows "(case emit_part (Transport_ExportToJson Q) get r of None \<Rightarrow> r0 | Some v \<Rightarrow> read_transport Q upd v r0) =
    upd (\<lambda>_. transport_reloaded Q (get r)) r0"
proof -
  have "Transport_ExportToJson Q (get r) = [] \<Longrightarrow> transport_reloaded Q (get r) = new_Transport"
    using Transport_reload [of Q "get r"] by (simp add: Transport_ParseFromJson_def parse_part_def)
  then show ?thesis using assms Transport_reload [of Q "get r"]
    by (auto simp: emit_part_def emit_object_def read_transport_def)
qed

lemma absorb_mux_part:
  assumes "mux_ok (get r)" "upd (\<lambda>m. snd (Multiplex_ParseFromJson (Multiplex_ExportToJson (get r)) m)) r0 =
      upd (\<lambda>_. snd (Multiplex_ParseFromJson (Multiplex_ExportToJson (get r)) new_Multiplex)) r0"
    "upd (\<lambda>_. new_Multiplex) r0 = r0"
  shows "(case emit_part Multiplex_ExportToJson get r of None \<Rightarrow> r0 | Some v \<Rightarrow> read_mux upd v r0) =
    upd (\<lambda>_. mux_reloaded (get r)) r0"
proof -
  have "new_Multiplex\<lparr>mx_unspecified := True\<rparr> = new_Multiplex" by (simp add: new_Multiplex_def)
  then have "Multiplex_ExportToJson (get r) = [] \<Longrightarrow> mux_reloaded (get r) = new_Multiplex"
    using Multiplex_reload [OF assms(1)] by (simp add: Multiplex_ParseFromJson_def)
  then show ?thesis using assms Multiplex_reload [OF assms(1)]
    by (auto simp: emit_part_def emit_object_def read_mux_def)
qed

lemmas absorb_class = absorb_kinds absorb_tls [where u = True] absorb_tls [where u = False] absorb_transport_part absorb_mux_part

lemma absorb_uot: "upd (\<lambda>_. False) r0 = r0 \<Longrightarrow>
    (case emit_flag get r of None \<Rightarrow> r0 | Some v \<Rightarrow> read_uot upd v r0) = upd (\<lambda>_. get r) r0"
  by (cases "get r") (simp_all add: emit_flag_def read_uot_def)

lemma absorb_whole: "is_int32 (get r) \<Longrightarrow>
    (case emit_always (jint \<circ> get) r of None \<Rightarrow> r0 | Some v \<Rightarrow> read_int upd v r0) = upd (\<lambda>_. get r) r0"
  by (simp add: emit_always_def read_int_def)

lemma absorb_always_text:
    "(case emit_always (JStr \<circ> get) r of None \<Rightarrow> r0 | Some v \<Rightarrow> read_text upd v r0) = upd (\<lambda>_. get r) r0"
  by (simp add: emit_always_def read_text_def)

lemma absorb_set_text: "get r \<noteq> [] \<Longrightarrow>
    (case emit_text get r of None \<Rightarrow> r0 | Some v \<Rightarrow> read_text upd v r0) = upd (\<lambda>_. get r) r0"
  by (simp add: emit_text_def read_text_def)

lemma absorb_text_if: "upd (\<lambda>_. []) r0 = r0 \<Longrightarrow>
    (case (if b then emit_text get r else None) of None \<Rightarrow> r0 | Some v \<Rightarrow> read_text upd v r0) =
      upd (\<lambda>_. if b then get r else []) r0"
  "upd (\<lambda>_. []) r0 = r0 \<Longrightarrow>
    (case (if b then None else emit_text get r) of None \<Rightarrow> r0 | Some v \<Rightarrow> read_text upd v r0) =
      upd (\<lambda>_. if b then [] else get r) r0"
  by (auto simp: absorb_text)

lemma absorb_header_list: "upd (\<lambda>_. []) r0 = r0 \<Longrightarrow>
    (case emit_object (qStringListToJsonObject (get r)) of None \<Rightarrow> r0 | Some v \<Rightarrow> read_header_list upd v r0) =
      upd (\<lambda>_. jsonObjectToQStringList (qStringListToJsonObject (get r))) r0"
  by (auto simp: emit_object_def read_header_list_def jsonObjectToQStringList_def)

lemma absorb_ignored: "(case m of None \<Rightarrow> r | Some v \<Rightarrow> r) = r"
  by (simp split: option.split)

definition int_ok :: "int \<Rightarrow> bool" where
  "int_ok n \<longleftrightarrow> 0 \<le> n \<and> is_int32 n"

lemmas part_rows = stored_parts_def built_parts_def
lemmas same_rows = row_kinds emit_part_def emit_when_def emit_always_def emit_object_def

lemma tls_off_reloaded: "tl_enabled (tls_reloaded u t) = tl_enabled t"
  by (rule tls_reloaded_keeps)

text \<open>The classes, each as the properties of its rows.\<close>

subsection \<open>trojan\<close>

definition trojan_ok :: "'z qt_text_scheme \<Rightarrow> trojan \<Rightarrow> bool" where
  "trojan_ok Q x \<longleftrightarrow> base_ok x \<and> tls_ok True (trojan_tls x) \<and> transport_ok Q (trojan_transport x) \<and> mux_ok (trojan_multiplex x)"

definition trojan_reloaded :: "'z qt_text_scheme \<Rightarrow> trojan \<Rightarrow> trojan" where
  "trojan_reloaded Q x = x\<lparr>trojan_tls := tls_reloaded True (trojan_tls x), trojan_transport := transport_reloaded Q (trojan_transport x), trojan_multiplex := mux_reloaded (trojan_multiplex x)\<rparr>"

lemma trojan_keys: "distinct (''type'' # base_keys @ map fst (trojan_rows Q P))"
  by (simp add: trojan_rows_def base_keys_def dial_rows_def)

lemma trojan_reload:
  assumes "trojan_ok Q x"
  shows "snd (trojan_ParseFromJson Q (trojan_ExportToJson Q x) new_trojan) = trojan_reloaded Q x"
proof -
  have base: "(fold (absorb_row x) base_rows new_trojan)\<lparr>bo_dial := bo_dial x\<rparr> =
      new_trojan\<lparr>bo_name := bo_name x, bo_server := bo_server x, bo_server_port := bo_server_port x, bo_dial := bo_dial x\<rparr>"
    using assms by (intro base_absorb) (simp_all add: trojan_ok_def new_trojan_def)
  have "snd (trojan_ParseFromJson Q (trojan_ExportToJson Q x) new_trojan) =
      fold (absorb_row x) (trojan_rows Q (stored_parts Q))
        (new_trojan\<lparr>bo_name := bo_name x, bo_server := bo_server x, bo_server_port := bo_server_port x, bo_dial := bo_dial x\<rparr>)"
    unfolding trojan_ParseFromJson_def trojan_ExportToJson_def
    by (subst parse_class_reload [OF trojan_keys]) (simp_all only: base, simp add: new_trojan_def)
  also have "\<dots> = trojan_reloaded Q x"
    using assms by (simp add: trojan_rows_def new_trojan_def trojan_ok_def trojan_reloaded_def part_rows absorb_class int_ok_def )
  finally show ?thesis .
qed

lemma trojan_build_reloaded:
  assumes "trojan_ok S x"
  shows "trojan_Build S (trojan_reloaded S x) = trojan_Build S x"
proof -
  have "list_all (\<lambda>(k, emit, rd). emit (trojan_reloaded S x) = emit x) (trojan_rows S (built_parts S))"
    using assms
    by (simp add: trojan_rows_def trojan_reloaded_def trojan_ok_def part_rows same_rows tls_build_reloaded tls_off_reloaded Transport_Build_def transport_build_reloaded mux_build_reloaded )
  then show ?thesis unfolding trojan_Build_def
    by (rule class_object_same) (simp add: trojan_reloaded_def outbound_Build_same(2) same_base_def)
qed

subsection \<open>vless\<close>

definition vless_ok :: "'z qt_text_scheme \<Rightarrow> vless \<Rightarrow> bool" where
  "vless_ok Q x \<longleftrightarrow> base_ok x \<and> tls_ok True (vless_tls x) \<and> transport_ok Q (vless_transport x) \<and> mux_ok (vless_multiplex x)"

definition vless_reloaded :: "'z qt_text_scheme \<Rightarrow> vless \<Rightarrow> vless" where
  "vless_reloaded Q x = x\<lparr>vless_tls := tls_reloaded True (vless_tls x), vless_transport := transport_reloaded Q (vless_transport x), vless_multiplex := mux_reloaded (vless_multiplex x)\<rparr>"

lemma vless_keys: "distinct (''type'' # base_keys @ map fst (vless_rows Q P))"
  by (simp add: vless_rows_def base_keys_def dial_rows_def)

lemma vless_reload:
  assumes "vless_ok Q x"
  shows "snd (vless_ParseFromJson Q (vless_ExportToJson Q x) new_vless) = vless_reloaded Q x"
proof -
  have base: "(fold (absorb_row x) base_rows new_vless)\<lparr>bo_dial := bo_dial x\<rparr> =
      new_vless\<lparr>bo_name := bo_name x, bo_server := bo_server x, bo_server_port := bo_server_port x, bo_dial := bo_dial x\<rparr>"
    using assms by (intro base_absorb) (simp_all add: vless_ok_def new_vless_def)
  have "snd (vless_ParseFromJson Q (vless_ExportToJson Q x) new_vless) =
      fold (absorb_row x) (vless_rows Q (stored_parts Q))
        (new_vless\<lparr>bo_name := bo_name x, bo_server := bo_server x, bo_server_port := bo_server_port x, bo_dial := bo_dial x\<rparr>)"
    unfolding vless_ParseFromJson_def vless_ExportToJson_def
    by (subst parse_class_reload [OF vless_keys]) (simp_all only: base, simp add: new_vless_def)
  also have "\<dots> = vless_reloaded Q x"
    using assms by (simp add: vless_rows_def new_vless_def vless_ok_def vless_reloaded_def part_rows absorb_class int_ok_def absorb_always_text)
  finally show ?thesis .
qed

lemma vless_build_reloaded:
  assumes "vless_ok S x"
  shows "vless_Build S (vless_reloaded S x) = vless_Build S x"
proof -
  have "list_all (\<lambda>(k, emit, rd). emit (vless_reloaded S x) = emit x) (vless_rows S (built_parts S))"
    using assms
    by (simp add: vless_rows_def vless_reloaded_def vless_ok_def part_rows same_rows tls_build_reloaded tls_off_reloaded Transport_Build_def transport_build_reloaded mux_build_reloaded )
  then show ?thesis unfolding vless_Build_def
    by (rule class_object_same) (simp add: vless_reloaded_def outbound_Build_same(2) same_base_def)
qed

subsection \<open>vmess\<close>

definition vmess_ok :: "'z qt_text_scheme \<Rightarrow> vmess \<Rightarrow> bool" where
  "vmess_ok Q x \<longleftrightarrow> base_ok x \<and> tls_ok True (vmess_tls x) \<and> transport_ok Q (vmess_transport x) \<and> mux_ok (vmess_multiplex x) \<and> int_ok (vmess_alter_id x)"

definition vmess_reloaded :: "'z qt_text_scheme \<Rightarrow> vmess \<Rightarrow> vmess" where
  "vmess_reloaded Q x = x\<lparr>vmess_tls := tls_reloaded True (vmess_tls x), vmess_transport := transport_reloaded Q (vmess_transport x), vmess_multiplex := mux_reloaded (vmess_multiplex x)\<rparr>"

lemma vmess_keys: "distinct (''type'' # base_keys @ map fst (vmess_rows Q P))"
  by (simp add: vmess_rows_def base_keys_def dial_rows_def)

lemma vmess_reload:
  assumes "vmess_ok Q x"
  shows "snd (vmess_ParseFromJson Q (vmess_ExportToJson Q x) new_vmess) = vmess_reloaded Q x"
proof -
  have base: "(fold (absorb_row x) base_rows new_vmess)\<lparr>bo_dial := bo_dial x\<rparr> =
      new_vmess\<lparr>bo_name := bo_name x, bo_server := bo_server x, bo_server_port := bo_server_port x, bo_dial := bo_dial x\<rparr>"
    using assms by (intro base_absorb) (simp_all add: vmess_ok_def new_vmess_def)
  have "snd (vmess_ParseFromJson Q (vmess_ExportToJson Q x) new_vmess) =
      fold (absorb_row x) (vmess_rows Q (stored_parts Q))
        (new_vmess\<lparr>bo_name := bo_name x, bo_server := bo_server x, bo_server_port := bo_server_port x, bo_dial := bo_dial x\<rparr>)"
    unfolding vmess_ParseFromJson_def vmess_ExportToJson_def
    by (subst parse_class_reload [OF vmess_keys]) (simp_all only: base, simp add: new_vmess_def)
  also have "\<dots> = vmess_reloaded Q x"
    using assms by (simp add: vmess_rows_def new_vmess_def vmess_ok_def vmess_reloaded_def part_rows absorb_class int_ok_def absorb_always_text read_text_def)
  finally show ?thesis .
qed

lemma vmess_build_reloaded:
  assumes "vmess_ok S x"
  shows "vmess_Build S (vmess_reloaded S x) = vmess_Build S x"
proof -
  have "list_all (\<lambda>(k, emit, rd). emit (vmess_reloaded S x) = emit x) (vmess_rows S (built_parts S))"
    using assms
    by (simp add: vmess_rows_def vmess_reloaded_def vmess_ok_def part_rows same_rows tls_build_reloaded tls_off_reloaded Transport_Build_def transport_build_reloaded mux_build_reloaded )
  then show ?thesis unfolding vmess_Build_def
    by (rule class_object_same) (simp add: vmess_reloaded_def outbound_Build_same(2) same_base_def)
qed

subsection \<open>anyTLS\<close>

definition anyTLS_ok :: "'z qt_text_scheme \<Rightarrow> anyTLS \<Rightarrow> bool" where
  "anyTLS_ok Q x \<longleftrightarrow> base_ok x \<and> tls_ok True (anyTLS_tls x) \<and> anyTLS_idle_session_check_interval x \<noteq> [] \<and> anyTLS_idle_session_timeout x \<noteq> [] \<and> 0 < anyTLS_min_idle_session x \<and> is_int32 (anyTLS_min_idle_session x)"

definition anyTLS_reloaded :: "'z qt_text_scheme \<Rightarrow> anyTLS \<Rightarrow> anyTLS" where
  "anyTLS_reloaded Q x = x\<lparr>anyTLS_tls := tls_reloaded True (anyTLS_tls x)\<rparr>"

lemma anyTLS_keys: "distinct (''type'' # base_keys @ map fst (anyTLS_rows Q P))"
  by (simp add: anyTLS_rows_def base_keys_def dial_rows_def)

lemma anyTLS_reload:
  assumes "anyTLS_ok Q x"
  shows "snd (anyTLS_ParseFromJson Q (anyTLS_ExportToJson Q x) new_anyTLS) = anyTLS_reloaded Q x"
proof -
  have base: "(fold (absorb_row x) base_rows new_anyTLS)\<lparr>bo_dial := bo_dial x\<rparr> =
      new_anyTLS\<lparr>bo_name := bo_name x, bo_server := bo_server x, bo_server_port := bo_server_port x, bo_dial := bo_dial x\<rparr>"
    using assms by (intro base_absorb) (simp_all add: anyTLS_ok_def new_anyTLS_def)
  have "snd (anyTLS_ParseFromJson Q (anyTLS_ExportToJson Q x) new_anyTLS) =
      fold (absorb_row x) (anyTLS_rows Q (stored_parts Q))
        (new_anyTLS\<lparr>bo_name := bo_name x, bo_server := bo_server x, bo_server_port := bo_server_port x, bo_dial := bo_dial x\<rparr>)"
    unfolding anyTLS_ParseFromJson_def anyTLS_ExportToJson_def
    by (subst parse_class_reload [OF anyTLS_keys]) (simp_all only: base, simp add: new_anyTLS_def)
  also have "\<dots> = anyTLS_reloaded Q x"
    using assms by (simp add: anyTLS_rows_def new_anyTLS_def anyTLS_ok_def anyTLS_reloaded_def part_rows absorb_class int_ok_def absorb_set_text absorb_pos_set)
  finally show ?thesis .
qed

lemma anyTLS_build_reloaded:
  assumes "anyTLS_ok S x"
  shows "anyTLS_Build S (anyTLS_reloaded S x) = anyTLS_Build S x"
proof -
  have "list_all (\<lambda>(k, emit, rd). emit (anyTLS_reloaded S x) = emit x) (anyTLS_rows S (built_parts S))"
    using assms
    by (simp add: anyTLS_rows_def anyTLS_reloaded_def anyTLS_ok_def part_rows same_rows tls_build_reloaded tls_off_reloaded )
  then show ?thesis unfolding anyTLS_Build_def
    by (rule class_object_same) (simp add: anyTLS_reloaded_def outbound_Build_same(2) same_base_def)
qed

subsection \<open>http\<close>

definition http_ok :: "'z qt_text_scheme \<Rightarrow> http \<Rightarrow> bool" where
  "http_ok Q x \<longleftrightarrow> base_ok x \<and> tls_ok True (http_tls x) \<and> even (length (http_headers x))"

definition http_reloaded :: "'z qt_text_scheme \<Rightarrow> http \<Rightarrow> http" where
  "http_reloaded Q x = x\<lparr>http_headers := jsonObjectToQStringList (qStringListToJsonObject (http_headers x)), http_tls := tls_reloaded True (http_tls x)\<rparr>"

lemma http_keys: "distinct (''type'' # base_keys @ map fst (http_rows Q P))"
  by (simp add: http_rows_def base_keys_def dial_rows_def)

lemma http_reload:
  assumes "http_ok Q x"
  shows "snd (http_ParseFromJson Q (http_ExportToJson Q x) new_http) = http_reloaded Q x"
proof -
  have base: "(fold (absorb_row x) base_rows new_http)\<lparr>bo_dial := bo_dial x\<rparr> =
      new_http\<lparr>bo_name := bo_name x, bo_server := bo_server x, bo_server_port := bo_server_port x, bo_dial := bo_dial x\<rparr>"
    using assms by (intro base_absorb) (simp_all add: http_ok_def new_http_def)
  have "snd (http_ParseFromJson Q (http_ExportToJson Q x) new_http) =
      fold (absorb_row x) (http_rows Q (stored_parts Q))
        (new_http\<lparr>bo_name := bo_name x, bo_server := bo_server x, bo_server_port := bo_server_port x, bo_dial := bo_dial x\<rparr>)"
    unfolding http_ParseFromJson_def http_ExportToJson_def
    by (subst parse_class_reload [OF http_keys]) (simp_all only: base, simp add: new_http_def)
  also have "\<dots> = http_reloaded Q x"
    using assms by (simp add: http_rows_def new_http_def http_ok_def http_reloaded_def part_rows absorb_class int_ok_def absorb_header_list)
  finally show ?thesis .
qed

lemma http_build_reloaded:
  assumes "http_ok S x"
  shows "http_Build S (http_reloaded S x) = http_Build S x"
proof -
  have "list_all (\<lambda>(k, emit, rd). emit (http_reloaded S x) = emit x) (http_rows S (built_parts S))"
    using assms
    by (simp add: http_rows_def http_reloaded_def http_ok_def part_rows same_rows tls_build_reloaded tls_off_reloaded headers_back header_wf header_texts)
  then show ?thesis unfolding http_Build_def
    by (rule class_object_same) (simp add: http_reloaded_def outbound_Build_same(2) same_base_def)
qed

subsection \<open>shadowsocks\<close>

definition shadowsocks_ok :: "'z qt_text_scheme \<Rightarrow> shadowsocks \<Rightarrow> bool" where
  "shadowsocks_ok Q x \<longleftrightarrow> base_ok x \<and> mux_ok (shadowsocks_multiplex x)"

definition shadowsocks_reloaded :: "'z qt_text_scheme \<Rightarrow> shadowsocks \<Rightarrow> shadowsocks" where
  "shadowsocks_reloaded Q x = x\<lparr>shadowsocks_multiplex := mux_reloaded (shadowsocks_multiplex x)\<rparr>"

lemma shadowsocks_keys: "distinct (''type'' # base_keys @ map fst (shadowsocks_rows Q P))"
  by (simp add: shadowsocks_rows_def base_keys_def dial_rows_def)

lemma shadowsocks_reload:
  assumes "shadowsocks_ok Q x"
  shows "snd (shadowsocks_ParseFromJson Q (shadowsocks_ExportToJson Q x) new_shadowsocks) = shadowsocks_reloaded Q x"
proof -
  have base: "(fold (absorb_row x) base_rows new_shadowsocks)\<lparr>bo_dial := bo_dial x\<rparr> =
      new_shadowsocks\<lparr>bo_name := bo_name x, bo_server := bo_server x, bo_server_port := bo_server_port x, bo_dial := bo_dial x\<rparr>"
    using assms by (intro base_absorb) (simp_all add: shadowsocks_ok_def new_shadowsocks_def)
  have "snd (shadowsocks_ParseFromJson Q (shadowsocks_ExportToJson Q x) new_shadowsocks) =
      fold (absorb_row x) (shadowsocks_rows Q (stored_parts Q))
        (new_shadowsocks\<lparr>bo_name := bo_name x, bo_server := bo_server x, bo_server_port := bo_server_port x, bo_dial := bo_dial x\<rparr>)"
    unfolding shadowsocks_ParseFromJson_def shadowsocks_ExportToJson_def
    by (subst parse_class_reload [OF shadowsocks_keys]) (simp_all only: base, simp add: new_shadowsocks_def)
  also have "\<dots> = shadowsocks_reloaded Q x"
    using assms by (simp add: shadowsocks_rows_def new_shadowsocks_def shadowsocks_ok_def shadowsocks_reloaded_def part_rows absorb_class int_ok_def absorb_uot)
  finally show ?thesis .
qed

lemma split_plugin_reloaded: "split_plugin (shadowsocks_reloaded Q x) = shadowsocks_reloaded Q (split_plugin x)"
  by (simp add: split_plugin_def shadowsocks_reloaded_def split: option.splits)

lemma shadowsocks_build_reloaded:
  assumes "shadowsocks_ok S x"
  shows "fst (shadowsocks_Build S (shadowsocks_reloaded S x)) = fst (shadowsocks_Build S x)"
proof -
  let ?x = "split_plugin x"
  have "mux_ok (shadowsocks_multiplex ?x)"
    using assms by (simp add: shadowsocks_ok_def split_plugin_def split: option.splits)
  then have "list_all (\<lambda>(k, emit, rd). emit (shadowsocks_reloaded S ?x) = emit ?x) (shadowsocks_rows S (built_parts S))"
    by (simp add: shadowsocks_rows_def shadowsocks_reloaded_def part_rows same_rows mux_build_reloaded)
  then have "class_object ''shadowsocks'' (shadowsocks_rows S (built_parts S)) (shadowsocks_reloaded S ?x)
        (outbound_Build S None (shadowsocks_reloaded S ?x)) =
      class_object ''shadowsocks'' (shadowsocks_rows S (built_parts S)) ?x (outbound_Build S None ?x)"
    by (rule class_object_same) (rule outbound_Build_same, simp add: shadowsocks_reloaded_def same_base_def)
  then show ?thesis by (simp add: shadowsocks_Build_def split_plugin_reloaded Let_def)
qed

subsection \<open>shadowtls\<close>

definition shadowtls_ok :: "'z qt_text_scheme \<Rightarrow> shadowtls \<Rightarrow> bool" where
  "shadowtls_ok Q x \<longleftrightarrow> base_ok x \<and> tls_ok True (shadowtls_tls x) \<and> is_int32 (shadowtls_version x)"

definition shadowtls_reloaded :: "'z qt_text_scheme \<Rightarrow> shadowtls \<Rightarrow> shadowtls" where
  "shadowtls_reloaded Q x = x\<lparr>shadowtls_password := if 1 < shadowtls_version x then shadowtls_password x else [], shadowtls_tls := tls_reloaded True (shadowtls_tls x)\<rparr>"

lemma shadowtls_keys: "distinct (''type'' # base_keys @ map fst (shadowtls_rows Q P))"
  by (simp add: shadowtls_rows_def base_keys_def dial_rows_def)

lemma shadowtls_reload:
  assumes "shadowtls_ok Q x"
  shows "snd (shadowtls_ParseFromJson Q (shadowtls_ExportToJson Q x) new_shadowtls) = shadowtls_reloaded Q x"
proof -
  have base: "(fold (absorb_row x) base_rows new_shadowtls)\<lparr>bo_dial := bo_dial x\<rparr> =
      new_shadowtls\<lparr>bo_name := bo_name x, bo_server := bo_server x, bo_server_port := bo_server_port x, bo_dial := bo_dial x\<rparr>"
    using assms by (intro base_absorb) (simp_all add: shadowtls_ok_def new_shadowtls_def)
  have "snd (shadowtls_ParseFromJson Q (shadowtls_ExportToJson Q x) new_shadowtls) =
      fold (absorb_row x) (shadowtls_rows Q (stored_parts Q))
        (new_shadowtls\<lparr>bo_name := bo_name x, bo_server := bo_server x, bo_server_port := bo_server_port x, bo_dial := bo_dial x\<rparr>)"
    unfolding shadowtls_ParseFromJson_def shadowtls_ExportToJson_def
    by (subst parse_class_reload [OF shadowtls_keys]) (simp_all only: base, simp add: new_shadowtls_def)
  also have "\<dots> = shadowtls_reloaded Q x"
    using assms by (simp add: shadowtls_rows_def new_shadowtls_def shadowtls_ok_def shadowtls_reloaded_def part_rows absorb_class int_ok_def absorb_whole absorb_text_if)
  finally show ?thesis .
qed

lemma shadowtls_build_reloaded:
  assumes "shadowtls_ok S x"
  shows "shadowtls_Build S (shadowtls_reloaded S x) = shadowtls_Build S x"
proof -
  have "list_all (\<lambda>(k, emit, rd). emit (shadowtls_reloaded S x) = emit x) (shadowtls_rows S (built_parts S))"
    using assms
    by (simp add: shadowtls_rows_def shadowtls_reloaded_def shadowtls_ok_def part_rows same_rows tls_build_reloaded tls_off_reloaded )
  then show ?thesis unfolding shadowtls_Build_def
    by (rule class_object_same) (simp add: shadowtls_reloaded_def outbound_Build_same(2) same_base_def)
qed

subsection \<open>tuic\<close>

definition tuic_ok :: "'z qt_text_scheme \<Rightarrow> tuic \<Rightarrow> bool" where
  "tuic_ok Q x \<longleftrightarrow> base_ok x \<and> tls_ok False (tuic_tls x)"

definition tuic_reloaded :: "'z qt_text_scheme \<Rightarrow> tuic \<Rightarrow> tuic" where
  "tuic_reloaded Q x = x\<lparr>tuic_udp_relay_mode := if tuic_udp_over_stream x then [] else tuic_udp_relay_mode x, tuic_tls := tls_reloaded False (tuic_tls x)\<rparr>"

lemma tuic_keys: "distinct (''type'' # base_keys @ map fst (tuic_rows Q P))"
  by (simp add: tuic_rows_def base_keys_def dial_rows_def)

lemma tuic_reload:
  assumes "tuic_ok Q x"
  shows "snd (tuic_ParseFromJson Q (tuic_ExportToJson Q x) new_tuic) = tuic_reloaded Q x"
proof -
  have base: "(fold (absorb_row x) base_rows new_tuic)\<lparr>bo_dial := bo_dial x\<rparr> =
      new_tuic\<lparr>bo_name := bo_name x, bo_server := bo_server x, bo_server_port := bo_server_port x, bo_dial := bo_dial x\<rparr>"
    using assms by (intro base_absorb) (simp_all add: tuic_ok_def new_tuic_def)
  have "snd (tuic_ParseFromJson Q (tuic_ExportToJson Q x) new_tuic) =
      fold (absorb_row x) (tuic_rows Q (stored_parts Q))
        (new_tuic\<lparr>bo_name := bo_name x, bo_server := bo_server x, bo_server_port := bo_server_port x, bo_dial := bo_dial x\<rparr>)"
    unfolding tuic_ParseFromJson_def tuic_ExportToJson_def
    by (subst parse_class_reload [OF tuic_keys]) (simp_all only: base, simp add: new_tuic_def)
  also have "\<dots> = tuic_reloaded Q x"
    using assms by (simp add: tuic_rows_def new_tuic_def tuic_ok_def tuic_reloaded_def part_rows absorb_class int_ok_def absorb_text_if)
  finally show ?thesis .
qed

lemma tuic_build_reloaded:
  assumes "tuic_ok S x"
  shows "tuic_Build S (tuic_reloaded S x) = tuic_Build S x"
proof -
  have "list_all (\<lambda>(k, emit, rd). emit (tuic_reloaded S x) = emit x) (tuic_rows S (built_parts S))"
    using assms
    by (simp add: tuic_rows_def tuic_reloaded_def tuic_ok_def part_rows same_rows tls_build_reloaded tls_off_reloaded )
  then show ?thesis unfolding tuic_Build_def
    by (rule class_object_same) (simp add: tuic_reloaded_def outbound_Build_same(2) same_base_def)
qed

subsection \<open>juicity\<close>

definition juicity_ok :: "'z qt_text_scheme \<Rightarrow> juicity \<Rightarrow> bool" where
  "juicity_ok Q x \<longleftrightarrow> base_ok x \<and> tls_ok False (juicity_tls x)"

definition juicity_reloaded :: "'z qt_text_scheme \<Rightarrow> juicity \<Rightarrow> juicity" where
  "juicity_reloaded Q x = x\<lparr>juicity_tls := tls_reloaded False (juicity_tls x)\<rparr>"

lemma juicity_keys: "distinct (''type'' # base_keys @ map fst (juicity_rows Q P))"
  by (simp add: juicity_rows_def base_keys_def dial_rows_def)

lemma juicity_reload:
  assumes "juicity_ok Q x"
  shows "snd (juicity_ParseFromJson Q (juicity_ExportToJson Q x) new_juicity) = juicity_reloaded Q x"
proof -
  have base: "(fold (absorb_row x) base_rows new_juicity)\<lparr>bo_dial := bo_dial x\<rparr> =
      new_juicity\<lparr>bo_name := bo_name x, bo_server := bo_server x, bo_server_port := bo_server_port x, bo_dial := bo_dial x\<rparr>"
    using assms by (intro base_absorb) (simp_all add: juicity_ok_def new_juicity_def)
  have "snd (juicity_ParseFromJson Q (juicity_ExportToJson Q x) new_juicity) =
      fold (absorb_row x) (juicity_rows Q (stored_parts Q))
        (new_juicity\<lparr>bo_name := bo_name x, bo_server := bo_server x, bo_server_port := bo_server_port x, bo_dial := bo_dial x\<rparr>)"
    unfolding juicity_ParseFromJson_def juicity_ExportToJson_def
    by (subst parse_class_reload [OF juicity_keys]) (simp_all only: base, simp add: new_juicity_def)
  also have "\<dots> = juicity_reloaded Q x"
    using assms by (simp add: juicity_rows_def new_juicity_def juicity_ok_def juicity_reloaded_def part_rows absorb_class int_ok_def )
  finally show ?thesis .
qed

lemma juicity_build_reloaded:
  assumes "juicity_ok S x"
  shows "juicity_Build S (juicity_reloaded S x) = juicity_Build S x"
proof -
  have "list_all (\<lambda>(k, emit, rd). emit (juicity_reloaded S x) = emit x) (juicity_rows S (built_parts S))"
    using assms
    by (simp add: juicity_rows_def juicity_reloaded_def juicity_ok_def part_rows same_rows tls_build_reloaded tls_off_reloaded )
  then show ?thesis unfolding juicity_Build_def
    by (rule class_object_same) (simp add: juicity_reloaded_def outbound_Build_same(2) same_base_def)
qed

subsection \<open>trusttunnel\<close>

definition trusttunnel_ok :: "'z qt_text_scheme \<Rightarrow> trusttunnel \<Rightarrow> bool" where
  "trusttunnel_ok Q x \<longleftrightarrow> base_ok x \<and> tls_ok True (trusttunnel_tls x) \<and> (trusttunnel_quic x \<longrightarrow> trusttunnel_congestion_control x = [])"

definition trusttunnel_reloaded :: "'z qt_text_scheme \<Rightarrow> trusttunnel \<Rightarrow> trusttunnel" where
  "trusttunnel_reloaded Q x = x\<lparr>trusttunnel_congestion_control := [], trusttunnel_tls := tls_reloaded True (trusttunnel_tls x)\<rparr>"

lemma trusttunnel_keys: "distinct (''type'' # base_keys @ map fst (trusttunnel_rows Q P))"
  by (simp add: trusttunnel_rows_def base_keys_def dial_rows_def)

lemma trusttunnel_reload:
  assumes "trusttunnel_ok Q x"
  shows "snd (trusttunnel_ParseFromJson Q (trusttunnel_ExportToJson Q x) new_trusttunnel) = trusttunnel_reloaded Q x"
proof -
  have base: "(fold (absorb_row x) base_rows new_trusttunnel)\<lparr>bo_dial := bo_dial x\<rparr> =
      new_trusttunnel\<lparr>bo_name := bo_name x, bo_server := bo_server x, bo_server_port := bo_server_port x, bo_dial := bo_dial x\<rparr>"
    using assms by (intro base_absorb) (simp_all add: trusttunnel_ok_def new_trusttunnel_def)
  have "snd (trusttunnel_ParseFromJson Q (trusttunnel_ExportToJson Q x) new_trusttunnel) =
      fold (absorb_row x) (trusttunnel_rows Q (stored_parts Q))
        (new_trusttunnel\<lparr>bo_name := bo_name x, bo_server := bo_server x, bo_server_port := bo_server_port x, bo_dial := bo_dial x\<rparr>)"
    unfolding trusttunnel_ParseFromJson_def trusttunnel_ExportToJson_def
    by (subst parse_class_reload [OF trusttunnel_keys]) (simp_all only: base, simp add: new_trusttunnel_def)
  also have "\<dots> = trusttunnel_reloaded Q x"
    using assms by (simp add: trusttunnel_rows_def new_trusttunnel_def trusttunnel_ok_def trusttunnel_reloaded_def part_rows absorb_class int_ok_def absorb_uot absorb_ignored)
  finally show ?thesis .
qed

lemma trusttunnel_build_reloaded:
  assumes "trusttunnel_ok S x"
  shows "trusttunnel_Build S (trusttunnel_reloaded S x) = trusttunnel_Build S x"
proof -
  have "list_all (\<lambda>(k, emit, rd). emit (trusttunnel_reloaded S x) = emit x) (trusttunnel_rows S (built_parts S))"
    using assms
    by (simp add: trusttunnel_rows_def trusttunnel_reloaded_def trusttunnel_ok_def part_rows same_rows tls_build_reloaded tls_off_reloaded )
  then show ?thesis unfolding trusttunnel_Build_def
    by (rule class_object_same) (simp add: trusttunnel_reloaded_def outbound_Build_same(2) same_base_def)
qed

subsection \<open>naive\<close>

definition naive_ok :: "'z qt_text_scheme \<Rightarrow> naive \<Rightarrow> bool" where
  "naive_ok Q x \<longleftrightarrow> base_ok x \<and> tls_ok False (naive_tls x) \<and> (naive_quic x \<longrightarrow> naive_congestion_control x = [])"

definition naive_reloaded :: "'z qt_text_scheme \<Rightarrow> naive \<Rightarrow> naive" where
  "naive_reloaded Q x = x\<lparr>naive_congestion_control := [], naive_tls := tls_reloaded False (naive_tls x)\<rparr>"

lemma naive_keys: "distinct (''type'' # base_keys @ map fst (naive_rows Q P))"
  by (simp add: naive_rows_def base_keys_def dial_rows_def)

lemma naive_reload:
  assumes "naive_ok Q x"
  shows "snd (naive_ParseFromJson Q (naive_ExportToJson Q x) new_naive) = naive_reloaded Q x"
proof -
  have base: "(fold (absorb_row x) base_rows new_naive)\<lparr>bo_dial := bo_dial x\<rparr> =
      new_naive\<lparr>bo_name := bo_name x, bo_server := bo_server x, bo_server_port := bo_server_port x, bo_dial := bo_dial x\<rparr>"
    using assms by (intro base_absorb) (simp_all add: naive_ok_def new_naive_def)
  have "snd (naive_ParseFromJson Q (naive_ExportToJson Q x) new_naive) =
      fold (absorb_row x) (naive_rows Q (stored_parts Q))
        (new_naive\<lparr>bo_name := bo_name x, bo_server := bo_server x, bo_server_port := bo_server_port x, bo_dial := bo_dial x\<rparr>)"
    unfolding naive_ParseFromJson_def naive_ExportToJson_def
    by (subst parse_class_reload [OF naive_keys]) (simp_all only: base, simp add: new_naive_def)
  also have "\<dots> = naive_reloaded Q x"
    using assms by (simp add: naive_rows_def new_naive_def naive_ok_def naive_reloaded_def part_rows absorb_class int_ok_def absorb_uot absorb_ignored)
  finally show ?thesis .
qed

lemma naive_build_reloaded:
  assumes "naive_ok S x"
  shows "naive_Build S (naive_reloaded S x) = naive_Build S x"
proof -
  have "list_all (\<lambda>(k, emit, rd). emit (naive_reloaded S x) = emit x) (naive_rows S (built_parts S))"
    using assms
    by (simp add: naive_rows_def naive_reloaded_def naive_ok_def part_rows same_rows tls_build_reloaded tls_off_reloaded )
  then show ?thesis unfolding naive_Build_def
    by (rule class_object_same) (simp add: naive_reloaded_def outbound_Build_same(2) same_base_def)
qed

subsection \<open>ssh\<close>

definition ssh_ok :: "'z qt_text_scheme \<Rightarrow> ssh \<Rightarrow> bool" where
  "ssh_ok Q x \<longleftrightarrow> base_ok x"

definition ssh_reloaded :: "'z qt_text_scheme \<Rightarrow> ssh \<Rightarrow> ssh" where
  "ssh_reloaded Q x = x"

lemma ssh_keys: "distinct (''type'' # base_keys @ map fst (ssh_rows Q P))"
  by (simp add: ssh_rows_def base_keys_def dial_rows_def)

lemma ssh_reload:
  assumes "ssh_ok Q x"
  shows "snd (ssh_ParseFromJson Q (ssh_ExportToJson Q x) new_ssh) = ssh_reloaded Q x"
proof -
  have base: "(fold (absorb_row x) base_rows new_ssh)\<lparr>bo_dial := bo_dial x\<rparr> =
      new_ssh\<lparr>bo_name := bo_name x, bo_server := bo_server x, bo_server_port := bo_server_port x, bo_dial := bo_dial x\<rparr>"
    using assms by (intro base_absorb) (simp_all add: ssh_ok_def new_ssh_def)
  have "snd (ssh_ParseFromJson Q (ssh_ExportToJson Q x) new_ssh) =
      fold (absorb_row x) (ssh_rows Q (stored_parts Q))
        (new_ssh\<lparr>bo_name := bo_name x, bo_server := bo_server x, bo_server_port := bo_server_port x, bo_dial := bo_dial x\<rparr>)"
    unfolding ssh_ParseFromJson_def ssh_ExportToJson_def
    by (subst parse_class_reload [OF ssh_keys]) (simp_all only: base, simp add: new_ssh_def)
  also have "\<dots> = ssh_reloaded Q x"
    using assms by (simp add: ssh_rows_def new_ssh_def ssh_ok_def ssh_reloaded_def part_rows absorb_class int_ok_def )
  finally show ?thesis .
qed

lemma ssh_build_reloaded:
  assumes "ssh_ok S x"
  shows "ssh_Build S (ssh_reloaded S x) = ssh_Build S x"
proof -
  have "list_all (\<lambda>(k, emit, rd). emit (ssh_reloaded S x) = emit x) (ssh_rows S (built_parts S))"
    using assms
    by (simp add: ssh_rows_def ssh_reloaded_def ssh_ok_def part_rows same_rows )
  then show ?thesis unfolding ssh_Build_def
    by (rule class_object_same) (rule outbound_Build_same(1), simp add: ssh_reloaded_def same_base_def)
qed

subsection \<open>snell\<close>

definition snell_ok :: "'z qt_text_scheme \<Rightarrow> snell \<Rightarrow> bool" where
  "snell_ok Q x \<longleftrightarrow> base_ok x \<and> supportedVersion (snell_version x)"

text \<open>The fields of the other version are dropped.\<close>

definition snell_reloaded :: "'z qt_text_scheme \<Rightarrow> snell \<Rightarrow> snell" where
  "snell_reloaded Q x = x\<lparr>snell_obfs_mode := if snell_version x = 6 then [] else snell_obfs_mode x,
     snell_obfs_host := if snell_version x = 6 then [] else snell_obfs_host x,
     snell_mode := if snell_version x = 6 then snell_mode x else []\<rparr>"

lemma snell_keys: "distinct (''type'' # base_keys @ map fst (snell_rows Q P))"
  by (simp add: snell_rows_def base_keys_def dial_rows_def)

lemma parse_rows_append: "parse_rows (xs @ ys) ob r = parse_rows ys ob (parse_rows xs ob r)"
  by (induction xs arbitrary: r) auto

lemma parse_rows_split: "parse_rows (drop n rows) ob (parse_rows (take n rows) ob r) = parse_rows rows ob r"
  by (metis append_take_drop_id parse_rows_append)

lemma snell_later_rows: "snell_version (parse_rows (drop 1 (snell_rows Q P)) ob x) = snell_version x"
  by (simp add: snell_rows_def row_kinds)

lemma snell_reload:
  assumes "snell_ok Q x"
  shows "snell_ParseFromJson Q (snell_ExportToJson Q x) new_snell = (True, snell_reloaded Q x)"
proof -
  let ?rows = "snell_rows Q (stored_parts Q)" and ?ob = "snell_ExportToJson Q x"
  have base: "(fold (absorb_row x) base_rows new_snell)\<lparr>bo_dial := bo_dial x\<rparr> =
      new_snell\<lparr>bo_name := bo_name x, bo_server := bo_server x, bo_server_port := bo_server_port x, bo_dial := bo_dial x\<rparr>"
    using assms by (intro base_absorb) (simp_all add: snell_ok_def new_snell_def)
  have v: "is_int32 (snell_version x)" using assms by (auto simp: snell_ok_def supportedVersion_def is_int32_def)
  have "parse_rows ?rows ?ob (snd (base_ParseFromJson ?ob new_snell)) =
      fold (absorb_row x) ?rows ((fold (absorb_row x) base_rows new_snell)\<lparr>bo_dial := bo_dial x\<rparr>)"
    unfolding snell_ExportToJson_def by (rule class_reload [OF snell_keys]) (simp add: new_snell_def)
  also have "\<dots> = snell_reloaded Q x"
    unfolding base using v
    by (simp add: snell_rows_def new_snell_def snell_reloaded_def absorb_kinds absorb_whole absorb_text_if)
  finally have all: "parse_rows ?rows ?ob (snd (base_ParseFromJson ?ob new_snell)) = snell_reloaded Q x" .
  then have "snell_version (parse_rows (take 1 ?rows) ?ob (snd (base_ParseFromJson ?ob new_snell))) = snell_version x"
    using snell_later_rows [of Q "stored_parts Q" ?ob] parse_rows_split [of 1 ?rows ?ob]
    by (metis (no_types, lifting) snell.update_convs(6,7,8) snell.surjective snell.select_convs(1) snell_reloaded_def)
  moreover have t: "map_of ?ob ''type'' = Some (JStr ''snell'')"
    unfolding snell_ExportToJson_def by (rule class_object_type [OF snell_keys])
  moreover have "?ob \<noteq> []" using t by auto
  ultimately show ?thesis using assms all parse_rows_split [of 1 ?rows ?ob]
    by (simp add: snell_ParseFromJson_def jget_def snell_ok_def Let_def)
qed

lemma snell_build_reloaded: "snell_Build S (snell_reloaded S x) = snell_Build S x"
proof -
  have "list_all (\<lambda>(k, emit, rd). emit (snell_reloaded S x) = emit x) (snell_rows S (built_parts S))"
    by (simp add: snell_rows_def snell_reloaded_def same_rows)
  then show ?thesis unfolding snell_Build_def
    by (rule class_object_same) (rule outbound_Build_same(1), simp add: snell_reloaded_def same_base_def)
qed

subsection \<open>mieru\<close>

text \<open>Trimming a trimmed port changes nothing, and a port holds no comma.\<close>

definition mieru_ok :: "'z qt_text_scheme \<Rightarrow> mieru \<Rightarrow> bool" where
  "mieru_ok Q x \<longleftrightarrow> base_ok x \<and>
     (\<forall>p\<in>set (splitServerPorts Q (mieru_server_ports x)). CHR '','' \<notin> set p \<and> qt_trimmed Q p = p)"

definition mieru_reloaded :: "'z qt_text_scheme \<Rightarrow> mieru \<Rightarrow> mieru" where
  "mieru_reloaded Q x = x\<lparr>mieru_transport := or_default ''TCP'' (mieru_transport x),
     mieru_server_ports := join_commas (splitServerPorts Q (mieru_server_ports x))\<rparr>"

lemma mieru_keys: "distinct (''type'' # base_keys @ map fst (mieru_rows Q P))"
  by (simp add: mieru_rows_def base_keys_def dial_rows_def)

lemma split_comma_part: "CHR '','' \<notin> set l \<Longrightarrow> split_on (CHR '','') part (l @ CHR '','' # cs) = (rev part @ l) # split_on (CHR '','') [] cs"
  by (induction l arbitrary: part) auto

lemma split_comma_last: "CHR '','' \<notin> set l \<Longrightarrow> split_on (CHR '','') part l = [rev part @ l]"
  by (induction l arbitrary: part) auto

lemma split_join_commas:
  "\<forall>p\<in>set ps. p \<noteq> [] \<and> CHR '','' \<notin> set p \<Longrightarrow> split_skip_empty (CHR '','') (join_commas ps) = ps"
proof (induction ps rule: induct_list012)
  case (3 p q ps)
  have "join_commas (p # q # ps) = p @ CHR '','' # join_commas (q # ps)" by (simp add: join_commas_def)
  then show ?case using 3 by (simp add: split_skip_empty_def split_comma_part)
qed (simp_all add: join_commas_def split_skip_empty_def split_comma_last)

lemma split_ports_again:
  assumes "\<forall>p\<in>set (splitServerPorts Q s). CHR '','' \<notin> set p \<and> qt_trimmed Q p = p"
  shows "splitServerPorts Q (join_commas (splitServerPorts Q s)) = splitServerPorts Q s"
proof -
  let ?ps = "splitServerPorts Q s"
  have ne: "\<forall>p\<in>set ?ps. p \<noteq> []" by (simp add: splitServerPorts_def)
  then have "split_skip_empty (CHR '','') (join_commas ?ps) = ?ps" using assms by (intro split_join_commas) auto
  moreover have "map (qt_trimmed Q) ?ps = ?ps" using assms by (intro map_idI) auto
  moreover have "filter (\<lambda>p. p \<noteq> []) ?ps = ?ps" using ne by (auto intro: filter_True)
  ultimately show ?thesis by (simp add: splitServerPorts_def [of Q "join_commas ?ps"])
qed

lemma join_commas_empty [simp]: "join_commas [] = []"
  by (simp add: join_commas_def)

lemma mieru_reload:
  assumes "mieru_ok Q x"
  shows "snd (mieru_ParseFromJson Q (mieru_ExportToJson Q x) new_mieru) = mieru_reloaded Q x"
proof -
  have base: "(fold (absorb_row x) base_rows new_mieru)\<lparr>bo_dial := bo_dial x\<rparr> =
      new_mieru\<lparr>bo_name := bo_name x, bo_server := bo_server x, bo_server_port := bo_server_port x, bo_dial := bo_dial x\<rparr>"
    using assms by (intro base_absorb) (simp_all add: mieru_ok_def new_mieru_def)
  have ports: "(case emit_texts (\<lambda>x. splitServerPorts Q (mieru_server_ports x)) x of None \<Rightarrow> r0
      | Some v \<Rightarrow> mieru_server_ports_update (\<lambda>_. join_commas (QJsonArray2QListString (to_arr v))) r0) =
      mieru_server_ports_update (\<lambda>_. join_commas (splitServerPorts Q (mieru_server_ports x))) r0"
    if "mieru_server_ports r0 = []" for r0
    using that by (cases r0) (auto simp: emit_texts_def QListStr2QJsonArray_def QListString_roundtrip)
  have "snd (mieru_ParseFromJson Q (mieru_ExportToJson Q x) new_mieru) =
      fold (absorb_row x) (mieru_rows Q (stored_parts Q))
        (new_mieru\<lparr>bo_name := bo_name x, bo_server := bo_server x, bo_server_port := bo_server_port x, bo_dial := bo_dial x\<rparr>)"
    unfolding mieru_ParseFromJson_def mieru_ExportToJson_def
    by (subst parse_class_reload [OF mieru_keys]) (simp_all only: base, simp add: new_mieru_def)
  also have "\<dots> = mieru_reloaded Q x"
    by (simp add: mieru_rows_def new_mieru_def mieru_reloaded_def absorb_kinds ports emit_always_def read_text_def)
  finally show ?thesis .
qed

lemma mieru_build_reloaded:
  assumes "mieru_ok S x"
  shows "mieru_Build S (mieru_reloaded S x) = mieru_Build S x"
proof -
  have "splitServerPorts S (join_commas (splitServerPorts S (mieru_server_ports x))) = splitServerPorts S (mieru_server_ports x)"
    by (rule split_ports_again) (use assms in \<open>simp add: mieru_ok_def\<close>)
  then have "list_all (\<lambda>(k, emit, rd). emit (mieru_reloaded S x) = emit x) (mieru_rows S (built_parts S))"
    by (simp add: mieru_rows_def mieru_reloaded_def same_rows or_default_def)
  then show ?thesis unfolding mieru_Build_def
    by (rule class_object_same) (rule outbound_Build_same(1), simp add: mieru_reloaded_def same_base_def)
qed

subsection \<open>tailscale\<close>

text \<open>A field with a default comes back as the default when it was cleared.\<close>

definition tailscale_ok :: "'z qt_text_scheme \<Rightarrow> tailscale \<Rightarrow> bool" where
  "tailscale_ok Q x \<longleftrightarrow> tailscale_state_directory x \<noteq> [] \<and> tailscale_control_url x \<noteq> []"

definition tailscale_reloaded :: "'z qt_text_scheme \<Rightarrow> tailscale \<Rightarrow> tailscale" where
  "tailscale_reloaded Q x = x\<lparr>bo_server := [], bo_server_port := 0, bo_dial := new_dialFields\<rparr>"

lemma tailscale_keys: "distinct (map fst (tailscale_rows Q P))"
  by (simp add: tailscale_rows_def)

lemma tailscale_lookup:
  "(k, emit, rd) \<in> set (tailscale_rows Q (stored_parts Q)) \<Longrightarrow> map_of (tailscale_ExportToJson Q x) k = emit x"
  unfolding tailscale_ExportToJson_def
  by (rule put_rows_row [OF tailscale_keys], assumption) (auto simp: map_of_jbuild tailscale_rows_def)

lemma tailscale_lookup_other:
  "k \<notin> fst ` set (tailscale_rows Q (stored_parts Q)) \<Longrightarrow>
   map_of (tailscale_ExportToJson Q x) k = map_of [(''type'', JStr ''tailscale''), (''tag'', JStr (bo_name x))] k"
  unfolding tailscale_ExportToJson_def by (subst put_rows_other [OF tailscale_keys]) (simp_all add: map_of_jbuild)

lemma tailscale_reload:
  assumes "tailscale_ok Q x"
  shows "snd (tailscale_ParseFromJson Q (tailscale_ExportToJson Q x) new_tailscale) = tailscale_reloaded Q x"
proof -
  let ?rows = "tailscale_rows Q (stored_parts Q)" and ?ob = "tailscale_ExportToJson Q x"
  have own: "map_of ?ob k = map_of [(''type'', JStr ''tailscale''), (''tag'', JStr (bo_name x))] k"
    if "k \<in> {''type'', ''tag'', ''server'', ''server_port''} \<or> k \<in> fst ` set dial_rows" for k
    using that by (intro tailscale_lookup_other) (auto simp: tailscale_rows_def dial_rows_def)
  have t: "map_of ?ob ''type'' = Some (JStr ''tailscale'')" by (simp add: own)
  then have ne: "?ob \<noteq> []" by auto
  have "parse_rows dial_rows ?ob d = d" for d
    by (rule parse_rows_other) (use own in \<open>auto simp: map_of_eq_None_iff [symmetric] dial_rows_def\<close>)
  then have base: "snd (base_ParseFromJson ?ob new_tailscale) = new_tailscale\<lparr>bo_name := bo_name x\<rparr>"
    using ne by (simp add: base_ParseFromJson_def base_rows_def jcontains_def jget_def own read_text_def dial_ParseFromJson_def
        Let_def new_tailscale_def)
  have "parse_rows ?rows ?ob (new_tailscale\<lparr>bo_name := bo_name x\<rparr>) = fold (absorb_row x) ?rows (new_tailscale\<lparr>bo_name := bo_name x\<rparr>)"
    by (rule parse_rows_absorb) (rule tailscale_lookup)
  also have "\<dots> = tailscale_reloaded Q x"
    using assms by (simp add: tailscale_rows_def new_tailscale_def tailscale_reloaded_def tailscale_ok_def absorb_kinds absorb_set_text)
  finally show ?thesis using ne t by (simp add: tailscale_ParseFromJson_def parse_class_def base jget_def)
qed

lemma tailscale_build_reloaded: "tailscale_Build S (tailscale_reloaded S x) = tailscale_Build S x"
proof -
  have "list_all (\<lambda>(k, emit, rd). emit (tailscale_reloaded S x) = emit x) (butlast (tailscale_rows S (built_parts S)))"
    by (simp add: tailscale_rows_def tailscale_reloaded_def same_rows)
  then show ?thesis by (simp add: tailscale_Build_def put_rows_def same_emissions(1))
qed

subsection \<open>hysteria\<close>

definition hysteria_ok :: "'z qt_text_scheme \<Rightarrow> hysteria \<Rightarrow> bool" where
  "hysteria_ok Q x \<longleftrightarrow> base_ok x \<and> tls_ok False (hysteria_tls x) \<and>
     (\<forall>p\<in>set (hysteria_server_ports x). length (filter range_sep p) \<le> 1) \<and>
     (\<forall>n\<in>{hysteria_up_mbps x, hysteria_down_mbps x, hysteria_recv_window_conn x, hysteria_recv_window x,
       hysteria_min_packet_size x, hysteria_max_packet_size x}. int_ok n)"

definition auth_kept :: "hysteria \<Rightarrow> bool" where
  "auth_kept x \<longleftrightarrow> hysteria_protocol_version x = ''1'' \<and> hysteria_auth x \<noteq> [] \<and> hysteria_auth_type x \<in> {''BASE64'', ''STRING''}"

definition obfs_kept :: "hysteria \<Rightarrow> bool" where
  "obfs_kept x \<longleftrightarrow> hysteria_protocol_version x \<noteq> ''1'' \<and> hysteria_obfs x \<noteq> []"

definition hysteria_reloaded :: "'z qt_text_scheme \<Rightarrow> hysteria \<Rightarrow> hysteria" where
  "hysteria_reloaded Q x =
     (let one = (hysteria_protocol_version x = ''1'')
      in x\<lparr>hysteria_protocol_version := if one then ''1'' else ''2'',
           hysteria_server_ports := portsToPorts (hysteria_server_ports x),
           hysteria_auth := if auth_kept x then hysteria_auth x else [],
           hysteria_auth_type := if auth_kept x then hysteria_auth_type x else [],
           hysteria_recv_window_conn := if one then hysteria_recv_window_conn x else 0,
           hysteria_recv_window := if one then hysteria_recv_window x else 0,
           hysteria_disable_mtu_discovery := (one \<and> hysteria_disable_mtu_discovery x),
           hysteria_password := if one then [] else hysteria_password x,
           hysteria_min_packet_size := if obfs_kept x then hysteria_min_packet_size x else 0,
           hysteria_max_packet_size := if obfs_kept x then hysteria_max_packet_size x else 0,
           hysteria_obfs_type := if obfs_kept x then hysteria_obfs_type x else ''salamander'',
           hysteria_tls := tls_reloaded False (hysteria_tls x)\<rparr>)"

lemma hysteria_keys: "distinct (''type'' # base_keys @ map fst (hysteria_rows one obfs P))"
  by (cases one) (simp_all add: hysteria_rows_def hysteria1_rows_def hysteria2_rows_def hysteria_common_rows_def
    base_keys_def dial_rows_def)

lemma split_no_sep: "\<forall>c\<in>set s. \<not> sep c \<Longrightarrow> split_where sep part s = [rev part @ s]"
  by (induction s arbitrary: part) auto

lemma split_sep: "\<forall>c\<in>set s. \<not> sep c \<Longrightarrow> sep d \<Longrightarrow> split_where sep part (s @ d # cs) = (rev part @ s) # split_where sep [] cs"
  by (induction s arbitrary: part) auto

lemma one_separator:
  assumes "length (filter sep s) \<le> 1"
  shows "(\<forall>c\<in>set s. \<not> sep c) \<or> (\<exists>a d b. s = a @ d # b \<and> sep d \<and> (\<forall>c\<in>set a. \<not> sep c) \<and> (\<forall>c\<in>set b. \<not> sep c))"
proof (cases "\<exists>c\<in>set s. sep c")
  case True
  then obtain a d b where s: "s = a @ d # b" "sep d" "\<forall>c\<in>set a. \<not> sep c" by (metis split_list_first_propE)
  then have "filter sep b = []" using assms by simp
  then show ?thesis using s by (auto simp: filter_empty_conv)
qed auto

lemma port_range_again:
  assumes "length (filter range_sep p) \<le> 1"
  shows "port_range (port_range p) = port_range p"
proof -
  have colon: "range_sep (CHR '':'')" by (simp add: range_sep_def)
  from one_separator [OF assms] show ?thesis
  proof (elim disjE exE conjE)
    assume "\<forall>c\<in>set p. \<not> range_sep c"
    then show ?thesis using colon by (simp add: port_range_def split_no_sep split_sep)
  next
    fix a d b assume "p = a @ d # b" "range_sep d" "\<forall>c\<in>set a. \<not> range_sep c" "\<forall>c\<in>set b. \<not> range_sep c"
    then show ?thesis using colon by (simp add: port_range_def split_no_sep split_sep)
  qed
qed

lemma absorb_ports: "upd (\<lambda>_. []) r0 = r0 \<Longrightarrow>
    (case emit_texts (portsToPorts \<circ> get) r of None \<Rightarrow> r0 | Some v \<Rightarrow> read_texts upd v r0) = upd (\<lambda>_. portsToPorts (get r)) r0"
  using absorb_texts [of upd r0 "portsToPorts \<circ> get" r] by simp

lemma absorb_auth: "(case emit_auth t x of None \<Rightarrow> r0 | Some v \<Rightarrow> read_auth t v r0) =
    r0\<lparr>hysteria_auth := if hysteria_auth_type x = t \<and> hysteria_auth x \<noteq> [] then hysteria_auth x else hysteria_auth r0,
       hysteria_auth_type := if hysteria_auth_type x = t \<and> hysteria_auth x \<noteq> [] then t else hysteria_auth_type r0\<rparr>"
  by (simp add: emit_auth_def emit_text_def read_auth_def)

lemma absorb_obfs:
  assumes "int_ok (hysteria_min_packet_size x)" "int_ok (hysteria_max_packet_size x)"
    and "hysteria_obfs r0 = []" "hysteria_obfs_type r0 = ''salamander''" "hysteria_min_packet_size r0 = 0" "hysteria_max_packet_size r0 = 0"
  shows "(case emit_when (\<lambda>x. hysteria_obfs x \<noteq> []) obfs_object x of None \<Rightarrow> r0 | Some v \<Rightarrow> read_obfs v r0) =
    r0\<lparr>hysteria_obfs := hysteria_obfs x,
       hysteria_obfs_type := if hysteria_obfs x \<noteq> [] then hysteria_obfs_type x else ''salamander'',
       hysteria_min_packet_size := if hysteria_obfs x \<noteq> [] then hysteria_min_packet_size x else 0,
       hysteria_max_packet_size := if hysteria_obfs x \<noteq> [] then hysteria_max_packet_size x else 0\<rparr>"
  using assms
  by (cases r0) (simp add: emit_when_def read_obfs_def obfs_object_def jcontains_jbuild jget_jbuild int_ok_def Let_def)

lemma hysteria_absorb:
  assumes "hysteria_ok Q x" "one = (hysteria_protocol_version x = ''1'')"
  shows "fold (absorb_row x) (hysteria_rows one obfs_object (stored_parts Q))
      (new_hysteria\<lparr>hysteria_protocol_version := (if one then ''1'' else ''2''), bo_name := bo_name x, bo_server := bo_server x,
        bo_server_port := bo_server_port x, bo_dial := bo_dial x\<rparr>) = hysteria_reloaded Q x"
proof (cases one)
  case True
  then show ?thesis using assms
    by (simp add: hysteria_rows_def hysteria1_rows_def hysteria_common_rows_def new_hysteria_def part_rows absorb_class
        absorb_ports absorb_auth hysteria_ok_def int_ok_def hysteria_reloaded_def auth_kept_def obfs_kept_def Let_def)
next
  case False
  then have two: "hysteria_protocol_version x \<noteq> ''1''" using assms(2) by simp
  have ints: "0 \<le> hysteria_up_mbps x" "is_int32 (hysteria_up_mbps x)" "0 \<le> hysteria_down_mbps x" "is_int32 (hysteria_down_mbps x)"
    and sizes: "int_ok (hysteria_min_packet_size x)" "int_ok (hysteria_max_packet_size x)" and tls: "tls_ok False (hysteria_tls x)"
    using assms(1) by (simp_all add: hysteria_ok_def int_ok_def)
  show ?thesis using False two
    by (simp add: hysteria_rows_def hysteria2_rows_def hysteria_common_rows_def new_hysteria_def part_rows absorb_class
        absorb_ports absorb_obfs hysteria_reloaded_def auth_kept_def obfs_kept_def Let_def ints sizes tls)
qed

lemma hysteria_reload:
  assumes "hysteria_ok Q x"
  shows "snd (hysteria_ParseFromJson Q (hysteria_ExportToJson Q x) new_hysteria) = hysteria_reloaded Q x"
proof -
  define one where "one = (hysteria_protocol_version x = ''1'')"
  let ?rows = "hysteria_rows one obfs_object (stored_parts Q)" and ?ob = "hysteria_ExportToJson Q x"
  let ?new = "new_hysteria\<lparr>hysteria_protocol_version := (if one then ''1'' else ''2'')\<rparr>"
  have ob: "?ob = class_object (hysteria_type x) ?rows x (base_ExportToJson x)"
    by (simp add: hysteria_ExportToJson_def one_def)
  have t: "map_of ?ob ''type'' = Some (JStr (hysteria_type x))"
    unfolding ob by (rule class_object_type [OF hysteria_keys])
  then have ne: "?ob \<noteq> []" by auto
  have base: "(fold (absorb_row x) base_rows ?new)\<lparr>bo_dial := bo_dial x\<rparr> =
      ?new\<lparr>bo_name := bo_name x, bo_server := bo_server x, bo_server_port := bo_server_port x, bo_dial := bo_dial x\<rparr>"
    using assms by (intro base_absorb) (simp_all add: hysteria_ok_def new_hysteria_def)
  have "parse_rows ?rows ?ob (snd (base_ParseFromJson ?ob ?new)) =
      fold (absorb_row x) ?rows ((fold (absorb_row x) base_rows ?new)\<lparr>bo_dial := bo_dial x\<rparr>)"
    unfolding ob by (rule class_reload [OF hysteria_keys]) (simp add: new_hysteria_def)
  also have "\<dots> = hysteria_reloaded Q x"
    unfolding base by (rule hysteria_absorb [OF assms one_def])
  finally have rows: "parse_rows ?rows ?ob (snd (base_ParseFromJson ?ob ?new)) = hysteria_reloaded Q x" .
  have "to_str [] (jget ?ob ''type'') = hysteria_type x" using t by (simp add: jget_def)
  moreover have "(hysteria_type x = ''hysteria'') = one" by (simp add: hysteria_type_def one_def)
  moreover have "hysteria_type x \<in> {''hysteria'', ''hysteria2''}" by (simp add: hysteria_type_def)
  ultimately show ?thesis using rows ne by (auto simp: hysteria_ParseFromJson_def Let_def)
qed

lemma hysteria_build_reloaded:
  assumes "hysteria_ok S x"
  shows "hysteria_Build S (hysteria_reloaded S x) = hysteria_Build S x"
proof -
  let ?one = "hysteria_protocol_version x = ''1''"
  have kind: "(hysteria_protocol_version (hysteria_reloaded S x) = ''1'') = ?one" "hysteria_type (hysteria_reloaded S x) = hysteria_type x"
    by (simp_all add: hysteria_reloaded_def hysteria_type_def Let_def)
  have ports: "portsToPorts (portsToPorts (hysteria_server_ports x)) = portsToPorts (hysteria_server_ports x)"
    using assms by (simp add: portsToPorts_def hysteria_ok_def port_range_again)
  have tls: "TLS_Build S (tls_reloaded False (hysteria_tls x)) = TLS_Build S (hysteria_tls x)"
    using assms by (intro tls_build_reloaded) (simp add: hysteria_ok_def)
  have "list_all (\<lambda>(k, emit, rd). emit (hysteria_reloaded S x) = emit x) (hysteria_rows ?one built_obfs (built_parts S))"
    by (auto simp: hysteria_rows_def hysteria1_rows_def hysteria2_rows_def hysteria_common_rows_def hysteria_reloaded_def
      part_rows same_rows ports tls emit_auth_def auth_kept_def obfs_kept_def built_obfs_def obfs_object_def Let_def)
  then show ?thesis unfolding hysteria_Build_def kind
    by (rule class_object_same) (simp add: hysteria_reloaded_def outbound_Build_same(2) same_base_def Let_def)
qed

end
