(* ===== verification/ProtocolProps.thy ===== *)
theory ProtocolProps
  imports ProtocolReload
begin

text \<open>
  The protocol classes as one type: the factory of \<^verbatim>\<open>src/configs/common/OutboundFactory.cpp\<close>, the
  virtual functions, and what storing a profile changes.
\<close>

datatype protocol =
    Trojan trojan
  | VLESS vless
  | VMess vmess
  | AnyTLS anyTLS
  | HTTP http
  | Shadowsocks shadowsocks
  | ShadowTLS shadowtls
  | TUIC tuic
  | Juicity juicity
  | TrustTunnel trusttunnel
  | Naive naive
  | Snell snell
  | SSH ssh
  | Mieru mieru
  | Tailscale tailscale
  | Hysteria hysteria

text \<open>The types of other classes are \<open>None\<close>. Both versions of Hysteria are one class.\<close>

definition NewOutboundByType :: "string \<Rightarrow> protocol option" where
  "NewOutboundByType t =
     (if t = ''trojan'' then Some (Trojan new_trojan)
      else if t = ''vless'' then Some (VLESS new_vless)
      else if t = ''vmess'' then Some (VMess new_vmess)
      else if t = ''anytls'' then Some (AnyTLS new_anyTLS)
      else if t = ''http'' then Some (HTTP new_http)
      else if t = ''shadowsocks'' then Some (Shadowsocks new_shadowsocks)
      else if t = ''shadowtls'' then Some (ShadowTLS new_shadowtls)
      else if t = ''tuic'' then Some (TUIC new_tuic)
      else if t = ''juicity'' then Some (Juicity new_juicity)
      else if t = ''trusttunnel'' then Some (TrustTunnel new_trusttunnel)
      else if t = ''naive'' then Some (Naive new_naive)
      else if t = ''snell'' then Some (Snell new_snell)
      else if t = ''ssh'' then Some (SSH new_ssh)
      else if t = ''mieru'' then Some (Mieru new_mieru)
      else if t = ''tailscale'' then Some (Tailscale new_tailscale)
      else if t = ''hysteria'' \<or> t = ''hysteria2'' then Some (Hysteria new_hysteria)
      else None)"

definition stored_type :: "protocol \<Rightarrow> string" where
  "stored_type p = (case p of
     Trojan x \<Rightarrow> ''trojan''
   | VLESS x \<Rightarrow> ''vless''
   | VMess x \<Rightarrow> ''vmess''
   | AnyTLS x \<Rightarrow> ''anytls''
   | HTTP x \<Rightarrow> ''http''
   | Shadowsocks x \<Rightarrow> ''shadowsocks''
   | ShadowTLS x \<Rightarrow> ''shadowtls''
   | TUIC x \<Rightarrow> ''tuic''
   | Juicity x \<Rightarrow> ''juicity''
   | TrustTunnel x \<Rightarrow> ''trusttunnel''
   | Naive x \<Rightarrow> ''naive''
   | Snell x \<Rightarrow> ''snell''
   | SSH x \<Rightarrow> ''ssh''
   | Mieru x \<Rightarrow> ''mieru''
   | Tailscale x \<Rightarrow> ''tailscale''
   | Hysteria x \<Rightarrow> ''hysteria'')"

definition protocol_ExportToJson :: "'z qt_text_scheme \<Rightarrow> protocol \<Rightarrow> jobject" where
  "protocol_ExportToJson Q p = (case p of
     Trojan x \<Rightarrow> trojan_ExportToJson Q x
   | VLESS x \<Rightarrow> vless_ExportToJson Q x
   | VMess x \<Rightarrow> vmess_ExportToJson Q x
   | AnyTLS x \<Rightarrow> anyTLS_ExportToJson Q x
   | HTTP x \<Rightarrow> http_ExportToJson Q x
   | Shadowsocks x \<Rightarrow> shadowsocks_ExportToJson Q x
   | ShadowTLS x \<Rightarrow> shadowtls_ExportToJson Q x
   | TUIC x \<Rightarrow> tuic_ExportToJson Q x
   | Juicity x \<Rightarrow> juicity_ExportToJson Q x
   | TrustTunnel x \<Rightarrow> trusttunnel_ExportToJson Q x
   | Naive x \<Rightarrow> naive_ExportToJson Q x
   | Snell x \<Rightarrow> snell_ExportToJson Q x
   | SSH x \<Rightarrow> ssh_ExportToJson Q x
   | Mieru x \<Rightarrow> mieru_ExportToJson Q x
   | Tailscale x \<Rightarrow> tailscale_ExportToJson Q x
   | Hysteria x \<Rightarrow> hysteria_ExportToJson Q x)"

definition protocol_ParseFromJson :: "'z qt_text_scheme \<Rightarrow> jobject \<Rightarrow> protocol \<Rightarrow> protocol" where
  "protocol_ParseFromJson Q ob p = (case p of
     Trojan x \<Rightarrow> Trojan (snd (trojan_ParseFromJson Q ob x))
   | VLESS x \<Rightarrow> VLESS (snd (vless_ParseFromJson Q ob x))
   | VMess x \<Rightarrow> VMess (snd (vmess_ParseFromJson Q ob x))
   | AnyTLS x \<Rightarrow> AnyTLS (snd (anyTLS_ParseFromJson Q ob x))
   | HTTP x \<Rightarrow> HTTP (snd (http_ParseFromJson Q ob x))
   | Shadowsocks x \<Rightarrow> Shadowsocks (snd (shadowsocks_ParseFromJson Q ob x))
   | ShadowTLS x \<Rightarrow> ShadowTLS (snd (shadowtls_ParseFromJson Q ob x))
   | TUIC x \<Rightarrow> TUIC (snd (tuic_ParseFromJson Q ob x))
   | Juicity x \<Rightarrow> Juicity (snd (juicity_ParseFromJson Q ob x))
   | TrustTunnel x \<Rightarrow> TrustTunnel (snd (trusttunnel_ParseFromJson Q ob x))
   | Naive x \<Rightarrow> Naive (snd (naive_ParseFromJson Q ob x))
   | Snell x \<Rightarrow> Snell (snd (snell_ParseFromJson Q ob x))
   | SSH x \<Rightarrow> SSH (snd (ssh_ParseFromJson Q ob x))
   | Mieru x \<Rightarrow> Mieru (snd (mieru_ParseFromJson Q ob x))
   | Tailscale x \<Rightarrow> Tailscale (snd (tailscale_ParseFromJson Q ob x))
   | Hysteria x \<Rightarrow> Hysteria (snd (hysteria_ParseFromJson Q ob x)))"

definition protocol_Build :: "'z proto_settings_scheme \<Rightarrow> protocol \<Rightarrow> jobject" where
  "protocol_Build S p = (case p of
     Trojan x \<Rightarrow> trojan_Build S x
   | VLESS x \<Rightarrow> vless_Build S x
   | VMess x \<Rightarrow> vmess_Build S x
   | AnyTLS x \<Rightarrow> anyTLS_Build S x
   | HTTP x \<Rightarrow> http_Build S x
   | Shadowsocks x \<Rightarrow> fst (shadowsocks_Build S x)
   | ShadowTLS x \<Rightarrow> shadowtls_Build S x
   | TUIC x \<Rightarrow> tuic_Build S x
   | Juicity x \<Rightarrow> juicity_Build S x
   | TrustTunnel x \<Rightarrow> trusttunnel_Build S x
   | Naive x \<Rightarrow> naive_Build S x
   | Snell x \<Rightarrow> snell_Build S x
   | SSH x \<Rightarrow> ssh_Build S x
   | Mieru x \<Rightarrow> mieru_Build S x
   | Tailscale x \<Rightarrow> tailscale_Build S x
   | Hysteria x \<Rightarrow> hysteria_Build S x)"

definition DisplayType :: "protocol \<Rightarrow> string" where
  "DisplayType p = (case p of
     Trojan x \<Rightarrow> ''Trojan''
   | VLESS x \<Rightarrow> ''VLESS''
   | VMess x \<Rightarrow> ''VMess''
   | AnyTLS x \<Rightarrow> ''AnyTLS''
   | HTTP x \<Rightarrow> ''HTTP''
   | Shadowsocks x \<Rightarrow> ''Shadowsocks''
   | ShadowTLS x \<Rightarrow> ''ShadowTLS''
   | TUIC x \<Rightarrow> ''TUIC''
   | Juicity x \<Rightarrow> ''Juicity''
   | TrustTunnel x \<Rightarrow> ''TrustTunnel''
   | Naive x \<Rightarrow> ''Naive''
   | Snell x \<Rightarrow> ''Snell''
   | SSH x \<Rightarrow> ''SSH''
   | Mieru x \<Rightarrow> ''Mieru''
   | Tailscale x \<Rightarrow> ''Tailscale''
   | Hysteria x \<Rightarrow> ''Hysteria'')"

definition protocol_TLS :: "protocol \<Rightarrow> TLS option" where
  "protocol_TLS p = (case p of
     Trojan x \<Rightarrow> Some (trojan_tls x)
   | VLESS x \<Rightarrow> Some (vless_tls x)
   | VMess x \<Rightarrow> Some (vmess_tls x)
   | AnyTLS x \<Rightarrow> Some (anyTLS_tls x)
   | HTTP x \<Rightarrow> Some (http_tls x)
   | ShadowTLS x \<Rightarrow> Some (shadowtls_tls x)
   | TUIC x \<Rightarrow> Some (tuic_tls x)
   | Juicity x \<Rightarrow> Some (juicity_tls x)
   | TrustTunnel x \<Rightarrow> Some (trusttunnel_tls x)
   | Naive x \<Rightarrow> Some (naive_tls x)
   | Hysteria x \<Rightarrow> Some (hysteria_tls x)
   | _ \<Rightarrow> None)"

definition MustTLS :: "protocol \<Rightarrow> bool" where
  "MustTLS p = (case p of ShadowTLS x \<Rightarrow> True | TUIC x \<Rightarrow> True | Juicity x \<Rightarrow> True | TrustTunnel x \<Rightarrow> True | Naive x \<Rightarrow> True | Hysteria x \<Rightarrow> True | _ \<Rightarrow> False)"

definition shown_transport :: "'z qt_text_scheme \<Rightarrow> protocol \<Rightarrow> string" where
  "shown_transport Q p = (case p of
     Trojan x \<Rightarrow> DisplayTransportName Q (tp_type (trojan_transport x))
   | VLESS x \<Rightarrow> DisplayTransportName Q (tp_type (vless_transport x))
   | TUIC x \<Rightarrow> ''QUIC'' | Juicity x \<Rightarrow> ''QUIC'' | Hysteria x \<Rightarrow> ''QUIC''
   | TrustTunnel x \<Rightarrow> if trusttunnel_quic x then ''QUIC'' else []
   | Naive x \<Rightarrow> if naive_quic x then ''QUIC'' else []
   | _ \<Rightarrow> [])"

definition GetSecurity :: "'z qt_text_scheme \<Rightarrow> protocol \<Rightarrow> security" where
  "GetSecurity Q p = (case p of
     VMess x \<Rightarrow> vmess_GetSecurity Q x
   | Shadowsocks x \<Rightarrow> shadowsocks_GetSecurity x
   | Snell x \<Rightarrow> plain_security ''Encrypted'' SecuritySecure
   | SSH x \<Rightarrow> plain_security ''Encrypted'' SecuritySecure
   | Mieru x \<Rightarrow> plain_security ''Encrypted'' SecuritySecure
   | Tailscale x \<Rightarrow> (plain_security ''Encrypted'' SecuritySecure)\<lparr>sc_transport := ''WireGuard''\<rparr>
   | _ \<Rightarrow> SecurityFromTLS (protocol_TLS p) (MustTLS p) (shown_transport Q p))"

subsection \<open>Storing a profile\<close>

definition protocol_ok :: "'z qt_text_scheme \<Rightarrow> protocol \<Rightarrow> bool" where
  "protocol_ok Q p = (case p of
     Trojan x \<Rightarrow> trojan_ok Q x
   | VLESS x \<Rightarrow> vless_ok Q x
   | VMess x \<Rightarrow> vmess_ok Q x
   | AnyTLS x \<Rightarrow> anyTLS_ok Q x
   | HTTP x \<Rightarrow> http_ok Q x
   | Shadowsocks x \<Rightarrow> shadowsocks_ok Q x
   | ShadowTLS x \<Rightarrow> shadowtls_ok Q x
   | TUIC x \<Rightarrow> tuic_ok Q x
   | Juicity x \<Rightarrow> juicity_ok Q x
   | TrustTunnel x \<Rightarrow> trusttunnel_ok Q x
   | Naive x \<Rightarrow> naive_ok Q x
   | Snell x \<Rightarrow> snell_ok Q x
   | SSH x \<Rightarrow> ssh_ok Q x
   | Mieru x \<Rightarrow> mieru_ok Q x
   | Tailscale x \<Rightarrow> tailscale_ok Q x
   | Hysteria x \<Rightarrow> hysteria_ok Q x)"

lemmas protocol_functions = NewOutboundByType_def stored_type_def protocol_ExportToJson_def
  protocol_ParseFromJson_def protocol_Build_def protocol_ok_def

lemmas protocol_reloads = trojan_reload vless_reload vmess_reload anyTLS_reload http_reload shadowsocks_reload shadowtls_reload tuic_reload juicity_reload trusttunnel_reload naive_reload snell_reload ssh_reload mieru_reload tailscale_reload hysteria_reload

lemmas protocol_builds = trojan_build_reloaded vless_build_reloaded vmess_build_reloaded anyTLS_build_reloaded http_build_reloaded shadowsocks_build_reloaded shadowtls_build_reloaded tuic_build_reloaded juicity_build_reloaded trusttunnel_build_reloaded naive_build_reloaded snell_build_reloaded ssh_build_reloaded mieru_build_reloaded tailscale_build_reloaded hysteria_build_reloaded

text \<open>
  C6: A profile that is stored and read into a fresh object of its type gives the core exactly the
  outbound it gave before: its type is one the factory knows, and what \<^verbatim>\<open>Build\<close> makes of the object
  read back is what it made of the object stored, whatever fields storing has dropped on the way. This is
  asked of profiles that meet \<open>protocol_ok\<close>, which leaves out the profiles for which the code does
  give the core another outbound: a congestion control chosen with QUIC in naive and trusttunnel, a
  Reality key kept while Reality is off, a protocol or limits left behind in a multiplex that is left to the
  settings, a cleared AnyTLS interval or a pool of 0, a cleared Tailscale directory or control URL; and
  values the forms do not yield: numbers that are negative or not 32-bit, a uTLS flag other than the
  class's, fragment or tricks both on and unspecified, header lists of odd length, early data in a path
  that is no positive number, an empty \<^verbatim>\<open>Host\<close> of a WebSocket, Snell versions other than 4 and 6, port lists
  of mieru with spaces or of hysteria with two separators.
\<close>

theorem stored_profiles_build_alike:
  assumes "protocol_ok S p"
  shows "\<exists>fresh. NewOutboundByType (stored_type p) = Some fresh \<and>
    protocol_Build S (protocol_ParseFromJson S (protocol_ExportToJson S p) fresh) = protocol_Build S p"
  using assms by (cases p) (simp_all add: protocol_functions protocol_reloads protocol_builds)

definition demo_settings :: proto_settings where
  "demo_settings = qt_text.extend ascii_text
     \<lparr>ps_utlsFingerprint = ''chrome'', ps_fragment_implementation = ''custom'', ps_fragment_default_on = True,
      ps_fragment_size = [], ps_fragment_sleep = [], ps_tls_tricks_default_on = False, ps_mux_default_on = True,
      ps_mux_protocol = ''smux'', ps_mux_concurrency = 8, ps_mux_padding = True\<rparr>"

definition demo_trojan :: trojan where
  "demo_trojan = new_trojan\<lparr>bo_server := ''a.example'', bo_server_port := 443, trojan_password := ''pw'',
     trojan_tls := (new_TLS True)\<lparr>tl_enabled := True, tl_server_name := ''sni.example'', tl_alpn := [''h2'', ''http/1.1'']\<rparr>,
     trojan_transport := new_Transport\<lparr>tp_type := ''ws'', tp_host := ''h.example'', tp_path := ''/p?ed=2048'',
       tp_headers := [''X-A'', ''1'']\<rparr>\<rparr>"

lemma demo_trojan_ok: "protocol_ok demo_settings (Trojan demo_trojan)"
  by code_simp

theorem stored_profiles_build_alike_witness:
  "(\<exists>fresh. NewOutboundByType ''trojan'' = Some fresh \<and>
     protocol_Build demo_settings (protocol_ParseFromJson demo_settings
       (protocol_ExportToJson demo_settings (Trojan demo_trojan)) fresh) = protocol_Build demo_settings (Trojan demo_trojan)) \<and>
   map_of (to_obj (jget (protocol_Build demo_settings (Trojan demo_trojan)) ''transport'')) ''max_early_data'' = Some (JNum 2048)"
proof
  show "\<exists>fresh. NewOutboundByType ''trojan'' = Some fresh \<and>
      protocol_Build demo_settings (protocol_ParseFromJson demo_settings
        (protocol_ExportToJson demo_settings (Trojan demo_trojan)) fresh) = protocol_Build demo_settings (Trojan demo_trojan)"
    using stored_profiles_build_alike [OF demo_trojan_ok] by (simp add: stored_type_def)
  show "map_of (to_obj (jget (protocol_Build demo_settings (Trojan demo_trojan)) ''transport'')) ''max_early_data'' = Some (JNum 2048)"
    by code_simp
qed

subsection \<open>What does not come back\<close>

text \<open>
  Naive and TrustTunnel write the congestion control under one key and read it under another: a
  profile that uses it is built without it once it was stored.
\<close>

definition demo_naive :: naive where
  "demo_naive = new_naive\<lparr>bo_server := ''a.example'', naive_quic := True, naive_congestion_control := ''bbr''\<rparr>"

lemma congestion_control_forgotten:
  "map_of (naive_Build demo_settings demo_naive) ''quic_congestion_control'' = Some (JStr ''bbr'') \<and>
   map_of (naive_Build demo_settings (snd (naive_ParseFromJson demo_settings (naive_ExportToJson demo_settings demo_naive) new_naive)))
     ''quic_congestion_control'' = None"
  by code_simp

text \<open>A Reality section switched off but with its key is built as switched on, and gone after storing.\<close>

lemma reality_built_when_off:
  "map_of (reality_Build (new_Reality\<lparr>rl_public_key := ''k''\<rparr>)) ''enabled'' = Some (JBool True) \<and>
   reality_ExportToJson (new_Reality\<lparr>rl_public_key := ''k''\<rparr>) = []"
  by code_simp

text \<open>Left to the settings, multiplexing with a leftover protocol is built without any protocol.\<close>

lemma mux_default_without_protocol:
  "Multiplex_Build demo_settings (new_Multiplex\<lparr>mx_protocol := ''yamux''\<rparr>) =
     [(''enabled'', JBool True), (''max_streams'', JNum 8), (''padding'', JBool True)]"
  by code_simp

text \<open>A pool size of 0 and a cleared interval of AnyTLS come back as their defaults.\<close>

lemma anytls_defaults_return:
  "anyTLS_min_idle_session (snd (anyTLS_ParseFromJson ascii_text
     (anyTLS_ExportToJson ascii_text (new_anyTLS\<lparr>anyTLS_min_idle_session := 0\<rparr>)) new_anyTLS)) = 5"
  by code_simp

end
