(* ===== verification/ChainBuild.thy ===== *)
theory ChainBuild
  imports GenContext
begin

text \<open>
  Outbound chains, \<^verbatim>\<open>src/configs/generate.cpp\<close> lines 1330 to 1731: the hops of a chain are resolved
  and checked, split into the run sing-box makes first, the run Xray makes, and the run sing-box
  makes after it, joined by socks bridges on the loopback, and laid out as outbounds whose detours
  follow the hops. An outbound pointer that would be null is dereferenced in the code; the
  repository hands out no profile without an outbound, and \<open>asks\<close> answers no for one.
\<close>

subsection \<open>The scan\<close>

record chainScan =
  sc_hopCount :: int
  sc_extraCoreCount :: int
  sc_extraCoreIdx :: int
  sc_xrayFullConfigCount :: int
  sc_xrayFullConfigIdx :: int
  sc_xrayHopCount :: int
  sc_hasCustomFullConfig :: bool
  sc_coreTransitions :: int

definition new_scan :: chainScan where
  "new_scan = \<lparr>sc_hopCount = 0, sc_extraCoreCount = 0, sc_extraCoreIdx = -1, sc_xrayFullConfigCount = 0,
     sc_xrayFullConfigIdx = -1, sc_xrayHopCount = 0, sc_hasCustomFullConfig = False, sc_coreTransitions = 0\<rparr>"

definition chainScanError :: "chainScan \<Rightarrow> string" where
  "chainScanError s =
     (if sc_hasCustomFullConfig s then
        ''Custom full config profiles cannot be used in a chain; only custom outbound profiles are chainable''
      else if 1 < sc_extraCoreCount s then ''Only one extra-core profile is allowed in a chain''
      else if 1 < sc_xrayFullConfigCount s then ''Only one custom Xray full config profile is allowed in a chain''
      else if 0 < sc_extraCoreCount s \<and> 0 < sc_xrayFullConfigCount s then
        ''Extra-core and custom Xray full config profiles cannot be combined in a chain''
      else if 0 < sc_xrayFullConfigCount s \<and> 0 < sc_xrayHopCount s then
        ''Custom Xray full config cannot be combined with other Xray hops in a chain (only one Xray instance is supported at a time)''
      else if sc_extraCoreCount s = 1 \<and> 1 < sc_hopCount s \<and> sc_extraCoreIdx s \<noteq> sc_hopCount s - 1 then
        ''Extra-core profiles can only be the final hop in a chain (top of the chain editor)''
      else if sc_xrayFullConfigCount s = 1 \<and> 1 < sc_hopCount s \<and> sc_xrayFullConfigIdx s \<noteq> sc_hopCount s - 1 then
        ''Custom Xray full config can only be the final hop in a chain (top of the chain editor)''
      else if 2 < sc_coreTransitions s then
        ''Too many core transitions, the valid sequence is: (optional sing-box chain)->(optional xray chain)->(optional sing-box chain)''
      else [])"

definition is_xray :: "profile \<Rightarrow> bool" where
  "is_xray p = asks IsXray p"

text \<open>Crossing from one core to the other, noted in the context and counted.\<close>

definition cross_core :: "bool \<Rightarrow> bool \<Rightarrow> chainScan \<times> build_context \<Rightarrow> chainScan \<times> build_context" where
  "cross_core inXray x = (\<lambda>(s, c).
     if \<not> inXray \<and> x then
       (s\<lparr>sc_coreTransitions := sc_coreTransitions s + 1\<rparr>, c\<lparr>cx_singToXrayTransitioned := True\<rparr>)
     else if inXray \<and> \<not> x then
       (s\<lparr>sc_coreTransitions := sc_coreTransitions s + 1\<rparr>, c\<lparr>cx_xrayToSingTransitioned := True\<rparr>)
     else (s, c))"

definition scan_hop :: "nat \<Rightarrow> profile \<Rightarrow> chainScan \<Rightarrow> chainScan" where
  "scan_hop n ent s =
     (let s = (if asks IsExtraCore ent
               then s\<lparr>sc_extraCoreCount := sc_extraCoreCount s + 1, sc_extraCoreIdx := int n\<rparr> else s);
          s = (if isXrayFullConfig ent
               then s\<lparr>sc_xrayFullConfigCount := sc_xrayFullConfigCount s + 1, sc_xrayFullConfigIdx := int n\<rparr> else s);
          s = (if is_xray ent then s\<lparr>sc_xrayHopCount := sc_xrayHopCount s + 1\<rparr> else s)
      in if isCustomFullConfig ent then s\<lparr>sc_hasCustomFullConfig := True\<rparr> else s)"

fun scan_hops ::
  "'z gen_env_scheme \<Rightarrow> int list \<Rightarrow> bool \<Rightarrow> chainScan \<Rightarrow> profile list \<Rightarrow> string \<Rightarrow> build_context \<Rightarrow>
     profile list \<times> string \<times> build_context" where
  "scan_hops E [] inXray s ents err c =
     (let s = s\<lparr>sc_hopCount := int (length ents)\<rparr>
      in (ents, if chainScanError s \<noteq> [] then chainScanError s else err, c))"
| "scan_hops E (i # ids) inXray s ents err c =
     (if i = warpProfileID then
        (let (s, c) = cross_core inXray False (s, c)
         in scan_hops E ids False s (ents @ [getWarpProfile E]) err c)
      else case profile_of E i of
        None \<Rightarrow> (ents, ''Null proxy in chain, you may want to check your configs'', c)
      | Some ent \<Rightarrow>
          let (s, c) = cross_core inXray (is_xray ent) (s, c)
          in if pr_type ent = ''chain'' then (ents, ''Chain in Chain is not allowed'', c)
          else if pr_type ent = ''autoselector'' then
            (ents, ''An auto selector cannot be used as a hop; it is not a fixed server'', c)
          else scan_hops E ids (is_xray ent) (scan_hop (length ents) ent s) (ents @ [ent]) err c)"

definition entIDListtoEntList ::
  "'z gen_env_scheme \<Rightarrow> int list \<Rightarrow> string \<Rightarrow> build_context \<Rightarrow> profile list \<times> string \<times> build_context" where
  "entIDListtoEntList E ids err c = scan_hops E ids False new_scan [] err c"

subsection \<open>One run of hops\<close>

record hopChainOptions =
  ho_prefix :: string
  ho_includeProxy :: bool
  ho_link :: bool
  ho_startSuffix :: int
  ho_markIngress :: bool
  ho_warpWrap :: bool
  ho_auxiliary :: bool

text \<open>What a hop with a tag rules can name leaves behind when it is a VPN endpoint.\<close>

definition vpn_option :: "(vpn_options \<Rightarrow> bool) \<Rightarrow> profile \<Rightarrow> bool" where
  "vpn_option get ent \<longleftrightarrow>
     (case OpenVPN ent of Some v \<Rightarrow> get v | None \<Rightarrow> False) \<or>
     (case OpenConnect ent of Some v \<Rightarrow> get v | None \<Rightarrow> False)"

definition note_vpn_hop :: "hopChainOptions \<Rightarrow> string \<Rightarrow> profile \<Rightarrow> build_context \<Rightarrow> build_context" where
  "note_vpn_hop opts tag ent c =
     (let c = in_result (\<lambda>r. r\<lparr>rs_vpnEndpointProfiles := (rs_vpnEndpointProfiles r)(tag \<mapsto> pr_id ent)\<rparr>) c;
          gated = (\<not> ho_auxiliary opts \<and> vpn_option vo_only_advertised_routes ent);
          tunnelDNS = vpn_option vo_use_tunnel_dns ent;
          carriesProfile = (tag = tag_proxy \<or> tag = tag_warpBypass);
          c = (if tunnelDNS \<or> (gated \<and> carriesProfile)
               then c\<lparr>cx_vpnEndpointTags := qmap_insert tag (pr_type ent) (cx_vpnEndpointTags c)\<rparr> else c);
          c = (if gated \<and> carriesProfile
               then c\<lparr>cx_vpnBlockOutsideDns := vpn_option vo_block_outside_dns ent\<rparr> else c)
      in if gated then c\<lparr>cx_vpnGateTags := cx_vpnGateTags c @ [tag]\<rparr> else c)"

definition sing_tag :: "hopChainOptions \<Rightarrow> nat \<Rightarrow> string" where
  "sing_tag opts idx =
     (if ho_warpWrap opts \<and> idx = 1 then tag_warpBypass
      else if ho_includeProxy opts \<and> idx = 0 then tag_proxy
      else hopTag (ho_prefix opts) (ho_startSuffix opts + int idx))"

definition sing_detour :: "hopChainOptions \<Rightarrow> nat \<Rightarrow> bool \<Rightarrow> string option" where
  "sing_detour opts idx further =
     (if ho_warpWrap opts \<and> idx = 0 then Some tag_warpBypass
      else if further \<and> ho_link opts then Some (hopTag (ho_prefix opts) (ho_startSuffix opts + int idx + 1))
      else None)"

definition put_detour :: "string option \<Rightarrow> jobject \<Rightarrow> jobject" where
  "put_detour d ob = (case d of Some t \<Rightarrow> jput ''detour'' (JStr t) ob | None \<Rightarrow> ob)"

text \<open>An error stops the run; what was emitted before it stays.\<close>

fun sing_hops :: "'z gen_env_scheme \<Rightarrow> hopChainOptions \<Rightarrow> nat \<Rightarrow> profile list \<Rightarrow> build_context \<Rightarrow> build_context" where
  "sing_hops E opts idx [] c = c"
| "sing_hops E opts idx (ent # ents) c =
     (let tag = sing_tag opts idx;
          c = (if ho_markIngress opts \<and> idx = 0 then c\<lparr>cx_singIngressTags := cx_singIngressTags c @ [tag]\<rparr> else c);
          addressable = (idx = 0 \<or> (ho_warpWrap opts \<and> idx = 1));
          c = (if addressable \<and> is_vpn ent then note_vpn_hop opts tag ent c else c);
          (ob, err) = Build E ent
      in if err \<noteq> [] then c\<lparr>cx_error := cx_error c @ err\<rparr>
      else let ob = put_detour (sing_detour opts idx (ents \<noteq> [])) (jput ''tag'' (JStr tag) ob);
               c = (if asks (IsEndpoint (re_text2object E)) ent
                    then c\<lparr>cx_endpoints := cx_endpoints c @ [ob]\<rparr>
                    else c\<lparr>cx_outbounds := cx_outbounds c @ [ob]\<rparr>)
           in sing_hops E opts (Suc idx) ents c)"

definition buildSingboxChain :: "'z gen_env_scheme \<Rightarrow> profile list \<Rightarrow> hopChainOptions \<Rightarrow> build_context \<Rightarrow> build_context" where
  "buildSingboxChain E ents opts c = sing_hops E opts 0 ents c"

definition xray_tag :: "hopChainOptions \<Rightarrow> nat \<Rightarrow> string" where
  "xray_tag opts idx = (if ho_includeProxy opts \<and> idx = 0 then tag_proxy
     else hopTag (ho_prefix opts) (ho_startSuffix opts + int idx))"

definition proxy_settings :: "string \<Rightarrow> json" where
  "proxy_settings t = JObj (jbuild [(''tag'', JStr t), (''transportLayer'', JBool True)])"

fun xray_hops ::
  "'z gen_env_scheme \<Rightarrow> hopChainOptions \<Rightarrow> coreBridgeConfig \<Rightarrow> nat \<Rightarrow> profile list \<Rightarrow> build_context \<Rightarrow> build_context" where
  "xray_hops E opts b idx [] c = c"
| "xray_hops E opts b idx (ent # ents) c =
     (let tag = xray_tag opts idx;
          c = (if idx = 0 then c\<lparr>cx_xrayIngressTags := cx_xrayIngressTags c @ [tag]\<rparr> else c);
          (ob, err) = BuildXray E ent
      in if err \<noteq> [] then c\<lparr>cx_error := cx_error c @ err\<rparr>
      else let ob = jput ''tag'' (JStr tag) ob;
               ob = (if (ents \<noteq> [] \<or> br_needed b) \<and> (ho_link opts \<or> br_needed b)
                     then jput ''proxySettings''
                       (proxy_settings (hopTag (ho_prefix opts) (ho_startSuffix opts + int idx + 1))) ob
                     else ob)
           in xray_hops E opts b (Suc idx) ents (c\<lparr>cx_xrayOutbounds := cx_xrayOutbounds c @ [ob]\<rparr>))"

definition xray_bridge_outbound :: "string \<Rightarrow> coreBridgeConfig \<Rightarrow> jobject" where
  "xray_bridge_outbound tag b = jbuild
     [(''tag'', JStr tag), (''protocol'', JStr ''socks''),
      (''settings'', JObj (jbuild [(''address'', JStr (br_host b)), (''port'', jint (br_port b)),
         (''user'', JStr (br_auth b)), (''pass'', JStr (br_auth b))]))]"

text \<open>
  A failed hop returns from the loop's function, before the bridge is appended. The error is empty
  when the function starts, so it is empty afterwards exactly when no hop failed.
\<close>

definition buildXrayChain ::
  "'z gen_env_scheme \<Rightarrow> profile list \<Rightarrow> hopChainOptions \<Rightarrow> coreBridgeConfig \<Rightarrow> build_context \<Rightarrow> build_context" where
  "buildXrayChain E ents opts b c =
     (let failed = list_ex (\<lambda>ent. snd (BuildXray E ent) \<noteq> []) ents;
          c = xray_hops E opts b 0 ents c
      in if br_needed b \<and> \<not> failed
         then c\<lparr>cx_xrayOutbounds := cx_xrayOutbounds c
                @ [xray_bridge_outbound (hopTag (ho_prefix opts) (ho_startSuffix opts + int (length ents))) b]\<rparr>
         else c)"

subsection \<open>A whole chain\<close>

record chain_request =
  cr_hopIDs :: "int list"
  cr_prefix :: string
  cr_includeProxy :: bool
  cr_link :: bool
  cr_startSuffix :: int
  cr_singToXrayPort :: int
  cr_xrayToSingPort :: int
  cr_xrayFullConfigPort :: int
  cr_soleXrayInbound :: bool
  cr_warpWrap :: bool
  cr_auxiliary :: bool

definition chain_request_for :: "int list \<Rightarrow> string \<Rightarrow> chain_request" where
  "chain_request_for ids prefix = \<lparr>cr_hopIDs = ids, cr_prefix = prefix, cr_includeProxy = False,
     cr_link = True, cr_startSuffix = 0, cr_singToXrayPort = -1, cr_xrayToSingPort = -1,
     cr_xrayFullConfigPort = -1, cr_soleXrayInbound = False, cr_warpWrap = False, cr_auxiliary = False\<rparr>"

definition ingress_tag :: "chain_request \<Rightarrow> string" where
  "ingress_tag req = (if cr_includeProxy req then tag_proxy else hopTag (cr_prefix req) (cr_startSuffix req))"

definition put_custom :: "custom \<Rightarrow> profile \<Rightarrow> profile" where
  "put_custom cu p = p\<lparr>pr_outbound := map_option (\<lambda>ob. ob\<lparr>ob_class := CustomOb cu\<rparr>) (pr_outbound p)\<rparr>"

definition full_config_inbound :: "custom \<Rightarrow> jobject" where
  "full_config_inbound cu = jput ''sniffing''
     (JObj (jbuild [(''enabled'', JBool True), (''destOverride'', strings_json [''http'', ''tls'', ''quic'']),
        (''routeOnly'', JBool False)]))
     (xraySocksInbound tag_xrayFullConfigIn
        \<lparr>br_needed = True, br_port = cu_bridgePort cu, br_auth = cu_bridgeAuth cu, br_host = cu_bridgeHost cu\<rparr>)"

text \<open>
  The last hop is a full Xray configuration: it gets a bridge, and its text becomes the Xray
  configuration of the result. The bridge is written into the profile, which the chain's own hops
  share.
\<close>

definition install_full_config ::
  "'z gen_env_scheme \<Rightarrow> chain_request \<Rightarrow> profile list \<Rightarrow> build_context \<Rightarrow> profile list \<times> build_context" where
  "install_full_config E req ents c =
     (if ents = [] \<or> \<not> isXrayFullConfig (last ents) then (ents, c)
      else case Custom (last ents) of
        None \<Rightarrow> (ents, c\<lparr>cx_error := ''Failed to cast to Custom for Xray full config hop''\<rparr>)
      | Some cu \<Rightarrow>
          let user = re_text2object E (cu_config cu)
          in if user = [] then (ents, c\<lparr>cx_error := ''Custom Xray full config is not valid JSON''\<rparr>)
          else let (port, c) = (if cr_xrayFullConfigPort req \<le> 0
                     then (let (ps, c) = MkManyPorts E 1 (cu_bridgeHost cu) c in (hd ps, c))
                     else (cr_xrayFullConfigPort req, c))
          in if port \<le> 0
             then (ents, c\<lparr>cx_error := ''Could not reserve a local port for the custom Xray full config bridge''\<rparr>)
          else let (auth, c) = GetRandomString E c;
                   cu = cu\<lparr>cu_bridgePort := port, cu_bridgeAuth := auth\<rparr>;
                   inbounds = JObj (full_config_inbound cu) #
                     (if cx_forTest c \<or> cr_soleXrayInbound req then [] else to_arr (jget user ''inbounds''))
               in (butlast ents @ [put_custom cu (last ents)],
                   in_result (\<lambda>r. r\<lparr>rs_xrayConfig := jput ''inbounds'' (JArr inbounds) user,
                     rs_isXrayNeeded := True\<rparr>) c))"

text \<open>The three runs, collected in one pass.\<close>

fun split_hops :: "profile list \<Rightarrow> profile list \<times> profile list \<times> profile list \<Rightarrow> profile list \<times> profile list \<times> profile list" where
  "split_hops [] st = st"
| "split_hops (ent # ents) (lead, xs, tail) = split_hops ents
     (if is_xray ent then (lead, xs @ [ent], tail)
      else if xs = [] then (lead @ [ent], xs, tail)
      else (lead, xs, tail @ [ent]))"

definition bridge_port ::
  "'z gen_env_scheme \<Rightarrow> int \<Rightarrow> int list \<times> build_context \<Rightarrow> int \<times> int list \<times> build_context" where
  "bridge_port E given = (\<lambda>(ports, c).
     if 0 < given then (given, ports, c)
     else let (ports, c) = (if ports = [] then MkManyPorts E 2 ''127.0.0.1'' c else (ports, c))
          in (hd ports, tl ports, c))"

definition socks_bridge_profile :: "coreBridgeConfig \<Rightarrow> profile" where
  "socks_bridge_profile b = new_profile\<lparr>pr_type := ''socks'',
     pr_outbound := Some \<lparr>ob_name = [], ob_address = [], ob_class = SocksOb
       (new_socks\<lparr>so_username := br_auth b, so_password := br_auth b, bo_server := br_host b,
          bo_server_port := br_port b\<rparr>)\<rparr>\<rparr>"

text \<open>The bridges of the chain: the one hop added to the leading run, the one handed to Xray.\<close>

definition open_sing_to_xray ::
  "'z gen_env_scheme \<Rightarrow> chain_request \<Rightarrow> profile list \<Rightarrow> int list \<times> build_context \<Rightarrow>
     profile list \<times> int list \<times> build_context" where
  "open_sing_to_xray E req lead = (\<lambda>(ports, c).
     if \<not> cx_singToXrayTransitioned c then (lead, ports, c)
     else let (port, ports, c) = bridge_port E (cr_singToXrayPort req) (ports, c)
     in if port \<le> 0
        then (lead, ports, c\<lparr>cx_error := ''Could not reserve a local port for the sing-box -> Xray bridge''\<rparr>)
     else let (auth, c) = GetRandomString E c; b = bridge_at port auth
     in (lead @ [socks_bridge_profile b], ports, c\<lparr>cx_singToXrayBridges := cx_singToXrayBridges c @ [b]\<rparr>))"

definition open_xray_to_sing ::
  "'z gen_env_scheme \<Rightarrow> chain_request \<Rightarrow> int list \<times> build_context \<Rightarrow> coreBridgeConfig \<times> build_context" where
  "open_xray_to_sing E req = (\<lambda>(ports, c).
     if \<not> cx_xrayToSingTransitioned c then (no_bridge, c)
     else let (port, ports, c) = bridge_port E (cr_xrayToSingPort req) (ports, c)
     in if port \<le> 0
        then (no_bridge, c\<lparr>cx_error := ''Could not reserve a local port for the Xray -> sing-box bridge''\<rparr>)
     else let (auth, c) = GetRandomString E c; b = bridge_at port auth
     in (b, c\<lparr>cx_xrayToSingBridges := cx_xrayToSingBridges c @ [b]\<rparr>))"

definition leading_opts :: "chain_request \<Rightarrow> hopChainOptions" where
  "leading_opts req = \<lparr>ho_prefix = cr_prefix req, ho_includeProxy = cr_includeProxy req,
     ho_link = cr_link req, ho_startSuffix = cr_startSuffix req, ho_markIngress = False,
     ho_warpWrap = cr_warpWrap req, ho_auxiliary = cr_auxiliary req\<rparr>"

definition tailing_opts :: "chain_request \<Rightarrow> int \<Rightarrow> hopChainOptions" where
  "tailing_opts req start = \<lparr>ho_prefix = cr_prefix req, ho_includeProxy = False, ho_link = cr_link req,
     ho_startSuffix = start, ho_markIngress = True, ho_warpWrap = False, ho_auxiliary = False\<rparr>"

definition emit_chain ::
  "'z gen_env_scheme \<Rightarrow> chain_request \<Rightarrow> profile list \<Rightarrow> profile list \<Rightarrow> coreBridgeConfig \<Rightarrow> profile list \<Rightarrow>
     build_context \<Rightarrow> build_context" where
  "emit_chain E req lead xs b tail c =
     (let c = (if lead \<noteq> [] then buildSingboxChain E lead (leading_opts req) c else c);
          c = (if xs \<noteq> [] then buildXrayChain E xs (leading_opts req) b c else c)
      in if tail \<noteq> []
         then buildSingboxChain E tail (tailing_opts req (cr_startSuffix req + int (length lead))) c
         else c)"

definition credit_chain :: "chain_request \<Rightarrow> int \<Rightarrow> profile list \<Rightarrow> profile list \<Rightarrow> build_context \<Rightarrow> build_context" where
  "credit_chain req start tail ents c =
     (if ents = [] then c
      else in_result (\<lambda>r. r\<lparr>rs_chainGroups := rs_chainGroups r @
        [\<lparr>tg_watchTag = (if tail \<noteq> [] then hopTag (cr_prefix req) start else ingress_tag req),
          tg_profiles = ents\<rparr>]\<rparr>) c)"

text \<open>The ingress tag is returned on every path; it means something when there is no error.\<close>

definition buildOutboundChain ::
  "'z gen_env_scheme \<Rightarrow> chain_request \<Rightarrow> build_context \<Rightarrow> string \<times> build_context" where
  "buildOutboundChain E req c = (ingress_tag req,
     (let c = c\<lparr>cx_singToXrayTransitioned := False, cx_xrayToSingTransitioned := False\<rparr>;
          (ents, err, c) = entIDListtoEntList E (cr_hopIDs req) (cx_error c) c;
          c = c\<lparr>cx_error := err\<rparr>
      in if err \<noteq> [] then c
      else let (ents, c) = install_full_config E req ents c
      in if cx_error c \<noteq> [] then c
      else let (lead, xs, tail) = split_hops ents ([], [], []);
               (lead, ports, c) = open_sing_to_xray E req lead ([], c)
      in if cx_error c \<noteq> [] then c
      else let (b, c) = open_xray_to_sing E req (ports, c)
      in if cx_error c \<noteq> [] then c
      else credit_chain req (cr_startSuffix req + int (length lead)) tail ents
             (emit_chain E req lead xs b tail c)))"

subsection \<open>The bridges of a chain, counted in advance\<close>

record memberBridges =
  mb_singToXray :: bool
  mb_xrayToSing :: bool
  mb_xrayFullConfig :: bool

definition bridge_count :: "memberBridges \<Rightarrow> nat" where
  "bridge_count m = of_bool (mb_singToXray m) + of_bool (mb_xrayToSing m) + of_bool (mb_xrayFullConfig m)"

fun bridges_loop :: "'z gen_env_scheme \<Rightarrow> int list \<Rightarrow> bool \<Rightarrow> memberBridges \<Rightarrow> memberBridges" where
  "bridges_loop E [] inXray m = m"
| "bridges_loop E (i # ids) inXray m =
     (case profile_of E i of
        None \<Rightarrow> bridges_loop E ids inXray m
      | Some hop \<Rightarrow> (case pr_outbound hop of
          None \<Rightarrow> bridges_loop E ids inXray m
        | Some ob \<Rightarrow>
            let m = (if IsXrayFullConfig ob then m\<lparr>mb_xrayFullConfig := True\<rparr> else m);
                x = IsXray ob;
                m = (if x \<and> \<not> inXray then m\<lparr>mb_singToXray := True\<rparr> else m);
                m = (if \<not> x \<and> inXray then m\<lparr>mb_xrayToSing := True\<rparr> else m)
            in bridges_loop E ids x m))"

definition bridgesFor :: "'z gen_env_scheme \<Rightarrow> int list \<Rightarrow> memberBridges" where
  "bridgesFor E ids = bridges_loop E ids False
     \<lparr>mb_singToXray = False, mb_xrayToSing = False, mb_xrayFullConfig = False\<rparr>"

end
