(* ===== verification/ChainBuildProps.thy ===== *)
theory ChainBuildProps
  imports ChainBuild
begin

text \<open>
  What the scan accepts, and what an accepted chain emits. The scan walks the hops once and keeps
  counters; an accepted chain is three runs, and the counters have seen what a direct count over
  the hops would see.
\<close>

subsection \<open>Crossings\<close>

fun crossings :: "bool \<Rightarrow> bool list \<Rightarrow> nat" where
  "crossings b [] = 0"
| "crossings b (x # xs) = (if b = x then 0 else 1) + crossings x xs"

lemma crossings_none: "crossings b xs = 0 \<longleftrightarrow> (\<forall>x \<in> set xs. x = b)"
  by (induction xs arbitrary: b) auto

lemma crossings_one: "crossings True xs \<le> 1 \<Longrightarrow>
    \<exists>m n. xs = replicate m True @ replicate n False"
proof (induction xs)
  case (Cons x xs)
  show ?case
  proof (cases x)
    case True
    then obtain m n where "xs = replicate m True @ replicate n False" using Cons by auto
    then have "x # xs = replicate (Suc m) True @ replicate n False" using True by simp
    then show ?thesis by blast
  next
    case False
    then have "crossings False xs = 0" using Cons.prems by simp
    then have "xs = replicate (length xs) False"
      by (simp add: crossings_none replicate_length_same)
    then have "x # xs = replicate 0 True @ replicate (Suc (length xs)) False" using False by simp
    then show ?thesis by blast
  qed
qed simp

lemma crossings_two: "crossings False xs \<le> 2 \<Longrightarrow>
    \<exists>l m n. xs = replicate l False @ replicate m True @ replicate n False \<and> (m = 0 \<longrightarrow> n = 0)"
proof (induction xs)
  case (Cons x xs)
  show ?case
  proof (cases x)
    case True
    then obtain m n where "xs = replicate m True @ replicate n False"
      using Cons.prems crossings_one [of xs] by auto
    then have "x # xs = replicate 0 False @ replicate (Suc m) True @ replicate n False" using True by simp
    then show ?thesis by blast
  next
    case False
    then obtain l m n where "xs = replicate l False @ replicate m True @ replicate n False"
        "m = 0 \<longrightarrow> n = 0"
      using Cons by auto
    then have "x # xs = replicate (Suc l) False @ replicate m True @ replicate n False" using False by simp
    with \<open>m = 0 \<longrightarrow> n = 0\<close> show ?thesis by blast
  qed
qed simp

subsection \<open>The scan, summed up\<close>

definition hop_of :: "'z gen_env_scheme \<Rightarrow> int \<Rightarrow> profile option" where
  "hop_of E i = (if i = warpProfileID then Some (getWarpProfile E)
     else case profile_of E i of
       None \<Rightarrow> None
     | Some p \<Rightarrow> if pr_type p = ''chain'' \<or> pr_type p = ''autoselector'' then None else Some p)"

lemma warp_facts [simp]:
  "\<not> is_xray (getWarpProfile E)" "\<not> asks IsExtraCore (getWarpProfile E)"
  "\<not> isXrayFullConfig (getWarpProfile E)" "\<not> isCustomFullConfig (getWarpProfile E)"
proof -
  obtain w where w: "getWarpProfile E = new_profile\<lparr>pr_name := ''warp'', pr_id := warpProfileID,
      pr_type := ''wireguard'', pr_outbound := Some \<lparr>ob_name = ''warp'', ob_address = [], ob_class = WireguardOb w\<rparr>\<rparr>"
    by (cases "split_colon (gs_warp_ep (ge_settings E))") (auto simp: getWarpProfile_def Let_def)
  show "\<not> is_xray (getWarpProfile E)" "\<not> asks IsExtraCore (getWarpProfile E)"
    "\<not> isXrayFullConfig (getWarpProfile E)" "\<not> isCustomFullConfig (getWarpProfile E)"
    by (simp_all add: w is_xray_def isXrayFullConfig_def isCustomFullConfig_def asks_def IsXray_def
        IsExtraCore_def IsXrayFullConfig_def)
qed

fun enters :: "bool \<Rightarrow> bool list \<Rightarrow> bool" where
  "enters b [] = False"
| "enters b (x # xs) = (\<not> b \<and> x \<or> enters x xs)"

fun leaves :: "bool \<Rightarrow> bool list \<Rightarrow> bool" where
  "leaves b [] = False"
| "leaves b (x # xs) = (b \<and> \<not> x \<or> leaves x xs)"

lemma crossings_snoc: "crossings b (xs @ [y]) = crossings b xs + (if last (b # xs) = y then 0 else 1)"
  by (induction xs arbitrary: b) auto

lemma enters_snoc: "enters b (xs @ [y]) = (enters b xs \<or> \<not> last (b # xs) \<and> y)"
  by (induction xs arbitrary: b) auto

lemma leaves_snoc: "leaves b (xs @ [y]) = (leaves b xs \<or> last (b # xs) \<and> \<not> y)"
  by (induction xs arbitrary: b) auto

text \<open>What the counters say of the hops collected so far: how many, and one place where.\<close>

definition tallied :: "(profile \<Rightarrow> bool) \<Rightarrow> profile list \<Rightarrow> int \<Rightarrow> int \<Rightarrow> bool" where
  "tallied P ents n idx \<longleftrightarrow> n = int (length (filter P ents)) \<and>
     (n \<noteq> 0 \<longrightarrow> 0 \<le> idx \<and> idx < int (length ents) \<and> P (ents ! nat idx))"

definition scan_inv :: "chainScan \<Rightarrow> profile list \<Rightarrow> bool" where
  "scan_inv s ents \<longleftrightarrow>
     tallied (asks IsExtraCore) ents (sc_extraCoreCount s) (sc_extraCoreIdx s) \<and>
     tallied isXrayFullConfig ents (sc_xrayFullConfigCount s) (sc_xrayFullConfigIdx s) \<and>
     sc_xrayHopCount s = int (length (filter is_xray ents)) \<and>
     sc_hasCustomFullConfig s = list_ex isCustomFullConfig ents \<and>
     sc_coreTransitions s = int (crossings False (map is_xray ents))"

definition in_xray :: "profile list \<Rightarrow> bool" where
  "in_xray ents = last (False # map is_xray ents)"

lemma in_xray_snoc [simp]: "in_xray (ents @ [e]) = is_xray e" "\<not> in_xray []"
  by (simp_all add: in_xray_def)

lemma tallied_snoc:
  "tallied P ents n idx \<Longrightarrow> P e \<Longrightarrow> tallied P (ents @ [e]) (n + 1) (int (length ents))"
  "tallied P ents n idx \<Longrightarrow> \<not> P e \<Longrightarrow> tallied P (ents @ [e]) n idx"
  by (auto simp: tallied_def nth_append nat_less_iff)

definition crossed :: "bool \<Rightarrow> bool \<Rightarrow> build_context \<Rightarrow> build_context" where
  "crossed b x c = c\<lparr>cx_singToXrayTransitioned := (cx_singToXrayTransitioned c \<or> \<not> b \<and> x),
     cx_xrayToSingTransitioned := (cx_xrayToSingTransitioned c \<or> b \<and> \<not> x)\<rparr>"

lemma cross_core_eq: "cross_core b x (s, c) =
    (s\<lparr>sc_coreTransitions := sc_coreTransitions s + (if b = x then 0 else 1)\<rparr>, crossed b x c)"
  by (cases b; cases x) (simp_all add: cross_core_def crossed_def)

lemma scan_inv_snoc:
  assumes "scan_inv s ents"
  shows "scan_inv (scan_hop (length ents) e
      (s\<lparr>sc_coreTransitions := sc_coreTransitions s + (if in_xray ents = is_xray e then 0 else 1)\<rparr>)) (ents @ [e])"
  using assms tallied_snoc [of "asks IsExtraCore" ents "sc_extraCoreCount s" "sc_extraCoreIdx s" e]
    tallied_snoc [of isXrayFullConfig ents "sc_xrayFullConfigCount s" "sc_xrayFullConfigIdx s" e]
  by (simp add: scan_inv_def scan_hop_def Let_def crossings_snoc in_xray_def)

lemma hop_of_Some: "hop_of E i = Some e \<Longrightarrow> i \<noteq> warpProfileID \<Longrightarrow>
    profile_of E i = Some e \<and> pr_type e \<noteq> ''chain'' \<and> pr_type e \<noteq> ''autoselector''"
  by (auto simp: hop_of_def split: option.splits if_splits)

lemma scan_hops_step:
  "scan_hops E (i # ids) (in_xray ents) s ents [] c = (case hop_of E i of
     None \<Rightarrow> (ents, fst (snd (scan_hops E (i # ids) (in_xray ents) s ents [] c)),
              snd (snd (scan_hops E (i # ids) (in_xray ents) s ents [] c)))
   | Some e \<Rightarrow> scan_hops E ids (in_xray (ents @ [e])) (scan_hop (length ents) e
        (s\<lparr>sc_coreTransitions := sc_coreTransitions s + (if in_xray ents = is_xray e then 0 else 1)\<rparr>))
        (ents @ [e]) [] (crossed (in_xray ents) (is_xray e) c))"
  by (auto simp: hop_of_def cross_core_eq scan_hop_def split: option.split)

lemma scan_hops_fails: "hop_of E i = None \<Longrightarrow> fst (snd (scan_hops E (i # ids) b s ents [] c)) \<noteq> []"
  by (auto simp: hop_of_def cross_core_eq split: option.splits if_splits)

lemma scan_hops_ok:
  assumes "scan_hops E ids (in_xray ents) s ents [] c = (ents', [], c')" "scan_inv s ents"
  shows "\<exists>new s'. those (map (hop_of E) ids) = Some new \<and> ents' = ents @ new \<and> scan_inv s' ents' \<and>
    chainScanError (s'\<lparr>sc_hopCount := int (length ents')\<rparr>) = [] \<and>
    c' = c\<lparr>cx_singToXrayTransitioned := (cx_singToXrayTransitioned c \<or> enters (in_xray ents) (map is_xray new)),
           cx_xrayToSingTransitioned := (cx_xrayToSingTransitioned c \<or> leaves (in_xray ents) (map is_xray new))\<rparr>"
  using assms
proof (induction ids arbitrary: ents s c)
  case Nil
  then show ?case by (auto simp: Let_def split: if_splits intro!: exI [of _ s])
next
  case (Cons i ids)
  show ?case
  proof (cases "hop_of E i")
    case None
    then show ?thesis using scan_hops_fails [of E i ids "in_xray ents" s ents c] Cons.prems(1) by simp
  next
    case (Some e)
    let ?s = "scan_hop (length ents) e
        (s\<lparr>sc_coreTransitions := sc_coreTransitions s + (if in_xray ents = is_xray e then 0 else 1)\<rparr>)"
    have "scan_hops E ids (in_xray (ents @ [e])) ?s (ents @ [e]) [] (crossed (in_xray ents) (is_xray e) c) = (ents', [], c')"
      using Cons.prems(1) scan_hops_step [of E i ids ents s c] Some by simp
    from Cons.IH [OF this scan_inv_snoc [OF Cons.prems(2)]] Some show ?thesis
      by (auto simp: crossed_def)
  qed
qed

subsection \<open>Three runs\<close>

definition three_runs :: "profile list \<Rightarrow> profile list \<Rightarrow> profile list \<Rightarrow> bool" where
  "three_runs lead xs tail \<longleftrightarrow> (\<forall>e \<in> set lead. \<not> is_xray e) \<and> (\<forall>e \<in> set xs. is_xray e) \<and>
     (\<forall>e \<in> set tail. \<not> is_xray e) \<and> (xs = [] \<longrightarrow> tail = [])"

lemma map_replicate_split:
  assumes "map f ents = replicate l a @ bs"
  obtains es fs where "ents = es @ fs" "\<forall>e \<in> set es. f e = a" "map f fs = bs" "length es = l"
proof -
  have "map f (take l ents) = replicate l a" "map f (drop l ents) = bs"
    using assms by (simp_all flip: take_map drop_map)
  moreover from this(1) have "\<forall>e \<in> set (take l ents). f e = a"
    by (metis in_set_replicate length_replicate nth_mem in_set_conv_nth image_eqI list.set_map)
  moreover have "length (take l ents) = l"
    using arg_cong [OF calculation(1), of length] by simp
  ultimately show thesis using that [of "take l ents" "drop l ents"] by simp
qed

lemma three_runs_exist:
  assumes "crossings False (map is_xray ents) \<le> 2"
  obtains lead xs tail where "ents = lead @ xs @ tail" "three_runs lead xs tail"
proof -
  obtain l m n where b: "map is_xray ents = replicate l False @ replicate m True @ replicate n False"
      and mn: "m = 0 \<longrightarrow> n = 0"
    using crossings_two [OF assms] by blast
  obtain lead r where 1: "ents = lead @ r" "\<forall>e \<in> set lead. is_xray e = False"
      "map is_xray r = replicate m True @ replicate n False"
    using map_replicate_split [OF b] by metis
  obtain xs tail where 2: "r = xs @ tail" "\<forall>e \<in> set xs. is_xray e = True"
      "map is_xray tail = replicate n False" "length xs = m"
    using map_replicate_split [OF 1(3)] by metis
  have "\<forall>e \<in> set tail. \<not> is_xray e"
    using 2(3) by (metis in_set_replicate imageI list.set_map)
  moreover have "xs = [] \<longrightarrow> tail = []" using 2(3,4) mn by auto
  ultimately show thesis using that 1 2 by (auto simp: three_runs_def)
qed

lemma enters_runs: "three_runs lead xs tail \<Longrightarrow> enters False (map is_xray (lead @ xs @ tail)) \<longleftrightarrow> xs \<noteq> []"
proof -
  assume r: "three_runs lead xs tail"
  have none: "(\<forall>e \<in> set es. \<not> is_xray e) \<Longrightarrow> enters b (map is_xray (es @ fs)) = enters (b \<and> es = []) (map is_xray fs)" for es fs b
    by (induction es arbitrary: b) auto
  have all: "(\<forall>e \<in> set es. is_xray e) \<Longrightarrow> es \<noteq> [] \<Longrightarrow> enters False (map is_xray (es @ fs))" for es fs
    by (cases es) auto
  from r show ?thesis using none [of lead False "xs @ tail"] all [of xs tail]
    by (cases "xs = []") (auto simp: three_runs_def)
qed

lemma leaves_runs: "three_runs lead xs tail \<Longrightarrow> leaves False (map is_xray (lead @ xs @ tail)) \<longleftrightarrow> tail \<noteq> []"
proof -
  assume r: "three_runs lead xs tail"
  have none: "(\<forall>e \<in> set es. \<not> is_xray e) \<Longrightarrow> leaves False (map is_xray (es @ fs)) = leaves False (map is_xray fs)" for es fs
    by (induction es) auto
  have all: "(\<forall>e \<in> set es. is_xray e) \<Longrightarrow> leaves b (map is_xray (es @ fs)) = leaves (b \<or> es \<noteq> []) (map is_xray fs)" for es fs b
    by (induction es arbitrary: b) auto
  from r have "leaves False (map is_xray (lead @ xs @ tail)) = leaves (xs \<noteq> []) (map is_xray tail)"
    using none [of lead "xs @ tail"] all [of xs False tail] by (simp add: three_runs_def)
  also have "\<dots> \<longleftrightarrow> tail \<noteq> []"
    using r none [of tail "[]"] by (cases tail) (auto simp: three_runs_def)
  finally show ?thesis .
qed

lemma split_hops_runs:
  assumes "three_runs lead xs tail"
  shows "split_hops (lead @ xs @ tail) ([], [], []) = (lead, xs, tail)"
proof -
  have 1: "(\<forall>e \<in> set es. \<not> is_xray e) \<Longrightarrow> split_hops (es @ fs) (l, [], t) = split_hops fs (l @ es, [], t)" for es fs l t
    by (induction es arbitrary: l) auto
  have 2: "(\<forall>e \<in> set es. is_xray e) \<Longrightarrow> split_hops (es @ fs) (l, x, t) = split_hops fs (l, x @ es, t)" for es fs l x t
    by (induction es arbitrary: x) auto
  have 3: "(\<forall>e \<in> set es. \<not> is_xray e) \<Longrightarrow> x \<noteq> [] \<Longrightarrow> split_hops es (l, x, t) = (l, x, t @ es)" for es l x t
    by (induction es arbitrary: t) auto
  show ?thesis
    using assms 1 [of lead "xs @ tail" "[]" "[]"] 2 [of xs tail lead "[]" "[]"] 3 [of tail xs lead "[]"]
    by (cases "xs = []") (auto simp: three_runs_def)
qed

text \<open>An extra core, or a full Xray configuration, is at most one hop and the last.\<close>

definition only_last :: "(profile \<Rightarrow> bool) \<Rightarrow> profile list \<Rightarrow> bool" where
  "only_last P ents \<longleftrightarrow> (\<forall>i < length ents. P (ents ! i) \<longrightarrow> i = length ents - 1)"

lemma tallied_only_last:
  assumes t: "tallied P ents n idx" and n: "n \<le> 1"
    and pos: "n = 1 \<Longrightarrow> 1 < length ents \<Longrightarrow> idx = int (length ents) - 1"
  shows "only_last P ents"
  unfolding only_last_def
proof (intro allI impI)
  fix i assume i: "i < length ents" "P (ents ! i)"
  have len: "length (filter P ents) = nat n" "n \<ge> 0" using t by (auto simp: tallied_def)
  have "filter P ents \<noteq> []" using i by (auto simp: filter_empty_conv)
  then have n1: "n = 1" using len n by (cases "filter P ents") auto
  show "i = length ents - 1"
  proof (cases "1 < length ents")
    case False
    then show ?thesis using i by auto
  next
    case True
    then have idx: "nat idx = length ents - 1" using pos n1 by auto
    show ?thesis
    proof (rule ccontr)
      assume ne: "i \<noteq> length ents - 1"
      have last: "P (ents ! (length ents - 1))" using t n1 idx by (auto simp: tallied_def)
      have "{i, length ents - 1} \<subseteq> {j. j < length ents \<and> P (ents ! j)}" using i last True by auto
      then have "card {i, length ents - 1} \<le> length (filter P ents)"
        unfolding length_filter_conv_card by (intro card_mono) auto
      then show False using ne len n1 by simp
    qed
  qed
qed

definition accepted_chain :: "profile list \<Rightarrow> bool" where
  "accepted_chain ents \<longleftrightarrow> only_last (asks IsExtraCore) ents \<and> only_last isXrayFullConfig ents \<and>
     (\<forall>e \<in> set ents. \<not> isCustomFullConfig e) \<and>
     ((\<exists>e \<in> set ents. isXrayFullConfig e) \<longrightarrow>
        (\<forall>e \<in> set ents. \<not> is_xray e \<and> \<not> asks IsExtraCore e))"

lemma tallied_zero: "tallied P ents n idx \<Longrightarrow> n \<le> 0 \<longleftrightarrow> (\<forall>e \<in> set ents. \<not> P e)"
  by (auto simp: tallied_def filter_empty_conv)

lemma scan_accepts:
  assumes inv: "scan_inv s ents" and ok: "chainScanError (s\<lparr>sc_hopCount := int (length ents)\<rparr>) = []"
  shows "accepted_chain ents" "crossings False (map is_xray ents) \<le> 2"
proof -
  have c: "\<not> sc_hasCustomFullConfig s" "sc_extraCoreCount s \<le> 1" "sc_xrayFullConfigCount s \<le> 1"
      "sc_extraCoreCount s \<le> 0 \<or> sc_xrayFullConfigCount s \<le> 0"
      "sc_xrayFullConfigCount s \<le> 0 \<or> sc_xrayHopCount s \<le> 0"
      "sc_extraCoreCount s = 1 \<Longrightarrow> 1 < length ents \<Longrightarrow> sc_extraCoreIdx s = int (length ents) - 1"
      "sc_xrayFullConfigCount s = 1 \<Longrightarrow> 1 < length ents \<Longrightarrow> sc_xrayFullConfigIdx s = int (length ents) - 1"
      "sc_coreTransitions s \<le> 2"
    using ok by (auto simp: chainScanError_def split: if_splits)
  have t: "tallied (asks IsExtraCore) ents (sc_extraCoreCount s) (sc_extraCoreIdx s)"
      "tallied isXrayFullConfig ents (sc_xrayFullConfigCount s) (sc_xrayFullConfigIdx s)"
    using inv by (simp_all add: scan_inv_def)
  have "sc_xrayHopCount s \<le> 0 \<longleftrightarrow> (\<forall>e \<in> set ents. \<not> is_xray e)"
    using inv by (simp add: scan_inv_def filter_empty_conv)
  then show "accepted_chain ents"
    using tallied_only_last [OF t(1) c(2,6)] tallied_only_last [OF t(2) c(3,7)]
      tallied_zero [OF t(1)] tallied_zero [OF t(2)] c(1,4,5) inv
    by (auto simp: accepted_chain_def scan_inv_def list_ex_iff)
  show "crossings False (map is_xray ents) \<le> 2" using c(8) inv by (simp add: scan_inv_def)
qed

lemma scan_inv_empty: "scan_inv new_scan []"
  by (simp add: scan_inv_def new_scan_def tallied_def)

lemma resolved_chain:
  assumes "entIDListtoEntList E ids [] c = (ents, [], c')"
  obtains lead xs tail where "those (map (hop_of E) ids) = Some ents" "ents = lead @ xs @ tail"
    "three_runs lead xs tail" "accepted_chain ents"
    "c' = c\<lparr>cx_singToXrayTransitioned := (cx_singToXrayTransitioned c \<or> xs \<noteq> []),
           cx_xrayToSingTransitioned := (cx_xrayToSingTransitioned c \<or> tail \<noteq> [])\<rparr>"
proof -
  have "scan_hops E ids (in_xray []) new_scan [] [] c = (ents, [], c')"
    using assms by (simp add: entIDListtoEntList_def)
  from scan_hops_ok [OF this scan_inv_empty] obtain s' where r: "those (map (hop_of E) ids) = Some ents"
      "scan_inv s' ents" "chainScanError (s'\<lparr>sc_hopCount := int (length ents)\<rparr>) = []"
      "c' = c\<lparr>cx_singToXrayTransitioned := (cx_singToXrayTransitioned c \<or> enters False (map is_xray ents)),
             cx_xrayToSingTransitioned := (cx_xrayToSingTransitioned c \<or> leaves False (map is_xray ents))\<rparr>"
    by auto
  obtain lead xs tail where runs: "ents = lead @ xs @ tail" "three_runs lead xs tail"
    using three_runs_exist [OF scan_accepts(2) [OF r(2,3)]] .
  have "enters False (map is_xray ents) \<longleftrightarrow> xs \<noteq> []" "leaves False (map is_xray ents) \<longleftrightarrow> tail \<noteq> []"
    using enters_runs [OF runs(2)] leaves_runs [OF runs(2)] unfolding runs(1) by blast+
  then show thesis using that [OF r(1) runs scan_accepts(1) [OF r(2,3)]] r(4) by simp
qed

end
