(* ===== verification/ChainEmit.thy ===== *)
theory ChainEmit
  imports ChainBuildProps
begin

text \<open>
  The outbounds a chain emits. Tags are a prefix and a number, told apart by their last dash; the
  detours of a run link its outbounds in hop order, so following them from the ingress tag visits
  the hops one by one.
\<close>

subsection \<open>Tags are told apart\<close>

lemma digit_char_of: "a < 10 \<Longrightarrow> of_char (digit_char a) = 48 + a"
  by (simp add: digit_char_def)

lemma digit_char_inject: "a < 10 \<Longrightarrow> b < 10 \<Longrightarrow> digit_char a = digit_char b \<Longrightarrow> a = b"
  using digit_char_of by (metis add_left_cancel)

lemma decimal_nonempty [simp]: "decimal n \<noteq> []"
  by (subst decimal.simps) simp

lemma decimal_last_div: "decimal n = ds @ [d] \<Longrightarrow> d = digit_char (n mod 10) \<and> (ds = [] \<longleftrightarrow> n < 10) \<and>
    (10 \<le> n \<longrightarrow> ds = decimal (n div 10))"
  using decimal.simps [of n] by (auto split: if_splits)

lemma decimal_inject: "decimal m = decimal n \<Longrightarrow> m = n"
proof (induction m arbitrary: n rule: less_induct)
  case (less m)
  obtain ds d where m: "decimal m = ds @ [d]" using decimal_nonempty by (metis rev_exhaust)
  then have n: "decimal n = ds @ [d]" using less.prems by simp
  have d: "m mod 10 = n mod 10"
    using decimal_last_div [OF m] decimal_last_div [OF n] digit_char_inject [of "m mod 10" "n mod 10"] by simp
  show ?case
  proof (cases "m < 10")
    case True
    then have "n < 10" using decimal_last_div [OF m] decimal_last_div [OF n] by simp
    then show ?thesis using d True by simp
  next
    case False
    then have "decimal (m div 10) = decimal (n div 10)"
      using decimal_last_div [OF m] decimal_last_div [OF n] by (metis not_less)
    then have "m div 10 = n div 10" using less.IH [of "m div 10"] False by simp
    then show ?thesis using d by (metis div_mult_mod_eq)
  qed
qed

lemma number_inject: "0 \<le> i \<Longrightarrow> 0 \<le> j \<Longrightarrow> number i = number j \<Longrightarrow> i = j"
  using decimal_inject [of "nat i" "nat j"] by (simp add: number_def)

lemma number_digits: "0 \<le> i \<Longrightarrow> set (number i) \<subseteq> {c. is_digit c} \<and> number i \<noteq> []"
  using decimal_digits [of "nat i"] by (simp add: number_def)

lemma dash_no_digit: "\<not> is_digit (CHR ''-'')"
  by code_simp

lemma takeWhile_number:
  assumes "0 \<le> i"
  shows "takeWhile is_digit (rev (hopTag p i)) = rev (number i)"
    "dropWhile is_digit (rev (hopTag p i)) = CHR ''-'' # rev p"
proof -
  have "\<forall>c \<in> set (rev (number i)). is_digit c" using number_digits [OF assms] by auto
  then show "takeWhile is_digit (rev (hopTag p i)) = rev (number i)"
    "dropWhile is_digit (rev (hopTag p i)) = CHR ''-'' # rev p"
    by (simp_all add: hopTag_def takeWhile_append dropWhile_append dash_no_digit)
qed

lemma hopTag_inject: "0 \<le> i \<Longrightarrow> 0 \<le> j \<Longrightarrow> hopTag p i = hopTag q j \<longleftrightarrow> p = q \<and> i = j"
  using takeWhile_number [of i p] takeWhile_number [of j q] number_inject [of i j] by auto

lemma hopTag_last: "0 \<le> i \<Longrightarrow> is_digit (last (hopTag p i))"
proof -
  assume "0 \<le> i"
  then have "last (hopTag p i) = last (number i)" "last (number i) \<in> set (number i)" "set (number i) \<subseteq> {c. is_digit c}"
    using number_digits [of i] by (simp_all add: hopTag_def)
  then show ?thesis by auto
qed

text \<open>Tags of fixed text.\<close>

definition fixed_tag :: "string \<Rightarrow> bool" where
  "fixed_tag t \<longleftrightarrow> t \<noteq> [] \<and> \<not> is_digit (last t)"

lemma fixed_tags [simp]: "fixed_tag tag_proxy" "fixed_tag tag_direct" "fixed_tag tag_warpBypass" "fixed_tag tag_l3Direct"
  by code_simp+

lemma fixed_tags_distinct [simp]: "tag_proxy \<noteq> tag_warpBypass" "tag_warpBypass \<noteq> tag_proxy"
  by (simp_all add: tag_defs)

lemma fixed_no_hop [simp]: "fixed_tag t \<Longrightarrow> 0 \<le> i \<Longrightarrow> t \<noteq> hopTag p i" "fixed_tag t \<Longrightarrow> 0 \<le> i \<Longrightarrow> hopTag p i \<noteq> t"
  using hopTag_last [of i p] by (auto simp: fixed_tag_def)

subsection \<open>Following detours\<close>

definition obj_tag :: "jobject \<Rightarrow> string" where
  "obj_tag ob = to_str [] (jget ob ''tag'')"

definition obj_detour :: "jobject \<Rightarrow> string option" where
  "obj_detour ob = map_option (to_str []) (map_of ob ''detour'')"

definition obj_proxy :: "jobject \<Rightarrow> string option" where
  "obj_proxy ob = map_option (\<lambda>v. to_str [] (jget (to_obj v) ''tag'')) (map_of ob ''proxySettings'')"

text \<open>From a tag onwards, along one of the two links; the bound is the number of objects.\<close>

fun follow_for :: "nat \<Rightarrow> (jobject \<Rightarrow> string option) \<Rightarrow> jobject list \<Rightarrow> string \<Rightarrow> jobject list" where
  "follow_for 0 nx obs t = []"
| "follow_for (Suc n) nx obs t = (case find (\<lambda>ob. obj_tag ob = t) obs of
     None \<Rightarrow> []
   | Some ob \<Rightarrow> ob # (case nx ob of None \<Rightarrow> [] | Some t' \<Rightarrow> follow_for n nx obs t'))"

definition follow :: "(jobject \<Rightarrow> string option) \<Rightarrow> jobject list \<Rightarrow> string \<Rightarrow> jobject list" where
  "follow nx obs t = follow_for (length obs) nx obs t"

fun linked :: "(jobject \<Rightarrow> string option) \<Rightarrow> jobject list \<Rightarrow> bool" where
  "linked nx [] = True"
| "linked nx [ob] = (nx ob = None)"
| "linked nx (ob # ob' # obs) = (nx ob = Some (obj_tag ob') \<and> linked nx (ob' # obs))"

lemma find_tag:
  "distinct (map obj_tag obs) \<Longrightarrow> ob \<in> set obs \<Longrightarrow> find (\<lambda>o'. obj_tag o' = obj_tag ob) obs = Some ob"
  by (induction obs) (auto simp: image_iff)

lemma follow_for_linked:
  "linked nx os \<Longrightarrow> os \<noteq> [] \<Longrightarrow> set os \<subseteq> set obs \<Longrightarrow> distinct (map obj_tag obs) \<Longrightarrow> length os \<le> n \<Longrightarrow>
   follow_for n nx obs (obj_tag (hd os)) = os"
proof (induction nx os arbitrary: n rule: linked.induct)
  case (2 nx ob)
  then obtain m where n: "n = Suc m" by (cases n) auto
  with 2 show ?case by (simp add: find_tag)
next
  case (3 nx ob ob' os)
  then obtain m where n: "n = Suc m" by (cases n) auto
  with "3.prems" have "follow_for m nx obs (obj_tag ob') = ob' # os" using "3.IH" [of m] by simp
  with "3.prems" n show ?case by (simp add: find_tag)
qed simp

lemma follow_linked:
  assumes "linked nx os" "os \<noteq> []" "set os \<subseteq> set obs" "distinct (map obj_tag obs)" "distinct os"
  shows "follow nx obs (obj_tag (hd os)) = os"
proof -
  have "length os = card (set os)" using assms(5) by (simp add: distinct_card)
  also have "\<dots> \<le> card (set obs)" using assms(3) by (intro card_mono) auto
  also have "\<dots> \<le> length obs" by (rule card_length)
  finally show ?thesis using follow_for_linked [OF assms(1-4)] by (simp add: follow_def)
qed

subsection \<open>One run\<close>

text \<open>The objects of a run, with whether each is an endpoint; \<open>carries\<close> is the hop inside its object.\<close>

definition sing_object :: "'z gen_env_scheme \<Rightarrow> hopChainOptions \<Rightarrow> nat \<Rightarrow> bool \<Rightarrow> profile \<Rightarrow> jobject" where
  "sing_object E opts idx further ent =
     put_detour (sing_detour opts idx further) (jput ''tag'' (JStr (sing_tag opts idx)) (fst (Build E ent)))"

fun sing_objects :: "'z gen_env_scheme \<Rightarrow> hopChainOptions \<Rightarrow> nat \<Rightarrow> profile list \<Rightarrow> (bool \<times> jobject) list" where
  "sing_objects E opts idx [] = []"
| "sing_objects E opts idx (ent # ents) =
     (asks (IsEndpoint (re_text2object E)) ent, sing_object E opts idx (ents \<noteq> []) ent)
     # sing_objects E opts (Suc idx) ents"

definition carries :: "jobject \<Rightarrow> jobject \<Rightarrow> bool" where
  "carries core ob \<longleftrightarrow> (\<forall>k. k \<noteq> ''tag'' \<and> k \<noteq> ''detour'' \<and> k \<noteq> ''proxySettings'' \<longrightarrow> map_of ob k = map_of core k)"

definition plain_hop :: "'z gen_env_scheme \<Rightarrow> profile \<Rightarrow> bool" where
  "plain_hop E ent \<longleftrightarrow> map_of (fst (Build E ent)) ''detour'' = None \<and>
     map_of (fst (BuildXray E ent)) ''proxySettings'' = None"

lemma sing_object_tag [simp]: "obj_tag (sing_object E opts idx further ent) = sing_tag opts idx"
  by (simp add: obj_tag_def sing_object_def put_detour_def jget_def json_store.look_put split: option.split)

lemma sing_object_detour: "plain_hop E ent \<Longrightarrow>
    obj_detour (sing_object E opts idx further ent) = sing_detour opts idx further"
  by (simp add: obj_detour_def sing_object_def put_detour_def json_store.look_put plain_hop_def split: option.split)

lemma sing_object_carries: "carries (fst (Build E ent)) (sing_object E opts idx further ent)"
  by (simp add: carries_def sing_object_def put_detour_def json_store.look_put split: option.split)

lemma sing_objects_carry:
  "list_all2 (\<lambda>ent ob. carries (fst (Build E ent)) ob) ents (map snd (sing_objects E opts idx ents))"
  by (induction ents arbitrary: idx) (simp_all add: sing_object_carries)

lemma length_sing_objects [simp]: "length (sing_objects E opts idx ents) = length ents"
  by (induction ents arbitrary: idx) simp_all

lemma sing_objects_nil [simp]: "sing_objects E opts idx ents = [] \<longleftrightarrow> ents = []"
  by (cases ents) simp_all

lemma sing_objects_hd: "ents \<noteq> [] \<Longrightarrow> obj_tag (snd (hd (sing_objects E opts idx ents))) = sing_tag opts idx"
  by (cases ents) simp_all

lemma sing_objects_tags: "map (obj_tag \<circ> snd) (sing_objects E opts idx ents) = map (sing_tag opts) [idx..<idx + length ents]"
  by (induction ents arbitrary: idx) (simp_all add: upt_rec)

definition opts_ok :: "hopChainOptions \<Rightarrow> nat \<Rightarrow> bool" where
  "opts_ok opts n \<longleftrightarrow> 0 \<le> ho_startSuffix opts \<and> (ho_link opts \<or> n \<le> 1) \<and> (ho_warpWrap opts \<longrightarrow> ho_includeProxy opts \<and> 2 \<le> n)"

lemma sing_objects_linked:
  assumes "opts_ok opts (idx + length ents)" "\<forall>e \<in> set ents. plain_hop E e"
  shows "linked obj_detour (map snd (sing_objects E opts idx ents))"
  using assms
proof (induction ents arbitrary: idx)
  case (Cons ent ents)
  show ?case
  proof (cases ents)
    case Nil
    then show ?thesis using Cons.prems by (auto simp: sing_object_detour sing_detour_def opts_ok_def)
  next
    case (Cons ent' ents')
    then have "linked obj_detour (map snd (sing_objects E opts (Suc idx) ents))"
      using Cons.IH [of "Suc idx"] Cons.prems by (simp add: add.commute)
    then show ?thesis
      using Cons Cons.prems by (auto simp: sing_object_detour sing_detour_def sing_tag_def opts_ok_def algebra_simps)
  qed
qed simp

lemma sing_tag_inject:
  assumes "0 \<le> ho_startSuffix opts" "sing_tag opts i = sing_tag opts j" "ho_warpWrap opts \<longrightarrow> ho_includeProxy opts"
  shows "i = j"
  using assms by (auto simp: sing_tag_def hopTag_inject split: if_splits)

lemma sing_objects_distinct:
  assumes "0 \<le> ho_startSuffix opts" "ho_warpWrap opts \<longrightarrow> ho_includeProxy opts"
  shows "distinct (map (obj_tag \<circ> snd) (sing_objects E opts idx ents))"
  unfolding sing_objects_tags distinct_map
  using sing_tag_inject [OF assms(1) _ assms(2)] by (auto simp: inj_on_def)

subsection \<open>The effect on the context\<close>

definition emits :: "(bool \<times> jobject) list \<Rightarrow> build_context \<Rightarrow> build_context \<Rightarrow> bool" where
  "emits objs c c' \<longleftrightarrow>
     cx_outbounds c' = cx_outbounds c @ map snd (filter (\<lambda>o'. \<not> fst o') objs) \<and>
     cx_endpoints c' = cx_endpoints c @ map snd (filter fst objs)"

lemma emits_nil [simp]: "emits [] c c"
  by (simp add: emits_def)

lemma emits_trans: "emits os c d \<Longrightarrow> emits os' d e \<Longrightarrow> emits (os @ os') c e"
  by (simp add: emits_def)

text \<open>Everything a run of sing-box hops leaves alone.\<close>

definition frame :: "build_context \<Rightarrow> build_context" where
  "frame c = c\<lparr>cx_outbounds := [], cx_endpoints := [], cx_vpnEndpointTags := [], cx_vpnGateTags := [],
     cx_vpnBlockOutsideDns := False, cx_singIngressTags := [], cx_error := [],
     cx_result := (cx_result c)\<lparr>rs_vpnEndpointProfiles := Map.empty\<rparr>\<rparr>"

lemma frame_fields:
  assumes "frame c = frame d"
  shows "cx_xrayOutbounds c = cx_xrayOutbounds d" "cx_xrayIngressTags c = cx_xrayIngressTags d"
    "cx_singToXrayBridges c = cx_singToXrayBridges d" "cx_xrayToSingBridges c = cx_xrayToSingBridges d"
    "cx_probes c = cx_probes d" "cx_randoms c = cx_randoms d" "cx_forTest c = cx_forTest d"
    "cx_prerequisites c = cx_prerequisites d" "cx_ent c = cx_ent d" "cx_l3Bridge c = cx_l3Bridge d"
    "cx_vpnAuxTags c = cx_vpnAuxTags d"
    "rs_chainGroups (cx_result c) = rs_chainGroups (cx_result d)"
    "rs_xrayConfig (cx_result c) = rs_xrayConfig (cx_result d)"
    "rs_isXrayNeeded (cx_result c) = rs_isXrayNeeded (cx_result d)"
    "rs_coreConfig (cx_result c) = rs_coreConfig (cx_result d)"
    "rs_xrayFullConfigs (cx_result c) = rs_xrayFullConfigs (cx_result d)"
    "rs_autoSelectors (cx_result c) = rs_autoSelectors (cx_result d)"
  using assms by (cases c; cases d; cases "cx_result c"; cases "cx_result d"; simp add: frame_def)+

lemma frame_noop [simp]:
  "frame (c\<lparr>cx_outbounds := a\<rparr>) = frame c" "frame (c\<lparr>cx_endpoints := a\<rparr>) = frame c"
  "frame (c\<lparr>cx_singIngressTags := t\<rparr>) = frame c" "frame (c\<lparr>cx_error := t'\<rparr>) = frame c"
  by (simp_all add: frame_def)

lemma note_vpn_hop_keeps [simp]:
  "frame (note_vpn_hop opts t e c) = frame c" "cx_outbounds (note_vpn_hop opts t e c) = cx_outbounds c"
  "cx_endpoints (note_vpn_hop opts t e c) = cx_endpoints c" "cx_error (note_vpn_hop opts t e c) = cx_error c"
  "cx_singIngressTags (note_vpn_hop opts t e c) = cx_singIngressTags c"
  by (simp_all add: note_vpn_hop_def frame_def Let_def)

definition all_build :: "'z gen_env_scheme \<Rightarrow> profile list \<Rightarrow> bool" where
  "all_build E ents \<longleftrightarrow> (\<forall>e \<in> set ents. snd (Build E e) = [])"

definition all_build_xray :: "'z gen_env_scheme \<Rightarrow> profile list \<Rightarrow> bool" where
  "all_build_xray E ents \<longleftrightarrow> (\<forall>e \<in> set ents. snd (BuildXray E e) = [])"

lemma sing_hops_frame: "frame (sing_hops E opts idx ents c) = frame c"
proof (induction ents arbitrary: idx c)
  case (Cons ent ents)
  then show ?case by (simp add: Let_def split_beta)
qed simp

lemma sing_hops_error: "cx_error (sing_hops E opts idx ents c) = [] \<longleftrightarrow> cx_error c = [] \<and> all_build E ents"
proof (induction ents arbitrary: idx c)
  case (Cons ent ents)
  then show ?case by (auto simp: Let_def split_beta all_build_def)
qed (simp add: all_build_def)

lemma sing_hops_emit:
  assumes "all_build E ents"
  shows "emits (sing_objects E opts idx ents) c (sing_hops E opts idx ents c) \<and>
    cx_singIngressTags (sing_hops E opts idx ents c) = cx_singIngressTags c @
      (if ho_markIngress opts \<and> idx = 0 \<and> ents \<noteq> [] then [sing_tag opts 0] else [])"
  using assms
proof (induction ents arbitrary: idx c)
  case (Cons ent ents)
  define c0 where "c0 = (if ho_markIngress opts \<and> idx = 0
      then c\<lparr>cx_singIngressTags := cx_singIngressTags c @ [sing_tag opts idx]\<rparr> else c)"
  define c1 where "c1 = (if (idx = 0 \<or> ho_warpWrap opts \<and> idx = 1) \<and> is_vpn ent
      then note_vpn_hop opts (sing_tag opts idx) ent c0 else c0)"
  define ob where "ob = sing_object E opts idx (ents \<noteq> []) ent"
  define c2 where "c2 = (if asks (IsEndpoint (re_text2object E)) ent
      then c1\<lparr>cx_endpoints := cx_endpoints c1 @ [ob]\<rparr> else c1\<lparr>cx_outbounds := cx_outbounds c1 @ [ob]\<rparr>)"
  have step: "sing_hops E opts idx (ent # ents) c = sing_hops E opts (Suc idx) ents c2"
    using Cons.prems
    by (simp add: c2_def c1_def c0_def ob_def sing_object_def Let_def split_beta all_build_def)
  have c1: "cx_outbounds c1 = cx_outbounds c" "cx_endpoints c1 = cx_endpoints c"
      "cx_singIngressTags c1 = cx_singIngressTags c @ (if ho_markIngress opts \<and> idx = 0 then [sing_tag opts 0] else [])"
    by (simp_all add: c1_def c0_def)
  have "emits [(asks (IsEndpoint (re_text2object E)) ent, ob)] c c2"
    by (simp add: c2_def emits_def c1)
  moreover have "cx_singIngressTags c2 = cx_singIngressTags c1" by (simp add: c2_def)
  moreover have "all_build E ents" using Cons.prems by (simp add: all_build_def)
  ultimately show ?case
    using Cons.IH [of "Suc idx" c2] emits_trans [of "[(asks (IsEndpoint (re_text2object E)) ent, ob)]" c c2]
    unfolding step by (simp add: ob_def c1)
qed simp

text \<open>The same for the Xray side.\<close>

definition xray_object :: "'z gen_env_scheme \<Rightarrow> hopChainOptions \<Rightarrow> coreBridgeConfig \<Rightarrow> nat \<Rightarrow> bool \<Rightarrow> profile \<Rightarrow> jobject" where
  "xray_object E opts b idx further ent =
     (let ob = jput ''tag'' (JStr (xray_tag opts idx)) (fst (BuildXray E ent))
      in if (further \<or> br_needed b) \<and> (ho_link opts \<or> br_needed b)
         then jput ''proxySettings'' (proxy_settings (hopTag (ho_prefix opts) (ho_startSuffix opts + int idx + 1))) ob
         else ob)"

fun xray_objects :: "'z gen_env_scheme \<Rightarrow> hopChainOptions \<Rightarrow> coreBridgeConfig \<Rightarrow> nat \<Rightarrow> profile list \<Rightarrow> jobject list" where
  "xray_objects E opts b idx [] = (if br_needed b then
     [xray_bridge_outbound (hopTag (ho_prefix opts) (ho_startSuffix opts + int idx)) b] else [])"
| "xray_objects E opts b idx (ent # ents) =
     xray_object E opts b idx (ents \<noteq> []) ent # xray_objects E opts b (Suc idx) ents"

definition xframe :: "build_context \<Rightarrow> build_context" where
  "xframe c = c\<lparr>cx_xrayOutbounds := [], cx_xrayIngressTags := [], cx_error := []\<rparr>"

lemma xframe_fields:
  assumes "xframe c = xframe d"
  shows "cx_outbounds c = cx_outbounds d" "cx_endpoints c = cx_endpoints d"
    "cx_singIngressTags c = cx_singIngressTags d"
    "cx_singToXrayBridges c = cx_singToXrayBridges d" "cx_xrayToSingBridges c = cx_xrayToSingBridges d"
    "cx_probes c = cx_probes d" "cx_randoms c = cx_randoms d" "cx_forTest c = cx_forTest d"
    "cx_prerequisites c = cx_prerequisites d" "cx_ent c = cx_ent d" "cx_l3Bridge c = cx_l3Bridge d"
    "cx_vpnAuxTags c = cx_vpnAuxTags d" "cx_result c = cx_result d"
  using assms by (cases c; cases d; simp add: xframe_def)+

lemma xray_hops_frame: "xframe (xray_hops E opts b idx ents c) = xframe c"
proof (induction ents arbitrary: idx c)
  case (Cons ent ents)
  then show ?case by (simp add: Let_def split_beta) (simp add: xframe_def)
qed simp

lemma xray_hops_error: "cx_error (xray_hops E opts b idx ents c) = [] \<longleftrightarrow> cx_error c = [] \<and> all_build_xray E ents"
proof (induction ents arbitrary: idx c)
  case (Cons ent ents)
  then show ?case by (auto simp: Let_def split_beta all_build_xray_def)
qed (simp add: all_build_xray_def)

lemma xray_hops_emit:
  assumes "all_build_xray E ents"
  shows "cx_xrayOutbounds (xray_hops E opts b idx ents c) @
      (if br_needed b then [xray_bridge_outbound (hopTag (ho_prefix opts) (ho_startSuffix opts + int (idx + length ents))) b] else [])
      = cx_xrayOutbounds c @ xray_objects E opts b idx ents \<and>
    cx_xrayIngressTags (xray_hops E opts b idx ents c) = cx_xrayIngressTags c @
      (if idx = 0 \<and> ents \<noteq> [] then [xray_tag opts 0] else [])"
  using assms
proof (induction ents arbitrary: idx c)
  case (Cons ent ents)
  define c0 where "c0 = (if idx = 0
      then c\<lparr>cx_xrayIngressTags := cx_xrayIngressTags c @ [xray_tag opts idx]\<rparr> else c)"
  define c2 where "c2 = c0\<lparr>cx_xrayOutbounds := cx_xrayOutbounds c0 @ [xray_object E opts b idx (ents \<noteq> []) ent]\<rparr>"
  have step: "xray_hops E opts b idx (ent # ents) c = xray_hops E opts b (Suc idx) ents c2"
    using Cons.prems
    by (simp add: c2_def c0_def xray_object_def Let_def split_beta all_build_xray_def)
  have "all_build_xray E ents" using Cons.prems by (simp add: all_build_xray_def)
  note IH = Cons.IH [OF this, of "Suc idx" c2]
  have outs: "cx_xrayOutbounds c2 = cx_xrayOutbounds c @ [xray_object E opts b idx (ents \<noteq> []) ent]"
    and ins: "cx_xrayIngressTags c2 = cx_xrayIngressTags c @ (if idx = 0 then [xray_tag opts 0] else [])"
    by (simp_all add: c2_def c0_def)
  have n: "idx + length (ent # ents) = Suc idx + length ents" by simp
  show ?case using IH unfolding step n outs ins xray_objects.simps append_assoc append_Cons append_Nil by auto
qed simp

lemma buildXrayChain_facts:
  shows "xframe (buildXrayChain E ents opts b c) = xframe c"
    "cx_error (buildXrayChain E ents opts b c) = [] \<longleftrightarrow> cx_error c = [] \<and> all_build_xray E ents"
    "all_build_xray E ents \<Longrightarrow>
       cx_xrayOutbounds (buildXrayChain E ents opts b c) = cx_xrayOutbounds c @ xray_objects E opts b 0 ents"
    "all_build_xray E ents \<Longrightarrow> ents \<noteq> [] \<Longrightarrow>
       cx_xrayIngressTags (buildXrayChain E ents opts b c) = cx_xrayIngressTags c @ [xray_tag opts 0]"
proof -
  let ?c = "xray_hops E opts b 0 ents c"
  have f: "xframe (buildXrayChain E ents opts b c) = xframe ?c"
    by (simp add: buildXrayChain_def Let_def) (simp add: xframe_def)
  then show "xframe (buildXrayChain E ents opts b c) = xframe c" by (simp add: xray_hops_frame)
  show "cx_error (buildXrayChain E ents opts b c) = [] \<longleftrightarrow> cx_error c = [] \<and> all_build_xray E ents"
    using xray_hops_error [of E opts b 0 ents c] by (simp add: buildXrayChain_def Let_def)
  assume ok: "all_build_xray E ents"
  then have nf: "\<not> list_ex (\<lambda>ent. snd (BuildXray E ent) \<noteq> []) ents"
    by (simp add: all_build_xray_def list_ex_iff)
  show "cx_xrayOutbounds (buildXrayChain E ents opts b c) = cx_xrayOutbounds c @ xray_objects E opts b 0 ents"
    using xray_hops_emit [OF ok, of opts b 0 c] nf by (simp add: buildXrayChain_def Let_def split: if_splits)
  assume "ents \<noteq> []"
  then show "cx_xrayIngressTags (buildXrayChain E ents opts b c) = cx_xrayIngressTags c @ [xray_tag opts 0]"
    using xray_hops_emit [OF ok, of opts b 0 c] nf by (simp add: buildXrayChain_def Let_def)
qed

text \<open>The links of the Xray side.\<close>

lemma xray_object_tag [simp]: "obj_tag (xray_object E opts b idx further ent) = xray_tag opts idx"
  by (simp add: obj_tag_def xray_object_def jget_def json_store.look_put Let_def)

lemma xray_bridge_tag [simp]: "obj_tag (xray_bridge_outbound t b) = t"
  by (simp add: obj_tag_def xray_bridge_outbound_def jget_jbuild)

lemma xray_bridge_proxy [simp]: "obj_proxy (xray_bridge_outbound t b) = None"
  by (simp add: obj_proxy_def xray_bridge_outbound_def map_of_jbuild)

lemma xray_object_proxy: "plain_hop E ent \<Longrightarrow> obj_proxy (xray_object E opts b idx further ent) =
    (if (further \<or> br_needed b) \<and> (ho_link opts \<or> br_needed b)
     then Some (hopTag (ho_prefix opts) (ho_startSuffix opts + int idx + 1)) else None)"
  by (simp add: obj_proxy_def xray_object_def json_store.look_put plain_hop_def proxy_settings_def jget_jbuild Let_def)

lemma xray_object_carries: "carries (fst (BuildXray E ent)) (xray_object E opts b idx further ent)"
  by (simp add: carries_def xray_object_def json_store.look_put Let_def)

lemma xray_objects_carry:
  "list_all2 (\<lambda>ent ob. carries (fst (BuildXray E ent)) ob) ents (take (length ents) (xray_objects E opts b idx ents))"
  by (induction ents arbitrary: idx) (simp_all add: xray_object_carries)

lemma xray_objects_drop: "drop (length ents) (xray_objects E opts b idx ents) = (if br_needed b then
    [xray_bridge_outbound (hopTag (ho_prefix opts) (ho_startSuffix opts + int (idx + length ents))) b] else [])"
proof (induction ents arbitrary: idx)
  case (Cons e ents)
  then show ?case using Cons [of "Suc idx"] by (simp add: algebra_simps)
qed simp

lemma xray_objects_hd: "ents \<noteq> [] \<Longrightarrow> obj_tag (hd (xray_objects E opts b idx ents)) = xray_tag opts idx"
  by (cases ents) simp_all

lemma xray_objects_tags: "ents \<noteq> [] \<or> 0 < idx \<Longrightarrow> map obj_tag (xray_objects E opts b idx ents) =
    map (xray_tag opts) [idx..<idx + length ents + (if br_needed b then 1 else 0)]"
proof (induction ents arbitrary: idx)
  case Nil
  then show ?case by (simp add: xray_tag_def upt_rec)
next
  case (Cons e ents)
  then show ?case using Cons.IH [of "Suc idx"] by (simp add: upt_rec)
qed

lemma xray_objects_linked:
  assumes "0 \<le> ho_startSuffix opts" "ho_link opts \<or> br_needed b \<or> length ents + idx \<le> 1" "\<forall>e \<in> set ents. plain_hop E e"
    "ents \<noteq> [] \<or> 0 < idx"
  shows "linked obj_proxy (xray_objects E opts b idx ents)"
  using assms
proof (induction ents arbitrary: idx)
  case (Cons ent ents)
  have IH: "linked obj_proxy (xray_objects E opts b (Suc idx) ents)"
    using Cons.IH [of "Suc idx"] Cons.prems by (cases ents) auto
  show ?case
  proof (cases "xray_objects E opts b (Suc idx) ents")
    case Nil
    then have "ents = []" "\<not> br_needed b" by (cases ents; simp split: if_splits)+
    then show ?thesis using Cons.prems Nil by (simp add: xray_object_proxy)
  next
    case (Cons ob obs)
    have "obj_tag ob = hopTag (ho_prefix opts) (ho_startSuffix opts + int idx + 1)"
      using Cons by (cases ents) (auto simp: xray_tag_def algebra_simps split: if_splits)
    moreover have "(ents \<noteq> [] \<or> br_needed b) \<and> (ho_link opts \<or> br_needed b)"
      using Cons Cons.prems by (cases ents) (auto split: if_splits)
    ultimately show ?thesis using Cons Cons.prems IH by (simp add: xray_object_proxy algebra_simps)
  qed
qed (simp split: if_splits)

lemma xray_objects_distinct:
  assumes "0 \<le> ho_startSuffix opts" "ents \<noteq> []"
  shows "distinct (map obj_tag (xray_objects E opts b 0 ents))"
proof -
  have "inj_on (xray_tag opts) S" for S
    using assms(1) by (auto simp: inj_on_def xray_tag_def hopTag_inject split: if_splits)
  then show ?thesis using xray_objects_tags [of ents 0 E opts b] assms(2) by (simp add: distinct_map)
qed

end
