(* ===== verification/ChainProps.thy ===== *)
theory ChainProps
  imports ChainEmit
begin

text \<open>
  A chain as a whole: what holds of the context when \<open>buildOutboundChain\<close> reports no error. The
  predicate \<open>chain_built\<close> lists the effects; everything else about chains is read off it.
\<close>

subsection \<open>The full configuration\<close>

definition cframe :: "build_context \<Rightarrow> build_context" where
  "cframe c = c\<lparr>cx_probes := 0, cx_randoms := 0,
     cx_result := (cx_result c)\<lparr>rs_xrayConfig := [], rs_isXrayNeeded := False\<rparr>\<rparr>"

lemma cframe_fields:
  assumes "cframe c = cframe d"
  shows "cx_outbounds c = cx_outbounds d" "cx_endpoints c = cx_endpoints d"
    "cx_xrayOutbounds c = cx_xrayOutbounds d" "cx_xrayIngressTags c = cx_xrayIngressTags d"
    "cx_singIngressTags c = cx_singIngressTags d" "cx_singToXrayBridges c = cx_singToXrayBridges d"
    "cx_xrayToSingBridges c = cx_xrayToSingBridges d" "cx_error c = cx_error d"
    "cx_singToXrayTransitioned c = cx_singToXrayTransitioned d"
    "cx_xrayToSingTransitioned c = cx_xrayToSingTransitioned d"
    "cx_forTest c = cx_forTest d" "cx_prerequisites c = cx_prerequisites d" "cx_ent c = cx_ent d"
    "cx_l3Bridge c = cx_l3Bridge d" "cx_vpnAuxTags c = cx_vpnAuxTags d"
    "rs_chainGroups (cx_result c) = rs_chainGroups (cx_result d)"
    "rs_coreConfig (cx_result c) = rs_coreConfig (cx_result d)"
    "rs_xrayFullConfigs (cx_result c) = rs_xrayFullConfigs (cx_result d)"
    "rs_autoSelectors (cx_result c) = rs_autoSelectors (cx_result d)"
  using assms by (cases c; cases d; cases "cx_result c"; cases "cx_result d"; simp add: cframe_def)+

lemma MkManyPorts_frame [simp]: "cframe (snd (MkManyPorts E n a c)) = cframe c"
  by (simp add: MkManyPorts_def cframe_def)

lemma GetRandomString_frame [simp]: "cframe (snd (GetRandomString E c)) = cframe c"
  by (simp add: GetRandomString_def cframe_def)

text \<open>The last hop, with its bridge written in.\<close>

definition bridged :: "profile \<Rightarrow> profile \<Rightarrow> bool" where
  "bridged e e' \<longleftrightarrow> (\<exists>cu port auth. Custom e = Some cu \<and> 0 < port \<and>
     e' = put_custom (cu\<lparr>cu_bridgePort := port, cu_bridgeAuth := auth\<rparr>) e)"

lemma bridged_kind: "bridged e e' \<Longrightarrow> is_xray e' = is_xray e \<and> pr_id e' = pr_id e \<and> pr_type e' = pr_type e"
  by (auto simp: bridged_def put_custom_def is_xray_def asks_def IsXray_def Custom_def
      split: option.splits outbound_class.splits)

lemma full_config_not_xray: "isXrayFullConfig e \<Longrightarrow> \<not> is_xray e"
  by (auto simp: isXrayFullConfig_def is_xray_def asks_def IsXray_def IsXrayFullConfig_def custom_kinds
      split: option.splits outbound_class.splits)

lemma install_facts:
  assumes "install_full_config E req ents c = (ents', c')" "cx_error c = []" "cx_error c' = []"
  shows "cframe c' = cframe c \<and>
    (if ents \<noteq> [] \<and> isXrayFullConfig (last ents)
     then \<exists>e. ents' = butlast ents @ [e] \<and> bridged (last ents) e else ents' = ents \<and> c' = c)"
proof (cases "ents \<noteq> [] \<and> isXrayFullConfig (last ents)")
  case False
  then show ?thesis using assms by (auto simp: install_full_config_def)
next
  case True
  show ?thesis
  proof (cases "Custom (last ents)")
    case None
    then show ?thesis using assms True by (auto simp: install_full_config_def)
  next
    case (Some cu)
    define port c1 where "port = (if cr_xrayFullConfigPort req \<le> 0
        then hd (fst (MkManyPorts E 1 (cu_bridgeHost cu) c)) else cr_xrayFullConfigPort req)"
      and "c1 = (if cr_xrayFullConfigPort req \<le> 0 then snd (MkManyPorts E 1 (cu_bridgeHost cu) c) else c)"
    have c1: "cframe c1 = cframe c" by (simp add: c1_def)
    have un: "install_full_config E req ents c =
      (if re_text2object E (cu_config cu) = [] then (ents, c\<lparr>cx_error := ''Custom Xray full config is not valid JSON''\<rparr>)
       else if port \<le> 0 then (ents, c1\<lparr>cx_error := ''Could not reserve a local port for the custom Xray full config bridge''\<rparr>)
       else let (auth, c2) = GetRandomString E c1;
                cu' = cu\<lparr>cu_bridgePort := port, cu_bridgeAuth := auth\<rparr>;
                inbounds = JObj (full_config_inbound cu') #
                  (if cx_forTest c2 \<or> cr_soleXrayInbound req then [] else to_arr (jget (re_text2object E (cu_config cu)) ''inbounds''))
            in (butlast ents @ [put_custom cu' (last ents)],
                in_result (\<lambda>r. r\<lparr>rs_xrayConfig := jput ''inbounds'' (JArr inbounds) (re_text2object E (cu_config cu)),
                  rs_isXrayNeeded := True\<rparr>) c2))"
      using True Some unfolding install_full_config_def port_def c1_def
      by (simp add: Let_def split_beta)
    have pos: "\<not> port \<le> 0" "re_text2object E (cu_config cu) \<noteq> []"
      using assms un by (auto split: if_splits)
    have res: "cframe (in_result (\<lambda>r. r\<lparr>rs_xrayConfig := x, rs_isXrayNeeded := True\<rparr>) d) = cframe d" for x d
      by (simp add: cframe_def)
    have "ents' = butlast ents @ [put_custom (cu\<lparr>cu_bridgePort := port, cu_bridgeAuth := fst (GetRandomString E c1)\<rparr>) (last ents)]"
      "cframe c' = cframe c"
      using assms(1) pos c1 unfolding un by (auto simp: Let_def split_beta res)
    moreover have "bridged (last ents) (put_custom (cu\<lparr>cu_bridgePort := port, cu_bridgeAuth := a\<rparr>) (last ents))" for a
      unfolding bridged_def using Some pos(1) by (intro exI [of _ cu] exI [of _ port] exI [of _ a]) simp
    ultimately show ?thesis using True by auto
  qed
qed

subsection \<open>What a chain leaves behind\<close>

definition lead_run :: "profile list \<Rightarrow> profile list \<Rightarrow> coreBridgeConfig \<Rightarrow> profile list" where
  "lead_run lead xs b = lead @ (if xs = [] then [] else [socks_bridge_profile b])"

definition tail_opts :: "chain_request \<Rightarrow> profile list \<Rightarrow> hopChainOptions" where
  "tail_opts req run = tailing_opts req (cr_startSuffix req + int (length run))"

definition chain_built ::
  "'z gen_env_scheme \<Rightarrow> chain_request \<Rightarrow> build_context \<Rightarrow> build_context \<Rightarrow>
     profile list \<Rightarrow> profile list \<Rightarrow> profile list \<Rightarrow> coreBridgeConfig \<Rightarrow> coreBridgeConfig \<Rightarrow> bool" where
  "chain_built E req c c' lead xs tail b1 b2 \<longleftrightarrow>
     (\<exists>hops. those (map (hop_of E) (cr_hopIDs req)) = Some hops \<and> accepted_chain hops \<and>
        (hops = lead @ xs @ tail \<or>
         (hops \<noteq> [] \<and> xs = [] \<and> isXrayFullConfig (last hops) \<and> bridged (last hops) (last lead) \<and>
          lead = butlast hops @ [last lead]))) \<and>
     three_runs lead xs tail \<and>
     emits (sing_objects E (leading_opts req) 0 (lead_run lead xs b1)
            @ sing_objects E (tail_opts req (lead_run lead xs b1)) 0 tail) c c' \<and>
     cx_xrayOutbounds c' = cx_xrayOutbounds c @
       (if xs = [] then [] else xray_objects E (leading_opts req) b2 0 xs) \<and>
     cx_xrayIngressTags c' = cx_xrayIngressTags c @ (if xs = [] then [] else [ingress_tag req]) \<and>
     cx_singIngressTags c' = cx_singIngressTags c @
       (if tail = [] then [] else [sing_tag (tail_opts req (lead_run lead xs b1)) 0]) \<and>
     cx_singToXrayBridges c' = cx_singToXrayBridges c @ (if xs = [] then [] else [b1]) \<and>
     cx_xrayToSingBridges c' = cx_xrayToSingBridges c @ (if tail = [] then [] else [b2]) \<and>
     (xs \<noteq> [] \<longrightarrow> 0 < br_port b1 \<and> b1 = bridge_at (br_port b1) (br_auth b1)) \<and>
     (if tail = [] then b2 = no_bridge else 0 < br_port b2 \<and> b2 = bridge_at (br_port b2) (br_auth b2)) \<and>
     all_build E (lead_run lead xs b1) \<and> all_build_xray E xs \<and> all_build E tail \<and>
     rs_chainGroups (cx_result c') = rs_chainGroups (cx_result c) @
       (if lead @ xs @ tail = [] then [] else
         [\<lparr>tg_watchTag = (if tail = [] then ingress_tag req else sing_tag (tail_opts req (lead_run lead xs b1)) 0),
           tg_profiles = lead @ xs @ tail\<rparr>]) \<and>
     cx_error c = [] \<and> cx_forTest c' = cx_forTest c \<and> cx_prerequisites c' = cx_prerequisites c \<and>
     cx_ent c' = cx_ent c \<and> cx_l3Bridge c' = cx_l3Bridge c \<and> cx_vpnAuxTags c' = cx_vpnAuxTags c \<and>
     rs_coreConfig (cx_result c') = rs_coreConfig (cx_result c) \<and>
     rs_autoSelectors (cx_result c') = rs_autoSelectors (cx_result c)"

lemma bridge_port_frame: "bridge_port E g (ps, c) = (p, ps', c') \<Longrightarrow> cframe c' = cframe c"
  by (auto simp: bridge_port_def MkManyPorts_def cframe_def Let_def split: if_splits)

lemma open_sing_facts:
  assumes "open_sing_to_xray E req lead (ps, c) = (lead', ps', c')" "cx_error c' = []"
  shows "if cx_singToXrayTransitioned c
    then \<exists>b. lead' = lead @ [socks_bridge_profile b] \<and> 0 < br_port b \<and> b = bridge_at (br_port b) (br_auth b) \<and>
         cframe c' = cframe (c\<lparr>cx_singToXrayBridges := cx_singToXrayBridges c @ [b]\<rparr>)
    else lead' = lead \<and> c' = c"
proof (cases "cx_singToXrayTransitioned c")
  case True
  obtain port ps1 c1 where p: "bridge_port E (cr_singToXrayPort req) (ps, c) = (port, ps1, c1)"
    by (metis prod_cases3)
  obtain auth c2 where r: "GetRandomString E c1 = (auth, c2)" by (metis prod.exhaust)
  have pos: "0 < port" using assms True p by (auto simp: open_sing_to_xray_def split: if_splits)
  let ?b = "bridge_at port auth"
  have "lead' = lead @ [socks_bridge_profile ?b]" "c' = c2\<lparr>cx_singToXrayBridges := cx_singToXrayBridges c2 @ [?b]\<rparr>"
    using assms(1) True p r pos by (auto simp: open_sing_to_xray_def Let_def)
  moreover have f: "cframe c2 = cframe c"
    using bridge_port_frame [OF p] GetRandomString_frame [of E c1] by (simp add: r)
  moreover have "cframe (d\<lparr>cx_singToXrayBridges := x\<rparr>) = (cframe d)\<lparr>cx_singToXrayBridges := x\<rparr>" for d x
    by (simp add: cframe_def)
  ultimately have "lead' = lead @ [socks_bridge_profile ?b] \<and> 0 < br_port ?b \<and> ?b = bridge_at (br_port ?b) (br_auth ?b) \<and>
      cframe c' = cframe (c\<lparr>cx_singToXrayBridges := cx_singToXrayBridges c @ [?b]\<rparr>)"
    using pos cframe_fields(6) [OF f] by (simp add: bridge_at_def)
  then show ?thesis using True by auto
qed (use assms in \<open>simp add: open_sing_to_xray_def\<close>)

lemma open_xray_facts:
  assumes "open_xray_to_sing E req (ps, c) = (b, c')" "cx_error c' = []"
  shows "if cx_xrayToSingTransitioned c
    then 0 < br_port b \<and> b = bridge_at (br_port b) (br_auth b) \<and>
         cframe c' = cframe (c\<lparr>cx_xrayToSingBridges := cx_xrayToSingBridges c @ [b]\<rparr>)
    else b = no_bridge \<and> c' = c"
proof (cases "cx_xrayToSingTransitioned c")
  case True
  obtain port ps1 c1 where p: "bridge_port E (cr_xrayToSingPort req) (ps, c) = (port, ps1, c1)"
    by (metis prod_cases3)
  obtain auth c2 where r: "GetRandomString E c1 = (auth, c2)" by (metis prod.exhaust)
  have pos: "0 < port" using assms True p by (auto simp: open_xray_to_sing_def split: if_splits)
  have "b = bridge_at port auth" "c' = c2\<lparr>cx_xrayToSingBridges := cx_xrayToSingBridges c2 @ [b]\<rparr>"
    using assms(1) True p r pos by (auto simp: open_xray_to_sing_def Let_def)
  moreover have f: "cframe c2 = cframe c"
    using bridge_port_frame [OF p] GetRandomString_frame [of E c1] by (simp add: r)
  moreover have "cframe (d\<lparr>cx_xrayToSingBridges := x\<rparr>) = (cframe d)\<lparr>cx_xrayToSingBridges := x\<rparr>" for d x
    by (simp add: cframe_def)
  ultimately show ?thesis using True pos cframe_fields(7) [OF f] by (simp add: bridge_at_def)
qed (use assms in \<open>simp add: open_xray_to_sing_def\<close>)

lemma emit_chain_facts:
  assumes "cx_error (emit_chain E req lead xs b tail c) = []" "three_runs lead0 xs tail" "xs \<noteq> [] \<Longrightarrow> lead \<noteq> []"
  defines "c' \<equiv> emit_chain E req lead xs b tail c"
  shows "cx_error c = []" "all_build E lead" "all_build_xray E xs" "all_build E tail"
    "emits (sing_objects E (leading_opts req) 0 lead @ sing_objects E (tail_opts req lead) 0 tail) c c'"
    "cx_xrayOutbounds c' = cx_xrayOutbounds c @ (if xs = [] then [] else xray_objects E (leading_opts req) b 0 xs)"
    "cx_xrayIngressTags c' = cx_xrayIngressTags c @ (if xs = [] then [] else [xray_tag (leading_opts req) 0])"
    "cx_singIngressTags c' = cx_singIngressTags c @ (if tail = [] then [] else [sing_tag (tail_opts req lead) 0])"
    "frame (c'\<lparr>cx_xrayOutbounds := [], cx_xrayIngressTags := []\<rparr>) = frame (c\<lparr>cx_xrayOutbounds := [], cx_xrayIngressTags := []\<rparr>)"
proof -
  define c1 where "c1 = buildSingboxChain E lead (leading_opts req) c"
  define c2 where "c2 = (if xs \<noteq> [] then buildXrayChain E xs (leading_opts req) b c1 else c1)"
  have c1': "(if lead \<noteq> [] then buildSingboxChain E lead (leading_opts req) c else c) = c1"
    by (simp add: c1_def buildSingboxChain_def)
  have c': "c' = buildSingboxChain E tail (tail_opts req lead) c2"
    unfolding c'_def emit_chain_def c1' c2_def [symmetric] Let_def tail_opts_def
    by (simp add: buildSingboxChain_def)
  have e2: "cx_error c2 = []" "all_build E tail"
    using assms(1) sing_hops_error [of E "tail_opts req lead" 0 tail c2]
    by (simp_all add: c'_def [symmetric] c' buildSingboxChain_def)
  have e1: "cx_error c1 = []" "all_build_xray E xs"
    using e2(1) buildXrayChain_facts(2) [of E xs "leading_opts req" b c1]
    by (auto simp: c2_def all_build_xray_def split: if_splits)
  show e0: "cx_error c = []" "all_build E lead"
    using e1(1) sing_hops_error [of E "leading_opts req" 0 lead c] by (simp_all add: c1_def buildSingboxChain_def)
  show "all_build_xray E xs" "all_build E tail" by fact+
  have s1: "emits (sing_objects E (leading_opts req) 0 lead) c c1" "cx_singIngressTags c1 = cx_singIngressTags c"
    using sing_hops_emit [OF e0(2), of "leading_opts req" 0 c]
    by (simp_all add: c1_def buildSingboxChain_def leading_opts_def)
  have f1: "frame c1 = frame c" by (simp add: c1_def buildSingboxChain_def sing_hops_frame)
  have s3: "emits (sing_objects E (tail_opts req lead) 0 tail) c2 c'"
      "cx_singIngressTags c' = cx_singIngressTags c2 @ (if tail = [] then [] else [sing_tag (tail_opts req lead) 0])"
    using sing_hops_emit [OF e2(2), of "tail_opts req lead" 0 c2]
    by (simp_all add: c' buildSingboxChain_def tail_opts_def tailing_opts_def)
  have f3: "frame c' = frame c2" by (simp add: c' buildSingboxChain_def sing_hops_frame)
  have f2: "xframe c2 = xframe c1" by (simp add: c2_def buildXrayChain_facts)
  have x2: "cx_xrayOutbounds c2 = cx_xrayOutbounds c1 @ (if xs = [] then [] else xray_objects E (leading_opts req) b 0 xs)"
      "cx_xrayIngressTags c2 = cx_xrayIngressTags c1 @ (if xs = [] then [] else [xray_tag (leading_opts req) 0])"
    using buildXrayChain_facts(3,4) [OF e1(2), of "leading_opts req" b c1] by (simp_all add: c2_def)
  have "emits [] c1 c2" using xframe_fields(1,2) [OF f2] by (simp add: emits_def)
  then show "emits (sing_objects E (leading_opts req) 0 lead @ sing_objects E (tail_opts req lead) 0 tail) c c'"
    using emits_trans [OF s1(1)] emits_trans [OF _ s3(1)] by fastforce
  show "cx_xrayOutbounds c' = cx_xrayOutbounds c @ (if xs = [] then [] else xray_objects E (leading_opts req) b 0 xs)"
      "cx_xrayIngressTags c' = cx_xrayIngressTags c @ (if xs = [] then [] else [xray_tag (leading_opts req) 0])"
    using frame_fields(1,2) [OF f3] frame_fields(1,2) [OF f1] x2 by simp_all
  show "cx_singIngressTags c' = cx_singIngressTags c @ (if tail = [] then [] else [sing_tag (tail_opts req lead) 0])"
    using s3(2) s1(2) xframe_fields(3) [OF f2] by simp
  have "frame (d\<lparr>cx_xrayOutbounds := [], cx_xrayIngressTags := []\<rparr>) = (frame d)\<lparr>cx_xrayOutbounds := [], cx_xrayIngressTags := []\<rparr>" for d
    by (simp add: frame_def)
  moreover have "frame (c2\<lparr>cx_xrayOutbounds := [], cx_xrayIngressTags := []\<rparr>) = frame (c1\<lparr>cx_xrayOutbounds := [], cx_xrayIngressTags := []\<rparr>)"
  proof -
    have "frame (d\<lparr>cx_xrayOutbounds := [], cx_xrayIngressTags := []\<rparr>) = frame (xframe d)" for d
      by (simp add: frame_def xframe_def)
    then show ?thesis using f2 by simp
  qed
  ultimately show "frame (c'\<lparr>cx_xrayOutbounds := [], cx_xrayIngressTags := []\<rparr>) = frame (c\<lparr>cx_xrayOutbounds := [], cx_xrayIngressTags := []\<rparr>)"
    using f1 f3 by simp
qed

lemma scan_hops_err: "fst (snd (scan_hops E ids b s ents err c)) = [] \<Longrightarrow> err = []"
proof (induction ids arbitrary: b s ents c)
  case (Cons i ids)
  then show ?case by (auto simp: Let_def split_beta split: option.splits if_splits)
qed (simp add: Let_def split: if_splits)

lemma bridged_three_runs:
  assumes "three_runs lead xs tail" "accepted_chain (lead @ xs @ tail)"
    and full: "lead @ xs @ tail \<noteq> []" "isXrayFullConfig (last (lead @ xs @ tail))"
    and b: "bridged (last (lead @ xs @ tail)) e"
  shows "xs = []" "tail = []" "three_runs (butlast (lead @ xs @ tail) @ [e]) [] []"
proof -
  have "last (lead @ xs @ tail) \<in> set (lead @ xs @ tail)" using full(1) by (rule last_in_set)
  then have none: "\<forall>e \<in> set (lead @ xs @ tail). \<not> is_xray e"
    using assms(2) full(2) by (auto simp: accepted_chain_def)
  then show xs: "xs = []" using assms(1) by (cases xs) (auto simp: three_runs_def)
  then show "tail = []" using assms(1) by (simp add: three_runs_def)
  have "\<not> is_xray e" using bridged_kind [OF b] none full(1) last_in_set by metis
  then show "three_runs (butlast (lead @ xs @ tail) @ [e]) [] []"
    using none by (auto simp: three_runs_def dest: in_set_butlastD)
qed

lemma xray_ingress: "xray_tag (leading_opts req) 0 = ingress_tag req"
  by (simp add: xray_tag_def leading_opts_def ingress_tag_def)

text \<open>The stages a chain that succeeds has gone through.\<close>

lemma chain_stages:
  assumes "cx_error (snd (buildOutboundChain E req c)) = []"
  obtains hops c1 ents c3 lead xs tail lead' ports c4 b2 c5 where
    "those (map (hop_of E) (cr_hopIDs req)) = Some hops" "accepted_chain hops" "cx_error c = []"
    "c1 = c\<lparr>cx_singToXrayTransitioned := (xs \<noteq> []), cx_xrayToSingTransitioned := (tail \<noteq> [])\<rparr>"
    "install_full_config E req hops (c1\<lparr>cx_error := []\<rparr>) = (ents, c3)"
    "open_sing_to_xray E req lead ([], c3) = (lead', ports, c4)" "open_xray_to_sing E req (ports, c4) = (b2, c5)"
    "cx_error c3 = []" "cx_error c4 = []" "cx_error c5 = []" "cx_error (emit_chain E req lead' xs b2 tail c5) = []"
    "snd (buildOutboundChain E req c) =
       credit_chain req (cr_startSuffix req + int (length lead')) tail ents (emit_chain E req lead' xs b2 tail c5)"
    "three_runs lead xs tail" "ents = lead @ xs @ tail" "cframe c3 = cframe (c1\<lparr>cx_error := []\<rparr>)"
    "hops = lead @ xs @ tail \<or> (hops \<noteq> [] \<and> xs = [] \<and> isXrayFullConfig (last hops) \<and>
        bridged (last hops) (last lead) \<and> lead = butlast hops @ [last lead])"
proof -
  define c0 where "c0 = c\<lparr>cx_singToXrayTransitioned := False, cx_xrayToSingTransitioned := False\<rparr>"
  obtain hops err c1 where s: "entIDListtoEntList E (cr_hopIDs req) (cx_error c0) c0 = (hops, err, c1)"
    by (metis prod_cases3)
  obtain ents c3 where i: "install_full_config E req hops (c1\<lparr>cx_error := err\<rparr>) = (ents, c3)"
    by (metis prod.exhaust)
  obtain lead xs tail where sp: "split_hops ents ([], [], []) = (lead, xs, tail)" by (metis prod_cases3)
  obtain lead' ports c4 where o1: "open_sing_to_xray E req lead ([], c3) = (lead', ports, c4)" by (metis prod_cases3)
  obtain b2 c5 where o2: "open_xray_to_sing E req (ports, c4) = (b2, c5)" by (metis prod.exhaust)
  define fin where "fin = snd (buildOutboundChain E req c)"
  define c6 where "c6 = emit_chain E req lead' xs b2 tail c5"
  have fin: "fin = (if err \<noteq> [] then c1\<lparr>cx_error := err\<rparr> else if cx_error c3 \<noteq> [] then c3
      else if cx_error c4 \<noteq> [] then c4 else if cx_error c5 \<noteq> [] then c5
      else credit_chain req (cr_startSuffix req + int (length lead')) tail ents c6)"
    unfolding fin_def buildOutboundChain_def c0_def [symmetric] Let_def c6_def
    by (simp only: snd_conv prod.case s i sp o1 o2)
  have ok: "cx_error fin = []" using assms by (simp add: fin_def)
  have e: "err = []" "cx_error c3 = []" "cx_error c4 = []" "cx_error c5 = []" "cx_error c6 = []"
    using ok unfolding fin by (auto simp: credit_chain_def split: if_splits)
  have fin6: "fin = credit_chain req (cr_startSuffix req + int (length lead')) tail ents c6"
    using fin e by simp
  have c0e: "cx_error c0 = []" using scan_hops_err [of E "cr_hopIDs req" False new_scan "[]" "cx_error c0" c0] s e(1)
    by (simp add: entIDListtoEntList_def)
  obtain l0 x0 t0 where r: "those (map (hop_of E) (cr_hopIDs req)) = Some hops" "hops = l0 @ x0 @ t0"
      "three_runs l0 x0 t0" "accepted_chain hops"
      "c1 = c0\<lparr>cx_singToXrayTransitioned := (cx_singToXrayTransitioned c0 \<or> x0 \<noteq> []),
             cx_xrayToSingTransitioned := (cx_xrayToSingTransitioned c0 \<or> t0 \<noteq> [])\<rparr>"
    using resolved_chain [of E "cr_hopIDs req" c0 hops c1] s e(1) c0e by metis
  have f3: "cframe c3 = cframe (c1\<lparr>cx_error := []\<rparr>)"
    and h: "if hops \<noteq> [] \<and> isXrayFullConfig (last hops)
      then \<exists>e. ents = butlast hops @ [e] \<and> bridged (last hops) e else ents = hops"
    using install_facts [OF i] e by (auto split: if_splits)
  have lead: "three_runs lead xs tail \<and> ents = lead @ xs @ tail \<and> xs = x0 \<and> tail = t0 \<and>
      (hops = lead @ xs @ tail \<or> (hops \<noteq> [] \<and> xs = [] \<and> isXrayFullConfig (last hops) \<and>
        bridged (last hops) (last lead) \<and> lead = butlast hops @ [last lead]))"
  proof (cases "hops \<noteq> [] \<and> isXrayFullConfig (last hops)")
    case False
    then have "ents = l0 @ x0 @ t0" using h r(2) by auto
    then show ?thesis using sp split_hops_runs [OF r(3)] r(2,3) by auto
  next
    case True
    then obtain e where ents: "ents = butlast hops @ [e]" "bridged (last hops) e" using h by auto
    have b: "x0 = []" "t0 = []" "three_runs (butlast hops @ [e]) [] []"
      using bridged_three_runs [OF r(3)] r(2,4) True ents(2) by (metis, metis, metis)
    have "split_hops ents ([], [], []) = (butlast hops @ [e], [], [])"
      using split_hops_runs [OF b(3)] by (simp add: ents(1))
    then show ?thesis using sp b ents True by auto
  qed
  have start: "c1 = c\<lparr>cx_singToXrayTransitioned := (xs \<noteq> []), cx_xrayToSingTransitioned := (tail \<noteq> [])\<rparr>"
    using r(5) lead by (simp add: c0_def)
  have L: "three_runs lead xs tail" "ents = lead @ xs @ tail"
      "hops = lead @ xs @ tail \<or> (hops \<noteq> [] \<and> xs = [] \<and> isXrayFullConfig (last hops) \<and>
        bridged (last hops) (last lead) \<and> lead = butlast hops @ [last lead])"
    using lead by blast+
  have no: "cx_error c = []" using c0e by (simp add: c0_def)
  show thesis
    by (rule that [OF r(1,4) no start i [unfolded e(1)] o1 o2 e(2-4) e(5) [unfolded c6_def] fin6 [unfolded fin_def c6_def]
      L(1,2) f3 L(3)])
qed

lemma chain_success:
  assumes ok: "cx_error (snd (buildOutboundChain E req c)) = []"
  shows "\<exists>lead xs tail b1 b2. chain_built E req c (snd (buildOutboundChain E req c)) lead xs tail b1 b2"
proof -
  define fin where "fin = snd (buildOutboundChain E req c)"
  obtain hops c1 ents c3 lead xs tail lead' ports c4 b2 c5 where r: "those (map (hop_of E) (cr_hopIDs req)) = Some hops"
      "accepted_chain hops" and c0e: "cx_error c = []"
    and start: "c1 = c\<lparr>cx_singToXrayTransitioned := (xs \<noteq> []), cx_xrayToSingTransitioned := (tail \<noteq> [])\<rparr>"
    and o1: "open_sing_to_xray E req lead ([], c3) = (lead', ports, c4)" and o2: "open_xray_to_sing E req (ports, c4) = (b2, c5)"
    and e: "cx_error c3 = []" "cx_error c4 = []" "cx_error c5 = []" "cx_error (emit_chain E req lead' xs b2 tail c5) = []"
    and fin6: "fin = credit_chain req (cr_startSuffix req + int (length lead')) tail ents (emit_chain E req lead' xs b2 tail c5)"
    and lead: "three_runs lead xs tail" "ents = lead @ xs @ tail" and f3: "cframe c3 = cframe (c1\<lparr>cx_error := []\<rparr>)"
    and hops: "hops = lead @ xs @ tail \<or> (hops \<noteq> [] \<and> xs = [] \<and> isXrayFullConfig (last hops) \<and>
        bridged (last hops) (last lead) \<and> lead = butlast hops @ [last lead])"
    unfolding fin_def by (rule chain_stages [OF ok]) blast
  define c6 where "c6 = emit_chain E req lead' xs b2 tail c5"
  have fl: "cx_singToXrayTransitioned c3 \<longleftrightarrow> xs \<noteq> []" "cx_xrayToSingTransitioned c3 \<longleftrightarrow> tail \<noteq> []"
    using cframe_fields(9,10) [OF f3] by (simp_all add: start)
  obtain b1 where b1: "lead' = lead_run lead xs b1"
      "xs \<noteq> [] \<longrightarrow> 0 < br_port b1 \<and> b1 = bridge_at (br_port b1) (br_auth b1)"
      "cframe c4 = cframe (c3\<lparr>cx_singToXrayBridges := cx_singToXrayBridges c3 @ (if xs = [] then [] else [b1])\<rparr>)"
    using open_sing_facts [OF o1 e(2)] fl(1) by (cases "xs = []") (auto simp: lead_run_def)
  have fl4: "cx_xrayToSingTransitioned c4 \<longleftrightarrow> tail \<noteq> []"
    using cframe_fields(10) [OF b1(3)] fl(2) by simp
  have b2: "if tail = [] then b2 = no_bridge else 0 < br_port b2 \<and> b2 = bridge_at (br_port b2) (br_auth b2)"
      "cframe c5 = cframe (c4\<lparr>cx_xrayToSingBridges := cx_xrayToSingBridges c4 @ (if tail = [] then [] else [b2])\<rparr>)"
    using open_xray_facts [OF o2 e(3)] fl4 by (cases "tail = []"; simp)+
  have "xs \<noteq> [] \<Longrightarrow> lead' \<noteq> []" by (simp add: b1(1) lead_run_def)
  note em = emit_chain_facts [OF e(4) lead(1) this, folded c6_def]
  note F3 = cframe_fields [OF f3] and F4 = cframe_fields [OF b1(3)] and F5 = cframe_fields [OF b2(2)]
  note F6 = frame_fields [OF em(9)]
  have C: "cx_outbounds fin = cx_outbounds c6" "cx_endpoints fin = cx_endpoints c6"
      "cx_xrayOutbounds fin = cx_xrayOutbounds c6" "cx_xrayIngressTags fin = cx_xrayIngressTags c6"
      "cx_singIngressTags fin = cx_singIngressTags c6" "cx_singToXrayBridges fin = cx_singToXrayBridges c6"
      "cx_xrayToSingBridges fin = cx_xrayToSingBridges c6" "cx_forTest fin = cx_forTest c6"
      "cx_prerequisites fin = cx_prerequisites c6" "cx_ent fin = cx_ent c6" "cx_l3Bridge fin = cx_l3Bridge c6"
      "cx_vpnAuxTags fin = cx_vpnAuxTags c6" "rs_coreConfig (cx_result fin) = rs_coreConfig (cx_result c6)"
      "rs_autoSelectors (cx_result fin) = rs_autoSelectors (cx_result c6)"
      "rs_chainGroups (cx_result fin) = rs_chainGroups (cx_result c6) @ (if ents = [] then [] else
        [\<lparr>tg_watchTag = (if tail \<noteq> [] then hopTag (cr_prefix req) (cr_startSuffix req + int (length lead'))
           else ingress_tag req), tg_profiles = ents\<rparr>])"
    by (simp_all add: fin6 c6_def credit_chain_def)
  have c1: "cx_outbounds c1 = cx_outbounds c" "cx_endpoints c1 = cx_endpoints c" "cx_xrayOutbounds c1 = cx_xrayOutbounds c"
      "cx_xrayIngressTags c1 = cx_xrayIngressTags c" "cx_singIngressTags c1 = cx_singIngressTags c"
      "cx_singToXrayBridges c1 = cx_singToXrayBridges c" "cx_xrayToSingBridges c1 = cx_xrayToSingBridges c"
      "cx_forTest c1 = cx_forTest c" "cx_prerequisites c1 = cx_prerequisites c" "cx_ent c1 = cx_ent c"
      "cx_l3Bridge c1 = cx_l3Bridge c" "cx_vpnAuxTags c1 = cx_vpnAuxTags c" "cx_result c1 = cx_result c"
    by (simp_all add: start)
  have first: "sing_tag (tail_opts req lead') 0 = hopTag (cr_prefix req) (cr_startSuffix req + int (length lead'))"
    by (simp add: sing_tag_def tail_opts_def tailing_opts_def)
  have "chain_built E req c fin lead xs tail b1 b2"
    unfolding chain_built_def b1(1) [symmetric]
  proof (intro conjI)
    show "\<exists>hops. those (map (hop_of E) (cr_hopIDs req)) = Some hops \<and> accepted_chain hops \<and>
        (hops = lead @ xs @ tail \<or> (hops \<noteq> [] \<and> xs = [] \<and> isXrayFullConfig (last hops) \<and> bridged (last hops) (last lead) \<and>
          lead = butlast hops @ [last lead]))"
      using r hops by blast
    show "emits (sing_objects E (leading_opts req) 0 lead'
            @ sing_objects E (tail_opts req lead') 0 tail) c fin"
      using em(5) by (simp add: emits_def C F3 F4 F5 c1)
    show "rs_chainGroups (cx_result fin) = rs_chainGroups (cx_result c) @
       (if lead @ xs @ tail = [] then [] else
         [\<lparr>tg_watchTag = (if tail = [] then ingress_tag req else sing_tag (tail_opts req lead') 0),
           tg_profiles = lead @ xs @ tail\<rparr>])"
      using F6(12) lead(2)
      by (simp add: C F3 F4 F5 c1 first)
    show "cx_error c = []" by (fact c0e)
  qed (use lead(1) em(2-4,6-8) b1(2) b2(1) F6 in
      \<open>simp_all add: C F3 F4 F5 c1 xray_ingress\<close>)
  then show ?thesis unfolding fin_def by blast
qed

subsection \<open>The shape of a request\<close>

definition request_ok :: "chain_request \<Rightarrow> bool" where
  "request_ok req \<longleftrightarrow> 0 \<le> cr_startSuffix req \<and> (cr_link req \<or> length (cr_hopIDs req) \<le> 1) \<and>
     (cr_warpWrap req \<longrightarrow> cr_includeProxy req \<and> 2 \<le> length (cr_hopIDs req) \<and> hd (cr_hopIDs req) = warpProfileID)"

lemma those_length: "those xs = Some ys \<Longrightarrow> length ys = length xs"
  by (induction xs arbitrary: ys) (auto split: option.splits)

lemma those_hd: "those (map f (x # xs)) = Some ys \<Longrightarrow> f x = Some (hd ys) \<and> ys \<noteq> []"
  by (auto split: option.splits)

lemma chain_lengths:
  assumes "chain_built E req c c' lead xs tail b1 b2"
  shows "length (lead @ xs @ tail) = length (cr_hopIDs req)"
    "length (lead_run lead xs b1) + length tail \<le> length (cr_hopIDs req)"
    "cr_hopIDs req \<noteq> [] \<Longrightarrow> lead_run lead xs b1 \<noteq> []"
proof -
  obtain hops where h: "those (map (hop_of E) (cr_hopIDs req)) = Some hops"
      "hops = lead @ xs @ tail \<or> (hops \<noteq> [] \<and> xs = [] \<and> lead = butlast hops @ [last lead])"
    and r: "three_runs lead xs tail"
    using assms unfolding chain_built_def by blast
  have tail: "xs = [] \<Longrightarrow> tail = []" using r by (simp add: three_runs_def)
  have len: "length hops = length (cr_hopIDs req)" using those_length [OF h(1)] by simp
  have "length (lead @ xs @ tail) = length hops"
    using h(2)
  proof
    assume b: "hops \<noteq> [] \<and> xs = [] \<and> lead = butlast hops @ [last lead]"
    then have "length lead = Suc (length (butlast hops))" by (metis length_append_singleton)
    moreover have "0 < length hops" using b by simp
    ultimately show ?thesis using b tail by simp
  qed simp
  with len show L: "length (lead @ xs @ tail) = length (cr_hopIDs req)" by simp
  then show "length (lead_run lead xs b1) + length tail \<le> length (cr_hopIDs req)"
    by (cases xs) (simp_all add: lead_run_def)
  assume "cr_hopIDs req \<noteq> []"
  then have "lead @ xs @ tail \<noteq> []" using L by (metis length_0_conv)
  then show "lead_run lead xs b1 \<noteq> []" using tail by (auto simp: lead_run_def)
qed

lemma hop_of_warp [simp]: "hop_of E warpProfileID = Some (getWarpProfile E)"
  by (simp add: hop_of_def)

lemma warp_in_front:
  assumes "chain_built E req c c' lead xs tail b1 b2" "hd (cr_hopIDs req) = warpProfileID" "2 \<le> length (cr_hopIDs req)"
  shows "2 \<le> length (lead_run lead xs b1)"
proof -
  obtain hops where h: "those (map (hop_of E) (cr_hopIDs req)) = Some hops"
      "hops = lead @ xs @ tail \<or> (hops \<noteq> [] \<and> xs = [] \<and> lead = butlast hops @ [last lead])"
    and r: "three_runs lead xs tail"
    using assms unfolding chain_built_def by blast
  have len: "length (lead @ xs @ tail) = length (cr_hopIDs req)" by (rule chain_lengths(1) [OF assms(1)])
  obtain ids where ids: "cr_hopIDs req = warpProfileID # ids" using assms(2,3) by (cases "cr_hopIDs req") auto
  have hd: "hd hops = getWarpProfile E" "hops \<noteq> []"
    using those_hd [of "hop_of E" warpProfileID ids hops] h(1) ids by auto
  show ?thesis
  proof (cases "xs = []")
    case True
    then show ?thesis using len assms(3) r by (simp add: three_runs_def lead_run_def)
  next
    case False
    then have "hops = lead @ xs @ tail" using h(2) by blast
    then have "lead \<noteq> []" using False hd r warp_facts(1) [of E] by (cases lead; cases xs) (auto simp: three_runs_def)
    then show ?thesis using False by (cases lead) (simp_all add: lead_run_def)
  qed
qed

lemma leading_ok:
  assumes "chain_built E req c c' lead xs tail b1 b2" "request_ok req"
  shows "opts_ok (leading_opts req) (length (lead_run lead xs b1))" "opts_ok (tail_opts req (lead_run lead xs b1)) (length tail)"
proof -
  show "opts_ok (leading_opts req) (length (lead_run lead xs b1))"
    using assms(2) chain_lengths(2) [OF assms(1)] warp_in_front [OF assms(1)]
    by (auto simp: opts_ok_def request_ok_def leading_opts_def)
  show "opts_ok (tail_opts req (lead_run lead xs b1)) (length tail)"
    using assms(2) chain_lengths(2) [OF assms(1)]
    by (auto simp: opts_ok_def request_ok_def tail_opts_def tailing_opts_def)
qed

subsection \<open>The tags of a chain\<close>

definition chain_objects where
  "chain_objects E req lead xs b1 tail =
     sing_objects E (leading_opts req) 0 (lead_run lead xs b1)
     @ sing_objects E (tail_opts req (lead_run lead xs b1)) 0 tail"

definition chain_tag_space :: "chain_request \<Rightarrow> string set" where
  "chain_tag_space req = (if cr_includeProxy req then {tag_proxy} else {}) \<union>
     (if cr_warpWrap req then {tag_warpBypass} else {}) \<union>
     hopTag (cr_prefix req) ` {cr_startSuffix req..<cr_startSuffix req + int (length (cr_hopIDs req))}"

lemma leading_tag: "sing_tag (leading_opts req) i =
    (if cr_warpWrap req \<and> i = 1 then tag_warpBypass else if cr_includeProxy req \<and> i = 0 then tag_proxy
     else hopTag (cr_prefix req) (cr_startSuffix req + int i))"
  by (simp add: sing_tag_def leading_opts_def)

lemma tailing_tag: "sing_tag (tail_opts req run) j = hopTag (cr_prefix req) (cr_startSuffix req + int (length run) + int j)"
  by (simp add: sing_tag_def tail_opts_def tailing_opts_def)

lemma chain_object_tags: "map (obj_tag \<circ> snd) (chain_objects E req lead xs b1 tail) =
    map (sing_tag (leading_opts req)) [0..<length (lead_run lead xs b1)]
    @ map (sing_tag (tail_opts req (lead_run lead xs b1))) [0..<length tail]"
  by (simp add: chain_objects_def sing_objects_tags)

lemma chain_tags_distinct:
  assumes "request_ok req"
  shows "distinct (map (obj_tag \<circ> snd) (chain_objects E req lead xs b1 tail))"
proof -
  have s: "0 \<le> cr_startSuffix req" "cr_warpWrap req \<longrightarrow> cr_includeProxy req" using assms by (auto simp: request_ok_def)
  have "distinct (map (sing_tag (leading_opts req)) [0..<n])" for n
    using sing_tag_inject [of "leading_opts req"] s by (auto simp: distinct_map inj_on_def leading_opts_def)
  moreover have "distinct (map (sing_tag (tail_opts req run)) [0..<n])" for run n
    using s(1) by (auto simp: distinct_map inj_on_def tailing_tag hopTag_inject)
  moreover have "sing_tag (leading_opts req) i \<noteq> sing_tag (tail_opts req run) j" if "i < length run" for i j and run :: "profile list"
    using s(1) that by (auto simp: leading_tag tailing_tag hopTag_inject)
  ultimately show ?thesis unfolding chain_object_tags by auto
qed

lemma chain_tags_space:
  assumes "chain_built E req c c' lead xs tail b1 b2"
  shows "obj_tag ` snd ` set (chain_objects E req lead xs b1 tail) \<subseteq> chain_tag_space req"
proof -
  have "obj_tag ` snd ` set (chain_objects E req lead xs b1 tail) = set (map (obj_tag \<circ> snd) (chain_objects E req lead xs b1 tail))"
    by (simp add: image_image)
  also have "\<dots> \<subseteq> chain_tag_space req"
    using chain_lengths(2) [OF assms]
    by (auto simp: chain_object_tags leading_tag tailing_tag chain_tag_space_def)
  finally show ?thesis .
qed

lemma chain_ingress:
  assumes "chain_built E req c c' lead xs tail b1 b2" "request_ok req" "cr_hopIDs req \<noteq> []"
  shows "ingress_tag req \<in> obj_tag ` snd ` set (chain_objects E req lead xs b1 tail)"
proof -
  have "sing_objects E (leading_opts req) 0 (lead_run lead xs b1) \<noteq> []" using chain_lengths(3) [OF assms(1,3)] by simp
  moreover have "obj_tag (snd (hd (sing_objects E (leading_opts req) 0 (lead_run lead xs b1)))) = ingress_tag req"
    using sing_objects_hd [OF chain_lengths(3) [OF assms(1,3)], where E = E and opts = "leading_opts req" and idx = 0]
    by (simp add: leading_tag ingress_tag_def)
  ultimately show ?thesis unfolding chain_objects_def set_append by (metis UnI1 image_eqI hd_in_set)
qed

lemma linked_closed: "linked nx os \<Longrightarrow> ob \<in> set os \<Longrightarrow> nx ob = Some t \<Longrightarrow> t \<in> obj_tag ` set os"
  by (induction nx os rule: linked.induct) auto

lemma chain_detours_closed:
  assumes "chain_built E req c c' lead xs tail b1 b2" "request_ok req"
    and plain: "\<forall>e \<in> set (lead_run lead xs b1) \<union> set tail. plain_hop E e"
    and ob: "ob \<in> snd ` set (chain_objects E req lead xs b1 tail)" "obj_detour ob = Some t"
  shows "t \<in> obj_tag ` snd ` set (chain_objects E req lead xs b1 tail)"
proof -
  let ?L = "sing_objects E (leading_opts req) 0 (lead_run lead xs b1)"
  let ?T = "sing_objects E (tail_opts req (lead_run lead xs b1)) 0 tail"
  have "linked obj_detour (map snd ?L)" "linked obj_detour (map snd ?T)"
    using leading_ok [OF assms(1,2)] plain by (auto intro!: sing_objects_linked)
  then have "ob \<in> set (map snd ?L) \<Longrightarrow> t \<in> obj_tag ` set (map snd ?L)"
      "ob \<in> set (map snd ?T) \<Longrightarrow> t \<in> obj_tag ` set (map snd ?T)"
    using linked_closed [of obj_detour _ ob t] ob(2) by blast+
  then show ?thesis using ob(1) by (auto simp: chain_objects_def)
qed

end
