(* ===== verification/ChainPathProps.thy ===== *)
theory ChainPathProps
  imports ChainProps
begin

text \<open>
  The promises a chain makes to its user: the hops that were asked for are the hops that are
  crossed, in that order; and the planner that deals out ports in advance counts the bridges the
  builder will open.
\<close>

definition new_objects :: "build_context \<Rightarrow> build_context \<Rightarrow> jobject list" where
  "new_objects c c' = drop (length (cx_outbounds c)) (cx_outbounds c') @ drop (length (cx_endpoints c)) (cx_endpoints c')"

lemma set_new_objects: "emits objs c c' \<Longrightarrow> set (new_objects c c') = snd ` set objs"
  by (auto simp: emits_def new_objects_def image_iff)

lemma mset_partition: "mset (map f (filter (\<lambda>x. \<not> P x) xs) @ map f (filter P xs)) = mset (map f xs)"
  by (induction xs) auto

lemma new_objects_distinct:
  assumes "emits objs c c'" "distinct (map (obj_tag \<circ> snd) objs)"
  shows "distinct (map obj_tag (new_objects c c'))"
proof -
  have "new_objects c c' = map snd (filter (\<lambda>x. \<not> fst x) objs) @ map snd (filter fst objs)"
    using assms(1) by (simp add: emits_def new_objects_def)
  then have "mset (map obj_tag (new_objects c c')) = mset (map (obj_tag \<circ> snd) objs)"
    using mset_partition [of "obj_tag \<circ> snd" fst objs] by simp
  then show ?thesis using assms(2) mset_eq_imp_distinct_iff by blast
qed

lemma follow_run:
  assumes "linked nx run" "run \<noteq> []" "set run \<subseteq> set obs" "distinct (map obj_tag obs)" "distinct (map obj_tag run)"
    "t = obj_tag (hd run)"
  shows "follow nx obs t = run"
  using follow_linked [OF assms(1-4)] assms(5,6) by (simp add: distinct_map)

lemma socks_bridge_plain [simp]: "plain_hop E (socks_bridge_profile b)"
  by (simp add: plain_hop_def socks_bridge_profile_def Build_def BuildXray_def new_profile_def socks_Build_def
      class_object_def put_rows_def base_Build_def socks_rows_def new_socks_def new_dialFields_def dial_Build_def
      dial_ExportToJson_def dial_rows_def export_rows_def base_rows_def row_kinds mergeJsonObjects_def jbuild_def
      json_store.look_put)

text \<open>The hops as profiles; the last may be a full configuration that was given its bridge.\<close>

definition realises :: "('p \<Rightarrow> jobject) \<Rightarrow> 'p list \<Rightarrow> jobject list \<Rightarrow> bool" where
  "realises build ps obs \<longleftrightarrow> list_all2 (\<lambda>p ob. carries (build p) ob) ps obs"

definition dials_bridge :: "coreBridgeConfig \<Rightarrow> jobject \<Rightarrow> bool" where
  "dials_bridge b ob \<longleftrightarrow> jget ob ''type'' = JStr ''socks'' \<and> jget ob ''server'' = JStr (br_host b) \<and>
     jget ob ''server_port'' = jint (br_port b) \<and>
     (br_auth b \<noteq> [] \<longrightarrow> jget ob ''username'' = JStr (br_auth b) \<and> jget ob ''password'' = JStr (br_auth b))"

definition xray_dials_bridge :: "coreBridgeConfig \<Rightarrow> jobject \<Rightarrow> bool" where
  "xray_dials_bridge b ob \<longleftrightarrow> jget ob ''protocol'' = JStr ''socks'' \<and>
     (let s = to_obj (jget ob ''settings'')
      in jget s ''address'' = JStr (br_host b) \<and> jget s ''port'' = jint (br_port b) \<and>
         jget s ''user'' = JStr (br_auth b) \<and> jget s ''pass'' = JStr (br_auth b))"

lemma socks_bridge_dials: "carries (fst (Build E (socks_bridge_profile b))) ob \<Longrightarrow> 0 < br_port b \<Longrightarrow> br_host b \<noteq> [] \<Longrightarrow>
    dials_bridge b ob"
  by (simp add: carries_def dials_bridge_def jget_def socks_bridge_profile_def Build_def new_profile_def socks_Build_def
      class_object_def put_rows_def base_Build_def socks_rows_def new_socks_def new_dialFields_def dial_Build_def
      dial_ExportToJson_def dial_rows_def export_rows_def base_rows_def row_kinds mergeJsonObjects_def jbuild_def
      json_store.look_put)

lemma xray_bridge_dials: "xray_dials_bridge b (xray_bridge_outbound t b)"
  by (simp add: xray_dials_bridge_def xray_bridge_outbound_def jget_jbuild Let_def)

lemma bridged_plain: "bridged e e' \<Longrightarrow> isXrayFullConfig e \<Longrightarrow> plain_hop E e'"
  by (auto simp: bridged_def plain_hop_def Build_def BuildXray_def put_custom_def Custom_def isXrayFullConfig_def
      asks_def IsXrayFullConfig_def custom_Build_def custom_BuildXray_def custom_kinds map_of_jbuild
      split: option.splits outbound_class.splits)

lemma those_in: "those (map f xs) = Some ys \<Longrightarrow> y \<in> set ys \<Longrightarrow> \<exists>x \<in> set xs. f x = Some y"
  by (induction xs arbitrary: ys) (auto split: option.splits)

definition hops_plain :: "'z gen_env_scheme \<Rightarrow> int list \<Rightarrow> bool" where
  "hops_plain E ids \<longleftrightarrow> (\<forall>i \<in> set ids. case hop_of E i of None \<Rightarrow> True | Some p \<Rightarrow> plain_hop E p)"

lemma built_hops:
  assumes "chain_built E req c c' lead xs tail b1 b2" "hops_plain E (cr_hopIDs req)"
  obtains hops where "those (map (hop_of E) (cr_hopIDs req)) = Some hops" "map pr_id (lead @ xs @ tail) = map pr_id hops"
    "\<forall>e \<in> set (lead @ xs @ tail). plain_hop E e"
proof -
  obtain hops where h: "those (map (hop_of E) (cr_hopIDs req)) = Some hops"
      "hops = lead @ xs @ tail \<or> (hops \<noteq> [] \<and> xs = [] \<and> isXrayFullConfig (last hops) \<and>
        bridged (last hops) (last lead) \<and> lead = butlast hops @ [last lead])"
    and r: "three_runs lead xs tail"
    using assms unfolding chain_built_def by blast
  have p: "\<forall>e \<in> set hops. plain_hop E e"
    using those_in [OF h(1)] assms(2) by (force simp: hops_plain_def split: option.splits)
  from h(2) show thesis
  proof
    assume "hops = lead @ xs @ tail"
    then show thesis using that [OF h(1)] p by simp
  next
    assume b: "hops \<noteq> [] \<and> xs = [] \<and> isXrayFullConfig (last hops) \<and>
        bridged (last hops) (last lead) \<and> lead = butlast hops @ [last lead]"
    obtain l where l: "lead = butlast hops @ [l]" "bridged (last hops) l" using b by metis
    have all: "lead @ xs @ tail = butlast hops @ [l]" using b l r by (simp add: three_runs_def)
    have "map pr_id (butlast hops @ [l]) = map pr_id (butlast hops @ [last hops])"
      using bridged_kind [OF l(2)] by simp
    then have "map pr_id (lead @ xs @ tail) = map pr_id hops" using b all by simp
    moreover have "\<forall>e \<in> set (lead @ xs @ tail). plain_hop E e"
      using p bridged_plain [OF l(2)] b unfolding all by (auto dest: in_set_butlastD)
    ultimately show thesis using that [OF h(1)] by simp
  qed
qed

definition xray_path :: "build_context \<Rightarrow> build_context \<Rightarrow> string \<Rightarrow> jobject list" where
  "xray_path c c' t = follow obj_proxy (drop (length (cx_xrayOutbounds c)) (cx_xrayOutbounds c')) t"

definition sing_path :: "build_context \<Rightarrow> build_context \<Rightarrow> string \<Rightarrow> jobject list" where
  "sing_path c c' t = follow obj_detour (new_objects c c') t"

lemma list_all2_snocD: "list_all2 P (xs @ [x]) ys \<Longrightarrow> list_all2 P xs (butlast ys) \<and> P x (last ys) \<and> ys \<noteq> []"
  by (auto simp: list_all2_append1 list_all2_Cons1)

lemma built_paths:
  assumes b: "chain_built E req c c' lead xs tail b1 b2" and ok: "request_ok req" "cr_hopIDs req \<noteq> []"
    and plain: "\<forall>e \<in> set (lead @ xs @ tail). plain_hop E e"
  shows "realises (fst \<circ> Build E) (lead_run lead xs b1) (sing_path c c' (ingress_tag req))"
    "xs \<noteq> [] \<Longrightarrow> realises (fst \<circ> BuildXray E) xs (take (length xs) (xray_path c c' (ingress_tag req))) \<and>
       drop (length xs) (xray_path c c' (ingress_tag req)) =
       (if tail = [] then [] else [xray_bridge_outbound (hopTag (cr_prefix req) (cr_startSuffix req + int (length xs))) b2])"
    "tail \<noteq> [] \<Longrightarrow> realises (fst \<circ> Build E) tail (sing_path c c' (sing_tag (tail_opts req (lead_run lead xs b1)) 0))"
proof -
  let ?L = "sing_objects E (leading_opts req) 0 (lead_run lead xs b1)"
  let ?T = "sing_objects E (tail_opts req (lead_run lead xs b1)) 0 tail"
  have em: "emits (?L @ ?T) c c'" using b by (simp add: chain_built_def)
  have ne: "lead_run lead xs b1 \<noteq> []" by (rule chain_lengths(3) [OF b ok(2)])
  have d: "distinct (map (obj_tag \<circ> snd) (?L @ ?T))"
    using chain_tags_distinct [OF ok(1), of E lead xs b1 tail] by (simp add: chain_objects_def)
  note D = new_objects_distinct [OF em d] and S = set_new_objects [OF em]
  have pl: "\<forall>e \<in> set (lead_run lead xs b1). plain_hop E e" "\<forall>e \<in> set tail. plain_hop E e" "\<forall>e \<in> set xs. plain_hop E e"
    using plain by (auto simp: lead_run_def)
  have lk: "linked obj_detour (map snd ?L)" "linked obj_detour (map snd ?T)"
    using leading_ok [OF b ok(1)] pl
    by (auto intro!: sing_objects_linked)
  have hd: "hd (map snd os) = snd (hd os)" if "os \<noteq> []" for os :: "(bool \<times> jobject) list"
    using that by (cases os) simp_all
  have "ingress_tag req = obj_tag (hd (map snd ?L))"
    using sing_objects_hd [OF ne, where E = E and opts = "leading_opts req" and idx = 0] ne
    by (simp add: hd leading_tag ingress_tag_def)
  then have "sing_path c c' (ingress_tag req) = map snd ?L"
    unfolding sing_path_def using lk(1) ne S D d by (intro follow_run) auto
  then show "realises (fst \<circ> Build E) (lead_run lead xs b1) (sing_path c c' (ingress_tag req))"
    using sing_objects_carry by (simp add: realises_def)
  show "realises (fst \<circ> Build E) tail (sing_path c c' (sing_tag (tail_opts req (lead_run lead xs b1)) 0))" if t: "tail \<noteq> []"
  proof -
    have "sing_tag (tail_opts req (lead_run lead xs b1)) 0 = obj_tag (hd (map snd ?T))"
      using sing_objects_hd [OF t, where E = E and opts = "tail_opts req (lead_run lead xs b1)" and idx = 0] t by (simp add: hd)
    then have "sing_path c c' (sing_tag (tail_opts req (lead_run lead xs b1)) 0) = map snd ?T"
      unfolding sing_path_def using lk(2) t S D d by (intro follow_run) auto
    then show ?thesis using sing_objects_carry by (simp add: realises_def)
  qed
  assume x: "xs \<noteq> []"
  let ?X = "xray_objects E (leading_opts req) b2 0 xs"
  have news: "drop (length (cx_xrayOutbounds c)) (cx_xrayOutbounds c') = ?X"
    using b x by (simp add: chain_built_def)
  have b2: "br_needed b2 \<longleftrightarrow> tail \<noteq> []"
  proof -
    have "if tail = [] then b2 = no_bridge else b2 = bridge_at (br_port b2) (br_auth b2)"
      using b by (auto simp: chain_built_def)
    then show ?thesis by (cases "tail = []") (simp add: no_bridge_def, metis bridge_at_def coreBridgeConfig.select_convs(1))
  qed
  have st: "0 \<le> ho_startSuffix (leading_opts req)" using ok(1) by (simp add: request_ok_def leading_opts_def)
  have one: "ho_link (leading_opts req) \<or> br_needed b2 \<or> length xs + 0 \<le> 1"
    using ok(1) chain_lengths(1) [OF b] by (auto simp: request_ok_def leading_opts_def)
  have l: "linked obj_proxy ?X" using xray_objects_linked [OF st one pl(3)] x by simp
  have dx: "distinct (map obj_tag ?X)" by (rule xray_objects_distinct [OF st x])
  have tx: "ingress_tag req = obj_tag (hd ?X)"
    by (simp add: xray_objects_hd [OF x] xray_ingress)
  have nx: "?X \<noteq> []" using x by (cases xs) simp_all
  have p: "xray_path c c' (ingress_tag req) = ?X"
    unfolding xray_path_def news by (rule follow_run [OF l nx subset_refl dx dx tx])
  show "realises (fst \<circ> BuildXray E) xs (take (length xs) (xray_path c c' (ingress_tag req))) \<and>
       drop (length xs) (xray_path c c' (ingress_tag req)) =
       (if tail = [] then [] else [xray_bridge_outbound (hopTag (cr_prefix req) (cr_startSuffix req + int (length xs))) b2])"
    unfolding p realises_def using xray_objects_carry [of E xs "leading_opts req" b2 0]
    by (simp add: xray_objects_drop b2) (simp add: leading_opts_def)
qed

subsection \<open>Hops in order\<close>

text \<open>
  C3: When a chain is built without an error, the traffic that enters at the returned tag crosses
  exactly the requested hops in the requested order: the detours visit the sing-box hops before
  Xray and then the bridge into Xray, the proxy settings visit the Xray hops and then the bridge
  back, and the detours from that bridge's tag visit the rest. Both bridges dial the port that is
  recorded for their inbound. No hop may be a custom outbound whose own JSON carries a detour.
\<close>

theorem chain_hops_in_order:
  assumes "buildOutboundChain E req c = (t, c')" "cx_error c' = []"
    and "request_ok req" "cr_hopIDs req \<noteq> []" "hops_plain E (cr_hopIDs req)"
  shows "\<exists>hops lead xs tail. those (map (hop_of E) (cr_hopIDs req)) = Some hops \<and>
    map pr_id (lead @ xs @ tail) = map pr_id hops \<and> three_runs lead xs tail \<and>
    (if xs = [] then realises (fst \<circ> Build E) lead (sing_path c c' t)
     else realises (fst \<circ> Build E) lead (butlast (sing_path c c' t)) \<and>
       realises (fst \<circ> BuildXray E) xs (take (length xs) (xray_path c c' t)) \<and>
       cx_xrayIngressTags c' = cx_xrayIngressTags c @ [t] \<and>
       (\<exists>b1. cx_singToXrayBridges c' = cx_singToXrayBridges c @ [b1] \<and> dials_bridge b1 (last (sing_path c c' t))) \<and>
       (if tail = [] then drop (length xs) (xray_path c c' t) = []
        else \<exists>b2 t2 ob. cx_xrayToSingBridges c' = cx_xrayToSingBridges c @ [b2] \<and>
          cx_singIngressTags c' = cx_singIngressTags c @ [t2] \<and>
          drop (length xs) (xray_path c c' t) = [ob] \<and> xray_dials_bridge b2 ob \<and>
          realises (fst \<circ> Build E) tail (sing_path c c' t2)))"
proof -
  obtain lead xs tail b1 b2 where b: "chain_built E req c c' lead xs tail b1 b2"
    using chain_success [of E req c] assms(1,2) by auto
  have t: "t = ingress_tag req" using assms(1) by (simp add: buildOutboundChain_def)
  obtain hops where h: "those (map (hop_of E) (cr_hopIDs req)) = Some hops" "map pr_id (lead @ xs @ tail) = map pr_id hops"
      "\<forall>e \<in> set (lead @ xs @ tail). plain_hop E e"
    using built_hops [OF b assms(5)] .
  note P = built_paths [OF b assms(3,4) h(3), folded t]
  have r: "three_runs lead xs tail" "cx_xrayIngressTags c' = cx_xrayIngressTags c @ (if xs = [] then [] else [t])"
      "cx_singToXrayBridges c' = cx_singToXrayBridges c @ (if xs = [] then [] else [b1])"
      "cx_xrayToSingBridges c' = cx_xrayToSingBridges c @ (if tail = [] then [] else [b2])"
      "cx_singIngressTags c' = cx_singIngressTags c @ (if tail = [] then [] else [sing_tag (tail_opts req (lead_run lead xs b1)) 0])"
      "xs \<noteq> [] \<longrightarrow> 0 < br_port b1 \<and> b1 = bridge_at (br_port b1) (br_auth b1)"
    using b by (simp_all add: chain_built_def t)
  have "xs \<noteq> [] \<Longrightarrow> br_host b1 \<noteq> []" using r(6) by (metis bridge_at_def coreBridgeConfig.select_convs(4) list.distinct(1))
  then have lead: "xs \<noteq> [] \<Longrightarrow> realises (fst \<circ> Build E) lead (butlast (sing_path c c' t)) \<and> dials_bridge b1 (last (sing_path c c' t))"
    using P(1) list_all2_snocD [of _ lead "socks_bridge_profile b1" "sing_path c c' t"] socks_bridge_dials r(6)
    by (auto simp: realises_def lead_run_def)
  show ?thesis
  proof (intro exI conjI)
    show "those (map (hop_of E) (cr_hopIDs req)) = Some hops" "map pr_id (lead @ xs @ tail) = map pr_id hops"
      "three_runs lead xs tail" by fact+
  qed (use P lead r xray_bridge_dials in \<open>auto simp: lead_run_def\<close>)
qed

definition demo_chain_request :: chain_request where
  "demo_chain_request = (chain_request_for [1, 2, 3] ''route'')\<lparr>cr_startSuffix := 4\<rparr>"

definition demo_context :: build_context where
  "demo_context = new_context (demo_hop 1 ''shadowsocks'' OtherOb)"

theorem chain_hops_in_order_witness:
  "\<exists>hops lead xs tail. those (map (hop_of demo_gen) [1, 2, 3]) = Some hops \<and>
    map pr_id (lead @ xs @ tail) = map pr_id hops \<and> three_runs lead xs tail"
proof -
  have "cx_error (snd (buildOutboundChain demo_gen demo_chain_request demo_context)) = []"
    "request_ok demo_chain_request" "hops_plain demo_gen (cr_hopIDs demo_chain_request)"
    by code_simp+
  moreover have "cr_hopIDs demo_chain_request = [1, 2, 3]"
    by (simp add: demo_chain_request_def chain_request_for_def)
  ultimately show ?thesis
    using chain_hops_in_order [OF surjective_pairing, of demo_gen demo_chain_request demo_context]
    by (metis list.distinct(1))
qed

subsection \<open>Bridges counted in advance\<close>

lemma bridges_loop_hops:
  assumes "those (map (hop_of E) ids) = Some hops" "warpProfileID \<notin> set ids" "\<forall>e \<in> set hops. pr_outbound e \<noteq> None"
  shows "bridges_loop E ids b m = m
    \<lparr>mb_singToXray := (mb_singToXray m \<or> enters b (map is_xray hops)),
     mb_xrayToSing := (mb_xrayToSing m \<or> leaves b (map is_xray hops)),
     mb_xrayFullConfig := (mb_xrayFullConfig m \<or> list_ex isXrayFullConfig hops)\<rparr>"
  using assms
proof (induction ids arbitrary: b m hops)
  case (Cons i ids)
  obtain e hs where e: "hop_of E i = Some e" "hops = e # hs" "those (map (hop_of E) ids) = Some hs"
    using Cons.prems(1) by (auto split: option.splits)
  have "profile_of E i = Some e" using hop_of_Some [OF e(1)] Cons.prems(2) by auto
  moreover obtain ob where "pr_outbound e = Some ob" using Cons.prems(3) e(2) by auto
  ultimately show ?case
    using Cons.IH [OF e(3), of "IsXray ob"] Cons.prems(2,3) e(2)
    by (auto simp: Let_def is_xray_def isXrayFullConfig_def asks_def)
qed simp

lemma bridged_fields: "bridged e e' \<Longrightarrow> isXrayFullConfig e' = isXrayFullConfig e"
  by (auto simp: bridged_def put_custom_def isXrayFullConfig_def asks_def IsXrayFullConfig_def Custom_def
      split: option.splits outbound_class.splits)

text \<open>The count of \<^verbatim>\<open>bridgesFor\<close> against the runs the builder finds.\<close>

lemma bridges_counted:
  assumes "those (map (hop_of E) ids) = Some hops" "accepted_chain hops" "warpProfileID \<notin> set ids"
    and "\<And>i p. profile_of E i = Some p \<Longrightarrow> pr_outbound p \<noteq> None" "three_runs lead xs tail"
    and "hops = lead @ xs @ tail \<or> (hops \<noteq> [] \<and> xs = [] \<and> isXrayFullConfig (last hops) \<and>
        bridged (last hops) (last lead) \<and> lead = butlast hops @ [last lead])"
  shows "mb_singToXray (bridgesFor E ids) \<longleftrightarrow> xs \<noteq> []" "mb_xrayToSing (bridgesFor E ids) \<longleftrightarrow> tail \<noteq> []"
    "mb_xrayFullConfig (bridgesFor E ids) \<longleftrightarrow> hops \<noteq> [] \<and> isXrayFullConfig (last hops)"
proof -
  have "\<forall>e \<in> set hops. pr_outbound e \<noteq> None"
  proof
    fix e assume "e \<in> set hops"
    then obtain i where "i \<in> set ids" "hop_of E i = Some e" using those_in [OF assms(1)] by blast
    moreover from this have "i \<noteq> warpProfileID" using assms(3) by auto
    ultimately have "profile_of E i = Some e" using hop_of_Some by blast
    then show "pr_outbound e \<noteq> None" by (rule assms(4))
  qed
  note B = bridges_loop_hops [OF assms(1) assms(3) this, of False
      "\<lparr>mb_singToXray = False, mb_xrayToSing = False, mb_xrayFullConfig = False\<rparr>", folded bridgesFor_def]
  have kinds: "enters False (map is_xray hops) \<longleftrightarrow> xs \<noteq> []" "leaves False (map is_xray hops) \<longleftrightarrow> tail \<noteq> []"
  proof -
    have "map is_xray hops = map is_xray (lead @ xs @ tail)"
      using assms(6)
    proof
      assume f: "hops \<noteq> [] \<and> xs = [] \<and> isXrayFullConfig (last hops) \<and>
        bridged (last hops) (last lead) \<and> lead = butlast hops @ [last lead]"
      then obtain l where l: "lead = butlast hops @ [l]" "bridged (last hops) l" by metis
      have "map is_xray (butlast hops @ [l]) = map is_xray (butlast hops @ [last hops])"
        using bridged_kind [OF l(2)] by simp
      then show ?thesis using f l(1) assms(5) by (simp add: three_runs_def)
    qed simp
    then show "enters False (map is_xray hops) \<longleftrightarrow> xs \<noteq> []" "leaves False (map is_xray hops) \<longleftrightarrow> tail \<noteq> []"
      using enters_runs [OF assms(5)] leaves_runs [OF assms(5)] by simp_all
  qed
  have full: "list_ex isXrayFullConfig hops \<longleftrightarrow> hops \<noteq> [] \<and> isXrayFullConfig (last hops)"
  proof
    assume "list_ex isXrayFullConfig hops"
    then obtain i where "i < length hops" "isXrayFullConfig (hops ! i)" by (auto simp: list_ex_iff in_set_conv_nth)
    moreover from this have "i = length hops - 1" using assms(2) by (auto simp: accepted_chain_def only_last_def)
    moreover from calculation have "hops \<noteq> []" by auto
    ultimately show "hops \<noteq> [] \<and> isXrayFullConfig (last hops)" by (simp add: last_conv_nth)
  next
    assume "hops \<noteq> [] \<and> isXrayFullConfig (last hops)"
    then show "list_ex isXrayFullConfig hops" unfolding list_ex_iff using last_in_set by blast
  qed
  show "mb_singToXray (bridgesFor E ids) \<longleftrightarrow> xs \<noteq> []" "mb_xrayToSing (bridgesFor E ids) \<longleftrightarrow> tail \<noteq> []"
    "mb_xrayFullConfig (bridgesFor E ids) \<longleftrightarrow> hops \<noteq> [] \<and> isXrayFullConfig (last hops)"
    by (simp_all add: B kinds full)
qed

end
