(* ===== verification/Cidr.thy ===== *)
theory Cidr
  imports Json
begin

text \<open>
  Network prefixes as \<^verbatim>\<open>src/configs/generate.cpp\<close> handles them: a prefix in raw byte form, the
  test whether one contains another, and the splitting of ranges around a hole that has to stay
  routed. Reading and printing addresses is Qt's (\<^verbatim>\<open>QHostAddress\<close>): the record \<open>host_env\<close>.
\<close>

unbundle bit_operations_syntax

datatype host_address = IPv4 u32 | IPv6 bytes | OtherProtocol

record host_env =
  he_parseSubnet :: "string \<Rightarrow> host_address \<times> int" \<comment> \<open>second component -1 when unparseable\<close>
  he_toString :: "host_address \<Rightarrow> string"

record rawPrefix =
  rp_addr :: bytes
  rp_bits :: int

definition no_prefix :: rawPrefix where
  "no_prefix = \<lparr>rp_addr = [], rp_bits = -1\<rparr>"

definition v4_bytes :: "u32 \<Rightarrow> bytes" where
  "v4_bytes v4 = map (\<lambda>i. ucast (drop_bit (24 - 8 * i) v4 AND 0xFF)) [0, 1, 2, 3]"

definition v4_of_bytes :: "bytes \<Rightarrow> u32" where
  "v4_of_bytes addr = fold (\<lambda>i v4. push_bit 8 v4 OR ucast (addr ! i)) [0, 1, 2, 3] 0"

definition parsePrefix :: "host_env \<Rightarrow> string \<Rightarrow> rawPrefix" where
  "parsePrefix E cidr = (case he_parseSubnet E cidr of (host, len) \<Rightarrow>
     if len < 0 then no_prefix
     else case host of
       IPv4 v4 \<Rightarrow> \<lparr>rp_addr = v4_bytes v4, rp_bits = len\<rparr>
     | IPv6 v6 \<Rightarrow> \<lparr>rp_addr = v6, rp_bits = len\<rparr>
     | OtherProtocol \<Rightarrow> no_prefix)"

definition prefixToString :: "host_env \<Rightarrow> rawPrefix \<Rightarrow> string" where
  "prefixToString E p =
     (let host = (if length (rp_addr p) = 4 then IPv4 (v4_of_bytes (rp_addr p)) else IPv6 (rp_addr p))
      in he_toString E host @ ''/'' @ number (rp_bits p))"

text \<open>\<^verbatim>\<open>isInSubnet\<close> belongs to Qt as well; only the choice of the wider operand is the code's.\<close>

definition prefixesOverlap ::
  "host_env \<Rightarrow> (host_address \<Rightarrow> host_address \<Rightarrow> int \<Rightarrow> bool) \<Rightarrow> string \<Rightarrow> string \<Rightarrow> bool" where
  "prefixesOverlap E isInSubnet lhs rhs =
     (let a = he_parseSubnet E lhs; b = he_parseSubnet E rhs in
      if snd a < 0 \<or> snd b < 0 then False
      else if (case (fst a, fst b) of (IPv4 _, IPv4 _) \<Rightarrow> False | (IPv6 _, IPv6 _) \<Rightarrow> False
                 | (OtherProtocol, OtherProtocol) \<Rightarrow> False | _ \<Rightarrow> True) then False
      else if snd a \<le> snd b then isInSubnet (fst b) (fst a) (snd a)
      else isInSubnet (fst a) (fst b) (snd b))"

definition prefixContains :: "rawPrefix \<Rightarrow> rawPrefix \<Rightarrow> bool" where
  "prefixContains outer inner =
     (if rp_bits outer < 0 \<or> rp_bits inner < 0 then False
      else if length (rp_addr outer) \<noteq> length (rp_addr inner) \<or> rp_bits outer > rp_bits inner then False
      else let wholeBytes = nat (rp_bits outer) div 8 in
        if take wholeBytes (rp_addr outer) \<noteq> take wholeBytes (rp_addr inner) then False
        else let restBits = nat (rp_bits outer) mod 8 in
          if restBits = 0 then True
          else let m = push_bit (8 - restBits) 0xFF :: 8 word in
            (rp_addr outer ! wholeBytes) AND m = (rp_addr inner ! wholeBytes) AND m)"

definition flip_bit :: "nat \<Rightarrow> bytes \<Rightarrow> bytes" where
  "flip_bit i addr = addr[i div 8 := (addr ! (i div 8)) XOR drop_bit (i mod 8) 0x80]"

definition clear_bit :: "nat \<Rightarrow> bytes \<Rightarrow> bytes" where
  "clear_bit i addr = addr[i div 8 := (addr ! (i div 8)) AND NOT (drop_bit (i mod 8) 0x80)]"

definition sibling :: "rawPrefix \<Rightarrow> nat \<Rightarrow> rawPrefix" where
  "sibling cutp bits =
     (let addr = flip_bit (bits - 1) (rp_addr cutp)
      in \<lparr>rp_addr = fold clear_bit [bits..<length addr * 8] addr, rp_bits = int bits\<rparr>)"

definition subtract_one :: "host_env \<Rightarrow> rawPrefix \<Rightarrow> string \<Rightarrow> string list" where
  "subtract_one E cutp entry =
     (let range = parsePrefix E entry in
      if prefixContains cutp range then []
      else if \<not> prefixContains range cutp then [entry]
      else map (\<lambda>bits. prefixToString E (sibling cutp bits))
             [nat (rp_bits range) + 1..<nat (rp_bits cutp) + 1])"

definition subtractPrefix :: "host_env \<Rightarrow> string list \<Rightarrow> string \<Rightarrow> string list" where
  "subtractPrefix E ranges hole =
     (let cutp = parsePrefix E hole in
      if rp_bits cutp < 0 then ranges else concat (map (subtract_one E cutp) ranges))"

subsection \<open>Bits of an address, the most significant of the first byte first\<close>

definition addr_bit :: "bytes \<Rightarrow> nat \<Rightarrow> bool" where
  "addr_bit addr i = bit (addr ! (i div 8)) (7 - i mod 8)"

text \<open>The addresses a prefix stands for.\<close>

definition in_prefix :: "rawPrefix \<Rightarrow> bytes \<Rightarrow> bool" where
  "in_prefix p a \<longleftrightarrow> 0 \<le> rp_bits p \<and> length a = length (rp_addr p) \<and>
     (\<forall>i < nat (rp_bits p). addr_bit a i = addr_bit (rp_addr p) i)"

definition prefix_ok :: "rawPrefix \<Rightarrow> bool" where
  "prefix_ok p \<longleftrightarrow> rp_bits p < 0 \<or>
     (length (rp_addr p) = 4 \<or> length (rp_addr p) = 16) \<and> nat (rp_bits p) \<le> 8 * length (rp_addr p)"

lemma bit_0x80: "bit (drop_bit r (0x80 :: 8 word)) n \<longleftrightarrow> n + r = 7"
proof -
  have "(0x80 :: 8 word) = 2 ^ 7" by simp
  then show ?thesis by (simp only: bit_drop_bit_eq comp_def bit_exp_iff) (auto simp: possible_bit_word)
qed

lemma same_bit: "i div 8 = j div 8 \<Longrightarrow> 7 - i mod 8 + j mod 8 = 7 \<longleftrightarrow> i = j" for i j :: nat
proof -
  assume d: "i div 8 = j div 8"
  have "i mod 8 < 8" "j mod 8 < 8" by simp_all
  then have "7 - i mod 8 + j mod 8 = 7 \<longleftrightarrow> i mod 8 = j mod 8" by linarith
  with d show ?thesis by (metis div_mult_mod_eq)
qed

lemma byte_index: "i < 8 * n \<Longrightarrow> i div 8 < n" for i n :: nat
  by (simp add: less_mult_imp_div_less mult.commute)

lemma addr_bit_flip:
  assumes "i < 8 * length addr" and "j < 8 * length addr"
  shows "addr_bit (flip_bit j addr) i = (if i = j then \<not> addr_bit addr i else addr_bit addr i)"
proof (cases "i div 8 = j div 8")
  case True
  moreover have "7 - i mod 8 < 8" by simp
  ultimately show ?thesis
    using byte_index [OF assms(2)] same_bit [OF True]
    by (simp add: addr_bit_def flip_bit_def bit_xor_iff bit_0x80)
next
  case False
  then have "i \<noteq> j" by auto
  with False show ?thesis by (simp add: addr_bit_def flip_bit_def)
qed

lemma addr_bit_clear:
  assumes "i < 8 * length addr" and "j < 8 * length addr"
  shows "addr_bit (clear_bit j addr) i = (i \<noteq> j \<and> addr_bit addr i)"
proof (cases "i div 8 = j div 8")
  case True
  moreover have "7 - i mod 8 < 8" by simp
  ultimately show ?thesis
    using byte_index [OF assms(2)] same_bit [OF True]
    by (simp add: addr_bit_def clear_bit_def bit_and_iff bit_not_iff bit_0x80 possible_bit_word) blast
next
  case False
  then have "i \<noteq> j" by auto
  with False show ?thesis by (simp add: addr_bit_def clear_bit_def)
qed

lemma length_bits [simp]: "length (flip_bit i addr) = length addr" "length (clear_bit i addr) = length addr"
  by (simp_all add: flip_bit_def clear_bit_def)

lemma length_clear_bits [simp]: "length (fold clear_bit is addr) = length addr"
  by (induction "is" arbitrary: addr) simp_all

lemma addr_bit_clear_all:
  assumes "i < 8 * length addr" and "\<forall>j \<in> set is. j < 8 * length addr"
  shows "addr_bit (fold clear_bit is addr) i = (i \<notin> set is \<and> addr_bit addr i)"
  using assms by (induction "is" arbitrary: addr) (auto simp: addr_bit_clear)

lemma sibling_simps [simp]:
  "rp_bits (sibling cutp bits) = int bits" "length (rp_addr (sibling cutp bits)) = length (rp_addr cutp)"
  by (simp_all add: sibling_def Let_def)

lemma sibling_bit:
  assumes "0 < bits" and "bits \<le> 8 * length (rp_addr cutp)" and "i < bits"
  shows "addr_bit (rp_addr (sibling cutp bits)) i =
    (if i = bits - 1 then \<not> addr_bit (rp_addr cutp) i else addr_bit (rp_addr cutp) i)"
proof -
  have "addr_bit (rp_addr (sibling cutp bits)) i = addr_bit (flip_bit (bits - 1) (rp_addr cutp)) i"
    using assms by (simp add: sibling_def Let_def addr_bit_clear_all mult.commute)
  then show ?thesis using assms by (simp add: addr_bit_flip)
qed

lemma take_bytes:
  assumes "w \<le> length a" and "length a = length b"
  shows "take w a = take w b \<longleftrightarrow> (\<forall>i < 8 * w. addr_bit a i = addr_bit b i)"
proof
  assume eq: "take w a = take w b"
  show "\<forall>i < 8 * w. addr_bit a i = addr_bit b i"
  proof (intro allI impI)
    fix i assume "i < 8 * w"
    then have "a ! (i div 8) = b ! (i div 8)" using eq byte_index by (metis nth_take)
    then show "addr_bit a i = addr_bit b i" by (simp add: addr_bit_def)
  qed
next
  assume bits: "\<forall>i < 8 * w. addr_bit a i = addr_bit b i"
  have "a ! k = b ! k" if "k < w" for k
  proof (rule bit_word_eqI)
    fix n assume "n < LENGTH(8)"
    then have n: "n < 8" by simp
    with that have "8 * k + (7 - n) < 8 * w" by linarith
    with bits have "addr_bit a (8 * k + (7 - n)) = addr_bit b (8 * k + (7 - n))" by blast
    moreover have "(8 * k + (7 - n)) div 8 = k" "(8 * k + (7 - n)) mod 8 = 7 - n" by simp_all
    ultimately show "bit (a ! k) n = bit (b ! k) n" using n unfolding addr_bit_def by simp
  qed
  with assms show "take w a = take w b" by (intro nth_equalityI) auto
qed

lemma bit_high_mask: "bit (push_bit (8 - r) 0xFF :: 8 word) n \<longleftrightarrow> 8 - r \<le> n \<and> n < 8"
proof -
  have "(0xFF :: 8 word) = mask 8" by (simp add: mask_eq_exp_minus_1)
  then show ?thesis
    by (simp only: bit_push_bit_iff bit_mask_iff possible_bit_word) auto
qed

lemma high_bits:
  assumes "r < 8"
  shows "x AND push_bit (8 - r) 0xFF = y AND push_bit (8 - r) 0xFF \<longleftrightarrow> (\<forall>j < r. bit x (7 - j) = bit (y :: 8 word) (7 - j))"
proof
  assume eq: "x AND push_bit (8 - r) 0xFF = y AND push_bit (8 - r) 0xFF"
  show "\<forall>j < r. bit x (7 - j) = bit y (7 - j)"
  proof (intro allI impI)
    fix j assume "j < r"
    then have "bit (push_bit (8 - r) 0xFF :: 8 word) (7 - j)" using assms unfolding bit_high_mask by linarith
    with eq show "bit x (7 - j) = bit y (7 - j)" by (metis bit_and_iff)
  qed
next
  assume bits: "\<forall>j < r. bit x (7 - j) = bit y (7 - j)"
  show "x AND push_bit (8 - r) 0xFF = y AND push_bit (8 - r) 0xFF"
  proof (rule bit_word_eqI)
    fix n assume "n < LENGTH(8)"
    then have n: "n < 8" by simp
    have "bit x n = bit y n" if "8 - r \<le> n"
    proof -
      have "7 - n < r" using that n assms by linarith
      with bits have "bit x (7 - (7 - n)) = bit y (7 - (7 - n))" by blast
      with n show ?thesis by simp
    qed
    then show "bit (x AND push_bit (8 - r) 0xFF) n = bit (y AND push_bit (8 - r) 0xFF) n"
      unfolding bit_and_iff bit_high_mask by blast
  qed
qed

lemma split_bits:
  "(\<forall>i < 8 * w + r. P i) \<longleftrightarrow> (\<forall>i < 8 * w. P i) \<and> (\<forall>j < r. P (8 * w + j))" for w r :: nat
proof -
  have "P i" if "\<forall>i < 8 * w. P i" "\<forall>j < r. P (8 * w + j)" "i < 8 * w + r" for i
  proof (cases "i < 8 * w")
    case True
    with that(1) show ?thesis by blast
  next
    case False
    then obtain j where "i = 8 * w + j" by (metis le_add_diff_inverse not_less)
    with that(2,3) show ?thesis by simp
  qed
  then show ?thesis by auto
qed

lemma prefixContains_bits:
  assumes "prefix_ok outer"
  shows "prefixContains outer inner \<longleftrightarrow> 0 \<le> rp_bits outer \<and> rp_bits outer \<le> rp_bits inner \<and>
    length (rp_addr inner) = length (rp_addr outer) \<and>
    (\<forall>i < nat (rp_bits outer). addr_bit (rp_addr outer) i = addr_bit (rp_addr inner) i)"
proof (cases "0 \<le> rp_bits outer \<and> rp_bits outer \<le> rp_bits inner \<and> length (rp_addr inner) = length (rp_addr outer)")
  case False
  then show ?thesis by (auto simp: prefixContains_def)
next
  case True
  define w r where "w = nat (rp_bits outer) div 8" and "r = nat (rp_bits outer) mod 8"
  have b: "nat (rp_bits outer) = 8 * w + r" and r: "r < 8" by (simp_all add: w_def r_def)
  have w: "w \<le> length (rp_addr outer)" using assms True b unfolding prefix_ok_def by linarith
  have "prefixContains outer inner \<longleftrightarrow> take w (rp_addr outer) = take w (rp_addr inner) \<and>
      (r = 0 \<or> (rp_addr outer ! w) AND push_bit (8 - r) 0xFF = (rp_addr inner ! w) AND push_bit (8 - r) 0xFF)"
    using True by (auto simp: prefixContains_def Let_def w_def [symmetric] r_def [symmetric])
  also have "\<dots> \<longleftrightarrow> (\<forall>i < 8 * w. addr_bit (rp_addr outer) i = addr_bit (rp_addr inner) i) \<and>
      (\<forall>j < r. addr_bit (rp_addr outer) (8 * w + j) = addr_bit (rp_addr inner) (8 * w + j))"
    using r w True high_bits [OF r] by (auto simp: take_bytes addr_bit_def)
  finally show ?thesis using True by (simp add: b split_bits)
qed

end
