(* ===== verification/PrereqBuild.thy ===== *)
theory PrereqBuild
  imports GenContext Cidr
begin

text \<open>
  What a build collects before any section is written, \<^verbatim>\<open>calculatePrerequisites\<close>
  (\<^verbatim>\<open>src/configs/generate.cpp\<close> 556 to 791): which profiles the route profile needs and the tag each
  of them will get, the auxiliary endpoints, the selectors that DNS and Tun have to carve out, and
  the extra core. The settings of the sections that follow are declared here with the rest of the
  environment; translated messages are written untranslated.
\<close>

subsection \<open>Settings of the sections\<close>

record dns_settings =
  dn_underlying_dns :: string
  dn_use_dns_object :: bool
  dn_dns_object :: string
  dn_remote_dns :: string
  dn_direct_dns :: string
  dn_remote_strategy :: string
  dn_direct_strategy :: string
  dn_predefined_enable :: bool
  dn_predefined_rules :: "string list"
  dn_use_hosts :: bool
  dn_v4_resp :: string
  dn_v6_resp :: string
  dn_fake_dns :: bool
  dn_final_out :: string
  dn_cache_capacity :: int
  dn_disable_cache :: bool
  dn_disable_expire :: bool
  dn_reverse_mapping :: bool
  dn_query_timeout :: string
  dn_optimistic :: bool
  dn_optimistic_timeout :: string

record inbound_settings =
  in_disable_mixed :: bool
  in_address :: string
  in_socks_port :: int
  in_auth :: bool
  in_user :: string
  in_pass :: string
  in_vpn_mtu :: int
  in_vpn_implementation :: string
  in_vpn_strict_route :: bool
  in_vpn_auto_redirect :: bool
  in_tun_ipv4 :: string
  in_tun_ipv6 :: string
  in_vpn_ipv6 :: bool
  in_enable_tun_routing :: bool
  in_core_dns_port :: int
  in_redirect_address :: string
  in_redirect_port :: int
  in_dns_server_lan :: bool
  in_dns_server_port :: int
  in_custom_inbound :: string

record misc_settings =
  ms_enable_ntp :: bool
  ms_ntp_server :: string
  ms_ntp_port :: int
  ms_ntp_interval :: string
  ms_ntp_outbound :: string
  ms_mozilla_certs :: bool
  ms_disable_private_bypass :: bool
  ms_mirror :: int

record config_env = gen_env +
  ce_host :: host_env
  ce_inSubnet :: "host_address \<Rightarrow> host_address \<Rightarrow> int \<Rightarrow> bool"
  ce_dns :: dns_settings
  ce_inbounds :: inbound_settings
  ce_misc :: misc_settings
  ce_simplified :: "string \<Rightarrow> string"
  ce_setAddress :: "string \<Rightarrow> (string \<times> bool) option" \<comment> \<open>printed without scope, whether version 6\<close>
  ce_interfaces :: "(bool \<times> string \<times> string) list" \<comment> \<open>up, readable name, name\<close>
  ce_url :: "string \<Rightarrow> (string \<times> string \<times> string) option" \<comment> \<open>host, path, file name of a valid URL\<close>
  ce_ruleSetUrl :: "string \<Rightarrow> string" \<comment> \<open>the table compiled in, empty when absent\<close>
  ce_check :: "bool \<Rightarrow> jobject \<Rightarrow> bool \<times> string" \<comment> \<open>\<^verbatim>\<open>CheckConfig\<close> of the core: reached, complaint\<close>
  ce_tailscaleGlobalDNS :: "profile \<Rightarrow> bool option"

subsection \<open>Stages\<close>

text \<open>
  A stage answers whether the code returns in it. The error alone does not tell: \<open>getEntDomains\<close> may
  leave one behind and the code goes on when it has found no domain.
\<close>

type_synonym stage = "build_context \<Rightarrow> bool \<times> build_context"

definition stop_with :: "string \<Rightarrow> stage" where
  "stop_with err c = (True, c\<lparr>cx_error := err\<rparr>)"

definition and_then :: "stage \<Rightarrow> stage \<Rightarrow> stage" where
  "and_then s1 s2 c = (case s1 c of (stop, c') \<Rightarrow> if stop then (True, c') else s2 c')"

definition in_prereqs :: "(prerequisites \<Rightarrow> prerequisites) \<Rightarrow> build_context \<Rightarrow> build_context" where
  "in_prereqs f c = c\<lparr>cx_prerequisites := f (cx_prerequisites c)\<rparr>"

definition map_outbound :: "int \<Rightarrow> string \<Rightarrow> build_context \<Rightarrow> build_context" where
  "map_outbound i t = in_prereqs (\<lambda>q. q\<lparr>pq_outboundMap := (pq_outboundMap q)(i \<mapsto> t)\<rparr>)"

definition addDirectDomains :: "string list \<Rightarrow> build_context \<Rightarrow> build_context" where
  "addDirectDomains addrs = in_prereqs (\<lambda>q. q\<lparr>pq_direct := (pq_direct q)\<lparr>ds_domains := ds_domains (pq_direct q) @ addrs\<rparr>,
     pq_needDirectDnsRules := True\<rparr>)"

text \<open>The domains of some profiles, when there are any.\<close>

definition need_domains :: "'z gen_env_scheme \<Rightarrow> int list \<Rightarrow> stage" where
  "need_domains E ids c =
     (let (addrs, err) = getEntDomains E ids (cx_error c); c = c\<lparr>cx_error := err\<rparr>
      in if addrs = [] then (False, c) else if err \<noteq> [] then (True, c)
      else (False, addDirectDomains addrs c))"

definition note_xray :: "bool \<Rightarrow> build_context \<Rightarrow> build_context" where
  "note_xray b c = (if b then c\<lparr>cx_proxyUsesXray := True\<rparr> else c)"

subsection \<open>Outbounds of the route profile\<close>

definition terminal_kind :: "profile \<Rightarrow> bool" where
  "terminal_kind p \<longleftrightarrow> asks IsExtraCore p \<or> isCustomFullConfig p \<or> isXrayFullConfig p"

fun check_route_hops :: "'z gen_env_scheme \<Rightarrow> int list \<Rightarrow> stage" where
  "check_route_hops E [] c = (False, c)"
| "check_route_hops E (i # ids) c = (case profile_of E i of
     None \<Rightarrow> stop_with ''Chain outbound in routing profile contains a missing profile'' c
   | Some hop \<Rightarrow>
       if terminal_kind hop \<or> pr_type hop = ''chain'' then
         stop_with ''Chain hops in routing profile cannot use an extra core, a custom full config, or be of type chain'' c
       else and_then (need_domains E [i]) (check_route_hops E ids) (note_xray (usesXrayCore hop) c))"

definition add_route_group :: "int list \<Rightarrow> profile option \<Rightarrow> build_context \<Rightarrow> build_context" where
  "add_route_group ids w = in_prereqs (\<lambda>q. q\<lparr>pq_routeOutboundGroups :=
     pq_routeOutboundGroups q @ [\<lparr>rg_hopIDs = ids, rg_chainWrapper = w\<rparr>]\<rparr>)"

text \<open>One outbound: the stage, and how many tags it takes.\<close>

definition route_outbound :: "'z gen_env_scheme \<Rightarrow> int \<Rightarrow> nat \<Rightarrow> build_context \<Rightarrow> (bool \<times> build_context) \<times> nat" where
  "route_outbound E item suffix c = (case profile_of E item of
     None \<Rightarrow> (stop_with ''The routing profile is referencing outbounds that no longer exist, consider revising your settings'' c, 0)
   | Some needed \<Rightarrow>
       if terminal_kind needed then
         (stop_with ''Outbounds used in routing profile cannot use an extra core or be a custom full config'' c, 0)
       else if pr_type needed = ''chain'' then
         (case Chain needed of
            Some (i # ids) \<Rightarrow>
              (and_then (check_route_hops E (i # ids)) (\<lambda>c. (False,
                 add_route_group (rev (i # ids)) (Some needed)
                   (map_outbound item (hopTag routeChainPrefix (int suffix)) c))) c, length (i # ids))
          | _ \<Rightarrow> (stop_with ''Chain outbound in routing profile is empty or corrupted'' c, 0))
       else
         (and_then (need_domains E [pr_id needed]) (\<lambda>c. (False,
            add_route_group [item] None (map_outbound item (hopTag routeChainPrefix (int suffix)) c)))
            (note_xray (usesXrayCore needed) c), 1))"

fun route_outbounds :: "'z gen_env_scheme \<Rightarrow> int list \<Rightarrow> nat \<Rightarrow> stage" where
  "route_outbounds E [] suffix c = (False, c)"
| "route_outbounds E (item # items) suffix c =
     (if item < 0 then route_outbounds E items suffix c
      else case route_outbound E item suffix c of ((stop, c'), n) \<Rightarrow>
        if stop then (True, c') else route_outbounds E items (suffix + n) c')"

subsection \<open>Endpoints beside the started profile\<close>

definition listed_as :: "string \<Rightarrow> string \<Rightarrow> string" where
  "listed_as name rest = name @ '' is listed as a routing profile endpoint '' @ rest"

definition check_endpoint_hop :: "'z gen_env_scheme \<Rightarrow> string \<Rightarrow> int list \<Rightarrow> int \<Rightarrow> string" where
  "check_endpoint_hop E name used i = (case Option.bind (profile_of E i) (\<lambda>h. map_option (Pair h) (pr_outbound h)) of
     None \<Rightarrow> listed_as name ''but a hop of it no longer exists''
   | Some (hop, ob) \<Rightarrow>
       if terminal_kind hop \<or> pr_type hop = ''chain'' then
         ''Hops of the routing profile endpoint '' @ name @ '' cannot use an extra core, a full config, or be a chain''
       else if usesXrayCore hop then ''Hops of the routing profile endpoint '' @ name @ '' cannot run on the Xray core''
       else if i \<in> set used then ge_label E ob @
         '' is used as an endpoint of the routing profile and by the started profile at the same time, remove it from one of them''
       else [])"

fun check_endpoint_hops :: "'z gen_env_scheme \<Rightarrow> string \<Rightarrow> int list \<Rightarrow> int list \<Rightarrow> string" where
  "check_endpoint_hops E name used [] = []"
| "check_endpoint_hops E name used (i # ids) =
     (let err = check_endpoint_hop E name used i
      in if err \<noteq> [] then err else check_endpoint_hops E name used ids)"

text \<open>Why an endpoint cannot run beside the profile, or nothing.\<close>

definition endpoint_problem :: "'z gen_env_scheme \<Rightarrow> int list \<Rightarrow> int \<Rightarrow> string" where
  "endpoint_problem E used i = (case Option.bind (profile_of E i) pr_outbound of
     None \<Rightarrow> ''The routing profile lists an endpoint profile (id '' @ number i @ '') that no longer exists''
   | Some ob \<Rightarrow>
       let name = ge_label E ob; hops = unwrapChain (ro_profile E) i
       in if hops = [] then listed_as name ''but is empty or corrupted''
       else (case profile_of E (hd hops) of
          None \<Rightarrow> listed_as name ''but a hop of it no longer exists''
        | Some exit \<Rightarrow>
            if pr_outbound exit = None then listed_as name ''but a hop of it no longer exists''
            else if \<not> is_vpn exit then
              name @ '' is listed as a routing profile endpoint, so its last hop must be an OpenVPN or OpenConnect profile''
            else let err = check_endpoint_hops E name used hops
              in if err \<noteq> [] then err
              else if i \<in> set used then name @ '' is listed twice in the endpoints of the routing profile''
              else []))"

definition add_aux_group :: "int list \<Rightarrow> build_context \<Rightarrow> build_context" where
  "add_aux_group ids = in_prereqs (\<lambda>q. q\<lparr>pq_auxEndpointGroups := pq_auxEndpointGroups q @ [ids]\<rparr>)"

fun aux_endpoints :: "'z gen_env_scheme \<Rightarrow> int list \<Rightarrow> int list \<Rightarrow> nat \<Rightarrow> stage" where
  "aux_endpoints E [] used suffix c = (False, c)"
| "aux_endpoints E (i # is) used suffix c =
     (let err = endpoint_problem E used i; hops = unwrapChain (ro_profile E) i
      in if err \<noteq> [] then stop_with err c
      else aux_endpoints E is (used @ i # hops) (suffix + length hops)
             (map_outbound i (hopTag auxEndpointPrefix (int suffix)) (add_aux_group hops c)))"

text \<open>What the started profile and the route's outbounds occupy.\<close>

definition used_profiles :: "'z gen_env_scheme \<Rightarrow> build_context \<Rightarrow> int list" where
  "used_profiles E c =
     concat (map rg_hopIDs (pq_routeOutboundGroups (cx_prerequisites c))) @ unwrapChain (ro_profile E) (pr_id (cx_ent c))
     @ (case ge_groups E (pr_gid (cx_ent c)) of None \<Rightarrow> []
        | Some g \<Rightarrow> filter (\<lambda>i. 0 \<le> i) [gr_front_proxy_id g, gr_landing_proxy_id g])"

subsection \<open>All prerequisites\<close>

definition warp_missing :: "gen_settings \<Rightarrow> bool" where
  "warp_missing S \<longleftrightarrow> gs_enable_warp S \<and>
     (gs_warp_private_key S = [] \<or> gs_warp_public_key S = [] \<or> gs_warp_ep S = [] \<or> gs_warp_ifc_addrs S = [])"

definition reserved_outbounds :: "gen_settings \<Rightarrow> build_context \<Rightarrow> build_context" where
  "reserved_outbounds S c =
     map_outbound warpBypassID (if gs_enable_warp S then tag_warpBypass else tag_proxy)
       (map_outbound (-2) tag_direct (map_outbound (-1) tag_proxy c))"

definition aux_stage :: "'z gen_env_scheme \<Rightarrow> routeProfile \<Rightarrow> stage" where
  "aux_stage E P c = (if rt_endpointProfileIDs P = [] then (False, c)
     else aux_endpoints E (rt_endpointProfileIDs P) (used_profiles E c) 0 c)"

text \<open>Sites that keep their own DNS.\<close>

definition dns_selectors :: "routeProfile \<Rightarrow> build_context \<Rightarrow> build_context" where
  "dns_selectors P = in_prereqs (\<lambda>q.
     let direct = get_direct_sites P; proxy = get_proxy_sites P
     in q\<lparr>pq_direct := parseSelectorList direct (pq_direct q),
          pq_needDirectDnsRules := (pq_needDirectDnsRules q \<or> direct \<noteq> []),
          pq_proxy := parseSelectorList proxy (pq_proxy q),
          pq_needProxyDnsRules := (pq_needProxyDnsRules q \<or> proxy \<noteq> [])\<rparr>)"

text \<open>The started profile's own domains, then those of its group's landing and front proxies.\<close>

definition group_stage :: "'z gen_env_scheme \<Rightarrow> stage" where
  "group_stage E c = (case ge_groups E (pr_gid (cx_ent c)) of
     None \<Rightarrow> (False, c)
   | Some g \<Rightarrow>
       let ids = filter (\<lambda>i. 0 \<le> i) [gr_front_proxy_id g, gr_landing_proxy_id g];
           c = note_xray (any_uses_xray E ids) c;
           (addrs, err) = getEntDomains E ids (cx_error c);
           c = c\<lparr>cx_error := err\<rparr>
       in if err \<noteq> [] then (True, c)
       else (False, if addrs \<noteq> [] then addDirectDomains addrs c else c))"

definition hijack_selectors :: "gen_settings \<Rightarrow> build_context \<Rightarrow> build_context" where
  "hijack_selectors S = in_prereqs (\<lambda>q.
     let q = (if gs_enable_dns_server S then q\<lparr>pq_hijack := parseSelectorList (gs_dns_server_rules S) (pq_hijack q)\<rparr> else q)
     in q\<lparr>pq_neededRuleSets := fold append_new (ds_ruleSets (pq_hijack q)) (pq_neededRuleSets q)\<rparr>)"

definition hijacked_ranges :: "'z config_env_scheme \<Rightarrow> routeProfile \<Rightarrow> string set" where
  "hijacked_ranges E P = set (filter (\<lambda>range. list_ex (prefixesOverlap (ce_host E) (ce_inSubnet E) range) (get_hijacked_ips E P))
     (re_vpn_private_ranges E))"

definition tun_selectors :: "'z config_env_scheme \<Rightarrow> routeProfile \<Rightarrow> build_context \<Rightarrow> build_context" where
  "tun_selectors E P = in_prereqs (\<lambda>q.
     let ips = get_direct_ips P
     in q\<lparr>pq_directIPSets := pq_directIPSets q @ selected SelRuleSet ips,
          pq_directIPCIDRs := pq_directIPCIDRs q @ selected SelIp ips,
          pq_hijackedPrivateRanges := pq_hijackedPrivateRanges q \<union> hijacked_ranges E P\<rparr>)"

definition extra_core_stage :: "'z gen_env_scheme \<Rightarrow> stage" where
  "extra_core_stage E c = (case resolveExtraCoreProfile E (cx_ent c) of
     None \<Rightarrow> (True, c)
   | Some p \<Rightarrow> (case ge_extraCore E p of
       None \<Rightarrow> stop_with (''failed to cast to extracore, type is: '' @ pr_type p) c
     | Some (path, args, conf, quiet) \<Rightarrow> (False, in_result (\<lambda>r. r\<lparr>rs_extraCoreData :=
         \<lparr>ec_path = path, ec_args = args, ec_config = conf, ec_noLog = quiet\<rparr>\<rparr>) c)))"

text \<open>The l3 bridge and the outbounds that exist in every configuration.\<close>

definition begin_prerequisites :: "'z gen_env_scheme \<Rightarrow> routeProfile \<Rightarrow> stage" where
  "begin_prerequisites E P c =
     (let S = ge_settings E;
          c = c\<lparr>cx_l3Bridge := (l3BridgeEnabled E c \<and> \<not> (rt_isRaw P \<and> rt_preventModifications P))\<rparr>
      in if warp_missing S then
           stop_with ''Warp is enabled but its config has not been generated. Please generate the Warp config first in Routing Settings.'' c
         else (False, note_xray (proxyPathUsesXray E (cx_ent c)) (reserved_outbounds S c)))"

definition selectors_stage :: "'z config_env_scheme \<Rightarrow> routeProfile \<Rightarrow> stage" where
  "selectors_stage E P c =
     (let c = in_prereqs (\<lambda>q. q\<lparr>pq_neededRuleSets := pq_neededRuleSets q @ get_used_rule_sets P\<rparr>) c;
          c = (if gs_enable_dns_routing (ge_settings E) then dns_selectors P c else c)
      in and_then (need_domains E [pr_id (cx_ent c)]) (group_stage E) c)"

definition calculatePrerequisites :: "'z config_env_scheme \<Rightarrow> build_context \<Rightarrow> build_context" where
  "calculatePrerequisites E c =
     (let c = c\<lparr>cx_tunEnabled := gs_spmode_vpn (ge_settings E),
                cx_isResolvedUsed := (if ro_os E = Linux then ge_resolved E else cx_isResolvedUsed c)\<rparr>
      in case ge_route E of
        None \<Rightarrow> c\<lparr>cx_error := ''Routing profile does not exist, try resetting the route profile in Routing Settings''\<rparr>
      | Some P \<Rightarrow> snd (and_then (begin_prerequisites E P)
          (and_then (route_outbounds E (get_used_outbounds E P) 0)
          (and_then (aux_stage E P)
          (and_then (selectors_stage E P)
          (and_then (\<lambda>c. (False, tun_selectors E P (hijack_selectors (ge_settings E) c)))
            (extra_core_stage E))))) c))"

end
