(* ===== verification/DnsBuild.thy ===== *)
theory DnsBuild
  imports PrereqBuild
begin

text \<open>
  The log, time, certificate and DNS sections, \<^verbatim>\<open>src/configs/generate.cpp\<close> 793 to 1222, with
  \<^verbatim>\<open>ParsePredefinedDNS\<close> (2407 to 2439): how an address becomes a DNS server, and which server
  answers which query. Servers and rules are lists in the order the core reads them.
\<close>

definition tag_dnsRemote :: string where "tag_dnsRemote = ''dns-remote''"
definition tag_dnsLocal :: string where "tag_dnsLocal = ''dns-local''"
definition tag_dnsFake :: string where "tag_dnsFake = ''dns-fake''"
definition tag_dnsTailscale :: string where "tag_dnsTailscale = ''dns-tailscale''"
definition tag_dnsHosts :: string where "tag_dnsHosts = ''dns-hosts''"
definition dnsVpnPrefix :: string where "dnsVpnPrefix = ''dns-vpn''"

lemmas dns_tag_defs = tag_dnsRemote_def tag_dnsLocal_def tag_dnsFake_def tag_dnsTailscale_def
  tag_dnsHosts_def dnsVpnPrefix_def tag_dnsDirect_def tag_dnsIn_def

subsection \<open>Small sections\<close>

definition buildLogSection :: "'z gen_env_scheme \<Rightarrow> build_context \<Rightarrow> build_context" where
  "buildLogSection E = put_section ''log'' (JObj (jbuild [(''level'', JStr (gs_log_level (ge_settings E)))]))"

definition buildNTPSection :: "'z config_env_scheme \<Rightarrow> build_context \<Rightarrow> build_context" where
  "buildNTPSection E c =
     (let M = ce_misc E in
      if \<not> ms_enable_ntp M then c
      else put_section ''ntp'' (JObj (jbuild [(''enabled'', JBool True), (''server'', JStr (ms_ntp_server M)),
        (''server_port'', jint (ms_ntp_port M)), (''interval'', JStr (ms_ntp_interval M)),
        (''detour'', JStr (if ms_ntp_outbound M = tag_proxy \<and> \<not> cx_forTest c then tag_proxy else tag_direct))])) c)"

definition buildCertificateSection :: "'z config_env_scheme \<Rightarrow> build_context \<Rightarrow> build_context" where
  "buildCertificateSection E = put_section ''certificate''
     (JObj (jbuild [(''store'', JStr (if ms_mozilla_certs (ce_misc E) then ''mozilla'' else ''system''))]))"

subsection \<open>A server from its address\<close>

text \<open>\<^verbatim>\<open>address.replace(p, "")\<close>; the number counts the characters still to be skipped.\<close>

fun erase_from :: "string \<Rightarrow> nat \<Rightarrow> string \<Rightarrow> string" where
  "erase_from p k [] = []"
| "erase_from p (Suc k) (x # xs) = erase_from p k xs"
| "erase_from p 0 (x # xs) =
     (if starts_with (x # xs) p then erase_from p (length p - 1) xs else x # erase_from p 0 xs)"

definition erase :: "string \<Rightarrow> string \<Rightarrow> string" where
  "erase p s = erase_from p 0 s"

text \<open>Scheme, type, and whether a path may follow.\<close>

definition dns_schemes :: "(string \<times> string \<times> bool) list" where
  "dns_schemes = [(''tcp://'', ''tcp'', False), (''tls://'', ''tls'', False), (''quic://'', ''quic'', False),
     (''https://'', ''https'', True), (''h3://'', ''h3'', True)]"

definition dns_scheme :: "string \<Rightarrow> (string \<times> string \<times> bool) option" where
  "dns_scheme address = find (\<lambda>(p, _). starts_with address p) dns_schemes"

text \<open>Type, server, port and path; port -1 and no path when the address names none.\<close>

definition dns_parts :: "'z qt_text_scheme \<Rightarrow> string \<Rightarrow> string \<times> string \<times> int \<times> string" where
  "dns_parts Q address =
     (let (type, addr, path) = (case dns_scheme address of
            None \<Rightarrow> (''udp'', address, [])
          | Some (p, t, paths) \<Rightarrow>
              let a = erase p address
              in if paths \<and> CHR ''/'' \<in> set a
                 then (t, takeWhile (\<lambda>x. x \<noteq> CHR ''/'') a, dropWhile (\<lambda>x. x \<noteq> CHR ''/'') a)
                 else (t, a, []));
          parts = split_on (CHR '':'') [] addr
      in if CHR '':'' \<in> set addr then (type, parts ! 0, qt_int Q (parts ! 1), path) else (type, addr, -1, path))"

definition plain_server :: "string \<times> string \<times> int \<times> string \<Rightarrow> jobject" where
  "plain_server = (\<lambda>(type, addr, port, path).
     let ob = jbuild [(''type'', JStr type), (''server'', JStr addr)];
         ob = (if port \<noteq> -1 then jput ''server_port'' (jint port) ob else ob)
     in if path \<noteq> [] then jput ''path'' (JStr path) ob else ob)"

definition buildDnsObj :: "'z config_env_scheme \<Rightarrow> build_context \<Rightarrow> string \<Rightarrow> jobject" where
  "buildDnsObj E c address =
     (if starts_with address ''local'' then
        (if cx_tunEnabled c \<and> cx_isResolvedUsed c then jbuild [(''type'', JStr ''underlying'')]
         else if cx_tunEnabled c \<and> ro_os E = Darwin then
           jbuild [(''type'', JStr ''udp''), (''server'', JStr (dn_underlying_dns (ce_dns E)))]
         else jbuild [(''type'', JStr ''local'')])
      else if starts_with address ''dhcp://'' then
        (let ifc = erase ''dhcp://'' address
         in jbuild [(''type'', JStr ''dhcp''), (''interface'', JStr (if ifc = ''auto'' then [] else ifc))])
      else plain_server (dns_parts E address))"

definition known_doh :: "string list" where
  "known_doh = [''8.8.8.8'', ''8.8.4.4'', ''1.1.1.1'', ''1.0.0.1'', ''1.1.1.2'', ''1.0.0.2'', ''1.1.1.3'',
     ''1.0.0.3'', ''9.9.9.9'', ''149.112.112.112'', ''94.140.14.14'', ''94.140.15.15'']"

definition upgradeUdpDnsToDoH :: "string \<Rightarrow> string" where
  "upgradeUdpDnsToDoH server =
     ''https://'' @ (if server \<in> set known_doh then server else ''8.8.8.8'') @ ''/dns-query''"

subsection \<open>Predefined names\<close>

record predefined_entry =
  pd_domain :: string
  pd_v4 :: "string list"
  pd_v6 :: "string list"

definition hosts_fields :: "'z config_env_scheme \<Rightarrow> string \<Rightarrow> string list" where
  "hosts_fields E line = split_skip_empty (CHR '' '') (ce_simplified E (takeWhile (\<lambda>x. x \<noteq> CHR ''#'') line))"

definition chop_dots :: "string \<Rightarrow> string" where
  "chop_dots s = rev (dropWhile (\<lambda>x. x = CHR ''.'') (rev s))"

definition add_predefined :: "string \<Rightarrow> bool \<Rightarrow> predefined_entry \<Rightarrow> predefined_entry" where
  "add_predefined addr v6 e =
     (if v6 then e\<lparr>pd_v6 := append_new addr (pd_v6 e)\<rparr> else e\<lparr>pd_v4 := append_new addr (pd_v4 e)\<rparr>)"

fun put_predefined :: "string \<Rightarrow> string \<Rightarrow> bool \<Rightarrow> predefined_entry list \<Rightarrow> predefined_entry list" where
  "put_predefined domain addr v6 [] = [add_predefined addr v6 \<lparr>pd_domain = domain, pd_v4 = [], pd_v6 = []\<rparr>]"
| "put_predefined domain addr v6 (e # es) =
     (if pd_domain e = domain then add_predefined addr v6 e # es else e # put_predefined domain addr v6 es)"

fun predefine_all ::
  "'z qt_text_scheme \<Rightarrow> string \<Rightarrow> bool \<Rightarrow> string list \<Rightarrow> predefined_entry list \<Rightarrow> bool \<times> predefined_entry list" where
  "predefine_all Q addr v6 [] out = (True, out)"
| "predefine_all Q addr v6 (f # fs) out =
     (let domain = chop_dots (qt_lower Q f)
      in if domain = [] then (False, out) else predefine_all Q addr v6 fs (put_predefined domain addr v6 out))"

text \<open>Whether all lines were understood, the entries, and the line that was not.\<close>

fun predefined_loop ::
  "'z config_env_scheme \<Rightarrow> string list \<Rightarrow> predefined_entry list \<Rightarrow> bool \<times> predefined_entry list \<times> string" where
  "predefined_loop E [] out = (True, out, [])"
| "predefined_loop E (line # ls) out =
     (case hosts_fields E line of
        [] \<Rightarrow> predefined_loop E ls out
      | f # fs \<Rightarrow> (case (if fs = [] then None else ce_setAddress E f) of
          None \<Rightarrow> (False, out, qt_trimmed E line)
        | Some (addr, v6) \<Rightarrow> (case predefine_all E addr v6 fs out of
            (ok, out') \<Rightarrow> if ok then predefined_loop E ls out' else (False, out', qt_trimmed E line))))"

definition ParsePredefinedDNS ::
  "'z config_env_scheme \<Rightarrow> string list \<Rightarrow> bool \<times> predefined_entry list \<times> string" where
  "ParsePredefinedDNS E lines = predefined_loop E lines []"

definition emit_family :: "string \<Rightarrow> string list \<Rightarrow> string \<Rightarrow> jobject" where
  "emit_family domain addrs type =
     (if addrs = [] then jbuild [(''domain'', JStr domain), (''action'', JStr ''predefined''),
        (''query_type'', JStr type), (''rcode'', JStr ''NXDOMAIN'')]
      else jbuild [(''domain'', JStr domain), (''action'', JStr ''predefined''), (''query_type'', JStr type),
        (''rcode'', JStr ''NOERROR''),
        (''answer'', strings_json (map (\<lambda>a. ''*. IN '' @ type @ '' '' @ a) addrs))])"

definition predefined_rules :: "'z config_env_scheme \<Rightarrow> jobject list" where
  "predefined_rules E =
     (if \<not> dn_predefined_enable (ce_dns E) then []
      else let (ok, entries, err) = ParsePredefinedDNS E (dn_predefined_rules (ce_dns E))
      in concat (map (\<lambda>e. [emit_family (pd_domain e) (pd_v4 e) ''A'', emit_family (pd_domain e) (pd_v6 e) ''AAAA''])
           (if ok then entries else [])))"

subsection \<open>The parts of the section\<close>

text \<open>Each part adds servers and rules; \<open>head\<close> rules come before all others.\<close>

record dns_part =
  dp_servers :: "jobject list"
  dp_head :: "jobject list"
  dp_rules :: "jobject list"

definition no_part :: dns_part where
  "no_part = \<lparr>dp_servers = [], dp_head = [], dp_rules = []\<rparr>"

definition part_when :: "bool \<Rightarrow> dns_part \<Rightarrow> dns_part" where
  "part_when b p = (if b then p else no_part)"

definition route_to :: "string \<Rightarrow> (string \<times> json) list \<Rightarrow> jobject" where
  "route_to server conditions = jbuild (conditions @ [(''action'', JStr ''route''), (''server'', JStr server)])"

definition tagged_server :: "string \<Rightarrow> jobject \<Rightarrow> jobject" where
  "tagged_server tag ob = jput ''domain_resolver'' (JStr tag_dnsLocal) (jput ''tag'' (JStr tag) ob)"

definition remote_part :: "'z config_env_scheme \<Rightarrow> build_context \<Rightarrow> dns_part" where
  "remote_part E c =
     (let ob = buildDnsObj E c (dn_remote_dns (ce_dns E));
          t = to_str [] (jget ob ''type'');
          ob = (if cx_proxyUsesXray c \<and> (t = ''udp'' \<or> t = ''quic'')
                then buildDnsObj E c (upgradeUdpDnsToDoH (to_str [] (jget ob ''server''))) else ob)
      in no_part\<lparr>dp_servers := [jput ''detour'' (JStr tag_proxy) (tagged_server tag_dnsRemote ob)]\<rparr>)"

definition is_tailscale :: "build_context \<Rightarrow> bool" where
  "is_tailscale c \<longleftrightarrow> pr_type (cx_ent c) = ''tailscale''"

definition tailscale_part :: "'z config_env_scheme \<Rightarrow> build_context \<Rightarrow> dns_part" where
  "tailscale_part E c =
     (let magic = ce_tailscaleGlobalDNS E (cx_ent c);
          bootstrap = route_to tag_dnsDirect
            [(''domain'', strings_json [''controlplane.tailscale.com'', ''login.tailscale.com'', ''log.tailscale.io'']),
             (''domain_suffix'', strings_json [''tailscale.com'', ''tailscale.net'', ''tailscale.io''])]
      in case magic of
        None \<Rightarrow> no_part\<lparr>dp_rules := [bootstrap]\<rparr>
      | Some global \<Rightarrow> no_part
          \<lparr>dp_servers := [jbuild [(''type'', JStr ''tailscale''), (''tag'', JStr tag_dnsTailscale),
              (''endpoint'', JStr tag_proxy), (''accept_default_resolvers'', JBool global)]],
           dp_rules := [bootstrap, route_to tag_dnsTailscale [(''domain_suffix'', strings_json [''ts.net'', ''tailscale.net''])]]\<rparr>)"

definition direct_part :: "'z config_env_scheme \<Rightarrow> build_context \<Rightarrow> dns_part" where
  "direct_part E c = no_part\<lparr>dp_servers :=
     [tagged_server tag_dnsDirect (buildDnsObj E c (dn_direct_dns (ce_dns E)))]\<rparr>"

definition externalTailscaleTag :: string where "externalTailscaleTag = ''dns-external-tailscale''"

definition external_tailscale :: "'z config_env_scheme \<Rightarrow> bool" where
  "external_tailscale E = list_ex (\<lambda>(up, readable, nm). up \<and>
     (str_contains (qt_fold E readable) ''tailscale'' \<or> str_contains (qt_fold E nm) ''tailscale'')) (ce_interfaces E)"

definition private_part :: "'z config_env_scheme \<Rightarrow> build_context \<Rightarrow> dns_part" where
  "private_part E c =
     (let own = route_to tag_dnsLocal [(''domain_suffix'', strings_json [''local'', ''lan'', ''home.arpa''])]
      in if external_tailscale E \<and> \<not> is_tailscale c then no_part
          \<lparr>dp_servers := [jbuild [(''type'', JStr ''udp''), (''tag'', JStr externalTailscaleTag),
              (''server'', JStr ''100.100.100.100'')]],
           dp_head := [own, route_to externalTailscaleTag [(''domain_suffix'', strings_json [''ts.net''])]]\<rparr>
         else no_part\<lparr>dp_head := [own]\<rparr>)"

definition hosts_part :: dns_part where
  "hosts_part = no_part
     \<lparr>dp_servers := [jbuild [(''tag'', JStr tag_dnsHosts), (''type'', JStr ''hosts'')]],
      dp_head := [jput ''disable_cache'' (JBool True) (route_to tag_dnsHosts
        [(''preferred_by'', strings_json [tag_dnsHosts]), (''query_type'', strings_json [''A'', ''AAAA''])])]\<rparr>"

subsubsection \<open>VPN endpoints\<close>

definition vpnDnsTag :: "string \<Rightarrow> string" where
  "vpnDnsTag tag = dnsVpnPrefix @ ''-'' @ tag"

definition vpn_server :: "build_context \<Rightarrow> string \<times> string \<Rightarrow> jobject" where
  "vpn_server c = (\<lambda>(tag, type).
     let ob = jbuild [(''tag'', JStr (vpnDnsTag tag)), (''type'', JStr type), (''endpoint'', JStr tag)]
     in if tag \<in> set (cx_vpnGateTags c)
        then jput ''accept_search_domain'' (JBool True) (jput ''accept_default_resolvers'' (JBool True) ob) else ob)"

definition vpn_part :: "build_context \<Rightarrow> dns_part" where
  "vpn_part c = no_part
     \<lparr>dp_servers := map (vpn_server c) (cx_vpnEndpointTags c),
      dp_head := map (\<lambda>(tag, type). route_to (vpnDnsTag tag) [(''preferred_by'', strings_json [vpnDnsTag tag])])
        (cx_vpnEndpointTags c)\<rparr>"

text \<open>The gated tunnels that carry the profile itself.\<close>

definition carrying_gates :: "build_context \<Rightarrow> string list" where
  "carrying_gates c = filter (\<lambda>t. t \<in> set (cx_vpnGateTags c) \<and> (t = tag_proxy \<or> t = tag_warpBypass))
     (map fst (cx_vpnEndpointTags c))"

definition vpnFinalDnsTag :: "build_context \<Rightarrow> string" where
  "vpnFinalDnsTag c = (if \<not> cx_forTest c \<and> cx_vpnBlockOutsideDns c \<and> carrying_gates c \<noteq> []
     then vpnDnsTag (hd (carrying_gates c)) else [])"

definition vpnDirectFinalDns :: "build_context \<Rightarrow> bool" where
  "vpnDirectFinalDns c \<longleftrightarrow> \<not> cx_forTest c \<and> \<not> cx_vpnBlockOutsideDns c \<and> carrying_gates c \<noteq> []"

subsubsection \<open>Rules by inbound, process and selector\<close>

definition with_strategy :: "string \<Rightarrow> string \<Rightarrow> (string \<times> json) list \<Rightarrow> jobject" where
  "with_strategy strategy server conditions = jput ''strategy'' (JStr strategy) (route_to server conditions)"

definition bridge_dns_part :: "'z config_env_scheme \<Rightarrow> dns_part" where
  "bridge_dns_part E = no_part\<lparr>dp_rules :=
     [with_strategy (dn_direct_strategy (ce_dns E)) tag_dnsDirect [(''inbound'', strings_json [tag_dnsIn])]]\<rparr>"

definition extra_core_part :: "'z config_env_scheme \<Rightarrow> string \<Rightarrow> dns_part" where
  "extra_core_part E path = no_part\<lparr>dp_rules :=
     [with_strategy (dn_direct_strategy (ce_dns E)) tag_dnsDirect [(''process_path'', extraCoreProcessPaths E path)]]\<rparr>"

definition predefined_answer :: "(string \<times> json) list \<Rightarrow> string \<Rightarrow> string \<Rightarrow> jobject" where
  "predefined_answer conditions type resp = jbuild (conditions @
     [(''query_type'', JStr type), (''action'', JStr ''predefined''), (''rcode'', JStr ''NOERROR''),
      (''answer'', JStr (''*. IN '' @ type @ '' '' @ resp))])"

definition hijack_rules :: "dns_settings \<Rightarrow> (string \<times> json) list \<Rightarrow> jobject list" where
  "hijack_rules D conditions = predefined_answer conditions ''A'' (dn_v4_resp D) #
     (if dn_v6_resp D = [] then [] else [predefined_answer conditions ''AAAA'' (dn_v6_resp D)])"

definition hijack_part :: "'z config_env_scheme \<Rightarrow> domain_selectors \<Rightarrow> dns_part" where
  "hijack_part E h = no_part\<lparr>dp_rules :=
     (if ds_ruleSets h \<noteq> [] then hijack_rules (ce_dns E) [(''rule_set'', strings_json (ds_ruleSets h))] else [])
     @ (if ds_domains h \<noteq> [] \<or> ds_suffixes h \<noteq> [] \<or> ds_regexes h \<noteq> []
        then hijack_rules (ce_dns E) [(''domain'', strings_json (ds_domains h)),
          (''domain_suffix'', strings_json (ds_suffixes h)), (''domain_regex'', strings_json (ds_regexes h))] else [])\<rparr>"

definition selector_part :: "domain_selectors \<Rightarrow> string \<Rightarrow> string \<Rightarrow> dns_part" where
  "selector_part s strategy server =
     no_part\<lparr>dp_rules := map (to_obj) (appendDnsRoutingRules s strategy server [])\<rparr>"

definition fake_part :: dns_part where
  "fake_part = no_part
     \<lparr>dp_servers := [jbuild [(''tag'', JStr tag_dnsFake), (''type'', JStr ''fakeip''),
         (''inet4_range'', JStr ''198.18.0.0/15''), (''inet6_range'', JStr ''fc00::/18'')]],
      dp_rules := [route_to tag_dnsFake [(''query_type'', strings_json [''A'', ''AAAA''])]]\<rparr>"

definition useDirectFinalDNS :: "'z config_env_scheme \<Rightarrow> bool" where
  "useDirectFinalDNS E \<longleftrightarrow> dn_final_out (ce_dns E) = tag_direct"

definition final_part :: "'z config_env_scheme \<Rightarrow> build_context \<Rightarrow> dns_part" where
  "final_part E c =
     (let D = ce_dns E; direct = (useDirectFinalDNS E \<or> vpnDirectFinalDns c)
      in no_part\<lparr>dp_rules := [with_strategy (if direct then dn_direct_strategy D else dn_remote_strategy D)
           (if vpnFinalDnsTag c \<noteq> [] then vpnFinalDnsTag c
            else if direct then tag_dnsDirect else tag_dnsRemote) []]\<rparr>)"

definition local_part :: "'z config_env_scheme \<Rightarrow> build_context \<Rightarrow> dns_part" where
  "local_part E c =
     (let u = dn_underlying_dns (ce_dns E)
      in no_part\<lparr>dp_servers := [jput ''tag'' (JStr tag_dnsLocal) (buildDnsObj E c (if u = [] then ''local'' else u))]\<rparr>)"

subsection \<open>The section\<close>

definition dns_parts_of :: "'z config_env_scheme \<Rightarrow> build_context \<Rightarrow> dns_part list" where
  "dns_parts_of E c =
     (let S = ge_settings E; D = ce_dns E; q = cx_prerequisites c; live = (\<not> cx_forTest c);
          path = ec_path (rs_extraCoreData (cx_result c))
      in [part_when live (remote_part E c),
          part_when (live \<and> is_tailscale c) (tailscale_part E c),
          direct_part E c,
          part_when live (no_part\<lparr>dp_head := predefined_rules E\<rparr>),
          part_when (live \<and> \<not> ms_disable_private_bypass (ce_misc E)) (private_part E c),
          part_when (live \<and> dn_use_hosts D) hosts_part,
          part_when live (vpn_part c),
          part_when (live \<and> cx_proxyUsesXray c) (bridge_dns_part E),
          part_when (live \<and> path \<noteq> []) (extra_core_part E path),
          part_when (gs_enable_dns_server S \<and> live) (hijack_part E (pq_hijack q)),
          part_when (pq_needDirectDnsRules q) (selector_part (pq_direct q) (dn_direct_strategy D) tag_dnsDirect),
          part_when (dn_fake_dns D) fake_part,
          part_when (pq_needProxyDnsRules q \<and> useDirectFinalDNS E)
            (selector_part (pq_proxy q) (dn_remote_strategy D) tag_dnsRemote),
          final_part E c,
          local_part E c])"

definition all_servers :: "dns_part list \<Rightarrow> jobject list" where
  "all_servers ps = concat (map dp_servers ps)"

definition all_rules :: "dns_part list \<Rightarrow> jobject list" where
  "all_rules ps = concat (map dp_head ps) @ concat (map dp_rules ps)"

definition dns_options :: "dns_settings \<Rightarrow> jobject \<Rightarrow> jobject" where
  "dns_options D ob =
     (let put = (\<lambda>b k v ob. if b then jput k v ob else ob);
          ob = put (dn_disable_cache D) ''disable_cache'' (JBool True) ob;
          ob = put (dn_disable_expire D) ''disable_expire'' (JBool True) ob;
          ob = put (dn_reverse_mapping D) ''reverse_mapping'' (JBool True) ob;
          ob = put (dn_fake_dns D) ''independent_cache'' (JBool True) ob;
          ob = put (dn_query_timeout D \<noteq> []) ''timeout'' (JStr (dn_query_timeout D)) ob
      in put (dn_optimistic D \<and> \<not> dn_disable_cache D \<and> \<not> dn_disable_expire D) ''optimistic''
           (if dn_optimistic_timeout D = [] then JBool True
            else JObj (jbuild [(''enabled'', JBool True), (''timeout'', JStr (dn_optimistic_timeout D))])) ob)"

definition dns_object :: "'z config_env_scheme \<Rightarrow> build_context \<Rightarrow> jobject" where
  "dns_object E c = dns_options (ce_dns E) (jbuild
     [(''servers'', JArr (map JObj (all_servers (dns_parts_of E c)))),
      (''rules'', JArr (map JObj (all_rules (dns_parts_of E c)))),
      (''cache_capacity'', jint (dn_cache_capacity (ce_dns E)))])"

definition buildDNSSection :: "'z config_env_scheme \<Rightarrow> bool \<Rightarrow> build_context \<Rightarrow> build_context" where
  "buildDNSSection E useDnsObj c =
     (if ro_os E = Darwin \<and> dn_underlying_dns (ce_dns E) = [] \<and> gs_spmode_vpn (ge_settings E)
      then c\<lparr>cx_error := ''Local DNS and Tun mode do not work together, please set an IP to be used as the Local DNS server in the Routing Settings -> Local override''\<rparr>
      else if dn_use_dns_object (ce_dns E) \<and> useDnsObj
      then put_section ''dns'' (JObj (re_text2object E (dn_dns_object (ce_dns E)))) c
      else put_section ''dns'' (JObj (dns_object E c)) c)"

end
