(* ===== verification/OutboundBuild.thy ===== *)
theory OutboundBuild
  imports ChainBuild
begin

text \<open>
  The outbounds of a configuration, \<^verbatim>\<open>src/configs/generate.cpp\<close> lines 1733 to 2044 and 2329
  to 2361: the chain of the started profile or the group of an auto selector, the chains
  the route profile needs, the auxiliary endpoints, the inbounds through which Xray comes back into
  sing-box, and the configuration of the Xray instance. An error returns from the function that
  meets it; the caller sees it in the context.
\<close>

subsection \<open>Members of a pool\<close>

text \<open>The hops around a profile that its group's settings ask for.\<close>

definition landing_hops :: "group \<Rightarrow> int list" where
  "landing_hops g = (if 0 \<le> gr_landing_proxy_id g then [gr_landing_proxy_id g] else [])"

definition front_hops :: "group \<Rightarrow> int list" where
  "front_hops g = (if 0 \<le> gr_front_proxy_id g then [gr_front_proxy_id g] else [])"

record planned_member =
  pm_ent :: profile
  pm_hopIDs :: "int list"
  pm_bridges :: memberBridges

fun plan_members :: "'z gen_env_scheme \<Rightarrow> group \<Rightarrow> int list \<Rightarrow> planned_member list" where
  "plan_members E g [] = []"
| "plan_members E g (i # ids) = (case profile_of E i of
     None \<Rightarrow> plan_members E g ids
   | Some m \<Rightarrow>
       let hops = landing_hops g @ [i] @ front_hops g
       in \<lparr>pm_ent = m, pm_hopIDs = hops, pm_bridges = bridgesFor E hops\<rparr> # plan_members E g ids)"

definition bridges_planned :: "planned_member list \<Rightarrow> nat" where
  "bridges_planned ms = sum_list (map (\<lambda>m. bridge_count (pm_bridges m)) ms)"

text \<open>One port of the common probe, taken when the bridge is needed.\<close>

definition deal :: "int list \<Rightarrow> bool \<Rightarrow> nat \<Rightarrow> int \<times> nat" where
  "deal ports needed k = (if needed then (ports ! k, k + 1) else (-1, k))"

text \<open>What the loop over the members carries besides the context.\<close>

record pool_state =
  po_portIdx :: nat
  po_idx :: nat
  po_tags :: "string list"
  po_members :: "(string \<times> profile) list"
  po_warm :: "json list"
  po_pinned :: string

definition new_pool :: pool_state where
  "new_pool = \<lparr>po_portIdx = 0, po_idx = 0, po_tags = [], po_members = [], po_warm = [], po_pinned = []\<rparr>"

definition member_request :: "int list \<Rightarrow> planned_member \<Rightarrow> pool_state \<Rightarrow> chain_request \<times> nat" where
  "member_request ports m st =
     (let b = pm_bridges m;
          (sx, k) = deal ports (mb_singToXray b) (po_portIdx st);
          (xs, k) = deal ports (mb_xrayToSing b) k;
          (full, k) = deal ports (mb_xrayFullConfig b) k
      in ((chain_request_for (pm_hopIDs m) (hopTag poolChainPrefix (int (po_idx st))))
            \<lparr>cr_singToXrayPort := sx, cr_xrayToSingPort := xs, cr_xrayFullConfigPort := full,
             cr_soleXrayInbound := mb_xrayFullConfig b\<rparr>, k))"

text \<open>The one slot for an Xray configuration is drained for the next member.\<close>

definition drain_full_config :: "memberBridges \<Rightarrow> build_context \<Rightarrow> build_context" where
  "drain_full_config b c =
     (if \<not> mb_xrayFullConfig b then c
      else if rs_xrayConfig (cx_result c) = [] then
        c\<lparr>cx_error := ''Custom Xray full config member produced no Xray config''\<rparr>
      else in_result (\<lambda>r. r\<lparr>rs_xrayFullConfigs := rs_xrayFullConfigs r @ [rs_xrayConfig r],
             rs_xrayConfig := [], rs_isXrayNeeded := False\<rparr>) c)"

definition warm_entry :: "int \<Rightarrow> autoSelector \<Rightarrow> string \<Rightarrow> profile \<Rightarrow> json list" where
  "warm_entry builtAt sel tag m =
     (let age = builtAt - pr_latency_at m
      in if pr_latency m \<noteq> 0 \<and> 0 < pr_latency_at m \<and> 0 < as_resultValidityMins sel \<and>
            0 \<le> age \<and> age \<le> as_resultValidityMins sel * 60
         then [JObj (jbuild [(''tag'', JStr tag), (''rtt'', jint (max 0 (pr_latency m))), (''age'', jint age)])]
         else [])"

definition credit_last :: "profile \<Rightarrow> build_context \<Rightarrow> build_context" where
  "credit_last p = in_result (\<lambda>r. case rs_chainGroups r of
     [] \<Rightarrow> r
   | gs \<Rightarrow> r\<lparr>rs_chainGroups := butlast gs @ [(last gs)\<lparr>tg_profiles := tg_profiles (last gs) @ [p]\<rparr>]\<rparr>)"

definition record_member :: "int \<Rightarrow> autoSelector \<Rightarrow> string \<Rightarrow> profile \<Rightarrow> nat \<Rightarrow> pool_state \<Rightarrow> pool_state" where
  "record_member builtAt sel tag m k st = st\<lparr>po_portIdx := k, po_idx := po_idx st + 1,
     po_tags := po_tags st @ [tag], po_members := po_members st @ [(tag, m)],
     po_pinned := (if pr_id m = as_pinnedID sel then tag else po_pinned st),
     po_warm := po_warm st @ warm_entry builtAt sel tag m\<rparr>"

fun build_members ::
  "'z gen_env_scheme \<Rightarrow> int list \<Rightarrow> autoSelector \<Rightarrow> planned_member list \<Rightarrow> pool_state \<times> build_context \<Rightarrow>
     pool_state \<times> build_context" where
  "build_members E ports sel [] (st, c) = (st, c)"
| "build_members E ports sel (m # ms) (st, c) =
     (let (req, k) = member_request ports m st;
          (tag, c) = buildOutboundChain E req c
      in if cx_error c \<noteq> [] then (st, c)
      else let c = drain_full_config (pm_bridges m) c
      in if cx_error c \<noteq> [] then (st, c)
      else build_members E ports sel ms
             (record_member (ge_now E) sel tag (pm_ent m) k st, credit_last (cx_ent c) c))"

subsection \<open>The group of an auto selector\<close>

definition or_url :: "string \<Rightarrow> string \<Rightarrow> json" where
  "or_url url fallback = JStr (if url = [] then fallback else url)"

definition seconds_text :: "int \<Rightarrow> json" where
  "seconds_text n = JStr (number n @ ''s'')"

definition put_when :: "bool \<Rightarrow> string \<Rightarrow> json \<Rightarrow> jobject \<Rightarrow> jobject" where
  "put_when b k v ob = (if b then jput k v ob else ob)"

definition selector_base :: "gen_settings \<Rightarrow> autoSelector \<Rightarrow> string \<Rightarrow> string list \<Rightarrow> jobject" where
  "selector_base S sel groupTag tags = jbuild
     [(''type'', JStr ''auto-selector''), (''tag'', JStr groupTag), (''outbounds'', strings_json tags),
      (''url'', or_url (as_testURL sel) (gs_test_latency_url S)),
      (''interval'', seconds_text (as_intervalSec sel)),
      (''bench_interval'', seconds_text (as_benchIntervalSec sel)),
      (''watch_interval'', seconds_text (as_watchIntervalSec sel)),
      (''active_size'', jint (as_activeSize sel)), (''sampling'', jint (as_sampling sel)),
      (''tolerance'', jint (as_toleranceMs sel)), (''expected'', jint (as_expected sel)),
      (''dial_retries'', jint (as_dialRetries sel)),
      (''interrupt_exist_connections'', JBool (as_interruptOnSwitch sel))]"

definition selector_object :: "gen_settings \<Rightarrow> autoSelector \<Rightarrow> string \<Rightarrow> pool_state \<Rightarrow> jobject" where
  "selector_object S sel groupTag st =
     (let ob = selector_base S sel groupTag (po_tags st);
          ob = put_when (po_warm st \<noteq> []) ''warm'' (JArr (po_warm st)) ob;
          ob = put_when (po_pinned st \<noteq> []) ''pinned'' (JStr (po_pinned st)) ob;
          ob = put_when (0 < as_maxRTTms sel) ''max_rtt'' (JStr (number (as_maxRTTms sel) @ ''ms'')) ob;
          ob = jput ''connectivity_url'' (or_url (as_connectivityURL sel) (gs_test_latency_url S)) ob;
          ob = put_when (as_balance sel) ''balance'' (JBool True) ob;
          ob = put_when (as_balance sel) ''balance_mode'' (JStr (as_balanceMode sel)) ob
      in put_when (as_balance sel) ''balance_interval'' (seconds_text (as_balanceIntervalSec sel)) ob)"

text \<open>Behind WARP the members' own watch tags count nothing: one group on the proxy takes their place.\<close>

definition collapse_groups :: "nat \<Rightarrow> build_context \<Rightarrow> build_context" where
  "collapse_groups groupsBefore = in_result (\<lambda>r. r\<lparr>rs_chainGroups := take groupsBefore (rs_chainGroups r) @
     [\<lparr>tg_watchTag = tag_proxy,
       tg_profiles = concat (map tg_profiles (rev (drop groupsBefore (rs_chainGroups r))))\<rparr>]\<rparr>)"

definition group_tag :: "bool \<Rightarrow> string" where
  "group_tag warpWrap = (if warpWrap then tag_warpBypass else tag_proxy)"

text \<open>The selector is normalised where it stands, in the profile the context shares.\<close>

definition buildAutoSelectorGroup ::
  "'z gen_env_scheme \<Rightarrow> group \<Rightarrow> bool \<Rightarrow> build_context \<Rightarrow> string \<times> build_context" where
  "buildAutoSelectorGroup E g warpWrap c = (case AutoSelector_of (cx_ent c) of
     None \<Rightarrow> ([], c\<lparr>cx_error := ''Ent is nullptr after cast to auto selector, data is corrupted''\<rparr>)
   | Some sel \<Rightarrow>
       let sel = Normalize sel;
           c = c\<lparr>cx_ent := put_selector sel (cx_ent c)\<rparr>;
           plan = plan_for E PlanForGroup (cx_ent c)
       in if pl_error plan \<noteq> [] then ([], c\<lparr>cx_error := pl_error plan\<rparr>)
       else let groupTag = group_tag warpWrap;
                groupsBefore = length (rs_chainGroups (cx_result c));
                planned = plan_members E g (pl_build plan);
                (ports, c) = MkManyPorts E (bridges_planned planned) ''127.0.0.1'' c;
                (st, c) = build_members E ports sel planned (new_pool, c)
       in if cx_error c \<noteq> [] then ([], c)
       else if po_tags st = [] then ([], c\<lparr>cx_error := ''Auto selector produced no usable members''\<rparr>)
       else let c = (if warpWrap then collapse_groups groupsBefore c else c);
                c = c\<lparr>cx_outbounds := cx_outbounds c @ [selector_object (ge_settings E) sel groupTag st]\<rparr>
       in (groupTag, in_result (\<lambda>r. r\<lparr>rs_autoSelectors := rs_autoSelectors r @
            [\<lparr>si_groupTag = groupTag, si_profile = cx_ent c, si_members = po_members st\<rparr>]\<rparr>) c))"

definition append_object :: "'z gen_env_scheme \<Rightarrow> profile \<Rightarrow> jobject \<Rightarrow> build_context \<Rightarrow> build_context" where
  "append_object E p ob c =
     (if asks (IsEndpoint (re_text2object E)) p then c\<lparr>cx_endpoints := cx_endpoints c @ [ob]\<rparr>
      else c\<lparr>cx_outbounds := cx_outbounds c @ [ob]\<rparr>)"

definition buildWarpInFrontOfSelector :: "'z gen_env_scheme \<Rightarrow> build_context \<Rightarrow> build_context" where
  "buildWarpInFrontOfSelector E c =
     (let warp = getWarpProfile E; (ob, err) = Build E warp
      in if err \<noteq> [] then c\<lparr>cx_error := cx_error c @ err\<rparr>
      else append_object E warp (jput ''detour'' (JStr tag_warpBypass) (jput ''tag'' (JStr tag_proxy) ob)) c)"

subsection \<open>The outbounds section\<close>

text \<open>The hops of the started profile, last first: the list of a chain is kept from the exit to the entry.\<close>

definition own_hops :: "profile \<Rightarrow> int list option" where
  "own_hops ent = (if pr_type ent = ''chain'' then map_option rev (Chain ent) else Some [pr_id ent])"

text \<open>Where the code returns from the section, the first component is \<open>True\<close>.\<close>

definition buildOwnChain :: "'z gen_env_scheme \<Rightarrow> group \<Rightarrow> bool \<Rightarrow> build_context \<Rightarrow> bool \<times> build_context" where
  "buildOwnChain E g warpWrap c = (case own_hops (cx_ent c) of
     None \<Rightarrow> (True, c\<lparr>cx_error := ''Ent is nullptr after cast to chain, data is corrupted''\<rparr>)
   | Some own \<Rightarrow>
       let ids = (if warpWrap then [warpProfileID] else []) @ landing_hops g @ own @ front_hops g;
           (t, c) = buildOutboundChain E ((chain_request_for ids mainChainPrefix)
             \<lparr>cr_includeProxy := True, cr_warpWrap := warpWrap\<rparr>) c
       in (False, if pr_type (cx_ent c) = ''chain'' then credit_last (cx_ent c) c else c))"

definition build_own :: "'z gen_env_scheme \<Rightarrow> group \<Rightarrow> bool \<Rightarrow> build_context \<Rightarrow> bool \<times> build_context" where
  "build_own E g warpWrap c =
     (if pr_type (cx_ent c) = ''autoselector'' then
        (let (t, c) = buildAutoSelectorGroup E g warpWrap c;
             c = (if cx_error c = [] \<and> warpWrap then buildWarpInFrontOfSelector E c else c)
         in (cx_error c \<noteq> [], c))
      else buildOwnChain E g warpWrap c)"

text \<open>The request for one chain of a row whose tags are numbered through.\<close>

definition row_request :: "string \<Rightarrow> bool \<Rightarrow> int list \<Rightarrow> nat \<Rightarrow> chain_request" where
  "row_request prefix auxiliary ids suffix = (chain_request_for ids prefix)
     \<lparr>cr_link := (1 < length ids), cr_startSuffix := int suffix, cr_auxiliary := auxiliary\<rparr>"

text \<open>An error in a chain for the routes does not stop the loop; the section is left with it below.\<close>

fun build_routes :: "'z gen_env_scheme \<Rightarrow> nat \<Rightarrow> route_group list \<Rightarrow> build_context \<Rightarrow> build_context" where
  "build_routes E suffix [] c = c"
| "build_routes E suffix (rg # rgs) c =
     (let (t, c) = buildOutboundChain E (row_request routeChainPrefix False (rg_hopIDs rg) suffix) c;
          c = (case rg_chainWrapper rg of Some w \<Rightarrow> credit_last w c | None \<Rightarrow> c)
      in build_routes E (suffix + length (rg_hopIDs rg)) rgs c)"

fun build_auxiliaries ::
  "'z gen_env_scheme \<Rightarrow> nat \<Rightarrow> int list list \<Rightarrow> build_context \<Rightarrow> bool \<times> build_context" where
  "build_auxiliaries E suffix [] c = (False, c)"
| "build_auxiliaries E suffix (ids # rest) c =
     (let (tag, c) = buildOutboundChain E (row_request auxEndpointPrefix True ids suffix) c
      in if cx_error c \<noteq> [] then (True, c)
      else build_auxiliaries E (suffix + length ids) rest (c\<lparr>cx_vpnAuxTags := cx_vpnAuxTags c @ [tag]\<rparr>))"

definition bridge_inbounds :: "build_context \<Rightarrow> json list" where
  "bridge_inbounds c = map2 (\<lambda>t b. JObj (socksBridgeInbound (bridgeTagFor t) b)) (cx_singIngressTags c) (cx_xrayToSingBridges c)"

definition direct_outbounds :: "build_context \<Rightarrow> jobject list" where
  "direct_outbounds c = [jbuild [(''type'', JStr ''direct''), (''tag'', JStr tag_direct)]] @
     (if cx_l3Bridge c then [jbuild [(''type'', JStr ''bridge''), (''tag'', JStr tag_l3Direct)]] else [])"

text \<open>The end of the section, after all chains.\<close>

definition finish_outbounds :: "build_context \<Rightarrow> build_context" where
  "finish_outbounds c =
     (if bridgeIngressMismatch c \<noteq> [] then c\<lparr>cx_error := bridgeIngressMismatch c\<rparr>
      else let inbounds = to_arr (jget (rs_coreConfig (cx_result c)) ''inbounds'') @ bridge_inbounds c;
               c = put_section ''inbounds'' (JArr inbounds) c;
               c = c\<lparr>cx_outbounds := cx_outbounds c @ direct_outbounds c\<rparr>;
               c = put_section ''endpoints'' (JArr (map JObj (cx_endpoints c))) c
           in put_section ''outbounds'' (JArr (map JObj (cx_outbounds c))) c)"

definition buildOutboundsSection :: "'z gen_env_scheme \<Rightarrow> build_context \<Rightarrow> build_context" where
  "buildOutboundsSection E c = (case ge_groups E (pr_gid (cx_ent c)) of
     None \<Rightarrow> c\<lparr>cx_error := ''No group found for ent, data is corrupted''\<rparr>
   | Some g \<Rightarrow>
       let (stop, c) = build_own E g (gs_enable_warp (ge_settings E)) c
       in if stop then c
       else let c = build_routes E 0 (pq_routeOutboundGroups (cx_prerequisites c)) c;
                (stop, c) = (if cx_forTest c then (False, c)
                  else build_auxiliaries E 0 (pq_auxEndpointGroups (cx_prerequisites c)) c)
       in if stop then c else finish_outbounds c)"

subsection \<open>The Xray instance\<close>

definition inbound_of :: "string \<Rightarrow> string" where
  "inbound_of outboundTag = outboundTag @ ''-'' @ ''inbound''"

definition ingress_rule :: "string \<Rightarrow> json" where
  "ingress_rule t = JObj (jbuild [(''type'', JStr ''field''), (''inboundTag'', strings_json [inbound_of t]),
     (''outboundTag'', JStr t)])"

definition put_xray :: "string \<Rightarrow> json \<Rightarrow> build_context \<Rightarrow> build_context" where
  "put_xray k v = in_result (\<lambda>r. r\<lparr>rs_xrayConfig := jput k v (rs_xrayConfig r)\<rparr>)"

definition buildXrayConfig :: "'z gen_env_scheme \<Rightarrow> build_context \<Rightarrow> build_context" where
  "buildXrayConfig E c =
     (if cx_xrayOutbounds c = [] then c
      else let c = in_result (\<lambda>r. r\<lparr>rs_isXrayNeeded := True\<rparr>) c
      in if length (cx_xrayIngressTags c) \<noteq> length (cx_singToXrayBridges c)
         then c\<lparr>cx_error := ''xray ingress tags size does not match bridge count!''\<rparr>
      else let level = gs_xray_log_level (ge_settings E);
               inbounds = map2 (\<lambda>t b. JObj (xraySocksInbound (inbound_of t) b)) (cx_xrayIngressTags c) (cx_singToXrayBridges c);
               rules = map ingress_rule (cx_xrayIngressTags c);
               c = put_xray ''log'' (JObj (jbuild [(''loglevel'', JStr level),
                     (''access'', JStr (if level = ''info'' then [] else ''none''))])) c;
               c = put_xray ''inbounds'' (JArr inbounds) c;
               c = put_xray ''outbounds'' (JArr (map JObj (cx_xrayOutbounds c))) c
           in put_xray ''routing'' (JObj (jbuild [(''domainStrategy'', JStr ''AsIs''), (''rules'', JArr rules)])) c)"

end
