(* ===== verification/RouteBuild.thy ===== *)
theory RouteBuild
  imports OutboundBuild DnsBuild
begin

text \<open>
  The inbound, route, experimental and service sections, and the whole configuration:
  \<^verbatim>\<open>src/configs/generate.cpp\<close> 1224 to 1325, 2046 to 2325 and 2446 to 2502, with
  \<^verbatim>\<open>get_jsdelivr_link\<close> of \<^verbatim>\<open>generate.h\<close>.
\<close>

definition tag_dnsServerIn :: string where "tag_dnsServerIn = ''hijack-dns''"

subsection \<open>Inbounds\<close>

definition mixed_inbound :: "inbound_settings \<Rightarrow> jobject" where
  "mixed_inbound I =
     (let ob = jbuild [(''tag'', JStr tag_mixedIn), (''type'', JStr ''mixed''), (''listen'', JStr (in_address I)),
            (''listen_port'', jint (in_socks_port I))]
      in if in_auth I then jput ''users'' (JArr [JObj (jbuild [(''username'', JStr (in_user I)), (''password'', JStr (in_pass I))])]) ob
         else ob)"

definition genTunName :: "'z config_env_scheme \<Rightarrow> string" where
  "genTunName E = (if ro_os E = Darwin then [] else ''quattro-tun'')"

text \<open>The ranges the Tun gives up: always excluded, and excluded unless a rule claims them.\<close>

definition fixed_exclusions :: "'z config_env_scheme \<Rightarrow> string list" where
  "fixed_exclusions E =
     (if ms_disable_private_bypass (ce_misc E) then [] else [''127.0.0.0/8'', ''255.255.255.255/32''])"

definition excluded_ranges :: "'z config_env_scheme \<Rightarrow> prerequisites \<Rightarrow> string list" where
  "excluded_ranges E q =
     (let I = ce_inbounds E;
          private = (if ms_disable_private_bypass (ce_misc E) then []
            else filter (\<lambda>r. r \<notin> pq_hijackedPrivateRanges q) (re_vpn_private_ranges E));
          direct = (if in_enable_tun_routing I then pq_directIPCIDRs q else []);
          ranges = private @ direct
      in if ro_os E = Darwin then subtractPrefix (ce_host E) ranges (in_tun_ipv4 I) else ranges)"

definition excluded_sets :: "'z config_env_scheme \<Rightarrow> prerequisites \<Rightarrow> string list" where
  "excluded_sets E q = (if in_enable_tun_routing (ce_inbounds E) then pq_directIPSets q else [])"

definition tun_inbound :: "'z config_env_scheme \<Rightarrow> prerequisites \<Rightarrow> jobject" where
  "tun_inbound E q =
     (let I = ce_inbounds E;
          ob = jbuild [(''tag'', JStr tag_tunIn), (''type'', JStr ''tun''), (''interface_name'', JStr (genTunName E)),
            (''auto_route'', JBool True), (''mtu'', jint (in_vpn_mtu I)), (''stack'', JStr (in_vpn_implementation I)),
            (''strict_route'', JBool (in_vpn_strict_route I))];
          ob = put_when (ro_os E = Linux \<and> in_vpn_auto_redirect I) ''auto_redirect'' (JBool True) ob;
          ob = jput ''address'' (strings_json (in_tun_ipv4 I # (if in_vpn_ipv6 I then [in_tun_ipv6 I] else []))) ob;
          ob = jput ''route_exclude_address'' (strings_json (fixed_exclusions E @ excluded_ranges E q)) ob
      in put_when (excluded_sets E q \<noteq> []) ''route_exclude_address_set'' (strings_json (excluded_sets E q)) ob)"

definition listener :: "string \<Rightarrow> string \<Rightarrow> int \<Rightarrow> jobject" where
  "listener tag host port = jbuild [(''tag'', JStr tag), (''type'', JStr ''direct''), (''listen'', JStr host),
     (''listen_port'', jint port)]"

definition own_inbounds :: "'z config_env_scheme \<Rightarrow> prerequisites \<Rightarrow> jobject list" where
  "own_inbounds E q =
     (let I = ce_inbounds E; S = ge_settings E
      in (if gs_enable_dns_server S
            then [listener tag_dnsServerIn (if in_dns_server_lan I then ''0.0.0.0'' else ''127.1.1.1'') (in_dns_server_port I)] else [])
       @ (if gs_enable_redirect S then [listener tag_redirectIn (in_redirect_address I) (in_redirect_port I)] else [])
       @ [listener tag_dnsIn ''127.0.0.1'' (in_core_dns_port I)]
       @ (if in_disable_mixed I then [] else [mixed_inbound I])
       @ (if gs_spmode_vpn S then [tun_inbound E q] else []))"

definition custom_inbounds :: "'z config_env_scheme \<Rightarrow> json list" where
  "custom_inbounds E = to_arr (jget (re_text2object E (in_custom_inbound (ce_inbounds E))) ''inbounds'')"

definition buildInboundSection :: "'z config_env_scheme \<Rightarrow> build_context \<Rightarrow> build_context" where
  "buildInboundSection E c =
     (if cx_forTest c then c
      else let c = (if gs_spmode_vpn (ge_settings E)
             then in_result (\<lambda>r. r\<lparr>rs_tunIPv4CIDR := in_tun_ipv4 (ce_inbounds E)\<rparr>) c else c)
      in put_section ''inbounds''
           (JArr (map JObj (own_inbounds E (cx_prerequisites c)) @ custom_inbounds E)) c)"

subsection \<open>Rule sets\<close>

definition mirror_base :: "int \<Rightarrow> string" where
  "mirror_base m =
     (if m = 2 then ''https://gcore.jsdelivr.net/gh''
      else if m = 3 then ''https://quantil.jsdelivr.net/gh''
      else if m = 4 then ''https://fastly.jsdelivr.net/gh''
      else if m = 5 then ''https://cdn.jsdelivr.net/gh''
      else ''https://testingcf.jsdelivr.net/gh'')"

text \<open>The branch name is the third part of the path.\<close>

fun join_mirror :: "nat \<Rightarrow> string list \<Rightarrow> string" where
  "join_mirror i [] = []"
| "join_mirror i (p # ps) = (if i = 2 then ''@'' else ''/'') @ p @ join_mirror (Suc i) ps"

definition get_jsdelivr_link :: "'z config_env_scheme \<Rightarrow> string \<Rightarrow> string" where
  "get_jsdelivr_link E link =
     (if ms_mirror (ce_misc E) = 0 then link
      else (case ce_url E link of
         Some (host, path, fileName) \<Rightarrow>
           if host = ''raw.githubusercontent.com''
           then mirror_base (ms_mirror (ce_misc E)) @ join_mirror 0 (split_skip_empty (CHR ''/'') path) else link
       | None \<Rightarrow> link))"

definition remote_rule_set :: "string \<Rightarrow> string \<Rightarrow> jobject" where
  "remote_rule_set tag url = jbuild [(''type'', JStr ''remote''), (''tag'', JStr tag), (''format'', JStr ''binary''),
     (''url'', JStr url)]"

definition rule_set_entry :: "'z config_env_scheme \<Rightarrow> string \<Rightarrow> jobject list" where
  "rule_set_entry E item =
     (if (case ce_url E item of Some (host, path, fileName) \<Rightarrow> str_contains fileName ''.srs'' | None \<Rightarrow> False)
      then [remote_rule_set (ro_ruleSetName E item) item]
      else if ce_ruleSetUrl E item \<noteq> [] then [remote_rule_set item (get_jsdelivr_link E (ce_ruleSetUrl E item))]
      else [])"

definition adblock_url :: string where
  "adblock_url = ''https://raw.githubusercontent.com/217heidai/adblockfilters/main/rules/adblocksingbox.srs''"

definition buildRuleSetArray :: "'z config_env_scheme \<Rightarrow> build_context \<Rightarrow> jobject list" where
  "buildRuleSetArray E c =
     concat (map (rule_set_entry E) (pq_neededRuleSets (cx_prerequisites c)))
     @ (if re_adblock_enable E then [remote_rule_set tag_adblockRuleSet (get_jsdelivr_link E adblock_url)] else [])"

subsection \<open>Routes\<close>

definition preferred_rule :: "string \<Rightarrow> json" where
  "preferred_rule tag = JObj (jbuild [(''preferred_by'', strings_json [tag]), (''action'', JStr ''route''),
     (''outbound'', JStr tag)])"

definition reject_rule :: json where
  "reject_rule = JObj (jbuild [(''action'', JStr ''reject'')])"

text \<open>The rules put in front of the profile's; an absent one is left out.\<close>

definition injected_rules :: "'z config_env_scheme \<Rightarrow> routeProfile \<Rightarrow> build_context \<Rightarrow> jobject list" where
  "injected_rules E P c =
     (let S = ge_settings E; own = (\<not> rt_isRaw P)
      in (if own then [jbuild [(''action'', JStr ''sniff'')]] else [])
       @ (if own \<and> gs_resolve_domain_strategy S \<noteq> []
          then [jbuild [(''inbound'', strings_json [tag_mixedIn, tag_tunIn]), (''action'', JStr ''resolve''),
            (''strategy'', JStr (gs_resolve_domain_strategy S))]] else [])
       @ (if own then [jbuild [(''protocol'', JStr ''dns''), (''action'', JStr ''hijack-dns'')]] else [])
       @ (if \<not> cx_forTest c then [jbuild [(''inbound'', JStr tag_dnsIn), (''action'', JStr ''reject'')]] else [])
       @ (if own \<and> gs_enable_redirect S \<and> \<not> cx_forTest c
          then [jbuild [(''inbound'', strings_json [tag_redirectIn]), (''action'', JStr ''sniff''),
            (''override_destination'', JBool True)]] else []))"

definition extra_core_rules :: "'z config_env_scheme \<Rightarrow> build_context \<Rightarrow> jobject list" where
  "extra_core_rules E c =
     (let path = ec_path (rs_extraCoreData (cx_result c))
      in if path = [] then [] else [jbuild [(''action'', JStr ''route''),
           (''process_path'', extraCoreProcessPaths E path), (''outbound'', JStr tag_direct)]])"

definition bridge_rules :: "build_context \<Rightarrow> jobject list" where
  "bridge_rules c = map (\<lambda>t. jbuild [(''inbound'', JStr (bridgeTagFor t)), (''action'', JStr ''route''),
     (''outbound'', JStr t)]) (cx_singIngressTags c)"

definition carriesGate :: "json list \<Rightarrow> string \<Rightarrow> bool" where
  "carriesGate rules tag = list_ex (\<lambda>r. list_ex (\<lambda>p. to_str [] p = tag)
     (to_arr (jget (to_obj r) ''preferred_by''))) rules"

definition aux_rules :: "routeProfile \<Rightarrow> json list \<Rightarrow> build_context \<Rightarrow> json list" where
  "aux_rules P profileRules c =
     map preferred_rule (filter (\<lambda>t. rt_isRaw P \<or> \<not> carriesGate profileRules t) (cx_vpnAuxTags c))"

definition final_tag :: "gen_settings \<Rightarrow> routeProfile \<Rightarrow> jobject \<Rightarrow> string" where
  "final_tag S P raw =
     (let defOut = rt_defaultOutboundID P
      in if rt_isRaw P then (if jcontains raw ''final'' then to_str [] (jget raw ''final'') else tag_proxy)
      else if defOut = blockID then tag_direct
      else if defOut = warpBypassID then (if gs_enable_warp S then tag_warpBypass else tag_proxy)
      else outboundIDToString defOut)"

definition l3_final_rules :: "routeProfile \<Rightarrow> string \<Rightarrow> build_context \<Rightarrow> json list" where
  "l3_final_rules P finalTag c =
     (if cx_l3Bridge c \<and> finalTag = tag_direct \<and> (rt_isRaw P \<or> rt_defaultOutboundID P = directID)
      then [preferred_rule tag_l3Direct] else [])"

definition fallthrough_rules :: "string \<Rightarrow> build_context \<Rightarrow> json list" where
  "fallthrough_rules finalTag c =
     (if \<not> cx_forTest c \<and> finalTag \<in> set (cx_vpnGateTags c) then [preferred_rule finalTag, reject_rule] else [])"

definition profile_rules :: "'z config_env_scheme \<Rightarrow> routeProfile \<Rightarrow> jobject \<Rightarrow> build_context \<Rightarrow> json list" where
  "profile_rules E P raw c =
     (let rules = (if rt_isRaw P then to_arr (jget raw ''rules'')
        else map JObj (fst (get_route_rules E False (pq_outboundMap (cx_prerequisites c)) P)))
      in if cx_l3Bridge c then withL3BridgeTwins rules else rules)"

definition route_rules :: "'z config_env_scheme \<Rightarrow> routeProfile \<Rightarrow> jobject \<Rightarrow> build_context \<Rightarrow> json list" where
  "route_rules E P raw c =
     (let own = profile_rules E P raw c; finalTag = final_tag (ge_settings E) P raw
      in map JObj (bridge_rules c) @ map JObj (extra_core_rules E c) @ map JObj (injected_rules E P c)
       @ own @ aux_rules P own c @ l3_final_rules P finalTag c @ fallthrough_rules finalTag c
       @ (if \<not> rt_isRaw P \<and> rt_defaultOutboundID P = blockID then [reject_rule] else []))"

definition route_object :: "'z config_env_scheme \<Rightarrow> routeProfile \<Rightarrow> jobject \<Rightarrow> build_context \<Rightarrow> jobject" where
  "route_object E P raw c =
     (let S = ge_settings E;
          sets = map JObj (buildRuleSetArray E c) @ (if rt_isRaw P then to_arr (jget raw ''rule_set'') else []);
          ob = (if rt_isRaw P then raw else []);
          ob = jput ''rule_set'' (JArr sets) (jput ''rules'' (JArr (route_rules E P raw c)) ob);
          ob = (if rt_isRaw P then put_when (\<not> jcontains ob ''final'') ''final'' (JStr tag_proxy) ob
                else jput ''final'' (JStr (final_tag S P raw)) ob);
          ob = put_when (gs_enable_stats S \<and> \<not> jcontains ob ''find_process'') ''find_process'' (JBool True) ob;
          ob = put_when (\<not> jcontains ob ''default_domain_resolver'') ''default_domain_resolver''
            (JObj (jbuild [(''server'', JStr tag_dnsDirect), (''strategy'', JStr (gs_default_domain_strategy S))])) ob
      in put_when (gs_spmode_vpn S \<and> \<not> jcontains ob ''auto_detect_interface'') ''auto_detect_interface'' (JBool True) ob)"

text \<open>A raw profile taken verbatim only gets the gates of the auxiliary endpoints.\<close>

definition verbatim_route :: "jobject \<Rightarrow> build_context \<Rightarrow> jobject" where
  "verbatim_route raw c =
     (if cx_vpnAuxTags c = [] then raw
      else jput ''rules'' (JArr (to_arr (jget raw ''rules'') @ map preferred_rule (cx_vpnAuxTags c))) raw)"

definition buildRouteSection :: "'z config_env_scheme \<Rightarrow> build_context \<Rightarrow> build_context" where
  "buildRouteSection E c = (case ge_route E of
     None \<Rightarrow> c\<lparr>cx_error := ''Routing profile does not exist, try resetting the route profile in Routing Settings''\<rparr>
   | Some P \<Rightarrow>
       let given = (if rt_isRaw P then re_text2object E (rt_rawRoute P) else []);
           raw = (if rt_isRaw P then TranslateRawOutbounds given (pq_outboundMap (cx_prerequisites c)) else [])
       in if rt_isRaw P \<and> given = [] then c\<lparr>cx_error := ''Raw routing profile is not a valid JSON object''\<rparr>
       else if rt_isRaw P \<and> rt_preventModifications P then put_section ''route'' (JObj (verbatim_route raw c)) c
       else if bridgeIngressMismatch c \<noteq> [] then c\<lparr>cx_error := bridgeIngressMismatch c\<rparr>
       else put_section ''route'' (JObj (route_object E P raw c)) c)"

subsection \<open>Experimental options and services\<close>

definition buildExperimentalSection :: "'z gen_env_scheme \<Rightarrow> build_context \<Rightarrow> build_context" where
  "buildExperimentalSection E c =
     (if cx_forTest c then c
      else let S = ge_settings E;
        ob = put_when (0 < gs_clash_api_port S) ''clash_api'' (JObj (jbuild
          [(''external_controller'', JStr (gs_clash_listen_addr S @ '':'' @ number (gs_clash_api_port S))),
           (''secret'', JStr (gs_clash_secret S)), (''external_ui'', JStr ''dashboard'')])) []
      in put_section ''experimental'' (JObj (jput ''cache_file'' (JObj (jbuild
          [(''enabled'', JBool True), (''store_fakeip'', JBool True), (''store_dns'', JBool True)])) ob)) c)"

definition buildServicesSection :: "'z gen_env_scheme \<Rightarrow> build_context \<Rightarrow> build_context" where
  "buildServicesSection E c =
     (let S = ge_settings E; dashboard = (0 < gs_api_port S)
      in if cx_forTest c \<or> (\<not> dashboard \<and> \<not> gs_enable_stats S) then c
      else let api = jbuild [(''type'', JStr ''api''), (''listen'', JStr ''127.0.0.1''),
             (''listen_port'', jint (if dashboard then gs_api_port S else 0)), (''secret'', JStr (gs_api_secret S))];
           api = put_when dashboard ''access_control_allow_origin''
             (strings_json [''http://127.0.0.1:'' @ number (gs_api_port S)]) api;
           api = put_when dashboard ''dashboard'' (JObj (jbuild [(''enabled'', JBool True), (''path'', JStr ''sb-dashboard'')])) api
      in put_section ''services'' (JArr [JObj api]) c)"

subsection \<open>The whole configuration\<close>

text \<open>The sections in the code's order; the build stops after the first that leaves an error.\<close>

definition config_sections :: "'z config_env_scheme \<Rightarrow> (build_context \<Rightarrow> build_context) list" where
  "config_sections E =
     [calculatePrerequisites E,
      buildInboundSection E \<circ> buildCertificateSection E \<circ> buildNTPSection E \<circ> buildLogSection E,
      buildOutboundsSection E, buildDNSSection E True, buildRouteSection E,
      buildExperimentalSection E, buildServicesSection E, buildXrayConfig E]"

fun run_sections :: "(build_context \<Rightarrow> build_context) list \<Rightarrow> build_context \<Rightarrow> build_context" where
  "run_sections [] c = c"
| "run_sections (s # ss) c =
     (let c = s c
      in if cx_error c \<noteq> [] then in_result (\<lambda>r. r\<lparr>rs_error := cx_error c\<rparr>) c else run_sections ss c)"

definition BuildSingBoxConfig :: "'z config_env_scheme \<Rightarrow> profile \<Rightarrow> build_result" where
  "BuildSingBoxConfig E ent =
     (if pr_type ent = ''custom'' \<and> Custom ent = None then
        new_result\<lparr>rs_error := ''Corrupted data, needed custom ent, got nullptr''\<rparr>
      else if isCustomFullConfig ent then new_result\<lparr>rs_coreConfig := fst (Build E ent)\<rparr>
      else cx_result (run_sections (config_sections E) (new_context ent)))"

end
