(* ===== verification/TestBuild.thy ===== *)
theory TestBuild
  imports RouteBuild
begin

text \<open>
  The configuration the latency test runs, \<^verbatim>\<open>src/configs/generate.cpp\<close> 2363 to 2403 and 2517 to
  2780: which profiles the shared test box can carry, whether the core accepts a profile, and the
  box itself. The core's answer to \<^verbatim>\<open>CheckConfig\<close> is a parameter.
\<close>

subsection \<open>Candidates\<close>

datatype testCandidate = TestBuild | TestXrayFullConfig | TestSkip string

definition terminal_hop :: "'z gen_env_scheme \<Rightarrow> int \<Rightarrow> bool" where
  "terminal_hop E i = (case profile_of E i of None \<Rightarrow> False
     | Some p \<Rightarrow> asks IsExtraCore p \<or> asks IsXrayFullConfig p)"

definition classifyTestCandidate :: "'z gen_env_scheme \<Rightarrow> profile \<Rightarrow> testCandidate" where
  "classifyTestCandidate E p =
     (if asks IsExtraCore p then TestSkip ''Skipping extra-core conf''
      else if asks IsXrayFullConfig p then TestXrayFullConfig
      else if pr_type p = ''chain'' then
        (if (case Chain p of None \<Rightarrow> False | Some l \<Rightarrow> list_ex (terminal_hop E) l)
         then TestSkip ''Skipping chain with terminal (extra-core or Xray full config) hop (cannot test)''
         else TestBuild)
      else if pr_type p = ''tailscale'' then TestSkip ''Skipping Tailscale conf''
      else if pr_type p = ''autoselector'' then TestSkip ''Skipping auto selector conf (test its members instead)''
      else TestBuild)"

subsection \<open>Validity\<close>

text \<open>The core's verdict on one configuration.\<close>

definition core_accepts :: "'z config_env_scheme \<Rightarrow> bool \<Rightarrow> jobject \<Rightarrow> bool" where
  "core_accepts E xray conf \<longleftrightarrow> fst (ce_check E xray conf) \<and> snd (ce_check E xray conf) = []"

definition singbox_conf :: "'z config_env_scheme \<Rightarrow> profile \<Rightarrow> jobject" where
  "singbox_conf E p =
     (let conf = (case Custom p of
            Some cu \<Rightarrow> if pr_type p = ''custom'' \<and> cu_type cu = CustomFullConfig then Some (re_text2object E (cu_config cu)) else None
          | None \<Rightarrow> None);
          key = (if asks (IsEndpoint (re_text2object E)) p then ''endpoints'' else ''outbounds'')
      in jput ''log'' (JObj (jbuild [(''level'', JStr (gs_log_level (ge_settings E)))]))
           (case conf of Some ob \<Rightarrow> ob | None \<Rightarrow> jbuild [(key, JArr [JObj (fst (Build E p))])]))"

text \<open>A profile that is neither a selector nor a chain.\<close>

definition valid_single :: "'z config_env_scheme \<Rightarrow> profile \<Rightarrow> bool" where
  "valid_single E p =
     (if pr_type p = ''custom'' \<and> Custom p = None then False
      else if pr_type p = ''custom'' \<and> asks IsXrayFullConfig p then
        (case Custom p of Some cu \<Rightarrow> re_text2object E (cu_config cu) \<noteq> [] | None \<Rightarrow> False)
      else if \<not> isCustomFullConfig p \<and> is_xray p then
        (case BuildXray E p of (out, err) \<Rightarrow>
          err = [] \<and> core_accepts E True (jbuild [(''outbounds'', JArr [JObj out])]))
      else core_accepts E False (singbox_conf E p))"

text \<open>
  The hops of a chain are validated in turn, chains among them included. Nothing in the code bounds
  the depth: \<open>None\<close> stands for a call that has not returned within the given depth.
\<close>

fun all_valid :: "(profile \<Rightarrow> bool option) \<Rightarrow> profile option list \<Rightarrow> bool option" where
  "all_valid v [] = Some True"
| "all_valid v (None # ps) = Some False"
| "all_valid v (Some p # ps) = (case v p of
     None \<Rightarrow> None | Some False \<Rightarrow> Some False | Some True \<Rightarrow> all_valid v ps)"

fun IsValid :: "'z config_env_scheme \<Rightarrow> nat \<Rightarrow> profile \<Rightarrow> bool option" where
  "IsValid E 0 p = None"
| "IsValid E (Suc d) p =
     (if pr_type p = ''autoselector'' then
        (let plan = plan_for E PlanForValidity p in Some (pl_error plan = [] \<and> pl_build plan \<noteq> []))
      else if pr_type p = ''chain'' then
        (case Chain p of None \<Rightarrow> Some False | Some l \<Rightarrow> all_valid (IsValid E d) (map (profile_of E) l))
      else Some (valid_single E p))"

subsection \<open>The test box\<close>

record test_result =
  tr_error :: string
  tr_fullConfigs :: "int \<Rightarrow> jobject option" \<comment> \<open>written as text\<close>
  tr_xrayFullConfigs :: "jobject list" \<comment> \<open>each written as text\<close>
  tr_tag2entID :: "string \<Rightarrow> int option"
  tr_coreConfig :: jobject
  tr_xrayConfig :: jobject
  tr_isXrayNeeded :: bool
  tr_outboundTags :: "string list"

definition new_test_result :: test_result where
  "new_test_result = \<lparr>tr_error = [], tr_fullConfigs = Map.empty, tr_xrayFullConfigs = [], tr_tag2entID = Map.empty,
     tr_coreConfig = [], tr_xrayConfig = [], tr_isXrayNeeded = False, tr_outboundTags = []\<rparr>"

text \<open>The loop's state; \<open>failed\<close> lists the profiles whose latency is set to -1.\<close>

record test_state =
  ts_ctx :: build_context
  ts_res :: test_result
  ts_suffix :: nat
  ts_portIdx :: nat
  ts_failed :: "profile list"

definition stop_test :: "string \<Rightarrow> test_state \<Rightarrow> bool \<times> test_state" where
  "stop_test err st = (True, st\<lparr>ts_res := (ts_res st)\<lparr>tr_error := err\<rparr>\<rparr>)"

definition fail_profile :: "profile \<Rightarrow> test_state \<Rightarrow> test_state" where
  "fail_profile p st = st\<lparr>ts_failed := ts_failed st @ [p]\<rparr>"

definition add_tested :: "string \<Rightarrow> profile \<Rightarrow> test_result \<Rightarrow> test_result" where
  "add_tested tag p r = r\<lparr>tr_outboundTags := tr_outboundTags r @ [tag], tr_tag2entID := (tr_tag2entID r)(tag \<mapsto> pr_id p)\<rparr>"

definition test_full_config :: "'z config_env_scheme \<Rightarrow> profile \<Rightarrow> test_state \<Rightarrow> bool \<times> test_state" where
  "test_full_config E p st =
     (let (tag, c) = buildOutboundChain E (chain_request_for [pr_id p] (hopTag testXrayFullPrefix (pr_id p))) (ts_ctx st);
          st = st\<lparr>ts_ctx := c\<rparr>
      in if cx_error c \<noteq> [] then stop_test (cx_error c) st
      else if \<not> rs_isXrayNeeded (cx_result c) \<or> rs_xrayConfig (cx_result c) = [] then (False, fail_profile p st)
      else (False, st\<lparr>ts_ctx := in_result (\<lambda>r. r\<lparr>rs_xrayConfig := [], rs_isXrayNeeded := False\<rparr>) c,
             ts_res := add_tested tag p ((ts_res st)\<lparr>tr_xrayFullConfigs :=
               tr_xrayFullConfigs (ts_res st) @ [rs_xrayConfig (cx_result c)]\<rparr>)\<rparr>))"

text \<open>The bridge ports an item takes from the common probe.\<close>

definition test_ports :: "int list \<Rightarrow> profile \<Rightarrow> nat \<Rightarrow> (int \<times> int) \<times> nat" where
  "test_ports ports p k =
     (let (sx, k) = deal ports (is_xray p) k
      in if pr_type p = ''chain'' then ((ports ! k, ports ! (k + 1)), k + 2) else ((sx, -1), k))"

definition test_chain :: "'z config_env_scheme \<Rightarrow> int list \<Rightarrow> profile \<Rightarrow> test_state \<Rightarrow> bool \<times> test_state" where
  "test_chain E ports p st = (case ge_groups E (pr_gid p) of
     None \<Rightarrow> stop_test ''Null group on profile, data is corrupted'' st
   | Some g \<Rightarrow>
       let ids = landing_hops g @ unwrapChain (ro_profile E) (pr_id p) @ front_hops g;
           ((sx, xs), k) = test_ports ports p (ts_portIdx st);
           (tag, c) = buildOutboundChain E ((chain_request_for ids (hopTag testChainPrefix (int (ts_suffix st))))
             \<lparr>cr_singToXrayPort := sx, cr_xrayToSingPort := xs\<rparr>) (ts_ctx st);
           st = st\<lparr>ts_ctx := c, ts_portIdx := k\<rparr>
       in if cx_error c \<noteq> [] then stop_test (cx_error c) st
       else (False, st\<lparr>ts_res := add_tested tag p (ts_res st), ts_suffix := ts_suffix st + 1\<rparr>))"

definition test_valid :: "'z config_env_scheme \<Rightarrow> int list \<Rightarrow> profile \<Rightarrow> test_state \<Rightarrow> bool \<times> test_state" where
  "test_valid E ports p st =
     (if pr_type p = ''custom'' \<and> Custom p = None then stop_test ''Corrupted data in build test config'' st
      else if isCustomFullConfig p then
        (case Custom p of None \<Rightarrow> (False, st) | Some cu \<Rightarrow>
          (False, st\<lparr>ts_res := (ts_res st)\<lparr>tr_fullConfigs := (tr_fullConfigs (ts_res st))
             (pr_id p \<mapsto> jput ''inbounds'' (JArr []) (re_text2object E (cu_config cu)))\<rparr>\<rparr>))
      else test_chain E ports p st)"

text \<open>\<open>None\<close>: the validation of the item has not returned within the depth.\<close>

definition test_item ::
  "'z config_env_scheme \<Rightarrow> nat \<Rightarrow> int list \<Rightarrow> profile \<Rightarrow> test_state \<Rightarrow> (bool \<times> test_state) option" where
  "test_item E d ports p st = (case classifyTestCandidate E p of
     TestSkip reason \<Rightarrow> Some (False, st)
   | TestXrayFullConfig \<Rightarrow> map_option (\<lambda>ok. if ok then test_full_config E p st else (False, fail_profile p st)) (IsValid E d p)
   | TestBuild \<Rightarrow> map_option (\<lambda>ok. if ok then test_valid E ports p st else (False, fail_profile p st)) (IsValid E d p))"

fun test_items ::
  "'z config_env_scheme \<Rightarrow> nat \<Rightarrow> int list \<Rightarrow> profile list \<Rightarrow> test_state \<Rightarrow> (bool \<times> test_state) option" where
  "test_items E d ports [] st = Some (False, st)"
| "test_items E d ports (p # ps) st = (case test_item E d ports p st of
     None \<Rightarrow> None
   | Some (stop, st') \<Rightarrow> if stop then Some (True, st') else test_items E d ports ps st')"

text \<open>The context as the sections that do not depend on the profiles leave it.\<close>

definition test_context :: "'z config_env_scheme \<Rightarrow> profile list \<Rightarrow> build_context" where
  "test_context E ps =
     (let c = (new_context new_profile)\<lparr>cx_forTest := True\<rparr>;
          (domains, err) = getEntDomains E (map pr_id ps) (cx_error c);
          c = in_prereqs (\<lambda>q. q\<lparr>pq_direct := (pq_direct q)\<lparr>ds_domains := domains\<rparr>,
                pq_needDirectDnsRules := (pq_needDirectDnsRules q \<or> domains \<noteq> [])\<rparr>) (c\<lparr>cx_error := err\<rparr>)
      in buildDNSSection E False c)"

definition test_bridge_inbounds :: "build_context \<Rightarrow> json list" where
  "test_bridge_inbounds c = map (\<lambda>b. JObj (socksBridgeInbound (bridgePrefix @ ''-'' @ number (br_port b)) b)) (cx_xrayToSingBridges c)"

definition finish_test :: "'z config_env_scheme \<Rightarrow> build_context \<Rightarrow> build_context" where
  "finish_test E c =
     (let c = c\<lparr>cx_outbounds := cx_outbounds c @ [jbuild [(''type'', JStr ''direct''), (''tag'', JStr tag_direct)]]\<rparr>;
          c = put_section ''outbounds'' (JArr (map JObj (cx_outbounds c))) c;
          c = put_section ''endpoints'' (JArr (map JObj (cx_endpoints c))) c;
          c = put_section ''route'' (JObj (jbuild [(''auto_detect_interface'', JBool True),
                (''default_domain_resolver'', JObj (jbuild [(''server'', JStr tag_dnsDirect),
                   (''strategy'', JStr (gs_default_domain_strategy (ge_settings E)))]))])) c
      in put_section ''inbounds'' (JArr (test_bridge_inbounds c)) c)"

definition take_config :: "build_context \<Rightarrow> test_result \<Rightarrow> test_result" where
  "take_config c r = r\<lparr>tr_coreConfig := rs_coreConfig (cx_result c), tr_xrayConfig := rs_xrayConfig (cx_result c),
     tr_isXrayNeeded := rs_isXrayNeeded (cx_result c)\<rparr>"

definition test_port_count :: "profile list \<Rightarrow> nat" where
  "test_port_count ps = length (filter is_xray ps) + 2 * length (filter (\<lambda>p. pr_type p = ''chain'') ps)"

definition BuildTestConfig :: "'z config_env_scheme \<Rightarrow> nat \<Rightarrow> profile list \<Rightarrow> (test_result \<times> profile list) option" where
  "BuildTestConfig E d ps =
     (let c = test_context E ps
      in if cx_error c \<noteq> [] then Some (new_test_result\<lparr>tr_error := cx_error c\<rparr>, [])
      else let c = buildNTPSection E (buildCertificateSection E (buildLogSection E c));
               (ports, c) = MkManyPorts E (test_port_count ps) ''127.0.0.1'' c;
               st = \<lparr>ts_ctx = c, ts_res = new_test_result, ts_suffix = 1, ts_portIdx = 0, ts_failed = []\<rparr>
      in case test_items E d ports ps st of
        None \<Rightarrow> None
      | Some (stop, st) \<Rightarrow>
          if stop then Some (ts_res st, ts_failed st)
          else let c = buildXrayConfig E (ts_ctx st)
          in if cx_error c \<noteq> [] then Some ((ts_res st)\<lparr>tr_error := cx_error c\<rparr>, ts_failed st)
          else Some (take_config (finish_test E c) (ts_res st), ts_failed st))"

end
