(* ===== verification/CidrProps.thy ===== *)
theory CidrProps
  imports Cidr
begin

text \<open>
  Cutting a hole out of a list of ranges is exact: no address is lost, none of the hole is kept.
\<close>

subsection \<open>What is assumed of Qt\<close>

definition host_bits_zero :: "u32 \<Rightarrow> nat \<Rightarrow> bool" where
  "host_bits_zero v n \<longleftrightarrow> (\<forall>i < 32 - n. \<not> bit v i)"

definition v6_bits_zero :: "bytes \<Rightarrow> nat \<Rightarrow> bool" where
  "v6_bits_zero b n \<longleftrightarrow> (\<forall>i \<in> {n..<128}. \<not> addr_bit b i)"

text \<open>
  Prefix lengths fit the address family, and the text printed for a network address, followed by
  its prefix length, is parsed as that network.
\<close>

definition host_ok :: "host_env \<Rightarrow> bool" where
  "host_ok E \<longleftrightarrow>
     (\<forall>s. case he_parseSubnet E s of (IPv4 v, n) \<Rightarrow> n \<le> 32 | (IPv6 b, n) \<Rightarrow> n \<le> 128 \<and> length b = 16
        | (OtherProtocol, n) \<Rightarrow> True) \<and>
     (\<forall>v n. n \<le> 32 \<longrightarrow> host_bits_zero v n \<longrightarrow>
        he_parseSubnet E (he_toString E (IPv4 v) @ ''/'' @ number (int n)) = (IPv4 v, int n)) \<and>
     (\<forall>b n. n \<le> 128 \<longrightarrow> length b = 16 \<longrightarrow> v6_bits_zero b n \<longrightarrow>
        he_parseSubnet E (he_toString E (IPv6 b) @ ''/'' @ number (int n)) = (IPv6 b, int n))"

subsection \<open>Printing and parsing a prefix\<close>

lemma length_4: "length xs = 4 \<longleftrightarrow> (\<exists>a b c d. xs = [a, b, c, d])"
  by (auto simp: numeral_eq_Suc length_Suc_conv)

lemma bit_byte: "bit (b :: 8 word) n \<Longrightarrow> n < 8"
  using bit_imp_le_length by fastforce

lemma bit_v4_of_bytes:
  "bit (v4_of_bytes [a, b, c, d]) n \<longleftrightarrow>
     (if n < 8 then bit d n else if n < 16 then bit c (n - 8) else if n < 24 then bit b (n - 16)
      else n < 32 \<and> bit a (n - 24))"
  by (auto simp: v4_of_bytes_def bit_or_iff bit_push_bit_iff bit_ucast_iff possible_bit_word dest: bit_byte)

lemma bit_0xFF: "bit (0xFF :: u32) n \<longleftrightarrow> n < 8"
proof -
  have "(0xFF :: u32) = mask 8" by (simp add: mask_eq_exp_minus_1)
  then show ?thesis by (simp only: bit_mask_iff possible_bit_word) auto
qed

lemma bit_low_byte: "n < 8 \<Longrightarrow> bit (ucast (x AND (0xFF :: u32)) :: 8 word) n = bit x n"
  by (simp only: bit_ucast_iff bit_and_iff bit_0xFF) (simp add: possible_bit_word)

lemma bit_v4_bytes:
  assumes "k < 4" and "n < 8"
  shows "bit (v4_bytes v ! k) n \<longleftrightarrow> bit v (24 - 8 * k + n)"
proof -
  have "k = 0 \<or> k = 1 \<or> k = 2 \<or> k = 3" using assms(1) by linarith
  then show ?thesis
    using assms(2) by (elim disjE) (simp_all add: v4_bytes_def bit_low_byte bit_drop_bit_eq add.commute del: unsigned_and_eq)
qed

lemma v4_bytes_of_bytes: "length addr = 4 \<Longrightarrow> v4_bytes (v4_of_bytes addr) = addr"
proof -
  assume "length addr = 4"
  then obtain a b c d where addr: "addr = [a, b, c, d]" by (auto simp: length_4)
  have "bit (v4_bytes (v4_of_bytes addr) ! k) n = bit (addr ! k) n" if "k < 4" "n < 8" for k n
  proof -
    have "k = 0 \<or> k = 1 \<or> k = 2 \<or> k = 3" using that(1) by linarith
    then show ?thesis using that(2) bit_v4_bytes [OF that]
      by (elim disjE) (simp_all add: addr bit_v4_of_bytes)
  qed
  then show ?thesis
    by (intro nth_equalityI bit_word_eqI) (simp_all add: addr v4_bytes_def)
qed

lemma addr_bit_v4: "m < 32 \<Longrightarrow> addr_bit (v4_bytes v) m = bit v (31 - m)"
proof -
  assume m: "m < 32"
  have small: "m div 8 < 4" "7 - m mod 8 < 8" using m by auto
  moreover have "24 - 8 * q + (7 - r) = 31 - (8 * q + r)" if "q < 4" "r < 8" for q r :: nat
    using that by linarith
  then have "24 - 8 * (m div 8) + (7 - m mod 8) = 31 - m"
    using small(1) by (metis mod_less_divisor mult_div_mod_eq zero_less_numeral)
  ultimately show ?thesis by (simp add: addr_bit_def bit_v4_bytes)
qed

lemma v4_host_bits:
  assumes "length addr = 4" and "n \<le> 32" and "\<forall>i \<in> {n..<32}. \<not> addr_bit addr i"
  shows "host_bits_zero (v4_of_bytes addr) n"
proof -
  have "\<not> bit (v4_of_bytes addr) i" if i: "i < 32 - n" for i
  proof -
    have "31 - i \<in> {n..<32}" using i by (simp, linarith)
    then have "\<not> addr_bit addr (31 - i)" using assms(3) by blast
    moreover have "addr_bit addr (31 - i) = bit (v4_of_bytes addr) i"
      using addr_bit_v4 [of "31 - i" "v4_of_bytes addr"] i by (simp add: v4_bytes_of_bytes assms(1))
    ultimately show ?thesis by simp
  qed
  then show ?thesis by (simp add: host_bits_zero_def)
qed

definition canonical :: "rawPrefix \<Rightarrow> bool" where
  "canonical p \<longleftrightarrow> prefix_ok p \<and> 0 \<le> rp_bits p \<and>
     (\<forall>i \<in> {nat (rp_bits p)..<8 * length (rp_addr p)}. \<not> addr_bit (rp_addr p) i)"

lemma parsePrefix_ok: "host_ok E \<Longrightarrow> prefix_ok (parsePrefix E s)"
proof -
  assume "host_ok E"
  then have "case he_parseSubnet E s of (IPv4 v, n) \<Rightarrow> n \<le> 32 | (IPv6 b, n) \<Rightarrow> n \<le> 128 \<and> length b = 16
        | (OtherProtocol, n) \<Rightarrow> True"
    by (simp add: host_ok_def)
  then show ?thesis
    by (auto simp: parsePrefix_def prefix_ok_def no_prefix_def v4_bytes_def split: prod.splits host_address.splits)
qed

lemma parse_print:
  assumes "host_ok E" and "canonical p"
  shows "parsePrefix E (prefixToString E p) = p"
proof -
  have p: "0 \<le> rp_bits p" "length (rp_addr p) = 4 \<or> length (rp_addr p) = 16"
      "nat (rp_bits p) \<le> 8 * length (rp_addr p)"
    using assms(2) by (auto simp: canonical_def prefix_ok_def)
  note v4 = conjunct1 [OF conjunct2 [OF assms(1) [unfolded host_ok_def]]]
  note v6 = conjunct2 [OF conjunct2 [OF assms(1) [unfolded host_ok_def]]]
  show ?thesis
  proof (cases "length (rp_addr p) = 4")
    case True
    have "host_bits_zero (v4_of_bytes (rp_addr p)) (nat (rp_bits p))"
      using True p assms(2) by (intro v4_host_bits) (auto simp: canonical_def)
    then have "he_parseSubnet E (prefixToString E p) = (IPv4 (v4_of_bytes (rp_addr p)), rp_bits p)"
      using v4 [rule_format, of "nat (rp_bits p)" "v4_of_bytes (rp_addr p)"] True p(1,3)
      by (simp add: prefixToString_def Let_def)
    with True p(1) show ?thesis by (simp add: parsePrefix_def v4_bytes_of_bytes)
  next
    case False
    with p(2) have l: "length (rp_addr p) = 16" by simp
    have "v6_bits_zero (rp_addr p) (nat (rp_bits p))"
      using l assms(2) by (simp add: v6_bits_zero_def canonical_def)
    then have "he_parseSubnet E (prefixToString E p) = (IPv6 (rp_addr p), rp_bits p)"
      using v6 [rule_format, of "nat (rp_bits p)" "rp_addr p"] l p(1,3)
      by (simp add: prefixToString_def Let_def)
    with p(1) show ?thesis by (simp add: parsePrefix_def)
  qed
qed

lemma sibling_canonical:
  assumes "prefix_ok cutp" and "0 < bits" and "int bits \<le> rp_bits cutp"
  shows "canonical (sibling cutp bits)"
proof -
  have l: "length (rp_addr cutp) = 4 \<or> length (rp_addr cutp) = 16" "bits \<le> 8 * length (rp_addr cutp)"
    using assms by (auto simp: prefix_ok_def)
  have "\<not> addr_bit (rp_addr (sibling cutp bits)) i" if "i \<in> {bits..<8 * length (rp_addr cutp)}" for i
    using that l by (simp add: sibling_def Let_def addr_bit_clear_all mult.commute)
  with l assms show ?thesis by (simp add: canonical_def prefix_ok_def)
qed

subsection \<open>Exactness\<close>

text \<open>An address that shares the first \<open>m\<close> but not the first \<open>n\<close> bits of another leaves it at one bit.\<close>

lemma first_difference:
  fixes m n :: nat
  assumes "\<forall>i < m. P i = Q i"
  shows "\<not> (\<forall>i < n. P i = Q i) \<longleftrightarrow>
    (\<exists>bits \<in> set [m + 1..<n + 1]. \<forall>i < bits. P i = (if i = bits - 1 then \<not> Q i else Q i))"
proof
  assume "\<not> (\<forall>i < n. P i = Q i)"
  then obtain j where "j < n" "P j \<noteq> Q j" by blast
  define k where "k = (LEAST j. P j \<noteq> Q j)"
  have "P k \<noteq> Q k" using \<open>P j \<noteq> Q j\<close> unfolding k_def by (rule LeastI)
  moreover have "P i = Q i" if "i < k" for i using not_less_Least [OF that [unfolded k_def]] by blast
  moreover have "k \<le> j" using \<open>P j \<noteq> Q j\<close> unfolding k_def by (rule Least_le)
  ultimately have k: "P k \<noteq> Q k" "\<And>i. i < k \<Longrightarrow> P i = Q i" "k \<le> j" by blast+
  have "m \<le> k" using assms k(1) by (meson not_less)
  then have "Suc k \<in> set [m + 1..<n + 1]" "\<forall>i < Suc k. P i = (if i = Suc k - 1 then \<not> Q i else Q i)"
    using \<open>j < n\<close> k by (auto simp: less_Suc_eq)
  then show "\<exists>bits \<in> set [m + 1..<n + 1]. \<forall>i < bits. P i = (if i = bits - 1 then \<not> Q i else Q i)" by blast
next
  assume "\<exists>bits \<in> set [m + 1..<n + 1]. \<forall>i < bits. P i = (if i = bits - 1 then \<not> Q i else Q i)"
  then obtain bits where "bits \<in> set [m + 1..<n + 1]" and *: "\<forall>i < bits. P i = (if i = bits - 1 then \<not> Q i else Q i)"
    by blast
  then have "0 < bits" "bits \<le> n" by auto
  with * have "P (bits - 1) \<noteq> Q (bits - 1)" "bits - 1 < n" by auto
  then show "\<not> (\<forall>i < n. P i = Q i)" by blast
qed

lemma subtract_one_exact:
  assumes "host_ok E" and "prefix_ok cutp" and "0 \<le> rp_bits cutp"
  shows "(\<exists>e \<in> set (subtract_one E cutp entry). in_prefix (parsePrefix E e) a) \<longleftrightarrow>
    in_prefix (parsePrefix E entry) a \<and> \<not> in_prefix cutp a"
proof -
  let ?r = "parsePrefix E entry"
  have ok: "prefix_ok ?r" using assms(1) by (rule parsePrefix_ok)
  note c = prefixContains_bits [OF assms(2), of ?r] prefixContains_bits [OF ok, of cutp]
  show ?thesis
  proof (cases "prefixContains cutp ?r")
    case True
    then have "in_prefix ?r a \<Longrightarrow> in_prefix cutp a" unfolding c by (auto simp: in_prefix_def)
    with True show ?thesis by (auto simp: subtract_one_def)
  next
    case outside: False
    show ?thesis
    proof (cases "prefixContains ?r cutp")
      case False
      have "\<not> (in_prefix ?r a \<and> in_prefix cutp a)"
      proof
        assume a: "in_prefix ?r a \<and> in_prefix cutp a"
        show False
        proof (cases "rp_bits cutp \<le> rp_bits ?r")
          case True
          with a outside assms(3) show False unfolding c by (auto simp: in_prefix_def)
        next
          case False
          with a \<open>\<not> prefixContains ?r cutp\<close> show False unfolding c by (auto simp: in_prefix_def)
        qed
      qed
      with outside False show ?thesis by (auto simp: subtract_one_def)
    next
      case True
      then have r: "0 \<le> rp_bits ?r" "rp_bits ?r \<le> rp_bits cutp" "length (rp_addr cutp) = length (rp_addr ?r)"
          "\<forall>i < nat (rp_bits ?r). addr_bit (rp_addr ?r) i = addr_bit (rp_addr cutp) i"
        unfolding c by auto
      let ?bs = "[nat (rp_bits ?r) + 1..<nat (rp_bits cutp) + 1]"
      have b: "in_prefix (parsePrefix E (prefixToString E (sibling cutp bits))) a \<longleftrightarrow>
          length a = length (rp_addr cutp) \<and>
          (\<forall>i < bits. addr_bit a i = (if i = bits - 1 then \<not> addr_bit (rp_addr cutp) i else addr_bit (rp_addr cutp) i))"
        if "bits \<in> set ?bs" for bits
      proof -
        have bs: "0 < bits" "int bits \<le> rp_bits cutp" "bits \<le> 8 * length (rp_addr cutp)"
          using that assms(2,3) by (auto simp: prefix_ok_def)
        then show ?thesis
          by (simp add: parse_print [OF assms(1)] sibling_canonical [OF assms(2)] in_prefix_def sibling_bit)
      qed
      have "(\<exists>e \<in> set (subtract_one E cutp entry). in_prefix (parsePrefix E e) a) \<longleftrightarrow>
          (\<exists>bits \<in> set ?bs. in_prefix (parsePrefix E (prefixToString E (sibling cutp bits))) a)"
        using True outside by (simp add: subtract_one_def Let_def del: set_upt)
      also have "\<dots> \<longleftrightarrow> length a = length (rp_addr cutp) \<and> (\<exists>bits \<in> set ?bs. \<forall>i < bits. addr_bit a i =
          (if i = bits - 1 then \<not> addr_bit (rp_addr cutp) i else addr_bit (rp_addr cutp) i))"
        using b by blast
      also have "\<dots> \<longleftrightarrow> in_prefix ?r a \<and> \<not> in_prefix cutp a"
      proof (cases "\<forall>i < nat (rp_bits ?r). addr_bit a i = addr_bit (rp_addr cutp) i")
        case agree: True
        show ?thesis
          unfolding first_difference [OF agree, symmetric] in_prefix_def using agree r assms(3) by auto
      next
        case False
        have "\<not> (\<exists>bits \<in> set ?bs. \<forall>i < bits. addr_bit a i =
          (if i = bits - 1 then \<not> addr_bit (rp_addr cutp) i else addr_bit (rp_addr cutp) i))"
        proof
          assume "\<exists>bits \<in> set ?bs. \<forall>i < bits. addr_bit a i =
            (if i = bits - 1 then \<not> addr_bit (rp_addr cutp) i else addr_bit (rp_addr cutp) i)"
          then obtain bits where "bits \<in> set ?bs" and bits: "\<forall>i < bits. addr_bit a i =
            (if i = bits - 1 then \<not> addr_bit (rp_addr cutp) i else addr_bit (rp_addr cutp) i)" by blast
          then have "nat (rp_bits ?r) < bits" by auto
          with bits have "addr_bit a i = addr_bit (rp_addr cutp) i" if "i < nat (rp_bits ?r)" for i
            using that by auto
          with False show False by blast
        qed
        moreover have "\<not> in_prefix ?r a" using False r by (auto simp: in_prefix_def)
        ultimately show ?thesis by blast
      qed
      finally show ?thesis .
    qed
  qed
qed

text \<open>A printer and parser with the assumed behaviour: a family digit, the raw bytes, the length.\<close>

definition demo_host :: host_env where
  "demo_host = \<lparr>
     he_parseSubnet = (\<lambda>s. case s of
       [] \<Rightarrow> (OtherProtocol, -1)
     | f # r \<Rightarrow>
         let k = (if f = CHR ''4'' then 4 else 16); n = ascii_int (drop (Suc k) r);
             b = map (\<lambda>c. word_of_nat (of_char c)) (take k r)
         in if length b \<noteq> k \<or> n < 0 \<or> 8 * int k < n then (OtherProtocol, -1)
            else if k = 4 then (IPv4 (v4_of_bytes b), n) else (IPv6 b, n)),
     he_toString = (\<lambda>h. case h of
       IPv4 v \<Rightarrow> CHR ''4'' # map (\<lambda>b. char_of (unat b)) (v4_bytes v)
     | IPv6 b \<Rightarrow> CHR ''6'' # map (\<lambda>b. char_of (unat b)) b
     | OtherProtocol \<Rightarrow> [])\<rparr>"

lemma byte_mod [simp]: "word_of_nat (unat b mod 256) = (b :: 8 word)"
proof -
  have "unat b < 256" by (rule order_less_le_trans [OF unsigned_less]) simp
  then show ?thesis by simp
qed

lemma length_v4_bytes [simp]: "length (v4_bytes v) = 4"
  by (simp add: v4_bytes_def)

lemma ascii_int_number: "n \<le> 128 \<Longrightarrow> ascii_int (number (int n)) = int n"
proof -
  have "list_all (\<lambda>n. ascii_int (number (int n)) = int n) [0..<129]" by code_simp
  moreover assume "n \<le> 128"
  ultimately show ?thesis by (simp add: list_all_iff)
qed

lemma v4_of_bytes_of: "v4_of_bytes (v4_bytes v) = v"
proof (rule bit_word_eqI)
  fix n assume "n < LENGTH(32)"
  then have n: "31 - n < 32" "31 - (31 - n) = n" by simp_all
  show "bit (v4_of_bytes (v4_bytes v)) n = bit v n"
    using addr_bit_v4 [OF n(1), of v] addr_bit_v4 [OF n(1), of "v4_of_bytes (v4_bytes v)"]
      v4_bytes_of_bytes [of "v4_bytes v"]
    unfolding n(2) by simp
qed

lemma demo_host_ok: "host_ok demo_host"
  unfolding host_ok_def
proof (intro conjI allI impI)
  fix s show "case he_parseSubnet demo_host s of (IPv4 v, n) \<Rightarrow> n \<le> 32 | (IPv6 b, n) \<Rightarrow> n \<le> 128 \<and> length b = 16
        | (OtherProtocol, n) \<Rightarrow> True"
    by (cases s) (auto simp: demo_host_def Let_def)
next
  fix v n assume "n \<le> (32 :: nat)"
  then show "he_parseSubnet demo_host (he_toString demo_host (IPv4 v) @ ''/'' @ number (int n)) = (IPv4 v, int n)"
    by (simp add: demo_host_def Let_def ascii_int_number v4_of_bytes_of comp_def)
next
  fix b :: bytes and n assume "n \<le> (128 :: nat)" "length b = 16"
  then show "he_parseSubnet demo_host (he_toString demo_host (IPv6 b) @ ''/'' @ number (int n)) = (IPv6 b, int n)"
    by (simp add: demo_host_def Let_def ascii_int_number comp_def)
qed

definition demo_range :: "bytes \<Rightarrow> int \<Rightarrow> string" where
  "demo_range b n = prefixToString demo_host \<lparr>rp_addr = b, rp_bits = n\<rparr>"

text \<open>
  C19: Subtracting a prefix from a list of ranges is exact. An address of either family lies in one
  of the resulting ranges exactly when it lies in one of the given ranges and not in the hole,
  whatever the nesting; entries that do not parse stand for no address.
\<close>

theorem subtractPrefix_exact:
  assumes "host_ok E"
  shows "(\<exists>e \<in> set (subtractPrefix E ranges hole). in_prefix (parsePrefix E e) a) \<longleftrightarrow>
    (\<exists>e \<in> set ranges. in_prefix (parsePrefix E e) a) \<and> \<not> in_prefix (parsePrefix E hole) a"
proof (cases "rp_bits (parsePrefix E hole) < 0")
  case True
  then show ?thesis by (auto simp: subtractPrefix_def in_prefix_def)
next
  case False
  then show ?thesis
    using subtract_one_exact [OF assms parsePrefix_ok [OF assms], of hole]
    by (auto simp: subtractPrefix_def Let_def)
qed

lemma subtractPrefix_exact_witness:
  "(\<exists>e \<in> set (subtractPrefix demo_host [demo_range [10, 0, 0, 0] 8, demo_range [172, 16, 0, 0] 12] (demo_range [10, 1, 2, 0] 24)).
      in_prefix (parsePrefix demo_host e) [10, 1, 3, 7]) \<and>
   \<not> (\<exists>e \<in> set (subtractPrefix demo_host [demo_range [10, 0, 0, 0] 8, demo_range [172, 16, 0, 0] 12] (demo_range [10, 1, 2, 0] 24)).
      in_prefix (parsePrefix demo_host e) [10, 1, 2, 7])"
  unfolding subtractPrefix_exact [OF demo_host_ok] by code_simp

end
