(* ===== verification/ConfigDemo.thy ===== *)
theory ConfigDemo
  imports PrereqBuild CidrProps
begin

text \<open>
  A concrete environment for whole configurations: a route profile that sends one domain to a
  profile of its own, keeps an OpenVPN endpoint beside the started profile and falls back to the
  proxy. Witnesses evaluate the builder on it.
\<close>

definition demo_dns :: dns_settings where
  "demo_dns = \<lparr>dn_underlying_dns = [], dn_use_dns_object = False, dn_dns_object = [],
     dn_remote_dns = ''tls://8.8.8.8'', dn_direct_dns = ''local'', dn_remote_strategy = [],
     dn_direct_strategy = [], dn_predefined_enable = False, dn_predefined_rules = [], dn_use_hosts = True,
     dn_v4_resp = ''127.0.0.1'', dn_v6_resp = [], dn_fake_dns = False, dn_final_out = ''proxy'',
     dn_cache_capacity = 1024, dn_disable_cache = False, dn_disable_expire = False,
     dn_reverse_mapping = False, dn_query_timeout = [], dn_optimistic = False, dn_optimistic_timeout = []\<rparr>"

definition demo_inbounds :: inbound_settings where
  "demo_inbounds = \<lparr>in_disable_mixed = False, in_address = ''127.0.0.1'', in_socks_port = 2080,
     in_auth = False, in_user = [], in_pass = [], in_vpn_mtu = 1500, in_vpn_implementation = ''gvisor'',
     in_vpn_strict_route = False, in_vpn_auto_redirect = False, in_tun_ipv4 = ''172.19.0.1/24'',
     in_tun_ipv6 = [], in_vpn_ipv6 = False, in_enable_tun_routing = True, in_core_dns_port = 6450,
     in_redirect_address = [], in_redirect_port = 0, in_dns_server_lan = False, in_dns_server_port = 53,
     in_custom_inbound = []\<rparr>"

definition demo_misc :: misc_settings where
  "demo_misc = \<lparr>ms_enable_ntp = False, ms_ntp_server = [], ms_ntp_port = 0, ms_ntp_interval = [],
     ms_ntp_outbound = [], ms_mozilla_certs = False, ms_disable_private_bypass = False, ms_mirror = 0\<rparr>"

definition demo_config_route :: routeProfile where
  "demo_config_route = GetDefaultChain\<lparr>rt_Rules := rt_Rules GetDefaultChain @
     [new_rule\<lparr>rr_name := ''Own'', rr_action := ''route'', rr_domain := [''own.example''], rr_outboundID := 1\<rparr>],
     rt_endpointProfileIDs := [4]\<rparr>"

definition demo_config :: config_env where
  "demo_config = gen_env.extend (demo_gen\<lparr>ge_route := Some demo_config_route\<rparr>)
     \<lparr>ce_host = demo_host, ce_inSubnet = (\<lambda>_ _ _. False), ce_dns = demo_dns, ce_inbounds = demo_inbounds,
      ce_misc = demo_misc, ce_simplified = (\<lambda>s. s), ce_setAddress = (\<lambda>s. None), ce_interfaces = [],
      ce_url = (\<lambda>_. None), ce_ruleSetUrl = (\<lambda>_. []), ce_check = (\<lambda>_ _. (True, [])),
      ce_tailscaleGlobalDNS = (\<lambda>_. None)\<rparr>"

definition demo_started :: profile where
  "demo_started = demo_hop 5 ''chain'' (ChainOb [3, 2])"

end
