(* ===== verification/SectionProps.thy ===== *)
theory SectionProps
  imports ChainPathProps OutboundBuild
begin

text \<open>
  The outbounds of a whole configuration: the invariant \<open>sound\<close> of the context (tags once each,
  detours and bridges that lead to an object that exists), and that every stage of
  \<open>buildOutboundsSection\<close> keeps it while its tags stay inside a space of their own.
\<close>

subsection \<open>The invariant\<close>

definition objs :: "build_context \<Rightarrow> jobject list" where
  "objs c = cx_outbounds c @ cx_endpoints c"

definition tags_of :: "build_context \<Rightarrow> string list" where
  "tags_of c = map obj_tag (objs c)"

definition sound :: "string set \<Rightarrow> build_context \<Rightarrow> bool" where
  "sound T c \<longleftrightarrow> distinct (tags_of c) \<and> set (tags_of c) \<subseteq> T \<and>
     (\<forall>ob \<in> set (objs c). \<forall>t. obj_detour ob = Some t \<longrightarrow> t \<in> set (tags_of c)) \<and>
     length (cx_singIngressTags c) = length (cx_xrayToSingBridges c) \<and>
     set (cx_singIngressTags c) \<subseteq> set (tags_of c) \<and>
     length (cx_xrayIngressTags c) = length (cx_singToXrayBridges c) \<and>
     set (cx_xrayIngressTags c) \<subseteq> obj_tag ` set (cx_xrayOutbounds c)"

lemma soundD:
  assumes "sound T c"
  shows "distinct (tags_of c)" "set (tags_of c) \<subseteq> T"
    "ob \<in> set (objs c) \<Longrightarrow> obj_detour ob = Some t \<Longrightarrow> t \<in> set (tags_of c)"
    "length (cx_singIngressTags c) = length (cx_xrayToSingBridges c)"
    "set (cx_singIngressTags c) \<subseteq> set (tags_of c)"
    "length (cx_xrayIngressTags c) = length (cx_singToXrayBridges c)"
    "set (cx_xrayIngressTags c) \<subseteq> obj_tag ` set (cx_xrayOutbounds c)"
  using assms by (auto simp: sound_def)

lemma sound_mono: "sound T c \<Longrightarrow> T \<subseteq> U \<Longrightarrow> sound U c"
  by (auto simp: sound_def)

text \<open>Objects with new tags, closed under detours together with the old ones.\<close>

lemma sound_add:
  assumes "sound T c" "mset (objs c') = mset (objs c) + mset os"
    and "distinct (map obj_tag os)" "obj_tag ` set os \<subseteq> U" "T \<inter> U = {}"
    and "\<forall>ob \<in> set os. \<forall>t. obj_detour ob = Some t \<longrightarrow> t \<in> set (tags_of c) \<union> obj_tag ` set os"
    and "cx_singIngressTags c' = cx_singIngressTags c @ ts" "cx_xrayToSingBridges c' = cx_xrayToSingBridges c @ bs"
    and "length ts = length bs" "set ts \<subseteq> obj_tag ` set os"
    and "cx_xrayIngressTags c' = cx_xrayIngressTags c @ xs" "cx_singToXrayBridges c' = cx_singToXrayBridges c @ ys"
    and "length xs = length ys" "cx_xrayOutbounds c' = cx_xrayOutbounds c @ xo" "set xs \<subseteq> obj_tag ` set xo"
  shows "sound (T \<union> U) c'" "set (tags_of c') = set (tags_of c) \<union> obj_tag ` set os"
proof -
  have o: "set (objs c') = set (objs c) \<union> set os"
    using arg_cong [OF assms(2), of set_mset] by simp
  then show t: "set (tags_of c') = set (tags_of c) \<union> obj_tag ` set os" by (simp add: tags_of_def image_Un)
  have "mset (tags_of c') = mset (tags_of c @ map obj_tag os)"
    using arg_cong [OF assms(2), of "image_mset obj_tag"] by (simp add: tags_of_def)
  moreover have "distinct (tags_of c @ map obj_tag os)"
    using soundD(1,2) [OF assms(1)] assms(3-5) by auto
  ultimately have d: "distinct (tags_of c')" by (metis mset_eq_imp_distinct_iff)
  show "sound (T \<union> U) c'"
    unfolding sound_def
  proof (intro conjI ballI allI impI)
    fix ob t assume "ob \<in> set (objs c')" "obj_detour ob = Some t"
    then show "t \<in> set (tags_of c')" using soundD(3) [OF assms(1)] assms(6) o t by blast
  qed (use d t assms soundD [OF assms(1)] in auto)
qed

subsection \<open>A chain\<close>

lemma emits_objs: "emits os c c' \<Longrightarrow> mset (objs c') = mset (objs c) + mset (map snd os)"
proof -
  assume "emits os c c'"
  then have "mset (objs c') = mset (objs c) + (mset (map snd (filter (\<lambda>o'. \<not> fst o') os)) + mset (map snd (filter fst os)))"
    by (simp add: emits_def objs_def)
  also have "mset (map snd (filter (\<lambda>o'. \<not> fst o') os)) + mset (map snd (filter fst os)) = mset (map snd os)"
    by (induction os) auto
  finally show ?thesis .
qed

lemma sound_chain:
  assumes "sound T c" "buildOutboundChain E req c = (t, c')" "cx_error c' = []"
    and "request_ok req" "cr_hopIDs req \<noteq> []" "hops_plain E (cr_hopIDs req)" "T \<inter> chain_tag_space req = {}"
  shows "sound (T \<union> chain_tag_space req) c'" "t = ingress_tag req"
    "insert t (set (tags_of c)) \<subseteq> set (tags_of c')" "cx_error c = []"
    "cx_forTest c' = cx_forTest c" "cx_prerequisites c' = cx_prerequisites c" "cx_ent c' = cx_ent c"
    "cx_l3Bridge c' = cx_l3Bridge c" "cx_vpnAuxTags c' = cx_vpnAuxTags c"
    "rs_coreConfig (cx_result c') = rs_coreConfig (cx_result c)"
    "cr_warpWrap req \<Longrightarrow> tag_warpBypass \<in> set (tags_of c')"
proof -
  obtain lead xs tail b1 b2 where b: "chain_built E req c c' lead xs tail b1 b2"
    using chain_success [of E req c] assms(2,3) by auto
  show t: "t = ingress_tag req" using assms(2) by (simp add: buildOutboundChain_def)
  let ?os = "chain_objects E req lead xs b1 tail"
  note B = b [unfolded chain_built_def]
  have em: "emits ?os c c'" using B by (simp add: chain_objects_def)
  have tl: "tail \<noteq> [] \<Longrightarrow> sing_tag (tail_opts req (lead_run lead xs b1)) 0 \<in> obj_tag ` snd ` set ?os"
    using arg_cong [OF chain_object_tags, of set E req lead xs b1 tail] by (auto simp: image_image)
  have xt: "xs \<noteq> [] \<Longrightarrow> ingress_tag req \<in> obj_tag ` set (xray_objects E (leading_opts req) b2 0 xs)"
    by (cases xs) (auto simp: xray_ingress [symmetric])
  obtain hops where hp: "\<forall>e \<in> set (lead @ xs @ tail). plain_hop E e" using built_hops [OF b assms(6)] by metis
  have pl: "\<forall>e \<in> set (lead_run lead xs b1) \<union> set tail. plain_hop E e"
    using hp by (auto simp: lead_run_def)
  have cl: "ob \<in> snd ` set ?os \<Longrightarrow> obj_detour ob = Some u \<Longrightarrow> u \<in> obj_tag ` snd ` set ?os" for ob u
    using chain_detours_closed [OF b assms(4) pl] .
  let ?si = "if tail = [] then [] else [sing_tag (tail_opts req (lead_run lead xs b1)) 0]"
  let ?xo = "if xs = [] then [] else xray_objects E (leading_opts req) b2 0 xs"
  let ?xi = "if xs = [] then [] else [ingress_tag req]"
  have eff: "cx_singIngressTags c' = cx_singIngressTags c @ ?si"
    "cx_xrayToSingBridges c' = cx_xrayToSingBridges c @ (if tail = [] then [] else [b2])"
    "cx_xrayIngressTags c' = cx_xrayIngressTags c @ ?xi"
    "cx_singToXrayBridges c' = cx_singToXrayBridges c @ (if xs = [] then [] else [b1])"
    "cx_xrayOutbounds c' = cx_xrayOutbounds c @ ?xo"
    using B by simp_all
  have sub: "length ?si = length (if tail = [] then [] else [b2])" "set ?si \<subseteq> obj_tag ` set (map snd ?os)"
    "length ?xi = length (if xs = [] then [] else [b1])" "set ?xi \<subseteq> obj_tag ` set ?xo"
    using tl xt by auto
  have new: "distinct (map obj_tag (map snd ?os))" "obj_tag ` set (map snd ?os) \<subseteq> chain_tag_space req"
    using chain_tags_distinct [OF assms(4)] chain_tags_space [OF b] by simp_all
  have cl': "\<forall>ob \<in> set (map snd ?os). \<forall>u. obj_detour ob = Some u \<longrightarrow>
      u \<in> set (tags_of c) \<union> obj_tag ` set (map snd ?os)"
    using cl by auto
  note A = sound_add [OF assms(1) emits_objs [OF em] new assms(7) cl' eff(1,2) sub(1,2) eff(3,4) sub(3) eff(5) sub(4)]
  show "sound (T \<union> chain_tag_space req) c'" by (rule A(1))
  show "insert t (set (tags_of c)) \<subseteq> set (tags_of c')"
    unfolding A(2) t using chain_ingress [OF b assms(4,5)] by auto
  show "tag_warpBypass \<in> set (tags_of c')" if w: "cr_warpWrap req"
  proof -
    have "1 < length (lead_run lead xs b1)" using warp_in_front [OF b] assms(4) w by (auto simp: request_ok_def)
    then have "sing_tag (leading_opts req) 1 \<in> set (map (obj_tag \<circ> snd) ?os)"
      unfolding chain_object_tags by (auto simp del: upt_Suc)
    then show ?thesis using w unfolding A(2) by (simp add: leading_tag image_image)
  qed
  show "cx_error c = []" "cx_forTest c' = cx_forTest c" "cx_prerequisites c' = cx_prerequisites c" "cx_ent c' = cx_ent c"
    "cx_l3Bridge c' = cx_l3Bridge c" "cx_vpnAuxTags c' = cx_vpnAuxTags c"
    "rs_coreConfig (cx_result c') = rs_coreConfig (cx_result c)"
    using B by simp_all
qed

subsection \<open>Rows of chains\<close>

text \<open>Where the chains of a row start, and the tags of the row from a start onwards.\<close>

fun starts :: "nat \<Rightarrow> int list list \<Rightarrow> nat list" where
  "starts s [] = []"
| "starts s (ids # rest) = s # starts (s + length ids) rest"

definition row_space :: "string \<Rightarrow> nat \<Rightarrow> string set" where
  "row_space prefix s = (\<lambda>n. hopTag prefix (int n)) ` {s..}"

lemma row_space_split: "row_space p s = (\<lambda>n. hopTag p (int n)) ` {s..<s + k} \<union> row_space p (s + k)"
proof -
  have "{s..} = {s..<s + k} \<union> {s + k..}" by auto
  then show ?thesis by (simp only: row_space_def image_Un)
qed

lemma row_space_disjoint: "(\<lambda>n. hopTag p (int n)) ` {s..<s + k} \<inter> row_space p (s + k) = {}"
  by (auto simp: row_space_def hopTag_inject)

lemma starts_ge: "k \<in> set (starts s rows) \<Longrightarrow> s \<le> k"
  by (induction s rows rule: starts.induct) force+

lemma row_in_space: "k \<in> set (starts s rows) \<Longrightarrow> hopTag p (int k) \<in> row_space p s"
  using starts_ge by (auto simp: row_space_def)

lemma credit_last_fields [simp]:
  "sound T (credit_last p c) = sound T c" "tags_of (credit_last p c) = tags_of c" "cx_error (credit_last p c) = cx_error c"
  "cx_forTest (credit_last p c) = cx_forTest c" "cx_prerequisites (credit_last p c) = cx_prerequisites c"
  "cx_ent (credit_last p c) = cx_ent c" "cx_l3Bridge (credit_last p c) = cx_l3Bridge c"
  "cx_vpnAuxTags (credit_last p c) = cx_vpnAuxTags c" "cx_outbounds (credit_last p c) = cx_outbounds c"
  "rs_coreConfig (cx_result (credit_last p c)) = rs_coreConfig (cx_result c)"
  by (simp_all add: credit_last_def sound_def tags_of_def objs_def split: list.split)

lemma credit_wrapper [simp]:
  "sound T (case w of Some p \<Rightarrow> credit_last p c | None \<Rightarrow> c) = sound T c"
  "tags_of (case w of Some p \<Rightarrow> credit_last p c | None \<Rightarrow> c) = tags_of c"
  "cx_error (case w of Some p \<Rightarrow> credit_last p c | None \<Rightarrow> c) = cx_error c"
  by (simp_all split: option.split)

definition kept :: "build_context \<Rightarrow> build_context \<Rightarrow> bool" where
  "kept c c' \<longleftrightarrow> cx_forTest c' = cx_forTest c \<and> cx_prerequisites c' = cx_prerequisites c \<and>
     cx_l3Bridge c' = cx_l3Bridge c \<and> rs_coreConfig (cx_result c') = rs_coreConfig (cx_result c)"

lemma kept_refl [simp]: "kept c c"
  by (simp add: kept_def)

lemma kept_trans: "kept c d \<Longrightarrow> kept d e \<Longrightarrow> kept c e"
  by (simp add: kept_def)

lemma kept_credit [simp]: "kept c (credit_last p d) = kept c d"
  "kept c (case w of Some p \<Rightarrow> credit_last p d | None \<Rightarrow> d) = kept c d"
  by (simp_all add: kept_def split: option.split)

lemma chain_error: "buildOutboundChain E req c = (t, c') \<Longrightarrow> cx_error c' = [] \<Longrightarrow> cx_error c = []"
  using chain_success [of E req c] by (auto simp: chain_built_def)

lemma build_routes_error: "cx_error (build_routes E s rgs c) = [] \<Longrightarrow> cx_error c = []"
proof (induction rgs arbitrary: s c)
  case (Cons rg rgs)
  obtain t c' where b: "buildOutboundChain E (row_request routeChainPrefix False (rg_hopIDs rg) s) c = (t, c')"
    by (metis prod.exhaust)
  have "cx_error c' = []" using Cons.IH [OF Cons.prems [simplified, simplified b prod.case]] by simp
  then show ?case by (rule chain_error [OF b])
qed simp

definition row_ok :: "'z gen_env_scheme \<Rightarrow> int list list \<Rightarrow> bool" where
  "row_ok E rows \<longleftrightarrow> (\<forall>ids \<in> set rows. ids \<noteq> [] \<and> hops_plain E ids)"

lemma row_request:
  "request_ok (row_request p a ids s)" "cr_hopIDs (row_request p a ids s) = ids"
  "ingress_tag (row_request p a ids s) = hopTag p (int s)"
  "chain_tag_space (row_request p a ids s) = (\<lambda>n. hopTag p (int n)) ` {s..<s + length ids}"
proof -
  have "{int s..<int s + int (length ids)} = int ` {s..<s + length ids}"
    by (auto simp: image_int_atLeastLessThan)
  then show "chain_tag_space (row_request p a ids s) = (\<lambda>n. hopTag p (int n)) ` {s..<s + length ids}"
    by (simp add: chain_tag_space_def row_request_def chain_request_for_def image_image)
qed (auto simp: row_request_def request_ok_def chain_request_for_def ingress_tag_def)

lemma sound_row_step:
  assumes "sound T c" "buildOutboundChain E (row_request p a ids s) c = (t, c')" "cx_error c' = []"
    and "ids \<noteq> []" "hops_plain E ids" "T \<inter> row_space p s = {}"
  defines "U \<equiv> T \<union> (\<lambda>n. hopTag p (int n)) ` {s..<s + length ids}"
  shows "sound U c'" "t = hopTag p (int s)" "insert t (set (tags_of c)) \<subseteq> set (tags_of c')" "kept c c'"
    "cx_vpnAuxTags c' = cx_vpnAuxTags c" "U \<inter> row_space p (s + length ids) = {}"
    "U \<union> row_space p (s + length ids) = T \<union> row_space p s"
proof -
  have "T \<inter> chain_tag_space (row_request p a ids s) = {}"
    using assms(6) row_space_split [of p s "length ids"] unfolding row_request(4) by auto
  moreover have "cr_hopIDs (row_request p a ids s) \<noteq> []" "hops_plain E (cr_hopIDs (row_request p a ids s))"
    using assms(4,5) by (simp_all add: row_request(2))
  ultimately have C: "sound (T \<union> chain_tag_space (row_request p a ids s)) c'" "t = ingress_tag (row_request p a ids s)"
      "insert t (set (tags_of c)) \<subseteq> set (tags_of c')" "kept c c'" "cx_vpnAuxTags c' = cx_vpnAuxTags c"
    using sound_chain [OF assms(1-3) row_request(1)] by (auto simp: kept_def)
  show "sound U c'" using C(1) by (simp only: row_request(4) U_def)
  show "t = hopTag p (int s)" using C(2) row_request(3) by simp
  show "U \<inter> row_space p (s + length ids) = {}" "U \<union> row_space p (s + length ids) = T \<union> row_space p s"
    using assms(6) row_space_split [of p s "length ids"] row_space_disjoint [of p s "length ids"] unfolding U_def by auto
  show "insert t (set (tags_of c)) \<subseteq> set (tags_of c')" "kept c c'" "cx_vpnAuxTags c' = cx_vpnAuxTags c" by fact+
qed

lemma sound_routes:
  assumes "sound T c" "cx_error (build_routes E s rgs c) = []" "row_ok E (map rg_hopIDs rgs)"
    and "T \<inter> row_space routeChainPrefix s = {}"
  shows "sound (T \<union> row_space routeChainPrefix s) (build_routes E s rgs c) \<and>
    (\<lambda>k. hopTag routeChainPrefix (int k)) ` set (starts s (map rg_hopIDs rgs)) \<union> set (tags_of c)
      \<subseteq> set (tags_of (build_routes E s rgs c)) \<and> kept c (build_routes E s rgs c) \<and>
    cx_vpnAuxTags (build_routes E s rgs c) = cx_vpnAuxTags c"
  using assms
proof (induction rgs arbitrary: s c T)
  case (Cons rg rgs)
  let ?ids = "rg_hopIDs rg" and ?p = routeChainPrefix
  obtain t c1 where b: "buildOutboundChain E (row_request ?p False ?ids s) c = (t, c1)" by (metis prod.exhaust)
  define c2 where "c2 = (case rg_chainWrapper rg of Some w \<Rightarrow> credit_last w c1 | None \<Rightarrow> c1)"
  have un: "build_routes E s (rg # rgs) c = build_routes E (s + length ?ids) rgs c2"
    using b by (simp add: c2_def)
  have e: "cx_error c1 = []" using build_routes_error [of E "s + length ?ids" rgs c2] Cons.prems(2) un by (simp add: c2_def)
  have ok: "?ids \<noteq> []" "hops_plain E ?ids" "row_ok E (map rg_hopIDs rgs)" using Cons.prems(3) by (auto simp: row_ok_def)
  note S = sound_row_step [OF Cons.prems(1) b e ok(1,2) Cons.prems(4)]
  let ?T = "T \<union> (\<lambda>n. hopTag ?p (int n)) ` {s..<s + length ?ids}"
  have s2: "sound ?T c2" using S(1) by (simp add: c2_def)
  have e2: "cx_error (build_routes E (s + length ?ids) rgs c2) = []" using Cons.prems(2) un by simp
  note I = Cons.IH [OF s2 e2 ok(3) S(6), unfolded S(7)]
  have "insert (hopTag ?p (int s)) (set (tags_of c)) \<subseteq> set (tags_of c2)" "kept c c2" "cx_vpnAuxTags c2 = cx_vpnAuxTags c"
    using S(2-5) by (auto simp: c2_def split: option.split)
  then show ?case using I unfolding un by (auto intro: kept_trans)
qed (auto intro: sound_mono)

lemma build_auxiliaries_error: "cx_error (snd (build_auxiliaries E s rows c)) = [] \<Longrightarrow>
    fst (build_auxiliaries E s rows c) = False \<and> (rows \<noteq> [] \<longrightarrow> cx_error c = [])"
proof (induction rows arbitrary: s c)
  case (Cons ids rows)
  obtain t c1 where b: "buildOutboundChain E (row_request auxEndpointPrefix True ids s) c = (t, c1)" by (metis prod.exhaust)
  show ?case
  proof (cases "cx_error c1 = []")
    case True
    then show ?thesis using Cons chain_error [OF b True] by (simp add: b)
  next
    case False
    then show ?thesis using Cons.prems by (simp add: b)
  qed
qed simp

lemma sound_aux_tags [simp]: "sound T (c\<lparr>cx_vpnAuxTags := ts\<rparr>) = sound T c" "tags_of (c\<lparr>cx_vpnAuxTags := ts\<rparr>) = tags_of c"
  by (simp_all add: sound_def tags_of_def objs_def)

lemma sound_auxiliaries:
  assumes "sound T c" "cx_error (snd (build_auxiliaries E s rows c)) = []" "row_ok E rows"
    and "T \<inter> row_space auxEndpointPrefix s = {}"
  defines "c' \<equiv> snd (build_auxiliaries E s rows c)"
  shows "sound (T \<union> row_space auxEndpointPrefix s) c' \<and>
    (\<lambda>k. hopTag auxEndpointPrefix (int k)) ` set (starts s rows) \<union> set (tags_of c) \<subseteq> set (tags_of c') \<and> kept c c' \<and>
    cx_vpnAuxTags c' = cx_vpnAuxTags c @ map (\<lambda>k. hopTag auxEndpointPrefix (int k)) (starts s rows)"
  using assms(1-4) unfolding c'_def
proof (induction rows arbitrary: s c T)
  case (Cons ids rows)
  let ?p = auxEndpointPrefix
  obtain t c1 where b: "buildOutboundChain E (row_request ?p True ids s) c = (t, c1)" by (metis prod.exhaust)
  have e: "cx_error c1 = []" using Cons.prems(2) by (auto simp: b Let_def split: if_splits)
  define c2 where "c2 = c1\<lparr>cx_vpnAuxTags := cx_vpnAuxTags c1 @ [t]\<rparr>"
  have un: "build_auxiliaries E s (ids # rows) c = build_auxiliaries E (s + length ids) rows c2"
    using b e by (simp add: c2_def)
  have ok: "ids \<noteq> []" "hops_plain E ids" "row_ok E rows" using Cons.prems(3) by (auto simp: row_ok_def)
  note S = sound_row_step [OF Cons.prems(1) b e ok(1,2) Cons.prems(4)]
  let ?T = "T \<union> (\<lambda>n. hopTag ?p (int n)) ` {s..<s + length ids}"
  have s2: "sound ?T c2" using S(1) by (simp add: c2_def)
  have e2: "cx_error (snd (build_auxiliaries E (s + length ids) rows c2)) = []" using Cons.prems(2) un by simp
  note I = Cons.IH [OF s2 e2 ok(3) S(6), unfolded S(7)]
  have "insert (hopTag ?p (int s)) (set (tags_of c)) \<subseteq> set (tags_of c2)" "kept c c2"
      "cx_vpnAuxTags c2 = cx_vpnAuxTags c @ [hopTag ?p (int s)]"
    using S(2-5) by (auto simp: c2_def kept_def)
  then show ?case using I unfolding un by (auto intro: kept_trans)
qed (auto intro: sound_mono)

subsection \<open>The started profile\<close>

text \<open>
  No profile's own JSON names a detour, nor an Xray proxy: what the protocols emit does not, and a
  custom outbound must not.
\<close>

definition plain_env :: "'z gen_env_scheme \<Rightarrow> bool" where
  "plain_env E \<longleftrightarrow> (\<forall>i e. hop_of E i = Some e \<longrightarrow> plain_hop E e)"

lemma plain_env_hops: "plain_env E \<Longrightarrow> hops_plain E ids"
  by (auto simp: plain_env_def hops_plain_def split: option.split)

definition own_space :: "string set" where
  "own_space = {tag_proxy, tag_warpBypass} \<union> row_space mainChainPrefix 0 \<union>
     (\<Union>i. row_space (hopTag poolChainPrefix (int i)) 0)"

lemma nat_interval: "{0..<int n} = int ` {0..<n}"
  by (simp add: image_int_atLeastLessThan)

lemma prefix_row: "hopTag p ` {0..<int n} \<subseteq> row_space p 0"
  unfolding nat_interval by (auto simp: row_space_def)

lemma sound_own_chain:
  assumes "sound {} c" "buildOwnChain E g w c = (stop, c')" "cx_error c' = []" "plain_env E"
    and "own_hops (cx_ent c) \<noteq> Some []"
  shows "sound own_space c'" "tag_proxy \<in> set (tags_of c')" "w \<Longrightarrow> tag_warpBypass \<in> set (tags_of c')" "kept c c'"
    "\<not> stop" "cx_vpnAuxTags c' = cx_vpnAuxTags c"
proof -
  obtain own where own: "own_hops (cx_ent c) = Some own" "own \<noteq> []"
    using assms(2,3,5) by (cases "own_hops (cx_ent c)") (auto simp: buildOwnChain_def)
  define ids where "ids = (if w then [warpProfileID] else []) @ landing_hops g @ own @ front_hops g"
  define req where "req = (chain_request_for ids mainChainPrefix)\<lparr>cr_includeProxy := True, cr_warpWrap := w\<rparr>"
  obtain t c1 where b: "buildOutboundChain E req c = (t, c1)" by (metis prod.exhaust)
  have "buildOwnChain E g w c = (False, if pr_type (cx_ent c1) = ''chain'' then credit_last (cx_ent c1) c1 else c1)"
    using own(1) b [unfolded req_def ids_def] by (simp add: buildOwnChain_def Let_def)
  then have c': "\<not> stop" "c' = (if pr_type (cx_ent c1) = ''chain'' then credit_last (cx_ent c1) c1 else c1)"
    using assms(2) by auto
  have e: "cx_error c1 = []" using assms(3) c'(2) by (simp split: if_splits)
  have ok: "request_ok req" "cr_hopIDs req \<noteq> []" "hops_plain E (cr_hopIDs req)" "ingress_tag req = tag_proxy" "cr_warpWrap req = w"
    using own(2) plain_env_hops [OF assms(4)]
    by (auto simp: request_ok_def req_def ids_def chain_request_for_def ingress_tag_def Suc_le_eq)
  have sp: "chain_tag_space req \<subseteq> own_space"
    using prefix_row [of mainChainPrefix "length ids"]
    by (auto simp: chain_tag_space_def req_def chain_request_for_def own_space_def)
  note S = sound_chain [OF assms(1) b e ok(1-3)]
  show "sound own_space c'" using S(1) sp c'(2) by (auto intro: sound_mono)
  show "tag_proxy \<in> set (tags_of c')" using S(2,3) ok(4) c'(2) by auto
  show "tag_warpBypass \<in> set (tags_of c')" if w using S(11) ok(5) that c'(2) by auto
  show "kept c c'" "cx_vpnAuxTags c' = cx_vpnAuxTags c" using S(5-10) c'(2) by (auto simp: kept_def)
  show "\<not> stop" by (rule c'(1))
qed

subsection \<open>The pool of an auto selector\<close>

definition pool_space :: "nat \<Rightarrow> string set" where
  "pool_space n = (\<Union>i \<in> {n..}. row_space (hopTag poolChainPrefix (int i)) 0)"

lemma pool_space_split: "pool_space n = row_space (hopTag poolChainPrefix (int n)) 0 \<union> pool_space (Suc n)"
proof -
  have "{n..} = insert n {Suc n..}" by auto
  then show ?thesis by (simp add: pool_space_def)
qed

lemma pool_space_disjoint: "row_space (hopTag poolChainPrefix (int n)) 0 \<inter> pool_space (Suc n) = {}"
  by (auto simp: pool_space_def row_space_def hopTag_inject)

lemma drain_fields [simp]:
  "sound T (drain_full_config b c) = sound T c" "tags_of (drain_full_config b c) = tags_of c"
  "kept c' (drain_full_config b c) = kept c' c" "cx_vpnAuxTags (drain_full_config b c) = cx_vpnAuxTags c"
  by (simp_all add: drain_full_config_def sound_def tags_of_def objs_def kept_def)

lemma build_members_error: "cx_error (snd (build_members E ports sel ms (st, c))) = [] \<Longrightarrow> cx_error c = []"
proof (induction ms arbitrary: st c)
  case (Cons m ms)
  obtain req k where r: "member_request ports m st = (req, k)" by (metis prod.exhaust)
  obtain t c1 where b: "buildOutboundChain E req c = (t, c1)" by (metis prod.exhaust)
  have "cx_error c1 = []" using Cons.prems by (simp add: r b split: if_splits)
  then show ?case by (rule chain_error [OF b])
qed simp

lemma member_request_ok:
  assumes "member_request ports m st = (req, k)" "pm_hopIDs m \<noteq> []" "plain_env E"
  shows "request_ok req" "cr_hopIDs req \<noteq> []" "hops_plain E (cr_hopIDs req)"
    "chain_tag_space req \<subseteq> row_space (hopTag poolChainPrefix (int (po_idx st))) 0"
    "ingress_tag req = hopTag (hopTag poolChainPrefix (int (po_idx st))) 0"
  using assms prefix_row [of "hopTag poolChainPrefix (int (po_idx st))" "length (pm_hopIDs m)"] plain_env_hops [OF assms(3)]
  by (auto simp: member_request_def Let_def split_beta chain_request_for_def request_ok_def chain_tag_space_def ingress_tag_def)

lemma sound_members:
  assumes "sound T c" "build_members E ports sel ms (st, c) = (st', c')" "cx_error c' = []" "plain_env E"
    and "\<forall>m \<in> set ms. pm_hopIDs m \<noteq> []" "T \<inter> pool_space (po_idx st) = {}"
  shows "sound (T \<union> pool_space (po_idx st)) c' \<and> kept c c' \<and> cx_vpnAuxTags c' = cx_vpnAuxTags c \<and>
    set (tags_of c) \<subseteq> set (tags_of c') \<and> (\<exists>ts. po_tags st' = po_tags st @ ts \<and> set ts \<subseteq> set (tags_of c'))"
  using assms(1-3,5,6)
proof (induction ms arbitrary: st c T)
  case (Cons m ms)
  obtain req k where r: "member_request ports m st = (req, k)" by (metis prod.exhaust)
  obtain t c1 where b: "buildOutboundChain E req c = (t, c1)" by (metis prod.exhaust)
  define c2 where "c2 = drain_full_config (pm_bridges m) c1"
  define c3 where "c3 = credit_last (cx_ent c2) c2"
  define st3 where "st3 = record_member (ge_now E) sel t (pm_ent m) k st"
  have e: "cx_error c1 = []" "cx_error c2 = []"
    using Cons.prems(2,3) by (auto simp: r b c2_def Let_def split: if_splits)
  have un: "build_members E ports sel ms (st3, c3) = (st', c')"
    using Cons.prems(2) e by (simp add: r b c2_def c3_def st3_def Let_def)
  note R = member_request_ok [OF r _ assms(4)]
  have ok: "request_ok req" "cr_hopIDs req \<noteq> []" "hops_plain E (cr_hopIDs req)"
      "chain_tag_space req \<subseteq> row_space (hopTag poolChainPrefix (int (po_idx st))) 0"
    using R Cons.prems(4) by auto
  let ?T = "T \<union> row_space (hopTag poolChainPrefix (int (po_idx st))) 0"
  have "T \<inter> chain_tag_space req = {}" using Cons.prems(5) ok(4) pool_space_split by blast
  note S = sound_chain [OF Cons.prems(1) b e(1) ok(1-3) this]
  have s3: "sound ?T c3" using S(1) ok(4) by (auto simp: c3_def c2_def intro: sound_mono)
  have kc: "kept c c1" using S(5-10) by (simp add: kept_def)
  have idx: "po_idx st3 = Suc (po_idx st)" "po_tags st3 = po_tags st @ [t]" by (simp_all add: st3_def record_member_def)
  have "?T \<inter> pool_space (po_idx st3) = {}"
    using Cons.prems(5) pool_space_split [of "po_idx st"] pool_space_disjoint [of "po_idx st"] idx(1) by auto
  then have I: "sound (?T \<union> pool_space (po_idx st3)) c' \<and> kept c3 c' \<and> cx_vpnAuxTags c' = cx_vpnAuxTags c3 \<and>
      set (tags_of c3) \<subseteq> set (tags_of c') \<and> (\<exists>ts. po_tags st' = po_tags st3 @ ts \<and> set ts \<subseteq> set (tags_of c'))"
    using Cons.IH [OF s3 un Cons.prems(3)] Cons.prems(4) by auto
  have "?T \<union> pool_space (po_idx st3) = T \<union> pool_space (po_idx st)" using pool_space_split [of "po_idx st"] idx(1) by auto
  moreover have "kept c c3" "cx_vpnAuxTags c3 = cx_vpnAuxTags c" "insert t (set (tags_of c)) \<subseteq> set (tags_of c3)"
    using S(3,9) kc by (simp_all add: c3_def c2_def)
  moreover obtain ts where ts: "po_tags st' = po_tags st3 @ ts" "set ts \<subseteq> set (tags_of c')" using I by blast
  moreover have "set (t # ts) \<subseteq> set (tags_of c')" using calculation I by auto
  moreover have "po_tags st' = po_tags st @ (t # ts)" using ts(1) idx(2) by simp
  ultimately show ?case using I by (metis kept_trans dual_order.trans insert_subset)
qed (auto intro: sound_mono)

subsection \<open>The group and the section\<close>

lemma selector_object_fields:
  "obj_tag (selector_object S sel g st) = g" "obj_detour (selector_object S sel g st) = None"
  "jget (selector_object S sel g st) ''outbounds'' = strings_json (po_tags st)"
  by (simp_all add: obj_tag_def obj_detour_def selector_object_def selector_base_def put_when_def Let_def jget_def
      json_store.look_put map_of_jbuild)

lemma group_tag_fresh: "group_tag w \<notin> pool_space 0"
proof -
  have "fixed_tag (group_tag w)" by (simp add: group_tag_def)
  then have "group_tag w \<noteq> hopTag p (int i)" for p i by (rule fixed_no_hop(1)) simp
  then show ?thesis by (auto simp: pool_space_def row_space_def)
qed

lemma sound_result [simp]: "sound T (c\<lparr>cx_result := r\<rparr>) = sound T c" "tags_of (c\<lparr>cx_result := r\<rparr>) = tags_of c"
  "sound T (c\<lparr>cx_ent := e\<rparr>) = sound T c" "tags_of (c\<lparr>cx_ent := e\<rparr>) = tags_of c"
  "sound T (c\<lparr>cx_probes := n\<rparr>) = sound T c" "tags_of (c\<lparr>cx_probes := n\<rparr>) = tags_of c"
  by (simp_all add: sound_def tags_of_def objs_def)

lemma sound_one:
  assumes "sound T c" "obj_tag ob \<notin> T" "\<And>t. obj_detour ob = Some t \<Longrightarrow> t \<in> set (tags_of c)"
  shows "sound (insert (obj_tag ob) T) (append_object E p ob c)"
    "set (tags_of (append_object E p ob c)) = insert (obj_tag ob) (set (tags_of c))"
proof -
  have "mset (objs (append_object E p ob c)) = mset (objs c) + mset [ob]"
    by (simp add: append_object_def objs_def)
  note A = sound_add [OF assms(1) this, of "{obj_tag ob}" "[]" "[]" "[]" "[]" "[]"]
  have "sound (T \<union> {obj_tag ob}) (append_object E p ob c) \<and>
      set (tags_of (append_object E p ob c)) = set (tags_of c) \<union> obj_tag ` set [ob]"
    by (intro conjI A) (use assms(2,3) in \<open>auto simp: append_object_def\<close>)
  then show "sound (insert (obj_tag ob) T) (append_object E p ob c)"
    "set (tags_of (append_object E p ob c)) = insert (obj_tag ob) (set (tags_of c))" by simp_all
qed

lemma sound_outbound:
  assumes "sound T c" "obj_tag ob \<notin> T" "obj_detour ob = None"
  shows "sound (insert (obj_tag ob) T) (c\<lparr>cx_outbounds := cx_outbounds c @ [ob]\<rparr>)"
    "set (tags_of (c\<lparr>cx_outbounds := cx_outbounds c @ [ob]\<rparr>)) = insert (obj_tag ob) (set (tags_of c))"
proof -
  let ?c = "c\<lparr>cx_outbounds := cx_outbounds c @ [ob]\<rparr>"
  have "mset (objs ?c) = mset (objs c) + mset [ob]" by (simp add: objs_def)
  note A = sound_add [OF assms(1) this, of "{obj_tag ob}" "[]" "[]" "[]" "[]" "[]"]
  have "sound (T \<union> {obj_tag ob}) ?c \<and> set (tags_of ?c) = set (tags_of c) \<union> obj_tag ` set [ob]"
    by (intro conjI A) (use assms in auto)
  then show "sound (insert (obj_tag ob) T) ?c" "set (tags_of ?c) = insert (obj_tag ob) (set (tags_of c))" by simp_all
qed

lemma plan_members_hops: "m \<in> set (plan_members E g ids) \<Longrightarrow> pm_hopIDs m \<noteq> []"
  by (induction ids) (auto simp: Let_def split: option.splits)

text \<open>The stages of a pool that was built.\<close>

lemma selector_stages:
  assumes "buildAutoSelectorGroup E g w c = (t, c')" "cx_error c' = []"
  obtains sel c1 ms ports c2 st c3 c4 c5 where "c1 = c\<lparr>cx_ent := put_selector (Normalize sel) (cx_ent c)\<rparr>"
    "ms = plan_members E g (pl_build (plan_for E PlanForGroup (cx_ent c1)))"
    "MkManyPorts E (bridges_planned ms) ''127.0.0.1'' c1 = (ports, c2)"
    "build_members E ports (Normalize sel) ms (new_pool, c2) = (st, c3)" "cx_error c3 = []" "po_tags st \<noteq> []"
    "c4 = (if w then collapse_groups (length (rs_chainGroups (cx_result c1))) c3 else c3)"
    "c5 = c4\<lparr>cx_outbounds := cx_outbounds c4 @ [selector_object (ge_settings E) (Normalize sel) (group_tag w) st]\<rparr>"
    "t = group_tag w" "c' = in_result (\<lambda>r. r\<lparr>rs_autoSelectors := rs_autoSelectors r @
      [\<lparr>si_groupTag = group_tag w, si_profile = cx_ent c5, si_members = po_members st\<rparr>]\<rparr>) c5"
proof -
  obtain sel where sel: "AutoSelector_of (cx_ent c) = Some sel"
    using assms by (cases "AutoSelector_of (cx_ent c)") (auto simp: buildAutoSelectorGroup_def)
  define c1 where "c1 = c\<lparr>cx_ent := put_selector (Normalize sel) (cx_ent c)\<rparr>"
  define plan where "plan = plan_for E PlanForGroup (cx_ent c1)"
  define ms where "ms = plan_members E g (pl_build plan)"
  obtain ports c2 where p: "MkManyPorts E (bridges_planned ms) ''127.0.0.1'' c1 = (ports, c2)" by (metis prod.exhaust)
  obtain st c3 where m: "build_members E ports (Normalize sel) ms (new_pool, c2) = (st, c3)" by (metis prod.exhaust)
  define c4 where "c4 = (if w then collapse_groups (length (rs_chainGroups (cx_result c1))) c3 else c3)"
  let ?ob = "selector_object (ge_settings E) (Normalize sel) (group_tag w) st"
  define c5 where "c5 = c4\<lparr>cx_outbounds := cx_outbounds c4 @ [?ob]\<rparr>"
  have un: "buildAutoSelectorGroup E g w c =
      (if pl_error plan \<noteq> [] then ([], c1\<lparr>cx_error := pl_error plan\<rparr>)
       else if cx_error c3 \<noteq> [] then ([], c3)
       else if po_tags st = [] then ([], c3\<lparr>cx_error := ''Auto selector produced no usable members''\<rparr>)
       else (group_tag w, in_result (\<lambda>r. r\<lparr>rs_autoSelectors := rs_autoSelectors r @
            [\<lparr>si_groupTag = group_tag w, si_profile = cx_ent c5, si_members = po_members st\<rparr>]\<rparr>) c5))"
    unfolding buildAutoSelectorGroup_def sel option.case Let_def
    by (simp add: c1_def [symmetric] plan_def [symmetric] ms_def [symmetric] p m c4_def c5_def)
  have ok: "pl_error plan = []" "cx_error c3 = []" "po_tags st \<noteq> []" using assms un by (auto split: if_splits)
  then have c': "t = group_tag w" "c' = in_result (\<lambda>r. r\<lparr>rs_autoSelectors := rs_autoSelectors r @
      [\<lparr>si_groupTag = group_tag w, si_profile = cx_ent c5, si_members = po_members st\<rparr>]\<rparr>) c5"
    using assms(1) un by auto
  show thesis by (rule that [OF c1_def _ p m ok(2,3) c4_def c5_def c']) (simp add: ms_def plan_def)
qed

lemma sound_selector:
  assumes "sound {} c" "buildAutoSelectorGroup E g w c = (t, c')" "cx_error c' = []" "plain_env E"
  shows "sound (insert (group_tag w) (pool_space 0)) c'" "t = group_tag w" "group_tag w \<in> set (tags_of c')" "kept c c'"
    "cx_vpnAuxTags c' = cx_vpnAuxTags c"
    "\<exists>ob ts. ob \<in> set (cx_outbounds c') \<and> obj_tag ob = group_tag w \<and> jget ob ''outbounds'' = strings_json ts \<and>
       ts \<noteq> [] \<and> set ts \<subseteq> set (tags_of c')"
proof -
  obtain sel c1 ms ports c2 st c3 c4 c5 where c1: "c1 = c\<lparr>cx_ent := put_selector (Normalize sel) (cx_ent c)\<rparr>"
    and ms: "ms = plan_members E g (pl_build (plan_for E PlanForGroup (cx_ent c1)))"
    and p: "MkManyPorts E (bridges_planned ms) ''127.0.0.1'' c1 = (ports, c2)"
    and m: "build_members E ports (Normalize sel) ms (new_pool, c2) = (st, c3)" and ok: "cx_error c3 = []" "po_tags st \<noteq> []"
    and c4: "c4 = (if w then collapse_groups (length (rs_chainGroups (cx_result c1))) c3 else c3)"
    and c5: "c5 = c4\<lparr>cx_outbounds := cx_outbounds c4 @ [selector_object (ge_settings E) (Normalize sel) (group_tag w) st]\<rparr>"
    and c': "t = group_tag w" "c' = in_result (\<lambda>r. r\<lparr>rs_autoSelectors := rs_autoSelectors r @
      [\<lparr>si_groupTag = group_tag w, si_profile = cx_ent c5, si_members = po_members st\<rparr>]\<rparr>) c5"
    by (rule selector_stages [OF assms(2,3)]) blast
  let ?ob = "selector_object (ge_settings E) (Normalize sel) (group_tag w) st"
  have "c2 = c1\<lparr>cx_probes := cx_probes c1 + 1\<rparr>" using p by (simp add: MkManyPorts_def)
  then have s2: "sound {} c2" "kept c c2" "cx_vpnAuxTags c2 = cx_vpnAuxTags c"
    using assms(1) by (simp_all add: c1 kept_def)
  have M: "sound (pool_space 0) c3 \<and> kept c2 c3 \<and> cx_vpnAuxTags c3 = cx_vpnAuxTags c2 \<and>
      (\<exists>ts. po_tags st = ts \<and> set ts \<subseteq> set (tags_of c3))"
    using sound_members [OF s2(1) m ok(1) assms(4)] plan_members_hops [of _ E g]
    by (auto simp: ms new_pool_def)
  have s4: "sound (pool_space 0) c4" "kept c c4" "cx_vpnAuxTags c4 = cx_vpnAuxTags c" "set (po_tags st) \<subseteq> set (tags_of c4)"
    using M s2 by (auto simp: c4 collapse_groups_def kept_def)
  have O: "sound (insert (group_tag w) (pool_space 0)) c5" "set (tags_of c5) = insert (group_tag w) (set (tags_of c4))"
    using sound_outbound [OF s4(1), of ?ob] group_tag_fresh by (simp_all add: selector_object_fields c5)
  show "sound (insert (group_tag w) (pool_space 0)) c'" "group_tag w \<in> set (tags_of c')" "kept c c'"
    "cx_vpnAuxTags c' = cx_vpnAuxTags c"
    using O s4(2,3) by (simp_all add: c'(2) kept_def c5)
  show "t = group_tag w" by (rule c'(1))
  show "\<exists>ob ts. ob \<in> set (cx_outbounds c') \<and> obj_tag ob = group_tag w \<and> jget ob ''outbounds'' = strings_json ts \<and>
       ts \<noteq> [] \<and> set ts \<subseteq> set (tags_of c')"
    using s4(4) O(2) ok(2) by (intro exI [of _ ?ob] exI [of _ "po_tags st"]) (auto simp: c'(2) c5 selector_object_fields)
qed

lemma sound_warp:
  assumes "sound T c" "tag_proxy \<notin> T" "tag_warpBypass \<in> set (tags_of c)"
    and "cx_error (buildWarpInFrontOfSelector E c) = []"
  shows "sound (insert tag_proxy T) (buildWarpInFrontOfSelector E c)"
    "set (tags_of (buildWarpInFrontOfSelector E c)) = insert tag_proxy (set (tags_of c))"
    "kept c (buildWarpInFrontOfSelector E c)" "cx_vpnAuxTags (buildWarpInFrontOfSelector E c) = cx_vpnAuxTags c"
proof -
  obtain ob err where w: "Build E (getWarpProfile E) = (ob, err)" by (metis prod.exhaust)
  let ?ob = "jput ''detour'' (JStr tag_warpBypass) (jput ''tag'' (JStr tag_proxy) ob)"
  have "err = []" using assms(4) w by (auto simp: buildWarpInFrontOfSelector_def Let_def split: if_splits)
  then have un: "buildWarpInFrontOfSelector E c = append_object E (getWarpProfile E) ?ob c"
    using w by (simp add: buildWarpInFrontOfSelector_def)
  have o: "obj_tag ?ob = tag_proxy" "obj_detour ?ob = Some tag_warpBypass"
    by (simp_all add: obj_tag_def obj_detour_def jget_def json_store.look_put)
  show "sound (insert tag_proxy T) (buildWarpInFrontOfSelector E c)"
    "set (tags_of (buildWarpInFrontOfSelector E c)) = insert tag_proxy (set (tags_of c))"
    using sound_one [OF assms(1), of ?ob E "getWarpProfile E", unfolded o] assms(2,3) unfolding un by simp_all
  show "kept c (buildWarpInFrontOfSelector E c)" "cx_vpnAuxTags (buildWarpInFrontOfSelector E c) = cx_vpnAuxTags c"
    unfolding un by (simp_all add: append_object_def kept_def)
qed

lemma own_space_pool: "pool_space 0 \<subseteq> own_space"
  by (auto simp: own_space_def pool_space_def)

lemma sound_own:
  assumes "sound {} c" "build_own E g w c = (stop, c')" "cx_error c' = []" "plain_env E"
    and "pr_type (cx_ent c) \<noteq> ''autoselector'' \<Longrightarrow> own_hops (cx_ent c) \<noteq> Some []"
  shows "sound own_space c' \<and> tag_proxy \<in> set (tags_of c') \<and> (w \<longrightarrow> tag_warpBypass \<in> set (tags_of c')) \<and> kept c c' \<and>
    \<not> stop \<and> cx_vpnAuxTags c' = cx_vpnAuxTags c"
proof (cases "pr_type (cx_ent c) = ''autoselector''")
  case False
  then have b: "buildOwnChain E g w c = (stop, c')" using assms(2) by (simp add: build_own_def)
  show ?thesis using sound_own_chain [OF assms(1) b assms(3,4,5)] False by blast
next
  case True
  obtain t c1 where b: "buildAutoSelectorGroup E g w c = (t, c1)" by (metis prod.exhaust)
  have c': "c' = (if cx_error c1 = [] \<and> w then buildWarpInFrontOfSelector E c1 else c1)" "stop = (cx_error c' \<noteq> [])"
    using assms(2) True b by (auto simp: build_own_def Let_def)
  have e: "cx_error c1 = []" using c'(1) assms(3) by (auto split: if_splits)
  note S = sound_selector [OF assms(1) b e assms(4)]
  have no: "tag_proxy \<notin> insert tag_warpBypass (pool_space 0)" using group_tag_fresh [of False] by (simp add: group_tag_def)
  show ?thesis
  proof (cases w)
    case True
    then have g: "group_tag w = tag_warpBypass" by (simp add: group_tag_def)
    have c'': "c' = buildWarpInFrontOfSelector E c1" using c'(1) e True by simp
    note W = sound_warp [of "insert tag_warpBypass (pool_space 0)" c1 E, folded c'', OF _ no _ assms(3)]
    have "sound (insert tag_proxy (insert tag_warpBypass (pool_space 0))) c'" "kept c c'" "set (tags_of c') = insert tag_proxy (set (tags_of c1))"
        "cx_vpnAuxTags c' = cx_vpnAuxTags c"
      using W S(1,3-5) unfolding g by (auto intro: kept_trans)
    then show ?thesis using S(3) True g own_space_pool c'(2) assms(3) by (auto simp: own_space_def intro: sound_mono)
  next
    case False
    then have g: "group_tag w = tag_proxy" "c' = c1" using c'(1) by (simp_all add: group_tag_def)
    then show ?thesis using S False own_space_pool c'(2) e by (auto simp: own_space_def intro: sound_mono)
  qed
qed

lemma finish_facts:
  assumes "sound T c" "tag_direct \<notin> T" "tag_l3Direct \<notin> T"
  defines "c' \<equiv> finish_outbounds c"
  shows "cx_error c' = cx_error c" "sound (T \<union> {tag_direct, tag_l3Direct}) c'" "tag_direct \<in> set (tags_of c')"
    "cx_l3Bridge c \<Longrightarrow> tag_l3Direct \<in> set (tags_of c')" "set (tags_of c) \<subseteq> set (tags_of c')"
    "cx_prerequisites c' = cx_prerequisites c" "cx_forTest c' = cx_forTest c" "cx_l3Bridge c' = cx_l3Bridge c"
    "cx_vpnAuxTags c' = cx_vpnAuxTags c" "cx_singIngressTags c' = cx_singIngressTags c"
    "cx_xrayToSingBridges c' = cx_xrayToSingBridges c"
    "jget (rs_coreConfig (cx_result c')) ''outbounds'' = JArr (map JObj (cx_outbounds c'))"
    "jget (rs_coreConfig (cx_result c')) ''endpoints'' = JArr (map JObj (cx_endpoints c'))"
    "jget (rs_coreConfig (cx_result c')) ''inbounds'' =
       JArr (to_arr (jget (rs_coreConfig (cx_result c)) ''inbounds'') @ bridge_inbounds c)"
proof -
  define d where "d = c\<lparr>cx_outbounds := cx_outbounds c @ direct_outbounds c\<rparr>"
  have "bridgeIngressMismatch c = []" using soundD(4) [OF assms(1)] by (simp add: bridgeIngressMismatch_def)
  then have un: "c' = put_section ''outbounds'' (JArr (map JObj (cx_outbounds d)))
      (put_section ''endpoints'' (JArr (map JObj (cx_endpoints d)))
        (put_section ''inbounds'' (JArr (to_arr (jget (rs_coreConfig (cx_result c)) ''inbounds'') @ bridge_inbounds c)) d))"
    by (simp add: c'_def finish_outbounds_def Let_def d_def put_section_def direct_outbounds_def)
  have ob: "obj_tag (jbuild [(''type'', JStr a), (''tag'', JStr b)]) = b"
      "obj_detour (jbuild [(''type'', JStr a), (''tag'', JStr b)]) = None" for a b
    by (simp_all add: obj_tag_def obj_detour_def jget_jbuild map_of_jbuild)
  have tags: "tag_direct \<noteq> tag_l3Direct" by (simp add: tag_defs)
  have s: "sound (insert tag_direct T) (c\<lparr>cx_outbounds := cx_outbounds c @ [jbuild [(''type'', JStr ''direct''), (''tag'', JStr tag_direct)]]\<rparr>)
      \<and> set (tags_of (c\<lparr>cx_outbounds := cx_outbounds c @ [jbuild [(''type'', JStr ''direct''), (''tag'', JStr tag_direct)]]\<rparr>)) = insert tag_direct (set (tags_of c))"
    using sound_outbound [OF assms(1), of "jbuild [(''type'', JStr ''direct''), (''tag'', JStr tag_direct)]"] assms(2)
    by (simp add: ob)
  have "sound (T \<union> {tag_direct, tag_l3Direct}) d \<and> set (tags_of d) = set (tags_of c) \<union> {tag_direct} \<union> (if cx_l3Bridge c then {tag_l3Direct} else {})"
  proof (cases "cx_l3Bridge c")
    case False
    then show ?thesis using s by (auto simp: d_def direct_outbounds_def intro: sound_mono)
  next
    case True
    then show ?thesis
      using sound_outbound [OF conjunct1 [OF s], of "jbuild [(''type'', JStr ''bridge''), (''tag'', JStr tag_l3Direct)]"] s assms(3) tags
      by (auto simp: d_def direct_outbounds_def ob intro: sound_mono)
  qed
  then show "sound (T \<union> {tag_direct, tag_l3Direct}) c'" "tag_direct \<in> set (tags_of c')"
    "cx_l3Bridge c \<Longrightarrow> tag_l3Direct \<in> set (tags_of c')" "set (tags_of c) \<subseteq> set (tags_of c')"
    unfolding un by (auto simp: put_section_def)
qed (simp_all add: c'_def finish_outbounds_def put_section_def Let_def bridgeIngressMismatch_def soundD(4) [OF assms(1)]
    jget_def json_store.look_put)

subsection \<open>The spaces are apart\<close>

lemma prefix_apart:
  "tag_proxy \<notin> row_space p s" "tag_warpBypass \<notin> row_space p s" "tag_direct \<notin> row_space p s" "tag_l3Direct \<notin> row_space p s"
  using fixed_no_hop(1) [OF fixed_tags(1)] fixed_no_hop(1) [OF fixed_tags(2)] fixed_no_hop(1) [OF fixed_tags(3)]
    fixed_no_hop(1) [OF fixed_tags(4)]
  by (simp_all add: row_space_def image_iff)

lemma rows_apart: "p \<noteq> q \<Longrightarrow> row_space p s \<inter> row_space q u = {}"
  by (auto simp: row_space_def hopTag_inject)

lemma pool_prefix: "hopTag poolChainPrefix (int i) \<noteq> routeChainPrefix" "hopTag poolChainPrefix (int i) \<noteq> auxEndpointPrefix"
proof -
  have "fixed_tag routeChainPrefix" "fixed_tag auxEndpointPrefix" by code_simp+
  then show "hopTag poolChainPrefix (int i) \<noteq> routeChainPrefix" "hopTag poolChainPrefix (int i) \<noteq> auxEndpointPrefix"
    using fixed_no_hop(2) by simp_all
qed

lemma own_space_apart:
  assumes "mainChainPrefix \<noteq> p" "\<And>i. hopTag poolChainPrefix (int i) \<noteq> p"
  shows "own_space \<inter> row_space p s = {}"
proof -
  have "x \<notin> row_space p s" if "x \<in> row_space (hopTag poolChainPrefix (int i)) 0" for x i
    using rows_apart [OF assms(2), of i 0 s] that by auto
  then show ?thesis using rows_apart [OF assms(1), of 0 s] prefix_apart by (auto simp: own_space_def)
qed

lemma spaces_apart:
  "own_space \<inter> row_space routeChainPrefix 0 = {}"
  "(own_space \<union> row_space routeChainPrefix 0) \<inter> row_space auxEndpointPrefix 0 = {}"
  "tag_direct \<notin> own_space" "tag_l3Direct \<notin> own_space"
proof -
  have n: "mainChainPrefix \<noteq> routeChainPrefix" "mainChainPrefix \<noteq> auxEndpointPrefix" "routeChainPrefix \<noteq> auxEndpointPrefix"
    by (simp_all add: tag_defs)
  show "own_space \<inter> row_space routeChainPrefix 0 = {}"
    by (rule own_space_apart [OF n(1) pool_prefix(1)])
  show "(own_space \<union> row_space routeChainPrefix 0) \<inter> row_space auxEndpointPrefix 0 = {}"
    using own_space_apart [OF n(2) pool_prefix(2)] rows_apart [OF n(3)] by (simp add: Int_Un_distrib2)
  have "tag_direct \<noteq> tag_proxy" "tag_direct \<noteq> tag_warpBypass" "tag_l3Direct \<noteq> tag_proxy" "tag_l3Direct \<noteq> tag_warpBypass"
    by (simp_all add: tag_defs)
  then show "tag_direct \<notin> own_space" "tag_l3Direct \<notin> own_space" using prefix_apart by (auto simp: own_space_def)
qed

subsection \<open>The whole section\<close>

definition route_tags :: "prerequisites \<Rightarrow> string set" where
  "route_tags q = (\<lambda>k. hopTag routeChainPrefix (int k)) ` set (starts 0 (map rg_hopIDs (pq_routeOutboundGroups q)))"

definition aux_tags :: "prerequisites \<Rightarrow> string list" where
  "aux_tags q = map (\<lambda>k. hopTag auxEndpointPrefix (int k)) (starts 0 (pq_auxEndpointGroups q))"

lemma section_sound:
  assumes "sound {} c" "cx_error (buildOutboundsSection E c) = []" "plain_env E" "\<not> cx_forTest c"
    and "pr_type (cx_ent c) \<noteq> ''autoselector'' \<Longrightarrow> own_hops (cx_ent c) \<noteq> Some []"
    and "row_ok E (map rg_hopIDs (pq_routeOutboundGroups (cx_prerequisites c)))"
    and "row_ok E (pq_auxEndpointGroups (cx_prerequisites c))"
  defines "c' \<equiv> buildOutboundsSection E c" and "q \<equiv> cx_prerequisites c"
  shows "sound UNIV c'" "{tag_proxy, tag_direct} \<union> route_tags q \<union> set (aux_tags q) \<subseteq> set (tags_of c')"
    "gs_enable_warp (ge_settings E) \<Longrightarrow> tag_warpBypass \<in> set (tags_of c')"
    "cx_l3Bridge c \<Longrightarrow> tag_l3Direct \<in> set (tags_of c')"
    "cx_prerequisites c' = q" "\<not> cx_forTest c'" "cx_l3Bridge c' = cx_l3Bridge c"
    "cx_vpnAuxTags c' = cx_vpnAuxTags c @ aux_tags q"
    "jget (rs_coreConfig (cx_result c')) ''outbounds'' = JArr (map JObj (cx_outbounds c'))"
    "jget (rs_coreConfig (cx_result c')) ''endpoints'' = JArr (map JObj (cx_endpoints c'))"
    "jget (rs_coreConfig (cx_result c')) ''inbounds'' =
       JArr (to_arr (jget (rs_coreConfig (cx_result c)) ''inbounds'') @ bridge_inbounds c')"
proof -
  obtain g where g: "ge_groups E (pr_gid (cx_ent c)) = Some g"
    using assms(2) by (cases "ge_groups E (pr_gid (cx_ent c))") (auto simp: buildOutboundsSection_def)
  let ?w = "gs_enable_warp (ge_settings E)"
  obtain stop c1 where o: "build_own E g ?w c = (stop, c1)" by (metis prod.exhaust)
  define c2 where "c2 = build_routes E 0 (pq_routeOutboundGroups (cx_prerequisites c1)) c1"
  define c3 where "c3 = snd (build_auxiliaries E 0 (pq_auxEndpointGroups (cx_prerequisites c2)) c2)"
  have stop: "stop \<Longrightarrow> cx_error c1 \<noteq> []"
    using o by (auto simp: build_own_def buildOwnChain_def Let_def split: if_splits option.splits prod.splits)
  have un0: "c' = (if stop then c1 else (let (s, d) = (if cx_forTest c2 then (False, c2)
      else build_auxiliaries E 0 (pq_auxEndpointGroups (cx_prerequisites c2)) c2) in if s then d else finish_outbounds d))"
    using g o by (simp add: c'_def buildOutboundsSection_def c2_def Let_def)
  have nstop: "\<not> stop" using un0 stop assms(2) by (auto simp: c'_def)
  have e2: "cx_error c2 = [] \<Longrightarrow> cx_error c1 = []" unfolding c2_def by (rule build_routes_error)
  have fin: "cx_error (finish_outbounds d) = [] \<Longrightarrow> cx_error d = []" for d
    by (auto simp: finish_outbounds_def Let_def put_section_def split: if_splits)
  have "cx_error c2 = [] \<and> (\<not> cx_forTest c2 \<longrightarrow> cx_error c3 = [] \<and> c' = finish_outbounds c3)"
  proof (cases "cx_forTest c2")
    case True
    then show ?thesis using un0 nstop assms(2) fin by (auto simp: c'_def)
  next
    case False
    obtain s d where a: "build_auxiliaries E 0 (pq_auxEndpointGroups (cx_prerequisites c2)) c2 = (s, d)" by (metis prod.exhaust)
    have c': "c' = (if s then d else finish_outbounds d)" using un0 nstop False a by simp
    have d: "cx_error d = []" using c' assms(2) fin by (auto simp: c'_def split: if_splits)
    have "\<not> s \<and> cx_error c2 = []"
      using build_auxiliaries_error [of E 0 "pq_auxEndpointGroups (cx_prerequisites c2)" c2] d a
      by (cases "pq_auxEndpointGroups (cx_prerequisites c2)") auto
    then show ?thesis using c' d a by (simp add: c3_def)
  qed
  then have e2: "cx_error c2 = []" and late: "\<not> cx_forTest c2 \<Longrightarrow> cx_error c3 = [] \<and> c' = finish_outbounds c3" by auto
  have e1: "cx_error c1 = []" using e2 unfolding c2_def by (rule build_routes_error)
  have O: "sound own_space c1" "tag_proxy \<in> set (tags_of c1)" "?w \<longrightarrow> tag_warpBypass \<in> set (tags_of c1)" "kept c c1"
      "cx_vpnAuxTags c1 = cx_vpnAuxTags c"
    using sound_own [OF assms(1) o e1 assms(3,5)] by blast+
  have q1: "cx_prerequisites c1 = q" using O(4) by (simp add: kept_def q_def)
  note R = sound_routes [OF O(1) e2 [unfolded c2_def] _ spaces_apart(1), folded c2_def, unfolded q1, folded route_tags_def]
  have R: "sound (own_space \<union> row_space routeChainPrefix 0) c2" "route_tags q \<union> set (tags_of c1) \<subseteq> set (tags_of c2)"
      "kept c1 c2" "cx_vpnAuxTags c2 = cx_vpnAuxTags c1"
    using R assms(6) by (auto simp: q_def)
  have q2: "cx_prerequisites c2 = q" "\<not> cx_forTest c2" using R(3) O(4) q1 assms(4) by (auto simp: kept_def)
  have e3: "cx_error c3 = []" and c': "c' = finish_outbounds c3" using late [OF q2(2)] by auto
  note A = sound_auxiliaries [OF R(1) e3 [unfolded c3_def q2(1)] _ spaces_apart(2)]
  have A: "sound (own_space \<union> row_space routeChainPrefix 0 \<union> row_space auxEndpointPrefix 0) c3"
      "set (aux_tags q) \<union> set (tags_of c2) \<subseteq> set (tags_of c3)" "kept c2 c3" "cx_vpnAuxTags c3 = cx_vpnAuxTags c2 @ aux_tags q"
    using A assms(7) by (auto simp: c3_def q2(1) q_def aux_tags_def)
  have k: "kept c c3" using O(4) R(3) A(3) by (blast intro: kept_trans)
  have "tag_direct \<notin> own_space \<union> row_space routeChainPrefix 0 \<union> row_space auxEndpointPrefix 0"
    "tag_l3Direct \<notin> own_space \<union> row_space routeChainPrefix 0 \<union> row_space auxEndpointPrefix 0"
    using spaces_apart(3,4) prefix_apart by auto
  note F = finish_facts [OF A(1) this, folded c']
  show "sound UNIV c'" by (rule sound_mono [OF F(2)]) simp
  have up: "set (tags_of c1) \<subseteq> set (tags_of c')" using R(2) A(2) F(5) by blast
  show "{tag_proxy, tag_direct} \<union> route_tags q \<union> set (aux_tags q) \<subseteq> set (tags_of c')"
    using up O(2) R(2) A(2) F(3,5) by blast
  show "?w \<Longrightarrow> tag_warpBypass \<in> set (tags_of c')" using up O(3) by blast
  show "cx_l3Bridge c \<Longrightarrow> tag_l3Direct \<in> set (tags_of c')" using F(4) k by (simp add: kept_def)
  show "cx_prerequisites c' = q" "\<not> cx_forTest c'" "cx_l3Bridge c' = cx_l3Bridge c"
    using F(6-8) k assms(4) by (simp_all add: kept_def q_def)
  show "cx_vpnAuxTags c' = cx_vpnAuxTags c @ aux_tags q" using F(9) A(4) R(4) O(5) by simp
  have b: "bridge_inbounds c3 = bridge_inbounds c'" using F(10,11) by (simp add: bridge_inbounds_def)
  show "jget (rs_coreConfig (cx_result c')) ''inbounds'' =
      JArr (to_arr (jget (rs_coreConfig (cx_result c)) ''inbounds'') @ bridge_inbounds c')"
    using F(14) k by (simp add: kept_def b)
  show "jget (rs_coreConfig (cx_result c')) ''outbounds'' = JArr (map JObj (cx_outbounds c'))"
    "jget (rs_coreConfig (cx_result c')) ''endpoints'' = JArr (map JObj (cx_endpoints c'))" by (rule F(12), rule F(13))
qed

end
