(* ===== verification/PrereqProps.thy ===== *)
theory PrereqProps
  imports SectionProps ConfigDemo
begin

text \<open>
  What holds of the prerequisites when no error was reported: every outbound of the route profile has
  a tag, that tag is one of a chain listed for building or a reserved one, and the endpoints run
  beside the started profile share no profile with it, with the routes or with each other.
\<close>

subsection \<open>What the stages leave alone\<close>

definition fresh :: "build_context \<Rightarrow> bool" where
  "fresh c \<longleftrightarrow> cx_outbounds c = [] \<and> cx_endpoints c = [] \<and> cx_xrayOutbounds c = [] \<and> cx_xrayIngressTags c = [] \<and>
     cx_singIngressTags c = [] \<and> cx_singToXrayBridges c = [] \<and> cx_xrayToSingBridges c = [] \<and> cx_vpnAuxTags c = [] \<and>
     cx_vpnEndpointTags c = [] \<and> \<not> cx_forTest c"

lemma fresh_sound: "fresh c \<Longrightarrow> sound {} c"
  by (simp add: fresh_def sound_def tags_of_def objs_def)

abbreviation preq :: "build_context \<Rightarrow> prerequisites" where
  "preq c \<equiv> cx_prerequisites c"

definition same_routing :: "build_context \<Rightarrow> build_context \<Rightarrow> bool" where
  "same_routing c c' \<longleftrightarrow> pq_outboundMap (preq c') = pq_outboundMap (preq c) \<and>
     pq_routeOutboundGroups (preq c') = pq_routeOutboundGroups (preq c) \<and>
     pq_auxEndpointGroups (preq c') = pq_auxEndpointGroups (preq c) \<and>
     fresh c' = fresh c \<and> cx_ent c' = cx_ent c \<and> cx_l3Bridge c' = cx_l3Bridge c"

lemma same_routing_refl [simp]: "same_routing c c"
  by (simp add: same_routing_def)

lemma same_routing_trans: "same_routing c d \<Longrightarrow> same_routing d e \<Longrightarrow> same_routing c e"
  by (simp add: same_routing_def)

lemma same_routing_note [simp]: "same_routing c (note_xray b c)" "same_routing c (c\<lparr>cx_error := e\<rparr>)"
  "same_routing c (addDirectDomains ds c)" "same_routing c (dns_selectors P c)" "same_routing c (hijack_selectors S c)"
  by (simp_all add: same_routing_def note_xray_def fresh_def addDirectDomains_def in_prereqs_def dns_selectors_def
      hijack_selectors_def Let_def)

lemma same_routing_tun [simp]: "same_routing c (tun_selectors E P c)"
  by (simp add: same_routing_def fresh_def tun_selectors_def in_prereqs_def Let_def)

lemma need_domains_same: "need_domains E ids c = (stop, c') \<Longrightarrow> same_routing c c'"
proof -
  assume a: "need_domains E ids c = (stop, c')"
  obtain addrs err where g: "getEntDomains E ids (cx_error c) = (addrs, err)" by (metis prod.exhaust)
  have "c' = c\<lparr>cx_error := err\<rparr> \<or> c' = addDirectDomains addrs (c\<lparr>cx_error := err\<rparr>)"
    using a g by (auto simp: need_domains_def Let_def split: if_splits)
  then show ?thesis by (metis same_routing_note(2,3) same_routing_trans)
qed

lemma and_then_False: "and_then s1 s2 c = (False, c') \<longleftrightarrow> (\<exists>d. s1 c = (False, d) \<and> s2 d = (False, c'))"
  by (auto simp: and_then_def split: prod.splits)

lemma stop_with_not [simp]: "stop_with err c \<noteq> (False, c')"
  by (simp add: stop_with_def)

lemma check_route_hops_same: "check_route_hops E ids c = (False, c') \<Longrightarrow> same_routing c c'"
proof (induction ids arbitrary: c)
  case (Cons i ids)
  then obtain hop d where "need_domains E [i] (note_xray (usesXrayCore hop) c) = (False, d)"
      "check_route_hops E ids d = (False, c')"
    by (auto simp: and_then_False split: option.splits if_splits)
  then show ?case using Cons.IH need_domains_same by (meson same_routing_note(1) same_routing_trans)
qed simp

subsection \<open>The routing plan\<close>

lemma starts_snoc: "starts s (rows @ [ids]) = starts s rows @ [s + sum_list (map length rows)]"
  by (induction s rows rule: starts.induct) (simp_all add: add.assoc)

definition reserved :: "bool \<Rightarrow> string set" where
  "reserved w = {tag_proxy, tag_direct} \<union> (if w then {tag_warpBypass} else {})"

definition route_rows :: "build_context \<Rightarrow> int list list" where
  "route_rows c = map rg_hopIDs (pq_routeOutboundGroups (preq c))"

definition planned :: "bool \<Rightarrow> build_context \<Rightarrow> bool" where
  "planned w c \<longleftrightarrow> fresh c \<and> (\<forall>ids \<in> set (route_rows c @ pq_auxEndpointGroups (preq c)). ids \<noteq> []) \<and>
     {-1, -2, warpBypassID} \<subseteq> dom (pq_outboundMap (preq c)) \<and>
     ran (pq_outboundMap (preq c)) \<subseteq> reserved w \<union> route_tags (preq c) \<union> set (aux_tags (preq c))"

lemma planned_same: "same_routing c c' \<Longrightarrow> planned w c' = planned w c"
  by (simp add: planned_def same_routing_def route_tags_def aux_tags_def route_rows_def)

lemma ran_insert: "ran (m(k \<mapsto> v)) \<subseteq> insert v (ran m)"
  by (auto simp: ran_def)

lemma add_route:
  fixes c :: build_context and item :: int and wr :: "profile option"
  defines "n \<equiv> sum_list (map length (route_rows c))"
  assumes "planned w c" "ids \<noteq> []"
  defines "c' \<equiv> add_route_group ids wr (map_outbound item (hopTag routeChainPrefix (int n)) c)"
  shows "planned w c'" "route_rows c' = route_rows c @ [ids]" "cx_ent c' = cx_ent c" "cx_l3Bridge c' = cx_l3Bridge c"
    "dom (pq_outboundMap (preq c')) = insert item (dom (pq_outboundMap (preq c)))"
    "pq_auxEndpointGroups (preq c') = pq_auxEndpointGroups (preq c)"
proof -
  have f: "fresh c' = fresh c" "pq_outboundMap (preq c') = (pq_outboundMap (preq c))(item \<mapsto> hopTag routeChainPrefix (int n))"
      "pq_auxEndpointGroups (preq c') = pq_auxEndpointGroups (preq c)"
      "pq_routeOutboundGroups (preq c') = pq_routeOutboundGroups (preq c) @ [\<lparr>rg_hopIDs = ids, rg_chainWrapper = wr\<rparr>]"
    by (simp_all add: c'_def fresh_def add_route_group_def map_outbound_def in_prereqs_def)
  show r: "route_rows c' = route_rows c @ [ids]" by (simp add: route_rows_def f)
  have "route_tags (preq c') = insert (hopTag routeChainPrefix (int n)) (route_tags (preq c))"
    by (simp add: route_tags_def f(4) starts_snoc n_def route_rows_def)
  moreover have "aux_tags (preq c') = aux_tags (preq c)" by (simp add: aux_tags_def f)
  ultimately show "planned w c'"
    using assms(2,3) ran_insert [of "pq_outboundMap (preq c)" item "hopTag routeChainPrefix (int n)"]
    unfolding planned_def f r by auto
  show "dom (pq_outboundMap (preq c')) = insert item (dom (pq_outboundMap (preq c)))" by (simp add: f)
  show "cx_ent c' = cx_ent c" "cx_l3Bridge c' = cx_l3Bridge c" "pq_auxEndpointGroups (preq c') = pq_auxEndpointGroups (preq c)"
    by (simp_all add: c'_def add_route_group_def map_outbound_def in_prereqs_def)
qed

lemma route_outbound_planned:
  assumes "route_outbound E item (sum_list (map length (route_rows c))) c = ((False, c'), n)" "planned w c"
  shows "planned w c' \<and> (\<exists>ids. route_rows c' = route_rows c @ [ids] \<and> n = length ids) \<and> cx_ent c' = cx_ent c \<and>
    cx_l3Bridge c' = cx_l3Bridge c \<and> dom (pq_outboundMap (preq c')) = insert item (dom (pq_outboundMap (preq c))) \<and>
    pq_auxEndpointGroups (preq c') = pq_auxEndpointGroups (preq c)"
proof -
  let ?s = "sum_list (map length (route_rows c))"
  obtain ids wr d where d: "same_routing c d" "c' = add_route_group ids wr (map_outbound item (hopTag routeChainPrefix (int ?s)) d)"
      "ids \<noteq> []" "n = length ids"
  proof -
    obtain p where p: "profile_of E item = Some p" "\<not> terminal_kind p"
      using assms(1) by (auto simp: route_outbound_def split: option.splits if_splits)
    show thesis
    proof (cases "pr_type p = ''chain''")
      case True
      then obtain i l e where "Chain p = Some (i # l)" "check_route_hops E (i # l) c = (False, e)"
          "c' = add_route_group (rev (i # l)) (Some p) (map_outbound item (hopTag routeChainPrefix (int ?s)) e)" "n = length (i # l)"
        using assms(1) p by (auto simp: route_outbound_def and_then_False split: option.splits list.splits)
      then show thesis using that [of e "rev (i # l)" "Some p"] check_route_hops_same [of E "i # l" c e] by simp
    next
      case False
      then obtain e where "need_domains E [pr_id p] (note_xray (usesXrayCore p) c) = (False, e)"
          "c' = add_route_group [item] None (map_outbound item (hopTag routeChainPrefix (int ?s)) e)" "n = 1"
        using assms(1) p by (auto simp: route_outbound_def and_then_False split: option.splits)
      then show thesis
        using that [of e "[item]" None] same_routing_trans [OF same_routing_note(1) need_domains_same] by force
    qed
  qed
  have s: "route_rows d = route_rows c" "planned w d" "pq_outboundMap (preq d) = pq_outboundMap (preq c)"
      "cx_ent d = cx_ent c" "cx_l3Bridge d = cx_l3Bridge c" "pq_auxEndpointGroups (preq d) = pq_auxEndpointGroups (preq c)"
    using d(1) assms(2) planned_same [OF d(1)] by (auto simp: same_routing_def route_rows_def)
  show ?thesis
    using add_route [OF s(2) d(3), where wr = wr and item = item, unfolded s(1), folded d(2)] d(4) s by auto
qed

lemma route_outbounds_planned:
  assumes "route_outbounds E items (sum_list (map length (route_rows c))) c = (False, c')" "planned w c"
  shows "planned w c' \<and> {i \<in> set items. 0 \<le> i} \<subseteq> dom (pq_outboundMap (preq c')) \<and>
    dom (pq_outboundMap (preq c)) \<subseteq> dom (pq_outboundMap (preq c')) \<and> cx_ent c' = cx_ent c \<and> cx_l3Bridge c' = cx_l3Bridge c \<and>
    pq_auxEndpointGroups (preq c') = pq_auxEndpointGroups (preq c)"
  using assms
proof (induction items arbitrary: c)
  case (Cons item items)
  show ?case
  proof (cases "item < 0")
    case True
    then have "route_outbounds E items (sum_list (map length (route_rows c))) c = (False, c')" using Cons.prems(1) by simp
    moreover have "{i \<in> set (item # items). 0 \<le> i} = {i \<in> set items. 0 \<le> i}" using True by auto
    ultimately show ?thesis using Cons.IH Cons.prems(2) by simp
  next
    case False
    let ?s = "sum_list (map length (route_rows c))"
    obtain d n where d: "route_outbound E item ?s c = ((False, d), n)" "route_outbounds E items (?s + n) d = (False, c')"
      using Cons.prems(1) False by (auto split: prod.splits if_splits)
    note R = route_outbound_planned [OF d(1) Cons.prems(2)]
    have "?s + n = sum_list (map length (route_rows d))" using R by auto
    then show ?thesis using Cons.IH [of d] d(2) R by auto
  qed
qed simp

subsection \<open>Endpoints\<close>

text \<open>What an endpoint without a problem is like.\<close>

definition endpoint_hop :: "'z gen_env_scheme \<Rightarrow> int list \<Rightarrow> int \<Rightarrow> bool" where
  "endpoint_hop E used i \<longleftrightarrow> (\<exists>p. profile_of E i = Some p \<and> pr_outbound p \<noteq> None \<and> \<not> terminal_kind p \<and>
     pr_type p \<noteq> ''chain'' \<and> \<not> usesXrayCore p) \<and> i \<notin> set used"

lemma check_endpoint_hop_ok: "check_endpoint_hop E name used i = [] \<Longrightarrow> endpoint_hop E used i"
  by (auto simp: check_endpoint_hop_def endpoint_hop_def listed_as_def bind_eq_Some_conv split: option.splits if_splits)

lemma check_endpoint_hops_ok: "check_endpoint_hops E name used ids = [] \<Longrightarrow> \<forall>i \<in> set ids. endpoint_hop E used i"
proof (induction ids)
  case (Cons i ids)
  then have "check_endpoint_hop E name used i = []" "check_endpoint_hops E name used ids = []"
    by (auto simp: Let_def split: if_splits)
  then show ?case using check_endpoint_hop_ok [of E name used i] Cons.IH by simp
qed simp

lemma endpoint_ok:
  assumes "endpoint_problem E used i = []"
  shows "unwrapChain (ro_profile E) i \<noteq> []" "\<forall>j \<in> set (unwrapChain (ro_profile E) i). endpoint_hop E used j" "i \<notin> set used"
    "\<exists>p. profile_of E (hd (unwrapChain (ro_profile E) i)) = Some p \<and> is_vpn p"
proof -
  obtain p ob where p: "profile_of E i = Some p" "pr_outbound p = Some ob"
    using assms by (auto simp: endpoint_problem_def bind_eq_Some_conv split: option.splits)
  show ne: "unwrapChain (ro_profile E) i \<noteq> []" using assms p by (auto simp: endpoint_problem_def listed_as_def split: if_splits)
  obtain e where e: "profile_of E (hd (unwrapChain (ro_profile E) i)) = Some e"
    using assms p ne by (auto simp: endpoint_problem_def listed_as_def Let_def split: option.splits)
  have ok: "pr_outbound e \<noteq> None \<and> is_vpn e \<and> check_endpoint_hops E (ge_label E ob) used (unwrapChain (ro_profile E) i) = [] \<and> i \<notin> set used"
    using assms p ne e by (auto simp: endpoint_problem_def listed_as_def Let_def split: if_splits)
  then show "\<forall>j \<in> set (unwrapChain (ro_profile E) i). endpoint_hop E used j" by (blast dest: check_endpoint_hops_ok)
  show "i \<notin> set used"
    "\<exists>p. profile_of E (hd (unwrapChain (ro_profile E) i)) = Some p \<and> is_vpn p"
    using e ok by auto
qed

lemma add_endpoint:
  fixes c :: build_context and i :: int
  defines "n \<equiv> sum_list (map length (pq_auxEndpointGroups (preq c)))"
  assumes "planned w c" "ids \<noteq> []"
  defines "c' \<equiv> map_outbound i (hopTag auxEndpointPrefix (int n)) (add_aux_group ids c)"
  shows "planned w c'" "pq_auxEndpointGroups (preq c') = pq_auxEndpointGroups (preq c) @ [ids]" "cx_ent c' = cx_ent c"
    "cx_l3Bridge c' = cx_l3Bridge c" "dom (pq_outboundMap (preq c')) = insert i (dom (pq_outboundMap (preq c)))"
    "route_rows c' = route_rows c"
proof -
  have f: "fresh c' = fresh c" "pq_outboundMap (preq c') = (pq_outboundMap (preq c))(i \<mapsto> hopTag auxEndpointPrefix (int n))"
      "pq_auxEndpointGroups (preq c') = pq_auxEndpointGroups (preq c) @ [ids]"
      "pq_routeOutboundGroups (preq c') = pq_routeOutboundGroups (preq c)"
    by (simp_all add: c'_def fresh_def add_aux_group_def map_outbound_def in_prereqs_def)
  show r: "route_rows c' = route_rows c" by (simp add: route_rows_def f)
  have "set (aux_tags (preq c')) = insert (hopTag auxEndpointPrefix (int n)) (set (aux_tags (preq c)))"
    by (simp add: aux_tags_def f(3) starts_snoc n_def)
  moreover have "route_tags (preq c') = route_tags (preq c)" by (simp add: route_tags_def f)
  ultimately show "planned w c'"
    using assms(2,3) ran_insert [of "pq_outboundMap (preq c)" i "hopTag auxEndpointPrefix (int n)"]
    unfolding planned_def f r by auto
  show "pq_auxEndpointGroups (preq c') = pq_auxEndpointGroups (preq c) @ [ids]" by (rule f(3))
  show "dom (pq_outboundMap (preq c')) = insert i (dom (pq_outboundMap (preq c)))" by (simp add: f)
  show "cx_ent c' = cx_ent c" "cx_l3Bridge c' = cx_l3Bridge c"
    by (simp_all add: c'_def add_aux_group_def map_outbound_def in_prereqs_def)
qed

text \<open>The groups that are added, one per endpoint, apart from what is used and from each other.\<close>

lemma aux_endpoints_planned:
  assumes "aux_endpoints E ends used (sum_list (map length (pq_auxEndpointGroups (preq c)))) c = (False, c')" "planned w c"
  shows "planned w c' \<and> set ends \<subseteq> dom (pq_outboundMap (preq c')) \<and>
    dom (pq_outboundMap (preq c)) \<subseteq> dom (pq_outboundMap (preq c')) \<and> cx_ent c' = cx_ent c \<and>
    cx_l3Bridge c' = cx_l3Bridge c \<and> route_rows c' = route_rows c \<and>
    pq_auxEndpointGroups (preq c') = pq_auxEndpointGroups (preq c) @ map (unwrapChain (ro_profile E)) ends"
  using assms
proof (induction ends arbitrary: c used)
  case (Cons i ends)
  let ?h = "unwrapChain (ro_profile E) i" and ?s = "sum_list (map length (pq_auxEndpointGroups (preq c)))"
  define d where "d = map_outbound i (hopTag auxEndpointPrefix (int ?s)) (add_aux_group ?h c)"
  have ok: "endpoint_problem E used i = []" and r: "aux_endpoints E ends (used @ i # ?h) (?s + length ?h) d = (False, c')"
    using Cons.prems(1) by (auto simp: Let_def d_def split: if_splits)
  note A = add_endpoint [OF Cons.prems(2) endpoint_ok(1) [OF ok], where i = i, folded d_def]
  have "?s + length ?h = sum_list (map length (pq_auxEndpointGroups (preq d)))" by (simp add: A(2))
  then show ?case using Cons.IH [of "used @ i # ?h" d] r A by auto
qed simp

lemma aux_endpoints_apart:
  assumes "aux_endpoints E ends used s c = (False, c')"
  shows "\<forall>k < length ends. \<forall>j \<in> set (unwrapChain (ro_profile E) (ends ! k)).
      endpoint_hop E (used @ concat (map (\<lambda>i. i # unwrapChain (ro_profile E) i) (take k ends))) j"
  using assms
proof (induction ends arbitrary: used s c)
  case (Cons i ends)
  have ok: "endpoint_problem E used i = []"
    and r: "aux_endpoints E ends (used @ i # unwrapChain (ro_profile E) i) (s + length (unwrapChain (ro_profile E) i))
      (map_outbound i (hopTag auxEndpointPrefix (int s)) (add_aux_group (unwrapChain (ro_profile E) i) c)) = (False, c')"
    using Cons.prems by (auto simp: Let_def split: if_splits)
  show ?case
  proof (intro allI impI ballI)
    fix k j assume "k < length (i # ends)" "j \<in> set (unwrapChain (ro_profile E) ((i # ends) ! k))"
    then show "endpoint_hop E (used @ concat (map (\<lambda>i. i # unwrapChain (ro_profile E) i) (take k (i # ends)))) j"
      using endpoint_ok(2) [OF ok] Cons.IH [OF r] by (cases k) auto
  qed
qed simp

lemma aux_endpoints_exit:
  assumes "aux_endpoints E ends used s c = (False, c')" "k < length ends"
  shows "unwrapChain (ro_profile E) (ends ! k) \<noteq> [] \<and>
    (\<exists>p. profile_of E (hd (unwrapChain (ro_profile E) (ends ! k))) = Some p \<and> is_vpn p)"
  using assms
proof (induction ends arbitrary: used s c k)
  case (Cons i ends)
  let ?h = "unwrapChain (ro_profile E) i"
  have ok: "endpoint_problem E used i = []"
    and r: "aux_endpoints E ends (used @ i # ?h) (s + length ?h) (map_outbound i (hopTag auxEndpointPrefix (int s)) (add_aux_group ?h c)) = (False, c')"
    using Cons.prems(1) by (auto simp: Let_def split: if_splits)
  show ?case using Cons.IH [OF r] endpoint_ok(1,4) [OF ok] Cons.prems(2) by (cases k) auto
qed simp

subsection \<open>All stages\<close>

text \<open>Up to the extra core a stage returns early only with an error.\<close>

definition honest :: "stage \<Rightarrow> bool" where
  "honest s \<longleftrightarrow> (\<forall>c c'. s c = (True, c') \<longrightarrow> cx_error c' \<noteq> [])"

lemma honestD: "honest s \<Longrightarrow> cx_error (snd (s c)) = [] \<Longrightarrow> s c = (False, snd (s c))"
  by (cases "s c") (auto simp: honest_def)

lemma honest_and_then: "honest s1 \<Longrightarrow> honest s2 \<Longrightarrow> honest (and_then s1 s2)"
  by (auto simp: honest_def and_then_def split: prod.splits if_splits)

lemma honest_need: "honest (need_domains E ids)"
  by (auto simp: honest_def need_domains_def Let_def split: prod.splits if_splits)

lemma honest_hops: "honest (check_route_hops E ids)"
proof (induction ids)
  case (Cons i ids)
  have "honest (and_then (need_domains E [i]) (check_route_hops E ids))" by (rule honest_and_then [OF honest_need Cons])
  then show ?case by (auto simp: honest_def stop_with_def split: option.splits if_splits)
qed (simp add: honest_def)

lemma honest_outbound: "route_outbound E item s c = ((True, c'), n) \<Longrightarrow> cx_error c' \<noteq> []"
proof -
  assume a: "route_outbound E item s c = ((True, c'), n)"
  have *: "honest (and_then (check_route_hops E ids) (\<lambda>c. (False, f c)))" "honest (and_then (need_domains E ids) (\<lambda>c. (False, f c)))" for ids f
    by (rule honest_and_then [OF honest_hops], simp add: honest_def, rule honest_and_then [OF honest_need], simp add: honest_def)
  show ?thesis using a *(1) *(2)
    by (auto simp: route_outbound_def stop_with_def honest_def split: option.splits if_splits list.splits)
qed

lemma honest_outbounds: "honest (route_outbounds E items s)"
proof (induction items arbitrary: s)
  case (Cons item items)
  then show ?case by (auto simp: honest_def split: prod.splits if_splits dest: honest_outbound)
qed (simp add: honest_def)

lemma honest_endpoints: "honest (aux_endpoints E ends used s)"
proof (induction ends arbitrary: used s)
  case (Cons i ends)
  then show ?case by (auto simp: honest_def stop_with_def Let_def)
qed (simp add: honest_def)

lemma honest_group: "honest (group_stage E)"
proof -
  have "cx_error c' \<noteq> []" if "group_stage E c = (True, c')" for c c'
  proof (cases "ge_groups E (pr_gid (cx_ent c))")
    case None
    then show ?thesis using that by (simp add: group_stage_def)
  next
    case (Some g)
    then show ?thesis using that unfolding group_stage_def Some option.case Let_def split_beta
      by (simp split: if_splits) auto
  qed
  then show ?thesis by (simp add: honest_def)
qed

lemma honest_selectors: "honest (selectors_stage E P)"
proof -
  have "honest (and_then (need_domains E ids) (group_stage E))" for ids by (rule honest_and_then [OF honest_need honest_group])
  then show ?thesis unfolding honest_def selectors_stage_def Let_def by blast
qed

lemma group_stage_same: "group_stage E c = (False, c') \<Longrightarrow> same_routing c c'"
proof -
  assume a: "group_stage E c = (False, c')"
  show ?thesis
  proof (cases "ge_groups E (pr_gid (cx_ent c))")
    case None
    then show ?thesis using a by (simp add: group_stage_def)
  next
    case (Some g)
    let ?ids = "filter (\<lambda>i. 0 \<le> i) [gr_front_proxy_id g, gr_landing_proxy_id g]"
    obtain addrs err where e: "getEntDomains E ?ids (cx_error (note_xray (any_uses_xray E ?ids) c)) = (addrs, err)" by (metis prod.exhaust)
    have "c' = (if addrs \<noteq> [] then addDirectDomains addrs else id) ((note_xray (any_uses_xray E ?ids) c)\<lparr>cx_error := err\<rparr>)"
      using a e unfolding group_stage_def Some option.case Let_def by (auto split: if_splits)
    then show ?thesis
      using same_routing_trans [OF same_routing_trans [OF same_routing_note(1) same_routing_note(2)] same_routing_note(3)]
        same_routing_trans [OF same_routing_note(1) same_routing_note(2)] by auto
  qed
qed

lemma selectors_stage_same: "selectors_stage E P c = (False, c') \<Longrightarrow> same_routing c c'"
proof -
  assume a: "selectors_stage E P c = (False, c')"
  define d where "d = in_prereqs (\<lambda>q. q\<lparr>pq_neededRuleSets := pq_neededRuleSets q @ get_used_rule_sets P\<rparr>) c"
  define e where "e = (if gs_enable_dns_routing (ge_settings E) then dns_selectors P d else d)"
  have "same_routing c d" by (simp add: d_def same_routing_def fresh_def in_prereqs_def)
  then have ce: "same_routing c e" by (auto simp: e_def intro: same_routing_trans)
  obtain f where "need_domains E [pr_id (cx_ent e)] e = (False, f)" "group_stage E f = (False, c')"
    using a unfolding selectors_stage_def Let_def d_def [symmetric] e_def [symmetric] and_then_False by blast
  then show ?thesis using need_domains_same group_stage_same ce by (meson same_routing_trans)
qed

lemma extra_core_same: "same_routing c (snd (extra_core_stage E c))"
  by (auto simp: extra_core_stage_def stop_with_def same_routing_def fresh_def split: option.split)

lemma begin_planned:
  assumes "begin_prerequisites E P c = (False, c')" "fresh c" "preq c = new_prerequisites"
  shows "planned (gs_enable_warp (ge_settings E)) c'" "route_rows c' = []" "pq_auxEndpointGroups (preq c') = []" "cx_ent c' = cx_ent c"
proof -
  let ?d = "reserved_outbounds (ge_settings E) (c\<lparr>cx_l3Bridge := (l3BridgeEnabled E c \<and> \<not> (rt_isRaw P \<and> rt_preventModifications P))\<rparr>)"
  have c': "c' = note_xray (proxyPathUsesXray E (cx_ent c)) ?d"
    using assms(1) by (auto simp: begin_prerequisites_def Let_def reserved_outbounds_def map_outbound_def in_prereqs_def split: if_splits)
  have "planned (gs_enable_warp (ge_settings E)) ?d"
    using assms(2,3)
    by (auto simp: planned_def reserved_outbounds_def map_outbound_def in_prereqs_def fresh_def route_rows_def
        new_prerequisites_def reserved_def ran_def warpBypassID_def split: if_splits)
  then show "planned (gs_enable_warp (ge_settings E)) c'" unfolding c' using planned_same [OF same_routing_note(1)] by blast
  show "route_rows c' = []" "pq_auxEndpointGroups (preq c') = []" "cx_ent c' = cx_ent c"
    using assms(3) by (auto simp: c' note_xray_def reserved_outbounds_def map_outbound_def in_prereqs_def route_rows_def new_prerequisites_def)
qed

lemma honest_aux: "honest (aux_stage E P)"
proof -
  have "cx_error c' \<noteq> []" if "aux_stage E P c = (True, c')" for c c'
    using that honest_endpoints [of E "rt_endpointProfileIDs P" "used_profiles E c" 0]
    by (auto simp: honest_def aux_stage_def split: if_splits)
  then show ?thesis by (simp add: honest_def)
qed

lemma honest_begin: "honest (begin_prerequisites E P)"
  by (auto simp: honest_def begin_prerequisites_def stop_with_def Let_def)

lemma stage_split:
  assumes "cx_error (snd (and_then s1 s2 c)) = []" "honest s1"
  shows "s1 c = (False, snd (s1 c))" "snd (and_then s1 s2 c) = snd (s2 (snd (s1 c)))"
  using assms by (auto simp: and_then_def honest_def split: prod.splits if_splits)

lemma prerequisites_planned:
  assumes "cx_error (calculatePrerequisites E c) = []" "fresh c" "preq c = new_prerequisites"
  defines "c' \<equiv> calculatePrerequisites E c"
  obtains P d e where "ge_route E = Some P" "planned (gs_enable_warp (ge_settings E)) c'" "cx_ent c' = cx_ent c"
    "{i \<in> set (get_used_outbounds E P). 0 \<le> i} \<union> set (rt_endpointProfileIDs P) \<subseteq> dom (pq_outboundMap (preq c'))"
    "pq_auxEndpointGroups (preq c') = map (unwrapChain (ro_profile E)) (rt_endpointProfileIDs P)"
    "used_profiles E d = used_profiles E c'" "aux_stage E P d = (False, e)"
proof -
  obtain P where P: "ge_route E = Some P"
    using assms(1) by (cases "ge_route E") (auto simp: calculatePrerequisites_def Let_def)
  define c0 where "c0 = c\<lparr>cx_tunEnabled := gs_spmode_vpn (ge_settings E),
      cx_isResolvedUsed := (if ro_os E = Linux then ge_resolved E else cx_isResolvedUsed c)\<rparr>"
  have c0: "fresh c0" "preq c0 = new_prerequisites" "cx_ent c0 = cx_ent c"
    using assms(2,3) by (simp_all add: c0_def fresh_def)
  define late where "late = (\<lambda>c. (False, tun_selectors E P (hijack_selectors (ge_settings E) c)) :: bool \<times> build_context)"
  have un: "c' = snd (and_then (begin_prerequisites E P) (and_then (route_outbounds E (get_used_outbounds E P) 0)
      (and_then (aux_stage E P) (and_then (selectors_stage E P) (and_then late (extra_core_stage E))))) c0)"
    by (simp add: c'_def calculatePrerequisites_def P c0_def late_def Let_def)
  define d1 where "d1 = snd (begin_prerequisites E P c0)"
  define d2 where "d2 = snd (route_outbounds E (get_used_outbounds E P) 0 d1)"
  define d3 where "d3 = snd (aux_stage E P d2)"
  define d4 where "d4 = snd (selectors_stage E P d3)"
  note ok0 = assms(1) [folded c'_def, unfolded un]
  note s1 = stage_split [OF ok0 honest_begin, folded d1_def]
  note ok1 = ok0 [unfolded s1(2)]
  note s2 = stage_split [OF ok1 honest_outbounds, folded d2_def]
  note ok2 = ok1 [unfolded s2(2)]
  note s3 = stage_split [OF ok2 honest_aux, folded d3_def]
  note ok3 = ok2 [unfolded s3(2)]
  note s4 = stage_split [OF ok3 honest_selectors, folded d4_def]
  have c': "c' = snd (and_then late (extra_core_stage E) d4)" unfolding un s1(2) s2(2) s3(2) s4(2) ..
  have "c' = snd (extra_core_stage E (tun_selectors E P (hijack_selectors (ge_settings E) d4)))"
    by (simp add: c' late_def and_then_def)
  then have "same_routing d4 c'"
    using same_routing_trans [OF same_routing_trans [OF same_routing_note(5) same_routing_tun] extra_core_same] by simp
  then have last: "same_routing d3 c'" using selectors_stage_same [OF s4(1)] by (blast intro: same_routing_trans)
  let ?w = "gs_enable_warp (ge_settings E)"
  note B = begin_planned [OF s1(1) c0(1,2)]
  have R: "planned ?w d2 \<and> {i \<in> set (get_used_outbounds E P). 0 \<le> i} \<subseteq> dom (pq_outboundMap (preq d2)) \<and>
      dom (pq_outboundMap (preq d1)) \<subseteq> dom (pq_outboundMap (preq d2)) \<and> cx_ent d2 = cx_ent d1 \<and> cx_l3Bridge d2 = cx_l3Bridge d1 \<and>
      pq_auxEndpointGroups (preq d2) = pq_auxEndpointGroups (preq d1)"
    using route_outbounds_planned [OF _ B(1), of E "get_used_outbounds E P" d2] s2(1) B(2) by simp
  have A: "planned ?w d3 \<and> set (rt_endpointProfileIDs P) \<subseteq> dom (pq_outboundMap (preq d3)) \<and>
      dom (pq_outboundMap (preq d2)) \<subseteq> dom (pq_outboundMap (preq d3)) \<and> cx_ent d3 = cx_ent d2 \<and> route_rows d3 = route_rows d2 \<and>
      pq_auxEndpointGroups (preq d3) = map (unwrapChain (ro_profile E)) (rt_endpointProfileIDs P)"
  proof (cases "rt_endpointProfileIDs P = []")
    case True
    then have "d3 = d2" using s3(1) by (simp add: aux_stage_def)
    then show ?thesis using R True B(3) by simp
  next
    case False
    then have "aux_endpoints E (rt_endpointProfileIDs P) (used_profiles E d2) (sum_list (map length (pq_auxEndpointGroups (preq d2)))) d2 = (False, d3)"
      using s3(1) R B(3) by (simp add: aux_stage_def)
    from aux_endpoints_planned [OF this conjunct1 [OF R]] R B(3) show ?thesis by simp
  qed
  have f: "planned ?w c'" "cx_ent c' = cx_ent c"
      "{i \<in> set (get_used_outbounds E P). 0 \<le> i} \<union> set (rt_endpointProfileIDs P) \<subseteq> dom (pq_outboundMap (preq c'))"
      "pq_auxEndpointGroups (preq c') = map (unwrapChain (ro_profile E)) (rt_endpointProfileIDs P)"
  proof -
    have m: "pq_outboundMap (preq c') = pq_outboundMap (preq d3)" using last by (simp add: same_routing_def)
    show "planned ?w c'" using planned_same [OF last, of ?w] A by simp
    show "cx_ent c' = cx_ent c" using last A R B(4) c0(3) by (simp add: same_routing_def)
    show "{i \<in> set (get_used_outbounds E P). 0 \<le> i} \<union> set (rt_endpointProfileIDs P) \<subseteq> dom (pq_outboundMap (preq c'))"
      using A R unfolding m by blast
    show "pq_auxEndpointGroups (preq c') = map (unwrapChain (ro_profile E)) (rt_endpointProfileIDs P)"
      using last A by (simp add: same_routing_def)
  qed
  have "route_rows c' = route_rows d2" "cx_ent c' = cx_ent d2" using last A by (simp_all add: same_routing_def route_rows_def)
  then have "used_profiles E d2 = used_profiles E c'" by (simp add: used_profiles_def route_rows_def)
  then show thesis by (rule that [OF P f _ s3(1)])
qed

lemma new_context_fresh: "fresh (new_context ent)" "preq (new_context ent) = new_prerequisites" "cx_ent (new_context ent) = ent"
  by (simp_all add: fresh_def new_context_def)

lemma endpoint_hop_kind:
  "endpoint_hop E used i \<Longrightarrow> (\<exists>p. profile_of E i = Some p \<and> \<not> terminal_kind p \<and> \<not> usesXrayCore p \<and> pr_type p \<noteq> ''chain'') \<and>
    i \<notin> set used"
  by (auto simp: endpoint_hop_def)

text \<open>
  C9: An endpoint that runs beside the started profile runs once. When the prerequisites are
  collected without an error there is one group of hops per endpoint of the route profile; its exit
  is a VPN, and each of its hops is a server that runs in sing-box itself, takes no part in the
  started profile, its group or the route's outbounds, and is in no earlier group.
\<close>

theorem endpoints_run_once:
  assumes "cx_error (calculatePrerequisites E (new_context ent)) = []"
  defines "c \<equiv> calculatePrerequisites E (new_context ent)"
  defines "groups \<equiv> pq_auxEndpointGroups (cx_prerequisites c)"
  shows "\<exists>P. ge_route E = Some P \<and> groups = map (unwrapChain (ro_profile E)) (rt_endpointProfileIDs P) \<and>
    (\<forall>k < length groups. groups ! k \<noteq> [] \<and>
       (\<exists>p. profile_of E (hd (groups ! k)) = Some p \<and> is_vpn p) \<and>
       (\<forall>i \<in> set (groups ! k). (\<exists>p. profile_of E i = Some p \<and> \<not> terminal_kind p \<and> \<not> usesXrayCore p \<and> pr_type p \<noteq> ''chain'') \<and>
          i \<notin> set (used_profiles E c) \<and> (\<forall>l < k. i \<notin> set (groups ! l))))"
proof -
  obtain P d e where P: "ge_route E = Some P" "groups = map (unwrapChain (ro_profile E)) (rt_endpointProfileIDs P)"
      "used_profiles E d = used_profiles E c" "aux_stage E P d = (False, e)"
    using prerequisites_planned [OF assms(1) new_context_fresh(1,2)] unfolding c_def groups_def by metis
  have "groups ! k \<noteq> [] \<and> (\<exists>p. profile_of E (hd (groups ! k)) = Some p \<and> is_vpn p) \<and>
      (\<forall>i \<in> set (groups ! k). endpoint_hop E (used_profiles E c) i \<and> (\<forall>l < k. i \<notin> set (groups ! l)))"
    if k: "k < length groups" for k
  proof -
    let ?ends = "rt_endpointProfileIDs P"
    have a: "aux_endpoints E ?ends (used_profiles E c) 0 d = (False, e)" and k': "k < length ?ends"
      using P k by (auto simp: aux_stage_def split: if_splits)
    have g: "groups ! l = unwrapChain (ro_profile E) (?ends ! l)" if "l \<le> k" for l using that k' by (simp add: P(2))
    have apart: "\<forall>i \<in> set (groups ! k). endpoint_hop E (used_profiles E c @ concat (map (\<lambda>i. i # unwrapChain (ro_profile E) i) (take k ?ends))) i"
      using aux_endpoints_apart [OF a] k' g [of k] by simp
    moreover have "set (groups ! l) \<subseteq> set (concat (map (\<lambda>i. i # unwrapChain (ro_profile E) i) (take k ?ends)))" if "l < k" for l
    proof -
      have "?ends ! l \<in> set (take k ?ends)" using that k' by (metis in_set_conv_nth length_take min.absorb4 nth_take)
      then show ?thesis using g [of l] that by auto
    qed
    ultimately have "\<forall>i \<in> set (groups ! k). endpoint_hop E (used_profiles E c) i \<and> (\<forall>l < k. i \<notin> set (groups ! l))"
      by (force simp: endpoint_hop_def)
    then show ?thesis using aux_endpoints_exit [OF a k'] g [of k] by simp
  qed
  then show ?thesis using P(1,2) endpoint_hop_kind by blast
qed

lemma endpoints_run_once_witness:
  "cx_error (calculatePrerequisites demo_config (new_context demo_started)) = [] \<and>
   pq_auxEndpointGroups (cx_prerequisites (calculatePrerequisites demo_config (new_context demo_started))) = [[4]] \<and>
   4 \<notin> set (used_profiles demo_config (calculatePrerequisites demo_config (new_context demo_started)))"
proof -
  have ok: "cx_error (calculatePrerequisites demo_config (new_context demo_started)) = []" by code_simp
  have g: "pq_auxEndpointGroups (cx_prerequisites (calculatePrerequisites demo_config (new_context demo_started))) = [[4]]"
    by code_simp
  show ?thesis using endpoints_run_once [OF ok] ok g by (auto simp: g)
qed

end
