(* ===== verification/RouteProfileProps.thy ===== *)
theory RouteProfileProps
  imports RouteProfile
begin

text \<open>
  Properties of routing profiles: the rules paired with endpoints, the rules a build hands to the
  core, the raw walks, and the simple rules as text.
\<close>

subsection \<open>Endpoint rules\<close>

abbreviation is_endpoint :: "routeRule \<Rightarrow> bool" where
  "is_endpoint r \<equiv> rr_type r = EndpointPreferredBy"

definition paired_key :: "int list \<Rightarrow> routeRule \<Rightarrow> int option" where
  "paired_key endpoints r = (if rr_outboundID r \<in> set endpoints then Some (rr_outboundID r) else None)"

lemma keep_paired_others:
  "filter (\<lambda>r. \<not> is_endpoint r) (fst (keep_paired eps paired rs)) = filter (\<lambda>r. \<not> is_endpoint r) rs"
  by (induction rs arbitrary: paired) (auto simp: split_beta)

lemma keep_paired_endpoints:
  "filter is_endpoint (fst (keep_paired eps paired rs)) = keep_first (paired_key eps) paired (filter is_endpoint rs)"
  by (induction rs arbitrary: paired) (auto simp: paired_key_def split_beta)

lemma keep_paired_ids:
  "set (snd (keep_paired eps paired rs)) =
    set paired \<union> rr_outboundID ` set (filter is_endpoint (fst (keep_paired eps paired rs)))"
  by (induction rs arbitrary: paired) (auto simp: split_beta)

lemma keep_paired_id:
  "distinct (map rr_outboundID (filter is_endpoint rs)) \<Longrightarrow>
    \<forall>r \<in> set rs. is_endpoint r \<longrightarrow> rr_outboundID r \<in> set eps \<and> rr_outboundID r \<notin> set paired \<Longrightarrow>
    fst (keep_paired eps paired rs) = rs"
proof (induction rs arbitrary: paired)
  case (Cons r rs)
  then have "\<forall>q \<in> set rs. is_endpoint q \<longrightarrow> rr_outboundID q \<noteq> rr_outboundID r" if "is_endpoint r"
    using that by (force simp: image_iff)
  with Cons show ?case by (auto simp: split_beta)
qed simp

lemma paired_keys: "the ` paired_key eps ` set (keep_first (paired_key eps) [] rs) = rr_outboundID ` set rs \<inter> set eps"
proof -
  have "{k. \<exists>r \<in> set rs. paired_key eps r = Some k} = rr_outboundID ` set rs \<inter> set eps"
    by (auto simp: paired_key_def split: if_splits)
  then show ?thesis by (simp add: keep_first_keys del: image_image)
qed

lemma kept_ids:
  "map (the \<circ> paired_key eps) (keep_first (paired_key eps) seen rs)
    = map rr_outboundID (keep_first (paired_key eps) seen rs)"
  using keep_first_subset [of "paired_key eps" seen rs] by (auto simp: paired_key_def split: if_splits)

lemma MakeEndpointRule_fields [simp]:
  "rr_type (MakeEndpointRule E i) = EndpointPreferredBy" "rr_outboundID (MakeEndpointRule E i) = i"
  by (simp_all add: MakeEndpointRule_def)

definition endpoint_rules :: "routeProfile \<Rightarrow> routeRule list" where
  "endpoint_rules P = filter is_endpoint (rt_Rules P)"

lemma sync_endpoint_rules:
  "\<not> rt_isRaw P \<Longrightarrow> endpoint_rules (SyncEndpointRules E P) =
    (let kept = keep_first (paired_key (rt_endpointProfileIDs P)) [] (endpoint_rules P)
     in kept @ map (MakeEndpointRule E)
          (filter (\<lambda>i. i \<notin> rr_outboundID ` set kept) (rt_endpointProfileIDs P)))"
  using keep_paired_endpoints [of "rt_endpointProfileIDs P" "[]" "rt_Rules P"]
    keep_paired_ids [of "rt_endpointProfileIDs P" "[]" "rt_Rules P"]
  by (simp add: SyncEndpointRules_def endpoint_rules_def Let_def split_beta filter_map comp_def)

lemma sync_endpoint_ids:
  assumes "\<not> rt_isRaw P" "distinct (rt_endpointProfileIDs P)"
  shows "distinct (map rr_outboundID (endpoint_rules (SyncEndpointRules E P)))"
    and "rr_outboundID ` set (endpoint_rules (SyncEndpointRules E P)) = set (rt_endpointProfileIDs P)"
proof -
  let ?eps = "rt_endpointProfileIDs P"
  let ?kept = "keep_first (paired_key ?eps) [] (endpoint_rules P)"
  have ids: "rr_outboundID ` set ?kept = rr_outboundID ` set (endpoint_rules P) \<inter> set ?eps"
    using paired_keys [of ?eps "endpoint_rules P"] arg_cong [OF kept_ids [of ?eps "[]" "endpoint_rules P"], of set]
    by (simp add: image_comp)
  moreover have "distinct (map rr_outboundID ?kept)"
    using keep_first_distinct [of "paired_key ?eps" "[]" "endpoint_rules P"] by (simp only: kept_ids)
  ultimately show "distinct (map rr_outboundID (endpoint_rules (SyncEndpointRules E P)))"
    and "rr_outboundID ` set (endpoint_rules (SyncEndpointRules E P)) = set ?eps"
    using assms by (auto simp: sync_endpoint_rules Let_def comp_def image_Un image_image)
qed

lemma sync_idempotent:
  assumes "distinct (rt_endpointProfileIDs P)"
  shows "SyncEndpointRules E (SyncEndpointRules E P) = SyncEndpointRules E P"
proof (cases "rt_isRaw P")
  case False
  let ?Q = "SyncEndpointRules E P"
  have same: "rt_isRaw ?Q = rt_isRaw P" "rt_endpointProfileIDs ?Q = rt_endpointProfileIDs P"
    by (simp_all add: SyncEndpointRules_def split: prod.splits)
  have fixed: "fst (keep_paired (rt_endpointProfileIDs P) [] (rt_Rules ?Q)) = rt_Rules ?Q"
    using sync_endpoint_ids [OF False assms, of E]
    by (intro keep_paired_id) (auto simp: endpoint_rules_def)
  moreover have "set (snd (keep_paired (rt_endpointProfileIDs P) [] (rt_Rules ?Q))) = set (rt_endpointProfileIDs P)"
    using fixed sync_endpoint_ids(2) [OF False assms, of E]
    by (simp add: keep_paired_ids endpoint_rules_def)
  ultimately have "rt_Rules (SyncEndpointRules E ?Q) = rt_Rules ?Q"
    using False same by (simp add: SyncEndpointRules_def [of E ?Q] split_beta)
  then show ?thesis
    using False same by (simp add: SyncEndpointRules_def [of E ?Q] split_beta)
qed (simp add: SyncEndpointRules_def)

text \<open>
  C24: Synchronising a structured profile whose endpoint list has no repetitions leaves exactly one
  endpoint rule per listed endpoint and none for any other, keeps the first rule of each listed
  endpoint as it was, in its place, appends the missing ones, leaves every other rule untouched
  and in order, and doing it again changes nothing.
\<close>

theorem endpoint_rules_synchronised:
  assumes "\<not> rt_isRaw P" and "distinct (rt_endpointProfileIDs P)"
  shows "distinct (map rr_outboundID (endpoint_rules (SyncEndpointRules E P)))
    \<and> rr_outboundID ` set (endpoint_rules (SyncEndpointRules E P)) = set (rt_endpointProfileIDs P)
    \<and> (\<exists>missing. endpoint_rules (SyncEndpointRules E P)
          = keep_first (paired_key (rt_endpointProfileIDs P)) [] (endpoint_rules P)
            @ map (MakeEndpointRule E) missing)
    \<and> filter (\<lambda>r. \<not> is_endpoint r) (rt_Rules (SyncEndpointRules E P)) = filter (\<lambda>r. \<not> is_endpoint r) (rt_Rules P)
    \<and> SyncEndpointRules E (SyncEndpointRules E P) = SyncEndpointRules E P"
proof -
  have "filter (\<lambda>r. \<not> is_endpoint r) (rt_Rules (SyncEndpointRules E P)) = filter (\<lambda>r. \<not> is_endpoint r) (rt_Rules P)"
    using assms(1) by (simp add: SyncEndpointRules_def split_beta keep_paired_others filter_empty_conv)
  moreover have "\<exists>missing. endpoint_rules (SyncEndpointRules E P)
      = keep_first (paired_key (rt_endpointProfileIDs P)) [] (endpoint_rules P) @ map (MakeEndpointRule E) missing"
    using assms(1) by (auto simp: sync_endpoint_rules Let_def)
  ultimately show ?thesis
    using sync_endpoint_ids [OF assms, of E] sync_idempotent [OF assms(2), of E] by simp
qed

text \<open>Two endpoints, one rule too many, one orphan, one endpoint without its rule.\<close>

definition demo_endpoints :: routeProfile where
  "demo_endpoints = new_routeProfile\<lparr>rt_endpointProfileIDs := [7, 8],
     rt_Rules := [MakeEndpointRule demo_routing 8, new_rule, MakeEndpointRule demo_routing 3,
       MakeEndpointRule demo_routing 8]\<rparr>"

theorem endpoint_rules_synchronised_witness:
  "map rr_outboundID (endpoint_rules (SyncEndpointRules demo_routing demo_endpoints)) = [8, 7]
   \<and> set [8, 7] = set (rt_endpointProfileIDs demo_endpoints)
   \<and> SyncEndpointRules demo_routing (SyncEndpointRules demo_routing demo_endpoints)
     = SyncEndpointRules demo_routing demo_endpoints"
proof -
  have "\<not> rt_isRaw demo_endpoints" "distinct (rt_endpointProfileIDs demo_endpoints)"
    by (simp_all add: demo_endpoints_def new_routeProfile_def)
  from endpoint_rules_synchronised [OF this, of demo_routing]
  have "SyncEndpointRules demo_routing (SyncEndpointRules demo_routing demo_endpoints)
      = SyncEndpointRules demo_routing demo_endpoints"
    by blast
  moreover have "map rr_outboundID (endpoint_rules (SyncEndpointRules demo_routing demo_endpoints)) = [8, 7]"
    by (simp add: SyncEndpointRules_def demo_endpoints_def new_routeProfile_def endpoint_rules_def new_rule_def)
  moreover have "set [8, 7] = set (rt_endpointProfileIDs demo_endpoints)"
    by (auto simp: demo_endpoints_def)
  ultimately show ?thesis by simp
qed

subsection \<open>Rules of a build\<close>

definition tag_for :: "(int \<Rightarrow> string option) \<Rightarrow> routeRule \<Rightarrow> string" where
  "tag_for m r = (case m (rr_outboundID r) of Some t \<Rightarrow> t | None \<Rightarrow> [])"

definition takes_part :: "'z route_env_scheme \<Rightarrow> (int \<Rightarrow> string option) \<Rightarrow> routeRule \<Rightarrow> bool" where
  "takes_part E m r \<longleftrightarrow> \<not> (rr_type r \<noteq> CustomRule \<and> fst (rule_isEmpty E r)) \<and> \<not> (is_endpoint r \<and> tag_for m r = [])"

definition core_json :: "'z route_env_scheme \<Rightarrow> (int \<Rightarrow> string option) \<Rightarrow> routeRule \<Rightarrow> jobject" where
  "core_json E m r = fst (get_rule_json E False (tag_for m r) r)"

definition routes_somewhere :: "jobject \<Rightarrow> bool" where
  "routes_somewhere ob \<longleftrightarrow> jget ob ''action'' = JStr ''route''"

lemma core_json_nonempty: "takes_part E m r \<Longrightarrow> core_json E m r \<noteq> []"
proof (cases "is_endpoint r")
  case True
  assume "takes_part E m r"
  with True have "tag_for m r \<noteq> []" by (simp add: takes_part_def)
  with True show ?thesis by (simp add: core_json_def get_rule_json_def endpoint_json_def jbuild_nonempty)
next
  case False
  have some: "\<exists>ob. outbound_member E False (tag_for m r) q = Some ob" for q
    by (simp add: outbound_member_def)
  have members: "condition_members E False q @ action_members E q @ rest \<noteq> []" for q rest
    by (simp add: action_members_def)
  from some [of "fix_action r"] members [of "fix_action r"] members [of "fix_action r" "[]"] False show ?thesis
    by (auto simp: core_json_def get_rule_json_def Let_def jbuild_nonempty simp del: append_is_Nil_conv)
qed

definition with_adblock :: "bool \<Rightarrow> jobject list \<Rightarrow> jobject list" where
  "with_adblock on js =
     (if on then takeWhile (\<lambda>ob. \<not> routes_somewhere ob) js @ createAdblockRule # dropWhile (\<lambda>ob. \<not> routes_somewhere ob) js
      else js)"

lemma route_rules_loop_build:
  "route_rules_loop E False m added rs =
     (Some (with_adblock (\<not> added \<and> re_adblock_enable E) (map (core_json E m) (filter (takes_part E m) rs))),
      map (\<lambda>r. if takes_part E m r then snd (get_rule_json E False (tag_for m r) r) else r) rs)"
proof (induction rs arbitrary: added)
  case (Cons r rs)
  show ?case
  proof (cases "takes_part E m r")
    case True
    then have "core_json E m r \<noteq> []" by (rule core_json_nonempty)
    with True Cons show ?thesis
      by (auto simp: takes_part_def core_json_def with_adblock_def routes_somewhere_def tag_for_def Let_def
          split: prod.splits)
  next
    case False
    with Cons show ?thesis
      by (auto simp: takes_part_def tag_for_def Let_def)
  qed
qed (simp add: with_adblock_def)

text \<open>
  C16: The rules a build hands to the core are never cut short by an error: they are the JSON of
  exactly the rules that say something, in the order of the profile, less the endpoint rules whose
  endpoint has no tag; with ad blocking on, its reject rule comes in front of the first rule that
  routes traffic and behind everything before it, or last when no rule routes.
\<close>

theorem build_rules_complete:
  "fst (get_route_rules E False m P)
    = with_adblock (re_adblock_enable E) (map (core_json E m) (filter (takes_part E m) (rt_Rules P)))"
  by (simp add: get_route_rules_def route_rules_loop_build)

subsection \<open>Raw profiles\<close>

text \<open>
  C27: Building with a raw profile asks for exactly the outbounds the object refers to, each once, in
  the order of the walk; and if every one of them has a tag the translated object refers to no
  profile by number any more, holds at every reference the tag of its id, and is unchanged at every
  other place, however deep.
\<close>

theorem raw_outbounds_translated:
  assumes "wf_json (JObj route)"
    and "\<forall>i \<in> set (CollectRawOutboundIds route). m i = Some (tag i)"
  shows "CollectRawOutboundIds route = keep_first Some [] (raw_ids (JObj route))
    \<and> CollectRawOutboundIds (TranslateRawOutbounds route m) = []
    \<and> (\<forall>p. value_at p (JObj (TranslateRawOutbounds route m)) =
        map_option (\<lambda>u. if reference_at p u then JStr (tag (to_int 0 u)) else rewrite_refs (\<lambda>i. JStr (tag i)) u)
          (value_at p (JObj route)))"
proof -
  have ids: "set (CollectRawOutboundIds route) = set (raw_ids (JObj route))"
    by (simp add: CollectRawOutboundIds_eq keep_first_total_set)
  have "JObj (TranslateRawOutbounds route m) = rewrite_refs (tag_of m) (JObj route)"
    using translate_rewrite [OF assms(1), of m] by (simp add: TranslateRawOutbounds_def)
  also have "\<dots> = rewrite_refs (\<lambda>i. JStr (tag i)) (JObj route)"
    using assms(2) ids by (intro rewrite_cong) (auto simp: tag_of_def)
  finally have eq: "JObj (TranslateRawOutbounds route m) = rewrite_refs (\<lambda>i. JStr (tag i)) (JObj route)" .
  have "value_at p (rewrite_refs (\<lambda>i. JStr (tag i)) v) =
      map_option (\<lambda>u. if reference_at p u then JStr (tag (to_int 0 u)) else rewrite_refs (\<lambda>i. JStr (tag i)) u) (value_at p v)"
    for p v
  proof (rule value_at_rewrite)
    fix i and q :: "json_step list"
    assume "q \<noteq> []"
    then show "value_at q (JStr (tag i)) = None" by (cases "(q, JStr (tag i))" rule: value_at.cases) auto
  qed
  moreover have "raw_ids (rewrite_refs (\<lambda>i. JStr (tag i)) v) = []" for v
    by (rule raw_ids_rewrite) (simp_all add: names_outbound_def)
  ultimately show ?thesis
    by (simp add: CollectRawOutboundIds_eq eq comp_apply del: rewrite_refs.simps raw_ids.simps)
qed

text \<open>A route object with references at two depths, one of them shared.\<close>

definition demo_route :: jobject where
  "demo_route = [(''final'', jint (-1)),
     (''rules'', JArr [JObj [(''domain'', JStr ''a.example''), (''outbound'', jint 7)],
        JObj [(''rules'', JArr [JObj [(''outbound'', jint 7)]]), (''type'', JStr ''logical'')]])]"

theorem raw_outbounds_translated_witness:
  "CollectRawOutboundIds demo_route = [-1, 7]
   \<and> CollectRawOutboundIds (TranslateRawOutbounds demo_route [-1 \<mapsto> ''proxy'', 7 \<mapsto> ''route-7'']) = []
   \<and> value_at [Key ''rules'', Index 1, Key ''rules'', Index 0, Key ''outbound'']
       (JObj (TranslateRawOutbounds demo_route [-1 \<mapsto> ''proxy'', 7 \<mapsto> ''route-7''])) = Some (JStr ''route-7'')"
proof -
  have wf: "wf_json (JObj demo_route)" by code_simp
  have ids: "CollectRawOutboundIds demo_route = [-1, 7]" by code_simp
  have "\<forall>i \<in> set (CollectRawOutboundIds demo_route).
      [-1 \<mapsto> ''proxy'', 7 \<mapsto> ''route-7''] i = Some (if i = -1 then ''proxy'' else ''route-7'')"
    by (simp add: ids)
  from raw_outbounds_translated [OF wf this]
  have "CollectRawOutboundIds (TranslateRawOutbounds demo_route [-1 \<mapsto> ''proxy'', 7 \<mapsto> ''route-7'']) = []"
    by blast
  moreover have "value_at [Key ''rules'', Index 1, Key ''rules'', Index 0, Key ''outbound'']
      (JObj (TranslateRawOutbounds demo_route [-1 \<mapsto> ''proxy'', 7 \<mapsto> ''route-7''])) = Some (JStr ''route-7'')"
    by code_simp
  ultimately show ?thesis using ids by blast
qed

text \<open>
  C37: Importing a raw profile moves every reference by the name it had on the other machine: a
  negative id stays, a name known here becomes the id of the profile of that name, anything else
  becomes the proxy and is reported, and nothing but the references changes.
\<close>

theorem raw_outbounds_remapped:
  assumes "wf_json (JObj route)" "ids_int E"
  shows "(case remapRawOutboundsByName E route names w of (route', w') \<Rightarrow>
      raw_ids (JObj route') = map (fst \<circ> remap_id E names) (raw_ids (JObj route))
    \<and> w' = w @ concat (map (snd \<circ> remap_id E names) (raw_ids (JObj route)))
    \<and> (\<forall>i \<in> set (CollectRawOutboundIds route'). i < 0 \<or> (\<exists>nm p. ro_byName E nm = Some p \<and> i = pr_id p))
    \<and> (\<forall>p. value_at p (JObj route') =
        map_option (\<lambda>u. if reference_at p u then jint (remapped E names (to_int 0 u))
            else rewrite_refs (\<lambda>i. jint (remapped E names i)) u)
          (value_at p (JObj route))))"
proof -
  let ?f = "\<lambda>i. jint (remapped E names i)"
  obtain route' w' where r: "remapRawOutboundsByName E route names w = (route', w')" by (cases "remapRawOutboundsByName E route names w")
  then have eq: "JObj route' = rewrite_refs ?f (JObj route)" and w': "w' = w @ remap_text E names (raw_ids (JObj route))"
    using remap_rewrite [OF assms(1), of E names w] rewrite_remapped [of E names "JObj route"]
    by (simp_all add: remapRawOutboundsByName_def del: rewrite_refs.simps raw_ids.simps)
       (auto simp del: raw_ids.simps)
  have "raw_ids (rewrite_refs ?f (JObj route)) = map (remapped E names) (raw_ids (JObj route))"
    using remapped_int32 [OF assms(2)] by (rule raw_ids_rewrite_ids)
  then have ids: "raw_ids (JObj route') = map (fst \<circ> remap_id E names) (raw_ids (JObj route))"
    using raw_ids_int32 [of _ "JObj route"] by (auto simp: eq remapped_def simp del: raw_ids.simps rewrite_refs.simps)
  moreover have "i < 0 \<or> (\<exists>nm p. ro_byName E nm = Some p \<and> i = pr_id p)"
    if "i \<in> set (CollectRawOutboundIds route')" for i
  proof -
    have "i \<in> set (raw_ids (JObj route'))"
      using that by (simp add: CollectRawOutboundIds_eq keep_first_total_set del: raw_ids.simps)
    then obtain j where "i = fst (remap_id E names j)" using ids by (auto simp del: raw_ids.simps)
    then show ?thesis
      by (auto simp: remap_id_def Let_def proxyID_def split: if_splits option.splits)
  qed
  moreover have "value_at p (rewrite_refs ?f v) =
      map_option (\<lambda>u. if reference_at p u then ?f (to_int 0 u) else rewrite_refs ?f u) (value_at p v)" for p v
    by (rule value_at_rewrite) (simp add: value_at_double)
  ultimately show ?thesis
    using w' by (simp add: r eq remap_text_def del: rewrite_refs.simps raw_ids.simps)
qed

theorem raw_outbounds_remapped_witness:
  "ids_int demo_routing
   \<and> fst (remapRawOutboundsByName demo_routing
        [(''outbound'', jint 3), (''x'', JArr [JObj [(''outbound'', jint 4)]])] [(''3'', JStr ''Oslo'')] [])
     = [(''outbound'', jint 8), (''x'', JArr [JObj [(''outbound'', jint (-1))]])]
   \<and> snd (remapRawOutboundsByName demo_routing
        [(''outbound'', jint 3), (''x'', JArr [JObj [(''outbound'', jint 4)]])] [(''3'', JStr ''Oslo'')] [])
     = remap_warning ''4''"
proof -
  let ?route = "[(''outbound'', jint 3), (''x'', JArr [JObj [(''outbound'', jint 4)]])]"
  have wf: "wf_json (JObj ?route)" by code_simp
  have int: "ids_int demo_routing"
    by (auto simp: ids_int_def demo_routing_def demo_names_def demo_profile_def is_int32_def split: if_splits)
  obtain route' w' where r: "remapRawOutboundsByName demo_routing ?route [(''3'', JStr ''Oslo'')] [] = (route', w')"
    by fastforce
  have "raw_ids (JObj ?route) = [3, 4]" by code_simp
  moreover have "remap_id demo_routing [(''3'', JStr ''Oslo'')] 3 = (8, [])"
    "remap_id demo_routing [(''3'', JStr ''Oslo'')] 4 = (-1, remap_warning ''4'')" by code_simp+
  ultimately have "w' = remap_warning ''4''"
    using raw_outbounds_remapped [OF wf int, of "[(''3'', JStr ''Oslo'')]" "[]"] r by simp
  moreover have "fst (remapRawOutboundsByName demo_routing ?route [(''3'', JStr ''Oslo'')] [])
      = [(''outbound'', jint 8), (''x'', JArr [JObj [(''outbound'', jint (-1))]])]"
    by code_simp
  ultimately show ?thesis using int r by simp
qed

end
