(* ===== verification/ConfigProps.thy ===== *)
theory ConfigProps
  imports PrereqProps RouteBuild RouteProfileProps
begin

text \<open>
  A whole configuration that builds without an error is closed: the tags of its outbounds and
  endpoints are distinct, and every detour, every routing rule and the fallback name one of them.
\<close>

subsection \<open>What a reader of the configuration sees\<close>

definition config_objects :: "jobject \<Rightarrow> jobject list" where
  "config_objects conf = map to_obj (to_arr (jget conf ''outbounds'') @ to_arr (jget conf ''endpoints''))"

definition config_tags :: "jobject \<Rightarrow> string list" where
  "config_tags conf = map obj_tag (config_objects conf)"

definition config_route :: "jobject \<Rightarrow> jobject" where
  "config_route conf = to_obj (jget conf ''route'')"

definition config_rules :: "jobject \<Rightarrow> jobject list" where
  "config_rules conf = map to_obj (to_arr (jget (config_route conf) ''rules''))"

text \<open>A rule that names an outbound names one of the set.\<close>

definition sends_into :: "string set \<Rightarrow> jobject \<Rightarrow> bool" where
  "sends_into T ob \<longleftrightarrow> (case map_of ob ''outbound'' of None \<Rightarrow> True | Some v \<Rightarrow> v \<in> JStr ` T)"

definition closed_config :: "jobject \<Rightarrow> bool" where
  "closed_config conf \<longleftrightarrow> distinct (config_tags conf) \<and> {tag_proxy, tag_direct} \<subseteq> set (config_tags conf) \<and>
     (\<forall>ob \<in> set (config_objects conf). case obj_detour ob of None \<Rightarrow> True | Some t \<Rightarrow> t \<in> set (config_tags conf)) \<and>
     (\<forall>r \<in> set (config_rules conf). sends_into (set (config_tags conf)) r) \<and>
     jget (config_route conf) ''final'' \<in> JStr ` set (config_tags conf)"

subsection \<open>Objects\<close>

lemma map_of_jput [simp]: "map_of (jput k v ob) k' = (if k' = k then Some v else map_of ob k')"
  by (rule json_store.look_put)

lemma jget_jput: "jget (jput k v ob) k' = (if k' = k then v else jget ob k')"
  by (simp add: jget_def)

lemma map_of_jbuild_last: "map_of (jbuild fs) k = map_of (rev fs) k"
  by (simp add: jbuild_def json_store.look_puts split: option.split)

lemma jget_put_when: "jget (put_when b k v ob) k' = (if b \<and> k' = k then v else jget ob k')"
  by (simp add: put_when_def jget_jput)

lemma sends_into_none: "''outbound'' \<notin> fst ` set fs \<Longrightarrow> sends_into T (jbuild fs)"
  by (simp add: sends_into_def map_of_jbuild_last map_of_eq_None_iff [THEN iffD2])

lemma sends_into_last: "sends_into T (jbuild (fs @ [(''outbound'', JStr t)])) \<longleftrightarrow> t \<in> T"
  by (auto simp: sends_into_def map_of_jbuild_last)

lemma sends_into_snd: "sends_into T (jbuild [a, b, (''outbound'', JStr t)]) \<longleftrightarrow> t \<in> T"
  using sends_into_last [of T "[a, b]" t] by simp

subsection \<open>Rules of the profile\<close>

lemma in_member: "x \<in> set (member b k v) \<longleftrightarrow> b \<and> x = (k, v)"
  by (auto simp: member_def)

lemma condition_keys: "''outbound'' \<notin> fst ` set (condition_members Q v r)"
  by (auto simp: condition_members_def Let_def in_member)

lemma action_keys: "''outbound'' \<notin> fst ` set (action_members Q r)"
  by (auto simp: action_members_def in_member)

definition outbound_known :: "routeRule \<Rightarrow> bool" where
  "outbound_known r \<longleftrightarrow> 0 \<le> rr_outboundID r \<or> rr_outboundID r \<in> {proxyID, directID, warpBypassID} \<or> \<not> routes_out (fix_action r)"

lemma core_json_into:
  assumes "ran m \<subseteq> T" "takes_part E m r"
    and "is_endpoint r \<or> rr_outboundID r \<in> dom m \<and> [] \<notin> ran m \<or> \<not> routes_out (fix_action r)"
  shows "sends_into T (core_json E m r)"
proof (cases "is_endpoint r")
  case True
  then obtain t where "m (rr_outboundID r) = Some t" "t \<noteq> []"
    using assms(2) by (cases "m (rr_outboundID r)") (auto simp: takes_part_def tag_for_def)
  moreover from this have "t \<in> T" using assms(1) by (auto intro: ranI)
  ultimately show ?thesis using True
    by (simp add: core_json_def get_rule_json_def endpoint_json_def tag_for_def sends_into_snd)
next
  case False
  have own: "rr_outboundID (fix_action r) = rr_outboundID r" by (simp add: fix_action_def)
  let ?fs = "condition_members E False (fix_action r) @ action_members E (fix_action r)"
  have keys: "''outbound'' \<notin> fst ` set ?fs" by (simp add: image_Un condition_keys action_keys)
  show ?thesis
  proof (cases "routes_out (fix_action r)")
    case out: True
    then obtain t where t: "m (rr_outboundID r) = Some t" "t \<noteq> []" "t \<in> T"
      using assms(1,3) False by (auto simp: dom_def intro: ranI)
    then have "core_json E m r = jbuild (?fs @ [(''outbound'', JStr t)])"
      using False out by (simp add: core_json_def get_rule_json_def Let_def outbound_member_def tag_for_def)
    then show ?thesis using t(3) by (simp only: sends_into_last)
  next
    case out: False
    then have "core_json E m r = jbuild ?fs" using False by (simp add: core_json_def get_rule_json_def Let_def)
    then show ?thesis using sends_into_none [OF keys] by simp
  qed
qed

lemma adblock_into: "sends_into T createAdblockRule"
  by (simp add: createAdblockRule_def sends_into_none)

lemma with_adblock_set: "set (with_adblock on js) \<subseteq> insert createAdblockRule (set js)"
  by (auto simp: with_adblock_def dest: set_takeWhileD set_dropWhileD)

lemma profile_json_into:
  assumes "ran m \<subseteq> T" "[] \<notin> ran m"
    and "\<forall>r \<in> set (rt_Rules P). is_endpoint r \<or> rr_outboundID r \<in> dom m \<or> \<not> routes_out (fix_action r)"
    and "ob \<in> set (fst (get_route_rules E False m P))"
  shows "sends_into T ob"
proof -
  have "fst (get_route_rules E False m P)
      = with_adblock (re_adblock_enable E) (map (core_json E m) (filter (takes_part E m) (rt_Rules P)))"
    by (simp add: get_route_rules_def route_rules_loop_build)
  then have "ob = createAdblockRule \<or> (\<exists>r \<in> set (rt_Rules P). takes_part E m r \<and> ob = core_json E m r)"
    using assms(4) with_adblock_set by fastforce
  then show ?thesis using assms(1-3) core_json_into [of m T E] adblock_into by blast
qed

lemma twins_into:
  assumes "\<forall>v \<in> set rules. sends_into T (to_obj v)" "tag_l3Direct \<in> T"
  shows "\<forall>v \<in> set (withL3BridgeTwins rules). sends_into T (to_obj v)"
  using assms by (auto simp: withL3BridgeTwins_def Let_def l3BridgeTwin_def sends_into_def)

subsection \<open>The rules around them\<close>

lemma preferred_into: "sends_into T (to_obj (preferred_rule t)) \<longleftrightarrow> t \<in> T"
  by (simp add: preferred_rule_def sends_into_snd)

lemma reject_into: "sends_into T (to_obj reject_rule)"
  by (simp add: reject_rule_def sends_into_none)

lemma injected_into: "ob \<in> set (injected_rules E P c) \<Longrightarrow> sends_into T ob"
  by (auto simp: injected_rules_def Let_def sends_into_none split: if_splits)

lemma route_rules_into:
  fixes E :: "'z config_env_scheme" and c :: build_context
  defines "q \<equiv> cx_prerequisites c"
  assumes "v \<in> set (route_rules E P raw c)" "\<not> rt_isRaw P" "[] \<notin> ran (pq_outboundMap q)"
    and "{tag_direct, final_tag (ge_settings E) P raw} \<union> set (cx_singIngressTags c) \<union> set (cx_vpnAuxTags c) \<subseteq> T"
    and "cx_l3Bridge c \<Longrightarrow> tag_l3Direct \<in> T" "ran (pq_outboundMap q) \<subseteq> T"
    and "\<forall>r \<in> set (rt_Rules P). is_endpoint r \<or> rr_outboundID r \<in> dom (pq_outboundMap q) \<or> \<not> routes_out (fix_action r)"
  shows "sends_into T (to_obj v)"
proof -
  have own: "sends_into T (to_obj w)" if "w \<in> set (profile_rules E P raw c)" for w
  proof -
    let ?rules = "map JObj (fst (get_route_rules E False (pq_outboundMap q) P))"
    have "\<forall>u \<in> set ?rules. sends_into T (to_obj u)"
      using profile_json_into [OF assms(7,4,8)] by auto
    moreover have "profile_rules E P raw c = (if cx_l3Bridge c then withL3BridgeTwins ?rules else ?rules)"
      using assms(3) by (simp add: profile_rules_def q_def)
    ultimately show ?thesis using that twins_into [of ?rules T] assms(6) by (auto split: if_splits)
  qed
  consider "v \<in> JObj ` set (bridge_rules c)" | "v \<in> JObj ` set (extra_core_rules E c)"
    | "v \<in> JObj ` set (injected_rules E P c)" | "v \<in> set (profile_rules E P raw c)"
    | "v \<in> preferred_rule ` set (cx_vpnAuxTags c)" | "cx_l3Bridge c \<and> v = preferred_rule tag_l3Direct"
    | "v = preferred_rule (final_tag (ge_settings E) P raw)" | "v = reject_rule"
    using assms(2)
    by (auto simp: route_rules_def Let_def aux_rules_def l3_final_rules_def fallthrough_rules_def split: if_splits)
  then show ?thesis
  proof cases
    case 1 then show ?thesis using assms(5) by (auto simp: bridge_rules_def sends_into_snd)
  next
    case 2 then show ?thesis using assms(5) by (auto simp: extra_core_rules_def Let_def sends_into_snd split: if_splits)
  next
    case 3 then show ?thesis by (auto intro: injected_into)
  next
    case 4 then show ?thesis by (rule own)
  next
    case 5 then show ?thesis using assms(5) by (auto simp: preferred_into)
  next
    case 6 then show ?thesis using assms(6) by (simp add: preferred_into)
  next
    case 7 then show ?thesis using assms(5) by (simp add: preferred_into)
  next
    case 8 then show ?thesis by (simp add: reject_into)
  qed
qed

subsection \<open>Sections\<close>

text \<open>What a section that only writes its own key leaves alone.\<close>

definition only_result :: "build_context \<Rightarrow> build_context \<Rightarrow> bool" where
  "only_result c c' \<longleftrightarrow> (\<exists>r. c' = c\<lparr>cx_result := r\<rparr>)"

lemma only_result_refl [simp]: "only_result c c"
  unfolding only_result_def by (rule exI [of _ "cx_result c"]) simp

lemma only_result_step: "only_result c d \<Longrightarrow> only_result c (put_section k v d)"
  "only_result c d \<Longrightarrow> only_result c (in_result f d)"
  by (auto simp: only_result_def put_section_def)

lemma only_result_fields:
  assumes "only_result c c'"
  shows "sound T c' = sound T c" "tags_of c' = tags_of c" "cx_prerequisites c' = cx_prerequisites c"
    "cx_forTest c' = cx_forTest c" "cx_l3Bridge c' = cx_l3Bridge c" "cx_ent c' = cx_ent c"
    "cx_vpnAuxTags c' = cx_vpnAuxTags c" "cx_outbounds c' = cx_outbounds c" "cx_endpoints c' = cx_endpoints c"
    "cx_singIngressTags c' = cx_singIngressTags c" "cx_error c' = cx_error c" "cx_vpnEndpointTags c' = cx_vpnEndpointTags c"
proof -
  obtain r where c': "c' = c\<lparr>cx_result := r\<rparr>" using assms by (auto simp: only_result_def)
  show "sound T c' = sound T c" "tags_of c' = tags_of c" unfolding c' by (simp_all add: sound_def tags_of_def objs_def)
qed (use assms in \<open>auto simp: only_result_def\<close>)

lemma only_result_small:
  "only_result c (buildInboundSection E (buildCertificateSection E (buildNTPSection E (buildLogSection E c))))"
  by (simp add: buildInboundSection_def buildCertificateSection_def buildNTPSection_def buildLogSection_def Let_def
      only_result_step)

abbreviation conf_of :: "build_context \<Rightarrow> jobject" where
  "conf_of c \<equiv> rs_coreConfig (cx_result c)"

lemma conf_put_section: "conf_of (put_section k v c) = jput k v (conf_of c)"
  by (simp add: put_section_def)

lemma dns_section_only:
  assumes "cx_error (buildDNSSection E b c) = []"
  shows "only_result c (buildDNSSection E b c)" "k \<noteq> ''dns'' \<Longrightarrow> jget (conf_of (buildDNSSection E b c)) k = jget (conf_of c) k"
  using assms by (auto simp: buildDNSSection_def only_result_step conf_put_section jget_jput)

lemma route_section_only:
  assumes "cx_error (buildRouteSection E c) = []" "ge_route E = Some P" "\<not> rt_isRaw P"
  shows "buildRouteSection E c = put_section ''route'' (JObj (route_object E P [] c)) c"
  using assms by (auto simp: buildRouteSection_def Let_def split: if_splits)

lemma tail_sections:
  assumes "k \<noteq> ''experimental''" "k \<noteq> ''services''"
  shows "jget (conf_of (buildXrayConfig E (buildServicesSection E (buildExperimentalSection E c)))) k = jget (conf_of c) k"
proof -
  have x: "conf_of (buildXrayConfig E d) = conf_of d" for d
    by (simp add: buildXrayConfig_def put_xray_def Let_def)
  have "jget (conf_of (buildServicesSection E d)) k = jget (conf_of d) k" for d
    using assms by (simp add: buildServicesSection_def Let_def conf_put_section jget_jput)
  moreover have "jget (conf_of (buildExperimentalSection E d)) k = jget (conf_of d) k" for d
    using assms by (simp add: buildExperimentalSection_def Let_def conf_put_section jget_jput)
  ultimately show ?thesis by (simp add: x)
qed

lemma run_sections_ok:
  assumes "rs_error (cx_result (run_sections (s # ss) c)) = []"
  shows "cx_error (s c) = []" "run_sections (s # ss) c = run_sections ss (s c)"
  using assms by (auto simp: Let_def split: if_splits)

text \<open>The contexts between the sections of a configuration without error.\<close>

lemma config_steps:
  assumes "rs_error (BuildSingBoxConfig E ent) = []" "\<not> isCustomFullConfig ent"
  obtains c1 c2 c3 c4 c5 where "c1 = calculatePrerequisites E (new_context ent)" "cx_error c1 = []" "only_result c1 c2"
    "c3 = buildOutboundsSection E c2" "cx_error c3 = []" "c4 = buildDNSSection E True c3" "cx_error c4 = []"
    "c5 = buildRouteSection E c4" "cx_error c5 = []"
    "\<And>k. k \<noteq> ''experimental'' \<Longrightarrow> k \<noteq> ''services'' \<Longrightarrow>
       jget (rs_coreConfig (BuildSingBoxConfig E ent)) k = jget (conf_of c5) k"
proof -
  have r: "BuildSingBoxConfig E ent = cx_result (run_sections (config_sections E) (new_context ent))"
    using assms by (auto simp: BuildSingBoxConfig_def new_result_def split: if_splits)
  note ok = assms(1) [unfolded r config_sections_def]
  note s1 = run_sections_ok [OF ok]
  note ok1 = ok [unfolded s1(2)]
  note s2 = run_sections_ok [OF ok1]
  note ok2 = ok1 [unfolded s2(2)]
  note s3 = run_sections_ok [OF ok2]
  note ok3 = ok2 [unfolded s3(2)]
  note s4 = run_sections_ok [OF ok3]
  note ok4 = ok3 [unfolded s4(2)]
  note s5 = run_sections_ok [OF ok4]
  note ok5 = ok4 [unfolded s5(2)]
  note s6 = run_sections_ok [OF ok5]
  note ok6 = ok5 [unfolded s6(2)]
  note s7 = run_sections_ok [OF ok6]
  note ok7 = ok6 [unfolded s7(2)]
  note s8 = run_sections_ok [OF ok7]
  define c1 where "c1 = calculatePrerequisites E (new_context ent)"
  define c2 where "c2 = buildInboundSection E (buildCertificateSection E (buildNTPSection E (buildLogSection E c1)))"
  define c5 where "c5 = buildRouteSection E (buildDNSSection E True (buildOutboundsSection E c2))"
  have res: "BuildSingBoxConfig E ent = cx_result (buildXrayConfig E (buildServicesSection E (buildExperimentalSection E c5)))"
    unfolding r config_sections_def s1(2) s2(2) s3(2) s4(2) s5(2) s6(2) s7(2) s8(2)
    by (simp add: c5_def c2_def c1_def)
  show thesis
    using that [of c1 c2 "buildOutboundsSection E c2" "buildDNSSection E True (buildOutboundsSection E c2)" c5]
      s1(1) s3(1) s4(1) s5(1) only_result_small [of c1 E, folded c2_def] tail_sections [of _ E c5]
    by (simp add: res c1_def [symmetric] c2_def [symmetric] c5_def [symmetric])
qed

subsection \<open>The whole configuration\<close>

lemma planned_tags:
  assumes "planned w c" "{tag_proxy, tag_direct} \<union> route_tags (preq c) \<union> set (aux_tags (preq c)) \<subseteq> T" "w \<Longrightarrow> tag_warpBypass \<in> T"
  shows "ran (pq_outboundMap (preq c)) \<subseteq> T" "[] \<notin> ran (pq_outboundMap (preq c))"
proof -
  have ran: "ran (pq_outboundMap (preq c)) \<subseteq> reserved w \<union> route_tags (preq c) \<union> set (aux_tags (preq c))"
    using assms(1) by (simp add: planned_def)
  show "ran (pq_outboundMap (preq c)) \<subseteq> T" using ran assms(2,3) by (auto simp: reserved_def split: if_splits)
  have "[] \<notin> reserved w \<union> route_tags (preq c) \<union> set (aux_tags (preq c))"
    by (auto simp: reserved_def route_tags_def aux_tags_def hopTag_def tag_defs)
  then show "[] \<notin> ran (pq_outboundMap (preq c))" using ran by blast
qed

lemma rules_known:
  assumes "\<not> rt_isRaw P" "\<forall>r \<in> set (rt_Rules P). is_endpoint r \<or> outbound_known r"
    and "{i \<in> set (get_used_outbounds E P). 0 \<le> i} \<subseteq> D" "{-1, -2, warpBypassID} \<subseteq> D"
  shows "\<forall>r \<in> set (rt_Rules P). is_endpoint r \<or> rr_outboundID r \<in> D \<or> \<not> routes_out (fix_action r)"
proof
  fix r assume r: "r \<in> set (rt_Rules P)"
  show "is_endpoint r \<or> rr_outboundID r \<in> D \<or> \<not> routes_out (fix_action r)"
  proof (cases "is_endpoint r")
    case False
    then have "rr_outboundID r \<in> set (get_used_outbounds E P)" using assms(1) r by (simp add: get_used_outbounds_def)
    then show ?thesis using assms(2-4) r False
      by (auto simp: outbound_known_def proxyID_def directID_def)
  qed simp
qed

lemma final_known:
  assumes "\<not> rt_isRaw P" "rt_defaultOutboundID P \<in> {proxyID, directID, blockID, warpBypassID}"
    and "{tag_proxy, tag_direct} \<subseteq> T" "gs_enable_warp S \<Longrightarrow> tag_warpBypass \<in> T"
  shows "final_tag S P raw \<in> T"
  using assms by (auto simp: final_tag_def outboundIDToString_def tag_defs proxyID_def directID_def blockID_def warpBypassID_def)

lemma route_object_fields:
  assumes "\<not> rt_isRaw P"
  shows "jget (route_object E P raw c) ''rules'' = JArr (route_rules E P raw c)"
    "jget (route_object E P raw c) ''final'' = JStr (final_tag (ge_settings E) P raw)"
  using assms by (simp_all add: route_object_def Let_def jget_put_when jget_jput) (simp_all add: jget_def)

lemma closed_configI:
  assumes "sound UNIV c" "{tag_proxy, tag_direct} \<subseteq> set (tags_of c)"
    and "jget conf ''outbounds'' = JArr (map JObj (cx_outbounds c))" "jget conf ''endpoints'' = JArr (map JObj (cx_endpoints c))"
    and "jget conf ''route'' = JObj ro" "jget ro ''rules'' = JArr rules" "jget ro ''final'' = JStr f"
    and "\<forall>v \<in> set rules. sends_into (set (tags_of c)) (to_obj v)" "f \<in> set (tags_of c)"
  shows "closed_config conf"
proof -
  have o: "config_objects conf = objs c" using assms(3,4) by (simp add: config_objects_def objs_def comp_def)
  have t: "config_tags conf = tags_of c" by (simp add: config_tags_def tags_of_def o)
  have r: "config_route conf = ro" "config_rules conf = map to_obj rules"
    using assms(5,6) by (simp_all add: config_route_def config_rules_def)
  show ?thesis
    unfolding closed_config_def o t r using assms(1,2,7-9) by (auto simp: sound_def split: option.split)
qed

text \<open>
  C1: A configuration that builds without an error is closed. No two of its outbounds and endpoints
  share a tag; "proxy" and "direct" are there; every detour, every routing rule that names an
  outbound (rules of the profile, of the auxiliary endpoints, of the bridges between the cores and
  the layer-3 twins) and the fallback of the routes name an outbound or endpoint of the same
  configuration. It is asked that the started profile is no full configuration of the user's, that no
  stored profile's own JSON (a custom outbound's) carries a detour or Xray proxy settings, that the
  route profile is structured and not raw, that its rules route to profiles, to "proxy", "direct" or
  "warp-bypass" or nowhere, that its default is one of the four reserved outbounds, and that a started
  chain is not empty.
\<close>

theorem config_is_closed:
  assumes "rs_error (BuildSingBoxConfig E ent) = []" and "\<not> isCustomFullConfig ent" and "plain_env E"
    and "pr_type ent \<noteq> ''autoselector'' \<longrightarrow> own_hops ent \<noteq> Some []"
    and "ge_route E = Some P" "\<not> rt_isRaw P" "rt_defaultOutboundID P \<in> {proxyID, directID, blockID, warpBypassID}"
    and "\<forall>r \<in> set (rt_Rules P). is_endpoint r \<or> outbound_known r"
  shows "closed_config (rs_coreConfig (BuildSingBoxConfig E ent))"
proof -
  obtain c1 c2 c3 c4 c5 where c: "c1 = calculatePrerequisites E (new_context ent)" "cx_error c1 = []" "only_result c1 c2"
      "c3 = buildOutboundsSection E c2" "cx_error c3 = []" "c4 = buildDNSSection E True c3" "cx_error c4 = []"
      "c5 = buildRouteSection E c4" "cx_error c5 = []"
    and conf: "\<And>k. k \<noteq> ''experimental'' \<Longrightarrow> k \<noteq> ''services'' \<Longrightarrow>
       jget (rs_coreConfig (BuildSingBoxConfig E ent)) k = jget (conf_of c5) k"
    using config_steps [OF assms(1,2)] by metis
  let ?w = "gs_enable_warp (ge_settings E)" and ?T = "set (tags_of c3)" and ?q = "preq c1"
  obtain P' where P': "ge_route E = Some P'" "planned ?w c1" "cx_ent c1 = ent"
      "{i \<in> set (get_used_outbounds E P'). 0 \<le> i} \<union> set (rt_endpointProfileIDs P') \<subseteq> dom (pq_outboundMap ?q)"
    using prerequisites_planned [OF c(2) [unfolded c(1)] new_context_fresh(1,2)] c(1) new_context_fresh(3) by metis
  then have P: "P' = P" using assms(5) by simp
  have fresh: "fresh c1" and rows: "row_ok E (route_rows c1)" "row_ok E (pq_auxEndpointGroups ?q)"
    using P'(2) plain_env_hops [OF assms(3)] by (auto simp: planned_def row_ok_def)
  note f2 = only_result_fields [OF c(3)]
  have s2: "sound {} c2" "\<not> cx_forTest c2" "cx_vpnAuxTags c2 = []" using fresh_sound [OF fresh] fresh f2 by (auto simp: fresh_def)
  note S = section_sound [OF s2(1) c(5) [unfolded c(4)] assms(3) s2(2), folded c(4), unfolded f2 P'(3)]
  have S3: "sound UNIV c3" "{tag_proxy, tag_direct} \<union> route_tags ?q \<union> set (aux_tags ?q) \<subseteq> ?T"
      "?w \<Longrightarrow> tag_warpBypass \<in> ?T" "cx_l3Bridge c1 \<Longrightarrow> tag_l3Direct \<in> ?T" "preq c3 = ?q" "cx_l3Bridge c3 = cx_l3Bridge c1"
      "cx_vpnAuxTags c3 = aux_tags ?q" "jget (conf_of c3) ''outbounds'' = JArr (map JObj (cx_outbounds c3))"
      "jget (conf_of c3) ''endpoints'' = JArr (map JObj (cx_endpoints c3))"
    using S assms(4) rows s2(3) f2 unfolding route_rows_def by auto
  note f4 = only_result_fields [OF dns_section_only(1) [OF c(7) [unfolded c(6)], folded c(6)]]
  have c5: "c5 = put_section ''route'' (JObj (route_object E P [] c4)) c4"
    using route_section_only [OF c(9) [unfolded c(8)] assms(5,6)] c(8) by simp
  have final: "final_tag (ge_settings E) P [] \<in> ?T" using final_known [OF assms(6,7)] S3(2,3) by auto
  note m = planned_tags [OF P'(2) S3(2,3)]
  have known: "\<forall>r \<in> set (rt_Rules P). is_endpoint r \<or> rr_outboundID r \<in> dom (pq_outboundMap ?q) \<or> \<not> routes_out (fix_action r)"
    using P'(2,4) P by (intro rules_known [OF assms(6,8)]) (auto simp: planned_def)
  have "\<forall>v \<in> set (route_rules E P [] c4). sends_into ?T (to_obj v)"
  proof
    fix v assume v: "v \<in> set (route_rules E P [] c4)"
    have "set (cx_singIngressTags c4) \<subseteq> ?T" using S3(1) f4 by (simp add: sound_def)
    then show "sends_into ?T (to_obj v)"
      using route_rules_into [OF v assms(6)] m known S3(2,4) final f4 S3(5-7) by simp
  qed
  then show ?thesis
    using closed_configI [OF S3(1) _ _ _ _ route_object_fields [OF assms(6)], of "rs_coreConfig (BuildSingBoxConfig E ent)" E "[]" c4]
      S3(2,8,9) final dns_section_only(2) [OF c(7) [unfolded c(6)], folded c(6)]
    by (simp add: conf c5 conf_put_section jget_jput)
qed

lemma demo_plain: "plain_env demo_config"
  unfolding plain_env_def
proof (intro allI impI)
  fix i e assume e: "hop_of demo_config i = Some e"
  have warp: "plain_hop demo_config (getWarpProfile demo_config)" by code_simp
  have each: "\<forall>p \<in> set (map (\<lambda>k. the (demo_hops k)) [1, 2, 3, 4, 5, 6]). plain_hop demo_config p" by code_simp
  have p: "profile_of demo_config = demo_hops" by (simp add: demo_config_def gen_env.defs demo_gen_def)
  have "e = getWarpProfile demo_config \<or> demo_hops i = Some e"
    using e by (auto simp: hop_of_def p split: if_splits option.splits)
  moreover have "e \<in> set (map (\<lambda>k. the (demo_hops k)) [1, 2, 3, 4, 5, 6])" if "demo_hops i = Some e"
  proof -
    have "i \<in> {1, 2, 3, 4, 5, 6}" using that by (auto simp: demo_hops_def split: if_splits)
    then show ?thesis using that by auto
  qed
  ultimately show "plain_hop demo_config e" using warp each by blast
qed

theorem config_is_closed_witness:
  "closed_config (rs_coreConfig (BuildSingBoxConfig demo_config demo_started)) \<and>
   config_tags (rs_coreConfig (BuildSingBoxConfig demo_config demo_started)) =
     [''proxy'', ''config-1'', ''route-0'', ''direct'', ''aux-0'']"
proof -
  have run: "let r = BuildSingBoxConfig demo_config demo_started
    in rs_error r = [] \<and> config_tags (rs_coreConfig r) = [''proxy'', ''config-1'', ''route-0'', ''direct'', ''aux-0'']"
    by code_simp
  have ent: "\<not> isCustomFullConfig demo_started" "pr_type demo_started \<noteq> ''autoselector'' \<longrightarrow> own_hops demo_started \<noteq> Some []"
    by code_simp+
  have r: "ge_route demo_config = Some demo_config_route" by (simp add: demo_config_def gen_env.defs)
  have P: "\<not> rt_isRaw demo_config_route" "rt_defaultOutboundID demo_config_route \<in> {proxyID, directID, blockID, warpBypassID}"
    "\<forall>r \<in> set (rt_Rules demo_config_route). is_endpoint r \<or> outbound_known r" by code_simp+
  show ?thesis using config_is_closed [OF _ ent(1) demo_plain ent(2) r P] run by (simp add: Let_def)
qed

end
