(* ===== verification/DnsProps.thy ===== *)
theory DnsProps
  imports ConfigProps
begin

text \<open>
  The DNS section of a configuration: every server has a tag of its own, and every rule, resolver and
  tunnel it names is there. The tunnels are the VPN endpoints the outbounds section has noted.
\<close>

subsection \<open>The noted VPN endpoints\<close>

definition vpn_ok :: "build_context \<Rightarrow> bool" where
  "vpn_ok c \<longleftrightarrow> sorted_wrt (<) (map fst (cx_vpnEndpointTags c)) \<and> fst ` set (cx_vpnEndpointTags c) \<subseteq> set (tags_of c)"

definition vpn_view :: "build_context \<Rightarrow> (string \<times> string) list \<times> jobject list \<times> jobject list" where
  "vpn_view c = (cx_vpnEndpointTags c, cx_outbounds c, cx_endpoints c)"

lemma vpn_ok_view: "vpn_view c' = vpn_view c \<Longrightarrow> vpn_ok c' = vpn_ok c"
  by (simp add: vpn_view_def vpn_ok_def tags_of_def objs_def)

lemma qmap_keys: "fst ` set (qmap_insert k v m) = insert k (fst ` set m)"
  by (induction k v m rule: qmap_insert.induct) auto

lemma qmap_sorted: "sorted_wrt (<) (map fst m) \<Longrightarrow> sorted_wrt (<) (map fst (qmap_insert k v m))"
proof (induction k v m rule: qmap_insert.induct)
  case (2 k v k' v' m)
  have "\<forall>q \<in> fst ` set (qmap_insert k v m). k' < q" if "k' < k" using 2(2) that by (auto simp: qmap_keys)
  then show ?case using 2 by (auto simp: not_less_iff_gr_or_eq intro: less_trans)
qed simp

lemma vpn_ok_append:
  assumes "vpn_ok c" "tags_of c' = tags" "set (tags_of c) \<subseteq> set tags" "cx_vpnEndpointTags c' = cx_vpnEndpointTags c"
  shows "vpn_ok c'"
  using assms by (auto simp: vpn_ok_def)

lemma note_vpn_keys:
  "fst ` set (cx_vpnEndpointTags (note_vpn_hop opts t e c)) \<subseteq> insert t (fst ` set (cx_vpnEndpointTags c))"
  "sorted_wrt (<) (map fst (cx_vpnEndpointTags c)) \<Longrightarrow>
     sorted_wrt (<) (map fst (cx_vpnEndpointTags (note_vpn_hop opts t e c)))"
  by (auto simp: note_vpn_hop_def Let_def qmap_keys qmap_sorted)

lemma vpn_sing_hops:
  "cx_error (sing_hops E opts idx ents c) = [] \<Longrightarrow> vpn_ok c \<Longrightarrow> vpn_ok (sing_hops E opts idx ents c)"
proof (induction ents arbitrary: idx c)
  case (Cons ent ents)
  define c0 where "c0 = (if ho_markIngress opts \<and> idx = 0
      then c\<lparr>cx_singIngressTags := cx_singIngressTags c @ [sing_tag opts idx]\<rparr> else c)"
  define c1 where "c1 = (if (idx = 0 \<or> ho_warpWrap opts \<and> idx = 1) \<and> is_vpn ent
      then note_vpn_hop opts (sing_tag opts idx) ent c0 else c0)"
  define ob where "ob = sing_object E opts idx (ents \<noteq> []) ent"
  define c2 where "c2 = (if asks (IsEndpoint (re_text2object E)) ent
      then c1\<lparr>cx_endpoints := cx_endpoints c1 @ [ob]\<rparr> else c1\<lparr>cx_outbounds := cx_outbounds c1 @ [ob]\<rparr>)"
  have b: "snd (Build E ent) = []" using Cons.prems(1) by (simp only: sing_hops_error) (simp add: all_build_def)
  have step: "sing_hops E opts idx (ent # ents) c = sing_hops E opts (Suc idx) ents c2"
    using b by (simp add: c2_def c1_def c0_def ob_def sing_object_def Let_def split_beta)
  have same: "cx_outbounds c1 = cx_outbounds c" "cx_endpoints c1 = cx_endpoints c" by (simp_all add: c1_def c0_def)
  have keys: "fst ` set (cx_vpnEndpointTags c1) \<subseteq> insert (sing_tag opts idx) (fst ` set (cx_vpnEndpointTags c))"
      "sorted_wrt (<) (map fst (cx_vpnEndpointTags c1))"
  proof -
    have c0: "cx_vpnEndpointTags c0 = cx_vpnEndpointTags c" by (simp add: c0_def)
    show "fst ` set (cx_vpnEndpointTags c1) \<subseteq> insert (sing_tag opts idx) (fst ` set (cx_vpnEndpointTags c))"
      using note_vpn_keys(1) [of opts "sing_tag opts idx" ent c0] by (auto simp only: c1_def c0 split: if_splits)
    show "sorted_wrt (<) (map fst (cx_vpnEndpointTags c1))"
      using note_vpn_keys(2) [of c0 opts "sing_tag opts idx" ent] Cons.prems(2) by (auto simp: c1_def c0 vpn_ok_def)
  qed
  have "set (tags_of c2) = insert (sing_tag opts idx) (set (tags_of c))"
    by (auto simp: c2_def tags_of_def objs_def same ob_def)
  moreover have "cx_vpnEndpointTags c2 = cx_vpnEndpointTags c1" by (simp add: c2_def)
  ultimately have "vpn_ok c2" using keys Cons.prems(2) unfolding vpn_ok_def by auto
  then show ?case using Cons.IH [of "Suc idx" c2] Cons.prems(1) unfolding step by simp
qed simp

lemma view_xray_hops: "vpn_view (xray_hops E opts b idx ents c) = vpn_view c"
  by (induction ents arbitrary: idx c) (simp_all add: Let_def split_beta vpn_view_def)

lemma view_xray_chain: "vpn_view (buildXrayChain E ents opts b c) = vpn_view c"
  using view_xray_hops [of E opts b 0 ents c] by (simp add: buildXrayChain_def Let_def vpn_view_def)

lemma view_scan: "vpn_view (snd (snd (scan_hops E ids inXray s ents err c))) = vpn_view c"
proof (induction ids arbitrary: inXray s ents err c)
  case (Cons i ids)
  have x: "vpn_view (snd (cross_core a b (s, c))) = vpn_view c" for a b by (simp add: cross_core_def vpn_view_def)
  show ?case using Cons x by (auto simp: Let_def split_beta split: option.split)
qed (simp add: Let_def)

lemma view_ports: "vpn_view (snd (MkManyPorts E n a c)) = vpn_view c" "vpn_view (snd (GetRandomString E c)) = vpn_view c"
  by (simp_all add: MkManyPorts_def GetRandomString_def vpn_view_def)

lemma view_install: "vpn_view (snd (install_full_config E req ents c)) = vpn_view c"
  by (simp add: install_full_config_def Let_def split_beta vpn_view_def MkManyPorts_def GetRandomString_def split: option.split)

lemma view_bridges:
  "vpn_view (snd (snd (open_sing_to_xray E req lead (ps, c)))) = vpn_view c"
  "vpn_view (snd (open_xray_to_sing E req (ps, c))) = vpn_view c"
  by (simp_all add: open_sing_to_xray_def open_xray_to_sing_def bridge_port_def Let_def split_beta vpn_view_def
      MkManyPorts_def GetRandomString_def)

lemma vpn_emit_chain:
  assumes "cx_error (emit_chain E req lead xs b tail c) = []" "vpn_ok c"
  shows "vpn_ok (emit_chain E req lead xs b tail c)"
proof -
  define c1 where "c1 = (if lead \<noteq> [] then buildSingboxChain E lead (leading_opts req) c else c)"
  define c2 where "c2 = (if xs \<noteq> [] then buildXrayChain E xs (leading_opts req) b c1 else c1)"
  define c3 where "c3 = (if tail \<noteq> []
    then buildSingboxChain E tail (tailing_opts req (cr_startSuffix req + int (length lead))) c2 else c2)"
  have c3: "emit_chain E req lead xs b tail c = c3" by (simp add: emit_chain_def c1_def c2_def c3_def Let_def)
  have e2: "cx_error c2 = []" using assms(1) unfolding c3 by (auto simp: c3_def buildSingboxChain_def sing_hops_error split: if_splits)
  have "cx_error c1 = []"
    using e2 by (auto simp: c2_def buildXrayChain_def Let_def xray_hops_error split: if_splits)
  then have "vpn_ok c1" using assms(2) by (auto simp: c1_def buildSingboxChain_def vpn_sing_hops)
  then have "vpn_ok c2" by (simp add: c2_def vpn_ok_view [OF view_xray_chain])
  then show ?thesis using assms(1) unfolding c3 by (auto simp: c3_def buildSingboxChain_def vpn_sing_hops)
qed

lemma view_credit: "vpn_view (credit_chain req s tail ents c) = vpn_view c" "cx_error (credit_chain req s tail ents c) = cx_error c"
  by (simp_all add: credit_chain_def vpn_view_def)

lemma vpn_chain:
  assumes "cx_error (snd (buildOutboundChain E req c)) = []" "vpn_ok c"
  shows "vpn_ok (snd (buildOutboundChain E req c))"
proof -
  define c0 where "c0 = c\<lparr>cx_singToXrayTransitioned := False, cx_xrayToSingTransitioned := False\<rparr>"
  obtain ents err c1 where 1: "entIDListtoEntList E (cr_hopIDs req) (cx_error c0) c0 = (ents, err, c1)" by (metis prod.exhaust)
  obtain ents' c2 where 2: "install_full_config E req ents (c1\<lparr>cx_error := err\<rparr>) = (ents', c2)" by (metis prod.exhaust)
  obtain lead xs tail where s: "split_hops ents' ([], [], []) = (lead, xs, tail)" by (metis prod.exhaust)
  obtain lead' ps c3 where 3: "open_sing_to_xray E req lead ([], c2) = (lead', ps, c3)" by (metis prod.exhaust)
  obtain b c4 where 4: "open_xray_to_sing E req (ps, c3) = (b, c4)" by (metis prod.exhaust)
  have v: "vpn_view c1 = vpn_view c" "vpn_view c2 = vpn_view c1" "vpn_view c3 = vpn_view c2" "vpn_view c4 = vpn_view c3"
    using view_scan [of E "cr_hopIDs req" False new_scan "[]" "cx_error c0" c0] 1
      view_install [of E req ents "c1\<lparr>cx_error := err\<rparr>"] 2 view_bridges(1) [of E req lead "[]" c2] 3
      view_bridges(2) [of E req ps c3] 4
    by (simp_all add: entIDListtoEntList_def c0_def vpn_view_def)
  have un: "snd (buildOutboundChain E req c) = (if err \<noteq> [] then c1\<lparr>cx_error := err\<rparr> else if cx_error c2 \<noteq> [] then c2
      else if cx_error c3 \<noteq> [] then c3 else if cx_error c4 \<noteq> [] then c4
      else credit_chain req (cr_startSuffix req + int (length lead')) tail ents' (emit_chain E req lead' xs b tail c4))"
  proof (cases "err = []")
    case True
    show ?thesis
      using 2 by (simp add: buildOutboundChain_def Let_def 1 [unfolded c0_def, simplified] True s 3 4)
  next
    case False
    then show ?thesis by (simp add: buildOutboundChain_def Let_def 1 [unfolded c0_def, simplified])
  qed
  have r: "snd (buildOutboundChain E req c) =
      credit_chain req (cr_startSuffix req + int (length lead')) tail ents' (emit_chain E req lead' xs b tail c4)"
    using assms(1) unfolding un by (auto split: if_splits)
  have "vpn_ok c4" using assms(2) v vpn_ok_view [of c4 c] by simp
  then show ?thesis
    using assms(1) vpn_emit_chain [of E req lead' xs b tail c4] vpn_ok_view [OF view_credit(1)] unfolding r view_credit(2) by simp
qed

subsection \<open>Through the outbounds section\<close>

lemma view_credit_last [simp]: "vpn_view (credit_last p c) = vpn_view c" "vpn_ok (credit_last p c) = vpn_ok c"
  "vpn_ok (case w of Some p \<Rightarrow> credit_last p c | None \<Rightarrow> c) = vpn_ok c"
proof -
  show v: "vpn_view (credit_last p c) = vpn_view c" for p by (simp add: credit_last_def vpn_view_def)
  show "vpn_ok (credit_last p c) = vpn_ok c" for p by (rule vpn_ok_view [OF v])
  then show "vpn_ok (case w of Some p \<Rightarrow> credit_last p c | None \<Rightarrow> c) = vpn_ok c" by (simp split: option.split)
qed

lemma vpn_routes: "cx_error (build_routes E s rgs c) = [] \<Longrightarrow> vpn_ok c \<Longrightarrow> vpn_ok (build_routes E s rgs c)"
proof (induction rgs arbitrary: s c)
  case (Cons rg rgs)
  obtain t c1 where b: "buildOutboundChain E (row_request routeChainPrefix False (rg_hopIDs rg) s) c = (t, c1)"
    by (metis prod.exhaust)
  define c2 where "c2 = (case rg_chainWrapper rg of Some w \<Rightarrow> credit_last w c1 | None \<Rightarrow> c1)"
  have un: "build_routes E s (rg # rgs) c = build_routes E (s + length (rg_hopIDs rg)) rgs c2" using b by (simp add: c2_def)
  have e: "cx_error c1 = []" using build_routes_error [OF Cons.prems(1) [unfolded un]] by (simp add: c2_def)
  have "vpn_ok c1" using vpn_chain [where c = c] b e Cons.prems(2) by (metis snd_conv)
  then show ?case using Cons.IH [of _ c2] Cons.prems(1) unfolding un by (simp add: c2_def)
qed simp

lemma vpn_auxiliaries:
  "cx_error (snd (build_auxiliaries E s rows c)) = [] \<Longrightarrow> vpn_ok c \<Longrightarrow> vpn_ok (snd (build_auxiliaries E s rows c))"
proof (induction rows arbitrary: s c)
  case (Cons ids rows)
  obtain t c1 where b: "buildOutboundChain E (row_request auxEndpointPrefix True ids s) c = (t, c1)" by (metis prod.exhaust)
  have e: "cx_error c1 = []" using Cons.prems(1) by (auto simp: b split: if_splits)
  have v: "vpn_view (c1\<lparr>cx_vpnAuxTags := ts\<rparr>) = vpn_view c1" for ts by (simp add: vpn_view_def)
  have "vpn_ok c1" using vpn_chain [where c = c] b e Cons.prems(2) by (metis snd_conv)
  then show ?case using Cons.IH [of "s + length ids" "c1\<lparr>cx_vpnAuxTags := cx_vpnAuxTags c1 @ [t]\<rparr>"] Cons.prems(1) e
    by (simp add: b vpn_ok_view [OF v])
qed simp

lemma vpn_members:
  "cx_error (snd (build_members E ports sel ms (st, c))) = [] \<Longrightarrow> vpn_ok c \<Longrightarrow>
     vpn_ok (snd (build_members E ports sel ms (st, c)))"
proof (induction ms arbitrary: st c)
  case (Cons m ms)
  obtain req k where r: "member_request ports m st = (req, k)" by (metis prod.exhaust)
  obtain t c1 where b: "buildOutboundChain E req c = (t, c1)" by (metis prod.exhaust)
  define c2 where "c2 = drain_full_config (pm_bridges m) c1"
  have v: "vpn_view c2 = vpn_view c1" by (simp add: c2_def drain_full_config_def vpn_view_def)
  have e: "cx_error c1 = []" "cx_error c2 = []" using Cons.prems(1) by (auto simp: r b Let_def c2_def split: if_splits)
  have "vpn_ok c1" using vpn_chain [where c = c] b e(1) Cons.prems(2) by (metis snd_conv)
  then show ?case using Cons.IH [where c = "credit_last (cx_ent c2) c2"] Cons.prems(1) e vpn_ok_view [OF v]
    by (simp add: r b Let_def c2_def [symmetric])
qed simp

lemma vpn_more_objects:
  assumes "vpn_ok c" "cx_vpnEndpointTags c' = cx_vpnEndpointTags c" "set (cx_outbounds c) \<subseteq> set (cx_outbounds c')"
    and "set (cx_endpoints c) \<subseteq> set (cx_endpoints c')"
  shows "vpn_ok c'"
proof -
  have "set (tags_of c) \<subseteq> set (tags_of c')"
    unfolding tags_of_def objs_def using assms(3,4) by (simp add: image_Un) blast
  then show ?thesis using assms(1,2) unfolding vpn_ok_def by auto
qed

lemma vpn_selector:
  assumes "cx_error (snd (buildAutoSelectorGroup E g w c)) = []" "vpn_ok c"
  shows "vpn_ok (snd (buildAutoSelectorGroup E g w c))"
proof -
  obtain sel where sel: "AutoSelector_of (cx_ent c) = Some sel"
    using assms(1) by (cases "AutoSelector_of (cx_ent c)") (auto simp: buildAutoSelectorGroup_def)
  define c1 where "c1 = c\<lparr>cx_ent := put_selector (Normalize sel) (cx_ent c)\<rparr>"
  define planned where "planned = plan_members E g (pl_build (plan_for E PlanForGroup (cx_ent c1)))"
  obtain ports c2 where 2: "MkManyPorts E (bridges_planned planned) ''127.0.0.1'' c1 = (ports, c2)" by (metis prod.exhaust)
  obtain st c3 where 3: "build_members E ports (Normalize sel) planned (new_pool, c2) = (st, c3)" by (metis prod.exhaust)
  define c4 where "c4 = (if w then collapse_groups (length (rs_chainGroups (cx_result c1))) c3 else c3)"
  define c5 where "c5 = c4\<lparr>cx_outbounds := cx_outbounds c4 @ [selector_object (ge_settings E) (Normalize sel) (group_tag w) st]\<rparr>"
  have un: "buildAutoSelectorGroup E g w c =
      (if pl_error (plan_for E PlanForGroup (cx_ent c1)) \<noteq> [] then ([], c1\<lparr>cx_error := pl_error (plan_for E PlanForGroup (cx_ent c1))\<rparr>)
       else if cx_error c3 \<noteq> [] then ([], c3)
       else if po_tags st = [] then ([], c3\<lparr>cx_error := ''Auto selector produced no usable members''\<rparr>)
       else (group_tag w, in_result (\<lambda>r. r\<lparr>rs_autoSelectors := rs_autoSelectors r @
            [\<lparr>si_groupTag = group_tag w, si_profile = cx_ent c5, si_members = po_members st\<rparr>]\<rparr>) c5))"
    unfolding buildAutoSelectorGroup_def sel option.case Let_def
    by (simp add: c1_def [symmetric] planned_def [symmetric] 2 3 c4_def c5_def)
  have "vpn_view c4 = vpn_view c3" by (simp add: c4_def collapse_groups_def vpn_view_def)
  then have r: "cx_error c3 = []" "cx_vpnEndpointTags (snd (buildAutoSelectorGroup E g w c)) = cx_vpnEndpointTags c3"
      "set (cx_outbounds c3) \<subseteq> set (cx_outbounds (snd (buildAutoSelectorGroup E g w c)))"
      "cx_endpoints (snd (buildAutoSelectorGroup E g w c)) = cx_endpoints c3"
    using assms(1) unfolding un by (auto simp: vpn_view_def c5_def split: if_splits)
  have "c2 = c1\<lparr>cx_probes := cx_probes c1 + 1\<rparr>" using 2 by (simp add: MkManyPorts_def)
  then have "vpn_view c2 = vpn_view c1" by (simp add: vpn_view_def)
  then have "vpn_view c2 = vpn_view c" by (simp add: c1_def vpn_view_def)
  then have "vpn_ok c2" using assms(2) vpn_ok_view [of c2 c] by blast
  then have "vpn_ok c3" using vpn_members [of E ports "Normalize sel" planned new_pool c2] r(1) unfolding 3 snd_conv by blast
  then show ?thesis by (rule vpn_more_objects [OF _ r(2,3)]) (simp add: r(4))
qed

lemma vpn_own:
  assumes "build_own E g w c = (stop, c')" "cx_error c' = []" "vpn_ok c"
  shows "vpn_ok c'"
proof (cases "pr_type (cx_ent c) = ''autoselector''")
  case True
  define d where "d = snd (buildAutoSelectorGroup E g w c)"
  have c': "c' = (if cx_error d = [] \<and> w then buildWarpInFrontOfSelector E d else d)"
    using assms(1) True by (cases w) (auto simp: build_own_def d_def split_beta Let_def)
  have e: "cx_error d = []" using c' assms(2) by (auto split: if_splits)
  have d: "vpn_ok d" using vpn_selector [of E g w c] assms(3) e by (simp add: d_def)
  have "vpn_ok (buildWarpInFrontOfSelector E d)"
    by (rule vpn_more_objects [OF d]) (auto simp: buildWarpInFrontOfSelector_def append_object_def Let_def split_beta)
  then show ?thesis using d unfolding c' by simp
next
  case False
  then obtain own where own: "own_hops (cx_ent c) = Some own"
    using assms(1,2) by (cases "own_hops (cx_ent c)") (auto simp: build_own_def buildOwnChain_def)
  define req where "req = (chain_request_for ((if w then [warpProfileID] else []) @ landing_hops g @ own @ front_hops g) mainChainPrefix)
             \<lparr>cr_includeProxy := True, cr_warpWrap := w\<rparr>"
  obtain t d where b: "buildOutboundChain E req c = (t, d)" by (metis prod.exhaust)
  have "build_own E g w c = (False, if pr_type (cx_ent d) = ''chain'' then credit_last (cx_ent d) d else d)"
    using own False b [unfolded req_def] by (simp add: build_own_def buildOwnChain_def Let_def)
  then have c': "c' = (if pr_type (cx_ent d) = ''chain'' then credit_last (cx_ent d) d else d)" using assms(1) by simp
  have "cx_error d = []" using assms(2) c' by (simp split: if_splits)
  then have "vpn_ok d" using vpn_chain [of E req c] b assms(3) by simp
  then show ?thesis unfolding c' by simp
qed

lemma vpn_section:
  assumes "cx_error (buildOutboundsSection E c) = []" "vpn_ok c" "\<not> cx_forTest c"
  shows "vpn_ok (buildOutboundsSection E c)"
proof -
  obtain g where g: "ge_groups E (pr_gid (cx_ent c)) = Some g"
    using assms(1) by (cases "ge_groups E (pr_gid (cx_ent c))") (auto simp: buildOutboundsSection_def)
  obtain stop c1 where o: "build_own E g (gs_enable_warp (ge_settings E)) c = (stop, c1)" by (metis prod.exhaust)
  define c2 where "c2 = build_routes E 0 (pq_routeOutboundGroups (cx_prerequisites c1)) c1"
  obtain s c3 where a: "(if cx_forTest c2 then (False, c2)
      else build_auxiliaries E 0 (pq_auxEndpointGroups (cx_prerequisites c2)) c2) = (s, c3)" by (metis prod.exhaust)
  have un: "buildOutboundsSection E c = (if stop then c1 else if s then c3 else finish_outbounds c3)"
    using g o a by (simp add: buildOutboundsSection_def Let_def c2_def [symmetric])
  have fin: "cx_error (finish_outbounds d) = [] \<Longrightarrow> cx_error d = []" for d
    by (auto simp: finish_outbounds_def Let_def put_section_def split: if_splits)
  have finv: "vpn_ok d \<Longrightarrow> vpn_ok (finish_outbounds d)" for d
    by (auto simp: finish_outbounds_def Let_def put_section_def elim: vpn_more_objects)
  show ?thesis
  proof (cases stop)
    case True
    then show ?thesis using vpn_own [OF o] assms un by simp
  next
    case False
    then have e3: "cx_error c3 = []" using un assms(1) fin by (auto split: if_splits)
    have e2: "cx_error c2 = []"
      using a e3 build_auxiliaries_error [of E 0 "pq_auxEndpointGroups (cx_prerequisites c2)" c2]
      by (cases "pq_auxEndpointGroups (cx_prerequisites c2)") (auto split: if_splits)
    have "vpn_ok c1" using vpn_own [OF o] build_routes_error e2 assms(2) unfolding c2_def by blast
    then have "vpn_ok c2" using vpn_routes e2 unfolding c2_def by blast
    then have "vpn_ok c3"
      using a e3 vpn_auxiliaries [of E 0 "pq_auxEndpointGroups (cx_prerequisites c2)" c2] by (auto split: if_splits)
    then show ?thesis using un False finv by simp
  qed
qed

subsection \<open>What a reader of the section sees\<close>

definition config_dns :: "jobject \<Rightarrow> jobject" where
  "config_dns conf = to_obj (jget conf ''dns'')"

definition dns_servers :: "jobject \<Rightarrow> jobject list" where
  "dns_servers conf = map to_obj (to_arr (jget (config_dns conf) ''servers''))"

definition dns_rules :: "jobject \<Rightarrow> jobject list" where
  "dns_rules conf = map to_obj (to_arr (jget (config_dns conf) ''rules''))"

text \<open>The object holds nothing under the key, or one of the names.\<close>

definition names_in :: "string \<Rightarrow> string set \<Rightarrow> jobject \<Rightarrow> bool" where
  "names_in k T ob \<longleftrightarrow> (case map_of ob k of None \<Rightarrow> True | Some v \<Rightarrow> v \<in> JStr ` T)"

definition closed_dns :: "jobject \<Rightarrow> bool" where
  "closed_dns conf \<longleftrightarrow>
     (let T = map obj_tag (dns_servers conf); outs = set (config_tags conf)
      in distinct T \<and> (\<forall>r \<in> set (dns_rules conf). names_in ''server'' (set T) r) \<and>
         (\<forall>s \<in> set (dns_servers conf). names_in ''domain_resolver'' (set T) s \<and> names_in ''detour'' outs s \<and> names_in ''endpoint'' outs s) \<and>
         dns_rules conf \<noteq> [] \<and> fst ` set (last (dns_rules conf)) = {''action'', ''server'', ''strategy''})"

lemma names_in_jput: "names_in k T (jput k' v ob) = (if k = k' then v \<in> JStr ` T else names_in k T ob)"
  by (simp add: names_in_def)

lemma names_in_jbuild: "names_in k T (jbuild fs) = (case map_of (rev fs) k of None \<Rightarrow> True | Some v \<Rightarrow> v \<in> JStr ` T)"
  by (simp add: names_in_def map_of_jbuild_last)

lemma route_to_server: "names_in ''server'' T (route_to s cs) \<longleftrightarrow> s \<in> T"
  "names_in ''server'' T (with_strategy st s cs) \<longleftrightarrow> s \<in> T"
  by (auto simp: route_to_def with_strategy_def names_in_jbuild names_in_jput)

subsection \<open>The servers\<close>

definition dns_tags :: "'z config_env_scheme \<Rightarrow> build_context \<Rightarrow> string list" where
  "dns_tags E c =
     (let live = (\<not> cx_forTest c); pick = (\<lambda>b t. if b then [t] else [])
      in pick live tag_dnsRemote @ pick (live \<and> is_tailscale c \<and> ce_tailscaleGlobalDNS E (cx_ent c) \<noteq> None) tag_dnsTailscale @ [tag_dnsDirect]
       @ pick (live \<and> \<not> ms_disable_private_bypass (ce_misc E) \<and> external_tailscale E \<and> \<not> is_tailscale c) externalTailscaleTag
       @ pick (live \<and> dn_use_hosts (ce_dns E)) tag_dnsHosts
       @ (if live then map (\<lambda>(t, ty). vpnDnsTag t) (cx_vpnEndpointTags c) else [])
       @ pick (dn_fake_dns (ce_dns E)) tag_dnsFake @ [tag_dnsLocal])"

lemma obj_tag_simps: "obj_tag (jput k v ob) = (if k = ''tag'' then to_str [] v else obj_tag ob)"
  by (simp add: obj_tag_def jget_jput)

lemma obj_tag_jbuild: "obj_tag (jbuild fs) = to_str [] (case map_of (rev fs) ''tag'' of None \<Rightarrow> JUndefined | Some v \<Rightarrow> v)"
  by (simp add: obj_tag_def jget_def map_of_jbuild_last)

abbreviation part_tags :: "dns_part \<Rightarrow> string list" where
  "part_tags p \<equiv> map obj_tag (dp_servers p)"

lemma no_servers: "dp_servers no_part = []" "dp_servers (bridge_dns_part E) = []" "dp_servers (extra_core_part E path) = []"
  "dp_servers (hijack_part E h) = []" "dp_servers (selector_part s st t) = []" "dp_servers (final_part E c) = []"
  "dp_servers (no_part\<lparr>dp_head := hs\<rparr>) = []"
  by (simp_all add: no_part_def bridge_dns_part_def extra_core_part_def hijack_part_def selector_part_def final_part_def Let_def)

lemma obj_tag_tagged [simp]: "obj_tag (tagged_server t ob) = t"
  by (simp add: tagged_server_def obj_tag_simps)

lemma tags_of_parts:
  "part_tags (part_when b p) = (if b then part_tags p else [])"
  "part_tags (remote_part E c) = [tag_dnsRemote]"
  "part_tags (tailscale_part E c) = (if ce_tailscaleGlobalDNS E (cx_ent c) = None then [] else [tag_dnsTailscale])"
  "part_tags (direct_part E c) = [tag_dnsDirect]"
  "part_tags (private_part E c) = (if external_tailscale E \<and> \<not> is_tailscale c then [externalTailscaleTag] else [])"
  "part_tags hosts_part = [tag_dnsHosts]"
  "part_tags (vpn_part c) = map (\<lambda>(t, ty). vpnDnsTag t) (cx_vpnEndpointTags c)"
  "part_tags fake_part = [tag_dnsFake]"
  "part_tags (local_part E c) = [tag_dnsLocal]"
proof -
  show "part_tags (remote_part E c) = [tag_dnsRemote]" by (simp add: remote_part_def Let_def obj_tag_simps)
  show "part_tags (vpn_part c) = map (\<lambda>(t, ty). vpnDnsTag t) (cx_vpnEndpointTags c)"
    by (simp add: vpn_part_def vpn_server_def split_beta Let_def comp_def obj_tag_simps obj_tag_jbuild)
qed (simp_all add: part_when_def no_part_def tailscale_part_def direct_part_def private_part_def hosts_part_def
    fake_part_def local_part_def obj_tag_simps obj_tag_jbuild Let_def split: option.split)

lemma server_tags: "map obj_tag (all_servers (dns_parts_of E c)) = dns_tags E c"
  by (simp add: all_servers_def dns_parts_of_def dns_tags_def Let_def map_concat tags_of_parts no_servers)

lemma vpnDnsTag_inject [simp]: "vpnDnsTag t = vpnDnsTag u \<longleftrightarrow> t = u"
  by (simp add: vpnDnsTag_def)

lemma dns_tags_distinct: "distinct (map fst (cx_vpnEndpointTags c)) \<Longrightarrow> distinct (dns_tags E c)"
  by (auto simp: dns_tags_def Let_def dns_tag_defs externalTailscaleTag_def vpnDnsTag_def distinct_map inj_on_def split_beta comp_def)

subsection \<open>Rules and references\<close>

text \<open>Every rule of a part that names a server names one of the set.\<close>

definition part_closed :: "string set \<Rightarrow> dns_part \<Rightarrow> bool" where
  "part_closed T p \<longleftrightarrow> (\<forall>r \<in> set (dp_head p) \<union> set (dp_rules p). names_in ''server'' T r)"

lemma part_closed_when: "part_closed T (part_when b p) \<longleftrightarrow> (b \<longrightarrow> part_closed T p)"
  by (simp add: part_closed_def part_when_def no_part_def)

lemma rules_closed: "(\<forall>r \<in> set (all_rules ps). names_in ''server'' T r) \<longleftrightarrow> (\<forall>p \<in> set ps. part_closed T p)"
  by (auto simp: all_rules_def part_closed_def)

lemma serverless: "''server'' \<notin> fst ` set fs \<Longrightarrow> names_in ''server'' T (jbuild fs)"
  by (simp add: names_in_jbuild map_of_eq_None_iff [THEN iffD2])

lemma unnamed_closed: "part_closed T (remote_part E c)" "part_closed T (direct_part E c)" "part_closed T (local_part E c)"
  by (simp_all add: part_closed_def remote_part_def direct_part_def local_part_def no_part_def Let_def)

lemma predefined_closed: "part_closed T (no_part\<lparr>dp_head := predefined_rules E\<rparr>)"
  by (auto simp: part_closed_def no_part_def predefined_rules_def Let_def split_beta emit_family_def intro: serverless split: if_splits)

lemma hijack_closed: "part_closed T (hijack_part E h)"
  by (auto simp: part_closed_def hijack_part_def no_part_def hijack_rules_def predefined_answer_def intro!: serverless split: if_splits)

lemma selector_closed: "t \<in> T \<Longrightarrow> part_closed T (selector_part s st t)"
  by (auto simp: part_closed_def selector_part_def no_part_def appendDnsRoutingRules_def names_in_jbuild split: if_splits)

lemma named_closed:
  "tag_dnsDirect \<in> T \<Longrightarrow> ce_tailscaleGlobalDNS E (cx_ent c) = None \<or> tag_dnsTailscale \<in> T \<Longrightarrow> part_closed T (tailscale_part E c)"
  "tag_dnsLocal \<in> T \<Longrightarrow> \<not> (external_tailscale E \<and> \<not> is_tailscale c) \<or> externalTailscaleTag \<in> T \<Longrightarrow> part_closed T (private_part E c)"
  "tag_dnsHosts \<in> T \<Longrightarrow> part_closed T hosts_part"
  "tag_dnsDirect \<in> T \<Longrightarrow> part_closed T (bridge_dns_part E)"
  "tag_dnsDirect \<in> T \<Longrightarrow> part_closed T (extra_core_part E path)"
  "tag_dnsFake \<in> T \<Longrightarrow> part_closed T fake_part"
  by (auto simp: part_closed_def tailscale_part_def private_part_def hosts_part_def bridge_dns_part_def extra_core_part_def
      fake_part_def no_part_def route_to_server names_in_jput Let_def split: option.splits if_splits)

lemma vpn_closed: "vpnDnsTag ` fst ` set (cx_vpnEndpointTags c) \<subseteq> T \<Longrightarrow> part_closed T (vpn_part c)"
  by (force simp: part_closed_def vpn_part_def no_part_def route_to_server)

lemma final_closed:
  assumes "\<not> cx_forTest c" "{tag_dnsDirect, tag_dnsRemote} \<union> vpnDnsTag ` fst ` set (cx_vpnEndpointTags c) \<subseteq> T"
  shows "part_closed T (final_part E c)"
proof -
  have "hd (carrying_gates c) \<in> fst ` set (cx_vpnEndpointTags c)" if "carrying_gates c \<noteq> []"
    using hd_in_set [OF that] by (auto simp: carrying_gates_def)
  then have "vpnFinalDnsTag c \<noteq> [] \<Longrightarrow> vpnFinalDnsTag c \<in> T" using assms(2) by (auto simp: vpnFinalDnsTag_def split: if_splits)
  then show ?thesis using assms by (auto simp: part_closed_def final_part_def no_part_def Let_def route_to_server split: if_splits)
qed

lemma all_rules_closed:
  assumes "\<not> cx_forTest c"
  shows "\<forall>r \<in> set (all_rules (dns_parts_of E c)). names_in ''server'' (set (dns_tags E c)) r"
proof -
  let ?T = "set (dns_tags E c)" and ?D = "ce_dns E"
  have T: "tag_dnsRemote \<in> ?T" "tag_dnsDirect \<in> ?T" "tag_dnsLocal \<in> ?T" "vpnDnsTag ` fst ` set (cx_vpnEndpointTags c) \<subseteq> ?T"
    using assms by (auto simp: dns_tags_def Let_def)
  have opt: "is_tailscale c \<Longrightarrow> ce_tailscaleGlobalDNS E (cx_ent c) = None \<or> tag_dnsTailscale \<in> ?T"
    "\<not> ms_disable_private_bypass (ce_misc E) \<Longrightarrow> \<not> (external_tailscale E \<and> \<not> is_tailscale c) \<or> externalTailscaleTag \<in> ?T"
    "dn_use_hosts ?D \<Longrightarrow> tag_dnsHosts \<in> ?T" "dn_fake_dns ?D \<Longrightarrow> tag_dnsFake \<in> ?T"
    using assms by (auto simp: dns_tags_def Let_def)
  have "part_closed ?T (final_part E c)" using final_closed [OF assms] T by blast
  then show ?thesis
    using named_closed(1) [OF T(2) opt(1)] named_closed(2) [OF T(3) opt(2)] named_closed(3) [OF opt(3)]
      named_closed(6) [OF opt(4)] vpn_closed [OF T(4)]
    unfolding rules_closed dns_parts_of_def Let_def list.set
    by (simp add: part_closed_when unnamed_closed predefined_closed hijack_closed selector_closed T
        named_closed(4,5) [OF T(2)])
qed

definition server_closed :: "string set \<Rightarrow> string set \<Rightarrow> jobject \<Rightarrow> bool" where
  "server_closed T outs s \<longleftrightarrow> names_in ''domain_resolver'' T s \<and> names_in ''detour'' outs s \<and> names_in ''endpoint'' outs s"

lemma server_closed_jput: "k \<notin> {''domain_resolver'', ''detour'', ''endpoint''} \<Longrightarrow>
    server_closed T outs (jput k v s) = server_closed T outs s"
  by (auto simp: server_closed_def names_in_jput)

lemma server_closed_jbuild: "fst ` set fs \<inter> {''domain_resolver'', ''detour'', ''endpoint''} = {} \<Longrightarrow> server_closed T outs (jbuild fs)"
proof -
  assume "fst ` set fs \<inter> {''domain_resolver'', ''detour'', ''endpoint''} = {}"
  then have "map_of (rev fs) k = None" if "k \<in> {''domain_resolver'', ''detour'', ''endpoint''}" for k
  proof -
    have "k \<notin> fst ` set fs" using that \<open>fst ` set fs \<inter> _ = {}\<close> by blast
    then have "k \<notin> fst ` set (rev fs)" by simp
    then show ?thesis by (simp only: map_of_eq_None_iff not_False_eq_True)
  qed
  then show ?thesis by (simp add: server_closed_def names_in_jbuild)
qed

lemma buildDnsObj_closed: "server_closed T outs (buildDnsObj E c a)"
  by (simp add: buildDnsObj_def plain_server_def Let_def split_beta server_closed_jput server_closed_jbuild)

lemma tagged_closed: "tag_dnsLocal \<in> T \<Longrightarrow> server_closed T outs (tagged_server t (buildDnsObj E c a))"
  using buildDnsObj_closed [of T outs E c a] by (simp add: tagged_server_def server_closed_def names_in_jput)

lemma servers_closed:
  assumes "\<not> cx_forTest c" "tag_proxy \<in> outs" "fst ` set (cx_vpnEndpointTags c) \<subseteq> outs" "s \<in> set (all_servers (dns_parts_of E c))"
  shows "server_closed (set (dns_tags E c)) outs s"
proof -
  let ?T = "set (dns_tags E c)"
  have L: "tag_dnsLocal \<in> ?T" by (simp add: dns_tags_def Let_def)
  have cond: "(\<forall>s \<in> set (dp_servers (part_when b p)). server_closed ?T outs s) \<longleftrightarrow> (b \<longrightarrow> (\<forall>s \<in> set (dp_servers p). server_closed ?T outs s))" for b p
    by (simp add: part_when_def no_part_def)
  have plain: "\<forall>s \<in> set (dp_servers (private_part E c)) \<union> set (dp_servers hosts_part) \<union> set (dp_servers fake_part). server_closed ?T outs s"
    by (simp add: private_part_def hosts_part_def fake_part_def no_part_def Let_def server_closed_jbuild)
  have built: "\<forall>s \<in> set (dp_servers (direct_part E c)) \<union> set (dp_servers (local_part E c)). server_closed ?T outs s"
    by (simp add: direct_part_def local_part_def no_part_def Let_def server_closed_jput buildDnsObj_closed tagged_closed L)
  have remote: "\<forall>s \<in> set (dp_servers (remote_part E c)). server_closed ?T outs s"
    using assms(2)
    by (simp add: remote_part_def no_part_def Let_def tagged_closed [OF L, of outs, unfolded server_closed_def] server_closed_def names_in_jput)
  have tail: "\<forall>s \<in> set (dp_servers (tailscale_part E c)). server_closed ?T outs s"
    using assms(2) by (simp add: tailscale_part_def no_part_def Let_def server_closed_def names_in_jbuild split: option.split)
  have vpn: "\<forall>s \<in> set (dp_servers (vpn_part c)). server_closed ?T outs s"
    using assms(3) by (force simp: vpn_part_def no_part_def vpn_server_def Let_def server_closed_def names_in_jbuild names_in_jput)
  have "\<forall>p \<in> set (dns_parts_of E c). \<forall>s \<in> set (dp_servers p). server_closed ?T outs s"
    using plain built remote tail vpn unfolding dns_parts_of_def Let_def list.set by (simp add: cond no_servers)
  then show ?thesis using assms(4) by (auto simp: all_servers_def)
qed

lemma last_rule: "\<exists>st t. last (all_rules (dns_parts_of E c)) = with_strategy st t [] \<and> all_rules (dns_parts_of E c) \<noteq> []"
proof -
  have "\<exists>rs st t. concat (map dp_rules (dns_parts_of E c)) = rs @ [with_strategy st t []]"
    by (simp add: dns_parts_of_def Let_def final_part_def local_part_def no_part_def) metis
  then obtain rs st t where "all_rules (dns_parts_of E c) = (concat (map dp_head (dns_parts_of E c)) @ rs) @ [with_strategy st t []]"
    by (auto simp: all_rules_def)
  then show ?thesis by (metis last_snoc snoc_eq_iff_butlast)
qed

lemma dns_options_fields: "k \<in> {''servers'', ''rules''} \<Longrightarrow> jget (dns_options D ob) k = jget ob k"
proof -
  have "dns_options D ob = put_when (dn_optimistic D \<and> \<not> dn_disable_cache D \<and> \<not> dn_disable_expire D) ''optimistic''
      (if dn_optimistic_timeout D = [] then JBool True
       else JObj (jbuild [(''enabled'', JBool True), (''timeout'', JStr (dn_optimistic_timeout D))]))
    (put_when (dn_query_timeout D \<noteq> []) ''timeout'' (JStr (dn_query_timeout D))
      (put_when (dn_fake_dns D) ''independent_cache'' (JBool True) (put_when (dn_reverse_mapping D) ''reverse_mapping'' (JBool True)
        (put_when (dn_disable_expire D) ''disable_expire'' (JBool True) (put_when (dn_disable_cache D) ''disable_cache'' (JBool True) ob)))))"
    by (simp only: dns_options_def put_when_def Let_def)
  then show "k \<in> {''servers'', ''rules''} \<Longrightarrow> jget (dns_options D ob) k = jget ob k"
    by (elim insertE) (simp_all only: jget_put_when, simp_all)
qed

text \<open>
  C4: The DNS section of a configuration that builds without an error is closed, unless the user
  supplies the section: no two servers share a tag; every rule that names a server, and every
  server that names another to resolve its address, names a server of the section; a server that
  goes through an outbound or asks a tunnel names one of the configuration's own (the noted VPN
  endpoints are exactly such); and the last rule has no condition, so every query is answered. As for the whole configuration it
  is asked that the started profile is no full configuration of the user's and no empty chain, that the
  route profile is structured, and that no stored profile's own JSON carries a detour.
\<close>

theorem dns_is_closed:
  assumes "rs_error (BuildSingBoxConfig E ent) = []" and "\<not> isCustomFullConfig ent" and "plain_env E"
    and "pr_type ent \<noteq> ''autoselector'' \<longrightarrow> own_hops ent \<noteq> Some []"
    and "ge_route E = Some P" "\<not> rt_isRaw P" and "\<not> dn_use_dns_object (ce_dns E)"
  shows "closed_dns (rs_coreConfig (BuildSingBoxConfig E ent))"
proof -
  obtain c1 c2 c3 c4 c5 where c: "c1 = calculatePrerequisites E (new_context ent)" "cx_error c1 = []" "only_result c1 c2"
      "c3 = buildOutboundsSection E c2" "cx_error c3 = []" "c4 = buildDNSSection E True c3" "cx_error c4 = []"
      "c5 = buildRouteSection E c4" "cx_error c5 = []"
    and conf: "\<And>k. k \<noteq> ''experimental'' \<Longrightarrow> k \<noteq> ''services'' \<Longrightarrow>
       jget (rs_coreConfig (BuildSingBoxConfig E ent)) k = jget (conf_of c5) k"
    using config_steps [OF assms(1,2)] by metis
  obtain P' where P': "planned (gs_enable_warp (ge_settings E)) c1" "cx_ent c1 = ent"
    using prerequisites_planned [OF c(2) [unfolded c(1)] new_context_fresh(1,2)] c(1) new_context_fresh(3) by metis
  have fresh: "fresh c1" and rows: "row_ok E (route_rows c1)" "row_ok E (pq_auxEndpointGroups (preq c1))"
    using P'(1) plain_env_hops [OF assms(3)] by (auto simp: planned_def row_ok_def)
  note f2 = only_result_fields [OF c(3)]
  have s2: "sound {} c2" "\<not> cx_forTest c2" using fresh_sound [OF fresh] fresh f2 by (auto simp: fresh_def)
  note S = section_sound [OF s2(1) c(5) [unfolded c(4)] assms(3) s2(2), folded c(4), unfolded f2 P'(2)]
  have S3: "sound UNIV c3" "tag_proxy \<in> set (tags_of c3)" "\<not> cx_forTest c3"
      "jget (conf_of c3) ''outbounds'' = JArr (map JObj (cx_outbounds c3))"
      "jget (conf_of c3) ''endpoints'' = JArr (map JObj (cx_endpoints c3))"
    using S assms(4) rows unfolding route_rows_def by auto
  have vpn: "vpn_ok c3"
  proof -
    have "cx_vpnEndpointTags c2 = []" using fresh f2 by (simp add: fresh_def)
    then have "vpn_ok c2" by (simp add: vpn_ok_def)
    then show ?thesis using vpn_section [OF c(5) [unfolded c(4)] _ s2(2)] c(4) by simp
  qed
  have c4: "c4 = put_section ''dns'' (JObj (dns_object E c3)) c3"
    using c(6,7) assms(7) by (auto simp: buildDNSSection_def split: if_splits)
  have c5: "c5 = put_section ''route'' (JObj (route_object E P [] c4)) c4"
    using route_section_only [OF c(9) [unfolded c(8)] assms(5,6)] c(8) by simp
  let ?conf = "rs_coreConfig (BuildSingBoxConfig E ent)"
  have o: "config_dns ?conf = dns_object E c3" "config_tags ?conf = tags_of c3"
    using S3(4,5) by (simp_all add: config_dns_def config_tags_def config_objects_def conf c5 c4 conf_put_section jget_jput
        tags_of_def objs_def comp_def)
  have d: "dns_servers ?conf = all_servers (dns_parts_of E c3)" "dns_rules ?conf = all_rules (dns_parts_of E c3)"
    by (simp_all add: dns_servers_def dns_rules_def o dns_object_def dns_options_fields jget_jbuild comp_def)
  obtain st t where last: "last (dns_rules ?conf) = with_strategy st t []" "dns_rules ?conf \<noteq> []"
    using last_rule [of E c3] d by metis
  have "distinct (dns_tags E c3)" by (rule dns_tags_distinct) (use vpn in \<open>simp add: vpn_ok_def strict_sorted_iff\<close>)
  then show ?thesis
    using servers_closed [OF S3(3,2)] vpn all_rules_closed [OF S3(3)] last
    by (auto simp: closed_dns_def Let_def d o server_tags server_closed_def vpn_ok_def with_strategy_def route_to_def keys_jput keys_jbuild)
qed

theorem dns_is_closed_witness:
  "closed_dns (rs_coreConfig (BuildSingBoxConfig demo_config demo_started)) \<and>
   map obj_tag (dns_servers (rs_coreConfig (BuildSingBoxConfig demo_config demo_started))) =
     [''dns-remote'', ''dns-direct'', ''dns-hosts'', ''dns-vpn-aux-0'', ''dns-local'']"
proof -
  have run: "let r = BuildSingBoxConfig demo_config demo_started
    in rs_error r = [] \<and> map obj_tag (dns_servers (rs_coreConfig r)) =
     [''dns-remote'', ''dns-direct'', ''dns-hosts'', ''dns-vpn-aux-0'', ''dns-local'']"
    by code_simp
  have ent: "\<not> isCustomFullConfig demo_started" "pr_type demo_started \<noteq> ''autoselector'' \<longrightarrow> own_hops demo_started \<noteq> Some []"
    "\<not> rt_isRaw demo_config_route" "\<not> dn_use_dns_object (ce_dns demo_config)"
    by code_simp+
  have r: "ge_route demo_config = Some demo_config_route" by (simp add: demo_config_def gen_env.defs)
  show ?thesis using dns_is_closed [OF _ ent(1) demo_plain ent(2) r ent(3,4)] run by (simp add: Let_def)
qed

end
