(* ===== verification/PoolPorts.thy ===== *)
theory PoolPorts
  imports SectionProps
begin

text \<open>
  The local ports of an auto selector's pool. They are probed in one go, counted by
  \<^verbatim>\<open>bridgesFor\<close>, dealt to the members' chains, and each is listened on by one bridge: none
  is left over, none is used twice and no chain probes one of its own.
\<close>

text \<open>The port on which a full Xray configuration was told to listen: its first inbound.\<close>

definition config_port :: "jobject \<Rightarrow> json" where
  "config_port cfg = (case to_arr (jget cfg ''inbounds'') of [] \<Rightarrow> JNull | i # _ \<Rightarrow> jget (to_obj i) ''port'')"

definition listened_ports :: "build_context \<Rightarrow> json list" where
  "listened_ports c = map (\<lambda>b. jint (br_port b)) (cx_singToXrayBridges c @ cx_xrayToSingBridges c) @
     map config_port (rs_xrayFullConfigs (cx_result c))"

lemma bridge_port_given: "0 < g \<Longrightarrow> bridge_port E g (ps, c) = (g, ps, c)"
  by (simp add: bridge_port_def)

lemma open_sing_port:
  assumes "open_sing_to_xray E req lead (ps, c) = (lead', ps', c')" "cx_error c' = []"
    and "cx_singToXrayTransitioned c \<Longrightarrow> 0 < cr_singToXrayPort req"
  shows "map br_port (cx_singToXrayBridges c') = map br_port (cx_singToXrayBridges c) @
      (if cx_singToXrayTransitioned c then [cr_singToXrayPort req] else [])"
    "cx_probes c' = cx_probes c" "cx_xrayToSingBridges c' = cx_xrayToSingBridges c"
    "cx_xrayToSingTransitioned c' = cx_xrayToSingTransitioned c" "cx_result c' = cx_result c"
  using assms by (auto simp: open_sing_to_xray_def bridge_port_given GetRandomString_def bridge_at_def Let_def
      split: if_splits)

lemma open_xray_port:
  assumes "open_xray_to_sing E req (ps, c) = (b, c')" "cx_error c' = []"
    and "cx_xrayToSingTransitioned c \<Longrightarrow> 0 < cr_xrayToSingPort req"
  shows "map br_port (cx_xrayToSingBridges c') = map br_port (cx_xrayToSingBridges c) @
      (if cx_xrayToSingTransitioned c then [cr_xrayToSingPort req] else [])"
    "cx_probes c' = cx_probes c" "cx_singToXrayBridges c' = cx_singToXrayBridges c" "cx_result c' = cx_result c"
  using assms by (auto simp: open_xray_to_sing_def bridge_port_given GetRandomString_def bridge_at_def Let_def
      split: if_splits)

lemma install_port:
  assumes "install_full_config E req ents c = (ents', c')" "cx_error c' = []"
    and "ents \<noteq> [] \<and> isXrayFullConfig (last ents) \<Longrightarrow> 0 < cr_xrayFullConfigPort req"
  shows "cx_probes c' = cx_probes c" "cx_singToXrayBridges c' = cx_singToXrayBridges c"
    "cx_xrayToSingBridges c' = cx_xrayToSingBridges c"
    "cx_singToXrayTransitioned c' = cx_singToXrayTransitioned c" "cx_xrayToSingTransitioned c' = cx_xrayToSingTransitioned c"
    "rs_xrayFullConfigs (cx_result c') = rs_xrayFullConfigs (cx_result c)"
    "ents \<noteq> [] \<and> isXrayFullConfig (last ents) \<Longrightarrow>
       config_port (rs_xrayConfig (cx_result c')) = jint (cr_xrayFullConfigPort req)"
  using assms by (auto simp: install_full_config_def GetRandomString_def config_port_def full_config_inbound_def
      xraySocksInbound_def json_store.look_put jget_def map_of_jbuild Let_def split: if_splits option.splits)

lemma emit_chain_keeps:
  assumes "cx_error (emit_chain E req lead xs b tail c) = []" "three_runs lead0 xs tail" "xs \<noteq> [] \<Longrightarrow> lead \<noteq> []"
  shows "cx_probes (emit_chain E req lead xs b tail c) = cx_probes c"
    "cx_singToXrayBridges (emit_chain E req lead xs b tail c) = cx_singToXrayBridges c"
    "cx_xrayToSingBridges (emit_chain E req lead xs b tail c) = cx_xrayToSingBridges c"
    "rs_xrayConfig (cx_result (emit_chain E req lead xs b tail c)) = rs_xrayConfig (cx_result c)"
    "rs_xrayFullConfigs (cx_result (emit_chain E req lead xs b tail c)) = rs_xrayFullConfigs (cx_result c)"
  using frame_fields(3,4,5,13,16) [OF emit_chain_facts(9) [OF assms]] by simp_all

text \<open>A port is given for every bridge that was counted.\<close>

definition ports_given :: "memberBridges \<Rightarrow> chain_request \<Rightarrow> bool" where
  "ports_given m req \<longleftrightarrow> (mb_singToXray m \<longrightarrow> 0 < cr_singToXrayPort req) \<and> (mb_xrayToSing m \<longrightarrow> 0 < cr_xrayToSingPort req) \<and>
     (mb_xrayFullConfig m \<longrightarrow> 0 < cr_xrayFullConfigPort req)"

lemma chain_ports:
  assumes ok: "cx_error (snd (buildOutboundChain E req c)) = []" and warp: "warpProfileID \<notin> set (cr_hopIDs req)"
    and full_outbounds: "\<And>i p. profile_of E i = Some p \<Longrightarrow> pr_outbound p \<noteq> None"
    and given: "ports_given (bridgesFor E (cr_hopIDs req)) req"
  defines "fin \<equiv> snd (buildOutboundChain E req c)" and "m \<equiv> bridgesFor E (cr_hopIDs req)"
  shows "cx_probes fin = cx_probes c"
    "map br_port (cx_singToXrayBridges fin) = map br_port (cx_singToXrayBridges c) @ (if mb_singToXray m then [cr_singToXrayPort req] else [])"
    "map br_port (cx_xrayToSingBridges fin) = map br_port (cx_xrayToSingBridges c) @ (if mb_xrayToSing m then [cr_xrayToSingPort req] else [])"
    "rs_xrayFullConfigs (cx_result fin) = rs_xrayFullConfigs (cx_result c)"
    "mb_xrayFullConfig m \<Longrightarrow> config_port (rs_xrayConfig (cx_result fin)) = jint (cr_xrayFullConfigPort req)"
proof -
  obtain hops c1 ents c3 lead xs tail lead' ports c4 b2 c5 where h: "those (map (hop_of E) (cr_hopIDs req)) = Some hops"
      "accepted_chain hops"
    and c1: "c1 = c\<lparr>cx_singToXrayTransitioned := (xs \<noteq> []), cx_xrayToSingTransitioned := (tail \<noteq> [])\<rparr>"
    and i: "install_full_config E req hops (c1\<lparr>cx_error := []\<rparr>) = (ents, c3)"
    and o1: "open_sing_to_xray E req lead ([], c3) = (lead', ports, c4)" and o2: "open_xray_to_sing E req (ports, c4) = (b2, c5)"
    and e: "cx_error c3 = []" "cx_error c4 = []" "cx_error c5 = []" "cx_error (emit_chain E req lead' xs b2 tail c5) = []"
    and fin: "fin = credit_chain req (cr_startSuffix req + int (length lead')) tail ents (emit_chain E req lead' xs b2 tail c5)"
    and runs: "three_runs lead xs tail"
    and hops: "hops = lead @ xs @ tail \<or> (hops \<noteq> [] \<and> xs = [] \<and> isXrayFullConfig (last hops) \<and>
        bridged (last hops) (last lead) \<and> lead = butlast hops @ [last lead])"
    unfolding fin_def by (rule chain_stages [OF ok]) blast
  have counted: "mb_singToXray m \<longleftrightarrow> xs \<noteq> []" "mb_xrayToSing m \<longleftrightarrow> tail \<noteq> []"
    "mb_xrayFullConfig m \<longleftrightarrow> hops \<noteq> [] \<and> isXrayFullConfig (last hops)"
    unfolding m_def by (rule bridges_counted [OF h warp _ runs hops], rule full_outbounds, assumption)+
  note I = install_port [OF i e(1)] and O1 = open_sing_port [OF o1 e(2)] and O2 = open_xray_port [OF o2 e(3)]
  have full: "hops \<noteq> [] \<and> isXrayFullConfig (last hops) \<Longrightarrow> 0 < cr_xrayFullConfigPort req"
    using given counted(3) by (simp add: ports_given_def m_def)
  note I = I [OF full]
  have t3: "cx_singToXrayTransitioned c3 \<longleftrightarrow> xs \<noteq> []" "cx_xrayToSingTransitioned c3 \<longleftrightarrow> tail \<noteq> []"
    using I(4,5) by (simp_all add: c1)
  have s: "cx_singToXrayTransitioned c3 \<Longrightarrow> 0 < cr_singToXrayPort req"
    using given counted(1) t3 by (simp add: ports_given_def m_def)
  note O1 = O1 [OF s]
  have x: "cx_xrayToSingTransitioned c4 \<Longrightarrow> 0 < cr_xrayToSingPort req"
    using given counted(2) t3 O1(4) by (simp add: ports_given_def m_def)
  note O2 = O2 [OF x]
  have "xs \<noteq> [] \<Longrightarrow> lead' \<noteq> []" using open_sing_facts [OF o1 e(2)] t3(1) by auto
  note K = emit_chain_keeps [OF e(4) runs this]
  have F: "cx_probes fin = cx_probes c5" "cx_singToXrayBridges fin = cx_singToXrayBridges c5"
    "cx_xrayToSingBridges fin = cx_xrayToSingBridges c5" "rs_xrayConfig (cx_result fin) = rs_xrayConfig (cx_result c5)"
    "rs_xrayFullConfigs (cx_result fin) = rs_xrayFullConfigs (cx_result c5)"
    by (simp_all add: fin credit_chain_def K)
  show "cx_probes fin = cx_probes c" "rs_xrayFullConfigs (cx_result fin) = rs_xrayFullConfigs (cx_result c)"
    by (simp_all add: F O2 O1 I c1)
  show "map br_port (cx_singToXrayBridges fin) = map br_port (cx_singToXrayBridges c) @ (if mb_singToXray m then [cr_singToXrayPort req] else [])"
    "map br_port (cx_xrayToSingBridges fin) = map br_port (cx_xrayToSingBridges c) @ (if mb_xrayToSing m then [cr_xrayToSingPort req] else [])"
    using t3 by (simp_all add: F O2 O1 I c1 counted)
  show "mb_xrayFullConfig m \<Longrightarrow> config_port (rs_xrayConfig (cx_result fin)) = jint (cr_xrayFullConfigPort req)"
    using I(7) counted(3) by (simp add: F O2 O1)
qed

subsection \<open>The members of a pool\<close>

lemma take_drop_upt: "k + n \<le> length xs \<Longrightarrow> take n (drop k xs) = map ((!) xs) [k..<k + n]"
  by (rule nth_equalityI) auto

text \<open>A member's request takes the next ports, one for each bridge counted.\<close>

lemma member_request_ports:
  assumes "member_request ports m st = (req, k)" "po_portIdx st + bridge_count (pm_bridges m) \<le> length ports"
  shows "k = po_portIdx st + bridge_count (pm_bridges m)" "cr_hopIDs req = pm_hopIDs m"
    "take (bridge_count (pm_bridges m)) (drop (po_portIdx st) ports) =
       (if mb_singToXray (pm_bridges m) then [cr_singToXrayPort req] else []) @
       (if mb_xrayToSing (pm_bridges m) then [cr_xrayToSingPort req] else []) @
       (if mb_xrayFullConfig (pm_bridges m) then [cr_xrayFullConfigPort req] else [])"
  unfolding take_drop_upt [OF assms(2)]
  using assms(1) by (cases "mb_singToXray (pm_bridges m)"; cases "mb_xrayToSing (pm_bridges m)";
    cases "mb_xrayFullConfig (pm_bridges m)"; auto simp: member_request_def deal_def bridge_count_def chain_request_for_def upt_rec)+

lemma in_drop_set: "set (take n (drop k xs)) \<subseteq> set xs"
  by (meson order.trans set_drop_subset set_take_subset)

definition planned_ok :: "'z gen_env_scheme \<Rightarrow> planned_member \<Rightarrow> bool" where
  "planned_ok E m \<longleftrightarrow> pm_bridges m = bridgesFor E (pm_hopIDs m) \<and> warpProfileID \<notin> set (pm_hopIDs m)"

lemma drain_ports:
  assumes "cx_error (drain_full_config m c) = []" "cx_error c = []"
  shows "listened_ports (drain_full_config m c) = listened_ports c @
      (if mb_xrayFullConfig m then [config_port (rs_xrayConfig (cx_result c))] else [])"
    "cx_probes (drain_full_config m c) = cx_probes c"
  using assms by (auto simp: drain_full_config_def listened_ports_def)

lemma credit_last_ports [simp]: "listened_ports (credit_last p c) = listened_ports c" "cx_probes (credit_last p c) = cx_probes c"
  by (simp_all add: credit_last_def listened_ports_def split: list.split)

lemma pool_ports:
  assumes "build_members E ports sel ms (st, c) = (st', c')" "cx_error c' = []" "\<forall>m\<in>set ms. planned_ok E m"
    and full_outbounds: "\<And>i p. profile_of E i = Some p \<Longrightarrow> pr_outbound p \<noteq> None"
    and "po_portIdx st + bridges_planned ms \<le> length ports" and pos: "\<forall>p\<in>set ports. 0 < p"
  shows "cx_probes c' = cx_probes c \<and> mset (listened_ports c') =
    mset (listened_ports c) + mset (map jint (take (bridges_planned ms) (drop (po_portIdx st) ports)))"
  using assms(1-3,5)
proof (induction ms arbitrary: st c)
  case (Cons m ms)
  obtain req k where r: "member_request ports m st = (req, k)" by (metis prod.exhaust)
  obtain t c1 where b: "buildOutboundChain E req c = (t, c1)" by (metis prod.exhaust)
  define c2 where "c2 = drain_full_config (pm_bridges m) c1"
  define st3 where "st3 = record_member (ge_now E) sel t (pm_ent m) k st"
  let ?n = "bridge_count (pm_bridges m)" and ?i = "po_portIdx st"
  have e: "cx_error c1 = []" "cx_error c2 = []"
    using Cons.prems(1,2) by (auto simp: r b c2_def Let_def split: if_splits)
  have un: "build_members E ports sel ms (st3, credit_last (cx_ent c2) c2) = (st', c')"
    using Cons.prems(1) e by (simp add: r b c2_def st3_def Let_def)
  have len: "?i + ?n + bridges_planned ms \<le> length ports" using Cons.prems(4) by (simp add: bridges_planned_def)
  note R = member_request_ports [OF r order.trans [OF _ len]]
  have m: "pm_bridges m = bridgesFor E (cr_hopIDs req)" "warpProfileID \<notin> set (cr_hopIDs req)"
    using Cons.prems(3) R(2) by (auto simp: planned_ok_def)
  have "set (take ?n (drop ?i ports)) \<subseteq> set ports" by (rule in_drop_set)
  then have given: "ports_given (bridgesFor E (cr_hopIDs req)) req"
    unfolding m(1) [symmetric] ports_given_def using R(3) pos by (auto split: if_splits)
  have "cx_error (snd (buildOutboundChain E req c)) = []" using b e(1) by simp
  note P = chain_ports [OF this m(2) full_outbounds given, folded m(1), unfolded b snd_conv]
  have "mset (listened_ports c2) = mset (listened_ports c) + mset (map jint (take ?n (drop ?i ports)))"
    using drain_ports(1) [OF e(2) [unfolded c2_def] e(1)] P(2-5) R(3)
    by (auto simp: c2_def listened_ports_def simp flip: map_map [of jint br_port, unfolded comp_def])
  moreover have "cx_probes c2 = cx_probes c" using drain_ports(2) [OF e(2) [unfolded c2_def] e(1)] P(1) by (simp add: c2_def)
  moreover have "po_portIdx st3 = ?i + ?n" using R(1) by (simp add: st3_def record_member_def)
  moreover have "take (bridges_planned (m # ms)) (drop ?i ports) =
      take ?n (drop ?i ports) @ take (bridges_planned ms) (drop (?i + ?n) ports)"
    by (simp add: bridges_planned_def take_add add.commute)
  ultimately show ?case using Cons.IH [OF un Cons.prems(2)] Cons.prems(3) len by simp
qed (simp add: bridges_planned_def)

subsection \<open>The pool of an auto selector\<close>

lemma plan_members_ok:
  assumes "profile_of E warpProfileID = None"
  shows "m \<in> set (plan_members E g ids) \<Longrightarrow> planned_ok E m"
  by (induction ids) (use assms in \<open>auto simp: planned_ok_def landing_hops_def front_hops_def warpProfileID_def
    Let_def split: option.splits if_splits\<close>)

text \<open>The operating system has as many free ports as \<^verbatim>\<open>MkManyPorts\<close> is asked for.\<close>

definition probes_succeed :: "'z gen_env_scheme \<Rightarrow> bool" where
  "probes_succeed E \<longleftrightarrow> (\<forall>k n a. length (ge_ports E k n a) = n \<and> (\<forall>p \<in> set (ge_ports E k n a). 0 < p))"

text \<open>
  C8: The ports of an auto selector's bridges come out of one probe, made before any member is built
  and sized by a count of its own, as two probes could deal the same port twice. When the pool is built
  without an error the count was right and the ports are where they belong: no further probe was made,
  and the bridges the members opened into Xray and back, together with the full Xray configurations,
  listen on exactly the ports of that probe, each on one. Asked is that the system has the ports, that
  every profile has its outbound object, and that no stored profile has the reserved id of WARP.
\<close>

theorem dealt_ports_are_used:
  assumes "buildAutoSelectorGroup E g w c = (t, c')" "cx_error c' = []" "probes_succeed E"
    and "\<And>i p. profile_of E i = Some p \<Longrightarrow> pr_outbound p \<noteq> None" "profile_of E warpProfileID = None"
  shows "cx_probes c' = cx_probes c + 1 \<and> (\<exists>n. mset (listened_ports c') =
    mset (listened_ports c) + mset (map jint (ge_ports E (cx_probes c) n ''127.0.0.1'')))"
proof -
  obtain sel c1 ms ports c2 st c3 c4 c5 where c1: "c1 = c\<lparr>cx_ent := put_selector (Normalize sel) (cx_ent c)\<rparr>"
    and ms: "ms = plan_members E g (pl_build (plan_for E PlanForGroup (cx_ent c1)))"
    and p: "MkManyPorts E (bridges_planned ms) ''127.0.0.1'' c1 = (ports, c2)"
    and m: "build_members E ports (Normalize sel) ms (new_pool, c2) = (st, c3)" "cx_error c3 = []"
    and c4: "c4 = (if w then collapse_groups (length (rs_chainGroups (cx_result c1))) c3 else c3)"
    and c5: "c5 = c4\<lparr>cx_outbounds := cx_outbounds c4 @ [selector_object (ge_settings E) (Normalize sel) (group_tag w) st]\<rparr>"
    and c': "c' = in_result (\<lambda>r. r\<lparr>rs_autoSelectors := rs_autoSelectors r @
      [\<lparr>si_groupTag = group_tag w, si_profile = cx_ent c5, si_members = po_members st\<rparr>]\<rparr>) c5"
    by (rule selector_stages [OF assms(1,2)]) blast
  let ?n = "bridges_planned ms"
  have ports: "ports = ge_ports E (cx_probes c) ?n ''127.0.0.1''" "c2 = c1\<lparr>cx_probes := cx_probes c + 1\<rparr>"
    using p by (auto simp: MkManyPorts_def c1)
  have len: "length ports = ?n" "\<forall>p\<in>set ports. 0 < p" using assms(3) by (simp_all add: probes_succeed_def ports)
  have "cx_probes c3 = cx_probes c2 \<and> mset (listened_ports c3) = mset (listened_ports c2) + mset (map jint ports)"
    using pool_ports [OF m _ assms(4) _ len(2)] plan_members_ok [OF assms(5)] len(1) by (simp add: ms new_pool_def)
  moreover have "listened_ports c' = listened_ports c3" "cx_probes c' = cx_probes c3"
    "listened_ports c2 = listened_ports c" "cx_probes c2 = cx_probes c + 1"
    by (simp_all add: c' c5 c4 collapse_groups_def listened_ports_def ports(2) c1)
  ultimately show ?thesis unfolding ports(1) by metis
qed

definition demo_pool_group :: group where
  "demo_pool_group = new_group\<lparr>gr_id := 0, gr_front_proxy_id := 3, gr_profiles := [1, 2, 3, 4, 5, 6]\<rparr>"

definition demo_pool_context :: build_context where
  "demo_pool_context = new_context (demo_hop 9 ''autoselector'' (SelectorOb (new_autoSelector\<lparr>as_gid := 0\<rparr>)))"

theorem dealt_ports_are_used_witness:
  "mset (listened_ports (snd (buildAutoSelectorGroup demo_gen demo_pool_group False demo_pool_context))) = {#jint 20000, jint 20001#}"
proof -
  let ?r = "buildAutoSelectorGroup demo_gen demo_pool_group False demo_pool_context"
  have ok: "cx_error (snd ?r) = []" by code_simp
  have ports: "listened_ports demo_pool_context = []" "length (listened_ports (snd ?r)) = 2" "cx_probes demo_pool_context = 0"
    by code_simp+
  have "probes_succeed demo_gen" by (simp add: probes_succeed_def demo_gen_def)
  moreover have "pr_outbound p \<noteq> None" if "profile_of demo_gen i = Some p" for i p
    using that by (auto simp: demo_gen_def demo_hops_def demo_hop_def split: if_splits)
  moreover have "profile_of demo_gen warpProfileID = None" by code_simp
  ultimately obtain n where n: "mset (listened_ports (snd ?r)) = mset (listened_ports demo_pool_context) +
      mset (map jint (ge_ports demo_gen (cx_probes demo_pool_context) n ''127.0.0.1''))"
    using dealt_ports_are_used [OF surjective_pairing ok] by blast
  have dealt: "ge_ports demo_gen 0 n a = map (\<lambda>i. 20000 + int i) [0..<n]" for n a by (simp add: demo_gen_def)
  have "n = 2" using arg_cong [OF n, of size] ports by (simp add: dealt)
  then show ?thesis using n ports by (simp add: dealt numeral_2_eq_2)
qed

end
