(* ===== verification/TestProps.thy ===== *)
theory TestProps
  imports TestBuild ConfigDemo
begin

text \<open>
  When the validity check of \<^verbatim>\<open>src/configs/generate.cpp\<close> returns. It calls itself on the hops of a
  chain and stops at the first invalid one, so it returns exactly when no endless descent goes through
  hops whose predecessors are all valid.
\<close>

text \<open>
  What the check stands for: an auto selector whose plan has members, a single profile the core takes, a
  chain all of whose members exist and are valid.
\<close>

inductive valid_tree :: "'z config_env_scheme \<Rightarrow> profile \<Rightarrow> bool" for E where
  selector: "pr_type p = ''autoselector'' \<Longrightarrow> pl_error (plan_for E PlanForValidity p) = [] \<Longrightarrow>
    pl_build (plan_for E PlanForValidity p) \<noteq> [] \<Longrightarrow> valid_tree E p"
| single: "pr_type p \<noteq> ''autoselector'' \<Longrightarrow> pr_type p \<noteq> ''chain'' \<Longrightarrow> valid_single E p \<Longrightarrow> valid_tree E p"
| chain: "pr_type p = ''chain'' \<Longrightarrow> Chain p = Some l \<Longrightarrow>
    \<forall>i\<in>set l. \<exists>q. profile_of E i = Some q \<and> valid_tree E q \<Longrightarrow> valid_tree E p"

definition valid_member :: "'z config_env_scheme \<Rightarrow> int \<Rightarrow> bool" where
  "valid_member E i \<longleftrightarrow> (\<exists>q. profile_of E i = Some q \<and> valid_tree E q)"

text \<open>The members of a chain, and those the check goes into: the ones behind valid members only.\<close>

inductive member :: "'z config_env_scheme \<Rightarrow> profile \<Rightarrow> profile \<Rightarrow> bool" for E where
  "pr_type p = ''chain'' \<Longrightarrow> Chain p = Some l \<Longrightarrow> i \<in> set l \<Longrightarrow> profile_of E i = Some q \<Longrightarrow> member E q p"

inductive enters :: "'z config_env_scheme \<Rightarrow> profile \<Rightarrow> profile \<Rightarrow> bool" for E where
  hop: "pr_type p = ''chain'' \<Longrightarrow> Chain p = Some (hs @ i # rest) \<Longrightarrow> profile_of E i = Some q \<Longrightarrow>
    (\<forall>h\<in>set hs. valid_member E h) \<Longrightarrow> enters E q p"

inductive_cases entersE: "enters E q p"

subsection \<open>More depth changes nothing\<close>

lemma all_valid_mono:
  assumes "\<And>p b. v p = Some b \<Longrightarrow> w p = Some b" "all_valid v ps = Some b"
  shows "all_valid w ps = Some b"
  using assms(2)
proof (induction ps)
  case (Cons x ps)
  show ?case
  proof (cases x)
    case None then show ?thesis using Cons.prems by simp
  next
    case (Some p)
    then show ?thesis using Cons assms(1) [of p] by (auto split: option.splits bool.splits)
  qed
qed simp

lemma IsValid_Suc: "IsValid E d p = Some b \<Longrightarrow> IsValid E (Suc d) p = Some b"
proof (induction d arbitrary: p b)
  case (Suc d)
  have "all_valid (IsValid E (Suc d)) ps = Some b'" if "all_valid (IsValid E d) ps = Some b'" for ps b'
    by (rule all_valid_mono [OF Suc.IH that])
  then show ?case using Suc.prems
    by (simp only: IsValid.simps(2) [of E "Suc d" p] IsValid.simps(2) [of E d p] split: if_splits option.splits) simp_all
qed simp

lemma IsValid_mono: "IsValid E d p = Some b \<Longrightarrow> d \<le> d' \<Longrightarrow> IsValid E d' p = Some b"
proof (induction d')
  case (Suc d')
  then show ?case by (cases "d = Suc d'") (auto intro!: IsValid_Suc simp del: IsValid.simps)
qed (simp del: IsValid.simps)

lemma IsValid_unique: "IsValid E d p = Some b \<Longrightarrow> IsValid E d' p = Some b' \<Longrightarrow> b = b'"
  by (metis IsValid_mono linear option.inject)

subsection \<open>What is found valid\<close>

definition found_valid :: "'z config_env_scheme \<Rightarrow> int \<Rightarrow> bool" where
  "found_valid E i \<longleftrightarrow> (\<exists>q d. profile_of E i = Some q \<and> IsValid E d q = Some True)"

lemma all_valid_True:
  "all_valid v (map f l) = Some True \<longleftrightarrow> (\<forall>i\<in>set l. \<exists>q. f i = Some q \<and> v q = Some True)"
proof (induction l)
  case (Cons i l)
  show ?case
  proof (cases "f i")
    case (Some q) then show ?thesis using Cons by (cases "v q") (auto split: bool.splits)
  qed simp
qed simp

lemma valid_found: "IsValid E d p = Some True \<Longrightarrow> valid_tree E p"
proof (induction d arbitrary: p)
  case (Suc d)
  show ?case
  proof (cases "pr_type p = ''chain''")
    case True
    then obtain l where "Chain p = Some l" "all_valid (IsValid E d) (map (profile_of E) l) = Some True"
      using Suc.prems by (auto split: option.splits)
    then show ?thesis using True Suc.IH unfolding all_valid_True by (intro valid_tree.chain [of p l]) blast+
  qed (use Suc.prems in \<open>auto simp: Let_def split: if_splits intro: valid_tree.intros\<close>)
qed simp

lemma found_chain:
  assumes "\<forall>i\<in>set l. \<exists>q d. profile_of E i = Some q \<and> IsValid E d q = Some True"
  shows "\<exists>d. \<forall>i\<in>set l. \<exists>q. profile_of E i = Some q \<and> IsValid E d q = Some True"
  using assms
proof (induction l)
  case (Cons i l)
  then obtain d q d' where "\<forall>i\<in>set l. \<exists>q. profile_of E i = Some q \<and> IsValid E d q = Some True"
    "profile_of E i = Some q" "IsValid E d' q = Some True" by auto
  then have "\<forall>j\<in>set (i # l). \<exists>q. profile_of E j = Some q \<and> IsValid E (max d d') q = Some True"
    by (auto simp del: IsValid.simps intro: IsValid_mono) (metis IsValid_mono max.cobounded1)
  then show ?case by blast
qed simp

lemma found_valid_tree: "valid_tree E p \<Longrightarrow> \<exists>d. IsValid E d p = Some True"
proof (induction rule: valid_tree.induct)
  case (chain p l)
  then have "\<forall>i\<in>set l. \<exists>q d. profile_of E i = Some q \<and> IsValid E d q = Some True" by blast
  then obtain d where "\<forall>i\<in>set l. \<exists>q. profile_of E i = Some q \<and> IsValid E d q = Some True" using found_chain by blast
  then have "IsValid E (Suc d) p = Some True" using chain(1,2) by (simp add: all_valid_True)
  then show ?case by blast
next
  case (selector p)
  then have "IsValid E (Suc 0) p = Some True" by simp
  then show ?case by blast
next
  case (single p)
  then have "IsValid E (Suc 0) p = Some True" by simp
  then show ?case by blast
qed

lemma member_found: "valid_member E i = found_valid E i"
  using valid_found found_valid_tree unfolding valid_member_def found_valid_def by blast

lemma found_valid_here:
  "valid_member E i \<Longrightarrow> \<exists>q. profile_of E i = Some q \<and> (IsValid E d q = None \<or> IsValid E d q = Some True)"
  unfolding member_found found_valid_def by (metis IsValid_unique not_Some_eq)

subsection \<open>Returning and descending\<close>

lemma all_valid_enters:
  assumes "all_valid (IsValid E d) (map (profile_of E) (hs @ i # rest)) = Some b"
    and "\<forall>h\<in>set hs. valid_member E h" and "profile_of E i = Some q"
  shows "\<exists>b. IsValid E d q = Some b"
  using assms(1,2)
proof (induction hs)
  case Nil then show ?case using assms(3) by (auto split: option.splits)
next
  case (Cons h hs)
  then obtain x where "profile_of E h = Some x" "IsValid E d x = None \<or> IsValid E d x = Some True"
    using found_valid_here [of E h d] by auto
  then show ?case using Cons by (auto split: option.splits bool.splits)
qed

lemma returned_ends: "IsValid E d p = Some b \<Longrightarrow> Wellfounded.accp (enters E) p"
proof (induction d arbitrary: p b)
  case (Suc d)
  show ?case
  proof (rule accp.accI)
    fix q assume "enters E q p"
    then obtain hs i rest where "pr_type p = ''chain''" "Chain p = Some (hs @ i # rest)"
      "profile_of E i = Some q" "\<forall>h\<in>set hs. valid_member E h" by (rule entersE)
    then obtain b' where "IsValid E d q = Some b'"
      using all_valid_enters [of E d hs i rest b q] Suc.prems by auto
    then show "Wellfounded.accp (enters E) q" by (rule Suc.IH)
  qed
qed simp

lemma all_valid_returns:
  assumes "\<And>hs i rest q. l = hs @ i # rest \<Longrightarrow> profile_of E i = Some q \<Longrightarrow> \<forall>h\<in>set hs. valid_member E h \<Longrightarrow>
    \<exists>d b. IsValid E d q = Some b"
  shows "\<exists>d b. all_valid (IsValid E d) (map (profile_of E) l) = Some b"
  using assms
proof (induction l)
  case (Cons i l)
  show ?case
  proof (cases "profile_of E i")
    case None then show ?thesis by auto
  next
    case (Some q)
    then obtain d b where d: "IsValid E d q = Some b" using Cons.prems [of "[]" i l q] by auto
    show ?thesis
    proof (cases b)
      case False then have "all_valid (IsValid E d) (map (profile_of E) (i # l)) = Some False" using Some d by simp
      then show ?thesis by blast
    next
      case True
      then have "valid_member E i" using Some d by (auto simp: member_found found_valid_def)
      then have "\<exists>d b. all_valid (IsValid E d) (map (profile_of E) l) = Some b"
        using Cons.prems [of "i # hs" for hs] by (intro Cons.IH) auto
      then obtain d2 b2 where d2: "all_valid (IsValid E d2) (map (profile_of E) l) = Some b2" by blast
      have "all_valid (IsValid E (max d d2)) (map (profile_of E) l) = Some b2"
        by (rule all_valid_mono [OF _ d2]) (auto intro: IsValid_mono)
      then have "all_valid (IsValid E (max d d2)) (map (profile_of E) (i # l)) = Some b2"
        using Some True IsValid_mono [OF d, of "max d d2"] by simp
      then show ?thesis by blast
    qed
  qed
qed auto

lemma descent_returns: "Wellfounded.accp (enters E) p \<Longrightarrow> \<exists>d b. IsValid E d p = Some b"
proof (induction rule: accp.induct)
  case (accI p)
  show ?case
  proof (cases "pr_type p = ''chain'' \<and> Chain p \<noteq> None")
    case True
    then obtain l where l: "pr_type p = ''chain''" "Chain p = Some l" by blast
    have "\<exists>d b. all_valid (IsValid E d) (map (profile_of E) l) = Some b"
      by (rule all_valid_returns) (use accI.IH l in \<open>blast intro: enters.hop\<close>)
    then obtain d b where "all_valid (IsValid E d) (map (profile_of E) l) = Some b" by blast
    then have "IsValid E (Suc d) p = Some b" using l by simp
    then show ?thesis by blast
  next
    case False
    then have "\<exists>b. IsValid E (Suc 0) p = Some b" by (auto simp: Let_def split: if_splits)
    then show ?thesis by blast
  qed
qed

lemma enters_member: "Wellfounded.accp (member E) \<le> Wellfounded.accp (enters E)"
  by (rule accp_subset) (auto elim!: entersE intro!: member.intros)

text \<open>
  C11: The validity check goes into a member of a chain only behind members it has found valid. It
  returns if and only if there is no endless descent of that kind, in particular whenever no chain
  reaches itself through its members; a chain that names itself behind an invalid member is refused,
  one that names itself first is never answered. It says valid exactly of an auto selector whose
  plan has members, a single profile that passes its checks, and a chain whose members all exist and
  are valid. A deeper stack never changes an answer.
\<close>

theorem validity_check_returns:
  "((\<exists>d b. IsValid E d p = Some b) = Wellfounded.accp (enters E) p) \<and>
   Wellfounded.accp (member E) \<le> Wellfounded.accp (enters E) \<and>
   ((\<exists>d. IsValid E d p = Some True) = valid_tree E p) \<and>
   (IsValid E d p = None \<or> IsValid E (d + k) p = IsValid E d p)"
proof (intro conjI)
  show "(\<exists>d b. IsValid E d p = Some b) = Wellfounded.accp (enters E) p"
    using returned_ends descent_returns by blast
  show "Wellfounded.accp (member E) \<le> Wellfounded.accp (enters E)" by (rule enters_member)
  show "(\<exists>d. IsValid E d p = Some True) = valid_tree E p" using valid_found found_valid_tree by blast
  show "IsValid E d p = None \<or> IsValid E (d + k) p = IsValid E d p"
    by (cases "IsValid E d p") (auto intro: IsValid_mono simp del: IsValid.simps)
qed

text \<open>Profile 7 names itself, behind a profile that does not exist or first.\<close>

definition demo_cycle :: "int list \<Rightarrow> profile" where
  "demo_cycle l = demo_hop 7 ''chain'' (ChainOb l)"

abbreviation demo_test_env :: "int list \<Rightarrow> config_env" where
  "demo_test_env l \<equiv> demo_config\<lparr>ro_profile := [7 \<mapsto> demo_cycle l]\<rparr>"

theorem validity_check_returns_witness:
  "Wellfounded.accp (enters (demo_test_env [99, 7])) (demo_cycle [99, 7]) \<and>
   (\<forall>d. IsValid (demo_test_env [7]) d (demo_cycle [7]) = None)"
proof -
  have "IsValid (demo_test_env [99, 7]) 1 (demo_cycle [99, 7]) = Some False"
    by (simp add: demo_cycle_def demo_hop_def Chain_def)
  moreover have "IsValid (demo_test_env [7]) d (demo_cycle [7]) = None" for d
    by (induction d) (simp_all add: demo_cycle_def demo_hop_def Chain_def)
  ultimately show ?thesis using validity_check_returns by blast
qed

end
