(* ===== verification/OtpCodec.thy ===== *)
theory OtpCodec
  imports Prelude
begin

text \<open>
  The byte-level codecs of \<^verbatim>\<open>src/global/OTP.cpp\<close>: base32, and the subset of the protobuf wire
  format in which Google Authenticator's migration links are written. Buffers are kept at the
  width the code gives them (\<^verbatim>\<open>quint32\<close>, \<^verbatim>\<open>quint64\<close>), so shifts drop bits as they do there. The
  main results are that both codecs are lossless and that every read makes progress.
\<close>

unbundle bit_operations_syntax

subsection \<open>The bits of a word, most significant first\<close>

fun nbits :: "nat \<Rightarrow> 'a::len word \<Rightarrow> bool list" where
  "nbits 0 w = []"
| "nbits (Suc k) w = bit w k # nbits k w"

lemma length_nbits [simp]: "length (nbits k w) = k"
  by (induction k) auto

lemma nbits_split: "nbits (k + j) w = nbits k (drop_bit j w) @ nbits j w"
  by (induction k) (simp_all add: bit_drop_bit_eq add.commute)

lemma nbits_cong: "(\<And>i. i < k \<Longrightarrow> bit a i = bit b i) \<Longrightarrow> nbits k a = nbits k b"
  by (induction k) auto

lemma nbits_bit: "nbits k a = nbits k b \<Longrightarrow> i < k \<Longrightarrow> bit a i = bit b i"
  by (induction k) (auto simp: less_Suc_eq)

lemma nbits_inject: "nbits LENGTH('a) (a::'a::len word) = nbits LENGTH('a) b \<Longrightarrow> a = b"
  by (rule bit_word_eqI) (rule nbits_bit)

lemma nbits_zero: "nbits k 0 = replicate k False"
  by (induction k) auto

text \<open>Shifting a value below \<open>2 ^ j\<close> into a buffer appends its \<open>j\<close> bits.\<close>

lemma nbits_push:
  fixes w :: u32 and v :: "'a::len word"
  assumes "k + j \<le> 32" and "j \<le> LENGTH('a)" and "\<And>i. j \<le> i \<Longrightarrow> \<not> bit v i"
  shows "nbits (k + j) (push_bit j w OR ucast v) = nbits k w @ nbits j v"
proof -
  have "nbits k (drop_bit j (push_bit j w OR ucast v)) = nbits k w"
    using assms by (intro nbits_cong) (auto simp: bit_simps)
  moreover have "nbits j (push_bit j w OR ucast v) = nbits j v"
    using assms by (intro nbits_cong) (auto simp: bit_simps)
  ultimately show ?thesis by (simp only: nbits_split)
qed

subsection \<open>Base32\<close>

definition BASE32_ALPHABET :: string where
  "BASE32_ALPHABET = ''ABCDEFGHIJKLMNOPQRSTUVWXYZ234567''"

definition base32_separator :: "char \<Rightarrow> bool" where
  "base32_separator c \<longleftrightarrow> c \<in> set [CHR '' '', CHR ''-'', CHR ''_'', CHR 0x09, CHR 0x0D, CHR 0x0A, CHR ''='']"

definition base32_value :: "char \<Rightarrow> u32 option" where
  "base32_value c = (let n = of_char c :: nat in
     if 65 \<le> n \<and> n \<le> 90 then Some (word_of_nat (n - 65))
     else if 97 \<le> n \<and> n \<le> 122 then Some (word_of_nat (n - 97))
     else if 50 \<le> n \<and> n \<le> 55 then Some (word_of_nat (n - 50 + 26))
     else None)"

fun Base32Decode_loop :: "u32 \<Rightarrow> nat \<Rightarrow> bytes \<Rightarrow> string \<Rightarrow> bytes option" where
  "Base32Decode_loop buffer bitsLeft out [] = Some out"
| "Base32Decode_loop buffer bitsLeft out (c # cs) =
     (if base32_separator c then Base32Decode_loop buffer bitsLeft out cs
      else case base32_value c of
        None \<Rightarrow> None
      | Some v \<Rightarrow>
          let buffer = push_bit 5 buffer OR v; bitsLeft = bitsLeft + 5 in
          if 8 \<le> bitsLeft
          then Base32Decode_loop buffer (bitsLeft - 8)
                 (out @ [ucast (drop_bit (bitsLeft - 8) buffer AND 0xFF)]) cs
          else Base32Decode_loop buffer bitsLeft out cs)"

text \<open>\<open>None\<close> is the empty result with \<^verbatim>\<open>*ok\<close> left false.\<close>

definition Base32Decode :: "string \<Rightarrow> bytes option" where
  "Base32Decode input = Base32Decode_loop 0 0 [] input"

definition base32_char :: "u32 \<Rightarrow> char" where
  "base32_char w = BASE32_ALPHABET ! unat (w AND 0x1F)"

fun Base32Encode_emit :: "u32 \<Rightarrow> nat \<Rightarrow> string \<Rightarrow> nat \<times> string" where
  "Base32Encode_emit buffer bitsLeft out =
     (if 5 \<le> bitsLeft
      then Base32Encode_emit buffer (bitsLeft - 5) (out @ [base32_char (drop_bit (bitsLeft - 5) buffer)])
      else (bitsLeft, out))"

declare Base32Encode_emit.simps [simp del]

fun Base32Encode_loop :: "u32 \<Rightarrow> nat \<Rightarrow> string \<Rightarrow> bytes \<Rightarrow> string" where
  "Base32Encode_loop buffer bitsLeft out [] =
     (if 0 < bitsLeft then out @ [base32_char (push_bit (5 - bitsLeft) buffer)] else out)"
| "Base32Encode_loop buffer bitsLeft out (c # cs) =
     (let buffer = push_bit 8 buffer OR ucast c;
          (bitsLeft, out) = Base32Encode_emit buffer (bitsLeft + 8) out
      in Base32Encode_loop buffer bitsLeft out cs)"

definition Base32Encode :: "bytes \<Rightarrow> string" where
  "Base32Encode input = Base32Encode_loop 0 0 [] input"

definition NormalizeSecret :: "string \<Rightarrow> string" where
  "NormalizeSecret secret =
     (case Base32Decode secret of
        None \<Rightarrow> []
      | Some decoded \<Rightarrow> if decoded = [] then [] else Base32Encode decoded)"

subsubsection \<open>Decoding reads five bits per character\<close>

text \<open>The alphabet and the decoder's character classes are inverse to each other.\<close>

lemma base32_alphabet_decodes:
  "k < 32 \<Longrightarrow> \<not> base32_separator (BASE32_ALPHABET ! k) \<and>
     base32_value (BASE32_ALPHABET ! k) = Some (word_of_nat k)"
proof -
  have "list_all (\<lambda>k. \<not> base32_separator (BASE32_ALPHABET ! k) \<and>
     base32_value (BASE32_ALPHABET ! k) = Some (word_of_nat k)) [0..<32]"
    by code_simp
  then show "k < 32 \<Longrightarrow> ?thesis" by (simp add: list_all_iff)
qed

lemma mask_5: "(0x1F :: u32) = mask 5" and mask_8: "(0xFF :: 'a::len word) = mask 8"
  by (simp_all add: mask_eq_exp_minus_1)

lemma low5_bound: "unat ((w :: u32) AND 0x1F) < 32"
proof -
  have "unat (w AND 0x1F) \<le> unat (0x1F :: u32)"
    by (rule word_and_le1 [THEN word_le_nat_alt [THEN iffD1]])
  then show ?thesis by simp
qed

lemma base32_char_decodes:
  "\<not> base32_separator (base32_char w)" "base32_value (base32_char w) = Some (w AND 0x1F)"
  using base32_alphabet_decodes [OF low5_bound, of w] by (simp_all add: base32_char_def)

lemma bits_low5: "nbits 5 (w AND 0x1F) = nbits 5 (w :: u32)"
  by (rule nbits_cong) (simp add: mask_5 bit_simps)

lemma bits_low8: "nbits 8 (ucast ((w :: u32) AND 0xFF) :: 8 word) = nbits 8 w"
  by (rule nbits_cong) (simp add: mask_8 bit_simps)

lemma nbits_push5:
  "k \<le> 27 \<Longrightarrow> nbits (k + 5) (push_bit 5 b OR (w AND 0x1F)) = nbits k (b :: u32) @ nbits 5 w"
  using nbits_push [of k 5 "w AND 0x1F" b] by (simp add: mask_5 bit_simps bits_low5 [unfolded mask_5])

lemma nbits_push8: "k \<le> 24 \<Longrightarrow> nbits (k + 8) (push_bit 8 b OR ucast c) = nbits k (b :: u32) @ nbits 8 (c :: 8 word)"
proof (rule nbits_push)
  show "\<not> bit c i" if "8 \<le> i" for i
    using that bit_imp_le_length [of c i] by auto
qed simp_all

text \<open>
  If the pending bits of the buffer followed by those of the remaining characters are the bits
  of \<open>bs\<close> and less than a byte of padding, the decoder returns \<open>bs\<close>.
\<close>

lemma Base32Decode_loop_bits:
  assumes "nbits n buf @ concat (map (nbits 5) ws) = concat (map (nbits 8) bs) @ rest"
    and "length rest < 8" and "n < 8"
  shows "Base32Decode_loop buf n out (map base32_char ws) = Some (out @ bs)"
  using assms
proof (induction ws arbitrary: buf n out bs)
  case Nil
  from arg_cong [OF Nil.prems(1), of length] Nil.prems(3) have "bs = []"
    by (cases bs) auto
  then show ?case by simp
next
  case (Cons w ws)
  define u where "u = push_bit 5 buf OR (w AND 0x1F)"
  have bits: "nbits (n + 5) u @ concat (map (nbits 5) ws) = concat (map (nbits 8) bs) @ rest"
    using Cons.prems nbits_push5 [of n buf w] by (simp add: u_def)
  show ?case
  proof (cases "8 \<le> n + 5")
    case True
    from arg_cong [OF bits, of length] True Cons.prems(2)
    obtain b bs' where bs: "bs = b # bs'" by (cases bs) auto
    have "nbits (n + 5) u = nbits 8 (drop_bit (n - 3) u) @ nbits (n - 3) u"
      using nbits_split [of 8 "n - 3" u] True by (simp add: add.commute)
    then have eq: "nbits 8 (drop_bit (n - 3) u) = nbits 8 b"
      and rest: "nbits (n - 3) u @ concat (map (nbits 5) ws) = concat (map (nbits 8) bs') @ rest"
      using bits bs by simp_all
    have "ucast (drop_bit (n - 3) u AND 0xFF) = b"
      using eq bits_low8 [of "drop_bit (n - 3) u"] by (intro nbits_inject) simp
    with Cons.IH [OF rest Cons.prems(2), of "out @ [b]"] Cons.prems(3) True bs
    show ?thesis by (simp add: base32_char_decodes Let_def u_def)
  next
    case False
    with Cons.IH [OF bits Cons.prems(2), of out] show ?thesis
      by (simp add: base32_char_decodes Let_def u_def)
  qed
qed

subsubsection \<open>Encoding writes five bits per character\<close>

lemma Base32Encode_emit_bits:
  "\<exists>ws. Base32Encode_emit buf n out = (n mod 5, out @ map base32_char ws) \<and>
        nbits n buf = concat (map (nbits 5) ws) @ nbits (n mod 5) buf"
proof (induction buf n out rule: Base32Encode_emit.induct)
  case (1 buf n out)
  show ?case
  proof (cases "5 \<le> n")
    case True
    from "1.IH" [OF True] obtain ws where
      ws: "Base32Encode_emit buf (n - 5) (out @ [base32_char (drop_bit (n - 5) buf)]) =
             (n mod 5, (out @ [base32_char (drop_bit (n - 5) buf)]) @ map base32_char ws)"
        "nbits (n - 5) buf = concat (map (nbits 5) ws) @ nbits (n mod 5) buf"
      using True by (auto simp: le_mod_geq)
    have "nbits n buf = nbits 5 (drop_bit (n - 5) buf) @ nbits (n - 5) buf"
      using nbits_split [of 5 "n - 5" buf] True by simp
    with ws True show ?thesis
      by (intro exI [of _ "drop_bit (n - 5) buf # ws"]) (simp add: Base32Encode_emit.simps [of buf n])
  next
    case False
    then show ?thesis
      by (intro exI [of _ "[]"]) (simp add: Base32Encode_emit.simps [of buf n])
  qed
qed

lemma Base32Encode_loop_bits:
  assumes "n < 5"
  shows "\<exists>ws p. Base32Encode_loop buf n out bs = out @ map base32_char ws \<and> p < 5 \<and>
     concat (map (nbits 5) ws) = nbits n buf @ concat (map (nbits 8) bs) @ replicate p False"
  using assms
proof (induction bs arbitrary: buf n out)
  case Nil
  show ?case
  proof (cases n)
    case 0
    then show ?thesis by (intro exI [of _ "[]"] exI [of _ 0]) simp
  next
    case (Suc m)
    have "nbits (n + (5 - n)) (push_bit (5 - n) buf) = nbits n buf @ replicate (5 - n) False"
      using Nil nbits_push [of n "5 - n" "0 :: u32" buf] by (simp add: nbits_zero)
    with Suc Nil show ?thesis
      by (intro exI [of _ "[push_bit (5 - n) buf]"] exI [of _ "5 - n"]) simp
  qed
next
  case (Cons b bs)
  let ?buf = "push_bit 8 buf OR ucast b"
  obtain us where us: "Base32Encode_emit ?buf (n + 8) out = ((n + 8) mod 5, out @ map base32_char us)"
      "nbits (n + 8) ?buf = concat (map (nbits 5) us) @ nbits ((n + 8) mod 5) ?buf"
    using Base32Encode_emit_bits by blast
  obtain ws p where ws: "Base32Encode_loop ?buf ((n + 8) mod 5) (out @ map base32_char us) bs =
        (out @ map base32_char us) @ map base32_char ws" "p < 5"
      "concat (map (nbits 5) ws) =
         nbits ((n + 8) mod 5) ?buf @ concat (map (nbits 8) bs) @ replicate p False"
    using Cons.IH [of "(n + 8) mod 5"] by (metis mod_less_divisor zero_less_numeral)
  have "nbits (n + 8) ?buf = nbits n buf @ nbits 8 b"
    using Cons.prems by (intro nbits_push8) simp
  with us ws show ?case
    by (intro exI [of _ "us @ ws"] exI [of _ p]) simp
qed

lemma Base32_roundtrip: "Base32Decode (Base32Encode bs) = Some bs"
proof -
  obtain ws p where "Base32Encode bs = map base32_char ws" "p < 5"
      "concat (map (nbits 5) ws) = concat (map (nbits 8) bs) @ replicate p False"
    using Base32Encode_loop_bits [of 0 0 "[]" bs] by (auto simp: Base32Encode_def)
  then show ?thesis
    using Base32Decode_loop_bits [of 0 0 ws bs "replicate p False" "[]"]
    by (simp add: Base32Decode_def)
qed

lemma Base32Encode_nonempty: "bs \<noteq> [] \<Longrightarrow> Base32Encode bs \<noteq> []"
  using Base32_roundtrip [of bs] by (auto simp: Base32Decode_def)

lemma NormalizeSecret_decodes:
  "Base32Decode s = Some bs \<Longrightarrow> bs \<noteq> [] \<Longrightarrow> Base32Decode (NormalizeSecret s) = Some bs"
  by (simp add: NormalizeSecret_def Base32_roundtrip)

lemma NormalizeSecret_encode: "bs \<noteq> [] \<Longrightarrow> NormalizeSecret (Base32Encode bs) = Base32Encode bs"
  by (simp add: NormalizeSecret_def Base32_roundtrip)

lemma NormalizeSecret_idem: "NormalizeSecret (NormalizeSecret s) = NormalizeSecret s"
proof (cases "NormalizeSecret s = []")
  case True
  then show ?thesis by (simp add: NormalizeSecret_def [of "[]"] Base32Decode_def)
next
  case False
  then obtain bs where "bs \<noteq> []" "NormalizeSecret s = Base32Encode bs"
    by (auto simp: NormalizeSecret_def split: option.splits if_splits)
  then show ?thesis by (simp add: NormalizeSecret_encode)
qed

lemma NormalizeSecret_nonemptyE:
  assumes "NormalizeSecret s \<noteq> []"
  obtains bs where "Base32Decode s = Some bs" "bs \<noteq> []" "NormalizeSecret s = Base32Encode bs"
  using assms by (auto simp: NormalizeSecret_def split: option.splits if_splits)

subsection \<open>Protobuf wire format\<close>

function pbWriteVarint :: "u64 \<Rightarrow> bytes" where
  "pbWriteVarint v =
     (let byte = ucast (v AND 0x7F) :: 8 word; v' = drop_bit 7 v in
      if v' \<noteq> 0 then (byte OR 0x80) # pbWriteVarint v' else [byte])"
  by pat_completeness auto
termination
proof (relation "measure unat")
  fix v v' :: u64 and byte :: "8 word"
  assume v': "v' = drop_bit 7 v" "v' \<noteq> 0"
  then have "0 < unat v" by (auto simp: unsigned_eq_0_iff intro: Nat.gr0I)
  moreover have "unat v' = unat v div 128"
    using v' by (simp add: drop_bit_eq_div unat_div)
  ultimately show "(v', v) \<in> measure unat" by simp
qed simp

declare pbWriteVarint.simps [simp del]

text \<open>Writers append to the output: the model returns what is appended.\<close>

definition pbWriteTag :: "32 word \<Rightarrow> u64 \<Rightarrow> bytes" where
  "pbWriteTag field wireType = pbWriteVarint (push_bit 3 (scast field) OR wireType)"

definition pbWriteBytes :: "32 word \<Rightarrow> bytes \<Rightarrow> bytes" where
  "pbWriteBytes field val =
     pbWriteTag field 2 @ pbWriteVarint (word_of_nat (length val)) @ val"

definition pbWriteUint :: "32 word \<Rightarrow> u64 \<Rightarrow> bytes" where
  "pbWriteUint field val = pbWriteTag field 0 @ pbWriteVarint val"

function pbReadVarint_loop :: "bytes \<Rightarrow> nat \<Rightarrow> u64 \<Rightarrow> nat \<Rightarrow> (u64 \<times> nat) option" where
  "pbReadVarint_loop inp pos val shift =
     (if pos < length inp
      then let byte = inp ! pos;
               val = val OR push_bit shift (ucast (byte AND 0x7F)) in
           if byte AND 0x80 = 0 then Some (val, pos + 1)
           else if 63 < shift + 7 then None
           else pbReadVarint_loop inp (pos + 1) val (shift + 7)
      else None)"
  by pat_completeness auto
termination by (relation "measure (\<lambda>(inp, pos, _). length inp - pos)") auto

declare pbReadVarint_loop.simps [simp del]

text \<open>\<open>None\<close> is the result \<^verbatim>\<open>false\<close>; otherwise the value and the advanced position.\<close>

definition pbReadVarint :: "bytes \<Rightarrow> nat \<Rightarrow> (u64 \<times> nat) option" where
  "pbReadVarint inp pos = pbReadVarint_loop inp pos 0 0"

record pb_field =
  pb_no :: "32 word"
  pb_wire :: u64
  pb_varint :: u64
  pb_bytes :: bytes

text \<open>
  \<^verbatim>\<open>in.size() - pos\<close> is a non-negative size, so its cast to \<^verbatim>\<open>quint64\<close> is exact. The
  position is an \<^verbatim>\<open>int\<close> and the length is cut to one when it is used; in a buffer of \<open>2 ^ 31\<close>
  bytes or more the position could overflow, which is undefined: what is proved of the reader asks for a
  smaller one.
\<close>

definition int_of_len :: "u64 \<Rightarrow> nat" where
  "int_of_len len = nat (sint (ucast len :: 32 word))"

lemma sint_cut: "sint (ucast (len :: u64) :: 32 word) = signed_take_bit 31 (uint len)"
  by transfer (simp add: signed_take_bit_take_bit)

lemma int_of_len_le: "int_of_len len \<le> unat len"
proof -
  have "signed_take_bit 31 (uint len) \<le> take_bit 32 (uint len)"
    unfolding signed_take_bit_eq_take_bit_minus [of 31 "uint len"] by simp
  also have "\<dots> \<le> uint len" by (rule take_bit_int_less_eq_self_iff [THEN iffD2]) simp
  finally show ?thesis unfolding int_of_len_def sint_cut unat_eq_nat_uint by (rule nat_mono)
qed

lemma int_of_len_fits: "\<not> n - b < unat len \<Longrightarrow> b \<le> n \<Longrightarrow> b + int_of_len len \<le> n"
  using int_of_len_le [of len] by linarith

lemma int_of_len_small: "n < 2 ^ 31 \<Longrightarrow> int_of_len (word_of_nat n) = n"
  by (simp add: int_of_len_def sint_cut uint_nat unat_of_nat signed_take_bit_int_eq_self)

definition pbReadField :: "bytes \<Rightarrow> nat \<Rightarrow> (pb_field \<times> nat) option" where
  "pbReadField inp pos =
     (case pbReadVarint inp pos of
        None \<Rightarrow> None
      | Some (tag, pos) \<Rightarrow>
          let f = \<lparr>pb_no = ucast (drop_bit 3 tag), pb_wire = tag AND 0x07,
                   pb_varint = 0, pb_bytes = []\<rparr> in
          if pb_wire f = 0 then
            (case pbReadVarint inp pos of
               None \<Rightarrow> None
             | Some (v, pos) \<Rightarrow> Some (f\<lparr>pb_varint := v\<rparr>, pos))
          else if pb_wire f = 1 then
            (if length inp < pos + 8 then None else Some (f, pos + 8))
          else if pb_wire f = 2 then
            (case pbReadVarint inp pos of
               None \<Rightarrow> None
             | Some (len, pos) \<Rightarrow>
                 if length inp - pos < unat len then None
                 else Some (f\<lparr>pb_bytes := take (int_of_len len) (drop pos inp)\<rparr>, pos + int_of_len len))
          else if pb_wire f = 5 then
            (if length inp < pos + 4 then None else Some (f, pos + 4))
          else None)"

subsubsection \<open>Varints\<close>

lemma pbWriteVarint_nonempty [simp]: "pbWriteVarint v \<noteq> []"
  by (subst pbWriteVarint.simps) (simp add: Let_def)

lemma mask_7: "(0x7F :: 'a::len word) = mask 7"
  by (simp add: mask_eq_exp_minus_1)

lemma continuation_bit:
  fixes w :: u64
  shows "(ucast (w AND 0x7F) OR (0x80 :: 8 word)) AND 0x80 \<noteq> 0"
    and "ucast (w AND 0x7F) AND (0x80 :: 8 word) = 0"
    and "(ucast (w AND 0x7F) OR (0x80 :: 8 word)) AND 0x7F = ucast (w AND 0x7F)"
    and "ucast (w AND 0x7F) AND (0x7F :: 8 word) = ucast (w AND 0x7F)"
proof -
  have e: "(0x80 :: 8 word) = push_bit 7 1" by simp
  show "(ucast (w AND 0x7F) OR (0x80 :: 8 word)) AND 0x80 \<noteq> 0"
  proof
    assume a: "(ucast (w AND 0x7F) OR (0x80 :: 8 word)) AND 0x80 = 0"
    have "bit ((ucast (w AND 0x7F) OR (0x80 :: 8 word)) AND 0x80) 7"
      by (simp only: e bit_simps) simp
    with a show False by simp
  qed
  show "ucast (w AND 0x7F) AND (0x80 :: 8 word) = 0"
    by (rule bit_word_eqI) (simp only: e mask_7 bit_simps, auto)
  show "(ucast (w AND 0x7F) OR (0x80 :: 8 word)) AND 0x7F = ucast (w AND 0x7F)"
    by (rule bit_word_eqI) (simp only: e mask_7 bit_simps, auto)
  show "ucast (w AND 0x7F) AND (0x7F :: 8 word) = ucast (w AND 0x7F)"
    by (rule bit_word_eqI) (simp only: mask_7 bit_simps, auto)
qed

lemma ucast_low7: "ucast (ucast ((w :: u64) AND 0x7F) :: 8 word) = w AND 0x7F"
  by (rule bit_word_eqI) (simp only: mask_7 bit_simps, auto)

lemma low7_join: "push_bit s ((w :: u64) AND 0x7F) OR push_bit (s + 7) (drop_bit 7 w) = push_bit s w"
proof (rule bit_word_eqI)
  fix n
  assume "n < LENGTH(64)"
  show "bit (push_bit s (w AND 0x7F) OR push_bit (s + 7) (drop_bit 7 w)) n = bit (push_bit s w) n"
  proof (cases "n < s + 7")
    case True
    then show ?thesis by (simp only: mask_7 bit_simps) auto
  next
    case False
    then have "7 + (n - (s + 7)) = n - s" by simp
    with False show ?thesis by (simp only: mask_7 bit_simps) auto
  qed
qed

lemma low7_only: "drop_bit 7 (w :: u64) = 0 \<Longrightarrow> w AND 0x7F = w"
  by (simp only: mask_7 take_bit_eq_mask [symmetric])
    (metis add.right_neutral bits_ident push_bit_of_0 or.right_neutral add_0)

text \<open>
  The reader, started at shift \<open>s\<close> on the bytes of \<open>v\<close>, adds \<open>v\<close> shifted by \<open>s\<close>, provided the shifted
  value still fits 64 bits: the reader's own limit on the shift is never hit.
\<close>

lemma pbReadVarint_loop_write:
  assumes "drop_bit (64 - s) v = 0" and "s < 64"
  shows "pbReadVarint_loop (xs @ pbWriteVarint v @ ys) (length xs) acc s =
    Some (acc OR push_bit s v, length xs + length (pbWriteVarint v))"
  using assms
proof (induction v arbitrary: xs acc s rule: pbWriteVarint.induct)
  case (1 v)
  define b where "b = (ucast (v AND 0x7F) :: 8 word)"
  have b: "b AND 0x80 = 0" "(b OR 0x80) AND 0x80 \<noteq> 0"
    "ucast (b AND 0x7F) = v AND 0x7F" "ucast ((b OR 0x80) AND 0x7F) = v AND 0x7F"
    by (simp_all only: b_def continuation_bit ucast_low7) simp_all
  show ?case
  proof (cases "drop_bit 7 v = 0")
    case True
    then have w: "pbWriteVarint v = [b]"
      by (subst pbWriteVarint.simps) (simp add: b_def Let_def)
    show ?thesis
      unfolding w using True
      by (subst pbReadVarint_loop.simps)
        (simp add: b low7_only Let_def nth_append)
  next
    case False
    then have w: "pbWriteVarint v = (b OR 0x80) # pbWriteVarint (drop_bit 7 v)"
      by (subst pbWriteVarint.simps) (simp add: b_def Let_def)
    have "\<not> 64 - s \<le> 7"
    proof
      assume "64 - s \<le> 7"
      then have "drop_bit (7 - (64 - s)) (drop_bit (64 - s) v) = drop_bit 7 v"
        by (simp add: drop_bit_drop_bit)
      with False "1.prems"(1) show False by simp
    qed
    then have s: "s + 7 < 64" and "64 - s = 64 - (s + 7) + 7" by auto
    then have d: "drop_bit (64 - (s + 7)) (drop_bit 7 v) = 0"
      using "1.prems"(1) by (simp add: drop_bit_drop_bit)
    have IH: "pbReadVarint_loop ((xs @ [b OR 0x80]) @ pbWriteVarint (drop_bit 7 v) @ ys)
        (length (xs @ [b OR 0x80])) (acc OR push_bit s (v AND 0x7F)) (s + 7) =
      Some ((acc OR push_bit s (v AND 0x7F)) OR push_bit (s + 7) (drop_bit 7 v),
        length (xs @ [b OR 0x80]) + length (pbWriteVarint (drop_bit 7 v)))"
      by (rule "1.IH") (use False d s in \<open>simp_all\<close>)
    show ?thesis
      unfolding w using IH s
      by (subst pbReadVarint_loop.simps)
        (simp add: b low7_join [unfolded push_bit_and] Let_def nth_append or.assoc)
  qed
qed

lemma pbReadVarint_write:
  "pbReadVarint (xs @ pbWriteVarint v @ ys) (length xs) =
     Some (v, length xs + length (pbWriteVarint v))"
proof -
  have "drop_bit 64 v = 0" by (rule bit_word_eqI) (simp add: bit_simps)
  then show ?thesis by (simp add: pbReadVarint_def pbReadVarint_loop_write)
qed

lemma pbReadVarint_loop_progress:
  "pbReadVarint_loop inp pos acc s = Some (v, pos') \<Longrightarrow> pos < pos' \<and> pos' \<le> length inp"
proof (induction inp pos acc s rule: pbReadVarint_loop.induct)
  case (1 inp pos acc s)
  from "1.prems" have pos: "pos < length inp"
    by (subst (asm) pbReadVarint_loop.simps) (simp split: if_splits)
  show ?case
  proof (cases "inp ! pos AND 0x80 = 0")
    case True
    with "1.prems" pos show ?thesis
      by (subst (asm) pbReadVarint_loop.simps) (simp add: Let_def)
  next
    case False
    with "1.prems" pos have s: "\<not> 63 < s + 7"
      and "pbReadVarint_loop inp (pos + 1) (acc OR push_bit s (ucast (inp ! pos AND 0x7F))) (s + 7) =
           Some (v, pos')"
      by (simp_all add: pbReadVarint_loop.simps [of inp pos acc s] Let_def split: if_splits)
    then have "pos + 1 < pos' \<and> pos' \<le> length inp"
      by (intro "1.IH" [OF pos refl refl False s])
    then show ?thesis by simp
  qed
qed

lemma pbReadVarint_progress:
  "pbReadVarint inp pos = Some (v, pos') \<Longrightarrow> pos < pos' \<and> pos' \<le> length inp"
  unfolding pbReadVarint_def by (rule pbReadVarint_loop_progress)

lemma pbReadField_progress:
  assumes "pbReadField inp pos = Some (f, pos')"
  shows "pos < pos' \<and> pos' \<le> length inp"
proof -
  obtain tag p where p: "pbReadVarint inp pos = Some (tag, p)"
    using assms by (auto simp: pbReadField_def split: option.splits)
  have pp: "pos < p" "p \<le> length inp" using pbReadVarint_progress [OF p] by auto
  from assms p pp show ?thesis
    by (auto simp: pbReadField_def Let_def split: option.splits if_splits
        dest!: pbReadVarint_progress intro: int_of_len_fits)
qed

subsubsection \<open>Fields\<close>

text \<open>The items the code writes, and how the reader reports each of them.\<close>

datatype pb_item = PbUint "32 word" u64 | PbBytes "32 word" bytes

fun pb_write :: "pb_item \<Rightarrow> bytes" where
  "pb_write (PbUint n v) = pbWriteUint n v"
| "pb_write (PbBytes n bs) = pbWriteBytes n bs"

fun pb_view :: "pb_item \<Rightarrow> pb_field" where
  "pb_view (PbUint n v) = \<lparr>pb_no = n, pb_wire = 0, pb_varint = v, pb_bytes = []\<rparr>"
| "pb_view (PbBytes n bs) = \<lparr>pb_no = n, pb_wire = 2, pb_varint = 0, pb_bytes = bs\<rparr>"

text \<open>The reader's positions are \<^verbatim>\<open>int\<close>.\<close>

fun pb_ok :: "pb_item \<Rightarrow> bool" where
  "pb_ok (PbUint n v) = True"
| "pb_ok (PbBytes n bs) = (length bs < 2 ^ 31)"

lemma tag_fields:
  fixes n :: "32 word" and w :: u64
  assumes "w AND 0x07 = w"
  shows "ucast (drop_bit 3 (push_bit 3 (scast n) OR w)) = n"
    and "(push_bit 3 (scast n) OR w) AND 0x07 = w"
proof -
  have m: "(0x07 :: u64) = mask 3" by (simp add: mask_eq_exp_minus_1)
  have low: "\<not> bit w i" if "3 \<le> i" for i
  proof -
    have "bit w i = bit (w AND mask 3) i" using assms m by simp
    with that show ?thesis by (simp add: bit_simps)
  qed
  show "ucast (drop_bit 3 (push_bit 3 (scast n) OR w)) = n"
    by (rule bit_word_eqI) (auto simp: bit_simps low)
  show "(push_bit 3 (scast n) OR w) AND 0x07 = w"
  proof (rule bit_word_eqI)
    fix i
    show "bit ((push_bit 3 (scast n) OR w) AND 0x07) i = bit w i"
      using low [of i] by (cases "i < 3") (auto simp: m bit_simps)
  qed
qed

lemma pbReadField_write:
  assumes "pb_ok x"
  shows "pbReadField (xs @ pb_write x @ ys) (length xs) =
           Some (pb_view x, length xs + length (pb_write x))"
proof (cases x)
  case (PbUint n v)
  let ?t = "pbWriteTag n 0"
  have "pbReadVarint (xs @ ?t @ pbWriteVarint v @ ys) (length xs) =
      Some (push_bit 3 (scast n) OR 0, length xs + length ?t)"
    unfolding pbWriteTag_def by (rule pbReadVarint_write)
  moreover have "pbReadVarint ((xs @ ?t) @ pbWriteVarint v @ ys) (length (xs @ ?t)) =
      Some (v, length (xs @ ?t) + length (pbWriteVarint v))"
    by (rule pbReadVarint_write)
  ultimately show ?thesis
    using PbUint tag_fields [of 0 n] by (simp add: pbReadField_def pbWriteUint_def)
next
  case (PbBytes n bs)
  let ?t = "pbWriteTag n 2" and ?l = "pbWriteVarint (word_of_nat (length bs))"
  have 1: "pbReadVarint (xs @ ?t @ ?l @ bs @ ys) (length xs) =
      Some (push_bit 3 (scast n) OR 2, length xs + length ?t)"
    unfolding pbWriteTag_def by (rule pbReadVarint_write)
  have 2: "pbReadVarint ((xs @ ?t) @ ?l @ bs @ ys) (length (xs @ ?t)) =
      Some (word_of_nat (length bs), length (xs @ ?t) + length ?l)"
    by (rule pbReadVarint_write)
  have len: "unat (word_of_nat (length bs) :: u64) = length bs"
    using assms PbBytes by (simp add: unat_of_nat)
  have int: "int_of_len (word_of_nat (length bs)) = length bs"
    using assms PbBytes by (simp add: int_of_len_small)
  show ?thesis
    using 1 2 len int PbBytes tag_fields [of 2 n] by (simp add: pbReadField_def pbWriteBytes_def)
qed

lemma pb_write_nonempty: "pb_write x \<noteq> []"
  by (cases x) (simp_all add: pbWriteUint_def pbWriteBytes_def)

text \<open>
  A self-delimiting codec: written anywhere in a buffer, a value is read back from its
  position, and the reader stops right behind it. Both layers of the wire format are one.
\<close>

locale wire_codec =
  fixes ok :: "'v \<Rightarrow> bool"
    and enc :: "'v \<Rightarrow> bytes"
    and dec :: "bytes \<Rightarrow> nat \<Rightarrow> ('r \<times> nat) option"
    and view :: "'v \<Rightarrow> 'r"
  assumes dec_enc:
      "ok v \<Longrightarrow> dec (xs @ enc v @ ys) (length xs) = Some (view v, length xs + length (enc v))"
    and dec_progress: "dec inp pos = Some (r, pos') \<Longrightarrow> pos < pos' \<and> pos' \<le> length inp"
begin

lemma enc_nonempty: "ok v \<Longrightarrow> enc v \<noteq> []"
  using dec_enc [of v "[]" "[]"] dec_progress by fastforce

lemma dec_at:
  assumes "vs = us @ v # ws" and "list_all ok vs"
  shows "dec (xs @ concat (map enc vs) @ ys) (length xs + length (concat (map enc us))) =
    Some (view v, length xs + length (concat (map enc (us @ [v]))))"
  using assms dec_enc [of v "xs @ concat (map enc us)" "concat (map enc ws) @ ys"] by simp

lemma dec_end: "dec inp (length inp) = None"
proof (cases "dec inp (length inp)")
  case (Some r)
  then show ?thesis using dec_progress [of inp "length inp"] by (cases r) fastforce
qed

end

interpretation varint: wire_codec "\<lambda>_. True" pbWriteVarint pbReadVarint "\<lambda>v. v"
  by unfold_locales (simp add: pbReadVarint_write, rule pbReadVarint_progress)

interpretation pb: wire_codec pb_ok pb_write pbReadField pb_view
  by unfold_locales (simp add: pbReadField_write, rule pbReadField_progress)

subsubsection \<open>Messages\<close>

text \<open>
  The loop \<^verbatim>\<open>while (pos < size) { if (!pbReadField(...)) return false; ... }\<close>, over a body that may
  itself give up. It ends because a successful read advances.
\<close>

function pb_scan :: "(pb_field \<Rightarrow> 's \<Rightarrow> 's option) \<Rightarrow> bytes \<Rightarrow> nat \<Rightarrow> 's \<Rightarrow> 's option" where
  "pb_scan body inp pos s =
     (if pos < length inp
      then case pbReadField inp pos of
             None \<Rightarrow> None
           | Some (f, pos') \<Rightarrow>
               (case body f s of None \<Rightarrow> None | Some s' \<Rightarrow> pb_scan body inp pos' s')
      else Some s)"
  by pat_completeness auto
termination
proof (relation "measure (\<lambda>(body, inp, pos, s). length inp - pos)")
  fix body :: "pb_field \<Rightarrow> 's \<Rightarrow> 's option" and inp pos s r f pos' s'
  assume "pos < length inp" and "pbReadField inp pos = Some r" and "(f, pos') = r"
  then have "pos < pos' \<and> pos' \<le> length inp"
    using pb.dec_progress [of inp pos f pos'] by simp
  with \<open>pos < length inp\<close>
  show "((body, inp, pos', s'), body, inp, pos, s) \<in> measure (\<lambda>(body, inp, pos, s). length inp - pos)"
    by auto
qed simp

declare pb_scan.simps [simp del]

fun foldM :: "('a \<Rightarrow> 's \<Rightarrow> 's option) \<Rightarrow> 'a list \<Rightarrow> 's \<Rightarrow> 's option" where
  "foldM f [] s = Some s"
| "foldM f (x # xs) s = (case f x s of None \<Rightarrow> None | Some s' \<Rightarrow> foldM f xs s')"

lemma foldM_append:
  "foldM f (xs @ ys) s = (case foldM f xs s of None \<Rightarrow> None | Some s' \<Rightarrow> foldM f ys s')"
  by (induction xs arbitrary: s) (auto split: option.splits)

lemma pb_scan_suffix:
  assumes "vs = us @ ws" and "list_all pb_ok vs"
  shows "pb_scan body (concat (map pb_write vs)) (length (concat (map pb_write us))) s =
         foldM (\<lambda>v. body (pb_view v)) ws s"
  using assms
proof (induction ws arbitrary: us s)
  case Nil
  then show ?case by (simp add: pb_scan.simps)
next
  case (Cons w ws)
  have rd: "pbReadField (concat (map pb_write vs)) (length (concat (map pb_write us))) =
      Some (pb_view w, length (concat (map pb_write (us @ [w]))))"
    using pb.dec_at [of vs us w ws "[]" "[]"] Cons.prems by simp
  have lt: "length (concat (map pb_write us)) < length (concat (map pb_write vs))"
    using Cons.prems pb_write_nonempty [of w] by simp
  have IH: "pb_scan body (concat (map pb_write vs)) (length (concat (map pb_write (us @ [w])))) s' =
      foldM (\<lambda>v. body (pb_view v)) ws s'" for s'
    by (rule Cons.IH) (use Cons.prems in simp_all)
  show ?case
    by (subst pb_scan.simps)
      (simp only: lt rd IH if_True option.case prod.case foldM.simps cong: option.case_cong)
qed

lemma pb_scan_items:
  "list_all pb_ok vs \<Longrightarrow> pb_scan body (concat (map pb_write vs)) 0 s = foldM (\<lambda>v. body (pb_view v)) vs s"
  using pb_scan_suffix [of vs "[]" vs body s] by simp

end
