(* ===== verification/Otp.thy ===== *)
theory Otp
  imports OtpCodec Json
begin

text \<open>
  One-time passwords, \<^verbatim>\<open>include/global/OTP.hpp\<close> and \<^verbatim>\<open>src/global/OTP.cpp\<close>: the entry, code
  generation (RFC 4226 and RFC 6238), and the four exchange formats: \<^verbatim>\<open>otpauth://\<close> links,
  migration links, JSON exports and bare secrets.

  The HMAC, URL, base64 and JSON text functions come from Qt; they are fields of \<open>otp_env\<close>.
\<close>

subsection \<open>Entries\<close>

datatype Algorithm = SHA1 | SHA256 | SHA512

datatype Type = TOTP | HOTP

definition DEFAULT_DIGITS :: int where "DEFAULT_DIGITS = 6"
definition DEFAULT_PERIOD :: int where "DEFAULT_PERIOD = 30"
definition MIN_DIGITS :: int where "MIN_DIGITS = 4"
definition MAX_DIGITS :: int where "MAX_DIGITS = 10"
definition MIN_PERIOD :: int where "MIN_PERIOD = 1"
definition MAX_PERIOD :: int where "MAX_PERIOD = 3600"

lemmas otp_limits = DEFAULT_DIGITS_def DEFAULT_PERIOD_def MIN_DIGITS_def MAX_DIGITS_def
  MIN_PERIOD_def MAX_PERIOD_def

record Entry =
  otp_name :: string
  otp_issuer :: string
  otp_secret :: string
  otp_algorithm :: Algorithm
  otp_type :: Type
  otp_digits :: int
  otp_period :: int
  otp_counter :: int

definition new_Entry :: Entry where
  "new_Entry = \<lparr>otp_name = [], otp_issuer = [], otp_secret = [], otp_algorithm = SHA1, otp_type = TOTP,
     otp_digits = DEFAULT_DIGITS, otp_period = DEFAULT_PERIOD, otp_counter = 0\<rparr>"

subsection \<open>Qt services\<close>

record url =
  url_valid :: bool
  url_scheme :: string
  url_host :: string
  url_path :: string
  url_query :: "(string \<times> string) list"

datatype HashAlgorithm = Sha1 | Sha256 | Sha512

record otp_env = qt_text +
  env_hmac :: "HashAlgorithm \<Rightarrow> bytes \<Rightarrow> bytes \<Rightarrow> bytes" \<comment> \<open>message, then key\<close>
  env_url :: "string \<Rightarrow> url" \<comment> \<open>\<^verbatim>\<open>QUrl(text)\<close> with decoded parts\<close>
  env_url_string :: "url \<Rightarrow> string" \<comment> \<open>\<^verbatim>\<open>toString(FullyEncoded)\<close>\<close>
  env_base64 :: "bytes \<Rightarrow> bytes"
  env_from_base64 :: "bytes \<Rightarrow> bytes"
  env_json_text :: "json \<Rightarrow> bytes"
  env_json_parse :: "bytes \<Rightarrow> json option"
  env_lines :: "string \<Rightarrow> string list" \<comment> \<open>split at runs of line ends, no empty parts\<close>
  env_groups :: "string \<Rightarrow> string list" \<comment> \<open>split at runs of blanks and dashes, no empty parts\<close>

definition queryItemValue :: "url \<Rightarrow> string \<Rightarrow> string" where
  "queryItemValue u k = (case map_of (url_query u) k of None \<Rightarrow> [] | Some v \<Rightarrow> v)"

definition hasQueryItem :: "url \<Rightarrow> string \<Rightarrow> bool" where
  "hasQueryItem u k \<longleftrightarrow> map_of (url_query u) k \<noteq> None"

definition toHash :: "Algorithm \<Rightarrow> HashAlgorithm" where
  "toHash a = (case a of SHA256 \<Rightarrow> Sha256 | SHA512 \<Rightarrow> Sha512 | SHA1 \<Rightarrow> Sha1)"

subsection \<open>Names of algorithms and types\<close>

definition AlgorithmToString :: "Algorithm \<Rightarrow> string" where
  "AlgorithmToString a = (case a of SHA256 \<Rightarrow> ''SHA256'' | SHA512 \<Rightarrow> ''SHA512'' | SHA1 \<Rightarrow> ''SHA1'')"

definition AlgorithmFromString :: "'z qt_text_scheme \<Rightarrow> string \<Rightarrow> Algorithm \<times> bool" where
  "AlgorithmFromString Q nm =
     (let normalized = qt_upper Q (qt_trimmed Q nm) in
      if normalized = ''SHA256'' then (SHA256, True)
      else if normalized = ''SHA512'' then (SHA512, True)
      else if normalized = ''SHA1'' \<or> normalized = [] then (SHA1, True)
      else (SHA1, False))"

definition TypeToString :: "Type \<Rightarrow> string" where
  "TypeToString t = (if t = HOTP then ''hotp'' else ''totp'')"

definition TypeFromString :: "'z qt_text_scheme \<Rightarrow> string \<Rightarrow> Type \<times> bool" where
  "TypeFromString Q nm =
     (let normalized = qt_lower Q (qt_trimmed Q nm) in
      if normalized = ''hotp'' then (HOTP, True)
      else if normalized = ''totp'' \<or> normalized = [] then (TOTP, True)
      else (TOTP, False))"

text \<open>What Qt documents of the names themselves: they have no blanks and are already in case.\<close>

definition keeps_tokens :: "'z qt_text_scheme \<Rightarrow> bool" where
  "keeps_tokens Q \<longleftrightarrow>
     (\<forall>s \<in> set [''SHA1'', ''SHA256'', ''SHA512'']. qt_upper Q (qt_trimmed Q s) = s) \<and>
     (\<forall>s \<in> set [''totp'', ''hotp'']. qt_lower Q (qt_trimmed Q s) = s)"

lemma AlgorithmFromString_ToString [simp]:
  "keeps_tokens Q \<Longrightarrow> AlgorithmFromString Q (AlgorithmToString a) = (a, True)"
  by (cases a) (simp_all add: keeps_tokens_def AlgorithmFromString_def AlgorithmToString_def)

lemma TypeFromString_ToString [simp]:
  "keeps_tokens Q \<Longrightarrow> TypeFromString Q (TypeToString t) = (t, True)"
  by (cases t) (simp_all add: keeps_tokens_def TypeFromString_def TypeToString_def)

definition migrationAlgorithm :: "u64 \<Rightarrow> Algorithm" where
  "migrationAlgorithm v = (if v = 2 then SHA256 else if v = 3 then SHA512 else SHA1)"

definition migrationAlgorithmValue :: "Algorithm \<Rightarrow> u64" where
  "migrationAlgorithmValue a = (case a of SHA256 \<Rightarrow> 2 | SHA512 \<Rightarrow> 3 | SHA1 \<Rightarrow> 1)"

interpretation migration_alg: token_codec migrationAlgorithmValue migrationAlgorithm
proof
  fix a
  show "migrationAlgorithm (migrationAlgorithmValue a) = a"
    by (cases a) (simp_all add: migrationAlgorithm_def migrationAlgorithmValue_def)
qed

subsection \<open>Validation\<close>

datatype problem =
    SecretEmpty
  | SecretNotBase32
  | SecretTooShort
  | DigitsOutOfRange
  | PeriodOutOfRange

text \<open>\<open>None\<close> is the empty message: the entry is usable.\<close>

definition Validate :: "'z qt_text_scheme \<Rightarrow> Entry \<Rightarrow> problem option" where
  "Validate Q e =
     (if qt_trimmed Q (otp_secret e) = [] then Some SecretEmpty
      else case Base32Decode (otp_secret e) of
        None \<Rightarrow> Some SecretNotBase32
      | Some key \<Rightarrow>
          if key = [] then Some SecretTooShort
          else if otp_digits e < MIN_DIGITS \<or> MAX_DIGITS < otp_digits e then Some DigitsOutOfRange
          else if otp_type e = TOTP \<and> (otp_period e < MIN_PERIOD \<or> MAX_PERIOD < otp_period e)
          then Some PeriodOutOfRange
          else None)"

lemma Validate_usable:
  assumes "Validate Q e = None"
  obtains key where "Base32Decode (otp_secret e) = Some key" "key \<noteq> []"
    "MIN_DIGITS \<le> otp_digits e" "otp_digits e \<le> MAX_DIGITS"
    "otp_type e = TOTP \<Longrightarrow> MIN_PERIOD \<le> otp_period e \<and> otp_period e \<le> MAX_PERIOD"
  using assms by (auto simp: Validate_def split: if_splits option.splits)

subsection \<open>Code generation\<close>

text \<open>The loop that writes the counter into eight bytes, last byte first.\<close>

fun hotp_message :: "nat \<Rightarrow> u64 \<Rightarrow> bytes \<Rightarrow> bytes" where
  "hotp_message 0 c acc = acc"
| "hotp_message (Suc i) c acc = hotp_message i (drop_bit 8 c) (ucast (c AND 0xFF) # acc)"

definition hotp_binary :: "bytes \<Rightarrow> nat \<Rightarrow> u32" where
  "hotp_binary mac offset =
     (push_bit 24 (ucast (mac ! offset) AND 0x7F)
      OR push_bit 16 (ucast (mac ! (offset + 1)))
      OR push_bit 8 (ucast (mac ! (offset + 2)))
      OR ucast (mac ! (offset + 3)))"

definition GenerateHOTP ::
  "otp_env \<Rightarrow> bytes \<Rightarrow> u64 \<Rightarrow> Algorithm \<Rightarrow> int \<Rightarrow> string" where
  "GenerateHOTP E key ctr alg digs =
     (if key = [] \<or> digs < MIN_DIGITS \<or> MAX_DIGITS < digs then []
      else let mac = env_hmac E (toHash alg) (hotp_message 8 ctr []) key in
        if length mac < 20 then []
        else let offset = unat (mac ! (length mac - 1) AND 0x0F);
                 modulus = 10 ^ nat digs
             in zero_padded (nat digs) (unat (hotp_binary mac offset) mod modulus))"

definition GenerateCode :: "otp_env \<Rightarrow> Entry \<Rightarrow> int \<Rightarrow> int \<Rightarrow> string" where
  "GenerateCode E e clock unixTime =
     (if Validate E e \<noteq> None then []
      else let key = (case Base32Decode (otp_secret e) of None \<Rightarrow> [] | Some k \<Rightarrow> k) in
        if otp_type e = HOTP
        then GenerateHOTP E key (word_of_int (otp_counter e)) (otp_algorithm e) (otp_digits e)
        else let now = (if unixTime < 0 then clock else unixTime)
             in GenerateHOTP E key (word_of_int (cdiv now (otp_period e))) (otp_algorithm e) (otp_digits e))"

definition SecondsRemaining :: "Entry \<Rightarrow> int \<Rightarrow> int \<Rightarrow> int" where
  "SecondsRemaining e clock unixTime =
     (if otp_type e = HOTP \<or> otp_period e < MIN_PERIOD then 0
      else let now = (if unixTime < 0 then clock else unixTime)
           in otp_period e - crem now (otp_period e))"

subsubsection \<open>Dynamic truncation\<close>

lemma hotp_offset_in_range: "20 \<le> length mac \<Longrightarrow> unat ((b :: 8 word) AND 0x0F) + 3 < length mac"
proof -
  have "unat (b AND 0x0F) \<le> unat (0x0F :: 8 word)"
    by (rule word_and_le1 [THEN word_le_nat_alt [THEN iffD1]])
  then show "20 \<le> length mac \<Longrightarrow> ?thesis" by simp
qed

text \<open>On words without a common bit, OR is addition.\<close>

lemma unat_or_disjoint:
  fixes x y :: "'a::len word"
  assumes "x AND y = 0"
  shows "unat (x OR y) = unat x + unat y"
proof -
  have "unat x AND unat y = 0"
    using assms by (metis unsigned_and_eq unsigned_0)
  then show ?thesis by (simp add: unsigned_or_eq disjunctive_add_eq_or)
qed

lemma unat_byte: "unat (b :: 8 word) < 256"
  using unsigned_less [where 'a = nat, of b] by simp

lemma unat_ucast_byte: "unat (ucast (b :: 8 word) :: u32) = unat b"
  using unat_byte [of b] by (simp add: unsigned_ucast_eq take_bit_eq_mod)

lemma unat_push_byte:
  "k + 8 \<le> 32 \<Longrightarrow> unat (push_bit k (ucast (b :: 8 word)) :: u32) = unat b * 2 ^ k"
proof -
  assume k: "k + 8 \<le> 32"
  have "unat b * 2 ^ k < 2 ^ 8 * 2 ^ k"
    using unsigned_less [of b] by simp
  also have "\<dots> \<le> (2 :: nat) ^ 32"
    using k power_increasing [of "8 + k" 32 "2 :: nat"] by (simp add: power_add)
  finally have lt: "unat b * 2 ^ k < 2 ^ 32" .
  have "unat (push_bit k (ucast b) :: u32) = take_bit 32 (push_bit k (unat b))"
    by (simp only: unsigned_push_bit_eq unat_ucast_byte) simp
  with lt show ?thesis by (simp add: take_bit_eq_mod push_bit_eq_mult)
qed

lemma byte_lanes:
  fixes a b c d :: "8 word"
  shows "(push_bit 24 (ucast a) :: u32) AND (push_bit 16 (ucast b) OR push_bit 8 (ucast c) OR ucast d) = 0"
    and "(push_bit 16 (ucast b) :: u32) AND (push_bit 8 (ucast c) OR ucast d) = 0"
    and "(push_bit 8 (ucast c) :: u32) AND ucast d = 0"
  by (rule bit_word_eqI; auto simp: bit_simps dest!: bit_imp_le_length)+

lemma ucast_and_7F: "(ucast (a :: 8 word) :: u32) AND 0x7F = ucast (a AND 0x7F)"
  by (rule bit_word_eqI) (auto simp: mask_7 bit_simps)

text \<open>The 31-bit big-endian value of four bytes of the MAC, as RFC 4226 defines it.\<close>

definition rfc4226_value :: "bytes \<Rightarrow> nat \<Rightarrow> nat" where
  "rfc4226_value mac offset =
     (unat (mac ! offset) mod 128) * 2 ^ 24 + unat (mac ! (offset + 1)) * 2 ^ 16
     + unat (mac ! (offset + 2)) * 2 ^ 8 + unat (mac ! (offset + 3))"

lemma hotp_binary_value: "unat (hotp_binary mac offset) = rfc4226_value mac offset"
proof -
  let ?a = "mac ! offset AND 0x7F"
  have a: "unat ?a = unat (mac ! offset) mod 128"
    by (simp only: mask_7 take_bit_eq_mask [symmetric] unsigned_take_bit_eq take_bit_eq_mod)
      (simp add: unat_mod)
  have "unat (hotp_binary mac offset) =
      unat (push_bit 24 (ucast ?a) :: u32) + (unat (push_bit 16 (ucast (mac ! (offset + 1))) :: u32)
      + (unat (push_bit 8 (ucast (mac ! (offset + 2))) :: u32) + unat (ucast (mac ! (offset + 3)) :: u32)))"
    by (simp only: hotp_binary_def ucast_and_7F unat_or_disjoint byte_lanes)
  then show ?thesis
    by (simp add: unat_push_byte a rfc4226_value_def unat_ucast_byte)
qed

text \<open>The message is the counter in big-endian order.\<close>

fun be_value :: "bytes \<Rightarrow> nat" where
  "be_value [] = 0"
| "be_value (b # bs) = unat b * 256 ^ length bs + be_value bs"

lemma low_byte: "unat (ucast ((c :: u64) AND 0xFF) :: 8 word) = unat c mod 256"
  by (simp only: mask_8 take_bit_eq_mask [symmetric] unsigned_ucast_eq unsigned_take_bit_eq
      take_bit_eq_mod) (simp add: unat_mod)

lemma high_bytes: "unat (drop_bit 8 (c :: u64)) = unat c div 256"
  by (simp add: drop_bit_eq_div unat_div)

lemma mod_256_step: "n mod 256 ^ Suc i = (n div 256) mod 256 ^ i * 256 + n mod (256 :: nat)"
  by (metis mod_mult2_eq add.commute mult.commute power_Suc)

lemma length_hotp_message: "length (hotp_message i c acc) = i + length acc"
  by (induction i arbitrary: c acc) auto

lemma hotp_message_value:
  "be_value (hotp_message i c acc) = (unat c mod 256 ^ i) * 256 ^ length acc + be_value acc"
proof (induction i arbitrary: c acc)
  case (Suc i)
  show ?case
    unfolding hotp_message.simps Suc.IH mod_256_step
    by (simp add: low_byte high_bytes algebra_simps)
qed simp

lemma hotp_message_be: "length (hotp_message 8 c []) = 8" "be_value (hotp_message 8 c []) = unat c"
  using hotp_message_value [of 8 c "[]"] unsigned_less [where 'a = nat, of c]
  by (simp_all add: length_hotp_message)

lemma GenerateHOTP_value:
  assumes "key \<noteq> []" and "MIN_DIGITS \<le> d" and "d \<le> MAX_DIGITS"
    and "mac = env_hmac E (toHash alg) (hotp_message 8 ctr []) key" and "20 \<le> length mac"
  shows "GenerateHOTP E key ctr alg d =
    zero_padded (nat d) (rfc4226_value mac (unat (mac ! (length mac - 1) AND 0x0F)) mod 10 ^ nat d)"
  using assms by (simp add: GenerateHOTP_def Let_def hotp_binary_value)

lemma GenerateHOTP_length:
  "GenerateHOTP E key ctr alg d = [] \<or> length (GenerateHOTP E key ctr alg d) = nat d"
  by (auto simp: GenerateHOTP_def Let_def otp_limits intro!: length_zero_padded)

lemma GenerateHOTP_digits: "set (GenerateHOTP E key ctr alg d) \<subseteq> {c. is_digit c}"
  using zero_padded_digits by (simp add: GenerateHOTP_def Let_def)

subsection \<open>otpauth:// links\<close>

definition ExportToLink_url :: "Entry \<Rightarrow> url" where
  "ExportToLink_url e = \<lparr>url_valid = True, url_scheme = ''otpauth'',
     url_host = TypeToString (otp_type e),
     url_path = ''/'' @ (if otp_issuer e = [] then otp_name e else otp_issuer e @ '':'' @ otp_name e),
     url_query =
       [(''secret'', otp_secret e)]
       @ (if otp_issuer e = [] then [] else [(''issuer'', otp_issuer e)])
       @ [(''algorithm'', AlgorithmToString (otp_algorithm e)), (''digits'', number (otp_digits e))]
       @ (if otp_type e = HOTP then [(''counter'', number (otp_counter e))]
          else [(''period'', number (otp_period e))])\<rparr>"

definition ExportToLink :: "otp_env \<Rightarrow> Entry \<Rightarrow> string" where
  "ExportToLink E e = env_url_string E (ExportToLink_url e)"

text \<open>\<open>(issuer, name)\<close> of a label: split at the first colon, if there is one.\<close>

definition split_label :: "otp_env \<Rightarrow> string \<Rightarrow> string \<times> string" where
  "split_label E path =
     (let label = (if starts_with path ''/'' then drop 1 path else path) in
      if CHR '':'' \<in> set label
      then (qt_trimmed E (takeWhile (\<lambda>c. c \<noteq> CHR '':'') label),
            qt_trimmed E (drop 1 (dropWhile (\<lambda>c. c \<noteq> CHR '':'') label)))
      else ([], qt_trimmed E label))"

text \<open>The query items of a link, over an entry that has its label and secret.\<close>

definition link_query :: "otp_env \<Rightarrow> url \<Rightarrow> Entry \<Rightarrow> Entry" where
  "link_query E u e =
     (let iss = qt_trimmed E (queryItemValue u ''issuer'');
          e = (if iss = [] then e else e\<lparr>otp_issuer := iss\<rparr>);
          e = (if hasQueryItem u ''algorithm''
               then e\<lparr>otp_algorithm := fst (AlgorithmFromString E (queryItemValue u ''algorithm''))\<rparr> else e);
          e = (if hasQueryItem u ''digits''
               then e\<lparr>otp_digits := qt_int E (queryItemValue u ''digits'')\<rparr> else e);
          e = (if hasQueryItem u ''period''
               then e\<lparr>otp_period := qt_int E (queryItemValue u ''period'')\<rparr> else e);
          e = (if hasQueryItem u ''counter''
               then e\<lparr>otp_counter := qt_longlong E (queryItemValue u ''counter'')\<rparr> else e)
      in e)"

definition link_defaults :: "Entry \<Rightarrow> Entry" where
  "link_defaults e =
     (let e = (if otp_digits e < MIN_DIGITS \<or> MAX_DIGITS < otp_digits e
               then e\<lparr>otp_digits := DEFAULT_DIGITS\<rparr> else e);
          e = (if otp_period e < MIN_PERIOD \<or> MAX_PERIOD < otp_period e
               then e\<lparr>otp_period := DEFAULT_PERIOD\<rparr> else e);
          e = (if otp_name e = [] then e\<lparr>otp_name := otp_issuer e\<rparr> else e)
      in e)"

definition ParseFromLink :: "otp_env \<Rightarrow> string \<Rightarrow> Entry option" where
  "ParseFromLink E link =
     (let u = env_url E (qt_trimmed E link) in
      if \<not> url_valid u \<or> \<not> equals_ci E (url_scheme u) ''otpauth'' then None
      else
        let e = new_Entry\<lparr>otp_type := fst (TypeFromString E (url_host u)),
                  otp_issuer := fst (split_label E (url_path u)),
                  otp_name := snd (split_label E (url_path u)),
                  otp_secret := NormalizeSecret (queryItemValue u ''secret'')\<rparr> in
        if otp_secret e = [] then None
        else Some (link_defaults (link_query E u e)))"

lemma link_query_secret [simp]: "otp_secret (link_query E u e) = otp_secret e"
  by (simp add: link_query_def Let_def)

lemma link_defaults_secret [simp]: "otp_secret (link_defaults e) = otp_secret e"
  by (simp add: link_defaults_def Let_def)

lemma link_defaults_range:
  "MIN_DIGITS \<le> otp_digits (link_defaults e) \<and> otp_digits (link_defaults e) \<le> MAX_DIGITS"
  "MIN_PERIOD \<le> otp_period (link_defaults e) \<and> otp_period (link_defaults e) \<le> MAX_PERIOD"
  by (auto simp: link_defaults_def Let_def otp_limits)

subsection \<open>Migration links\<close>

definition migration_parameters :: "otp_env \<Rightarrow> Entry \<Rightarrow> bytes \<Rightarrow> bytes" where
  "migration_parameters E e key =
     pbWriteBytes 1 key
     @ pbWriteBytes 2 (qt_utf8 E (otp_name e))
     @ (if otp_issuer e = [] then [] else pbWriteBytes 3 (qt_utf8 E (otp_issuer e)))
     @ pbWriteUint 4 (migrationAlgorithmValue (otp_algorithm e))
     @ pbWriteUint 5 (if otp_digits e = 8 then 2 else 1)
     @ pbWriteUint 6 (if otp_type e = HOTP then 1 else 2)
     @ (if otp_type e = HOTP then pbWriteUint 7 (word_of_int (otp_counter e)) else [])"

fun migration_entries :: "otp_env \<Rightarrow> Entry list \<Rightarrow> bytes" where
  "migration_entries E [] = []"
| "migration_entries E (e # es) =
     (case Base32Decode (otp_secret e) of
        None \<Rightarrow> migration_entries E es
      | Some key \<Rightarrow>
          if key = [] then migration_entries E es
          else pbWriteBytes 1 (migration_parameters E e key) @ migration_entries E es)"

definition migration_payload :: "otp_env \<Rightarrow> Entry list \<Rightarrow> bytes" where
  "migration_payload E entries =
     (let payload = migration_entries E entries in
      if payload = [] then []
      else payload @ pbWriteUint 2 1 @ pbWriteUint 3 1 @ pbWriteUint 4 0)"

definition ExportToMigrationLink :: "otp_env \<Rightarrow> Entry list \<Rightarrow> string" where
  "ExportToMigrationLink E entries =
     (let payload = migration_payload E entries in
      if payload = [] then []
      else env_url_string E \<lparr>url_valid = True, url_scheme = ''otpauth-migration'',
             url_host = ''offline'', url_path = [],
             url_query = [(''data'', qt_from_utf8 E (env_base64 E payload))]\<rparr>)"

text \<open>The switch over the fields of one entry: \<open>(entry, haveSecret)\<close>.\<close>

definition migration_field :: "otp_env \<Rightarrow> pb_field \<Rightarrow> Entry \<times> bool \<Rightarrow> (Entry \<times> bool) option" where
  "migration_field E f st = (case st of (e, have) \<Rightarrow> Some (
     if pb_no f = 1 then (e\<lparr>otp_secret := Base32Encode (pb_bytes f)\<rparr>, pb_bytes f \<noteq> [])
     else if pb_no f = 2 then (e\<lparr>otp_name := qt_from_utf8 E (pb_bytes f)\<rparr>, have)
     else if pb_no f = 3 then (e\<lparr>otp_issuer := qt_from_utf8 E (pb_bytes f)\<rparr>, have)
     else if pb_no f = 4 then (e\<lparr>otp_algorithm := migrationAlgorithm (pb_varint f)\<rparr>, have)
     else if pb_no f = 5 then (e\<lparr>otp_digits := if pb_varint f = 2 then 8 else DEFAULT_DIGITS\<rparr>, have)
     else if pb_no f = 6 then (e\<lparr>otp_type := if pb_varint f = 1 then HOTP else TOTP\<rparr>, have)
     else if pb_no f = 7 then (e\<lparr>otp_counter := sint (pb_varint f)\<rparr>, have)
     else (e, have)))"

definition migration_message :: "otp_env \<Rightarrow> pb_field \<Rightarrow> Entry list \<Rightarrow> Entry list option" where
  "migration_message E f entries =
     (if pb_no f \<noteq> 1 \<or> pb_wire f \<noteq> 2 then Some entries
      else case pb_scan (migration_field E) (pb_bytes f) 0 (new_Entry, False) of
        None \<Rightarrow> None
      | Some (e, have) \<Rightarrow>
          if \<not> have then Some entries
          else Some (entries @ [if otp_name e = [] then e\<lparr>otp_name := otp_issuer e\<rparr> else e]))"

definition parse_migration_payload :: "otp_env \<Rightarrow> bytes \<Rightarrow> Entry list option" where
  "parse_migration_payload E payload =
     (case pb_scan (migration_message E) payload 0 [] of
        None \<Rightarrow> None
      | Some entries \<Rightarrow> if entries = [] then None else Some entries)"

definition ParseFromMigrationLink :: "otp_env \<Rightarrow> string \<Rightarrow> Entry list option" where
  "ParseFromMigrationLink E link =
     (let u = env_url E (qt_trimmed E link) in
      if \<not> url_valid u \<or> \<not> equals_ci E (url_scheme u) ''otpauth-migration'' then None
      else let dat = queryItemValue u ''data'' in
        if dat = [] then None
        else let payload = env_from_base64 E (qt_utf8 E dat) in
          if payload = [] then None else parse_migration_payload E payload)"

subsection \<open>JSON exports\<close>

definition entryToJsonObject :: "Entry \<Rightarrow> jobject" where
  "entryToJsonObject e = jbuild (
     [(''name'', JStr (otp_name e))]
     @ (if otp_issuer e = [] then [] else [(''issuer'', JStr (otp_issuer e))])
     @ [(''secret'', JStr (otp_secret e)), (''algorithm'', JStr (AlgorithmToString (otp_algorithm e))),
        (''type'', JStr (TypeToString (otp_type e))), (''digits'', jint (otp_digits e))]
     @ (if otp_type e = TOTP then [(''period'', jint (otp_period e))]
        else [(''counter'', jint (otp_counter e))]))"

definition entryFromJsonObject :: "'z qt_text_scheme \<Rightarrow> jobject \<Rightarrow> Entry" where
  "entryFromJsonObject Q ob = \<lparr>
     otp_name = to_str [] (jget ob ''name''),
     otp_issuer = to_str [] (jget ob ''issuer''),
     otp_secret = NormalizeSecret (to_str [] (jget ob ''secret'')),
     otp_algorithm = fst (AlgorithmFromString Q (to_str [] (jget ob ''algorithm''))),
     otp_type = fst (TypeFromString Q (to_str [] (jget ob ''type''))),
     otp_digits = (if jcontains ob ''digits'' then to_int DEFAULT_DIGITS (jget ob ''digits'') else DEFAULT_DIGITS),
     otp_period = (if jcontains ob ''period'' then to_int DEFAULT_PERIOD (jget ob ''period'') else DEFAULT_PERIOD),
     otp_counter = to_longlong Q (jget ob ''counter'')\<rparr>"

definition ExportToJson :: "otp_env \<Rightarrow> Entry list \<Rightarrow> bytes" where
  "ExportToJson E entries = env_json_text E (JObj (jbuild
     [(''version'', jint 1), (''otp'', JArr (map (\<lambda>e. JObj (entryToJsonObject e)) entries))]))"

fun json_entries :: "'z qt_text_scheme \<Rightarrow> json list \<Rightarrow> Entry list" where
  "json_entries Q [] = []"
| "json_entries Q (v # vs) =
     (if \<not> is_object v then json_entries Q vs
      else let e = entryFromJsonObject Q (to_obj v) in
        if otp_secret e = [] then json_entries Q vs else e # json_entries Q vs)"

definition ParseFromJson :: "otp_env \<Rightarrow> bytes \<Rightarrow> Entry list option" where
  "ParseFromJson E js =
     (case env_json_parse E js of
        None \<Rightarrow> None
      | Some document \<Rightarrow>
          let array = (case document of
                JArr xs \<Rightarrow> xs
              | JObj ob \<Rightarrow> to_arr (jget ob ''otp'')
              | _ \<Rightarrow> []) in
          if array = [] then None
          else let entries = json_entries E array in
            if entries = [] then None else Some entries)"

subsection \<open>Anything at all\<close>

definition MIN_BARE_SECRET_BYTES :: nat where "MIN_BARE_SECRET_BYTES = 10"

definition LooksLikeBareSecret :: "otp_env \<Rightarrow> string \<Rightarrow> bool" where
  "LooksLikeBareSecret E line = (case env_groups E line of
       [] \<Rightarrow> False
     | [g] \<Rightarrow> True
     | g # gs \<Rightarrow> if 8 < length g then False
               else list_all (\<lambda>h. length h = length g) (g # gs))"

datatype import_note = UnreadableExport | UnreadableMigrationLink | NotLinkOrSecret string

fun ParseAny_lines :: "otp_env \<Rightarrow> string list \<Rightarrow> Entry list \<times> import_note list \<Rightarrow> Entry list \<times> import_note list" where
  "ParseAny_lines E [] acc = acc"
| "ParseAny_lines E (rawLine # rest) (result, problems) =
     (let line = qt_trimmed E rawLine in
      if line = [] then ParseAny_lines E rest (result, problems)
      else if starts_with_ci E line ''otpauth-migration://'' then
        (case ParseFromMigrationLink E line of
           Some batch \<Rightarrow> ParseAny_lines E rest (result @ batch, problems)
         | None \<Rightarrow> ParseAny_lines E rest (result, problems @ [UnreadableMigrationLink]))
      else case ParseFromLink E line of
          Some e \<Rightarrow> ParseAny_lines E rest (result @ [e], problems)
        | None \<Rightarrow>
            let s = (if LooksLikeBareSecret E line then NormalizeSecret line else []) in
            if s \<noteq> [] \<and> MIN_BARE_SECRET_BYTES \<le>
                 length (case Base32Decode s of None \<Rightarrow> [] | Some k \<Rightarrow> k)
            then ParseAny_lines E rest (result @ [new_Entry\<lparr>otp_secret := s\<rparr>], problems)
            else ParseAny_lines E rest (result, problems @ [NotLinkOrSecret (take 40 line)]))"

definition ParseAny :: "otp_env \<Rightarrow> string \<Rightarrow> Entry list \<times> import_note list" where
  "ParseAny E txt =
     (let trimmed = qt_trimmed E txt in
      if trimmed = [] then ([], [])
      else if starts_with trimmed ''{'' \<or> starts_with trimmed ''['' then
        (case ParseFromJson E (qt_utf8 E trimmed) of
           Some entries \<Rightarrow> (entries, [])
         | None \<Rightarrow> ([], [UnreadableExport]))
      else ParseAny_lines E (env_lines E trimmed) ([], []))"

end
