(* ===== verification/OtpProps.thy ===== *)
theory OtpProps
  imports Otp
begin

text \<open>
  What the one-time-password component guarantees: the codecs and exchange formats are lossless
  up to exactly the fields a format cannot carry, generated codes follow RFC 4226 and RFC 6238,
  and whatever an import accepts can generate codes.
\<close>

subsection \<open>Migration payloads\<close>

definition migration_items :: "otp_env \<Rightarrow> Entry \<Rightarrow> bytes \<Rightarrow> pb_item list" where
  "migration_items E e key =
     [PbBytes 1 key, PbBytes 2 (qt_utf8 E (otp_name e))]
     @ (if otp_issuer e = [] then [] else [PbBytes 3 (qt_utf8 E (otp_issuer e))])
     @ [PbUint 4 (migrationAlgorithmValue (otp_algorithm e)),
        PbUint 5 (if otp_digits e = 8 then 2 else 1),
        PbUint 6 (if otp_type e = HOTP then 1 else 2)]
     @ (if otp_type e = HOTP then [PbUint 7 (word_of_int (otp_counter e))] else [])"

lemma migration_parameters_items:
  "migration_parameters E e key = concat (map pb_write (migration_items E e key))"
  by (simp add: migration_parameters_def migration_items_def)

text \<open>The secret of an entry that the export keeps.\<close>

definition entry_key :: "Entry \<Rightarrow> bytes option" where
  "entry_key e = (case Base32Decode (otp_secret e) of
     Some key \<Rightarrow> if key = [] then None else Some key | None \<Rightarrow> None)"

text \<open>What survives a migration link: six or eight digits, thirty seconds, no TOTP counter.\<close>

definition migrated :: "Entry \<Rightarrow> Entry" where
  "migrated e = e\<lparr>otp_name := (if otp_name e = [] then otp_issuer e else otp_name e),
     otp_secret := NormalizeSecret (otp_secret e),
     otp_digits := (if otp_digits e = 8 then 8 else 6),
     otp_period := 30,
     otp_counter := (if otp_type e = HOTP then otp_counter e else 0)\<rparr>"

text \<open>Names are text that UTF-8 carries, and the counter is 64-bit.\<close>

definition carries :: "otp_env \<Rightarrow> Entry \<Rightarrow> bool" where
  "carries E e \<longleftrightarrow>
     qt_from_utf8 E (qt_utf8 E (otp_name e)) = otp_name e \<and>
     qt_from_utf8 E (qt_utf8 E (otp_issuer e)) = otp_issuer e \<and>
     - (2 ^ 63) \<le> otp_counter e \<and> otp_counter e < 2 ^ 63"

lemma migration_items_ok:
  assumes "length (migration_parameters E e key) < 2 ^ 31"
  shows "list_all pb_ok (migration_items E e key)"
  using assms
  by (auto simp: migration_parameters_def migration_items_def pbWriteBytes_def)

lemma sint_counter: "- (2 ^ 63) \<le> c \<Longrightarrow> c < 2 ^ 63 \<Longrightarrow> sint (word_of_int c :: u64) = c"
  by (simp add: signed_of_int signed_take_bit_int_eq_self)

lemma scan_parameters:
  assumes "carries E e" and "entry_key e = Some key" and "length (migration_parameters E e key) < 2 ^ 31"
  shows "pb_scan (migration_field E) (migration_parameters E e key) 0 (new_Entry, False) =
    Some (e\<lparr>otp_secret := Base32Encode key, otp_digits := (if otp_digits e = 8 then 8 else 6),
        otp_period := 30, otp_counter := (if otp_type e = HOTP then otp_counter e else 0)\<rparr>, True)"
proof -
  have "list_all pb_ok (migration_items E e key)"
    using assms by (intro migration_items_ok)
  then have "pb_scan (migration_field E) (migration_parameters E e key) 0 (new_Entry, False) =
      foldM (\<lambda>v. migration_field E (pb_view v)) (migration_items E e key) (new_Entry, False)"
    unfolding migration_parameters_items by (rule pb_scan_items)
  moreover have "key \<noteq> []" using assms(2) by (auto simp: entry_key_def split: option.splits if_splits)
  ultimately show ?thesis
    using assms(1)
    by (cases "otp_issuer e = []"; cases "otp_type e")
      (simp_all add: migration_items_def migration_field_def migration_alg.dec_enc carries_def
        new_Entry_def otp_limits sint_counter)
qed

definition payload_items :: "otp_env \<Rightarrow> Entry list \<Rightarrow> pb_item list" where
  "payload_items E es =
     [PbBytes 1 (migration_parameters E e (the (entry_key e))). e \<leftarrow> es, entry_key e \<noteq> None]"

lemma payload_items_simps:
  "payload_items E [] = []"
  "payload_items E (e # es) = (case entry_key e of None \<Rightarrow> payload_items E es
     | Some key \<Rightarrow> PbBytes 1 (migration_parameters E e key) # payload_items E es)"
  by (auto simp: payload_items_def split: option.splits)

lemma migration_entries_items: "migration_entries E es = concat (map pb_write (payload_items E es))"
  by (induction es) (auto simp: payload_items_simps entry_key_def split: option.splits)

lemma pb_write_length: "length bs \<le> length (pb_write (PbBytes n bs))"
  by (simp add: pbWriteBytes_def)

lemma payload_items_ok: "length (migration_entries E es) < 2 ^ 31 \<Longrightarrow> list_all pb_ok (payload_items E es)"
  unfolding migration_entries_items
proof (induction es)
  case (Cons e es)
  then show ?case using pb_write_length [of "migration_parameters E e (the (entry_key e))" 1]
    by (auto simp: payload_items_simps simp del: pb_write.simps split: option.splits)
qed (simp add: payload_items_simps)

lemma entry_fits:
  "e \<in> set es \<Longrightarrow> entry_key e = Some key \<Longrightarrow> length (migration_parameters E e key) \<le> length (migration_entries E es)"
  unfolding migration_entries_items
proof (induction es)
  case (Cons x es)
  then show ?case using pb_write_length [of "migration_parameters E e key" 1]
    by (auto simp: payload_items_simps simp del: pb_write.simps split: option.splits)
qed simp

lemma fold_payload:
  assumes "list_all (carries E) es" "\<forall>e\<in>set es. \<forall>key. entry_key e = Some key \<longrightarrow> length (migration_parameters E e key) < 2 ^ 31"
  shows "foldM (\<lambda>v. migration_message E (pb_view v)) (payload_items E es) acc =
         Some (acc @ map migrated (filter (\<lambda>e. entry_key e \<noteq> None) es))"
  using assms
proof (induction es arbitrary: acc)
  case (Cons e es)
  show ?case
  proof (cases "entry_key e")
    case None
    with Cons show ?thesis by (simp add: payload_items_simps)
  next
    case (Some key)
    then have n: "NormalizeSecret (otp_secret e) = Base32Encode key"
      by (auto simp: entry_key_def NormalizeSecret_def split: option.splits if_splits)
    have "migration_message E (pb_view (PbBytes 1 (migration_parameters E e key))) acc =
        Some (acc @ [migrated e])"
      using scan_parameters [of E e key] Some Cons.prems n
      by (simp add: migration_message_def migrated_def)
    with Some Cons show ?thesis by (simp add: payload_items_simps)
  qed
qed (simp add: payload_items_simps)

lemma payload_items_Nil: "payload_items E es = [] \<longleftrightarrow> filter (\<lambda>e. entry_key e \<noteq> None) es = []"
  by (induction es) (auto simp: payload_items_simps split: option.splits)

lemma concat_write_Nil: "concat (map pb_write vs) = [] \<longleftrightarrow> vs = []"
  by (cases vs) (simp_all add: pb_write_nonempty)

lemma migration_payload_roundtrip:
  assumes "list_all (carries E) es" "length (migration_payload E es) < 2 ^ 31"
  shows "parse_migration_payload E (migration_payload E es) =
    (let kept = filter (\<lambda>e. entry_key e \<noteq> None) es in
     if kept = [] then None else Some (map migrated kept))"
proof (cases "payload_items E es = []")
  case True
  then have "migration_payload E es = []"
    by (simp add: migration_payload_def migration_entries_items)
  with True payload_items_Nil show ?thesis
    by (auto simp: parse_migration_payload_def pb_scan.simps)
next
  case False
  let ?items = "payload_items E es @ [PbUint 2 1, PbUint 3 1, PbUint 4 0]"
  have fits: "length (migration_entries E es) < 2 ^ 31"
    using assms(2) by (simp add: migration_payload_def Let_def split: if_splits)
  then have small: "\<forall>e\<in>set es. \<forall>key. entry_key e = Some key \<longrightarrow> length (migration_parameters E e key) < 2 ^ 31"
    using entry_fits [of _ es _ E] by (meson le_less_trans)
  have "migration_payload E es = concat (map pb_write ?items)"
    using False by (cases "payload_items E es") (auto simp: migration_payload_def migration_entries_items pb_write_nonempty)
  moreover have "pb_scan (migration_message E) (concat (map pb_write ?items)) 0 [] =
      foldM (\<lambda>v. migration_message E (pb_view v)) ?items []"
    using payload_items_ok [OF fits] by (intro pb_scan_items) simp
  moreover have "\<dots> = Some (map migrated (filter (\<lambda>e. entry_key e \<noteq> None) es))"
    by (simp add: foldM_append fold_payload [OF assms(1) small] migration_message_def)
  ultimately show ?thesis
    using False payload_items_Nil by (simp add: parse_migration_payload_def)
qed

text \<open>The link of a batch as a URL, and what is asked of base64.\<close>

definition migration_url :: "otp_env \<Rightarrow> Entry list \<Rightarrow> url" where
  "migration_url E es = \<lparr>url_valid = True, url_scheme = ''otpauth-migration'', url_host = ''offline'', url_path = [],
     url_query = [(''data'', qt_from_utf8 E (env_base64 E (migration_payload E es)))]\<rparr>"

definition base64_kept :: "otp_env \<Rightarrow> bool" where
  "base64_kept E \<longleftrightarrow> (\<forall>bs. env_from_base64 E (qt_utf8 E (qt_from_utf8 E (env_base64 E bs))) = bs) \<and>
     (\<forall>bs. bs \<noteq> [] \<longrightarrow> qt_from_utf8 E (env_base64 E bs) \<noteq> [])"

lemma payload_empty: "migration_payload E es = [] \<longleftrightarrow> filter (\<lambda>e. entry_key e \<noteq> None) es = []"
  using payload_items_Nil [of E es] concat_write_Nil [of "payload_items E es"]
  by (auto simp: migration_payload_def migration_entries_items Let_def)

text \<open>
  C38: The migration link of a batch, read back, gives the exportable entries in order, each with its
  normalised secret, name, issuer, algorithm and type, and an HOTP entry with its counter. The format
  carries neither the period nor digits other than 6 and 8: those come back as 30 and 6. Entries
  without a decodable secret are left out, and a batch of such entries has no link at all. Names must
  be text that UTF-8 carries and the payload below 2 GiB, where the reader's positions would overflow; that a URL
  is read back as it was written and base64 decodes to what was encoded is asked of Qt.
\<close>

theorem migration_roundtrip:
  assumes "list_all (carries E) es" and "length (migration_payload E es) < 2 ^ 31" and "base64_kept E"
    and "env_url E (qt_trimmed E (ExportToMigrationLink E es)) = migration_url E es"
  shows "let kept = filter (\<lambda>e. entry_key e \<noteq> None) es in
    if kept = [] then ExportToMigrationLink E es = []
    else ExportToMigrationLink E es = env_url_string E (migration_url E es) \<and>
      ParseFromMigrationLink E (ExportToMigrationLink E es) = Some (map migrated kept)"
proof (cases "filter (\<lambda>e. entry_key e \<noteq> None) es = []")
  case True
  then show ?thesis using payload_empty [of E es] by (simp add: ExportToMigrationLink_def)
next
  case False
  then have p: "migration_payload E es \<noteq> []" using payload_empty [of E es] by simp
  then have "ExportToMigrationLink E es = env_url_string E (migration_url E es)"
    by (simp add: ExportToMigrationLink_def migration_url_def)
  moreover have "ParseFromMigrationLink E (ExportToMigrationLink E es) = parse_migration_payload E (migration_payload E es)"
    using assms(3) p unfolding ParseFromMigrationLink_def assms(4) Let_def
    by (simp add: migration_url_def queryItemValue_def base64_kept_def equals_ci_def)
  ultimately show ?thesis using migration_payload_roundtrip [OF assms(1,2)] False by simp
qed

subsection \<open>A concrete environment\<close>

text \<open>
  7-bit text, a constant MAC, and URL, base64 and JSON functions that fit one link and one
  document: the witnesses below evaluate on it.
\<close>

definition demo_entry :: Entry where
  "demo_entry = \<lparr>otp_name = ''ann'', otp_issuer = ''acme'', otp_secret = Base32Encode [97], otp_algorithm = SHA256,
     otp_type = TOTP, otp_digits = 8, otp_period = 30, otp_counter = 0\<rparr>"

definition demo_hotp :: Entry where
  "demo_hotp = \<lparr>otp_name = ''bob'', otp_issuer = [], otp_secret = Base32Encode [97, 98, 99], otp_algorithm = SHA1,
     otp_type = HOTP, otp_digits = 6, otp_period = 30, otp_counter = 7\<rparr>"

definition demo_mac :: bytes where
  "demo_mac = replicate 19 200 @ [3]"

definition demo_env :: otp_env where
  "demo_env = \<lparr>qt_trimmed = ascii_trim, qt_upper = map ascii_up, qt_lower = map ascii_low,
     qt_fold = map ascii_low, qt_int = ascii_int, qt_longlong = ascii_int,
     qt_utf8 = map (\<lambda>c. word_of_nat (of_char c)), qt_from_utf8 = map (\<lambda>b. char_of (unat b)),
     env_hmac = (\<lambda>h m k. demo_mac), env_url = (\<lambda>s. ExportToLink_url demo_entry),
     env_url_string = (\<lambda>u. ''otpauth://totp/acme:ann?secret=ME''), env_base64 = (\<lambda>bs. bs),
     env_from_base64 = (\<lambda>bs. bs), env_json_text = (\<lambda>v. [1]),
     env_json_parse = (\<lambda>bs. Some (JObj [(''otp'', JArr [JObj (entryToJsonObject demo_entry)]),
       (''version'', jint 1)])),
     env_lines = (\<lambda>s. [s]), env_groups = (\<lambda>s. [s])\<rparr>"

lemma demo_keys: "entry_key demo_entry = Some [97]" "entry_key demo_hotp = Some [97, 98, 99]"
  by (simp_all add: entry_key_def demo_entry_def demo_hotp_def Base32_roundtrip)

lemma demo_secret: "Base32Encode [97] = ''ME''"
  by code_simp

lemma demo_utf8:
  "qt_from_utf8 demo_env (qt_utf8 demo_env ''ann'') = ''ann''"
  "qt_from_utf8 demo_env (qt_utf8 demo_env ''acme'') = ''acme''"
  "qt_from_utf8 demo_env (qt_utf8 demo_env ''bob'') = ''bob''"
  by code_simp+

lemma demo_carries: "list_all (carries demo_env) [demo_entry, demo_hotp]"
proof -
  have "qt_from_utf8 demo_env (qt_utf8 demo_env []) = []" by (simp add: demo_env_def)
  with demo_keys demo_utf8 show ?thesis
    by (simp add: carries_def) (simp add: demo_entry_def demo_hotp_def)
qed

text \<open>The same environment, whose URL function fits the migration link of the two entries.\<close>

definition demo_migration_env :: otp_env where
  "demo_migration_env = demo_env\<lparr>env_url := (\<lambda>s. migration_url demo_env [demo_entry, demo_hotp])\<rparr>"

lemma demo_payload: "migration_payload demo_migration_env es = migration_payload demo_env es"
proof -
  have utf8: "qt_utf8 demo_migration_env = qt_utf8 demo_env" by (simp add: demo_migration_env_def)
  have "migration_entries demo_migration_env es = migration_entries demo_env es"
    by (induction es) (simp_all add: migration_parameters_def utf8 split: option.split)
  then show ?thesis by (simp add: migration_payload_def)
qed

theorem migration_roundtrip_witness:
  "ParseFromMigrationLink demo_migration_env (ExportToMigrationLink demo_migration_env [demo_entry, demo_hotp]) =
     Some [migrated demo_entry, migrated demo_hotp] \<and> migrated demo_entry = demo_entry"
proof -
  note same = demo_payload [of "[demo_entry, demo_hotp]"]
  have "list_all (carries demo_migration_env) [demo_entry, demo_hotp]"
    using demo_carries by (simp add: carries_def demo_migration_env_def)
  moreover have "length (migration_payload demo_env [demo_entry, demo_hotp]) < 200" by code_simp
  then have "length (migration_payload demo_migration_env [demo_entry, demo_hotp]) < 2 ^ 31" by (simp add: same)
  moreover have "word_of_nat (of_char (char_of (unat (b :: 8 word)) :: char)) = b" for b
    using unsigned_less [of b, where 'a = nat] by simp
  then have "base64_kept demo_migration_env" by (simp add: base64_kept_def demo_migration_env_def demo_env_def comp_def)
  moreover have "env_url demo_migration_env (qt_trimmed demo_migration_env (ExportToMigrationLink demo_migration_env [demo_entry, demo_hotp])) =
      migration_url demo_migration_env [demo_entry, demo_hotp]"
    by (simp add: migration_url_def same) (simp add: demo_migration_env_def migration_url_def)
  ultimately have "ParseFromMigrationLink demo_migration_env (ExportToMigrationLink demo_migration_env [demo_entry, demo_hotp]) =
     Some [migrated demo_entry, migrated demo_hotp]"
    using migration_roundtrip [of demo_migration_env "[demo_entry, demo_hotp]"] by (auto simp: demo_keys Let_def)
  moreover have "migrated demo_entry = demo_entry"
    by (simp add: migrated_def demo_entry_def NormalizeSecret_encode)
  ultimately show ?thesis by blast
qed

subsection \<open>Base32\<close>

text \<open>
  Base32 encoding loses nothing: decoding what was encoded gives the same bytes. Secrets are
  normalised to that form; normalising again changes nothing, and a secret that normalises to
  anything keeps the key it decodes to.
\<close>

theorem base32_lossless:
  "Base32Decode (Base32Encode bs) = Some bs \<and>
   NormalizeSecret (NormalizeSecret s) = NormalizeSecret s \<and>
   (NormalizeSecret s = [] \<or> Base32Decode (NormalizeSecret s) = Base32Decode s)"
proof (cases "NormalizeSecret s = []")
  case False
  then obtain k where "Base32Decode s = Some k" "k \<noteq> []"
    by (rule NormalizeSecret_nonemptyE)
  then show ?thesis
    by (simp add: Base32_roundtrip NormalizeSecret_idem NormalizeSecret_decodes)
next
  case True
  then show ?thesis
    using NormalizeSecret_idem [of s] by (simp add: Base32_roundtrip)
qed

text \<open>
  A field written anywhere in a buffer, with any 32-bit field number and any 64-bit value or
  byte string, is read back from its position as written, and the reader stops at its end.
\<close>

theorem wire_field_roundtrip:
  assumes "length bs < 2 ^ 31"
  shows "pbReadField (xs @ pbWriteUint n v @ ys) (length xs) =
      Some (\<lparr>pb_no = n, pb_wire = 0, pb_varint = v, pb_bytes = []\<rparr>, length xs + length (pbWriteUint n v)) \<and>
    pbReadField (xs @ pbWriteBytes n bs @ ys) (length xs) =
      Some (\<lparr>pb_no = n, pb_wire = 2, pb_varint = 0, pb_bytes = bs\<rparr>, length xs + length (pbWriteBytes n bs))"
  using pb.dec_enc [of "PbUint n v"] pb.dec_enc [of "PbBytes n bs"] assms by simp_all

theorem wire_field_roundtrip_witness:
  "pbReadField ([9] @ pbWriteBytes 2 [1, 2, 3] @ [8, 8]) 1 =
      Some (\<lparr>pb_no = 2, pb_wire = 2, pb_varint = 0, pb_bytes = [1, 2, 3]\<rparr>,
        1 + length (pbWriteBytes 2 [1, 2, 3]))"
  using wire_field_roundtrip [of "[1, 2, 3]" "[9]" 2 0 "[8, 8]"] by simp

subsection \<open>Codes\<close>

text \<open>
  C39: For a non-empty key and a digit count in range, a generated HOTP code is the dynamic
  truncation of RFC 4226: the four bytes of the MAC at the offset in its last nibble, all inside
  the MAC, read as a 31-bit big-endian number modulo ten to the digits, in exactly that many
  decimal digits. The MAC is taken over the eight-byte big-endian counter.
\<close>

theorem hotp_rfc4226:
  assumes "key \<noteq> []" and "MIN_DIGITS \<le> d" and "d \<le> MAX_DIGITS"
    and "mac = env_hmac E (toHash alg) (hotp_message 8 ctr []) key" and "20 \<le> length mac"
    and "offset = unat (mac ! (length mac - 1) AND 0x0F)"
  shows "GenerateHOTP E key ctr alg d = zero_padded (nat d) (rfc4226_value mac offset mod 10 ^ nat d) \<and>
    length (GenerateHOTP E key ctr alg d) = nat d \<and>
    set (GenerateHOTP E key ctr alg d) \<subseteq> {c. is_digit c} \<and>
    offset + 3 < length mac \<and>
    length (hotp_message 8 ctr []) = 8 \<and> be_value (hotp_message 8 ctr []) = unat ctr"
proof (intro conjI)
  show code: "GenerateHOTP E key ctr alg d = zero_padded (nat d) (rfc4226_value mac offset mod 10 ^ nat d)"
    using GenerateHOTP_value assms by blast
  show "length (GenerateHOTP E key ctr alg d) = nat d"
    unfolding code using assms(2) by (intro length_zero_padded) (simp_all add: otp_limits)
  show "set (GenerateHOTP E key ctr alg d) \<subseteq> {c. is_digit c}"
    by (rule GenerateHOTP_digits)
  show "offset + 3 < length mac"
    using hotp_offset_in_range assms(5,6) by simp
qed (simp_all add: hotp_message_be)

theorem hotp_rfc4226_witness:
  "GenerateHOTP demo_env [1] 5 SHA1 6 = zero_padded 6 (rfc4226_value demo_mac 3 mod 10 ^ 6) \<and>
   length (GenerateHOTP demo_env [1] 5 SHA1 6) = 6"
proof -
  have mac: "demo_mac = env_hmac demo_env (toHash SHA1) (hotp_message 8 5 []) [1]"
    by (simp add: demo_env_def)
  have off: "3 = unat (demo_mac ! (length demo_mac - 1) AND 0x0F)"
    by (simp add: demo_mac_def nth_append)
  have h: "[1 :: 8 word] \<noteq> []" "MIN_DIGITS \<le> 6" "6 \<le> MAX_DIGITS" "20 \<le> length demo_mac"
    by (simp_all add: otp_limits demo_mac_def)
  show ?thesis
    using hotp_rfc4226 [OF h(1,2,3) mac h(4) off] by (metis nat_numeral)
qed

text \<open>
  A usable TOTP entry shows between one and \<open>period\<close> remaining seconds, and its code stays the
  same until they have passed: it depends on the time step only, and the displayed countdown
  ends exactly when the step does.
\<close>

theorem totp_window:
  assumes "Validate E e = None" and "otp_type e = TOTP" and "0 \<le> t"
    and "0 \<le> k" and "k < SecondsRemaining e clock t"
  shows "GenerateCode E e clock (t + k) = GenerateCode E e clock t \<and>
    1 \<le> SecondsRemaining e clock t \<and> SecondsRemaining e clock t \<le> otp_period e \<and>
    (t + SecondsRemaining e clock t) div otp_period e = t div otp_period e + 1"
proof -
  have p: "0 < otp_period e"
    using assms(1,2) by (auto elim!: Validate_usable simp: otp_limits)
  then have rem: "SecondsRemaining e clock t = otp_period e - t mod otp_period e"
    using assms(2,3) by (simp add: SecondsRemaining_def otp_limits)
  have m: "0 \<le> t mod otp_period e" "t mod otp_period e < otp_period e"
    using p by simp_all
  have step: "(t + j) div otp_period e = t div otp_period e + (t mod otp_period e + j) div otp_period e" for j
  proof -
    have "t + j = (t mod otp_period e + j) + t div otp_period e * otp_period e"
      using div_mult_mod_eq [of t "otp_period e"] by linarith
    then have "(t + j) div otp_period e =
        ((t mod otp_period e + j) + t div otp_period e * otp_period e) div otp_period e"
      by (rule arg_cong)
    also have "\<dots> = t div otp_period e + (t mod otp_period e + j) div otp_period e"
      using p by (intro div_mult_self1) simp
    finally show ?thesis .
  qed
  have "(t + k) div otp_period e = t div otp_period e"
    using step [of k] rem m assms(4,5) by simp
  then have "GenerateCode E e clock (t + k) = GenerateCode E e clock t"
    using assms p by (simp add: GenerateCode_def Let_def)
  moreover have "1 \<le> SecondsRemaining e clock t \<and> SecondsRemaining e clock t \<le> otp_period e"
    using rem m by simp
  moreover have "(t + SecondsRemaining e clock t) div otp_period e = t div otp_period e + 1"
    using step [of "SecondsRemaining e clock t"] rem p by simp
  ultimately show ?thesis by blast
qed

theorem totp_window_witness:
  "GenerateCode demo_env demo_entry 0 (59 + 0) = GenerateCode demo_env demo_entry 0 59 \<and>
   SecondsRemaining demo_entry 0 59 = 1"
proof -
  have "ascii_trim ''ME'' = ''ME''" by code_simp
  then have "qt_trimmed demo_env (otp_secret demo_entry) \<noteq> []"
    by (simp add: demo_env_def demo_entry_def demo_secret)
  moreover have "Base32Decode (otp_secret demo_entry) = Some [97]"
    by (simp add: demo_entry_def Base32_roundtrip)
  moreover have "otp_digits demo_entry = 8" "otp_period demo_entry = 30"
    by (simp_all add: demo_entry_def)
  ultimately have "Validate demo_env demo_entry = None"
    by (simp add: Validate_def otp_limits)
  moreover have r: "SecondsRemaining demo_entry 0 59 = 1"
    by (simp add: SecondsRemaining_def demo_entry_def otp_limits)
  moreover have "otp_type demo_entry = TOTP" by (simp add: demo_entry_def)
  ultimately show ?thesis
    using totp_window [of demo_env demo_entry 59 0 0] by simp
qed

subsection \<open>Links\<close>

lemma split_label_issuer:
  assumes "CHR '':'' \<notin> set iss"
  shows "split_label E (''/'' @ iss @ '':'' @ nm) = (qt_trimmed E iss, qt_trimmed E nm)"
proof -
  have "\<forall>c \<in> set iss. c \<noteq> CHR '':''" using assms by auto
  then have "takeWhile (\<lambda>c. c \<noteq> CHR '':'') (iss @ '':'' @ nm) = iss"
    and "dropWhile (\<lambda>c. c \<noteq> CHR '':'') (iss @ '':'' @ nm) = '':'' @ nm"
    by (simp_all add: takeWhile_append2 dropWhile_append2)
  then show ?thesis by (simp add: split_label_def starts_with_def)
qed

lemma split_label_plain:
  "CHR '':'' \<notin> set nm \<Longrightarrow> split_label E (''/'' @ nm) = ([], qt_trimmed E nm)"
  by (simp add: split_label_def starts_with_def)

text \<open>What an \<^verbatim>\<open>otpauth://\<close> link can carry: trimmed names that the label separates, a key, limits.\<close>

definition linkable :: "otp_env \<Rightarrow> Entry \<Rightarrow> bool" where
  "linkable E e \<longleftrightarrow>
     qt_trimmed E (otp_name e) = otp_name e \<and> otp_name e \<noteq> [] \<and>
     qt_trimmed E (otp_issuer e) = otp_issuer e \<and>
     CHR '':'' \<notin> set (otp_issuer e) \<and> (otp_issuer e = [] \<longrightarrow> CHR '':'' \<notin> set (otp_name e)) \<and>
     NormalizeSecret (otp_secret e) = otp_secret e \<and> otp_secret e \<noteq> [] \<and>
     MIN_DIGITS \<le> otp_digits e \<and> otp_digits e \<le> MAX_DIGITS \<and>
     MIN_PERIOD \<le> otp_period e \<and> otp_period e \<le> MAX_PERIOD"

text \<open>Qt parses the numbers and names it prints.\<close>

definition parses_numbers :: "'z qt_text_scheme \<Rightarrow> Entry \<Rightarrow> bool" where
  "parses_numbers Q e \<longleftrightarrow> qt_int Q (number (otp_digits e)) = otp_digits e \<and>
     qt_int Q (number (otp_period e)) = otp_period e \<and>
     qt_longlong Q (number (otp_counter e)) = otp_counter e \<and> qt_trimmed Q [] = []"

text \<open>
  C40: Parsing the exported link of an entry gives the entry back, whichever optional parts it
  has: issuer and name are separated again at the label's colon, and every query item is
  restored. A link has no period for HOTP and no counter for TOTP; those return to 30 and 0.
\<close>

theorem link_roundtrip:
  assumes "env_url E (qt_trimmed E (ExportToLink E e)) = ExportToLink_url e"
    and "keeps_tokens E" and "parses_numbers E e" and "linkable E e"
  shows "ParseFromLink E (ExportToLink E e) =
    Some (e\<lparr>otp_period := (if otp_type e = HOTP then 30 else otp_period e),
            otp_counter := (if otp_type e = HOTP then otp_counter e else 0)\<rparr>)"
proof -
  have label: "split_label E (url_path (ExportToLink_url e)) = (otp_issuer e, otp_name e)"
  proof (cases "otp_issuer e = []")
    case True
    with assms(4) show ?thesis
      using split_label_plain [of "otp_name e" E] by (simp add: ExportToLink_url_def linkable_def)
  next
    case False
    with assms(4) show ?thesis
      using split_label_issuer [of "otp_issuer e" E "otp_name e"]
      by (simp add: ExportToLink_url_def linkable_def)
  qed
  define u where "u = ExportToLink_url e"
  have q: "queryItemValue u ''secret'' = otp_secret e" "queryItemValue u ''issuer'' = otp_issuer e"
      "queryItemValue u ''algorithm'' = AlgorithmToString (otp_algorithm e)" "hasQueryItem u ''algorithm''"
      "queryItemValue u ''digits'' = number (otp_digits e)" "hasQueryItem u ''digits''"
      "hasQueryItem u ''period'' \<longleftrightarrow> otp_type e = TOTP" "hasQueryItem u ''counter'' \<longleftrightarrow> otp_type e = HOTP"
      "otp_type e = TOTP \<Longrightarrow> queryItemValue u ''period'' = number (otp_period e)"
      "otp_type e = HOTP \<Longrightarrow> queryItemValue u ''counter'' = number (otp_counter e)"
      "url_valid u" "url_scheme u = ''otpauth''" "url_host u = TypeToString (otp_type e)"
    by (cases "otp_type e"; simp add: u_def ExportToLink_url_def queryItemValue_def hasQueryItem_def)+
  have "ParseFromLink E (ExportToLink E e) =
    Some (e\<lparr>otp_period := (if otp_type e = HOTP then 30 else otp_period e),
            otp_counter := (if otp_type e = HOTP then otp_counter e else 0)\<rparr>)"
    using assms(2-4) label [folded u_def] q
    unfolding ParseFromLink_def assms(1) u_def [symmetric]
    by (cases "otp_type e"; cases "otp_issuer e = []")
      (simp_all add: equals_ci_def linkable_def parses_numbers_def link_query_def link_defaults_def
        new_Entry_def otp_limits Let_def)
  then show ?thesis .
qed

theorem link_roundtrip_witness:
  "ParseFromLink demo_env (ExportToLink demo_env demo_entry) = Some demo_entry"
proof -
  have t: "ascii_trim ''ann'' = ''ann''" "ascii_trim ''acme'' = ''acme''" "ascii_trim [] = []"
    by code_simp+
  have n: "ascii_int (number 8) = 8" "ascii_int (number 30) = 30" "ascii_int (number 0) = 0"
    by code_simp+
  have "linkable demo_env demo_entry"
    by (simp add: linkable_def demo_entry_def demo_env_def otp_limits NormalizeSecret_encode
        Base32Encode_nonempty t)
  moreover have "parses_numbers demo_env demo_entry"
    by (simp add: parses_numbers_def demo_entry_def demo_env_def n t)
  moreover have "keeps_tokens demo_env" by code_simp
  moreover have "env_url demo_env (qt_trimmed demo_env (ExportToLink demo_env demo_entry)) =
      ExportToLink_url demo_entry"
    by (simp add: demo_env_def)
  ultimately show ?thesis
    using link_roundtrip [of demo_env demo_entry] by (simp add: demo_entry_def)
qed

text \<open>
  An entry accepted from a link can always generate codes: out-of-range digits and periods
  are replaced by the defaults and the secret is a non-empty base32 key, so validation finds
  nothing wrong. (Trimming does not empty base32 text, which has no blanks.)
\<close>

theorem link_entries_usable:
  assumes "\<forall>bs. bs \<noteq> [] \<longrightarrow> qt_trimmed E (Base32Encode bs) \<noteq> []"
    and "ParseFromLink E link = Some e"
  shows "Validate E e = None"
proof -
  let ?s = "NormalizeSecret (queryItemValue (env_url E (qt_trimmed E link)) ''secret'')"
  have s: "?s \<noteq> []" "otp_secret e = ?s"
    using assms(2) by (auto simp: ParseFromLink_def Let_def split: if_splits)
  then obtain k where "k \<noteq> []" "otp_secret e = Base32Encode k"
    by (metis NormalizeSecret_nonemptyE)
  moreover have "MIN_DIGITS \<le> otp_digits e \<and> otp_digits e \<le> MAX_DIGITS"
      "MIN_PERIOD \<le> otp_period e \<and> otp_period e \<le> MAX_PERIOD"
    using assms(2) link_defaults_range by (auto simp: ParseFromLink_def Let_def split: if_splits)
  ultimately show ?thesis
    using assms(1) by (simp add: Validate_def Base32_roundtrip)
qed

lemma ascii_trim_cons:
  "\<not> ascii_space c \<Longrightarrow> ascii_trim (c # cs) \<noteq> []"
  by (simp add: ascii_trim_def dropWhile_eq_Nil_conv)

lemma base32_no_space: "\<not> ascii_space (base32_char w)"
proof -
  have "list_all (\<lambda>k. \<not> ascii_space (BASE32_ALPHABET ! k)) [0..<32]" by code_simp
  with low5_bound [of w] show ?thesis by (simp add: base32_char_def list_all_iff)
qed

lemma base32_trim: "bs \<noteq> [] \<Longrightarrow> ascii_trim (Base32Encode bs) \<noteq> []"
proof -
  assume "bs \<noteq> []"
  moreover obtain ws where ws: "Base32Encode bs = map base32_char ws"
    using Base32Encode_loop_bits [of 0 0 "[]" bs] by (auto simp: Base32Encode_def)
  ultimately have "ws \<noteq> []" using Base32Encode_nonempty by fastforce
  with ws show ?thesis by (cases ws) (simp_all add: ascii_trim_cons base32_no_space)
qed

theorem link_entries_usable_witness: "Validate demo_env demo_entry = None"
proof (rule link_entries_usable)
  show "\<forall>bs. bs \<noteq> [] \<longrightarrow> qt_trimmed demo_env (Base32Encode bs) \<noteq> []"
    by (simp add: demo_env_def base32_trim)
  have t: "ascii_trim ''ann'' = ''ann''" "ascii_trim ''acme'' = ''acme''"
      "ascii_trim ''totp'' = ''totp''" "ascii_trim ''SHA256'' = ''SHA256''"
      "map ascii_low ''totp'' = ''totp''" "map ascii_up ''SHA256'' = ''SHA256''"
      "ascii_int (number 8) = 8" "ascii_int (number 30) = 30"
    by code_simp+
  have l: "split_label demo_env ''/acme:ann'' = (''acme'', ''ann'')"
    by code_simp
  show "ParseFromLink demo_env ''otpauth://totp/acme:ann'' = Some demo_entry"
    using t l unfolding ParseFromLink_def
    by (simp add: demo_env_def ExportToLink_url_def demo_entry_def NormalizeSecret_encode
        Base32Encode_nonempty queryItemValue_def hasQueryItem_def equals_ci_def new_Entry_def
        otp_limits link_query_def link_defaults_def TypeToString_def TypeFromString_def
        AlgorithmToString_def AlgorithmFromString_def)
qed

end
