(* ===== verification/AutoSelectorProps.thy ===== *)
theory AutoSelectorProps
  imports AutoSelector
begin

text \<open>
  Clamping is a projection onto the settings the program accepts, the JSON form is lossless for
  them, and the usage history is a bounded move-to-front list.
\<close>

text \<open>
  Normalising a selector always yields settings in range (the ready set inside the closely
  checked set inside the built set inside the ranked set; intervals ordered; enumerated modes),
  and leaves settings alone exactly when they already are.
\<close>

theorem Normalize_projection: "normal (Normalize s) \<and> (Normalize s = s \<longleftrightarrow> normal s)"
  using Normalize_normal Normalize_id by metis

text \<open>What JSON and the parser can carry: 32-bit integers, exact doubles, trimmed filters.\<close>

definition storable :: "'z qt_text_scheme \<Rightarrow> autoSelector \<Rightarrow> bool" where
  "storable Q s \<longleftrightarrow>
     list_all is_int32 [as_gid s, as_poolCap s, as_buildLimit s, as_resultValidityMins s,
       as_intervalSec s, as_benchIntervalSec s, as_watchIntervalSec s, as_activeSize s, as_sampling s,
       as_toleranceMs s, as_maxRTTms s, as_expected s, as_dialRetries s, as_balanceIntervalSec s,
       as_pinnedID s] \<and>
     list_all is_int32 (as_pool s) \<and> list_all is_int32 (as_lastBuilt s) \<and>
     \<bar>as_poolRankedAt s\<bar> \<le> 2 ^ 53 \<and> \<bar>as_lastBuiltAt s\<bar> \<le> 2 ^ 53 \<and>
     list_all (\<lambda>f. f \<noteq> [] \<and> qt_trimmed Q f = f) (as_priorityNameFilters s) \<and>
     list_all (\<lambda>t. distinct t \<and> list_all (\<lambda>i. 0 \<le> i \<and> is_int32 i) t) (as_priorityProfileIds s)"

lemma parse_tiers_export:
  "list_all (\<lambda>t. distinct t \<and> list_all (\<lambda>i. 0 \<le> i \<and> is_int32 i) t) ts \<Longrightarrow>
   map (\<lambda>t. parse_tier [] (to_arr t)) (map (\<lambda>t. JArr (map jint t)) ts) = ts"
  by (induction ts) (auto simp: parse_tier_export)

lemma export_nonempty: "autoSelector_ExportToJson s \<noteq> []"
  using keys_jbuild [of "(''type'', JStr ''autoselector'') # selector_members s"]
  by (auto simp: autoSelector_ExportToJson_def)

lemma parse_export_fields:
  assumes "storable Q s"
  shows "fold (\<lambda>((k, f), (k', v)) s. f v s) (zip (selector_parsers Q) (selector_members s)) s0 = s"
proof -
  have ok: "list_all is_int32 (as_pool s)" "list_all is_int32 (as_lastBuilt s)"
      "\<bar>as_poolRankedAt s\<bar> \<le> 2 ^ 53" "\<bar>as_lastBuiltAt s\<bar> \<le> 2 ^ 53"
    using assms by (simp_all only: storable_def)
  have ints: "is_int32 (as_gid s)" "is_int32 (as_poolCap s)" "is_int32 (as_buildLimit s)"
      "is_int32 (as_resultValidityMins s)" "is_int32 (as_intervalSec s)" "is_int32 (as_benchIntervalSec s)"
      "is_int32 (as_watchIntervalSec s)" "is_int32 (as_activeSize s)" "is_int32 (as_sampling s)"
      "is_int32 (as_toleranceMs s)" "is_int32 (as_maxRTTms s)" "is_int32 (as_expected s)"
      "is_int32 (as_dialRetries s)" "is_int32 (as_balanceIntervalSec s)" "is_int32 (as_pinnedID s)"
    using assms by (simp_all only: storable_def list.pred_inject)
  have lists: "parse_name_filters Q (map JStr (as_priorityNameFilters s)) = as_priorityNameFilters s"
      "map (\<lambda>t. parse_tier [] (to_arr t)) (map (\<lambda>t. JArr (map jint t)) (as_priorityProfileIds s)) =
        as_priorityProfileIds s"
    using assms by (auto simp only: storable_def intro!: parse_name_filters_export parse_tiers_export)
  show ?thesis
    unfolding selector_parsers_def selector_members_def zip_Cons_Cons zip_Nil fold_simps split_conv
      conversions ok(3,4) [THEN double_int64_exact] ok(1,2) [THEN QListInt_roundtrip] ints [THEN to_int_jint] lists
    by (cases s; cases s0) simp
qed

text \<open>
  C23: A selector written to JSON and parsed back, into whatever object the parser starts from,
  is the selector that was written, normalised; nothing of its settings, pools, timestamps or
  history is lost, and no leftover of the target object shows through.
\<close>

theorem selector_json_roundtrip:
  assumes "storable Q s"
  shows "autoSelector_ParseFromJson Q (autoSelector_ExportToJson s) s0 = Some (Normalize s)"
proof -
  let ?fs = "(''type'', JStr ''autoselector'') # selector_members s"
  have "distinct (map fst ?fs)" using selector_keys_distinct [of s] by simp
  moreover have "list_all2 (\<lambda>(k, f) (k', v). k = k' \<and> (k', v) \<in> set ?fs)
      (selector_parsers Q) (selector_members s)"
    by (rule list_all2_keys) (auto intro: selector_keys)
  ultimately have "parse_members (selector_parsers Q) (autoSelector_ExportToJson s) s0 = s"
    unfolding autoSelector_ExportToJson_def
    by (subst parse_members_jbuild) (auto simp only: parse_export_fields [OF assms])
  then show ?thesis by (simp add: autoSelector_ParseFromJson_def export_nonempty)
qed

definition demo_selector :: autoSelector where
  "demo_selector = new_autoSelector\<lparr>as_name := ''auto'', as_gid := 3,
     as_priorityNameFilters := [''NL'', ''DE''], as_priorityProfileIds := [[4, 7], [2]],
     as_pool := [7, 4, 2], as_poolRankedAt := 1700000000, as_balanceMode := ''fastest''\<rparr>"

theorem selector_json_roundtrip_witness:
  "autoSelector_ParseFromJson ascii_text (autoSelector_ExportToJson demo_selector) new_autoSelector =
   Some (demo_selector\<lparr>as_balanceMode := ''rotate''\<rparr>)"
proof -
  have "storable ascii_text demo_selector" by code_simp
  moreover have "Normalize demo_selector = demo_selector\<lparr>as_balanceMode := ''rotate''\<rparr>"
    by (simp add: demo_selector_def new_autoSelector_def Normalize_def at_least_def at_most_def
        selector_caps)
  ultimately show ?thesis
    using selector_json_roundtrip [of ascii_text demo_selector new_autoSelector] by simp
qed

subsection \<open>History\<close>

text \<open>
  The specification of one use: the entry of the member moves to the front, with its use counted
  and dated; the others keep their order.
\<close>

definition move_to_front :: "(int \<rightharpoonup> string) \<Rightarrow> int \<Rightarrow> int \<Rightarrow> HistoryEntry list \<Rightarrow> HistoryEntry list" where
  "move_to_front names now i es =
     touch_entry names now i (case find (\<lambda>e. he_id e = i) es of Some e \<Rightarrow> e | None \<Rightarrow> new_HistoryEntry)
       # filter (\<lambda>e. he_id e \<noteq> i) es"

text \<open>The hash and the order list hold a list of entries.\<close>

definition holds_entries :: "(int \<rightharpoonup> HistoryEntry) \<times> int list \<Rightarrow> HistoryEntry list \<Rightarrow> bool" where
  "holds_entries st es \<longleftrightarrow> snd st = map he_id es \<and> distinct (map he_id es) \<and>
     (\<forall>e \<in> set es. 0 \<le> he_id e \<and> fst st (he_id e) = Some e) \<and> dom (fst st) = he_id ` set es"

lemma load_history_holds:
  assumes "holds_entries st es" and "distinct (map he_id (es @ xs))" and "list_all (\<lambda>e. 0 \<le> he_id e) xs"
  shows "holds_entries (load_history xs st) (es @ xs)"
  using assms
proof (induction xs arbitrary: st es)
  case Nil
  then show ?case by (cases st) simp
next
  case (Cons x xs)
  obtain byID order where st: "st = (byID, order)" by (cases st)
  have "holds_entries (byID(he_id x \<mapsto> x), order @ [he_id x]) (es @ [x])"
    using Cons.prems unfolding holds_entries_def st by (auto, metis imageI)
  from Cons.IH [OF this] Cons.prems show ?case by (simp add: st)
qed

lemma touch_entry_id [simp]: "he_id e = i \<or> he_id e < 0 \<Longrightarrow> he_id (touch_entry names now i e) = i \<or> i < 0"
  by (auto simp: touch_entry_def Let_def split: option.splits)

lemma touch_entry_new_id [simp]: "he_id (touch_entry names now i new_HistoryEntry) = i"
  by (simp add: touch_entry_def new_HistoryEntry_def Let_def split: option.splits)

lemma touch_entry_old_id [simp]: "0 \<le> he_id e \<Longrightarrow> he_id (touch_entry names now i e) = he_id e"
  by (simp add: touch_entry_def Let_def split: option.splits)

lemma remove1_ids: "distinct (map he_id es) \<Longrightarrow> remove1 i (map he_id es) = map he_id (filter (\<lambda>e. he_id e \<noteq> i) es)"
proof (induction es)
  case (Cons e es)
  then have "he_id e = i \<Longrightarrow> filter (\<lambda>x. he_id x \<noteq> i) es = es"
    by (auto simp: filter_id_conv image_iff)
  with Cons show ?case by auto
qed simp

lemma hash_value_find:
  assumes "holds_entries (byID, order) es"
  shows "hash_value byID i = (case find (\<lambda>e. he_id e = i) es of Some e \<Rightarrow> e | None \<Rightarrow> new_HistoryEntry)"
proof (cases "find (\<lambda>e. he_id e = i) es")
  case None
  then have "i \<notin> he_id ` set es" by (auto simp: find_None_iff)
  then have "byID i = None" using assms by (auto simp: holds_entries_def dom_def)
  with None show ?thesis by (simp add: hash_value_def)
next
  case (Some e)
  then have "e \<in> set es" "he_id e = i" by (auto simp: find_Some_iff)
  with assms Some show ?thesis by (auto simp: hash_value_def holds_entries_def)
qed

lemma touch_step:
  assumes "holds_entries (byID, order) es" and "0 \<le> i"
  shows "holds_entries (byID(i \<mapsto> touch_entry names now i (hash_value byID i)),
      i # (if he_id (hash_value byID i) < 0 then order else remove1 i order)) (move_to_front names now i es)"
proof (cases "find (\<lambda>e. he_id e = i) es")
  case None
  then have fresh: "\<forall>e \<in> set es. he_id e \<noteq> i" by (auto simp: find_None_iff)
  then have "filter (\<lambda>e. he_id e \<noteq> i) es = es" by (auto simp: filter_id_conv)
  moreover have "hash_value byID i = new_HistoryEntry" using hash_value_find [OF assms(1), of i] None by simp
  moreover have "he_id new_HistoryEntry = -1" by (simp add: new_HistoryEntry_def)
  ultimately show ?thesis
    using assms fresh None by (auto simp: holds_entries_def move_to_front_def)
next
  case (Some e)
  then have e: "e \<in> set es" "he_id e = i" by (auto simp: find_Some_iff)
  moreover have "hash_value byID i = e" using hash_value_find [OF assms(1), of i] Some by simp
  moreover have "remove1 i order = map he_id (filter (\<lambda>e. he_id e \<noteq> i) es)"
    using assms(1) by (simp add: holds_entries_def remove1_ids)
  moreover have "distinct (map he_id (filter (\<lambda>e. he_id e \<noteq> i) es))"
    using assms(1) by (simp add: holds_entries_def distinct_map_filter)
  ultimately show ?thesis
    using assms Some by (auto simp: holds_entries_def move_to_front_def)
qed

lemma touch_history_holds:
  assumes "holds_entries st es" and "list_all (\<lambda>i. 0 \<le> i) is"
  shows "holds_entries (touch_history names now is st) (fold (move_to_front names now) is es)"
  using assms
proof (induction "is" arbitrary: st es)
  case Nil
  then show ?case by (cases st) simp
next
  case (Cons i "is")
  obtain byID order where st: "st = (byID, order)" by (cases st)
  have "holds_entries (byID(i \<mapsto> touch_entry names now i (hash_value byID i)),
      i # (if he_id (hash_value byID i) < 0 then order else remove1 i order)) (move_to_front names now i es)"
    using Cons.prems touch_step [of byID order es i names now] by (simp add: st)
  from Cons.IH [OF this] Cons.prems show ?case by (simp add: st Let_def)
qed

lemma trim_history_holds:
  "holds_entries st es \<Longrightarrow> holds_entries (trim_history st) (take kMaxHistoryEntries es)"
proof (induction st arbitrary: es rule: trim_history.induct)
  case (1 byID order)
  have len: "length order = length es" using "1.prems" by (simp add: holds_entries_def)
  show ?case
  proof (cases "kMaxHistoryEntries < length order")
    case True
    then obtain xs x where es: "es = xs @ [x]" using len by (cases es rule: rev_cases) auto
    have "holds_entries (byID(last order := None), butlast order) xs"
      unfolding holds_entries_def
    proof (intro conjI ballI)
      from "1.prems" have held: "order = map he_id xs @ [he_id x]" "distinct (map he_id xs)"
          "he_id x \<notin> he_id ` set xs" "dom byID = insert (he_id x) (he_id ` set xs)"
        and each: "\<And>e. e \<in> set xs \<Longrightarrow> 0 \<le> he_id e \<and> byID (he_id e) = Some e"
        by (simp_all add: holds_entries_def es)
      show "snd (byID(last order := None), butlast order) = map he_id xs" "distinct (map he_id xs)"
        using held by simp_all
      show "dom (fst (byID(last order := None), butlast order)) = he_id ` set xs"
        using held(3,4) by (simp add: held(1))
      show "0 \<le> he_id e" "fst (byID(last order := None), butlast order) (he_id e) = Some e"
        if "e \<in> set xs" for e
      proof -
        have "he_id e \<noteq> he_id x" using that held(3) by (metis imageI)
        with each [OF that] show "0 \<le> he_id e" "fst (byID(last order := None), butlast order) (he_id e) = Some e"
          by (simp_all add: held(1))
      qed
    qed
    from "1.IH" [OF True this] show ?thesis
      using True len by (subst trim_history.simps) (simp add: es)
  next
    case False
    with "1.prems" len show ?thesis by (subst trim_history.simps) simp
  qed
qed

lemma holds_entries_values: "holds_entries st es \<Longrightarrow> map (hash_value (fst st)) (snd st) = es"
  by (auto simp: holds_entries_def hash_value_def intro!: map_idI)

text \<open>Entries that JSON carries.\<close>

definition entry_fits :: "HistoryEntry \<Rightarrow> bool" where
  "entry_fits e \<longleftrightarrow> 0 \<le> he_id e \<and> is_int32 (he_id e) \<and> is_int32 (he_builds e) \<and> is_int32 (he_failures e) \<and>
     \<bar>he_firstUsed e\<bar> \<le> 2 ^ 53 \<and> \<bar>he_lastUsed e\<bar> \<le> 2 ^ 53"

lemma history_object_roundtrip:
  assumes "entry_fits e"
  shows "history_entry (to_obj (history_object e)) = e"
  using assms by (simp add: history_entry_def history_object_def jget_jbuild entry_fits_def)

lemma HistoryEntries_objects: "list_all entry_fits es \<Longrightarrow> HistoryEntries (map history_object es) = es"
  by (induction es) (auto simp: HistoryEntries_def history_object_roundtrip entry_fits_def)

lemma touch_entry_name:
  "touch_entry names now i e =
     (let e' = if he_id e < 0 then e\<lparr>he_id := i, he_firstUsed := now\<rparr> else e
      in e'\<lparr>he_lastUsed := now, he_builds := he_builds e + 1,
            he_name := (case names i of Some n \<Rightarrow> n | None \<Rightarrow> he_name e)\<rparr>)"
  by (simp add: touch_entry_def Let_def split: option.splits)

lemma fits_touch:
  assumes "0 \<le> i" "is_int32 i" "\<bar>now\<bar> \<le> 2 ^ 53"
    and "entry_fits e \<or> e = new_HistoryEntry" and "he_builds e + 1 < 2 ^ 31"
  shows "entry_fits (touch_entry names now i e)"
proof (cases "e = new_HistoryEntry")
  case True
  with assms show ?thesis
    by (simp add: touch_entry_name entry_fits_def new_HistoryEntry_def is_int32_def)
next
  case False
  with assms have "entry_fits e" by simp
  moreover from this have "\<not> he_id e < 0" by (simp add: entry_fits_def)
  moreover have "is_int32 (he_builds e + 1)"
    using calculation(1) assms(5) by (simp add: entry_fits_def is_int32_def)
  ultimately show ?thesis
    using assms(3) by (simp add: touch_entry_name entry_fits_def)
qed

lemma touch_builds: "he_builds (touch_entry names now i e) = he_builds e + 1"
  by (simp add: touch_entry_def Let_def split: option.splits)

lemma move_to_front_fits:
  assumes "list_all (\<lambda>e. entry_fits e \<and> he_builds e \<le> b) es" and "0 \<le> b" "b + 1 < 2 ^ 31"
    and "0 \<le> i" "is_int32 i" "\<bar>now\<bar> \<le> 2 ^ 53"
  shows "list_all (\<lambda>e. entry_fits e \<and> he_builds e \<le> b + 1) (move_to_front names now i es)"
proof -
  define e where "e = (case find (\<lambda>e. he_id e = i) es of Some e \<Rightarrow> e | None \<Rightarrow> new_HistoryEntry)"
  have "e = new_HistoryEntry \<or> (e \<in> set es \<and> he_id e = i)"
    unfolding e_def by (auto split: option.splits simp: find_Some_iff)
  then have "entry_fits (touch_entry names now i e)" "he_builds e \<le> b"
    using assms by (auto intro!: fits_touch simp: list_all_iff new_HistoryEntry_def)
  then show ?thesis
    using assms(1) unfolding move_to_front_def e_def [symmetric]
    by (auto simp: list_all_iff touch_builds)
qed

lemma moves_fit:
  assumes "list_all (\<lambda>e. entry_fits e \<and> he_builds e \<le> b) es" and "0 \<le> b"
    and "b + int (length is) < 2 ^ 31" and "list_all (\<lambda>i. 0 \<le> i \<and> is_int32 i) is" and "\<bar>now\<bar> \<le> 2 ^ 53"
  shows "list_all entry_fits (fold (move_to_front names now) is es)"
  using assms
proof (induction "is" arbitrary: es b)
  case Nil
  then show ?case by (auto simp: list_all_iff)
next
  case (Cons i "is")
  have "list_all (\<lambda>e. entry_fits e \<and> he_builds e \<le> b + 1) (move_to_front names now i es)"
    using Cons.prems by (intro move_to_front_fits) auto
  from Cons.IH [OF this] Cons.prems show ?case by simp
qed

text \<open>
  C18: Recording a build refines a move-to-front list cut off at \<open>kMaxHistoryEntries\<close>: the members
  used move to the front in order of use with their counters and dates updated, everything else
  keeps its place, no member appears twice, and only the least recently used entries are dropped.
\<close>

theorem history_refines_move_to_front:
  assumes "distinct (map he_id (HistoryEntries history))"
    and "list_all (\<lambda>e. entry_fits e \<and> he_builds e \<le> b) (HistoryEntries history)"
    and "0 \<le> b" and "b + int (length ids) < 2 ^ 31"
    and "list_all (\<lambda>i. 0 \<le> i \<and> is_int32 i) ids" and "\<bar>now\<bar> \<le> 2 ^ 53"
  shows "HistoryEntries (RecordHistory ids names now history) =
      take kMaxHistoryEntries (fold (move_to_front names now) ids (HistoryEntries history))"
proof -
  let ?es = "HistoryEntries history"
  let ?new = "fold (move_to_front names now) ids ?es"
  have "holds_entries (Map.empty, []) []" by (simp add: holds_entries_def)
  then have "holds_entries (load_history ?es (Map.empty, [])) ?es"
    using load_history_holds [of "(Map.empty, [])" "[]" ?es] assms(1)
    by (simp add: list_all_iff HistoryEntries_def)
  then have "holds_entries (touch_history names now ids (load_history ?es (Map.empty, []))) ?new"
    using assms(5) by (intro touch_history_holds) (auto simp: list_all_iff)
  then have held: "holds_entries (trim_history (touch_history names now ids (load_history ?es (Map.empty, []))))
      (take kMaxHistoryEntries ?new)"
    by (rule trim_history_holds)
  define st where "st = trim_history (touch_history names now ids (load_history ?es (Map.empty, [])))"
  have "RecordHistory ids names now history = map history_object (take kMaxHistoryEntries ?new)"
    unfolding holds_entries_values [OF held [folded st_def], symmetric]
    by (simp add: RecordHistory_def Let_def st_def split_beta)
  moreover have "list_all entry_fits (take kMaxHistoryEntries ?new)"
    using moves_fit [OF assms(2,3,4,5,6)] by (auto simp: list_all_iff dest: in_set_takeD)
  ultimately show ?thesis by (simp add: HistoryEntries_objects)
qed

theorem history_refines_move_to_front_witness:
  "map (\<lambda>e. (he_id e, he_builds e, he_lastUsed e))
     (HistoryEntries (RecordHistory [5, 3, 5] [5 \<mapsto> ''five''] 100 [])) = [(5, 2, 100), (3, 1, 100)]"
proof -
  have "HistoryEntries (RecordHistory [5, 3, 5] [5 \<mapsto> ''five''] 100 []) =
      take kMaxHistoryEntries (fold (move_to_front [5 \<mapsto> ''five''] 100) [5, 3, 5] (HistoryEntries []))"
    by (rule history_refines_move_to_front [where b = 0])
      (simp_all add: HistoryEntries_def is_int32_def)
  then show ?thesis
    by (simp add: HistoryEntries_def move_to_front_def touch_entry_def new_HistoryEntry_def
        kMaxHistoryEntries_def)
qed

end
