(* ===== verification/GroupSort.thy ===== *)
theory GroupSort
  imports Group
begin

text \<open>
  Sorting a group's rows, \<^verbatim>\<open>Group::SortProfiles\<close> (\<^verbatim>\<open>src/database/entities/Group.cpp\<close>), and what a
  sequence of row operations does to the set of ids. The texts a profile shows for its type and its
  security come from the protocol classes and are fields of \<open>sort_env\<close>; the sort itself is
  \<^verbatim>\<open>std::ranges::sort\<close>, whose contract asks for a strict weak order.
\<close>

subsection \<open>Speeds\<close>

text \<open>\<^verbatim>\<open>QString::toDouble\<close> answers 0 for what is no number; its finite values are rationals.
  The texts \<^verbatim>\<open>inf\<close> and \<^verbatim>\<open>nan\<close>, which it reads too and which the core never sends as a speed, are outside.\<close>

definition ends_with_ci :: "string \<Rightarrow> string \<Rightarrow> bool" where
  "ends_with_ci s suffix \<longleftrightarrow> length suffix \<le> length s \<and>
     map ascii_low (drop (length s - length suffix) s) = map ascii_low suffix"

definition bitrateToBps :: "(string \<Rightarrow> rat) \<Rightarrow> string \<Rightarrow> rat" where
  "bitrateToBps dbl s =
     (let val = dbl (take (length s - 4) s) in
      if ends_with_ci s ''Gbps'' then val * 1000000000
      else if ends_with_ci s ''Mbps'' then val * 1000000
      else if ends_with_ci s ''Kbps'' then val * 1000
      else if s = ''N/A'' then -1 else 0)"

subsection \<open>The comparator\<close>

datatype GroupSortMethod = Raw | ByType | ByAddress | ByName | ByTestResult | ById | ByTraffic | BySecurity

record GroupSortAction =
  gs_method :: GroupSortMethod
  gs_descending :: bool

record SecurityInfo =
  si_label :: string
  si_transport :: string
  si_level :: nat \<comment> \<open>unknown, none, weak, secure\<close>

record sort_env =
  so_profile :: "int \<Rightarrow> profile"
  so_type :: "profile \<Rightarrow> string"
  so_address :: "profile \<Rightarrow> string"
  so_security :: "profile \<Rightarrow> SecurityInfo"
  so_double :: "string \<Rightarrow> rat"

fun text_less :: "string \<Rightarrow> string \<Rightarrow> bool" where
  "text_less _ [] = False"
| "text_less [] (y # ys) = True"
| "text_less (x # xs) (y # ys) =
     (of_char x < (of_char y :: nat) \<or> x = y \<and> text_less xs ys)"

definition get_latency_for_sort :: "profile \<Rightarrow> int" where
  "get_latency_for_sort p =
     (let i = (if pr_latency p = 0 then 100000 else pr_latency p) in if i < 0 then 99999 else i)"

definition directed :: "bool \<Rightarrow> ('a \<Rightarrow> 'a \<Rightarrow> bool) \<Rightarrow> 'a \<Rightarrow> 'a \<Rightarrow> bool" where
  "directed descending r a b = (if descending then r b a else r a b)"

definition profile_own_name :: "profile \<Rightarrow> string" where
  "profile_own_name p = (case pr_outbound p of Some ob \<Rightarrow> ob_name ob | None \<Rightarrow> [])"

definition security_less :: "sort_env \<Rightarrow> bool \<Rightarrow> profile \<Rightarrow> profile \<Rightarrow> bool" where
  "security_less E descending a b =
     (let sa = so_security E a; sb = so_security E b in
      if si_level sa \<noteq> si_level sb then directed descending (<) (si_level sa) (si_level sb)
      else directed descending text_less (si_transport sa @ si_label sa) (si_transport sb @ si_label sb))"

definition test_less :: "sort_env \<Rightarrow> testBy \<Rightarrow> bool \<Rightarrow> profile \<Rightarrow> profile \<Rightarrow> bool" where
  "test_less E by descending a b = (case by of
     ByLatency \<Rightarrow> directed descending (<) (get_latency_for_sort a) (get_latency_for_sort b)
   | ByDlSpeed \<Rightarrow> directed descending (<) (bitrateToBps (so_double E) (pr_dl_speed a)) (bitrateToBps (so_double E) (pr_dl_speed b))
   | ByUlSpeed \<Rightarrow> directed descending (<) (bitrateToBps (so_double E) (pr_ul_speed a)) (bitrateToBps (so_double E) (pr_ul_speed b))
   | ByIpOut \<Rightarrow> directed descending text_less (pr_ip_out a) (pr_ip_out b))"

definition traffic_less :: "trafficBy \<Rightarrow> bool \<Rightarrow> profile \<Rightarrow> profile \<Rightarrow> bool" where
  "traffic_less by descending a b = (case by of
     ByTotal \<Rightarrow> directed descending (<) (pr_traffic_downlink a + pr_traffic_uplink a) (pr_traffic_downlink b + pr_traffic_uplink b)
   | ByDl \<Rightarrow> directed descending (<) (pr_traffic_downlink a) (pr_traffic_downlink b)
   | ByUl \<Rightarrow> directed descending (<) (pr_traffic_uplink a) (pr_traffic_uplink b))"

definition sort_less :: "sort_env \<Rightarrow> group \<Rightarrow> GroupSortAction \<Rightarrow> int \<Rightarrow> int \<Rightarrow> bool" where
  "sort_less E g act i j =
     (let a = so_profile E i; b = so_profile E j; down = gs_descending act in
      case gs_method act of
        ByType \<Rightarrow> directed down text_less (so_type E a) (so_type E b)
      | ByName \<Rightarrow> directed down text_less (profile_own_name a) (profile_own_name b)
      | ByAddress \<Rightarrow> directed down text_less (so_address E a) (so_address E b)
      | BySecurity \<Rightarrow> security_less E down a b
      | ByTestResult \<Rightarrow> test_less E (gr_test_sort_by g) down a b
      | ByTraffic \<Rightarrow> traffic_less (gr_traffic_sort_by g) down a b
      | _ \<Rightarrow> False)"

subsection \<open>The sort\<close>

definition in_order :: "('a \<Rightarrow> 'a \<Rightarrow> bool) \<Rightarrow> 'a list \<Rightarrow> bool" where
  "in_order lt xs \<longleftrightarrow> (\<forall>k < length xs - 1. \<not> lt (xs ! Suc k) (xs ! k))"

text \<open>
  \<open>taken\<close> says that another thread holds the group's mutex. The outcome of the sort is any list
  \<open>ps\<close> that is a permutation in which no neighbour pair is the wrong way round.
\<close>

definition SortProfiles :: "sort_env \<Rightarrow> GroupSortAction \<Rightarrow> bool \<Rightarrow> group \<Rightarrow> bool \<times> group \<Rightarrow> bool" where
  "SortProfiles E act taken g r =
     (if taken then r = (False, g)
      else if gs_method act \<in> {Raw, ById} then r = (True, g)
      else fst r \<and> snd r = g\<lparr>gr_profiles := gr_profiles (snd r)\<rparr> \<and>
        mset (gr_profiles (snd r)) = mset (gr_profiles g) \<and> in_order (sort_less E g act) (gr_profiles (snd r)))"

subsection \<open>A strict weak order\<close>

context strict_weak_order
begin

lemma in_order_pairs: "in_order lt xs \<Longrightarrow> sorted_wrt (\<lambda>a b. \<not> lt b a) xs"
proof -
  assume "in_order lt xs"
  moreover have "transp (\<lambda>a b. \<not> lt b a)" using neg_trans by (auto simp: transp_def)
  ultimately show ?thesis by (auto simp: sorted_wrt_iff_nth_Suc_transp in_order_def)
qed

end

lemma weak_image: "strict_weak_order r \<Longrightarrow> strict_weak_order (\<lambda>a b. r (f a) (f b))"
  unfolding strict_weak_order_def by blast

lemma weak_directed: "strict_weak_order r \<Longrightarrow> strict_weak_order (directed d r)"
  by unfold_locales (auto simp: directed_def split: if_splits
    dest: strict_weak_order.asym strict_weak_order.neg_trans)

lemma weak_lex:
  assumes "strict_weak_order r" "strict_weak_order s" "\<And>x y. x \<noteq> y \<Longrightarrow> r x y \<or> r y x"
  shows "strict_weak_order (\<lambda>a b. if f a \<noteq> f b then r (f a) (f b) else s a b)"
proof -
  have r: "\<And>x y. r x y \<Longrightarrow> \<not> r y x" "\<And>x y z. r x z \<Longrightarrow> r x y \<or> r y z"
    by (fact strict_weak_order.asym [OF assms(1)], fact strict_weak_order.neg_trans [OF assms(1)])
  have s: "\<And>a b. s a b \<Longrightarrow> \<not> s b a" "\<And>a b c. s a c \<Longrightarrow> s a b \<or> s b c"
    by (fact strict_weak_order.asym [OF assms(2)], fact strict_weak_order.neg_trans [OF assms(2)])
  show ?thesis
  proof (unfold_locales, goal_cases)
    case (1 a b) then show ?case using r(1) s(1) by (auto split: if_splits)
  next
    case (2 a c b)
    show ?case
    proof (cases "f a = f c")
      case True
      then show ?thesis using 2 s(2) [of a c b] assms(3) [of "f a" "f b"] by (auto split: if_splits)
    next
      case False
      then have "r (f a) (f c)" using 2 by simp
      then show ?thesis using r(2) [of "f a" "f c" "f b"] by (auto split: if_splits dest: r(1))
    qed
  qed
qed

lemma text_less_asym: "text_less x y \<Longrightarrow> \<not> text_less y x"
  by (induction x y rule: text_less.induct) auto

lemma text_less_neg_trans: "text_less x z \<Longrightarrow> text_less x y \<or> text_less y z"
proof (induction x z arbitrary: y rule: text_less.induct)
  case (2 z zs) then show ?case by (cases y) auto
next
  case (3 x xs z zs)
  show ?case
  proof (cases y)
    case (Cons c cs)
    show ?thesis
    proof (cases "of_char x < (of_char c :: nat) \<or> of_char c < (of_char z :: nat)")
      case False
      then have "of_char x = (of_char z :: nat)" "of_char c = (of_char z :: nat)" using 3 by auto
      then have "x = z" "c = z" by simp_all
      then show ?thesis using 3 Cons by auto
    qed (auto simp: Cons)
  qed simp
qed auto

interpretation texts: strict_weak_order text_less
  by unfold_locales (fact text_less_asym, fact text_less_neg_trans)

lemma weak_less: "strict_weak_order (directed d ((<) :: 'k :: linorder \<Rightarrow> 'k \<Rightarrow> bool))"
  by (rule weak_directed) (unfold_locales, auto)

lemma weak_text: "strict_weak_order (directed d text_less)"
  by (rule weak_directed) (rule texts.strict_weak_order_axioms)

lemmas weak_fields = weak_image [OF weak_less] weak_image [OF weak_text]

lemma weak_security: "strict_weak_order (security_less E d)"
  unfolding security_less_def [abs_def] Let_def
  by (rule weak_lex [of "directed d (<)" _ "\<lambda>p. si_level (so_security E p)"])
    (auto intro: weak_fields weak_less, auto simp: directed_def)

lemma weak_test: "strict_weak_order (test_less E by d)"
  by (cases "by") (auto simp: test_less_def [abs_def] intro: weak_fields)

lemma weak_traffic: "strict_weak_order (traffic_less by d)"
  by (cases "by") (auto simp: traffic_less_def [abs_def] intro: weak_fields)

lemma weak_never: "strict_weak_order (\<lambda>_ _. False)"
  by unfold_locales auto

interpretation rows: strict_weak_order "sort_less E g act" for E g act
proof -
  show "strict_weak_order (sort_less E g act)"
    unfolding sort_less_def [abs_def] Let_def
    by (cases "gs_method act")
      (auto intro: weak_never weak_fields weak_image [OF weak_security] weak_image [OF weak_test]
        weak_image [OF weak_traffic])
qed

end
