(* ===== verification/GroupProps.thy ===== *)
theory GroupProps
  imports GroupSort
begin

text \<open>
  A group under any sequence of row operations, against the set of ids it stands for; and what a sort
  leaves the user with.
\<close>

datatype group_op = OpAdd int | OpAddBatch "int list" | OpRemove int | OpRemoveBatch "int list"
  | OpSwap nat nat | OpMove nat int | OpSort GroupSortAction bool

inductive group_step :: "sort_env \<Rightarrow> group \<Rightarrow> group_op \<Rightarrow> bool \<times> group \<Rightarrow> bool" for E g where
  add: "group_step E g (OpAdd i) (AddProfile i g)"
| add_batch: "group_step E g (OpAddBatch ids) (AddProfileBatch ids g)"
| remove: "group_step E g (OpRemove i) (RemoveProfile i g)"
| remove_batch: "group_step E g (OpRemoveBatch ids) (RemoveProfileBatch ids g)"
| swap: "group_step E g (OpSwap i j) (SwapProfiles i j g)"
| move: "group_step E g (OpMove i j) (EmplaceProfile i j g)"
| sorting: "SortProfiles E act taken g r \<Longrightarrow> group_step E g (OpSort act taken) r"

inductive_simps group_step_simps:
  "group_step E g (OpAdd i) r" "group_step E g (OpAddBatch ids) r" "group_step E g (OpRemove i) r"
  "group_step E g (OpRemoveBatch ids) r" "group_step E g (OpSwap i j) r" "group_step E g (OpMove i k) r"
  "group_step E g (OpSort act taken) r"

inductive group_run :: "sort_env \<Rightarrow> group \<Rightarrow> group_op list \<Rightarrow> group \<Rightarrow> bool" for E where
  none: "group_run E g [] g"
| step: "group_step E g op (ok, h) \<Longrightarrow> group_run E h ops k \<Longrightarrow> group_run E g (op # ops) k"

inductive_cases group_run_ConsE: "group_run E g (op # ops) k"
inductive_cases group_run_NilE: "group_run E g [] k"

subsection \<open>The set of ids\<close>

fun ids_after :: "group_op \<Rightarrow> int set \<Rightarrow> int set" where
  "ids_after (OpAdd i) S = insert i S"
| "ids_after (OpAddBatch ids) S = S \<union> set ids"
| "ids_after (OpRemove i) S = S - {i}"
| "ids_after (OpRemoveBatch ids) S = S - set ids"
| "ids_after _ S = S"

text \<open>
  A row is dropped at -1, above the first, or on a row: \<^verbatim>\<open>QList::insert\<close> is defined for no
  smaller index. A batch may name an id twice, and then adds its row twice.
\<close>

fun drop_in_range :: "group_op \<Rightarrow> bool" where
  "drop_in_range (OpMove i j) = (- 1 \<le> j)"
| "drop_in_range _ = True"

fun batch_distinct :: "group_op \<Rightarrow> bool" where
  "batch_distinct (OpAddBatch ids) = distinct ids"
| "batch_distinct _ = True"

lemma same_mset_ok:
  "mset (gr_profiles h) = mset (gr_profiles g) \<Longrightarrow>
   group_ok h = group_ok g \<and> set (gr_profiles h) = set (gr_profiles g)"
  unfolding group_ok_def by (metis mset_eq_imp_distinct_iff mset_eq_setD)

lemma SortProfiles_mset:
  "SortProfiles E act taken g r \<Longrightarrow> mset (gr_profiles (snd r)) = mset (gr_profiles g)"
  by (auto simp: SortProfiles_def split: if_splits)

lemma group_step_ids:
  assumes "group_step E g op r" "drop_in_range op"
  shows "set (gr_profiles (snd r)) = ids_after op (set (gr_profiles g)) \<and>
    (batch_distinct op \<and> group_ok g \<longrightarrow> group_ok (snd r))"
proof (cases op)
  case (OpAdd i)
  then show ?thesis using assms AddProfile_ok [of g i]
    by (auto simp: group_step_simps AddProfile_def HasProfile_def)
next
  case (OpAddBatch ids)
  then show ?thesis using assms AddProfileBatch_ok [of g ids]
    by (auto simp: group_step_simps AddProfileBatch_def)
next
  case (OpRemove i)
  then show ?thesis using assms RemoveProfile_ok [of g i]
    by (auto simp: group_step_simps RemoveProfile_def HasProfile_def)
next
  case (OpRemoveBatch ids)
  then show ?thesis using assms RemoveProfileBatch_ok [of g ids]
    by (auto simp: group_step_simps RemoveProfileBatch_def)
next
  case (OpSwap i j)
  then show ?thesis using assms same_mset_ok [OF SwapProfiles_mset [of i j g]]
    by (simp add: group_step_simps)
next
  case (OpMove i j)
  then show ?thesis using assms same_mset_ok [OF EmplaceProfile_mset [of j i g]]
    by (simp add: group_step_simps)
next
  case (OpSort act taken)
  then show ?thesis using assms same_mset_ok [OF SortProfiles_mset [of E act taken g r]]
    by (simp add: group_step_simps)
qed

lemma group_run_ids:
  "group_run E g ops h \<Longrightarrow> \<forall>op\<in>set ops. drop_in_range op \<Longrightarrow>
   set (gr_profiles h) = fold ids_after ops (set (gr_profiles g)) \<and>
   ((\<forall>op\<in>set ops. batch_distinct op) \<and> group_ok g \<longrightarrow> group_ok h)"
proof (induction rule: group_run.induct)
  case (step g op ok h ops k)
  then show ?case using group_step_ids [OF step.hyps(1)] by simp
qed simp

text \<open>
  C17: A group goes through any sequence of additions, removals, swaps, moves and sorts, no row being
  dropped above -1. The profiles its rows name are then exactly those of the abstract set: added and not
  removed since; nothing of the group but its rows has changed. When moreover no batch names an id
  twice, its rows name no profile twice (a batch that does adds the row twice).
\<close>

theorem group_is_a_set:
  assumes "group_run E g ops h" "\<forall>op\<in>set ops. drop_in_range op"
  shows "set (gr_profiles h) = fold ids_after ops (set (gr_profiles g)) \<and> h = g\<lparr>gr_profiles := gr_profiles h\<rparr> \<and>
     (distinct (gr_profiles g) \<and> (\<forall>op\<in>set ops. batch_distinct op) \<longrightarrow> distinct (gr_profiles h))"
proof -
  have "h = g\<lparr>gr_profiles := gr_profiles h\<rparr>" using assms(1)
  proof (induction rule: group_run.induct)
    case (step g op ok h ops k)
    have "h = g\<lparr>gr_profiles := gr_profiles h\<rparr>" using step.hyps(1)
      by (cases op) (auto simp: group_step_simps AddProfile_def AddProfileBatch_def RemoveProfile_def
        RemoveProfileBatch_def SwapProfiles_def EmplaceProfile_def SortProfiles_def Let_def split: if_splits)
    then show ?case using step.IH by (cases h; cases k; cases g) simp
  qed simp
  then show ?thesis using group_run_ids [OF assms] by (simp add: group_ok_def)
qed

definition demo_rows :: sort_env where
  "demo_rows = \<lparr>so_profile = (\<lambda>i. new_profile\<lparr>pr_id := i, pr_latency := (if i = 2 then 50 else if i = 3 then -1 else 0)\<rparr>),
     so_type = (\<lambda>_. []), so_address = (\<lambda>_. []), so_security = (\<lambda>_. \<lparr>si_label = [], si_transport = [], si_level = 0\<rparr>),
     so_double = (\<lambda>_. 0)\<rparr>"

definition by_latency :: GroupSortAction where
  "by_latency = \<lparr>gs_method = ByTestResult, gs_descending = False\<rparr>"

definition demo_ops :: "group_op list" where
  "demo_ops = [OpAddBatch [1, 3], OpAdd 2, OpAdd 4, OpSort by_latency False, OpMove 0 2, OpSwap 0 1, OpRemove 4]"

lemma demo_sort: "SortProfiles demo_rows by_latency False (new_group\<lparr>gr_profiles := [1, 3, 2, 4]\<rparr>)
    (True, new_group\<lparr>gr_profiles := [2, 3, 1, 4]\<rparr>)"
  by (auto simp: SortProfiles_def in_order_def by_latency_def new_group_def sort_less_def test_less_def demo_rows_def
      get_latency_for_sort_def directed_def new_profile_def less_Suc_eq numeral_2_eq_2 numeral_3_eq_3)

abbreviation rows_of :: "int list \<Rightarrow> group" where
  "rows_of ps \<equiv> new_group\<lparr>gr_profiles := ps\<rparr>"

lemma demo_run: "group_run demo_rows new_group demo_ops (rows_of [1, 3, 2])"
proof -
  have sorting: "group_step demo_rows (rows_of [1, 3, 2, 4]) (OpSort by_latency False) (True, rows_of [2, 3, 1, 4])"
    by (rule group_step.sorting [OF demo_sort])
  have steps: "group_step demo_rows new_group (OpAddBatch [1, 3]) (True, rows_of [1, 3])"
    "group_step demo_rows (rows_of [1, 3]) (OpAdd 2) (True, rows_of [1, 3, 2])"
    "group_step demo_rows (rows_of [1, 3, 2]) (OpAdd 4) (True, rows_of [1, 3, 2, 4])"
    "group_step demo_rows (rows_of [2, 3, 1, 4]) (OpMove 0 2) (True, rows_of [3, 1, 2, 4])"
    "group_step demo_rows (rows_of [3, 1, 2, 4]) (OpSwap 0 1) (True, rows_of [1, 3, 2, 4])"
    "group_step demo_rows (rows_of [1, 3, 2, 4]) (OpRemove 4) (True, rows_of [1, 3, 2])"
    by (simp_all add: group_step_simps AddProfile_def AddProfileBatch_def RemoveProfile_def HasProfile_def
        SwapProfiles_def EmplaceProfile_def list_insert_def list_remove_def new_group_def numeral_3_eq_3)
  show ?thesis unfolding demo_ops_def
    by (rule group_run.step, (rule steps sorting))+ (rule group_run.none)
qed

theorem group_is_a_set_witness:
  "group_run demo_rows new_group demo_ops (new_group\<lparr>gr_profiles := [1, 3, 2]\<rparr>) \<and>
   fold ids_after demo_ops {} = {1, 2, 3} \<and> distinct [1, 3, 2 :: int]"
  using group_is_a_set [OF demo_run] demo_run by (auto simp: demo_ops_def new_group_def)

subsection \<open>What a sort leaves\<close>

text \<open>The rows stand by a column \<open>key\<close>: upwards under \<open>lt\<close>, or downwards.\<close>

definition rows_by :: "('k \<Rightarrow> 'k \<Rightarrow> bool) \<Rightarrow> bool \<Rightarrow> (int \<Rightarrow> 'k) \<Rightarrow> int list \<Rightarrow> bool" where
  "rows_by lt down key =
     sorted_wrt (\<lambda>i j. \<not> (if down then lt (key i) (key j) else lt (key j) (key i)))"

fun security_below :: "nat \<times> string \<Rightarrow> nat \<times> string \<Rightarrow> bool" where
  "security_below (l, s) (m, t) = (l < m \<or> l = m \<and> text_less s t)"

definition security_shown :: "SecurityInfo \<Rightarrow> nat \<times> string" where
  "security_shown s = (si_level s, si_transport s @ si_label s)"

definition test_rows :: "sort_env \<Rightarrow> testBy \<Rightarrow> bool \<Rightarrow> int list \<Rightarrow> bool" where
  "test_rows E by down ids = (let P = so_profile E; speed = bitrateToBps (so_double E) in case by of
     ByLatency \<Rightarrow> rows_by (<) down (\<lambda>i. get_latency_for_sort (P i)) ids
   | ByDlSpeed \<Rightarrow> rows_by (<) down (\<lambda>i. speed (pr_dl_speed (P i))) ids
   | ByUlSpeed \<Rightarrow> rows_by (<) down (\<lambda>i. speed (pr_ul_speed (P i))) ids
   | ByIpOut \<Rightarrow> rows_by text_less down (\<lambda>i. pr_ip_out (P i)) ids)"

definition traffic_rows :: "sort_env \<Rightarrow> trafficBy \<Rightarrow> bool \<Rightarrow> int list \<Rightarrow> bool" where
  "traffic_rows E by down ids = rows_by (<) down (\<lambda>i. let p = so_profile E i in case by of
     ByTotal \<Rightarrow> pr_traffic_uplink p + pr_traffic_downlink p
   | ByDl \<Rightarrow> pr_traffic_downlink p
   | ByUl \<Rightarrow> pr_traffic_uplink p) ids"

definition rows_sorted :: "sort_env \<Rightarrow> group \<Rightarrow> GroupSortAction \<Rightarrow> int list \<Rightarrow> bool" where
  "rows_sorted E g act ids = (let P = so_profile E; down = gs_descending act in case gs_method act of
     Raw \<Rightarrow> ids = gr_profiles g
   | ById \<Rightarrow> ids = gr_profiles g
   | ByType \<Rightarrow> rows_by text_less down (\<lambda>i. so_type E (P i)) ids
   | ByAddress \<Rightarrow> rows_by text_less down (\<lambda>i. so_address E (P i)) ids
   | ByName \<Rightarrow> rows_by text_less down (\<lambda>i. profile_own_name (P i)) ids
   | BySecurity \<Rightarrow> rows_by security_below down (\<lambda>i. security_shown (so_security E (P i))) ids
   | ByTestResult \<Rightarrow> test_rows E (gr_test_sort_by g) down ids
   | ByTraffic \<Rightarrow> traffic_rows E (gr_traffic_sort_by g) down ids)"

text \<open>Answering profiles by their latency, then the unreachable ones, then the untested ones.\<close>

definition answering_first :: "sort_env \<Rightarrow> int list \<Rightarrow> bool" where
  "answering_first E = sorted_wrt (\<lambda>i j. let a = pr_latency (so_profile E i); b = pr_latency (so_profile E j) in
     (0 < b \<longrightarrow> 0 < a \<and> a \<le> b) \<and> (b < 0 \<longrightarrow> a \<noteq> 0))"

lemma security_less_below:
  "security_less E down a b = (if down then security_below (security_shown (so_security E b)) (security_shown (so_security E a))
     else security_below (security_shown (so_security E a)) (security_shown (so_security E b)))"
  by (cases down) (auto simp: security_less_def security_shown_def directed_def Let_def split: if_splits)

lemma sort_less_rows:
  assumes "sorted_wrt (\<lambda>i j. \<not> sort_less E g act j i) ids" "gs_method act \<notin> {Raw, ById}"
  shows "rows_sorted E g act ids"
proof -
  have step: "rows_by lt d key ids"
    if "\<And>i j. sort_less E g act j i = (if d then lt (key i) (key j) else lt (key j) (key i))" for lt d and key :: "int \<Rightarrow> 'k"
    using assms(1) unfolding rows_by_def that .
  show ?thesis
  proof (cases "gs_method act")
    case ByTestResult
    show ?thesis unfolding rows_sorted_def test_rows_def ByTestResult Let_def
      by (cases "gr_test_sort_by g") (auto intro!: step simp: sort_less_def ByTestResult test_less_def directed_def)
  qed (use assms(2) in \<open>auto simp: rows_sorted_def traffic_rows_def Let_def intro!: step
      simp: sort_less_def security_less_below traffic_less_def directed_def add.commute split: trafficBy.split\<close>)
qed

text \<open>
  C31: A sort that took the mutex keeps the rows a group has and leaves every row in order with every
  later one, by the column the user clicked and in the direction chosen: the type, address or name
  shown, the security level and then its text, the latency, speed or outgoing address of the last test
  as the group's setting says, the traffic up, down or both; texts by their code units, speeds as numbers.
  By latency upwards, when no latency reaches 99999 ms, the answering profiles come first by
  their latency, then the unreachable ones, then the untested ones. Sorting by id or not at all
  changes nothing.
\<close>

theorem sorted_rows_in_order:
  assumes "SortProfiles E act False g (True, h)"
  shows "mset (gr_profiles h) = mset (gr_profiles g) \<and> rows_sorted E g act (gr_profiles h) \<and>
    (gs_method act = ByTestResult \<and> gr_test_sort_by g = ByLatency \<and> \<not> gs_descending act \<and>
      (\<forall>i\<in>set (gr_profiles g). pr_latency (so_profile E i) < 99999) \<longrightarrow> answering_first E (gr_profiles h))"
proof (cases "gs_method act \<in> {Raw, ById}")
  case True
  then show ?thesis using assms by (auto simp: SortProfiles_def rows_sorted_def)
next
  case False
  have m: "mset (gr_profiles h) = mset (gr_profiles g)" using assms False by (simp add: SortProfiles_def)
  have "sorted_wrt (\<lambda>i j. \<not> sort_less E g act j i) (gr_profiles h)"
    by (rule rows.in_order_pairs) (use assms False in \<open>auto simp: SortProfiles_def\<close>)
  then have rows: "rows_sorted E g act (gr_profiles h)" using False by (rule sort_less_rows)
  have "answering_first E (gr_profiles h)"
    if c: "gs_method act = ByTestResult" "gr_test_sort_by g = ByLatency" "\<not> gs_descending act"
      "\<forall>i\<in>set (gr_profiles g). pr_latency (so_profile E i) < 99999"
  proof -
    have up: "sorted_wrt (\<lambda>i j. get_latency_for_sort (so_profile E i) \<le> get_latency_for_sort (so_profile E j)) (gr_profiles h)"
      using rows c(1-3) by (simp add: rows_sorted_def test_rows_def rows_by_def not_less Let_def)
    have lat: "\<forall>i\<in>set (gr_profiles h). pr_latency (so_profile E i) < 99999" using c(4) mset_eq_setD [OF m] by simp
    show ?thesis unfolding answering_first_def
      by (rule sorted_wrt_mono_rel [OF _ up]) (use lat in \<open>auto simp: get_latency_for_sort_def Let_def split: if_splits\<close>)
  qed
  then show ?thesis using m rows by blast
qed

theorem sorted_rows_in_order_witness:
  "map (\<lambda>i. pr_latency (so_profile demo_rows i)) [2, 3, 1, 4] = [50, -1, 0, 0] \<and>
   rows_sorted demo_rows (new_group\<lparr>gr_profiles := [1, 3, 2, 4]\<rparr>) by_latency [2, 3, 1, 4] \<and> answering_first demo_rows [2, 3, 1, 4]"
  using sorted_rows_in_order [OF demo_sort]
  by (simp add: by_latency_def demo_rows_def new_profile_def new_group_def)

end
