(* ===== verification/ProfileFilter.thy ===== *)
theory ProfileFilter
  imports Group
begin

text \<open>
  Comparing lists of profiles by content, \<^verbatim>\<open>ProfileFilter\<close> in
  \<^verbatim>\<open>src/database/entities/Profile.cpp\<close>. The functions take \<^verbatim>\<open>shared_ptr\<close>s and compare either the
  pointers or a text computed from what they point to. Here the element type is arbitrary, equality on it
  is equality of pointers, and the text is a function \<open>key\<close>: \<^verbatim>\<open>ProfileFilter_ent_key\<close>
  with its flag, or \<^verbatim>\<open>ProfileFilter_ent_identity_key\<close>.
\<close>

subsection \<open>The filters\<close>

text \<open>The map of \<^verbatim>\<open>Uniq\<close> holds the object that stands for a key.\<close>

fun uniq_loop :: "('p \<Rightarrow> 'k) \<Rightarrow> bool \<Rightarrow> ('k \<Rightarrow> 'p option) \<Rightarrow> 'p list \<Rightarrow> 'p list \<Rightarrow> 'p list" where
  "uniq_loop key keep_last m out [] = out"
| "uniq_loop key keep_last m out (e # es) = (case m (key e) of
     Some old \<Rightarrow>
       if keep_last then uniq_loop key keep_last (m(key e \<mapsto> e)) (removeAll old out @ [e]) es
       else uniq_loop key keep_last m out es
   | None \<Rightarrow> uniq_loop key keep_last (m(key e \<mapsto> e)) (out @ [e]) es)"

definition Uniq :: "('p \<Rightarrow> 'k) \<Rightarrow> bool \<Rightarrow> 'p list \<Rightarrow> 'p list" where
  "Uniq key keep_last ps = uniq_loop key keep_last Map.empty [] ps"

definition OnlyInSrc :: "('p \<Rightarrow> 'k) \<Rightarrow> 'p list \<Rightarrow> 'p list \<Rightarrow> 'p list" where
  "OnlyInSrc key src dst = filter (\<lambda>e. key e \<notin> key ` set dst) src"

definition OnlyInSrc_ByPointer :: "'p list \<Rightarrow> 'p list \<Rightarrow> 'p list" where
  "OnlyInSrc_ByPointer src dst = filter (\<lambda>e. e \<notin> set dst) src"

text \<open>
  A bucket for every key, in the order of the source list. An entry of \<open>dst\<close> claims the first entry
  that is left in the bucket of its key.
\<close>

definition srcByKey :: "('p \<Rightarrow> 'k) \<Rightarrow> 'p list \<Rightarrow> 'k \<Rightarrow> 'p list" where
  "srcByKey key src = (\<lambda>k. filter (\<lambda>e. key e = k) src)"

definition takeFirst :: "'k \<Rightarrow> ('k \<Rightarrow> 'p list) \<Rightarrow> 'k \<Rightarrow> 'p list" where
  "takeFirst k b = b(k := tl (b k))"

lemma in_set_tlD: "x \<in> set (tl xs) \<Longrightarrow> x \<in> set xs"
  by (cases xs) auto

lemma takeFirst_apply [simp]: "takeFirst k b a = (if a = k then tl (b a) else b a)"
  by (simp add: takeFirst_def)

fun claim :: "('p \<Rightarrow> 'k) \<Rightarrow> ('k \<Rightarrow> 'p list) \<Rightarrow> 'p list \<Rightarrow> ('p \<times> 'p) list" where
  "claim key b [] = []"
| "claim key b (d # ds) = (case b (key d) of
     [] \<Rightarrow> claim key b ds
   | s # ss \<Rightarrow> (s, d) # claim key (takeFirst (key d) b) ds)"

definition Common :: "('p \<Rightarrow> 'k) \<Rightarrow> 'p list \<Rightarrow> 'p list \<Rightarrow> 'p list \<times> 'p list" where
  "Common key src dst =
     (let pairs = claim key (srcByKey key src) dst in (map fst pairs, map snd pairs))"

text \<open>The entries of \<open>dst\<close> that found their bucket empty.\<close>

fun unclaimed :: "('p \<Rightarrow> 'k) \<Rightarrow> ('k \<Rightarrow> 'p list) \<Rightarrow> 'p list \<Rightarrow> 'p list" where
  "unclaimed key b [] = []"
| "unclaimed key b (d # ds) = (case b (key d) of
     [] \<Rightarrow> d # unclaimed key b ds
   | s # ss \<Rightarrow> unclaimed key (takeFirst (key d) b) ds)"

text \<open>The four lists the function leaves: what remains of both, and the pairs that changed.\<close>

record 'p changes =
  ch_src :: "'p list"
  ch_dst :: "'p list"
  ch_changedSrc :: "'p list"
  ch_changedDst :: "'p list"

definition ChangedByIdentity :: "('p \<Rightarrow> 'k) \<Rightarrow> 'p list \<Rightarrow> 'p list \<Rightarrow> 'p changes" where
  "ChangedByIdentity key src dst =
     (let b = srcByKey key src; pairs = claim key b dst in
      \<lparr>ch_src = filter (\<lambda>e. e \<notin> set (map fst pairs)) src, ch_dst = unclaimed key b dst,
       ch_changedSrc = map fst pairs, ch_changedDst = map snd pairs\<rparr>)"

subsection \<open>Claims match each entry at most once\<close>

definition buckets_ok :: "('p \<Rightarrow> 'k) \<Rightarrow> ('k \<Rightarrow> 'p list) \<Rightarrow> bool" where
  "buckets_ok key b \<longleftrightarrow> (\<forall>k. \<forall>e\<in>set (b k). key e = k)"

lemma buckets_ok_src: "buckets_ok key (srcByKey key src)"
  by (simp add: buckets_ok_def srcByKey_def)

lemma buckets_ok_tail: "buckets_ok key b \<Longrightarrow> buckets_ok key (takeFirst k b)"
  by (auto simp: buckets_ok_def dest: in_set_tlD)

text \<open>The sources claimed under a key are the first ones of its bucket, one for each claimant.\<close>

lemma claim_srcs:
  "map fst (filter (\<lambda>m. key (snd m) = k) (claim key b ds)) = take (length (filter (\<lambda>d. key d = k) ds)) (b k)"
  by (induction ds arbitrary: b) (auto split: list.splits)

lemma claim_dsts:
  "map snd (filter (\<lambda>m. key (snd m) = k) (claim key b ds)) = take (length (b k)) (filter (\<lambda>d. key d = k) ds)"
  by (induction ds arbitrary: b) (auto split: list.splits)

lemma claim_snd_subset: "snd ` set (claim key b ds) \<subseteq> set ds"
  by (induction ds arbitrary: b) (auto split: list.splits)

lemma claim_snd_distinct: "distinct ds \<Longrightarrow> distinct (map snd (claim key b ds))"
proof (induction ds arbitrary: b)
  case (Cons d ds)
  have "d \<notin> snd ` set (claim key b' ds)" for b' using claim_snd_subset [of key b' ds] Cons(2) by auto
  then show ?case using Cons by (auto split: list.splits)
qed simp

lemma claim_fst_bucket: "(s, d) \<in> set (claim key b ds) \<Longrightarrow> s \<in> set (b (key d))"
proof (induction ds arbitrary: b)
  case (Cons d' ds)
  then show ?case by (fastforce split: list.splits if_splits dest: in_set_tlD)
qed simp

lemma claim_keys:
  "buckets_ok key b \<Longrightarrow> (s, d) \<in> set (claim key b ds) \<Longrightarrow> key s = key d"
  using claim_fst_bucket [of s d key b ds] by (simp add: buckets_ok_def)

lemma claim_fst_distinct:
  assumes "buckets_ok key b" "\<And>k. distinct (b k)"
  shows "distinct (map fst (claim key b ds))"
  using assms
proof (induction ds arbitrary: b)
  case (Cons d ds)
  show ?case
  proof (cases "b (key d)")
    case Nil
    then show ?thesis using Cons by simp
  next
    case (Cons s ss)
    let ?b = "takeFirst (key d) b"
    have ok: "buckets_ok key ?b" using buckets_ok_tail Cons.prems(1) .
    have dist: "\<And>k. distinct (?b k)" using Cons.prems(2) by (simp add: distinct_tl)
    have "s \<notin> fst ` set (claim key ?b ds)"
    proof
      assume "s \<in> fst ` set (claim key ?b ds)"
      then obtain d' where m: "(s, d') \<in> set (claim key ?b ds)" by auto
      have "s \<in> set (b (key d))" using Cons by simp
      then have "key s = key d" using Cons.prems(1) by (simp add: buckets_ok_def)
      then have "s \<in> set ss" using claim_fst_bucket [OF m] claim_keys [OF ok m] Cons by simp
      then show False using Cons.prems(2) [of "key d"] Cons by simp
    qed
    moreover have "distinct (map fst (claim key ?b ds))" by (rule Cons.IH) (fact ok, fact dist)
    ultimately show ?thesis using Cons by simp
  qed
qed simp

lemma claim_fst_src:
  "(s, d) \<in> set (claim key (srcByKey key src) ds) \<Longrightarrow> s \<in> set src"
  using claim_fst_bucket [of s d key "srcByKey key src"] by (auto simp: srcByKey_def)

lemma claim_distinct:
  assumes "distinct src"
  shows "distinct (map fst (claim key (srcByKey key src) ds))"
proof (rule claim_fst_distinct [OF buckets_ok_src])
  show "distinct (srcByKey key src k)" for k using assms by (simp add: srcByKey_def)
qed

text \<open>An entry that is not claimed stands behind as many claimed ones as there are claimants.\<close>

lemma claim_complete:
  assumes "s \<in> set src" "length (filter (\<lambda>e. key e = key s) src) \<le> length (filter (\<lambda>d. key d = key s) ds)"
  shows "s \<in> set (map fst (claim key (srcByKey key src) ds))"
proof -
  have "map fst (filter (\<lambda>m. key (snd m) = key s) (claim key (srcByKey key src) ds))
        = filter (\<lambda>e. key e = key s) src"
    using assms(2) by (simp add: claim_srcs srcByKey_def)
  then have "s \<in> set (map fst (filter (\<lambda>m. key (snd m) = key s) (claim key (srcByKey key src) ds)))"
    using assms(1) by simp
  then show ?thesis by auto
qed

lemma unclaimed_eq:
  "distinct ds \<Longrightarrow> unclaimed key b ds = filter (\<lambda>d. d \<notin> set (map snd (claim key b ds))) ds"
proof (induction ds arbitrary: b)
  case (Cons d ds)
  have *: "d \<notin> snd ` set (claim key b' ds)" for b'
    using claim_snd_subset [of key b' ds] Cons(2) by auto
  show ?case using Cons * by (auto split: list.splits intro!: filter_cong)
qed simp

subsection \<open>Removing duplicates\<close>

text \<open>Whichever of several equal entries is kept, every content is left exactly once.\<close>

definition uniq_inv :: "('p \<Rightarrow> 'k) \<Rightarrow> ('k \<Rightarrow> 'p option) \<Rightarrow> 'p list \<Rightarrow> bool" where
  "uniq_inv key m out \<longleftrightarrow> distinct (map key out) \<and> (\<forall>k e. m k = Some e \<longleftrightarrow> e \<in> set out \<and> key e = k)"

lemma uniq_inv_map: "uniq_inv key m out \<Longrightarrow> m k = Some e \<longleftrightarrow> e \<in> set out \<and> key e = k"
  by (simp add: uniq_inv_def)

lemma uniq_inv_none: "uniq_inv key m out \<Longrightarrow> m k = None \<Longrightarrow> e \<in> set out \<Longrightarrow> key e \<noteq> k"
  using uniq_inv_map [of key m out k e] by auto

lemma uniq_inv_add:
  assumes "uniq_inv key m out" "m (key e) = None"
  shows "uniq_inv key (m(key e \<mapsto> e)) (out @ [e])"
proof -
  have new: "x \<in> set out \<Longrightarrow> key x \<noteq> key e" for x using uniq_inv_none [OF assms] .
  show ?thesis unfolding uniq_inv_def
  proof (intro conjI allI)
    show "distinct (map key (out @ [e]))" using assms(1) new by (fastforce simp: uniq_inv_def)
    show "(m(key e \<mapsto> e)) k = Some x \<longleftrightarrow> x \<in> set (out @ [e]) \<and> key x = k" for k x
      using uniq_inv_map [OF assms(1), of k x] new by (cases "k = key e") auto
  qed
qed

lemma uniq_inv_replace:
  assumes "uniq_inv key m out" "m (key e) = Some old"
  shows "uniq_inv key (m(key e \<mapsto> e)) (removeAll old out @ [e])"
proof -
  have only: "x \<in> set out \<Longrightarrow> key x = key e \<Longrightarrow> x = old" for x
    using uniq_inv_map [OF assms(1), of "key e" x] assms(2) by simp
  have old: "key old = key e" using uniq_inv_map [OF assms(1)] assms(2) by auto
  show ?thesis unfolding uniq_inv_def
  proof (intro conjI allI)
    have "distinct (map key (removeAll old out))"
      using assms(1) by (simp add: uniq_inv_def distinct_map distinct_removeAll inj_on_diff)
    then show "distinct (map key (removeAll old out @ [e]))" using only by fastforce
    show "(m(key e \<mapsto> e)) k = Some x \<longleftrightarrow> x \<in> set (removeAll old out @ [e]) \<and> key x = k" for k x
      using uniq_inv_map [OF assms(1), of k x] only [of x] old by (cases "k = key e") auto
  qed
qed

lemma uniq_loop_inv: "uniq_inv key m out \<Longrightarrow> \<exists>m'. uniq_inv key m' (uniq_loop key keep_last m out ps)"
proof (induction ps arbitrary: m out)
  case (Cons e es)
  then show ?case using uniq_inv_add [of key m out e] uniq_inv_replace [of key m out e]
    by (auto split: option.split)
qed auto

lemma uniq_loop_keys:
  "uniq_inv key m out \<Longrightarrow> key ` set (uniq_loop key keep_last m out ps) = key ` set out \<union> key ` set ps"
proof (induction ps arbitrary: m out)
  case (Cons e es)
  show ?case
  proof (cases "m (key e)")
    case None
    have "key ` set (uniq_loop key keep_last (m(key e \<mapsto> e)) (out @ [e]) es)
          = key ` set (out @ [e]) \<union> key ` set es"
      by (rule Cons.IH) (rule uniq_inv_add [OF Cons.prems None])
    then show ?thesis using None by auto
  next
    case (Some old)
    have old: "old \<in> set out" "key old = key e" using uniq_inv_map [OF Cons.prems] Some by auto
    then have "key e \<in> key ` set out" by (metis imageI)
    moreover have "key ` set (uniq_loop key keep_last (m(key e \<mapsto> e)) (removeAll old out @ [e]) es)
          = key ` set (removeAll old out @ [e]) \<union> key ` set es"
      by (rule Cons.IH) (rule uniq_inv_replace [OF Cons.prems Some])
    ultimately show ?thesis using Cons.IH [OF Cons.prems] Some old by auto
  qed
qed auto

lemma Uniq_keys: "distinct (map key (Uniq key keep_last ps))" "key ` set (Uniq key keep_last ps) = key ` set ps"
proof -
  have "uniq_inv key Map.empty []" by (simp add: uniq_inv_def)
  then show "distinct (map key (Uniq key keep_last ps))" "key ` set (Uniq key keep_last ps) = key ` set ps"
    using uniq_loop_inv [of key Map.empty "[]"] uniq_loop_keys [of key Map.empty "[]"]
    by (auto simp: Uniq_def uniq_inv_def)
qed

lemma uniq_loop_subset: "set (uniq_loop key keep_last m out ps) \<subseteq> set out \<union> set ps"
proof (induction ps arbitrary: m out)
  case (Cons e es)
  have "set (uniq_loop key keep_last (m(key e \<mapsto> e)) out' es) \<subseteq> set out' \<union> set es" for out'
    by (rule Cons.IH)
  from this [of "out @ [e]"] this [of "removeAll (the (m (key e))) out @ [e]"] Cons.IH [of m out]
  show ?case by (auto simp del: fun_upd_apply split: option.split)
qed simp

lemma Uniq_subset: "set (Uniq key keep_last ps) \<subseteq> set ps"
  using uniq_loop_subset [of key keep_last Map.empty "[]" ps] by (simp add: Uniq_def)

lemma Uniq_distinct: "distinct (Uniq key keep_last ps)"
  using Uniq_keys(1) [of key keep_last ps] by (simp add: distinct_map)

end
