(* ===== verification/Repository.thy ===== *)
theory Repository
  imports ProfileFilter
begin

text \<open>
  The repositories of profiles and groups, \<^verbatim>\<open>src/database/ProfilesRepo.cpp\<close> and
  \<^verbatim>\<open>src/database/GroupsRepo.cpp\<close>. A repository hands out one shared object for an id and writes its
  row whenever one of the operations below changes it, so object and row are one entry of a map here and a
  pointer is the id. Statements that touch one row succeed; the foreign key of a profile's row refuses a
  group that does not exist, and deleting a group deletes the rows of its profiles.
\<close>

record repo =
  rp_profiles :: "int \<Rightarrow> profile option"
  rp_profile_last_id :: int
  rp_groups :: "int \<Rightarrow> group option"
  rp_group_last_id :: int
  rp_order :: "(int \<times> int) list"
  rp_current_group :: int
  rp_started_id :: int

definition repo_GetGroup :: "repo \<Rightarrow> int \<Rightarrow> group option" where
  "repo_GetGroup S i = rp_groups S i"

definition repo_GetProfile :: "repo \<Rightarrow> int \<Rightarrow> profile option" where
  "repo_GetProfile S i = rp_profiles S i"

definition GetProfileBatch :: "repo \<Rightarrow> int list \<Rightarrow> profile list" where
  "GetProfileBatch S ids = List.map_filter (rp_profiles S) ids"

subsection \<open>Groups\<close>

text \<open>A stored list that names a profile twice is repaired when it is read.\<close>

definition load_group :: "group \<Rightarrow> group" where
  "load_group g =
     (let unique = keep_first Some [] (gr_profiles g) in
      if length unique \<noteq> length (gr_profiles g) then g\<lparr>gr_profiles := unique\<rparr> else g)"

definition put_group :: "group \<Rightarrow> repo \<Rightarrow> repo" where
  "put_group g S = S\<lparr>rp_groups := (rp_groups S)(gr_id g \<mapsto> g)\<rparr>"

definition SaveGroup :: "group \<Rightarrow> repo \<Rightarrow> bool \<times> repo" where
  "SaveGroup g S = (if gr_id g < 0 then (False, S) else (True, put_group g S))"

text \<open>\<^verbatim>\<open>SELECT MAX\<close> of an empty table is one row with a null in it, which reads as 0.\<close>

definition max_order :: "(int \<times> int) list \<Rightarrow> int" where
  "max_order rows = (case map snd rows of [] \<Rightarrow> 0 | d # ds \<Rightarrow> fold max ds d)"

definition AddGroup :: "group \<Rightarrow> repo \<Rightarrow> bool \<times> group \<times> repo" where
  "AddGroup g S =
     (if 0 \<le> gr_id g then (False, g, S)
      else let newId = rp_group_last_id S + 1; g = g\<lparr>gr_id := newId\<rparr> in
        (True, g, (put_group g S)\<lparr>rp_group_last_id := newId,
           rp_order := rp_order S @ [(newId, max_order (rp_order S) + 1)]\<rparr>))"

definition DeleteGroup :: "int \<Rightarrow> repo \<Rightarrow> repo" where
  "DeleteGroup i S = S\<lparr>rp_groups := (rp_groups S)(i := None),
     rp_order := filter (\<lambda>r. fst r \<noteq> i) (rp_order S),
     rp_profiles := (\<lambda>k. case rp_profiles S k of
        Some p \<Rightarrow> if pr_gid p = i then None else Some p
      | None \<Rightarrow> None)\<rparr>"

definition GetGroupsTabOrder :: "repo \<Rightarrow> int list" where
  "GetGroupsTabOrder S = map fst (sort_key snd (rp_order S))"

text \<open>One statement inserts all rows, so a group named twice leaves the table empty.\<close>

definition SetGroupsTabOrder :: "int list \<Rightarrow> repo \<Rightarrow> repo" where
  "SetGroupsTabOrder order S =
     S\<lparr>rp_order := if distinct order then zip order (map int [0..<length order]) else []\<rparr>"

definition CurrentGroup :: "repo \<Rightarrow> group option" where
  "CurrentGroup S = rp_groups S (rp_current_group S)"

subsection \<open>Profiles\<close>

definition put_profile :: "profile \<Rightarrow> repo \<Rightarrow> repo" where
  "put_profile p S = S\<lparr>rp_profiles := (rp_profiles S)(pr_id p \<mapsto> p)\<rparr>"

text \<open>Saving a profile whose group is gone violates the foreign key and writes nothing.\<close>

definition SaveProfile :: "profile \<Rightarrow> repo \<Rightarrow> bool \<times> repo" where
  "SaveProfile p S =
     (if pr_id p < 0 then (False, S)
      else (True, case rp_groups S (pr_gid p) of None \<Rightarrow> S | Some g \<Rightarrow> put_profile p S))"

definition add_to :: "int \<Rightarrow> repo \<Rightarrow> int" where
  "add_to gid S = (if gid < 0 then rp_current_group S else gid)"

definition ProfilesRepo_AddProfile :: "profile \<Rightarrow> int \<Rightarrow> repo \<Rightarrow> bool \<times> profile \<times> repo" where
  "ProfilesRepo_AddProfile p gid S =
     (if 0 \<le> pr_id p then (False, p, S)
      else let newId = rp_profile_last_id S + 1;
               p = p\<lparr>pr_id := newId, pr_gid := add_to gid S\<rparr>;
               S = S\<lparr>rp_profile_last_id := newId\<rparr>
        in case rp_groups S (pr_gid p) of
             None \<Rightarrow> (False, p, S)
           | Some g \<Rightarrow> (True, p, put_group (snd (AddProfile newId g)) (put_profile p S)))"

text \<open>The block of ids is reserved at once and handed out in the order of the list.\<close>

fun number_new :: "int \<Rightarrow> int \<Rightarrow> profile list \<Rightarrow> profile list" where
  "number_new n gid [] = []"
| "number_new n gid (p # ps) =
     (if pr_id p < 0 then p\<lparr>pr_id := n, pr_gid := gid\<rparr> # number_new (n + 1) gid ps
      else p # number_new n gid ps)"

definition to_add :: "profile list \<Rightarrow> profile list" where
  "to_add ps = filter (\<lambda>p. pr_id p < 0) ps"

definition ProfilesRepo_AddProfileBatch :: "profile list \<Rightarrow> int \<Rightarrow> repo \<Rightarrow> bool \<times> profile list \<times> repo" where
  "ProfilesRepo_AddProfileBatch ps gid S =
     (let gid = add_to gid S in
      case rp_groups S gid of
        None \<Rightarrow> (False, ps, S)
      | Some g \<Rightarrow>
          let toAdd = to_add ps; n = length toAdd; firstId = rp_profile_last_id S + 1 in
          if n = 0 then (True, ps, S)
          else let added = number_new firstId gid toAdd;
                   S = S\<lparr>rp_profile_last_id := rp_profile_last_id S + int n\<rparr>
            in (True, number_new firstId gid ps,
                put_group (snd (AddProfileBatch (map pr_id added) g)) (fold put_profile added S)))"

text \<open>
  Deleting. A running profile is stopped first or taken out of the list, which is the caller's;
  \<open>afterStop\<close> is the started id once \<^verbatim>\<open>profile_stop\<close> is back. The groups come out of a \<^verbatim>\<open>QSet\<close> in no
  particular order.
\<close>

fun remove_from_groups :: "int list \<Rightarrow> int list \<Rightarrow> repo \<Rightarrow> bool \<times> repo" where
  "remove_from_groups [] ids S = (True, S)"
| "remove_from_groups (gid # gids) ids S = (case rp_groups S gid of
     None \<Rightarrow> (False, S)
   | Some g \<Rightarrow> remove_from_groups gids ids (put_group (snd (RemoveProfileBatch ids g)) S))"

definition hold_running :: "int \<Rightarrow> bool \<Rightarrow> int list \<Rightarrow> repo \<Rightarrow> int list \<times> repo" where
  "hold_running afterStop stop ids S =
     (if rp_started_id S \<in> set ids then
        (if stop then (ids, S\<lparr>rp_started_id := afterStop\<rparr>) else (removeAll (rp_started_id S) ids, S))
      else (ids, S))"

definition delete_rows :: "int list \<Rightarrow> repo \<Rightarrow> repo" where
  "delete_rows ids S = S\<lparr>rp_profiles := (\<lambda>i. if i \<in> set ids then None else rp_profiles S i)\<rparr>"

definition BatchDeleteProfiles :: "int \<Rightarrow> bool \<Rightarrow> int list \<Rightarrow> repo \<Rightarrow> bool \<times> int list \<times> repo" where
  "BatchDeleteProfiles afterStop stop ids S =
     (case hold_running afterStop stop ids S of (ids, S) \<Rightarrow>
      (case remove_from_groups (remdups (map pr_gid (GetProfileBatch S ids))) ids S of
         (False, S) \<Rightarrow> (False, ids, S)
       | (True, S) \<Rightarrow> (True, ids, delete_rows ids S)))"

subsection \<open>Removing repeated servers from a group\<close>

text \<open>\<^verbatim>\<open>MainWindow::on_menu_delete_repeat_triggered\<close>: which rows stay, and which profiles go.\<close>

fun split_repeats :: "int set \<Rightarrow> int set \<Rightarrow> int list \<Rightarrow> int list \<times> int list" where
  "split_repeats keepIds placed [] = ([], [])"
| "split_repeats keepIds placed (i # ids) =
     (let repeatedSlot = i \<in> placed;
          (newOrder, del) = split_repeats keepIds (insert i placed) ids in
      if \<not> repeatedSlot \<and> i \<in> keepIds then (i # newOrder, del)
      else (newOrder, if repeatedSlot then del else i # del))"

definition delete_repeats :: "(profile \<Rightarrow> string) \<Rightarrow> int \<Rightarrow> bool \<Rightarrow> repo \<Rightarrow> repo" where
  "delete_repeats key afterStop confirmed S = (case CurrentGroup S of
     None \<Rightarrow> S
   | Some g \<Rightarrow>
       let uniq = Uniq key False (GetProfileBatch S (gr_profiles g));
           (newOrder, del) = split_repeats (pr_id ` set uniq) {} (gr_profiles g) in
       if length (gr_profiles g) = length newOrder \<or> \<not> confirmed then S
       else let S = snd (SaveGroup (g\<lparr>gr_profiles := newOrder\<rparr>) S) in
         if del = [] then S else snd (snd (BatchDeleteProfiles afterStop True del S)))"

end
