(* ===== verification/Subscription.thy ===== *)
theory Subscription
  imports Repository
begin

text \<open>
  Refreshing a group from its subscription, \<^verbatim>\<open>GroupUpdater\<close> in
  \<^verbatim>\<open>src/configs/sub/GroupUpdater.cpp\<close>. The answer of the server and the profiles its text holds come in
  as values; what the code computes from an outbound to compare two of them, the compact JSON link
  and the identity, are functions of the environment. The mutex of the updater makes a
  refresh one step.
\<close>

record sub_env =
  se_now :: int
  se_sub_clear :: bool
  se_allow_stopping :: bool
  se_afterStop :: int
  se_key :: "profile \<Rightarrow> string"
  se_identity :: "profile \<Rightarrow> string"
  se_parse :: "string \<Rightarrow> profile list"

datatype http_answer = HttpError string | HttpBody string string \<comment> \<open>the data and \<^verbatim>\<open>Subscription-UserInfo\<close>\<close>

subsection \<open>Deleting what a refresh no longer lists\<close>

record DeleteOutcome =
  do_ok :: bool
  do_deleted :: "int list"
  do_kept :: "int list"

definition deleteProfiles :: "sub_env \<Rightarrow> int list \<Rightarrow> repo \<Rightarrow> DeleteOutcome \<times> repo" where
  "deleteProfiles E ids S =
     (case BatchDeleteProfiles (se_afterStop E) (se_allow_stopping E) ids S of (ok, ids', S') \<Rightarrow>
       (\<lparr>do_ok = ok, do_deleted = ids', do_kept = filter (\<lambda>i. i \<notin> set ids') (remdups ids)\<rparr>, S'))"

subsection \<open>Profiles the subscription does not own\<close>

definition is_selector :: "repo \<Rightarrow> int \<Rightarrow> bool" where
  "is_selector S i = (case rp_profiles S i of Some p \<Rightarrow> pr_type p = ''autoselector'' | None \<Rightarrow> False)"

definition sticky_rows :: "repo \<Rightarrow> group \<Rightarrow> (nat \<times> int) list" where
  "sticky_rows S g = filter (\<lambda>r. is_selector S (snd r)) (enumerate 0 (gr_profiles g))"

definition insert_sticky :: "(nat \<times> int) list \<Rightarrow> int list \<Rightarrow> int list" where
  "insert_sticky rows l = fold (\<lambda>(pos, i) l. list_insert (min pos (length l)) i l) rows l"

text \<open>The servers of a group that are there, without the sticky ones.\<close>

definition owned_ids :: "int set \<Rightarrow> int \<Rightarrow> repo \<Rightarrow> int list" where
  "owned_ids stickyIDs gid S = (case rp_groups S gid of
     None \<Rightarrow> []
   | Some g \<Rightarrow> map pr_id (filter (\<lambda>p. pr_id p \<notin> stickyIDs) (GetProfileBatch S (gr_profiles g))))"

subsection \<open>Clearing first\<close>

record clear_result =
  cl_ok :: bool
  cl_cleared :: bool
  cl_disturbed :: "int list"

definition clear_step :: "sub_env \<Rightarrow> int set \<Rightarrow> group \<Rightarrow> repo \<Rightarrow> clear_result \<times> repo" where
  "clear_step E stickyIDs g S =
     (if se_sub_clear E then
        (case deleteProfiles E (filter (\<lambda>i. i \<notin> stickyIDs) (gr_profiles g)) S of (out, S') \<Rightarrow>
           if \<not> do_ok out then (\<lparr>cl_ok = False, cl_cleared = False, cl_disturbed = []\<rparr>, S')
           else (\<lparr>cl_ok = True, cl_cleared = (do_kept out = []), cl_disturbed = do_deleted out\<rparr>, S'))
      else (\<lparr>cl_ok = True, cl_cleared = False, cl_disturbed = []\<rparr>, S))"

subsection \<open>The difference between two lists of servers\<close>

definition text_at :: "(profile \<Rightarrow> string) \<Rightarrow> repo \<Rightarrow> int \<Rightarrow> string" where
  "text_at key S i = (case rp_profiles S i of Some p \<Rightarrow> key p | None \<Rightarrow> [])"

record sub_diff =
  sd_same :: "(int \<times> int) list"
  sd_changed :: "(int \<times> int) list"
  sd_added :: "int list"
  sd_removed :: "int list"

definition sub_difference :: "sub_env \<Rightarrow> repo \<Rightarrow> int list \<Rightarrow> int list \<Rightarrow> sub_diff" where
  "sub_difference E S ins out_all =
     (let key = text_at (se_key E) S;
          out = OnlyInSrc_ByPointer out_all ins;
          only_in = OnlyInSrc key ins out;
          only_out = OnlyInSrc key out ins;
          (update_keep, update_del) = Common key ins out;
          ch = ChangedByIdentity (text_at (se_identity E) S) only_in only_out
      in \<lparr>sd_same = zip update_keep update_del, sd_changed = zip (ch_changedSrc ch) (ch_changedDst ch),
          sd_added = ch_dst ch, sd_removed = ch_src ch\<rparr>)"

definition own_name :: "profile \<Rightarrow> string" where
  "own_name p = (case pr_outbound p of Some ob \<Rightarrow> ob_name ob | None \<Rightarrow> [])"

text \<open>The old profile takes the outbound of the new one and is saved.\<close>

definition take_over :: "int \<times> int \<Rightarrow> repo \<Rightarrow> repo" where
  "take_over m S = (case (rp_profiles S (fst m), rp_profiles S (snd m)) of
     (Some old, Some new) \<Rightarrow>
       snd (SaveProfile (old\<lparr>pr_outbound := pr_outbound new, pr_name := own_name new\<rparr>) S)
   | _ \<Rightarrow> S)"

text \<open>The later entry of a \<^verbatim>\<open>QHash\<close> wins.\<close>

definition supersededBy :: "sub_diff \<Rightarrow> int \<Rightarrow> int option" where
  "supersededBy d = map_of (rev (map (\<lambda>(old, new). (new, old)) (sd_same d @ sd_changed d)))"

definition remote_order :: "sub_diff \<Rightarrow> int list \<Rightarrow> int list" where
  "remote_order d ids = map (\<lambda>i. case supersededBy d i of Some old \<Rightarrow> old | None \<Rightarrow> i) ids"

subsection \<open>Applying it\<close>

definition index_of :: "int \<Rightarrow> int list \<Rightarrow> nat option" where
  "index_of i l = (if i \<in> set l then Some (length (takeWhile (\<lambda>x. x \<noteq> i) l)) else None)"

definition keep_row :: "int list \<Rightarrow> int \<Rightarrow> group \<Rightarrow> group" where
  "keep_row previousOrder i g =
     (if HasProfile i g then g
      else let l = gr_profiles g;
               pos = (case index_of i previousOrder of None \<Rightarrow> length l | Some n \<Rightarrow> min n (length l))
        in g\<lparr>gr_profiles := list_insert pos i l\<rparr>)"

definition restore_kept :: "int list \<Rightarrow> int list \<Rightarrow> group \<Rightarrow> group" where
  "restore_kept previousOrder kept g = fold (keep_row previousOrder) kept g"

definition set_rows :: "int \<Rightarrow> (group \<Rightarrow> group) \<Rightarrow> repo \<Rightarrow> repo" where
  "set_rows gid f S = (case rp_groups S gid of None \<Rightarrow> S | Some g \<Rightarrow> snd (SaveGroup (f g) S))"

definition apply_difference ::
  "sub_env \<Rightarrow> int \<Rightarrow> int set \<Rightarrow> (nat \<times> int) list \<Rightarrow> int list \<Rightarrow> profile list \<Rightarrow> repo \<Rightarrow> int list \<times> repo" where
  "apply_difference E gid stickyIDs sticky ins news S =
     (let out_all = owned_ids stickyIDs gid S;
          d = sub_difference E S ins out_all;
          previousOrder = (case rp_groups S gid of None \<Rightarrow> [] | Some g \<Rightarrow> gr_profiles g);
          S = fold take_over (sd_changed d) S;
          rows = insert_sticky sticky (remote_order d (map pr_id news));
          S = set_rows gid (gr_profiles_update (\<lambda>_. rows)) S
      in case deleteProfiles E (filter (\<lambda>i. i \<notin> set rows) out_all) S of (outcome, S) \<Rightarrow>
           (map fst (sd_changed d) @ do_deleted outcome,
            if do_kept outcome = [] then S else set_rows gid (restore_kept previousOrder (do_kept outcome)) S))"

subsection \<open>A refresh\<close>

text \<open>Whether it succeeded, the profiles it disturbed, and the repository.\<close>

definition refresh_group :: "sub_env \<Rightarrow> group \<Rightarrow> string \<Rightarrow> profile list \<Rightarrow> repo \<Rightarrow> bool \<times> int list \<times> repo" where
  "refresh_group E g info news S =
     (let gid = gr_id g;
          S = snd (SaveGroup (g\<lparr>gr_sub_last_update := se_now E, gr_info := info\<rparr>) S);
          sticky = sticky_rows S g;
          stickyIDs = snd ` set sticky
      in case clear_step E stickyIDs g S of (cl, S) \<Rightarrow>
           if \<not> cl_ok cl then (False, [], S)
           else let ins = (if cl_cleared cl then [] else owned_ids stickyIDs gid S)
             in case ProfilesRepo_AddProfileBatch news gid S of (added, news, S) \<Rightarrow>
                  if \<not> added then (False, [], S)
                  else if cl_cleared cl then (True, cl_disturbed cl, S)
                  else case apply_difference E gid stickyIDs sticky ins news S of (disturbed, S) \<Rightarrow>
                         (True, cl_disturbed cl @ disturbed, S))"

definition add_imported :: "int \<Rightarrow> profile list \<Rightarrow> repo \<Rightarrow> bool \<times> int list \<times> repo" where
  "add_imported gid news S = (case ProfilesRepo_AddProfileBatch news gid S of (ok, _, S) \<Rightarrow> (ok, [], S))"

definition Update ::
  "sub_env \<Rightarrow> (string \<Rightarrow> http_answer) \<Rightarrow> string \<Rightarrow> int \<Rightarrow> bool \<Rightarrow> repo \<Rightarrow> bool \<times> int list \<times> repo" where
  "Update E get str gid notSubAsUrl S =
     (let asURL = (0 \<le> gid \<or> notSubAsUrl); content = ascii_trim str; group = rp_groups S gid in
      if (case group of Some g \<Rightarrow> gr_archive g | None \<Rightarrow> False) then (False, [], S)
      else case (if asURL then get content else HttpBody content []) of
          HttpError e \<Rightarrow> (False, [], S)
        | HttpBody body info \<Rightarrow>
            let news = se_parse E body in
            if asURL \<and> news = [] then (False, [], S)
            else (case group of
                Some g \<Rightarrow> refresh_group E g info news S
              | None \<Rightarrow> add_imported gid news S))"

subsection \<open>Entry points\<close>

text \<open>What the user answers when a URL is pasted, and the host of it.\<close>

datatype url_choice = Cancelled | AddHere | CreateGroup | ImportHttpProfile

definition is_url :: "string \<Rightarrow> bool" where
  "is_url s \<longleftrightarrow> starts_with ''http://'' s \<or> starts_with ''https://'' s"

definition AsyncUpdate ::
  "sub_env \<Rightarrow> (string \<Rightarrow> http_answer) \<Rightarrow> (string \<Rightarrow> string) \<Rightarrow> url_choice \<Rightarrow> string \<Rightarrow> int \<Rightarrow> repo \<Rightarrow> repo" where
  "AsyncUpdate E get host answer str gid S =
     (if gid < 0 \<and> is_url (ascii_trim str) then
        (case answer of
           Cancelled \<Rightarrow> S
         | AddHere \<Rightarrow> snd (snd (Update E get str gid True S))
         | CreateGroup \<Rightarrow>
             (case AddGroup (new_group\<lparr>gr_name := host str, gr_url := str\<rparr>) S of (_, g, S) \<Rightarrow>
               snd (snd (Update E get str (gr_id g) True S)))
         | ImportHttpProfile \<Rightarrow> snd (snd (Update E get str gid False S)))
      else snd (snd (Update E get str gid False S)))"

definition AsyncImportBatch :: "sub_env \<Rightarrow> string list \<Rightarrow> repo \<Rightarrow> repo" where
  "AsyncImportBatch E payloads S =
     (if payloads = [] then S
      else snd (snd (ProfilesRepo_AddProfileBatch (concat (map (\<lambda>p. se_parse E (ascii_trim p)) payloads)) (-1) S)))"

text \<open>
  All groups, one after the other. The next group is looked for before the current one is
  updated. The second component is the order of the updates.
\<close>

definition should_skip_group :: "bool \<Rightarrow> group option \<Rightarrow> bool" where
  "should_skip_group onlyAllowed g = (case g of
     None \<Rightarrow> True
   | Some g \<Rightarrow> gr_url g = [] \<or> gr_archive g \<or> (onlyAllowed \<and> gr_skip_auto_update g))"

function serialUpdateSubscription ::
  "(string \<Rightarrow> int \<Rightarrow> repo \<Rightarrow> repo) \<Rightarrow> bool \<Rightarrow> int list \<Rightarrow> repo \<Rightarrow> repo \<times> int list" where
  "serialUpdateSubscription upd onlyAllowed [] S = (S, [])"
| "serialUpdateSubscription upd onlyAllowed (gid # gids) S =
     (case rp_groups S gid of
        None \<Rightarrow> serialUpdateSubscription upd onlyAllowed gids S
      | Some g \<Rightarrow>
          if should_skip_group onlyAllowed (Some g) then serialUpdateSubscription upd onlyAllowed gids S
          else let rest = dropWhile (\<lambda>i. should_skip_group onlyAllowed (rp_groups S i)) gids in
            (case serialUpdateSubscription upd onlyAllowed rest (upd (gr_url g) gid S) of (S', done) \<Rightarrow>
               (S', gid # done)))"
  by pat_completeness auto
termination
  by (relation "measure (\<lambda>(upd, only, gids, S). length gids)") (auto simp: le_imp_less_Suc length_dropWhile_le)

definition update_all_groups ::
  "sub_env \<Rightarrow> (string \<Rightarrow> http_answer) \<Rightarrow> bool \<Rightarrow> bool \<Rightarrow> repo \<Rightarrow> repo \<times> int list" where
  "update_all_groups E get updating onlyAllowed S =
     (if updating then (S, [])
      else serialUpdateSubscription (\<lambda>url gid S. snd (snd (Update E get url gid False S))) onlyAllowed
             (GetGroupsTabOrder S) S)"

end
