(* ===== verification/RepositoryProps.thy ===== *)
theory RepositoryProps
  imports Repository GroupProps
begin

text \<open>
  What the two repositories keep of each other: the rows of a group name its profiles, each once, and a
  profile stands in the rows of the group it belongs to.
\<close>

subsection \<open>The invariant\<close>

text \<open>The two directions are apart, because a refresh gives up the second one for a while.\<close>

definition repo_refs :: "repo \<Rightarrow> bool" where
  "repo_refs S \<longleftrightarrow>
     (\<forall>i g. rp_groups S i = Some g \<longrightarrow> gr_id g = i \<and> 0 \<le> i \<and> i \<le> rp_group_last_id S \<and> distinct (gr_profiles g) \<and>
        (\<forall>k\<in>set (gr_profiles g). \<exists>p. rp_profiles S k = Some p \<and> pr_gid p = i)) \<and>
     (\<forall>k p. rp_profiles S k = Some p \<longrightarrow> pr_id p = k \<and> 0 \<le> k \<and> k \<le> rp_profile_last_id S \<and>
        rp_groups S (pr_gid p) \<noteq> None) \<and>
     -1 \<le> rp_profile_last_id S \<and> -1 \<le> rp_group_last_id S"

definition repo_listed :: "repo \<Rightarrow> bool" where
  "repo_listed S \<longleftrightarrow> (\<forall>k p g. rp_profiles S k = Some p \<longrightarrow> rp_groups S (pr_gid p) = Some g \<longrightarrow> k \<in> set (gr_profiles g))"

definition repo_ok :: "repo \<Rightarrow> bool" where
  "repo_ok S \<longleftrightarrow> repo_refs S \<and> repo_listed S"

lemma repo_refs_group:
  assumes "repo_refs S" "rp_groups S i = Some g"
  shows "gr_id g = i" "0 \<le> i" "i \<le> rp_group_last_id S" "distinct (gr_profiles g)"
    "k \<in> set (gr_profiles g) \<Longrightarrow> \<exists>p. rp_profiles S k = Some p \<and> pr_gid p = i"
  using assms unfolding repo_refs_def by blast+

lemma repo_refs_profile:
  assumes "repo_refs S" "rp_profiles S k = Some p"
  shows "pr_id p = k" "0 \<le> k" "k \<le> rp_profile_last_id S" "\<exists>g. rp_groups S (pr_gid p) = Some g"
  using assms unfolding repo_refs_def by blast+

lemma repo_refs_fresh: "repo_refs S \<Longrightarrow> rp_profile_last_id S < k \<Longrightarrow> rp_profiles S k = None"
  using repo_refs_profile(3) by (metis leD not_Some_eq)

lemma repo_listedD:
  "repo_listed S \<Longrightarrow> rp_profiles S k = Some p \<Longrightarrow> rp_groups S (pr_gid p) = Some g \<Longrightarrow> k \<in> set (gr_profiles g)"
  unfolding repo_listed_def by blast

text \<open>Two groups share no row.\<close>

lemma repo_refs_rows_disjoint:
  assumes "repo_refs S" "rp_groups S i = Some g" "rp_groups S j = Some h" "k \<in> set (gr_profiles g)" "k \<in> set (gr_profiles h)"
  shows "i = j"
  using repo_refs_group(5) [OF assms(1,2,4)] repo_refs_group(5) [OF assms(1,3,5)] by auto

subsection \<open>Reading a batch\<close>

lemma GetProfileBatch_simps [simp]:
  "GetProfileBatch S [] = []"
  "GetProfileBatch S (i # ids) = (case rp_profiles S i of None \<Rightarrow> GetProfileBatch S ids | Some p \<Rightarrow> p # GetProfileBatch S ids)"
  by (simp_all add: GetProfileBatch_def List.map_filter_simps split: option.split)

lemma set_GetProfileBatch: "set (GetProfileBatch S ids) = {p. \<exists>i\<in>set ids. rp_profiles S i = Some p}"
  by (induction ids) (auto split: option.splits)

lemma ids_GetProfileBatch:
  assumes "\<forall>i\<in>set ids. \<exists>p. rp_profiles S i = Some p \<and> pr_id p = i"
  shows "map pr_id (GetProfileBatch S ids) = ids"
  using assms by (induction ids) (auto split: option.splits)

lemma ids_of_rows:
  assumes "repo_refs S" "rp_groups S i = Some g"
  shows "map pr_id (GetProfileBatch S (gr_profiles g)) = gr_profiles g"
proof (rule ids_GetProfileBatch)
  show "\<forall>k\<in>set (gr_profiles g). \<exists>p. rp_profiles S k = Some p \<and> pr_id p = k"
    using repo_refs_group(5) [OF assms] repo_refs_profile(1) [OF assms(1)] by blast
qed

subsection \<open>Writing a group or a profile\<close>

lemma put_group_fields [simp]:
  "rp_profiles (put_group g S) = rp_profiles S" "rp_profile_last_id (put_group g S) = rp_profile_last_id S"
  "rp_group_last_id (put_group g S) = rp_group_last_id S" "rp_started_id (put_group g S) = rp_started_id S"
  "rp_groups (put_group g S) = (rp_groups S)(gr_id g \<mapsto> g)" "rp_current_group (put_group g S) = rp_current_group S"
  "rp_order (put_group g S) = rp_order S"
  by (simp_all add: put_group_def)

text \<open>Other data of a group, or its rows in another order.\<close>

lemma put_group_same_rows:
  assumes "repo_ok S" "rp_groups S i = Some g" "gr_id h = i"
    "distinct (gr_profiles h)" "set (gr_profiles h) = set (gr_profiles g)"
  shows "repo_ok (put_group h S)"
  unfolding repo_ok_def
proof
  have S: "repo_refs S" "repo_listed S" using assms(1) by (simp_all add: repo_ok_def)
  show "repo_refs (put_group h S)"
    using S(1) repo_refs_group [OF S(1) assms(2)] assms(3-5) unfolding repo_refs_def by auto
  show "repo_listed (put_group h S)"
    using S(2) assms(2,3,5) unfolding repo_listed_def by auto
qed

lemma put_profile_fields [simp]:
  "rp_profiles (put_profile p S) = (rp_profiles S)(pr_id p \<mapsto> p)" "rp_profile_last_id (put_profile p S) = rp_profile_last_id S"
  "rp_group_last_id (put_profile p S) = rp_group_last_id S" "rp_started_id (put_profile p S) = rp_started_id S"
  "rp_groups (put_profile p S) = rp_groups S" "rp_current_group (put_profile p S) = rp_current_group S"
  "rp_order (put_profile p S) = rp_order S"
  by (simp_all add: put_profile_def)

lemma put_profile_same:
  assumes "rp_profiles S (pr_id p) = Some q" "pr_gid p = pr_gid q"
  shows "repo_refs S \<Longrightarrow> repo_refs (put_profile p S)" "repo_listed S \<Longrightarrow> repo_listed (put_profile p S)"
proof -
  have rows: "\<exists>p'. ((rp_profiles S)(pr_id p \<mapsto> p)) k = Some p' \<and> pr_gid p' = i"
    if "rp_profiles S k = Some p0" "pr_gid p0 = i" for k i p0
    using that assms by (cases "k = pr_id p") auto
  show "repo_refs (put_profile p S)" if "repo_refs S"
    unfolding repo_refs_def put_profile_fields
  proof (intro conjI allI impI ballI)
    fix i g k assume "rp_groups S i = Some g" "k \<in> set (gr_profiles g)"
    then show "\<exists>p'. ((rp_profiles S)(pr_id p \<mapsto> p)) k = Some p' \<and> pr_gid p' = i"
      using repo_refs_group(5) [OF that] rows by blast
  qed (use that assms in \<open>auto simp: repo_refs_def split: if_splits\<close>)
  show "repo_listed (put_profile p S)" if "repo_listed S"
    using that assms unfolding repo_listed_def by auto
qed

subsection \<open>Adding profiles\<close>

lemma number_new_ids:
  assumes "\<forall>p\<in>set ps. pr_id p < 0"
  shows "map pr_id (number_new n gid ps) = map (\<lambda>i. n + int i) [0..<length ps]"
    "length (number_new n gid ps) = length ps"
  using assms
  by (induction ps arbitrary: n)
    (simp_all add: upt_conv_Cons map_Suc_upt [symmetric] o_def algebra_simps del: upt_Suc)

lemma number_new_nth:
  assumes "\<forall>p\<in>set ps. pr_id p < 0" "i < length ps"
  shows "number_new n gid ps ! i = (ps ! i)\<lparr>pr_id := n + int i, pr_gid := gid\<rparr>"
  using assms by (induction ps arbitrary: n i) (auto simp: nth_Cons algebra_simps split: nat.split)

lemma to_add_fresh: "\<forall>p\<in>set ps. pr_id p < 0 \<Longrightarrow> to_add ps = ps"
  by (simp add: to_add_def)

lemma fold_put_profile [simp]:
  "rp_profile_last_id (fold put_profile ps S) = rp_profile_last_id S"
  "rp_group_last_id (fold put_profile ps S) = rp_group_last_id S" "rp_started_id (fold put_profile ps S) = rp_started_id S"
  "rp_groups (fold put_profile ps S) = rp_groups S" "rp_current_group (fold put_profile ps S) = rp_current_group S"
  "rp_order (fold put_profile ps S) = rp_order S"
  by (induction ps arbitrary: S) simp_all

lemma fold_put_profile_map:
  "distinct (map pr_id ps) \<Longrightarrow>
   rp_profiles (fold put_profile ps S) = rp_profiles S ++ map_of (map (\<lambda>p. (pr_id p, p)) ps)"
proof (induction ps arbitrary: S)
  case (Cons p ps)
  have "pr_id p \<notin> dom (map_of (map (\<lambda>p. (pr_id p, p)) ps))"
    using Cons.prems by (simp add: dom_map_of_conv_image_fst image_image)
  then show ?case using Cons by (auto simp: fun_eq_iff map_add_def dom_def split: option.split)
qed simp

lemma AddProfileBatch_None:
  "rp_groups S (add_to gid S) = None \<Longrightarrow> ProfilesRepo_AddProfileBatch news gid S = (False, news, S)"
  by (simp add: ProfilesRepo_AddProfileBatch_def Let_def)

lemma AddProfileBatch_facts:
  fixes news S gid
  defines "news' \<equiv> number_new (rp_profile_last_id S + 1) (add_to gid S) news"
  assumes ok: "repo_ok S" and g: "rp_groups S (add_to gid S) = Some g" and fresh: "\<forall>p\<in>set news. pr_id p < 0"
    and res: "ProfilesRepo_AddProfileBatch news gid S = (b, ps, S')"
  shows "b" "ps = news'"
    "rp_groups S' = (rp_groups S)(add_to gid S \<mapsto> g\<lparr>gr_profiles := gr_profiles g @ map pr_id news'\<rparr>)"
    "rp_profiles S' = rp_profiles S ++ map_of (map (\<lambda>p. (pr_id p, p)) news')"
    "rp_profile_last_id S' = rp_profile_last_id S + int (length news)"
    "rp_group_last_id S' = rp_group_last_id S" "rp_started_id S' = rp_started_id S" "rp_order S' = rp_order S"
    "rp_current_group S' = rp_current_group S"
proof -
  let ?n = "rp_profile_last_id S + 1" and ?gid = "add_to gid S"
  have refs: "repo_refs S" using ok by (simp add: repo_ok_def)
  have ids: "map pr_id news' = map (\<lambda>i. ?n + int i) [0..<length news]"
    using number_new_ids(1) [OF fresh] by (simp add: news'_def)
  have dist: "distinct (map pr_id news')" by (simp add: ids distinct_map inj_on_def)
  have new: "filter (\<lambda>i. i \<notin> set (gr_profiles g)) (map pr_id news') = map pr_id news'"
  proof (rule filter_True, rule ballI)
    fix i assume "i \<in> set (map pr_id news')"
    then have "rp_profile_last_id S < i" by (auto simp: ids)
    then have "rp_profiles S i = None" using repo_refs_fresh [OF refs] by simp
    then show "i \<notin> set (gr_profiles g)" using repo_refs_group(5) [OF refs g] by force
  qed
  have gid: "gr_id g = ?gid" by (rule repo_refs_group(1) [OF refs g])
  have len: "length news' = length news" using number_new_ids(2) [OF fresh] by (simp add: news'_def)
  have all: "b \<and> ps = news' \<and> rp_groups S' = (rp_groups S)(?gid \<mapsto> g\<lparr>gr_profiles := gr_profiles g @ map pr_id news'\<rparr>) \<and>
    rp_profiles S' = rp_profiles S ++ map_of (map (\<lambda>p. (pr_id p, p)) news') \<and>
    rp_profile_last_id S' = rp_profile_last_id S + int (length news) \<and>
    rp_group_last_id S' = rp_group_last_id S \<and> rp_started_id S' = rp_started_id S \<and> rp_order S' = rp_order S \<and>
    rp_current_group S' = rp_current_group S"
  proof (cases "news = []")
    case True
    then show ?thesis using res g by (auto simp: ProfilesRepo_AddProfileBatch_def Let_def to_add_def news'_def)
  next
    case False
    have "AddProfileBatch (map pr_id news') g = (True, g\<lparr>gr_profiles := gr_profiles g @ map pr_id news'\<rparr>)"
      using new by (simp add: AddProfileBatch_def)
    then show ?thesis
      using res g gid False fold_put_profile_map [OF dist] to_add_fresh [OF fresh]
      by (auto simp: ProfilesRepo_AddProfileBatch_def Let_def news'_def)
  qed
  then show "b" "ps = news'"
    "rp_groups S' = (rp_groups S)(add_to gid S \<mapsto> g\<lparr>gr_profiles := gr_profiles g @ map pr_id news'\<rparr>)"
    "rp_profiles S' = rp_profiles S ++ map_of (map (\<lambda>p. (pr_id p, p)) news')"
    "rp_profile_last_id S' = rp_profile_last_id S + int (length news)"
    "rp_group_last_id S' = rp_group_last_id S" "rp_started_id S' = rp_started_id S" "rp_order S' = rp_order S"
    "rp_current_group S' = rp_current_group S"
    by blast+
qed

text \<open>The new objects as a map, and where each of them is.\<close>

lemma new_profile_at:
  assumes fresh: "\<forall>p\<in>set news. pr_id p < 0"
  shows "map_of (map (\<lambda>p. (pr_id p, p)) (number_new n gid news)) k = Some q \<longleftrightarrow>
    (\<exists>i<length news. k = n + int i \<and> q = (news ! i)\<lparr>pr_id := n + int i, pr_gid := gid\<rparr>)"
proof -
  let ?ps = "number_new n gid news"
  have ids: "map pr_id ?ps = map (\<lambda>i. n + int i) [0..<length news]" and len: "length ?ps = length news"
    using number_new_ids [OF fresh] by simp_all
  have "distinct (map fst (map (\<lambda>p. (pr_id p, p)) ?ps))" by (simp add: o_def ids distinct_map inj_on_def)
  then have "map_of (map (\<lambda>p. (pr_id p, p)) ?ps) k = Some q \<longleftrightarrow> (k, q) \<in> set (map (\<lambda>p. (pr_id p, p)) ?ps)"
    by (rule map_of_eq_Some_iff)
  also have "\<dots> \<longleftrightarrow> q \<in> set ?ps \<and> k = pr_id q" by auto
  also have "\<dots> \<longleftrightarrow> (\<exists>i<length news. q = ?ps ! i \<and> k = pr_id q)"
    by (auto simp: in_set_conv_nth len)
  also have "\<dots> \<longleftrightarrow> (\<exists>i<length news. k = n + int i \<and> q = (news ! i)\<lparr>pr_id := n + int i, pr_gid := gid\<rparr>)"
    using number_new_nth [OF fresh] by auto
  finally show ?thesis .
qed

lemma ProfilesRepo_AddProfileBatch_ok:
  assumes ok: "repo_ok S" and fresh: "\<forall>p\<in>set news. pr_id p < 0"
    and res: "ProfilesRepo_AddProfileBatch news gid S = (b, ps, S')"
  shows "repo_ok S'"
proof (cases "rp_groups S (add_to gid S)")
  case None
  then show ?thesis using ok res AddProfileBatch_None by simp
next
  case (Some g)
  let ?n = "rp_profile_last_id S + 1" and ?gid = "add_to gid S"
  let ?new = "map_of (map (\<lambda>p. (pr_id p, p)) (number_new ?n ?gid news))"
  have refs: "repo_refs S" and listed: "repo_listed S" using ok by (simp_all add: repo_ok_def)
  note facts = AddProfileBatch_facts [OF ok Some fresh res]
  note new = new_profile_at [OF fresh, of ?n ?gid]
  have ids: "map pr_id (number_new ?n ?gid news) = map (\<lambda>i. ?n + int i) [0..<length news]"
    using number_new_ids(1) [OF fresh] .
  have none: "?new k = None" if "k \<le> rp_profile_last_id S" for k
  proof (cases "?new k")
    case (Some q)
    then obtain i where "k = ?n + int i" using new by blast
    then show ?thesis using that by simp
  qed
  have profile: "rp_profiles S' k = Some p \<longleftrightarrow> rp_profiles S k = Some p \<or> ?new k = Some p" for k p
    using none repo_refs_profile(3) [OF refs, of k] by (auto simp: facts(4) map_add_Some_iff)
  show ?thesis unfolding repo_ok_def repo_refs_def repo_listed_def
  proof (intro conjI allI impI ballI)
    fix i h assume h: "rp_groups S' i = Some h"
    show "gr_id h = i" "0 \<le> i" "i \<le> rp_group_last_id S'"
      using h repo_refs_group(1-3) [OF refs] Some by (auto simp: facts(3,6) split: if_splits)
    show "distinct (gr_profiles h)"
    proof (cases "i = ?gid")
      case True
      have "set (gr_profiles g) \<inter> set (map pr_id (number_new ?n ?gid news)) = {}"
        using repo_refs_group(5) [OF refs Some] repo_refs_profile(3) [OF refs] by (fastforce simp: ids)
      then show ?thesis using h True repo_refs_group(4) [OF refs Some]
        by (auto simp: facts(3) ids distinct_map inj_on_def)
    next
      case False
      then show ?thesis using h repo_refs_group(4) [OF refs] by (simp add: facts(3))
    qed
    fix k assume k: "k \<in> set (gr_profiles h)"
    show "\<exists>p. rp_profiles S' k = Some p \<and> pr_gid p = i"
    proof (cases "i = ?gid \<and> k \<in> set (map pr_id (number_new ?n ?gid news))")
      case True
      then obtain j where "j < length news" "k = ?n + int j" by (auto simp: ids)
      then show ?thesis using True by (intro exI [of _ "(news ! j)\<lparr>pr_id := ?n + int j, pr_gid := ?gid\<rparr>"]) (auto simp: profile new)
    next
      case False
      then obtain h' where "rp_groups S i = Some h'" "k \<in> set (gr_profiles h')"
        using h k Some by (auto simp: facts(3) split: if_splits)
      then show ?thesis using repo_refs_group(5) [OF refs] profile by blast
    qed
  next
    fix k p assume "rp_profiles S' k = Some p"
    then consider (old) "rp_profiles S k = Some p" | (new) "?new k = Some p" by (auto simp: profile)
    then show "pr_id p = k" "0 \<le> k" "k \<le> rp_profile_last_id S'" "rp_groups S' (pr_gid p) \<noteq> None"
      using refs repo_refs_profile [OF refs] by (cases, force simp: facts, force simp: facts new repo_refs_def)+
  next
    fix k p h assume kp: "rp_profiles S' k = Some p" and h: "rp_groups S' (pr_gid p) = Some h"
    show "k \<in> set (gr_profiles h)"
    proof (cases "rp_profiles S k = Some p")
      case True
      then show ?thesis using h repo_listedD [OF listed True] Some by (auto simp: facts(3) split: if_splits)
    next
      case False
      then obtain j where "j < length news" "k = ?n + int j" "pr_gid p = ?gid" using kp by (auto simp: profile new)
      then show ?thesis using h by (auto simp: facts(3) ids)
    qed
  qed (use refs in \<open>auto simp: facts repo_refs_def\<close>)
qed

subsection \<open>Deleting profiles\<close>

lemma remove_from_groups_fields:
  assumes "remove_from_groups gids ids S = (b, S')"
  shows "rp_profiles S' = rp_profiles S" "rp_profile_last_id S' = rp_profile_last_id S"
    "rp_group_last_id S' = rp_group_last_id S" "rp_started_id S' = rp_started_id S" "rp_order S' = rp_order S"
    "rp_current_group S' = rp_current_group S"
  using assms by (induction gids arbitrary: S) (auto split: option.splits)

definition rows_without :: "int list \<Rightarrow> group \<Rightarrow> group" where
  "rows_without ids g = g\<lparr>gr_profiles := filter (\<lambda>i. i \<notin> set ids) (gr_profiles g)\<rparr>"

lemma rows_without_twice [simp]: "rows_without ids (rows_without ids g) = rows_without ids g"
  by (simp add: rows_without_def)

lemma rows_without_fields [simp]:
  "gr_profiles (rows_without ids g) = filter (\<lambda>i. i \<notin> set ids) (gr_profiles g)"
  "gr_id (rows_without ids g) = gr_id g"
  by (simp_all add: rows_without_def)

lemma remove_from_groups_ok:
  assumes "\<forall>i\<in>set gids. \<exists>g. rp_groups S i = Some g" "\<forall>i g. rp_groups S i = Some g \<longrightarrow> gr_id g = i"
  shows "\<exists>S'. remove_from_groups gids ids S = (True, S') \<and>
    (\<forall>k. rp_groups S' k = (if k \<in> set gids then map_option (rows_without ids) (rp_groups S k) else rp_groups S k))"
  using assms
proof (induction gids arbitrary: S)
  case (Cons gid gids)
  then obtain g where g: "rp_groups S gid = Some g" "gr_id g = gid" by auto
  let ?S = "put_group (rows_without ids g) S"
  have step: "snd (RemoveProfileBatch ids g) = rows_without ids g"
    by (simp add: RemoveProfileBatch_def rows_without_def)
  have pre: "\<forall>i\<in>set gids. \<exists>g. rp_groups ?S i = Some g" "\<forall>i g. rp_groups ?S i = Some g \<longrightarrow> gr_id g = i"
    using Cons.prems g by auto
  obtain S' where S': "remove_from_groups gids ids ?S = (True, S')"
    "\<forall>k. rp_groups S' k = (if k \<in> set gids then map_option (rows_without ids) (rp_groups ?S k) else rp_groups ?S k)"
    using Cons.IH [OF pre] by blast
  show ?case
  proof (intro exI conjI allI)
    show "remove_from_groups (gid # gids) ids S = (True, S')" using g S'(1) by (simp add: step)
    show "rp_groups S' k = (if k \<in> set (gid # gids) then map_option (rows_without ids) (rp_groups S k) else rp_groups S k)" for k
      using S'(2) g by auto
  qed
qed simp

lemma hold_running_fields:
  assumes "hold_running a stop ids S = (ids', S')"
  shows "rp_profiles S' = rp_profiles S" "rp_groups S' = rp_groups S" "rp_profile_last_id S' = rp_profile_last_id S"
    "rp_group_last_id S' = rp_group_last_id S" "rp_order S' = rp_order S" "rp_current_group S' = rp_current_group S"
    "set ids' = set ids - (if stop then {} else {rp_started_id S})" "\<not> stop \<Longrightarrow> rp_started_id S' = rp_started_id S"
  using assms by (auto simp: hold_running_def split: if_splits)

lemma delete_rows_fields [simp]:
  "rp_profiles (delete_rows ids S) = (\<lambda>i. if i \<in> set ids then None else rp_profiles S i)"
  "rp_groups (delete_rows ids S) = rp_groups S" "rp_profile_last_id (delete_rows ids S) = rp_profile_last_id S"
  "rp_group_last_id (delete_rows ids S) = rp_group_last_id S" "rp_order (delete_rows ids S) = rp_order S"
  "rp_current_group (delete_rows ids S) = rp_current_group S" "rp_started_id (delete_rows ids S) = rp_started_id S"
  by (simp_all add: delete_rows_def)

text \<open>The rows of every group lose what was deleted, not only those the loop visits.\<close>

lemma BatchDelete_facts:
  assumes refs: "repo_refs S" and res: "BatchDeleteProfiles a stop ids S = (b, ids', S')"
  shows "b" "set ids' = set ids - (if stop then {} else {rp_started_id S})"
    "rp_profiles S' = (\<lambda>i. if i \<in> set ids' then None else rp_profiles S i)"
    "rp_groups S' = (\<lambda>k. map_option (rows_without ids') (rp_groups S k))"
    "rp_profile_last_id S' = rp_profile_last_id S" "rp_group_last_id S' = rp_group_last_id S"
    "rp_order S' = rp_order S" "rp_current_group S' = rp_current_group S" "\<not> stop \<Longrightarrow> rp_started_id S' = rp_started_id S"
proof -
  obtain ids0 S0 where hold: "hold_running a stop ids S = (ids0, S0)" by fastforce
  note f0 = hold_running_fields [OF hold]
  let ?gids = "remdups (map pr_gid (GetProfileBatch S0 ids0))"
  have gids: "set ?gids = {pr_gid p |p i. i \<in> set ids0 \<and> rp_profiles S i = Some p}"
    by (auto simp: set_GetProfileBatch f0)
  have pre: "\<forall>i\<in>set ?gids. \<exists>g. rp_groups S0 i = Some g" "\<forall>i g. rp_groups S0 i = Some g \<longrightarrow> gr_id g = i"
    using repo_refs_profile(4) [OF refs] repo_refs_group(1) [OF refs] unfolding gids f0 by auto
  obtain S1 where S1: "remove_from_groups ?gids ids0 S0 = (True, S1)"
    "\<forall>k. rp_groups S1 k = (if k \<in> set ?gids then map_option (rows_without ids0) (rp_groups S0 k) else rp_groups S0 k)"
    using remove_from_groups_ok [OF pre] by blast
  note f1 = remove_from_groups_fields [OF S1(1)]
  have eq: "b = True" "ids' = ids0" "S' = delete_rows ids0 S1"
    using res by (auto simp: BatchDeleteProfiles_def hold S1(1))
  have groups: "rp_groups S1 k = map_option (rows_without ids0) (rp_groups S k)" for k
  proof (cases "k \<in> set ?gids")
    case False
    show ?thesis
    proof (cases "rp_groups S k")
      case (Some g)
      have "i \<notin> set ids0" if i: "i \<in> set (gr_profiles g)" for i
      proof
        assume "i \<in> set ids0"
        moreover obtain p where "rp_profiles S i = Some p" "pr_gid p = k"
          using repo_refs_group(5) [OF refs Some i] by blast
        ultimately show False using False unfolding gids by blast
      qed
      then have "filter (\<lambda>i. i \<notin> set ids0) (gr_profiles g) = gr_profiles g" by (simp add: filter_id_conv)
      then show ?thesis using S1(2) False Some by (simp add: f0 rows_without_def)
    qed (use S1(2) False in \<open>simp add: f0\<close>)
  qed (use S1(2) in \<open>simp add: f0\<close>)
  show "b" "set ids' = set ids - (if stop then {} else {rp_started_id S})"
    "rp_profiles S' = (\<lambda>i. if i \<in> set ids' then None else rp_profiles S i)"
    "rp_groups S' = (\<lambda>k. map_option (rows_without ids') (rp_groups S k))"
    "rp_profile_last_id S' = rp_profile_last_id S" "rp_group_last_id S' = rp_group_last_id S"
    "rp_order S' = rp_order S" "rp_current_group S' = rp_current_group S" "\<not> stop \<Longrightarrow> rp_started_id S' = rp_started_id S"
    using f0 f1 groups by (simp_all add: eq fun_eq_iff)
qed

lemma BatchDelete_refs:
  assumes refs: "repo_refs S" and res: "BatchDeleteProfiles a stop ids S = (b, ids', S')"
  shows "repo_refs S'"
proof -
  note f = BatchDelete_facts [OF refs res]
  show ?thesis unfolding repo_refs_def
  proof (intro conjI allI impI ballI)
    fix i h assume "rp_groups S' i = Some h"
    then obtain g where g: "rp_groups S i = Some g" "h = rows_without ids' g" by (auto simp: f)
    show "gr_id h = i" "0 \<le> i" "i \<le> rp_group_last_id S'" "distinct (gr_profiles h)"
      using repo_refs_group(1-4) [OF refs g(1)] by (simp_all add: g f)
    show "\<exists>p. rp_profiles S' k = Some p \<and> pr_gid p = i" if "k \<in> set (gr_profiles h)" for k
      using that repo_refs_group(5) [OF refs g(1)] by (auto simp: g f)
  next
    fix k p assume "rp_profiles S' k = Some p"
    then have "rp_profiles S k = Some p" by (simp add: f split: if_splits)
    then show "pr_id p = k" "0 \<le> k" "k \<le> rp_profile_last_id S'" "rp_groups S' (pr_gid p) \<noteq> None"
      using repo_refs_profile [OF refs] by (auto simp: f)
  qed (use refs in \<open>simp_all add: f repo_refs_def\<close>)
qed

lemma BatchDelete_listed:
  assumes refs: "repo_refs S" and res: "BatchDeleteProfiles a stop ids S = (b, ids', S')"
    and listed: "\<And>k p g. k \<notin> set ids' \<Longrightarrow> rp_profiles S k = Some p \<Longrightarrow> rp_groups S (pr_gid p) = Some g \<Longrightarrow> k \<in> set (gr_profiles g)"
  shows "repo_listed S'"
  using listed unfolding repo_listed_def
  by (auto simp: BatchDelete_facts [OF refs res] split: if_splits)

lemma BatchDelete_ok:
  assumes "repo_ok S" "BatchDeleteProfiles a stop ids S = (b, ids', S')"
  shows "repo_ok S'"
  using assms BatchDelete_refs BatchDelete_listed unfolding repo_ok_def repo_listed_def by metis

end
