(* ===== verification/SubscriptionProps.thy ===== *)
theory SubscriptionProps
  imports Subscription RepositoryProps
begin

text \<open>
  What a refresh leaves behind: a consistent repository, the servers of the answer in their order, the
  profiles that did not change under their old ids, and everything that is not its business as it was.
\<close>

subsection \<open>Lists of rows\<close>

lemma set_list_insert [simp]: "set (list_insert n x l) = insert x (set l)"
proof -
  have "set (take n l) \<union> set (drop n l) = set l" by (metis append_take_drop_id set_append)
  then show ?thesis by (auto simp: list_insert_def)
qed

lemma distinct_list_insert [simp]: "x \<notin> set l \<Longrightarrow> distinct l \<Longrightarrow> distinct (list_insert n x l)"
  by (auto simp: list_insert_def set_take_disj_set_drop_if_distinct dest: in_set_takeD in_set_dropD)

lemma filter_list_insert [simp]: "\<not> P x \<Longrightarrow> filter P (list_insert n x l) = filter P l"
proof -
  have "filter P (take n l) @ filter P (drop n l) = filter P l" by (metis append_take_drop_id filter_append)
  then show "\<not> P x \<Longrightarrow> ?thesis" by (simp add: list_insert_def)
qed

lemma insert_sticky_set: "set (insert_sticky rows l) = snd ` set rows \<union> set l"
  unfolding insert_sticky_def by (induction rows arbitrary: l) auto

lemma insert_sticky_distinct:
  "distinct (map snd rows) \<Longrightarrow> snd ` set rows \<inter> set l = {} \<Longrightarrow> distinct l \<Longrightarrow> distinct (insert_sticky rows l)"
  unfolding insert_sticky_def by (induction rows arbitrary: l) auto

lemma insert_sticky_filter:
  "\<forall>r\<in>set rows. \<not> P (snd r) \<Longrightarrow> filter P (insert_sticky rows l) = filter P l"
  unfolding insert_sticky_def by (induction rows arbitrary: l) auto

lemma keep_row_rows:
  "set (gr_profiles (keep_row prev i g)) = insert i (set (gr_profiles g))"
  "distinct (gr_profiles g) \<Longrightarrow> distinct (gr_profiles (keep_row prev i g))"
  "\<not> P i \<Longrightarrow> filter P (gr_profiles (keep_row prev i g)) = filter P (gr_profiles g)"
  "gr_id (keep_row prev i g) = gr_id g"
  by (auto simp: keep_row_def HasProfile_def Let_def)

lemma restore_kept_rows:
  "set (gr_profiles (restore_kept prev kept g)) = set kept \<union> set (gr_profiles g)"
  "distinct (gr_profiles g) \<Longrightarrow> distinct (gr_profiles (restore_kept prev kept g))"
  "\<forall>i\<in>set kept. \<not> P i \<Longrightarrow> filter P (gr_profiles (restore_kept prev kept g)) = filter P (gr_profiles g)"
  unfolding restore_kept_def
  by (induction kept arbitrary: g) (simp_all add: keep_row_rows)

lemma restore_kept_Nil [simp]: "restore_kept prev [] g = g"
  by (simp add: restore_kept_def)

lemma restore_kept_id: "gr_id (restore_kept prev kept g) = gr_id g"
  unfolding restore_kept_def by (induction kept arbitrary: g) (simp_all add: keep_row_rows)

lemma sticky_rows_ids:
  assumes "distinct (gr_profiles g)"
  shows "distinct (map snd (sticky_rows S g))" "snd ` set (sticky_rows S g) = {i \<in> set (gr_profiles g). is_selector S i}"
proof -
  have "map snd (enumerate 0 (gr_profiles g)) = gr_profiles g" by (rule map_snd_enumerate)
  then show "distinct (map snd (sticky_rows S g))"
    using assms unfolding sticky_rows_def by (metis distinct_map_filter)
  have "snd ` set (sticky_rows S g) = {i \<in> snd ` set (enumerate 0 (gr_profiles g)). is_selector S i}"
    unfolding sticky_rows_def by auto
  then show "snd ` set (sticky_rows S g) = {i \<in> set (gr_profiles g). is_selector S i}"
    by (metis list.set_map map_snd_enumerate)
qed

lemma owned_ids_eq:
  assumes "repo_refs S" "rp_groups S gid = Some g"
  shows "owned_ids A gid S = filter (\<lambda>i. i \<notin> A) (gr_profiles g)"
  using ids_of_rows [OF assms] by (simp add: owned_ids_def assms(2) filter_map o_def [symmetric])
    (metis (no_types, lifting) comp_def filter_cong filter_map)

subsection \<open>The difference\<close>

lemma difference_parts:
  fixes E S ins out_all
  defines "d \<equiv> sub_difference E S ins out_all" and "out \<equiv> filter (\<lambda>i. i \<notin> set ins) out_all"
    and "key \<equiv> text_at (se_key E) S" and "ikey \<equiv> text_at (se_identity E) S"
  shows "sd_same d = claim key (srcByKey key ins) out"
    "sd_changed d = claim ikey (srcByKey ikey (filter (\<lambda>i. key i \<notin> key ` set out) ins)) (filter (\<lambda>i. key i \<notin> key ` set ins) out)"
  by (simp_all add: d_def out_def key_def ikey_def sub_difference_def Common_def ChangedByIdentity_def
      OnlyInSrc_def OnlyInSrc_ByPointer_def Let_def zip_map_fst_snd)

lemma difference_pairs:
  fixes E S ins out_all
  defines "d \<equiv> sub_difference E S ins out_all" and "out \<equiv> filter (\<lambda>i. i \<notin> set ins) out_all"
    and "key \<equiv> text_at (se_key E) S"
  shows "(old, new) \<in> set (sd_same d) \<Longrightarrow> old \<in> set ins \<and> new \<in> set out \<and> key old = key new"
    and "(old, new) \<in> set (sd_changed d) \<Longrightarrow>
      old \<in> set ins \<and> new \<in> set out \<and> key old \<notin> key ` set out \<and> key new \<notin> key ` set ins"
proof -
  note parts = difference_parts [of E S ins out_all, folded d_def out_def key_def]
  show "old \<in> set ins \<and> new \<in> set out \<and> key old = key new" if "(old, new) \<in> set (sd_same d)"
  proof (intro conjI)
    have m: "(old, new) \<in> set (claim key (srcByKey key ins) out)" using that by (simp add: parts)
    show "old \<in> set ins" by (rule claim_fst_src [OF m])
    show "new \<in> set out" using claim_snd_subset m by (metis imageI snd_conv subsetD)
    show "key old = key new" by (rule claim_keys [OF buckets_ok_src m])
  qed
  let ?old = "filter (\<lambda>i. key i \<notin> key ` set out) ins" and ?new = "filter (\<lambda>i. key i \<notin> key ` set ins) out"
  let ?ik = "text_at (se_identity E) S"
  show "old \<in> set ins \<and> new \<in> set out \<and> key old \<notin> key ` set out \<and> key new \<notin> key ` set ins"
    if "(old, new) \<in> set (sd_changed d)"
  proof -
    have m: "(old, new) \<in> set (claim ?ik (srcByKey ?ik ?old) ?new)" using that by (simp add: parts)
    have "old \<in> set ?old" by (rule claim_fst_src [OF m])
    moreover have "new \<in> set ?new" using claim_snd_subset m by (metis imageI snd_conv subsetD)
    ultimately show ?thesis by simp
  qed
qed

lemma difference_distinct:
  fixes E S ins out_all
  defines "d \<equiv> sub_difference E S ins out_all"
  assumes "distinct ins" "distinct out_all"
  shows "distinct (map fst (sd_same d @ sd_changed d))" "distinct (map snd (sd_same d @ sd_changed d))"
proof -
  let ?out = "filter (\<lambda>i. i \<notin> set ins) out_all"
  note parts = difference_parts [of E S ins out_all, folded d_def]
  let ?key = "text_at (se_key E) S"
  note pairs = difference_pairs [of _ _ E S ins out_all, folded d_def]
  have *: "old \<noteq> old' \<and> new \<noteq> new'" if "(old, new) \<in> set (sd_same d)" "(old', new') \<in> set (sd_changed d)" for old new old' new'
  proof -
    note a = pairs(1) [OF that(1)] and b = pairs(2) [OF that(2)]
    have "?key old \<in> ?key ` set ?out" using a by (metis imageI)
    moreover have "?key new \<in> ?key ` set ins" using a by (metis imageI)
    ultimately show ?thesis using b by auto
  qed
  have "fst ` set (sd_same d) \<inter> fst ` set (sd_changed d) = {}" "snd ` set (sd_same d) \<inter> snd ` set (sd_changed d) = {}"
    using * by auto
  moreover have "distinct (map fst (sd_same d))" "distinct (map fst (sd_changed d))"
    "distinct (map snd (sd_same d))" "distinct (map snd (sd_changed d))"
    using assms(2,3) unfolding parts by (simp_all add: claim_distinct claim_snd_distinct)
  ultimately show "distinct (map fst (sd_same d @ sd_changed d))" "distinct (map snd (sd_same d @ sd_changed d))"
    by simp_all
qed

text \<open>The id a new server ends up under.\<close>

definition settled :: "sub_diff \<Rightarrow> int \<Rightarrow> int" where
  "settled d i = (case supersededBy d i of Some old \<Rightarrow> old | None \<Rightarrow> i)"

lemma remote_order_settled: "remote_order d ids = map (settled d) ids"
  by (simp add: remote_order_def settled_def)

lemma supersededBy_iff:
  assumes "distinct (map snd (sd_same d @ sd_changed d))"
  shows "supersededBy d new = Some old \<longleftrightarrow> (old, new) \<in> set (sd_same d @ sd_changed d)"
proof -
  let ?xs = "map (\<lambda>(old, new). (new, old)) (sd_same d @ sd_changed d)"
  have fst: "map fst ?xs = map snd (sd_same d @ sd_changed d)" by (simp add: case_prod_unfold o_def)
  then have "distinct (map fst (rev ?xs))" using assms by (metis distinct_rev rev_map)
  then have "supersededBy d new = Some old \<longleftrightarrow> (new, old) \<in> set (rev ?xs)"
    unfolding supersededBy_def by (rule map_of_eq_Some_iff)
  then show ?thesis by auto
qed

lemma settled_cases:
  fixes E S ins out_all
  defines "d \<equiv> sub_difference E S ins out_all"
  assumes "distinct ins" "distinct out_all"
  obtains (same) old where "(old, i) \<in> set (sd_same d)" "settled d i = old"
    | (changed) old where "(old, i) \<in> set (sd_changed d)" "settled d i = old"
    | (new) "settled d i = i" "i \<notin> snd ` set (sd_same d @ sd_changed d)"
proof (cases "supersededBy d i")
  case None
  have "(old, i) \<notin> set (sd_same d @ sd_changed d)" for old
    using None supersededBy_iff [OF difference_distinct(2) [OF assms(2,3)], folded d_def, of E S i old] by (simp add: d_def)
  then have "i \<notin> snd ` set (sd_same d @ sd_changed d)" by fastforce
  then show ?thesis using None that(3) by (simp add: settled_def)
next
  case (Some old)
  then have "(old, i) \<in> set (sd_same d @ sd_changed d)"
    using supersededBy_iff [OF difference_distinct(2) [OF assms(2,3)]] by (simp add: d_def)
  then show ?thesis using Some that(1,2) by (auto simp: settled_def)
qed

lemma settled_range:
  fixes E S ins out_all
  defines "d \<equiv> sub_difference E S ins out_all" and "out \<equiv> filter (\<lambda>i. i \<notin> set ins) out_all"
  assumes "distinct ins" "distinct out_all" "i \<in> set out"
  shows "settled d i \<in> set ins \<or> settled d i = i"
proof (cases "supersededBy d i")
  case (Some old)
  then have "(old, i) \<in> set (sd_same d @ sd_changed d)"
    using supersededBy_iff [OF difference_distinct(2) [OF assms(3,4)], of E S] by (simp add: d_def)
  then have "old \<in> set ins" using difference_pairs [of old i E S ins out_all, folded d_def] by auto
  then show ?thesis using Some by (simp add: settled_def)
qed (simp add: settled_def)

lemma settled_inj:
  fixes E S ins out_all
  defines "d \<equiv> sub_difference E S ins out_all" and "out \<equiv> filter (\<lambda>i. i \<notin> set ins) out_all"
  assumes dist: "distinct ins" "distinct out_all"
  shows "inj_on (settled d) (set out)"
proof (rule inj_onI)
  fix i j assume ij: "i \<in> set out" "j \<in> set out" "settled d i = settled d j"
  let ?ps = "sd_same d @ sd_changed d"
  note pairs = difference_pairs [of _ _ E S ins out_all, folded d_def out_def]
  have fsts: "distinct (map fst ?ps)" and snds: "distinct (map snd ?ps)"
    using difference_distinct [OF dist, of E S] by (simp_all add: d_def)
  have some: "supersededBy d k = Some o' \<Longrightarrow> o' \<in> set ins" for k o'
    using supersededBy_iff [OF snds, of k o'] pairs by auto
  have out: "k \<in> set out \<Longrightarrow> k \<notin> set ins" for k by (simp add: out_def)
  show "i = j"
  proof (cases "supersededBy d i")
    case None
    then have i: "settled d i = i" by (simp add: settled_def)
    show ?thesis
    proof (cases "supersededBy d j")
      case None
      then show ?thesis using ij(3) i by (simp add: settled_def)
    next
      case (Some o')
      then have "i \<in> set ins" using some ij(3) i by (simp add: settled_def)
      then show ?thesis using out ij(1) by simp
    qed
  next
    case (Some old)
    show ?thesis
    proof (cases "supersededBy d j")
      case None
      then have "j \<in> set ins" using some [OF Some] ij(3) Some by (simp add: settled_def)
      then show ?thesis using out ij(2) by simp
    next
      case (Some o')
      have "o' = old" using \<open>supersededBy d i = Some old\<close> Some ij(3) by (simp add: settled_def)
      then have "(old, i) \<in> set ?ps" "(old, j) \<in> set ?ps"
        using \<open>supersededBy d i = Some old\<close> Some supersededBy_iff [OF snds] by blast+
      then show ?thesis using fsts by (metis eq_key_imp_eq_value)
    qed
  qed
qed

subsection \<open>Taking over an outbound\<close>

definition taken :: "profile \<Rightarrow> profile \<Rightarrow> profile" where
  "taken old new = old\<lparr>pr_outbound := pr_outbound new, pr_name := own_name new\<rparr>"

lemma taken_fields [simp]:
  "pr_id (taken old new) = pr_id old" "pr_gid (taken old new) = pr_gid old" "pr_type (taken old new) = pr_type old"
  "pr_outbound (taken old new) = pr_outbound new"
  by (simp_all add: taken_def)

lemma take_over_fields [simp]:
  "rp_groups (take_over m S) = rp_groups S" "rp_profile_last_id (take_over m S) = rp_profile_last_id S"
  "rp_group_last_id (take_over m S) = rp_group_last_id S" "rp_started_id (take_over m S) = rp_started_id S"
  "rp_order (take_over m S) = rp_order S" "rp_current_group (take_over m S) = rp_current_group S"
  by (simp_all add: take_over_def SaveProfile_def split: option.splits)

lemma take_over_profiles:
  assumes "repo_refs S"
  shows "rp_profiles (take_over (old, new) S) k =
    (case (rp_profiles S old, rp_profiles S new) of
       (Some p, Some q) \<Rightarrow> if k = old then Some (taken p q) else rp_profiles S k
     | _ \<Rightarrow> rp_profiles S k)"
  using repo_refs_profile [OF assms, of old]
  by (auto simp: take_over_def SaveProfile_def taken_def split: option.splits)

lemma take_over_ok:
  assumes "repo_ok S"
  shows "repo_ok (take_over m S)"
proof -
  obtain old new where m: "m = (old, new)" by fastforce
  have refs: "repo_refs S" using assms by (simp add: repo_ok_def)
  show ?thesis
  proof (cases "rp_profiles S old = None \<or> rp_profiles S new = None")
    case True
    then show ?thesis using assms by (auto simp: m take_over_def split: option.splits)
  next
    case False
    then obtain p q where pq: "rp_profiles S old = Some p" "rp_profiles S new = Some q" by auto
    have p: "pr_id p = old" "0 \<le> old" using repo_refs_profile [OF refs pq(1)] by auto
    obtain g where g: "rp_groups S (pr_gid p) = Some g" using repo_refs_profile(4) [OF refs pq(1)] by blast
    have "take_over m S = put_profile (taken p q) S"
      using pq p g by (simp add: m take_over_def SaveProfile_def taken_def)
    then show ?thesis
      using put_profile_same [of S "taken p q" p] pq p assms by (simp add: repo_ok_def)
  qed
qed

lemma take_overs_fields [simp]:
  "rp_groups (fold take_over ms S) = rp_groups S" "rp_profile_last_id (fold take_over ms S) = rp_profile_last_id S"
  "rp_group_last_id (fold take_over ms S) = rp_group_last_id S" "rp_started_id (fold take_over ms S) = rp_started_id S"
  "rp_order (fold take_over ms S) = rp_order S" "rp_current_group (fold take_over ms S) = rp_current_group S"
  by (induction ms arbitrary: S) simp_all

lemma take_overs_ok: "repo_ok S \<Longrightarrow> repo_ok (fold take_over ms S)"
  by (induction ms arbitrary: S) (simp_all add: take_over_ok)

text \<open>No object is both taken over and taken from.\<close>

lemma take_overs_profiles:
  assumes "repo_ok S" "distinct (map fst ms)" "fst ` set ms \<inter> snd ` set ms = {}"
  shows "rp_profiles (fold take_over ms S) k =
    (case map_of ms k of
       None \<Rightarrow> rp_profiles S k
     | Some new \<Rightarrow> (case (rp_profiles S k, rp_profiles S new) of (Some p, Some q) \<Rightarrow> Some (taken p q) | _ \<Rightarrow> rp_profiles S k))"
  using assms
proof (induction ms arbitrary: S)
  case (Cons m ms)
  obtain old new where m: "m = (old, new)" by fastforce
  let ?S = "take_over m S"
  have refs: "repo_refs S" using Cons.prems(1) by (simp add: repo_ok_def)
  have IH: "rp_profiles (fold take_over ms ?S) k = (case map_of ms k of
       None \<Rightarrow> rp_profiles ?S k
     | Some new \<Rightarrow> (case (rp_profiles ?S k, rp_profiles ?S new) of (Some p, Some q) \<Rightarrow> Some (taken p q) | _ \<Rightarrow> rp_profiles ?S k))"
    by (rule Cons.IH) (use Cons.prems take_over_ok in auto)
  have other: "rp_profiles ?S j = rp_profiles S j" if "j \<noteq> old" for j
    using that by (simp add: m take_over_profiles [OF refs] split: option.split)
  show ?case
  proof (cases "k = old")
    case True
    then have "map_of ms k = None" using Cons.prems(2) by (simp add: m map_of_eq_None_iff)
    then show ?thesis using IH True by (simp add: m take_over_profiles [OF refs] split: option.split)
  next
    case False
    have "new' \<noteq> old" if "map_of ms k = Some new'" for new'
      using map_of_SomeD [OF that] Cons.prems(3) by (force simp: m)
    then show ?thesis using IH False other by (auto simp: m split: option.splits)
  qed
qed simp

subsection \<open>Applying the difference\<close>

lemma put_group_refs:
  assumes "repo_refs S" "rp_groups S i = Some g" "gr_id h = i" "distinct (gr_profiles h)"
    "\<And>k. k \<in> set (gr_profiles h) \<Longrightarrow> \<exists>p. rp_profiles S k = Some p \<and> pr_gid p = i"
  shows "repo_refs (put_group h S)"
  using assms(1,3-5) repo_refs_group(2,3) [OF assms(1,2)] unfolding repo_refs_def by auto

lemma set_rows_put:
  assumes "repo_refs S" "rp_groups S gid = Some g" "gr_id (f g) = gid"
  shows "set_rows gid f S = put_group (f g) S"
  using assms repo_refs_group(2) [OF assms(1,2)] by (simp add: set_rows_def SaveGroup_def)

lemma deleteProfiles_batch:
  assumes "deleteProfiles E ids S = (out, S')"
  shows "BatchDeleteProfiles (se_afterStop E) (se_allow_stopping E) ids S = (do_ok out, do_deleted out, S')"
    "do_kept out = filter (\<lambda>i. i \<notin> set (do_deleted out)) (remdups ids)"
  using assms by (auto simp: deleteProfiles_def split: prod.splits)

lemma apply_difference_facts:
  fixes E S ins newids
  defines "d \<equiv> sub_difference E S ins (ins @ newids)"
  assumes ok: "repo_ok S" and g: "rp_groups S gid = Some g" and rows: "gr_profiles g = R @ newids"
    and A: "A = snd ` set sticky" "A \<subseteq> set R" "distinct (map snd sticky)"
    and ins: "ins = filter (\<lambda>i. i \<notin> A) R" and news: "map pr_id news = newids"
    and res: "apply_difference E gid A sticky ins news S = (dis, S')"
  obtains D K g' where
    "repo_ok S'"
    "rp_profiles S' = (\<lambda>i. if i \<in> set D then None else rp_profiles (fold take_over (sd_changed d) S) i)"
    "set D \<union> set K = {i \<in> set ins \<union> set newids. i \<notin> settled d ` set newids}"
    "set K \<subseteq> (if se_allow_stopping E then {} else {rp_started_id S})"
    "\<forall>k. k \<noteq> gid \<longrightarrow> rp_groups S' k = rp_groups S k" "rp_groups S' gid = Some g'"
    "filter (\<lambda>i. i \<notin> A \<and> i \<notin> set K) (gr_profiles g') = map (settled d) newids"
    "A \<subseteq> set (gr_profiles g')"
proof -
  have refs: "repo_refs S" using ok by (simp add: repo_ok_def)
  have dist: "distinct (R @ newids)" using repo_refs_group(4) [OF refs g] rows by simp
  have newA: "i \<notin> A" if "i \<in> set newids" for i using that dist A(2) by auto
  have out_all: "owned_ids A gid S = ins @ newids"
    using newA by (simp add: owned_ids_eq [OF refs g] rows ins filter_id_conv)
  have dist_all: "distinct (ins @ newids)" using dist by (auto simp: ins)
  have out: "filter (\<lambda>i. i \<notin> set ins) (ins @ newids) = newids"
    using dist_all by (auto simp: filter_id_conv filter_empty_conv)
  let ?S2 = "fold take_over (sd_changed d) S"
  let ?order = "map (settled d) newids" let ?rows = "insert_sticky sticky ?order"
  have settled: "settled d i \<in> set ins \<or> settled d i = i" if "i \<in> set newids" for i
    using settled_range [of ins "ins @ newids" i E S] dist_all that unfolding out d_def by simp
  have inj: "inj_on (settled d) (set newids)"
    using settled_inj [of ins "ins @ newids" E S] dist_all unfolding out d_def by simp
  have order: "distinct ?order" "set ?order \<inter> A = {}"
  proof -
    show "distinct ?order" using inj dist_all by (simp add: distinct_map)
    have "settled d i \<notin> A" if "i \<in> set newids" for i
      using settled [OF that] newA [OF that] by (auto simp: ins)
    then show "set ?order \<inter> A = {}" by auto
  qed
  have rows_facts: "set ?rows = A \<union> set ?order" "distinct ?rows" "filter (\<lambda>i. i \<notin> A) ?rows = ?order"
    using order A(3) insert_sticky_set [of sticky ?order] insert_sticky_distinct [of sticky ?order]
      insert_sticky_filter [of sticky "\<lambda>i. i \<notin> A" ?order]
    unfolding A(1) by (auto simp: filter_id_conv Int_commute)
  have within: "set ?order \<subseteq> set ins \<union> set newids" using settled by fastforce
  have sub: "set ?rows \<subseteq> set (gr_profiles g)" using rows_facts(1) within A(2) by (auto simp: rows ins)
  have ok2: "repo_ok ?S2" by (rule take_overs_ok [OF ok])
  then have refs2: "repo_refs ?S2" and listed2: "repo_listed ?S2" by (simp_all add: repo_ok_def)
  have g2: "rp_groups ?S2 gid = Some g" and gid: "gr_id g = gid" using g repo_refs_group(1) [OF refs g] by simp_all
  let ?g3 = "g\<lparr>gr_profiles := ?rows\<rparr>" let ?S3 = "put_group ?g3 ?S2"
  have S3: "set_rows gid (gr_profiles_update (\<lambda>_. ?rows)) ?S2 = ?S3"
    using set_rows_put [OF refs2 g2] gid by simp
  have refs3: "repo_refs ?S3"
    by (rule put_group_refs [OF refs2 g2]) (use gid rows_facts(2) sub repo_refs_group(5) [OF refs2 g2] in auto)
  let ?del = "filter (\<lambda>i. i \<notin> set ?rows) (ins @ newids)"
  obtain outc S4 where del: "deleteProfiles E ?del ?S3 = (outc, S4)" by fastforce
  let ?D = "do_deleted outc" let ?K = "do_kept outc"
  note batch = deleteProfiles_batch [OF del]
  note f4 = BatchDelete_facts [OF refs3 batch(1)]
  have DK: "set ?D \<union> set ?K = set ?del" "set ?K \<inter> set ?D = {}" "set ?K \<subseteq> (if se_allow_stopping E then {} else {rp_started_id S})"
    using f4(2) by (auto simp: batch(2))
  have del_set: "set ?del = {i \<in> set ins \<union> set newids. i \<notin> settled d ` set newids}"
    using rows_facts(1) newA by (auto simp: ins)
  have mine: "i \<in> set (gr_profiles g)" if "i \<in> set ?del" for i using that by (auto simp: rows ins)
  have g4: "rp_groups S4 gid = Some ?g3"
  proof -
    have "filter (\<lambda>i. i \<notin> set ?D) ?rows = ?rows" using DK(1) by (auto simp: filter_id_conv)
    then show ?thesis using gid by (simp add: f4(4) rows_without_def)
  qed
  have other4: "rp_groups S4 k = rp_groups S k" if k: "k \<noteq> gid" for k
  proof (cases "rp_groups S k")
    case (Some h)
    have "i \<notin> set ?D" if "i \<in> set (gr_profiles h)" for i
      using repo_refs_rows_disjoint [OF refs g Some] mine DK(1) that k by blast
    then have "filter (\<lambda>i. i \<notin> set ?D) (gr_profiles h) = gr_profiles h" by (simp add: filter_id_conv)
    then show ?thesis using Some k gid by (simp add: f4(4) rows_without_def)
  qed (use k gid in \<open>simp add: f4(4)\<close>)
  have refs4: "repo_refs S4" by (rule BatchDelete_refs [OF refs3 batch(1)])
  let ?g5 = "restore_kept (gr_profiles g) ?K ?g3"
  have rows5: "set (gr_profiles ?g5) = set ?K \<union> set ?rows" "distinct (gr_profiles ?g5)"
    "filter (\<lambda>i. i \<notin> A \<and> i \<notin> set ?K) (gr_profiles ?g5) = ?order"
  proof -
    show "set (gr_profiles ?g5) = set ?K \<union> set ?rows" "distinct (gr_profiles ?g5)"
      using rows_facts(2) by (simp_all add: restore_kept_rows)
    have "filter (\<lambda>i. i \<notin> A \<and> i \<notin> set ?K) (gr_profiles ?g5) = filter (\<lambda>i. i \<notin> A \<and> i \<notin> set ?K) ?rows"
      by (subst restore_kept_rows(3)) auto
    also have "\<dots> = filter (\<lambda>i. i \<notin> A) ?rows"
      by (rule filter_cong) (use DK(1) in auto)
    finally show "filter (\<lambda>i. i \<notin> A \<and> i \<notin> set ?K) (gr_profiles ?g5) = ?order" by (simp add: rows_facts(3))
  qed
  have S': "S' = (if ?K = [] then S4 else put_group ?g5 S4)"
  proof -
    have "set_rows gid (restore_kept (gr_profiles g) ?K) S4 = put_group ?g5 S4"
      using set_rows_put [OF refs4 g4] gid by (simp add: restore_kept_id)
    then show ?thesis
      using res by (simp add: apply_difference_def Let_def out_all d_def [symmetric] remote_order_settled news g S3 del del: filter_append split: if_splits)
  qed
  have prof': "rp_profiles S' = rp_profiles S4" by (simp add: S')
  have groups': "rp_groups S' gid = Some ?g5" "\<forall>k. k \<noteq> gid \<longrightarrow> rp_groups S' k = rp_groups S k"
    using g4 other4 gid by (auto simp: S' restore_kept_id)
  have "repo_refs S'"
  proof (cases "?K = []")
    case False
    have "repo_refs (put_group ?g5 S4)"
    proof (rule put_group_refs [OF refs4 g4])
      fix k assume "k \<in> set (gr_profiles ?g5)"
      then have "k \<in> set (gr_profiles g)" "k \<notin> set ?D"
        using rows5(1) sub DK mine by auto
      then show "\<exists>p. rp_profiles S4 k = Some p \<and> pr_gid p = gid"
        using repo_refs_group(5) [OF refs2 g2] by (auto simp: f4(3))
    qed (use gid rows5(2) in \<open>simp_all add: restore_kept_id\<close>)
    then show ?thesis by (simp add: S' False)
  qed (simp add: S' refs4)
  moreover have "repo_listed S'" unfolding repo_listed_def
  proof (intro allI impI)
    fix k p h assume kp: "rp_profiles S' k = Some p" and h: "rp_groups S' (pr_gid p) = Some h"
    have k: "k \<notin> set ?D" "rp_profiles ?S2 k = Some p" using kp by (auto simp: prof' f4(3) split: if_splits)
    show "k \<in> set (gr_profiles h)"
    proof (cases "pr_gid p = gid")
      case True
      have "k \<in> set (gr_profiles g)" using repo_listedD [OF listed2 k(2)] True g2 by simp
      then have "k \<in> A \<or> k \<in> set ins \<union> set newids" by (auto simp: rows ins)
      then have "k \<in> set ?K \<union> set ?rows" using DK(1) k(1) rows_facts(1) by auto
      then show ?thesis using h True groups'(1) rows5(1) by auto
    next
      case False
      then show ?thesis using h repo_listedD [OF listed2 k(2)] groups'(2) by simp
    qed
  qed
  ultimately have ok': "repo_ok S'" by (simp add: repo_ok_def)
  have selectors: "A \<subseteq> set (gr_profiles ?g5)" using rows5(1) rows_facts(1) by auto
  have profiles: "rp_profiles S' = (\<lambda>i. if i \<in> set ?D then None else rp_profiles ?S2 i)" by (auto simp: prof' f4(3))
  have gone: "set ?D \<union> set ?K = {i \<in> set ins \<union> set newids. i \<notin> settled d ` set newids}"
    unfolding DK(1) by (rule del_set)
  show ?thesis
    by (rule that) (fact ok', fact profiles, fact gone, fact DK(3), fact groups'(2), fact groups'(1), fact rows5(3), fact selectors)
qed

subsection \<open>A refresh up to the difference\<close>

definition group_selectors :: "repo \<Rightarrow> group \<Rightarrow> int set" where
  "group_selectors S g = {i \<in> set (gr_profiles g). is_selector S i}"

lemma clear_step_facts:
  assumes ok: "repo_ok S" and g: "rp_groups S gid = Some h" "gr_profiles h = gr_profiles g"
    and A: "A \<subseteq> set (gr_profiles g)" and res: "clear_step E A g S = (cl, S')"
  obtains D where "cl_ok cl" "repo_ok S'" "D \<inter> A = {}" "D \<subseteq> set (gr_profiles g)" "\<not> se_sub_clear E \<longrightarrow> D = {} \<and> \<not> cl_cleared cl"
    "rp_profiles S' = (\<lambda>i. if i \<in> D then None else rp_profiles S i)"
    "rp_groups S' gid = Some (h\<lparr>gr_profiles := filter (\<lambda>i. i \<notin> D) (gr_profiles g)\<rparr>)"
    "\<forall>k. k \<noteq> gid \<longrightarrow> rp_groups S' k = rp_groups S k" "rp_current_group S' = rp_current_group S"
    "\<not> se_allow_stopping E \<longrightarrow> rp_started_id S' = rp_started_id S"
    "cl_cleared cl \<longrightarrow> set (gr_profiles g) \<subseteq> D \<union> A"
proof (cases "se_sub_clear E")
  case False
  then show ?thesis using that [of "{}"] ok g res by (auto simp: clear_step_def)
next
  case True
  have refs: "repo_refs S" using ok by (simp add: repo_ok_def)
  let ?ids = "filter (\<lambda>i. i \<notin> A) (gr_profiles g)"
  obtain outc T where del: "deleteProfiles E ?ids S = (outc, T)" by fastforce
  note batch = deleteProfiles_batch [OF del]
  note f = BatchDelete_facts [OF refs batch(1)]
  let ?D = "set (do_deleted outc)"
  have cl: "cl = \<lparr>cl_ok = True, cl_cleared = (do_kept outc = []), cl_disturbed = do_deleted outc\<rparr>" "S' = T"
    using res True f(1) by (simp_all add: clear_step_def del)
  have D: "?D \<subseteq> set ?ids" using f(2) by auto
  have other: "rp_groups T k = rp_groups S k" if k: "k \<noteq> gid" for k
  proof (cases "rp_groups S k")
    case (Some h')
    have "i \<notin> ?D" if "i \<in> set (gr_profiles h')" for i
      using repo_refs_rows_disjoint [OF refs g(1) Some] that k D g(2) by auto
    then have "filter (\<lambda>i. i \<notin> ?D) (gr_profiles h') = gr_profiles h'" by (simp add: filter_id_conv)
    then show ?thesis using Some by (simp add: f(4) rows_without_def)
  qed (simp add: f(4))
  have all: "set (gr_profiles g) \<subseteq> ?D \<union> A" if "do_kept outc = []"
    using that by (auto simp: batch(2) filter_empty_conv)
  show ?thesis
  proof (rule that [of ?D])
    show "cl_ok cl" "cl_cleared cl \<longrightarrow> set (gr_profiles g) \<subseteq> ?D \<union> A" using all by (simp_all add: cl)
    show "repo_ok S'" using BatchDelete_ok [OF ok batch(1)] by (simp add: cl)
    show "?D \<inter> A = {}" "?D \<subseteq> set (gr_profiles g)" using D by auto
    show "rp_groups S' gid = Some (h\<lparr>gr_profiles := filter (\<lambda>i. i \<notin> ?D) (gr_profiles g)\<rparr>)"
      using g by (simp add: cl f(4) rows_without_def)
    show "rp_profiles S' = (\<lambda>i. if i \<in> ?D then None else rp_profiles S i)" by (auto simp: cl f(3))
  qed (use True other f in \<open>simp_all add: cl\<close>)
qed

lemma is_selector_cong: "rp_profiles S' = rp_profiles S \<Longrightarrow> is_selector S' = is_selector S"
  by (simp add: is_selector_def fun_eq_iff)

lemma sticky_rows_cong: "rp_profiles S' = rp_profiles S \<Longrightarrow> sticky_rows S' g = sticky_rows S g"
  by (simp add: sticky_rows_def is_selector_cong [of S' S])

lemma add_to_nonneg [simp]: "0 \<le> gid \<Longrightarrow> add_to gid S = gid"
  by (simp add: add_to_def)

lemma refresh_stages:
  fixes E S g
  defines "A \<equiv> group_selectors S g" and "sticky \<equiv> sticky_rows S g"
  assumes ok: "repo_ok S" and g: "rp_groups S gid = Some g" and fresh: "\<forall>p\<in>set news. pr_id p < 0"
  obtains D S3 g3 news' newids where
    "repo_ok S3" "rp_groups S3 gid = Some g3" "gr_profiles g3 = filter (\<lambda>i. i \<notin> D) (gr_profiles g) @ newids"
    "D \<inter> A = {}" "D \<subseteq> set (gr_profiles g)" "\<not> se_sub_clear E \<longrightarrow> D = {}"
    "map pr_id news' = newids" "length newids = length news"
    "\<forall>i<length news. rp_profiles S3 (newids ! i) = Some ((news ! i)\<lparr>pr_id := newids ! i, pr_gid := gid\<rparr>)"
    "\<forall>i. i \<notin> set newids \<longrightarrow> rp_profiles S3 i = (if i \<in> D then None else rp_profiles S i)"
    "\<forall>i\<in>set newids. rp_profiles S i = None" "\<forall>k. k \<noteq> gid \<longrightarrow> rp_groups S3 k = rp_groups S k"
    "\<not> se_allow_stopping E \<longrightarrow> rp_started_id S3 = rp_started_id S"
    "(se_sub_clear E \<and> set (gr_profiles g) \<subseteq> D \<union> A \<and> (\<exists>dis. refresh_group E g info news S = (True, dis, S3))) \<or>
     (\<exists>dis dis' S'. refresh_group E g info news S = (True, dis', S') \<and>
        apply_difference E gid A sticky (filter (\<lambda>i. i \<notin> A) (filter (\<lambda>i. i \<notin> D) (gr_profiles g))) news' S3 = (dis, S'))"
proof -
  have refs: "repo_refs S" using ok by (simp add: repo_ok_def)
  note gf = repo_refs_group [OF refs g]
  let ?h = "g\<lparr>gr_sub_last_update := se_now E, gr_info := info\<rparr>" let ?S1 = "put_group ?h S"
  have save: "snd (SaveGroup ?h S) = ?S1" using gf by (simp add: SaveGroup_def)
  have ok1: "repo_ok ?S1" by (rule put_group_same_rows [OF ok g]) (use gf in simp_all)
  have g1: "rp_groups ?S1 gid = Some ?h" "gr_profiles ?h = gr_profiles g" using gf by simp_all
  have sticky1: "sticky_rows ?S1 g = sticky" unfolding sticky_def by (rule sticky_rows_cong) simp
  have A: "A = snd ` set sticky" "A \<subseteq> set (gr_profiles g)"
    using sticky_rows_ids(2) [OF gf(4), of S] by (auto simp: A_def sticky_def group_selectors_def)
  obtain cl S2 where cl: "clear_step E A g ?S1 = (cl, S2)" by fastforce
  obtain D where D: "cl_ok cl" "repo_ok S2" "D \<inter> A = {}" "D \<subseteq> set (gr_profiles g)" "\<not> se_sub_clear E \<longrightarrow> D = {} \<and> \<not> cl_cleared cl"
    "rp_profiles S2 = (\<lambda>i. if i \<in> D then None else rp_profiles ?S1 i)"
    "rp_groups S2 gid = Some (?h\<lparr>gr_profiles := filter (\<lambda>i. i \<notin> D) (gr_profiles g)\<rparr>)"
    "\<forall>k. k \<noteq> gid \<longrightarrow> rp_groups S2 k = rp_groups ?S1 k" "rp_current_group S2 = rp_current_group ?S1"
    "\<not> se_allow_stopping E \<longrightarrow> rp_started_id S2 = rp_started_id ?S1"
    "cl_cleared cl \<longrightarrow> set (gr_profiles g) \<subseteq> D \<union> A"
    by (rule clear_step_facts [OF ok1 g1 A(2) cl])
  let ?g2 = "?h\<lparr>gr_profiles := filter (\<lambda>i. i \<notin> D) (gr_profiles g)\<rparr>"
  have refs2: "repo_refs S2" using D(2) by (simp add: repo_ok_def)
  have addto: "add_to gid S2 = gid" using gf by simp
  obtain b news' S3 where add: "ProfilesRepo_AddProfileBatch news gid S2 = (b, news', S3)" by (metis prod_cases3)
  have g2: "rp_groups S2 (add_to gid S2) = Some ?g2" using D(7) addto by simp
  note f = AddProfileBatch_facts [OF D(2) g2 fresh add, unfolded addto]
  have ok3: "repo_ok S3" by (rule ProfilesRepo_AddProfileBatch_ok [OF D(2) fresh add])
  let ?n = "rp_profile_last_id S2 + 1" let ?newids = "map pr_id news'"
  have ids: "?newids = map (\<lambda>i. ?n + int i) [0..<length news]" "length news' = length news"
    using number_new_ids [OF fresh] by (simp_all add: f(2))
  have new: "rp_profiles S3 (?newids ! i) = Some ((news ! i)\<lparr>pr_id := ?newids ! i, pr_gid := gid\<rparr>)" if "i < length news" for i
  proof -
    have "?newids ! i = ?n + int i" using that by (simp add: ids)
    then show ?thesis using that new_profile_at [OF fresh, of ?n gid "?n + int i"]
      by (auto simp: f(2,4) map_add_Some_iff)
  qed
  have old: "rp_profiles S3 i = (if i \<in> D then None else rp_profiles S i)" if "i \<notin> set ?newids" for i
  proof -
    have "map_of (map (\<lambda>p. (pr_id p, p)) news') i = None"
      using that by (force simp: map_of_eq_None_iff)
    then show ?thesis by (simp add: f(2) [symmetric] f(4) map_add_def D(6))
  qed
  have last: "rp_profile_last_id S2 = rp_profile_last_id S"
    using cl deleteProfiles_batch(1) BatchDelete_facts(5) ok1
    by (force simp: clear_step_def repo_ok_def split: if_splits prod.splits)
  have none: "rp_profiles S i = None" if "i \<in> set ?newids" for i
    using that repo_refs_fresh [OF refs, of i] by (auto simp: ids last)
  have rows3: "rp_groups S3 gid = Some (?g2\<lparr>gr_profiles := gr_profiles ?g2 @ ?newids\<rparr>)" by (simp add: f(2,3))
  have owned: "owned_ids A gid S2 = filter (\<lambda>i. i \<notin> A) (filter (\<lambda>i. i \<notin> D) (gr_profiles g))"
    using owned_ids_eq [OF refs2 D(7)] by simp
  have result: "(se_sub_clear E \<and> set (gr_profiles g) \<subseteq> D \<union> A \<and> (\<exists>dis. refresh_group E g info news S = (True, dis, S3))) \<or>
     (\<exists>dis dis' S'. refresh_group E g info news S = (True, dis', S') \<and>
        apply_difference E gid A sticky (filter (\<lambda>i. i \<notin> A) (filter (\<lambda>i. i \<notin> D) (gr_profiles g))) news' S3 = (dis, S'))"
    using D(1,5,11) f(1)
    by (cases "cl_cleared cl")
      (auto simp: refresh_group_def Let_def save sticky1 A(1) [symmetric] cl add gf(1) owned split: prod.split)
  show ?thesis
  proof (rule that)
    show "repo_ok S3" "D \<inter> A = {}" "D \<subseteq> set (gr_profiles g)" "\<not> se_sub_clear E \<longrightarrow> D = {}" "map pr_id news' = ?newids"
      using ok3 D(3-5) by blast+
    show "rp_groups S3 gid = Some (?g2\<lparr>gr_profiles := gr_profiles ?g2 @ ?newids\<rparr>)" by (rule rows3)
    show "gr_profiles (?g2\<lparr>gr_profiles := gr_profiles ?g2 @ ?newids\<rparr>) = filter (\<lambda>i. i \<notin> D) (gr_profiles g) @ ?newids" by simp
    show "length ?newids = length news" using ids(2) by simp
    show "\<forall>i<length news. rp_profiles S3 (?newids ! i) = Some ((news ! i)\<lparr>pr_id := ?newids ! i, pr_gid := gid\<rparr>)"
      using new by blast
    show "\<forall>i. i \<notin> set ?newids \<longrightarrow> rp_profiles S3 i = (if i \<in> D then None else rp_profiles S i)" using old by blast
    show "\<forall>i\<in>set ?newids. rp_profiles S i = None" using none by blast
    show "\<forall>k. k \<noteq> gid \<longrightarrow> rp_groups S3 k = rp_groups S k" using D(8) gf(1) by (simp add: f(3))
    show "\<not> se_allow_stopping E \<longrightarrow> rp_started_id S3 = rp_started_id S" using D(10) by (simp add: f(7))
  qed (rule result)
qed

subsection \<open>A refresh as a whole\<close>

text \<open>What a profile is compared by depends on its outbound alone.\<close>

definition compares_outbounds :: "sub_env \<Rightarrow> bool" where
  "compares_outbounds E \<longleftrightarrow> (\<forall>p q. pr_outbound p = pr_outbound q \<longrightarrow> se_key E p = se_key E q)"

lemma compares_outboundsD: "compares_outbounds E \<Longrightarrow> pr_outbound p = pr_outbound q \<Longrightarrow> se_key E p = se_key E q"
  unfolding compares_outbounds_def by blast

lemma compares_numbered: "compares_outbounds E \<Longrightarrow> se_key E (p\<lparr>pr_id := i, pr_gid := k\<rparr>) = se_key E p"
  by (rule compares_outboundsD) simp_all

lemma refresh_facts:
  fixes E S g
  defines "A \<equiv> group_selectors S g"
  assumes ok: "repo_ok S" and g: "rp_groups S gid = Some g" and fresh: "\<forall>p\<in>set news. pr_id p < 0"
  obtains S' g' K order dis where
    "refresh_group E g info news S = (True, dis, S')" "repo_ok S'" "\<forall>k. k \<noteq> gid \<longrightarrow> rp_groups S' k = rp_groups S k"
    "rp_groups S' gid = Some g'" "set K \<subseteq> (if se_allow_stopping E then {} else {rp_started_id S})"
    "filter (\<lambda>i. i \<notin> A \<and> i \<notin> set K) (gr_profiles g') = order" "A \<subseteq> set (gr_profiles g')" "length order = length news"
    "compares_outbounds E \<longrightarrow>
       (\<forall>j<length news. \<exists>p. rp_profiles S' (order ! j) = Some p \<and> se_key E p = se_key E (news ! j))"
    "\<forall>k p. rp_profiles S k = Some p \<and> (k \<notin> set (gr_profiles g) \<or> k \<in> A) \<longrightarrow> rp_profiles S' k = Some p"
    "\<not> se_sub_clear E \<and> compares_outbounds E \<longrightarrow> (\<forall>i\<in>set (gr_profiles g) - A.
       length (filter (\<lambda>j. j \<notin> A \<and> text_at (se_key E) S j = text_at (se_key E) S i) (gr_profiles g))
         \<le> length (filter (\<lambda>p. se_key E p = text_at (se_key E) S i) news) \<longrightarrow>
       i \<in> set order \<and> rp_profiles S' i = rp_profiles S i)"
proof -
  have refs: "repo_refs S" using ok by (simp add: repo_ok_def)
  let ?st = "sticky_rows S g" and ?key = "text_at (se_key E) S"
  obtain D S3 g3 news' newids where st: "repo_ok S3" "rp_groups S3 gid = Some g3"
    "gr_profiles g3 = filter (\<lambda>i. i \<notin> D) (gr_profiles g) @ newids"
    "D \<inter> A = {}" "D \<subseteq> set (gr_profiles g)" "\<not> se_sub_clear E \<longrightarrow> D = {}"
    "map pr_id news' = newids" "length newids = length news"
    "\<forall>i<length news. rp_profiles S3 (newids ! i) = Some ((news ! i)\<lparr>pr_id := newids ! i, pr_gid := gid\<rparr>)"
    "\<forall>i. i \<notin> set newids \<longrightarrow> rp_profiles S3 i = (if i \<in> D then None else rp_profiles S i)"
    "\<forall>i\<in>set newids. rp_profiles S i = None" "\<forall>k. k \<noteq> gid \<longrightarrow> rp_groups S3 k = rp_groups S k"
    "\<not> se_allow_stopping E \<longrightarrow> rp_started_id S3 = rp_started_id S"
    "(se_sub_clear E \<and> set (gr_profiles g) \<subseteq> D \<union> A \<and> (\<exists>dis. refresh_group E g info news S = (True, dis, S3))) \<or>
     (\<exists>dis dis' S'. refresh_group E g info news S = (True, dis', S') \<and>
        apply_difference E gid A ?st (filter (\<lambda>i. i \<notin> A) (filter (\<lambda>i. i \<notin> D) (gr_profiles g))) news' S3 = (dis, S'))"
    by (rule refresh_stages [OF ok g fresh, of E info, folded A_def])
  have A: "A = snd ` set ?st" "A \<subseteq> set (gr_profiles g)" "distinct (map snd ?st)"
    using sticky_rows_ids [OF repo_refs_group(4) [OF refs g], of S] by (auto simp: A_def group_selectors_def)
  have new_gone: "i \<notin> set (gr_profiles g)" if "i \<in> set newids" for i
    using st(11) that repo_refs_group(5) [OF refs g, of i] by auto
  have old_there: "rp_profiles S3 k = Some p" if "rp_profiles S k = Some p" "k \<notin> D" for k p
  proof -
    have "k \<notin> set newids" using st(11) that(1) by auto
    then show ?thesis using st(10) that by simp
  qed
  from st(14) show ?thesis
  proof (elim disjE exE conjE)
    fix dis assume c: "se_sub_clear E" "set (gr_profiles g) \<subseteq> D \<union> A" "refresh_group E g info news S = (True, dis, S3)"
    have order: "filter (\<lambda>i. i \<notin> A \<and> i \<notin> set []) (gr_profiles g3) = newids"
    proof -
      have "filter (\<lambda>i. i \<notin> A) (filter (\<lambda>i. i \<notin> D) (gr_profiles g)) = []"
        using c(2) by (auto simp: filter_empty_conv)
      moreover have "filter (\<lambda>i. i \<notin> A) newids = newids" using A(2) new_gone by (auto simp: filter_id_conv)
      ultimately show ?thesis by (simp add: st(3))
    qed
    have keys: "\<exists>p. rp_profiles S3 (newids ! j) = Some p \<and> se_key E p = se_key E (news ! j)"
      if "compares_outbounds E" "j < length news" for j
      using st(9) that(2) compares_numbered [OF that(1)] by simp
    show ?thesis
    proof (rule that [of dis S3 g3 "[]" newids])
      show "A \<subseteq> set (gr_profiles g3)" using A(2) st(4) by (auto simp: st(3))
      show "compares_outbounds E \<longrightarrow> (\<forall>j<length news. \<exists>p. rp_profiles S3 (newids ! j) = Some p \<and> se_key E p = se_key E (news ! j))"
        using keys by blast
      show "\<forall>k p. rp_profiles S k = Some p \<and> (k \<notin> set (gr_profiles g) \<or> k \<in> A) \<longrightarrow> rp_profiles S3 k = Some p"
        using old_there st(4,5) by blast
      show "\<not> se_sub_clear E \<and> compares_outbounds E \<longrightarrow> (\<forall>i\<in>set (gr_profiles g) - A.
       length (filter (\<lambda>j. j \<notin> A \<and> ?key j = ?key i) (gr_profiles g)) \<le> length (filter (\<lambda>p. se_key E p = ?key i) news) \<longrightarrow>
       i \<in> set newids \<and> rp_profiles S3 i = rp_profiles S i)"
        using c(1) by blast
    qed (fact c(3) st(1) st(12) st(2) order st(8) | simp)+
  next
    fix dis dis' S'
    let ?R = "filter (\<lambda>i. i \<notin> D) (gr_profiles g)" let ?ins = "filter (\<lambda>i. i \<notin> A) ?R"
    assume c: "refresh_group E g info news S = (True, dis', S')" "apply_difference E gid A ?st ?ins news' S3 = (dis, S')"
    let ?d = "sub_difference E S3 ?ins (?ins @ newids)"
    have AR: "A \<subseteq> set ?R" using A(2) st(4) by auto
    obtain D' K g' where ap: "repo_ok S'"
      "rp_profiles S' = (\<lambda>i. if i \<in> set D' then None else rp_profiles (fold take_over (sd_changed ?d) S3) i)"
      "set D' \<union> set K = {i \<in> set ?ins \<union> set newids. i \<notin> settled ?d ` set newids}"
      "set K \<subseteq> (if se_allow_stopping E then {} else {rp_started_id S3})"
      "\<forall>k. k \<noteq> gid \<longrightarrow> rp_groups S' k = rp_groups S3 k" "rp_groups S' gid = Some g'"
      "filter (\<lambda>i. i \<notin> A \<and> i \<notin> set K) (gr_profiles g') = map (settled ?d) newids" "A \<subseteq> set (gr_profiles g')"
      by (rule apply_difference_facts [OF st(1,2,3) A(1) AR A(3) refl st(7) c(2)])
    have dist_all: "distinct (?ins @ newids)"
    proof -
      have "distinct (?R @ newids)" using repo_refs_group(4) [of S3 gid g3] st(1-3) by (simp add: repo_ok_def)
      then show ?thesis by (simp add: distinct_filter del: filter_filter) blast
    qed
    have out: "filter (\<lambda>i. i \<notin> set ?ins) (?ins @ newids) = newids"
      using new_gone by (auto simp: filter_id_conv filter_empty_conv)
    note pairs = difference_pairs [of _ _ E S3 ?ins "?ins @ newids", unfolded out]
    have ds: "distinct (map fst (sd_same ?d @ sd_changed ?d))" "distinct (map snd (sd_same ?d @ sd_changed ?d))"
      using difference_distinct [of ?ins "?ins @ newids" E S3] dist_all by simp_all
    have ins_old: "i \<in> set (gr_profiles g) \<and> i \<notin> A \<and> i \<notin> D" if "i \<in> set ?ins" for i using that by simp
    have changed_in: "fst ` set (sd_changed ?d) \<subseteq> set ?ins" "snd ` set (sd_changed ?d) \<subseteq> set newids"
    proof -
      have "fst m \<in> set ?ins \<and> snd m \<in> set newids" if "m \<in> set (sd_changed ?d)" for m
        using pairs(2) [of "fst m" "snd m"] that by simp
      then show "fst ` set (sd_changed ?d) \<subseteq> set ?ins" "snd ` set (sd_changed ?d) \<subseteq> set newids" by blast+
    qed
    have ins_new: "k \<notin> set newids" if "k \<in> set ?ins" for k using that dist_all by auto
    have apart: "fst ` set (sd_changed ?d) \<inter> snd ` set (sd_changed ?d) = {}" using changed_in ins_new by blast
    have changed_fst: "distinct (map fst (sd_changed ?d))" using ds(1) by simp
    note over = take_overs_profiles [OF st(1) changed_fst apart]
    have no_over: "rp_profiles (fold take_over (sd_changed ?d) S3) k = rp_profiles S3 k" if "k \<notin> fst ` set (sd_changed ?d)" for k
      using that over [of k] by (simp add: map_of_eq_None_iff [symmetric])
    have same_only: "old \<notin> fst ` set (sd_changed ?d)" if "(old, new) \<in> set (sd_same ?d)" for old new
    proof -
      have "old \<in> fst ` set (sd_same ?d)" using that by (metis fst_conv imageI)
      then show ?thesis using ds(1) by auto
    qed
    have kept_row: "settled ?d i \<notin> set D'" if "i \<in> set newids" for i
      using ap(3) that by blast
    have elsewhere: "rp_profiles S' k = Some p"
      if "rp_profiles S k = Some p" "k \<notin> set (gr_profiles g) \<or> k \<in> A" for k p
    proof -
      have "k \<notin> set ?ins" "k \<notin> D" using that(2) st(4,5) by auto
      moreover have "k \<notin> set newids" using st(11) that(1) by auto
      ultimately have "k \<notin> set D'" "k \<notin> fst ` set (sd_changed ?d)" using ap(3) changed_in(1) by blast+
      then show ?thesis using old_there that(1) no_over \<open>k \<notin> D\<close> by (simp add: ap(2))
    qed
    have keys: "\<exists>p. rp_profiles S' (settled ?d (newids ! j)) = Some p \<and> se_key E p = se_key E (news ! j)"
      if comp: "compares_outbounds E" and j: "j < length news" for j
    proof -
      let ?i = "newids ! j"
      have i: "?i \<in> set newids" using j st(8) by simp
      obtain q where q: "rp_profiles S3 ?i = Some q" "se_key E q = se_key E (news ! j)"
        using st(9) j compares_numbered [OF comp] by simp
      have alive: "settled ?d ?i \<notin> set D'" by (rule kept_row [OF i])
      show ?thesis
      proof (rule settled_cases [of ?ins "?ins @ newids" ?i E S3])
        show "distinct ?ins" "distinct (?ins @ newids)" using dist_all by simp_all
      next
        fix old assume old: "(old, ?i) \<in> set (sd_same ?d)" "settled ?d ?i = old"
        have "old \<notin> fst ` set (sd_changed ?d)" by (rule same_only [OF old(1)])
        moreover have "text_at (se_key E) S3 old = se_key E q" using pairs(1) [OF old(1)] q(1) by (simp add: text_at_def)
        moreover obtain p where "rp_profiles S3 old = Some p"
          using pairs(1) [OF old(1)] ins_old [of old] repo_refs_group(5) [OF refs g, of old] old_there by blast
        ultimately show ?thesis using alive old(2) q(2) no_over by (simp add: ap(2) text_at_def)
      next
        fix old assume old: "(old, ?i) \<in> set (sd_changed ?d)" "settled ?d ?i = old"
        have "map_of (sd_changed ?d) old = Some ?i" using changed_fst old(1) by (rule map_of_is_SomeI)
        moreover obtain p where "rp_profiles S3 old = Some p"
          using pairs(2) [OF old(1)] ins_old [of old] repo_refs_group(5) [OF refs g, of old] old_there by blast
        ultimately have "rp_profiles (fold take_over (sd_changed ?d) S3) old = Some (taken p q)"
          using over [of old] q(1) by simp
        moreover have "se_key E (taken p q) = se_key E q" by (rule compares_outboundsD [OF comp]) simp
        ultimately show ?thesis using alive old(2) q(2) by (simp add: ap(2))
      next
        assume new: "settled ?d ?i = ?i" "?i \<notin> snd ` set (sd_same ?d @ sd_changed ?d)"
        have "?i \<notin> fst ` set (sd_changed ?d)" using changed_in(1) ins_new i by blast
        then show ?thesis using alive new(1) q no_over by (simp add: ap(2))
      qed
    qed
    have same_kept: "i \<in> set (map (settled ?d) newids) \<and> rp_profiles S' i = rp_profiles S i"
      if clear: "\<not> se_sub_clear E" "compares_outbounds E" and i: "i \<in> set (gr_profiles g) - A"
        and count: "length (filter (\<lambda>j. j \<notin> A \<and> ?key j = ?key i) (gr_profiles g)) \<le> length (filter (\<lambda>p. se_key E p = ?key i) news)" for i
    proof -
      have D: "D = {}" using st(6) clear(1) by simp
      have ins: "?ins = filter (\<lambda>j. j \<notin> A) (gr_profiles g)" by (simp add: D)
      have old_key: "text_at (se_key E) S3 j = ?key j" if "j \<in> set (gr_profiles g)" for j
      proof -
        have "j \<notin> set newids" using that new_gone by blast
        then show ?thesis using st(10) D by (simp add: text_at_def)
      qed
      have new_key: "map (text_at (se_key E) S3) newids = map (se_key E) news"
      proof (rule nth_equalityI)
        fix j assume "j < length (map (text_at (se_key E) S3) newids)"
        then show "map (text_at (se_key E) S3) newids ! j = map (se_key E) news ! j"
          using st(8,9) compares_numbered [OF clear(2)] by (simp add: text_at_def)
      qed (simp add: st(8))
      have "length (filter (\<lambda>e. text_at (se_key E) S3 e = ?key i) ?ins)
        = length (filter (\<lambda>j. j \<notin> A \<and> ?key j = ?key i) (gr_profiles g))"
        unfolding filter_filter by (rule arg_cong [of _ _ length], rule filter_cong) (auto simp: old_key D)
      also have "\<dots> \<le> length (filter (\<lambda>p. se_key E p = ?key i) news)" by (rule count)
      also have "\<dots> = length (filter (\<lambda>k. k = ?key i) (map (se_key E) news))" by (simp add: filter_map o_def)
      also have "\<dots> = length (filter (\<lambda>d. text_at (se_key E) S3 d = ?key i) newids)"
        by (simp add: new_key [symmetric] filter_map o_def)
      finally have le: "length (filter (\<lambda>e. text_at (se_key E) S3 e = text_at (se_key E) S3 i) ?ins)
          \<le> length (filter (\<lambda>d. text_at (se_key E) S3 d = text_at (se_key E) S3 i) newids)"
        using i old_key [of i] by simp
      have "i \<in> set ?ins" using i D by simp
      then have "i \<in> set (map fst (claim (text_at (se_key E) S3) (srcByKey (text_at (se_key E) S3) ?ins) newids))"
        using le by (rule claim_complete)
      then have "i \<in> set (map fst (sd_same ?d))"
        unfolding difference_parts [of E S3 ?ins "?ins @ newids", unfolded out] .
      then obtain n where n: "(i, n) \<in> set (sd_same ?d)" by force
      then have nn: "n \<in> set newids" using pairs(1) by blast
      have "supersededBy ?d n = Some i" using supersededBy_iff [OF ds(2)] n by simp
      then have "settled ?d n = i" by (simp add: settled_def)
      moreover have "i \<notin> fst ` set (sd_changed ?d)" by (rule same_only [OF n])
      moreover have "i \<notin> set newids" using i new_gone by blast
      ultimately show ?thesis using nn kept_row [OF nn] no_over st(10) D by (auto simp: ap(2))
    qed
    show ?thesis
    proof (rule that [of dis' S' g' K "map (settled ?d) newids"])
      show "set K \<subseteq> (if se_allow_stopping E then {} else {rp_started_id S})" using ap(4) st(13) by (simp split: if_splits)
      show "compares_outbounds E \<longrightarrow> (\<forall>j<length news. \<exists>p. rp_profiles S' (map (settled ?d) newids ! j) = Some p \<and>
          se_key E p = se_key E (news ! j))"
        using keys st(8) by simp
    qed (use c(1) ap(1,5-8) st(8,12) elsewhere same_kept in simp_all)
  qed
qed

end
