(* ===== verification/RefreshProps.thy ===== *)
theory RefreshProps
  imports SubscriptionProps
begin

text \<open>
  The properties of a refresh, \<^verbatim>\<open>GroupUpdater::Update\<close>: what the group shows afterwards, which servers keep
  their profiles, and what a refresh leaves alone.
\<close>

subsection \<open>One refresh\<close>

definition fresh_parse :: "sub_env \<Rightarrow> bool" where
  "fresh_parse E \<longleftrightarrow> (\<forall>body. \<forall>p\<in>set (se_parse E body). pr_id p < 0)"

lemma fresh_parseD: "fresh_parse E \<Longrightarrow> \<forall>p\<in>set (se_parse E body). pr_id p < 0"
  by (simp add: fresh_parse_def)

lemma repo_ok_refs: "repo_ok S \<Longrightarrow> repo_refs S"
  by (simp add: repo_ok_def)

lemma Update_group:
  assumes "repo_ok S" "rp_groups S gid = Some g" "\<not> gr_archive g" "get (ascii_trim str) = HttpBody body info" "se_parse E body \<noteq> []"
  shows "Update E get str gid flag S = refresh_group E g info (se_parse E body) S"
  using assms repo_refs_group(2) [OF repo_ok_refs [OF assms(1)] assms(2)] by (simp add: Update_def Let_def)

text \<open>
  C25: After a refresh with a usable answer the group shows the servers of the subscription, in its order:
  the texts its servers are compared by are, one for one, those of the downloaded ones. Only the auto
  selectors of the group, which the subscription does not own and which all stay, and a running profile
  that may not be stopped can stand between them. The group is not archived, the repositories are
  consistent (rows and groups name each other, no group names a profile twice), the parser makes profiles
  without an id, and the text compared depends on the outbound alone, as \<^verbatim>\<open>ExportJsonLink\<close> does.
\<close>

theorem refresh_mirrors_subscription:
  assumes "repo_ok S" "rp_groups S gid = Some g" "\<not> gr_archive g"
    and "get (ascii_trim str) = HttpBody body info" "se_parse E body \<noteq> []" "fresh_parse E" "compares_outbounds E"
  shows "\<exists>dis S' g' kept. Update E get str gid flag S = (True, dis, S') \<and> rp_groups S' gid = Some g' \<and>
     set kept \<subseteq> (if se_allow_stopping E then {} else {rp_started_id S}) \<and> group_selectors S g \<subseteq> set (gr_profiles g') \<and>
     map (text_at (se_key E) S') (filter (\<lambda>i. i \<notin> group_selectors S g \<and> i \<notin> set kept) (gr_profiles g'))
       = map (se_key E) (se_parse E body)"
proof -
  let ?news = "se_parse E body"
  obtain S' g' K order dis where r: "refresh_group E g info ?news S = (True, dis, S')" "rp_groups S' gid = Some g'"
    "set K \<subseteq> (if se_allow_stopping E then {} else {rp_started_id S})"
    "filter (\<lambda>i. i \<notin> group_selectors S g \<and> i \<notin> set K) (gr_profiles g') = order" "group_selectors S g \<subseteq> set (gr_profiles g')"
    "length order = length ?news"
    "compares_outbounds E \<longrightarrow>
       (\<forall>j<length ?news. \<exists>p. rp_profiles S' (order ! j) = Some p \<and> se_key E p = se_key E (?news ! j))"
    by (rule refresh_facts [OF assms(1,2) fresh_parseD [OF assms(6)], of E info])
  have "map (text_at (se_key E) S') order = map (se_key E) ?news"
    by (rule nth_equalityI) (use r(6,7) assms(7) in \<open>auto simp: text_at_def split: option.splits\<close>)
  then have "map (text_at (se_key E) S') (filter (\<lambda>i. i \<notin> group_selectors S g \<and> i \<notin> set K) (gr_profiles g')) = map (se_key E) ?news"
    by (simp only: r(4))
  moreover have "Update E get str gid flag S = (True, dis, S')"
    using r(1) Update_group [of S gid g get str body info E flag, OF assms(1-5)] by simp
  ultimately show ?thesis using r(2,3,5) by blast
qed

text \<open>A group of two servers and an auto selector, whose subscription delivers one of them and a new one.\<close>

definition demo_server :: "string \<Rightarrow> int \<Rightarrow> profile" where
  "demo_server name i = new_profile\<lparr>pr_type := ''trojan'', pr_name := name, pr_id := i,
     pr_outbound := Some \<lparr>ob_name = name, ob_address = [], ob_class = OtherOb\<rparr>\<rparr>"

definition demo_sub_group :: group where
  "demo_sub_group = new_group\<lparr>gr_id := 0, gr_url := ''https://sub'', gr_profiles := [1, 2, 3]\<rparr>"

definition demo_repo :: repo where
  "demo_repo = \<lparr>rp_profiles = [1 \<mapsto> demo_server ''a'' 1, 2 \<mapsto> demo_server ''b'' 2,
       3 \<mapsto> (demo_server ''auto'' 3)\<lparr>pr_type := ''autoselector''\<rparr>],
     rp_profile_last_id = 3, rp_groups = [0 \<mapsto> demo_sub_group], rp_group_last_id = 0, rp_order = [(0, 1)],
     rp_current_group = 0, rp_started_id = -1\<rparr>"

definition demo_sub :: sub_env where
  "demo_sub = \<lparr>se_now = 100, se_sub_clear = False, se_allow_stopping = False, se_afterStop = -1,
     se_key = own_name, se_identity = own_name, se_parse = (\<lambda>body. [demo_server ''c'' (-1), demo_server ''a'' (-1)])\<rparr>"

lemma demo_repo_ok: "repo_ok demo_repo"
  unfolding repo_ok_def repo_refs_def repo_listed_def
  by (auto simp: demo_repo_def demo_sub_group_def demo_server_def new_profile_def split: if_splits)

lemma demo_repo_group: "rp_groups demo_repo 0 = Some demo_sub_group" "\<not> gr_archive demo_sub_group"
  by (simp_all add: demo_repo_def demo_sub_group_def new_group_def)

lemma demo_sub_env: "fresh_parse demo_sub" "compares_outbounds demo_sub" "se_parse demo_sub body \<noteq> []"
  by (auto simp: fresh_parse_def compares_outbounds_def demo_sub_def demo_server_def own_name_def)

lemma demo_sub_names: "map own_name (se_parse demo_sub body) = [''c'', ''a'']"
  by (simp add: demo_sub_def demo_server_def own_name_def)

theorem refresh_mirrors_subscription_witness:
  "\<exists>dis S' g' kept. Update demo_sub (\<lambda>url. HttpBody ''body'' []) ''https://sub'' 0 False demo_repo = (True, dis, S') \<and>
     rp_groups S' 0 = Some g' \<and> set kept \<subseteq> {-1} \<and> group_selectors demo_repo demo_sub_group \<subseteq> set (gr_profiles g') \<and>
     map (text_at own_name S') (filter (\<lambda>i. i \<notin> group_selectors demo_repo demo_sub_group \<and> i \<notin> set kept) (gr_profiles g'))
       = [''c'', ''a'']"
proof -
  have "\<not> se_allow_stopping demo_sub" "rp_started_id demo_repo = -1" "se_key demo_sub = own_name"
    by (simp_all add: demo_sub_def demo_repo_def)
  then show ?thesis
    using refresh_mirrors_subscription [OF demo_repo_ok demo_repo_group, of "\<lambda>url. HttpBody ''body'' []" "''https://sub''" "''body''" "[]" demo_sub False]
    by (simp only: demo_sub_env demo_sub_names if_False simp_thms True_implies_equals)
qed

text \<open>
  C36: Without clearing first, a server the subscription still delivers as often as the group has it keeps
  its id, and with it its name, traffic and test results: its profile is exactly the one from before. The
  conditions are those of the property above; a server delivered fewer times than the group has it loses
  some of its rows.
\<close>

theorem unchanged_servers_keep_their_profiles:
  assumes "repo_ok S" "rp_groups S gid = Some g" "\<not> gr_archive g"
    and "get (ascii_trim str) = HttpBody body info" "se_parse E body \<noteq> []" "fresh_parse E" "compares_outbounds E"
    and "\<not> se_sub_clear E" "i \<in> set (gr_profiles g)" "\<not> is_selector S i"
    and "length (filter (\<lambda>j. \<not> is_selector S j \<and> text_at (se_key E) S j = text_at (se_key E) S i) (gr_profiles g))
         \<le> length (filter (\<lambda>p. se_key E p = text_at (se_key E) S i) (se_parse E body))"
  shows "\<exists>dis S' g'. Update E get str gid flag S = (True, dis, S') \<and> rp_groups S' gid = Some g' \<and>
     i \<in> set (gr_profiles g') \<and> rp_profiles S' i = rp_profiles S i"
proof -
  let ?news = "se_parse E body" and ?A = "group_selectors S g"
  have same: "filter (\<lambda>j. j \<notin> ?A \<and> text_at (se_key E) S j = text_at (se_key E) S i) (gr_profiles g)
      = filter (\<lambda>j. \<not> is_selector S j \<and> text_at (se_key E) S j = text_at (se_key E) S i) (gr_profiles g)"
    by (rule filter_cong) (auto simp: group_selectors_def)
  obtain S' g' K order dis where r: "refresh_group E g info ?news S = (True, dis, S')" "rp_groups S' gid = Some g'"
    "filter (\<lambda>i. i \<notin> ?A \<and> i \<notin> set K) (gr_profiles g') = order"
    "\<not> se_sub_clear E \<and> compares_outbounds E \<longrightarrow> (\<forall>i\<in>set (gr_profiles g) - ?A.
       length (filter (\<lambda>j. j \<notin> ?A \<and> text_at (se_key E) S j = text_at (se_key E) S i) (gr_profiles g))
         \<le> length (filter (\<lambda>p. se_key E p = text_at (se_key E) S i) ?news) \<longrightarrow>
       i \<in> set order \<and> rp_profiles S' i = rp_profiles S i)"
    by (rule refresh_facts [OF assms(1,2) fresh_parseD [OF assms(6)], of E info])
  have "i \<in> set (gr_profiles g) - ?A" using assms(9,10) by (simp add: group_selectors_def)
  then have "i \<in> set order \<and> rp_profiles S' i = rp_profiles S i"
    using r(4) assms(7,8,11) unfolding same [symmetric] by blast
  then show ?thesis using r(1-3) Update_group [of S gid g get str body info E flag, OF assms(1-5)] by auto
qed

theorem unchanged_servers_keep_their_profiles_witness:
  "\<exists>dis S' g'. Update demo_sub (\<lambda>url. HttpBody ''body'' []) ''https://sub'' 0 False demo_repo = (True, dis, S') \<and>
     rp_groups S' 0 = Some g' \<and> 1 \<in> set (gr_profiles g') \<and> rp_profiles S' 1 = Some (demo_server ''a'' 1)"
proof -
  have rows: "\<not> se_sub_clear demo_sub" "1 \<in> set (gr_profiles demo_sub_group)" "\<not> is_selector demo_repo 1"
    by (simp_all add: demo_sub_def demo_sub_group_def is_selector_def demo_repo_def demo_server_def)
  have often: "length (filter (\<lambda>j. \<not> is_selector demo_repo j \<and> text_at (se_key demo_sub) demo_repo j = text_at (se_key demo_sub) demo_repo 1)
        (gr_profiles demo_sub_group))
      \<le> length (filter (\<lambda>p. se_key demo_sub p = text_at (se_key demo_sub) demo_repo 1) (se_parse demo_sub ''body''))"
    by (simp add: demo_sub_def demo_sub_group_def is_selector_def demo_repo_def demo_server_def text_at_def own_name_def)
  have "rp_profiles demo_repo 1 = Some (demo_server ''a'' 1)" by (simp add: demo_repo_def)
  then show ?thesis
    using unchanged_servers_keep_their_profiles [OF demo_repo_ok demo_repo_group, of "\<lambda>url. HttpBody ''body'' []" "''https://sub''" "''body''" "[]" demo_sub 1 False]
      rows often by (simp only: demo_sub_env simp_thms True_implies_equals)
qed

lemma add_imported_facts:
  assumes "repo_ok S" "\<forall>p\<in>set news. pr_id p < 0" "add_imported gid news S = (b, dis, S')"
  shows "repo_ok S'" "\<forall>k p. rp_profiles S k = Some p \<longrightarrow> rp_profiles S' k = Some p"
    "\<forall>k. k \<noteq> add_to gid S \<longrightarrow> rp_groups S' k = rp_groups S k" "\<not> b \<Longrightarrow> S' = S"
proof -
  obtain ps where add: "ProfilesRepo_AddProfileBatch news gid S = (b, ps, S')"
    using assms(3) by (auto simp: add_imported_def split: prod.splits)
  show "repo_ok S'" by (rule ProfilesRepo_AddProfileBatch_ok [OF assms(1,2) add])
  have refs: "repo_refs S" using assms(1) by (rule repo_ok_refs)
  have "(\<forall>k p. rp_profiles S k = Some p \<longrightarrow> rp_profiles S' k = Some p) \<and>
    (\<forall>k. k \<noteq> add_to gid S \<longrightarrow> rp_groups S' k = rp_groups S k) \<and> (b \<or> S' = S)"
  proof (cases "rp_groups S (add_to gid S)")
    case None
    then show ?thesis using add AddProfileBatch_None by simp
  next
    case (Some g)
    note f = AddProfileBatch_facts [OF assms(1) Some assms(2) add]
    let ?new = "map_of (map (\<lambda>p. (pr_id p, p)) (number_new (rp_profile_last_id S + 1) (add_to gid S) news))"
    have "?new k = None" if "rp_profiles S k = Some p" for k p
      using repo_refs_profile(3) [OF refs that] new_profile_at [OF assms(2), of "rp_profile_last_id S + 1" "add_to gid S" k]
      by (cases "?new k") auto
    then show ?thesis using f(1) by (auto simp: f(3,4) map_add_def)
  qed
  then show "\<forall>k p. rp_profiles S k = Some p \<longrightarrow> rp_profiles S' k = Some p"
    "\<forall>k. k \<noteq> add_to gid S \<longrightarrow> rp_groups S' k = rp_groups S k" "\<not> b \<Longrightarrow> S' = S" by blast+
qed

lemma Update_result:
  assumes ok: "repo_ok S" and fresh: "fresh_parse E" and res: "Update E get str gid flag S = (b, dis, S')"
  shows "repo_ok S'" "\<not> b \<Longrightarrow> S' = S" "\<forall>k. k \<noteq> add_to gid S \<longrightarrow> rp_groups S' k = rp_groups S k"
    "\<forall>k p. rp_profiles S k = Some p \<and> (pr_gid p \<noteq> gid \<or> pr_type p = ''autoselector'') \<longrightarrow> rp_profiles S' k = Some p"
proof -
  have refs: "repo_refs S" using ok by (rule repo_ok_refs)
  have "repo_ok S' \<and> (b \<or> S' = S) \<and> (\<forall>k. k \<noteq> add_to gid S \<longrightarrow> rp_groups S' k = rp_groups S k) \<and>
    (\<forall>k p. rp_profiles S k = Some p \<and> (pr_gid p \<noteq> gid \<or> pr_type p = ''autoselector'') \<longrightarrow> rp_profiles S' k = Some p)"
  proof (cases "S' = S")
    case False
    then obtain body info where run: "(case rp_groups S gid of Some g \<Rightarrow> refresh_group E g info (se_parse E body) S
          | None \<Rightarrow> add_imported gid (se_parse E body) S) = (b, dis, S')"
      using res by (auto simp: Update_def Let_def split: if_splits http_answer.splits)
    note fp = fresh_parseD [OF fresh, of body]
    show ?thesis
    proof (cases "rp_groups S gid")
      case None
      then show ?thesis using add_imported_facts [OF ok fp, of gid b dis S'] run by auto
    next
      case (Some g)
      have addto: "add_to gid S = gid" using repo_refs_group(2) [OF refs Some] by simp
      obtain T order where r: "refresh_group E g info (se_parse E body) S = (True, dis, T)" "repo_ok T"
        "\<forall>k. k \<noteq> gid \<longrightarrow> rp_groups T k = rp_groups S k"
        "\<forall>k p. rp_profiles S k = Some p \<and> (k \<notin> set (gr_profiles g) \<or> k \<in> group_selectors S g) \<longrightarrow> rp_profiles T k = Some p"
        by (rule refresh_facts [OF ok Some fp, of E info]) (use run Some in auto)
      have T: "S' = T" "b" using r(1) run Some by auto
      have "k \<notin> set (gr_profiles g) \<or> k \<in> group_selectors S g"
        if "rp_profiles S k = Some p" "pr_gid p \<noteq> gid \<or> pr_type p = ''autoselector''" for k p
        using that repo_refs_group(5) [OF refs Some, of k] by (auto simp: group_selectors_def is_selector_def)
      then show ?thesis using r(2-4) T(2) unfolding T(1) addto by blast
    qed
  qed (use ok in auto)
  then show "repo_ok S'" "\<not> b \<Longrightarrow> S' = S" "\<forall>k. k \<noteq> add_to gid S \<longrightarrow> rp_groups S' k = rp_groups S k"
    "\<forall>k p. rp_profiles S k = Some p \<and> (pr_gid p \<noteq> gid \<or> pr_type p = ''autoselector'') \<longrightarrow> rp_profiles S' k = Some p"
    by blast+
qed

text \<open>
  A refresh stays in its group: the rows of every other group, every profile of another group and every
  auto selector are as before, whatever the server answers. A refresh that reports failure, because the
  request failed, nothing usable came back or the group is archived, changed nothing at all.
\<close>

theorem refresh_stays_in_its_group:
  assumes "repo_ok S" "fresh_parse E"
  shows "\<exists>b dis S'. Update E get str gid flag S = (b, dis, S') \<and> (b \<or> S' = S) \<and>
     (\<forall>k. k \<noteq> add_to gid S \<longrightarrow> rp_groups S' k = rp_groups S k) \<and>
     (\<forall>k p. rp_profiles S k = Some p \<and> (pr_gid p \<noteq> gid \<or> pr_type p = ''autoselector'') \<longrightarrow> rp_profiles S' k = Some p)"
proof -
  obtain b dis S' where u: "Update E get str gid flag S = (b, dis, S')" by (metis prod_cases3)
  show ?thesis using Update_result [OF assms u] u by blast
qed

end
