(* ===== verification/AutoSelectorPlanProps.thy ===== *)
theory AutoSelectorPlanProps
  imports AutoSelectorPlan "HOL-Library.Sublist"
begin

text \<open>
  What a membership plan promises: no profile of the group is lost without a counted reason, only
  profiles the shared configuration can carry are built, the caps hold, and the order is the
  persisted ranking followed by the newcomers in policy order.
\<close>

text \<open>The ids that may join, in group order.\<close>

definition eligible_ids :: "plan_env \<Rightarrow> profiles \<Rightarrow> int \<Rightarrow> autoSelector \<Rightarrow> group \<Rightarrow> profile \<Rightarrow> int list" where
  "eligible_ids E P now sel g ent = members_of (group_skip E P now sel g) (pr_id ent) (gr_profiles g)"

definition group_scan :: "plan_env \<Rightarrow> profiles \<Rightarrow> int \<Rightarrow> autoSelector \<Rightarrow> group \<Rightarrow> profile \<Rightarrow> tally" where
  "group_scan E P now sel g ent = scan_members (group_skip E P now sel g)
     (\<lambda>i. 0 < effectiveLatency sel now (P i)) (pr_id ent) (gr_profiles g)
     \<lparr>ta_members = [], ta_inGroup = 0, ta_ranked = 0, ta_skips = []\<rparr>"

lemma eligibleMembers_scan:
  assumes "G (as_gid sel) = Some g"
  shows "eligibleMembers E P G now ent sel plan =
    (eligible_ids E P now sel g ent,
     plan\<lparr>pl_membersInGroup := pl_membersInGroup plan + ta_inGroup (group_scan E P now sel g ent),
          pl_rankedByTest := pl_rankedByTest plan + ta_ranked (group_scan E P now sel g ent),
          pl_skipped := pl_skipped plan @ ta_skips (group_scan E P now sel g ent)\<rparr>)"
  using assms by (simp add: eligibleMembers_def Let_def scan_members_members group_skip_def [abs_def]
      eligible_ids_def group_scan_def)

lemma mid0_nonneg: "0 \<le> n \<Longrightarrow> mid0 n xs = take (nat n) xs"
  by (simp add: mid0_def)

lemma mid0_min: "0 \<le> n \<Longrightarrow> mid0 (min (int (length xs)) n) xs = take (nat n) xs"
  by (cases "int (length xs) \<le> n") (auto simp: mid0_def)

lemma mid0_truncate: "0 \<le> n \<Longrightarrow> (if n < int (length xs) then mid0 n xs else xs) = take (nat n) xs"
  by (auto simp: mid0_def)

lemma cut_plan_fields:
  "pl_membersInGroup (cut_plan E P now sel ids p) = pl_membersInGroup p"
  "pl_skipped (cut_plan E P now sel ids p) = pl_skipped p"
  "pl_eligible (cut_plan E P now sel ids p) = pl_eligible p"
  "pl_error (cut_plan E P now sel ids p) = pl_error p"
  "0 \<le> as_poolCap sel \<Longrightarrow>
   pl_pool (cut_plan E P now sel ids p) = take (nat (as_poolCap sel)) (orderMembers E P ids (as_pool sel) sel now)"
  "0 \<le> as_poolCap sel \<Longrightarrow> 0 \<le> as_buildLimit sel \<Longrightarrow>
   pl_build (cut_plan E P now sel ids p) = take (nat (as_buildLimit sel)) (pl_pool (cut_plan E P now sel ids p))"
  "pl_truncated (cut_plan E P now sel ids p) \<longleftrightarrow>
     as_poolCap sel < int (length (orderMembers E P ids (as_pool sel) sel now))"
  "pl_needsRanking (cut_plan E P now sel ids p) \<longleftrightarrow>
     as_buildLimit sel < int (length (pl_pool (cut_plan E P now sel ids p))) \<and>
     (\<exists>i \<in> set (pl_build (cut_plan E P now sel ids p)). effectiveLatencyOf P sel now i = 0)"
  by (simp_all add: cut_plan_def Let_def mid0_min mid0_truncate filter_empty_conv)

lemma orderMembers_Nil [simp]: "orderMembers E P [] pool sel now = []"
  using orderMembers_set [of E P "[]" pool sel now] by simp

text \<open>The plan of a selector whose group exists.\<close>

lemma plan_of_group:
  assumes "AutoSelector_of ent = Some sel" and "G (as_gid sel) = Some g"
    and "p = fst (PlanAutoSelector E P G now1 now2 (Some ent))"
    and "ids = eligible_ids E P now1 (Normalize sel) g ent"
  shows "pl_pool p = take (nat (as_poolCap (Normalize sel))) (orderMembers E P ids (as_pool sel) (Normalize sel) now2)"
    and "pl_build p = take (nat (as_buildLimit (Normalize sel))) (pl_pool p)"
    and "pl_eligible p = int (length ids)"
    and "pl_membersInGroup p = ta_inGroup (group_scan E P now1 (Normalize sel) g ent)"
    and "pl_skipped p = ta_skips (group_scan E P now1 (Normalize sel) g ent)"
    and "pl_error p = (if ids = [] then ''Auto selector has no usable members'' else [])"
    and "pl_truncated p \<longleftrightarrow>
      as_poolCap (Normalize sel) < int (length (orderMembers E P ids (as_pool sel) (Normalize sel) now2))"
proof -
  have caps: "0 \<le> as_poolCap (Normalize sel)" "0 \<le> as_buildLimit (Normalize sel)"
    using Normalize_caps [of sel] by auto
  have self: "eligible_ids E P now1 (Normalize sel) g (put_selector (Normalize sel) ent) = ids"
      "group_scan E P now1 (Normalize sel) g (put_selector (Normalize sel) ent) = group_scan E P now1 (Normalize sel) g ent"
    by (simp_all add: assms(4) eligible_ids_def group_scan_def)
  note p = assms(3) [unfolded PlanAutoSelector_def option.case assms(1) Let_def
      eligibleMembers_scan [of G "Normalize sel" g, simplified, OF assms(2)] self]
  show "pl_pool p = take (nat (as_poolCap (Normalize sel))) (orderMembers E P ids (as_pool sel) (Normalize sel) now2)"
      "pl_build p = take (nat (as_buildLimit (Normalize sel))) (pl_pool p)"
      "pl_eligible p = int (length ids)"
      "pl_membersInGroup p = ta_inGroup (group_scan E P now1 (Normalize sel) g ent)"
      "pl_skipped p = ta_skips (group_scan E P now1 (Normalize sel) g ent)"
      "pl_error p = (if ids = [] then ''Auto selector has no usable members'' else [])"
      "pl_truncated p \<longleftrightarrow>
        as_poolCap (Normalize sel) < int (length (orderMembers E P ids (as_pool sel) (Normalize sel) now2))"
    using caps by (auto simp: p cut_plan_fields new_plan_def)
qed

subsection \<open>A concrete group\<close>

text \<open>
  Profile 1 is the selector; 2 and 6 answered in 40 and 30 ms, 4 was never tested and heads the
  persisted ranking, 3 is a chain, 5 does not exist, 7 failed a minute ago.
\<close>

definition plan_demo_env :: plan_env where
  "plan_demo_env = \<lparr>qt_trimmed = ascii_trim, qt_upper = map ascii_up, qt_lower = map ascii_low,
     qt_fold = map ascii_low, qt_int = ascii_int, qt_longlong = ascii_int,
     qt_utf8 = map (\<lambda>c. word_of_nat (of_char c)), qt_from_utf8 = map (\<lambda>b. char_of (unat b)),
     re_valid = (\<lambda>p. True), re_match = (\<lambda>p s. str_contains (map ascii_low s) (map ascii_low p)),
     parse_object = (\<lambda>s. [])\<rparr>"

definition plan_demo_selector :: autoSelector where
  "plan_demo_selector = new_autoSelector\<lparr>as_gid := 9, as_pool := [4]\<rparr>"

definition demo_profile :: "int \<Rightarrow> string \<Rightarrow> int \<Rightarrow> outbound_class \<Rightarrow> profile" where
  "demo_profile i ty latency cls = new_profile\<lparr>pr_id := i, pr_type := ty, pr_latency := latency,
     pr_latency_at := (if latency = 0 then 0 else 940),
     pr_outbound := Some \<lparr>ob_name = [CHR ''s''], ob_address = [], ob_class = cls\<rparr>\<rparr>"

definition demo_ent :: profile where
  "demo_ent = demo_profile 1 ''autoselector'' 0 (SelectorOb plan_demo_selector)"

definition demo_profiles :: profiles where
  "demo_profiles = map_of [(1, demo_ent), (2, demo_profile 2 ''vless'' 40 OtherOb),
     (3, demo_profile 3 ''chain'' 0 (ChainOb [2])), (4, demo_profile 4 ''vless'' 0 OtherOb),
     (6, demo_profile 6 ''trojan'' 30 OtherOb), (7, demo_profile 7 ''vless'' (-1) OtherOb)]"

definition demo_group :: group where
  "demo_group = new_group\<lparr>gr_id := 9, gr_profiles := [1, 2, 3, 4, 5, 6, 7]\<rparr>"

definition demo_groups :: groups where
  "demo_groups = map_of [(9, demo_group)]"

definition demo_plan :: plan where
  "demo_plan = fst (PlanAutoSelector plan_demo_env demo_profiles demo_groups 1000 1000 (Some demo_ent))"

lemma demo_facts:
  "AutoSelector_of demo_ent = Some plan_demo_selector" "demo_groups (as_gid plan_demo_selector) = Some demo_group"
  "distinct (gr_profiles demo_group)" "0 \<le> as_poolCap plan_demo_selector"
  by (simp_all add: demo_ent_def demo_profile_def AutoSelector_of_def demo_groups_def
      plan_demo_selector_def new_autoSelector_def demo_group_def new_group_def)

lemma demo_values:
  "pl_pool demo_plan = [4, 6, 2]" "pl_skipped demo_plan = [(Missing, 1), (MetaType, 1), (Unavailable, 1)]"
  "pl_build demo_plan = [4, 6, 2]" "pl_eligible demo_plan = 3"
  by code_simp+

subsection \<open>Accounting\<close>

lemma length_filter_split:
  "length (filter P xs) = length (filter (\<lambda>x. P x \<and> Q x) xs) + length (filter (\<lambda>x. P x \<and> \<not> Q x) xs)"
  by (induction xs) auto

text \<open>
  C5: No profile of the tracked group disappears silently: every one except the selector itself is
  either eligible or counted under the reason the membership rules give for it, the counts of
  the reasons are exact, and eligible plus skipped is the number of members in the group.
\<close>

theorem plan_accounts_for_group:
  assumes "AutoSelector_of ent = Some sel" and "G (as_gid sel) = Some g"
    and "p = fst (PlanAutoSelector E P G now1 now2 (Some ent))"
  shows "pl_membersInGroup p = pl_eligible p + skippedCount p \<and>
    pl_membersInGroup p = int (length (filter (\<lambda>i. i \<noteq> pr_id ent) (gr_profiles g))) \<and>
    (\<forall>k. k \<noteq> NoSkip \<longrightarrow> count_in (pl_skipped p) k =
       int (length (filter (\<lambda>i. i \<noteq> pr_id ent \<and> group_skip E P now1 (Normalize sel) g i = k) (gr_profiles g))))"
proof -
  let ?skip = "group_skip E P now1 (Normalize sel) g"
  note q = plan_of_group [OF assms refl] scan_members_counts scan_members_skips(2,3)
  have "pl_membersInGroup p = int (length (filter (\<lambda>i. i \<noteq> pr_id ent) (gr_profiles g)))"
    by (simp add: q group_scan_def)
  moreover have "skippedCount p = int (length (filter (\<lambda>i. i \<noteq> pr_id ent \<and> ?skip i \<noteq> NoSkip) (gr_profiles g)))"
    by (simp add: skippedCount_sum q group_scan_def)
  moreover have "pl_eligible p = int (length (filter (\<lambda>i. i \<noteq> pr_id ent \<and> ?skip i = NoSkip) (gr_profiles g)))"
    by (simp add: q eligible_ids_def members_of_def)
  moreover have "count_in (pl_skipped p) k =
      int (length (filter (\<lambda>i. i \<noteq> pr_id ent \<and> ?skip i = k) (gr_profiles g)))" if "k \<noteq> NoSkip" for k
  proof -
    have "(\<lambda>i. i \<noteq> pr_id ent \<and> ?skip i \<noteq> NoSkip \<and> ?skip i = k) = (\<lambda>i. i \<noteq> pr_id ent \<and> ?skip i = k)"
      using that by auto
    then show ?thesis by (simp add: q group_scan_def)
  qed
  ultimately show ?thesis
    using length_filter_split [of "\<lambda>i. i \<noteq> pr_id ent" "gr_profiles g" "\<lambda>i. ?skip i = NoSkip"] by simp
qed

theorem plan_accounts_for_group_witness:
  "pl_membersInGroup demo_plan = 6 \<and> pl_eligible demo_plan = 3 \<and> skippedCount demo_plan = 3"
  using plan_accounts_for_group [OF demo_facts(1,2) demo_plan_def] demo_values(4)
  by (simp add: demo_group_def new_group_def demo_ent_def demo_profile_def)

subsection \<open>Members\<close>

text \<open>What the shared configuration needs of a member.\<close>

definition buildable :: "plan_env \<Rightarrow> profiles \<Rightarrow> int \<Rightarrow> autoSelector \<Rightarrow> group \<Rightarrow> int \<Rightarrow> bool" where
  "buildable E P now sel g i \<longleftrightarrow> (\<exists>m ob. P i = Some m \<and> pr_outbound m = Some ob \<and>
     pr_type m \<notin> {''chain'', ''autoselector'', ''tailscale'', ''openvpn'', ''openconnect''} \<and>
     \<not> IsExtraCore ob \<and>
     (pr_type m = ''custom'' \<longrightarrow> (\<exists>c. ob_class ob = CustomOb c \<and> parse_object E (cu_config c) \<noteq> [] \<and>
        cu_type c \<in> {CustomOutbound, CustomXrayOutbound, CustomXrayFullConfig})) \<and>
     (if IsXrayFullConfig ob
      then xrayFullConfigFitsChain (proxy_of P (gr_landing_proxy_id g)) (proxy_of P (gr_front_proxy_id g))
      else coreTransitions (proxy_of P (gr_landing_proxy_id g)) (P i) (proxy_of P (gr_front_proxy_id g)) \<le> 2) \<and>
     \<not> (as_excludeUnavailable sel \<and> pr_latency m < 0 \<and> hasFreshResult sel now (Some m)))"

lemma eligible_buildable:
  assumes "group_skip E P now sel g i = NoSkip"
  shows "buildable E P now sel g i"
proof -
  from assms have el: "eligibilityOf E sel (buildFilters E sel) now (P i) = NoSkip"
    by (auto simp: group_skip_def member_skip_def Let_def split: if_splits)
  then obtain m ob where m: "P i = Some m" "pr_outbound m = Some ob"
    by (auto simp: eligibilityOf_def split: option.splits)
  from el m have ty: "pr_type m \<notin> {''chain'', ''autoselector'', ''tailscale'', ''openvpn'', ''openconnect''}"
      "\<not> IsExtraCore ob" "pr_type m = ''custom'' \<Longrightarrow> custom_skip E m = NoSkip"
      "filter_skip E sel (buildFilters E sel) now m ob = NoSkip"
    by (auto simp: eligibilityOf_def split: if_splits)
  have "pr_type m = ''custom'' \<longrightarrow> (\<exists>c. ob_class ob = CustomOb c \<and> parse_object E (cu_config c) \<noteq> [] \<and>
      cu_type c \<in> {CustomOutbound, CustomXrayOutbound, CustomXrayFullConfig})"
    using ty(3) m by (auto simp: custom_skip_def Custom_def split: option.splits outbound_class.splits if_splits)
  moreover have "\<not> (as_excludeUnavailable sel \<and> pr_latency m < 0 \<and> hasFreshResult sel now (Some m))"
    using ty(4) by (auto simp: filter_skip_def Let_def split: if_splits)
  moreover have "if IsXrayFullConfig ob
      then xrayFullConfigFitsChain (proxy_of P (gr_landing_proxy_id g)) (proxy_of P (gr_front_proxy_id g))
      else coreTransitions (proxy_of P (gr_landing_proxy_id g)) (P i) (proxy_of P (gr_front_proxy_id g)) \<le> 2"
    using assms el m by (auto simp: group_skip_def member_skip_def split: if_splits)
  ultimately show ?thesis using m ty(1,2) unfolding buildable_def by blast
qed

text \<open>
  C2: For a group whose rows name no profile twice: every member of the pool is a profile of the
  tracked group other than the selector, of a kind the shared configuration can carry and within the
  core hand-off budget of its chain; if the selector leaves out unavailable servers, it is not one that
  failed a fresh test. The pool has no duplicates and is as long as the cap and the eligible profiles
  allow: shorter than the eligible profiles exactly when the plan says it was cut, and otherwise it holds
  all of them. The build is the head of the pool up to its own limit.
\<close>

theorem plan_members_sound:
  assumes "AutoSelector_of ent = Some sel" and "G (as_gid sel) = Some g" and "distinct (gr_profiles g)"
    and "p = fst (PlanAutoSelector E P G now1 now2 (Some ent))"
  shows "(\<forall>i \<in> set (pl_pool p). i \<in> set (gr_profiles g) \<and> i \<noteq> pr_id ent \<and> buildable E P now1 (Normalize sel) g i) \<and>
    (\<exists>rest. pl_pool p = pl_build p @ rest) \<and> distinct (pl_pool p) \<and>
    length (pl_pool p) \<le> 3000 \<and> length (pl_build p) \<le> 500 \<and>
    int (length (pl_pool p)) = min (as_poolCap (Normalize sel)) (int (length (eligible_ids E P now1 (Normalize sel) g ent))) \<and>
    int (length (pl_build p)) = min (as_buildLimit (Normalize sel)) (int (length (pl_pool p))) \<and>
    pl_truncated p = (length (pl_pool p) < length (eligible_ids E P now1 (Normalize sel) g ent)) \<and>
    (\<not> pl_truncated p \<longrightarrow> (\<forall>i \<in> set (gr_profiles g). i \<noteq> pr_id ent \<longrightarrow>
       group_skip E P now1 (Normalize sel) g i = NoSkip \<longrightarrow> i \<in> set (pl_pool p)))"
proof -
  let ?ids = "eligible_ids E P now1 (Normalize sel) g ent"
  note q = plan_of_group [OF assms(1,2,4) refl]
  note caps = Normalize_caps [of sel, unfolded selector_caps]
  have ids: "set ?ids = {i \<in> set (gr_profiles g). i \<noteq> pr_id ent \<and> group_skip E P now1 (Normalize sel) g i = NoSkip}"
    unfolding eligible_ids_def by (rule set_members_of)
  have dist: "distinct ?ids" using assms(3) by (simp add: eligible_ids_def members_of_def)
  then have "distinct (pl_pool p)" by (simp add: q(1) orderMembers_distinct)
  moreover have ordered: "length (orderMembers E P ?ids (as_pool sel) (Normalize sel) now2) = length ?ids"
    using distinct_card [OF dist] distinct_card [OF orderMembers_distinct [OF dist]] by (simp add: orderMembers_set)
  have capped: "0 \<le> as_poolCap (Normalize sel)" "0 \<le> as_buildLimit (Normalize sel)"
    using Normalize_caps [of sel] by auto
  have "int (length (pl_pool p)) = min (as_poolCap (Normalize sel)) (int (length ?ids))"
    "int (length (pl_build p)) = min (as_buildLimit (Normalize sel)) (int (length (pl_pool p)))"
    "pl_truncated p = (length (pl_pool p) < length ?ids)"
    using capped unfolding q(2,7) by (auto simp: q(1) ordered)
  moreover have "set (pl_pool p) \<subseteq> set ?ids"
    unfolding q(1) by (metis orderMembers_set set_take_subset)
  then have "\<forall>i \<in> set (pl_pool p). i \<in> set (gr_profiles g) \<and> i \<noteq> pr_id ent \<and> buildable E P now1 (Normalize sel) g i"
    unfolding ids by (auto intro: eligible_buildable dest!: subsetD)
  moreover have "\<exists>rest. pl_pool p = pl_build p @ rest"
    unfolding q(2) by (metis append_take_drop_id)
  moreover have "length (pl_pool p) \<le> 3000" "length (pl_build p) \<le> 500"
    using caps by (simp_all add: q(1,2))
  moreover have "\<not> pl_truncated p \<longrightarrow> set (pl_pool p) = set ?ids"
    unfolding q(1,7) by (simp add: orderMembers_set)
  then have "\<not> pl_truncated p \<longrightarrow> (\<forall>i \<in> set (gr_profiles g). i \<noteq> pr_id ent \<longrightarrow>
       group_skip E P now1 (Normalize sel) g i = NoSkip \<longrightarrow> i \<in> set (pl_pool p))"
    unfolding ids by simp
  ultimately show ?thesis by (intro conjI)
qed

theorem plan_members_sound_witness:
  "buildable plan_demo_env demo_profiles 1000 (Normalize plan_demo_selector) demo_group 6 \<and>
   (\<exists>rest. [4, 6, 2] = [4, 6, 2 :: int] @ rest)"
  using plan_members_sound [OF demo_facts(1-3) demo_plan_def] unfolding demo_values by simp

subsection \<open>Order\<close>

lemma keep_first_subseq: "subseq (keep_first key seen xs) xs"
  by (induction xs arbitrary: seen) (auto split: option.splits)

text \<open>
  C12: The pool is the head of a list in two parts. First come the eligible members of the persisted
  ranking, in its order, each once. The newcomers follow, sorted by policy: tier by tier, within
  a tier measured members by latency, then unmeasured ones, then failing ones, and members the
  policy does not distinguish in group order.
\<close>

theorem plan_order:
  assumes "AutoSelector_of ent = Some sel" and "G (as_gid sel) = Some g"
    and "p = fst (PlanAutoSelector E P G now1 now2 (Some ent))"
  shows "\<exists>kept new ids. pl_pool p = take (nat (as_poolCap (Normalize sel))) (kept @ new) \<and>
    ids = filter (\<lambda>i. i \<noteq> pr_id ent \<and> group_skip E P now1 (Normalize sel) g i = NoSkip) (gr_profiles g) \<and>
    subseq kept (as_pool sel) \<and> distinct kept \<and> set kept = set (as_pool sel) \<inter> set ids \<and>
    mset new = mset (filter (\<lambda>i. i \<notin> set kept) ids) \<and>
    sorted (map (policy_key E P (Normalize sel) (buildFilters E (Normalize sel)) now2) new) \<and>
    (\<forall>a. filter (\<lambda>i. policy_key E P (Normalize sel) (buildFilters E (Normalize sel)) now2 i =
            policy_key E P (Normalize sel) (buildFilters E (Normalize sel)) now2 a) new =
         filter (\<lambda>i. policy_key E P (Normalize sel) (buildFilters E (Normalize sel)) now2 i =
            policy_key E P (Normalize sel) (buildFilters E (Normalize sel)) now2 a)
          (filter (\<lambda>i. i \<notin> set kept) ids))"
proof -
  let ?n = "Normalize sel"
  let ?fl = "buildFilters E ?n"
  let ?key = "policy_key E P ?n ?fl now2"
  define ids where "ids = filter (\<lambda>i. i \<noteq> pr_id ent \<and> group_skip E P now1 ?n g i = NoSkip) (gr_profiles g)"
  have ids: "eligible_ids E P now1 ?n g ent = ids"
    by (simp add: eligible_ids_def members_of_def ids_def)
  obtain kept new where o: "orderMembers E P ids (as_pool sel) ?n now2 = kept @ new"
    and k: "kept = keep_first (\<lambda>i. if i \<in> set ids then Some i else None) [] (as_pool sel)"
    and n: "new = stable_sort (byPolicy E P ?n ?fl now2) (filter (\<lambda>i. i \<notin> set kept) ids)"
    by (rule orderMembers_parts)
  have "pl_pool p = take (nat (as_poolCap ?n)) (kept @ new)"
    using plan_of_group(1) [OF assms refl] by (simp add: ids o)
  moreover have "subseq kept (as_pool sel)" "distinct kept" "set kept = set (as_pool sel) \<inter> set ids"
    unfolding k by (rule keep_first_subseq, rule kept_distinct, rule kept_set)
  moreover have "mset new = mset (filter (\<lambda>i. i \<notin> set kept) ids)" "sorted (map ?key new)"
    unfolding n by (simp, rule policy.sorted_keys)
  moreover have "filter (\<lambda>i. ?key i = ?key a) new = filter (\<lambda>i. ?key i = ?key a) (filter (\<lambda>i. i \<notin> set kept) ids)" for a
  proof -
    have "(\<lambda>i. ?key i = ?key a) = (\<lambda>y. \<not> byPolicy E P ?n ?fl now2 a y \<and> \<not> byPolicy E P ?n ?fl now2 y a)"
      by (rule ext) (simp only: policy.lt_key, rule iffI, simp, fastforce)
    then show ?thesis unfolding n by (simp only: policy.stable_stable_sort)
  qed
  ultimately show ?thesis unfolding ids_def [symmetric] by blast
qed

theorem plan_order_witness:
  "\<exists>kept new. [4, 6, 2 :: int] = take 1000 (kept @ new) \<and> set kept \<subseteq> {4}"
proof -
  have "as_poolCap (Normalize plan_demo_selector) = 1000"
    by (simp add: Normalize_values plan_demo_selector_def new_autoSelector_def selector_caps)
  then have "\<exists>kept new. pl_pool demo_plan = take 1000 (kept @ new) \<and> set kept \<subseteq> set (as_pool plan_demo_selector)"
    using plan_order [OF demo_facts(1,2) demo_plan_def] by (metis Int_lower1 nat_numeral)
  then show ?thesis by (simp add: plan_demo_selector_def demo_values)
qed

text \<open>
  C15: Re-ranking after a test keeps the best: the new pool is sorted by policy and holds as many of the
  eligible members as the cap allows, all of them if they fit; every eligible member left out ranks no
  better than any kept one, and the pool and the time are what is saved with the selector.
\<close>

theorem rerank_keeps_best:
  assumes "AutoSelector_of ent = Some sel" and "G (as_gid sel) = Some g" and "0 \<le> as_poolCap sel"
    and "RerankAutoSelectorPool E P G now1 now2 now3 (Some ent) = (pool, saved)"
  shows "sorted (map (policy_key E P sel (buildFilters E sel) now2) pool) \<and>
    int (length pool) = min (as_poolCap sel) (int (length (eligible_ids E P now1 sel g ent))) \<and>
    mset pool \<subseteq># mset (eligible_ids E P now1 sel g ent) \<and>
    (\<forall>i \<in> set (eligible_ids E P now1 sel g ent) - set pool. \<forall>k \<in> set pool.
       policy_key E P sel (buildFilters E sel) now2 k \<le> policy_key E P sel (buildFilters E sel) now2 i) \<and>
    (\<exists>ent'. saved = Some ent' \<and> AutoSelector_of ent' = Some (sel\<lparr>as_pool := pool, as_poolRankedAt := now3\<rparr>))"
proof -
  let ?key = "policy_key E P sel (buildFilters E sel) now2"
  let ?ids = "eligible_ids E P now1 sel g ent"
  define all where "all = stable_sort (byPolicy E P sel (buildFilters E sel) now2) ?ids"
  have pool: "pool = take (nat (as_poolCap sel)) all"
    and saved: "saved = Some (put_selector (sel\<lparr>as_pool := pool, as_poolRankedAt := now3\<rparr>) ent)"
    using assms(4) unfolding RerankAutoSelectorPool_def option.case assms(1) Let_def
      eligibleMembers_scan [of G sel g, OF assms(2)] fst_conv mid0_truncate [OF assms(3)]
    by (auto simp: all_def)
  have all: "sorted (map ?key all)" "set all = set ?ids"
    unfolding all_def by (rule policy.sorted_keys) simp
  define m where "m = nat (as_poolCap sel)"
  have "sorted (map ?key (take m all) @ map ?key (drop m all))"
    using all(1) by (metis append_take_drop_id map_append)
  then have "sorted (map ?key pool)" "\<forall>k \<in> set pool. \<forall>i \<in> set (drop m all). ?key k \<le> ?key i"
    by (auto simp: sorted_append pool m_def)
  moreover have "set ?ids = set pool \<union> set (drop m all)"
    unfolding all(2) [symmetric] pool m_def by (metis append_take_drop_id set_append)
  moreover have "mset all = mset ?ids" unfolding all_def by (rule mset_stable_sort)
  then have "length all = length ?ids" "mset pool \<subseteq># mset ?ids"
    by (metis size_mset) (metis \<open>mset all = mset ?ids\<close> append_take_drop_id mset_append mset_subset_eq_add_left pool)
  moreover from this(1) have "int (length pool) = min (as_poolCap sel) (int (length ?ids))"
    using assms(3) by (simp add: pool)
  ultimately show ?thesis using assms(1) saved by auto
qed

definition demo_rerank :: "int list \<times> profile option" where
  "demo_rerank = RerankAutoSelectorPool plan_demo_env demo_profiles demo_groups 1000 1000 1001 (Some demo_ent)"

lemma demo_rerank_value: "fst demo_rerank = [6, 2, 4]"
  by code_simp

theorem rerank_keeps_best_witness:
  "sorted (map (policy_key plan_demo_env demo_profiles plan_demo_selector
     (buildFilters plan_demo_env plan_demo_selector) 1000) [6, 2, 4])"
proof -
  have "RerankAutoSelectorPool plan_demo_env demo_profiles demo_groups 1000 1000 1001 (Some demo_ent) =
      (fst demo_rerank, snd demo_rerank)"
    by (simp add: demo_rerank_def)
  from rerank_keeps_best [OF demo_facts(1,2,4) this] show ?thesis
    unfolding demo_rerank_value by blast
qed

text \<open>
  A test before a start measures exactly the eligible members that are suspect or have no
  result inside the validity window: results the user already has are reused, whatever they say.
\<close>

theorem unmeasured_exact:
  assumes "AutoSelector_of ent = Some sel" and "G (as_gid sel) = Some g"
  shows "AutoSelectorUnmeasuredCandidates E P G now1 now2 (Some ent) stale =
      filter (\<lambda>i. i \<in> set stale \<or> \<not> hasFreshResult (Normalize sel) now2 (P i))
        (eligible_ids E P now1 (Normalize sel) g ent)"
proof -
  have "effectiveLatencyOf P (Normalize sel) now2 i = 0 \<longleftrightarrow> \<not> hasFreshResult (Normalize sel) now2 (P i)" for i
    by (auto simp: effectiveLatencyOf_def effectiveLatency_def hasFreshResult_def split: option.splits if_splits)
  then show ?thesis
    using assms by (simp add: AutoSelectorUnmeasuredCandidates_def AutoSelectorRankingCandidates_def
        eligibleMembers_scan [of G "Normalize sel" g])
qed

theorem unmeasured_exact_witness:
  "AutoSelectorUnmeasuredCandidates plan_demo_env demo_profiles demo_groups 1000 1000 (Some demo_ent) [6] =
    filter (\<lambda>i. i \<in> set [6] \<or> \<not> hasFreshResult (Normalize plan_demo_selector) 1000 (demo_profiles i))
      (eligible_ids plan_demo_env demo_profiles 1000 (Normalize plan_demo_selector) demo_group demo_ent)"
  by (rule unmeasured_exact) (rule demo_facts)+

end
