(* ===== verification/AutoSelectorMonitor.thy ===== *)
theory AutoSelectorMonitor
  imports Profile
begin

text \<open>
  The monitor of a running auto selector, \<^verbatim>\<open>src/stats/autoselector/AutoSelectorMonitor.cpp\<close>.
  Its state is guarded by one mutex, but \<^verbatim>\<open>poll()\<close> takes and releases it three times around the
  work on the core's answer, and the interface thread may start or stop a build in between. So
  each locked section is a function of its own (\<open>poll_tag\<close>, \<open>poll_resolve\<close>, \<open>poll_decide\<close>), and the
  step relation below interleaves them with the operations of the other thread. The core's
  answers and the clock are inputs of the steps.
\<close>

record member_status =
  ms_tag :: string
  ms_rank :: int
  ms_state :: string
  ms_selected :: bool
  ms_selected_udp :: bool
  ms_qualified :: bool
  ms_active :: bool
  ms_average_ms :: int
  ms_deviation_ms :: int
  ms_min_ms :: int
  ms_max_ms :: int
  ms_samples :: int
  ms_failures :: int
  ms_probes :: int
  ms_dial_total :: int
  ms_dial_fail :: int
  ms_last_ok_ms :: int
  ms_last_probe_ms :: int
  ms_cooldown_until_ms :: int
  ms_last_error :: string

text \<open>\<^verbatim>\<open>libcore::AutoSelectorStatus\<close>, the core's report on one group.\<close>

record group_status =
  gs_tag :: string
  gs_phase :: string
  gs_selected :: string
  gs_pinned :: string
  gs_balance :: bool
  gs_balance_mode :: string
  gs_suspended :: bool
  gs_suspended_since_ms :: int
  gs_members_total :: int
  gs_members_probed :: int
  gs_members_alive :: int
  gs_members_qualified :: int
  gs_members_cooldown :: int
  gs_probes_in_flight :: int
  gs_rounds_completed :: int
  gs_last_round_ms :: int
  gs_next_round_ms :: int
  gs_last_switch_ms :: int
  gs_last_switch_reason :: string
  gs_members :: "member_status list"

record member_view =
  mv_status :: member_status \<comment> \<open>the fields copied one by one from the report\<close>
  mv_profileID :: int
  mv_name :: string
  mv_pinned :: bool

definition isDead :: "member_view \<Rightarrow> bool" where
  "isDead m \<longleftrightarrow> ms_state (mv_status m) = ''dead''"

definition isUsable :: "member_view \<Rightarrow> bool" where
  "isUsable m \<longleftrightarrow> ms_state (mv_status m) = ''ok'' \<or> ms_state (mv_status m) = ''degraded''"

definition hasProblem :: "member_view \<Rightarrow> bool" where
  "hasProblem m \<longleftrightarrow> ms_state (mv_status m) \<in> set [''dead'', ''cooldown'', ''degraded'']"

record view =
  vw_valid :: bool
  vw_groupTag :: string
  vw_profileID :: int
  vw_phase :: string
  vw_selectedTag :: string
  vw_selectedName :: string
  vw_selectedProfileID :: int
  vw_pinnedTag :: string
  vw_pinnedName :: string
  vw_balance :: bool
  vw_balanceMode :: string
  vw_suspended :: bool
  vw_suspendedSinceMs :: int
  vw_membersTotal :: int
  vw_membersProbed :: int
  vw_membersAlive :: int
  vw_membersQualified :: int
  vw_membersCooldown :: int
  vw_probesInFlight :: int
  vw_roundsCompleted :: int
  vw_lastRoundMs :: int
  vw_nextRoundMs :: int
  vw_lastSwitchMs :: int
  vw_lastSwitchReason :: string
  vw_updatedAtMs :: int
  vw_exhaustedSinceMs :: int
  vw_members :: "member_view list"

definition new_view :: view where
  "new_view = \<lparr>vw_valid = False, vw_groupTag = [], vw_profileID = -1, vw_phase = [],
     vw_selectedTag = [], vw_selectedName = [], vw_selectedProfileID = -1, vw_pinnedTag = [],
     vw_pinnedName = [], vw_balance = False, vw_balanceMode = [], vw_suspended = False,
     vw_suspendedSinceMs = 0, vw_membersTotal = 0, vw_membersProbed = 0, vw_membersAlive = 0,
     vw_membersQualified = 0, vw_membersCooldown = 0, vw_probesInFlight = 0, vw_roundsCompleted = 0,
     vw_lastRoundMs = 0, vw_nextRoundMs = 0, vw_lastSwitchMs = 0, vw_lastSwitchReason = [],
     vw_updatedAtMs = 0, vw_exhaustedSinceMs = 0, vw_members = []\<rparr>"

record monitor =
  mo_view :: view
  mo_tagToProfile :: "string \<rightharpoonup> int"
  mo_tagToName :: "string \<rightharpoonup> string"
  mo_groupTag :: string
  mo_profileID :: int
  mo_active :: bool
  mo_exhaustedSince :: int
  mo_lastRebuildRequest :: int
  mo_rebuildBackoffSecs :: int
  mo_lastHealthPersist :: int

definition new_monitor :: monitor where
  "new_monitor = \<lparr>mo_view = new_view, mo_tagToProfile = Map.empty, mo_tagToName = Map.empty,
     mo_groupTag = [], mo_profileID = -1, mo_active = False, mo_exhaustedSince = 0,
     mo_lastRebuildRequest = 0, mo_rebuildBackoffSecs = 0, mo_lastHealthPersist = 0\<rparr>"

definition kPoolExhaustedGraceSecs :: int where "kPoolExhaustedGraceSecs = 20"
definition kRebuildBackoffMinSecs :: int where "kRebuildBackoffMinSecs = 60"
definition kRebuildBackoffMaxSecs :: int where "kRebuildBackoffMaxSecs = 600"
definition kHealthPersistSecs :: int where "kHealthPersistSecs = 60"

lemmas monitor_constants = kPoolExhaustedGraceSecs_def kRebuildBackoffMinSecs_def
  kRebuildBackoffMaxSecs_def kHealthPersistSecs_def

subsection \<open>Builds\<close>

text \<open>\<^verbatim>\<open>AutoSelectorBuildInfo\<close>: group tag, selector profile, members by tag.\<close>

record build_info =
  bi_groupTag :: string
  bi_profile :: "profile option"
  bi_members :: "(string \<times> profile option) list"

fun index_members ::
  "(string \<times> profile option) list \<Rightarrow> (string \<rightharpoonup> int) \<times> (string \<rightharpoonup> string) \<Rightarrow> (string \<rightharpoonup> int) \<times> (string \<rightharpoonup> string)" where
  "index_members [] maps = maps"
| "index_members ((tag, member) # ms) (ids, names) = (case member of
     None \<Rightarrow> index_members ms (ids, names)
   | Some p \<Rightarrow> index_members ms (ids(tag \<mapsto> pr_id p),
       names(tag \<mapsto> (case pr_outbound p of Some ob \<Rightarrow> DisplayName ob | None \<Rightarrow> pr_name p))))"

definition SetBuild :: "int \<Rightarrow> build_info list \<Rightarrow> monitor \<Rightarrow> monitor" where
  "SetBuild now infos s =
     (let s = s\<lparr>mo_tagToProfile := Map.empty, mo_tagToName := Map.empty, mo_view := new_view,
                mo_exhaustedSince := 0, mo_groupTag := [], mo_profileID := -1, mo_active := False\<rparr>
      in case infos of
        [] \<Rightarrow> s
      | info # _ \<Rightarrow>
          let pid = (case bi_profile info of Some p \<Rightarrow> pr_id p | None \<Rightarrow> -1);
              (ids, names) = index_members (bi_members info) (Map.empty, Map.empty)
          in s\<lparr>mo_groupTag := bi_groupTag info, mo_profileID := pid,
               mo_tagToProfile := ids, mo_tagToName := names,
               mo_view := new_view\<lparr>vw_valid := True, vw_groupTag := bi_groupTag info,
                 vw_profileID := pid, vw_phase := ''starting'',
                 vw_membersTotal := int (length (bi_members info))\<rparr>,
               mo_lastHealthPersist := now, mo_active := True\<rparr>)"

subsection \<open>Writing measurements back\<close>

text \<open>The latency a member's state amounts to; \<open>None\<close> where it says nothing conclusive.\<close>

definition member_latency :: "member_view \<Rightarrow> int option" where
  "member_latency m =
     (if mv_profileID m < 0 \<or> ms_probes (mv_status m) = 0 then None
      else if isUsable m \<and> 0 < ms_average_ms (mv_status m) then Some (ms_average_ms (mv_status m))
      else if isDead m then Some (-1)
      else None)"

text \<open>The loop over the members: the profiles as changed in place, the ids to save.\<close>

fun persist_members :: "int \<Rightarrow> member_view list \<Rightarrow> profiles \<times> int list \<Rightarrow> profiles \<times> int list" where
  "persist_members now [] st = st"
| "persist_members now (m # ms) (P, dirty) = (case member_latency m of
     None \<Rightarrow> persist_members now ms (P, dirty)
   | Some latency \<Rightarrow> (case P (mv_profileID m) of
       None \<Rightarrow> persist_members now ms (P, dirty)
     | Some p \<Rightarrow>
         if pr_latency p = latency then persist_members now ms (P, dirty)
         else persist_members now ms
           (P(mv_profileID m \<mapsto> SetLatency now latency p), dirty @ [mv_profileID m])))"

definition PersistHealth :: "int \<Rightarrow> monitor \<Rightarrow> profiles \<Rightarrow> monitor \<times> profiles \<times> int list" where
  "PersistHealth now s P =
     (if \<not> mo_active s \<or> \<not> vw_valid (mo_view s) then (s, P, [])
      else if vw_suspended (mo_view s) then (s, P, [])
      else (s\<lparr>mo_lastHealthPersist := now\<rparr>,
            persist_members (now div 1000) (vw_members (mo_view s)) (P, [])))"

definition Clear_state :: "monitor \<Rightarrow> monitor" where
  "Clear_state s = s\<lparr>mo_active := False, mo_view := new_view, mo_tagToProfile := Map.empty,
     mo_tagToName := Map.empty, mo_exhaustedSince := 0, mo_groupTag := [], mo_profileID := -1\<rparr>"

definition monitor_Clear :: "int \<Rightarrow> monitor \<Rightarrow> profiles \<Rightarrow> monitor \<times> profiles \<times> int list" where
  "monitor_Clear now s P = (case PersistHealth now s P of (s, P, dirty) \<Rightarrow> (Clear_state s, P, dirty))"

subsection \<open>Requests\<close>

text \<open>What a recheck sends: the group's tag, when a selector is running.\<close>

definition RequestRecheck :: "monitor \<Rightarrow> string option" where
  "RequestRecheck s = (if mo_active s then Some (mo_groupTag s) else None)"

text \<open>
  The answer of the core to \<^verbatim>\<open>AutoSelectorAction\<close> is an argument: reachable, and its error text.
  The pin is stored with the selector as a profile id.
\<close>

definition RequestSelect ::
  "(string \<Rightarrow> string \<Rightarrow> bool \<times> string) \<Rightarrow> string \<Rightarrow> monitor \<Rightarrow> profiles \<Rightarrow> string \<times> profiles" where
  "RequestSelect action member s P =
     (if \<not> mo_active s then (''No auto selector is running.'', P)
      else let memberID = (if member = [] then -1
                           else case mo_tagToProfile s member of Some i \<Rightarrow> i | None \<Rightarrow> -1)
      in if member \<noteq> [] \<and> memberID < 0 then (''That profile is not in the running pool.'', P)
      else let (ok, err) = action (mo_groupTag s) member
      in if \<not> ok then (''Could not reach the core.'', P)
      else if err \<noteq> [] then (err, P)
      else ([], case P (mo_profileID s) of
          None \<Rightarrow> P
        | Some p \<Rightarrow> (case AutoSelector_of p of
            None \<Rightarrow> P
          | Some sel \<Rightarrow>
              if as_pinnedID sel = memberID then P
              else P(mo_profileID s \<mapsto> put_selector (sel\<lparr>as_pinnedID := memberID\<rparr>) p))))"

subsection \<open>The poll\<close>

definition poll_tag :: "monitor \<Rightarrow> string option" where
  "poll_tag s = (if mo_active s then Some (mo_groupTag s) else None)"

definition poll_status :: "group_status list \<Rightarrow> string \<Rightarrow> group_status option" where
  "poll_status groups wanted = find (\<lambda>g. gs_tag g = wanted) groups"

definition status_view :: "int \<Rightarrow> string \<Rightarrow> group_status \<Rightarrow> view" where
  "status_view now wanted g = new_view\<lparr>vw_valid := True, vw_groupTag := wanted, vw_phase := gs_phase g,
     vw_selectedTag := gs_selected g, vw_pinnedTag := gs_pinned g, vw_balance := gs_balance g,
     vw_balanceMode := gs_balance_mode g, vw_suspended := gs_suspended g,
     vw_suspendedSinceMs := gs_suspended_since_ms g, vw_membersTotal := gs_members_total g,
     vw_membersProbed := gs_members_probed g, vw_membersAlive := gs_members_alive g,
     vw_membersQualified := gs_members_qualified g, vw_membersCooldown := gs_members_cooldown g,
     vw_probesInFlight := gs_probes_in_flight g, vw_roundsCompleted := gs_rounds_completed g,
     vw_lastRoundMs := gs_last_round_ms g, vw_nextRoundMs := gs_next_round_ms g,
     vw_lastSwitchMs := gs_last_switch_ms g, vw_lastSwitchReason := gs_last_switch_reason g,
     vw_updatedAtMs := now\<rparr>"

definition resolve_member :: "monitor \<Rightarrow> string \<Rightarrow> member_status \<Rightarrow> member_view" where
  "resolve_member s pinnedTag m = \<lparr>mv_status = m,
     mv_profileID = (case mo_tagToProfile s (ms_tag m) of Some i \<Rightarrow> i | None \<Rightarrow> -1),
     mv_name = (case mo_tagToName s (ms_tag m) of Some n \<Rightarrow> n | None \<Rightarrow> []),
     mv_pinned = (pinnedTag \<noteq> [] \<and> ms_tag m = pinnedTag)\<rparr>"

fun resolve_members :: "monitor \<Rightarrow> member_status list \<Rightarrow> view \<times> nat \<Rightarrow> view \<times> nat" where
  "resolve_members s [] st = st"
| "resolve_members s (m # ms) (nxt, usable) =
     (let entry = resolve_member s (vw_pinnedTag nxt) m;
          nxt = (if ms_selected m
                  then nxt\<lparr>vw_selectedName := mv_name entry, vw_selectedProfileID := mv_profileID entry\<rparr>
                  else nxt);
          nxt = (if mv_pinned entry then nxt\<lparr>vw_pinnedName := mv_name entry\<rparr> else nxt);
          usable = (if isUsable entry \<or> ms_state m = ''untested'' then Suc usable else usable)
      in resolve_members s ms (nxt\<lparr>vw_members := vw_members nxt @ [entry]\<rparr>, usable))"

definition poll_resolve :: "int \<Rightarrow> string \<Rightarrow> group_status \<Rightarrow> monitor \<Rightarrow> view \<times> nat" where
  "poll_resolve now wanted g s =
     resolve_members s (gs_members g) ((status_view now wanted g)\<lparr>vw_profileID := mo_profileID s\<rparr>, 0)"

definition everythingDead :: "view \<Rightarrow> nat \<Rightarrow> bool" where
  "everythingDead nxt usable \<longleftrightarrow>
     usable = 0 \<and> 0 < vw_membersProbed nxt \<and> \<not> vw_suspended nxt \<and> vw_phase nxt \<noteq> ''starting''"

text \<open>The last locked section: the countdown, the back-off ladder, the published view.\<close>

definition start_countdown :: "int \<Rightarrow> view \<Rightarrow> nat \<Rightarrow> monitor \<Rightarrow> monitor" where
  "start_countdown now nxt usable s =
     (if \<not> everythingDead nxt usable then s\<lparr>mo_exhaustedSince := 0\<rparr>
      else if mo_exhaustedSince s = 0 then s\<lparr>mo_exhaustedSince := now\<rparr>
      else s)"

definition may_rebuild :: "int \<Rightarrow> monitor \<Rightarrow> bool" where
  "may_rebuild now s \<longleftrightarrow>
     mo_exhaustedSince s \<noteq> 0 \<and> kPoolExhaustedGraceSecs * 1000 \<le> now - mo_exhaustedSince s \<and>
     (mo_lastRebuildRequest s = 0 \<or> mo_rebuildBackoffSecs s * 1000 \<le> now - mo_lastRebuildRequest s)"

definition next_backoff :: "int \<Rightarrow> int" where
  "next_backoff b = (if b = 0 then kRebuildBackoffMinSecs else min (b * 2) kRebuildBackoffMaxSecs)"

text \<open>
  The last locked section. Its flag is the decision, not yet the request: \<open>poll\<close> below emits one only if
  the default route shows that there is a network.
\<close>

definition poll_decide :: "int \<Rightarrow> view \<Rightarrow> nat \<Rightarrow> monitor \<Rightarrow> (monitor \<times> bool) option" where
  "poll_decide now nxt usable s =
     (if \<not> mo_active s then None
      else let s = start_countdown now nxt usable s;
           nxt = nxt\<lparr>vw_exhaustedSinceMs := mo_exhaustedSince s\<rparr>;
           fire = may_rebuild now s;
           s = (if fire then s\<lparr>mo_lastRebuildRequest := now,
                  mo_rebuildBackoffSecs := next_backoff (mo_rebuildBackoffSecs s),
                  mo_exhaustedSince := 0\<rparr> else s);
           s = (if 0 < usable then s\<lparr>mo_rebuildBackoffSecs := 0\<rparr> else s)
      in Some (s\<lparr>mo_view := nxt\<rparr>, fire))"

text \<open>After the sections: write back now and then, and check the default route before signalling.\<close>

definition persist_due :: "int \<Rightarrow> monitor \<Rightarrow> bool" where
  "persist_due now s \<longleftrightarrow> kHealthPersistSecs * 1000 \<le> now - mo_lastHealthPersist s"

definition signals_exhausted :: "bool \<Rightarrow> bool \<times> string \<Rightarrow> bool" where
  "signals_exhausted fire iface \<longleftrightarrow> fire \<and> \<not> (fst iface \<and> snd iface = [])"

text \<open>
  A whole poll that no other thread interrupts: the answer of the core, three clock readings, the
  default interface; the new state, the profiles written, the exhausted selector if signalled.
\<close>

definition poll ::
  "bool \<times> group_status list \<Rightarrow> int \<Rightarrow> int \<Rightarrow> int \<Rightarrow> bool \<times> string \<Rightarrow> monitor \<Rightarrow> profiles \<Rightarrow>
   monitor \<times> profiles \<times> int option" where
  "poll resp t1 t2 t3 iface s P =
     (if \<not> fst resp then (s, P, None)
      else case poll_tag s of
        None \<Rightarrow> (s, P, None)
      | Some wanted \<Rightarrow> (case poll_status (snd resp) wanted of
          None \<Rightarrow> (s, P, None)
        | Some g \<Rightarrow>
            let (nxt, usable) = poll_resolve t1 wanted g s
            in case poll_decide t2 nxt usable s of
              None \<Rightarrow> (s, P, None)
            | Some (s, fire) \<Rightarrow>
                let (s, P) = (if persist_due t2 s
                              then (case PersistHealth t3 s P of (s, P, dirty) \<Rightarrow> (s, P))
                              else (s, P))
                in (s, P, if signals_exhausted fire iface then Some (vw_profileID nxt) else None)))"

subsection \<open>Interleavings\<close>

text \<open>
  Where the polling thread is between two locked sections, and what an observer sees: polls that
  counted a usable member (with whether one really works, or is merely untested), and requests
  for a rebuild, with their times.
\<close>

datatype poll_pc = Idle | Tagged string "group_status list" | Resolved view nat

datatype observation = Working int bool | Fired int

record system =
  sy_monitor :: monitor
  sy_pc :: poll_pc
  sy_clock :: int
  sy_seen :: "observation list" \<comment> \<open>newest first\<close>

inductive mon_step :: "system \<Rightarrow> system \<Rightarrow> bool" where
  build: "sy_clock y \<le> now \<Longrightarrow>
    mon_step y (y\<lparr>sy_monitor := SetBuild now infos (sy_monitor y), sy_clock := now\<rparr>)"
| clear: "mon_step y (y\<lparr>sy_monitor := Clear_state (sy_monitor y)\<rparr>)"
| persist: "sy_clock y \<le> now \<Longrightarrow>
    mon_step y (y\<lparr>sy_monitor := fst (PersistHealth now (sy_monitor y) P), sy_clock := now\<rparr>)"
| answer: "sy_pc y = Idle \<Longrightarrow> poll_tag (sy_monitor y) = Some tag \<Longrightarrow>
    mon_step y (y\<lparr>sy_pc := Tagged tag groups\<rparr>)"
| no_status: "sy_pc y = Tagged tag groups \<Longrightarrow> poll_status groups tag = None \<Longrightarrow>
    mon_step y (y\<lparr>sy_pc := Idle\<rparr>)"
| resolve: "sy_pc y = Tagged tag groups \<Longrightarrow> poll_status groups tag = Some g \<Longrightarrow> sy_clock y \<le> now \<Longrightarrow>
    poll_resolve now tag g (sy_monitor y) = (nxt, usable) \<Longrightarrow>
    mon_step y (y\<lparr>sy_pc := Resolved nxt usable, sy_clock := now\<rparr>)"
| stopped: "sy_pc y = Resolved nxt usable \<Longrightarrow> sy_clock y \<le> now \<Longrightarrow>
    poll_decide now nxt usable (sy_monitor y) = None \<Longrightarrow>
    mon_step y (y\<lparr>sy_pc := Idle, sy_clock := now\<rparr>)"
| decide: "sy_pc y = Resolved nxt usable \<Longrightarrow> sy_clock y \<le> now \<Longrightarrow>
    poll_decide now nxt usable (sy_monitor y) = Some (s, fire) \<Longrightarrow>
    mon_step y (y\<lparr>sy_pc := Idle, sy_clock := now, sy_monitor := s,
      sy_seen := (if fire then Fired now # sy_seen y
                  else if 0 < usable then Working now (list_ex isUsable (vw_members nxt)) # sy_seen y
                  else sy_seen y)\<rparr>)"

inductive reachable :: "system \<Rightarrow> bool" where
  start: "0 < t \<Longrightarrow> reachable \<lparr>sy_monitor = new_monitor, sy_pc = Idle, sy_clock = t, sy_seen = []\<rparr>"
| step: "reachable y \<Longrightarrow> mon_step y z \<Longrightarrow> reachable z"

inductive_cases mon_stepE: "mon_step y z"

text \<open>The last request, the requests since a poll last found a usable member, and their ladder.\<close>

fun last_fire :: "observation list \<Rightarrow> int" where
  "last_fire [] = 0"
| "last_fire (Fired t # es) = t"
| "last_fire (Working t w # es) = last_fire es"

fun streak :: "observation list \<Rightarrow> nat" where
  "streak [] = 0"
| "streak (Fired t # es) = Suc (streak es)"
| "streak (Working t w # es) = 0"

definition ladder :: "nat \<Rightarrow> int" where
  "ladder k = (if k = 0 then 0 else min (60 * 2 ^ (k - 1)) 600)"

lemma ladder_bounds: "0 \<le> ladder k" "ladder k \<le> 600" "ladder k = 0 \<longleftrightarrow> k = 0"
  by (auto simp: ladder_def min_def)

lemma ladder_next: "next_backoff (ladder k) = ladder (Suc k)"
proof (cases k)
  case 0
  then show ?thesis by (simp add: next_backoff_def ladder_def monitor_constants)
next
  case (Suc n)
  then show ?thesis
    using ladder_bounds(3) [of k] by (simp add: next_backoff_def monitor_constants) (simp add: ladder_def min_def)
qed

text \<open>Requests follow each other no faster than the grace period and the ladder allow.\<close>

fun spaced :: "observation list \<Rightarrow> bool" where
  "spaced [] \<longleftrightarrow> True"
| "spaced (Working t w # es) \<longleftrightarrow> spaced es"
| "spaced (Fired t # es) \<longleftrightarrow> spaced es \<and>
     (last_fire es \<noteq> 0 \<longrightarrow> 1000 * max kPoolExhaustedGraceSecs (ladder (streak es)) \<le> t - last_fire es)"

definition monitor_inv :: "system \<Rightarrow> bool" where
  "monitor_inv y \<longleftrightarrow>
     0 < sy_clock y \<and> 0 \<le> mo_exhaustedSince (sy_monitor y) \<and> mo_exhaustedSince (sy_monitor y) \<le> sy_clock y \<and>
     mo_rebuildBackoffSecs (sy_monitor y) = ladder (streak (sy_seen y)) \<and>
     mo_lastRebuildRequest (sy_monitor y) = last_fire (sy_seen y) \<and>
     0 \<le> last_fire (sy_seen y) \<and> last_fire (sy_seen y) \<le> sy_clock y \<and>
     (mo_exhaustedSince (sy_monitor y) \<noteq> 0 \<longrightarrow> last_fire (sy_seen y) \<le> mo_exhaustedSince (sy_monitor y)) \<and>
     spaced (sy_seen y)"

lemma SetBuild_ladder [simp]:
  "mo_exhaustedSince (SetBuild now infos s) = 0"
  "mo_rebuildBackoffSecs (SetBuild now infos s) = mo_rebuildBackoffSecs s"
  "mo_lastRebuildRequest (SetBuild now infos s) = mo_lastRebuildRequest s"
  by (simp_all add: SetBuild_def Let_def split: list.splits prod.splits)

lemma Clear_ladder [simp]:
  "mo_exhaustedSince (Clear_state s) = 0"
  "mo_rebuildBackoffSecs (Clear_state s) = mo_rebuildBackoffSecs s"
  "mo_lastRebuildRequest (Clear_state s) = mo_lastRebuildRequest s"
  by (simp_all add: Clear_state_def)

lemma PersistHealth_ladder [simp]:
  "mo_exhaustedSince (fst (PersistHealth now s P)) = mo_exhaustedSince s"
  "mo_rebuildBackoffSecs (fst (PersistHealth now s P)) = mo_rebuildBackoffSecs s"
  "mo_lastRebuildRequest (fst (PersistHealth now s P)) = mo_lastRebuildRequest s"
  by (simp_all add: PersistHealth_def)

lemma decide_cases:
  assumes "poll_decide now nxt usable s = Some (s', fire)"
  obtains (alive) "\<not> everythingDead nxt usable" "\<not> fire" "mo_exhaustedSince s' = 0"
      "mo_rebuildBackoffSecs s' = (if 0 < usable then 0 else mo_rebuildBackoffSecs s)"
      "mo_lastRebuildRequest s' = mo_lastRebuildRequest s"
    | (waiting) "everythingDead nxt usable" "\<not> fire"
      "mo_exhaustedSince s' = (if mo_exhaustedSince s = 0 then now else mo_exhaustedSince s)"
      "mo_rebuildBackoffSecs s' = mo_rebuildBackoffSecs s" "mo_lastRebuildRequest s' = mo_lastRebuildRequest s"
      "\<not> may_rebuild now (start_countdown now nxt usable s)"
    | (firing) "everythingDead nxt usable" "fire" "mo_exhaustedSince s' = 0"
      "mo_rebuildBackoffSecs s' = next_backoff (mo_rebuildBackoffSecs s)" "mo_lastRebuildRequest s' = now"
      "may_rebuild now (start_countdown now nxt usable s)" "mo_exhaustedSince s \<noteq> 0"
proof -
  let ?c = "start_countdown now nxt usable s"
  have s': "fire = may_rebuild now ?c"
      "mo_exhaustedSince s' = (if fire then 0 else mo_exhaustedSince ?c)"
      "mo_rebuildBackoffSecs s' = (if 0 < usable then 0 else if fire
         then next_backoff (mo_rebuildBackoffSecs s) else mo_rebuildBackoffSecs s)"
      "mo_lastRebuildRequest s' = (if fire then now else mo_lastRebuildRequest s)"
    using assms by (auto simp: poll_decide_def Let_def start_countdown_def split: if_splits)
  show thesis
  proof (cases "everythingDead nxt usable")
    case False
    then have "\<not> fire" using s'(1) by (simp add: may_rebuild_def start_countdown_def)
    with False s' show thesis by (intro alive) (simp_all add: start_countdown_def)
  next
    case True
    then have u: "usable = 0" by (simp add: everythingDead_def)
    show thesis
    proof (cases fire)
      case True
      then have "mo_exhaustedSince s \<noteq> 0"
        using s'(1) \<open>everythingDead nxt usable\<close>
        by (auto simp: may_rebuild_def start_countdown_def kPoolExhaustedGraceSecs_def split: if_splits)
      with True s' u \<open>everythingDead nxt usable\<close> show thesis by (intro firing) simp_all
    next
      case False
      with s' u \<open>everythingDead nxt usable\<close> show thesis by (intro waiting) (simp_all add: start_countdown_def)
    qed
  qed
qed

lemma monitor_inv_step: "mon_step y z \<Longrightarrow> monitor_inv y \<Longrightarrow> monitor_inv z"
proof (induction rule: mon_step.induct)
  case (decide y nxt usable now s fire)
  from decide(3) show ?case
  proof (cases rule: decide_cases)
    case alive
    with decide show ?thesis by (auto simp: monitor_inv_def ladder_def)
  next
    case waiting
    then have "usable = 0" by (simp add: everythingDead_def)
    with waiting decide show ?thesis by (auto simp: monitor_inv_def)
  next
    case firing
    then have "may_rebuild now (sy_monitor y)" by (simp add: start_countdown_def)
    with firing decide show ?thesis
      by (auto simp: monitor_inv_def ladder_next may_rebuild_def)
  qed
qed (auto simp: monitor_inv_def)

lemma monitor_inv_reachable: "reachable y \<Longrightarrow> monitor_inv y"
proof (induction rule: reachable.induct)
  case (start t)
  then show ?case by (simp add: monitor_inv_def new_monitor_def ladder_def)
next
  case (step y z)
  then show ?case by (blast intro: monitor_inv_step)
qed

end
