(* ===== verification/AutoSelectorMonitorProps.thy ===== *)
theory AutoSelectorMonitorProps
  imports AutoSelectorMonitor
begin

text \<open>
  What the monitor guarantees whatever its two threads do: rebuilds are requested only on
  evidence, no faster than the ladder allows, and eventually; measurements are written back only
  when conclusive. Two scenarios show what it does not guarantee.
\<close>

text \<open>
  C7: In every interleaving of polls with builds, stops and write-backs, two requests for a rebuild
  are at least the grace period apart, and at least sixty seconds, doubled with every request up
  to ten minutes, as long as no poll in between found a usable or untested member.
\<close>

theorem rebuilds_spaced:
  assumes "reachable y"
  shows "spaced (sy_seen y) \<and> mo_rebuildBackoffSecs (sy_monitor y) = ladder (streak (sy_seen y)) \<and>
    mo_rebuildBackoffSecs (sy_monitor y) \<in> {0, 60, 120, 240, 480, 600}"
proof -
  have "monitor_inv y" using assms by (rule monitor_inv_reachable)
  moreover have "ladder k \<in> {0, 60, 120, 240, 480, 600}" for k
  proof (cases "k < 5")
    case True
    then have "k \<in> {0, 1, 2, 3, 4}" by auto
    then show ?thesis by (auto simp: ladder_def)
  next
    case False
    then have "(2 :: int) ^ 4 \<le> 2 ^ (k - 1)" by (intro power_increasing) auto
    then show ?thesis using False by (simp add: ladder_def min_def)
  qed
  ultimately show ?thesis by (auto simp: monitor_inv_def)
qed

subsection \<open>A run\<close>

text \<open>One selector with one member; the core reports the member dead, or not yet tested.\<close>

definition demo_member :: "string \<Rightarrow> member_status" where
  "demo_member state = \<lparr>ms_tag = ''m0'', ms_rank = 1, ms_state = state, ms_selected = False,
     ms_selected_udp = False, ms_qualified = False, ms_active = False, ms_average_ms = 0,
     ms_deviation_ms = 0, ms_min_ms = 0, ms_max_ms = 0, ms_samples = 0, ms_failures = 0, ms_probes = 3,
     ms_dial_total = 0, ms_dial_fail = 0, ms_last_ok_ms = 0, ms_last_probe_ms = 0,
     ms_cooldown_until_ms = 0, ms_last_error = []\<rparr>"

definition demo_status :: "string \<Rightarrow> string \<Rightarrow> group_status" where
  "demo_status tag state = \<lparr>gs_tag = tag, gs_phase = ''probing'', gs_selected = [], gs_pinned = [],
     gs_balance = False, gs_balance_mode = [], gs_suspended = False, gs_suspended_since_ms = 0,
     gs_members_total = 1, gs_members_probed = 1, gs_members_alive = 0, gs_members_qualified = 0,
     gs_members_cooldown = 0, gs_probes_in_flight = 0, gs_rounds_completed = 0, gs_last_round_ms = 0,
     gs_next_round_ms = 0, gs_last_switch_ms = 0, gs_last_switch_reason = [],
     gs_members = [demo_member state]\<rparr>"

definition demo_build :: "string \<Rightarrow> build_info" where
  "demo_build tag = \<lparr>bi_groupTag = tag, bi_profile = Some (new_profile\<lparr>pr_id := 5\<rparr>),
     bi_members = [(''m0'', Some (new_profile\<lparr>pr_id := 7\<rparr>))]\<rparr>"

text \<open>A full poll at one instant.\<close>

definition demo_poll :: "int \<Rightarrow> string \<Rightarrow> string \<Rightarrow> monitor \<Rightarrow> monitor \<times> bool" where
  "demo_poll now tag state s =
     (case poll_resolve now tag (demo_status tag state) s of
        (nxt, usable) \<Rightarrow> the (poll_decide now nxt usable s))"

lemma demo_poll_steps:
  assumes "reachable \<lparr>sy_monitor = s, sy_pc = Idle, sy_clock = c, sy_seen = es\<rparr>"
    and "mo_active s" and "mo_groupTag s = tag" and "c \<le> now"
    and "poll_resolve now tag (demo_status tag state) s = (nxt, usable)"
  shows "reachable \<lparr>sy_monitor = fst (demo_poll now tag state s), sy_pc = Idle, sy_clock = now,
      sy_seen = (if snd (demo_poll now tag state s) then Fired now # es
        else if 0 < usable then Working now (list_ex isUsable (vw_members nxt)) # es else es)\<rparr>"
proof -
  obtain s' fire where d: "poll_decide now nxt usable s = Some (s', fire)"
    using assms(2) by (simp add: poll_decide_def Let_def)
  have "poll_tag s = Some tag" using assms(2,3) by (simp add: poll_tag_def)
  then have 1: "reachable \<lparr>sy_monitor = s, sy_pc = Tagged tag [demo_status tag state], sy_clock = c, sy_seen = es\<rparr>"
    using reachable.step [OF assms(1) mon_step.answer [where tag = tag and groups = "[demo_status tag state]"]]
    by simp
  have "poll_status [demo_status tag state] tag = Some (demo_status tag state)"
    by (simp add: poll_status_def demo_status_def)
  then have 2: "reachable \<lparr>sy_monitor = s, sy_pc = Resolved nxt usable, sy_clock = now, sy_seen = es\<rparr>"
    using reachable.step [OF 1 mon_step.resolve [where now = now and tag = tag
        and groups = "[demo_status tag state]" and nxt = nxt and usable = usable]] assms(4,5) by simp
  have "demo_poll now tag state s = (s', fire)" by (simp add: demo_poll_def assms(5) d)
  then show ?thesis
    using reachable.step [OF 2 mon_step.decide [where now = now and s = s' and fire = fire
        and nxt = nxt and usable = usable]] d by (simp cong: if_cong)
qed

definition run1 :: monitor where "run1 = SetBuild 100 [demo_build ''a''] new_monitor"
definition run2 :: monitor where "run2 = fst (demo_poll 1000 ''a'' ''dead'' run1)"
definition run3 :: monitor where "run3 = fst (demo_poll 21000 ''a'' ''dead'' run2)"
definition run4 :: monitor where "run4 = SetBuild 21500 [demo_build ''a''] run3"
definition run5 :: monitor where "run5 = fst (demo_poll 22000 ''a'' ''untested'' run4)"
definition run6 :: monitor where "run6 = fst (demo_poll 23000 ''a'' ''dead'' run5)"
definition run7 :: monitor where "run7 = fst (demo_poll 43000 ''a'' ''dead'' run6)"

lemma run_active:
  "mo_active run1" "mo_active run2" "mo_active run4" "mo_active run5" "mo_active run6"
  by code_simp+

lemma run_tags:
  "mo_groupTag run1 = ''a''" "mo_groupTag run2 = ''a''" "mo_groupTag run4 = ''a''"
  "mo_groupTag run5 = ''a''" "mo_groupTag run6 = ''a''"
  by code_simp+

lemma run_fires:
  "\<not> snd (demo_poll 1000 ''a'' ''dead'' run1)" "snd (demo_poll 21000 ''a'' ''dead'' run2)"
  "\<not> snd (demo_poll 22000 ''a'' ''untested'' run4)" "\<not> snd (demo_poll 23000 ''a'' ''dead'' run5)"
  "snd (demo_poll 43000 ''a'' ''dead'' run6)"
  by code_simp+

lemma dead_usable: "snd (poll_resolve now tag (demo_status tag ''dead'') s) = 0"
  by (simp add: poll_resolve_def demo_status_def demo_member_def resolve_member_def isUsable_def Let_def
      split: option.splits)

lemma untested_usable:
  "snd (poll_resolve now tag (demo_status tag ''untested'') s) = 1"
  "\<not> list_ex isUsable (vw_members (fst (poll_resolve now tag (demo_status tag ''untested'') s)))"
  by (simp_all add: poll_resolve_def demo_status_def demo_member_def resolve_member_def isUsable_def Let_def
      status_view_def new_view_def)

lemma dead_step:
  assumes "reachable \<lparr>sy_monitor = s, sy_pc = Idle, sy_clock = c, sy_seen = es\<rparr>"
    and "mo_active s" and "mo_groupTag s = ''a''" and "c \<le> now"
  shows "reachable \<lparr>sy_monitor = fst (demo_poll now ''a'' ''dead'' s), sy_pc = Idle, sy_clock = now,
      sy_seen = (if snd (demo_poll now ''a'' ''dead'' s) then Fired now # es else es)\<rparr>"
  using demo_poll_steps [where state = "''dead''", OF assms surjective_pairing]
  by (simp add: dead_usable cong: if_cong)

lemma untested_step:
  assumes "reachable \<lparr>sy_monitor = s, sy_pc = Idle, sy_clock = c, sy_seen = es\<rparr>"
    and "mo_active s" and "mo_groupTag s = ''a''" and "c \<le> now"
    and "\<not> snd (demo_poll now ''a'' ''untested'' s)"
  shows "reachable \<lparr>sy_monitor = fst (demo_poll now ''a'' ''untested'' s), sy_pc = Idle, sy_clock = now,
      sy_seen = Working now False # es\<rparr>"
  using demo_poll_steps [where state = "''untested''", OF assms(1-4) surjective_pairing] assms(5)
  by (simp add: untested_usable)

lemma reach1: "reachable \<lparr>sy_monitor = run1, sy_pc = Idle, sy_clock = 100, sy_seen = []\<rparr>"
  using reachable.step [OF reachable.start [of 1] mon_step.build [where now = 100 and infos = "[demo_build ''a'']"]]
  by (simp add: run1_def)

lemma reach3: "reachable \<lparr>sy_monitor = run3, sy_pc = Idle, sy_clock = 21000, sy_seen = [Fired 21000]\<rparr>"
  using dead_step [OF dead_step [OF reach1 run_active(1) run_tags(1), of 1000, folded run2_def]
      run_active(2) run_tags(2), of 21000, folded run3_def] run_fires(1,2) by simp

text \<open>
  C34: The floor between rebuilds does not survive a rebuild: a freshly built pool is untested,
  untested members count as usable and reset the ladder, and so a pool in which no member ever
  works is declared exhausted again 22 seconds after the previous request.
\<close>

theorem untested_pool_voids_floor:
  "\<exists>y. reachable y \<and> sy_seen y = [Fired 43000, Working 22000 False, Fired 21000] \<and>
     43000 - 21000 < kRebuildBackoffMinSecs * 1000"
proof -
  have 4: "reachable \<lparr>sy_monitor = run4, sy_pc = Idle, sy_clock = 21500, sy_seen = [Fired 21000]\<rparr>"
    using reachable.step [OF reach3 mon_step.build [where now = 21500 and infos = "[demo_build ''a'']"]]
    by (simp add: run4_def)
  have 5: "reachable \<lparr>sy_monitor = run5, sy_pc = Idle, sy_clock = 22000, sy_seen = [Working 22000 False, Fired 21000]\<rparr>"
    using untested_step [OF 4 run_active(3) run_tags(3), of 22000, folded run5_def] run_fires(3) by simp
  have 7: "reachable \<lparr>sy_monitor = run7, sy_pc = Idle, sy_clock = 43000,
      sy_seen = [Fired 43000, Working 22000 False, Fired 21000]\<rparr>"
    using dead_step [OF dead_step [OF 5 run_active(4) run_tags(4), of 23000, folded run6_def]
        run_active(5) run_tags(5), of 43000, folded run7_def] run_fires(4,5) by simp
  show ?thesis
    by (rule exI, rule conjI [OF 7]) (simp add: kRebuildBackoffMinSecs_def)
qed

theorem rebuilds_spaced_witness:
  "spaced [Fired 21000] \<and> mo_rebuildBackoffSecs run3 = ladder 1"
  using rebuilds_spaced [OF reach3] by simp

text \<open>
  C35: A build that starts while a poll is under way does not invalidate it: the answer for the old
  group is then published as the view of the new one, because the last section checks only that
  some selector is active.
\<close>

theorem stale_answer_published:
  "\<exists>y. reachable y \<and> sy_pc y = Idle \<and> mo_active (sy_monitor y) \<and>
     mo_groupTag (sy_monitor y) = ''b'' \<and> vw_groupTag (mo_view (sy_monitor y)) = ''a''"
proof -
  have 1: "reachable \<lparr>sy_monitor = run1, sy_pc = Tagged ''a'' [demo_status ''a'' ''dead''], sy_clock = 100, sy_seen = []\<rparr>"
    using reachable.step [OF reach1 mon_step.answer [where tag = "''a''" and groups = "[demo_status ''a'' ''dead'']"]]
      run_active(1) run_tags(1) by (simp add: poll_tag_def)
  define nb where "nb = SetBuild 200 [demo_build ''b''] run1"
  have 2: "reachable \<lparr>sy_monitor = nb, sy_pc = Tagged ''a'' [demo_status ''a'' ''dead''], sy_clock = 200, sy_seen = []\<rparr>"
    using reachable.step [OF 1 mon_step.build [where now = 200 and infos = "[demo_build ''b'']"]]
    by (simp add: nb_def)
  obtain nxt usable where r: "poll_resolve 200 ''a'' (demo_status ''a'' ''dead'') nb = (nxt, usable)"
    by (meson surj_pair)
  have tag: "vw_groupTag nxt = ''a''"
    using arg_cong [OF r, of "\<lambda>p. vw_groupTag (fst p)"]
    by (simp add: poll_resolve_def demo_status_def demo_member_def status_view_def new_view_def
        Let_def resolve_member_def)
  have 3: "reachable \<lparr>sy_monitor = nb, sy_pc = Resolved nxt usable, sy_clock = 200, sy_seen = []\<rparr>"
    using reachable.step [OF 2 mon_step.resolve [where now = 200 and tag = "''a''" and nxt = nxt and usable = usable
        and groups = "[demo_status ''a'' ''dead'']" and g = "demo_status ''a'' ''dead''"]] r
    by (simp add: poll_status_def demo_status_def)
  have nb: "mo_active nb" "mo_groupTag nb = ''b''" unfolding nb_def run1_def by code_simp+
  then obtain s fire where d: "poll_decide 200 nxt usable nb = Some (s, fire)"
    by (simp add: poll_decide_def Let_def)
  have s: "mo_active s" "mo_groupTag s = ''b''" "vw_groupTag (mo_view s) = ''a''"
    using d nb tag by (auto simp: poll_decide_def Let_def start_countdown_def split: if_splits)
  show ?thesis
    using reachable.step [OF 3 mon_step.decide [where now = 200 and s = s and fire = fire and nxt = nxt and usable = usable]]
      d s by fastforce
qed

subsection \<open>Decisions\<close>

text \<open>A poll as the loop runs it, with what it gets from outside: the core's answer, clocks, the default route.\<close>

record poll_input =
  pi_resp :: "bool \<times> group_status list"
  pi_read :: int
  pi_now :: int
  pi_saved :: int
  pi_iface :: "bool \<times> string"

fun poll_run :: "poll_input list \<Rightarrow> monitor \<times> profiles \<Rightarrow> monitor \<times> profiles \<times> int list" where
  "poll_run [] (s, P) = (s, P, [])"
| "poll_run (i # is) (s, P) =
     (case poll (pi_resp i) (pi_read i) (pi_now i) (pi_saved i) (pi_iface i) s P of (s, P, request) \<Rightarrow>
        (case poll_run is (s, P) of (s, P, requests) \<Rightarrow>
           (s, P, (case request of None \<Rightarrow> [] | Some k \<Rightarrow> [k]) @ requests)))"

text \<open>
  The core answers and reports the group of \<open>tag\<close> dead: running and not suspended, with members
  measured, none of which answers or is still untested.
\<close>

definition reports_dead :: "string \<Rightarrow> poll_input \<Rightarrow> bool" where
  "reports_dead tag i \<longleftrightarrow> fst (pi_resp i) \<and> (\<exists>g. poll_status (snd (pi_resp i)) tag = Some g \<and>
     (\<forall>m\<in>set (gs_members g). ms_state m \<notin> {''ok'', ''degraded'', ''untested''}) \<and> 0 < gs_members_probed g \<and>
     \<not> gs_suspended g \<and> gs_phase g \<noteq> ''starting'')"

text \<open>The operating system names a default route, or cannot be asked.\<close>

definition has_network :: "poll_input \<Rightarrow> bool" where
  "has_network i \<longleftrightarrow> \<not> (fst (pi_iface i) \<and> snd (pi_iface i) = [])"

lemma resolve_members_dead:
  "\<forall>m\<in>set ms. ms_state m \<notin> {''ok'', ''degraded'', ''untested''} \<Longrightarrow> resolve_members s ms (v, k) = (v', k') \<Longrightarrow>
   k' = k \<and> vw_membersProbed v' = vw_membersProbed v \<and> vw_suspended v' = vw_suspended v \<and> vw_phase v' = vw_phase v \<and>
   vw_profileID v' = vw_profileID v"
proof (induction ms arbitrary: v k)
  case (Cons m ms)
  have "\<not> isUsable (resolve_member s (vw_pinnedTag v) m)" using Cons.prems(1) by (simp add: isUsable_def resolve_member_def)
  then show ?case using Cons by (auto simp: Let_def split: if_splits)
qed simp

lemma decide_keeps:
  "poll_decide now nxt usable s = Some (s', fire) \<Longrightarrow>
   mo_active s' \<and> mo_groupTag s' = mo_groupTag s \<and> mo_profileID s' = mo_profileID s"
  by (auto simp: poll_decide_def Let_def start_countdown_def split: if_splits)

lemma PersistHealth_keeps:
  "PersistHealth now s P = (s', r) \<Longrightarrow> mo_active s' = mo_active s \<and> mo_groupTag s' = mo_groupTag s \<and>
   mo_profileID s' = mo_profileID s \<and> mo_exhaustedSince s' = mo_exhaustedSince s \<and>
   mo_rebuildBackoffSecs s' = mo_rebuildBackoffSecs s \<and> mo_lastRebuildRequest s' = mo_lastRebuildRequest s"
  by (auto simp: PersistHealth_def split: if_splits)

text \<open>A poll that finds the pool dead asks for a rebuild, or waits on with the ladder untouched.\<close>

lemma dead_poll:
  assumes "mo_active s" "reports_dead (mo_groupTag s) i" "has_network i"
  obtains s' P' where "poll (pi_resp i) (pi_read i) (pi_now i) (pi_saved i) (pi_iface i) s P = (s', P', Some (mo_profileID s))"
  | s' P' where "poll (pi_resp i) (pi_read i) (pi_now i) (pi_saved i) (pi_iface i) s P = (s', P', None)"
    "mo_active s'" "mo_groupTag s' = mo_groupTag s" "mo_profileID s' = mo_profileID s"
    "mo_exhaustedSince s' = (if mo_exhaustedSince s = 0 then pi_now i else mo_exhaustedSince s)"
    "mo_rebuildBackoffSecs s' = mo_rebuildBackoffSecs s" "mo_lastRebuildRequest s' = mo_lastRebuildRequest s"
    "\<not> may_rebuild (pi_now i) (s\<lparr>mo_exhaustedSince := if mo_exhaustedSince s = 0 then pi_now i else mo_exhaustedSince s\<rparr>)"
proof -
  obtain g where g: "fst (pi_resp i)" "poll_status (snd (pi_resp i)) (mo_groupTag s) = Some g"
    and dead: "\<forall>m\<in>set (gs_members g). ms_state m \<notin> {''ok'', ''degraded'', ''untested''}" "0 < gs_members_probed g"
      "\<not> gs_suspended g" "gs_phase g \<noteq> ''starting''"
    using assms(2) unfolding reports_dead_def by blast
  obtain nxt usable where r: "poll_resolve (pi_read i) (mo_groupTag s) g s = (nxt, usable)" by (metis prod.exhaust)
  have v: "everythingDead nxt usable" "vw_profileID nxt = mo_profileID s"
    using resolve_members_dead [OF dead(1) r [unfolded poll_resolve_def]] dead(2-4)
    by (simp_all add: everythingDead_def status_view_def)
  obtain s1 fire where d: "poll_decide (pi_now i) nxt usable s = Some (s1, fire)"
    using assms(1) by (simp add: poll_decide_def Let_def)
  define sP where "sP = (if persist_due (pi_now i) s1 then (case PersistHealth (pi_saved i) s1 P of (s, P, dirty) \<Rightarrow> (s, P)) else (s1, P))"
  obtain s' P' where sP: "sP = (s', P')" by (metis prod.exhaust)
  have keep: "mo_active s' = mo_active s1 \<and> mo_groupTag s' = mo_groupTag s1 \<and> mo_profileID s' = mo_profileID s1 \<and>
      mo_exhaustedSince s' = mo_exhaustedSince s1 \<and> mo_rebuildBackoffSecs s' = mo_rebuildBackoffSecs s1 \<and>
      mo_lastRebuildRequest s' = mo_lastRebuildRequest s1"
    using sP PersistHealth_keeps [of "pi_saved i" s1 P] by (auto simp: sP_def split: if_splits prod.splits)
  have poll: "poll (pi_resp i) (pi_read i) (pi_now i) (pi_saved i) (pi_iface i) s P =
      (s', P', if fire then Some (mo_profileID s) else None)"
    using g assms(1,3) sP v(2) by (auto simp: poll_def poll_tag_def r d sP_def signals_exhausted_def has_network_def
      split: prod.splits if_splits)
  from d show thesis
  proof (cases rule: decide_cases)
    case alive then show thesis using v(1) by simp
  next
    case firing then show thesis using that(1) poll by simp
  next
    case waiting
    have "start_countdown (pi_now i) nxt usable s =
        s\<lparr>mo_exhaustedSince := if mo_exhaustedSince s = 0 then pi_now i else mo_exhaustedSince s\<rparr>"
      using v(1) by (simp add: start_countdown_def)
    then show thesis using that(2) [of s' P'] poll waiting decide_keeps [OF d] keep by simp
  qed
qed

lemma dead_polls_fire:
  assumes "mo_active s" "\<forall>i\<in>set is. reports_dead (mo_groupTag s) i \<and> has_network i \<and> 0 < pi_now i"
    and "is \<noteq> []" and "0 < mo_exhaustedSince s" and "20000 \<le> pi_now (last is) - mo_exhaustedSince s"
    and "mo_lastRebuildRequest s = 0 \<or> mo_rebuildBackoffSecs s * 1000 \<le> pi_now (last is) - mo_lastRebuildRequest s"
  shows "mo_profileID s \<in> set (snd (snd (poll_run is (s, P))))"
  using assms
proof (induction "is" arbitrary: s P)
  case (Cons i "is")
  have i: "reports_dead (mo_groupTag s) i" "has_network i" using Cons.prems(2) by simp_all
  show ?case
  proof (cases rule: dead_poll [OF Cons.prems(1) i, of P])
    case (1 s' P')
    then show ?thesis by (simp split: prod.split)
  next
    case (2 s' P')
    have "is \<noteq> []"
    proof
      assume "is = []"
      then have "may_rebuild (pi_now i) (s\<lparr>mo_exhaustedSince := if mo_exhaustedSince s = 0 then pi_now i else mo_exhaustedSince s\<rparr>)"
        using Cons.prems(4-6) by (simp add: may_rebuild_def kPoolExhaustedGraceSecs_def)
      then show False using 2(8) by simp
    qed
    then have "mo_profileID s' \<in> set (snd (snd (poll_run is (s', P'))))"
      using Cons.IH [of s' P'] Cons.prems 2(2-7) by simp
    then show ?thesis using 2(1,4) by (simp split: prod.split)
  qed
qed simp

text \<open>
  C13: A pool that stays dead is given up. From any state the monitor can reach with a selector running,
  let polls follow one another without a build or a stop in between, each answered by the core with a
  report that finds the pool dead, on a machine that has a network (the operating system names a
  default route or cannot be asked). Then one of them asks for a rebuild of the running selector,
  at the latest the poll twenty seconds after the first one and ten minutes after the last request
  there has been.
\<close>

theorem dead_pool_is_rebuilt:
  assumes "reachable y" and "mo_active (sy_monitor y)" and "sy_clock y \<le> pi_now i"
    and "sorted (map pi_now (i # is))"
    and "\<forall>k\<in>set (i # is). reports_dead (mo_groupTag (sy_monitor y)) k \<and> has_network k"
    and "20000 \<le> pi_now (last (i # is)) - pi_now i"
    and "mo_lastRebuildRequest (sy_monitor y) = 0 \<or> 600000 \<le> pi_now (last (i # is)) - mo_lastRebuildRequest (sy_monitor y)"
  shows "mo_profileID (sy_monitor y) \<in> set (snd (snd (poll_run (i # is) (sy_monitor y, P))))"
proof -
  let ?s = "sy_monitor y"
  have inv: "monitor_inv y" using assms(1) by (rule monitor_inv_reachable)
  then have t0: "0 < pi_now i" "mo_exhaustedSince ?s \<le> pi_now i" "0 \<le> mo_exhaustedSince ?s"
    and b: "0 \<le> mo_rebuildBackoffSecs ?s" "mo_rebuildBackoffSecs ?s \<le> 600"
    using assms(3) ladder_bounds by (auto simp: monitor_inv_def)
  have i: "reports_dead (mo_groupTag ?s) i" "has_network i" using assms(5) by simp_all
  show ?thesis
  proof (cases rule: dead_poll [OF assms(2) i, of P])
    case (1 s' P')
    then show ?thesis by (simp split: prod.split)
  next
    case (2 s' P')
    have more: "is \<noteq> []" using assms(6) by auto
    have "mo_profileID s' \<in> set (snd (snd (poll_run is (s', P'))))"
    proof (rule dead_polls_fire [OF 2(2) _ more])
      show "\<forall>k\<in>set is. reports_dead (mo_groupTag s') k \<and> has_network k \<and> 0 < pi_now k"
        using assms(4,5) t0(1) 2(3) by fastforce
      show "0 < mo_exhaustedSince s'" "20000 \<le> pi_now (last is) - mo_exhaustedSince s'"
        using 2(5) t0 assms(6) more by auto
      show "mo_lastRebuildRequest s' = 0 \<or> mo_rebuildBackoffSecs s' * 1000 \<le> pi_now (last is) - mo_lastRebuildRequest s'"
        using 2(6,7) b assms(7) more by auto
    qed
    then show ?thesis using 2(1,4) by (simp split: prod.split)
  qed
qed

definition demo_input :: "int \<Rightarrow> poll_input" where
  "demo_input t = \<lparr>pi_resp = (True, [demo_status ''a'' ''dead'']), pi_read = t, pi_now = t, pi_saved = t, pi_iface = (True, ''eth0'')\<rparr>"

theorem dead_pool_is_rebuilt_witness:
  "5 \<in> set (snd (snd (poll_run [demo_input 1000, demo_input 21000] (run1, Map.empty))))"
proof -
  have "mo_active run1" "mo_lastRebuildRequest run1 = 0" "mo_profileID run1 = 5" "mo_groupTag run1 = ''a''" by code_simp+
  moreover have "reports_dead ''a'' (demo_input t)" "has_network (demo_input t)" "pi_now (demo_input t) = t" for t
    by (simp_all add: reports_dead_def has_network_def demo_input_def poll_status_def demo_status_def demo_member_def)
  ultimately show ?thesis
    using dead_pool_is_rebuilt [OF reach1, of "demo_input 1000" "[demo_input 21000]" Map.empty] by simp
qed

subsection \<open>Write-back\<close>

lemma SetLatency_twice [simp]: "SetLatency now l (SetLatency now l' p) = SetLatency now l p"
  by (simp add: SetLatency_def)

text \<open>
  What the core knows for sure of a profile, member by member: the average of one that answers, -1 for
  one whose every sample failed. A member without a profile or not probed yet says nothing.
\<close>

definition conclusive :: "member_view \<Rightarrow> int list" where
  "conclusive m =
     (if 0 \<le> mv_profileID m \<and> ms_probes (mv_status m) \<noteq> 0 then
        (if isUsable m \<and> 0 < ms_average_ms (mv_status m) then [ms_average_ms (mv_status m)]
         else if isDead m then [-1] else [])
      else [])"

definition results_for :: "int \<Rightarrow> member_view list \<Rightarrow> int list" where
  "results_for i ms = concat (map conclusive (filter (\<lambda>m. mv_profileID m = i) ms))"

lemma member_latency_conclusive: "conclusive m = (case member_latency m of None \<Rightarrow> [] | Some l \<Rightarrow> [l])"
  by (simp add: conclusive_def member_latency_def)

lemma SetLatency_latency [simp]: "pr_latency (SetLatency now l p) = l"
  by (simp add: SetLatency_def)

lemma persist_members_exact:
  "persist_members now ms (P, dirty) = (P', dirty') \<Longrightarrow>
   (i \<in> set dirty' \<longleftrightarrow> i \<in> set dirty \<or> (\<exists>p. P i = Some p \<and> (\<exists>l\<in>set (results_for i ms). l \<noteq> pr_latency p))) \<and>
   P' i = (case P i of None \<Rightarrow> None | Some p \<Rightarrow>
     if \<exists>l\<in>set (results_for i ms). l \<noteq> pr_latency p then Some (SetLatency now (last (results_for i ms)) p) else Some p)"
proof (induction ms arbitrary: P dirty)
  case Nil
  then show ?case by (simp add: results_for_def split: option.split)
next
  case (Cons m ms)
  consider (silent) "member_latency m = None" | (gone) l where "member_latency m = Some l" "P (mv_profileID m) = None"
    | (known) l p where "member_latency m = Some l" "P (mv_profileID m) = Some p" by (cases "member_latency m"; cases "P (mv_profileID m)") auto
  then show ?case
  proof cases
    case silent
    then have "persist_members now ms (P, dirty) = (P', dirty')" using Cons.prems by simp
    note IH = Cons.IH [OF this]
    have rs: "results_for i (m # ms) = results_for i ms"
      using silent by (simp add: results_for_def member_latency_conclusive)
    show ?thesis unfolding rs by (rule IH)
  next
    case gone
    then have "persist_members now ms (P, dirty) = (P', dirty')" using Cons.prems by simp
    note IH = Cons.IH [OF this]
    show ?thesis
    proof (cases "mv_profileID m = i")
      case False
      then have "results_for i (m # ms) = results_for i ms" by (simp add: results_for_def)
      then show ?thesis using IH by (simp only:)
    qed (use IH gone(2) in auto)
  next
    case known
    have rs: "results_for i (m # ms) = (if mv_profileID m = i then l # results_for i ms else results_for i ms)"
      using known by (simp add: results_for_def member_latency_conclusive)
    show ?thesis
    proof (cases "pr_latency p = l")
      case True
      then have "persist_members now ms (P, dirty) = (P', dirty')" using Cons.prems known by simp
      note IH = Cons.IH [OF this]
      show ?thesis unfolding rs using IH known(2) True by (cases "results_for i ms = []") auto
    next
      case False
      then have "persist_members now ms (P(mv_profileID m \<mapsto> SetLatency now l p), dirty @ [mv_profileID m]) = (P', dirty')"
        using Cons.prems known by simp
      note IH = Cons.IH [OF this]
      show ?thesis
      proof (cases "mv_profileID m = i")
        case True
        have "last (l # results_for i ms) = l \<and> results_for i ms = [] \<or> results_for i ms \<noteq> []" by auto
        moreover have "last (results_for i ms) = l" if "results_for i ms \<noteq> []" "\<forall>x\<in>set (results_for i ms). x = l"
          using that last_in_set by blast
        ultimately show ?thesis unfolding rs using IH known(2) True False by (auto simp: SetLatency_twice)
      next
        case other: False
        then show ?thesis unfolding rs using IH by simp
      qed
    qed
  qed
qed

text \<open>
  C28: Writing measurements back saves exactly the profiles whose result has changed. With a selector
  running, a view at hand and the core not suspended, a profile is saved if and only if it exists and some
  member that stands for it is conclusive about another latency than it has: the measured average of a
  usable member, -1 of one whose every sample failed. It is then stamped with the last such result
  and the time, and every other profile is left as it was. Without these, nothing is saved or changed.
\<close>

theorem persist_only_conclusive:
  assumes "PersistHealth now s P = (s', P', dirty)"
  shows "if mo_active s \<and> vw_valid (mo_view s) \<and> \<not> vw_suspended (mo_view s)
    then s' = s\<lparr>mo_lastHealthPersist := now\<rparr> \<and> (\<forall>i. let ls = results_for i (vw_members (mo_view s)) in
      (i \<in> set dirty \<longleftrightarrow> (\<exists>p. P i = Some p \<and> (\<exists>l\<in>set ls. l \<noteq> pr_latency p))) \<and>
      P' i = (if i \<in> set dirty then map_option (SetLatency (now div 1000) (last ls)) (P i) else P i))
    else s' = s \<and> P' = P \<and> dirty = []"
proof (cases "mo_active s \<and> vw_valid (mo_view s) \<and> \<not> vw_suspended (mo_view s)")
  case True
  then have p: "persist_members (now div 1000) (vw_members (mo_view s)) (P, []) = (P', dirty)"
      "s' = s\<lparr>mo_lastHealthPersist := now\<rparr>"
    using assms by (simp_all add: PersistHealth_def)
  note E = persist_members_exact [OF p(1)]
  show ?thesis using True p(2) E by (auto simp: Let_def split: option.splits)
next
  case False
  then show ?thesis using assms by (auto simp: PersistHealth_def split: if_splits)
qed

definition demo_health :: monitor where
  "demo_health = run1\<lparr>mo_view := (mo_view run1)\<lparr>vw_members := [resolve_member run1 [] (demo_member ''dead'')]\<rparr>\<rparr>"

definition demo_repo :: profiles where
  "demo_repo = map_of [(7, new_profile\<lparr>pr_id := 7, pr_latency := 55\<rparr>), (8, new_profile)]"

theorem persist_only_conclusive_witness:
  "(case PersistHealth 9000 demo_health demo_repo of (s', P', dirty) \<Rightarrow> set dirty = {7} \<and> P' 8 = demo_repo 8 \<and>
     map_option pr_latency (P' 7) = Some (-1))"
proof -
  obtain s' P' dirty where r: "PersistHealth 9000 demo_health demo_repo = (s', P', dirty)"
    by (metis prod_cases3)
  have on: "mo_active demo_health \<and> vw_valid (mo_view demo_health) \<and> \<not> vw_suspended (mo_view demo_health)"
    by code_simp
  have ls: "results_for i (vw_members (mo_view demo_health)) = (if i = 7 then [-1] else [])" for i
  proof -
    have "mv_profileID (resolve_member run1 [] (demo_member ''dead'')) = 7"
      "conclusive (resolve_member run1 [] (demo_member ''dead'')) = [-1]" by code_simp+
    then show ?thesis by (simp add: results_for_def demo_health_def)
  qed
  have all: "\<forall>i. (i \<in> set dirty \<longleftrightarrow> (\<exists>p. demo_repo i = Some p \<and> (\<exists>l\<in>set (if i = 7 then [-1] else []). l \<noteq> pr_latency p))) \<and>
      P' i = (if i \<in> set dirty then map_option (SetLatency (9000 div 1000) (last (if i = 7 then [-1] else []))) (demo_repo i) else demo_repo i)"
    using persist_only_conclusive [OF r] on unfolding ls by (simp add: Let_def)
  have "i \<in> set dirty \<longleftrightarrow> i = 7" for i using all [rule_format, of i] by (auto simp: demo_repo_def)
  then show ?thesis using all r by (auto simp: demo_repo_def)
qed

end
