(* ===== verification/TrafficStats.thy ===== *)
theory TrafficStats
  imports Json
begin

text \<open>
  The traffic statistics: \<^verbatim>\<open>src/database/TrafficStatsRepo.cpp\<close> (two tiers of buckets per
  configuration and per application, and reference metadata) and
  \<^verbatim>\<open>src/stats/traffic/TrafficStatsManager.cpp\<close> (the accumulators of the running minute).

  A table is the list of its rows, one per primary key; a transaction either happens or, when the
  database throws, leaves the tables as they were: the flag \<open>ok\<close> of each write says which.
  SQLite's \<^verbatim>\<open>/\<close> on integers truncates (\<open>cdiv\<close>).
\<close>

type_synonym 'k bucket_table = "(int \<times> 'k) table"

record config_meta =
  cm_name :: string
  cm_group_name :: string
  cm_type :: string
  cm_server_address :: string
  cm_first_seen :: int
  cm_last_seen :: int

record app_meta =
  am_last_path :: string
  am_first_seen :: int
  am_last_seen :: int

record stats_db =
  db_config_minute :: "int bucket_table"
  db_config_hour :: "int bucket_table"
  db_app_minute :: "string bucket_table"
  db_app_hour :: "string bucket_table"
  db_config_meta :: "(int \<times> config_meta) list"
  db_app_meta :: "(string \<times> app_meta) list"

definition new_stats_db :: stats_db where
  "new_stats_db = \<lparr>db_config_minute = [], db_config_hour = [], db_app_minute = [], db_app_hour = [],
     db_config_meta = [], db_app_meta = []\<rparr>"

subsection \<open>Writes\<close>

definition upsert_rows :: "('k \<times> delta) list \<Rightarrow> 'k table \<Rightarrow> 'k table" where
  "upsert_rows rows t = fold (\<lambda>(k, d). upsert k d) rows t"

definition UpsertConfigMinuteBatch :: "bool \<Rightarrow> ((int \<times> int) \<times> delta) list \<Rightarrow> stats_db \<Rightarrow> stats_db" where
  "UpsertConfigMinuteBatch ok rows db =
     (if rows = [] then db
      else if ok then db\<lparr>db_config_minute := upsert_rows rows (db_config_minute db)\<rparr>
      else db)"

definition UpsertAppMinuteBatch :: "bool \<Rightarrow> ((int \<times> string) \<times> delta) list \<Rightarrow> stats_db \<Rightarrow> stats_db" where
  "UpsertAppMinuteBatch ok rows db =
     (if rows = [] then db
      else if ok then db\<lparr>db_app_minute := upsert_rows rows (db_app_minute db)\<rparr>
      else db)"

text \<open>On conflict every field but \<open>first_seen\<close> is replaced.\<close>

fun UpsertConfigMeta_rows :: "int \<Rightarrow> config_meta \<Rightarrow> (int \<times> config_meta) list \<Rightarrow> (int \<times> config_meta) list" where
  "UpsertConfigMeta_rows i m [] = [(i, m)]"
| "UpsertConfigMeta_rows i m ((i', m') # rows) =
     (if i' = i then (i, m\<lparr>cm_first_seen := cm_first_seen m'\<rparr>) # rows
      else (i', m') # UpsertConfigMeta_rows i m rows)"

definition UpsertConfigMeta :: "int \<Rightarrow> config_meta \<Rightarrow> stats_db \<Rightarrow> stats_db" where
  "UpsertConfigMeta i m db = db\<lparr>db_config_meta := UpsertConfigMeta_rows i m (db_config_meta db)\<rparr>"

fun UpsertAppMeta_rows :: "string \<Rightarrow> string \<Rightarrow> int \<Rightarrow> (string \<times> app_meta) list \<Rightarrow> (string \<times> app_meta) list" where
  "UpsertAppMeta_rows p path now [] =
     [(p, \<lparr>am_last_path = path, am_first_seen = now, am_last_seen = now\<rparr>)]"
| "UpsertAppMeta_rows p path now ((p', m) # rows) =
     (if p' = p then (p, m\<lparr>am_last_path := path, am_last_seen := now\<rparr>) # rows
      else (p', m) # UpsertAppMeta_rows p path now rows)"

definition UpsertAppMeta :: "string \<Rightarrow> string \<Rightarrow> int \<Rightarrow> stats_db \<Rightarrow> stats_db" where
  "UpsertAppMeta p path now db = db\<lparr>db_app_meta := UpsertAppMeta_rows p path now (db_app_meta db)\<rparr>"

subsection \<open>Maintenance\<close>

text \<open>\<^verbatim>\<open>SELECT g, SUM(up), SUM(down) ... GROUP BY g\<close>.\<close>

definition group_by :: "('k \<Rightarrow> 'g) \<Rightarrow> ('k \<times> delta) list \<Rightarrow> 'g table" where
  "group_by g rows = upsert_rows (map (\<lambda>(k, d). (g k, d)) rows) []"

definition hour_of :: "int \<Rightarrow> int" where
  "hour_of b = cdiv b 3600 * 3600"

definition rollup_tier :: "int \<Rightarrow> 'k bucket_table \<times> 'k bucket_table \<Rightarrow> 'k bucket_table \<times> 'k bucket_table" where
  "rollup_tier olderThan = (\<lambda>(minute, hour).
     (filter (\<lambda>r. \<not> fst (fst r) < olderThan) minute,
      upsert_rows (group_by (\<lambda>(b, k). (hour_of b, k)) (filter (\<lambda>r. fst (fst r) < olderThan) minute)) hour))"

definition RollupMinuteToHour :: "bool \<Rightarrow> int \<Rightarrow> stats_db \<Rightarrow> stats_db" where
  "RollupMinuteToHour ok olderThan db =
     (if \<not> ok then db
      else let (cm, ch) = rollup_tier olderThan (db_config_minute db, db_config_hour db);
               (am, ah) = rollup_tier olderThan (db_app_minute db, db_app_hour db)
           in db\<lparr>db_config_minute := cm, db_config_hour := ch, db_app_minute := am, db_app_hour := ah\<rparr>)"

definition PruneHour :: "bool \<Rightarrow> int \<Rightarrow> stats_db \<Rightarrow> stats_db" where
  "PruneHour ok olderThan db =
     (if \<not> ok then db
      else db\<lparr>db_config_hour := filter (\<lambda>r. \<not> fst (fst r) < olderThan) (db_config_hour db),
              db_app_hour := filter (\<lambda>r. \<not> fst (fst r) < olderThan) (db_app_hour db)\<rparr>)"

subsection \<open>Queries\<close>

definition in_range :: "int \<Rightarrow> int \<Rightarrow> int \<Rightarrow> bool" where
  "in_range from to b \<longleftrightarrow> from \<le> b \<and> b < to"

text \<open>The \<^verbatim>\<open>UNION ALL\<close> of the rows of both tiers in a range.\<close>

definition union_rows :: "int \<Rightarrow> int \<Rightarrow> 'k bucket_table \<Rightarrow> 'k bucket_table \<Rightarrow> 'k bucket_table" where
  "union_rows from to minute hour =
     filter (\<lambda>r. in_range from to (fst (fst r))) minute @ filter (\<lambda>r. in_range from to (fst (fst r))) hour"

definition QueryConfigUsage :: "int \<Rightarrow> int \<Rightarrow> stats_db \<Rightarrow> int table" where
  "QueryConfigUsage from to db = group_by snd (union_rows from to (db_config_minute db) (db_config_hour db))"

definition QueryAppUsage :: "int \<Rightarrow> int \<Rightarrow> stats_db \<Rightarrow> string table" where
  "QueryAppUsage from to db = group_by snd (union_rows from to (db_app_minute db) (db_app_hour db))"

definition bucketExpr :: "int \<Rightarrow> int \<Rightarrow> int \<Rightarrow> int" where
  "bucketExpr bucketSecs utcOffsetSecs b = cdiv (b + utcOffsetSecs) bucketSecs * bucketSecs - utcOffsetSecs"

definition QueryConfigSeries :: "int \<Rightarrow> int \<Rightarrow> int \<Rightarrow> int \<Rightarrow> stats_db \<Rightarrow> int table" where
  "QueryConfigSeries from to bucketSecs utcOffsetSecs db =
     (if bucketSecs \<le> 0 then []
      else sort_key fst (group_by (\<lambda>(b, k). bucketExpr bucketSecs utcOffsetSecs b)
             (union_rows from to (db_config_minute db) (db_config_hour db))))"

definition QueryAppSeries :: "int \<Rightarrow> int \<Rightarrow> int \<Rightarrow> int \<Rightarrow> stats_db \<Rightarrow> int table" where
  "QueryAppSeries from to bucketSecs utcOffsetSecs db =
     (if bucketSecs \<le> 0 then []
      else sort_key fst (group_by (\<lambda>(b, k). bucketExpr bucketSecs utcOffsetSecs b)
             (union_rows from to (db_app_minute db) (db_app_hour db))))"

definition GetAllConfigMeta :: "stats_db \<Rightarrow> (int \<times> config_meta) list" where
  "GetAllConfigMeta db = db_config_meta db"

definition GetAllAppMeta :: "stats_db \<Rightarrow> (string \<times> app_meta) list" where
  "GetAllAppMeta db = db_app_meta db"

subsection \<open>The manager\<close>

definition DIRECT_STAT_PROFILE_ID :: int where "DIRECT_STAT_PROFILE_ID = -101"
definition kMinuteWindowSecs :: int where "kMinuteWindowSecs = 48 * 3600"

record stats =
  st_configAccum :: "int table"
  st_appAccum :: "string table"
  st_appMetaSeen :: "string \<rightharpoonup> string"
  st_currentBucket :: int
  st_db :: stats_db

definition new_stats :: stats where
  "new_stats = \<lparr>st_configAccum = [], st_appAccum = [], st_appMetaSeen = Map.empty, st_currentBucket = 0,
     st_db = new_stats_db\<rparr>"

definition alignMinute :: "int \<Rightarrow> int" where
  "alignMinute secs = cdiv secs 60 * 60"

text \<open>The rows of one accumulator, tagged with the bucket; all-zero entries are skipped.\<close>

definition drain_rows :: "int \<Rightarrow> 'k table \<Rightarrow> ((int \<times> 'k) \<times> delta) list" where
  "drain_rows bucket accum = map (\<lambda>(k, d). ((bucket, k), d)) (filter (\<lambda>(k, d). d \<noteq> (0, 0)) accum)"

definition drainLocked :: "int \<Rightarrow> stats \<Rightarrow> ((int \<times> int) \<times> delta) list \<times> ((int \<times> string) \<times> delta) list \<times> stats" where
  "drainLocked bucket s =
     (drain_rows bucket (st_configAccum s), drain_rows bucket (st_appAccum s),
      s\<lparr>st_configAccum := [], st_appAccum := []\<rparr>)"

definition writeRows ::
  "bool \<times> bool \<Rightarrow> ((int \<times> int) \<times> delta) list \<Rightarrow> ((int \<times> string) \<times> delta) list \<Rightarrow> stats \<Rightarrow> stats" where
  "writeRows ok cfg app s = s\<lparr>st_db :=
     UpsertAppMinuteBatch (snd ok) app (UpsertConfigMinuteBatch (fst ok) cfg (st_db s))\<rparr>"

text \<open>The minute rolled over: drain what belongs to the bucket that ended.\<close>

definition roll_minute :: "int \<Rightarrow> stats \<Rightarrow> ((int \<times> int) \<times> delta) list \<times> ((int \<times> string) \<times> delta) list \<times> stats" where
  "roll_minute nowBucket s =
     (let (cfg, app, s) =
        (if st_currentBucket s \<noteq> 0 \<and> nowBucket \<noteq> st_currentBucket s
         then drainLocked (st_currentBucket s) s else ([], [], s))
      in (cfg, app, s\<lparr>st_currentBucket := nowBucket\<rparr>))"

definition AddConfigDelta :: "bool \<Rightarrow> bool \<times> bool \<Rightarrow> int \<Rightarrow> int \<Rightarrow> delta \<Rightarrow> stats \<Rightarrow> stats" where
  "AddConfigDelta disabled ok now profileId d s =
     (if disabled then s
      else if d = (0, 0) then s
      else let (cfg, app, s) = roll_minute (alignMinute now) s;
               s = s\<lparr>st_configAccum := upsert profileId d (st_configAccum s)\<rparr>
           in writeRows ok cfg app s)"

definition AddAppDelta ::
  "bool \<Rightarrow> bool \<times> bool \<Rightarrow> int \<Rightarrow> string \<Rightarrow> string \<Rightarrow> delta \<Rightarrow> stats \<Rightarrow> stats" where
  "AddAppDelta disabled ok now processName path d s =
     (if disabled then s
      else if processName = [] \<or> d = (0, 0) then s
      else let (cfg, app, s) = roll_minute (alignMinute now) s;
               s = s\<lparr>st_appAccum := upsert processName d (st_appAccum s)\<rparr>;
               writeMeta = (path \<noteq> [] \<and> st_appMetaSeen s processName \<noteq> Some path);
               s = (if writeMeta then s\<lparr>st_appMetaSeen := (st_appMetaSeen s)(processName \<mapsto> path)\<rparr> else s);
               s = writeRows ok cfg app s
           in if writeMeta then s\<lparr>st_db := UpsertAppMeta processName path now (st_db s)\<rparr> else s)"

definition stats_Flush :: "bool \<Rightarrow> bool \<times> bool \<Rightarrow> stats \<Rightarrow> stats" where
  "stats_Flush disabled ok s =
     (if disabled then s
      else if st_currentBucket s = 0 then s
      else let (cfg, app, s) = drainLocked (st_currentBucket s) s in writeRows ok cfg app s)"

definition SnapshotConfigMeta ::
  "bool \<Rightarrow> int \<Rightarrow> int \<Rightarrow> string \<Rightarrow> string \<Rightarrow> string \<Rightarrow> string \<Rightarrow> stats \<Rightarrow> stats" where
  "SnapshotConfigMeta disabled now profileId name groupName ty addr s =
     (if disabled then s
      else if profileId < 0 \<and> profileId \<noteq> DIRECT_STAT_PROFILE_ID then s
      else s\<lparr>st_db := UpsertConfigMeta profileId
             \<lparr>cm_name = name, cm_group_name = groupName, cm_type = ty, cm_server_address = addr,
              cm_first_seen = now, cm_last_seen = now\<rparr> (st_db s)\<rparr>)"

definition EnsureDirectMeta :: "bool \<Rightarrow> int \<Rightarrow> stats \<Rightarrow> stats" where
  "EnsureDirectMeta disabled now s = SnapshotConfigMeta disabled now DIRECT_STAT_PROFILE_ID ''Direct'' [] ''direct'' [] s"

definition runRollupOnce :: "bool \<Rightarrow> bool \<times> bool \<Rightarrow> int \<Rightarrow> int \<Rightarrow> stats \<Rightarrow> stats" where
  "runRollupOnce disabled ok now retention_days s =
     (if disabled then s
      else let days = at_least 1 retention_days;
               db = RollupMinuteToHour (fst ok) (now - kMinuteWindowSecs) (st_db s)
           in s\<lparr>st_db := PruneHour (snd ok) (now - days * 86400) db\<rparr>)"

subsection \<open>Sums\<close>

lemma amount_upsert_rows [conserve]: "amount P (upsert_rows rows t) = dadd (amount P rows) (amount P t)"
  unfolding upsert_rows_def by (rule counters.sum_put_batch)

lemma amount_map_keys: "amount P (map (\<lambda>(k, d). (g k, d)) rows) = amount (P \<circ> g) rows"
  by (induction rows) auto

lemma amount_group_by [conserve]: "amount P (group_by g rows) = amount (P \<circ> g) rows"
  by (simp add: group_by_def amount_upsert_rows amount_map_keys)

lemma distinct_upsert_rows: "distinct (map fst t) \<Longrightarrow> distinct (map fst (upsert_rows rows t))"
  unfolding upsert_rows_def by (rule distinct_upsert_batch)

lemma distinct_group_by: "distinct (map fst (group_by g rows))"
  by (simp add: group_by_def distinct_upsert_rows)

lemma keys_upsert_rows: "fst ` set (upsert_rows rows t) = fst ` set rows \<union> fst ` set t"
  unfolding upsert_rows_def
  by (induction rows arbitrary: t) (auto simp: keys_upsert split_beta)

lemma keys_group_by: "fst ` set (group_by g rows) = g ` fst ` set rows"
  by (force simp: group_by_def keys_upsert_rows image_image split_beta)

lemma amount_drain [conserve]: "amount P (drain_rows bucket accum) = amount (\<lambda>k. P (bucket, k)) accum"
  by (induction accum) (auto simp: drain_rows_def dzero_def [symmetric])

lemma amount_mset: "mset t = mset u \<Longrightarrow> amount P t = amount P u"
proof (induction t arbitrary: u)
  case Nil
  then show ?case by simp
next
  case (Cons r t)
  then obtain a b where u: "u = a @ r # b"
    by (metis list.set_intros(1) mset_eq_setD split_list)
  with Cons.prems have "mset t = mset (a @ b)" by simp
  then have "amount P t = amount P (a @ b)" by (rule Cons.IH)
  then show ?case by (cases r) (simp add: u dadd_ac)
qed

lemma amount_sort [simp]: "amount P (sort_key f t) = amount P t"
  by (rule amount_mset) simp

text \<open>Rolling up moves rows without changing any sum that does not tell minutes of an hour apart.\<close>

lemma amount_rollup:
  assumes "\<And>b k. P (hour_of b, k) = P (b, k)"
  shows "dadd (amount P (fst (rollup_tier c (m, h)))) (amount P (snd (rollup_tier c (m, h)))) =
    dadd (amount P m) (amount P h)"
proof -
  have "amount (P \<circ> (\<lambda>(b, k). (hour_of b, k))) rows = amount P rows" for rows
    using assms by (intro amount_cong) auto
  moreover have "amount P m = dadd (amount P (filter (\<lambda>r. fst (fst r) < c) m))
      (amount P (filter (\<lambda>r. \<not> fst (fst r) < c) m))"
    using amount_split [of P m "\<lambda>k. fst k < c"]
      amount_filter [of P "\<lambda>k. fst k < c" m] amount_filter [of P "\<lambda>k. \<not> fst k < c" m] by simp
  ultimately show ?thesis
    by (simp add: rollup_tier_def conserve dadd_ac)
qed

end
