(* ===== verification/TrafficStatsProps.thy ===== *)
theory TrafficStatsProps
  imports TrafficStats
begin

text \<open>
  Conservation of bytes: whatever is credited is found again, once, in the accumulators and the
  two tiers, and maintenance does not change what a query over whole hours reports.
\<close>

subsection \<open>Hours\<close>

lemma hour_of_bounds: "0 \<le> b \<Longrightarrow> hour_of b \<le> b \<and> b < hour_of b + 3600 \<and> 3600 dvd hour_of b"
  by (simp add: hour_of_def) (metis add.commute div_mult_mod_eq mult.commute pos_mod_bound
      zero_less_numeral add_less_cancel_left le_add_same_cancel1 pos_mod_sign)

lemma hour_of_ge:
  assumes "0 < from" and "3600 dvd from"
  shows "from \<le> hour_of b \<longleftrightarrow> from \<le> b"
proof (cases "0 \<le> b")
  case True
  obtain n where n: "from = 3600 * n" using assms(2) by (elim dvdE)
  have "hour_of b = b div 3600 * 3600" using True by (simp add: hour_of_def)
  moreover have "3600 * n \<le> b div 3600 * 3600 \<longleftrightarrow> n \<le> b div 3600" by linarith
  moreover have "n \<le> b div 3600 \<longleftrightarrow> 3600 * n \<le> b" by (simp add: le_div_iff mult.commute)
  ultimately show ?thesis using n by simp
next
  case False
  then have "hour_of b \<le> 0"
    by (simp add: hour_of_def cdiv_def sgn_if) 
  with False assms(1) show ?thesis by simp
qed

lemma hour_of_range:
  assumes "0 < from" and "3600 dvd from" and "3600 dvd to"
  shows "in_range from to (hour_of b) \<longleftrightarrow> in_range from to b"
proof (cases "0 < to")
  case True
  then show ?thesis
    using hour_of_ge [OF assms(1,2)] hour_of_ge [OF True assms(3)] by (auto simp: in_range_def not_le [symmetric])
next
  case False
  then show ?thesis using assms(1) hour_of_ge [OF assms(1,2), of b] by (auto simp: in_range_def)
qed

subsection \<open>Runs of the manager\<close>

datatype stat_op =
    Config int int delta         \<comment> \<open>time, profile, bytes\<close>
  | App int string string delta  \<comment> \<open>time, process, path, bytes\<close>
  | FlushNow
  | Maintain int int             \<comment> \<open>time, retention days\<close>
  | Snapshot int int string string string string

text \<open>
  One call. The aggregation is switched on and the two transactions of a write commit; with the
  aggregation off the calls do nothing, and a drained bucket whose transaction fails is lost.
\<close>

fun exec_op :: "stat_op \<Rightarrow> stats \<Rightarrow> stats" where
  "exec_op (Config now i d) s = AddConfigDelta False (True, True) now i d s"
| "exec_op (App now p path d) s = AddAppDelta False (True, True) now p path d s"
| "exec_op FlushNow s = stats_Flush False (True, True) s"
| "exec_op (Maintain now days) s = runRollupOnce False (True, True) now days s"
| "exec_op (Snapshot now i n g ty a) s = SnapshotConfigMeta False now i n g ty a s"

text \<open>What the operations credit to the profiles, or processes, that satisfy \<open>P\<close>.\<close>

fun config_credit :: "(int \<Rightarrow> bool) \<Rightarrow> stat_op \<Rightarrow> delta" where
  "config_credit P (Config now i d) = (if P i then d else dzero)"
| "config_credit P _ = dzero"

fun app_credit :: "(string \<Rightarrow> bool) \<Rightarrow> stat_op \<Rightarrow> delta" where
  "app_credit P (App now p path d) = (if p \<noteq> [] \<and> P p then d else dzero)"
| "app_credit P _ = dzero"

text \<open>Bytes credited at or after \<open>from\<close>, wherever they are by now.\<close>

definition config_total :: "int \<Rightarrow> (int \<Rightarrow> bool) \<Rightarrow> stats \<Rightarrow> delta" where
  "config_total from P s = dadd (amount P (st_configAccum s))
     (dadd (amount (\<lambda>(b, k). from \<le> b \<and> P k) (db_config_minute (st_db s)))
           (amount (\<lambda>(b, k). from \<le> b \<and> P k) (db_config_hour (st_db s))))"

definition app_total :: "int \<Rightarrow> (string \<Rightarrow> bool) \<Rightarrow> stats \<Rightarrow> delta" where
  "app_total from P s = dadd (amount P (st_appAccum s))
     (dadd (amount (\<lambda>(b, k). from \<le> b \<and> P k) (db_app_minute (st_db s)))
           (amount (\<lambda>(b, k). from \<le> b \<and> P k) (db_app_hour (st_db s))))"

text \<open>Credits are not older than \<open>from\<close>, and retention does not reach past it.\<close>

fun timely :: "int \<Rightarrow> stat_op \<Rightarrow> bool" where
  "timely from (Config now i d) \<longleftrightarrow> from \<le> now"
| "timely from (App now p path d) \<longleftrightarrow> from \<le> now"
| "timely from (Maintain now days) \<longleftrightarrow> now - max 1 days * 86400 \<le> from"
| "timely from _ \<longleftrightarrow> True"

definition accum_ok :: "int \<Rightarrow> stats \<Rightarrow> bool" where
  "accum_ok from s \<longleftrightarrow> (if st_currentBucket s = 0 then st_configAccum s = [] \<and> st_appAccum s = []
     else from \<le> st_currentBucket s)"

lemma alignMinute_ge:
  assumes "0 < from" and "3600 dvd from" and "from \<le> now"
  shows "from \<le> alignMinute now"
proof -
  obtain n where n: "from = 3600 * n" using assms(2) by (elim dvdE)
  have "n * 60 \<le> now div 60" using assms(3) n by (simp add: le_div_iff)
  then show ?thesis using assms n by (simp add: alignMinute_def)
qed

lemma amount_never [simp]: "amount (\<lambda>k. False) t = dzero"
  by (rule amount_none) simp

lemma writeRows_totals [conserve]:
  "amount Q (db_config_minute (st_db (writeRows (True, True) cfg app s))) =
     dadd (amount Q cfg) (amount Q (db_config_minute (st_db s)))"
  "amount R (db_app_minute (st_db (writeRows (True, True) cfg app s))) =
     dadd (amount R app) (amount R (db_app_minute (st_db s)))"
  "db_config_hour (st_db (writeRows (True, True) cfg app s)) = db_config_hour (st_db s)"
  "db_app_hour (st_db (writeRows (True, True) cfg app s)) = db_app_hour (st_db s)"
  "st_configAccum (writeRows ok cfg app s) = st_configAccum s"
  "st_appAccum (writeRows ok cfg app s) = st_appAccum s"
  "st_currentBucket (writeRows ok cfg app s) = st_currentBucket s"
  by (simp_all add: writeRows_def UpsertConfigMinuteBatch_def UpsertAppMinuteBatch_def amount_upsert_rows)

lemma roll_minute_totals:
  assumes "roll_minute nb s = (cfg, app, s')" and "accum_ok from s"
  shows "dadd (amount (\<lambda>(b, k). from \<le> b \<and> P k) cfg) (amount P (st_configAccum s')) = amount P (st_configAccum s)"
    and "dadd (amount (\<lambda>(b, k). from \<le> b \<and> R k) app) (amount R (st_appAccum s')) = amount R (st_appAccum s)"
    and "st_db s' = st_db s" "st_currentBucket s' = nb"
  using assms by (auto simp: roll_minute_def drainLocked_def accum_ok_def amount_drain Let_def split: if_splits)

lemma UpsertMeta_tables [simp]:
  "db_config_minute (UpsertAppMeta p path now db) = db_config_minute db"
  "db_config_hour (UpsertAppMeta p path now db) = db_config_hour db"
  "db_app_minute (UpsertAppMeta p path now db) = db_app_minute db"
  "db_app_hour (UpsertAppMeta p path now db) = db_app_hour db"
  "db_config_minute (UpsertConfigMeta i m db) = db_config_minute db"
  "db_config_hour (UpsertConfigMeta i m db) = db_config_hour db"
  "db_app_minute (UpsertConfigMeta i m db) = db_app_minute db"
  "db_app_hour (UpsertConfigMeta i m db) = db_app_hour db"
  by (simp_all add: UpsertAppMeta_def UpsertConfigMeta_def)

lemma AddConfigDelta_total:
  fixes i :: int and d :: delta
  assumes "accum_ok from s" and "0 < from" and "3600 dvd from" and "from \<le> now"
  defines "s' \<equiv> AddConfigDelta False (True, True) now i d s"
  shows "config_total from P s' = dadd (if P i then d else dzero) (config_total from P s)"
    and "app_total from R s' = app_total from R s" and "accum_ok from s'"
proof -
  obtain cfg app s1 where r: "roll_minute (alignMinute now) s = (cfg, app, s1)" by (rule prod_cases3)
  note sums = roll_minute_totals [OF r assms(1)] roll_minute_totals(1) [OF r assms(1), symmetric]
    roll_minute_totals(2) [OF r assms(1), symmetric]
  have b: "from \<le> alignMinute now" "alignMinute now \<noteq> 0"
    using alignMinute_ge [OF assms(2-4)] assms(2) by auto
  show "config_total from P s' = dadd (if P i then d else dzero) (config_total from P s)"
  proof (cases "d = (0, 0)")
    case True
    then show ?thesis by (simp add: s'_def AddConfigDelta_def dzero_def [symmetric])
  next
    case False
    then show ?thesis
      using sums(3) sums(5) [of P]
      by (simp add: s'_def AddConfigDelta_def r config_total_def conserve dadd_ac)
  qed
  show "app_total from R s' = app_total from R s"
    using sums(3) sums(6) [of R]
    by (simp add: s'_def AddConfigDelta_def r app_total_def conserve dadd_ac)
  show "accum_ok from s'"
    using assms(1) b sums(4) by (simp add: s'_def AddConfigDelta_def r accum_ok_def conserve)
qed

lemma AddAppDelta_total:
  fixes p path :: string and d :: delta
  assumes "accum_ok from s" and "0 < from" and "3600 dvd from" and "from \<le> now"
  defines "s' \<equiv> AddAppDelta False (True, True) now p path d s"
  shows "app_total from R s' = dadd (if p \<noteq> [] \<and> R p then d else dzero) (app_total from R s)"
    and "config_total from P s' = config_total from P s" and "accum_ok from s'"
proof -
  obtain cfg app s1 where r: "roll_minute (alignMinute now) s = (cfg, app, s1)" by (rule prod_cases3)
  note sums = roll_minute_totals [OF r assms(1)] roll_minute_totals(1) [OF r assms(1), symmetric]
    roll_minute_totals(2) [OF r assms(1), symmetric]
  have b: "from \<le> alignMinute now" "alignMinute now \<noteq> 0"
    using alignMinute_ge [OF assms(2-4)] assms(2) by auto
  show "app_total from R s' = dadd (if p \<noteq> [] \<and> R p then d else dzero) (app_total from R s)"
  proof (cases "p = [] \<or> d = (0, 0)")
    case True
    then show ?thesis by (auto simp: s'_def AddAppDelta_def dzero_def [symmetric])
  next
    case False
    then show ?thesis
      using sums(3) sums(6) [of R]
      by (simp add: s'_def AddAppDelta_def r app_total_def conserve dadd_ac Let_def)
  qed
  show "config_total from P s' = config_total from P s"
    using sums(3) sums(5) [of P]
    by (simp add: s'_def AddAppDelta_def r config_total_def conserve dadd_ac Let_def)
  show "accum_ok from s'"
    using assms(1) b sums(4) by (simp add: s'_def AddAppDelta_def r accum_ok_def conserve Let_def)
qed

lemma Flush_total:
  assumes "accum_ok from s"
  defines "s' \<equiv> stats_Flush False (True, True) s"
  shows "config_total from P s' = config_total from P s" and "app_total from R s' = app_total from R s"
    and "accum_ok from s'"
  using assms(1)
  by (auto simp: s'_def stats_Flush_def drainLocked_def config_total_def app_total_def conserve accum_ok_def dadd_ac)

lemma amount_keep_above:
  "(c :: int) \<le> from \<Longrightarrow> amount (\<lambda>(b, k). from \<le> b \<and> P k) (filter (\<lambda>r. \<not> fst (fst r) < c) t) =
    amount (\<lambda>(b, k). from \<le> b \<and> P k) t"
  unfolding amount_def filter_filter by (rule arg_cong [where f = "\<lambda>xs. dsum (map snd xs)"]) (auto intro!: filter_cong)

lemma amount_rollup_window:
  assumes "0 < from" and "3600 dvd from"
  shows "dadd (amount (\<lambda>(b, k). from \<le> b \<and> P k) (fst (rollup_tier c (m, h))))
      (amount (\<lambda>(b, k). from \<le> b \<and> P k) (snd (rollup_tier c (m, h)))) =
    dadd (amount (\<lambda>(b, k). from \<le> b \<and> P k) m) (amount (\<lambda>(b, k). from \<le> b \<and> P k) h)"
  by (rule amount_rollup) (simp add: hour_of_ge [OF assms])

lemma Maintain_total:
  fixes s :: stats
  assumes "0 < from" and "3600 dvd from" and "now - max 1 days * 86400 \<le> from"
  defines "s' \<equiv> runRollupOnce False (True, True) now days s"
  shows "config_total from P s' = config_total from P s" and "app_total from R s' = app_total from R s"
    and "accum_ok from s' = accum_ok from s"
  by (simp_all add: amount_rollup_window [OF assms(1,2)] amount_keep_above [OF assms(3)] s'_def runRollupOnce_def RollupMinuteToHour_def PruneHour_def config_total_def app_total_def
      accum_ok_def at_least_max split_beta Let_def)

lemma exec_op_total:
  assumes "accum_ok from s" and "0 < from" and "3600 dvd from" and "timely from oper"
  shows "config_total from P (exec_op oper s) = dadd (config_credit P oper) (config_total from P s) \<and>
    app_total from R (exec_op oper s) = dadd (app_credit R oper) (app_total from R s) \<and>
    accum_ok from (exec_op oper s)"
proof (cases oper)
  case (Config now i d)
  with assms show ?thesis using AddConfigDelta_total [OF assms(1-3)] by simp
next
  case (App now p path d)
  with assms show ?thesis using AddAppDelta_total [OF assms(1-3)] by simp
next
  case FlushNow
  then show ?thesis using Flush_total [OF assms(1)] by simp
next
  case (Maintain now days)
  with assms show ?thesis using Maintain_total [OF assms(2,3)] by simp
next
  case (Snapshot now i n g ty a)
  with assms(1) show ?thesis
    by (simp add: SnapshotConfigMeta_def config_total_def app_total_def accum_ok_def)
qed

text \<open>
  C10: Traffic is conserved. From a freshly started manager over any database, after any sequence of
  credits, minute roll-overs, flushes, roll-ups into the hour tier and prunes that stay within the
  retention period, the bytes found for any set of profiles or processes, in the accumulators and
  both tiers together, are what was there plus exactly what was credited.
\<close>

theorem traffic_conserved:
  assumes "st_currentBucket s = 0" and "st_configAccum s = []" and "st_appAccum s = []"
    and "0 < from" and "3600 dvd from" and "list_all (timely from) ops"
  shows "config_total from P (fold exec_op ops s) = dadd (dsum (map (config_credit P) ops)) (config_total from P s) \<and>
    app_total from R (fold exec_op ops s) = dadd (dsum (map (app_credit R) ops)) (app_total from R s)"
proof -
  have "accum_ok from s" using assms(1-3) by (simp add: accum_ok_def)
  then show ?thesis using assms(6)
  proof (induction ops arbitrary: s)
    case (Cons oper ops)
    have "timely from oper" using Cons.prems by simp
    note step = exec_op_total [OF Cons.prems(1) assms(4,5) this]
    have "accum_ok from (exec_op oper s)" "list_all (timely from) ops" using step Cons.prems by auto
    from Cons.IH [OF this] step show ?case by (simp add: dadd_ac)
  qed simp
qed

theorem traffic_conserved_witness:
  "config_total 3600 (\<lambda>i. i = 7)
     (fold exec_op [Config 7205 7 (10, 20), Config 7299 7 (1, 2), Config 7299 8 (5, 5), Maintain 200000 30, FlushNow] new_stats) =
   (11, 22)"
proof -
  let ?ops = "[Config 7205 7 (10, 20), Config 7299 7 (1, 2), Config 7299 8 (5, 5), Maintain 200000 30, FlushNow]"
  have "list_all (timely 3600) ?ops" by simp
  then have "config_total 3600 (\<lambda>i. i = 7) (fold exec_op ?ops new_stats) =
      dadd (dsum (map (config_credit (\<lambda>i. i = 7)) ?ops)) (config_total 3600 (\<lambda>i. i = 7) new_stats)"
    by (intro traffic_conserved [THEN conjunct1]) (simp_all add: new_stats_def)
  then show ?thesis by (simp add: config_total_def new_stats_def new_stats_db_def dadd_def dzero_def)
qed

subsection \<open>Queries\<close>

lemma amount_union_rows:
  "amount Q (union_rows from to m h) =
   dadd (amount (\<lambda>r. Q r \<and> in_range from to (fst r)) m) (amount (\<lambda>r. Q r \<and> in_range from to (fst r)) h)"
  using amount_filter [of Q "\<lambda>r. in_range from to (fst r)"] by (simp add: union_rows_def)

lemma maintenance_tables:
  "db_config_minute (st_db (runRollupOnce False (True, True) now days s)) =
     fst (rollup_tier (now - kMinuteWindowSecs) (db_config_minute (st_db s), db_config_hour (st_db s)))"
  "db_config_hour (st_db (runRollupOnce False (True, True) now days s)) =
     filter (\<lambda>r. \<not> fst (fst r) < now - max 1 days * 86400)
       (snd (rollup_tier (now - kMinuteWindowSecs) (db_config_minute (st_db s), db_config_hour (st_db s))))"
  "db_app_minute (st_db (runRollupOnce False (True, True) now days s)) =
     fst (rollup_tier (now - kMinuteWindowSecs) (db_app_minute (st_db s), db_app_hour (st_db s)))"
  "db_app_hour (st_db (runRollupOnce False (True, True) now days s)) =
     filter (\<lambda>r. \<not> fst (fst r) < now - max 1 days * 86400)
       (snd (rollup_tier (now - kMinuteWindowSecs) (db_app_minute (st_db s), db_app_hour (st_db s))))"
  by (simp_all add: runRollupOnce_def RollupMinuteToHour_def PruneHour_def at_least_max Let_def split_beta)

lemma amount_keep_range:
  "c \<le> from \<Longrightarrow> amount (\<lambda>r. Q r \<and> in_range from to (fst r)) (filter (\<lambda>r. \<not> fst (fst r) < c) t) =
    amount (\<lambda>r. Q r \<and> in_range from to (fst r)) t"
  unfolding amount_def filter_filter
  by (rule arg_cong [where f = "\<lambda>xs. dsum (map snd xs)"]) (auto intro!: filter_cong simp: in_range_def)

text \<open>A grouping of rows that does not tell the minutes of an hour apart.\<close>

lemma amount_query_maintained:
  assumes "0 < from" and "3600 dvd from" and "3600 dvd to" and "c \<le> from"
    and "\<And>b k. from \<le> b \<Longrightarrow> Q (hour_of b, k) = Q (b, k)"
  shows "amount Q (union_rows from to (fst (rollup_tier a (m, h))) (filter (\<lambda>r. \<not> fst (fst r) < c) (snd (rollup_tier a (m, h))))) =
    amount Q (union_rows from to m h)"
proof -
  have "(Q (hour_of b, k) \<and> in_range from to (hour_of b)) = (Q (b, k) \<and> in_range from to b)" for b k
    using assms(5) hour_of_range [OF assms(1-3)] by (auto simp: in_range_def)
  then have "dadd (amount (\<lambda>r. Q r \<and> in_range from to (fst r)) (fst (rollup_tier a (m, h))))
      (amount (\<lambda>r. Q r \<and> in_range from to (fst r)) (snd (rollup_tier a (m, h)))) =
    dadd (amount (\<lambda>r. Q r \<and> in_range from to (fst r)) m) (amount (\<lambda>r. Q r \<and> in_range from to (fst r)) h)"
    by (intro amount_rollup) simp
  then show ?thesis by (simp add: amount_union_rows amount_keep_range [OF assms(4)])
qed

text \<open>
  C26: What the dashboard reports for a window of whole hours does not depend on when maintenance
  runs: rolling minutes up into hours and pruning beyond the retention period leave the usage of
  every profile and process in the window as it was, and each appears in one row.
\<close>

theorem usage_survives_maintenance:
  assumes "0 < from" and "3600 dvd from" and "3600 dvd to" and "now - max 1 days * 86400 \<le> from"
    and "s' = runRollupOnce False (True, True) now days s"
  shows "amount P (QueryConfigUsage from to (st_db s')) = amount P (QueryConfigUsage from to (st_db s)) \<and>
    amount R (QueryAppUsage from to (st_db s')) = amount R (QueryAppUsage from to (st_db s)) \<and>
    distinct (map fst (QueryConfigUsage from to (st_db s'))) \<and>
    distinct (map fst (QueryAppUsage from to (st_db s')))"
  using amount_query_maintained [OF assms(1-4), of "P \<circ> snd"] amount_query_maintained [OF assms(1-4), of "R \<circ> snd"]
  by (simp add: QueryConfigUsage_def QueryAppUsage_def amount_group_by maintenance_tables assms(5) distinct_group_by)

definition demo_stats :: stats where
  "demo_stats = new_stats\<lparr>st_db := new_stats_db\<lparr>
     db_config_minute := [((7200, 7), (1, 2)), ((7260, 7), (10, 20)), ((10800, 8), (5, 5))],
     db_config_hour := [((7200, 7), (100, 200))]\<rparr>\<rparr>"

theorem usage_survives_maintenance_witness:
  "amount (\<lambda>i. i = 7) (QueryConfigUsage 7200 10800 (st_db (runRollupOnce False (True, True) 200000 30 demo_stats))) =
   (111, 222)"
proof -
  have "amount (\<lambda>i. i = 7) (QueryConfigUsage 7200 10800 (st_db (runRollupOnce False (True, True) 200000 30 demo_stats))) =
      amount (\<lambda>i. i = 7) (QueryConfigUsage 7200 10800 (st_db demo_stats))"
    by (rule usage_survives_maintenance [THEN conjunct1, OF _ _ _ _ refl]) simp_all
  also have "\<dots> = (111, 222)"
    by (simp add: QueryConfigUsage_def demo_stats_def new_stats_db_def union_rows_def in_range_def
        amount_group_by dadd_def dzero_def)
  finally show ?thesis .
qed

lemma bucketExpr_hour:
  assumes "0 \<le> b" and "0 \<le> hour_of b + off" and "3600 dvd off" and "3600 dvd sz" and "0 < sz"
  shows "bucketExpr sz off (hour_of b) = bucketExpr sz off b"
proof -
  note h = hour_of_bounds [OF assms(1)]
  obtain n where n: "sz = 3600 * n" using assms(4) by (elim dvdE)
  obtain k where k: "off = 3600 * k" using assms(3) by (elim dvdE)
  obtain j where j: "hour_of b = 3600 * j" using h by (auto elim!: dvdE)
  have "(b + off) div 3600 = j + k"
    using h j k by (intro int_div_pos_eq [of _ 3600 "j + k" "b - hour_of b"]) auto
  then have "(b + off) div sz = (j + k) div n"
    using assms(5) by (simp add: n zdiv_zmult2_eq)
  moreover have "hour_of b + off = 3600 * (j + k)" using j k by simp
  then have "(hour_of b + off) div sz = (j + k) div n"
    unfolding n by (simp only: div_mult_mult1)
  ultimately show ?thesis
    using h assms(2,5) by (simp add: bucketExpr_def)
qed

text \<open>
  A time series is a partition of the usage of its window: its points are in strictly ascending
  order of their bucket and add up to the total; and for offsets of whole hours and buckets of
  whole hours, maintenance moves no byte from one point to another.
\<close>

theorem series_partitions_usage:
  assumes "0 < sz" and "86400 \<le> from" and "3600 dvd from" and "3600 dvd to"
    and "3600 dvd sz" and "3600 dvd off" and "\<bar>off\<bar> \<le> 50400"
    and "now - max 1 days * 86400 \<le> from" and "s' = runRollupOnce False (True, True) now days s"
  shows "sorted_wrt (<) (map fst (QueryConfigSeries from to sz off (st_db s))) \<and>
    amount (\<lambda>b. True) (QueryConfigSeries from to sz off (st_db s)) =
      amount (\<lambda>i. True) (QueryConfigUsage from to (st_db s)) \<and>
    amount P (QueryConfigSeries from to sz off (st_db s')) = amount P (QueryConfigSeries from to sz off (st_db s)) \<and>
    amount P (QueryAppSeries from to sz off (st_db s')) = amount P (QueryAppSeries from to sz off (st_db s))"
proof (intro conjI)
  let ?rows = "union_rows from to (db_config_minute (st_db s)) (db_config_hour (st_db s))"
  let ?g = "\<lambda>(b, k). bucketExpr sz off b"
  have "distinct (map fst (sort_key fst (group_by ?g ?rows)))"
    using distinct_group_by [of ?g ?rows] by (metis distinct_map distinct_sort set_sort)
  moreover have "sorted (map fst (sort_key fst (group_by ?g ?rows)))" by simp
  ultimately show "sorted_wrt (<) (map fst (QueryConfigSeries from to sz off (st_db s)))"
    using assms(1) by (simp add: QueryConfigSeries_def strict_sorted_iff)
  show "amount (\<lambda>b. True) (QueryConfigSeries from to sz off (st_db s)) =
      amount (\<lambda>i. True) (QueryConfigUsage from to (st_db s))"
    using assms(1) by (simp add: QueryConfigSeries_def QueryConfigUsage_def amount_group_by comp_def)
  have pos: "0 < from" using assms(2) by simp
  have "bucketExpr sz off (hour_of b) = bucketExpr sz off b" if "from \<le> b" for b
  proof (rule bucketExpr_hour [OF _ _ assms(6,5,1)])
    show "0 \<le> b" using that pos by simp
    then show "0 \<le> hour_of b + off" using that assms(2,7) hour_of_bounds [of b] by linarith
  qed
  then have step: "amount (P \<circ> ?g) (union_rows from to (fst (rollup_tier a (m, h)))
      (filter (\<lambda>r. \<not> fst (fst r) < now - max 1 days * 86400) (snd (rollup_tier a (m, h))))) =
    amount (P \<circ> ?g) (union_rows from to m h)" for a and m h :: "'k bucket_table"
    by (intro amount_query_maintained [OF pos assms(3,4,8)]) simp
  show "amount P (QueryConfigSeries from to sz off (st_db s')) = amount P (QueryConfigSeries from to sz off (st_db s))"
    "amount P (QueryAppSeries from to sz off (st_db s')) = amount P (QueryAppSeries from to sz off (st_db s))"
    using assms(1) by (simp_all add: QueryConfigSeries_def QueryAppSeries_def amount_group_by assms(9)
        maintenance_tables step)
qed

theorem series_partitions_usage_witness:
  "amount (\<lambda>b. True) (QueryConfigSeries 86400 172800 3600 7200 (st_db demo_stats)) =
   amount (\<lambda>i. True) (QueryConfigUsage 86400 172800 (st_db demo_stats))"
proof -
  have "200000 - max 1 30 * 86400 \<le> (86400 :: int)" by simp
  from series_partitions_usage [OF _ _ _ _ _ _ _ this refl, of 3600 172800 7200 demo_stats "\<lambda>b. True"]
  show ?thesis by simp
qed

end
