(* ===== verification/ConnectionLister.thy ===== *)
theory ConnectionLister
  imports TrafficStats
begin

text \<open>
  The connection lister, \<^verbatim>\<open>src/stats/connectionLister/connectionLister.cpp\<close>: one poll of the core
  feeds the connection table (rates by differencing cumulative counters, then a sort) and the
  per-application statistics (bytes not yet counted, per connection). The answer of the core is
  an input; the rows handed to the table and the calls of \<^verbatim>\<open>AddAppDelta\<close> are outputs.
\<close>

record conn =
  cn_id :: string
  cn_created_at :: int
  cn_upload :: int
  cn_download :: int
  cn_outbound :: string
  cn_network :: string
  cn_dest :: string
  cn_protocol :: string
  cn_domain :: string
  cn_process :: string
  cn_process_path :: string
  cn_closed_at :: int

record connection = conn +
  cn_uploadSpeed :: int
  cn_downloadSpeed :: int

definition metaFromProto :: "conn \<Rightarrow> connection" where
  "metaFromProto c = conn.extend c \<lparr>cn_uploadSpeed = 0, cn_downloadSpeed = 0\<rparr>"

datatype ConnectionSort =
    DefaultSort | ByDownload | ByUpload | ByProcess | ByTraffic | ByOutbound | ByProtocol
  | ByDownloadSpeed | ByUploadSpeed | BySpeed

record speed_sample =
  sp_upload :: int
  sp_download :: int
  sp_sampledAtMs :: int
  sp_upSpeed :: int
  sp_downSpeed :: int

record lister =
  li_speedSamples :: "string \<rightharpoonup> speed_sample"
  li_state :: "string set"
  li_sort :: ConnectionSort
  li_asc :: bool
  li_lastBytes :: "string \<rightharpoonup> delta"
  li_accountedClosed :: "string set"

definition new_lister :: lister where
  "new_lister = \<lparr>li_speedSamples = Map.empty, li_state = {}, li_sort = DefaultSort, li_asc = False,
     li_lastBytes = Map.empty, li_accountedClosed = {}\<rparr>"

definition kSpeedSampleMinMs :: int where "kSpeedSampleMinMs = 500"

subsection \<open>Rates\<close>

definition sample_of :: "int \<Rightarrow> (string \<rightharpoonup> speed_sample) \<Rightarrow> conn \<Rightarrow> speed_sample" where
  "sample_of nowMs samples c = (case samples (cn_id c) of
     Some it \<Rightarrow>
       let dt = nowMs - sp_sampledAtMs it in
       if kSpeedSampleMinMs \<le> dt then
         let dUp = at_least 0 (cn_upload c - sp_upload it);
             dDown = at_least 0 (cn_download c - sp_download it)
         in \<lparr>sp_upload = cn_upload c, sp_download = cn_download c, sp_sampledAtMs = nowMs,
             sp_upSpeed = cdiv (dUp * 1000) dt, sp_downSpeed = cdiv (dDown * 1000) dt\<rparr>
       else it
   | None \<Rightarrow> \<lparr>sp_upload = cn_upload c, sp_download = cn_download c, sp_sampledAtMs = nowMs,
       sp_upSpeed = 0, sp_downSpeed = 0\<rparr>)"

text \<open>What the loop over the live connections collects.\<close>

record table_rows =
  tr_toUpdate :: "string \<rightharpoonup> connection"
  tr_toAdd :: "string \<rightharpoonup> connection"
  tr_sorted :: "connection list"
  tr_samples :: "string \<rightharpoonup> speed_sample"
  tr_newState :: "string set"

fun collect_rows :: "int \<Rightarrow> lister \<Rightarrow> conn list \<Rightarrow> table_rows \<Rightarrow> table_rows" where
  "collect_rows nowMs l [] t = t"
| "collect_rows nowMs l (wire # ws) t =
     (let s = sample_of nowMs (li_speedSamples l) wire;
          c = (metaFromProto wire)\<lparr>cn_uploadSpeed := sp_upSpeed s, cn_downloadSpeed := sp_downSpeed s\<rparr>;
          t = t\<lparr>tr_samples := (tr_samples t)(cn_id wire \<mapsto> s)\<rparr>;
          t = (if li_sort l = DefaultSort then
                 if cn_id wire \<in> li_state l
                 then t\<lparr>tr_toUpdate := (tr_toUpdate t)(cn_id wire \<mapsto> c)\<rparr>
                 else t\<lparr>tr_toAdd := (tr_toAdd t)(cn_id wire \<mapsto> c)\<rparr>
               else t\<lparr>tr_sorted := tr_sorted t @ [c]\<rparr>)
      in collect_rows nowMs l ws (t\<lparr>tr_newState := insert (cn_id wire) (tr_newState t)\<rparr>))"

subsection \<open>Crediting bytes\<close>

text \<open>
  The lambda \<^verbatim>\<open>credit\<close>: the bytes above the last counters seen, if any, for the process of the
  connection. The id is kept with the call to say which connection it stands for.
\<close>

record app_call =
  ac_id :: string
  ac_name :: string
  ac_path :: string
  ac_delta :: delta

definition credit :: "(string \<rightharpoonup> delta) \<Rightarrow> conn \<Rightarrow> app_call list" where
  "credit lastBytes c =
     (let (baseUp, baseDown) = (case lastBytes (cn_id c) of Some d \<Rightarrow> d | None \<Rightarrow> (0, 0));
          dUp = at_least 0 (cn_upload c - baseUp);
          dDown = at_least 0 (cn_download c - baseDown)
      in if dUp = 0 \<and> dDown = 0 then []
         else [\<lparr>ac_id = cn_id c, ac_name = (if cn_process c = [] then ''Unknown'' else cn_process c),
                ac_path = cn_process_path c, ac_delta = (dUp, dDown)\<rparr>])"

fun credit_active :: "(string \<rightharpoonup> delta) \<Rightarrow> conn list \<Rightarrow> app_call list \<times> (string \<rightharpoonup> delta) \<Rightarrow> app_call list \<times> (string \<rightharpoonup> delta)" where
  "credit_active lastBytes [] st = st"
| "credit_active lastBytes (c # cs) (calls, newLast) =
     credit_active lastBytes cs (calls @ credit lastBytes c, newLast(cn_id c \<mapsto> (cn_upload c, cn_download c)))"

fun credit_closed :: "(string \<rightharpoonup> delta) \<Rightarrow> string set \<Rightarrow> conn list \<Rightarrow> app_call list \<times> string set \<Rightarrow> app_call list \<times> string set" where
  "credit_closed lastBytes accounted [] st = st"
| "credit_closed lastBytes accounted (c # cs) (calls, current) =
     credit_closed lastBytes accounted cs
       (if cn_id c \<in> accounted then calls else calls @ credit lastBytes c, insert (cn_id c) current)"

record conns_resp =
  rs_active :: "conn list"
  rs_closed :: "conn list"

definition credit_poll :: "conns_resp \<Rightarrow> lister \<Rightarrow> lister \<times> app_call list" where
  "credit_poll resp l =
     (let (calls, newLast) = credit_active (li_lastBytes l) (rs_active resp) ([], Map.empty);
          (calls, currentClosed) =
            credit_closed (li_lastBytes l) (li_accountedClosed l) (rs_closed resp) (calls, {})
      in (l\<lparr>li_lastBytes := newLast, li_accountedClosed := currentClosed\<rparr>, calls))"

subsection \<open>Sorting\<close>

text \<open>The comparators of the nine sort fields; ties fall back on the id.\<close>

definition by_number :: "(connection \<Rightarrow> int) \<Rightarrow> bool \<Rightarrow> connection \<Rightarrow> connection \<Rightarrow> bool" where
  "by_number f asc a b =
     (if f a = f b then (if asc then cn_id a > cn_id b else cn_id a < cn_id b)
      else if asc then f a < f b else f a > f b)"

definition by_text :: "(connection \<Rightarrow> string) \<Rightarrow> bool \<Rightarrow> connection \<Rightarrow> connection \<Rightarrow> bool" where
  "by_text f asc a b =
     (if f a = f b then (if asc then cn_id a > cn_id b else cn_id a < cn_id b)
      else if asc then f a > f b else f a < f b)"

fun comes_before :: "ConnectionSort \<Rightarrow> bool \<Rightarrow> connection \<Rightarrow> connection \<Rightarrow> bool" where
  "comes_before DefaultSort asc = (\<lambda>a b. False)"
| "comes_before ByDownload asc = by_number cn_download asc"
| "comes_before ByUpload asc = by_number cn_upload asc"
| "comes_before ByProcess asc = by_text cn_process asc"
| "comes_before ByOutbound asc = by_text cn_outbound asc"
| "comes_before ByProtocol asc = by_text cn_protocol asc"
| "comes_before ByTraffic asc = by_number (\<lambda>c. cn_upload c + cn_download c) asc"
| "comes_before ByDownloadSpeed asc = by_number cn_downloadSpeed asc"
| "comes_before ByUploadSpeed asc = by_number cn_uploadSpeed asc"
| "comes_before BySpeed asc = by_number (\<lambda>c. cn_uploadSpeed c + cn_downloadSpeed c) asc"

definition setSort :: "ConnectionSort \<Rightarrow> lister \<Rightarrow> lister" where
  "setSort newSort l =
     (if li_sort l = newSort then l\<lparr>li_asc := \<not> li_asc l\<rparr>
      else l\<lparr>li_sort := newSort, li_asc := False\<rparr>)"

subsection \<open>The poll\<close>

datatype table_update =
    UpdateConnectionList "string \<rightharpoonup> connection" "string \<rightharpoonup> connection"
  | UpdateConnectionListWithRecreate "connection list"

definition lister_update :: "int \<Rightarrow> bool \<Rightarrow> conns_resp \<Rightarrow> lister \<Rightarrow> lister \<times> table_update \<times> app_call list" where
  "lister_update nowMs disable_traffic_stats resp l =
     (let t = collect_rows nowMs l (rs_active resp)
            \<lparr>tr_toUpdate = Map.empty, tr_toAdd = Map.empty, tr_sorted = [], tr_samples = Map.empty, tr_newState = {}\<rparr>;
          l = l\<lparr>li_speedSamples := tr_samples t, li_state := tr_newState t\<rparr>;
          (l, calls) = (if disable_traffic_stats then (l, []) else credit_poll resp l)
      in (l, if li_sort l = DefaultSort then UpdateConnectionList (tr_toUpdate t) (tr_toAdd t)
             else UpdateConnectionListWithRecreate (stable_sort (comes_before (li_sort l) (li_asc l)) (tr_sorted t)),
          calls))"

text \<open>The calls reach the statistics in order.\<close>

definition apply_calls :: "bool \<Rightarrow> bool \<times> bool \<Rightarrow> int \<Rightarrow> app_call list \<Rightarrow> stats \<Rightarrow> stats" where
  "apply_calls disabled ok now calls s =
     fold (\<lambda>c. AddAppDelta disabled ok now (ac_name c) (ac_path c) (ac_delta c)) calls s"

subsection \<open>Order\<close>

lemma by_number_weak: "strict_weak_order (by_number f asc)"
  by unfold_locales (auto simp: by_number_def split: if_splits)

lemma by_text_weak: "strict_weak_order (by_text f asc)"
  by unfold_locales (auto simp: by_text_def split: if_splits)

interpretation table: strict_weak_order "comes_before srt asc" for srt asc
proof -
  have "strict_weak_order (\<lambda>a b. False)" by unfold_locales auto
  then show "strict_weak_order (comes_before srt asc)"
    by (cases srt) (simp_all add: by_number_weak by_text_weak)
qed

lemma comes_before_total:
  "srt \<noteq> DefaultSort \<Longrightarrow> cn_id a \<noteq> cn_id b \<Longrightarrow> comes_before srt asc a b \<or> comes_before srt asc b a"
  by (cases srt) (auto simp: by_number_def by_text_def)

subsection \<open>One poll, one connection\<close>

text \<open>The bytes credited to one connection.\<close>

definition credited :: "string \<Rightarrow> app_call list \<Rightarrow> delta" where
  "credited i calls = dsum (map ac_delta (filter (\<lambda>c. ac_id c = i) calls))"

lemma credited_simps [simp]:
  "credited i [] = dzero" "credited i (xs @ ys) = dadd (credited i xs) (credited i ys)"
  by (simp_all add: credited_def)

definition clipped :: "delta \<Rightarrow> delta \<Rightarrow> delta" where
  "clipped base d = (max 0 (fst d - fst base), max 0 (snd d - snd base))"

definition base_of :: "(string \<rightharpoonup> delta) \<Rightarrow> string \<Rightarrow> delta" where
  "base_of lastBytes i = (case lastBytes i of Some d \<Rightarrow> d | None \<Rightarrow> (0, 0))"

definition counters_of :: "conn \<Rightarrow> delta" where
  "counters_of c = (cn_upload c, cn_download c)"

lemma credit_clipped:
  "credit lastBytes c = (if clipped (base_of lastBytes (cn_id c)) (counters_of c) = dzero then []
     else [\<lparr>ac_id = cn_id c, ac_name = (if cn_process c = [] then ''Unknown'' else cn_process c),
            ac_path = cn_process_path c,
            ac_delta = clipped (base_of lastBytes (cn_id c)) (counters_of c)\<rparr>])"
  unfolding credit_def base_of_def [symmetric] split_beta Let_def at_least_max
  by (simp add: clipped_def counters_of_def dzero_def)

lemma credited_credit:
  "credited i (credit lastBytes c) = (if cn_id c = i then clipped (base_of lastBytes i) (counters_of c) else dzero)"
  by (auto simp: credit_clipped credited_def)

lemma credit_active_calls:
  "credited i (fst (credit_active lb cs (calls, nl))) =
     dadd (credited i calls) (dsum (map (\<lambda>c. clipped (base_of lb i) (counters_of c)) (filter (\<lambda>c. cn_id c = i) cs)))"
  by (induction cs arbitrary: calls nl) (auto simp: credited_credit dadd_ac)

lemma credit_active_last:
  "snd (credit_active lb cs (calls, nl)) i =
     (case map_of (rev (map (\<lambda>c. (cn_id c, counters_of c)) cs)) i of Some d \<Rightarrow> Some d | None \<Rightarrow> nl i)"
  by (induction cs arbitrary: calls nl) (auto simp: counters_of_def split: option.splits)

lemma credit_closed_calls:
  "credited i (fst (credit_closed lb acc cs (calls, cur))) =
     dadd (credited i calls) (if i \<in> acc then dzero else
       dsum (map (\<lambda>c. clipped (base_of lb i) (counters_of c)) (filter (\<lambda>c. cn_id c = i) cs)))"
  by (induction cs arbitrary: calls cur) (auto simp: credited_credit dadd_ac)

lemma credit_closed_current: "snd (credit_closed lb acc cs (calls, cur)) = cur \<union> cn_id ` set cs"
  by (induction cs arbitrary: calls cur) auto

end
