(* ===== verification/ConnectionProps.thy ===== *)
theory ConnectionProps
  imports ConnectionLister
begin

text \<open>
  Per-application accounting counts every byte of a connection once, whenever the polls happen to look,
  unless it closes between the two reads of one answer; and the table shows one order.
\<close>

subsection \<open>Lives of a connection\<close>

datatype sighting = Absent | Live delta | Closed delta | Caught delta delta

text \<open>
  What one answer of the core shows of a connection. The core reads its live connections first and then
  its ring of closed ones: a connection that closes in between is in both, \<open>Caught\<close> with its
  counters in the one and in the other.
\<close>

definition sighting_of :: "string \<Rightarrow> conns_resp \<Rightarrow> sighting" where
  "sighting_of i resp = (case find (\<lambda>c. cn_id c = i) (rs_active resp) of
     Some c \<Rightarrow> (case find (\<lambda>c. cn_id c = i) (rs_closed resp) of
       Some d \<Rightarrow> Caught (counters_of c) (counters_of d)
     | None \<Rightarrow> Live (counters_of c))
   | None \<Rightarrow> (case find (\<lambda>c. cn_id c = i) (rs_closed resp) of
       Some c \<Rightarrow> Closed (counters_of c)
     | None \<Rightarrow> Absent))"

definition dle :: "delta \<Rightarrow> delta \<Rightarrow> bool" where
  "dle a b \<longleftrightarrow> fst a \<le> fst b \<and> snd a \<le> snd b"

text \<open>
  The counters of a live connection grow; once closed it stays in the core's ring, unchanged, until
  it is evicted, and its id is not used again.
\<close>

fun ring :: "delta \<Rightarrow> sighting list \<Rightarrow> bool" where
  "ring b [] \<longleftrightarrow> True"
| "ring b (Closed d # os) \<longleftrightarrow> d = b \<and> ring b os"
| "ring b (Absent # os) \<longleftrightarrow> list_all (\<lambda>s. s = Absent) os"
| "ring b (_ # os) \<longleftrightarrow> False"

fun alive :: "delta \<Rightarrow> sighting list \<Rightarrow> bool" where
  "alive b [] \<longleftrightarrow> True"
| "alive b (Live d # os) \<longleftrightarrow> dle b d \<and> alive d os"
| "alive b (Closed d # os) \<longleftrightarrow> dle b d \<and> ring d os"
| "alive b (Caught a d # os) \<longleftrightarrow> dle b a \<and> dle a d \<and> ring d os"
| "alive b (Absent # os) \<longleftrightarrow> list_all (\<lambda>s. s = Absent) os"

fun life :: "sighting list \<Rightarrow> bool" where
  "life (Absent # os) \<longleftrightarrow> life os"
| "life os \<longleftrightarrow> alive (0, 0) os"

text \<open>The counters when the connection was last seen.\<close>

fun final_counters :: "delta \<Rightarrow> sighting list \<Rightarrow> delta" where
  "final_counters d [] = d"
| "final_counters d (Absent # os) = final_counters d os"
| "final_counters d (Live e # os) = final_counters e os"
| "final_counters d (Closed e # os) = final_counters e os"
| "final_counters d (Caught a e # os) = final_counters e os"

text \<open>What is credited a second time: the growth up to the live counters of the poll that caught it closing.\<close>

fun counted_twice :: "delta \<Rightarrow> sighting list \<Rightarrow> delta" where
  "counted_twice b [] = dzero"
| "counted_twice b (Absent # os) = counted_twice b os"
| "counted_twice b (Live d # os) = counted_twice d os"
| "counted_twice b (Closed d # os) = counted_twice d os"
| "counted_twice b (Caught a d # os) = dadd (clipped b a) (counted_twice d os)"

lemma final_absent: "list_all (\<lambda>s. s = Absent) os \<Longrightarrow> final_counters d os = d \<and> counted_twice d os = dzero"
  by (induction os) auto

lemma final_ring: "ring b os \<Longrightarrow> final_counters b os = b \<and> counted_twice b os = dzero"
  by (induction b os rule: ring.induct) (auto simp: final_absent)

lemma clipped_dle: "dle b d \<Longrightarrow> dadd b (clipped b d) = d"
  by (cases b; cases d) (simp add: dle_def clipped_def)

lemma clipped_zero: "dle (0, 0) d \<Longrightarrow> clipped (0, 0) d = d"
  by (cases d) (simp add: dle_def clipped_def)

subsection \<open>Polls\<close>

text \<open>Either list names a connection at most once.\<close>

definition resp_ok :: "string \<Rightarrow> conns_resp \<Rightarrow> bool" where
  "resp_ok i resp \<longleftrightarrow> length (filter (\<lambda>c. cn_id c = i) (rs_active resp)) \<le> 1 \<and>
     length (filter (\<lambda>c. cn_id c = i) (rs_closed resp)) \<le> 1"

fun run_polls :: "conns_resp list \<Rightarrow> lister \<Rightarrow> lister \<times> app_call list" where
  "run_polls [] l = (l, [])"
| "run_polls (r # rs) l =
     (let (l, calls) = credit_poll r l; (l, more) = run_polls rs l in (l, calls @ more))"

lemma find_in: "find P xs = Some x \<Longrightarrow> x \<in> set xs \<and> P x"
  by (auto simp: find_Some_iff)

lemma filter_id: "length (filter P cs) \<le> 1 \<Longrightarrow> filter P cs = (case find P cs of Some c \<Rightarrow> [c] | None \<Rightarrow> [])"
  by (induction cs) auto

lemma no_find: "find P cs = None \<longleftrightarrow> filter P cs = []"
  by (induction cs) auto

lemma map_of_counters:
  assumes "length (filter (\<lambda>c. cn_id c = i) cs) \<le> 1"
  shows "map_of (rev (map (\<lambda>c. (cn_id c, counters_of c)) cs)) i =
    map_option counters_of (find (\<lambda>c. cn_id c = i) cs)"
  using assms
proof (induction cs)
  case (Cons c cs)
  show ?case
  proof (cases "cn_id c = i")
    case True
    then have "filter (\<lambda>c. cn_id c = i) cs = []" using Cons.prems by simp
    then have "map_of (rev (map (\<lambda>c. (cn_id c, counters_of c)) cs)) i = None"
      by (auto simp: map_of_eq_None_iff filter_empty_conv)
    then show ?thesis using True by (simp add: map_add_def)
  next
    case False
    then show ?thesis using Cons by (simp add: map_add_def split: option.split)
  qed
qed simp

text \<open>What a poll does to the memory of one connection and what it credits, by its sighting.\<close>

lemma credit_poll_one:
  assumes "resp_ok i resp" and "credit_poll resp l = (l', calls)"
  shows "li_lastBytes l' i = (case sighting_of i resp of Live d \<Rightarrow> Some d | Caught a d \<Rightarrow> Some a | _ \<Rightarrow> None)"
    and "i \<in> li_accountedClosed l' \<longleftrightarrow> (case sighting_of i resp of Closed d \<Rightarrow> True | Caught a d \<Rightarrow> True | _ \<Rightarrow> False)"
    and "credited i calls = (case sighting_of i resp of
      Absent \<Rightarrow> dzero
    | Live d \<Rightarrow> clipped (base_of (li_lastBytes l) i) d
    | Closed d \<Rightarrow> if i \<in> li_accountedClosed l then dzero else clipped (base_of (li_lastBytes l) i) d
    | Caught a d \<Rightarrow> dadd (clipped (base_of (li_lastBytes l) i) a)
        (if i \<in> li_accountedClosed l then dzero else clipped (base_of (li_lastBytes l) i) d))"
proof -
  have d: "length (filter (\<lambda>c. cn_id c = i) (rs_active resp)) \<le> 1" "length (filter (\<lambda>c. cn_id c = i) (rs_closed resp)) \<le> 1"
    using assms(1) by (auto simp: resp_ok_def)
  obtain c1 nl where a: "credit_active (li_lastBytes l) (rs_active resp) ([], Map.empty) = (c1, nl)" by fastforce
  obtain c2 cur where c: "credit_closed (li_lastBytes l) (li_accountedClosed l) (rs_closed resp) (c1, {}) = (c2, cur)"
    by fastforce
  have l': "l' = l\<lparr>li_lastBytes := nl, li_accountedClosed := cur\<rparr>" "calls = c2"
    using assms(2) by (simp_all add: credit_poll_def a c)
  have nl: "nl i = map_option counters_of (find (\<lambda>c. cn_id c = i) (rs_active resp))"
    using credit_active_last [of "li_lastBytes l" "rs_active resp" "[]" Map.empty i] d(1)
    by (simp add: a map_of_counters split: option.splits)
  show "li_lastBytes l' i = (case sighting_of i resp of Live d \<Rightarrow> Some d | Caught a d \<Rightarrow> Some a | _ \<Rightarrow> None)"
    by (auto simp: l' nl sighting_of_def split: option.splits)
  have cur: "cur = cn_id ` set (rs_closed resp)"
    using credit_closed_current [of "li_lastBytes l" "li_accountedClosed l" "rs_closed resp" c1 "{}"] by (simp add: c)
  have "i \<in> cn_id ` set (rs_closed resp) \<longleftrightarrow> find (\<lambda>c. cn_id c = i) (rs_closed resp) \<noteq> None"
    by (auto simp: find_None_iff)
  then show "i \<in> li_accountedClosed l' \<longleftrightarrow> (case sighting_of i resp of Closed d \<Rightarrow> True | Caught a d \<Rightarrow> True | _ \<Rightarrow> False)"
    by (auto simp: l' cur sighting_of_def split: option.splits)
  have "credited i c1 = dsum (map (\<lambda>c. clipped (base_of (li_lastBytes l) i) (counters_of c)) (filter (\<lambda>c. cn_id c = i) (rs_active resp)))"
    using credit_active_calls [of i "li_lastBytes l" "rs_active resp" "[]" Map.empty] by (simp add: a)
  moreover have "credited i c2 = dadd (credited i c1) (if i \<in> li_accountedClosed l then dzero else
       dsum (map (\<lambda>c. clipped (base_of (li_lastBytes l) i) (counters_of c)) (filter (\<lambda>c. cn_id c = i) (rs_closed resp))))"
    using credit_closed_calls [of i "li_lastBytes l" "li_accountedClosed l" "rs_closed resp" c1 "{}"] by (simp add: c)
  ultimately show "credited i calls = (case sighting_of i resp of
      Absent \<Rightarrow> dzero
    | Live d \<Rightarrow> clipped (base_of (li_lastBytes l) i) d
    | Closed d \<Rightarrow> if i \<in> li_accountedClosed l then dzero else clipped (base_of (li_lastBytes l) i) d
    | Caught a d \<Rightarrow> dadd (clipped (base_of (li_lastBytes l) i) a)
        (if i \<in> li_accountedClosed l then dzero else clipped (base_of (li_lastBytes l) i) d))"
    using d(1,2) by (auto simp: l' filter_id sighting_of_def split: option.splits)
qed

lemma run_polls_one:
  assumes "credit_poll r l = (l', calls)"
  shows "credited i (snd (run_polls (r # rs) l)) = dadd (credited i calls) (credited i (snd (run_polls rs l')))"
  using assms by (simp split: prod.split)

lemma run_gone:
  assumes "list_all (resp_ok i) rs" and "list_all (\<lambda>s. s = Absent) (map (sighting_of i) rs)"
  shows "credited i (snd (run_polls rs l)) = dzero"
  using assms
proof (induction rs arbitrary: l)
  case (Cons r rs)
  obtain l' calls where c: "credit_poll r l = (l', calls)" by fastforce
  have "credited i calls = dzero" using credit_poll_one(3) [OF _ c, where i = i] Cons.prems by simp
  then show ?case using Cons by (simp only: run_polls_one [OF c]) simp
qed simp

lemma run_ring:
  assumes "list_all (resp_ok i) rs" and "ring b (map (sighting_of i) rs)" and "i \<in> li_accountedClosed l"
  shows "credited i (snd (run_polls rs l)) = dzero"
  using assms
proof (induction rs arbitrary: l)
  case (Cons r rs)
  obtain l' calls where c: "credit_poll r l = (l', calls)" by fastforce
  have ok: "resp_ok i r" "list_all (resp_ok i) rs" using Cons.prems(1) by simp_all
  note one = credit_poll_one [OF ok(1) c]
  show ?case
  proof (cases "sighting_of i r")
    case Absent
    then have "credited i (snd (run_polls rs l')) = dzero"
      using Cons.prems(2) by (intro run_gone [OF ok(2)]) simp
    with Absent one(3) show ?thesis by (simp only: run_polls_one [OF c]) simp
  next
    case (Live d)
    with Cons.prems(2) show ?thesis by simp
  next
    case (Closed d)
    then have "credited i (snd (run_polls rs l')) = dzero"
      using Cons.prems(2) one(2) by (intro Cons.IH [OF ok(2)]) simp_all
    with Closed one(3) Cons.prems(3) show ?thesis by (simp only: run_polls_one [OF c]) simp
  qed (use Cons.prems(2) in simp)
qed simp

lemma run_alive:
  assumes "list_all (resp_ok i) rs" and "alive b (map (sighting_of i) rs)"
    and "base_of (li_lastBytes l) i = b" and "i \<notin> li_accountedClosed l"
  shows "dadd b (credited i (snd (run_polls rs l))) =
    dadd (final_counters b (map (sighting_of i) rs)) (counted_twice b (map (sighting_of i) rs))"
  using assms
proof (induction rs arbitrary: b l)
  case (Cons r rs)
  obtain l' calls where c: "credit_poll r l = (l', calls)" by fastforce
  have ok: "resp_ok i r" "list_all (resp_ok i) rs" using Cons.prems(1) by simp_all
  note one = credit_poll_one [OF ok(1) c]
  note base = Cons.prems(3)
  have rest: "credited i (snd (run_polls rs l')) = dzero" if "ring d (map (sighting_of i) rs)" "i \<in> li_accountedClosed l'" for d
    using run_ring [OF ok(2) that] .
  show ?case
  proof (cases "sighting_of i r")
    case Absent
    then have "list_all (\<lambda>s. s = Absent) (map (sighting_of i) rs)" using Cons.prems(2) by simp
    with Absent one(3) show ?thesis
      by (simp add: run_polls_one [OF c] run_gone [OF ok(2)] final_absent del: run_polls.simps)
  next
    case (Live d)
    then have "dadd d (credited i (snd (run_polls rs l'))) =
        dadd (final_counters d (map (sighting_of i) rs)) (counted_twice d (map (sighting_of i) rs))"
      using Cons.prems(2) one(1,2) by (intro Cons.IH [OF ok(2)]) (simp_all add: base_of_def)
    moreover have "dadd b (clipped b d) = d" using Live Cons.prems(2) by (intro clipped_dle) simp
    ultimately show ?thesis using Live one(3) base
      by (simp add: run_polls_one [OF c] dadd_assoc [symmetric] del: run_polls.simps)
  next
    case (Closed d)
    then have d: "ring d (map (sighting_of i) rs)" "dle b d" "i \<in> li_accountedClosed l'"
      using Cons.prems(2) one(2) by simp_all
    then show ?thesis using Closed one(3) base Cons.prems(4) rest [OF d(1,3)]
      by (simp add: run_polls_one [OF c] clipped_dle final_ring del: run_polls.simps)
  next
    case (Caught a d)
    then have d: "ring d (map (sighting_of i) rs)" "dle b d" "i \<in> li_accountedClosed l'"
      using Cons.prems(2) one(2) by (auto simp: dle_def)
    have "dadd b (dadd (clipped b a) (clipped b d)) = dadd d (clipped b a)"
      using clipped_dle [OF d(2)] by (metis dadd_assoc dadd_commute)
    then show ?thesis using Caught one(3) base Cons.prems(4) rest [OF d(1,3)]
      by (simp add: run_polls_one [OF c] final_ring [OF d(1)] del: run_polls.simps)
  qed
qed simp

text \<open>
  A connection that is seen alive twice, then twice in the ring of closed ones, and then not at
  all, beside one that lives on.
\<close>

definition demo_conn :: "string \<Rightarrow> delta \<Rightarrow> conn" where
  "demo_conn i d = \<lparr>cn_id = i, cn_created_at = 1, cn_upload = fst d, cn_download = snd d,
     cn_outbound = ''proxy'', cn_network = ''tcp'', cn_dest = ''1.1.1.1:443'', cn_protocol = ''tls'',
     cn_domain = [], cn_process = ''app'', cn_process_path = ''/bin/app'', cn_closed_at = 0\<rparr>"

definition demo_polls :: "conns_resp list" where
  "demo_polls =
     [\<lparr>rs_active = [demo_conn ''a'' (10, 100), demo_conn ''b'' (1, 1)], rs_closed = []\<rparr>,
      \<lparr>rs_active = [demo_conn ''a'' (60, 100), demo_conn ''b'' (1, 5)], rs_closed = []\<rparr>,
      \<lparr>rs_active = [demo_conn ''b'' (2, 5)], rs_closed = [demo_conn ''a'' (70, 900)]\<rparr>,
      \<lparr>rs_active = [demo_conn ''b'' (2, 5)], rs_closed = [demo_conn ''a'' (70, 900)]\<rparr>,
      \<lparr>rs_active = [demo_conn ''b'' (2, 5)], rs_closed = []\<rparr>]"


text \<open>A connection that is caught closing is credited its 60 bytes of upload twice.\<close>

lemma caught_closing_counted_twice:
  "credited ''a'' (snd (run_polls [\<lparr>rs_active = [demo_conn ''a'' (60, 100)], rs_closed = [demo_conn ''a'' (60, 100)]\<rparr>] new_lister)) =
     (120, 200)"
  by code_simp


subsection \<open>The table\<close>

text \<open>The row the loop makes of a live connection.\<close>

definition row_of :: "int \<Rightarrow> lister \<Rightarrow> conn \<Rightarrow> connection" where
  "row_of nowMs l wire = (metaFromProto wire)
     \<lparr>cn_uploadSpeed := sp_upSpeed (sample_of nowMs (li_speedSamples l) wire),
      cn_downloadSpeed := sp_downSpeed (sample_of nowMs (li_speedSamples l) wire)\<rparr>"

lemma cn_id_row_of [simp]: "cn_id (row_of nowMs l wire) = cn_id wire"
  by (simp add: row_of_def metaFromProto_def conn.defs)

lemma collect_rows_sorted:
  "li_sort l \<noteq> DefaultSort \<Longrightarrow>
    tr_sorted (collect_rows nowMs l cs t) = tr_sorted t @ map (row_of nowMs l) cs"
  by (induction cs arbitrary: t) (simp_all add: row_of_def Let_def)

lemma lister_update_rows:
  assumes "li_sort l \<noteq> DefaultSort"
  shows "fst (snd (lister_update nowMs dis resp l)) = UpdateConnectionListWithRecreate
    (stable_sort (comes_before (li_sort l) (li_asc l)) (map (row_of nowMs l) (rs_active resp)))"
proof -
  have "li_sort (fst (credit_poll resp k)) = li_sort k" "li_asc (fst (credit_poll resp k)) = li_asc k" for k
    by (simp_all add: credit_poll_def split_beta Let_def)
  with assms show ?thesis
    by (simp add: lister_update_def split_beta Let_def collect_rows_sorted)
qed

text \<open>
  Whenever a sort field is chosen, the rows handed to the table are the live connections, each
  once, in the order of that field, and no other list of those rows is in that order: the unstable
  sort of the code has one possible result, because ties fall back on the connection id.
\<close>

theorem table_order_determined:
  assumes "li_sort l \<noteq> DefaultSort" and "distinct (map cn_id (rs_active resp))"
  shows "\<exists>rows. fst (snd (lister_update nowMs dis resp l)) = UpdateConnectionListWithRecreate rows \<and>
    {rs. mset rs = image_mset (row_of nowMs l) (mset (rs_active resp)) \<and>
         sorted_wrt (\<lambda>a b. \<not> comes_before (li_sort l) (li_asc l) b a) rs} = {rows}"
proof -
  let ?rows = "stable_sort (comes_before (li_sort l) (li_asc l)) (map (row_of nowMs l) (rs_active resp))"
  have inj: "a = b" if "a \<in> set (map (row_of nowMs l) (rs_active resp))"
      "b \<in> set (map (row_of nowMs l) (rs_active resp))" "cn_id a = cn_id b" for a b
    using assms(2) that by (auto simp: distinct_map dest: inj_onD)
  have "rs = ?rows" if "mset rs = image_mset (row_of nowMs l) (mset (rs_active resp))"
      "sorted_wrt (\<lambda>a b. \<not> comes_before (li_sort l) (li_asc l) b a) rs" for rs
  proof (rule table.sorted_unique [OF _ that(2) table.sorted_stable_sort])
    show "mset rs = mset ?rows" using that(1) by simp
    have "set rs = set (map (row_of nowMs l) (rs_active resp))"
      using that(1) by (metis mset_eq_setD mset_map)
    then show "a = b" if "a \<in> set rs" "b \<in> set rs" "\<not> comes_before (li_sort l) (li_asc l) a b"
        "\<not> comes_before (li_sort l) (li_asc l) b a" for a b
      using that inj comes_before_total [OF assms(1)] by metis
  qed
  then show ?thesis
    by (intro exI [of _ ?rows] conjI lister_update_rows [OF assms(1)])
       (auto simp: table.sorted_stable_sort)
qed

lemma table_order_determined_witness:
  "\<exists>rows. fst (snd (lister_update 1000 False (hd demo_polls) (setSort ByDownload new_lister))) =
     UpdateConnectionListWithRecreate rows \<and>
    {rs. mset rs = image_mset (row_of 1000 (setSort ByDownload new_lister)) (mset (rs_active (hd demo_polls))) \<and>
         sorted_wrt (\<lambda>a b. \<not> comes_before (li_sort (setSort ByDownload new_lister))
           (li_asc (setSort ByDownload new_lister)) b a) rs} = {rows}"
  by (rule table_order_determined) code_simp+

end
