(* ===== verification/TrafficLooper.thy ===== *)
theory TrafficLooper
  imports Complex_Main Profile TrafficStats
begin

text \<open>
  The traffic loop, \<^verbatim>\<open>src/stats/traffic/TrafficLooper.cpp\<close>: every second it asks the core for
  the bytes each watched outbound moved since the last question, credits them to the profiles of the
  chain behind that outbound, and every ten seconds writes the totals of the credited profiles.
  Profiles are shared objects, so a group holds addresses into a heap; an address the heap does not
  know is the null pointer. The rates, \<^verbatim>\<open>double\<close> in the code, are exact rationals.
\<close>

type_synonym heap = "nat \<Rightarrow> profile option"

text \<open>What ends the loop's thread: \<^verbatim>\<open>map::at\<close> throwing, or a null pointer followed.\<close>

datatype loop_error = OutOfRange | NullPointer

record stats_resp =
  qs_ups :: "string \<Rightarrow> int option"
  qs_downs :: "string \<Rightarrow> int option"

record looper_entry =
  le_uplink_rate :: rat
  le_downlink_rate :: rat

definition new_entry :: looper_entry where
  "new_entry = \<lparr>le_uplink_rate = 0, le_downlink_rate = 0\<rparr>"

record looper_group =
  lg_watchTag :: string
  lg_profiles :: "nat list"
  lg_last_update :: int
  lg_uplink_rate :: rat
  lg_downlink_rate :: rat
  lg_dirty :: bool

record looper =
  lo_proxy :: "looper_entry option"
  lo_direct :: "looper_entry option"
  lo_groups :: "looper_group list"
  lo_direct_last_update :: int

definition new_looper :: looper where
  "new_looper = \<lparr>lo_proxy = None, lo_direct = None, lo_groups = [], lo_direct_last_update = 0\<rparr>"

definition kTrafficSaveIntervalSecs :: nat where "kTrafficSaveIntervalSecs = 10"

subsection \<open>One question to the core\<close>

definition credit_profile :: "delta \<Rightarrow> profile \<Rightarrow> profile" where
  "credit_profile d p = p\<lparr>pr_traffic_uplink := pr_traffic_uplink p + fst d,
     pr_traffic_downlink := pr_traffic_downlink p + snd d\<rparr>"

text \<open>The loop over the profiles of a group, with the calls of \<^verbatim>\<open>AddConfigDelta\<close> it makes.\<close>

fun credit_profiles :: "delta \<Rightarrow> nat list \<Rightarrow> heap \<times> (int \<times> delta) list \<Rightarrow> loop_error + heap \<times> (int \<times> delta) list" where
  "credit_profiles d [] st = Inr st"
| "credit_profiles d (a # as) (h, calls) = (case h a of
     None \<Rightarrow> Inl NullPointer
   | Some p \<Rightarrow> credit_profiles d as (h(a \<mapsto> credit_profile d p), calls @ [(pr_id p, d)]))"

definition per_second :: "int \<Rightarrow> int \<Rightarrow> rat" where
  "per_second bytes interval = of_int bytes * 1000 / of_int interval"

definition update_group ::
  "stats_resp \<Rightarrow> int \<Rightarrow> looper_group \<Rightarrow> heap \<times> (int \<times> delta) list \<times> looper_entry \<Rightarrow>
   loop_error + looper_group \<times> heap \<times> (int \<times> delta) list \<times> looper_entry" where
  "update_group resp now g st = (case st of (h, calls, proxy) \<Rightarrow>
     (case qs_ups resp (lg_watchTag g) of
        None \<Rightarrow> Inr (g, h, calls, proxy)
      | Some up \<Rightarrow>
          let interval = now - lg_last_update g;
              g = g\<lparr>lg_last_update := now\<rparr>
          in if interval \<le> 0 then Inr (g, h, calls, proxy)
          else case qs_downs resp (lg_watchTag g) of
            None \<Rightarrow> Inl OutOfRange
          | Some down \<Rightarrow>
              (case (if up \<noteq> 0 \<or> down \<noteq> 0 then credit_profiles (up, down) (lg_profiles g) (h, calls)
                     else Inr (h, calls)) of
                 Inl e \<Rightarrow> Inl e
               | Inr (h, calls) \<Rightarrow>
                   let g = (if up \<noteq> 0 \<or> down \<noteq> 0 then g\<lparr>lg_dirty := True\<rparr> else g);
                       g = g\<lparr>lg_uplink_rate := per_second up interval,
                             lg_downlink_rate := per_second down interval\<rparr>
                   in Inr (g, h, calls, proxy\<lparr>le_uplink_rate := le_uplink_rate proxy + lg_uplink_rate g,
                        le_downlink_rate := le_downlink_rate proxy + lg_downlink_rate g\<rparr>))))"

fun update_groups ::
  "stats_resp \<Rightarrow> int \<Rightarrow> looper_group list \<Rightarrow> heap \<times> (int \<times> delta) list \<times> looper_entry \<Rightarrow>
   loop_error + looper_group list \<times> heap \<times> (int \<times> delta) list \<times> looper_entry" where
  "update_groups resp now [] st = Inr ([], st)"
| "update_groups resp now (g # gs) st =
     (case update_group resp now g st of
        Inl e \<Rightarrow> Inl e
      | Inr (g, st) \<Rightarrow> (case update_groups resp now gs st of
          Inl e \<Rightarrow> Inl e
        | Inr (gs, st) \<Rightarrow> Inr (g # gs, st)))"

text \<open>The traffic that bypasses the proxy, credited to a reserved id.\<close>

definition update_direct ::
  "stats_resp \<Rightarrow> int \<Rightarrow> int \<Rightarrow> loop_error + int \<times> looper_entry \<times> (int \<times> delta) list" where
  "update_direct resp now last_at = (case qs_ups resp ''direct'' of
     None \<Rightarrow> Inr (last_at, new_entry, [])
   | Some up \<Rightarrow>
       let interval = now - last_at in
       if 0 < interval then
         (case qs_downs resp ''direct'' of
            None \<Rightarrow> Inl OutOfRange
          | Some down \<Rightarrow> Inr (now, \<lparr>le_uplink_rate = per_second up interval, le_downlink_rate = per_second down interval\<rparr>,
              [(DIRECT_STAT_PROFILE_ID, (up, down))]))
       else Inr (now, new_entry, []))"

definition UpdateAll ::
  "bool \<Rightarrow> stats_resp \<Rightarrow> int \<Rightarrow> looper \<times> heap \<Rightarrow> loop_error + looper \<times> heap \<times> (int \<times> delta) list" where
  "UpdateAll disable_traffic_stats resp now st = (case st of (l, h) \<Rightarrow>
     if disable_traffic_stats then Inr (l, h, [])
     else case lo_proxy l of
       None \<Rightarrow> Inl NullPointer
     | Some proxy \<Rightarrow>
         (case update_groups resp now (lo_groups l) (h, [], new_entry) of
            Inl e \<Rightarrow> Inl e
          | Inr (gs, h, calls, proxy) \<Rightarrow>
              (case lo_direct l of
                 None \<Rightarrow> Inl NullPointer
               | Some direct \<Rightarrow>
                   (case update_direct resp now (lo_direct_last_update l) of
                      Inl e \<Rightarrow> Inl e
                    | Inr (last_at, direct, dcalls) \<Rightarrow>
                        Inr (l\<lparr>lo_proxy := Some proxy, lo_direct := Some direct, lo_groups := gs,
                               lo_direct_last_update := last_at\<rparr>, h, calls @ dcalls)))))"

text \<open>The calls reach the statistics in order.\<close>

definition apply_config_calls :: "bool \<Rightarrow> bool \<times> bool \<Rightarrow> int \<Rightarrow> (int \<times> delta) list \<Rightarrow> stats \<Rightarrow> stats" where
  "apply_config_calls disabled ok now calls s = fold (\<lambda>(i, d). AddConfigDelta disabled ok now i d) calls s"

subsection \<open>Writing the totals\<close>

text \<open>The key of the loops that skip null pointers, temporary profiles and ids already seen.\<close>

definition saved_id :: "heap \<Rightarrow> nat \<Rightarrow> int option" where
  "saved_id h a = (case h a of None \<Rightarrow> None | Some p \<Rightarrow> if pr_id p < 0 then None else Some (pr_id p))"

text \<open>The traffic columns of the \<^verbatim>\<open>profiles\<close> table, up and down, by id.\<close>

type_synonym traffic_rows = "int \<Rightarrow> delta option"

definition traffic_of :: "profile \<Rightarrow> delta" where
  "traffic_of p = (pr_traffic_uplink p, pr_traffic_downlink p)"

definition update_row :: "profile \<Rightarrow> traffic_rows \<Rightarrow> traffic_rows" where
  "update_row p db = (if db (pr_id p) = None then db else db(pr_id p \<mapsto> traffic_of p))"

text \<open>One transaction; \<open>ok\<close> says whether it commits.\<close>

definition SaveTrafficBatch :: "bool \<Rightarrow> profile list \<Rightarrow> traffic_rows \<Rightarrow> traffic_rows" where
  "SaveTrafficBatch ok ps db =
     (let valid = filter (\<lambda>p. 0 \<le> pr_id p) ps in if ok then fold update_row valid db else db)"

definition dirty_profiles :: "heap \<Rightarrow> looper \<Rightarrow> nat list" where
  "dirty_profiles h l = keep_first (saved_id h) [] (concat (map lg_profiles (filter lg_dirty (lo_groups l))))"

definition PersistTraffic :: "bool \<Rightarrow> heap \<Rightarrow> looper \<times> traffic_rows \<Rightarrow> looper \<times> traffic_rows" where
  "PersistTraffic ok h st = (case st of (l, db) \<Rightarrow>
     let all = dirty_profiles h l;
         l = l\<lparr>lo_groups := map (lg_dirty_update (\<lambda>_. False)) (lo_groups l)\<rparr>
     in if all = [] then (l, db) else (l, SaveTrafficBatch ok (map (the \<circ> h) all) db))"

subsection \<open>A new configuration\<close>

record chain_group =
  cg_watchTag :: string
  cg_profiles :: "nat list"

definition start_group :: "int \<Rightarrow> chain_group \<Rightarrow> looper_group" where
  "start_group now cg = \<lparr>lg_watchTag = cg_watchTag cg, lg_profiles = cg_profiles cg, lg_last_update = now,
     lg_uplink_rate = 0, lg_downlink_rate = 0, lg_dirty = False\<rparr>"

definition snapshot_profile ::
  "bool \<Rightarrow> int \<Rightarrow> (int \<Rightarrow> string option) \<Rightarrow> profile \<Rightarrow> stats \<Rightarrow> stats" where
  "snapshot_profile disabled now groupName p s =
     SnapshotConfigMeta disabled now (pr_id p)
       (case pr_outbound p of Some ob \<Rightarrow> DisplayName ob | None \<Rightarrow> pr_name p)
       (case groupName (pr_gid p) of Some n \<Rightarrow> n | None \<Rightarrow> [])
       (pr_type p)
       (case pr_outbound p of Some ob \<Rightarrow> ob_address ob | None \<Rightarrow> []) s"

definition SetChainGroups ::
  "bool \<Rightarrow> int \<Rightarrow> int \<Rightarrow> (int \<Rightarrow> string option) \<Rightarrow> heap \<Rightarrow> chain_group list \<Rightarrow> looper \<times> stats \<Rightarrow> looper \<times> stats" where
  "SetChainGroups disabled elapsed now groupName h configGroups st = (case st of (l, s) \<Rightarrow>
     let gs = map (start_group elapsed)
                (filter (\<lambda>cg. cg_watchTag cg \<noteq> [] \<and> cg_profiles cg \<noteq> []) configGroups);
         s = EnsureDirectMeta disabled now s;
         snapshotted = keep_first (saved_id h) [] (concat (map lg_profiles gs))
     in (\<lparr>lo_proxy = Some new_entry, lo_direct = Some new_entry, lo_groups = gs, lo_direct_last_update = elapsed\<rparr>,
         fold (\<lambda>a. snapshot_profile disabled now groupName (the (h a))) snapshotted s))"

subsection \<open>The loop\<close>

datatype ui_event =
    StatusStopped
  | StatusRates looper_entry looper_entry
  | TrafficGraph rat rat rat rat
  | RefreshProxyList "int list"

record loop_thread =
  lt_secs_since_save :: nat
  lt_looping :: bool

definition refresh_ids :: "heap \<Rightarrow> looper \<Rightarrow> int list" where
  "refresh_ids h l = map (the \<circ> saved_id h) (keep_first (saved_id h) [] (concat (map lg_profiles (lo_groups l))))"

definition post_to_ui :: "heap \<Rightarrow> looper \<Rightarrow> ui_event list" where
  "post_to_ui h l =
     (case (lo_proxy l, lo_direct l) of
        (Some proxy, Some direct) \<Rightarrow>
          [StatusRates proxy direct, TrafficGraph (le_downlink_rate proxy) (le_uplink_rate proxy)
             (le_downlink_rate direct) (le_uplink_rate direct)]
      | _ \<Rightarrow> [])
     @ (if refresh_ids h l = [] then [] else [RefreshProxyList (refresh_ids h l)])"

text \<open>
  One turn of \<^verbatim>\<open>Loop()\<close> after its one-second sleep: the counters of the thread, the looper, the
  heap and the database, and what is credited and shown. \<open>ok\<close> says whether a write commits.
\<close>

definition loop_turn ::
  "bool \<Rightarrow> bool \<Rightarrow> stats_resp \<Rightarrow> int \<Rightarrow> bool \<Rightarrow> loop_thread \<times> looper \<times> heap \<times> traffic_rows \<Rightarrow>
   loop_error + (loop_thread \<times> looper \<times> heap \<times> traffic_rows) \<times> (int \<times> delta) list \<times> ui_event list" where
  "loop_turn disabled loop_enabled resp now ok st = (case st of (t, l, h, db) \<Rightarrow>
     if disabled then Inr ((t, l, h, db), [], [])
     else if \<not> loop_enabled then
       Inr ((t\<lparr>lt_looping := False\<rparr>, l, h, db), [],
            (if lt_looping t then [StatusStopped] else []) @ [TrafficGraph 0 0 0 0])
     else case UpdateAll disabled resp now (l, h) of
       Inl e \<Rightarrow> Inl e
     | Inr (l, h, calls) \<Rightarrow>
         let t = t\<lparr>lt_looping := True, lt_secs_since_save := lt_secs_since_save t + 1\<rparr>;
             (t, l, db) = (if kTrafficSaveIntervalSecs \<le> lt_secs_since_save t
                then let (l, db) = PersistTraffic ok h (l, db) in (t\<lparr>lt_secs_since_save := 0\<rparr>, l, db)
                else (t, l, db))
         in Inr ((t, l, h, db), calls, post_to_ui h l))"

end
