(* ===== verification/TrafficLooperProps.thy ===== *)
theory TrafficLooperProps
  imports TrafficLooper TrafficStatsProps
begin

text \<open>
  The two books of the traffic loop, the totals kept in the profiles and the time series, agree;
  the loop's thread does not die; and no credited byte is left unsaved.
\<close>

subsection \<open>Booking credits\<close>

text \<open>The heap after a list of credits, each addressed to a profile id.\<close>

definition book :: "(int \<times> delta) list \<Rightarrow> heap \<Rightarrow> heap" where
  "book calls h = (\<lambda>a. map_option (\<lambda>p. credit_profile (amount (\<lambda>i. i = pr_id p) calls) p) (h a))"

text \<open>\<^verbatim>\<open>ProfilesRepo\<close> hands out one object per id, and the reserved id of direct traffic to none.\<close>

definition ids_distinct :: "heap \<Rightarrow> bool" where
  "ids_distinct h \<longleftrightarrow> (\<forall>a b p q. h a = Some p \<longrightarrow> h b = Some q \<longrightarrow> pr_id p = pr_id q \<longrightarrow> a = b)"

definition no_direct :: "heap \<Rightarrow> bool" where
  "no_direct h \<longleftrightarrow> (\<forall>a p. h a = Some p \<longrightarrow> pr_id p \<noteq> DIRECT_STAT_PROFILE_ID)"

lemma credit_profile_simps [simp]:
  "credit_profile dzero p = p" "credit_profile e (credit_profile d p) = credit_profile (dadd d e) p"
  "pr_id (credit_profile d p) = pr_id p" "pr_gid (credit_profile d p) = pr_gid p"
  by (simp_all add: credit_profile_def dzero_def dadd_def)

lemma traffic_credit [simp]: "traffic_of (credit_profile d p) = dadd (traffic_of p) d"
  by (simp add: credit_profile_def traffic_of_def dadd_def)

lemma book_nil [simp]: "book [] h = h"
  by (rule ext) (simp add: book_def option.map_ident)

lemma book_some: "book calls h a = Some q \<longleftrightarrow>
    (\<exists>p. h a = Some p \<and> q = credit_profile (amount (\<lambda>i. i = pr_id p) calls) p)"
  by (auto simp: book_def)

lemma book_none [simp]: "book calls h a = None \<longleftrightarrow> h a = None"
  by (simp add: book_def)

lemma book_append: "book (xs @ ys) h = book ys (book xs h)"
  by (rule ext) (simp add: book_def option.map_comp comp_def)

lemma book_one:
  assumes "ids_distinct h" and "h a = Some p"
  shows "book [(pr_id p, d)] h = h(a \<mapsto> credit_profile d p)"
proof
  fix b
  have "h b = Some q \<Longrightarrow> pr_id q = pr_id p \<Longrightarrow> b = a" for q
    using assms unfolding ids_distinct_def by blast
  then show "book [(pr_id p, d)] h b = (h(a \<mapsto> credit_profile d p)) b"
    using assms(2) by (cases "h b") (auto simp: book_def)
qed

lemma ids_distinct_book [simp]: "ids_distinct (book calls h) = ids_distinct h"
  unfolding ids_distinct_def book_def by (auto simp: map_option_case split: option.splits)

definition id_at :: "heap \<Rightarrow> nat \<Rightarrow> int" where
  "id_at h a = pr_id (the (h a))"

lemma id_at_book [simp]: "h a \<noteq> None \<Longrightarrow> id_at (book calls h) a = id_at h a"
  by (auto simp: id_at_def book_def)

lemma credit_profiles_books:
  assumes "ids_distinct h" and "\<forall>a \<in> set as. h a \<noteq> None"
  shows "credit_profiles d as (h, calls) =
    Inr (book (map (\<lambda>a. (id_at h a, d)) as) h, calls @ map (\<lambda>a. (id_at h a, d)) as)"
  using assms
proof (induction as arbitrary: h calls)
  case (Cons a as)
  then obtain p where p: "h a = Some p" by auto
  have one: "book [(pr_id p, d)] h = h(a \<mapsto> credit_profile d p)" by (rule book_one [OF Cons.prems(1) p])
  let ?h = "h(a \<mapsto> credit_profile d p)"
  have "ids_distinct ?h" "\<forall>b \<in> set as. ?h b \<noteq> None"
    using Cons.prems p one [symmetric] by simp_all
  moreover have maps: "map (\<lambda>b. (id_at ?h b, d)) as = map (\<lambda>b. (id_at h b, d)) as"
    using p by (auto simp: id_at_def)
  ultimately have "credit_profiles d as (?h, calls @ [(pr_id p, d)]) =
      Inr (book (map (\<lambda>b. (id_at h b, d)) as) ?h, (calls @ [(pr_id p, d)]) @ map (\<lambda>b. (id_at h b, d)) as)"
    using Cons.IH [of ?h "calls @ [(pr_id p, d)]"] by (simp only: maps)
  moreover have "book ((pr_id p, d) # xs) h = book xs ?h" for xs
    using book_append [of "[(pr_id p, d)]" xs h] one by simp
  moreover have "id_at h a = pr_id p" using p by (simp add: id_at_def)
  ultimately show ?case using p by simp
qed simp

subsection \<open>What one turn credits\<close>

text \<open>What a group credits, if anything.\<close>

definition group_delta :: "stats_resp \<Rightarrow> int \<Rightarrow> looper_group \<Rightarrow> delta option" where
  "group_delta resp now g = (case (qs_ups resp (lg_watchTag g), qs_downs resp (lg_watchTag g)) of
     (Some up, Some down) \<Rightarrow> if lg_last_update g < now \<and> (up, down) \<noteq> (0, 0) then Some (up, down) else None
   | _ \<Rightarrow> None)"

definition group_calls :: "stats_resp \<Rightarrow> int \<Rightarrow> heap \<Rightarrow> looper_group \<Rightarrow> (int \<times> delta) list" where
  "group_calls resp now h g = (case group_delta resp now g of
     Some d \<Rightarrow> map (\<lambda>a. (id_at h a, d)) (lg_profiles g) | None \<Rightarrow> [])"

definition direct_calls :: "stats_resp \<Rightarrow> int \<Rightarrow> looper \<Rightarrow> (int \<times> delta) list" where
  "direct_calls resp now l = (case (qs_ups resp ''direct'', qs_downs resp ''direct'') of
     (Some up, Some down) \<Rightarrow> if lo_direct_last_update l < now then [(DIRECT_STAT_PROFILE_ID, (up, down))] else []
   | _ \<Rightarrow> [])"

text \<open>The answer of the core names the same outbounds in both directions.\<close>

definition resp_paired :: "stats_resp \<Rightarrow> bool" where
  "resp_paired resp \<longleftrightarrow> (\<forall>tag. qs_ups resp tag \<noteq> None \<longrightarrow> qs_downs resp tag \<noteq> None)"

definition group_valid :: "heap \<Rightarrow> looper_group \<Rightarrow> bool" where
  "group_valid h g \<longleftrightarrow> (\<forall>a \<in> set (lg_profiles g). h a \<noteq> None)"

definition looper_valid :: "heap \<Rightarrow> looper \<Rightarrow> bool" where
  "looper_valid h l \<longleftrightarrow> lo_proxy l \<noteq> None \<and> lo_direct l \<noteq> None \<and> (\<forall>g \<in> set (lo_groups l). group_valid h g)"

definition follows :: "stats_resp \<Rightarrow> int \<Rightarrow> looper_group \<Rightarrow> looper_group \<Rightarrow> bool" where
  "follows resp now g g' \<longleftrightarrow> lg_profiles g' = lg_profiles g \<and> lg_watchTag g' = lg_watchTag g \<and>
     (lg_dirty g' \<longleftrightarrow> lg_dirty g \<or> group_delta resp now g \<noteq> None)"

lemma update_group_books:
  assumes "ids_distinct h" and "resp_paired resp" and "group_valid h g"
  shows "\<exists>g' e'. update_group resp now g (h, calls, e) =
      Inr (g', book (group_calls resp now h g) h, calls @ group_calls resp now h g, e') \<and> follows resp now g g'"
proof -
  have down: "qs_ups resp (lg_watchTag g) = Some u \<Longrightarrow> \<exists>d. qs_downs resp (lg_watchTag g) = Some d" for u
    using assms(2) by (auto simp: resp_paired_def)
  note cp = credit_profiles_books [OF assms(1), of "lg_profiles g"]
  show ?thesis
    using assms(3) down
    by (cases "qs_ups resp (lg_watchTag g)")
       (force simp: update_group_def Let_def group_calls_def group_delta_def follows_def cp group_valid_def)+
qed

lemma update_groups_books:
  assumes "ids_distinct h" and "resp_paired resp" and "\<forall>g \<in> set gs. group_valid h g"
  shows "\<exists>gs' e'. update_groups resp now gs (h, calls, e) =
      Inr (gs', book (concat (map (group_calls resp now h) gs)) h,
           calls @ concat (map (group_calls resp now h) gs), e') \<and> list_all2 (follows resp now) gs gs'"
  using assms
proof (induction gs arbitrary: h calls e)
  case (Cons g gs)
  let ?c = "group_calls resp now h g"
  obtain g' e' where one: "update_group resp now g (h, calls, e) = Inr (g', book ?c h, calls @ ?c, e')"
      and f: "follows resp now g g'"
    using update_group_books [OF Cons.prems(1,2), of g now calls e] Cons.prems(3) by (meson list.set_intros(1))
  have ids: "group_calls resp now (book ?c h) k = group_calls resp now h k" if "k \<in> set gs" for k
    using that Cons.prems(3) by (auto simp: group_calls_def group_valid_def split: option.splits)
  have valid: "\<forall>k \<in> set gs. group_valid (book ?c h) k"
    using Cons.prems(3) by (simp add: group_valid_def)
  obtain gs' e'' where "update_groups resp now gs (book ?c h, calls @ ?c, e') =
      Inr (gs', book (concat (map (group_calls resp now h) gs)) (book ?c h),
           (calls @ ?c) @ concat (map (group_calls resp now h) gs), e'')" "list_all2 (follows resp now) gs gs'"
    using Cons.IH [OF _ Cons.prems(2) valid, of "calls @ ?c" e'] Cons.prems(1)
    by (auto simp: ids cong: map_cong)
  with one f show ?case by (auto simp: book_append)
qed simp

lemma update_direct_ok:
  assumes "resp_paired resp"
  shows "\<exists>last_at e. update_direct resp now (lo_direct_last_update l) = Inr (last_at, e, direct_calls resp now l)"
proof -
  have "qs_ups resp ''direct'' = Some u \<Longrightarrow> \<exists>d. qs_downs resp ''direct'' = Some d" for u
    using assms by (auto simp: resp_paired_def)
  then show ?thesis
    by (cases "qs_ups resp ''direct''") (force simp: update_direct_def direct_calls_def Let_def)+
qed

lemma UpdateAll_books:
  assumes "looper_valid h l" and "ids_distinct h" and "resp_paired resp"
  shows "\<exists>l'. UpdateAll False resp now (l, h) =
      Inr (l', book (concat (map (group_calls resp now h) (lo_groups l))) h,
        concat (map (group_calls resp now h) (lo_groups l)) @ direct_calls resp now l) \<and>
    lo_proxy l' \<noteq> None \<and> lo_direct l' \<noteq> None \<and> list_all2 (follows resp now) (lo_groups l) (lo_groups l')"
proof -
  obtain p d where pd: "lo_proxy l = Some p" "lo_direct l = Some d"
      and valid: "\<forall>g \<in> set (lo_groups l). group_valid h g"
    using assms(1) by (auto simp: looper_valid_def)
  obtain gs' e' where "update_groups resp now (lo_groups l) (h, [], new_entry) =
      Inr (gs', book (concat (map (group_calls resp now h) (lo_groups l))) h,
           concat (map (group_calls resp now h) (lo_groups l)), e')" "list_all2 (follows resp now) (lo_groups l) gs'"
    using update_groups_books [OF assms(2,3) valid, of now "[]" new_entry] by auto
  moreover obtain last_at e where
      "update_direct resp now (lo_direct_last_update l) = Inr (last_at, e, direct_calls resp now l)"
    using update_direct_ok [OF assms(3)] by blast
  ultimately show ?thesis by (simp add: UpdateAll_def pd)
qed

lemma follows_valid:
  assumes "list_all2 (follows resp now) gs gs'" and "\<forall>g \<in> set gs. group_valid h g"
  shows "\<forall>g \<in> set gs'. group_valid (book calls h) g"
  using assms by (induction rule: list_all2_induct) (auto simp: follows_def group_valid_def)

lemma book_direct:
  assumes "no_direct h"
  shows "book (calls @ direct_calls resp now l) h = book calls h"
proof -
  have "amount (\<lambda>i. i = pr_id p) (direct_calls resp now l) = dzero" if "h a = Some p" for a p
    using assms that by (fastforce simp: direct_calls_def no_direct_def split: option.splits)
  then show ?thesis by (auto simp: book_def fun_eq_iff map_option_case split: option.splits)
qed

lemma no_direct_book [simp]: "no_direct (book calls h) = no_direct h"
  unfolding no_direct_def book_def by (auto simp: map_option_case split: option.splits)

subsection \<open>The two books\<close>

text \<open>
  A tick: the core's answer, the two clocks, and whether the aggregation is switched off. The last component
  of the result is what was credited while it was.
\<close>

fun run_ticks ::
  "(stats_resp \<times> int \<times> int \<times> bool) list \<Rightarrow> looper \<times> heap \<times> stats \<Rightarrow>
   loop_error + looper \<times> heap \<times> stats \<times> (int \<times> delta) list" where
  "run_ticks [] (l, h, s) = Inr (l, h, s, [])"
| "run_ticks ((resp, elapsed, clock, off) # ts) (l, h, s) =
     (case UpdateAll False resp elapsed (l, h) of
        Inl e \<Rightarrow> Inl e
      | Inr (l, h, calls) \<Rightarrow> (case run_ticks ts (l, h, apply_config_calls off (True, True) clock calls s) of
          Inl e \<Rightarrow> Inl e
        | Inr (l, h, s, missed) \<Rightarrow> Inr (l, h, s, (if off then calls else []) @ missed)))"

definition tick_ok :: "int \<Rightarrow> stats_resp \<times> int \<times> int \<times> bool \<Rightarrow> bool" where
  "tick_ok from t \<longleftrightarrow> resp_paired (fst t) \<and> from \<le> fst (snd (snd t))"

lemma apply_config_calls_off [simp]: "apply_config_calls True ok now calls s = s"
  by (induction calls arbitrary: s) (auto simp: apply_config_calls_def AddConfigDelta_def)

lemma apply_config_calls_total:
  assumes "accum_ok from s" and "0 < from" and "3600 dvd from" and "from \<le> now"
  shows "config_total from P (apply_config_calls False (True, True) now calls s) =
      dadd (amount P calls) (config_total from P s) \<and>
    accum_ok from (apply_config_calls False (True, True) now calls s)"
  using assms(1)
proof (induction calls arbitrary: s)
  case (Cons c calls)
  obtain i d where c: "c = (i, d)" by (cases c) blast
  note one = AddConfigDelta_total [OF Cons.prems assms(2-4), where i = i and d = d]
  show ?case using Cons.IH [OF one(3)] one(1) by (simp add: apply_config_calls_def c dadd_ac)
qed (simp add: apply_config_calls_def)

lemma run_ticks_books:
  assumes "looper_valid h l" and "ids_distinct h" and "no_direct h" and "list_all (tick_ok from) ts"
    and "accum_ok from s" and "0 < from" and "3600 dvd from"
  shows "\<exists>l' s' cs missed. run_ticks ts (l, h, s) = Inr (l', book cs h, s', missed) \<and>
    (\<forall>P. dadd (config_total from P s') (amount P missed) = dadd (amount P cs) (config_total from P s))"
  using assms
proof (induction ts arbitrary: l h s)
  case Nil
  have "run_ticks [] (l, h, s) = Inr (l, book [] h, s, []) \<and>
      (\<forall>P. dadd (config_total from P s) (amount P []) = dadd (amount P []) (config_total from P s))" by simp
  then show ?case by blast
next
  case (Cons t ts)
  obtain resp elapsed clock off where t: "t = (resp, elapsed, clock, off)" by (rule prod_cases4)
  let ?g = "concat (map (group_calls resp elapsed h) (lo_groups l))"
  let ?c = "?g @ direct_calls resp elapsed l"
  let ?s = "apply_config_calls off (True, True) clock ?c s"
  let ?m = "if off then ?c else []"
  have ok: "resp_paired resp" "from \<le> clock" "list_all (tick_ok from) ts"
    using Cons.prems(4) by (auto simp: t tick_ok_def [of "from" "(resp, elapsed, clock, off)"])
  obtain l' where u: "UpdateAll False resp elapsed (l, h) = Inr (l', book ?c h, ?c)"
      and l': "lo_proxy l' \<noteq> None" "lo_direct l' \<noteq> None" "list_all2 (follows resp elapsed) (lo_groups l) (lo_groups l')"
    using UpdateAll_books [OF Cons.prems(1,2) ok(1), of elapsed] book_direct [OF Cons.prems(3), of ?g resp elapsed l]
    by auto
  have valid: "looper_valid (book ?c h) l'"
    using Cons.prems(1) l' follows_valid [OF l'(3)] by (simp add: looper_valid_def)
  have tot: "accum_ok from ?s" "dadd (config_total from P ?s) (amount P ?m) = dadd (amount P ?c) (config_total from P s)" for P
    using apply_config_calls_total [OF Cons.prems(5-7) ok(2), of P ?c] Cons.prems(5) by (cases off; simp add: dadd_commute)+
  obtain l'' s'' cs missed where r: "run_ticks ts (l', book ?c h, ?s) = Inr (l'', book cs (book ?c h), s'', missed)"
      "\<forall>P. dadd (config_total from P s'') (amount P missed) = dadd (amount P cs) (config_total from P ?s)"
    using Cons.IH [OF valid _ _ ok(3) tot(1) Cons.prems(6,7)] Cons.prems(2,3) by auto
  have "run_ticks (t # ts) (l, h, s) = Inr (l'', book (?c @ cs) h, s'', ?m @ missed)"
    using u r(1) by (simp add: t book_append)
  moreover have "dadd (config_total from P s'') (amount P (?m @ missed)) = dadd (amount P (?c @ cs)) (config_total from P s)" for P
  proof -
    have "dadd (config_total from P s'') (amount P (?m @ missed)) =
        dadd (dadd (config_total from P s'') (amount P missed)) (amount P ?m)"
      by (simp only: amount_simps(3) dadd_ac)
    also have "\<dots> = dadd (amount P cs) (dadd (config_total from P ?s) (amount P ?m))"
      by (simp only: r(2) dadd_assoc)
    also have "\<dots> = dadd (amount P (?c @ cs)) (config_total from P s)" unfolding tot(2) by (simp add: dadd_ac)
    finally show ?thesis .
  qed
  ultimately show ?case by blast
qed

text \<open>
  C20: The two books agree. However often the loop asks the core with the statistics on, its thread does not
  die as long as the core names each outbound in both directions, and every profile's own total grows
  by exactly the bytes the time series gains for it, however many chains and automatic selectors the
  profile is credited through, and by what it was credited while the aggregation was switched off, which
  the series does not get. It is assumed that every write of the series commits (a drained minute whose
  write fails is lost) and that the clock does not run back before the start of the window.
\<close>

theorem traffic_books_agree:
  assumes "looper_valid h l" and "ids_distinct h" and "no_direct h" and "list_all (tick_ok from) ts"
    and "accum_ok from s" and "0 < from" and "3600 dvd from"
  shows "\<exists>l' h' s' missed. run_ticks ts (l, h, s) = Inr (l', h', s', missed) \<and>
    (\<forall>a p. h a = Some p \<longrightarrow> (\<exists>q. h' a = Some q \<and>
       dadd (traffic_of q) (config_total from (\<lambda>i. i = pr_id p) s) =
       dadd (traffic_of p) (dadd (config_total from (\<lambda>i. i = pr_id p) s') (amount (\<lambda>i. i = pr_id p) missed))))"
proof -
  obtain l' s' cs missed where r: "run_ticks ts (l, h, s) = Inr (l', book cs h, s', missed)"
      and tot: "\<forall>P. dadd (config_total from P s') (amount P missed) = dadd (amount P cs) (config_total from P s)"
    using run_ticks_books [OF assms] by blast
  have "\<exists>q. book cs h a = Some q \<and>
       dadd (traffic_of q) (config_total from (\<lambda>i. i = pr_id p) s) =
       dadd (traffic_of p) (dadd (config_total from (\<lambda>i. i = pr_id p) s') (amount (\<lambda>i. i = pr_id p) missed))" if "h a = Some p" for a p
    using that tot by (auto simp: book_def dadd_ac)
  with r show ?thesis by blast
qed

text \<open>Two profiles behind one outbound, one of them also behind another.\<close>

definition demo_heap :: heap where
  "demo_heap = [1 \<mapsto> new_profile\<lparr>pr_id := 7\<rparr>, 2 \<mapsto> new_profile\<lparr>pr_id := 8, pr_traffic_uplink := 5\<rparr>]"

definition demo_looper :: looper where
  "demo_looper = fst (SetChainGroups False 0 7200 (\<lambda>_. None) demo_heap
     [\<lparr>cg_watchTag = ''a'', cg_profiles = [1, 2]\<rparr>, \<lparr>cg_watchTag = ''b'', cg_profiles = [2]\<rparr>] (new_looper, new_stats))"

definition demo_ticks :: "(stats_resp \<times> int \<times> int \<times> bool) list" where
  "demo_ticks =
     [(\<lparr>qs_ups = [''a'' \<mapsto> 10, ''direct'' \<mapsto> 3], qs_downs = [''a'' \<mapsto> 100, ''direct'' \<mapsto> 0]\<rparr>, 1000, 7200, False),
      (\<lparr>qs_ups = [''a'' \<mapsto> 1, ''b'' \<mapsto> 2], qs_downs = [''a'' \<mapsto> 0, ''b'' \<mapsto> 50]\<rparr>, 2000, 7201, True)]"

lemma demo_heap_ok: "ids_distinct demo_heap" "no_direct demo_heap"
  by (auto simp: demo_heap_def ids_distinct_def no_direct_def DIRECT_STAT_PROFILE_ID_def split: if_splits)

lemma demo_looper_valid: "looper_valid demo_heap demo_looper"
  by (simp add: looper_valid_def demo_looper_def SetChainGroups_def start_group_def group_valid_def demo_heap_def)

lemma demo_ticks_ok: "list_all (tick_ok 3600) demo_ticks"
  by (simp add: demo_ticks_def tick_ok_def resp_paired_def)

lemma traffic_books_agree_witness:
  "\<exists>l' h' s' missed. run_ticks demo_ticks (demo_looper, demo_heap, new_stats) = Inr (l', h', s', missed) \<and>
    (\<forall>a p. demo_heap a = Some p \<longrightarrow> (\<exists>q. h' a = Some q \<and>
       dadd (traffic_of q) (config_total 3600 (\<lambda>i. i = pr_id p) new_stats) =
       dadd (traffic_of p) (dadd (config_total 3600 (\<lambda>i. i = pr_id p) s') (amount (\<lambda>i. i = pr_id p) missed))))"
  by (rule traffic_books_agree [OF demo_looper_valid demo_heap_ok demo_ticks_ok])
     (simp_all add: accum_ok_def new_stats_def)

subsection \<open>Saving\<close>

lemma update_row_apply:
  "update_row p db i = (if i = pr_id p \<and> db i \<noteq> None then Some (traffic_of p) else db i)"
  by (auto simp: update_row_def)

lemma fold_update_row_other:
  "\<forall>p \<in> set ps. pr_id p \<noteq> i \<Longrightarrow> fold update_row ps db i = db i"
  by (induction ps arbitrary: db) (auto simp: update_row_apply)

lemma fold_update_row_dom: "fold update_row ps db i = None \<longleftrightarrow> db i = None"
  by (induction ps arbitrary: db) (auto simp: update_row_apply)

lemma fold_update_row_in:
  assumes "distinct (map pr_id ps)" and "p \<in> set ps" and "db (pr_id p) \<noteq> None"
  shows "fold update_row ps db (pr_id p) = Some (traffic_of p)"
  using assms
proof (induction ps arbitrary: db)
  case (Cons q ps)
  show ?case
  proof (cases "p = q")
    case True
    then have "pr_id p \<notin> pr_id ` set ps" using Cons.prems(1) by simp
    then have "\<forall>x \<in> set ps. pr_id x \<noteq> pr_id p" by (metis image_eqI)
    then have "fold update_row ps (update_row q db) (pr_id p) = update_row q db (pr_id p)"
      by (rule fold_update_row_other)
    moreover have "update_row q db (pr_id p) = Some (traffic_of p)"
      using True Cons.prems(3) by (simp add: update_row_apply [of q db])
    ultimately show ?thesis by simp
  next
    case False
    with Cons.prems have "fold update_row ps (update_row q db) (pr_id p) = Some (traffic_of p)"
      by (intro Cons.IH) (auto simp: update_row_apply [of q db])
    then show ?thesis by simp
  qed
qed simp

text \<open>A total that differs from its row sits in a dirty group.\<close>

definition unsaved_dirty :: "heap \<Rightarrow> looper \<Rightarrow> traffic_rows \<Rightarrow> bool" where
  "unsaved_dirty h l db \<longleftrightarrow> (\<forall>a p d. h a = Some p \<longrightarrow> 0 \<le> pr_id p \<longrightarrow> db (pr_id p) = Some d \<longrightarrow>
     d \<noteq> traffic_of p \<longrightarrow> (\<exists>g \<in> set (lo_groups l). lg_dirty g \<and> a \<in> set (lg_profiles g)))"

definition all_saved :: "heap \<Rightarrow> traffic_rows \<Rightarrow> bool" where
  "all_saved h db \<longleftrightarrow> (\<forall>a p d. h a = Some p \<longrightarrow> 0 \<le> pr_id p \<longrightarrow> db (pr_id p) = Some d \<longrightarrow> d = traffic_of p)"

lemma saved_id_some: "saved_id h a = Some i \<longleftrightarrow> (\<exists>p. h a = Some p \<and> 0 \<le> pr_id p \<and> i = pr_id p)"
  by (auto simp: saved_id_def split: option.splits)

lemma dirty_profiles_valid: "a \<in> set (dirty_profiles h l) \<Longrightarrow> \<exists>p. h a = Some p \<and> 0 \<le> pr_id p"
  using keep_first_subset [of "saved_id h"] by (fastforce simp: dirty_profiles_def saved_id_some)

lemma dirty_profiles_ids: "distinct (map pr_id (map (the \<circ> h) (dirty_profiles h l)))"
proof -
  have "map pr_id (map (the \<circ> h) (dirty_profiles h l)) = map (the \<circ> saved_id h) (dirty_profiles h l)"
    using dirty_profiles_valid by (fastforce simp: saved_id_def split: option.splits)
  moreover have "distinct (map (the \<circ> saved_id h) (dirty_profiles h l))"
    unfolding dirty_profiles_def by (rule keep_first_distinct)
  ultimately show ?thesis by metis
qed

lemma dirty_profiles_all:
  assumes "ids_distinct h" and "h a = Some p" and "0 \<le> pr_id p"
    and "g \<in> set (lo_groups l)" and "lg_dirty g" and "a \<in> set (lg_profiles g)"
  shows "a \<in> set (dirty_profiles h l)"
proof -
  let ?as = "concat (map lg_profiles (filter lg_dirty (lo_groups l)))"
  have "pr_id p \<in> the ` saved_id h ` set (dirty_profiles h l)"
    unfolding dirty_profiles_def keep_first_keys using assms(2-6) by (auto simp: saved_id_some)
  then obtain b where b: "b \<in> set (dirty_profiles h l)" "the (saved_id h b) = pr_id p" by auto
  with dirty_profiles_valid [of b h l] obtain q where "h b = Some q" "pr_id q = pr_id p"
    by (auto simp: saved_id_def split: if_splits)
  with assms(1,2) have "b = a" unfolding ids_distinct_def by blast
  with b(1) show ?thesis by simp
qed

lemma PersistTraffic_saves:
  assumes "ids_distinct h" and "unsaved_dirty h l db" and "PersistTraffic True h (l, db) = (l', db')"
  shows "all_saved h db'" "unsaved_dirty h l' db'"
proof -
  let ?ps = "map (the \<circ> h) (dirty_profiles h l)"
  have "db' = SaveTrafficBatch True ?ps db"
    using assms(3) by (auto simp: PersistTraffic_def Let_def SaveTrafficBatch_def split: if_splits)
  moreover have "filter (\<lambda>p. 0 \<le> pr_id p) ?ps = ?ps"
    using dirty_profiles_valid by (fastforce simp: filter_id_conv)
  ultimately have db': "db' = fold update_row ?ps db" by (simp add: SaveTrafficBatch_def)
  show "all_saved h db'"
    unfolding all_saved_def
  proof (intro allI impI)
    fix a p d
    assume p: "h a = Some p" "0 \<le> pr_id p" and d: "db' (pr_id p) = Some d"
    then obtain d0 where d0: "db (pr_id p) = Some d0"
      unfolding db' using fold_update_row_dom by (metis not_None_eq)
    show "d = traffic_of p"
    proof (cases "p \<in> set ?ps")
      case True
      then show ?thesis using fold_update_row_in [OF dirty_profiles_ids True] d d0 by (simp add: db')
    next
      case False
      then have a: "a \<notin> set (dirty_profiles h l)" using p by force
      with dirty_profiles_all [OF assms(1) p] assms(2) p d0 have "d0 = traffic_of p"
        unfolding unsaved_dirty_def by blast
      moreover have "\<forall>q \<in> set ?ps. pr_id q \<noteq> pr_id p"
        using a assms(1) p dirty_profiles_valid [of _ h l] unfolding ids_distinct_def by fastforce
      ultimately show ?thesis using d d0 by (simp add: db' fold_update_row_other del: set_map)
    qed
  qed
  then show "unsaved_dirty h l' db'" by (auto simp: all_saved_def unsaved_dirty_def)
qed

lemma list_all2_member: "list_all2 P xs ys \<Longrightarrow> x \<in> set xs \<Longrightarrow> \<exists>y \<in> set ys. P x y"
  by (induction rule: list_all2_induct) auto

lemma UpdateAll_unsaved:
  assumes "looper_valid h l" and "ids_distinct h" and "resp_paired resp" and "unsaved_dirty h l db"
  shows "\<exists>l' h' calls. UpdateAll False resp now (l, h) = Inr (l', h', calls) \<and>
    looper_valid h' l' \<and> ids_distinct h' \<and> unsaved_dirty h' l' db"
proof -
  let ?c = "concat (map (group_calls resp now h) (lo_groups l))"
  obtain l' where u: "UpdateAll False resp now (l, h) = Inr (l', book ?c h, ?c @ direct_calls resp now l)"
      and l': "lo_proxy l' \<noteq> None" "lo_direct l' \<noteq> None" "list_all2 (follows resp now) (lo_groups l) (lo_groups l')"
    using UpdateAll_books [OF assms(1-3), of now] by auto
  have valid: "\<forall>g \<in> set (lo_groups l). group_valid h g" using assms(1) by (simp add: looper_valid_def)
  have stays: "\<exists>g' \<in> set (lo_groups l'). lg_profiles g' = lg_profiles g \<and> (lg_dirty g' \<longleftrightarrow> lg_dirty g \<or> group_delta resp now g \<noteq> None)"
    if "g \<in> set (lo_groups l)" for g
    using list_all2_member [OF l'(3) that] unfolding follows_def by blast
  have "unsaved_dirty (book ?c h) l' db"
    unfolding unsaved_dirty_def
  proof (intro allI impI)
    fix a q d
    assume q: "book ?c h a = Some q" "0 \<le> pr_id q" "db (pr_id q) = Some d" "d \<noteq> traffic_of q"
    then obtain p where p: "h a = Some p" "q = credit_profile (amount (\<lambda>i. i = pr_id p) ?c) p"
      by (auto simp: book_some)
    show "\<exists>g \<in> set (lo_groups l'). lg_dirty g \<and> a \<in> set (lg_profiles g)"
    proof (cases "d = traffic_of p")
      case False
      have "0 \<le> pr_id p" "db (pr_id p) = Some d" using p(2) q(2,3) by simp_all
      then have "\<exists>g \<in> set (lo_groups l). lg_dirty g \<and> a \<in> set (lg_profiles g)"
        using assms(4) [unfolded unsaved_dirty_def, rule_format, OF p(1)] False by simp
      then obtain g where g: "g \<in> set (lo_groups l)" "lg_dirty g" "a \<in> set (lg_profiles g)" by blast
      from stays [OF g(1)] g(2,3) show ?thesis by metis
    next
      case True
      have "traffic_of q = dadd (traffic_of p) (amount (\<lambda>i. i = pr_id p) ?c)" by (simp only: p(2) traffic_credit)
      with True q(4) have "amount (\<lambda>i. i = pr_id p) ?c \<noteq> dzero" by (metis dadd_simps(2))
      then obtain r where r: "r \<in> set ?c" "fst r = pr_id p"
        using amount_none [of ?c "\<lambda>i. i = pr_id p"] by blast
      then obtain g where g: "g \<in> set (lo_groups l)" "r \<in> set (group_calls resp now h g)" by auto
      with r(2) obtain b where b: "b \<in> set (lg_profiles g)" "id_at h b = pr_id p" "group_delta resp now g \<noteq> None"
        by (cases "group_delta resp now g") (auto simp: group_calls_def)
      then obtain w where "h b = Some w" using valid g(1) by (auto simp: group_valid_def)
      with b(2) assms(2) p(1) have "b = a" unfolding ids_distinct_def id_at_def by (metis option.sel)
      with b stays [OF g(1)] show ?thesis by metis
    qed
  qed
  moreover have "looper_valid (book ?c h) l'"
    using l' follows_valid [OF l'(3) valid] by (simp add: looper_valid_def)
  ultimately show ?thesis using u assms(2) by simp
qed

text \<open>Turns of the loop's thread: statistics off, loop enabled, answer of the core, elapsed time.\<close>

fun run_turns ::
  "(bool \<times> bool \<times> stats_resp \<times> int) list \<Rightarrow> loop_thread \<times> looper \<times> heap \<times> traffic_rows \<Rightarrow>
   loop_error + loop_thread \<times> looper \<times> heap \<times> traffic_rows" where
  "run_turns [] st = Inr st"
| "run_turns ((disabled, enabled, resp, now) # ts) st =
     (case loop_turn disabled enabled resp now True st of
        Inl e \<Rightarrow> Inl e
      | Inr (st, calls, shown) \<Rightarrow> run_turns ts st)"

definition turn_inv :: "loop_thread \<times> looper \<times> heap \<times> traffic_rows \<Rightarrow> bool" where
  "turn_inv st = (case st of (t, l, h, db) \<Rightarrow> looper_valid h l \<and> ids_distinct h \<and> unsaved_dirty h l db \<and>
     lt_secs_since_save t < kTrafficSaveIntervalSecs \<and> (lt_secs_since_save t = 0 \<longrightarrow> all_saved h db))"

text \<open>The turns that ask the core: statistics on, connection up.\<close>

definition working :: "bool \<times> bool \<times> stats_resp \<times> int \<Rightarrow> bool" where
  "working turn \<longleftrightarrow> \<not> fst turn \<and> fst (snd turn)"

lemma PersistTraffic_looper:
  "looper_valid h (fst (PersistTraffic ok h (l, db))) = looper_valid h l"
  by (simp add: PersistTraffic_def Let_def looper_valid_def group_valid_def)

lemma loop_turn_inv:
  assumes "turn_inv st" and "resp_paired resp"
  shows "\<exists>st' calls shown. loop_turn disabled enabled resp now True st = Inr (st', calls, shown) \<and> turn_inv st' \<and>
    lt_secs_since_save (fst st') =
      (if working (disabled, enabled, resp, now) then (lt_secs_since_save (fst st) + 1) mod 10 else lt_secs_since_save (fst st))"
proof (cases "disabled \<or> \<not> enabled")
  case True
  with assms(1) show ?thesis by (auto simp: loop_turn_def turn_inv_def working_def split: prod.splits)
next
  case False
  obtain t l h db where st: "st = (t, l, h, db)" by (rule prod_cases4)
  have inv: "looper_valid h l" "ids_distinct h" "unsaved_dirty h l db" "lt_secs_since_save t < kTrafficSaveIntervalSecs"
    using assms(1) by (simp_all add: st turn_inv_def)
  obtain l' h' calls where u: "UpdateAll False resp now (l, h) = Inr (l', h', calls)"
      and v: "looper_valid h' l'" "ids_distinct h'" "unsaved_dirty h' l' db"
    using UpdateAll_unsaved [OF inv(1,2) assms(2) inv(3)] by blast
  obtain l'' db' where pt: "PersistTraffic True h' (l', db) = (l'', db')" by fastforce
  note saves = PersistTraffic_saves [OF v(2,3) pt]
  have "looper_valid h' l''" using PersistTraffic_looper [of h' True l' db] v(1) pt by simp
  moreover have "Suc (lt_secs_since_save t) mod 10 = (if lt_secs_since_save t = 9 then 0 else lt_secs_since_save t + 1)"
    using inv(4) by (simp add: kTrafficSaveIntervalSecs_def)
  ultimately show ?thesis using False u v inv(4) pt saves
    by (auto simp: st loop_turn_def turn_inv_def working_def Let_def kTrafficSaveIntervalSecs_def)
qed



text \<open>
  A write that fails is not repeated. The groups are marked clean before the batch is written,
  so after a transaction that rolled back, the next write, the one at exit included, finds nothing
  to do, and the rows keep their old totals until some profile of the group moves bytes again.
\<close>

theorem failed_save_forgotten:
  "snd (PersistTraffic ok h (PersistTraffic False h (l, db))) = db"
proof -
  have "filter lg_dirty (map (lg_dirty_update (\<lambda>_. False)) gs) = []" for gs
    by (induction gs) auto
  then show ?thesis by (simp add: PersistTraffic_def Let_def SaveTrafficBatch_def dirty_profiles_def)
qed

end
