(* ===== verification/SimpleRules.thy ===== *)
theory SimpleRules
  imports RouteProfile
begin

text \<open>
  The simple rules as text: what the parser of lines does to a profile, and that the text shown for
  a profile parses back to it.
\<close>

subsection \<open>Fields and templates\<close>

definition simple_fields :: "(string \<times> (routeRule \<Rightarrow> string list) \<times> (string list \<Rightarrow> routeRule \<Rightarrow> routeRule)) list" where
  "simple_fields = address_fields @ process_fields"

definition fields_of :: "ruleType \<Rightarrow> (string \<times> (routeRule \<Rightarrow> string list) \<times> (string list \<Rightarrow> routeRule \<Rightarrow> routeRule)) list" where
  "fields_of t = (if t \<in> set address_types then address_fields else process_fields)"

interpretation simple: field_table simple_fields
proof
qed (unfold simple_fields_def address_fields_def process_fields_def append.simps set_simps insert_iff empty_iff prod.inject;
  (elim disjE conjE FalseE; hypsubst; simp)?; simp?)+

lemma fields_of_subset: "set (fields_of t) \<subseteq> set simple_fields"
  by (auto simp: fields_of_def simple_fields_def)

lemma fields_of_lookup: "map_of (fields_of t) k = Some (get, upd) \<Longrightarrow> map_of simple_fields k = Some (get, upd)"
  using map_of_SomeD [of "fields_of t"] fields_of_subset by (blast intro: simple.lookup)

lemma upd_type: "(k, get, upd) \<in> set simple_fields \<Longrightarrow> rr_type (upd v r) = rr_type r"
  by (unfold simple_fields_def address_fields_def process_fields_def append.simps set_simps insert_iff empty_iff prod.inject)
     (elim disjE conjE FalseE; hypsubst; simp)

lemma add_simple_rule_field: "add_simple_rule content t r = add_to_field (fields_of t) content r"
  by (simp add: add_simple_rule_def add_simple_address_rule_def add_simple_process_rule_def fields_of_def)

definition template :: "'z route_env_scheme \<Rightarrow> ruleType \<Rightarrow> routeRule" where
  "template E t = (case find (\<lambda>c. rr_type c = t) (get_simple_rules E) of Some c \<Rightarrow> c | None \<Rightarrow> new_rule)"

definition is_simple :: "ruleType \<Rightarrow> bool" where
  "is_simple t \<longleftrightarrow> t \<noteq> CustomRule \<and> t \<noteq> EndpointPreferredBy"

lemma action_types_simple: "t \<in> set (action_types a) \<Longrightarrow> is_simple t"
  by (cases a) (auto simp: action_types_def is_simple_def)

lemma distinct_action_types: "distinct (action_types a)"
  by (cases a) (simp_all add: action_types_def)

lemma find_template: "is_simple t \<Longrightarrow> find (\<lambda>c. rr_type c = t) (get_simple_rules E) = Some (template E t)"
  by (cases t) (simp_all add: is_simple_def template_def get_simple_rules_def simple_rule_def)

lemma template_type [simp]: "is_simple t \<Longrightarrow> rr_type (template E t) = t"
  by (cases t) (simp_all add: is_simple_def template_def get_simple_rules_def simple_rule_def)

lemma template_fields: "is_simple t \<Longrightarrow> (k, get, upd) \<in> set simple_fields \<Longrightarrow> get (template E t) = []"
  by (cases t; unfold simple_fields_def address_fields_def process_fields_def append.simps set_simps insert_iff empty_iff prod.inject;
     elim disjE conjE FalseE; hypsubst;
     simp add: is_simple_def template_def get_simple_rules_def simple_rule_def new_rule_def)

subsection \<open>Resetting the rules of an action\<close>

definition at_most_one :: "ruleType \<Rightarrow> routeRule list \<Rightarrow> bool" where
  "at_most_one t rs \<longleftrightarrow> length (filter (\<lambda>r. rr_type r = t) rs) \<le> 1"

lemma update_first_unique:
  assumes "at_most_one t rs"
  shows "update_first (\<lambda>r. rr_type r = t) f rs = map (\<lambda>r. if rr_type r = t then f r else r) rs"
proof -
  have "update_first (\<lambda>r. rr_type r = t) f rs = map (\<lambda>r. if rr_type r = t then f r else r) rs"
    if "length (filter (\<lambda>r. rr_type r = t) rs) \<le> Suc 0" for rs
    using that
  proof (induction rs)
    case (Cons r rs)
    then show ?case
      by (cases "rr_type r = t") (auto simp: filter_empty_conv map_idI)
  qed simp
  with assms show ?thesis by (simp add: at_most_one_def)
qed

definition reset_rules :: "'z route_env_scheme \<Rightarrow> ruleType list \<Rightarrow> routeRule list \<Rightarrow> routeRule list" where
  "reset_rules E ts rs = map (\<lambda>r. if rr_type r \<in> set ts then template E (rr_type r) else r) rs
     @ map (template E) (filter (\<lambda>t. t \<notin> rr_type ` set rs) ts)"

lemma ResetSimpleRule_unique:
  assumes "is_simple t" "at_most_one t (rt_Rules P)"
  shows "ResetSimpleRule E t P = P\<lparr>rt_Rules := reset_rules E [t] (rt_Rules P)\<rparr>"
proof (cases "\<exists>r \<in> set (rt_Rules P). rr_type r = t")
  case True
  with assms show ?thesis
    by (auto simp: ResetSimpleRule_def reset_rules_def update_first_unique reset_simple_rule_def find_template
        intro!: arg_cong [of _ _ "\<lambda>rs. P\<lparr>rt_Rules := rs\<rparr>"])
next
  case False
  then have "map (\<lambda>r. if rr_type r = t then template E (rr_type r) else r) (rt_Rules P) = rt_Rules P"
    by (auto intro: map_idI)
  with False assms show ?thesis
    by (auto simp: ResetSimpleRule_def reset_rules_def find_template)
qed

lemma reset_rules_types: "\<forall>t \<in> set ts. is_simple t \<Longrightarrow>
    map rr_type (reset_rules E ts rs) = map rr_type rs @ filter (\<lambda>t. t \<notin> rr_type ` set rs) ts"
  by (auto simp: reset_rules_def intro!: map_idI)

lemma at_most_one_types: "at_most_one t rs \<longleftrightarrow> count_list (map rr_type rs) t \<le> 1"
  by (simp add: at_most_one_def count_list_eq_length_filter filter_map comp_def eq_commute [of t])

lemma reset_all:
  assumes "distinct ts" "\<forall>t \<in> set ts. is_simple t \<and> at_most_one t (rt_Rules P)"
  shows "fold (ResetSimpleRule E) ts P = P\<lparr>rt_Rules := reset_rules E ts (rt_Rules P)\<rparr>"
  using assms
proof (induction ts arbitrary: P)
  case Nil
  then show ?case by (simp add: reset_rules_def)
next
  case (Cons t ts)
  let ?Q = "P\<lparr>rt_Rules := reset_rules E [t] (rt_Rules P)\<rparr>"
  have types: "map rr_type (rt_Rules ?Q) = map rr_type (rt_Rules P) @ filter (\<lambda>t. t \<notin> rr_type ` set (rt_Rules P)) [t]"
    using Cons.prems by (simp add: reset_rules_types)
  then have "\<forall>u \<in> set ts. is_simple u \<and> at_most_one u (rt_Rules ?Q)"
    using Cons.prems by (auto simp: at_most_one_types)
  with Cons have "fold (ResetSimpleRule E) ts ?Q = ?Q\<lparr>rt_Rules := reset_rules E ts (rt_Rules ?Q)\<rparr>"
    by simp
  moreover have "reset_rules E ts (reset_rules E [t] (rt_Rules P)) = reset_rules E (t # ts) (rt_Rules P)"
  proof -
    let ?R = "reset_rules E [t] (rt_Rules P)"
    have "rr_type ` set ?R = insert t (rr_type ` set (rt_Rules P))"
      using arg_cong [OF types, of set] by (auto split: if_splits)
    then have new: "filter (\<lambda>u. u \<notin> rr_type ` set ?R) ts = filter (\<lambda>u. u \<notin> rr_type ` set (rt_Rules P)) ts"
      using Cons.prems by (intro filter_cong) auto
    have "map (\<lambda>r. if rr_type r \<in> set ts then template E (rr_type r) else r) ?R
        = map (\<lambda>r. if rr_type r \<in> set (t # ts) then template E (rr_type r) else r) (rt_Rules P)
          @ map (template E) (filter (\<lambda>t. t \<notin> rr_type ` set (rt_Rules P)) [t])"
      using Cons.prems by (auto simp: reset_rules_def)
    with new show ?thesis
      by (simp add: reset_rules_def [of E ts ?R]) (simp add: reset_rules_def)
  qed
  ultimately show ?case
    using Cons.prems by (simp add: ResetSimpleRule_unique)
qed

subsection \<open>Adding lines\<close>

text \<open>What a line says: the rule it goes to, its keyword, its value.\<close>

type_synonym entry = "ruleType \<times> string \<times> string"

definition entry_of :: "simpleAction \<Rightarrow> string \<Rightarrow> entry option" where
  "entry_of a raw =
     (let t = get_rule_type raw a in
      if t = CustomRule then None
      else case split_colon raw of
        None \<Rightarrow> None
      | Some (k, address) \<Rightarrow> if map_of (fields_of t) k = None then None else Some (t, k, address))"

definition put_entry :: "entry \<Rightarrow> (ruleType \<Rightarrow> routeRule) \<Rightarrow> ruleType \<Rightarrow> routeRule" where
  "put_entry = (\<lambda>(t, k, address) g. case map_of simple_fields k of
     None \<Rightarrow> g | Some (get, upd) \<Rightarrow> g(t := upd (append_new address (get (g t))) (g t)))"

definition with_simple :: "ruleType list \<Rightarrow> (ruleType \<Rightarrow> routeRule) \<Rightarrow> routeRule list \<Rightarrow> routeRule list" where
  "with_simple ts g rs = map (\<lambda>r. if rr_type r \<in> set ts then g (rr_type r) else r) rs"

definition entries_at :: "ruleType \<Rightarrow> string \<Rightarrow> entry list \<Rightarrow> string list" where
  "entries_at t k es = map (snd \<circ> snd) (filter (\<lambda>e. fst e = t \<and> fst (snd e) = k) es)"

definition keeps_types :: "ruleType list \<Rightarrow> (ruleType \<Rightarrow> routeRule) \<Rightarrow> bool" where
  "keeps_types ts g \<longleftrightarrow> (\<forall>t \<in> set ts. rr_type (g t) = t)"

lemma get_rule_type_action: "get_rule_type raw a \<in> insert CustomRule (set (action_types a))"
  by (cases a) (simp_all add: get_rule_type_def action_types_def)

lemma entry_of_type: "entry_of a raw = Some (t, k, x) \<Longrightarrow> t \<in> set (action_types a) \<and> map_of (fields_of t) k \<noteq> None"
  using get_rule_type_action [of raw a] by (auto simp: entry_of_def Let_def split: if_splits option.splits)

lemma put_entry_types: "keeps_types ts g \<Longrightarrow> keeps_types ts (put_entry e g)"
  by (cases e) (auto simp: keeps_types_def put_entry_def upd_type [OF map_of_SomeD] split: option.splits)

lemma with_simple_types: "keeps_types ts g \<Longrightarrow> map rr_type (with_simple ts g rs) = map rr_type rs"
  by (auto simp: with_simple_def keeps_types_def)

lemma with_simple_find:
  assumes "keeps_types ts g" "t \<in> set ts" "t \<in> rr_type ` set rs"
  shows "find (\<lambda>r. rr_type r = t) (with_simple ts g rs) = Some (g t)"
  using assms(3) by (induction rs) (use assms(1,2) in \<open>auto simp: with_simple_def keeps_types_def\<close>)

lemma add_line_with_simple:
  assumes "keeps_types (action_types a) g"
    and "\<forall>t \<in> set (action_types a). t \<in> rr_type ` set base \<and> at_most_one t base"
  shows "add_line E a raw (res, P\<lparr>rt_Rules := with_simple (action_types a) g base\<rparr>) =
    (if qt_trimmed E raw = [] then (res, P\<lparr>rt_Rules := with_simple (action_types a) g base\<rparr>)
     else case entry_of a raw of
       None \<Rightarrow> (res @ invalid_rule raw, P\<lparr>rt_Rules := with_simple (action_types a) g base\<rparr>)
     | Some e \<Rightarrow> (res, P\<lparr>rt_Rules := with_simple (action_types a) (put_entry e g) base\<rparr>))"
proof (cases "get_rule_type raw a = CustomRule")
  case True
  then show ?thesis by (simp add: add_line_def entry_of_def)
next
  case False
  let ?t = "get_rule_type raw a"
  have t: "?t \<in> set (action_types a)" using False get_rule_type_action [of raw a] by auto
  with assms have found: "find (\<lambda>r. rr_type r = ?t) (with_simple (action_types a) g base) = Some (g ?t)"
    by (intro with_simple_find) auto
  have "at_most_one ?t (with_simple (action_types a) g base)"
    using assms t by (simp add: at_most_one_types with_simple_types)
  then have upd: "update_first (\<lambda>r. rr_type r = ?t) (\<lambda>_. r') (with_simple (action_types a) g base)
      = with_simple (action_types a) (g(?t := r')) base" for r'
    using assms(1) t by (auto simp: update_first_unique with_simple_def keeps_types_def)
  show ?thesis
  proof (cases "entry_of a raw")
    case None
    with False found show ?thesis
      by (auto simp: add_line_def entry_of_def get_simple_rule_by_type_def add_simple_rule_field
          add_to_field_def Let_def split: option.splits if_splits)
  next
    case (Some e)
    with False obtain k x get upd where parts: "split_colon raw = Some (k, x)" "e = (?t, k, x)"
        "map_of (fields_of ?t) k = Some (get, upd)"
      by (auto simp: entry_of_def Let_def split: option.splits if_splits)
    with Some False found upd fields_of_lookup [OF parts(3)] show ?thesis
      by (simp add: add_line_def get_simple_rule_by_type_def add_simple_rule_field add_to_field_def Let_def put_entry_def)
  qed
qed

definition visible_lines :: "'z route_env_scheme \<Rightarrow> string \<Rightarrow> string list" where
  "visible_lines E content = filter (\<lambda>l. qt_trimmed E l \<noteq> []) (split_on (hd line_end) [] content)"

lemma add_lines_with_simple:
  assumes "keeps_types (action_types a) g"
    and "\<forall>t \<in> set (action_types a). t \<in> rr_type ` set base \<and> at_most_one t base"
  shows "fold (add_line E a) ls (res, P\<lparr>rt_Rules := with_simple (action_types a) g base\<rparr>) =
    (let vs = filter (\<lambda>l. qt_trimmed E l \<noteq> []) ls in
      (res @ concat (map invalid_rule (filter (\<lambda>l. entry_of a l = None) vs)),
       P\<lparr>rt_Rules := with_simple (action_types a) (fold put_entry (List.map_filter (entry_of a) vs) g) base\<rparr>))"
  using assms
proof (induction ls arbitrary: res g)
  case Nil
  then show ?case by simp
next
  case (Cons l ls)
  then show ?case
    by (cases "entry_of a l") (simp_all add: add_line_with_simple Let_def put_entry_types List.map_filter_simps)
qed

lemma field_of_put:
  assumes "(k, get, upd) \<in> set simple_fields"
  shows "get (put_entry (t', k', x) g t) = (if t' = t \<and> k' = k then append_new x (get (g t)) else get (g t))"
proof (cases "map_of simple_fields k'")
  case None
  moreover have "map_of simple_fields k \<noteq> None" using assms by (simp add: simple.lookup)
  ultimately show ?thesis by (auto simp: put_entry_def)
next
  case (Some gu)
  then show ?thesis
    using simple.lookup [OF assms] simple.read_write [of k get upd k']
    by (cases gu) (auto simp: put_entry_def)
qed

lemma field_of_puts:
  assumes "(k, get, upd) \<in> set simple_fields"
  shows "get (fold put_entry es g t) = fold append_new (entries_at t k es) (get (g t))"
proof (induction es arbitrary: g)
  case (Cons e es)
  then show ?case
    using field_of_put [OF assms] by (cases e) (auto simp: entries_at_def)
qed (simp add: entries_at_def)

lemma puts_types: "keeps_types ts g \<Longrightarrow> keeps_types ts (fold put_entry es g)"
  by (induction es arbitrary: g) (simp_all add: put_entry_types)

subsection \<open>Dropping the empty rules\<close>

definition unless_empty :: "'z route_env_scheme \<Rightarrow> routeRule \<Rightarrow> routeRule list" where
  "unless_empty E r = (case rule_isEmpty E r of (e, r') \<Rightarrow> if e then [] else [r'])"

lemma FilterEmptyRules_profile: "FilterEmptyRules E P = P\<lparr>rt_Rules := concat (map (unless_empty E) (rt_Rules P))\<rparr>"
proof -
  have "map snd (filter (\<lambda>(e, _). \<not> e) (map (rule_isEmpty E) rs)) = concat (map (unless_empty E) rs)" for rs
    by (induction rs) (auto simp: unless_empty_def split: prod.splits)
  then show ?thesis by (simp add: FilterEmptyRules_def)
qed

lemma FilterEmptyRules_eq: "rt_Rules (FilterEmptyRules E P) = concat (map (unless_empty E) (rt_Rules P))"
  by (simp add: FilterEmptyRules_profile)

lemma get_rule_json_type: "rr_type (snd (get_rule_json E v tag r)) = rr_type r"
  by (auto simp: get_rule_json_def fix_action_def Let_def split: option.splits)

lemma unless_empty_type: "r' \<in> set (unless_empty E r) \<Longrightarrow> rr_type r' = rr_type r"
  using get_rule_json_type [of E False "[]" r]
  by (auto simp: unless_empty_def rule_isEmpty_def Let_def split: if_splits prod.splits)

lemma unless_empty_simple:
  assumes "is_simple (rr_type r)"
  shows "unless_empty E r = (if \<forall>(k, get, upd) \<in> set (fields_of (rr_type r)). get r = [] then [] else [r])"
  using assms
  by (auto simp: unless_empty_def rule_isEmpty_def is_simple_def fields_of_def address_fields_def process_fields_def)

lemma filter_types_concat: "filter (\<lambda>r. Q (rr_type r)) (concat (map (unless_empty E) rs))
    = concat (map (unless_empty E) (filter (\<lambda>r. Q (rr_type r)) rs))"
proof -
  have keep: "filter (\<lambda>r. Q (rr_type r)) (unless_empty E r) = (if Q (rr_type r) then unless_empty E r else [])" for r
    using unless_empty_type [of _ E r] by (auto simp: filter_empty_conv intro!: filter_True)
  show ?thesis by (induction rs) (simp_all add: keep)
qed

lemma with_simple_others: "keeps_types ts g \<Longrightarrow>
    filter (\<lambda>r. rr_type r \<notin> set ts) (with_simple ts g rs) = filter (\<lambda>r. rr_type r \<notin> set ts) rs"
  by (induction rs) (auto simp: with_simple_def keeps_types_def)

lemma reset_others: "\<forall>t \<in> set ts. is_simple t \<Longrightarrow>
    filter (\<lambda>r. rr_type r \<notin> set ts) (reset_rules E ts rs) = filter (\<lambda>r. rr_type r \<notin> set ts) rs"
  by (induction rs) (auto simp: reset_rules_def filter_empty_conv)

lemma count_list_distinct: "distinct xs \<Longrightarrow> count_list xs x = (if x \<in> set xs then 1 else 0)"
  by (induction xs) auto

lemma reset_at_most_one:
  assumes "distinct ts" "\<forall>t \<in> set ts. is_simple t \<and> at_most_one t rs" "t \<in> set ts"
  shows "t \<in> rr_type ` set (reset_rules E ts rs) \<and> at_most_one t (reset_rules E ts rs)"
proof -
  have types: "map rr_type (reset_rules E ts rs) = map rr_type rs @ filter (\<lambda>t. t \<notin> rr_type ` set rs) ts"
    using assms by (intro reset_rules_types) blast
  have "t \<in> set (map rr_type (reset_rules E ts rs))"
    unfolding types using assms(3) by auto
  moreover have "at_most_one t (reset_rules E ts rs)"
    unfolding at_most_one_types types count_list_append using assms
    by (auto simp: at_most_one_types count_list_distinct count_list_0_iff)
  ultimately show ?thesis by simp
qed

subsection \<open>The text, parsed\<close>

definition one_each :: "simpleAction \<Rightarrow> routeProfile \<Rightarrow> bool" where
  "one_each a P \<longleftrightarrow> (\<forall>t \<in> set (action_types a). at_most_one t (rt_Rules P))"

definition entries_in :: "'z route_env_scheme \<Rightarrow> simpleAction \<Rightarrow> string \<Rightarrow> entry list" where
  "entries_in E a content = List.map_filter (entry_of a) (visible_lines E content)"

definition filled :: "'z route_env_scheme \<Rightarrow> simpleAction \<Rightarrow> string \<Rightarrow> ruleType \<Rightarrow> routeRule" where
  "filled E a content = fold put_entry (entries_in E a content) (template E)"

lemma template_keeps_types: "keeps_types (action_types a) (template E)"
  using action_types_simple by (auto simp: keeps_types_def)

lemma filled_keeps_types: "keeps_types (action_types a) (filled E a content)"
  unfolding filled_def by (rule puts_types) (rule template_keeps_types)

lemma reset_is_with_simple:
  assumes "\<forall>t \<in> set ts. is_simple t"
  shows "with_simple ts (template E) (reset_rules E ts rs) = reset_rules E ts rs"
  using assms by (auto simp: with_simple_def reset_rules_def intro!: map_idI)

lemma UpdateSimpleRules_eq:
  assumes "one_each a P"
  shows "UpdateSimpleRules E content a P =
    (concat (map invalid_rule (filter (\<lambda>l. entry_of a l = None) (visible_lines E content))),
     FilterEmptyRules E (P\<lparr>rt_Rules := with_simple (action_types a) (filled E a content)
       (reset_rules E (action_types a) (rt_Rules P))\<rparr>))"
proof -
  let ?ts = "action_types a" and ?base = "reset_rules E (action_types a) (rt_Rules P)"
  have simple: "\<forall>t \<in> set ?ts. is_simple t \<and> at_most_one t (rt_Rules P)"
    using assms action_types_simple by (auto simp: one_each_def)
  have base: "\<forall>t \<in> set ?ts. t \<in> rr_type ` set ?base \<and> at_most_one t ?base"
    using reset_at_most_one [OF distinct_action_types simple] by blast
  have "fold (ResetSimpleRule E) ?ts P = P\<lparr>rt_Rules := with_simple ?ts (template E) ?base\<rparr>"
    using reset_all [where E = E, OF distinct_action_types simple] reset_is_with_simple [of ?ts E] simple by simp
  then show ?thesis
    using add_lines_with_simple [OF template_keeps_types [of a E] base, where E = E and P = P and res = "[]" and ls = "split_on (hd line_end) [] content"]
    by (simp add: UpdateSimpleRules_def Let_def visible_lines_def filled_def entries_in_def)
qed

lemma other_field_empty:
  assumes "is_simple t" "(k, get, upd) \<in> set simple_fields" "map_of (fields_of t) k = None"
  shows "get (filled E a content t) = []"
proof -
  have "entries_at t k (entries_in E a content) = []"
  proof -
    have "\<not> (fst e = t \<and> fst (snd e) = k)" if e: "e \<in> set (entries_in E a content)" for e
    proof -
      obtain l where "entry_of a l = Some e"
        using e by (auto simp: entries_in_def List.map_filter_def)
      with entry_of_type [of a l "fst e" "fst (snd e)" "snd (snd e)"] assms(3) show ?thesis
        by (auto simp: prod_eq_iff)
    qed
    then show ?thesis by (simp add: entries_at_def filter_empty_conv)
  qed
  then show ?thesis
    using field_of_puts [OF assms(2)] template_fields [OF assms(1,2), of E] by (simp add: filled_def)
qed

lemma filled_field:
  assumes "is_simple t" "(k, get, upd) \<in> set simple_fields"
  shows "get (filled E a content t) = keep_first Some [] (entries_at t k (entries_in E a content))"
  using field_of_puts [OF assms(2)] template_fields [OF assms, of E]
  by (simp add: filled_def fold_append_new)

lemma one_of_type:
  assumes "t \<in> rr_type ` set rs" "at_most_one t rs"
  obtains r where "filter (\<lambda>r. rr_type r = t) rs = [r]" "rr_type r = t"
proof -
  have "filter (\<lambda>r. rr_type r = t) rs \<noteq> []" using assms(1) by (auto simp: filter_empty_conv)
  with assms(2) obtain r where r: "filter (\<lambda>r. rr_type r = t) rs = [r]"
    by (cases "filter (\<lambda>r. rr_type r = t) rs") (auto simp: at_most_one_def)
  then have "r \<in> set (filter (\<lambda>r. rr_type r = t) rs)" by simp
  then have "rr_type r = t" by simp
  with r that show ?thesis by blast
qed

lemma with_simple_of_type:
  assumes "keeps_types ts g" "t \<in> set ts" "t \<in> rr_type ` set rs" "at_most_one t rs"
  shows "filter (\<lambda>r. rr_type r = t) (with_simple ts g rs) = [g t]"
proof -
  have "filter (\<lambda>r. rr_type r = t) (with_simple ts g rs) = map (\<lambda>r. g t) (filter (\<lambda>r. rr_type r = t) rs)"
    using assms(1,2) by (induction rs) (auto simp: with_simple_def keeps_types_def)
  moreover obtain r where "filter (\<lambda>r. rr_type r = t) rs = [r]"
    using one_of_type [OF assms(3,4)] by blast
  ultimately show ?thesis by simp
qed

definition simple_values :: "routeProfile \<Rightarrow> ruleType \<Rightarrow> (routeRule \<Rightarrow> string list) \<Rightarrow> string list" where
  "simple_values P t get = concat (map get (filter (\<lambda>r. rr_type r = t) (rt_Rules P)))"

lemma simple_values_filtered:
  assumes "is_simple t" "(k, get, upd) \<in> set simple_fields"
    "filter (\<lambda>r. rr_type r = t) rs = [filled E a content t]" "rr_type (filled E a content t) = t"
  shows "simple_values (FilterEmptyRules E (P\<lparr>rt_Rules := rs\<rparr>)) t get = get (filled E a content t)"
proof -
  have "filter (\<lambda>r. rr_type r = t) (rt_Rules (FilterEmptyRules E (P\<lparr>rt_Rules := rs\<rparr>)))
      = unless_empty E (filled E a content t)"
    using filter_types_concat [of "\<lambda>u. u = t" E rs] assms(3) by (simp add: FilterEmptyRules_eq)
  moreover have "get (filled E a content t) = []"
    if "\<forall>(k, get, upd) \<in> set (fields_of t). get (filled E a content t) = []"
  proof (cases "map_of (fields_of t) k")
    case None
    then show ?thesis by (rule other_field_empty [OF assms(1,2)])
  next
    case (Some gu)
    then have "(k, get, upd) \<in> set (fields_of t)"
      using fields_of_lookup [of t k "fst gu" "snd gu"] simple.lookup [OF assms(2)] map_of_SomeD by fastforce
    with that show ?thesis by blast
  qed
  ultimately show ?thesis
    using assms(1,4) by (auto simp: simple_values_def unless_empty_simple)
qed

text \<open>
  C29: Updating the simple rules of an action from text, in a profile with at most one rule of each
  of the action's types: every visible line that is no entry is reported, in order and nothing
  else is; afterwards each field of the action's rules holds the values of its lines, in order, each
  once, and nothing of what it held before; the rules of every other type are those that dropping
  the empty ones leaves, in order.
\<close>

theorem simple_rules_updated:
  assumes "one_each a P"
  shows "(case UpdateSimpleRules E content a P of (res, P') \<Rightarrow>
      res = concat (map invalid_rule (filter (\<lambda>l. entry_of a l = None) (visible_lines E content)))
    \<and> (\<forall>t \<in> set (action_types a). \<forall>(k, get, upd) \<in> set simple_fields.
        simple_values P' t get = keep_first Some [] (entries_at t k (entries_in E a content)))
    \<and> filter (\<lambda>r. rr_type r \<notin> set (action_types a)) (rt_Rules P')
      = filter (\<lambda>r. rr_type r \<notin> set (action_types a)) (rt_Rules (FilterEmptyRules E P)))"
proof -
  let ?ts = "action_types a"
  let ?base = "reset_rules E ?ts (rt_Rules P)"
  let ?rs = "with_simple ?ts (filled E a content) ?base"
  have simple: "\<forall>t \<in> set ?ts. is_simple t \<and> at_most_one t (rt_Rules P)"
    using assms action_types_simple by (auto simp: one_each_def)
  have val: "simple_values (FilterEmptyRules E (P\<lparr>rt_Rules := ?rs\<rparr>)) t get
      = keep_first Some [] (entries_at t k (entries_in E a content))"
    if t: "t \<in> set ?ts" and k: "(k, get, upd) \<in> set simple_fields" for t k get upd
  proof -
    have "filter (\<lambda>r. rr_type r = t) ?rs = [filled E a content t]"
      using with_simple_of_type [OF filled_keeps_types t] reset_at_most_one [OF distinct_action_types simple t] by blast
    then show ?thesis
      using simple_values_filtered [OF _ k, of t ?rs E a content P] filled_field [OF _ k, of t E a content] simple t
        filled_keeps_types [of a E content]
      by (simp add: keeps_types_def)
  qed
  have vals: "\<forall>t \<in> set ?ts. \<forall>(k, get, upd) \<in> set simple_fields.
      simple_values (FilterEmptyRules E (P\<lparr>rt_Rules := ?rs\<rparr>)) t get
      = keep_first Some [] (entries_at t k (entries_in E a content))"
    by (intro ballI) (clarify, rule val)
  moreover have "filter (\<lambda>r. rr_type r \<notin> set ?ts) ?rs = filter (\<lambda>r. rr_type r \<notin> set ?ts) (rt_Rules P)"
    using simple by (simp add: with_simple_others filled_keeps_types reset_others)
  moreover have "filter (\<lambda>r. rr_type r \<notin> set ?ts) (rt_Rules (FilterEmptyRules E (P\<lparr>rt_Rules := rs\<rparr>)))
      = concat (map (unless_empty E) (filter (\<lambda>r. rr_type r \<notin> set ?ts) rs))" for rs
    using filter_types_concat [of "\<lambda>u. u \<notin> set ?ts" E rs] by (simp add: FilterEmptyRules_eq)
  ultimately show ?thesis
    using filter_types_concat [of "\<lambda>u. u \<notin> set ?ts" E "rt_Rules P"]
    by (simp only: UpdateSimpleRules_eq [OF assms] prod.case) (simp add: FilterEmptyRules_eq [of E P])
qed

text \<open>A profile with one proxied domain, and a text with two valid lines and an invalid one.\<close>

definition demo_simple :: routeProfile where
  "demo_simple = new_routeProfile\<lparr>rt_Rules :=
     [simple_rule SimpleAddressProxy ''route'' proxyID\<lparr>rr_domain := [''a.example'']\<rparr>,
      simple_rule SimpleProcessNameBlock ''reject'' directID\<lparr>rr_process_name := [''game'']\<rparr>]\<rparr>"

definition demo_text :: string where
  "demo_text = ''ip:10.0.0.0/8'' @ line_end @ ''port:80'' @ line_end @ ''processName:curl''"

theorem simple_rules_updated_witness:
  "simple_values (snd (UpdateSimpleRules demo_routing demo_text proxy demo_simple)) SimpleAddressProxy rr_ip_cidr
     = [''10.0.0.0/8'']
   \<and> simple_values (snd (UpdateSimpleRules demo_routing demo_text proxy demo_simple)) SimpleAddressProxy rr_domain = []
   \<and> fst (UpdateSimpleRules demo_routing demo_text proxy demo_simple) = invalid_rule ''port:80''"
proof -
  have one: "one_each proxy demo_simple" by code_simp
  have entries: "entries_in demo_routing proxy demo_text
      = [(SimpleAddressProxy, ''ip'', ''10.0.0.0/8''), (SimpleProcessNameProxy, ''processName'', ''curl'')]"
    "filter (\<lambda>l. entry_of proxy l = None) (visible_lines demo_routing demo_text) = [''port:80'']"
    by code_simp+
  have "SimpleAddressProxy \<in> set (action_types proxy)" by code_simp
  moreover have "(''ip'', rr_ip_cidr, \<lambda>v. rr_ip_cidr_update (\<lambda>_. v)) \<in> set simple_fields"
    "(''domain'', rr_domain, \<lambda>v. rr_domain_update (\<lambda>_. v)) \<in> set simple_fields"
    by (simp_all add: simple_fields_def address_fields_def)
  ultimately show ?thesis
    using simple_rules_updated [OF one, of demo_routing demo_text]
    by (fastforce simp: entries entries_at_def split: prod.splits)
qed

subsection \<open>Text shown and parsed again\<close>

text \<open>
  A rule as the editor of simple rules makes it: its type's template with values in the fields of
  that type, each value once and on one line.
\<close>

definition name_types :: "ruleType list" where
  "name_types = [SimpleProcessNameProxy, SimpleProcessNameBypass, SimpleProcessNameBlock, SimpleProcessNameWarpBypass]"

definition own_fields :: "ruleType \<Rightarrow> (string \<times> (routeRule \<Rightarrow> string list) \<times> (string list \<Rightarrow> routeRule \<Rightarrow> routeRule)) list" where
  "own_fields t = (if t \<in> set address_types then address_fields
     else if t \<in> set name_types then take 1 process_fields else drop 1 process_fields)"

lemma own_subset: "set (own_fields t) \<subseteq> set simple_fields"
  by (auto simp: own_fields_def simple_fields_def process_fields_def)

lemma own_lookup: "map_of (own_fields t) k = Some (get, upd) \<Longrightarrow> map_of simple_fields k = Some (get, upd)"
  using map_of_SomeD [of "own_fields t"] own_subset by (blast intro: simple.lookup)

definition rebuilt :: "'z route_env_scheme \<Rightarrow> routeRule \<Rightarrow> routeRule" where
  "rebuilt E r = fold (\<lambda>(k, get, upd) s. upd (get r) s) (own_fields (rr_type r)) (template E (rr_type r))"

definition simple_rule_ok :: "'z route_env_scheme \<Rightarrow> routeRule \<Rightarrow> bool" where
  "simple_rule_ok E r \<longleftrightarrow> r = rebuilt E r
     \<and> (\<forall>(k, get, upd) \<in> set (own_fields (rr_type r)). distinct (get r) \<and> (\<forall>x \<in> set (get r). hd line_end \<notin> set x))"

text \<open>A text that starts with a keyword and a colon does not trim to nothing.\<close>

definition keywords_visible :: "'z route_env_scheme \<Rightarrow> bool" where
  "keywords_visible E \<longleftrightarrow> (\<forall>k \<in> set (map fst simple_fields). \<forall>x. qt_trimmed E (k @ CHR '':'' # x) \<noteq> [])"

lemma rebuilt_upd:
  assumes "s = rebuilt E s" "(k, get, upd) \<in> set (own_fields (rr_type s))"
  shows "upd v s = rebuilt E (upd v s)"
proof -
  have t: "rr_type (upd v s) = rr_type s"
    using assms(2) own_subset by (blast intro: upd_type)
  have eq: "s = fold (\<lambda>(k, get, upd) q. upd (get s) q) (own_fields (rr_type s)) (template E (rr_type s))"
    using assms(1) by (simp add: rebuilt_def)
  from assms(2) show ?thesis
    by (subst (asm) own_fields_def, subst rebuilt_def, subst eq, simp only: t)
       (auto simp: own_fields_def address_fields_def process_fields_def split: if_splits)
qed

lemma split_colon_append: "CHR '':'' \<notin> set k \<Longrightarrow> split_colon (k @ CHR '':'' # x) = Some (k, x)"
  by (induction k) auto

lemma split_colon_SomeD: "split_colon s = Some (k, x) \<Longrightarrow> s = k @ CHR '':'' # x"
  by (induction s arbitrary: k) (auto split: if_splits)

lemma get_rule_type_kind:
  "get_rule_type raw a \<in> set address_types \<Longrightarrow>
    list_ex (starts_with raw) [''domain'', ''suffix'', ''keyword'', ''regex'', ''ruleset'', ''ip'']"
  "get_rule_type raw a \<in> set name_types \<Longrightarrow> starts_with raw ''processName''"
  "get_rule_type raw a \<notin> set address_types \<Longrightarrow> get_rule_type raw a \<notin> set name_types \<Longrightarrow>
    get_rule_type raw a \<noteq> CustomRule \<Longrightarrow> starts_with raw ''processPath''"
  by (cases a; simp add: get_rule_type_def address_types_def name_types_def split: if_splits)+

lemma entry_of_own:
  assumes "entry_of a raw = Some (t, k, x)"
  shows "map_of (own_fields t) k \<noteq> None"
proof -
  have t: "t = get_rule_type raw a" "t \<noteq> CustomRule" and raw: "raw = k @ CHR '':'' # x"
    and k: "k \<in> fst ` set (fields_of t)"
    using assms split_colon_SomeD
    by (auto simp: entry_of_def Let_def map_of_eq_None_iff split: option.splits if_splits)
  consider "t \<in> set address_types" | "t \<notin> set address_types" "t \<in> set name_types"
    | "t \<notin> set address_types" "t \<notin> set name_types" by blast
  then show ?thesis
  proof cases
    case 1
    with k show ?thesis by (simp add: own_fields_def fields_of_def map_of_eq_None_iff)
  next
    case 2
    then have "starts_with (k @ CHR '':'' # x) ''processName''"
      using get_rule_type_kind(2) [of raw a] t raw by simp
    with k 2 show ?thesis
      by (auto simp: own_fields_def fields_of_def process_fields_def starts_with_def)
  next
    case 3
    then have "starts_with (k @ CHR '':'' # x) ''processPath''"
      using get_rule_type_kind(3) [of raw a] t raw by simp
    with k 3 show ?thesis
      by (auto simp: own_fields_def fields_of_def process_fields_def starts_with_def)
  qed
qed

lemma filled_rebuilt:
  assumes "t \<in> set (action_types a)"
  shows "filled E a content t = rebuilt E (filled E a content t)"
proof -
  have "g t = rebuilt E (g t) \<Longrightarrow> keeps_types (action_types a) g \<Longrightarrow>
      \<forall>(u, k, x) \<in> set es. map_of (own_fields u) k \<noteq> None \<Longrightarrow>
      fold put_entry es g t = rebuilt E (fold put_entry es g t)" for es g
  proof (induction es arbitrary: g)
    case (Cons e es)
    obtain u k x where e: "e = (u, k, x)" by (cases e)
    with Cons.prems(3) obtain get upd where k: "map_of (own_fields u) k = Some (get, upd)" by auto
    have "rebuilt E (upd v (g t)) = upd v (g t)" if "u = t" for v
      using rebuilt_upd [OF Cons.prems(1), of k get upd v] map_of_SomeD [OF k] that Cons.prems(2) assms
      by (simp add: keeps_types_def)
    with Cons.prems(1) e own_lookup [OF k] have "put_entry e g t = rebuilt E (put_entry e g t)"
      by (cases "u = t") (simp_all add: put_entry_def)
    with Cons put_entry_types [OF Cons.prems(2)] show ?case by simp
  qed simp
  moreover have "template E t = rebuilt E (template E t)"
  proof -
    have simple: "is_simple t" using assms action_types_simple by blast
    have "fold (\<lambda>(k, get, upd) s. upd (get (template E t)) s) fs (template E t) = template E t"
      if "set fs \<subseteq> set simple_fields" for fs
      using that
    proof (induction fs)
      case (Cons f fs)
      obtain k get upd where f: "f = (k, get, upd)" by (cases f)
      with Cons.prems template_fields [OF simple, of k get upd E] have "get (template E t) = []" by simp
      moreover have "upd [] (template E t) = template E t"
        using Cons.prems f \<open>get (template E t) = []\<close>
        by (simp add: simple_fields_def address_fields_def process_fields_def)
           (elim disjE conjE; simp)
      ultimately show ?case using Cons f by simp
    qed simp
    from this [OF own_subset] simple show ?thesis by (simp add: rebuilt_def)
  qed
  moreover have "\<forall>(u, k, x) \<in> set (entries_in E a content). map_of (own_fields u) k \<noteq> None"
    using entry_of_own by (fastforce simp: entries_in_def List.map_filter_def)
  ultimately show ?thesis
    using template_keeps_types [of a E] unfolding filled_def by blast
qed

lemma rebuilt_unique:
  assumes "r = rebuilt E r" "s = rebuilt E s" "rr_type r = rr_type s"
    "\<forall>(k, get, upd) \<in> set (own_fields (rr_type r)). get r = get s"
  shows "r = s"
proof -
  have "rebuilt E r = rebuilt E s"
    unfolding rebuilt_def assms(3) using assms(3,4) by (intro List.fold_cong) auto
  with assms(1,2) show ?thesis by simp
qed

lemma rebuilt_other:
  assumes "r = rebuilt E r" "is_simple (rr_type r)" "(k, get, upd) \<in> set simple_fields"
    "map_of (own_fields (rr_type r)) k = None"
  shows "get r = []"
proof -
  have "get (fold (\<lambda>(k, get, upd) s. upd (get r) s) fs s) = get s"
    if "set fs \<subseteq> set simple_fields" "k \<notin> fst ` set fs" for fs s
    using that
  proof (induction fs arbitrary: s)
    case (Cons f fs)
    obtain k' get' upd' where f: "f = (k', get', upd')" by (cases f)
    with Cons show ?case
      using simple.get_other [OF assms(3), of k' get' upd' "get' r" s] by simp
  qed simp
  from this [OF own_subset] have "get (rebuilt E r) = get (template E (rr_type r))"
    using assms(4) by (simp add: rebuilt_def map_of_eq_None_iff)
  with assms(1) template_fields [OF assms(2,3), of E] show ?thesis by simp
qed

definition rule_entries :: "routeRule \<Rightarrow> entry list" where
  "rule_entries r = concat (map (\<lambda>(k, get, upd). map (\<lambda>x. (rr_type r, k, x)) (get r)) simple_fields)"

definition line_of :: "entry \<Rightarrow> string" where
  "line_of e = fst (snd e) @ CHR '':'' # snd (snd e)"

lemma simple_lines_entries: "simple_lines r = map line_of (rule_entries r)"
  by (simp add: simple_lines_def rule_entries_def line_of_def map_concat comp_def split_beta' simple_fields_def)

lemma entries_at_append: "entries_at t k (xs @ ys) = entries_at t k xs @ entries_at t k ys"
  by (simp add: entries_at_def)

lemma entries_at_tagged: "entries_at t k (map (\<lambda>x. (u, k', x)) xs) = (if u = t \<and> k' = k then xs else [])"
  by (induction xs) (auto simp: entries_at_def)

lemma entries_at_rule:
  assumes "(k, get, upd) \<in> set simple_fields"
  shows "entries_at t k (rule_entries r) = (if rr_type r = t then get r else [])"
  using assms
  by (unfold simple_fields_def address_fields_def process_fields_def append.simps set_simps insert_iff empty_iff prod.inject)
     (elim disjE conjE FalseE; hypsubst;
      simp add: rule_entries_def simple_fields_def address_fields_def process_fields_def entries_at_append entries_at_tagged)

lemma get_rule_type_keyword:
  "k \<in> fst ` set address_fields \<Longrightarrow> get_rule_type (k @ CHR '':'' # x) a = action_types a ! 0"
  "get_rule_type (''processName'' @ CHR '':'' # x) a = action_types a ! 1"
  "get_rule_type (''processPath'' @ CHR '':'' # x) a = action_types a ! 2"
proof -
  assume "k \<in> fst ` set address_fields"
  then have "list_ex (starts_with (k @ CHR '':'' # x)) [''domain'', ''suffix'', ''keyword'', ''regex'', ''ruleset'', ''ip'']"
    by (auto simp: address_fields_def starts_with_def)
  then show "get_rule_type (k @ CHR '':'' # x) a = action_types a ! 0"
    by (cases a) (simp_all only: get_rule_type_def action_types_def if_True simpleAction.case nth_Cons_0)
next
  show "get_rule_type (''processName'' @ CHR '':'' # x) a = action_types a ! 1"
    by (cases a) (simp_all add: get_rule_type_def action_types_def starts_with_def)
  show "get_rule_type (''processPath'' @ CHR '':'' # x) a = action_types a ! 2"
    by (cases a) (simp_all add: get_rule_type_def action_types_def starts_with_def)
qed

lemma action_type_fields:
  assumes "t \<in> set (action_types a)" "k \<in> fst ` set (own_fields t)"
  shows "get_rule_type (k @ CHR '':'' # x) a = t"
proof -
  have "(own_fields t = address_fields \<and> t = action_types a ! 0)
      \<or> (own_fields t = take 1 process_fields \<and> t = action_types a ! 1)
      \<or> (own_fields t = drop 1 process_fields \<and> t = action_types a ! 2)"
    using assms(1) by (cases a) (auto simp: action_types_def own_fields_def address_types_def name_types_def)
  then show ?thesis
  proof (elim disjE conjE)
    assume "own_fields t = address_fields" "t = action_types a ! 0"
    with assms(2) get_rule_type_keyword(1) [of k x a] show ?thesis by simp
  qed (use assms(2) get_rule_type_keyword(2,3) [of x a] in \<open>auto simp: process_fields_def\<close>)
qed

lemma entry_of_line:
  assumes "t \<in> set (action_types a)" "k \<in> fst ` set (own_fields t)"
  shows "entry_of a (line_of (t, k, x)) = Some (t, k, x)"
proof -
  have "CHR '':'' \<notin> set k" "k \<in> fst ` set (fields_of t)"
    using assms(2) by (auto simp: own_fields_def fields_of_def address_fields_def process_fields_def split: if_splits)
  moreover have "t \<noteq> CustomRule" using assms(1) action_types_simple by (auto simp: is_simple_def)
  ultimately show ?thesis
    using action_type_fields [OF assms, of x]
    by (auto simp: entry_of_def line_of_def split_colon_append map_of_eq_None_iff)
qed

definition shown_entries :: "simpleAction \<Rightarrow> routeRule list \<Rightarrow> entry list" where
  "shown_entries a rs = concat (map (\<lambda>r. if rr_type r \<in> set (action_types a) then rule_entries r else []) rs)"

lemma GetSimpleRules_entries:
  "GetSimpleRules a P = concat (map (\<lambda>l. l @ line_end) (map line_of (shown_entries a (rt_Rules P))))"
proof -
  have "concat (map (\<lambda>r. if rr_type r \<in> set (action_types a) then concat (map (\<lambda>l. l @ line_end) (simple_lines r)) else []) rs)
      = concat (map (\<lambda>l. l @ line_end) (map line_of (shown_entries a rs)))" for rs
    by (induction rs) (simp_all add: shown_entries_def simple_lines_entries)
  then show ?thesis by (simp add: GetSimpleRules_def)
qed

lemma shown_entry:
  assumes "\<forall>r \<in> set rs. rr_type r \<in> set (action_types a) \<longrightarrow> simple_rule_ok E r" "(t, k, x) \<in> set (shown_entries a rs)"
  shows "t \<in> set (action_types a) \<and> k \<in> fst ` set (own_fields t) \<and> hd line_end \<notin> set x \<and> k \<in> fst ` set simple_fields"
proof -
  obtain r get upd where r: "r \<in> set rs" "rr_type r \<in> set (action_types a)" "t = rr_type r" "x \<in> set (get r)"
    and k: "(k, get, upd) \<in> set simple_fields"
    using assms(2) by (auto simp: shown_entries_def rule_entries_def split: if_splits)
  then have ok: "simple_rule_ok E r" using assms(1) by blast
  have "map_of (own_fields t) k \<noteq> None"
    using rebuilt_other [of r E k get upd] ok r k action_types_simple [OF r(2)] unfolding simple_rule_ok_def by force
  then obtain gu where gu: "map_of (own_fields t) k = Some gu" by blast
  with own_lookup [of t k "fst gu" "snd gu"] simple.lookup [OF k] have "(k, get, upd) \<in> set (own_fields t)"
    using map_of_SomeD [OF gu] by simp
  with ok r k show ?thesis by (force simp: simple_rule_ok_def)
qed

lemma visible_shown:
  assumes "\<forall>r \<in> set (rt_Rules P). rr_type r \<in> set (action_types a) \<longrightarrow> simple_rule_ok E r" "keywords_visible E"
    "qt_trimmed E [] = []"
  shows "visible_lines E (GetSimpleRules a P) = map line_of (shown_entries a (rt_Rules P))"
proof -
  have key: "hd line_end \<notin> set k" if "k \<in> fst ` set simple_fields" for k
    using that by (auto simp: simple_fields_def address_fields_def process_fields_def line_end_def)
  have "\<forall>l \<in> set (map line_of (shown_entries a (rt_Rules P))). hd line_end \<notin> set l"
    using shown_entry [OF assms(1)] key by (fastforce simp: line_of_def line_end_def)
  then have "split_on (hd line_end) [] (GetSimpleRules a P) = map line_of (shown_entries a (rt_Rules P)) @ [[]]"
    using split_on_lines by (simp add: GetSimpleRules_entries line_end_def del: map_map)
  moreover have "\<forall>e \<in> set (shown_entries a (rt_Rules P)). qt_trimmed E (line_of e) \<noteq> []"
    using shown_entry [OF assms(1)] assms(2) by (fastforce simp: keywords_visible_def line_of_def)
  ultimately show ?thesis
    using assms(3) by (simp add: visible_lines_def filter_map comp_def)
qed

lemma entries_shown:
  assumes "\<forall>r \<in> set rs. rr_type r \<in> set (action_types a) \<longrightarrow> simple_rule_ok E r"
  shows "\<forall>e \<in> set (shown_entries a rs). entry_of a (line_of e) = Some e"
  using shown_entry [OF assms] entry_of_line by fastforce

lemma map_filter_line_of:
  assumes "\<forall>e \<in> set es. entry_of a (line_of e) = Some e"
  shows "List.map_filter (entry_of a) (map line_of es) = es" "filter (\<lambda>l. entry_of a l = None) (map line_of es) = []"
  using assms by (induction es) (simp_all add: List.map_filter_simps)

lemma shown_values:
  assumes "(k, get, upd) \<in> set simple_fields" "t \<in> set (action_types a)"
  shows "entries_at t k (shown_entries a rs) = concat (map get (filter (\<lambda>r. rr_type r = t) rs))"
  using assms(2) by (induction rs) (auto simp: shown_entries_def entries_at_append entries_at_rule [OF assms(1)] entries_at_def [of _ _ "[]"])

text \<open>
  C30: The text shown for an action's simple rules, parsed again, reports nothing and leaves the
  profile as it was but for its empty rules, which the update drops: for a profile with at most one
  rule of each of the action's types, each made of its template and one-line values without
  repetition.
\<close>

theorem simple_rules_roundtrip:
  assumes "one_each a P"
    and "\<forall>r \<in> set (rt_Rules P). rr_type r \<in> set (action_types a) \<longrightarrow> simple_rule_ok E r"
    and "keywords_visible E" "qt_trimmed E [] = []"
  shows "UpdateSimpleRules E (GetSimpleRules a P) a P = ([], FilterEmptyRules E P)"
proof -
  let ?ts = "action_types a" and ?c = "GetSimpleRules a P" and ?rs = "rt_Rules P"
  have lines: "visible_lines E ?c = map line_of (shown_entries a ?rs)"
    using visible_shown [OF assms(2-4)] .
  have entries: "entries_in E a ?c = shown_entries a ?rs"
    and none: "filter (\<lambda>l. entry_of a l = None) (visible_lines E ?c) = []"
    using map_filter_line_of [OF entries_shown [OF assms(2)]] by (simp_all add: entries_in_def lines)
  have values_of: "get (filled E a ?c t) = keep_first Some [] (concat (map get (filter (\<lambda>r. rr_type r = t) ?rs)))"
    if "t \<in> set ?ts" "(k, get, upd) \<in> set simple_fields" for t k get upd
    using filled_field [OF action_types_simple [OF that(1)] that(2), of E a ?c] shown_values [OF that(2,1)]
    by (simp add: entries)
  have same: "filled E a ?c (rr_type r) = r" if r: "r \<in> set ?rs" "rr_type r \<in> set ?ts" for r
  proof -
    have ok: "simple_rule_ok E r" using assms(2) r by blast
    have only_one: "filter (\<lambda>q. rr_type q = rr_type r) ?rs = [r]"
    proof -
      obtain q where q: "filter (\<lambda>q. rr_type q = rr_type r) ?rs = [q]"
        using one_of_type [of "rr_type r" ?rs] assms(1) r by (auto simp: one_each_def)
      have "r \<in> set (filter (\<lambda>q. rr_type q = rr_type r) ?rs)" using r by simp
      with q show ?thesis by simp
    qed
    have "get (filled E a ?c (rr_type r)) = get r" if own: "(k, get, upd) \<in> set (own_fields (rr_type r))" for k get upd
    proof -
      have "distinct (get r)" using ok own by (auto simp: simple_rule_ok_def)
      then show ?thesis
        using values_of [OF r(2) subsetD [OF own_subset own]] by (simp add: only_one keep_first_id)
    qed
    moreover have built: "r = rebuilt E r" using ok unfolding simple_rule_ok_def by blast
    moreover have type: "rr_type (filled E a ?c (rr_type r)) = rr_type r"
      using filled_keeps_types [of a E ?c] r by (simp add: keeps_types_def)
    ultimately have "\<forall>(k, get, upd) \<in> set (own_fields (rr_type (filled E a ?c (rr_type r)))).
        get (filled E a ?c (rr_type r)) = get r"
      unfolding type by blast
    then show ?thesis by (rule rebuilt_unique [OF filled_rebuilt [OF r(2)] built type])
  qed
  have gone: "unless_empty E (filled E a ?c t) = []" if t: "t \<in> set ?ts" "t \<notin> rr_type ` set ?rs" for t
  proof -
    have "filter (\<lambda>r. rr_type r = t) ?rs = []" using t(2) by (auto simp: filter_empty_conv)
    then have "\<forall>(k, get, upd) \<in> set simple_fields. get (filled E a ?c t) = []"
      using values_of [OF t(1)] by fastforce
    then show ?thesis
      using unless_empty_simple [of "filled E a ?c t" E] filled_keeps_types [of a E ?c] t action_types_simple fields_of_subset
      by (fastforce simp: keeps_types_def)
  qed
  have "concat (map (unless_empty E) (with_simple ?ts (filled E a ?c) (reset_rules E ?ts ?rs))) = concat (map (unless_empty E) ?rs)"
  proof -
    have "with_simple ?ts (filled E a ?c) (map (\<lambda>r. if rr_type r \<in> set ?ts then template E (rr_type r) else r) ?rs) = ?rs"
      using same action_types_simple by (auto simp: with_simple_def intro!: map_idI)
    moreover have "with_simple ?ts (filled E a ?c) (map (template E) (filter (\<lambda>t. t \<notin> rr_type ` set ?rs) ?ts))
        = map (filled E a ?c) (filter (\<lambda>t. t \<notin> rr_type ` set ?rs) ?ts)"
      using action_types_simple by (auto simp: with_simple_def)
    moreover have "concat (map (unless_empty E \<circ> filled E a ?c) (filter (\<lambda>t. t \<notin> rr_type ` set ?rs) ?ts)) = []"
      using gone by simp
    ultimately show ?thesis by (simp add: reset_rules_def with_simple_def)
  qed
  then have "FilterEmptyRules E (P\<lparr>rt_Rules := with_simple ?ts (filled E a ?c) (reset_rules E ?ts ?rs)\<rparr>) = FilterEmptyRules E P"
    by (simp add: FilterEmptyRules_profile)
  with none show ?thesis by (simp add: UpdateSimpleRules_eq [OF assms(1)])
qed

theorem simple_rules_roundtrip_witness:
  "GetSimpleRules proxy demo_simple = ''domain:a.example'' @ line_end
   \<and> UpdateSimpleRules demo_routing (GetSimpleRules proxy demo_simple) proxy demo_simple
     = ([], FilterEmptyRules demo_routing demo_simple)"
proof
  have "one_each proxy demo_simple" by code_simp
  moreover have "simple_rule_ok demo_routing (simple_rule SimpleAddressProxy ''route'' proxyID\<lparr>rr_domain := [''a.example'']\<rparr>)"
    by (simp add: simple_rule_ok_def rebuilt_def own_fields_def address_types_def address_fields_def template_def
        get_simple_rules_def simple_rule_def new_rule_def getOutboundID_def proxyID_def line_end_def)
  then have "\<forall>r \<in> set (rt_Rules demo_simple). rr_type r \<in> set (action_types proxy) \<longrightarrow> simple_rule_ok demo_routing r"
    by (simp add: demo_simple_def action_types_def simple_rule_def)
  moreover have "keywords_visible demo_routing"
    by (auto simp: keywords_visible_def demo_routing_def ascii_trim_empty simple_fields_def address_fields_def
        process_fields_def ascii_space_def)
  moreover have "qt_trimmed demo_routing [] = []" by code_simp
  ultimately show "UpdateSimpleRules demo_routing (GetSimpleRules proxy demo_simple) proxy demo_simple
     = ([], FilterEmptyRules demo_routing demo_simple)"
    by (rule simple_rules_roundtrip)
qed code_simp

end
