(* ===== verification/RouteShareProps.thy ===== *)
theory RouteShareProps
  imports RouteShare RouteProfileProps
begin

text \<open>
  What a shared rule keeps on its way to another machine, the crafted input that ends the parser,
  and what adopting shared endpoints guarantees.
\<close>

subsection \<open>Reading a field of a parsed rule\<close>

text \<open>\<open>get\<close> is what a member named \<open>k\<close> writes, and no other member touches it.\<close>

definition reads :: "'z route_env_scheme \<Rightarrow> string \<Rightarrow> (routeRule \<Rightarrow> 'v) \<Rightarrow> (string list \<Rightarrow> 'v) \<Rightarrow> bool" where
  "reads E k get g \<longleftrightarrow> k \<notin> set [''name'', ''type'', ''outbound'']
    \<and> (\<forall>v r r'. set_field_value E k v r = Some r' \<longrightarrow> get r' = g v)
    \<and> (\<forall>k' v r r'. k' \<noteq> k \<longrightarrow> set_field_value E k' v r = Some r' \<longrightarrow> get r' = get r)
    \<and> (\<forall>r i. get (r\<lparr>rr_outboundID := i\<rparr>) = get r)"

definition unwritten :: "'z route_env_scheme \<Rightarrow> (routeRule \<Rightarrow> 'v) \<Rightarrow> bool" where
  "unwritten E get \<longleftrightarrow> (\<forall>k v r r'. set_field_value E k v r = Some r' \<longrightarrow> get r' = get r)
    \<and> (\<forall>r i. get (r\<lparr>rr_outboundID := i\<rparr>) = get r)"

lemma outbound_from_json_frame:
  assumes "\<forall>r i. get (r\<lparr>rr_outboundID := i\<rparr>) = get r"
  shows "get (fst (outbound_from_json E v (r, w))) = get r"
  using assms by (auto simp: outbound_from_json_def Let_def split: json.splits)

lemma parse_member_unwritten:
  assumes "unwritten E get" "parse_member E m (r, w) = Some (r', w')"
  shows "get r' = get r"
  using assms outbound_from_json_frame [of get E "snd m" r w]
  by (cases m) (auto simp: parse_member_def unwritten_def split: if_splits option.splits)

lemma parse_rule_members_unwritten:
  assumes "unwritten E get" "parse_rule_members E ms (r, w) = Some (r', w')"
  shows "get r' = get r"
  using assms(2)
proof (induction ms arbitrary: r w)
  case (Cons m ms)
  then obtain r1 w1 where "parse_member E m (r, w) = Some (r1, w1)" "parse_rule_members E ms (r1, w1) = Some (r', w')"
    by (cases "parse_member E m (r, w)") auto
  with Cons.IH parse_member_unwritten [OF assms(1)] show ?case by metis
qed simp

lemma parse_member_other:
  assumes "reads E k get g" "parse_member E (k', v) (r, w) = Some (r', w')" "k' \<noteq> k"
  shows "get r' = get r"
  using assms outbound_from_json_frame [of get E v r w]
  by (auto simp: parse_member_def reads_def split: if_splits option.splits)

lemma parse_member_own:
  assumes "reads E k get g" "parse_member E (k, v) (r, w) = Some (r', w')"
  shows "get r' = (case value_strings v of None \<Rightarrow> get r | Some ss \<Rightarrow> g ss)"
  using assms by (auto simp: parse_member_def reads_def split: if_splits option.splits)

lemma parse_rule_members_reads:
  assumes "reads E k get g" "parse_rule_members E ms (r, w) = Some (r', w')" "distinct (map fst ms)"
  shows "get r' = (case Option.bind (map_of ms k) value_strings of None \<Rightarrow> get r | Some ss \<Rightarrow> g ss)"
  using assms(2,3)
proof (induction ms arbitrary: r w)
  case (Cons m ms)
  obtain k' v where m: "m = (k', v)" by (cases m)
  from Cons.prems obtain r1 w1 where one: "parse_member E m (r, w) = Some (r1, w1)"
    and rest: "parse_rule_members E ms (r1, w1) = Some (r', w')"
    by (cases "parse_member E m (r, w)") auto
  have IH: "get r' = (case Option.bind (map_of ms k) value_strings of None \<Rightarrow> get r1 | Some ss \<Rightarrow> g ss)"
    using Cons.IH [OF rest] Cons.prems by simp
  show ?case
  proof (cases "k' = k")
    case True
    then have "map_of ms k = None" using Cons.prems m by (simp add: map_of_eq_None_iff)
    with IH parse_member_own [OF assms(1), of v r w r1 w1] one m True show ?thesis by simp
  next
    case False
    with IH parse_member_other [OF assms(1), of k' v r w r1 w1] one m show ?thesis by (simp split: option.split)
  qed
qed simp

text \<open>The tables say which reader a key writes; a writer of one table does not touch another.\<close>

lemmas field_tables = list_fields_def text_fields_def bool_fields_def set_simps insert_iff empty_iff prod.inject

lemma list_text_frame:
  "(k, get, upd) \<in> set list_fields \<Longrightarrow> (k', get', upd') \<in> set text_fields \<Longrightarrow>
    get (upd' u r) = get r \<and> get' (upd v r) = get' r"
  by (unfold field_tables) (elim disjE conjE FalseE; hypsubst; simp)

lemma list_bool_frame:
  "(k, get, upd) \<in> set list_fields \<Longrightarrow> (k', get', upd') \<in> set bool_fields \<Longrightarrow>
    get (upd' u r) = get r \<and> get' (upd v r) = get' r"
  by (unfold field_tables) (elim disjE conjE FalseE; hypsubst; simp)

lemma text_bool_frame:
  "(k, get, upd) \<in> set text_fields \<Longrightarrow> (k', get', upd') \<in> set bool_fields \<Longrightarrow>
    get (upd' u r) = get r \<and> get' (upd v r) = get' r"
  by (unfold field_tables) (elim disjE conjE FalseE; hypsubst; simp)

lemma outbound_frame:
  "(k, get, upd) \<in> set list_fields \<Longrightarrow> get (r\<lparr>rr_outboundID := i\<rparr>) = get r \<and> k \<notin> set [''name'', ''type'', ''outbound'']"
  "(k, get', upd') \<in> set text_fields \<Longrightarrow> get' (r\<lparr>rr_outboundID := i\<rparr>) = get' r \<and> k \<notin> set [''name'', ''type'', ''outbound'']"
  "(k, get'', upd'') \<in> set bool_fields \<Longrightarrow> get'' (r\<lparr>rr_outboundID := i\<rparr>) = get'' r \<and> k \<notin> set [''name'', ''type'', ''outbound'']"
  by (unfold field_tables; elim disjE conjE FalseE; hypsubst; simp)+

text \<open>The one table a written name is in, or the outbound, or none.\<close>

lemma set_field_value_cases:
  assumes "set_field_value E k v r = Some r'"
  obtains (in_list) get upd where "(k, get, upd) \<in> set list_fields" "r' = upd (filterEmpty E v) r"
    | (in_text) get upd where "(k, get, upd) \<in> set text_fields" "v \<noteq> []" "r' = upd (hd v) r"
    | (in_bool) get upd where "(k, get, upd) \<in> set bool_fields" "v \<noteq> []" "r' = upd (hd v = ''true'') r"
    | (in_outbound) i where "k = ''outbound''" "r' = r\<lparr>rr_outboundID := i\<rparr>"
    | (nowhere) "r' = r"
proof (cases "map_of list_fields k")
  case (Some gu)
  with assms map_of_SomeD [OF Some] that(1) [of "fst gu" "snd gu"] show ?thesis
    by (simp add: set_field_value_def split_beta)
next
  case no_list: None
  show ?thesis
  proof (cases "map_of text_fields k")
    case (Some gu)
    with assms no_list have "v \<noteq> [] \<and> r' = snd gu (hd v) r"
      by (simp add: set_field_value_def split_beta split: list.splits)
    with map_of_SomeD [OF Some] that(2) [of "fst gu" "snd gu"] show ?thesis by simp
  next
    case no_text: None
    show ?thesis
    proof (cases "map_of bool_fields k")
      case (Some gu)
      with assms no_list no_text have "v \<noteq> [] \<and> r' = snd gu (hd v = ''true'') r"
        by (simp add: set_field_value_def split_beta split: list.splits)
      with map_of_SomeD [OF Some] that(3) [of "fst gu" "snd gu"] show ?thesis by simp
    next
      case None
      with assms no_list no_text have "(k = ''outbound'' \<and> (\<exists>i. r' = r\<lparr>rr_outboundID := i\<rparr>)) \<or> r' = r"
        by (auto simp: set_field_value_def split: list.splits if_splits)
      then show ?thesis using that(4,5) by blast
    qed
  qed
qed

lemma keys_disjoint:
  "(k, get, upd) \<in> set text_fields \<Longrightarrow> map_of list_fields k = None"
  "(k, get', upd') \<in> set bool_fields \<Longrightarrow> map_of list_fields k = None \<and> map_of text_fields k = None"
  by (unfold text_fields_def bool_fields_def set_simps insert_iff empty_iff prod.inject;
      elim disjE conjE FalseE; hypsubst; simp add: list_fields_def text_fields_def)+

lemma reads_list:
  assumes "(k, get, upd) \<in> set list_fields"
  shows "reads E k get (filterEmpty E)"
proof -
  have "get r' = filterEmpty E v" if "set_field_value E k v r = Some r'" for v r r'
    using that rule_lists.lookup [OF assms] rule_lists.get_put [OF assms] by (auto simp: set_field_value_def)
  moreover have "get r' = get r" if k': "k' \<noteq> k" and written: "set_field_value E k' v r = Some r'" for k' v r r'
    using written
  proof (cases rule: set_field_value_cases)
    case (in_list get' upd')
    with rule_lists.get_other [OF assms in_list(1)] k' show ?thesis by simp
  next
    case (in_text get' upd')
    with list_text_frame [OF assms in_text(1)] show ?thesis by simp
  next
    case (in_bool get' upd')
    with list_bool_frame [OF assms in_bool(1)] show ?thesis by simp
  qed (use outbound_frame(1) [OF assms] in auto)
  ultimately show ?thesis using outbound_frame(1) [OF assms] unfolding reads_def by blast
qed

lemma reads_text:
  assumes "(k, get, upd) \<in> set text_fields"
  shows "reads E k get hd"
proof -
  have "get r' = hd v" if "set_field_value E k v r = Some r'" for v r r'
    using that rule_texts.lookup [OF assms] rule_texts.get_put [OF assms] keys_disjoint(1) [OF assms]
    by (auto simp: set_field_value_def split: list.splits)
  moreover have "get r' = get r" if k': "k' \<noteq> k" and written: "set_field_value E k' v r = Some r'" for k' v r r'
    using written
  proof (cases rule: set_field_value_cases)
    case (in_list get' upd')
    with list_text_frame [OF in_list(1) assms] show ?thesis by simp
  next
    case (in_text get' upd')
    with rule_texts.get_other [OF assms in_text(1)] k' show ?thesis by simp
  next
    case (in_bool get' upd')
    with text_bool_frame [OF assms in_bool(1)] show ?thesis by simp
  qed (use outbound_frame(2) [OF assms] in auto)
  ultimately show ?thesis using outbound_frame(2) [OF assms] unfolding reads_def by blast
qed

lemma reads_bool:
  assumes "(k, get, upd) \<in> set bool_fields"
  shows "reads E k get (\<lambda>v. hd v = ''true'')"
proof -
  have "get r' = (hd v = ''true'')" if "set_field_value E k v r = Some r'" for v r r'
    using that rule_bools.lookup [OF assms] rule_bools.get_put [OF assms] keys_disjoint(2) [OF assms]
    by (auto simp: set_field_value_def split: list.splits)
  moreover have "get r' = get r" if k': "k' \<noteq> k" and written: "set_field_value E k' v r = Some r'" for k' v r r'
    using written
  proof (cases rule: set_field_value_cases)
    case (in_list get' upd')
    with list_bool_frame [OF in_list(1) assms] show ?thesis by simp
  next
    case (in_text get' upd')
    with text_bool_frame [OF in_text(1) assms] show ?thesis by simp
  next
    case (in_bool get' upd')
    with rule_bools.get_other [OF assms in_bool(1)] k' show ?thesis by simp
  qed (use outbound_frame(3) [OF assms] in auto)
  ultimately show ?thesis using outbound_frame(3) [OF assms] unfolding reads_def by blast
qed

subsection \<open>Members of a shared rule\<close>

lemma keys_member [simp]: "fst ` set (member c k v) = (if c then {k} else {})"
  by (simp add: member_def)

lemma map_of_member: "map_of (member c k v @ rest) q = (if c \<and> q = k then Some v else map_of rest q)"
  by (simp add: member_def)

lemma distinct_member:
  "distinct (map fst rest) \<Longrightarrow> k \<notin> fst ` set rest \<Longrightarrow> distinct (map fst (member c k v @ rest))"
  by (simp add: member_def)

definition tail_members :: "'z route_env_scheme \<Rightarrow> routeRule \<Rightarrow> json option \<Rightarrow> (string \<times> json) list" where
  "tail_members E r ob = action_members E r @ (case ob of Some v \<Rightarrow> [(''outbound'', v)] | None \<Rightarrow> [])"

definition share_members :: "'z route_env_scheme \<Rightarrow> routeRule \<Rightarrow> json option \<Rightarrow> (string \<times> json) list" where
  "share_members E r ob = condition_members E True r @ tail_members E r ob"

definition tail_keys :: "string list" where
  "tail_keys = [''action'', ''reject_method'', ''no_drop'', ''override_address'', ''override_port'',
     ''override_destination'', ''strategy'', ''outbound'']"

lemma tail_members_keys: "fst ` set (tail_members E r ob) \<subseteq> set tail_keys"
  by (auto simp: tail_members_def tail_keys_def action_members_def member_def split: option.split if_splits)

lemma tail_members_not: "k \<notin> set tail_keys \<Longrightarrow> k \<notin> fst ` set (tail_members E r ob)"
  using tail_members_keys by blast

lemma distinct_share_members: "distinct (map fst (share_members E r ob))"
proof -
  have tail: "distinct (map fst (tail_members E r ob))"
    by (auto simp: tail_members_def action_members_def member_def routes_out_def split: option.split)
  show ?thesis
    unfolding share_members_def condition_members_def Let_def append_assoc
    by (intro distinct_member tail; simp add: image_Un tail_members_not tail_keys_def)
qed

lemma map_of_tail_not: "k \<notin> set tail_keys \<Longrightarrow> map_of (tail_members E r ob) k = None"
  using tail_members_not by (metis map_of_eq_None_iff)

text \<open>What each key of a shared rule holds.\<close>

definition strings_if :: "bool \<Rightarrow> string list \<Rightarrow> json option" where
  "strings_if c xs = (if c then Some (get_as_array xs) else None)"

lemma share_member_values:
  "map_of (share_members E r ob) ''ip_version'' = (if rr_ip_version r \<noteq> [] then Some (jint (qt_int E (rr_ip_version r))) else None)"
  "map_of (share_members E r ob) ''network'' = (if rr_network r \<noteq> [] then Some (JStr (rr_network r)) else None)"
  "map_of (share_members E r ob) ''protocol'' = (if rr_protocol r \<noteq> [] then Some (JStr (rr_protocol r)) else None)"
  "map_of (share_members E r ob) ''source_ip_is_private'' = (if rr_source_ip_is_private r then Some (JBool True) else None)"
  "map_of (share_members E r ob) ''ip_is_private'' = (if rr_ip_is_private r then Some (JBool True) else None)"
  "map_of (share_members E r ob) ''invert'' = (if rr_invert r then Some (JBool True) else None)"
  "map_of (share_members E r ob) ''source_port'' =
     (if isValidStrArray E (rr_source_port r) then Some (get_as_int_array E (rr_source_port r)) else None)"
  "map_of (share_members E r ob) ''port'' =
     (if isValidStrArray E (rr_port r) then Some (get_as_int_array E (rr_port r)) else None)"
  by (simp_all add: share_members_def condition_members_def Let_def map_of_member map_of_tail_not tail_keys_def
      del: map_of_append)

lemma share_list_values:
  assumes "(k, get, upd) \<in> set list_fields" "k \<noteq> ''source_port''" "k \<noteq> ''port''"
  shows "map_of (share_members E r ob) k = strings_if (isValidStrArray E (get r)) (get r)"
  using assms
  by (unfold list_fields_def set_simps insert_iff empty_iff prod.inject; elim disjE conjE FalseE; hypsubst;
      simp add: share_members_def condition_members_def Let_def map_of_member map_of_tail_not tail_keys_def strings_if_def
      del: map_of_append)

lemma share_tail_values:
  assumes "k \<in> set tail_keys"
  shows "map_of (share_members E r ob) k = map_of (tail_members E r ob) k"
  using assms
  by (unfold tail_keys_def set_simps insert_iff empty_iff; elim disjE FalseE; hypsubst;
      simp add: share_members_def condition_members_def Let_def map_of_member del: map_of_append)

lemma tail_values:
  "map_of (tail_members E r ob) ''action'' = Some (JStr (rr_action r))"
  "map_of (tail_members E r ob) ''no_drop'' =
     (if rr_action r = ''reject'' \<and> rr_no_drop r then Some (JBool True) else None)"
  "map_of (tail_members E r ob) ''override_address'' =
     (if (routes_out r \<or> rr_action r = ''route-options'') \<and> rr_override_address r \<noteq> []
      then Some (JStr (rr_override_address r)) else None)"
  "map_of (tail_members E r ob) ''override_port'' =
     (if (routes_out r \<or> rr_action r = ''route-options'') \<and> 0 < qt_int E (rr_override_port r)
      then Some (jint (qt_int E (rr_override_port r))) else None)"
  "map_of (tail_members E r ob) ''override_destination'' =
     (if rr_action r = ''sniff'' \<and> rr_sniffOverrideDest r then Some (JBool True) else None)"
  "map_of (tail_members E r ob) ''strategy'' =
     (if rr_action r = ''resolve'' \<and> rr_strategy r \<noteq> [] then Some (JStr (rr_strategy r)) else None)"
  "map_of (tail_members E r ob) ''outbound'' = ob"
  by (auto simp: tail_members_def action_members_def member_def routes_out_def map_add_def split: option.split)

lemma method_not_shared: "map_of (share_members E r ob) ''method'' = None"
  by (simp add: share_members_def condition_members_def Let_def map_of_member map_of_tail_not tail_keys_def
      del: map_of_append)

text \<open>The outbound of a parsed rule, and the warnings, come from the member of that name alone.\<close>

definition outbound_read :: "'z route_env_scheme \<Rightarrow> json \<Rightarrow> int option \<times> string" where
  "outbound_read E v = (case v of
     JNum _ \<Rightarrow> if isOutboundIDValid E (to_int 0 v) then (Some (to_int 0 v), [])
        else (Some proxyID, appendWarning [] (''outbound id '' @ number (to_int 0 v) @ '' not found, using proxy''))
   | JStr s \<Rightarrow> if getOutboundID E s \<noteq> INVALID_ID then (Some (getOutboundID E s), [])
        else (Some proxyID, appendWarning [] (''outbound \"'' @ s @ ''\" not found, using proxy''))
   | _ \<Rightarrow> (None, []))"

lemma outbound_from_json_read: "outbound_from_json E v (r, w) =
    ((case fst (outbound_read E v) of Some i \<Rightarrow> r\<lparr>rr_outboundID := i\<rparr> | None \<Rightarrow> r), w @ snd (outbound_read E v))"
  by (simp add: outbound_from_json_def outbound_read_def appendWarning_def Let_def split: json.split)

lemma set_field_value_outbound: "k \<noteq> ''outbound'' \<Longrightarrow> set_field_value E k v r = Some r' \<Longrightarrow> rr_outboundID r' = rr_outboundID r"
proof (erule set_field_value_cases)
  fix get upd
  assume "(k, get, upd) \<in> set list_fields" "r' = upd (filterEmpty E v) r"
  then show ?thesis by (unfold field_tables) (elim disjE conjE FalseE; hypsubst; simp)
next
  fix get upd
  assume "(k, get, upd) \<in> set text_fields" "r' = upd (hd v) r"
  then show ?thesis by (unfold field_tables) (elim disjE conjE FalseE; hypsubst; simp)
next
  fix get upd
  assume "(k, get, upd) \<in> set bool_fields" "r' = upd (hd v = ''true'') r"
  then show ?thesis by (unfold field_tables) (elim disjE conjE FalseE; hypsubst; simp)
qed simp_all

lemma parse_rule_members_outbound:
  assumes "parse_rule_members E ms (r, w) = Some (r', w')" "distinct (map fst ms)"
  shows "rr_outboundID r' = (case Option.bind (map_of ms ''outbound'') (fst \<circ> outbound_read E) of
           Some i \<Rightarrow> i | None \<Rightarrow> rr_outboundID r)
    \<and> w' = w @ (case map_of ms ''outbound'' of Some v \<Rightarrow> snd (outbound_read E v) | None \<Rightarrow> [])"
  using assms
proof (induction ms arbitrary: r w)
  case (Cons m ms)
  obtain k v where m: "m = (k, v)" by (cases m)
  from Cons.prems obtain r1 w1 where one: "parse_member E m (r, w) = Some (r1, w1)"
    and rest: "parse_rule_members E ms (r1, w1) = Some (r', w')"
    by (cases "parse_member E m (r, w)") auto
  have "distinct (map fst ms)" using Cons.prems by simp
  note IH = Cons.IH [OF rest this]
  show ?case
  proof (cases "k = ''outbound''")
    case True
    then have "map_of ms ''outbound'' = None" using Cons.prems m by (simp add: map_of_eq_None_iff)
    with IH Cons.prems one m True show ?thesis
      by (auto simp: parse_member_def outbound_from_json_read split: option.splits)
  next
    case False
    then have "rr_outboundID r1 = rr_outboundID r \<and> w1 = w"
      using one m set_field_value_outbound [OF False] by (auto simp: parse_member_def split: if_splits option.splits)
    with IH m False show ?thesis by (simp split: option.split)
  qed
qed simp

lemma parse_rule_members_succeed:
  "\<forall>(k, v) \<in> set ms. value_strings v \<noteq> Some [] \<Longrightarrow> parse_rule_members E ms st \<noteq> None"
proof (induction ms arbitrary: st)
  case (Cons m ms)
  obtain k v r w where m: "m = (k, v)" "st = (r, w)" by (cases m; cases st)
  have "set_field_value E k ss r \<noteq> None" if "ss \<noteq> []" for ss
    using that by (cases ss) (auto simp: set_field_value_def split: option.splits)
  with Cons.prems m have "parse_member E m st \<noteq> None"
    by (auto simp: parse_member_def split: option.splits)
  with Cons show ?case by auto
qed simp

subsection \<open>A shared rule, parsed\<close>

text \<open>
  What the other side gets: numbers (the IP version, the ports) and the reject method are lost, the
  members of other actions are reset, lists lose their blank items.
\<close>

definition shared_form :: "'z route_env_scheme \<Rightarrow> routeRule \<Rightarrow> routeRule" where
  "shared_form E r = new_rule\<lparr>
     rr_network := rr_network r, rr_protocol := rr_protocol r,
     rr_inbound := filterEmpty E (rr_inbound r), rr_domain := filterEmpty E (rr_domain r),
     rr_domain_suffix := filterEmpty E (rr_domain_suffix r), rr_domain_keyword := filterEmpty E (rr_domain_keyword r),
     rr_domain_regex := filterEmpty E (rr_domain_regex r), rr_source_ip_cidr := filterEmpty E (rr_source_ip_cidr r),
     rr_source_ip_is_private := rr_source_ip_is_private r, rr_ip_cidr := filterEmpty E (rr_ip_cidr r),
     rr_ip_is_private := rr_ip_is_private r, rr_source_port_range := filterEmpty E (rr_source_port_range r),
     rr_port_range := filterEmpty E (rr_port_range r), rr_process_name := filterEmpty E (rr_process_name r),
     rr_process_path := filterEmpty E (rr_process_path r), rr_process_path_regex := filterEmpty E (rr_process_path_regex r),
     rr_wifi_ssid := filterEmpty E (rr_wifi_ssid r), rr_wifi_bssid := filterEmpty E (rr_wifi_bssid r),
     rr_rule_set := filterEmpty E (rr_rule_set r), rr_invert := rr_invert r,
     rr_outboundID := (if routes_out r then rr_outboundID r else directID), rr_action := rr_action r,
     rr_no_drop := (rr_action r = ''reject'' \<and> rr_no_drop r),
     rr_override_address := (if routes_out r \<or> rr_action r = ''route-options'' then rr_override_address r else []),
     rr_sniffOverrideDest := (rr_action r = ''sniff'' \<and> rr_sniffOverrideDest r),
     rr_strategy := (if rr_action r = ''resolve'' then rr_strategy r else [])\<rparr>"

text \<open>The outbound can be told to the other side: the proxy, direct, or a profile found by its name.\<close>

definition outbound_nameable :: "'z route_env_scheme \<Rightarrow> routeRule \<Rightarrow> bool" where
  "outbound_nameable E r \<longleftrightarrow> (routes_out r \<longrightarrow> rr_outboundID r = proxyID \<or> rr_outboundID r = directID
     \<or> (\<exists>p. ro_profile E (rr_outboundID r) = Some p \<and> ro_byName E (outbound_name p) = Some p
          \<and> pr_id p = rr_outboundID r \<and> rr_outboundID r \<noteq> INVALID_ID
          \<and> outbound_name p \<noteq> ''proxy'' \<and> outbound_name p \<noteq> ''direct''))"

lemma nameable_read:
  assumes "outbound_nameable E r" "routes_out r"
  obtains s where "outbound_member E True [] r = Some (JStr s)" "outbound_read E (JStr s) = (Some (rr_outboundID r), [])"
proof -
  consider "rr_outboundID r = -1" | "rr_outboundID r = -2"
    | p where "rr_outboundID r \<noteq> -1" "rr_outboundID r \<noteq> -2" "ro_profile E (rr_outboundID r) = Some p"
        "ro_byName E (outbound_name p) = Some p" "pr_id p = rr_outboundID r" "rr_outboundID r \<noteq> INVALID_ID"
        "outbound_name p \<noteq> ''proxy''" "outbound_name p \<noteq> ''direct''"
    using assms by (auto simp: outbound_nameable_def proxyID_def directID_def)
  then show thesis
  proof cases
    case 1
    with that [of "''proxy''"] show thesis
      by (simp add: outbound_member_def outbound_read_def getOutboundID_def INVALID_ID_def)
  next
    case 2
    with that [of "''direct''"] show thesis
      by (simp add: outbound_member_def outbound_read_def getOutboundID_def INVALID_ID_def)
  next
    case 3
    with that [of "outbound_name p"] show thesis
      by (simp add: outbound_member_def outbound_read_def getOutboundID_def)
  qed
qed

lemma filterEmpty_valid: "qt_trimmed E [] = [] \<Longrightarrow> \<not> isValidStrArray E xs \<longleftrightarrow> filterEmpty E xs = []"
  by (auto simp: isValidStrArray_def filterEmpty_def list_ex_iff filter_empty_conv)

lemma value_strings_array [simp]: "value_strings (get_as_array xs) = Some xs"
  by (simp add: value_strings_def get_as_array_def QListString_roundtrip)

lemma value_strings_ints [simp]: "value_strings (get_as_int_array E xs) = Some (map (\<lambda>_. []) xs)"
  by (simp add: value_strings_def get_as_int_array_def QJsonArray2QListString_def to_str_def jint_def)

lemma value_strings_simps [simp]:
  "value_strings (jint i) = None" "value_strings (JStr s) = Some [s]"
  "value_strings (JBool b) = Some [if b then ''true'' else ''false'']"
  by (simp_all add: value_strings_def jint_def)

lemma share_members_parse:
  assumes "(k, v) \<in> set (share_members E r ob)" "\<forall>v. ob = Some v \<longrightarrow> value_strings v \<noteq> Some []"
  shows "value_strings v \<noteq> Some []"
proof -
  have valid: "xs \<noteq> []" if "isValidStrArray E xs" for xs using that by (auto simp: isValidStrArray_def)
  have "(k, v) \<in> set (condition_members E True r) \<Longrightarrow> ?thesis"
    unfolding condition_members_def Let_def set_append Un_iff member_def
    by (elim disjE; simp split: if_splits; use valid in force)
  moreover have "(k, v) \<in> set (tail_members E r ob) \<Longrightarrow> ?thesis"
    using assms(2) by (auto simp: tail_members_def action_members_def member_def split: if_splits option.splits)
  ultimately show ?thesis using assms(1) by (auto simp: share_members_def)
qed

lemma distinct_wf_object: "wf_object ob \<Longrightarrow> distinct (map fst ob)"
  by (simp add: wf_object_def strict_sorted_iff)

definition share_outbound :: "'z route_env_scheme \<Rightarrow> routeRule \<Rightarrow> json option" where
  "share_outbound E r = (if routes_out r then outbound_member E True [] r else None)"

definition share_object :: "'z route_env_scheme \<Rightarrow> string \<Rightarrow> ruleType \<Rightarrow> routeRule \<Rightarrow> jobject" where
  "share_object E nm t r = jput ''type'' (JStr (ruleTypeToToken t)) (jput ''name'' (JStr nm)
     (jbuild (share_members E r (share_outbound E r))))"

lemma share_object_eq:
  assumes "rr_type r \<noteq> EndpointPreferredBy" "routes_out (fix_action r) \<longrightarrow> share_outbound E (fix_action r) \<noteq> None"
  shows "to_share_json E r = (share_object E (rr_name r) (rr_type r) (fix_action r), fix_action r)"
proof -
  have same: "rr_name (fix_action r) = rr_name r" "rr_type (fix_action r) = rr_type r"
    by (simp_all add: fix_action_def)
  have "get_rule_json E True [] r = (jbuild (share_members E (fix_action r) (share_outbound E (fix_action r))), fix_action r)"
    using assms by (auto simp: get_rule_json_def Let_def share_members_def tail_members_def share_outbound_def)
  moreover have "share_members E q ob \<noteq> []" for q ob
    by (simp add: share_members_def tail_members_def action_members_def)
  ultimately show ?thesis
    using assms(1) same by (simp add: to_share_json_def share_object_def jbuild_nonempty)
qed

lemma share_object_lookup:
  "map_of (share_object E nm t r) k = (if k = ''type'' then Some (JStr (ruleTypeToToken t))
     else if k = ''name'' then Some (JStr nm) else map_of (share_members E r (share_outbound E r)) k)"
  by (simp add: share_object_def json_store.look_put map_of_jbuild distinct_share_members)

lemma share_object_distinct: "distinct (map fst (share_object E nm t r))"
  unfolding share_object_def by (intro distinct_wf_object wf_jput wf_jbuild)

lemma share_object_parses:
  assumes "\<forall>v. share_outbound E r = Some v \<longrightarrow> value_strings v \<noteq> Some []"
  shows "parse_rule_object E (share_object E nm t r) w \<noteq> None"
proof -
  have "value_strings v \<noteq> Some []" if "(k, v) \<in> set (share_object E nm t r)" for k v
  proof -
    have "map_of (share_object E nm t r) k = Some v"
      using that share_object_distinct by (rule map_of_is_SomeI [rotated])
    then show ?thesis
      using share_members_parse [OF map_of_SomeD assms] by (auto simp: share_object_lookup split: if_splits)
  qed
  then show ?thesis unfolding parse_rule_object_def by (intro parse_rule_members_succeed) blast
qed

lemma unwrittenI:
  assumes "\<And>k g u r v. (k, g, u) \<in> set list_fields \<Longrightarrow> get (u v r) = get r"
    "\<And>k g u r v. (k, g, u) \<in> set text_fields \<Longrightarrow> get (u v r) = get r"
    "\<And>k g u r v. (k, g, u) \<in> set bool_fields \<Longrightarrow> get (u v r) = get r"
    "\<And>r i. get (r\<lparr>rr_outboundID := i\<rparr>) = get r"
  shows "unwritten E get"
proof -
  have "get r' = get r" if "set_field_value E k v r = Some r'" for k v r r'
    using that by (rule set_field_value_cases) (simp_all add: assms)
  with assms(4) show ?thesis unfolding unwritten_def by blast
qed

lemma unwritten_fields:
  "unwritten E rr_name" "unwritten E rr_type" "unwritten E rr_sniffers" "unwritten E rr_uiVisibleAttributes"
  "unwritten E rr_uiAttributeTabsSeeded" "unwritten E rr_uiActiveAttributeTabLabel"
  by (rule unwrittenI; (unfold field_tables)?; (elim disjE conjE FalseE; hypsubst)?; simp)+

text \<open>Every field of a parsed share object.\<close>

lemma parsed_share_object:
  assumes "parse_rule_object E (share_object E nm t r) w = Some (r', w')" "qt_trimmed E [] = []"
    "\<forall>v. share_outbound E r = Some v \<longrightarrow> fst (outbound_read E v) = Some (rr_outboundID r) \<and> snd (outbound_read E v) = []"
    "share_outbound E r = None \<longleftrightarrow> \<not> routes_out r"
  shows "r' = shared_form E r \<and> w' = w"
proof -
  let ?ms = "share_object E nm t r"
  have parse: "parse_rule_members E ?ms (new_rule, w) = Some (r', w')"
    using assms(1) by (simp add: parse_rule_object_def)
  note looked = share_object_lookup [of E nm t r]
  have ports: "filterEmpty E (map (\<lambda>_. []) xs) = []" for xs :: "string list"
    using assms(2) by (simp add: filterEmpty_def filter_empty_conv)
  have lists: "get r' = filterEmpty E (get r)"
    if f: "(k, get, upd) \<in> set list_fields" "k \<noteq> ''source_port''" "k \<noteq> ''port''" for k get upd
  proof -
    have "get new_rule = []" using f(1) by (unfold field_tables) (elim disjE conjE FalseE; hypsubst; simp add: new_rule_def)
    moreover have "k \<noteq> ''type''" "k \<noteq> ''name''" using outbound_frame(1) [OF f(1)] by auto
    ultimately show ?thesis
      using parse_rule_members_reads [OF reads_list [OF f(1)] parse share_object_distinct] share_list_values [OF f, of E r "share_outbound E r"]
        filterEmpty_valid [OF assms(2), of "get r"]
      by (cases "isValidStrArray E (get r)") (simp_all add: looked strings_if_def)
  qed
  have texts: "get r' = (case Option.bind (map_of (share_members E r (share_outbound E r)) k) value_strings of
      None \<Rightarrow> [] | Some ss \<Rightarrow> hd ss)"
    if f: "(k, get, upd) \<in> set text_fields" "k \<noteq> ''action''" for k get upd
  proof -
    have "get new_rule = []" using f by (unfold field_tables) (elim disjE conjE FalseE; hypsubst; simp add: new_rule_def)
    moreover have "k \<noteq> ''type''" "k \<noteq> ''name''" using outbound_frame(2) [OF f(1)] by auto
    ultimately show ?thesis
      using parse_rule_members_reads [OF reads_text [OF f(1)] parse share_object_distinct]
      by (simp add: looked cong: option.case_cong)
  qed
  have bools: "get r' = (case Option.bind (map_of (share_members E r (share_outbound E r)) k) value_strings of
      None \<Rightarrow> False | Some ss \<Rightarrow> hd ss = ''true'')"
    if f: "(k, get, upd) \<in> set bool_fields" for k get upd
  proof -
    have "get new_rule = False" using f by (unfold field_tables) (elim disjE conjE FalseE; hypsubst; simp add: new_rule_def)
    moreover have "k \<noteq> ''type''" "k \<noteq> ''name''" using outbound_frame(3) [OF f] by auto
    ultimately show ?thesis
      using parse_rule_members_reads [OF reads_bool [OF f] parse share_object_distinct]
      by (simp add: looked cong: option.case_cong)
  qed
  have int_lists: "rr_source_port r' = []" "rr_port r' = []"
    using parse_rule_members_reads [OF reads_list parse share_object_distinct, of "''source_port''" rr_source_port "\<lambda>v. rr_source_port_update (\<lambda>_. v)"]
      parse_rule_members_reads [OF reads_list parse share_object_distinct, of "''port''" rr_port "\<lambda>v. rr_port_update (\<lambda>_. v)"]
    by (simp_all add: list_fields_def looked share_member_values ports new_rule_def)
  have action: "rr_action r' = rr_action r"
    using parse_rule_members_reads [OF reads_text parse share_object_distinct, of "''action''" rr_action "\<lambda>v. rr_action_update (\<lambda>_. v)"]
    by (simp add: text_fields_def looked share_tail_values tail_keys_def tail_values)
  have kept: "rr_name r' = rr_name new_rule" "rr_type r' = rr_type new_rule" "rr_sniffers r' = rr_sniffers new_rule"
    "rr_uiVisibleAttributes r' = rr_uiVisibleAttributes new_rule"
    "rr_uiAttributeTabsSeeded r' = rr_uiAttributeTabsSeeded new_rule"
    "rr_uiActiveAttributeTabLabel r' = rr_uiActiveAttributeTabLabel new_rule"
    using parse_rule_members_unwritten [OF _ parse] unwritten_fields by blast+
  have ob: "rr_outboundID r' = (if routes_out r then rr_outboundID r else directID)" "w' = w"
    using parse_rule_members_outbound [OF parse share_object_distinct] assms(3,4)
    by (auto simp: looked share_tail_values tail_keys_def tail_values new_rule_def split: option.splits)
  have tables: "\<forall>(k, get, upd) \<in> set list_fields. k \<noteq> ''source_port'' \<longrightarrow> k \<noteq> ''port'' \<longrightarrow> get r' = filterEmpty E (get r)"
    "\<forall>(k, get, upd) \<in> set text_fields. k \<noteq> ''action'' \<longrightarrow> get r' =
      (case Option.bind (map_of (share_members E r (share_outbound E r)) k) value_strings of None \<Rightarrow> [] | Some ss \<Rightarrow> hd ss)"
    "\<forall>(k, get, upd) \<in> set bool_fields. get r' =
      (case Option.bind (map_of (share_members E r (share_outbound E r)) k) value_strings of None \<Rightarrow> False | Some ss \<Rightarrow> hd ss = ''true'')"
    using lists texts bools by blast+
  show ?thesis
    using ob(2)
    by (intro conjI routeRule.equality)
       (simp_all add: shared_form_def kept ob int_lists action tables [unfolded list_fields_def text_fields_def bool_fields_def, simplified]
          share_member_values share_tail_values tail_keys_def tail_values method_not_shared new_rule_def)
qed

text \<open>
  C32: A rule whose outbound can be told to the other side and that is no endpoint rule always
  parses back from its share object, without a warning, with its name and type: what arrives has
  every text, truth value and list of its conditions (without blank items), its action, its outbound
  and the options of that action, but neither the IP version, the ports, the port override nor the
  reject method, whose values the parser does not read or the writer names differently.
\<close>

theorem shared_rule_survives:
  assumes "rr_type r \<noteq> EndpointPreferredBy" "outbound_nameable E (fix_action r)" "qt_trimmed E [] = []"
  shows "parse_rule_object E (fst (to_share_json E r)) w = Some (shared_form E (fix_action r), w)
    \<and> to_str [] (jget (fst (to_share_json E r)) ''name'') = rr_name r
    \<and> tokenToRuleType (to_str [] (jget (fst (to_share_json E r)) ''type'')) = rr_type r"
proof -
  let ?q = "fix_action r"
  have told: "\<exists>s. share_outbound E ?q = Some (JStr s) \<and> outbound_read E (JStr s) = (Some (rr_outboundID ?q), [])"
    if "routes_out ?q"
    using nameable_read [OF assms(2) that] that by (auto simp: share_outbound_def)
  have some: "share_outbound E ?q = None \<longleftrightarrow> \<not> routes_out ?q"
    using told by (auto simp: share_outbound_def)
  have read: "\<forall>v. share_outbound E ?q = Some v \<longrightarrow>
      fst (outbound_read E v) = Some (rr_outboundID ?q) \<and> snd (outbound_read E v) = [] \<and> value_strings v \<noteq> Some []"
    using told some by (cases "routes_out ?q") auto
  have ob: "fst (to_share_json E r) = share_object E (rr_name r) (rr_type r) ?q"
    using share_object_eq [OF assms(1), of E] some by simp
  obtain r' w' where parsed: "parse_rule_object E (share_object E (rr_name r) (rr_type r) ?q) w = Some (r', w')"
    using share_object_parses [of E ?q "rr_name r" "rr_type r" w] read by auto
  with parsed_share_object [OF parsed assms(3) _ some] read show ?thesis
    by (simp add: ob jget_def share_object_lookup rule_tokens.dec_enc)
qed

text \<open>A rule to a profile with a port among its conditions.\<close>

definition demo_rule :: routeRule where
  "demo_rule = new_rule\<lparr>rr_name := ''web'', rr_domain := [''a.example'', '' ''], rr_port := [''443''], rr_outboundID := 7\<rparr>"

theorem shared_rule_survives_witness:
  "parse_rule_object demo_routing (fst (to_share_json demo_routing demo_rule)) []
     = Some (shared_form demo_routing demo_rule, [])
   \<and> rr_domain (shared_form demo_routing demo_rule) = [''a.example'']
   \<and> rr_port (shared_form demo_routing demo_rule) = [] \<and> rr_outboundID (shared_form demo_routing demo_rule) = 7"
proof -
  have fixed: "fix_action demo_rule = demo_rule" by code_simp
  have "ro_profile demo_routing 7 = Some (demo_profile 7 ''Tokyo'')"
    "ro_byName demo_routing (outbound_name (demo_profile 7 ''Tokyo'')) = Some (demo_profile 7 ''Tokyo'')"
    "pr_id (demo_profile 7 ''Tokyo'') = 7" "outbound_name (demo_profile 7 ''Tokyo'') = ''Tokyo''" "rr_outboundID demo_rule = 7"
    by (simp_all add: demo_routing_def demo_profiles_def demo_names_def outbound_name_def demo_profile_def DisplayName_def demo_rule_def)
  then have "outbound_nameable demo_routing (fix_action demo_rule)"
    unfolding fixed outbound_nameable_def by (simp add: INVALID_ID_def)
  moreover have "rr_type demo_rule \<noteq> EndpointPreferredBy" "qt_trimmed demo_routing [] = []" by code_simp+
  ultimately have "parse_rule_object demo_routing (fst (to_share_json demo_routing demo_rule)) []
     = Some (shared_form demo_routing demo_rule, [])"
    using shared_rule_survives [of demo_rule demo_routing "[]"] fixed by simp
  moreover have "rr_domain (shared_form demo_routing demo_rule) = [''a.example'']" by code_simp
  moreover have "rr_port (shared_form demo_routing demo_rule) = []" "rr_outboundID (shared_form demo_routing demo_rule) = 7"
    by code_simp+
  ultimately show ?thesis by blast
qed

text \<open>
  A rule for traffic that bypasses WARP has no profile behind its outbound: it has no share object, so
  sharing drops it, and the view of the profile it is in is empty.
\<close>

lemma warp_rule_not_shared:
  assumes "rr_type r \<noteq> EndpointPreferredBy" "rr_action r = ''route''" "rr_outboundID r = warpBypassID"
    "ro_profile E warpBypassID = None"
  shows "fst (to_share_json E r) = []"
  using assms by (simp add: to_share_json_def get_rule_json_def fix_action_def routes_out_def outbound_member_def
      warpBypassID_def Let_def)

text \<open>An empty array where one string is expected makes the parser read past the end of a list.\<close>

lemma empty_array_reads_past_end: "parse_rule_object E [(''network'', JArr [])] w = None"
  by (simp add: parse_rule_object_def parse_member_def value_strings_def QJsonArray2QListString_def
      set_field_value_def list_fields_def text_fields_def)

end
