(* ===== verification/RouteImportProps.thy ===== *)
theory RouteImportProps
  imports RouteShare RouteProfileProps
begin

text \<open>
  Adopting shared endpoints: the shelf only grows, and a profile that comes out of an import runs
  only endpoints that exist here and can be one.
\<close>

definition shelf_ok :: "shelf \<Rightarrow> bool" where
  "shelf_ok sf \<longleftrightarrow> (\<forall>i. sf_profiles sf i \<noteq> None \<longrightarrow> i \<le> sf_last_id sf)"

text \<open>No profile is lost or changed.\<close>

definition grows :: "shelf \<Rightarrow> shelf \<Rightarrow> bool" where
  "grows sf sf' \<longleftrightarrow> shelf_ok sf' \<and> sf_profiles sf \<subseteq>\<^sub>m sf_profiles sf'"

lemma grows_refl: "shelf_ok sf \<Longrightarrow> grows sf sf"
  by (simp add: grows_def)

lemma grows_trans: "grows a b \<Longrightarrow> grows b c \<Longrightarrow> grows a c"
  using map_le_trans by (auto simp: grows_def)

lemma map_leD: "P \<subseteq>\<^sub>m P' \<Longrightarrow> P i = Some p \<Longrightarrow> P' i = Some p"
  by (metis domI map_le_def)

lemma grows_AddProfile: "shelf_ok sf \<Longrightarrow> grows sf (snd (snd (repo_AddProfile p sf)))"
  by (auto simp: repo_AddProfile_def grows_def shelf_ok_def map_le_def Let_def)

lemma unwrapChain_mono: "P \<subseteq>\<^sub>m P' \<Longrightarrow> P i \<noteq> None \<Longrightarrow> unwrapChain P' i = unwrapChain P i"
  by (auto simp: unwrapChain_def map_leD)

lemma CanBeAuxEndpoint_mono:
  assumes "P \<subseteq>\<^sub>m P'" "CanBeAuxEndpoint P (P i)"
  shows "CanBeAuxEndpoint P' (P' i)"
proof -
  obtain p where p: "P i = Some p" "pr_outbound p \<noteq> None" and
    kind: "is_vpn p \<or> (pr_type p = ''chain'' \<and> (\<exists>e es q. unwrapChain P (pr_id p) = e # es \<and> P e = Some q \<and> is_vpn q))"
    using assms(2) by (auto simp: CanBeAuxEndpoint_def split: option.splits if_splits list.splits)
  have "unwrapChain P' (pr_id p) = e # es" if "unwrapChain P (pr_id p) = e # es" for e es
    using unwrapChain_mono [OF assms(1), of "pr_id p"] that by (cases "P (pr_id p)") (auto simp: unwrapChain_def)
  with kind show ?thesis
    using p map_leD [OF assms(1)] by (auto simp: CanBeAuxEndpoint_def split: list.splits)
qed

lemma grows_AdoptConfig:
  assumes "shelf_ok sf"
  shows "grows sf (fst (snd (routeProfileAdoptConfig E config hopMap (sf, w))))"
  using grows_AddProfile [OF assms] grows_refl [OF assms]
  by (auto simp: routeProfileAdoptConfig_def Let_def split: option.splits prod.splits if_splits) (metis snd_conv)+

lemma grows_adopt_hops:
  "shelf_ok (fst st) \<Longrightarrow> grows (fst st) (fst (snd (adopt_hops E items hopMap st)))"
proof (induction items arbitrary: hopMap st)
  case Nil
  then show ?case by (simp add: grows_refl)
next
  case (Cons item items)
  obtain sf w where st: "st = (sf, w)" by (cases st)
  show ?case
  proof (cases "to_int INVALID_ID (jget (to_obj item) ''id'') = INVALID_ID")
    case True
    with Cons.prems show ?thesis by (simp add: st grows_refl Let_def)
  next
    case False
    let ?a = "routeProfileAdoptConfig E (to_obj (jget (to_obj item) ''config'')) Map.empty st"
    have one: "grows sf (fst (snd ?a))"
      using grows_AdoptConfig [of sf E _ Map.empty w] Cons.prems st by simp
    then have ok: "shelf_ok (fst (snd ?a))" by (simp add: grows_def)
    show ?thesis
      using False one grows_trans [OF one] Cons.IH [OF ok]
      by (simp add: st Let_def split_beta)
  qed
qed

lemma grows_AdoptEndpoint:
  assumes "shelf_ok (fst st)"
  shows "grows (fst st) (fst (snd (routeProfileAdoptEndpoint E entry st)))"
proof -
  obtain m st' where hops: "adopt_hops E (to_arr (jget entry ''hops'')) Map.empty st = (m, st')"
    by (cases "adopt_hops E (to_arr (jget entry ''hops'')) Map.empty st")
  then have one: "grows (fst st) (fst st')"
    using grows_adopt_hops [OF assms, of E "to_arr (jget entry ''hops'')" Map.empty] by simp
  then have "shelf_ok (fst st')" by (simp add: grows_def)
  then have "grows (fst st') (fst (snd (routeProfileAdoptConfig E c h st')))" for c h
    using grows_AdoptConfig [of "fst st'" E c h "snd st'"] by simp
  with one grows_trans [OF one] show ?thesis
    by (auto simp: routeProfileAdoptEndpoint_def hops split: option.splits)
qed

text \<open>What holds of the endpoints collected so far.\<close>

definition import_ok :: "shelf \<Rightarrow> endpoint_import \<Rightarrow> bool" where
  "import_ok sf ei \<longleftrightarrow> grows sf (ei_shelf ei) \<and> distinct (ei_ids ei)
    \<and> (\<forall>i \<in> set (ei_ids ei). CanBeAuxEndpoint (sf_profiles (ei_shelf ei)) (sf_profiles (ei_shelf ei) i))"

lemma import_endpoint_ok:
  assumes "import_ok sf ei"
  shows "import_ok sf (import_endpoint E materialize item ei)"
proof (cases "is_object item \<and> \<not> materialize")
  case True
  with assms show ?thesis by (simp add: import_endpoint_def)
next
  case False
  obtain i sf' w where local: "local_id E item (ei_shelf ei, ei_warnings ei) = (i, sf', w)"
    by (cases "local_id E item (ei_shelf ei, ei_warnings ei)")
  have ok: "shelf_ok (ei_shelf ei)" using assms by (simp add: import_ok_def grows_def)
  then have "grows (ei_shelf ei) (fst (snd (local_id E item (ei_shelf ei, ei_warnings ei))))"
    using grows_AdoptEndpoint [of "(ei_shelf ei, ei_warnings ei)" E] grows_refl by (simp add: local_id_def)
  then have more: "grows (ei_shelf ei) sf'" by (simp add: local)
  then have "CanBeAuxEndpoint (sf_profiles sf') (sf_profiles sf' j)" if "j \<in> set (ei_ids ei)" for j
    using assms CanBeAuxEndpoint_mono that by (auto simp: import_ok_def grows_def)
  moreover have "grows sf sf'" using assms more grows_trans by (auto simp: import_ok_def)
  ultimately show ?thesis
    using assms False by (auto simp: import_endpoint_def local import_ok_def Let_def)
qed

lemma endpoints_from_json_ok:
  assumes "shelf_ok sf"
  shows "import_ok sf (routeProfileEndpointsFromJson E materialize arr sf w)"
proof -
  have "import_ok sf ei \<Longrightarrow> import_ok sf (fold (import_endpoint E materialize) arr ei)" for ei
    by (induction arr arbitrary: ei) (simp_all add: import_endpoint_ok)
  then show ?thesis
    unfolding routeProfileEndpointsFromJson_def
    using assms by (simp add: import_ok_def grows_refl)
qed

text \<open>
  C33: Importing a shared profile neither loses nor changes a profile that is here; the profile that
  comes out lists each of its endpoints once, every one of them exists here now and is a VPN or a
  chain that exits through one, and a structured profile has exactly one rule per listed endpoint.
\<close>

theorem imported_endpoints_usable:
  assumes "shelf_ok sf" "FromShareInput E materialize inp sf w = Some (Inr (P, False), w', sf')"
  shows "sf_profiles sf \<subseteq>\<^sub>m sf_profiles sf'
    \<and> distinct (rt_endpointProfileIDs P)
    \<and> (\<forall>i \<in> set (rt_endpointProfileIDs P). CanBeAuxEndpoint (sf_profiles sf') (sf_profiles sf' i))
    \<and> (rt_isRaw P \<or> distinct (map rr_outboundID (endpoint_rules P))
        \<and> rr_outboundID ` set (endpoint_rules P) = set (rt_endpointProfileIDs P))"
proof -
  obtain body doc where doc: "share_payload E inp = Inr body" "share_document E body = JObj doc"
    using assms(2) by (auto simp: FromShareInput_def split: sum.splits json.splits if_splits)
  let ?ei = "routeProfileEndpointsFromJson E materialize (to_arr (jget doc ''endpoints'')) sf w"
  have ok: "import_ok sf ?ei" by (rule endpoints_from_json_ok [OF assms(1)])
  consider "Some (import_raw E materialize doc sf w) = Some (Inr (P, False), w', sf')"
    | "import_structured E materialize doc sf w = Some (Inr (P, False), w', sf')"
    using assms(2) doc by (auto simp: FromShareInput_def split: if_splits)
  then show ?thesis
  proof cases
    case 1
    then have "rt_endpointProfileIDs P = ei_ids ?ei \<and> sf' = ei_shelf ?ei \<and> rt_isRaw P"
      by (auto simp: import_raw_def Let_def split: prod.splits)
    with ok show ?thesis by (simp add: import_ok_def grows_def)
  next
    case 2
    then obtain Q where Q: "P = SyncEndpointRules (on_shelf sf' E) Q" "\<not> rt_isRaw Q"
      "rt_endpointProfileIDs Q = ei_ids ?ei" "sf' = ei_shelf ?ei"
      by (auto simp: import_structured_def Let_def new_routeProfile_def)
    then have "rt_endpointProfileIDs P = ei_ids ?ei"
      by (simp add: SyncEndpointRules_def split_beta)
    with ok Q sync_endpoint_ids [of Q "on_shelf sf' E"] show ?thesis
      by (simp add: import_ok_def grows_def)
  qed
qed

text \<open>A shared object with one endpoint that is here and one that has to be created.\<close>

definition demo_shelf :: shelf where
  "demo_shelf = \<lparr>sf_profiles = demo_profiles, sf_ids = [7, 8], sf_last_id = 8, sf_gid = 0, sf_group_exists = True\<rparr>"

definition demo_document :: jobject where
  "demo_document = [(''endpoints'', JArr [jint 7,
       JObj [(''config'', JObj [(''type'', JStr ''openvpn'')]), (''id'', jint 3)]]),
     (''kind'', JStr ''quattro-route-profile''), (''name'', JStr ''work''),
     (''rules'', JArr [JObj [(''name'', JStr ''e''), (''outbound'', jint 3), (''type'', JStr ''endpoint_preferred_by'')]])]"

definition demo_share :: share_env where
  "demo_share = routing_env.extend demo_routing
     (share_env.fields (\<lambda>p. pr_name p) (\<lambda>p. True)
       (\<lambda>t. if t = ''openvpn'' then Some ((demo_profile (-1) [])) else None) (\<lambda>ob p. p) (\<lambda>p. []) (\<lambda>p. p)
       (\<lambda>p. if pr_name p = [] then [] else [(''name'', JStr (pr_name p))])
       (\<lambda>ob. if ob = [] then [1] else [2]) (\<lambda>bs. JObj demo_document) (\<lambda>bs. ''x'') (\<lambda>bs. bs) (\<lambda>bs. bs)
       (\<lambda>s. None) (\<lambda>s. s) (\<lambda>s. None))"

theorem imported_endpoints_usable_witness:
  "\<exists>P w' sf'. FromShareInput demo_share True ''work'' demo_shelf [] = Some (Inr (P, False), w', sf')
     \<and> rt_endpointProfileIDs P = [7, 9] \<and> sf_profiles demo_shelf \<subseteq>\<^sub>m sf_profiles sf'
     \<and> rr_outboundID ` set (endpoint_rules P) = {7, 9}"
proof -
  have "(case FromShareInput demo_share True ''work'' demo_shelf [] of
      Some (Inr (P, b), w', sf') \<Rightarrow> rt_endpointProfileIDs P = [7, 9] \<and> \<not> b \<and> \<not> rt_isRaw P | _ \<Rightarrow> False)"
    by code_simp
  then obtain P w' sf' where run: "FromShareInput demo_share True ''work'' demo_shelf [] = Some (Inr (P, False), w', sf')"
      "rt_endpointProfileIDs P = [7, 9]" "\<not> rt_isRaw P"
    by (cases "FromShareInput demo_share True ''work'' demo_shelf []"; cases "fst (the (FromShareInput demo_share True ''work'' demo_shelf []))")
       (auto split: prod.splits)
  have "shelf_ok demo_shelf"
    by (auto simp: shelf_ok_def demo_shelf_def demo_profiles_def split: if_splits)
  from imported_endpoints_usable [OF this run(1)] run show ?thesis by auto
qed

end
