(* ===== verification/Spec2Isabelle.thy ===== *)
theory Spec2Isabelle
  imports
    Prelude Json JsonCodec Outbounds Wireguard OutboundProps
    CommonFields CommonReload Protocols ProtocolReload ProtocolProps
    GenContext ChainBuild ChainBuildProps ChainEmit ChainProps ChainPathProps
    PrereqBuild DnsBuild OutboundBuild RouteBuild TestBuild ConfigDemo
    SectionProps PrereqProps ConfigProps DnsProps PoolPorts TestProps
    OtpCodec Otp OtpProps
    AutoSelector AutoSelectorProps Profile Group GroupSort GroupProps
    ProfileFilter Repository Subscription RepositoryProps SubscriptionProps RefreshProps
    AutoSelectorPlan AutoSelectorPlanProps
    AutoSelectorMonitor AutoSelectorMonitorProps
    TrafficStats TrafficStatsProps ConnectionLister ConnectionProps TrafficLooper TrafficLooperProps
    Cidr CidrProps RouteRule RawRoute RouteProfile RouteProfileProps SimpleRules RouteShare RouteShareProps RouteImportProps
begin

text \<open>
  A verification of the decision-making core of the desktop client: how it turns stored profiles,
  routing profiles and settings into the configurations that its core process runs, how it chooses and
  supervises the members of an auto selector, how it keeps groups in step with their subscriptions, and
  how it accounts for traffic and one-time passwords. The client is C++ on Qt; paths below are those of
  the repository under \<^verbatim>\<open>src/src\<close> and \<^verbatim>\<open>src/include\<close>.

  How the program hangs together. A \<^verbatim>\<open>Profile\<close> is an id with an \<^verbatim>\<open>outbound\<close>, the settings of one
  server; a \<^verbatim>\<open>Group\<close> is an ordered list of profile ids, filled by hand or from a subscription by
  \<^verbatim>\<open>GroupUpdater\<close>. Starting a profile runs \<^verbatim>\<open>BuildSingBoxConfig\<close> in \<^verbatim>\<open>configs/generate.cpp\<close>: it
  collects the profiles the route profile refers to and the VPN endpoints to run beside them
  (\<^verbatim>\<open>calculatePrerequisites\<close>), builds a chain of outbounds for each (\<^verbatim>\<open>buildOutboundChain\<close>,
  \<^verbatim>\<open>buildAutoSelectorChains\<close>), and writes the log, DNS, inbound, route and experimental sections around
  them. An auto selector takes its members from \<^verbatim>\<open>AutoSelectorPlan.cpp\<close>; once it runs,
  \<^verbatim>\<open>AutoSelectorMonitor\<close> polls the core, publishes a view, writes latencies back and asks for a rebuild
  when its pool is dead. \<^verbatim>\<open>TrafficLooper\<close> and \<^verbatim>\<open>ConnectionLister\<close> poll the same core and credit bytes to
  profiles, to the minute accumulators of \<^verbatim>\<open>TrafficStatsManager\<close> and to the two tiers of
  \<^verbatim>\<open>TrafficStatsRepo\<close>.

  Conventions. A \<^verbatim>\<open>QString\<close> is a string, a \<^verbatim>\<open>QJsonObject\<close> an association list without double keys
  (theory Json), an id an int, a container keyed by id a map. \<^verbatim>\<open>nullptr\<close> and every early return is
  \<^verbatim>\<open>None\<close> or a value of a sum type; exceptions of the core's answers are \<^verbatim>\<open>Inl\<close>. What Qt computes (case
  folding, trimming, number parsing, URLs, base64, JSON text, file and regular-expression access), what the
  core answers, the clock and the random numbers are fields of a record of parameters
  or arguments of the operation; a property that needs a law of them names it as a hypothesis and
  its witness gives a concrete instance.

  The parts, in dependency order, each with the theories of its definitions and, after a semicolon, of
  its properties.
  \<^item> Prelude, Json, JsonCodec: shared vocabulary, association-list objects, and the table
    form in which every outbound class stores itself: a row per key with its writer and reader. The locales
    \<^verbatim>\<open>object_store\<close>, \<^verbatim>\<open>stored_form\<close>, \<^verbatim>\<open>counter_store\<close>, \<^verbatim>\<open>strict_weak_order\<close>, \<^verbatim>\<open>keyed_comparator\<close>,
    \<^verbatim>\<open>token_codec\<close>, \<^verbatim>\<open>wire_codec\<close> and \<^verbatim>\<open>field_table\<close> state the interfaces; each is interpreted on the
    definitions of the component that provides it.
  \<^item> Outbounds, Wireguard; OutboundProps: the base class of \<^verbatim>\<open>configs/common/Outbound.cpp\<close>, SOCKS,
    custom and WireGuard with its peer and AmneziaWG options, and what the database gives back of each.
  \<^item> CommonFields, Protocols; CommonReload, ProtocolReload, ProtocolProps: TLS, multiplexing,
    transport and sixteen classes of \<^verbatim>\<open>configs/outbounds\<close>; a stored profile builds the same outbound.
    \<^verbatim>\<open>X_ok\<close> is the condition of class X and \<^verbatim>\<open>X_reloaded\<close> the object that comes back.
  \<^item> GenContext, ChainBuild, ChainEmit, PrereqBuild, DnsBuild, OutboundBuild, RouteBuild, TestBuild;
    ChainBuildProps, ChainProps, ChainPathProps, SectionProps, PrereqProps, PoolPorts, ConfigProps,
    DnsProps, TestProps: \<^verbatim>\<open>configs/generate.cpp\<close>. The record \<^verbatim>\<open>build_context\<close> is the C++ class of
    that name; each \<^verbatim>\<open>build...\<close> function is a definition that takes and returns it. An error is the text in
    it and, as in the code, does not stop the build; the properties are about builds that report
    none. The invariant \<^verbatim>\<open>sound\<close> (a tag is given once, a detour or bridge leads to an object that exists) is
    kept by every stage; closedness of the outbounds, the rules and the DNS section, the
    order of the hops and the use of the ports are read off it. ConfigDemo is the environment of the
    witnesses.
  \<^item> Profile, Group, GroupSort; GroupProps: \<^verbatim>\<open>database/entities/Group.cpp\<close> and
    \<^verbatim>\<open>ui/group/GroupSort.hpp\<close>: row operations against a set, and the order a sort leaves.
  \<^item> ProfileFilter, Repository, Subscription; RepositoryProps, SubscriptionProps, RefreshProps:
    \<^verbatim>\<open>ProfileFilter\<close> in \<^verbatim>\<open>database/entities/Profile.cpp\<close>, \<^verbatim>\<open>database/ProfilesRepo.cpp\<close>,
    \<^verbatim>\<open>database/GroupsRepo.cpp\<close> and \<^verbatim>\<open>configs/sub/GroupUpdater.cpp\<close>. An object and its row are one entry of
    a map, a pointer is the id. \<^verbatim>\<open>repo_ok\<close> (rows and groups name each other) is kept by every
    operation; a refresh leaves the group as the subscription lists it.
  \<^item> AutoSelector, AutoSelectorPlan; AutoSelectorProps, AutoSelectorPlanProps:
    \<^verbatim>\<open>configs/outbounds/autoselector.h\<close> and \<^verbatim>\<open>configs/AutoSelectorPlan.cpp\<close>: settings, history, the
    filters, the policy order, the caps and the rerank after a test.
  \<^item> AutoSelectorMonitor; AutoSelectorMonitorProps: \<^verbatim>\<open>stats/autoselector/AutoSelectorMonitor.cpp\<close>.
    The three locked sections of a poll are functions; \<^verbatim>\<open>mon_step\<close> interleaves them with builds
    and stops of the other thread, and \<^verbatim>\<open>reachable\<close> is its closure. Two properties are
    reachable states that should not be (findings).
  \<^item> TrafficStats, ConnectionLister, TrafficLooper; TrafficStatsProps, ConnectionProps,
    TrafficLooperProps: \<^verbatim>\<open>stats/traffic\<close>, \<^verbatim>\<open>stats/connectionLister\<close> and
    \<^verbatim>\<open>database/TrafficStatsRepo.cpp\<close>: conservation of bytes through accumulators, tiers and maintenance,
    per-connection accounting, agreement of the two books, and what is unsaved at most.
  \<^item> Cidr; CidrProps: the prefix arithmetic of \<^verbatim>\<open>configs/generate.cpp\<close> on addresses of 4 and 16 bytes.
  \<^item> RouteRule, RawRoute, RouteProfile, RouteShare; RouteProfileProps, SimpleRules, RouteShareProps,
    RouteImportProps: \<^verbatim>\<open>database/entities/RouteRule.cpp\<close> and \<^verbatim>\<open>RouteProfile.cpp\<close>: rules and their field
    tables, endpoint rules, walks over raw JSON, the simple rules as text, sharing and importing.
  \<^item> OtpCodec, Otp; OtpProps: \<^verbatim>\<open>global/OTP.cpp\<close>: base32, the protobuf wire format, HOTP and TOTP,
    links, migration links and imports.

  Recursion and bounds. Loops over containers are structural. \<^verbatim>\<open>follow_for\<close>, with which a reader
  walks the links between emitted objects, is bounded by the number of objects; the tags are distinct,
  so a longer walk would repeat one. \<^verbatim>\<open>IsValid\<close> and \<^verbatim>\<open>BuildTestConfig\<close> call themselves on the
  hops of a chain with no check for cycles: they take a depth, give \<^verbatim>\<open>None\<close> when it runs out, and
  \<^verbatim>\<open>validity_check_returns\<close> says for which profiles some depth suffices. The serial update of all groups
  has a measure, the groups left. The varint reader stops after ten bytes as the code does. Integers are
  unbounded where the code cannot leave their range under the conditions named with a property;
  words are used for the wire formats, the HMAC digits and the prefixes, and \<^verbatim>\<open>int_of_len\<close> and \<^verbatim>\<open>is_int32\<close>
  write out the 32-bit conversions that matter.

  What the main properties do not cover, beside the conditions in their texts: a closed configuration and
  DNS section are shown for builds without an error and without texts the user supplies whole (a full custom
  configuration, a raw route, a DNS object, a custom outbound with a detour of its own); the traffic
  books assume that the writes of the statistics commit; the monitor's liveness assumes that polls go on
  and that the machine has a network.

  Not modelled: the widgets and dialogs, the parsers of share links and of subscription formats (a refresh
  takes the profiles they yield), the Xray classes beyond what the build asks of them, the RPC marshalling,
  the settings store, SQL text, the platform layer, the Go core and the third-party code. They are pure
  glue, foreign formats on Qt's parsers, or in another language; what the modelled code needs of them
  is a parameter.
\<close>

end
